(* ===== verification/Prelude.thy ===== *)
theory Prelude
  imports Main "HOL-Library.Word"
begin

text \<open>
  Shared vocabulary of the development: machine words of the widths the C++ code uses, the error
  values a C++ operation can end in, the sequencing of fallible operations, the checked and the
  unchecked element access of \<open>std::vector\<close>, and loops over a list of indices whose body may
  fail.  The lemmas at the end are about lists only and are used by every component.
\<close>

section \<open>Machine types\<close>

type_synonym u8 = "8 word"    \<comment> \<open>\<open>unsigned char\<close>\<close>
type_synonym u16 = "16 word"  \<comment> \<open>\<open>unsigned short\<close>\<close>
type_synonym u32 = "32 word"  \<comment> \<open>\<open>unsigned int\<close>\<close>

text \<open>
  Simulation time is a 64-bit fixed point number; the model counts it in picoseconds, the default
  resolution of the simulation kernel, as an unbounded integer.
\<close>

type_synonym simtime = int

definition simtime_s :: simtime where
  "simtime_s = 1000000000000"

definition simtime_ms :: simtime where
  "simtime_ms = 1000000000"

section \<open>Errors and fallible operations\<close>

text \<open>
  \<open>RuntimeError\<close> is a thrown \<open>cRuntimeError\<close>, \<open>OutOfRange\<close> the \<open>std::out_of_range\<close> of a checked
  access, \<open>Undefined\<close> an operation the language leaves undefined (dereferencing a null pointer,
  an unchecked access past the end, taking the front of an empty list).  \<open>NoReturn\<close> is the outcome of
  a loop that never ends.
\<close>

datatype cpp_error = RuntimeError string | OutOfRange | Undefined string | NoReturn

type_synonym 'a result = "cpp_error + 'a"

definition bindE :: "'a result \<Rightarrow> ('a \<Rightarrow> 'b result) \<Rightarrow> 'b result" where
  "bindE m f = (case m of Inl e \<Rightarrow> Inl e | Inr x \<Rightarrow> f x)"

text \<open>\<open>None\<close> is a loop that does not end; as the outcome of a call it is \<open>NoReturn\<close>.\<close>

definition returns :: "'a result option \<Rightarrow> 'a result" where
  "returns r = (case r of None \<Rightarrow> Inl NoReturn | Some m \<Rightarrow> m)"

definition is_ok :: "'a result \<Rightarrow> bool" where
  "is_ok m = (case m of Inl _ \<Rightarrow> False | Inr _ \<Rightarrow> True)"

lemma bindE_simps [simp]:
  "bindE (Inl e) f = Inl e"
  "bindE (Inr x) f = f x"
  by (simp_all add: bindE_def)

lemma is_ok_simps [simp]:
  "\<not> is_ok (Inl e)"
  "is_ok (Inr x)"
  by (simp_all add: is_ok_def)

lemma bindE_eq_Inr [simp]: "bindE m f = Inr y \<longleftrightarrow> (\<exists>x. m = Inr x \<and> f x = Inr y)"
  by (cases m) auto

lemma bindE_eq_Inl: "bindE m f = Inl e \<longleftrightarrow> m = Inl e \<or> (\<exists>x. m = Inr x \<and> f x = Inl e)"
  by (cases m) auto

lemma is_ok_iff: "is_ok m \<longleftrightarrow> (\<exists>x. m = Inr x)"
  by (cases m) auto

lemma is_ok_bindE [simp]: "is_ok (bindE m f) \<longleftrightarrow> (\<exists>x. m = Inr x \<and> is_ok (f x))"
  by (cases m) auto

lemma bindE_assoc: "bindE (bindE m f) g = bindE m (\<lambda>x. bindE (f x) g)"
  by (cases m) auto

lemma bindE_cong [fundef_cong]:
  "m = m' \<Longrightarrow> (\<And>x. m' = Inr x \<Longrightarrow> f x = g x) \<Longrightarrow> bindE m f = bindE m' g"
  by (cases m') auto

section \<open>Vectors\<close>

text \<open>\<open>v[i]\<close> is undefined past the end, \<open>v.at(i)\<close> throws \<open>std::out_of_range\<close>.\<close>

definition vec_get :: "'a list \<Rightarrow> nat \<Rightarrow> 'a result" where
  "vec_get xs i = (if i < length xs then Inr (xs ! i) else Inl (Undefined ''vector index''))"

definition vec_at :: "'a list \<Rightarrow> nat \<Rightarrow> 'a result" where
  "vec_at xs i = (if i < length xs then Inr (xs ! i) else Inl OutOfRange)"

definition vec_set :: "'a list \<Rightarrow> nat \<Rightarrow> 'a \<Rightarrow> 'a list result" where
  "vec_set xs i x = (if i < length xs then Inr (xs[i := x]) else Inl (Undefined ''vector index''))"

definition vec_put :: "'a list \<Rightarrow> nat \<Rightarrow> 'a \<Rightarrow> 'a list result" where
  "vec_put xs i x = (if i < length xs then Inr (xs[i := x]) else Inl OutOfRange)"

text \<open>\<open>v.resize(n, d)\<close> truncates, or pads with \<open>d\<close>.\<close>

definition vec_resize :: "'a list \<Rightarrow> nat \<Rightarrow> 'a \<Rightarrow> 'a list" where
  "vec_resize xs n d = take n xs @ replicate (n - length xs) d"

lemma vec_get_eq_Inr [simp]: "vec_get xs i = Inr x \<longleftrightarrow> i < length xs \<and> x = xs ! i"
  by (auto simp: vec_get_def)

lemma vec_at_eq_Inr [simp]: "vec_at xs i = Inr x \<longleftrightarrow> i < length xs \<and> x = xs ! i"
  by (auto simp: vec_at_def)

lemma vec_set_eq_Inr [simp]: "vec_set xs i x = Inr ys \<longleftrightarrow> i < length xs \<and> ys = xs[i := x]"
  by (auto simp: vec_set_def)

lemma vec_put_eq_Inr [simp]: "vec_put xs i x = Inr ys \<longleftrightarrow> i < length xs \<and> ys = xs[i := x]"
  by (auto simp: vec_put_def)

lemma vec_get_ok: "i < length xs \<Longrightarrow> vec_get xs i = Inr (xs ! i)"
  by simp

lemma vec_at_ok: "i < length xs \<Longrightarrow> vec_at xs i = Inr (xs ! i)"
  by simp

lemma length_vec_resize [simp]: "length (vec_resize xs n d) = n"
  by (simp add: vec_resize_def)

lemma nth_vec_resize:
  "i < n \<Longrightarrow> vec_resize xs n d ! i = (if i < length xs then xs ! i else d)"
  by (auto simp: vec_resize_def nth_append)

section \<open>Loops whose body may fail\<close>

fun foldE :: "('a \<Rightarrow> 's \<Rightarrow> 's result) \<Rightarrow> 'a list \<Rightarrow> 's \<Rightarrow> 's result" where
  "foldE f [] s = Inr s"
| "foldE f (x # xs) s = bindE (f x s) (foldE f xs)"

lemma foldE_append: "foldE f (xs @ ys) s = bindE (foldE f xs s) (foldE f ys)"
  by (induction xs arbitrary: s) (simp_all add: bindE_def split: sum.splits)

text \<open>An invariant of the body is an invariant of the loop.\<close>

lemma foldE_invariant:
  assumes "foldE f xs s = Inr t" and "P s"
    and "\<And>x s s'. x \<in> set xs \<Longrightarrow> P s \<Longrightarrow> f x s = Inr s' \<Longrightarrow> P s'"
  shows "P t"
  using assms by (induction xs arbitrary: s) auto

text \<open>A body that cannot fail while the invariant holds gives a loop that cannot fail.\<close>

lemma foldE_total:
  assumes "P s"
    and "\<And>x s. x \<in> set xs \<Longrightarrow> P s \<Longrightarrow> \<exists>s'. f x s = Inr s' \<and> P s'"
  shows "\<exists>t. foldE f xs s = Inr t \<and> P t"
  using assms
proof (induction xs arbitrary: s)
  case Nil
  then show ?case by simp
next
  case (Cons x xs)
  from Cons.prems(1) Cons.prems(2)[of x s] obtain s' where s': "f x s = Inr s'" "P s'" by auto
  from Cons.IH[OF s'(2)] Cons.prems(2) show ?case using s' by simp
qed

lemma foldE_cong [fundef_cong]:
  assumes "xs = ys" "s = t" "\<And>x s. x \<in> set ys \<Longrightarrow> f x s = g x s"
  shows "foldE f xs s = foldE g ys t"
  using assms(3) unfolding assms(1,2) by (induction ys arbitrary: t) (auto simp: bindE_def split: sum.splits)

text \<open>A body that adds to two accumulators gives the two sums.\<close>

lemma foldE_sums:
  fixes f :: "nat \<Rightarrow> 'a::comm_monoid_add" and g :: "nat \<Rightarrow> 'b::comm_monoid_add"
  assumes "\<And>i x y. i < n \<Longrightarrow> F i (x, y) = Inr (x + f i, y + g i)"
  shows "foldE F [0..<n] (x, y) = Inr (x + (\<Sum>i<n. f i), y + (\<Sum>i<n. g i))"
  using assms by (induction n) (simp_all add: foldE_append add.assoc)

text \<open>A body that ignores a part of the state gives a loop that ignores it.\<close>

lemma foldE_commute:
  assumes "\<And>x s. f x (g s) = bindE (f x s) (\<lambda>t. Inr (g t))"
  shows "foldE f xs (g s) = bindE (foldE f xs s) (\<lambda>t. Inr (g t))"
proof (induction xs arbitrary: s)
  case Nil
  then show ?case by simp
next
  case (Cons x xs)
  then show ?case by (cases "f x s") (simp_all add: assms)
qed

section \<open>Counting the slots of a table\<close>

text \<open>
  A component often keeps a counter beside a vector, of how many of its slots are in a given
  condition.  One write moves at most one slot in or out of the condition.
\<close>

definition slots :: "('a \<Rightarrow> bool) \<Rightarrow> 'a list \<Rightarrow> nat" where
  "slots P xs = length (filter P xs)"

lemma slots_simps [simp]:
  "slots P [] = 0"
  "slots P (x # xs) = (if P x then Suc (slots P xs) else slots P xs)"
  by (simp_all add: slots_def)

lemma slots_le: "slots P xs \<le> length xs"
  by (simp add: slots_def)

lemma slots_update:
  "i < length xs \<Longrightarrow>
   slots P (xs[i := y]) + (if P (xs ! i) then 1 else 0) = slots P xs + (if P y then 1 else 0)"
proof (induction xs arbitrary: i)
  case Nil
  then show ?case by simp
next
  case (Cons x xs)
  then show ?case by (cases i) auto
qed

lemma slots_update_same:
  "i < length xs \<Longrightarrow> P (xs ! i) = P y \<Longrightarrow> slots P (xs[i := y]) = slots P xs"
  using slots_update[of i xs P y] by (auto split: if_splits)

lemma slots_update_out:
  "i < length xs \<Longrightarrow> P (xs ! i) \<Longrightarrow> \<not> P y \<Longrightarrow> Suc (slots P (xs[i := y])) = slots P xs"
  using slots_update[of i xs P y] by simp

lemma slots_update_in:
  "i < length xs \<Longrightarrow> \<not> P (xs ! i) \<Longrightarrow> P y \<Longrightarrow> slots P (xs[i := y]) = Suc (slots P xs)"
  using slots_update[of i xs P y] by simp

lemma slots_pos: "i < length xs \<Longrightarrow> P (xs ! i) \<Longrightarrow> 0 < slots P xs"
  by (auto simp: slots_def filter_empty_conv)

lemma slots_eq_length_iff: "slots P xs = length xs \<longleftrightarrow> list_all P xs"
proof (induction xs)
  case Nil
  then show ?case by simp
next
  case (Cons x xs)
  then show ?case using slots_le[of P xs] by auto
qed

lemma slots_replicate: "slots P (replicate n x) = (if P x then n else 0)"
  by (induction n) auto

lemma slots_zero_iff: "slots P xs = 0 \<longleftrightarrow> list_all (\<lambda>x. \<not> P x) xs"
  by (induction xs) auto

lemma slots_map: "slots P (map f xs) = slots (P \<circ> f) xs"
  by (induction xs) auto

lemma Min_insert_smaller:
  fixes a :: "'a::linorder"
  assumes "finite A"
  shows "Min (insert (if b < a then b else a) A) = Min (insert a (insert b A))"
proof (cases "A = {}")
  case True
  then show ?thesis by (auto simp: min_def)
next
  case False
  define k where "k = Min A"
  have "Min (insert c A) = min c k" for c using assms False by (simp add: k_def)
  moreover have "Min (insert a (insert b A)) = min a (min b k)" using assms False by (simp add: k_def)
  ultimately show ?thesis by (auto simp: min_def)
qed

lemma Min_insert_larger:
  fixes a :: "'a::linorder"
  assumes "finite A" "A \<noteq> {}" "Min A < a"
  shows "Min (insert a A) = Min A"
proof -
  have "Min (insert a A) = min a (Min A)" using assms by simp
  then show ?thesis using assms(3) by (metis less_imp_le min.absorb2)
qed

section \<open>Sums over a finite index type\<close>

lemma sum_fun_upd:
  fixes g :: "'k::finite \<Rightarrow> 'a" and f :: "'a \<Rightarrow> nat"
  shows "(\<Sum>b\<in>UNIV. f ((g(k := x)) b)) + f (g k) = (\<Sum>b\<in>UNIV. f (g b)) + f x"
proof -
  have "(\<Sum>b\<in>UNIV. f ((g(k := x)) b)) = f x + (\<Sum>b\<in>UNIV - {k}. f ((g(k := x)) b))"
    using sum.remove[of UNIV k "\<lambda>b. f ((g(k := x)) b)"] by simp
  moreover have "(\<Sum>b\<in>UNIV - {k}. f ((g(k := x)) b)) = (\<Sum>b\<in>UNIV - {k}. f (g b))"
    by (rule sum.cong) auto
  moreover have "(\<Sum>b\<in>UNIV. f (g b)) = f (g k) + (\<Sum>b\<in>UNIV - {k}. f (g b))"
    using sum.remove[of UNIV k "\<lambda>b. f (g b)"] by simp
  ultimately show ?thesis by simp
qed

section \<open>Words used as counters\<close>

lemma unat_Suc_word: "unat (w :: 'a::len word) < 2 ^ LENGTH('a) - 1 \<Longrightarrow> unat (w + 1) = Suc (unat w)"
  by (simp add: unat_word_ariths)

lemma unat_pred_word: "0 < unat (w :: 'a::len word) \<Longrightarrow> unat (w - 1) = unat w - 1"
  by (metis One_nat_def Suc_leI unat_1 unat_sub word_le_nat_alt)

lemma unat_ucast_u8_u32 [simp]: "unat (ucast (t :: u8) :: u32) = unat t"
  by transfer (simp add: take_bit_take_bit)

lemma unat_ucast_u8_u16 [simp]: "unat (ucast (t :: u8) :: u16) = unat t"
  by transfer (simp add: take_bit_take_bit)

lemma unat_ucast_u16_u32 [simp]: "unat (ucast (t :: u16) :: u32) = unat t"
  by transfer (simp add: take_bit_take_bit)

end
