(* ===== verification/LteTypes.thy ===== *)
theory LteTypes
  imports Prelude
begin

text \<open>
  The data the LTE stack passes between its layers: the enumerations and constants of
  \<^verbatim>\<open>simulte/src/common/LteCommon.h\<close> that the modelled code uses, the control information attached
  to a MAC PDU, and the MAC PDU itself with its list operations
  (\<^verbatim>\<open>simulte/src/stack/mac/packet/LteMacPdu.h\<close>).
\<close>

section \<open>Enumerations and constants of LteCommon.h\<close>

datatype direction = DL | UL | UNKNOWN_DIRECTION

datatype lte_node_type = INTERNET | ENODEB | RELAY | UE | UNKNOWN_NODE_TYPE

datatype lte_phy_frame_type =
    DATAPKT | BROADCASTPKT | FEEDBACKPKT | HANDOVERPKT | HARQPKT | GRANTPKT | RACPKT | UNKNOWN_TYPE

datatype harq_ack = HARQNACK | HARQACK

datatype tx_harq_status =
    TXHARQ_PDU_BUFFERED | TXHARQ_PDU_WAITING | TXHARQ_PDU_EMPTY | TXHARQ_PDU_SELECTED

datatype rx_harq_status =
    RXHARQ_PDU_EMPTY | RXHARQ_PDU_EVALUATING | RXHARQ_PDU_CORRECT | RXHARQ_PDU_CORRUPTED

type_synonym codeword = u16
type_synonym mac_node_id = u16
type_synonym acid = u8

definition MAX_CODEWORDS :: nat where
  "MAX_CODEWORDS = 2"

definition HARQ_NONE :: acid where
  "HARQ_NONE = 255"

text \<open>\<open>3*TTI\<close> with \<open>TTI = 0.001\<close> seconds.\<close>

definition HARQ_FB_EVALUATION_INTERVAL :: simtime where
  "HARQ_FB_EVALUATION_INTERVAL = 3 * simtime_ms"

text \<open>A list of units of one process: the process identifier and the codewords.\<close>

type_synonym unit_list = "acid \<times> codeword list"

section \<open>Packets and control information\<close>

text \<open>
  A MAC SDU is a packet of a given byte length; a control element is only ever moved.  Both carry
  a number that tells them apart.
\<close>

record mac_sdu =
  sdu_id :: int
  sdu_bytes :: int

type_synonym mac_ce = int

text \<open>The fields of \<open>UserControlInfo\<close> that the H-ARQ code reads or writes.\<close>

record user_info =
  ui_sourceId :: mac_node_id
  ui_destId :: mac_node_id
  ui_direction :: direction
  ui_frameType :: lte_phy_frame_type
  ui_acid :: acid
  ui_cw :: u8
  ui_txNumber :: u8
  ui_ndi :: bool
  ui_deciderResult :: bool

record mac_pdu =
  pdu_id :: int
  pdu_headerLength :: u32
  pdu_macPduLength :: int
  pdu_sduList :: "mac_sdu list"
  pdu_ceList :: "mac_ce list"
  pdu_creationTime :: simtime
  pdu_info :: user_info

text \<open>The H-ARQ feedback packet; the last three fields are its control information.\<close>

record harq_feedback =
  fb_acid :: acid
  fb_cw :: u8
  fb_result :: bool
  fb_pduId :: int
  fb_sourceId :: mac_node_id
  fb_destId :: mac_node_id
  fb_frameType :: lte_phy_frame_type

section \<open>Operations of LteMacPdu\<close>

definition pushSdu :: "mac_sdu \<Rightarrow> mac_pdu \<Rightarrow> mac_pdu" where
  "pushSdu pkt p = p\<lparr>pdu_macPduLength := pdu_macPduLength p + sdu_bytes pkt,
                      pdu_sduList := pdu_sduList p @ [pkt]\<rparr>"

definition popSdu :: "mac_pdu \<Rightarrow> (mac_sdu \<times> mac_pdu) result" where
  "popSdu p = (case pdu_sduList p of
      [] \<Rightarrow> Inl (Undefined ''front of empty list'')
    | pkt # rest \<Rightarrow> Inr (pkt, p\<lparr>pdu_sduList := rest,
                               pdu_macPduLength := pdu_macPduLength p - sdu_bytes pkt\<rparr>))"

definition hasSdu :: "mac_pdu \<Rightarrow> bool" where
  "hasSdu p \<longleftrightarrow> pdu_sduList p \<noteq> []"

definition pushCe :: "mac_ce \<Rightarrow> mac_pdu \<Rightarrow> mac_pdu" where
  "pushCe ce p = p\<lparr>pdu_ceList := pdu_ceList p @ [ce]\<rparr>"

definition popCe :: "mac_pdu \<Rightarrow> (mac_ce \<times> mac_pdu) result" where
  "popCe p = (case pdu_ceList p of
      [] \<Rightarrow> Inl (Undefined ''front of empty list'')
    | ce # rest \<Rightarrow> Inr (ce, p\<lparr>pdu_ceList := rest\<rparr>))"

definition hasCe :: "mac_pdu \<Rightarrow> bool" where
  "hasCe p \<longleftrightarrow> pdu_ceList p \<noteq> []"

definition getByteLength :: "mac_pdu \<Rightarrow> int" where
  "getByteLength p = pdu_macPduLength p + uint (pdu_headerLength p)"

definition getBitLength :: "mac_pdu \<Rightarrow> int" where
  "getBitLength p = getByteLength p * 8"

text \<open>
  The length field always equals the lengths of the SDUs in the list: this is what
  \<open>getByteLength\<close> relies on.
\<close>

definition sdu_bytes_sum :: "mac_sdu list \<Rightarrow> int" where
  "sdu_bytes_sum xs = sum_list (map sdu_bytes xs)"

definition pdu_length_ok :: "mac_pdu \<Rightarrow> bool" where
  "pdu_length_ok p \<longleftrightarrow> pdu_macPduLength p = sdu_bytes_sum (pdu_sduList p)"

lemma sdu_bytes_sum_simps [simp]:
  "sdu_bytes_sum [] = 0"
  "sdu_bytes_sum (x # xs) = sdu_bytes x + sdu_bytes_sum xs"
  "sdu_bytes_sum (xs @ ys) = sdu_bytes_sum xs + sdu_bytes_sum ys"
  by (simp_all add: sdu_bytes_sum_def)

lemma pushSdu_length_ok: "pdu_length_ok p \<Longrightarrow> pdu_length_ok (pushSdu x p)"
  by (simp add: pdu_length_ok_def pushSdu_def)

lemma popSdu_length_ok: "pdu_length_ok p \<Longrightarrow> popSdu p = Inr (x, q) \<Longrightarrow> pdu_length_ok q"
  by (auto simp: pdu_length_ok_def popSdu_def split: list.splits)

text \<open>
  The inner loops of the merge of two PDUs: \<open>while (guest->hasSdu()) base->pushSdu(guest->popSdu())\<close>
  and the same for the control elements.
\<close>

function moveSdus :: "mac_pdu \<Rightarrow> mac_pdu \<Rightarrow> (mac_pdu \<times> mac_pdu) result" where
  "moveSdus base guest =
     (if hasSdu guest
      then bindE (popSdu guest) (\<lambda>(pkt, guest'). moveSdus (pushSdu pkt base) guest')
      else Inr (base, guest))"
  by pat_completeness auto
termination
  by (relation "measure (\<lambda>(base, guest). length (pdu_sduList guest))")
    (auto simp: popSdu_def hasSdu_def split: list.splits)

function moveCes :: "mac_pdu \<Rightarrow> mac_pdu \<Rightarrow> (mac_pdu \<times> mac_pdu) result" where
  "moveCes base guest =
     (if hasCe guest
      then bindE (popCe guest) (\<lambda>(ce, guest'). moveCes (pushCe ce base) guest')
      else Inr (base, guest))"
  by pat_completeness auto
termination
  by (relation "measure (\<lambda>(base, guest). length (pdu_ceList guest))")
    (auto simp: popCe_def hasCe_def split: list.splits)

declare moveSdus.simps [simp del] moveCes.simps [simp del]

lemma moveSdus_eq:
  "moveSdus base guest =
     Inr (base\<lparr>pdu_sduList := pdu_sduList base @ pdu_sduList guest,
               pdu_macPduLength := pdu_macPduLength base + sdu_bytes_sum (pdu_sduList guest)\<rparr>,
          guest\<lparr>pdu_sduList := [],
                pdu_macPduLength := pdu_macPduLength guest - sdu_bytes_sum (pdu_sduList guest)\<rparr>)"
proof (induction "pdu_sduList guest" arbitrary: base guest)
  case Nil
  then show ?case by (simp add: moveSdus.simps[of base guest] hasSdu_def)
next
  case (Cons x xs)
  let ?g = "guest\<lparr>pdu_sduList := xs, pdu_macPduLength := pdu_macPduLength guest - sdu_bytes x\<rparr>"
  have "popSdu guest = Inr (x, ?g)" using Cons.hyps(2)[symmetric] by (simp add: popSdu_def)
  then have "moveSdus base guest = moveSdus (pushSdu x base) ?g"
    using Cons.hyps(2)[symmetric] by (simp add: moveSdus.simps[of base guest] hasSdu_def)
  also have "\<dots> = Inr (base\<lparr>pdu_sduList := pdu_sduList base @ pdu_sduList guest,
               pdu_macPduLength := pdu_macPduLength base + sdu_bytes_sum (pdu_sduList guest)\<rparr>,
          guest\<lparr>pdu_sduList := [],
                pdu_macPduLength := pdu_macPduLength guest - sdu_bytes_sum (pdu_sduList guest)\<rparr>)"
    using Cons.hyps(1)[of ?g "pushSdu x base"] Cons.hyps(2)[symmetric]
    by (simp add: pushSdu_def algebra_simps)
  finally show ?case .
qed

lemma moveCes_eq:
  "moveCes base guest =
     Inr (base\<lparr>pdu_ceList := pdu_ceList base @ pdu_ceList guest\<rparr>, guest\<lparr>pdu_ceList := []\<rparr>)"
proof (induction "pdu_ceList guest" arbitrary: base guest)
  case Nil
  then show ?case by (simp add: moveCes.simps[of base guest] hasCe_def)
next
  case (Cons x xs)
  have "popCe guest = Inr (x, guest\<lparr>pdu_ceList := xs\<rparr>)"
    using Cons.hyps(2)[symmetric] by (simp add: popCe_def)
  then have "moveCes base guest = moveCes (pushCe x base) (guest\<lparr>pdu_ceList := xs\<rparr>)"
    using Cons.hyps(2)[symmetric] by (simp add: moveCes.simps[of base guest] hasCe_def)
  then show ?case
    using Cons.hyps(1)[of "guest\<lparr>pdu_ceList := xs\<rparr>" "pushCe x base"] Cons.hyps(2)[symmetric]
    by (simp add: pushCe_def)
qed

text \<open>After the move the base PDU still satisfies its length invariant.\<close>

lemma moveSdus_length_ok:
  "pdu_length_ok base \<Longrightarrow> moveSdus base guest = Inr (b, g) \<Longrightarrow> pdu_length_ok b"
  by (auto simp: moveSdus_eq pdu_length_ok_def)

section \<open>A sample packet\<close>

text \<open>Concrete values on which the theorems of the H-ARQ theories are instantiated.\<close>

definition ex_info :: "u8 \<Rightarrow> user_info" where
  "ex_info c = \<lparr>ui_sourceId = 1, ui_destId = 1025, ui_direction = DL, ui_frameType = DATAPKT,
     ui_acid = 0, ui_cw = c, ui_txNumber = 0, ui_ndi = True, ui_deciderResult = True\<rparr>"

definition ex_pdu :: "u8 \<Rightarrow> mac_pdu" where
  "ex_pdu c = \<lparr>pdu_id = 7 + uint c, pdu_headerLength = 2, pdu_macPduLength = 40,
     pdu_sduList = [\<lparr>sdu_id = 1, sdu_bytes = 40\<rparr>], pdu_ceList = [], pdu_creationTime = 0,
     pdu_info = ex_info c\<rparr>"

end
