(* ===== verification/HarqProcessRx.thy ===== *)
theory HarqProcessRx
  imports LteTypes
begin

text \<open>
  The receiving H-ARQ process (\<^verbatim>\<open>simulte/src/stack/mac/buffer/harq/LteHarqProcessRx.cc\<close>): four
  vectors indexed by the codeword (the PDU, its status, its reception time, the result of its
  decoding) and one transmission counter shared by the codewords.  The lemmas keep the four vectors
  consistent and say what each operation returns.
\<close>

section \<open>State\<close>

record harq_process_rx =
  rp_pdu :: "mac_pdu option list"
  rp_status :: "rx_harq_status list"
  rp_rxTime :: "simtime list"
  rp_result :: "bool list"
  rp_acid :: acid
  rp_transmissions :: u8
  rp_maxHarqRtx :: u8

definition rx_new :: "acid \<Rightarrow> u8 \<Rightarrow> harq_process_rx" where
  "rx_new a maxRtx = \<lparr>rp_pdu = vec_resize [] MAX_CODEWORDS None,
     rp_status = vec_resize [] MAX_CODEWORDS RXHARQ_PDU_EMPTY,
     rp_rxTime = vec_resize [] MAX_CODEWORDS 0, rp_result = vec_resize [] MAX_CODEWORDS False,
     rp_acid = a, rp_transmissions = 0, rp_maxHarqRtx = maxRtx\<rparr>"

section \<open>Operations\<close>

definition rx_insertPdu ::
  "simtime \<Rightarrow> codeword \<Rightarrow> mac_pdu \<Rightarrow> harq_process_rx \<Rightarrow> harq_process_rx result" where
  "rx_insertPdu now cw pdu p =
     (let ndi = ui_ndi (pdu_info pdu); i = unat cw
      in bindE (vec_at (rp_status p) i) (\<lambda>s.
         if ndi \<and> s \<noteq> RXHARQ_PDU_EMPTY
         then Inl (RuntimeError ''New data arriving in busy harq process -- this should not happen'')
         else if \<not> ndi \<and> s \<noteq> RXHARQ_PDU_EMPTY \<and> s \<noteq> RXHARQ_PDU_CORRUPTED
         then Inl (RuntimeError ''Trying to insert macPdu in non-empty rx harq process'')
         else bindE (vec_put (rp_pdu p) i (Some pdu)) (\<lambda>pdus.
              bindE (vec_put (rp_result p) i (ui_deciderResult (pdu_info pdu))) (\<lambda>results.
              bindE (vec_put (rp_status p) i RXHARQ_PDU_EVALUATING) (\<lambda>statuses.
              bindE (vec_put (rp_rxTime p) i now) (\<lambda>times.
                Inr (p\<lparr>rp_pdu := pdus, rp_result := results, rp_status := statuses,
                       rp_rxTime := times, rp_transmissions := rp_transmissions p + 1\<rparr>)))))))"

definition rx_isEvaluated :: "simtime \<Rightarrow> codeword \<Rightarrow> harq_process_rx \<Rightarrow> bool result" where
  "rx_isEvaluated now cw p =
     bindE (vec_at (rp_status p) (unat cw)) (\<lambda>s.
       if s = RXHARQ_PDU_EVALUATING
       then bindE (vec_at (rp_rxTime p) (unat cw)) (\<lambda>t. Inr (HARQ_FB_EVALUATION_INTERVAL \<le> now - t))
       else Inr False)"

definition rx_resetCodeword :: "codeword \<Rightarrow> harq_process_rx \<Rightarrow> harq_process_rx result" where
  "rx_resetCodeword cw p =
     (let i = unat cw in
      bindE (vec_put (rp_pdu p) i None) (\<lambda>pdus.
      bindE (vec_put (rp_status p) i RXHARQ_PDU_EMPTY) (\<lambda>statuses.
      bindE (vec_put (rp_rxTime p) i 0) (\<lambda>times.
      bindE (vec_put (rp_result p) i False) (\<lambda>results.
        Inr (p\<lparr>rp_pdu := pdus, rp_status := statuses, rp_rxTime := times, rp_result := results,
               rp_transmissions := 0\<rparr>))))))"

definition rx_createFeedback ::
  "simtime \<Rightarrow> codeword \<Rightarrow> harq_process_rx \<Rightarrow> (harq_feedback \<times> harq_process_rx) result" where
  "rx_createFeedback now cw p =
     bindE (rx_isEvaluated now cw p) (\<lambda>e.
       if \<not> e then Inl (RuntimeError ''Cannot send feedback for a pdu not in EVALUATING state'')
       else bindE (vec_at (rp_pdu p) (unat cw)) (\<lambda>popt. case popt of
         None \<Rightarrow> Inl (Undefined ''null pointer'')
       | Some pdu \<Rightarrow>
           bindE (vec_at (rp_result p) (unat cw)) (\<lambda>res.
             let fb = \<lparr>fb_acid = rp_acid p, fb_cw = ucast cw, fb_result = res, fb_pduId = pdu_id pdu,
                       fb_sourceId = ui_destId (pdu_info pdu), fb_destId = ui_sourceId (pdu_info pdu),
                       fb_frameType = HARQPKT\<rparr>
             in if \<not> res
                then bindE (vec_put (rp_status p) (unat cw) RXHARQ_PDU_CORRUPTED) (\<lambda>statuses.
                     let p' = p\<lparr>rp_status := statuses\<rparr>
                     in if unat (rp_transmissions p') = unat (rp_maxHarqRtx p') + 1
                        then bindE (rx_resetCodeword cw p') (\<lambda>p''. Inr (fb, p''))
                        else Inr (fb, p'))
                else bindE (vec_put (rp_status p) (unat cw) RXHARQ_PDU_CORRECT) (\<lambda>statuses.
                     Inr (fb, p\<lparr>rp_status := statuses\<rparr>)))))"

definition rx_getUnitStatus :: "codeword \<Rightarrow> harq_process_rx \<Rightarrow> rx_harq_status result" where
  "rx_getUnitStatus cw p = vec_at (rp_status p) (unat cw)"

definition rx_isCorrect :: "codeword \<Rightarrow> harq_process_rx \<Rightarrow> bool result" where
  "rx_isCorrect cw p = bindE (vec_at (rp_status p) (unat cw)) (\<lambda>s. Inr (s = RXHARQ_PDU_CORRECT))"

definition rx_extractPdu ::
  "codeword \<Rightarrow> harq_process_rx \<Rightarrow> (mac_pdu option \<times> harq_process_rx) result" where
  "rx_extractPdu cw p =
     bindE (rx_isCorrect cw p) (\<lambda>c.
       if \<not> c then Inl (RuntimeError ''Cannot extract pdu if the state is not CORRECT'')
       else bindE (vec_at (rp_pdu p) (unat cw)) (\<lambda>pdu.
            bindE (rx_resetCodeword cw p) (\<lambda>p'. Inr (pdu, p'))))"

definition rx_getByteLength :: "codeword \<Rightarrow> harq_process_rx \<Rightarrow> int result" where
  "rx_getByteLength cw p = bindE (vec_at (rp_pdu p) (unat cw)) (\<lambda>popt.
     Inr (case popt of Some pdu \<Rightarrow> getByteLength pdu | None \<Rightarrow> 0))"

definition rx_getProcessStatus :: "harq_process_rx \<Rightarrow> (u8 \<times> rx_harq_status) list result" where
  "rx_getProcessStatus p =
     foldE (\<lambda>j acc. bindE (rx_getUnitStatus (of_nat j) p) (\<lambda>s. Inr (acc @ [(of_nat j, s)])))
       [0..<MAX_CODEWORDS] []"

section \<open>Consistent codewords\<close>

text \<open>The four vectors at one codeword, as a tuple.\<close>

definition rx_slot :: "harq_process_rx \<Rightarrow> nat \<Rightarrow> mac_pdu option \<times> rx_harq_status \<times> simtime \<times> bool" where
  "rx_slot p i = (rp_pdu p ! i, rp_status p ! i, rp_rxTime p ! i, rp_result p ! i)"

definition rx_slot_ok :: "mac_pdu option \<times> rx_harq_status \<times> simtime \<times> bool \<Rightarrow> bool" where
  "rx_slot_ok s = (case s of (popt, st, t, res) \<Rightarrow>
     case st of
       RXHARQ_PDU_EMPTY \<Rightarrow> popt = None \<and> t = 0 \<and> \<not> res
     | RXHARQ_PDU_EVALUATING \<Rightarrow>
         (case popt of None \<Rightarrow> False | Some pdu \<Rightarrow> res = ui_deciderResult (pdu_info pdu))
     | RXHARQ_PDU_CORRECT \<Rightarrow>
         (case popt of None \<Rightarrow> False | Some pdu \<Rightarrow> res \<and> ui_deciderResult (pdu_info pdu))
     | RXHARQ_PDU_CORRUPTED \<Rightarrow>
         (case popt of None \<Rightarrow> False | Some pdu \<Rightarrow> \<not> res \<and> \<not> ui_deciderResult (pdu_info pdu)))"

definition rx_ok :: "harq_process_rx \<Rightarrow> bool" where
  "rx_ok p \<longleftrightarrow> length (rp_pdu p) = MAX_CODEWORDS \<and> length (rp_status p) = MAX_CODEWORDS \<and>
     length (rp_rxTime p) = MAX_CODEWORDS \<and> length (rp_result p) = MAX_CODEWORDS \<and>
     (\<forall>i < MAX_CODEWORDS. rx_slot_ok (rx_slot p i))"

definition rx_empty_slot :: "mac_pdu option \<times> rx_harq_status \<times> simtime \<times> bool" where
  "rx_empty_slot = (None, RXHARQ_PDU_EMPTY, 0, False)"

lemma rx_empty_slot_ok [simp]: "rx_slot_ok rx_empty_slot"
  by (simp add: rx_slot_ok_def rx_empty_slot_def)

lemma rx_ok_new: "rx_ok (rx_new a m)"
  by (auto simp: rx_ok_def rx_new_def rx_slot_def nth_vec_resize rx_slot_ok_def)

text \<open>A process whose slot \<open>i\<close> alone differs from that of \<open>p\<close>.\<close>

definition rx_moved :: "nat \<Rightarrow> harq_process_rx \<Rightarrow> harq_process_rx \<Rightarrow> bool" where
  "rx_moved i p p' \<longleftrightarrow> length (rp_pdu p') = length (rp_pdu p) \<and>
     length (rp_status p') = length (rp_status p) \<and> length (rp_rxTime p') = length (rp_rxTime p) \<and>
     length (rp_result p') = length (rp_result p) \<and> rp_acid p' = rp_acid p \<and>
     rp_maxHarqRtx p' = rp_maxHarqRtx p \<and> (\<forall>j. j \<noteq> i \<longrightarrow> rx_slot p' j = rx_slot p j)"

lemma rx_moved_ok: "rx_moved i p p' \<Longrightarrow> rx_ok p \<Longrightarrow> rx_slot_ok (rx_slot p' i) \<Longrightarrow> rx_ok p'"
  unfolding rx_moved_def rx_ok_def by metis

lemma rx_insertPdu_Inr:
  assumes "rx_insertPdu now cw pdu p = Inr p'"
  shows "rx_moved (unat cw) p p' \<and> rp_transmissions p' = rp_transmissions p + 1 \<and>
    rx_slot p' (unat cw) = (Some pdu, RXHARQ_PDU_EVALUATING, now, ui_deciderResult (pdu_info pdu))"
  using assms by (auto simp: rx_insertPdu_def rx_moved_def rx_slot_def Let_def split: if_splits)

lemma rx_insertPdu_succeeds_iff:
  assumes "rx_ok p" "unat cw < MAX_CODEWORDS"
  shows "is_ok (rx_insertPdu now cw pdu p) \<longleftrightarrow>
    rp_status p ! unat cw = RXHARQ_PDU_EMPTY \<or>
    \<not> ui_ndi (pdu_info pdu) \<and> rp_status p ! unat cw = RXHARQ_PDU_CORRUPTED"
  using assms by (auto simp: rx_insertPdu_def vec_at_def vec_put_def Let_def rx_ok_def)

lemma rx_resetCodeword_Inr:
  "rx_resetCodeword cw p = Inr p' \<Longrightarrow> rx_moved (unat cw) p p' \<and> rp_transmissions p' = 0 \<and>
     rx_slot p' (unat cw) = rx_empty_slot"
  by (auto simp: rx_resetCodeword_def rx_moved_def rx_slot_def rx_empty_slot_def Let_def)

lemma rx_resetCodeword_total:
  "rx_ok p \<Longrightarrow> unat cw < MAX_CODEWORDS \<Longrightarrow> \<exists>p'. rx_resetCodeword cw p = Inr p'"
  by (simp add: rx_resetCodeword_def rx_ok_def Let_def vec_put_def)

lemma rx_isEvaluated_eq:
  "rx_ok p \<Longrightarrow> unat cw < MAX_CODEWORDS \<Longrightarrow> rx_isEvaluated now cw p =
     Inr (rp_status p ! unat cw = RXHARQ_PDU_EVALUATING \<and>
          HARQ_FB_EVALUATION_INTERVAL \<le> now - rp_rxTime p ! unat cw)"
  by (simp add: rx_isEvaluated_def rx_ok_def vec_at_def)

lemma rx_isCorrect_eq:
  "rx_ok p \<Longrightarrow> unat cw < MAX_CODEWORDS \<Longrightarrow>
   rx_isCorrect cw p = Inr (rp_status p ! unat cw = RXHARQ_PDU_CORRECT)"
  by (simp add: rx_isCorrect_def rx_ok_def vec_at_def)

text \<open>
  An evaluated codeword always yields a feedback.  An ACK leaves the codeword CORRECT with its
  PDU; a NACK leaves it CORRUPTED, or empty when the shared counter has reached the limit.
\<close>

definition rx_feedback_for :: "harq_process_rx \<Rightarrow> codeword \<Rightarrow> harq_feedback" where
  "rx_feedback_for p cw = (let pdu = the (rp_pdu p ! unat cw) in
     \<lparr>fb_acid = rp_acid p, fb_cw = ucast cw, fb_result = ui_deciderResult (pdu_info pdu),
      fb_pduId = pdu_id pdu, fb_sourceId = ui_destId (pdu_info pdu),
      fb_destId = ui_sourceId (pdu_info pdu), fb_frameType = HARQPKT\<rparr>)"

lemma rx_createFeedback_effect:
  assumes "rx_ok p" "unat cw < MAX_CODEWORDS" "rx_isEvaluated now cw p = Inr True"
  shows "\<exists>p'. rx_createFeedback now cw p = Inr (rx_feedback_for p cw, p') \<and>
     rx_moved (unat cw) p p' \<and>
     rx_slot p' (unat cw) =
       (if ui_deciderResult (pdu_info (the (rp_pdu p ! unat cw)))
        then (rp_pdu p ! unat cw, RXHARQ_PDU_CORRECT, rp_rxTime p ! unat cw, True)
        else if unat (rp_transmissions p) = unat (rp_maxHarqRtx p) + 1 then rx_empty_slot
        else (rp_pdu p ! unat cw, RXHARQ_PDU_CORRUPTED, rp_rxTime p ! unat cw, False))"
proof -
  have st: "rp_status p ! unat cw = RXHARQ_PDU_EVALUATING"
    using assms(3) unfolding rx_isEvaluated_eq[OF assms(1,2)] by simp
  have "rx_slot_ok (rx_slot p (unat cw))" using assms(1,2) by (simp add: rx_ok_def)
  then obtain pdu where pdu: "rp_pdu p ! unat cw = Some pdu"
    "rp_result p ! unat cw = ui_deciderResult (pdu_info pdu)"
    using st by (auto simp: rx_slot_ok_def rx_slot_def split: option.splits)
  have len: "unat cw < length (rp_pdu p)" "unat cw < length (rp_status p)"
    "unat cw < length (rp_rxTime p)" "unat cw < length (rp_result p)"
    using assms(1,2) by (auto simp: rx_ok_def)
  note defs = rx_createFeedback_def rx_feedback_for_def rx_moved_def rx_slot_def vec_at_def vec_put_def
  show ?thesis
  proof (cases "ui_deciderResult (pdu_info pdu)")
    case True
    then show ?thesis using assms(3) pdu len by (simp add: defs)
  next
    case False
    then show ?thesis using assms(3) pdu len
      by (simp add: defs rx_resetCodeword_def rx_empty_slot_def Let_def)
  qed
qed

lemma rx_createFeedback_ok:
  assumes "rx_ok p" "unat cw < MAX_CODEWORDS" "rx_isEvaluated now cw p = Inr True"
    and "rx_createFeedback now cw p = Inr (fb, p')"
  shows "rx_ok p' \<and> fb = rx_feedback_for p cw \<and> rp_acid p' = rp_acid p"
proof -
  obtain q where q: "rx_createFeedback now cw p = Inr (rx_feedback_for p cw, q)" "rx_moved (unat cw) p q"
    "rx_slot q (unat cw) =
       (if ui_deciderResult (pdu_info (the (rp_pdu p ! unat cw)))
        then (rp_pdu p ! unat cw, RXHARQ_PDU_CORRECT, rp_rxTime p ! unat cw, True)
        else if unat (rp_transmissions p) = unat (rp_maxHarqRtx p) + 1 then rx_empty_slot
        else (rp_pdu p ! unat cw, RXHARQ_PDU_CORRUPTED, rp_rxTime p ! unat cw, False))"
    using rx_createFeedback_effect[OF assms(1-3)] by blast
  have st: "rp_status p ! unat cw = RXHARQ_PDU_EVALUATING"
    using assms(3) unfolding rx_isEvaluated_eq[OF assms(1,2)] by simp
  have "rx_slot_ok (rx_slot p (unat cw))" using assms(1,2) by (simp add: rx_ok_def)
  then have "rx_slot_ok (rx_slot q (unat cw))"
    using st unfolding q(3) by (auto simp: rx_slot_ok_def rx_slot_def rx_empty_slot_def split: option.splits)
  then show ?thesis using rx_moved_ok[OF q(2) assms(1)] q assms(4) by (simp add: rx_moved_def)
qed

lemma rx_extractPdu_effect:
  assumes "rx_ok p" "unat cw < MAX_CODEWORDS" "rx_isCorrect cw p = Inr True"
  shows "\<exists>pdu p'. rx_extractPdu cw p = Inr (Some pdu, p') \<and> rp_pdu p ! unat cw = Some pdu \<and>
     ui_deciderResult (pdu_info pdu) \<and> rx_moved (unat cw) p p' \<and> rx_slot p' (unat cw) = rx_empty_slot"
proof -
  have st: "rp_status p ! unat cw = RXHARQ_PDU_CORRECT"
    using assms(3) unfolding rx_isCorrect_eq[OF assms(1,2)] by simp
  have "rx_slot_ok (rx_slot p (unat cw))" using assms(1,2) by (simp add: rx_ok_def)
  then obtain pdu where pdu: "rp_pdu p ! unat cw = Some pdu" "ui_deciderResult (pdu_info pdu)"
    using st by (auto simp: rx_slot_ok_def rx_slot_def split: option.splits)
  obtain p' where p': "rx_resetCodeword cw p = Inr p'" using rx_resetCodeword_total[OF assms(1,2)] by blast
  have "rx_extractPdu cw p = Inr (Some pdu, p')"
    using assms pdu p' by (simp add: rx_extractPdu_def vec_at_def rx_ok_def)
  then show ?thesis using pdu rx_resetCodeword_Inr[OF p'] by blast
qed

end
