(* ===== verification/HarqBufferRx.thy ===== *)
theory HarqBufferRx
  imports HarqProcessRx
begin

text \<open>
  The receiving H-ARQ buffer (\<^verbatim>\<open>simulte/src/stack/mac/buffer/harq/LteHarqBufferRx.cc\<close>): its
  processes, and the loops over all processes and codewords that send the feedback, extract the
  correct PDUs and purge the corrupted ones.  Feedback packets and statistics are returned lists.
\<close>

section \<open>State\<close>

record harq_buffer_rx =
  rb_processes :: "harq_process_rx list"
  rb_numHarqProcesses :: nat
  rb_nodeType :: lte_node_type
  rb_nodeId :: mac_node_id

definition rxb_new :: "nat \<Rightarrow> lte_node_type \<Rightarrow> mac_node_id \<Rightarrow> u8 \<Rightarrow> harq_buffer_rx" where
  "rxb_new n ty nid maxRtx = \<lparr>rb_processes = map (\<lambda>i. rx_new (of_nat i) maxRtx) [0..<n],
     rb_numHarqProcesses = n, rb_nodeType = ty, rb_nodeId = nid\<rparr>"

text \<open>A statistics sample: the signal, the value and the node it is tagged with.\<close>

datatype rx_signal = MacDelay | MacCellThroughput | MacThroughput

type_synonym rx_sample = "rx_signal \<times> int \<times> mac_node_id"

section \<open>Operations\<close>

text \<open>Run an operation on the process \<open>i\<close> and put the new process back.\<close>

definition on_rx ::
  "nat \<Rightarrow> (harq_process_rx \<Rightarrow> ('r \<times> harq_process_rx) result) \<Rightarrow> harq_buffer_rx
   \<Rightarrow> ('r \<times> harq_buffer_rx) result" where
  "on_rx i f b = bindE (vec_get (rb_processes b) i) (\<lambda>p.
     bindE (f p) (\<lambda>(r, p'). Inr (r, b\<lparr>rb_processes := (rb_processes b)[i := p']\<rparr>)))"

definition rxb_insertPdu ::
  "simtime \<Rightarrow> codeword \<Rightarrow> mac_pdu \<Rightarrow> harq_buffer_rx \<Rightarrow> harq_buffer_rx result" where
  "rxb_insertPdu now cw pdu b =
     bindE (on_rx (unat (ui_acid (pdu_info pdu)))
              (\<lambda>p. bindE (rx_insertPdu now cw pdu p) (\<lambda>p'. Inr ((), p'))) b)
       (\<lambda>(_, b'). Inr b')"

text \<open>The two nested loops over the processes and the codewords.\<close>

definition rx_units :: "nat \<Rightarrow> (nat \<times> codeword) list" where
  "rx_units n = concat (map (\<lambda>i. map (\<lambda>c. (i, of_nat c)) [0..<MAX_CODEWORDS]) [0..<n])"

definition feedback_one ::
  "simtime \<Rightarrow> nat \<times> codeword \<Rightarrow> harq_buffer_rx \<times> harq_feedback list
   \<Rightarrow> (harq_buffer_rx \<times> harq_feedback list) result" where
  "feedback_one now ic s = (case ic of (i, cw) \<Rightarrow> case s of (b, fbs) \<Rightarrow>
     bindE (vec_get (rb_processes b) i) (\<lambda>p.
     bindE (rx_isEvaluated now cw p) (\<lambda>e.
       if e then bindE (on_rx i (rx_createFeedback now cw) b) (\<lambda>(fb, b'). Inr (b', fbs @ [fb]))
       else Inr (b, fbs))))"

definition rxb_sendFeedback ::
  "simtime \<Rightarrow> harq_buffer_rx \<Rightarrow> (harq_buffer_rx \<times> harq_feedback list) result" where
  "rxb_sendFeedback now b = foldE (feedback_one now) (rx_units (rb_numHarqProcesses b)) (b, [])"

definition purge_one :: "nat \<times> codeword \<Rightarrow> harq_buffer_rx \<times> nat \<Rightarrow> (harq_buffer_rx \<times> nat) result" where
  "purge_one ic s = (case ic of (i, cw) \<Rightarrow> case s of (b, purged) \<Rightarrow>
     bindE (vec_get (rb_processes b) i) (\<lambda>p.
     bindE (rx_getUnitStatus cw p) (\<lambda>st.
       if st = RXHARQ_PDU_CORRUPTED
       then bindE (on_rx i (\<lambda>p. bindE (rx_resetCodeword cw p) (\<lambda>p'. Inr ((), p'))) b)
              (\<lambda>(_, b'). Inr (b', purged + 1))
       else Inr (b, purged))))"

definition rxb_purgeCorruptedPdus :: "harq_buffer_rx \<Rightarrow> (harq_buffer_rx \<times> nat) result" where
  "rxb_purgeCorruptedPdus b = foldE purge_one (rx_units (rb_numHarqProcesses b)) (b, 0)"

text \<open>
  The samples of one extracted PDU: its delay, and its size for the cell and for the user.  The size
  goes through an \<open>unsigned int\<close>.  The module of the cell, which emits the first of the two sizes at a
  UE, is taken to exist (the code follows a null pointer when the cell's node is not registered).
\<close>

definition rx_samples ::
  "simtime \<Rightarrow> lte_node_type \<Rightarrow> mac_pdu \<Rightarrow> rx_sample list result" where
  "rx_samples now ty pdu =
     (let info = pdu_info pdu; size = uint (of_int (getByteLength pdu) :: u32);
          delay = (\<lambda>i. (MacDelay, now - pdu_creationTime pdu, i))
      in bindE (case ui_direction info of
                  DL \<Rightarrow> Inr (delay (ui_destId info))
                | UL \<Rightarrow> Inr (delay (ui_sourceId info))
                | UNKNOWN_DIRECTION \<Rightarrow>
                    Inl (RuntimeError ''LteHarqBufferRx::extractCorrectPdus(): unknown direction''))
           (\<lambda>d. if ty = UE
                then Inr [d, (MacCellThroughput, size, ui_sourceId info), (MacThroughput, size, ui_destId info)]
                else if ty = ENODEB
                then Inr [d, (MacCellThroughput, size, ui_destId info), (MacThroughput, size, ui_sourceId info)]
                else Inl (RuntimeError ''LteHarqBufferRx::extractCorrectPdus(): unknown nodeType'')))"

definition extract_one ::
  "simtime \<Rightarrow> nat \<times> codeword \<Rightarrow> harq_buffer_rx \<times> mac_pdu list \<times> rx_sample list
   \<Rightarrow> (harq_buffer_rx \<times> mac_pdu list \<times> rx_sample list) result" where
  "extract_one now ic s = (case ic of (i, cw) \<Rightarrow> case s of (b, ret, ems) \<Rightarrow>
     bindE (vec_get (rb_processes b) i) (\<lambda>p.
     bindE (rx_isCorrect cw p) (\<lambda>c.
       if c then bindE (on_rx i (rx_extractPdu cw) b) (\<lambda>(popt, b'). case popt of
              None \<Rightarrow> Inl (Undefined ''null pointer'')
            | Some pdu \<Rightarrow> bindE (rx_samples now (rb_nodeType b) pdu) (\<lambda>e. Inr (b', ret @ [pdu], ems @ e)))
       else Inr (b, ret, ems))))"

definition rxb_extractCorrectPdus ::
  "simtime \<Rightarrow> harq_buffer_rx
   \<Rightarrow> (harq_buffer_rx \<times> harq_feedback list \<times> mac_pdu list \<times> rx_sample list) result" where
  "rxb_extractCorrectPdus now b =
     bindE (rxb_sendFeedback now b) (\<lambda>(b1, fbs).
     bindE (foldE (extract_one now) (rx_units (rb_numHarqProcesses b1)) (b1, [], [])) (\<lambda>(b2, ret, ems).
       Inr (b2, fbs, ret, ems)))"

definition rxb_getBufferStatus :: "harq_buffer_rx \<Rightarrow> (u8 \<times> rx_harq_status) list list result" where
  "rxb_getBufferStatus b =
     foldE (\<lambda>i acc. bindE (vec_get (rb_processes b) i) (\<lambda>p.
              bindE (rx_getProcessStatus p) (\<lambda>s. Inr (acc @ [s]))))
       [0..<rb_numHarqProcesses b] []"

definition rxb_getProcess :: "acid \<Rightarrow> harq_buffer_rx \<Rightarrow> harq_process_rx result" where
  "rxb_getProcess a b = vec_at (rb_processes b) (unat a)"

section \<open>Sound buffers\<close>

definition rxb_ok :: "harq_buffer_rx \<Rightarrow> bool" where
  "rxb_ok b \<longleftrightarrow> length (rb_processes b) = rb_numHarqProcesses b \<and>
     (\<forall>p \<in> set (rb_processes b). rx_ok p) \<and>
     map rp_acid (rb_processes b) = map of_nat [0..<rb_numHarqProcesses b]"

text \<open>The slot of one unit of the buffer.\<close>

definition rxb_slot :: "harq_buffer_rx \<Rightarrow> nat \<times> codeword \<Rightarrow> mac_pdu option \<times> rx_harq_status \<times> simtime \<times> bool" where
  "rxb_slot b ic = rx_slot (rb_processes b ! fst ic) (unat (snd ic))"

definition rxb_unit :: "harq_buffer_rx \<Rightarrow> nat \<times> codeword \<Rightarrow> bool" where
  "rxb_unit b ic \<longleftrightarrow> fst ic < rb_numHarqProcesses b \<and> unat (snd ic) < MAX_CODEWORDS"

lemma rx_units_eq: "rx_units n = concat (map (\<lambda>i. [(i, 0), (i, 1)]) [0..<n])"
  by (simp add: rx_units_def MAX_CODEWORDS_def upt_rec)

lemma codeword_cases: "unat (cw :: codeword) < MAX_CODEWORDS \<longleftrightarrow> cw = 0 \<or> cw = 1"
proof
  assume "unat cw < MAX_CODEWORDS"
  then have "unat cw = unat (0 :: codeword) \<or> unat cw = unat (1 :: codeword)"
    by (simp add: MAX_CODEWORDS_def less_2_cases_iff)
  then show "cw = 0 \<or> cw = 1" by (simp only: word_unat_eq_iff)
qed (auto simp: MAX_CODEWORDS_def)

lemma rx_units_set: "ic \<in> set (rx_units (rb_numHarqProcesses b)) \<longleftrightarrow> rxb_unit b ic"
  by (cases ic) (auto simp: rx_units_eq rxb_unit_def codeword_cases)

lemma rx_units_Suc: "rx_units (Suc n) = rx_units n @ [(n, 0), (n, 1)]"
  by (simp add: rx_units_eq)

lemma rx_units_less: "ic \<in> set (rx_units n) \<Longrightarrow> fst ic < n"
  by (auto simp: rx_units_eq)

lemma rx_units_distinct: "distinct (rx_units n)"
proof (induction n)
  case 0
  then show ?case by (simp add: rx_units_def)
next
  case (Suc n)
  have "(n, 0) \<notin> set (rx_units n)" "(n, 1) \<notin> set (rx_units n)"
    using rx_units_less[of _ n] by fastforce+
  then show ?case using Suc by (simp add: rx_units_Suc)
qed

text \<open>One operation on one process: the slot of its unit changes, the others do not.\<close>

definition rxb_moved :: "nat \<times> codeword \<Rightarrow> harq_buffer_rx \<Rightarrow> harq_buffer_rx \<Rightarrow> bool" where
  "rxb_moved ic b b' \<longleftrightarrow> rb_numHarqProcesses b' = rb_numHarqProcesses b \<and>
     rb_nodeType b' = rb_nodeType b \<and>
     map rp_acid (rb_processes b') = map rp_acid (rb_processes b) \<and>
     (\<forall>jd. rxb_unit b jd \<longrightarrow> jd \<noteq> ic \<longrightarrow> rxb_slot b' jd = rxb_slot b jd)"

lemma rxb_put:
  assumes "rxb_ok b" "i < rb_numHarqProcesses b" "rx_ok p'" "rx_moved (unat cw) (rb_processes b ! i) p'"
  defines "b' \<equiv> b\<lparr>rb_processes := (rb_processes b)[i := p']\<rparr>"
  shows "rxb_ok b' \<and> rxb_moved (i, cw) b b' \<and> rxb_slot b' (i, cw) = rx_slot p' (unat cw)"
proof -
  have len: "i < length (rb_processes b)" using assms(1,2) by (simp add: rxb_ok_def)
  have "\<forall>q \<in> set ((rb_processes b)[i := p']). rx_ok q"
    using assms(1,3) set_update_subset_insert[of "rb_processes b" i p'] by (auto simp: rxb_ok_def)
  moreover have "map rp_acid ((rb_processes b)[i := p']) = map rp_acid (rb_processes b)"
    using assms(4) len by (simp add: map_update list_update_same_conv rx_moved_def)
  moreover have "rxb_slot b' jd = rxb_slot b jd" if "jd \<noteq> (i, cw)" for jd
  proof (cases "fst jd = i")
    case True
    then have "unat (snd jd) \<noteq> unat cw" using that by (cases jd) (auto simp: word_unat_eq_iff)
    then show ?thesis using True assms(4) len by (simp add: b'_def rxb_slot_def rx_moved_def)
  next
    case False
    then show ?thesis by (simp add: b'_def rxb_slot_def)
  qed
  ultimately show ?thesis using assms(1) len by (simp add: b'_def rxb_ok_def rxb_moved_def rxb_slot_def)
qed

lemma rxb_ok_acid: "rxb_ok b \<Longrightarrow> i < rb_numHarqProcesses b \<Longrightarrow> rp_acid (rb_processes b ! i) = of_nat i"
  unfolding rxb_ok_def by (metis add.left_neutral diff_zero length_upt nth_map nth_upt)

lemma rxb_ok_process: "rxb_ok b \<Longrightarrow> rxb_unit b (i, cw) \<Longrightarrow>
   i < length (rb_processes b) \<and> rx_ok (rb_processes b ! i)"
  by (simp add: rxb_ok_def rxb_unit_def)

section \<open>Loops over the units\<close>

text \<open>
  The contract of a loop body: it leaves a unit alone whose slot does not satisfy the guard, and
  otherwise changes this slot only, as \<open>post\<close> says, and adds its result to the accumulator.
\<close>

type_synonym rx_slot_t = "mac_pdu option \<times> rx_harq_status \<times> simtime \<times> bool"

locale rx_unit_loop =
  fixes body :: "nat \<times> codeword \<Rightarrow> harq_buffer_rx \<times> 'a \<Rightarrow> (harq_buffer_rx \<times> 'a) result"
    and guard :: "rx_slot_t \<Rightarrow> bool"
    and legal :: "lte_node_type \<Rightarrow> rx_slot_t \<Rightarrow> bool"
    and add :: "lte_node_type \<Rightarrow> acid \<Rightarrow> codeword \<Rightarrow> rx_slot_t \<Rightarrow> 'a \<Rightarrow> 'a"
    and post :: "rx_slot_t \<Rightarrow> rx_slot_t \<Rightarrow> bool"
  assumes skip_law: "rxb_ok b \<Longrightarrow> rxb_unit b ic \<Longrightarrow> \<not> guard (rxb_slot b ic) \<Longrightarrow>
      body ic (b, acc) = Inr (b, acc)"
    and act_law: "rxb_ok b \<Longrightarrow> rxb_unit b ic \<Longrightarrow> guard (rxb_slot b ic) \<Longrightarrow>
      legal (rb_nodeType b) (rxb_slot b ic) \<Longrightarrow>
      \<exists>b'. body ic (b, acc) = Inr (b', add (rb_nodeType b) (rp_acid (rb_processes b ! fst ic)) (snd ic)
                                         (rxb_slot b ic) acc) \<and>
        rxb_ok b' \<and> rxb_moved ic b b' \<and> post (rxb_slot b ic) (rxb_slot b' ic)"
begin

definition visit :: "harq_buffer_rx \<Rightarrow> nat \<times> codeword \<Rightarrow> 'a \<Rightarrow> 'a" where
  "visit b ic = add (rb_nodeType b) (rp_acid (rb_processes b ! fst ic)) (snd ic) (rxb_slot b ic)"

definition visited :: "harq_buffer_rx \<Rightarrow> (nat \<times> codeword) list \<Rightarrow> (nat \<times> codeword) list" where
  "visited b ics = filter (\<lambda>ic. guard (rxb_slot b ic)) ics"

lemma visit_moved:
  assumes "rxb_moved ic b b'" "rxb_unit b jd" "jd \<noteq> ic" "rxb_ok b" "rxb_ok b'"
  shows "visit b' jd = visit b jd \<and> guard (rxb_slot b' jd) = guard (rxb_slot b jd) \<and>
    legal (rb_nodeType b') (rxb_slot b' jd) = legal (rb_nodeType b) (rxb_slot b jd)"
proof -
  have "rxb_slot b' jd = rxb_slot b jd" "rb_nodeType b' = rb_nodeType b"
    "map rp_acid (rb_processes b') = map rp_acid (rb_processes b)"
    "length (rb_processes b') = length (rb_processes b)"
    using assms by (auto simp: rxb_moved_def rxb_ok_def simp del: split_paired_All)
  moreover have "fst jd < length (rb_processes b)" using assms(2,4) by (simp add: rxb_unit_def rxb_ok_def)
  ultimately show ?thesis unfolding visit_def by (metis nth_map)
qed

lemma loop:
  assumes "rxb_ok b" "distinct ics" "\<forall>ic \<in> set ics. rxb_unit b ic"
    and "\<forall>ic \<in> set ics. guard (rxb_slot b ic) \<longrightarrow> legal (rb_nodeType b) (rxb_slot b ic)"
  shows "\<exists>b'. foldE body ics (b, acc) = Inr (b', fold (visit b) (visited b ics) acc) \<and> rxb_ok b' \<and>
    rb_numHarqProcesses b' = rb_numHarqProcesses b \<and> rb_nodeType b' = rb_nodeType b \<and>
    map rp_acid (rb_processes b') = map rp_acid (rb_processes b) \<and>
    (\<forall>jd. rxb_unit b jd \<longrightarrow>
       (if jd \<in> set ics \<and> guard (rxb_slot b jd) then post (rxb_slot b jd) (rxb_slot b' jd)
        else rxb_slot b' jd = rxb_slot b jd))"
  using assms
proof (induction ics arbitrary: b acc)
  case Nil
  then show ?case by (auto simp: visited_def)
next
  case (Cons ic ics)
  have u: "rxb_unit b ic" and ok: "rxb_ok b" using Cons.prems by auto
  show ?case
  proof (cases "guard (rxb_slot b ic)")
    case False
    obtain b' where b': "foldE body ics (b, acc) = Inr (b', fold (visit b) (visited b ics) acc)" "rxb_ok b'"
      "rb_numHarqProcesses b' = rb_numHarqProcesses b" "rb_nodeType b' = rb_nodeType b"
      "map rp_acid (rb_processes b') = map rp_acid (rb_processes b)"
      "\<forall>jd. rxb_unit b jd \<longrightarrow>
       (if jd \<in> set ics \<and> guard (rxb_slot b jd) then post (rxb_slot b jd) (rxb_slot b' jd)
        else rxb_slot b' jd = rxb_slot b jd)"
      using Cons.IH[of b acc] Cons.prems by auto
    show ?thesis using b' skip_law[OF ok u False] False by (intro exI[of _ b']) (auto simp: visited_def)
  next
    case True
    obtain b1 where b1: "body ic (b, acc) = Inr (b1, visit b ic acc)" "rxb_ok b1" "rxb_moved ic b b1"
      "post (rxb_slot b ic) (rxb_slot b1 ic)"
      using act_law[OF ok u True, of acc] Cons.prems(4) True unfolding visit_def by auto
    have un: "rxb_unit b1 jd = rxb_unit b jd" for jd using b1(3) by (simp add: rxb_moved_def rxb_unit_def)
    have same: "visit b1 jd = visit b jd \<and> guard (rxb_slot b1 jd) = guard (rxb_slot b jd) \<and>
        legal (rb_nodeType b1) (rxb_slot b1 jd) = legal (rb_nodeType b) (rxb_slot b jd)"
      if "jd \<in> set ics" for jd
      using visit_moved[OF b1(3) _ _ ok b1(2), of jd] that Cons.prems by auto
    obtain b' where b': "foldE body ics (b1, visit b ic acc) = Inr (b', fold (visit b1) (visited b1 ics) (visit b ic acc))"
      "rxb_ok b'" "rb_numHarqProcesses b' = rb_numHarqProcesses b1" "rb_nodeType b' = rb_nodeType b1"
      "map rp_acid (rb_processes b') = map rp_acid (rb_processes b1)"
      "\<forall>jd. rxb_unit b1 jd \<longrightarrow>
       (if jd \<in> set ics \<and> guard (rxb_slot b1 jd) then post (rxb_slot b1 jd) (rxb_slot b' jd)
        else rxb_slot b' jd = rxb_slot b1 jd)"
      using Cons.IH[of b1 "visit b ic acc"] b1(2) Cons.prems same un by auto
    have v: "visited b1 ics = visited b ics" unfolding visited_def using same by (intro filter_cong) auto
    have f: "fold (visit b1) (visited b ics) x = fold (visit b) (visited b ics) x" for x
      using same by (intro fold_cong) (auto simp: visited_def)
    have "if jd \<in> set (ic # ics) \<and> guard (rxb_slot b jd) then post (rxb_slot b jd) (rxb_slot b' jd)
        else rxb_slot b' jd = rxb_slot b jd" if jd: "rxb_unit b jd" for jd
    proof (cases "jd = ic")
      case True
      then have "jd \<notin> set ics" using Cons.prems(2) by simp
      then have "rxb_slot b' jd = rxb_slot b1 jd" using b'(6) un jd
        by (auto simp del: split_paired_All)
      then show ?thesis using True b1(4) \<open>guard (rxb_slot b ic)\<close> by simp
    next
      case False
      then have "rxb_slot b1 jd = rxb_slot b jd"
        using b1(3) jd unfolding rxb_moved_def by blast
      then show ?thesis using False b'(6) un jd by (auto simp del: split_paired_All)
    qed
    then show ?thesis using b' b1 v f True by (intro exI[of _ b']) (auto simp: visited_def rxb_moved_def)
  qed
qed

lemma all_units:
  assumes "rxb_ok b" "\<forall>ic. rxb_unit b ic \<and> guard (rxb_slot b ic) \<longrightarrow> legal (rb_nodeType b) (rxb_slot b ic)"
  shows "\<exists>b'. foldE body (rx_units (rb_numHarqProcesses b)) (b, acc)
      = Inr (b', fold (visit b) (visited b (rx_units (rb_numHarqProcesses b))) acc) \<and> rxb_ok b' \<and>
    rb_numHarqProcesses b' = rb_numHarqProcesses b \<and> rb_nodeType b' = rb_nodeType b \<and>
    map rp_acid (rb_processes b') = map rp_acid (rb_processes b) \<and>
    (\<forall>jd. rxb_unit b jd \<longrightarrow>
       (if guard (rxb_slot b jd) then post (rxb_slot b jd) (rxb_slot b' jd)
        else rxb_slot b' jd = rxb_slot b jd))"
  using loop[OF assms(1) rx_units_distinct[of "rb_numHarqProcesses b"], of acc] assms(2)
  by (simp add: rx_units_set)

end

text \<open>The three loops of the buffer satisfy the contract.\<close>

definition slot_evaluated :: "simtime \<Rightarrow> rx_slot_t \<Rightarrow> bool" where
  "slot_evaluated now s = (case s of (_, st, t, _) \<Rightarrow>
     st = RXHARQ_PDU_EVALUATING \<and> HARQ_FB_EVALUATION_INTERVAL \<le> now - t)"

definition slot_pdu :: "rx_slot_t \<Rightarrow> mac_pdu" where
  "slot_pdu s = the (fst s)"

definition slot_has :: "rx_harq_status \<Rightarrow> rx_slot_t \<Rightarrow> bool" where
  "slot_has st s \<longleftrightarrow> fst (snd s) = st"

definition slot_feedback :: "acid \<Rightarrow> codeword \<Rightarrow> rx_slot_t \<Rightarrow> harq_feedback" where
  "slot_feedback a cw s = (let pdu = slot_pdu s in
     \<lparr>fb_acid = a, fb_cw = ucast cw, fb_result = ui_deciderResult (pdu_info pdu),
      fb_pduId = pdu_id pdu, fb_sourceId = ui_destId (pdu_info pdu),
      fb_destId = ui_sourceId (pdu_info pdu), fb_frameType = HARQPKT\<rparr>)"

definition slot_decided :: "rx_slot_t \<Rightarrow> rx_slot_t \<Rightarrow> bool" where
  "slot_decided s s' \<longleftrightarrow> (if ui_deciderResult (pdu_info (slot_pdu s))
     then s' = (fst s, RXHARQ_PDU_CORRECT, fst (snd (snd s)), True)
     else s' = rx_empty_slot \<or> s' = (fst s, RXHARQ_PDU_CORRUPTED, fst (snd (snd s)), False))"

definition slot_countable :: "lte_node_type \<Rightarrow> rx_slot_t \<Rightarrow> bool" where
  "slot_countable ty s \<longleftrightarrow> (ty = UE \<or> ty = ENODEB) \<and>
     ui_direction (pdu_info (slot_pdu s)) \<noteq> UNKNOWN_DIRECTION"

lemma rx_samples_ok: "slot_countable ty s \<Longrightarrow>
   rx_samples now ty (slot_pdu s) = Inr (projr (rx_samples now ty (slot_pdu s)))"
  by (cases "ui_direction (pdu_info (slot_pdu s))")
    (auto simp: rx_samples_def slot_countable_def Let_def)

lemma rxb_slot_eq: "rxb_slot b (i, cw) = (rp_pdu (rb_processes b ! i) ! unat cw,
   rp_status (rb_processes b ! i) ! unat cw, rp_rxTime (rb_processes b ! i) ! unat cw,
   rp_result (rb_processes b ! i) ! unat cw)"
  by (simp add: rxb_slot_def rx_slot_def)

lemma rx_ok_moved_empty:
  "rx_moved i p p' \<Longrightarrow> rx_ok p \<Longrightarrow> rx_slot p' i = rx_empty_slot \<Longrightarrow> rx_ok p'"
  using rx_moved_ok by fastforce

lemma rx_get: "rxb_ok b \<Longrightarrow> rxb_unit b (i, cw) \<Longrightarrow>
   vec_get (rb_processes b) i = Inr (rb_processes b ! i) \<and> rx_ok (rb_processes b ! i) \<and>
   i < rb_numHarqProcesses b \<and> unat cw < MAX_CODEWORDS"
  using rxb_ok_process[of b i cw] by (simp add: rxb_unit_def vec_get_ok)

interpretation rx_feedback: rx_unit_loop "feedback_one now" "slot_evaluated now" "\<lambda>_ _. True"
  "\<lambda>_ a cw s fbs. fbs @ [slot_feedback a cw s]" slot_decided for now
proof unfold_locales
  fix b ic and acc :: "harq_feedback list"
  assume ok: "rxb_ok b" "rxb_unit b ic" and g: "\<not> slot_evaluated now (rxb_slot b ic)"
  obtain i cw where ic: "ic = (i, cw)" by (cases ic)
  show "feedback_one now ic (b, acc) = Inr (b, acc)"
    using rx_get[OF ok(1)] ok(2) g
    by (auto simp: ic feedback_one_def rx_isEvaluated_eq slot_evaluated_def rxb_slot_eq)
next
  fix b ic and acc :: "harq_feedback list"
  assume ok: "rxb_ok b" "rxb_unit b ic" and g: "slot_evaluated now (rxb_slot b ic)"
  obtain i cw where ic: "ic = (i, cw)" by (cases ic)
  let ?p = "rb_processes b ! i"
  note get = rx_get[OF ok[unfolded ic]]
  have e: "rx_isEvaluated now cw ?p = Inr True"
    using g get by (simp add: ic rx_isEvaluated_eq slot_evaluated_def rxb_slot_eq)
  obtain p' where p': "rx_createFeedback now cw ?p = Inr (rx_feedback_for ?p cw, p')"
    "rx_moved (unat cw) ?p p'"
    "rx_slot p' (unat cw) =
       (if ui_deciderResult (pdu_info (the (rp_pdu ?p ! unat cw)))
        then (rp_pdu ?p ! unat cw, RXHARQ_PDU_CORRECT, rp_rxTime ?p ! unat cw, True)
        else if unat (rp_transmissions ?p) = unat (rp_maxHarqRtx ?p) + 1 then rx_empty_slot
        else (rp_pdu ?p ! unat cw, RXHARQ_PDU_CORRUPTED, rp_rxTime ?p ! unat cw, False))"
    using rx_createFeedback_effect[of ?p cw now] get e by blast
  have ok': "rx_ok p'" using rx_createFeedback_ok[OF _ _ e p'(1)] get by blast
  note put = rxb_put[OF ok(1) _ ok' p'(2)]
  show "\<exists>b'. feedback_one now ic (b, acc)
      = Inr (b', acc @ [slot_feedback (rp_acid (rb_processes b ! fst ic)) (snd ic) (rxb_slot b ic)]) \<and>
      rxb_ok b' \<and> rxb_moved ic b b' \<and> slot_decided (rxb_slot b ic) (rxb_slot b' ic)"
    using put get e p'(1,3)
    by (intro exI[of _ "b\<lparr>rb_processes := (rb_processes b)[i := p']\<rparr>"])
      (auto simp: ic feedback_one_def on_rx_def rx_feedback_for_def slot_feedback_def slot_pdu_def
        slot_decided_def rxb_slot_eq Let_def)
qed

interpretation rx_purge: rx_unit_loop purge_one "slot_has RXHARQ_PDU_CORRUPTED" "\<lambda>_ _. True"
  "\<lambda>_ _ _ _ n. n + 1" "\<lambda>_ s'. s' = rx_empty_slot"
proof unfold_locales
  fix b ic and acc :: nat
  assume ok: "rxb_ok b" "rxb_unit b ic" and g: "\<not> slot_has RXHARQ_PDU_CORRUPTED (rxb_slot b ic)"
  obtain i cw where ic: "ic = (i, cw)" by (cases ic)
  show "purge_one ic (b, acc) = Inr (b, acc)"
    using rx_get[OF ok[unfolded ic]] g
    by (simp add: ic purge_one_def rx_getUnitStatus_def slot_has_def rxb_slot_eq vec_at_ok rx_ok_def)
next
  fix b ic and acc :: nat
  assume ok: "rxb_ok b" "rxb_unit b ic" and g: "slot_has RXHARQ_PDU_CORRUPTED (rxb_slot b ic)"
  obtain i cw where ic: "ic = (i, cw)" by (cases ic)
  let ?p = "rb_processes b ! i"
  note get = rx_get[OF ok[unfolded ic]]
  obtain p' where p': "rx_resetCodeword cw ?p = Inr p'" using rx_resetCodeword_total get by blast
  then have m: "rx_moved (unat cw) ?p p'" "rx_slot p' (unat cw) = rx_empty_slot"
    using rx_resetCodeword_Inr by blast+
  note put = rxb_put[OF ok(1) _ rx_ok_moved_empty[OF m(1) _ m(2)] m(1)]
  show "\<exists>b'. purge_one ic (b, acc) = Inr (b', acc + 1) \<and>
      rxb_ok b' \<and> rxb_moved ic b b' \<and> rxb_slot b' ic = rx_empty_slot"
    using put get g p' m(2)
    by (intro exI[of _ "b\<lparr>rb_processes := (rb_processes b)[i := p']\<rparr>"])
      (simp add: ic purge_one_def rx_getUnitStatus_def on_rx_def slot_has_def rxb_slot_eq vec_at_ok rx_ok_def)
qed

interpretation rx_extract: rx_unit_loop "extract_one now" "slot_has RXHARQ_PDU_CORRECT" slot_countable
  "\<lambda>ty _ _ s re. (fst re @ [slot_pdu s], snd re @ projr (rx_samples now ty (slot_pdu s)))"
  "\<lambda>_ s'. s' = rx_empty_slot" for now
proof unfold_locales
  fix b ic and acc :: "mac_pdu list \<times> rx_sample list"
  assume ok: "rxb_ok b" "rxb_unit b ic" and g: "\<not> slot_has RXHARQ_PDU_CORRECT (rxb_slot b ic)"
  obtain i cw where ic: "ic = (i, cw)" by (cases ic)
  show "extract_one now ic (b, acc) = Inr (b, acc)"
    using rx_get[OF ok[unfolded ic]] g
    by (cases acc) (auto simp: ic extract_one_def rx_isCorrect_eq slot_has_def rxb_slot_eq)
next
  fix b ic and acc :: "mac_pdu list \<times> rx_sample list"
  assume ok: "rxb_ok b" "rxb_unit b ic" and g: "slot_has RXHARQ_PDU_CORRECT (rxb_slot b ic)"
    and l: "slot_countable (rb_nodeType b) (rxb_slot b ic)"
  obtain i cw where ic: "ic = (i, cw)" by (cases ic)
  let ?p = "rb_processes b ! i"
  note get = rx_get[OF ok[unfolded ic]]
  have c: "rx_isCorrect cw ?p = Inr True"
    using g get by (simp add: ic rx_isCorrect_eq slot_has_def rxb_slot_eq)
  obtain pdu p' where p': "rx_extractPdu cw ?p = Inr (Some pdu, p')" "rp_pdu ?p ! unat cw = Some pdu"
    and m: "rx_moved (unat cw) ?p p'" "rx_slot p' (unat cw) = rx_empty_slot"
    using rx_extractPdu_effect[OF _ _ c] get by blast
  have sp: "slot_pdu (rxb_slot b (i, cw)) = pdu" using p'(2) by (simp add: slot_pdu_def rxb_slot_eq)
  note put = rxb_put[OF ok(1) _ rx_ok_moved_empty[OF m(1) _ m(2)] m(1)]
  have s: "rx_samples now (rb_nodeType b) pdu = Inr (projr (rx_samples now (rb_nodeType b) pdu))"
    using rx_samples_ok[OF l[unfolded ic], of now] by (simp add: sp)
  show "\<exists>b'. extract_one now ic (b, acc) = Inr (b', fst acc @ [slot_pdu (rxb_slot b ic)],
        snd acc @ projr (rx_samples now (rb_nodeType b) (slot_pdu (rxb_slot b ic)))) \<and>
      rxb_ok b' \<and> rxb_moved ic b b' \<and> rxb_slot b' ic = rx_empty_slot"
    using put get c p'(1) m(2) s
    by (intro exI[of _ "b\<lparr>rb_processes := (rb_processes b)[i := p']\<rparr>"], cases acc)
      (auto simp: ic extract_one_def on_rx_def sp)
qed

end
