(* ===== verification/HarqUnitTx.thy ===== *)
theory HarqUnitTx
  imports LteTypes
begin

text \<open>
  The transmitting H-ARQ unit of one codeword
  (\<^verbatim>\<open>simulte/src/stack/mac/buffer/harq/LteHarqUnitTx.cc\<close>): its state, its operations with every
  exception, the life cycle of a unit as a step relation, and the contract \<open>harq_unit\<close> by which
  the H-ARQ process uses it.  Log output is left out; statistics are the list of emitted samples.
\<close>

section \<open>State\<close>

record harq_unit_tx =
  ut_pdu :: "mac_pdu option"
  ut_pduId :: int
  ut_pduLength :: int
  ut_acid :: acid
  ut_cw :: codeword
  ut_transmissions :: u8
  ut_status :: tx_harq_status
  ut_txTime :: simtime
  ut_maxHarqRtx :: u32

text \<open>
  The signals of the unit, on the MAC module they are emitted on: \<open>macOwner_\<close> or \<open>dstMac_\<close>.
  \<open>HarqErrorRate_n k\<close> is the rate of the \<open>k\<close>-th transmission.
\<close>

datatype mac_ref = MacOwner | DstMac

datatype harq_signal = HarqErrorRate | HarqErrorRate_n nat | MacPacketLoss | MacCellPacketLoss

type_synonym emission = "mac_ref \<times> harq_signal \<times> nat"

text \<open>
  The constructor leaves \<open>pduLength_\<close> unset: the value it starts with is the argument
  \<open>uninit\<close>.
\<close>

definition unit_new :: "int \<Rightarrow> acid \<Rightarrow> codeword \<Rightarrow> u32 \<Rightarrow> harq_unit_tx" where
  "unit_new uninit a c maxRtx = \<lparr>ut_pdu = None, ut_pduId = -1, ut_pduLength = uninit, ut_acid = a,
     ut_cw = c, ut_transmissions = 0, ut_status = TXHARQ_PDU_EMPTY, ut_txTime = 0,
     ut_maxHarqRtx = maxRtx\<rparr>"

section \<open>Operations\<close>

definition unit_isEmpty :: "harq_unit_tx \<Rightarrow> bool" where
  "unit_isEmpty u \<longleftrightarrow> ut_status u = TXHARQ_PDU_EMPTY"

definition unit_isReady :: "harq_unit_tx \<Rightarrow> bool" where
  "unit_isReady u \<longleftrightarrow> ut_status u = TXHARQ_PDU_BUFFERED"

definition unit_isMarked :: "harq_unit_tx \<Rightarrow> bool" where
  "unit_isMarked u \<longleftrightarrow> ut_status u = TXHARQ_PDU_SELECTED"

definition unit_resetUnit :: "harq_unit_tx \<Rightarrow> harq_unit_tx" where
  "unit_resetUnit u = u\<lparr>ut_transmissions := 0, ut_pdu := None, ut_pduId := -1,
     ut_status := TXHARQ_PDU_EMPTY, ut_pduLength := 0\<rparr>"

definition unit_insertPdu :: "mac_pdu option \<Rightarrow> harq_unit_tx \<Rightarrow> harq_unit_tx result" where
  "unit_insertPdu popt u = (case popt of
      None \<Rightarrow> Inl (RuntimeError ''Trying to insert NULL macPdu pointer in harq unit'')
    | Some p \<Rightarrow>
        if \<not> unit_isEmpty u
        then Inl (RuntimeError ''Trying to insert macPdu in already busy harq unit'')
        else if ut_cw u \<noteq> ucast (ui_cw (pdu_info p))
        then Inl (RuntimeError ''mismatch in cw settings'')
        else Inr (u\<lparr>ut_pdu := Some (p\<lparr>pdu_info := (pdu_info p)\<lparr>ui_acid := ut_acid u,
                                                           ui_cw := ucast (ut_cw u)\<rparr>\<rparr>),
                    ut_pduId := pdu_id p, ut_transmissions := 0,
                    ut_status := TXHARQ_PDU_SELECTED, ut_pduLength := getByteLength p\<rparr>))"

definition unit_markSelected :: "harq_unit_tx \<Rightarrow> harq_unit_tx result" where
  "unit_markSelected u =
     (if \<not> unit_isReady u
      then Inl (RuntimeError ''trying to select for transmission an empty buffer'')
      else Inr (u\<lparr>ut_status := TXHARQ_PDU_SELECTED\<rparr>))"

text \<open>
  \<open>extractPdu\<close> hands out the PDU the unit keeps, stamped with the transmission number and the new
  data indicator.
\<close>

definition unit_extractPdu :: "simtime \<Rightarrow> harq_unit_tx \<Rightarrow> (mac_pdu \<times> harq_unit_tx) result" where
  "unit_extractPdu now u =
     (if ut_status u \<noteq> TXHARQ_PDU_SELECTED
      then Inl (RuntimeError ''Trying to extract macPdu from not selected H-ARQ unit'')
      else case ut_pdu u of
        None \<Rightarrow> Inl (Undefined ''null pointer'')
      | Some p \<Rightarrow>
          let n = ut_transmissions u + 1;
              p' = p\<lparr>pdu_info := (pdu_info p)\<lparr>ui_txNumber := n, ui_ndi := (n = 1)\<rparr>\<rparr>
          in Inr (p', u\<lparr>ut_txTime := now, ut_transmissions := n,
                        ut_status := TXHARQ_PDU_WAITING, ut_pdu := Some p'\<rparr>))"

text \<open>The samples of one feedback: the per-transmission rate, the overall rate, and on a reset
  the loss of the user and of the cell.\<close>

definition unit_feedback_samples ::
  "mac_ref \<Rightarrow> mac_ref \<Rightarrow> u8 \<Rightarrow> nat \<Rightarrow> bool \<Rightarrow> emission list" where
  "unit_feedback_samples ue enb ntx sample reset =
     (if ntx = 1 then [(ue, HarqErrorRate_n 1, sample)]
      else if ntx = 2 then [(ue, HarqErrorRate_n 2, sample)]
      else if ntx = 3 then [(ue, HarqErrorRate_n 3, sample)]
      else if ntx = 4 then [(ue, HarqErrorRate_n 4, sample)] else [])
     @ [(ue, HarqErrorRate, sample)]
     @ (if reset then [(ue, MacPacketLoss, sample), (enb, MacCellPacketLoss, sample)] else [])"

definition unit_pduFeedback ::
  "harq_ack \<Rightarrow> harq_unit_tx \<Rightarrow> (harq_unit_tx \<times> bool \<times> emission list) result" where
  "unit_pduFeedback a u = (case ut_pdu u of
      None \<Rightarrow> Inl (Undefined ''null pointer'')
    | Some p \<Rightarrow>
        if ut_status u \<noteq> TXHARQ_PDU_WAITING
        then Inl (RuntimeError ''Feedback sent to an H-ARQ unit not waiting for it'')
        else
          let ntx = ut_transmissions u;
              (u', reset, sample) = (case a of
                  HARQACK \<Rightarrow> (unit_resetUnit u, True, 0)
                | HARQNACK \<Rightarrow>
                    if (ucast (ut_transmissions u) :: u32) = ut_maxHarqRtx u + 1
                    then (unit_resetUnit u, True, 1)
                    else (u\<lparr>ut_status := TXHARQ_PDU_BUFFERED\<rparr>, False, 1))
          in case ui_direction (pdu_info p) of
               DL \<Rightarrow> Inr (u', reset, unit_feedback_samples DstMac MacOwner ntx sample reset)
             | UL \<Rightarrow> Inr (u', reset, unit_feedback_samples MacOwner DstMac ntx sample reset)
             | UNKNOWN_DIRECTION \<Rightarrow>
                 Inl (RuntimeError ''LteHarqUnitTx::pduFeedback(): unknown direction''))"

definition unit_selfNack ::
  "simtime \<Rightarrow> harq_unit_tx \<Rightarrow> (harq_unit_tx \<times> bool \<times> emission list) result" where
  "unit_selfNack now u =
     (if ut_status u = TXHARQ_PDU_WAITING
      then Inl (RuntimeError ''Trying to send self NACK to a unit waiting for feedback'')
      else if ut_status u \<noteq> TXHARQ_PDU_BUFFERED
      then Inl (RuntimeError ''Trying to send self NACK to an idle or selected unit'')
      else unit_pduFeedback HARQNACK
             (u\<lparr>ut_transmissions := ut_transmissions u + 1, ut_txTime := now\<rparr>))"

definition unit_dropPdu :: "harq_unit_tx \<Rightarrow> harq_unit_tx result" where
  "unit_dropPdu u =
     (if ut_status u \<noteq> TXHARQ_PDU_BUFFERED
      then Inl (RuntimeError ''H-ARQ TX unit: cannot drop pdu if state is not BUFFERED'')
      else Inr (unit_resetUnit u))"

definition unit_forceDropUnit :: "harq_unit_tx \<Rightarrow> harq_unit_tx" where
  "unit_forceDropUnit u = unit_resetUnit u"

lemmas unit_test_defs = unit_isEmpty_def unit_isReady_def unit_isMarked_def

lemma unit_test_fun:
  "unit_isEmpty = (\<lambda>u. ut_status u = TXHARQ_PDU_EMPTY)"
  "unit_isReady = (\<lambda>u. ut_status u = TXHARQ_PDU_BUFFERED)"
  "unit_isMarked = (\<lambda>u. ut_status u = TXHARQ_PDU_SELECTED)"
  by (simp_all add: fun_eq_iff unit_test_defs)

section \<open>What each operation does to the status\<close>

lemma unit_resetUnit_simps [simp]:
  "ut_status (unit_resetUnit u) = TXHARQ_PDU_EMPTY"
  "ut_pdu (unit_resetUnit u) = None"
  "ut_transmissions (unit_resetUnit u) = 0"
  "ut_maxHarqRtx (unit_resetUnit u) = ut_maxHarqRtx u"
  "ut_acid (unit_resetUnit u) = ut_acid u"
  "ut_cw (unit_resetUnit u) = ut_cw u"
  "ut_pduId (unit_resetUnit u) = -1"
  "ut_pduLength (unit_resetUnit u) = 0"
  "ut_txTime (unit_resetUnit u) = ut_txTime u"
  by (simp_all add: unit_resetUnit_def)

lemma unit_insertPdu_Inr:
  "unit_insertPdu popt u = Inr u' \<longleftrightarrow>
   (\<exists>p. popt = Some p \<and> ut_status u = TXHARQ_PDU_EMPTY \<and> ut_cw u = ucast (ui_cw (pdu_info p)) \<and>
        u' = u\<lparr>ut_pdu := Some (p\<lparr>pdu_info := (pdu_info p)\<lparr>ui_acid := ut_acid u,
                                                         ui_cw := ucast (ut_cw u)\<rparr>\<rparr>),
               ut_pduId := pdu_id p, ut_transmissions := 0,
               ut_status := TXHARQ_PDU_SELECTED, ut_pduLength := getByteLength p\<rparr>)"
  by (auto simp: unit_insertPdu_def unit_test_defs split: option.splits)

lemma unit_markSelected_Inr:
  "unit_markSelected u = Inr u' \<longleftrightarrow>
   ut_status u = TXHARQ_PDU_BUFFERED \<and> u' = u\<lparr>ut_status := TXHARQ_PDU_SELECTED\<rparr>"
  by (auto simp: unit_markSelected_def unit_test_defs)

lemma unit_dropPdu_Inr:
  "unit_dropPdu u = Inr u' \<longleftrightarrow> ut_status u = TXHARQ_PDU_BUFFERED \<and> u' = unit_resetUnit u"
  by (auto simp: unit_dropPdu_def)

lemma unit_extractPdu_Inr:
  "unit_extractPdu now u = Inr (p', u') \<longleftrightarrow>
   (\<exists>p. ut_status u = TXHARQ_PDU_SELECTED \<and> ut_pdu u = Some p \<and>
        p' = p\<lparr>pdu_info := (pdu_info p)\<lparr>ui_txNumber := ut_transmissions u + 1,
                                        ui_ndi := (ut_transmissions u + 1 = 1)\<rparr>\<rparr> \<and>
        u' = u\<lparr>ut_txTime := now, ut_transmissions := ut_transmissions u + 1,
               ut_status := TXHARQ_PDU_WAITING, ut_pdu := Some p'\<rparr>)"
  by (auto simp: unit_extractPdu_def Let_def split: option.splits)

lemma unit_pduFeedback_ack:
  "unit_pduFeedback HARQACK u = Inr (u', reset, ems) \<Longrightarrow>
   ut_status u = TXHARQ_PDU_WAITING \<and> reset \<and> u' = unit_resetUnit u"
  by (auto simp: unit_pduFeedback_def Let_def split: option.splits if_splits direction.splits)

lemma unit_pduFeedback_nack:
  "unit_pduFeedback HARQNACK u = Inr (u', reset, ems) \<Longrightarrow>
   ut_status u = TXHARQ_PDU_WAITING \<and>
   (if (ucast (ut_transmissions u) :: u32) = ut_maxHarqRtx u + 1
    then reset \<and> u' = unit_resetUnit u
    else \<not> reset \<and> u' = u\<lparr>ut_status := TXHARQ_PDU_BUFFERED\<rparr>)"
  by (auto simp: unit_pduFeedback_def Let_def split: option.splits if_splits direction.splits)

lemma unit_pduFeedback_status:
  assumes "unit_pduFeedback a u = Inr (u', reset, ems)"
  shows "ut_status u = TXHARQ_PDU_WAITING"
    and "ut_status u' = (if reset then TXHARQ_PDU_EMPTY else TXHARQ_PDU_BUFFERED)"
  using assms by (cases a; auto dest: unit_pduFeedback_ack unit_pduFeedback_nack split: if_splits)+

section \<open>The self-NACK never succeeds\<close>

text \<open>
  \<open>selfNack\<close> accepts only a unit in state BUFFERED and then calls \<open>pduFeedback\<close>, which
  accepts only a unit in state WAITING: whatever the unit holds and whenever it is called, the
  operation ends in an exception (or in the null dereference of a BUFFERED unit without PDU) and
  never returns a result.
\<close>
theorem unit_selfNack_never_returns: "unit_selfNack now u \<noteq> Inr r"
  by (auto simp: unit_selfNack_def unit_pduFeedback_def split: option.splits)

lemma unit_selfNack_Inl: "\<exists>e. unit_selfNack now u = Inl e"
  by (auto simp: unit_selfNack_def unit_pduFeedback_def split: option.splits)

section \<open>The life cycle of a unit\<close>

text \<open>Every operation that returns is one step; \<open>selfNack\<close> is among them, though it never does.\<close>

inductive unit_step :: "harq_unit_tx \<Rightarrow> harq_unit_tx \<Rightarrow> bool" where
  step_insert: "unit_insertPdu p u = Inr u' \<Longrightarrow> unit_step u u'"
| step_mark: "unit_markSelected u = Inr u' \<Longrightarrow> unit_step u u'"
| step_extract: "unit_extractPdu now u = Inr (p, u') \<Longrightarrow> unit_step u u'"
| step_feedback: "unit_pduFeedback a u = Inr (u', reset, ems) \<Longrightarrow> unit_step u u'"
| step_selfNack: "unit_selfNack now u = Inr (u', reset, ems) \<Longrightarrow> unit_step u u'"
| step_drop: "unit_dropPdu u = Inr u' \<Longrightarrow> unit_step u u'"
| step_forceDrop: "unit_step u (unit_forceDropUnit u)"

inductive unit_reachable :: "u32 \<Rightarrow> harq_unit_tx \<Rightarrow> bool" for maxRtx :: u32 where
  unit_start: "unit_reachable maxRtx (unit_new uninit a c maxRtx)"
| unit_more: "unit_reachable maxRtx u \<Longrightarrow> unit_step u u' \<Longrightarrow> unit_reachable maxRtx u'"

text \<open>
  The invariant that ties status, PDU and transmission counter together.  It needs a limit that
  the 8-bit counter can reach.
\<close>

definition unit_inv :: "harq_unit_tx \<Rightarrow> bool" where
  "unit_inv u \<longleftrightarrow> (case ut_status u of
      TXHARQ_PDU_EMPTY \<Rightarrow> ut_pdu u = None \<and> ut_transmissions u = 0
    | TXHARQ_PDU_SELECTED \<Rightarrow>
        ut_pdu u \<noteq> None \<and> unat (ut_transmissions u) \<le> unat (ut_maxHarqRtx u)
    | TXHARQ_PDU_WAITING \<Rightarrow>
        ut_pdu u \<noteq> None \<and> 0 < unat (ut_transmissions u) \<and>
        unat (ut_transmissions u) \<le> unat (ut_maxHarqRtx u) + 1
    | TXHARQ_PDU_BUFFERED \<Rightarrow>
        ut_pdu u \<noteq> None \<and> 0 < unat (ut_transmissions u) \<and>
        unat (ut_transmissions u) \<le> unat (ut_maxHarqRtx u))"

lemma unit_inv_new [simp]: "unit_inv (unit_new uninit a c m)"
  by (simp add: unit_inv_def unit_new_def)

lemma unit_inv_reset [simp]: "unit_inv (unit_resetUnit u)"
  by (simp add: unit_inv_def)

text \<open>The limit test of \<open>pduFeedback\<close> compares an 8-bit with a 32-bit counter.\<close>

lemma max_test_iff:
  "unat (m :: u32) < 255 \<Longrightarrow> (ucast (t :: u8) :: u32) = m + 1 \<longleftrightarrow> unat t = unat m + 1"
proof -
  assume "unat m < 255"
  then have "unat (m + 1) = unat m + 1" by (simp add: unat_word_ariths)
  moreover have "unat (ucast t :: u32) = unat t" by simp
  ultimately show ?thesis by (metis word_unat_eq_iff)
qed

lemma max_test_unreachable:
  assumes "255 \<le> unat (m :: u32)" "unat m + 1 < 2 ^ 32"
  shows "(ucast (t :: u8) :: u32) \<noteq> m + 1"
proof
  assume "(ucast t :: u32) = m + 1"
  moreover have "unat (ucast t :: u32) = unat t" by simp
  moreover have "unat (m + 1) = unat m + 1" using assms by (simp add: unat_word_ariths)
  ultimately have "unat t = unat m + 1" by metis
  moreover have "unat t < 256" using unsigned_less[of t, where 'a=nat] by simp
  ultimately show False using assms by simp
qed

lemma unat_incr_u8: "unat (t :: u8) < 255 \<Longrightarrow> unat (t + 1) = unat t + 1"
  by (simp add: unat_word_ariths)

lemma unit_inv_feedback:
  assumes "unit_inv u" "unat (ut_maxHarqRtx u) < 255" "unit_pduFeedback a u = Inr (u', reset, ems)"
  shows "unit_inv u'"
proof (cases a)
  case HARQACK
  then show ?thesis using unit_pduFeedback_ack[of u u' reset ems] assms by simp
next
  case HARQNACK
  then show ?thesis
    using unit_pduFeedback_nack[of u u' reset ems] assms
    by (auto simp: max_test_iff unit_inv_def split: if_splits)
qed

lemma unit_step_inv:
  assumes "unit_step u u'" "unit_inv u" "unat (ut_maxHarqRtx u) < 255"
  shows "unit_inv u'"
  using assms
proof (induction rule: unit_step.induct)
  case (step_insert p u u')
  then show ?case by (auto simp: unit_insertPdu_Inr unit_inv_def)
next
  case (step_mark u u')
  then show ?case by (auto simp: unit_markSelected_Inr unit_inv_def)
next
  case (step_extract now u p u')
  then show ?case by (auto simp: unit_extractPdu_Inr unit_inv_def unat_incr_u8)
next
  case (step_feedback a u u' reset ems)
  then show ?case by (blast intro: unit_inv_feedback)
next
  case (step_selfNack now u u' reset ems)
  then show ?case using unit_selfNack_Inl[of now u] by auto
next
  case (step_drop u u')
  then show ?case by (auto simp: unit_dropPdu_Inr)
next
  case (step_forceDrop u)
  then show ?case by (simp add: unit_forceDropUnit_def)
qed

lemma unit_step_max: "unit_step u u' \<Longrightarrow> ut_maxHarqRtx u' = ut_maxHarqRtx u"
proof (induction rule: unit_step.induct)
  case (step_feedback a u u' reset ems)
  then show ?case
    by (cases a) (auto dest!: unit_pduFeedback_ack unit_pduFeedback_nack split: if_splits)
next
  case (step_selfNack now u u' reset ems)
  then show ?case using unit_selfNack_Inl[of now u] by auto
qed (auto simp: unit_insertPdu_Inr unit_markSelected_Inr unit_extractPdu_Inr unit_dropPdu_Inr
      unit_forceDropUnit_def)

lemma unit_reachable_inv:
  assumes "unit_reachable m u" "unat m < 255"
  shows "unit_inv u \<and> ut_maxHarqRtx u = m"
  using assms
proof (induction rule: unit_reachable.induct)
  case (unit_start uninit a c)
  then show ?case by (simp add: unit_inv_new) (simp add: unit_new_def)
next
  case (unit_more u u')
  then show ?case using unit_step_inv unit_step_max by metis
qed

text \<open>Whatever the limit, a unit holds a PDU exactly when it is not empty.\<close>

definition unit_has_pdu :: "harq_unit_tx \<Rightarrow> bool" where
  "unit_has_pdu u \<longleftrightarrow> (ut_pdu u = None) = (ut_status u = TXHARQ_PDU_EMPTY)"

lemma unit_step_has_pdu: "unit_step u u' \<Longrightarrow> unit_has_pdu u \<Longrightarrow> unit_has_pdu u'"
proof (induction rule: unit_step.induct)
  case (step_feedback a u u' reset ems)
  then show ?case
    by (cases a) (auto simp: unit_has_pdu_def dest!: unit_pduFeedback_ack unit_pduFeedback_nack
        split: if_splits)
next
  case (step_selfNack now u u' reset ems)
  then show ?case using unit_selfNack_Inl[of now u] by auto
qed (auto simp: unit_has_pdu_def unit_insertPdu_Inr unit_markSelected_Inr unit_extractPdu_Inr
      unit_dropPdu_Inr unit_forceDropUnit_def)

section \<open>Number of transmissions\<close>

text \<open>
  In every reachable state of a unit whose retransmission limit is below 255, the transmission
  counter never exceeds the limit plus one; a unit that is not waiting for feedback has made at
  most as many transmissions as the limit, so a further transmission is always within the bound;
  and the unit holds a PDU exactly when it is not empty.
\<close>
theorem unit_transmissions_bounded:
  assumes "unit_reachable m u" and "unat m < 255"
  shows "unat (ut_transmissions u) \<le> unat m + (if ut_status u = TXHARQ_PDU_WAITING then 1 else 0)
    \<and> (ut_pdu u = None) = (ut_status u = TXHARQ_PDU_EMPTY)"
  using unit_reachable_inv[OF assms] by (auto simp: unit_inv_def split: tx_harq_status.splits)

text \<open>A unit with limit 4 that has sent its PDU once.\<close>

definition ex_unit_waiting :: harq_unit_tx where
  "ex_unit_waiting = (unit_new 0 0 0 4)\<lparr>
     ut_pdu := Some ((ex_pdu 0)\<lparr>pdu_info := (ex_info 0)\<lparr>ui_txNumber := 1, ui_ndi := True\<rparr>\<rparr>),
     ut_pduId := 7, ut_pduLength := 42, ut_transmissions := 1, ut_txTime := 5,
     ut_status := TXHARQ_PDU_WAITING\<rparr>"

lemma ex_unit_waiting_reachable: "unit_reachable 4 ex_unit_waiting"
proof -
  let ?u0 = "unit_new 0 0 0 4"
  let ?u1 = "?u0\<lparr>ut_pdu := Some (ex_pdu 0), ut_pduId := 7, ut_transmissions := 0,
    ut_status := TXHARQ_PDU_SELECTED, ut_pduLength := 42\<rparr>"
  have "unit_insertPdu (Some (ex_pdu 0)) ?u0 = Inr ?u1"
    by (simp add: unit_insertPdu_Inr unit_new_def ex_pdu_def ex_info_def getByteLength_def)
  moreover have "\<exists>p. unit_extractPdu 5 ?u1 = Inr (p, ex_unit_waiting)"
    by (simp add: unit_extractPdu_def ex_unit_waiting_def unit_new_def ex_pdu_def ex_info_def Let_def)
  ultimately show ?thesis by (meson unit_reachable.intros unit_step.intros)
qed

theorem unit_transmissions_bounded_witness:
  "unit_reachable 4 ex_unit_waiting \<and> unat (ut_transmissions ex_unit_waiting) \<le> 5
   \<and> ut_transmissions ex_unit_waiting = 1"
  using unit_transmissions_bounded[OF ex_unit_waiting_reachable] ex_unit_waiting_reachable
  by (simp add: ex_unit_waiting_def)

text \<open>
  One failed round: the selected PDU is sent down at time \<open>now\<close>, a NACK arrives, and, if the unit
  was not reset, it is selected again for the next transmission.
\<close>

definition unit_nack_round ::
  "simtime \<Rightarrow> harq_unit_tx \<Rightarrow> (harq_unit_tx \<times> bool \<times> emission list) result" where
  "unit_nack_round now u =
     bindE (unit_extractPdu now u) (\<lambda>(p, u1).
     bindE (unit_pduFeedback HARQNACK u1) (\<lambda>(u2, reset, ems).
       if reset then Inr (u2, True, ems)
       else bindE (unit_markSelected u2) (\<lambda>u3. Inr (u3, False, ems))))"

fun unit_nack_rounds :: "simtime list \<Rightarrow> harq_unit_tx \<Rightarrow> (harq_unit_tx \<times> bool) result" where
  "unit_nack_rounds [] u = Inr (u, False)"
| "unit_nack_rounds (now # ts) u =
     bindE (unit_nack_round now u) (\<lambda>(u', reset, ems).
       if reset then Inr (u', True) else unit_nack_rounds ts u')"

definition unit_selected_at :: "u32 \<Rightarrow> nat \<Rightarrow> harq_unit_tx \<Rightarrow> bool" where
  "unit_selected_at m n u \<longleftrightarrow> ut_status u = TXHARQ_PDU_SELECTED \<and> ut_maxHarqRtx u = m \<and>
     unat (ut_transmissions u) = n \<and>
     (\<exists>p. ut_pdu u = Some p \<and> ui_direction (pdu_info p) \<in> {DL, UL})"

lemma unit_nack_round_step:
  assumes "unit_selected_at m n u" "unat m < 255" "n \<le> unat m"
  shows "\<exists>u' ems. unit_nack_round now u = Inr (u', n = unat m, ems) \<and>
           (if n = unat m then ut_status u' = TXHARQ_PDU_EMPTY else unit_selected_at m (Suc n) u')"
proof -
  obtain p where p: "ut_pdu u = Some p" "ui_direction (pdu_info p) \<in> {DL, UL}"
    and u: "ut_status u = TXHARQ_PDU_SELECTED" "ut_maxHarqRtx u = m" "unat (ut_transmissions u) = n"
    using assms(1) by (auto simp: unit_selected_at_def)
  have n: "unat (ut_transmissions u + 1) = Suc n"
    using unat_incr_u8[of "ut_transmissions u"] u(3) assms(2,3) by simp
  have lim: "((ucast (ut_transmissions u + 1) :: u32) = m + 1) = (n = unat m)"
    using max_test_iff[OF assms(2), of "ut_transmissions u + 1"] n by simp
  show ?thesis
    using p u n lim
    by (cases "n = unat m"; cases "ui_direction (pdu_info p)")
      (auto simp: unit_nack_round_def unit_extractPdu_def unit_pduFeedback_def
        unit_markSelected_def unit_test_defs unit_selected_at_def Let_def)
qed

lemma unit_nack_rounds_count:
  assumes "unit_selected_at m n u" "unat m < 255" "n \<le> unat m"
  shows "\<exists>u'. unit_nack_rounds ts u = Inr (u', unat m < n + length ts) \<and>
           (if unat m < n + length ts then ut_status u' = TXHARQ_PDU_EMPTY
            else unit_selected_at m (n + length ts) u')"
  using assms
proof (induction ts arbitrary: n u)
  case Nil
  then show ?case by simp
next
  case (Cons now ts)
  obtain u1 ems where u1: "unit_nack_round now u = Inr (u1, n = unat m, ems)"
    and st: "if n = unat m then ut_status u1 = TXHARQ_PDU_EMPTY else unit_selected_at m (Suc n) u1"
    using unit_nack_round_step[OF Cons.prems] by blast
  show ?case
  proof (cases "n = unat m")
    case True
    then show ?thesis using u1 st by simp
  next
    case False
    then have "unit_selected_at m (Suc n) u1" "Suc n \<le> unat m" using st Cons.prems by auto
    from Cons.IH[OF this(1) Cons.prems(2) this(2)] show ?thesis
      using u1 False by (auto split: if_splits)
  qed
qed

text \<open>
  The limit must fit the counter: with a limit of 255 or more the 8-bit counter never equals
  \<open>maxHarqRtx + 1\<close> and wraps around, and no NACK discards the PDU.
\<close>

lemma unit_nack_round_large:
  assumes "unit_selected_at m n u" "255 \<le> unat m" "unat m + 1 < 2 ^ 32"
  shows "\<exists>u' ems. unit_nack_round now u = Inr (u', False, ems) \<and> unit_selected_at m (Suc n mod 256) u'"
proof -
  obtain p where p: "ut_pdu u = Some p" "ui_direction (pdu_info p) \<in> {DL, UL}"
    and u: "ut_status u = TXHARQ_PDU_SELECTED" "ut_maxHarqRtx u = m" "unat (ut_transmissions u) = n"
    using assms(1) by (auto simp: unit_selected_at_def)
  have n: "unat (ut_transmissions u + 1) = Suc n mod 256" using u(3) by (simp add: unat_word_ariths)
  show ?thesis
    using p u n max_test_unreachable[OF assms(2,3), of "ut_transmissions u + 1"]
    by (cases "ui_direction (pdu_info p)")
      (auto simp: unit_nack_round_def unit_extractPdu_def unit_pduFeedback_def
        unit_markSelected_def unit_test_defs unit_selected_at_def Let_def)
qed

lemma unit_nack_rounds_large:
  assumes "unit_selected_at m n u" "255 \<le> unat m" "unat m + 1 < 2 ^ 32"
  shows "\<exists>u'. unit_nack_rounds ts u = Inr (u', False) \<and> unit_selected_at m ((n + length ts) mod 256) u'"
  using assms
proof (induction ts arbitrary: n u)
  case Nil
  have "n < 256" using Nil.prems(1) unsigned_less[of "ut_transmissions u", where 'a=nat] by (auto simp: unit_selected_at_def)
  then show ?case using Nil.prems(1) by simp
next
  case (Cons now ts)
  from unit_nack_round_large[OF Cons.prems, of now] obtain u1 ems where
    u1: "unit_nack_round now u = Inr (u1, False, ems)" "unit_selected_at m (Suc n mod 256) u1" by blast
  have "(Suc n mod 256 + length ts) mod 256 = (n + length (now # ts)) mod 256" by (simp add: mod_simps)
  with Cons.IH[OF u1(2) Cons.prems(2,3)] u1(1) show ?case by simp
qed

text \<open>
  C25: A PDU inserted into an empty unit, of a user with a known direction, is transmitted exactly
  \<open>maxHarqRtx + 1\<close> times when every transmission is answered with a NACK, provided the limit is below 255:
  up to \<open>maxHarqRtx\<close> failed rounds leave it selected for the next transmission with the rounds counted,
  and the next failed round discards it and empties the unit.  A limit of 255 or more (below
  \<open>2 ^ 32 - 1\<close>) does not fit the counter, an \<open>unsigned char\<close> that wraps around: then the PDU is never
  discarded, however many rounds fail.  No round ends in an error.
\<close>
theorem unit_discarded_after_max_rounds:
  assumes "unit_insertPdu (Some p) u = Inr u0" and "ui_direction (pdu_info p) \<in> {DL, UL}"
    and "unat (ut_maxHarqRtx u) + 1 < 2 ^ 32"
  shows "let gone = (unat (ut_maxHarqRtx u) < 255 \<and> unat (ut_maxHarqRtx u) < length ts) in
     \<exists>u'. unit_nack_rounds ts u0 = Inr (u', gone) \<and>
     (if gone then ut_status u' = TXHARQ_PDU_EMPTY
      else ut_status u' = TXHARQ_PDU_SELECTED \<and> unat (ut_transmissions u') = length ts mod 256)"
proof -
  have sel: "unit_selected_at (ut_maxHarqRtx u) 0 u0"
    using assms by (auto simp: unit_insertPdu_Inr unit_selected_at_def)
  show ?thesis
  proof (cases "unat (ut_maxHarqRtx u) < 255")
    case True
    from unit_nack_rounds_count[OF sel True, of ts] True show ?thesis
      by (auto simp: unit_selected_at_def Let_def split: if_splits)
  next
    case False
    then have "255 \<le> unat (ut_maxHarqRtx u)" by simp
    from unit_nack_rounds_large[OF sel this assms(3), of ts] False show ?thesis
      by (auto simp: unit_selected_at_def Let_def)
  qed
qed

theorem unit_discarded_after_max_rounds_witness:
  "\<exists>u0 u'. unit_insertPdu (Some (ex_pdu 0)) (unit_new 0 0 0 1) = Inr u0 \<and>
     unit_nack_rounds [1, 2] u0 = Inr (u', True) \<and> ut_status u' = TXHARQ_PDU_EMPTY"
proof -
  obtain u0 where u0: "unit_insertPdu (Some (ex_pdu 0)) (unit_new 0 0 0 1) = Inr u0"
    by (simp add: unit_insertPdu_Inr unit_new_def ex_pdu_def ex_info_def)
  have "ui_direction (pdu_info (ex_pdu 0)) \<in> {DL, UL}" by (simp add: ex_pdu_def ex_info_def)
  moreover have "unat (ut_maxHarqRtx (unit_new 0 0 0 1)) + 1 < 2 ^ 32" by (simp add: unit_new_def)
  ultimately show ?thesis
    using unit_discarded_after_max_rounds[OF u0, of "[1, 2]"] u0 by (simp add: unit_new_def)
qed

section \<open>The contract of a unit\<close>

text \<open>
  What the H-ARQ process relies on: every operation moves its unit from one status to one other.
  The process counts the empty and the selected units of its vector; the lemmas say how an
  operation on slot \<open>i\<close> changes the two counts.
\<close>

locale harq_unit =
  fixes status :: "'u \<Rightarrow> tx_harq_status"
    and insertOp :: "'p \<Rightarrow> 'u \<Rightarrow> 'u result"
    and markOp :: "'u \<Rightarrow> 'u result"
    and extractOp :: "simtime \<Rightarrow> 'u \<Rightarrow> ('q \<times> 'u) result"
    and feedbackOp :: "harq_ack \<Rightarrow> 'u \<Rightarrow> ('u \<times> bool \<times> 'e) result"
    and dropOp :: "'u \<Rightarrow> 'u result"
    and forceDropOp :: "'u \<Rightarrow> 'u"
  assumes insert_law: "insertOp p u = Inr u' \<Longrightarrow>
      status u = TXHARQ_PDU_EMPTY \<and> status u' = TXHARQ_PDU_SELECTED"
    and mark_law: "markOp u = Inr u' \<Longrightarrow>
      status u = TXHARQ_PDU_BUFFERED \<and> status u' = TXHARQ_PDU_SELECTED"
    and extract_law: "extractOp now u = Inr (q, u') \<Longrightarrow>
      status u = TXHARQ_PDU_SELECTED \<and> status u' = TXHARQ_PDU_WAITING"
    and feedback_law: "feedbackOp a u = Inr (u', reset, e) \<Longrightarrow> status u = TXHARQ_PDU_WAITING \<and>
      status u' = (if reset then TXHARQ_PDU_EMPTY else TXHARQ_PDU_BUFFERED)"
    and drop_law: "dropOp u = Inr u' \<Longrightarrow>
      status u = TXHARQ_PDU_BUFFERED \<and> status u' = TXHARQ_PDU_EMPTY"
    and forceDrop_law: "status (forceDropOp u) = TXHARQ_PDU_EMPTY"
begin

definition empties :: "'u list \<Rightarrow> nat" where
  "empties us = slots (\<lambda>u. status u = TXHARQ_PDU_EMPTY) us"

definition selecteds :: "'u list \<Rightarrow> nat" where
  "selecteds us = slots (\<lambda>u. status u = TXHARQ_PDU_SELECTED) us"

lemma insert_counts:
  assumes "i < length us" "insertOp p (us ! i) = Inr u'"
  shows "Suc (empties (us[i := u'])) = empties us" "selecteds (us[i := u']) = Suc (selecteds us)"
  using insert_law[OF assms(2)] slots_update[OF assms(1)] unfolding empties_def selecteds_def
  by (simp_all add: slots_update_out slots_update_in assms(1))

lemma mark_counts:
  assumes "i < length us" "markOp (us ! i) = Inr u'"
  shows "empties (us[i := u']) = empties us" "selecteds (us[i := u']) = Suc (selecteds us)"
  using mark_law[OF assms(2)] assms(1) unfolding empties_def selecteds_def
  by (simp_all add: slots_update_same slots_update_in)

lemma extract_counts:
  assumes "i < length us" "extractOp now (us ! i) = Inr (q, u')"
  shows "empties (us[i := u']) = empties us" "Suc (selecteds (us[i := u'])) = selecteds us"
  using extract_law[OF assms(2)] assms(1) unfolding empties_def selecteds_def
  by (simp_all add: slots_update_same slots_update_out)

lemma feedback_counts:
  assumes "i < length us" "feedbackOp a (us ! i) = Inr (u', reset, e)"
  shows "empties (us[i := u']) = (if reset then Suc (empties us) else empties us)"
    "selecteds (us[i := u']) = selecteds us"
  using feedback_law[OF assms(2)] assms(1) unfolding empties_def selecteds_def
  by (simp_all add: slots_update_same slots_update_in)

lemma drop_counts:
  assumes "i < length us" "dropOp (us ! i) = Inr u'"
  shows "empties (us[i := u']) = Suc (empties us)" "selecteds (us[i := u']) = selecteds us"
  using drop_law[OF assms(2)] assms(1) unfolding empties_def selecteds_def
  by (simp_all add: slots_update_same slots_update_in)

lemma forceDrop_all_counts:
  "empties (map forceDropOp us) = length us" "selecteds (map forceDropOp us) = 0"
  unfolding empties_def selecteds_def
  by (simp_all add: slots_map comp_def forceDrop_law slots_def)

end

interpretation tx_unit: harq_unit ut_status unit_insertPdu unit_markSelected unit_extractPdu
  unit_pduFeedback unit_dropPdu unit_forceDropUnit
  by unfold_locales
    (auto simp: unit_insertPdu_Inr unit_markSelected_Inr unit_extractPdu_Inr unit_dropPdu_Inr
      unit_pduFeedback_status unit_forceDropUnit_def)

end
