(* ===== verification/HarqProcessTx.thy ===== *)
theory HarqProcessTx
  imports HarqUnitTx
begin

text \<open>
  The transmitting H-ARQ process (\<^verbatim>\<open>simulte/src/stack/mac/buffer/harq/LteHarqProcessTx.cc\<close>): a vector
  of units, one per codeword, with two counters kept beside it, of the empty and of the selected
  units.  The lemmas say that the counters are exact in every state the operations reach, with the
  one exception the code has, and what the queries return.
\<close>

section \<open>State\<close>

record harq_process_tx =
  pt_units :: "harq_unit_tx list"
  pt_numProcesses :: u32
  pt_numHarqUnits :: u8
  pt_acid :: acid
  pt_numEmptyUnits :: u8
  pt_numSelected :: u32

text \<open>\<open>uninit i\<close> is the unset length field of the unit \<open>i\<close>.\<close>

definition process_new :: "(nat \<Rightarrow> int) \<Rightarrow> acid \<Rightarrow> nat \<Rightarrow> u32 \<Rightarrow> u32 \<Rightarrow> harq_process_tx" where
  "process_new uninit a numUnits numProcs maxRtx = \<lparr>
     pt_units = map (\<lambda>i. unit_new (uninit i) a (of_nat i) maxRtx) [0..<numUnits],
     pt_numProcesses = numProcs, pt_numHarqUnits = of_nat numUnits, pt_acid = a,
     pt_numEmptyUnits = of_nat numUnits, pt_numSelected = 0\<rparr>"

section \<open>Operations that change the state\<close>

definition process_insertPdu ::
  "mac_pdu option \<Rightarrow> codeword \<Rightarrow> harq_process_tx \<Rightarrow> harq_process_tx result" where
  "process_insertPdu popt cw p =
     bindE (vec_get (pt_units p) (unat cw)) (\<lambda>u.
     bindE (unit_insertPdu popt u) (\<lambda>u'.
       Inr (p\<lparr>pt_numEmptyUnits := pt_numEmptyUnits p - 1,
              pt_numSelected := pt_numSelected p + 1,
              pt_units := (pt_units p)[unat cw := u']\<rparr>)))"

definition process_markSelected :: "codeword \<Rightarrow> harq_process_tx \<Rightarrow> harq_process_tx result" where
  "process_markSelected cw p =
     (if pt_numSelected p = ucast (pt_numHarqUnits p)
      then Inl (RuntimeError ''cannot select another unit because they are all already selected'')
      else bindE (vec_get (pt_units p) (unat cw)) (\<lambda>u.
           bindE (unit_markSelected u) (\<lambda>u'.
             Inr (p\<lparr>pt_numSelected := pt_numSelected p + 1,
                    pt_units := (pt_units p)[unat cw := u']\<rparr>))))"

definition process_extractPdu ::
  "simtime \<Rightarrow> codeword \<Rightarrow> harq_process_tx \<Rightarrow> (mac_pdu \<times> harq_process_tx) result" where
  "process_extractPdu now cw p =
     (if pt_numSelected p = 0
      then Inl (RuntimeError ''H-ARQ TX process: cannot extract pdu: numSelected = 0 '')
      else bindE (vec_get (pt_units p) (unat cw)) (\<lambda>u.
           bindE (unit_extractPdu now u) (\<lambda>(pdu, u').
             Inr (pdu, p\<lparr>pt_numSelected := pt_numSelected p - 1,
                         pt_units := (pt_units p)[unat cw := u']\<rparr>))))"

text \<open>The common tail of \<open>pduFeedback\<close> and \<open>selfNack\<close>: count a reset unit, and answer whether the
  process has become empty.\<close>

definition process_after_feedback ::
  "codeword \<Rightarrow> harq_process_tx \<Rightarrow> harq_unit_tx \<times> bool \<times> emission list
   \<Rightarrow> harq_process_tx \<times> bool \<times> emission list" where
  "process_after_feedback cw p r = (case r of (u', reset, ems) \<Rightarrow>
     let n = (if reset then pt_numEmptyUnits p + 1 else pt_numEmptyUnits p)
     in (p\<lparr>pt_units := (pt_units p)[unat cw := u'], pt_numEmptyUnits := n\<rparr>,
         n = pt_numHarqUnits p, ems))"

definition process_pduFeedback ::
  "harq_ack \<Rightarrow> codeword \<Rightarrow> harq_process_tx \<Rightarrow> (harq_process_tx \<times> bool \<times> emission list) result" where
  "process_pduFeedback fb cw p =
     bindE (vec_get (pt_units p) (unat cw)) (\<lambda>u.
     bindE (unit_pduFeedback fb u) (\<lambda>r. Inr (process_after_feedback cw p r)))"

definition process_selfNack ::
  "simtime \<Rightarrow> codeword \<Rightarrow> harq_process_tx \<Rightarrow> (harq_process_tx \<times> bool \<times> emission list) result" where
  "process_selfNack now cw p =
     bindE (vec_get (pt_units p) (unat cw)) (\<lambda>u.
     bindE (unit_selfNack now u) (\<lambda>r. Inr (process_after_feedback cw p r)))"

definition process_dropPdu :: "codeword \<Rightarrow> harq_process_tx \<Rightarrow> harq_process_tx result" where
  "process_dropPdu cw p =
     bindE (vec_get (pt_units p) (unat cw)) (\<lambda>u.
     bindE (unit_dropPdu u) (\<lambda>u'.
       Inr (p\<lparr>pt_units := (pt_units p)[unat cw := u'],
              pt_numEmptyUnits := pt_numEmptyUnits p + 1\<rparr>)))"

definition process_forceDropProcess :: "harq_process_tx \<Rightarrow> harq_process_tx" where
  "process_forceDropProcess p =
     p\<lparr>pt_units := map unit_forceDropUnit (pt_units p),
       pt_numEmptyUnits := pt_numHarqUnits p, pt_numSelected := 0\<rparr>"

definition process_forceDropUnit ::
  "codeword \<Rightarrow> harq_process_tx \<Rightarrow> (harq_process_tx \<times> bool) result" where
  "process_forceDropUnit cw p =
     bindE (vec_get (pt_units p) (unat cw)) (\<lambda>u.
       let s = (if unit_isMarked u then pt_numSelected p - 1 else pt_numSelected p);
           n = pt_numEmptyUnits p + 1
       in Inr (p\<lparr>pt_numSelected := s, pt_units := (pt_units p)[unat cw := unit_forceDropUnit u],
                 pt_numEmptyUnits := n\<rparr>,
               n = pt_numHarqUnits p))"

section \<open>Queries\<close>

text \<open>
  The loops over the units run \<open>numHarqUnits_\<close> times.  The vector is created with that many units
  and no operation resizes it.
\<close>

definition process_cws :: "harq_process_tx \<Rightarrow> nat list" where
  "process_cws p = [0..<unat (pt_numHarqUnits p)]"

definition process_getUnitStatus :: "nat \<Rightarrow> harq_process_tx \<Rightarrow> tx_harq_status" where
  "process_getUnitStatus j p = ut_status (pt_units p ! j)"

definition process_getProcessStatus :: "harq_process_tx \<Rightarrow> (u8 \<times> tx_harq_status) list" where
  "process_getProcessStatus p =
     map (\<lambda>j. (of_nat j, process_getUnitStatus j p)) (process_cws p)"

definition process_hasReadyUnits :: "harq_process_tx \<Rightarrow> bool" where
  "process_hasReadyUnits p = list_ex (\<lambda>i. unit_isReady (pt_units p ! i)) (process_cws p)"

definition process_getOldestUnitTxTime :: "simtime \<Rightarrow> harq_process_tx \<Rightarrow> simtime" where
  "process_getOldestUnitTxTime now p =
     fold (\<lambda>i oldest. if unit_isReady (pt_units p ! i) \<and> ut_txTime (pt_units p ! i) < oldest
                      then ut_txTime (pt_units p ! i) else oldest)
       (process_cws p) (now + simtime_s)"

definition process_readyUnitsIds :: "harq_process_tx \<Rightarrow> codeword list" where
  "process_readyUnitsIds p =
     map of_nat (filter (\<lambda>i. unit_isReady (pt_units p ! i)) (process_cws p))"

definition process_emptyUnitsIds :: "harq_process_tx \<Rightarrow> codeword list" where
  "process_emptyUnitsIds p =
     map of_nat (filter (\<lambda>i. unit_isEmpty (pt_units p ! i)) (process_cws p))"

definition process_selectedUnitsIds :: "harq_process_tx \<Rightarrow> codeword list" where
  "process_selectedUnitsIds p =
     map of_nat (filter (\<lambda>i. unit_isMarked (pt_units p ! i)) (process_cws p))"

definition process_isEmpty :: "harq_process_tx \<Rightarrow> bool" where
  "process_isEmpty p \<longleftrightarrow> pt_numEmptyUnits p = pt_numHarqUnits p"

definition process_getPdu :: "codeword \<Rightarrow> harq_process_tx \<Rightarrow> mac_pdu option result" where
  "process_getPdu cw p = bindE (vec_get (pt_units p) (unat cw)) (\<lambda>u. Inr (ut_pdu u))"

definition process_getPduId :: "codeword \<Rightarrow> harq_process_tx \<Rightarrow> int result" where
  "process_getPduId cw p = bindE (vec_get (pt_units p) (unat cw)) (\<lambda>u. Inr (ut_pduId u))"

definition process_isUnitEmpty :: "codeword \<Rightarrow> harq_process_tx \<Rightarrow> bool result" where
  "process_isUnitEmpty cw p = bindE (vec_get (pt_units p) (unat cw)) (\<lambda>u. Inr (unit_isEmpty u))"

definition process_isUnitReady :: "codeword \<Rightarrow> harq_process_tx \<Rightarrow> bool result" where
  "process_isUnitReady cw p = bindE (vec_get (pt_units p) (unat cw)) (\<lambda>u. Inr (unit_isReady u))"

definition process_isUnitMarked :: "codeword \<Rightarrow> harq_process_tx \<Rightarrow> bool result" where
  "process_isUnitMarked cw p = bindE (vec_get (pt_units p) (unat cw)) (\<lambda>u. Inr (unit_isMarked u))"

definition process_getTransmissions :: "codeword \<Rightarrow> harq_process_tx \<Rightarrow> u8 result" where
  "process_getTransmissions cw p =
     bindE (vec_get (pt_units p) (unat cw)) (\<lambda>u. Inr (ut_transmissions u))"

definition process_getPduLength :: "codeword \<Rightarrow> harq_process_tx \<Rightarrow> int result" where
  "process_getPduLength cw p = bindE (vec_get (pt_units p) (unat cw)) (\<lambda>u. Inr (ut_pduLength u))"

definition process_getTxTime :: "codeword \<Rightarrow> harq_process_tx \<Rightarrow> simtime result" where
  "process_getTxTime cw p = bindE (vec_get (pt_units p) (unat cw)) (\<lambda>u. Inr (ut_txTime u))"

lemmas process_op_defs = process_insertPdu_def process_markSelected_def process_extractPdu_def
  process_pduFeedback_def process_dropPdu_def process_forceDropProcess_def
  process_forceDropUnit_def process_after_feedback_def

section \<open>The counters are exact\<close>

definition process_inv :: "harq_process_tx \<Rightarrow> bool" where
  "process_inv p \<longleftrightarrow> length (pt_units p) = unat (pt_numHarqUnits p) \<and>
     unat (pt_numEmptyUnits p) = tx_unit.empties (pt_units p) \<and>
     unat (pt_numSelected p) = tx_unit.selecteds (pt_units p)"

lemma empties_le: "tx_unit.empties us \<le> length us"
  by (simp add: tx_unit.empties_def slots_le)

lemma selecteds_le: "tx_unit.selecteds us \<le> length us"
  by (simp add: tx_unit.selecteds_def slots_le)

lemma numHarqUnits_less: "unat (pt_numHarqUnits p) < 256"
  using unsigned_less[of "pt_numHarqUnits p", where 'a = nat] by simp

lemma process_inv_new: "n < 256 \<Longrightarrow> process_inv (process_new uninit a n np m)"
  by (simp add: process_inv_def process_new_def tx_unit.empties_def tx_unit.selecteds_def slots_def
      unit_new_def comp_def unat_of_nat)

lemma unat_add_u8_lt: "unat (w :: u8) < 255 \<Longrightarrow> unat (w + 1) = Suc (unat w)"
  by (simp add: unat_word_ariths)

lemma unat_add_u32_lt: "unat (w :: u32) < 256 \<Longrightarrow> unat (w + 1) = Suc (unat w)"
  by (simp add: unat_word_ariths)

lemma process_inv_insertPdu:
  assumes "process_inv p" "process_insertPdu popt cw p = Inr p'"
  shows "process_inv p'"
proof -
  from assms(2) obtain u' where i: "unat cw < length (pt_units p)"
    and u': "unit_insertPdu popt (pt_units p ! unat cw) = Inr u'"
    and p': "p' = p\<lparr>pt_numEmptyUnits := pt_numEmptyUnits p - 1,
              pt_numSelected := pt_numSelected p + 1, pt_units := (pt_units p)[unat cw := u']\<rparr>"
    by (auto simp: process_insertPdu_def)
  note c = tx_unit.insert_counts[OF i u']
  have "tx_unit.selecteds (pt_units p) < 256"
    using selecteds_le[of "pt_units p"] assms(1) numHarqUnits_less[of p]
    by (simp add: process_inv_def)
  with c show ?thesis using assms(1) unfolding p' process_inv_def
    by (auto simp: unat_pred_word unat_add_u32_lt)
qed

lemma process_inv_markSelected:
  assumes "process_inv p" "process_markSelected cw p = Inr p'"
  shows "process_inv p'"
proof -
  from assms(2) obtain u' where i: "unat cw < length (pt_units p)"
    and u': "unit_markSelected (pt_units p ! unat cw) = Inr u'"
    and p': "p' = p\<lparr>pt_numSelected := pt_numSelected p + 1, pt_units := (pt_units p)[unat cw := u']\<rparr>"
    by (auto simp: process_markSelected_def split: if_splits)
  note c = tx_unit.mark_counts[OF i u']
  have "tx_unit.selecteds (pt_units p) < 256"
    using selecteds_le[of "pt_units p"] assms(1) numHarqUnits_less[of p]
    by (simp add: process_inv_def)
  with c show ?thesis using assms(1) unfolding p' process_inv_def
    by (auto simp: unat_add_u32_lt)
qed

lemma process_inv_extractPdu:
  assumes "process_inv p" "process_extractPdu now cw p = Inr (pdu, p')"
  shows "process_inv p'"
proof -
  from assms(2) obtain u' where i: "unat cw < length (pt_units p)"
    and u': "unit_extractPdu now (pt_units p ! unat cw) = Inr (pdu, u')"
    and p': "p' = p\<lparr>pt_numSelected := pt_numSelected p - 1, pt_units := (pt_units p)[unat cw := u']\<rparr>"
    by (auto simp: process_extractPdu_def split: if_splits)
  note c = tx_unit.extract_counts[OF i u']
  then show ?thesis using assms(1) unfolding p' process_inv_def by (auto simp: unat_pred_word)
qed

lemma process_inv_pduFeedback:
  assumes "process_inv p" "process_pduFeedback fb cw p = Inr (p', r, ems)"
  shows "process_inv p' \<and> r = process_isEmpty p'"
proof -
  from assms(2) obtain u' reset where i: "unat cw < length (pt_units p)"
    and u': "unit_pduFeedback fb (pt_units p ! unat cw) = Inr (u', reset, ems)"
    and p': "p' = p\<lparr>pt_units := (pt_units p)[unat cw := u'],
      pt_numEmptyUnits := (if reset then pt_numEmptyUnits p + 1 else pt_numEmptyUnits p)\<rparr>"
      "r = (pt_numEmptyUnits p' = pt_numHarqUnits p)"
    by (auto simp: process_pduFeedback_def process_after_feedback_def Let_def)
  note c = tx_unit.feedback_counts[OF i u']
  have "reset \<Longrightarrow> tx_unit.empties (pt_units p) < 255"
    using c(1) empties_le[of "(pt_units p)[unat cw := u']"] assms(1) numHarqUnits_less[of p]
    by (simp add: process_inv_def)
  with c show ?thesis using assms(1) unfolding p' process_inv_def process_isEmpty_def
    by (auto simp: unat_add_u8_lt)
qed

lemma process_inv_dropPdu:
  assumes "process_inv p" "process_dropPdu cw p = Inr p'"
  shows "process_inv p'"
proof -
  from assms(2) obtain u' where i: "unat cw < length (pt_units p)"
    and u': "unit_dropPdu (pt_units p ! unat cw) = Inr u'"
    and p': "p' = p\<lparr>pt_units := (pt_units p)[unat cw := u'],
              pt_numEmptyUnits := pt_numEmptyUnits p + 1\<rparr>"
    by (auto simp: process_dropPdu_def)
  note c = tx_unit.drop_counts[OF i u']
  have "tx_unit.empties (pt_units p) < 255"
    using c(1) empties_le[of "(pt_units p)[unat cw := u']"] assms(1) numHarqUnits_less[of p]
    by (simp add: process_inv_def)
  with c show ?thesis using assms(1) unfolding p' process_inv_def by (auto simp: unat_add_u8_lt)
qed

lemma process_inv_forceDropProcess:
  "process_inv p \<Longrightarrow> process_inv (process_forceDropProcess p)"
  by (simp add: process_inv_def process_forceDropProcess_def tx_unit.forceDrop_all_counts)

lemma process_inv_forceDropUnit:
  assumes "process_inv p" "process_forceDropUnit cw p = Inr (p', r)"
    and "process_isUnitEmpty cw p = Inr False"
  shows "process_inv p' \<and> r = process_isEmpty p'"
proof -
  let ?i = "unat cw" and ?us = "pt_units p"
  have i: "?i < length ?us" and ne: "ut_status (?us ! ?i) \<noteq> TXHARQ_PDU_EMPTY"
    using assms(3) by (auto simp: process_isUnitEmpty_def unit_test_defs)
  let ?v = "unit_forceDropUnit (?us ! ?i)"
  have v: "ut_status ?v = TXHARQ_PDU_EMPTY" by (simp add: unit_forceDropUnit_def)
  have e: "tx_unit.empties (?us[?i := ?v]) = Suc (tx_unit.empties ?us)"
    unfolding tx_unit.empties_def using i ne v by (simp add: slots_update_in)
  have s: "tx_unit.selecteds (?us[?i := ?v]) + (if unit_isMarked (?us ! ?i) then 1 else 0)
      = tx_unit.selecteds ?us"
    unfolding tx_unit.selecteds_def unit_test_defs
    using slots_update[OF i, of "\<lambda>u. ut_status u = TXHARQ_PDU_SELECTED" ?v] v by simp
  have b: "tx_unit.empties ?us < 255"
    using e empties_le[of "?us[?i := ?v]"] assms(1) numHarqUnits_less[of p]
    by (simp add: process_inv_def)
  have p': "p' = p\<lparr>pt_numSelected := (if unit_isMarked (?us ! ?i) then pt_numSelected p - 1
      else pt_numSelected p), pt_units := ?us[?i := ?v], pt_numEmptyUnits := pt_numEmptyUnits p + 1\<rparr>"
    "r = (pt_numEmptyUnits p' = pt_numHarqUnits p')"
    using assms(2) i by (auto simp: process_forceDropUnit_def vec_get_ok Let_def)
  show ?thesis
    using assms(1) e s b unfolding p' process_inv_def process_isEmpty_def
    by (auto simp: unat_add_u8_lt unat_pred_word split: if_splits)
qed

inductive process_step :: "harq_process_tx \<Rightarrow> harq_process_tx \<Rightarrow> bool" where
  ps_insert: "process_insertPdu popt cw p = Inr p' \<Longrightarrow> process_step p p'"
| ps_mark: "process_markSelected cw p = Inr p' \<Longrightarrow> process_step p p'"
| ps_extract: "process_extractPdu now cw p = Inr (pdu, p') \<Longrightarrow> process_step p p'"
| ps_feedback: "process_pduFeedback fb cw p = Inr (p', r, ems) \<Longrightarrow> process_step p p'"
| ps_drop: "process_dropPdu cw p = Inr p' \<Longrightarrow> process_step p p'"
| ps_forceDropProcess: "process_step p (process_forceDropProcess p)"
| ps_forceDropUnit: "process_isUnitEmpty cw p = Inr False \<Longrightarrow>
    process_forceDropUnit cw p = Inr (p', r) \<Longrightarrow> process_step p p'"

inductive process_reachable :: "harq_process_tx \<Rightarrow> bool" where
  pr_start: "n < 256 \<Longrightarrow> process_reachable (process_new uninit a n np m)"
| pr_more: "process_reachable p \<Longrightarrow> process_step p p' \<Longrightarrow> process_reachable p'"

lemma process_step_inv: "process_step p p' \<Longrightarrow> process_inv p \<Longrightarrow> process_inv p'"
proof (induction rule: process_step.induct)
  case (ps_feedback fb cw p p' r ems)
  then show ?case using process_inv_pduFeedback by blast
next
  case (ps_forceDropUnit cw p p' r)
  then show ?case using process_inv_forceDropUnit by blast
qed (auto intro: process_inv_insertPdu process_inv_markSelected process_inv_extractPdu
      process_inv_dropPdu process_inv_forceDropProcess)

lemma process_reachable_inv: "process_reachable p \<Longrightarrow> process_inv p"
  by (induction rule: process_reachable.induct) (auto intro: process_inv_new process_step_inv)

lemma process_isEmpty_iff:
  "process_inv p \<Longrightarrow>
   process_isEmpty p \<longleftrightarrow> list_all (\<lambda>u. ut_status u = TXHARQ_PDU_EMPTY) (pt_units p)"
  unfolding process_inv_def process_isEmpty_def tx_unit.empties_def
  using slots_eq_length_iff[of "\<lambda>u. ut_status u = TXHARQ_PDU_EMPTY" "pt_units p"]
  by (metis word_unat_eq_iff)

text \<open>
  C30: In every state a process reaches by its operations (with \<open>forceDropUnit\<close> called on non-empty
  units only), \<open>numEmptyUnits_\<close> and \<open>numSelected_\<close> are the numbers of empty and of selected units,
  and \<open>isEmpty\<close> answers yes exactly when every unit is empty.
\<close>
theorem process_counters_exact:
  assumes "process_reachable p"
  shows "unat (pt_numEmptyUnits p) = length (filter unit_isEmpty (pt_units p))
    \<and> unat (pt_numSelected p) = length (filter unit_isMarked (pt_units p))
    \<and> process_isEmpty p = list_all unit_isEmpty (pt_units p)"
proof -
  have "process_inv p" using assms by (rule process_reachable_inv)
  then show ?thesis
    using process_isEmpty_iff[of p]
    by (simp add: process_inv_def tx_unit.empties_def tx_unit.selecteds_def slots_def unit_test_fun)
qed

text \<open>A process with one PDU selected on codeword 1.\<close>

definition ex_process_selected :: harq_process_tx where
  "ex_process_selected = (case process_insertPdu (Some (ex_pdu 1)) 1 (process_new (\<lambda>_. 0) 3 2 8 4) of
     Inr p \<Rightarrow> p | Inl _ \<Rightarrow> process_new (\<lambda>_. 0) 3 2 8 4)"

lemma ex_process_insert:
  "process_insertPdu (Some (ex_pdu 1)) 1 (process_new (\<lambda>_. 0) 3 2 8 4) = Inr ex_process_selected"
proof -
  have "is_ok (process_insertPdu (Some (ex_pdu 1)) 1 (process_new (\<lambda>_. 0) 3 2 8 4))"
    by (simp add: is_ok_iff process_insertPdu_def unit_insertPdu_Inr process_new_def unit_new_def
        ex_pdu_def ex_info_def)
  then show ?thesis by (auto simp: is_ok_iff ex_process_selected_def)
qed

lemma ex_process_reachable: "process_reachable ex_process_selected"
  by (rule pr_more[OF pr_start ps_insert[OF ex_process_insert]]) simp

theorem process_counters_exact_witness:
  "process_reachable ex_process_selected \<and>
   unat (pt_numSelected ex_process_selected)
     = length (filter unit_isMarked (pt_units ex_process_selected))
   \<and> pt_numSelected ex_process_selected = 1"
proof -
  have "pt_numSelected ex_process_selected = 1"
    using ex_process_insert
    by (auto simp: process_insertPdu_def process_new_def dest!: arg_cong[where f = pt_numSelected])
  then show ?thesis using process_counters_exact[OF ex_process_reachable] ex_process_reachable by simp
qed

text \<open>
  The restriction on \<open>forceDropUnit\<close> is needed: called on an empty unit it still increments the
  counter of empty units, which then exceeds the number of units, so that an empty process no
  longer counts as empty.
\<close>
lemma process_forceDropUnit_empty_breaks_counter:
  "\<exists>p'. process_forceDropUnit 0 (process_new (\<lambda>_. 0) 0 2 8 4) = Inr (p', False) \<and>
        pt_numEmptyUnits p' = 3 \<and> list_all unit_isEmpty (pt_units p') \<and> \<not> process_isEmpty p'"
  by (simp add: process_forceDropUnit_def process_new_def unit_new_def unit_test_defs
      process_isEmpty_def vec_get_def upt_rec unit_forceDropUnit_def)

section \<open>What the queries return\<close>

lemma process_hasReadyUnits_iff:
  "process_hasReadyUnits p \<longleftrightarrow> process_readyUnitsIds p \<noteq> []"
  by (auto simp: process_hasReadyUnits_def process_readyUnitsIds_def process_cws_def
      list_ex_iff filter_empty_conv)

lemma process_ids_set:
  assumes "length (pt_units p) = unat (pt_numHarqUnits p)"
  shows "set (map of_nat (filter (\<lambda>i. Q (pt_units p ! i)) (process_cws p)) :: codeword list)
    = {cw. unat cw < length (pt_units p) \<and> Q (pt_units p ! unat cw)}" (is "?L = ?R")
proof
  have b: "length (pt_units p) < 256" using assms numHarqUnits_less[of p] by simp
  have u: "unat (of_nat i :: codeword) = i" if "i < length (pt_units p)" for i
    using that b by (simp add: unat_of_nat)
  show "?L \<subseteq> ?R" using u assms by (auto simp: process_cws_def)
  show "?R \<subseteq> ?L"
  proof
    fix cw assume "cw \<in> ?R"
    then have "unat cw \<in> set (filter (\<lambda>i. Q (pt_units p ! i)) (process_cws p))"
      using assms by (auto simp: process_cws_def)
    moreover have "of_nat (unat cw) = cw" by simp
    ultimately show "cw \<in> ?L" by (metis imageI set_map)
  qed
qed

lemma process_selectedUnitsIds_set:
  "process_inv p \<Longrightarrow> set (process_selectedUnitsIds p) =
     {cw. unat cw < length (pt_units p) \<and> ut_status (pt_units p ! unat cw) = TXHARQ_PDU_SELECTED}"
  unfolding process_selectedUnitsIds_def
  using process_ids_set[of p unit_isMarked] by (simp add: process_inv_def unit_test_defs)

lemma process_readyUnitsIds_set:
  "process_inv p \<Longrightarrow> set (process_readyUnitsIds p) =
     {cw. unat cw < length (pt_units p) \<and> ut_status (pt_units p ! unat cw) = TXHARQ_PDU_BUFFERED}"
  unfolding process_readyUnitsIds_def
  using process_ids_set[of p unit_isReady] by (simp add: process_inv_def unit_test_defs)

lemma process_emptyUnitsIds_set:
  "process_inv p \<Longrightarrow> set (process_emptyUnitsIds p) =
     {cw. unat cw < length (pt_units p) \<and> ut_status (pt_units p ! unat cw) = TXHARQ_PDU_EMPTY}"
  unfolding process_emptyUnitsIds_def
  using process_ids_set[of p unit_isEmpty] by (simp add: process_inv_def unit_test_defs)

lemma process_ids_distinct:
  assumes "length (pt_units p) = unat (pt_numHarqUnits p)"
  shows "distinct (map of_nat (filter (\<lambda>i. Q (pt_units p ! i)) (process_cws p)) :: codeword list)"
proof -
  have "inj_on (of_nat :: nat \<Rightarrow> codeword) (set (process_cws p))"
  proof (rule inj_onI)
    fix x y assume "x \<in> set (process_cws p)" "y \<in> set (process_cws p)"
      "(of_nat x :: codeword) = of_nat y"
    then have "unat (of_nat x :: codeword) = unat (of_nat y :: codeword)"
      "x < 256" "y < 256" using numHarqUnits_less[of p] by (auto simp: process_cws_def)
    then show "x = y" by (simp add: unat_of_nat)
  qed
  then have "inj_on (of_nat :: nat \<Rightarrow> codeword)
      (set (filter (\<lambda>i. Q (pt_units p ! i)) (process_cws p)))"
    by (rule inj_on_subset) auto
  then show ?thesis by (simp add: distinct_map process_cws_def)
qed

text \<open>The loop of \<open>getOldestUnitTxTime\<close> takes the minimum over the ready units.\<close>

lemma fold_min_time:
  "fold (\<lambda>i oldest. if R i \<and> t i < oldest then t i else oldest) xs (m :: int)
     = Min (insert m (t ` {i \<in> set xs. R i}))"
proof (induction xs arbitrary: m)
  case Nil
  then show ?case by simp
next
  case (Cons x xs)
  let ?m = "if R x \<and> t x < m then t x else m"
  define A where "A = t ` {i \<in> set xs. R i}"
  have fin: "finite A" by (simp add: A_def)
  have "Min (insert ?m (t ` {i \<in> set xs. R i}))
      = Min (insert m (t ` {i \<in> set (x # xs). R i}))"
  proof (cases "R x")
    case True
    then have "insert m (t ` {i \<in> set (x # xs). R i}) = insert m (insert (t x) A)"
      by (auto simp: A_def)
    then show ?thesis unfolding A_def[symmetric]
      using True Min_insert_smaller[OF fin, of "t x" m] by simp
  next
    case False
    then have "{i \<in> set (x # xs). R i} = {i \<in> set xs. R i}" by auto
    then show ?thesis using False by simp
  qed
  then show ?case using Cons.IH[of ?m] by simp
qed

lemma process_getOldestUnitTxTime_Min:
  assumes "process_inv p" "\<forall>u \<in> set (pt_units p). ut_txTime u \<le> now" "process_hasReadyUnits p"
  shows "process_getOldestUnitTxTime now p
     = Min (ut_txTime ` {u \<in> set (pt_units p). unit_isReady u})"
proof -
  let ?R = "\<lambda>i. unit_isReady (pt_units p ! i)" and ?t = "\<lambda>i. ut_txTime (pt_units p ! i)"
  have img: "?t ` {i \<in> set (process_cws p). ?R i} = ut_txTime ` {u \<in> set (pt_units p). unit_isReady u}"
    using assms(1) by (auto simp: process_cws_def process_inv_def in_set_conv_nth image_iff)
  have ne: "ut_txTime ` {u \<in> set (pt_units p). unit_isReady u} \<noteq> {}"
    using assms(1,3) unfolding process_hasReadyUnits_def process_cws_def process_inv_def
    by (auto simp: list_ex_iff) (metis nth_mem)
  have le: "Min (ut_txTime ` {u \<in> set (pt_units p). unit_isReady u}) < now + simtime_s"
  proof -
    from ne obtain u where "u \<in> set (pt_units p)" "unit_isReady u" by auto
    then have "Min (ut_txTime ` {u \<in> set (pt_units p). unit_isReady u}) \<le> ut_txTime u" by simp
    also have "\<dots> \<le> now" using assms(2) \<open>u \<in> set (pt_units p)\<close> by blast
    finally show ?thesis by (simp add: simtime_s_def)
  qed
  have "process_getOldestUnitTxTime now p
      = Min (insert (now + simtime_s) (ut_txTime ` {u \<in> set (pt_units p). unit_isReady u}))"
    unfolding process_getOldestUnitTxTime_def fold_min_time img ..
  also have "\<dots> = Min (ut_txTime ` {u \<in> set (pt_units p). unit_isReady u})"
    using ne le by (intro Min_insert_larger) auto
  finally show ?thesis .
qed

section \<open>Sound processes\<close>

text \<open>
  A process of two codewords whose counters are exact, whose non-empty units hold a PDU, and whose
  units are numbered by their codeword.
\<close>

definition process_ok :: "harq_process_tx \<Rightarrow> bool" where
  "process_ok p \<longleftrightarrow> process_inv p \<and> pt_numHarqUnits p = of_nat MAX_CODEWORDS \<and>
     (\<forall>u \<in> set (pt_units p). unit_has_pdu u) \<and>
     map ut_cw (pt_units p) = map of_nat [0..<MAX_CODEWORDS]"

lemma process_ok_length: "process_ok p \<Longrightarrow> length (pt_units p) = 2"
  by (simp add: process_ok_def process_inv_def MAX_CODEWORDS_def)

lemma process_ok_new: "process_ok (process_new uninit a MAX_CODEWORDS np m)"
  using process_inv_new[of MAX_CODEWORDS uninit a np m]
  by (auto simp: process_ok_def MAX_CODEWORDS_def)
     (auto simp: process_new_def unit_has_pdu_def unit_new_def)

lemma process_ok_cw: "process_ok p \<Longrightarrow> i < length (pt_units p) \<Longrightarrow> ut_cw (pt_units p ! i) = of_nat i"
  using process_ok_length[of p] nth_map[of i "pt_units p" ut_cw]
  by (auto simp: process_ok_def MAX_CODEWORDS_def)

lemma unit_step_cw: "unit_step u u' \<Longrightarrow> ut_cw u' = ut_cw u"
proof (induction rule: unit_step.induct)
  case (step_feedback a u u' reset ems)
  then show ?case
    by (cases a; auto dest: unit_pduFeedback_ack unit_pduFeedback_nack split: if_splits)
next
  case (step_selfNack now u u' reset ems)
  then show ?case using unit_selfNack_Inl[of now u] by auto
qed (auto simp: unit_insertPdu_Inr unit_markSelected_Inr unit_extractPdu_Inr unit_dropPdu_Inr
    unit_forceDropUnit_def)

lemma map_update_same: "i < length xs \<Longrightarrow> f v = f (xs ! i) \<Longrightarrow> map f (xs[i := v]) = map f xs"
  by (simp add: map_update list_update_same_conv)

lemma units_update_all:
  "\<forall>u \<in> set us. Q u \<Longrightarrow> i < length us \<Longrightarrow> Q v \<Longrightarrow> \<forall>u \<in> set (us[i := v]). Q u"
  using set_update_subset_insert[of us i v] by auto

definition unit_moved :: "harq_process_tx \<Rightarrow> harq_process_tx \<Rightarrow> bool" where
  "unit_moved p p' \<longleftrightarrow> pt_numHarqUnits p' = pt_numHarqUnits p \<and>
     (\<exists>i v. i < length (pt_units p) \<and> unit_step (pt_units p ! i) v \<and>
            pt_units p' = (pt_units p)[i := v])"

lemma unit_movedI:
  "i < length (pt_units p) \<Longrightarrow> unit_step (pt_units p ! i) v \<Longrightarrow>
   pt_units p' = (pt_units p)[i := v] \<Longrightarrow> pt_numHarqUnits p' = pt_numHarqUnits p \<Longrightarrow> unit_moved p p'"
  by (auto simp: unit_moved_def)

lemma process_step_moved:
  "process_step p p' \<Longrightarrow> unit_moved p p' \<or> p' = process_forceDropProcess p"
proof (induction rule: process_step.induct)
  case (ps_insert popt cw p p')
  then show ?case
    by (auto simp: process_insertPdu_def intro: unit_movedI[OF _ step_insert])
next
  case (ps_mark cw p p')
  then show ?case
    by (auto simp: process_markSelected_def intro: unit_movedI[OF _ step_mark] split: if_splits)
next
  case (ps_extract now cw p pdu p')
  then show ?case
    by (auto simp: process_extractPdu_def intro: unit_movedI[OF _ step_extract] split: if_splits)
next
  case (ps_feedback fb cw p p' r ems)
  then show ?case
    by (auto simp: process_pduFeedback_def process_after_feedback_def Let_def
        intro: unit_movedI[OF _ step_feedback])
next
  case (ps_drop cw p p')
  then show ?case by (auto simp: process_dropPdu_def intro: unit_movedI[OF _ step_drop])
next
  case (ps_forceDropUnit cw p p' r)
  then show ?case
    by (auto simp: process_forceDropUnit_def Let_def intro: unit_movedI[OF _ step_forceDrop])
qed simp

lemma process_step_frame:
  assumes "process_step p p'" "\<And>u u'. unit_step u u' \<Longrightarrow> Q u \<Longrightarrow> Q u'"
    and "\<forall>u \<in> set (pt_units p). Q u"
  shows "pt_numHarqUnits p' = pt_numHarqUnits p \<and> (\<forall>u \<in> set (pt_units p'). Q u)"
proof -
  from process_step_moved[OF assms(1)] consider "unit_moved p p'" | "p' = process_forceDropProcess p"
    by blast
  then show ?thesis
  proof cases
    case 1
    then obtain i v where i: "i < length (pt_units p)" "unit_step (pt_units p ! i) v"
      "pt_units p' = (pt_units p)[i := v]" "pt_numHarqUnits p' = pt_numHarqUnits p"
      by (auto simp: unit_moved_def)
    then have "Q v" using assms(2,3) nth_mem by blast
    then show ?thesis using units_update_all[OF assms(3) i(1)] i by simp
  next
    case 2
    then show ?thesis
      using assms(2)[OF step_forceDrop] assms(3) by (auto simp: process_forceDropProcess_def)
  qed
qed

lemma process_step_cws:
  "process_step p p' \<Longrightarrow> map ut_cw (pt_units p') = map ut_cw (pt_units p)"
  using process_step_moved[of p p'] unit_step_cw map_update_same[of _ "pt_units p" ut_cw]
  by (auto simp: unit_moved_def process_forceDropProcess_def unit_forceDropUnit_def)

lemma process_step_ok: "process_step p p' \<Longrightarrow> process_ok p \<Longrightarrow> process_ok p'"
  unfolding process_ok_def
  using process_step_frame[of p p' unit_has_pdu, OF _ unit_step_has_pdu] process_step_inv[of p p']
    process_step_cws[of p p']
  by simp

lemma foldE_process_ok:
  assumes "\<And>x p p'. f x p = Inr p' \<Longrightarrow> process_step p p'"
    and "foldE f xs p = Inr p'" "process_ok p"
  shows "process_ok p'"
  using foldE_invariant[OF assms(2), of process_ok] assms(1,3) process_step_ok by blast

end
