(* ===== verification/HarqBufferTx.thy ===== *)
theory HarqBufferTx
  imports HarqProcessTx
begin

text \<open>
  The transmitting H-ARQ buffer of one destination
  (\<^verbatim>\<open>simulte/src/stack/mac/buffer/harq/LteHarqBufferTx.cc\<close>): its processes, the process selected
  in the current TTI, and the operations the MAC layer calls.  Packets handed to
  \<open>sendLowerPackets\<close> are the list an operation returns.
\<close>

section \<open>State\<close>

record harq_buffer_tx =
  bt_processes :: "harq_process_tx list"
  bt_numProc :: u32
  bt_numEmptyProc :: u32
  bt_selectedAcid :: acid
  bt_nodeId :: mac_node_id

definition buffer_new :: "(nat \<Rightarrow> nat \<Rightarrow> int) \<Rightarrow> u32 \<Rightarrow> mac_node_id \<Rightarrow> u32 \<Rightarrow> harq_buffer_tx" where
  "buffer_new uninit numProc nodeId maxRtx = \<lparr>
     bt_processes = map (\<lambda>i. process_new (uninit i) (of_nat i) MAX_CODEWORDS numProc maxRtx)
                      [0..<unat numProc],
     bt_numProc = numProc, bt_numEmptyProc = numProc, bt_selectedAcid = HARQ_NONE,
     bt_nodeId = nodeId\<rparr>"

section \<open>Choosing a process\<close>

definition buffer_acids :: "harq_buffer_tx \<Rightarrow> nat list" where
  "buffer_acids b = [0..<unat (bt_numProc b)]"

text \<open>One turn of the loop of \<open>firstReadyForRtx\<close>, on the pair of the oldest process and its time.\<close>

definition oldest_process_step ::
  "simtime \<Rightarrow> harq_buffer_tx \<Rightarrow> nat \<Rightarrow> acid \<times> simtime \<Rightarrow> acid \<times> simtime" where
  "oldest_process_step now b i s = (case s of (oldestAcid, oldestTime) \<Rightarrow>
     if process_hasReadyUnits (bt_processes b ! i) then
       let cur = process_getOldestUnitTxTime now (bt_processes b ! i)
       in if cur < oldestTime then (of_nat i, cur) else (oldestAcid, oldestTime)
     else (oldestAcid, oldestTime))"

definition buffer_firstReadyForRtx :: "simtime \<Rightarrow> harq_buffer_tx \<Rightarrow> unit_list result" where
  "buffer_firstReadyForRtx now b =
     (let (a, t) = fold (oldest_process_step now b) (buffer_acids b) (HARQ_NONE, now + simtime_s)
      in if a \<noteq> HARQ_NONE
         then bindE (vec_get (bt_processes b) (unat a)) (\<lambda>p. Inr (a, process_readyUnitsIds p))
         else Inr (a, []))"

definition buffer_firstAvailable :: "harq_buffer_tx \<Rightarrow> unit_list result" where
  "buffer_firstAvailable b =
     (let a = (if bt_selectedAcid b = HARQ_NONE
               then (case find (\<lambda>i. process_isEmpty (bt_processes b ! i)) (buffer_acids b) of
                       Some i \<Rightarrow> of_nat i | None \<Rightarrow> HARQ_NONE)
               else bt_selectedAcid b)
      in if a \<noteq> HARQ_NONE
         then bindE (vec_get (bt_processes b) (unat a)) (\<lambda>p. Inr (a, process_emptyUnitsIds p))
         else Inr (a, []))"

definition buffer_getEmptyUnits :: "acid \<Rightarrow> harq_buffer_tx \<Rightarrow> unit_list result" where
  "buffer_getEmptyUnits a b =
     bindE (vec_get (bt_processes b) (unat a)) (\<lambda>p. Inr (a, process_emptyUnitsIds p))"

definition buffer_pduLength :: "acid \<Rightarrow> codeword \<Rightarrow> harq_buffer_tx \<Rightarrow> int result" where
  "buffer_pduLength a cw b =
     bindE (vec_get (bt_processes b) (unat a)) (\<lambda>p. process_getPduLength cw p)"

definition buffer_getBufferStatus :: "harq_buffer_tx \<Rightarrow> (u8 \<times> tx_harq_status) list list" where
  "buffer_getBufferStatus b = map (\<lambda>i. process_getProcessStatus (bt_processes b ! i)) (buffer_acids b)"

definition buffer_getProcess :: "acid \<Rightarrow> harq_buffer_tx \<Rightarrow> harq_process_tx result" where
  "buffer_getProcess a b = (case vec_at (bt_processes b) (unat a) of
      Inr p \<Rightarrow> Inr p
    | Inl _ \<Rightarrow> Inl (RuntimeError ''LteHarqBufferTx::getProcess(): acid out of bounds''))"

definition buffer_getSelectedProcess :: "harq_buffer_tx \<Rightarrow> harq_process_tx result" where
  "buffer_getSelectedProcess b = buffer_getProcess (bt_selectedAcid b) b"

definition buffer_isInUnitList :: "acid \<Rightarrow> codeword \<Rightarrow> unit_list \<Rightarrow> bool" where
  "buffer_isInUnitList a cw ul = (if a \<noteq> fst ul then False else list_ex (\<lambda>c. cw = c) (snd ul))"

section \<open>Operations\<close>

text \<open>Run an operation on the process \<open>a\<close> and put the new process back.\<close>

definition on_process ::
  "acid \<Rightarrow> (harq_process_tx \<Rightarrow> (harq_process_tx \<times> 'r) result) \<Rightarrow> harq_buffer_tx
   \<Rightarrow> (harq_buffer_tx \<times> 'r) result" where
  "on_process a f b =
     bindE (vec_get (bt_processes b) (unat a)) (\<lambda>p.
     bindE (f p) (\<lambda>(p', r). Inr (b\<lparr>bt_processes := (bt_processes b)[unat a := p']\<rparr>, r)))"

text \<open>
  Several transport blocks become one: the SDUs and control elements of each further codeword are
  moved into the PDU of codeword \<open>cw\<close>, and its unit is dropped.  A list that names \<open>cw\<close> again
  would make the move loop run for ever, as it would push onto the list it pops from.
\<close>

definition put_pdu :: "codeword \<Rightarrow> mac_pdu \<Rightarrow> harq_process_tx \<Rightarrow> harq_process_tx" where
  "put_pdu cw pdu p =
     p\<lparr>pt_units := (pt_units p)[unat cw := (pt_units p ! unat cw)\<lparr>ut_pdu := Some pdu\<rparr>]\<rparr>"

definition merge_one :: "codeword \<Rightarrow> codeword \<Rightarrow> harq_process_tx \<Rightarrow> harq_process_tx result" where
  "merge_one cw g p =
     bindE (process_getPdu cw p) (\<lambda>base. bindE (process_getPdu g p) (\<lambda>guest.
       case (base, guest) of
         (Some base, Some guest) \<Rightarrow>
           if g = cw \<and> (hasSdu guest \<or> hasCe guest)
           then Inl (Undefined ''endless loop'')
           else bindE (moveSdus base guest) (\<lambda>(base1, guest1).
                bindE (moveCes base1 guest1) (\<lambda>(base2, guest2).
                  process_dropPdu g (put_pdu cw base2 p)))
       | _ \<Rightarrow> Inl (Undefined ''null pointer'')))"

definition buffer_markSelected :: "unit_list \<Rightarrow> u8 \<Rightarrow> harq_buffer_tx \<Rightarrow> harq_buffer_tx result" where
  "buffer_markSelected unitIds availableTbs b =
     (if snd unitIds = [] \<or> availableTbs = 0 then Inr b
      else
        let a = fst unitIds; cwList = snd unitIds
        in bindE (on_process a (\<lambda>p.
             if unat availableTbs < length cwList
             then (let cw = hd cwList in
                   bindE (foldE (merge_one cw) (tl cwList) p) (\<lambda>p1.
                   bindE (process_markSelected cw p1) (\<lambda>p2. Inr (p2, ()))))
             else bindE (foldE process_markSelected cwList p) (\<lambda>p1. Inr (p1, ()))) b)
           (\<lambda>(b', _). Inr (b'\<lparr>bt_selectedAcid := a\<rparr>)))"

definition buffer_insertPdu ::
  "acid \<Rightarrow> codeword \<Rightarrow> mac_pdu option \<Rightarrow> harq_buffer_tx \<Rightarrow> harq_buffer_tx result" where
  "buffer_insertPdu a cw popt b =
     bindE (vec_get (bt_processes b) (unat a)) (\<lambda>p.
       if bt_selectedAcid b = HARQ_NONE \<and> \<not> process_isEmpty p
       then Inl (RuntimeError ''H-ARQ TX buffer: new process selected for tx is not completely empty'')
       else bindE (process_isUnitEmpty cw p) (\<lambda>e.
         if \<not> e then Inl (RuntimeError ''LteHarqBufferTx::insertPdu(): unit is not empty'')
         else bindE (process_insertPdu popt cw p) (\<lambda>p'.
           Inr (b\<lparr>bt_selectedAcid := a, bt_numEmptyProc := bt_numEmptyProc b - 1,
                  bt_processes := (bt_processes b)[unat a := p']\<rparr>))))"

definition buffer_receiveHarqFeedback ::
  "harq_feedback \<Rightarrow> harq_buffer_tx \<Rightarrow> (harq_buffer_tx \<times> emission list) result" where
  "buffer_receiveHarqFeedback fb b =
     (let res = (if fb_result fb then HARQACK else HARQNACK);
          cw = (ucast (fb_cw fb) :: codeword); a = fb_acid fb
      in bindE (vec_get (bt_processes b) (unat a)) (\<lambda>p.
         bindE (process_getPduId cw p) (\<lambda>unitPduId.
           if fb_pduId fb \<noteq> unitPduId
           then Inl (RuntimeError ''H-ARQ TX: fb is not for the pdu in this unit, maybe the addressed one was dropped'')
           else bindE (process_pduFeedback res cw p) (\<lambda>(p', reset, ems).
             Inr (b\<lparr>bt_processes := (bt_processes b)[unat a := p'],
                    bt_numEmptyProc := (if reset then bt_numEmptyProc b + 1 else bt_numEmptyProc b)\<rparr>,
                  ems)))))"

text \<open>The loop of \<open>sendSelectedDown\<close>: extract the selected units in order, collecting the PDUs.\<close>

definition send_one ::
  "simtime \<Rightarrow> codeword \<Rightarrow> harq_process_tx \<times> mac_pdu list \<Rightarrow> (harq_process_tx \<times> mac_pdu list) result"
where
  "send_one now cw s = (case s of (p, sent) \<Rightarrow>
     bindE (process_extractPdu now cw p) (\<lambda>(pdu, p'). Inr (p', sent @ [pdu])))"

definition buffer_sendSelectedDown ::
  "simtime \<Rightarrow> harq_buffer_tx \<Rightarrow> (harq_buffer_tx \<times> mac_pdu list) result" where
  "buffer_sendSelectedDown now b =
     (if bt_selectedAcid b = HARQ_NONE then Inr (b, [])
      else bindE (on_process (bt_selectedAcid b)
                   (\<lambda>p. foldE (send_one now) (process_selectedUnitsIds p) (p, [])) b)
             (\<lambda>(b', sent). Inr (b'\<lparr>bt_selectedAcid := HARQ_NONE\<rparr>, sent)))"

definition buffer_dropProcess :: "acid \<Rightarrow> harq_buffer_tx \<Rightarrow> harq_buffer_tx result" where
  "buffer_dropProcess a b =
     bindE (on_process a
              (\<lambda>p. bindE (foldE process_dropPdu (process_readyUnitsIds p) p) (\<lambda>p'. Inr (p', ()))) b)
       (\<lambda>(b', _). Inr (b'\<lparr>bt_numEmptyProc := bt_numEmptyProc b' + 1\<rparr>))"

text \<open>\<open>selfNack\<close> runs over all ready codewords of the process; its argument \<open>cw\<close> is not used.\<close>

definition self_nack_one ::
  "simtime \<Rightarrow> codeword \<Rightarrow> harq_process_tx \<times> bool \<times> emission list
   \<Rightarrow> (harq_process_tx \<times> bool \<times> emission list) result" where
  "self_nack_one now cw s = (case s of (p, _, ems) \<Rightarrow>
     bindE (process_selfNack now cw p) (\<lambda>(p', r, e). Inr (p', r, ems @ e)))"

definition buffer_selfNack ::
  "simtime \<Rightarrow> acid \<Rightarrow> codeword \<Rightarrow> harq_buffer_tx \<Rightarrow> (harq_buffer_tx \<times> emission list) result" where
  "buffer_selfNack now a cw b =
     bindE (on_process a
              (\<lambda>p. foldE (self_nack_one now) (process_readyUnitsIds p) (p, False, [])) b)
       (\<lambda>(b', reset, ems).
          Inr (if reset then b'\<lparr>bt_numEmptyProc := bt_numEmptyProc b' + 1\<rparr> else b', ems))"

definition buffer_forceDropProcess :: "acid \<Rightarrow> harq_buffer_tx \<Rightarrow> harq_buffer_tx result" where
  "buffer_forceDropProcess a b =
     bindE (on_process a (\<lambda>p. Inr (process_forceDropProcess p, ())) b) (\<lambda>(b', _).
       Inr (b'\<lparr>bt_selectedAcid := (if a = bt_selectedAcid b' then HARQ_NONE else bt_selectedAcid b'),
               bt_numEmptyProc := bt_numEmptyProc b' + 1\<rparr>))"

definition buffer_forceDropUnit :: "acid \<Rightarrow> codeword \<Rightarrow> harq_buffer_tx \<Rightarrow> harq_buffer_tx result" where
  "buffer_forceDropUnit a cw b =
     bindE (on_process a (process_forceDropUnit cw) b) (\<lambda>(b', reset).
       Inr (if reset
            then b'\<lparr>bt_selectedAcid := (if a = bt_selectedAcid b' then HARQ_NONE else bt_selectedAcid b'),
                    bt_numEmptyProc := bt_numEmptyProc b' + 1\<rparr>
            else b'))"

lemma on_process_Inr:
  "on_process a f b = Inr (b', r) \<longleftrightarrow>
   (\<exists>p'. unat a < length (bt_processes b) \<and> f (bt_processes b ! unat a) = Inr (p', r) \<and>
         b' = b\<lparr>bt_processes := (bt_processes b)[unat a := p']\<rparr>)"
  by (auto simp: on_process_def)

section \<open>Sound buffers\<close>

text \<open>
  Every process is sound, and only the process named by \<open>selectedAcid_\<close> has selected units.
\<close>

definition buffer_ok :: "harq_buffer_tx \<Rightarrow> bool" where
  "buffer_ok b \<longleftrightarrow> length (bt_processes b) = unat (bt_numProc b) \<and> unat (bt_numProc b) \<le> 255 \<and>
     (\<forall>p \<in> set (bt_processes b). process_ok p) \<and>
     (\<forall>i < length (bt_processes b). i \<noteq> unat (bt_selectedAcid b) \<longrightarrow>
        pt_numSelected (bt_processes b ! i) = 0) \<and>
     (bt_selectedAcid b \<noteq> HARQ_NONE \<longrightarrow> unat (bt_selectedAcid b) < length (bt_processes b))"

lemma unat_HARQ_NONE [simp]: "unat HARQ_NONE = 255"
  by (simp add: HARQ_NONE_def)

lemma unat_MAX_CODEWORDS [simp]: "unat (of_nat MAX_CODEWORDS :: u8) = 2"
  by (simp add: MAX_CODEWORDS_def)

lemma buffer_ok_new: "unat n \<le> 255 \<Longrightarrow> buffer_ok (buffer_new uninit n nid m)"
  by (auto simp: buffer_ok_def buffer_new_def process_ok_new) (simp add: process_new_def)

text \<open>Putting a sound process at \<open>a\<close>, with \<open>a\<close> the new selected process or nothing selected in it.\<close>

lemma buffer_ok_put:
  assumes "buffer_ok b" "unat a < length (bt_processes b)" "process_ok p'"
    and "bt_processes b' = (bt_processes b)[unat a := p']" "bt_numProc b' = bt_numProc b"
    and "bt_selectedAcid b' = bt_selectedAcid b \<and> (a = bt_selectedAcid b \<or> pt_numSelected p' = 0)
      \<or> bt_selectedAcid b' = a \<and> (bt_selectedAcid b = HARQ_NONE \<or> bt_selectedAcid b = a)
      \<or> bt_selectedAcid b' = HARQ_NONE \<and> a = bt_selectedAcid b \<and> pt_numSelected p' = 0"
  shows "buffer_ok b'"
proof -
  have "\<forall>q \<in> set (bt_processes b'). process_ok q"
    using assms(1-4) set_update_subset_insert[of "bt_processes b" "unat a" p']
    by (auto simp: buffer_ok_def)
  moreover have "pt_numSelected (bt_processes b' ! i) = 0"
    if "i < length (bt_processes b')" "i \<noteq> unat (bt_selectedAcid b')" for i
    using that assms by (cases "i = unat a") (auto simp: buffer_ok_def)
  ultimately show ?thesis using assms by (auto simp: buffer_ok_def)
qed

lemma buffer_ok_process: "buffer_ok b \<Longrightarrow> i < length (bt_processes b) \<Longrightarrow> process_ok (bt_processes b ! i)"
  by (simp add: buffer_ok_def)

lemma buffer_ok_unselected:
  "buffer_ok b \<Longrightarrow> i < length (bt_processes b) \<Longrightarrow> i \<noteq> unat (bt_selectedAcid b) \<Longrightarrow>
   pt_numSelected (bt_processes b ! i) = 0"
  by (simp add: buffer_ok_def)

lemma no_selected_iff:
  "process_ok p \<Longrightarrow> pt_numSelected p = 0 \<longleftrightarrow> list_all (\<lambda>u. \<not> unit_isMarked u) (pt_units p)"
  unfolding process_ok_def process_inv_def tx_unit.selecteds_def unit_test_fun
  using slots_zero_iff[of "\<lambda>u. ut_status u = TXHARQ_PDU_SELECTED" "pt_units p"]
  by (metis unat_eq_zero)

section \<open>Sending the selected units\<close>

definition stamped_pdu :: "harq_unit_tx \<Rightarrow> mac_pdu" where
  "stamped_pdu u = (let p = the (ut_pdu u); n = ut_transmissions u + 1
     in p\<lparr>pdu_info := (pdu_info p)\<lparr>ui_txNumber := n, ui_ndi := (n = 1)\<rparr>\<rparr>)"

definition sent_unit :: "simtime \<Rightarrow> harq_unit_tx \<Rightarrow> harq_unit_tx" where
  "sent_unit now u = u\<lparr>ut_txTime := now, ut_transmissions := ut_transmissions u + 1,
     ut_status := TXHARQ_PDU_WAITING, ut_pdu := Some (stamped_pdu u)\<rparr>"

lemma unit_extractPdu_ok:
  "ut_status u = TXHARQ_PDU_SELECTED \<Longrightarrow> unit_has_pdu u \<Longrightarrow>
   unit_extractPdu now u = Inr (stamped_pdu u, sent_unit now u)"
  by (auto simp: unit_extractPdu_def unit_has_pdu_def stamped_pdu_def sent_unit_def Let_def
      split: option.splits)

lemma send_one_ok:
  assumes "process_ok p" "unat cw < length (pt_units p)"
    and "ut_status (pt_units p ! unat cw) = TXHARQ_PDU_SELECTED"
  shows "\<exists>p'. send_one now cw (p, acc) = Inr (p', acc @ [stamped_pdu (pt_units p ! unat cw)]) \<and>
     process_ok p' \<and> pt_units p' = (pt_units p)[unat cw := sent_unit now (pt_units p ! unat cw)]"
proof -
  let ?u = "pt_units p ! unat cw"
  have "pt_numSelected p \<noteq> 0"
    using no_selected_iff[OF assms(1)] assms(2,3) by (auto simp: list_all_iff unit_test_defs)
  moreover have "unit_has_pdu ?u" using assms(1,2) by (auto simp: process_ok_def)
  ultimately obtain p' where p': "process_extractPdu now cw p = Inr (stamped_pdu ?u, p')"
    "pt_units p' = (pt_units p)[unat cw := sent_unit now ?u]"
    using unit_extractPdu_ok[OF assms(3)] assms(2) by (simp add: process_extractPdu_def vec_get_ok)
  moreover have "process_ok p'" using process_step_ok[OF ps_extract[OF p'(1)] assms(1)] .
  ultimately show ?thesis by (simp add: send_one_def)
qed

lemma send_loop:
  assumes "process_ok p" "distinct cws"
    and "\<forall>cw \<in> set cws. unat cw < length (pt_units p) \<and>
      ut_status (pt_units p ! unat cw) = TXHARQ_PDU_SELECTED"
  shows "\<exists>p'. foldE (send_one now) cws (p, acc)
      = Inr (p', acc @ map (\<lambda>cw. stamped_pdu (pt_units p ! unat cw)) cws) \<and> process_ok p' \<and>
      length (pt_units p') = length (pt_units p) \<and>
      (\<forall>j < length (pt_units p). pt_units p' ! j =
         (if j \<in> unat ` set cws then sent_unit now (pt_units p ! j) else pt_units p ! j))"
  using assms
proof (induction cws arbitrary: p acc)
  case Nil
  then show ?case by simp
next
  case (Cons c cws)
  obtain p1 where p1: "send_one now c (p, acc) = Inr (p1, acc @ [stamped_pdu (pt_units p ! unat c)])"
    "process_ok p1" "pt_units p1 = (pt_units p)[unat c := sent_unit now (pt_units p ! unat c)]"
    using send_one_ok[of p c now acc] Cons.prems by auto
  have ne: "unat c' \<noteq> unat c" if "c' \<in> set cws" for c'
    using that Cons.prems(2) word_unat_eq_iff by (metis distinct.simps(2))
  have keep: "pt_units p1 ! unat c' = pt_units p ! unat c'" if "c' \<in> set cws" for c'
    using ne[OF that] p1(3) by simp
  obtain p' where p': "foldE (send_one now) cws (p1, acc @ [stamped_pdu (pt_units p ! unat c)])
      = Inr (p', (acc @ [stamped_pdu (pt_units p ! unat c)])
               @ map (\<lambda>cw. stamped_pdu (pt_units p1 ! unat cw)) cws)"
    "process_ok p'" "length (pt_units p') = length (pt_units p1)"
    "\<forall>j < length (pt_units p1). pt_units p' ! j =
         (if j \<in> unat ` set cws then sent_unit now (pt_units p1 ! j) else pt_units p1 ! j)"
    using Cons.IH[of p1 "acc @ [stamped_pdu (pt_units p ! unat c)]"] p1(2,3) keep Cons.prems by auto
  have "map (\<lambda>cw. stamped_pdu (pt_units p1 ! unat cw)) cws
      = map (\<lambda>cw. stamped_pdu (pt_units p ! unat cw)) cws" using keep by simp
  moreover have "pt_units p' ! j = (if j \<in> unat ` set (c # cws) then sent_unit now (pt_units p ! j)
      else pt_units p ! j)" if "j < length (pt_units p)" for j
  proof (cases "j = unat c")
    case True
    moreover have "unat c \<notin> unat ` set cws" using ne by fastforce
    ultimately show ?thesis using that p'(4) p1(3) by simp
  next
    case False
    then show ?thesis using that p'(4) p1(3) by simp
  qed
  ultimately show ?case using p1(1,3) p' by simp
qed

lemma selected_map:
  "process_ok p \<Longrightarrow> map (\<lambda>cw. f (pt_units p ! unat cw)) (process_selectedUnitsIds p)
     = map f (filter unit_isMarked (pt_units p))"
proof -
  assume p: "process_ok p"
  let ?us = "pt_units p"
  have len: "unat (pt_numHarqUnits p) = length ?us" and two: "length ?us = 2"
    using p process_ok_length[OF p] by (auto simp: process_ok_def process_inv_def)
  have "map (\<lambda>cw. f (?us ! unat cw)) (process_selectedUnitsIds p)
      = map (\<lambda>i. f (?us ! i)) (filter (\<lambda>i. unit_isMarked (?us ! i)) [0..<length ?us])"
    using two by (auto simp: process_selectedUnitsIds_def process_cws_def len unat_of_nat)
  also have "\<dots> = map f (filter unit_isMarked (map (\<lambda>i. ?us ! i) [0..<length ?us]))"
    by (simp add: filter_map comp_def)
  also have "\<dots> = map f (filter unit_isMarked ?us)" by (simp add: map_nth)
  finally show ?thesis .
qed

section \<open>Reachable buffers\<close>

text \<open>
  The MAC layers use a buffer as follows: a new PDU goes into the process selected in this TTI, or
  into any process if none is; units are selected for retransmission only if no process is
  selected; feedback, dropping and sending are free, except that \<open>forceDropUnit\<close> is called on
  non-empty units.
\<close>

inductive buffer_step :: "harq_buffer_tx \<Rightarrow> harq_buffer_tx \<Rightarrow> bool" where
  bs_insert: "bt_selectedAcid b = HARQ_NONE \<or> a = bt_selectedAcid b \<Longrightarrow>
    buffer_insertPdu a cw popt b = Inr b' \<Longrightarrow> buffer_step b b'"
| bs_select: "bt_selectedAcid b = HARQ_NONE \<Longrightarrow> buffer_markSelected ul n b = Inr b' \<Longrightarrow>
    buffer_step b b'"
| bs_feedback: "buffer_receiveHarqFeedback fb b = Inr (b', ems) \<Longrightarrow> buffer_step b b'"
| bs_send: "buffer_sendSelectedDown now b = Inr (b', sent) \<Longrightarrow> buffer_step b b'"
| bs_drop: "buffer_dropProcess a b = Inr b' \<Longrightarrow> buffer_step b b'"
| bs_selfNack: "buffer_selfNack now a cw b = Inr (b', ems) \<Longrightarrow> buffer_step b b'"
| bs_forceDropProcess: "buffer_forceDropProcess a b = Inr b' \<Longrightarrow> buffer_step b b'"
| bs_forceDropUnit: "unat a < length (bt_processes b) \<Longrightarrow>
    process_isUnitEmpty cw (bt_processes b ! unat a) = Inr False \<Longrightarrow>
    buffer_forceDropUnit a cw b = Inr b' \<Longrightarrow> buffer_step b b'"

inductive buffer_reachable :: "harq_buffer_tx \<Rightarrow> bool" where
  br_start: "unat n \<le> 255 \<Longrightarrow> buffer_reachable (buffer_new uninit n nid m)"
| br_more: "buffer_reachable b \<Longrightarrow> buffer_step b b' \<Longrightarrow> buffer_reachable b'"

text \<open>Merging keeps the process sound: the base unit is not empty, so it keeps a PDU.\<close>

lemma put_pdu_ok:
  assumes "process_ok p" "unat cw < length (pt_units p)"
    and "ut_pdu (pt_units p ! unat cw) = Some base"
  shows "process_ok (put_pdu cw q p)"
proof -
  let ?u = "pt_units p ! unat cw" and ?v = "(pt_units p ! unat cw)\<lparr>ut_pdu := Some q\<rparr>"
  have "unit_has_pdu ?u" using assms by (simp add: process_ok_def)
  then have v: "unit_has_pdu ?v" using assms(3) by (simp add: unit_has_pdu_def)
  have "\<forall>u \<in> set ((pt_units p)[unat cw := ?v]). unit_has_pdu u"
    using assms(1,2) v by (intro units_update_all) (auto simp: process_ok_def)
  moreover have "tx_unit.empties ((pt_units p)[unat cw := ?v]) = tx_unit.empties (pt_units p)"
    "tx_unit.selecteds ((pt_units p)[unat cw := ?v]) = tx_unit.selecteds (pt_units p)"
    unfolding tx_unit.empties_def tx_unit.selecteds_def using assms(2)
    by (simp_all add: slots_update_same)
  moreover have "map ut_cw ((pt_units p)[unat cw := ?v]) = map ut_cw (pt_units p)"
    by (rule map_update_same[OF assms(2)]) simp
  ultimately show ?thesis using assms(1) by (simp add: process_ok_def process_inv_def put_pdu_def)
qed

lemma merge_one_ok:
  assumes "merge_one cw g p = Inr p'" "process_ok p"
  shows "process_ok p' \<and> pt_numSelected p' = pt_numSelected p"
proof -
  from assms(1) obtain base base2 where b: "unat cw < length (pt_units p)"
    "ut_pdu (pt_units p ! unat cw) = Some base"
    and d: "process_dropPdu g (put_pdu cw base2 p) = Inr p'"
    by (auto simp: merge_one_def process_getPdu_def split: option.splits if_splits)
  have "process_ok (put_pdu cw base2 p)" using put_pdu_ok[OF assms(2) b] .
  then have "process_ok p'" using process_step_ok[OF ps_drop[OF d]] by simp
  moreover have "pt_numSelected p' = pt_numSelected p"
    using d by (auto simp: process_dropPdu_def put_pdu_def)
  ultimately show ?thesis by simp
qed

lemma process_dropPdu_numSelected:
  "process_dropPdu cw p = Inr p' \<Longrightarrow> pt_numSelected p' = pt_numSelected p"
  by (auto simp: process_dropPdu_def)

lemma drop_loop_ok:
  assumes "foldE process_dropPdu cws p = Inr p'" "process_ok p"
  shows "process_ok p' \<and> pt_numSelected p' = pt_numSelected p"
proof (rule foldE_invariant[OF assms(1), of "\<lambda>q. process_ok q \<and> pt_numSelected q = pt_numSelected p"])
  show "process_ok p \<and> pt_numSelected p = pt_numSelected p" using assms(2) by simp
next
  fix x q q'
  assume "process_ok q \<and> pt_numSelected q = pt_numSelected p" "process_dropPdu x q = Inr q'"
  then show "process_ok q' \<and> pt_numSelected q' = pt_numSelected p"
    using process_step_ok[OF ps_drop] process_dropPdu_numSelected by metis
qed

lemma self_nack_loop:
  assumes "foldE (self_nack_one now) cws (p, r, ems) = Inr (p', r', ems')"
  shows "cws = [] \<and> p' = p \<and> r' = r"
  using assms
proof (cases cws)
  case (Cons c cs)
  then show ?thesis using assms unit_selfNack_Inl[of now]
    by (auto simp: self_nack_one_def process_selfNack_def) (metis Inl_Inr_False)
qed simp

lemma buffer_insertPdu_Inr:
  "buffer_insertPdu a cw popt b = Inr b' \<Longrightarrow>
   \<exists>p'. unat a < length (bt_processes b) \<and>
        process_insertPdu popt cw (bt_processes b ! unat a) = Inr p' \<and>
        b' = b\<lparr>bt_selectedAcid := a, bt_numEmptyProc := bt_numEmptyProc b - 1,
               bt_processes := (bt_processes b)[unat a := p']\<rparr>"
  by (auto simp: buffer_insertPdu_def split: if_splits)

lemma buffer_ok_insertPdu:
  assumes "buffer_ok b" "bt_selectedAcid b = HARQ_NONE \<or> a = bt_selectedAcid b"
    and "buffer_insertPdu a cw popt b = Inr b'"
  shows "buffer_ok b'"
proof -
  obtain p' where i: "unat a < length (bt_processes b)"
    and p': "process_insertPdu popt cw (bt_processes b ! unat a) = Inr p'"
    and b': "b' = b\<lparr>bt_selectedAcid := a, bt_numEmptyProc := bt_numEmptyProc b - 1,
               bt_processes := (bt_processes b)[unat a := p']\<rparr>"
    using buffer_insertPdu_Inr[OF assms(3)] by blast
  have "process_ok p'" using process_step_ok[OF ps_insert[OF p']] buffer_ok_process assms(1) i by blast
  then show ?thesis using buffer_ok_put[OF assms(1) i, of p' b'] assms(2) b' by auto
qed

lemma buffer_ok_markSelected:
  assumes "buffer_ok b" "bt_selectedAcid b = HARQ_NONE" "buffer_markSelected (a, cws) n b = Inr b'"
  shows "buffer_ok b'"
proof (cases "cws = [] \<or> n = 0")
  case True
  then show ?thesis using assms by (auto simp: buffer_markSelected_def)
next
  case False
  let ?p = "bt_processes b ! unat a"
  obtain p' where i: "unat a < length (bt_processes b)"
    and f: "(if unat n < length cws
             then bindE (foldE (merge_one (hd cws)) (tl cws) ?p) (process_markSelected (hd cws))
             else foldE process_markSelected cws ?p) = Inr p'"
    and b': "b' = b\<lparr>bt_processes := (bt_processes b)[unat a := p'], bt_selectedAcid := a\<rparr>"
    using assms(3) False by (auto simp: buffer_markSelected_def on_process_Inr Let_def split: if_splits)
  have "process_ok p'"
  proof (cases "unat n < length cws")
    case True
    then obtain p1 where p1: "foldE (merge_one (hd cws)) (tl cws) ?p = Inr p1"
      "process_markSelected (hd cws) p1 = Inr p'" using f by auto
    have "process_ok p1"
      using foldE_invariant[OF p1(1), of process_ok] merge_one_ok buffer_ok_process[OF assms(1) i]
      by blast
    then show ?thesis using process_step_ok[OF ps_mark[OF p1(2)]] by simp
  next
    case False
    then show ?thesis
      using f foldE_process_ok[OF ps_mark] buffer_ok_process[OF assms(1) i] by auto
  qed
  then show ?thesis using buffer_ok_put[OF assms(1) i, of p' b'] assms(2) b' by auto
qed

lemma buffer_ok_feedback:
  assumes "buffer_ok b" "buffer_receiveHarqFeedback fb b = Inr (b', ems)"
  shows "buffer_ok b'"
proof -
  let ?i = "unat (fb_acid fb)"
  obtain p' r where i: "?i < length (bt_processes b)"
    and p': "process_pduFeedback (if fb_result fb then HARQACK else HARQNACK) (ucast (fb_cw fb))
       (bt_processes b ! ?i) = Inr (p', r, ems)"
    and b': "bt_processes b' = (bt_processes b)[?i := p']" "bt_numProc b' = bt_numProc b"
      "bt_selectedAcid b' = bt_selectedAcid b"
    using assms(2) by (auto simp: buffer_receiveHarqFeedback_def Let_def split: if_splits)
  have "process_ok p'"
    using process_step_ok[OF ps_feedback[OF p']] buffer_ok_process[OF assms(1) i] by blast
  moreover have "pt_numSelected p' = pt_numSelected (bt_processes b ! ?i)"
    using p' by (auto simp: process_pduFeedback_def process_after_feedback_def Let_def)
  then have "fb_acid fb = bt_selectedAcid b \<or> pt_numSelected p' = 0"
    using buffer_ok_unselected[OF assms(1) i] by (metis word_unat_eq_iff)
  ultimately show ?thesis using buffer_ok_put[OF assms(1) i, of p' b'] b' by auto
qed

text \<open>The effect of \<open>sendSelectedDown\<close> on a sound buffer with a selected process.\<close>

lemma sendSelectedDown_effect:
  assumes "buffer_ok b" "bt_selectedAcid b \<noteq> HARQ_NONE"
  defines "i \<equiv> unat (bt_selectedAcid b)"
  defines "us \<equiv> pt_units (bt_processes b ! i)"
  shows "\<exists>p'. buffer_sendSelectedDown now b =
      Inr (b\<lparr>bt_processes := (bt_processes b)[i := p'], bt_selectedAcid := HARQ_NONE\<rparr>,
           map stamped_pdu (filter unit_isMarked us))
    \<and> process_ok p' \<and> pt_numSelected p' = 0
    \<and> pt_units p' = map (\<lambda>u. if unit_isMarked u then sent_unit now u else u) us"
proof -
  let ?p = "bt_processes b ! i"
  have i: "i < length (bt_processes b)" using assms by (simp add: buffer_ok_def)
  have ok: "process_ok ?p" and two: "length us = 2"
    using buffer_ok_process[OF assms(1) i] process_ok_length unfolding us_def by auto
  have ids: "set (process_selectedUnitsIds ?p)
      = {cw. unat cw < length us \<and> ut_status (us ! unat cw) = TXHARQ_PDU_SELECTED}"
    using process_selectedUnitsIds_set ok unfolding us_def process_ok_def by blast
  have dist: "distinct (process_selectedUnitsIds ?p)"
    using process_ids_distinct[of ?p unit_isMarked] ok
    unfolding process_selectedUnitsIds_def process_ok_def process_inv_def by blast
  from send_loop[OF ok dist, of now "[]"] ids
  obtain p' where p': "foldE (send_one now) (process_selectedUnitsIds ?p) (?p, [])
      = Inr (p', map (\<lambda>cw. stamped_pdu (us ! unat cw)) (process_selectedUnitsIds ?p))"
    "process_ok p'" "length (pt_units p') = length us"
    "\<forall>j < length us. pt_units p' ! j
       = (if j \<in> unat ` set (process_selectedUnitsIds ?p) then sent_unit now (us ! j) else us ! j)"
    unfolding us_def by auto
  have "j \<in> unat ` set (process_selectedUnitsIds ?p) \<longleftrightarrow> unit_isMarked (us ! j)" if "j < length us" for j
  proof -
    have "unat (of_nat j :: codeword) = j" using that two by (simp add: unat_of_nat)
    then show ?thesis using that unfolding ids unit_test_defs image_iff
      by (auto intro!: exI[of _ "of_nat j"])
  qed
  then have units: "pt_units p' = map (\<lambda>u. if unit_isMarked u then sent_unit now u else u) us"
    using p'(3,4) by (intro nth_equalityI) auto
  have "pt_numSelected p' = 0"
    unfolding no_selected_iff[OF p'(2)] units by (auto simp: list_all_iff unit_test_defs sent_unit_def)
  moreover have "buffer_sendSelectedDown now b =
      Inr (b\<lparr>bt_processes := (bt_processes b)[i := p'], bt_selectedAcid := HARQ_NONE\<rparr>,
           map stamped_pdu (filter unit_isMarked us))"
    using p'(1) i assms(2) selected_map[OF ok, of stamped_pdu]
    by (simp add: buffer_sendSelectedDown_def on_process_def vec_get_ok i_def us_def)
  ultimately show ?thesis using p'(2) units by blast
qed

lemma buffer_ok_sendSelectedDown:
  assumes "buffer_ok b" "buffer_sendSelectedDown now b = Inr (b', sent)"
  shows "buffer_ok b'"
proof (cases "bt_selectedAcid b = HARQ_NONE")
  case True
  then show ?thesis using assms by (simp add: buffer_sendSelectedDown_def)
next
  case False
  have i: "unat (bt_selectedAcid b) < length (bt_processes b)" using False assms(1) by (simp add: buffer_ok_def)
  obtain p' where p': "process_ok p'" "pt_numSelected p' = 0"
    "b' = b\<lparr>bt_processes := (bt_processes b)[unat (bt_selectedAcid b) := p'], bt_selectedAcid := HARQ_NONE\<rparr>"
    using sendSelectedDown_effect[OF assms(1) False, of now] assms(2) by auto
  then show ?thesis using buffer_ok_put[OF assms(1) i, of p' b'] by simp
qed

lemma buffer_ok_dropProcess:
  assumes "buffer_ok b" "buffer_dropProcess a b = Inr b'"
  shows "buffer_ok b'"
proof -
  obtain p' where i: "unat a < length (bt_processes b)"
    and d: "foldE process_dropPdu (process_readyUnitsIds (bt_processes b ! unat a))
              (bt_processes b ! unat a) = Inr p'"
    and b': "bt_processes b' = (bt_processes b)[unat a := p']" "bt_numProc b' = bt_numProc b"
      "bt_selectedAcid b' = bt_selectedAcid b"
    using assms(2) by (auto simp: buffer_dropProcess_def on_process_Inr)
  have "process_ok p'" "pt_numSelected p' = pt_numSelected (bt_processes b ! unat a)"
    using drop_loop_ok[OF d] buffer_ok_process[OF assms(1) i] by auto
  moreover have "a = bt_selectedAcid b \<or> pt_numSelected (bt_processes b ! unat a) = 0"
    using buffer_ok_unselected[OF assms(1) i] by (metis word_unat_eq_iff)
  ultimately show ?thesis using buffer_ok_put[OF assms(1) i, of p' b'] b' by auto
qed

lemma buffer_selfNack_same:
  assumes "buffer_selfNack now a cw b = Inr (b', ems)"
  shows "b' = b"
proof -
  obtain p' r b1 where i: "unat a < length (bt_processes b)"
    and f: "foldE (self_nack_one now) (process_readyUnitsIds (bt_processes b ! unat a))
             (bt_processes b ! unat a, False, []) = Inr (p', r, ems)"
    and b': "b1 = b\<lparr>bt_processes := (bt_processes b)[unat a := p']\<rparr>"
      "b' = (if r then b1\<lparr>bt_numEmptyProc := bt_numEmptyProc b1 + 1\<rparr> else b1)"
    using assms by (auto simp: buffer_selfNack_def on_process_Inr)
  show ?thesis using self_nack_loop[OF f] b' i by simp
qed

lemma buffer_ok_forceDropProcess:
  assumes "buffer_ok b" "buffer_forceDropProcess a b = Inr b'"
  shows "buffer_ok b'"
proof -
  let ?p' = "process_forceDropProcess (bt_processes b ! unat a)"
  have i: "unat a < length (bt_processes b)"
    and b': "bt_processes b' = (bt_processes b)[unat a := ?p']" "bt_numProc b' = bt_numProc b"
      "bt_selectedAcid b' = (if a = bt_selectedAcid b then HARQ_NONE else bt_selectedAcid b)"
    using assms(2) by (auto simp: buffer_forceDropProcess_def on_process_Inr)
  have "process_ok ?p'"
    using process_step_ok[OF ps_forceDropProcess] buffer_ok_process[OF assms(1) i] by blast
  moreover have "pt_numSelected ?p' = 0" by (simp add: process_forceDropProcess_def)
  ultimately show ?thesis using buffer_ok_put[OF assms(1) i, of ?p' b'] b' by auto
qed

lemma process_ok_empty_unselected:
  "process_ok p \<Longrightarrow> process_isEmpty p \<Longrightarrow> pt_numSelected p = 0"
  using no_selected_iff[of p] process_isEmpty_iff[of p]
  by (auto simp: process_ok_def list_all_iff unit_test_defs)

lemma process_forceDropUnit_unselected:
  assumes "process_forceDropUnit cw p = Inr (p', r)" "process_ok p" "pt_numSelected p = 0"
  shows "pt_numSelected p' = 0"
  using assms no_selected_iff[OF assms(2)]
  by (auto simp: process_forceDropUnit_def Let_def list_all_iff split: if_splits)

lemma buffer_ok_forceDropUnit:
  assumes "buffer_ok b" "buffer_forceDropUnit a cw b = Inr b'"
    and "process_isUnitEmpty cw (bt_processes b ! unat a) = Inr False"
  shows "buffer_ok b'"
proof -
  let ?p = "bt_processes b ! unat a"
  obtain p' r where i: "unat a < length (bt_processes b)"
    and f: "process_forceDropUnit cw ?p = Inr (p', r)"
    and b': "bt_processes b' = (bt_processes b)[unat a := p']" "bt_numProc b' = bt_numProc b"
      "bt_selectedAcid b' = (if r \<and> a = bt_selectedAcid b then HARQ_NONE else bt_selectedAcid b)"
    using assms(2) by (auto simp: buffer_forceDropUnit_def on_process_Inr)
  have ok: "process_ok ?p" using buffer_ok_process[OF assms(1) i] .
  have ok': "process_ok p'" using process_step_ok[OF ps_forceDropUnit[OF assms(3) f] ok] .
  have "r = process_isEmpty p'"
    using process_inv_forceDropUnit[OF _ f assms(3)] ok by (simp add: process_ok_def)
  then have "r \<Longrightarrow> pt_numSelected p' = 0" using process_ok_empty_unselected[OF ok'] by simp
  moreover have "a = bt_selectedAcid b \<or> pt_numSelected p' = 0"
    using process_forceDropUnit_unselected[OF f ok] buffer_ok_unselected[OF assms(1) i]
    by (metis word_unat_eq_iff)
  ultimately show ?thesis using buffer_ok_put[OF assms(1) i ok', of b'] b' by auto
qed

lemma buffer_step_ok: "buffer_step b b' \<Longrightarrow> buffer_ok b \<Longrightarrow> buffer_ok b'"
proof (induction rule: buffer_step.induct)
  case (bs_insert b a cw popt b')
  then show ?case using buffer_ok_insertPdu by blast
next
  case (bs_select b ul n b')
  then show ?case using buffer_ok_markSelected by (metis prod.collapse)
next
  case (bs_selfNack now a cw b b' ems)
  then show ?case using buffer_selfNack_same by blast
next
  case (bs_forceDropUnit a b cw b')
  then show ?case using buffer_ok_forceDropUnit by blast
qed (use buffer_ok_feedback buffer_ok_sendSelectedDown buffer_ok_dropProcess
      buffer_ok_forceDropProcess in blast)+

lemma buffer_reachable_ok: "buffer_reachable b \<Longrightarrow> buffer_ok b"
  by (induction rule: buffer_reachable.induct) (auto intro: buffer_ok_new buffer_step_ok)

section \<open>What the buffer guarantees\<close>

lemma buffer_ok_nothing_marked:
  assumes "buffer_ok b" "bt_selectedAcid b = HARQ_NONE"
  shows "\<forall>p \<in> set (bt_processes b). \<forall>u \<in> set (pt_units p). \<not> unit_isMarked u"
proof
  fix p assume p: "p \<in> set (bt_processes b)"
  then obtain j where j: "j < length (bt_processes b)" "bt_processes b ! j = p"
    using in_set_conv_nth[of p "bt_processes b"] by blast
  have "j < 255" using j(1) assms(1) by (simp add: buffer_ok_def)
  then have "pt_numSelected p = 0" using buffer_ok_unselected[OF assms(1) j(1)] j(2) assms(2) by simp
  then show "\<forall>u \<in> set (pt_units p). \<not> unit_isMarked u"
    using no_selected_iff[OF buffer_ok_process[OF assms(1) j(1)]] j(2) by (simp add: list_all_iff)
qed

lemma buffer_sendSelectedDown_full:
  assumes "buffer_ok b" "bt_selectedAcid b \<noteq> HARQ_NONE"
  defines "us \<equiv> pt_units (bt_processes b ! unat (bt_selectedAcid b))"
  shows "\<exists>b'. buffer_sendSelectedDown now b = Inr (b', map stamped_pdu (filter unit_isMarked us))
    \<and> bt_selectedAcid b' = HARQ_NONE
    \<and> (\<forall>p \<in> set (bt_processes b'). \<forall>u \<in> set (pt_units p). \<not> unit_isMarked u)
    \<and> pt_units (bt_processes b' ! unat (bt_selectedAcid b))
        = map (\<lambda>u. if unit_isMarked u then sent_unit now u else u) us"
proof -
  note ok = assms(1)
  let ?i = "unat (bt_selectedAcid b)"
  have i: "?i < length (bt_processes b)" using ok assms(2) by (simp add: buffer_ok_def)
  obtain p' where e: "buffer_sendSelectedDown now b =
      Inr (b\<lparr>bt_processes := (bt_processes b)[?i := p'], bt_selectedAcid := HARQ_NONE\<rparr>,
           map stamped_pdu (filter unit_isMarked us))" (is "_ = Inr (?b', _)")
    and u: "pt_units p' = map (\<lambda>u. if unit_isMarked u then sent_unit now u else u) us"
    using sendSelectedDown_effect[OF ok assms(2), of now] unfolding us_def by blast
  have ok': "buffer_ok ?b'" using buffer_ok_sendSelectedDown[OF ok e] .
  have none: "\<forall>p \<in> set (bt_processes ?b'). \<forall>u \<in> set (pt_units p). \<not> unit_isMarked u"
    using buffer_ok_nothing_marked[OF ok'] by simp
  have at: "bt_processes ?b' ! ?i = p'" using i by simp
  show ?thesis by (intro exI[of _ ?b'] conjI e none, simp, simp only: at u)
qed

text \<open>
  If a process is selected, \<open>sendSelectedDown\<close> succeeds and hands down the PDUs of exactly its
  selected units, in codeword order, each stamped with its next transmission number and with the
  new-data indicator set iff this is the first transmission; afterwards those units wait for
  feedback, the other units are as before, and no process and no unit of the buffer is selected.
\<close>
theorem buffer_sends_selected:
  assumes "buffer_reachable b" "bt_selectedAcid b \<noteq> HARQ_NONE"
  defines "us \<equiv> pt_units (bt_processes b ! unat (bt_selectedAcid b))"
  shows "\<exists>b'. buffer_sendSelectedDown now b = Inr (b', map stamped_pdu (filter unit_isMarked us))
    \<and> bt_selectedAcid b' = HARQ_NONE
    \<and> (\<forall>p \<in> set (bt_processes b'). \<forall>u \<in> set (pt_units p). \<not> unit_isMarked u)
    \<and> pt_units (bt_processes b' ! unat (bt_selectedAcid b))
        = map (\<lambda>u. if unit_isMarked u then sent_unit now u else u) us"
  using buffer_sendSelectedDown_full[OF buffer_reachable_ok[OF assms(1)] assms(2)]
  unfolding us_def .

lemma find_upt_Some:
  assumes "find P [0..<n] = Some i"
  shows "i < n \<and> P i"
  using assms by (metis add.left_neutral find_Some_iff length_upt nth_upt diff_zero)

lemma unat_of_nat_u8: "i < 256 \<Longrightarrow> unat (of_nat i :: u8) = i"
  by (simp add: unat_of_nat)

text \<open>
  In every reachable buffer, \<open>firstAvailable\<close> succeeds, and if it names a process then
  \<open>insertPdu\<close> of a PDU for one of the codewords it lists cannot throw: it stores that PDU in that
  unit and selects both the unit and the process for transmission.
\<close>
theorem buffer_firstAvailable_insert:
  assumes "buffer_reachable b" "buffer_firstAvailable b = Inr (a, cws)"
    and "a \<noteq> HARQ_NONE" "cw \<in> set cws" "ucast (ui_cw (pdu_info pdu)) = cw"
  shows "\<exists>b'. buffer_insertPdu a cw (Some pdu) b = Inr b' \<and> bt_selectedAcid b' = a \<and>
     (let u = pt_units (bt_processes b' ! unat a) ! unat cw
      in unit_isMarked u \<and> ut_pduId u = pdu_id pdu \<and> ut_transmissions u = 0)"
proof -
  have ok: "buffer_ok b" using buffer_reachable_ok[OF assms(1)] .
  let ?p = "bt_processes b ! unat a"
  have i: "unat a < length (bt_processes b)"
    and cws: "cws = process_emptyUnitsIds ?p"
    using assms(2,3) unfolding buffer_firstAvailable_def Let_def by (auto split: if_splits)
  have e: "bt_selectedAcid b = HARQ_NONE \<Longrightarrow> process_isEmpty ?p"
  proof -
    assume n: "bt_selectedAcid b = HARQ_NONE"
    then obtain j where j: "find (\<lambda>i. process_isEmpty (bt_processes b ! i)) (buffer_acids b) = Some j"
      "a = of_nat j"
      using assms(2,3) unfolding buffer_firstAvailable_def Let_def
      by (auto split: option.splits if_splits)
    have "j < unat (bt_numProc b)" "process_isEmpty (bt_processes b ! j)"
      using find_upt_Some j(1) unfolding buffer_acids_def by blast+
    moreover have "unat a = j" using \<open>j < _\<close> ok j(2) by (simp add: unat_of_nat_u8 buffer_ok_def)
    ultimately show ?thesis by simp
  qed
  have p: "process_ok ?p" using buffer_ok_process[OF ok i] .
  then have c: "unat cw < length (pt_units ?p)" "ut_status (pt_units ?p ! unat cw) = TXHARQ_PDU_EMPTY"
    using assms(4) process_emptyUnitsIds_set[of ?p] unfolding cws process_ok_def by auto
  have "ut_cw (pt_units ?p ! unat cw) = cw" using process_ok_cw[OF p c(1)] by simp
  then obtain u' where u': "unit_insertPdu (Some pdu) (pt_units ?p ! unat cw) = Inr u'"
    "ut_status u' = TXHARQ_PDU_SELECTED" "ut_pduId u' = pdu_id pdu" "ut_transmissions u' = 0"
    using c(2) assms(5) by (auto simp: unit_insertPdu_Inr)
  then show ?thesis
    using i c e by (auto simp: buffer_insertPdu_def process_insertPdu_def process_isUnitEmpty_def
        vec_get_ok unit_test_defs Let_def)
qed

end
