(* ===== verification/HarqTxScenario.thy ===== *)
theory HarqTxScenario
  imports HarqBufferTx
begin

text \<open>
  What the transmitting H-ARQ buffer guarantees to the MAC layer that drives it: the choice of the
  process to retransmit, the merge of two transport blocks into one, and the effect of a feedback;
  and a concrete run (insert, send, NACK, select for retransmission) on which the theorems of the
  transmitting side are instantiated.
\<close>

section \<open>The oldest process is retransmitted first\<close>

lemma oldest_process_fold:
  fixes b now
  defines "R \<equiv> \<lambda>i. process_hasReadyUnits (bt_processes b ! i)"
    and "T \<equiv> \<lambda>i. process_getOldestUnitTxTime now (bt_processes b ! i)"
  assumes "fold (oldest_process_step now b) xs (a0, t0) = (a, t)"
  shows "(a, t) = (a0, t0) \<and> (\<forall>i \<in> set xs. R i \<longrightarrow> t0 \<le> T i) \<or>
    (\<exists>i \<in> set xs. R i \<and> a = of_nat i \<and> t = T i \<and> t < t0 \<and> (\<forall>j \<in> set xs. R j \<longrightarrow> t \<le> T j))"
  using assms(3)
proof (induction xs arbitrary: a0 t0)
  case Nil
  then show ?case by simp
next
  case (Cons x xs)
  show ?case
  proof (cases "R x \<and> T x < t0")
    case True
    then have "oldest_process_step now b x (a0, t0) = (of_nat x, T x)"
      by (simp add: oldest_process_step_def R_def T_def Let_def)
    then have "fold (oldest_process_step now b) xs (of_nat x, T x) = (a, t)" using Cons.prems by simp
    from Cons.IH[OF this] True show ?thesis by auto
  next
    case False
    then have "oldest_process_step now b x (a0, t0) = (a0, t0)"
      by (auto simp: oldest_process_step_def R_def T_def Let_def)
    then have "fold (oldest_process_step now b) xs (a0, t0) = (a, t)" using Cons.prems by simp
    from Cons.IH[OF this] False show ?thesis by auto
  qed
qed

lemma buffer_acids_length: "buffer_ok b \<Longrightarrow> buffer_acids b = [0..<length (bt_processes b)]"
  by (simp add: buffer_acids_def buffer_ok_def)

lemma HARQ_NONE_of_nat:
  assumes "i < 255"
  shows "(of_nat i :: acid) \<noteq> HARQ_NONE"
proof
  assume "(of_nat i :: acid) = HARQ_NONE"
  then have "unat (of_nat i :: acid) = 255" by simp
  then show False using unat_of_nat_u8[of i] assms by simp
qed

definition buffer_times_le :: "simtime \<Rightarrow> harq_buffer_tx \<Rightarrow> bool" where
  "buffer_times_le now b \<longleftrightarrow>
     list_all (\<lambda>p. list_all (\<lambda>u. ut_txTime u \<le> now) (pt_units p)) (bt_processes b)"

text \<open>
  C26: While a unit of the buffer is ready for retransmission, \<open>firstReadyForRtx\<close> names a process that
  holds the unit transmitted longest ago of all ready units of all processes, and lists exactly the
  codewords of that process that are ready.  (No unit has been transmitted in the future.)
\<close>
theorem buffer_firstReadyForRtx_oldest:
  assumes "buffer_reachable b" "buffer_times_le now b"
    and "list_ex process_hasReadyUnits (bt_processes b)"
  shows "\<exists>a cws. buffer_firstReadyForRtx now b = Inr (a, cws) \<and> unat a < length (bt_processes b) \<and>
     set cws = {cw. unat cw < 2 \<and> unit_isReady (pt_units (bt_processes b ! unat a) ! unat cw)} \<and>
     (\<exists>u \<in> set (pt_units (bt_processes b ! unat a)). unit_isReady u \<and>
        (\<forall>p \<in> set (bt_processes b). \<forall>v \<in> set (pt_units p). unit_isReady v \<longrightarrow> ut_txTime u \<le> ut_txTime v))"
proof -
  let ?ps = "bt_processes b"
  let ?T = "\<lambda>p. process_getOldestUnitTxTime now p"
  have ok: "buffer_ok b" using buffer_reachable_ok[OF assms(1)] .
  have T: "?T p = Min (ut_txTime ` {u \<in> set (pt_units p). unit_isReady u})"
    "{u \<in> set (pt_units p). unit_isReady u} \<noteq> {}" "?T p \<le> now"
    if pr: "p \<in> set ?ps" "process_hasReadyUnits p" for p
  proof -
    have ti: "\<forall>u \<in> set (pt_units p). ut_txTime u \<le> now"
      using assms(2) pr(1) by (simp add: buffer_times_le_def list_all_iff)
    have inv: "process_inv p" using ok pr(1) by (simp add: buffer_ok_def process_ok_def)
    show m: "?T p = Min (ut_txTime ` {u \<in> set (pt_units p). unit_isReady u})"
      using process_getOldestUnitTxTime_Min[OF inv ti pr(2)] .
    obtain i where "i < length (pt_units p)" "unit_isReady (pt_units p ! i)"
      using pr(2) inv by (auto simp: process_hasReadyUnits_def process_cws_def process_inv_def list_ex_iff)
    then have u: "pt_units p ! i \<in> {u \<in> set (pt_units p). unit_isReady u}" by simp
    then show "{u \<in> set (pt_units p). unit_isReady u} \<noteq> {}" by blast
    have "?T p \<le> ut_txTime (pt_units p ! i)" unfolding m using u by (intro Min_le) auto
    also have "\<dots> \<le> now" using ti u by blast
    finally show "?T p \<le> now" .
  qed
  obtain a t where f: "fold (oldest_process_step now b) (buffer_acids b) (HARQ_NONE, now + simtime_s)
      = (a, t)" by (metis surj_pair)
  obtain p0 where "p0 \<in> set ?ps" "process_hasReadyUnits p0" using assms(3) by (auto simp: list_ex_iff)
  then obtain k where k: "k < length ?ps" "process_hasReadyUnits (?ps ! k)" "?T (?ps ! k) < now + simtime_s"
    using T(3)[of p0] by (auto simp: in_set_conv_nth simtime_s_def)
  then obtain i where i: "i < length ?ps" "process_hasReadyUnits (?ps ! i)" "a = of_nat i"
    "\<forall>j < length ?ps. process_hasReadyUnits (?ps ! j) \<longrightarrow> ?T (?ps ! i) \<le> ?T (?ps ! j)"
    using oldest_process_fold[OF f] unfolding buffer_acids_length[OF ok] by fastforce
  have "i < 255" using i(1) ok by (simp add: buffer_ok_def)
  then have ua: "unat a = i" and an: "a \<noteq> HARQ_NONE"
    using i(3) HARQ_NONE_of_nat by (auto simp: unat_of_nat_u8)
  have p: "process_ok (?ps ! i)" using buffer_ok_process[OF ok i(1)] .
  have r: "buffer_firstReadyForRtx now b = Inr (a, process_readyUnitsIds (?ps ! i))"
    using f an i(1) ua by (simp add: buffer_firstReadyForRtx_def vec_get_ok)
  have s: "set (process_readyUnitsIds (?ps ! i)) = {cw. unat cw < 2 \<and> unit_isReady (pt_units (?ps ! i) ! unat cw)}"
    using process_readyUnitsIds_set[of "?ps ! i"] p process_ok_length[OF p]
    by (simp add: process_ok_def unit_test_defs)
  note Ti = T[OF nth_mem[OF i(1)] i(2)]
  have "?T (?ps ! i) \<in> ut_txTime ` {u \<in> set (pt_units (?ps ! i)). unit_isReady u}"
    unfolding Ti(1) using Ti(2) by (intro Min_in) auto
  then obtain u where u: "u \<in> set (pt_units (?ps ! i))" "unit_isReady u" "?T (?ps ! i) = ut_txTime u" by auto
  have "ut_txTime u \<le> ut_txTime v" if qv: "q \<in> set ?ps" "v \<in> set (pt_units q)" "unit_isReady v" for q v
  proof -
    have inv: "process_inv q" using ok qv(1) by (simp add: buffer_ok_def process_ok_def)
    then have hr: "process_hasReadyUnits q"
      using qv(2,3) by (auto simp: process_hasReadyUnits_def process_cws_def process_inv_def list_ex_iff
          in_set_conv_nth)
    obtain j where "j < length ?ps" "?ps ! j = q" using qv(1) by (auto simp: in_set_conv_nth)
    then have "ut_txTime u \<le> ?T q" using i(4) hr u(3) by auto
    also have "\<dots> \<le> ut_txTime v" unfolding T(1)[OF qv(1) hr] using qv(2,3) by (intro Min_le) auto
    finally show ?thesis .
  qed
  then show ?thesis using r ua i(1) s u by blast
qed

section \<open>Merging two transport blocks\<close>

text \<open>The merge of the PDU of one unit into that of another, on a sound process.\<close>

lemma merge_one_effect:
  assumes "process_ok p" "unat c < length (pt_units p)" "unat d < length (pt_units p)" "c \<noteq> d"
    and "unit_isReady (pt_units p ! unat c)" "unit_isReady (pt_units p ! unat d)"
    and "ut_pdu (pt_units p ! unat c) = Some base" "ut_pdu (pt_units p ! unat d) = Some guest"
  defines "jumbo \<equiv> base\<lparr>pdu_sduList := pdu_sduList base @ pdu_sduList guest,
      pdu_macPduLength := pdu_macPduLength base + sdu_bytes_sum (pdu_sduList guest),
      pdu_ceList := pdu_ceList base @ pdu_ceList guest\<rparr>"
  shows "\<exists>p'. merge_one c d p = Inr p' \<and> process_ok p' \<and> pt_numSelected p' = pt_numSelected p \<and>
     pt_units p' = (pt_units p)[unat c := (pt_units p ! unat c)\<lparr>ut_pdu := Some jumbo\<rparr>,
                                unat d := unit_resetUnit (pt_units p ! unat d)]"
proof -
  have ne: "unat c \<noteq> unat d" using assms(4) word_unat_eq_iff by blast
  have "process_dropPdu d (put_pdu c jumbo p) = Inr ((put_pdu c jumbo p)\<lparr>
      pt_units := (pt_units (put_pdu c jumbo p))[unat d := unit_resetUnit (pt_units p ! unat d)],
      pt_numEmptyUnits := pt_numEmptyUnits (put_pdu c jumbo p) + 1\<rparr>)"
    using assms(3,6) ne by (simp add: process_dropPdu_def put_pdu_def vec_get_ok unit_dropPdu_def unit_test_defs)
  then obtain p' where p': "merge_one c d p = Inr p'"
    "pt_units p' = (pt_units p)[unat c := (pt_units p ! unat c)\<lparr>ut_pdu := Some jumbo\<rparr>,
                                unat d := unit_resetUnit (pt_units p ! unat d)]"
    using assms(2,3,4,7,8) by (simp add: merge_one_def process_getPdu_def vec_get_ok moveSdus_eq moveCes_eq
        jumbo_def put_pdu_def)
  then show ?thesis using merge_one_ok[OF p'(1) assms(1)] by blast
qed

lemma firstReady_ids:
  assumes "buffer_firstReadyForRtx now b = Inr (a, c # cws)"
  shows "unat a < length (bt_processes b) \<and> c # cws = process_readyUnitsIds (bt_processes b ! unat a)"
  using assms by (auto simp: buffer_firstReadyForRtx_def split: prod.splits if_splits)

lemma unit_has_pduD: "unit_has_pdu u \<Longrightarrow> ut_status u \<noteq> TXHARQ_PDU_EMPTY \<Longrightarrow> \<exists>p. ut_pdu u = Some p"
  by (auto simp: unit_has_pdu_def)

text \<open>
  C28: When both codewords of the process chosen for retransmission are ready but only one transport
  block is available, \<open>markSelected\<close> succeeds: the first unit is selected and its PDU carries the
  SDUs and the control elements of both PDUs, in order and none lost, the second unit is empty, and
  the process is the selected one.  The byte length of the PDU grows by the moved SDUs, while the
  length the unit has stored for \<open>pduLength\<close> keeps its old value.
\<close>
theorem buffer_markSelected_merges:
  assumes "buffer_reachable b" "bt_selectedAcid b = HARQ_NONE"
    and "buffer_firstReadyForRtx now b = Inr (a, [c, d])"
  defines "us \<equiv> pt_units (bt_processes b ! unat a)"
  defines "base \<equiv> the (ut_pdu (us ! unat c))" and "guest \<equiv> the (ut_pdu (us ! unat d))"
  shows "\<exists>b'. buffer_markSelected (a, [c, d]) 1 b = Inr b' \<and> bt_selectedAcid b' = a \<and>
     (let us' = pt_units (bt_processes b' ! unat a); jumbo = the (ut_pdu (us' ! unat c))
      in unit_isMarked (us' ! unat c) \<and> unit_isEmpty (us' ! unat d) \<and>
         pdu_sduList jumbo = pdu_sduList base @ pdu_sduList guest \<and>
         pdu_ceList jumbo = pdu_ceList base @ pdu_ceList guest \<and>
         getByteLength jumbo = getByteLength base + sdu_bytes_sum (pdu_sduList guest) \<and>
         ut_pduLength (us' ! unat c) = ut_pduLength (us ! unat c))"
proof -
  let ?p = "bt_processes b ! unat a"
  have ok: "buffer_ok b" using buffer_reachable_ok[OF assms(1)] .
  have i: "unat a < length (bt_processes b)" and ids: "process_readyUnitsIds ?p = [c, d]"
    using firstReady_ids[OF assms(3)] by simp_all
  have p: "process_ok ?p" using buffer_ok_process[OF ok i] .
  have cd: "unat c < length us" "unat d < length us" "unit_isReady (us ! unat c)" "unit_isReady (us ! unat d)"
    using process_readyUnitsIds_set[of ?p] p ids unfolding us_def process_ok_def unit_test_defs by auto
  have "distinct [c, d]"
    using process_ids_distinct[of ?p unit_isReady] p
    unfolding ids[symmetric] process_readyUnitsIds_def by (simp add: process_ok_def process_inv_def)
  then have ne: "c \<noteq> d" by simp
  have nu: "unat c \<noteq> unat d" using ne word_unat_eq_iff by blast
  have bg: "ut_pdu (us ! unat c) = Some base" "ut_pdu (us ! unat d) = Some guest"
    using cd p unit_has_pduD[of "us ! unat c"] unit_has_pduD[of "us ! unat d"]
    by (auto simp: base_def guest_def us_def process_ok_def unit_test_defs)
  define jumbo where "jumbo = base\<lparr>pdu_sduList := pdu_sduList base @ pdu_sduList guest,
      pdu_macPduLength := pdu_macPduLength base + sdu_bytes_sum (pdu_sduList guest),
      pdu_ceList := pdu_ceList base @ pdu_ceList guest\<rparr>"
  obtain p1 where p1: "merge_one c d ?p = Inr p1" "process_ok p1" "pt_numSelected p1 = pt_numSelected ?p"
    "pt_units p1 = us[unat c := (us ! unat c)\<lparr>ut_pdu := Some jumbo\<rparr>,
                      unat d := unit_resetUnit (us ! unat d)]"
    using merge_one_effect[OF p, of c d base guest] cd ne bg unfolding us_def jumbo_def by blast
  have n0: "pt_numSelected ?p = 0"
    using buffer_ok_unselected[OF ok i] assms(2) i ok by (simp add: buffer_ok_def)
  have lu: "length us = 2" using process_ok_length[OF p] by (simp add: us_def)
  have num: "pt_numHarqUnits p1 = 2" using p1(2) by (simp add: process_ok_def MAX_CODEWORDS_def)
  let ?v = "(us ! unat c)\<lparr>ut_pdu := Some jumbo, ut_status := TXHARQ_PDU_SELECTED\<rparr>"
  have "\<exists>p2. process_markSelected c p1 = Inr p2 \<and>
      pt_units p2 = us[unat c := ?v, unat d := unit_resetUnit (us ! unat d)]"
    using p1(3,4) n0 num cd nu
    by (simp add: process_markSelected_def vec_get_ok unit_markSelected_def unit_test_defs list_update_swap)
  then obtain p2 where p2: "process_markSelected c p1 = Inr p2"
    "pt_units p2 = us[unat c := ?v, unat d := unit_resetUnit (us ! unat d)]" by blast
  let ?b' = "b\<lparr>bt_processes := (bt_processes b)[unat a := p2], bt_selectedAcid := a\<rparr>"
  have r: "buffer_markSelected (a, [c, d]) 1 b = Inr ?b'"
    using i p1(1) p2(1) by (simp add: buffer_markSelected_def on_process_def vec_get_ok)
  have us': "pt_units (bt_processes ?b' ! unat a) ! unat c = ?v"
    "pt_units (bt_processes ?b' ! unat a) ! unat d = unit_resetUnit (us ! unat d)"
    using i p2(2) cd nu by simp_all
  show ?thesis
    by (intro exI[of _ ?b'] conjI r) (simp_all only: us' Let_def, simp_all add: unit_test_defs jumbo_def
      getByteLength_def)
qed

section \<open>Feedback\<close>

lemma unit_pduFeedback_ok:
  assumes "ut_status u = TXHARQ_PDU_WAITING" "ut_pdu u = Some p"
    and "ui_direction (pdu_info p) \<noteq> UNKNOWN_DIRECTION"
  shows "\<exists>u' reset ems. unit_pduFeedback a u = Inr (u', reset, ems)"
  using assms by (cases a; cases "ui_direction (pdu_info p)") (auto simp: unit_pduFeedback_def Let_def)

lemma feedback_accepted:
  assumes "buffer_reachable b" "unat (fb_acid fb) < length (bt_processes b)" "unat (fb_cw fb) < 2"
  defines "u \<equiv> pt_units (bt_processes b ! unat (fb_acid fb)) ! unat (fb_cw fb)"
  assumes "ut_status u = TXHARQ_PDU_WAITING" "ui_direction (pdu_info (the (ut_pdu u))) \<noteq> UNKNOWN_DIRECTION"
  shows "(if fb_pduId fb = ut_pduId u
          then \<exists>b' ems. buffer_receiveHarqFeedback fb b = Inr (b', ems) \<and>
             (let u' = pt_units (bt_processes b' ! unat (fb_acid fb)) ! unat (fb_cw fb)
              in if fb_result fb \<or> (ucast (ut_transmissions u) :: u32) = ut_maxHarqRtx u + 1
                 then unit_isEmpty u'
                 else unit_isReady u' \<and> ut_pdu u' = ut_pdu u \<and> ut_transmissions u' = ut_transmissions u)
          else \<not> is_ok (buffer_receiveHarqFeedback fb b))"
proof -
  let ?i = "unat (fb_acid fb)" and ?j = "unat (fb_cw fb)"
  have ok: "process_ok (bt_processes b ! ?i)"
    using buffer_ok_process[OF buffer_reachable_ok[OF assms(1)] assms(2)] .
  have j: "?j < length (pt_units (bt_processes b ! ?i))" using process_ok_length[OF ok] assms(3) by simp
  have "unit_has_pdu u" using ok j by (simp add: u_def process_ok_def)
  then obtain p where p: "ut_pdu u = Some p" using unit_has_pduD assms(5) by force
  obtain u' reset ems where f: "unit_pduFeedback (if fb_result fb then HARQACK else HARQNACK) u = Inr (u', reset, ems)"
    using unit_pduFeedback_ok[OF assms(5) p] p assms(6) by (metis option.sel)
  have u': "if fb_result fb \<or> (ucast (ut_transmissions u) :: u32) = ut_maxHarqRtx u + 1
       then unit_isEmpty u'
       else unit_isReady u' \<and> ut_pdu u' = ut_pdu u \<and> ut_transmissions u' = ut_transmissions u"
    using f unit_pduFeedback_ack[of u u' reset ems] unit_pduFeedback_nack[of u u' reset ems]
    by (auto simp: unit_test_defs split: if_splits)
  have cw: "unat (ucast (fb_cw fb) :: codeword) = ?j" by simp
  show ?thesis
  proof (cases "fb_pduId fb = ut_pduId u")
    case True
    obtain r p' where pf: "process_pduFeedback (if fb_result fb then HARQACK else HARQNACK) (ucast (fb_cw fb))
        (bt_processes b ! ?i) = Inr (p', r, ems)" "pt_units p' ! ?j = u'"
      using f j by (simp add: process_pduFeedback_def cw vec_get_ok process_after_feedback_def Let_def
          flip: u_def)
    have g: "process_getPduId (ucast (fb_cw fb)) (bt_processes b ! ?i) = Inr (fb_pduId fb)"
      using j True by (simp add: process_getPduId_def cw vec_get_ok flip: u_def)
    show ?thesis using True u' pf g assms(2) by (simp add: buffer_receiveHarqFeedback_def vec_get_ok Let_def)
  next
    case False
    then show ?thesis using j assms(2)
      by (simp add: buffer_receiveHarqFeedback_def vec_get_ok Let_def process_getPduId_def cw flip: u_def)
  qed
qed

text \<open>
  A feedback that names the PDU a unit is waiting on is accepted.  After an ACK the unit is empty,
  and after a NACK it is ready for retransmission, or empty if the PDU has been transmitted
  \<open>maxHarqRtx + 1\<close> times; a feedback for another PDU is refused.
\<close>
theorem buffer_feedback_effect:
  assumes "buffer_reachable b" "unat (fb_acid fb) < length (bt_processes b)" "unat (fb_cw fb) < 2"
  defines "u \<equiv> pt_units (bt_processes b ! unat (fb_acid fb)) ! unat (fb_cw fb)"
  assumes "ut_status u = TXHARQ_PDU_WAITING" "ui_direction (pdu_info (the (ut_pdu u))) \<noteq> UNKNOWN_DIRECTION"
  shows "(if fb_pduId fb = ut_pduId u
          then \<exists>b' ems. buffer_receiveHarqFeedback fb b = Inr (b', ems) \<and>
             (let u' = pt_units (bt_processes b' ! unat (fb_acid fb)) ! unat (fb_cw fb)
              in if fb_result fb \<or> (ucast (ut_transmissions u) :: u32) = ut_maxHarqRtx u + 1
                 then unit_isEmpty u'
                 else unit_isReady u' \<and> ut_pdu u' = ut_pdu u \<and> ut_transmissions u' = ut_transmissions u)
          else \<not> is_ok (buffer_receiveHarqFeedback fb b))"
  using feedback_accepted[OF assms(1,2,3)] assms(5,6) unfolding u_def by blast

section \<open>The counter of empty processes\<close>

text \<open>
  \<open>numEmptyProc_\<close> does not count the empty processes: inserting the PDUs of both codewords into
  one empty process decrements it twice, while only one process has become non-empty.
\<close>
theorem buffer_numEmptyProc_drifts:
  assumes "buffer_reachable b" "bt_selectedAcid b = HARQ_NONE"
    and "buffer_insertPdu a 0 p b = Inr b1" "buffer_insertPdu a 1 q b1 = Inr b2"
  shows "bt_numEmptyProc b2 = bt_numEmptyProc b - 2 \<and>
    Suc (length (filter process_isEmpty (bt_processes b2))) = length (filter process_isEmpty (bt_processes b))"
proof -
  let ?i = "unat a"
  have ok: "buffer_ok b" using buffer_reachable_ok[OF assms(1)] .
  obtain p1 where i: "?i < length (bt_processes b)" "process_insertPdu p 0 (bt_processes b ! ?i) = Inr p1"
    and b1: "b1 = b\<lparr>bt_selectedAcid := a, bt_numEmptyProc := bt_numEmptyProc b - 1,
               bt_processes := (bt_processes b)[?i := p1]\<rparr>"
    using buffer_insertPdu_Inr[OF assms(3)] by blast
  obtain p2 where p2: "process_insertPdu q 1 p1 = Inr p2"
    and b2: "b2 = b1\<lparr>bt_selectedAcid := a, bt_numEmptyProc := bt_numEmptyProc b1 - 1,
               bt_processes := (bt_processes b1)[?i := p2]\<rparr>"
    using buffer_insertPdu_Inr[OF assms(4)] i(1) b1 by auto
  have e: "process_isEmpty (bt_processes b ! ?i)"
    using assms(2,3) by (auto simp: buffer_insertPdu_def split: if_splits)
  have "pt_numEmptyUnits p2 = pt_numEmptyUnits (bt_processes b ! ?i) - 2"
    "pt_numHarqUnits p2 = pt_numHarqUnits (bt_processes b ! ?i)"
    using i(2) p2 by (auto simp: process_insertPdu_def)
  then have "\<not> process_isEmpty p2" using e by (simp add: process_isEmpty_def)
  then show ?thesis
    using slots_update_out[of ?i "bt_processes b" process_isEmpty p2] i(1) e b1 b2
    by (simp add: slots_def)
qed

section \<open>The labels of the PDUs\<close>

text \<open>
  The PDU a unit keeps carries the identifier the unit has stored and the process and codeword
  numbers of the unit, and the units of the process \<open>i\<close> carry the process number \<open>i\<close>: this is what
  lets the receiver address its feedback.
\<close>

definition unit_labelled :: "nat \<Rightarrow> harq_unit_tx \<Rightarrow> bool" where
  "unit_labelled i u \<longleftrightarrow> ut_acid u = of_nat i \<and> (case ut_pdu u of None \<Rightarrow> True
     | Some pdu \<Rightarrow> pdu_id pdu = ut_pduId u \<and> ui_acid (pdu_info pdu) = ut_acid u \<and>
         ui_cw (pdu_info pdu) = ucast (ut_cw u))"

definition process_labelled :: "nat \<Rightarrow> harq_process_tx \<Rightarrow> bool" where
  "process_labelled i p \<longleftrightarrow> (\<forall>u \<in> set (pt_units p). unit_labelled i u)"

definition buffer_labelled :: "harq_buffer_tx \<Rightarrow> bool" where
  "buffer_labelled b \<longleftrightarrow>
     (\<forall>i < length (bt_processes b). process_labelled i (bt_processes b ! i))"

lemma unit_step_labelled: "unit_step u u' \<Longrightarrow> unit_labelled i u \<Longrightarrow> unit_labelled i u'"
proof (induction rule: unit_step.induct)
  case (step_insert p u u')
  then show ?case by (auto simp: unit_insertPdu_Inr unit_labelled_def)
next
  case (step_extract now u p u')
  then show ?case by (auto simp: unit_extractPdu_Inr unit_labelled_def)
next
  case (step_feedback a u u' reset ems)
  then show ?case
    by (cases a; auto dest!: unit_pduFeedback_ack unit_pduFeedback_nack
        simp: unit_labelled_def split: if_splits option.splits)
next
  case (step_selfNack now u u' reset ems)
  then show ?case using unit_selfNack_Inl[of now u] by auto
qed (auto simp: unit_markSelected_Inr unit_dropPdu_Inr unit_forceDropUnit_def unit_labelled_def
    split: option.splits)

lemma process_step_labelled: "process_step p p' \<Longrightarrow> process_labelled i p \<Longrightarrow> process_labelled i p'"
  unfolding process_labelled_def
  using process_step_frame[where Q = "unit_labelled i"] unit_step_labelled by blast

lemma foldE_process_labelled:
  assumes "\<And>x p p'. f x p = Inr p' \<Longrightarrow> process_step p p'"
    and "foldE f xs p = Inr p'" "process_labelled i p"
  shows "process_labelled i p'"
  using foldE_invariant[OF assms(2), of "process_labelled i"] assms(1,3) process_step_labelled by blast

lemma merge_one_labelled:
  assumes "merge_one cw g p = Inr p'" "process_labelled i p"
  shows "process_labelled i p'"
proof -
  from assms(1) obtain base guest :: mac_pdu where b: "unat cw < length (pt_units p)"
    "ut_pdu (pt_units p ! unat cw) = Some base"
    and d: "process_dropPdu g (put_pdu cw (base\<lparr>pdu_sduList := pdu_sduList base @ pdu_sduList guest,
       pdu_macPduLength := pdu_macPduLength base + sdu_bytes_sum (pdu_sduList guest),
       pdu_ceList := pdu_ceList base @ pdu_ceList guest\<rparr>) p) = Inr p'" (is "process_dropPdu g ?q = _")
    by (auto simp: merge_one_def process_getPdu_def moveSdus_eq moveCes_eq split: option.splits if_splits)
  let ?v = "pt_units ?q ! unat cw"
  have "unit_labelled i (pt_units p ! unat cw)" using assms(2) b(1) by (simp add: process_labelled_def)
  then have "unit_labelled i ?v" using b by (simp add: unit_labelled_def put_pdu_def)
  moreover have "pt_units ?q = (pt_units p)[unat cw := ?v]" using b(1) by (simp add: put_pdu_def)
  ultimately have "process_labelled i ?q"
    using units_update_all[of "pt_units p" "unit_labelled i" "unat cw" ?v] assms(2) b(1)
    unfolding process_labelled_def by metis
  then show ?thesis using process_step_labelled[OF ps_drop[OF d]] by simp
qed

lemma buffer_labelled_put:
  assumes "buffer_labelled b" "i < length (bt_processes b)" "process_labelled i p'"
    and "bt_processes b' = (bt_processes b)[i := p']"
  shows "buffer_labelled b'"
  unfolding buffer_labelled_def
proof (intro allI impI)
  fix j assume "j < length (bt_processes b')"
  then show "process_labelled j (bt_processes b' ! j)"
    using assms by (cases "j = i") (auto simp: buffer_labelled_def)
qed

lemma buffer_markSelected_labelled:
  assumes "buffer_markSelected (a, cws) n b = Inr b'" "buffer_labelled b"
  shows "buffer_labelled b'"
proof (cases "cws = [] \<or> n = 0")
  case True
  then show ?thesis using assms by (auto simp: buffer_markSelected_def)
next
  case False
  let ?p = "bt_processes b ! unat a"
  obtain p' where i: "unat a < length (bt_processes b)"
    and f: "(if unat n < length cws
             then bindE (foldE (merge_one (hd cws)) (tl cws) ?p) (process_markSelected (hd cws))
             else foldE process_markSelected cws ?p) = Inr p'"
    and b': "bt_processes b' = (bt_processes b)[unat a := p']"
    using assms(1) False by (auto simp: buffer_markSelected_def on_process_Inr Let_def split: if_splits)
  have l: "process_labelled (unat a) ?p" using assms(2) i by (simp add: buffer_labelled_def)
  have "process_labelled (unat a) p'"
  proof (cases "unat n < length cws")
    case True
    then obtain p1 where p1: "foldE (merge_one (hd cws)) (tl cws) ?p = Inr p1"
      "process_markSelected (hd cws) p1 = Inr p'" using f by auto
    have "process_labelled (unat a) p1"
      using foldE_invariant[OF p1(1), of "process_labelled (unat a)"] merge_one_labelled l by blast
    then show ?thesis using process_step_labelled[OF ps_mark[OF p1(2)]] by simp
  next
    case False
    then show ?thesis using f foldE_process_labelled[OF ps_mark] l by auto
  qed
  then show ?thesis using buffer_labelled_put[OF assms(2) i _ b'] by simp
qed

lemma send_one_labelled:
  "send_one now cw s = Inr s' \<Longrightarrow> process_labelled i (fst s) \<Longrightarrow> process_labelled i (fst s')"
  by (cases s) (auto simp: send_one_def intro: process_step_labelled[OF ps_extract])

lemma buffer_step_labelled: "buffer_step b b' \<Longrightarrow> buffer_labelled b \<Longrightarrow> buffer_labelled b'"
proof (induction rule: buffer_step.induct)
  case (bs_insert b a cw popt b')
  obtain p' where i: "unat a < length (bt_processes b)"
    and p': "process_insertPdu popt cw (bt_processes b ! unat a) = Inr p'"
    and b': "bt_processes b' = (bt_processes b)[unat a := p']"
    using buffer_insertPdu_Inr[OF bs_insert.hyps(2)] by auto
  have "process_labelled (unat a) p'"
    using process_step_labelled[OF ps_insert[OF p']] bs_insert.prems i by (simp add: buffer_labelled_def)
  then show ?case using buffer_labelled_put[OF bs_insert.prems i _ b'] by simp
next
  case (bs_select b ul n b')
  then show ?case using buffer_markSelected_labelled by (metis prod.collapse)
next
  case (bs_feedback fb b b' ems)
  let ?i = "unat (fb_acid fb)"
  obtain p' r where i: "?i < length (bt_processes b)"
    and p': "process_pduFeedback (if fb_result fb then HARQACK else HARQNACK) (ucast (fb_cw fb))
       (bt_processes b ! ?i) = Inr (p', r, ems)"
    and b': "bt_processes b' = (bt_processes b)[?i := p']"
    using bs_feedback.hyps by (auto simp: buffer_receiveHarqFeedback_def Let_def split: if_splits)
  have "process_labelled ?i p'"
    using process_step_labelled[OF ps_feedback[OF p']] bs_feedback.prems i by (simp add: buffer_labelled_def)
  then show ?case using buffer_labelled_put[OF bs_feedback.prems i _ b'] by simp
next
  case (bs_send now b b' sent)
  show ?case
  proof (cases "bt_selectedAcid b = HARQ_NONE")
    case True
    then show ?thesis using bs_send by (simp add: buffer_sendSelectedDown_def)
  next
    case False
    let ?i = "unat (bt_selectedAcid b)"
    obtain p' where i: "?i < length (bt_processes b)"
      and f: "foldE (send_one now) (process_selectedUnitsIds (bt_processes b ! ?i)) (bt_processes b ! ?i, [])
        = Inr (p', sent)"
      and b': "bt_processes b' = (bt_processes b)[?i := p']"
      using bs_send.hyps False by (auto simp: buffer_sendSelectedDown_def on_process_Inr)
    have "process_labelled ?i (fst (p', sent))"
      by (rule foldE_invariant[OF f]) (use bs_send.prems i send_one_labelled in \<open>auto simp: buffer_labelled_def\<close>)
    then show ?thesis using buffer_labelled_put[OF bs_send.prems i _ b'] by simp
  qed
next
  case (bs_drop a b b')
  obtain p' where i: "unat a < length (bt_processes b)"
    and d: "foldE process_dropPdu (process_readyUnitsIds (bt_processes b ! unat a))
              (bt_processes b ! unat a) = Inr p'"
    and b': "bt_processes b' = (bt_processes b)[unat a := p']"
    using bs_drop.hyps by (auto simp: buffer_dropProcess_def on_process_Inr)
  have "process_labelled (unat a) p'"
    using foldE_process_labelled[OF ps_drop d] bs_drop.prems i by (simp add: buffer_labelled_def)
  then show ?case using buffer_labelled_put[OF bs_drop.prems i _ b'] by simp
next
  case (bs_selfNack now a cw b b' ems)
  then show ?case using buffer_selfNack_same by blast
next
  case (bs_forceDropProcess a b b')
  have i: "unat a < length (bt_processes b)"
    and b': "bt_processes b' = (bt_processes b)[unat a := process_forceDropProcess (bt_processes b ! unat a)]"
    using bs_forceDropProcess.hyps by (auto simp: buffer_forceDropProcess_def on_process_Inr)
  have "process_labelled (unat a) (process_forceDropProcess (bt_processes b ! unat a))"
    using process_step_labelled[OF ps_forceDropProcess] bs_forceDropProcess.prems i
    by (simp add: buffer_labelled_def)
  then show ?case using buffer_labelled_put[OF bs_forceDropProcess.prems i _ b'] by simp
next
  case (bs_forceDropUnit a b cw b')
  obtain p' r where i: "unat a < length (bt_processes b)"
    and f: "process_forceDropUnit cw (bt_processes b ! unat a) = Inr (p', r)"
    and b': "bt_processes b' = (bt_processes b)[unat a := p']"
    using bs_forceDropUnit.hyps by (auto simp: buffer_forceDropUnit_def on_process_Inr)
  have "process_labelled (unat a) p'"
    using process_step_labelled[OF ps_forceDropUnit[OF bs_forceDropUnit.hyps(2) f]] bs_forceDropUnit.prems i
    by (simp add: buffer_labelled_def)
  then show ?case using buffer_labelled_put[OF bs_forceDropUnit.prems i _ b'] by simp
qed

lemma buffer_labelled_new: "buffer_labelled (buffer_new uninit n nid m)"
proof -
  have "process_labelled i (process_new f (of_nat i) k np m)" for f i k np
    by (auto simp: process_labelled_def process_new_def unit_labelled_def unit_new_def)
  then show ?thesis by (simp add: buffer_labelled_def buffer_new_def)
qed

lemma buffer_reachable_labelled: "buffer_reachable b \<Longrightarrow> buffer_labelled b"
  by (induction rule: buffer_reachable.induct) (simp_all add: buffer_labelled_new buffer_step_labelled)

section \<open>A concrete run\<close>

text \<open>
  A buffer of two processes; PDUs for both codewords enter process 0, are sent at 10 ms, and are
  both answered with a NACK.
\<close>

definition ex_feedback :: "u8 \<Rightarrow> bool \<Rightarrow> harq_feedback" where
  "ex_feedback c r = \<lparr>fb_acid = 0, fb_cw = c, fb_result = r, fb_pduId = 7 + uint c,
     fb_sourceId = 1025, fb_destId = 1, fb_frameType = HARQPKT\<rparr>"

definition ex_b0 :: harq_buffer_tx where
  "ex_b0 = buffer_new (\<lambda>_ _. 0) 2 1025 3"

definition ex_b1 :: harq_buffer_tx where
  "ex_b1 = projr (buffer_insertPdu 0 0 (Some (ex_pdu 0)) ex_b0)"

definition ex_b2 :: harq_buffer_tx where
  "ex_b2 = projr (buffer_insertPdu 0 1 (Some (ex_pdu 1)) ex_b1)"

definition ex_b3 :: harq_buffer_tx where
  "ex_b3 = fst (projr (buffer_sendSelectedDown (10 * simtime_ms) ex_b2))"

definition ex_b4 :: harq_buffer_tx where
  "ex_b4 = fst (projr (buffer_receiveHarqFeedback (ex_feedback 0 False) ex_b3))"

definition ex_b5 :: harq_buffer_tx where
  "ex_b5 = fst (projr (buffer_receiveHarqFeedback (ex_feedback 1 False) ex_b4))"

lemma is_ok_projr: "is_ok m \<Longrightarrow> m = Inr (projr m)"
  by (auto simp: is_ok_iff)

lemma is_ok_projr_pair: "is_ok m \<Longrightarrow> \<exists>x. m = Inr (fst (projr m), x)"
  by (auto simp: is_ok_iff)

lemma ex_run1: "buffer_insertPdu 0 0 (Some (ex_pdu 0)) ex_b0 = Inr ex_b1"
  by (rule is_ok_projr[of "buffer_insertPdu 0 0 (Some (ex_pdu 0)) ex_b0", folded ex_b1_def]) code_simp

lemma ex_run2: "buffer_insertPdu 0 1 (Some (ex_pdu 1)) ex_b1 = Inr ex_b2"
  by (rule is_ok_projr[of "buffer_insertPdu 0 1 (Some (ex_pdu 1)) ex_b1", folded ex_b2_def]) code_simp

lemma ex_run3: "\<exists>sent. buffer_sendSelectedDown (10 * simtime_ms) ex_b2 = Inr (ex_b3, sent)"
  by (rule is_ok_projr_pair[of "buffer_sendSelectedDown (10 * simtime_ms) ex_b2", folded ex_b3_def]) code_simp

lemma ex_run4: "\<exists>ems. buffer_receiveHarqFeedback (ex_feedback 0 False) ex_b3 = Inr (ex_b4, ems)"
  by (rule is_ok_projr_pair[of "buffer_receiveHarqFeedback (ex_feedback 0 False) ex_b3", folded ex_b4_def]) code_simp

lemma ex_run5: "\<exists>ems. buffer_receiveHarqFeedback (ex_feedback 1 False) ex_b4 = Inr (ex_b5, ems)"
  by (rule is_ok_projr_pair[of "buffer_receiveHarqFeedback (ex_feedback 1 False) ex_b4", folded ex_b5_def]) code_simp

lemma ex_reachable:
  "buffer_reachable ex_b0" "buffer_reachable ex_b1" "buffer_reachable ex_b2"
  "buffer_reachable ex_b3" "buffer_reachable ex_b4" "buffer_reachable ex_b5"
proof -
  show 0: "buffer_reachable ex_b0" unfolding ex_b0_def by (rule br_start) simp
  have "bt_selectedAcid ex_b0 = HARQ_NONE" by (simp add: ex_b0_def buffer_new_def)
  then show 1: "buffer_reachable ex_b1" using br_more[OF 0 bs_insert[OF _ ex_run1]] by simp
  have "bt_selectedAcid ex_b1 = 0" by code_simp
  then show 2: "buffer_reachable ex_b2" using br_more[OF 1 bs_insert[OF _ ex_run2]] by simp
  show 3: "buffer_reachable ex_b3" using br_more[OF 2 bs_send] ex_run3 by blast
  show 4: "buffer_reachable ex_b4" using br_more[OF 3 bs_feedback] ex_run4 by blast
  show "buffer_reachable ex_b5" using br_more[OF 4 bs_feedback] ex_run5 by blast
qed

theorem buffer_sends_selected_witness:
  "\<exists>b'. buffer_sendSelectedDown 5 ex_b2
     = Inr (b', map stamped_pdu (filter unit_isMarked (pt_units (bt_processes ex_b2 ! 0))))
   \<and> bt_selectedAcid b' = HARQ_NONE"
proof -
  have s: "bt_selectedAcid ex_b2 \<noteq> HARQ_NONE" "unat (bt_selectedAcid ex_b2) = 0" by code_simp+
  show ?thesis using buffer_sends_selected[OF ex_reachable(3) s(1), of 5] unfolding s(2) by blast
qed

theorem buffer_firstAvailable_insert_witness:
  "\<exists>b'. buffer_insertPdu 0 1 (Some (ex_pdu 1)) ex_b0 = Inr b' \<and> bt_selectedAcid b' = 0"
proof -
  have f: "buffer_firstAvailable ex_b0 = Inr (0, [0, 1])" by code_simp
  have c: "ucast (ui_cw (pdu_info (ex_pdu 1))) = (1 :: codeword)" by code_simp
  show ?thesis
    using buffer_firstAvailable_insert[OF ex_reachable(1) f _ _ c] by (auto simp: HARQ_NONE_def)
qed

theorem buffer_markSelected_merges_witness:
  "\<exists>b'. buffer_markSelected (0, [0, 1]) 1 ex_b5 = Inr b' \<and> bt_selectedAcid b' = 0"
proof -
  have n: "bt_selectedAcid ex_b5 = HARQ_NONE"
    and f: "buffer_firstReadyForRtx (20 * simtime_ms) ex_b5 = Inr (0, [0, 1])" by code_simp+
  show ?thesis using buffer_markSelected_merges[OF ex_reachable(6) n f] by blast
qed

theorem buffer_firstReadyForRtx_oldest_witness:
  "\<exists>a cws. buffer_firstReadyForRtx (20 * simtime_ms) ex_b5 = Inr (a, cws) \<and>
     unat a < length (bt_processes ex_b5)"
proof -
  have "buffer_times_le (20 * simtime_ms) ex_b5" "list_ex process_hasReadyUnits (bt_processes ex_b5)"
    by code_simp+
  from buffer_firstReadyForRtx_oldest[OF ex_reachable(6) this] show ?thesis by blast
qed

theorem buffer_feedback_effect_witness:
  "\<exists>b' ems. buffer_receiveHarqFeedback (ex_feedback 1 True) ex_b3 = Inr (b', ems) \<and>
     unit_isEmpty (pt_units (bt_processes b' ! 0) ! 1)"
proof -
  let ?fb = "ex_feedback 1 True"
  let ?u = "pt_units (bt_processes ex_b3 ! unat (fb_acid ?fb)) ! unat (fb_cw ?fb)"
  have h: "unat (fb_acid ?fb) < length (bt_processes ex_b3)" "unat (fb_cw ?fb) < 2"
    "ut_status ?u = TXHARQ_PDU_WAITING" "ui_direction (pdu_info (the (ut_pdu ?u))) \<noteq> UNKNOWN_DIRECTION"
    "fb_pduId ?fb = ut_pduId ?u"
    by code_simp+
  show ?thesis
    using buffer_feedback_effect[OF ex_reachable(4) h(1-4)] h(5) by (auto simp: ex_feedback_def Let_def)
qed

theorem buffer_numEmptyProc_drifts_witness:
  "bt_numEmptyProc ex_b2 = bt_numEmptyProc ex_b0 - 2 \<and>
   length (filter process_isEmpty (bt_processes ex_b2)) = 1"
proof -
  have n: "bt_selectedAcid ex_b0 = HARQ_NONE"
    "length (filter process_isEmpty (bt_processes ex_b0)) = 2" by code_simp+
  show ?thesis using buffer_numEmptyProc_drifts[OF ex_reachable(1) n(1) ex_run1 ex_run2] n(2) by simp
qed

end
