(* ===== verification/HarqRxScenario.thy ===== *)
theory HarqRxScenario
  imports HarqBufferRx HarqTxScenario
begin

text \<open>
  What the receiving H-ARQ buffer guarantees to the MAC layer that drives it: one feedback per
  evaluated PDU, delivery of exactly the correctly decoded PDUs, and free units after each turn of
  the MAC main loop (extraction followed by the purge).  The transmission counter that the codewords
  of a process share is shown to end a PDU early.
\<close>

section \<open>Reachable buffers\<close>

inductive rxb_step :: "harq_buffer_rx \<Rightarrow> harq_buffer_rx \<Rightarrow> bool" where
  rs_insert: "rxb_insertPdu now cw pdu b = Inr b' \<Longrightarrow> rxb_step b b'"
| rs_feedback: "rxb_sendFeedback now b = Inr (b', fbs) \<Longrightarrow> rxb_step b b'"
| rs_extract: "rxb_extractCorrectPdus now b = Inr (b', fbs, ret, ems) \<Longrightarrow> rxb_step b b'"
| rs_purge: "rxb_purgeCorruptedPdus b = Inr (b', n) \<Longrightarrow> rxb_step b b'"

inductive rxb_reachable :: "harq_buffer_rx \<Rightarrow> bool" where
  rr_start: "rxb_reachable (rxb_new n ty nid maxRtx)"
| rr_more: "rxb_reachable b \<Longrightarrow> rxb_step b b' \<Longrightarrow> rxb_reachable b'"

lemma rxb_ok_new: "rxb_ok (rxb_new n ty nid m)"
  by (auto simp: rxb_ok_def rxb_new_def rx_ok_new) (simp add: rx_new_def)

lemma rx_insertPdu_ok:
  assumes "rx_insertPdu now cw pdu p = Inr p'" "rx_ok p"
  shows "rx_ok p'"
  using rx_insertPdu_Inr[OF assms(1)] rx_moved_ok[OF _ assms(2)] by (auto simp: rx_slot_ok_def)

lemma rx_insertPdu_unit: "rx_insertPdu now cw pdu p = Inr p' \<Longrightarrow> unat cw < length (rp_status p)"
  by (auto simp: rx_insertPdu_def Let_def)

lemma rxb_insertPdu_Inr:
  assumes "rxb_insertPdu now cw pdu b = Inr b'" "rxb_ok b"
  shows "rxb_ok b' \<and> rxb_moved (unat (ui_acid (pdu_info pdu)), cw) b b' \<and>
    rxb_slot b' (unat (ui_acid (pdu_info pdu)), cw)
      = (Some pdu, RXHARQ_PDU_EVALUATING, now, ui_deciderResult (pdu_info pdu))"
proof -
  let ?i = "unat (ui_acid (pdu_info pdu))"
  obtain p' where i: "?i < length (rb_processes b)"
    and p': "rx_insertPdu now cw pdu (rb_processes b ! ?i) = Inr p'"
    and b': "b' = b\<lparr>rb_processes := (rb_processes b)[?i := p']\<rparr>"
    using assms(1) by (auto simp: rxb_insertPdu_def on_rx_def)
  have "rx_ok p'" using rx_insertPdu_ok[OF p'] assms(2) i by (simp add: rxb_ok_def)
  then show ?thesis
    using rxb_put[OF assms(2), of ?i p' cw] i rx_insertPdu_Inr[OF p'] assms(2) b' by (simp add: rxb_ok_def)
qed

lemma fold_append_map: "fold (\<lambda>x acc. acc @ [f x]) xs acc = acc @ map f xs"
  by (induction xs arbitrary: acc) auto

lemma fold_append_fst:
  "fst (fold (\<lambda>x re. (fst re @ [f x], snd re @ g x)) xs acc) = fst acc @ map f xs"
  by (induction xs arbitrary: acc) auto

text \<open>The feedback of a unit, and the PDUs the buffer delivers.\<close>

definition unit_feedback :: "harq_buffer_rx \<Rightarrow> nat \<times> codeword \<Rightarrow> harq_feedback" where
  "unit_feedback b ic = slot_feedback (rp_acid (rb_processes b ! fst ic)) (snd ic) (rxb_slot b ic)"

definition slot_deliverable :: "simtime \<Rightarrow> rx_slot_t \<Rightarrow> bool" where
  "slot_deliverable now s \<longleftrightarrow> slot_has RXHARQ_PDU_CORRECT s \<or>
     slot_evaluated now s \<and> ui_deciderResult (pdu_info (slot_pdu s))"

definition rxb_countable :: "harq_buffer_rx \<Rightarrow> bool" where
  "rxb_countable b \<longleftrightarrow> (rb_nodeType b = UE \<or> rb_nodeType b = ENODEB) \<and>
     list_all (\<lambda>ic. case fst (rxb_slot b ic) of None \<Rightarrow> True
                  | Some pdu \<Rightarrow> ui_direction (pdu_info pdu) \<noteq> UNKNOWN_DIRECTION)
       (rx_units (rb_numHarqProcesses b))"

lemma sendFeedback_effect:
  assumes "rxb_ok b"
  shows "\<exists>b'. rxb_sendFeedback now b = Inr (b', map (unit_feedback b)
      (filter (\<lambda>ic. slot_evaluated now (rxb_slot b ic)) (rx_units (rb_numHarqProcesses b)))) \<and> rxb_ok b' \<and>
    rb_numHarqProcesses b' = rb_numHarqProcesses b \<and> rb_nodeType b' = rb_nodeType b \<and>
    (\<forall>jd. rxb_unit b jd \<longrightarrow>
       (if slot_evaluated now (rxb_slot b jd) then slot_decided (rxb_slot b jd) (rxb_slot b' jd)
        else rxb_slot b' jd = rxb_slot b jd))"
  using rx_feedback.all_units[OF assms, where now = now and acc = "[]"]
  unfolding rxb_sendFeedback_def rx_feedback.visit_def rx_feedback.visited_def fold_append_map
    append_Nil unit_feedback_def by blast

lemma purge_effect:
  assumes "rxb_ok b"
  shows "\<exists>b' n. rxb_purgeCorruptedPdus b = Inr (b', n) \<and> rxb_ok b' \<and>
    rb_numHarqProcesses b' = rb_numHarqProcesses b \<and>
    (\<forall>jd. rxb_unit b jd \<longrightarrow>
       rxb_slot b' jd = (if slot_has RXHARQ_PDU_CORRUPTED (rxb_slot b jd) then rx_empty_slot
                         else rxb_slot b jd))"
proof -
  obtain b' where b': "foldE purge_one (rx_units (rb_numHarqProcesses b)) (b, 0)
      = Inr (b', fold (rx_purge.visit b) (rx_purge.visited b (rx_units (rb_numHarqProcesses b))) 0)"
    "rxb_ok b'" "rb_numHarqProcesses b' = rb_numHarqProcesses b"
    "\<forall>jd. rxb_unit b jd \<longrightarrow>
       (if slot_has RXHARQ_PDU_CORRUPTED (rxb_slot b jd) then rxb_slot b' jd = rx_empty_slot
        else rxb_slot b' jd = rxb_slot b jd)"
    using rx_purge.all_units[OF assms, where acc = 0] by blast
  have "rxb_slot b' jd = (if slot_has RXHARQ_PDU_CORRUPTED (rxb_slot b jd) then rx_empty_slot
      else rxb_slot b jd)" if "rxb_unit b jd" for jd using b'(4) that by presburger
  then show ?thesis using b'(1-3) unfolding rxb_purgeCorruptedPdus_def by blast
qed

lemma extract_loop_effect:
  assumes "rxb_ok b" "\<forall>ic. rxb_unit b ic \<and> slot_has RXHARQ_PDU_CORRECT (rxb_slot b ic) \<longrightarrow>
      slot_countable (rb_nodeType b) (rxb_slot b ic)"
  shows "\<exists>b' ems. foldE (extract_one now) (rx_units (rb_numHarqProcesses b)) (b, [], [])
      = Inr (b', map (\<lambda>ic. slot_pdu (rxb_slot b ic))
               (filter (\<lambda>ic. slot_has RXHARQ_PDU_CORRECT (rxb_slot b ic)) (rx_units (rb_numHarqProcesses b))), ems)
    \<and> rxb_ok b' \<and> rb_numHarqProcesses b' = rb_numHarqProcesses b \<and>
    (\<forall>jd. rxb_unit b jd \<longrightarrow>
       rxb_slot b' jd = (if slot_has RXHARQ_PDU_CORRECT (rxb_slot b jd) then rx_empty_slot
                         else rxb_slot b jd))"
proof -
  let ?us = "rx_units (rb_numHarqProcesses b)"
  let ?acc = "fold (rx_extract.visit now b) (rx_extract.visited b ?us) ([], [])"
  obtain b' where b': "foldE (extract_one now) ?us (b, [], []) = Inr (b', ?acc)"
    "rxb_ok b'" "rb_numHarqProcesses b' = rb_numHarqProcesses b"
    "\<forall>jd. rxb_unit b jd \<longrightarrow>
       (if slot_has RXHARQ_PDU_CORRECT (rxb_slot b jd) then rxb_slot b' jd = rx_empty_slot
        else rxb_slot b' jd = rxb_slot b jd)"
    using rx_extract.all_units[OF assms, where acc = "([], [])" and now = now] by blast
  have s: "rxb_slot b' jd = (if slot_has RXHARQ_PDU_CORRECT (rxb_slot b jd) then rx_empty_slot
      else rxb_slot b jd)" if "rxb_unit b jd" for jd using b'(4) that by presburger
  obtain rt ems where acc: "?acc = (rt, ems)" by fastforce
  have "fst ?acc = map (\<lambda>ic. slot_pdu (rxb_slot b ic)) (rx_extract.visited b ?us)"
    unfolding rx_extract.visit_def fold_append_fst by simp
  then have "rt = map (\<lambda>ic. slot_pdu (rxb_slot b ic))
      (filter (\<lambda>ic. slot_has RXHARQ_PDU_CORRECT (rxb_slot b ic)) ?us)"
    using acc by (simp add: rx_extract.visited_def)
  then show ?thesis using b'(1-3) s unfolding acc by blast
qed

section \<open>Feedback and delivery\<close>

lemma slot_decided_correct:
  assumes "slot_decided s s'" "slot_evaluated now s"
  shows "slot_has RXHARQ_PDU_CORRECT s' = slot_deliverable now s"
    and "slot_deliverable now s \<Longrightarrow> slot_pdu s' = slot_pdu s"
    and "\<not> slot_evaluated now s'"
  using assms by (auto simp: slot_decided_def slot_deliverable_def slot_has_def slot_evaluated_def
      slot_pdu_def rx_empty_slot_def split: if_splits)

lemma slot_undecided_correct:
  "\<not> slot_evaluated now s \<Longrightarrow> slot_has RXHARQ_PDU_CORRECT s = slot_deliverable now s"
  by (simp add: slot_deliverable_def)

lemma rxb_slot_ok: "rxb_ok b \<Longrightarrow> rxb_unit b ic \<Longrightarrow> rx_slot_ok (rxb_slot b ic)"
  using rxb_ok_process[of b "fst ic" "snd ic"] by (simp add: rxb_slot_def rx_ok_def rxb_unit_def)

lemma slot_deliverable_pdu:
  "rx_slot_ok s \<Longrightarrow> slot_deliverable now s \<Longrightarrow>
   fst s = Some (slot_pdu s) \<and> ui_deciderResult (pdu_info (slot_pdu s))"
  by (auto simp: rx_slot_ok_def slot_deliverable_def slot_has_def slot_evaluated_def slot_pdu_def
      split: prod.splits option.splits)

lemma extractCorrectPdus_effect:
  assumes "rxb_ok b" "rxb_countable b"
  shows "\<exists>b' fbs ems. rxb_extractCorrectPdus now b = Inr (b', fbs,
      map (\<lambda>ic. slot_pdu (rxb_slot b ic))
        (filter (\<lambda>ic. slot_deliverable now (rxb_slot b ic)) (rx_units (rb_numHarqProcesses b))), ems) \<and>
    fbs = map (unit_feedback b)
      (filter (\<lambda>ic. slot_evaluated now (rxb_slot b ic)) (rx_units (rb_numHarqProcesses b))) \<and>
    rxb_ok b' \<and> rb_numHarqProcesses b' = rb_numHarqProcesses b \<and>
    (\<forall>jd. rxb_unit b jd \<longrightarrow>
       (if slot_deliverable now (rxb_slot b jd) then rxb_slot b' jd = rx_empty_slot
        else if slot_evaluated now (rxb_slot b jd) then slot_decided (rxb_slot b jd) (rxb_slot b' jd)
        else rxb_slot b' jd = rxb_slot b jd))"
proof -
  let ?us = "rx_units (rb_numHarqProcesses b)"
  obtain b1 where b1: "rxb_sendFeedback now b = Inr (b1, map (unit_feedback b)
      (filter (\<lambda>ic. slot_evaluated now (rxb_slot b ic)) ?us))" "rxb_ok b1"
    "rb_numHarqProcesses b1 = rb_numHarqProcesses b" "rb_nodeType b1 = rb_nodeType b"
    and d1: "\<forall>jd. rxb_unit b jd \<longrightarrow>
       (if slot_evaluated now (rxb_slot b jd) then slot_decided (rxb_slot b jd) (rxb_slot b1 jd)
        else rxb_slot b1 jd = rxb_slot b jd)"
    using sendFeedback_effect[OF assms(1)] by blast
  have un: "rxb_unit b1 ic = rxb_unit b ic" for ic using b1(3) by (simp add: rxb_unit_def)
  have c: "slot_has RXHARQ_PDU_CORRECT (rxb_slot b1 ic) = slot_deliverable now (rxb_slot b ic)
      \<and> (slot_deliverable now (rxb_slot b ic) \<longrightarrow> slot_pdu (rxb_slot b1 ic) = slot_pdu (rxb_slot b ic))"
    if "rxb_unit b ic" for ic
  proof (cases "slot_evaluated now (rxb_slot b ic)")
    case True
    then have "slot_decided (rxb_slot b ic) (rxb_slot b1 ic)" using d1 that by presburger
    then show ?thesis using slot_decided_correct(1,2)[OF _ True] by blast
  next
    case False
    then have "rxb_slot b1 ic = rxb_slot b ic" using d1 that by presburger
    then show ?thesis using slot_undecided_correct[OF False] by simp
  qed
  have "slot_countable (rb_nodeType b1) (rxb_slot b1 ic)"
    if "rxb_unit b1 ic \<and> slot_has RXHARQ_PDU_CORRECT (rxb_slot b1 ic)" for ic
  proof -
    have u: "rxb_unit b ic" using that un by simp
    then have d: "slot_deliverable now (rxb_slot b ic)" using c that by blast
    have "fst (rxb_slot b ic) = Some (slot_pdu (rxb_slot b ic))"
      using slot_deliverable_pdu[OF rxb_slot_ok[OF assms(1) u] d] by simp
    moreover have "ic \<in> set ?us" using u by (simp add: rx_units_set)
    ultimately have "ui_direction (pdu_info (slot_pdu (rxb_slot b ic))) \<noteq> UNKNOWN_DIRECTION"
      using assms(2) by (force simp: rxb_countable_def list_all_iff)
    then show ?thesis using assms(2) c[OF u] d b1(4) by (simp add: slot_countable_def rxb_countable_def)
  qed
  then obtain b2 ems where b2: "foldE (extract_one now) ?us (b1, [], [])
      = Inr (b2, map (\<lambda>ic. slot_pdu (rxb_slot b1 ic))
               (filter (\<lambda>ic. slot_has RXHARQ_PDU_CORRECT (rxb_slot b1 ic)) ?us), ems)"
    "rxb_ok b2" "rb_numHarqProcesses b2 = rb_numHarqProcesses b"
    and d2: "\<forall>jd. rxb_unit b1 jd \<longrightarrow>
       rxb_slot b2 jd = (if slot_has RXHARQ_PDU_CORRECT (rxb_slot b1 jd) then rx_empty_slot
                         else rxb_slot b1 jd)"
    using extract_loop_effect[OF b1(2), where now = now] b1(3) by auto
  have f: "filter (\<lambda>ic. slot_has RXHARQ_PDU_CORRECT (rxb_slot b1 ic)) ?us
      = filter (\<lambda>ic. slot_deliverable now (rxb_slot b ic)) ?us"
    using c by (intro filter_cong) (auto simp: rx_units_set simp del: split_paired_All)
  have m: "map (\<lambda>ic. slot_pdu (rxb_slot b1 ic)) (filter (\<lambda>ic. slot_deliverable now (rxb_slot b ic)) ?us)
      = map (\<lambda>ic. slot_pdu (rxb_slot b ic)) (filter (\<lambda>ic. slot_deliverable now (rxb_slot b ic)) ?us)"
    using c by (intro map_cong) (auto simp: rx_units_set simp del: split_paired_All)
  have r: "rxb_extractCorrectPdus now b = Inr (b2, map (unit_feedback b)
      (filter (\<lambda>ic. slot_evaluated now (rxb_slot b ic)) ?us),
      map (\<lambda>ic. slot_pdu (rxb_slot b ic)) (filter (\<lambda>ic. slot_deliverable now (rxb_slot b ic)) ?us), ems)"
    using b1(1,3) b2(1) unfolding f m by (simp add: rxb_extractCorrectPdus_def)
  have e: "if slot_deliverable now (rxb_slot b jd) then rxb_slot b2 jd = rx_empty_slot
        else if slot_evaluated now (rxb_slot b jd) then slot_decided (rxb_slot b jd) (rxb_slot b2 jd)
        else rxb_slot b2 jd = rxb_slot b jd" if "rxb_unit b jd" for jd
    using c[OF that] d1 d2 un that by presburger
  show ?thesis using r b2(2,3) e by blast
qed

lemma extract_one_ok:
  assumes "extract_one now ic (b, acc) = Inr (b', acc')" "rxb_ok b"
  shows "rxb_ok b'"
proof -
  obtain i cw where ic: "ic = (i, cw)" by (cases ic)
  obtain ret ems where acc: "acc = (ret, ems)" by (cases acc)
  let ?p = "rb_processes b ! i"
  have i: "i < length (rb_processes b)" using assms(1) by (auto simp: ic acc extract_one_def)
  consider "b' = b" | p' popt where "rx_extractPdu cw ?p = Inr (popt, p')"
      "b' = b\<lparr>rb_processes := (rb_processes b)[i := p']\<rparr>"
    using assms(1) by (auto simp: ic acc extract_one_def on_rx_def split: if_splits option.splits)
  then show ?thesis
  proof cases
    case 2
    then have r: "rx_resetCodeword cw ?p = Inr p'" by (auto simp: rx_extractPdu_def split: if_splits)
    have ok: "rx_ok ?p" using assms(2) i by (simp add: rxb_ok_def)
    have m: "rx_moved (unat cw) ?p p'" "rx_slot p' (unat cw) = rx_empty_slot"
      using rx_resetCodeword_Inr[OF r] by auto
    show ?thesis
      using rxb_put[OF assms(2) _ rx_ok_moved_empty[OF m(1) ok m(2)] m(1)] i 2(2) assms(2)
      by (simp add: rxb_ok_def)
  qed (simp add: assms(2))
qed

lemma rxb_step_ok: "rxb_step b b' \<Longrightarrow> rxb_ok b \<Longrightarrow> rxb_ok b'"
proof (induction rule: rxb_step.induct)
  case (rs_insert now cw pdu b b')
  then show ?case using rxb_insertPdu_Inr by blast
next
  case (rs_feedback now b b' fbs)
  then show ?case using sendFeedback_effect[of b now] by auto
next
  case (rs_extract now b b' fbs ret ems)
  then obtain b1 where b1: "rxb_sendFeedback now b = Inr (b1, fbs)"
    "foldE (extract_one now) (rx_units (rb_numHarqProcesses b1)) (b1, [], []) = Inr (b', ret, ems)"
    by (auto simp: rxb_extractCorrectPdus_def)
  have "rxb_ok b1" using sendFeedback_effect[of b now] b1(1) rs_extract.prems by auto
  then show ?case
    using foldE_invariant[OF b1(2), of "\<lambda>s. rxb_ok (fst s)"] extract_one_ok by fastforce
next
  case (rs_purge b b' n)
  then show ?case using purge_effect[of b] by auto
qed

lemma rxb_reachable_ok: "rxb_reachable b \<Longrightarrow> rxb_ok b"
  by (induction rule: rxb_reachable.induct) (auto intro: rxb_ok_new rxb_step_ok)

text \<open>
  C27: \<open>sendFeedback\<close> never fails on a reachable buffer and sends, in the order of processes and
  codewords, exactly one feedback for each PDU that has been evaluated for 3 ms, carrying the
  process, the codeword, the identifier of the PDU and the result of its decoding, and addressed
  back to its sender; afterwards no PDU is waiting for a feedback that is due.
\<close>
theorem rx_feedback_exact:
  assumes "rxb_reachable b"
  shows "\<exists>b'. rxb_sendFeedback now b = Inr (b', map (unit_feedback b)
      (filter (\<lambda>ic. slot_evaluated now (rxb_slot b ic)) (rx_units (rb_numHarqProcesses b)))) \<and>
    list_all (\<lambda>ic. \<not> slot_evaluated now (rxb_slot b' ic)) (rx_units (rb_numHarqProcesses b))"
proof -
  obtain b' where b': "rxb_sendFeedback now b = Inr (b', map (unit_feedback b)
      (filter (\<lambda>ic. slot_evaluated now (rxb_slot b ic)) (rx_units (rb_numHarqProcesses b))))"
    and d: "\<forall>jd. rxb_unit b jd \<longrightarrow>
       (if slot_evaluated now (rxb_slot b jd) then slot_decided (rxb_slot b jd) (rxb_slot b' jd)
        else rxb_slot b' jd = rxb_slot b jd)"
    using sendFeedback_effect[OF rxb_reachable_ok[OF assms]] by blast
  have "\<not> slot_evaluated now (rxb_slot b' ic)" if "rxb_unit b ic" for ic
    using d[rule_format, OF that] slot_decided_correct(3)[of "rxb_slot b ic" "rxb_slot b' ic" now]
    by (cases "slot_evaluated now (rxb_slot b ic)") simp_all
  then show ?thesis using b' rx_units_set[of _ b] by (auto simp: list_all_iff)
qed

text \<open>
  C18: While the node is a UE or an eNodeB and the direction of every buffered PDU is known,
  \<open>extractCorrectPdus\<close> returns exactly the PDUs that were decoded correctly and whose evaluation is
  over, in the order of processes and codewords: no corrupted PDU is delivered, and none that is
  correct is left behind or delivered again.
\<close>
theorem rx_delivers_exactly_correct:
  assumes "rxb_reachable b" "rxb_countable b"
  shows "\<exists>b' fbs ret ems. rxb_extractCorrectPdus now b = Inr (b', fbs, ret, ems) \<and>
    ret = map (\<lambda>ic. slot_pdu (rxb_slot b ic))
      (filter (\<lambda>ic. slot_deliverable now (rxb_slot b ic)) (rx_units (rb_numHarqProcesses b))) \<and>
    list_all (\<lambda>pdu. ui_deciderResult (pdu_info pdu)) ret \<and>
    list_all (\<lambda>ic. \<not> slot_deliverable now (rxb_slot b' ic)) (rx_units (rb_numHarqProcesses b))"
proof -
  have ok: "rxb_ok b" using rxb_reachable_ok[OF assms(1)] .
  let ?us = "rx_units (rb_numHarqProcesses b)"
  obtain b' fbs ems where r: "rxb_extractCorrectPdus now b = Inr (b', fbs,
      map (\<lambda>ic. slot_pdu (rxb_slot b ic)) (filter (\<lambda>ic. slot_deliverable now (rxb_slot b ic)) ?us), ems)"
    and d: "\<forall>jd. rxb_unit b jd \<longrightarrow>
       (if slot_deliverable now (rxb_slot b jd) then rxb_slot b' jd = rx_empty_slot
        else if slot_evaluated now (rxb_slot b jd) then slot_decided (rxb_slot b jd) (rxb_slot b' jd)
        else rxb_slot b' jd = rxb_slot b jd)"
    using extractCorrectPdus_effect[OF ok assms(2)] by blast
  have c: "ui_deciderResult (pdu_info (slot_pdu (rxb_slot b ic)))"
    if "rxb_unit b ic" "slot_deliverable now (rxb_slot b ic)" for ic
    using slot_deliverable_pdu[OF rxb_slot_ok[OF ok that(1)] that(2)] by simp
  have e: "\<not> slot_deliverable now rx_empty_slot"
    by (simp add: slot_deliverable_def slot_has_def slot_evaluated_def rx_empty_slot_def)
  have n: "\<not> slot_deliverable now (rxb_slot b' ic)" if "rxb_unit b ic" for ic
  proof (cases "slot_deliverable now (rxb_slot b ic)")
    case True
    then show ?thesis using d that e by presburger
  next
    case False
    show ?thesis
    proof (cases "slot_evaluated now (rxb_slot b ic)")
      case True
      then have dd: "slot_decided (rxb_slot b ic) (rxb_slot b' ic)" using d that False by presburger
      show ?thesis
        using slot_decided_correct[OF dd True] False by (simp add: slot_deliverable_def)
    next
      case notev: False
      then have "rxb_slot b' ic = rxb_slot b ic" using d that False by presburger
      then show ?thesis using False by simp
    qed
  qed
  have us: "rxb_unit b ic" if "ic \<in> set ?us" for ic using that rx_units_set[of ic b] by blast
  have 1: "list_all (\<lambda>pdu. ui_deciderResult (pdu_info pdu))
      (map (\<lambda>ic. slot_pdu (rxb_slot b ic)) (filter (\<lambda>ic. slot_deliverable now (rxb_slot b ic)) ?us))"
    using c us by (auto simp: list_all_iff simp del: split_paired_All)
  have 2: "list_all (\<lambda>ic. \<not> slot_deliverable now (rxb_slot b' ic)) ?us"
    using n us by (auto simp: list_all_iff)
  show ?thesis using r 1 2 by blast
qed

text \<open>
  One turn of the MAC main loop is \<open>extractCorrectPdus\<close> followed by \<open>purgeCorruptedPdus\<close>.
\<close>

lemma rx_slot_ok_empty: "rx_slot_ok s \<Longrightarrow> slot_has RXHARQ_PDU_EMPTY s \<Longrightarrow> s = rx_empty_slot"
  by (auto simp: rx_slot_ok_def slot_has_def rx_empty_slot_def)

lemma rxb_insert_empty:
  assumes "rxb_ok b" "rxb_unit b (unat (ui_acid (pdu_info pdu)), cw)"
    and "rxb_slot b (unat (ui_acid (pdu_info pdu)), cw) = rx_empty_slot"
  shows "is_ok (rxb_insertPdu now cw pdu b)"
proof -
  let ?p = "rb_processes b ! unat (ui_acid (pdu_info pdu))"
  note get = rx_get[OF assms(1,2)]
  have "is_ok (rx_insertPdu now cw pdu ?p)"
    using rx_insertPdu_succeeds_iff[of ?p cw now pdu] get assms(3)
    by (simp add: rxb_slot_eq rx_empty_slot_def)
  then show ?thesis using get by (auto simp: rxb_insertPdu_def on_rx_def is_ok_iff)
qed

text \<open>
  After a turn of the MAC main loop in which the evaluation of every buffered PDU is over, every
  unit of the buffer is empty, so that any PDU for an existing process and codeword, be it new data
  or a retransmission, is accepted.
\<close>
theorem rx_turn_frees_units:
  assumes "rxb_reachable b" "rxb_countable b"
    and "list_all (\<lambda>ic. slot_has RXHARQ_PDU_EVALUATING (rxb_slot b ic) \<longrightarrow> slot_evaluated now (rxb_slot b ic))
           (rx_units (rb_numHarqProcesses b))"
  shows "\<exists>b1 fbs ret ems b2 n. rxb_extractCorrectPdus now b = Inr (b1, fbs, ret, ems) \<and>
    rxb_purgeCorruptedPdus b1 = Inr (b2, n) \<and>
    list_all (\<lambda>ic. rxb_slot b2 ic = rx_empty_slot) (rx_units (rb_numHarqProcesses b)) \<and>
    (\<forall>pdu t. list_all (\<lambda>ic. fst ic = unat (ui_acid (pdu_info pdu)) \<longrightarrow> is_ok (rxb_insertPdu t (snd ic) pdu b2))
       (rx_units (rb_numHarqProcesses b)))"
proof -
  have ok: "rxb_ok b" using rxb_reachable_ok[OF assms(1)] .
  let ?us = "rx_units (rb_numHarqProcesses b)"
  obtain b1 fbs ret ems where r1: "rxb_extractCorrectPdus now b = Inr (b1, fbs, ret, ems)"
    and ok1: "rxb_ok b1" "rb_numHarqProcesses b1 = rb_numHarqProcesses b"
    and d1: "\<forall>jd. rxb_unit b jd \<longrightarrow>
       (if slot_deliverable now (rxb_slot b jd) then rxb_slot b1 jd = rx_empty_slot
        else if slot_evaluated now (rxb_slot b jd) then slot_decided (rxb_slot b jd) (rxb_slot b1 jd)
        else rxb_slot b1 jd = rxb_slot b jd)"
    using extractCorrectPdus_effect[OF ok assms(2), of now] by blast
  obtain b2 n where r2: "rxb_purgeCorruptedPdus b1 = Inr (b2, n)"
    and ok2: "rxb_ok b2" "rb_numHarqProcesses b2 = rb_numHarqProcesses b1"
    and d2: "\<forall>jd. rxb_unit b1 jd \<longrightarrow>
       rxb_slot b2 jd = (if slot_has RXHARQ_PDU_CORRUPTED (rxb_slot b1 jd) then rx_empty_slot
                         else rxb_slot b1 jd)"
    using purge_effect[OF ok1(1)] by blast
  have un: "rxb_unit b1 ic = rxb_unit b ic" "rxb_unit b2 ic = rxb_unit b ic" for ic
    using ok1(2) ok2(2) by (simp_all add: rxb_unit_def)
  have us: "rxb_unit b ic" if "ic \<in> set ?us" for ic using that rx_units_set[of ic b] by blast
  have e: "rxb_slot b2 ic = rx_empty_slot" if "ic \<in> set ?us" for ic
  proof -
    let ?s = "rxb_slot b ic" and ?s1 = "rxb_slot b1 ic"
    have u: "rxb_unit b ic" using us that by blast
    have ev: "slot_has RXHARQ_PDU_EVALUATING ?s \<Longrightarrow> slot_evaluated now ?s"
      using assms(3) that by (auto simp: list_all_iff)
    have "slot_has RXHARQ_PDU_EMPTY ?s1 \<or> slot_has RXHARQ_PDU_CORRUPTED ?s1"
    proof (cases "slot_deliverable now ?s")
      case True
      then show ?thesis using d1[rule_format, OF u] by (simp add: slot_has_def rx_empty_slot_def)
    next
      case nd: False
      show ?thesis
      proof (cases "slot_evaluated now ?s")
        case True
        then show ?thesis using d1[rule_format, OF u] nd
          by (auto simp: slot_decided_def slot_deliverable_def slot_has_def rx_empty_slot_def split: if_splits)
      next
        case False
        then have "?s1 = ?s" using d1[rule_format, OF u] nd by simp
        then show ?thesis using nd ev False
          by (cases "fst (snd ?s)") (auto simp: slot_has_def slot_deliverable_def)
      qed
    qed
    then show ?thesis
      using d2[rule_format, of ic] un(1)[of ic] u rx_slot_ok_empty[OF rxb_slot_ok[OF ok1(1)], of ic]
      by (cases "slot_has RXHARQ_PDU_CORRUPTED ?s1") simp_all
  qed
  have i: "is_ok (rxb_insertPdu t (snd ic) pdu b2)"
    if "ic \<in> set ?us" "fst ic = unat (ui_acid (pdu_info pdu))" for ic pdu t
  proof -
    have "ic = (unat (ui_acid (pdu_info pdu)), snd ic)" using that(2) by (metis prod.collapse)
    then show ?thesis
      using rxb_insert_empty[OF ok2(1), of pdu "snd ic" t] e[OF that(1)] us[OF that(1)] un(2)[of ic] by metis
  qed
  show ?thesis using r1 r2 e i by (auto simp: list_all_iff simp del: split_paired_All)
qed

section \<open>The loop between the two sides\<close>

text \<open>The physical layer sets the result of the decoding in the control information.\<close>

definition decoded :: "bool \<Rightarrow> mac_pdu \<Rightarrow> mac_pdu" where
  "decoded r pdu = pdu\<lparr>pdu_info := (pdu_info pdu)\<lparr>ui_deciderResult := r\<rparr>\<rparr>"

lemma ucast_codeword: "unat (cw :: codeword) < MAX_CODEWORDS \<Longrightarrow> unat (ucast cw :: u8) = unat cw"
  by (auto simp: codeword_cases)

lemma stamped_labels:
  assumes "unit_labelled i u" "unit_has_pdu u" "unit_isMarked u"
  shows "pdu_id (stamped_pdu u) = ut_pduId u \<and> ui_acid (pdu_info (stamped_pdu u)) = of_nat i \<and>
    ui_direction (pdu_info (stamped_pdu u)) = ui_direction (pdu_info (the (ut_pdu u)))"
proof -
  obtain p where "ut_pdu u = Some p"
    using unit_has_pduD[OF assms(2)] assms(3) by (auto simp: unit_test_defs)
  then show ?thesis using assms(1) by (auto simp: unit_labelled_def stamped_pdu_def Let_def)
qed

text \<open>
  C11: A PDU sent by \<open>sendSelectedDown\<close> and received into the free unit of the same process and
  codeword is answered, 3 ms after its reception, by a feedback that the transmitting buffer accepts
  for the very unit that sent it: after an ACK this unit is empty, and after a NACK it is ready for
  retransmission with its PDU, unless this was the last transmission allowed.
\<close>
theorem harq_round_trip:
  assumes "buffer_reachable bt" "bt_selectedAcid bt = a" "a \<noteq> HARQ_NONE"
    and "unat cw < MAX_CODEWORDS"
  defines "u \<equiv> pt_units (bt_processes bt ! unat a) ! unat cw"
  assumes "unit_isMarked u" "ui_direction (pdu_info (the (ut_pdu u))) \<noteq> UNKNOWN_DIRECTION"
    and "rxb_reachable br" "unat a < rb_numHarqProcesses br" "rxb_slot br (unat a, cw) = rx_empty_slot"
  shows "\<exists>bt1 sent br1 br2 fbs fb bt2 ems.
    buffer_sendSelectedDown t0 bt = Inr (bt1, sent) \<and> stamped_pdu u \<in> set sent \<and>
    rxb_insertPdu t cw (decoded r (stamped_pdu u)) br = Inr br1 \<and>
    rxb_sendFeedback (t + HARQ_FB_EVALUATION_INTERVAL) br1 = Inr (br2, fbs) \<and>
    fb \<in> set fbs \<and> fb_result fb = r \<and>
    buffer_receiveHarqFeedback fb bt1 = Inr (bt2, ems) \<and>
    (let u2 = pt_units (bt_processes bt2 ! unat a) ! unat cw
     in if r \<or> (ucast (ut_transmissions u + 1) :: u32) = ut_maxHarqRtx u + 1 then unit_isEmpty u2
        else unit_isReady u2 \<and> ut_pdu u2 = Some (stamped_pdu u))"
proof -
  have okt: "buffer_ok bt" using buffer_reachable_ok[OF assms(1)] .
  have i: "unat a < length (bt_processes bt)" using okt assms(2,3) by (auto simp: buffer_ok_def)
  let ?p = "bt_processes bt ! unat a"
  have okp: "process_ok ?p" using buffer_ok_process[OF okt i] .
  have j: "unat cw < length (pt_units ?p)" using assms(4) process_ok_length[OF okp] by (simp add: MAX_CODEWORDS_def)
  have "unit_labelled (unat a) u"
    using buffer_reachable_labelled[OF assms(1)] i j by (simp add: buffer_labelled_def process_labelled_def u_def)
  moreover have "unit_has_pdu u" using okp j by (simp add: process_ok_def u_def)
  ultimately have l: "pdu_id (stamped_pdu u) = ut_pduId u" "ui_acid (pdu_info (stamped_pdu u)) = a"
    "ui_direction (pdu_info (stamped_pdu u)) \<noteq> UNKNOWN_DIRECTION"
    using stamped_labels assms(6,7) by auto
  obtain bt1 where bt1: "buffer_sendSelectedDown t0 bt = Inr (bt1, map stamped_pdu (filter unit_isMarked (pt_units ?p)))"
    "pt_units (bt_processes bt1 ! unat a) = map (\<lambda>u. if unit_isMarked u then sent_unit t0 u else u) (pt_units ?p)"
    using buffer_sendSelectedDown_full[OF okt, of t0] assms(2,3) by blast
  have u1: "pt_units (bt_processes bt1 ! unat a) ! unat cw = sent_unit t0 u"
    using bt1(2) j assms(6) by (simp add: u_def)
  have reach1: "buffer_reachable bt1" using br_more[OF assms(1) bs_send[OF bt1(1)]] .
  have len1: "unat a < length (bt_processes bt1)"
    using bt1(1) i by (auto simp: buffer_sendSelectedDown_def on_process_Inr split: if_splits)
  have sent: "stamped_pdu u \<in> set (map stamped_pdu (filter unit_isMarked (pt_units ?p)))"
    using j assms(6) by (auto simp: u_def)
  have okr: "rxb_ok br" using rxb_reachable_ok[OF assms(8)] .
  let ?q = "decoded r (stamped_pdu u)"
  have ac: "ui_acid (pdu_info ?q) = a" using l by (simp add: decoded_def)
  have un: "rxb_unit br (unat a, cw)" using assms(4,9) by (simp add: rxb_unit_def)
  obtain br1 where br1: "rxb_insertPdu t cw ?q br = Inr br1"
    using rxb_insert_empty[OF okr, of ?q cw t] un assms(10) unfolding ac is_ok_iff by blast
  have b1: "rxb_ok br1" "rb_numHarqProcesses br1 = rb_numHarqProcesses br"
    "rxb_slot br1 (unat a, cw) = (Some ?q, RXHARQ_PDU_EVALUATING, t, r)"
    using rxb_insertPdu_Inr[OF br1 okr] unfolding ac by (auto simp: rxb_moved_def decoded_def)
  let ?now = "t + HARQ_FB_EVALUATION_INTERVAL"
  let ?fb = "unit_feedback br1 (unat a, cw)"
  obtain br2 where br2: "rxb_sendFeedback ?now br1 = Inr (br2, map (unit_feedback br1)
      (filter (\<lambda>ic. slot_evaluated ?now (rxb_slot br1 ic)) (rx_units (rb_numHarqProcesses br1))))"
    using sendFeedback_effect[OF b1(1), of ?now] by blast
  have "(unat a, cw) \<in> set (rx_units (rb_numHarqProcesses br1))"
    using un b1(2) by (simp add: rx_units_set rxb_unit_def)
  then have fb: "?fb \<in> set (map (unit_feedback br1)
      (filter (\<lambda>ic. slot_evaluated ?now (rxb_slot br1 ic)) (rx_units (rb_numHarqProcesses br1))))"
    using b1(3) by (auto simp: slot_evaluated_def)
  have "rp_acid (rb_processes br1 ! unat a) = a" using rxb_ok_acid[OF b1(1)] assms(9) b1(2) by simp
  then have f: "fb_acid ?fb = a" "unat (fb_cw ?fb) = unat cw" "fb_result ?fb = r" "fb_pduId ?fb = ut_pduId u"
    using b1(3) l(1) ucast_codeword[OF assms(4)]
    by (simp_all add: unit_feedback_def slot_feedback_def slot_pdu_def decoded_def)
  have s: "ut_status (sent_unit t0 u) = TXHARQ_PDU_WAITING" "ut_pduId (sent_unit t0 u) = ut_pduId u"
    "ut_pdu (sent_unit t0 u) = Some (stamped_pdu u)" "ut_maxHarqRtx (sent_unit t0 u) = ut_maxHarqRtx u"
    "ut_transmissions (sent_unit t0 u) = ut_transmissions u + 1"
    by (simp_all add: sent_unit_def)
  obtain bt2 ems where bt2: "buffer_receiveHarqFeedback ?fb bt1 = Inr (bt2, ems)"
    "let u2 = pt_units (bt_processes bt2 ! unat a) ! unat cw
     in if r \<or> (ucast (ut_transmissions u + 1) :: u32) = ut_maxHarqRtx u + 1 then unit_isEmpty u2
        else unit_isReady u2 \<and> ut_pdu u2 = Some (stamped_pdu u)"
    using feedback_accepted[OF reach1, of ?fb] len1 assms(4) u1 f s l(3)
    by (auto simp: Let_def MAX_CODEWORDS_def)
  show ?thesis using bt1(1) sent br1 br2 fb f(3) bt2 by blast
qed

section \<open>The shared transmission counter\<close>

text \<open>A PDU of process 0 as the receiver gets it: first transmission or not, decoded or not.\<close>

definition ex_rx_pdu :: "u8 \<Rightarrow> bool \<Rightarrow> bool \<Rightarrow> mac_pdu" where
  "ex_rx_pdu c ndi r = (ex_pdu c)\<lparr>pdu_info := (ex_info c)\<lparr>ui_ndi := ndi, ui_deciderResult := r\<rparr>\<rparr>"

text \<open>
  Both codewords are received corrupted at 0 ms and, retransmitted, at 8 ms; feedback is sent 3 ms
  after each reception.  \<open>maxHarqRtx\<close> is 3, so that each PDU may be transmitted four times.
\<close>

definition ex_rx_run :: "harq_buffer_rx result" where
  "ex_rx_run =
     bindE (rxb_insertPdu 0 0 (ex_rx_pdu 0 True False) (rxb_new 1 UE 1025 3)) (\<lambda>b1.
     bindE (rxb_insertPdu 0 1 (ex_rx_pdu 1 True False) b1) (\<lambda>b2.
     bindE (rxb_sendFeedback (3 * simtime_ms) b2) (\<lambda>(b3, _).
     bindE (rxb_insertPdu (8 * simtime_ms) 0 (ex_rx_pdu 0 False False) b3) (\<lambda>b4.
     bindE (rxb_insertPdu (8 * simtime_ms) 1 (ex_rx_pdu 1 False False) b4) (\<lambda>b5.
     bindE (rxb_sendFeedback (11 * simtime_ms) b5) (\<lambda>(b6, _). Inr b6))))))"

text \<open>
  The receiving process counts the transmissions of all its codewords in one counter: with a
  limit of three retransmissions, two PDUs received on both codewords of a process are taken for
  exhausted after their second transmission, when the counter has reached four, and the first
  codeword is reset although its PDU may still be sent twice.
\<close>
theorem rx_counter_shared:
  "case ex_rx_run of Inl _ \<Rightarrow> False
   | Inr b \<Rightarrow> rp_maxHarqRtx (rb_processes b ! 0) = 3 \<and>
       rp_status (rb_processes b ! 0) = [RXHARQ_PDU_EMPTY, RXHARQ_PDU_CORRUPTED]"
  by code_simp

section \<open>Instances\<close>

definition ex_r0 :: harq_buffer_rx where
  "ex_r0 = rxb_new 2 UE 1025 3"

definition ex_r1 :: harq_buffer_rx where
  "ex_r1 = projr (rxb_insertPdu 0 0 (ex_rx_pdu 0 True True) ex_r0)"

definition ex_r2 :: harq_buffer_rx where
  "ex_r2 = projr (rxb_insertPdu 0 1 (ex_rx_pdu 1 True False) ex_r1)"

lemma ex_rx1: "rxb_insertPdu 0 0 (ex_rx_pdu 0 True True) ex_r0 = Inr ex_r1"
  by (rule is_ok_projr[of "rxb_insertPdu 0 0 (ex_rx_pdu 0 True True) ex_r0", folded ex_r1_def]) code_simp

lemma ex_rx2: "rxb_insertPdu 0 1 (ex_rx_pdu 1 True False) ex_r1 = Inr ex_r2"
  by (rule is_ok_projr[of "rxb_insertPdu 0 1 (ex_rx_pdu 1 True False) ex_r1", folded ex_r2_def]) code_simp

lemma ex_r_reachable: "rxb_reachable ex_r0" "rxb_reachable ex_r2"
proof -
  show 0: "rxb_reachable ex_r0" unfolding ex_r0_def by (rule rr_start)
  show "rxb_reachable ex_r2" using rr_more[OF rr_more[OF 0 rs_insert[OF ex_rx1]] rs_insert[OF ex_rx2]] .
qed

theorem rx_feedback_exact_witness:
  "\<exists>b' fbs. rxb_sendFeedback (3 * simtime_ms) ex_r2 = Inr (b', fbs) \<and> map fb_result fbs = [True, False]"
proof -
  have "map fb_result (map (unit_feedback ex_r2)
      (filter (\<lambda>ic. slot_evaluated (3 * simtime_ms) (rxb_slot ex_r2 ic)) (rx_units (rb_numHarqProcesses ex_r2))))
    = [True, False]" by code_simp
  then show ?thesis using rx_feedback_exact[OF ex_r_reachable(2), of "3 * simtime_ms"] by metis
qed

theorem rx_delivers_exactly_correct_witness:
  "\<exists>b' fbs ems. rxb_extractCorrectPdus (3 * simtime_ms) ex_r2 = Inr (b', fbs, [ex_rx_pdu 0 True True], ems)"
proof -
  have c: "rxb_countable ex_r2" by code_simp
  have "map (\<lambda>ic. slot_pdu (rxb_slot ex_r2 ic)) (filter (\<lambda>ic. slot_deliverable (3 * simtime_ms) (rxb_slot ex_r2 ic))
      (rx_units (rb_numHarqProcesses ex_r2))) = [ex_rx_pdu 0 True True]" by code_simp
  then show ?thesis
    using rx_delivers_exactly_correct[OF ex_r_reachable(2) c, of "3 * simtime_ms"] by metis
qed

theorem rx_turn_frees_units_witness:
  "\<exists>b1 fbs ret ems b2 n. rxb_extractCorrectPdus (3 * simtime_ms) ex_r2 = Inr (b1, fbs, ret, ems) \<and>
    rxb_purgeCorruptedPdus b1 = Inr (b2, n)"
proof -
  have c: "rxb_countable ex_r2"
    "list_all (\<lambda>ic. slot_has RXHARQ_PDU_EVALUATING (rxb_slot ex_r2 ic) \<longrightarrow>
       slot_evaluated (3 * simtime_ms) (rxb_slot ex_r2 ic)) (rx_units (rb_numHarqProcesses ex_r2))"
    by code_simp+
  show ?thesis using rx_turn_frees_units[OF ex_r_reachable(2) c] by blast
qed

theorem harq_round_trip_witness:
  "\<exists>bt1 sent br1 br2 fbs fb bt2 ems.
    buffer_sendSelectedDown 0 ex_b2 = Inr (bt1, sent) \<and>
    rxb_insertPdu 1 1 (decoded False (stamped_pdu (pt_units (bt_processes ex_b2 ! unat (0 :: acid)) ! unat (1 :: codeword)))) ex_r0
      = Inr br1 \<and>
    rxb_sendFeedback (1 + HARQ_FB_EVALUATION_INTERVAL) br1 = Inr (br2, fbs) \<and>
    fb \<in> set fbs \<and> buffer_receiveHarqFeedback fb bt1 = Inr (bt2, ems)"
proof -
  let ?u = "pt_units (bt_processes ex_b2 ! unat (0 :: acid)) ! unat (1 :: codeword)"
  have h: "bt_selectedAcid ex_b2 = 0" "(0 :: acid) \<noteq> HARQ_NONE" "unat (1 :: codeword) < MAX_CODEWORDS"
    "unit_isMarked ?u" "ui_direction (pdu_info (the (ut_pdu ?u))) \<noteq> UNKNOWN_DIRECTION"
    "unat (0 :: acid) < rb_numHarqProcesses ex_r0" "rxb_slot ex_r0 (unat (0 :: acid), 1) = rx_empty_slot"
    by code_simp+
  show ?thesis
    using harq_round_trip[where r = False and t = 1 and t0 = 0,
        OF ex_reachable(3) h(1-5) ex_r_reachable(1) h(6,7)] by blast
qed

end
