(* ===== verification/ConnectionsTable.thy ===== *)
theory ConnectionsTable
  imports LteTypes
begin

text \<open>
  The table of the connections of a node (\<^verbatim>\<open>simulte/src/stack/pdcp_rrc/ConnectionsTable.cc\<close>): a hash
  table of fixed size with linear probing that maps the 4-tuple of a flow to its logical connection
  identifier.  Entries are never removed.  The loops have no bound: \<open>None\<close> is a probe that never ends.
\<close>

unbundle bit_operations_syntax

section \<open>The table\<close>

definition TABLE_SIZE :: nat where
  "TABLE_SIZE = 2048"

text \<open>The 4-tuple, and an entry; the identifier \<open>0xFFFF\<close> marks a free entry.\<close>

type_synonym conn_key = "u32 \<times> u32 \<times> u16 \<times> u16"

record conn_entry =
  ce_srcAddr :: u32
  ce_dstAddr :: u32
  ce_srcPort :: u16
  ce_dstPort :: u16
  ce_lcid :: u16

type_synonym conn_table = "conn_entry list"

definition free_entry :: conn_entry where
  "free_entry = \<lparr>ce_srcAddr = - 1, ce_dstAddr = - 1, ce_srcPort = - 1, ce_dstPort = - 1, ce_lcid = 0xFFFF\<rparr>"

definition conn_table_new :: conn_table where
  "conn_table_new = replicate TABLE_SIZE free_entry"

definition hash_func :: "conn_key \<Rightarrow> nat" where
  "hash_func k = (case k of (srcAddr, dstAddr, srcPort, dstPort) \<Rightarrow>
     unat (ucast srcPort OR ucast dstPort OR srcAddr OR dstAddr) mod TABLE_SIZE)"

definition entry_key :: "conn_entry \<Rightarrow> conn_key" where
  "entry_key e = (ce_srcAddr e, ce_dstAddr e, ce_srcPort e, ce_dstPort e)"

partial_function (option) find_loop :: "conn_table \<Rightarrow> conn_key \<Rightarrow> nat \<Rightarrow> u16 result option" where
  "find_loop ht k hashIndex =
     (if ce_lcid (ht ! hashIndex) = 0xFFFF then Some (Inr 0xFFFF)
      else if entry_key (ht ! hashIndex) = k then Some (Inr (ce_lcid (ht ! hashIndex)))
      else find_loop ht k ((hashIndex + 1) mod TABLE_SIZE))"

definition find_entry :: "conn_key \<Rightarrow> conn_table \<Rightarrow> u16 result" where
  "find_entry k ht = returns (find_loop ht k (hash_func k))"

partial_function (option) free_loop :: "conn_table \<Rightarrow> nat \<Rightarrow> nat result option" where
  "free_loop ht hashIndex =
     (if ce_lcid (ht ! hashIndex) \<noteq> 0xFFFF then free_loop ht ((hashIndex + 1) mod TABLE_SIZE)
      else Some (Inr hashIndex))"

definition create_entry :: "conn_key \<Rightarrow> u16 \<Rightarrow> conn_table \<Rightarrow> conn_table result" where
  "create_entry k lcid ht = (case k of (srcAddr, dstAddr, srcPort, dstPort) \<Rightarrow>
     bindE (returns (free_loop ht (hash_func k))) (\<lambda>i.
       Inr (ht[i := \<lparr>ce_srcAddr = srcAddr, ce_dstAddr = dstAddr, ce_srcPort = srcPort, ce_dstPort = dstPort,
                     ce_lcid = lcid\<rparr>])))"

section \<open>Probing\<close>

text \<open>The slot after \<open>n\<close> steps, and the steps from one slot to another.\<close>

definition probe :: "nat \<Rightarrow> nat \<Rightarrow> nat" where
  "probe h n = (h + n) mod TABLE_SIZE"

definition steps :: "nat \<Rightarrow> nat \<Rightarrow> nat" where
  "steps h i = (i + TABLE_SIZE - h) mod TABLE_SIZE"

lemma probe_less [simp]: "probe h n < TABLE_SIZE"
  by (simp add: probe_def TABLE_SIZE_def)

lemma hash_less [simp]: "hash_func k < TABLE_SIZE"
  by (simp add: hash_func_def TABLE_SIZE_def split: prod.split)

lemma probe_0: "h < TABLE_SIZE \<Longrightarrow> probe h 0 = h"
  by (simp add: probe_def)

lemma probe_Suc: "(probe h n + 1) mod TABLE_SIZE = probe h (Suc n)"
  by (simp add: probe_def mod_Suc_eq)

lemma steps_less: "steps h i < TABLE_SIZE"
  by (simp add: steps_def TABLE_SIZE_def)

lemma probe_steps:
  assumes "h < TABLE_SIZE" "i < TABLE_SIZE" shows "probe h (steps h i) = i"
proof -
  have "(h + (i + TABLE_SIZE - h)) mod TABLE_SIZE = i" using assms by simp
  then show ?thesis unfolding probe_def steps_def by (simp add: mod_add_right_eq)
qed

lemma probe_inj:
  assumes "h < TABLE_SIZE" "m < TABLE_SIZE" "n < TABLE_SIZE" "probe h m = probe h n" shows "m = n"
  using assms unfolding probe_def by (auto simp: mod_if split: if_splits)

definition occupied :: "conn_entry \<Rightarrow> bool" where
  "occupied e \<longleftrightarrow> ce_lcid e \<noteq> 0xFFFF"

lemma find_loop_skip:
  assumes "\<And>i. i < n \<Longrightarrow> occupied (ht ! probe h i) \<and> entry_key (ht ! probe h i) \<noteq> k"
  shows "find_loop ht k (probe h 0) = find_loop ht k (probe h n)"
  using assms
proof (induction n)
  case (Suc n)
  have "find_loop ht k (probe h n) = find_loop ht k (probe h (Suc n))"
    using Suc.prems[of n] by (subst find_loop.simps) (simp only: occupied_def probe_Suc if_False if_True lessI)
  then show ?case using Suc by simp
qed simp

lemma free_loop_skip:
  assumes "\<And>i. i < n \<Longrightarrow> occupied (ht ! probe h i)"
  shows "free_loop ht (probe h 0) = free_loop ht (probe h n)"
  using assms
proof (induction n)
  case (Suc n)
  have "free_loop ht (probe h n) = free_loop ht (probe h (Suc n))"
    using Suc.prems[of n] by (subst free_loop.simps) (simp only: occupied_def probe_Suc not_False_eq_True if_True lessI)
  then show ?case using Suc by simp
qed simp

text \<open>When every slot is occupied by another key, neither loop ends.\<close>

lemma find_loop_returns:
  assumes "find_loop ht k i = Some r" "i < TABLE_SIZE"
  shows "\<exists>j < TABLE_SIZE. \<not> occupied (ht ! j) \<or> entry_key (ht ! j) = k"
proof -
  have "i < TABLE_SIZE \<longrightarrow> (\<exists>j < TABLE_SIZE. \<not> occupied (ht ! j) \<or> entry_key (ht ! j) = k)"
  proof (rule find_loop.raw_induct[where P = "\<lambda>ht k i r. i < TABLE_SIZE \<longrightarrow> (\<exists>j < TABLE_SIZE. \<not> occupied (ht ! j) \<or> entry_key (ht ! j) = k)",
        OF _ assms(1)], goal_cases)
    case (1 f ht k i r)
    show ?case
    proof
      assume i: "i < TABLE_SIZE"
      show "\<exists>j < TABLE_SIZE. \<not> occupied (ht ! j) \<or> entry_key (ht ! j) = k"
      proof (cases "occupied (ht ! i) \<and> entry_key (ht ! i) \<noteq> k")
        case True
        then have "f ht k ((i + 1) mod TABLE_SIZE) = Some r" using 1(2) by (simp add: occupied_def)
        from 1(1)[OF this] show ?thesis by (simp add: TABLE_SIZE_def)
      qed (use i in blast)
    qed
  qed
  then show ?thesis using assms(2) by blast
qed

lemma find_loop_full:
  assumes "\<forall>i < TABLE_SIZE. occupied (ht ! i) \<and> entry_key (ht ! i) \<noteq> k" "i < TABLE_SIZE"
  shows "find_loop ht k i = None"
  using find_loop_returns[of ht k i] assms by (cases "find_loop ht k i") auto

section \<open>What the table promises\<close>

text \<open>The map that the table stands for; the invariant: every key once, found by probing from its hash.\<close>

definition connections :: "conn_table \<Rightarrow> conn_key \<Rightarrow> u16 option" where
  "connections ht = map_of (map (\<lambda>e. (entry_key e, ce_lcid e)) (filter occupied ht))"

definition table_ok :: "conn_table \<Rightarrow> bool" where
  "table_ok ht \<longleftrightarrow> length ht = TABLE_SIZE \<and>
     (\<forall>i < TABLE_SIZE. occupied (ht ! i) \<longrightarrow>
        (\<forall>n < steps (hash_func (entry_key (ht ! i))) i. occupied (ht ! probe (hash_func (entry_key (ht ! i))) n))) \<and>
     (\<forall>i < TABLE_SIZE. \<forall>j < TABLE_SIZE. occupied (ht ! i) \<longrightarrow> occupied (ht ! j) \<longrightarrow>
        entry_key (ht ! i) = entry_key (ht ! j) \<longrightarrow> i = j)"

lemma connections_iff:
  assumes "table_ok ht"
  shows "connections ht k = Some l \<longleftrightarrow> (\<exists>i < TABLE_SIZE. occupied (ht ! i) \<and> entry_key (ht ! i) = k \<and> ce_lcid (ht ! i) = l)"
proof
  assume "connections ht k = Some l"
  then have "(k, l) \<in> set (map (\<lambda>e. (entry_key e, ce_lcid e)) (filter occupied ht))"
    unfolding connections_def by (rule map_of_SomeD)
  then show "\<exists>i < TABLE_SIZE. occupied (ht ! i) \<and> entry_key (ht ! i) = k \<and> ce_lcid (ht ! i) = l"
    using assms by (auto simp: table_ok_def in_set_conv_nth)
next
  assume "\<exists>i < TABLE_SIZE. occupied (ht ! i) \<and> entry_key (ht ! i) = k \<and> ce_lcid (ht ! i) = l"
  then obtain i where i: "i < TABLE_SIZE" "occupied (ht ! i)" "entry_key (ht ! i) = k" "ce_lcid (ht ! i) = l" by blast
  have len: "length ht = TABLE_SIZE" using assms by (simp add: table_ok_def)
  have "(k, l) \<in> set (map (\<lambda>e. (entry_key e, ce_lcid e)) (filter occupied ht))"
    using i len nth_mem[of i ht] by (auto intro!: image_eqI[of _ _ "ht ! i"])
  from weak_map_of_SomeI[OF this] obtain l' where l': "connections ht k = Some l'"
    unfolding connections_def by blast
  then have "(k, l') \<in> set (map (\<lambda>e. (entry_key e, ce_lcid e)) (filter occupied ht))"
    unfolding connections_def by (rule map_of_SomeD)
  then obtain j where j: "j < TABLE_SIZE" "occupied (ht ! j)" "entry_key (ht ! j) = k" "ce_lcid (ht ! j) = l'"
    using len by (auto simp: in_set_conv_nth)
  have "i = j" using assms i(1-3) j(1-3) unfolding table_ok_def by metis
  then show "connections ht k = Some l" using l' i(4) j(4) by simp
qed

lemma option_ext: "(\<And>v. a = Some v \<longleftrightarrow> b = Some v) \<Longrightarrow> a = b"
  by (cases a; cases b) auto

lemma connections_None:
  assumes "table_ok ht" "connections ht k = None" "i < TABLE_SIZE" "occupied (ht ! i)"
  shows "entry_key (ht ! i) \<noteq> k"
  using connections_iff[OF assms(1), of k "ce_lcid (ht ! i)"] assms(2-4) by auto

text \<open>The first free slot on the way from a hash.\<close>

lemma first_free:
  assumes "j < TABLE_SIZE" "\<not> occupied (ht ! j)" "h < TABLE_SIZE"
  shows "\<exists>n < TABLE_SIZE. \<not> occupied (ht ! probe h n) \<and> (\<forall>i < n. occupied (ht ! probe h i))"
proof -
  let ?P = "\<lambda>n. \<not> occupied (ht ! probe h n)"
  have p: "?P (steps h j)" using probe_steps[OF assms(3,1)] assms(2) by simp
  have "?P (LEAST n. ?P n)" using p by (rule LeastI)
  moreover have "(LEAST n. ?P n) < TABLE_SIZE" using Least_le[of ?P, OF p] steps_less[of h j] by linarith
  moreover have "\<forall>i < (LEAST n. ?P n). occupied (ht ! probe h i)" using not_less_Least by blast
  ultimately show ?thesis by blast
qed

lemma find_entry_known:
  assumes ok: "table_ok ht" and k: "connections ht k = Some l"
  shows "find_entry k ht = Inr l"
proof -
  obtain i where i: "i < TABLE_SIZE" "occupied (ht ! i)" "entry_key (ht ! i) = k" "ce_lcid (ht ! i) = l"
    using connections_iff[OF ok] k by blast
  let ?h = "hash_func k"
  have p: "probe ?h (steps ?h i) = i" by (rule probe_steps) (simp_all add: i(1))
  have "find_loop ht k (probe ?h 0) = find_loop ht k (probe ?h (steps ?h i))"
  proof (rule find_loop_skip)
    fix n assume n: "n < steps ?h i"
    have o: "occupied (ht ! probe ?h n)" using ok i n unfolding table_ok_def by blast
    have "entry_key (ht ! probe ?h n) \<noteq> k"
    proof
      assume "entry_key (ht ! probe ?h n) = k"
      then have "probe ?h n = i" using ok o i unfolding table_ok_def by (metis probe_less)
      then have "n = steps ?h i" using probe_inj[of ?h n "steps ?h i"] p n steps_less[of ?h i] by simp
      then show False using n by simp
    qed
    then show "occupied (ht ! probe ?h n) \<and> entry_key (ht ! probe ?h n) \<noteq> k" using o by blast
  qed
  also have "\<dots> = Some (Inr l)" unfolding p using i by (subst find_loop.simps) (simp add: occupied_def)
  finally show ?thesis by (simp add: find_entry_def probe_0 returns_def)
qed

lemma find_entry_unknown:
  assumes ok: "table_ok ht" and k: "connections ht k = None"
  shows "find_entry k ht = (if \<exists>j < TABLE_SIZE. \<not> occupied (ht ! j) then Inr 0xFFFF else Inl NoReturn)"
proof (cases "\<exists>j < TABLE_SIZE. \<not> occupied (ht ! j)")
  case True
  then obtain j where j: "j < TABLE_SIZE" "\<not> occupied (ht ! j)" by blast
  let ?h = "hash_func k"
  obtain n where n: "n < TABLE_SIZE" "\<not> occupied (ht ! probe ?h n)" "\<forall>i < n. occupied (ht ! probe ?h i)"
    using first_free[OF j hash_less] by blast
  have "find_loop ht k (probe ?h 0) = find_loop ht k (probe ?h n)"
    using n(3) connections_None[OF ok k] by (intro find_loop_skip) auto
  also have "\<dots> = Some (Inr 0xFFFF)" using n(2) by (subst find_loop.simps) (simp add: occupied_def)
  finally show ?thesis using True by (simp add: find_entry_def probe_0 returns_def)
next
  case False
  have "find_loop ht k (hash_func k) = None"
    by (rule find_loop_full) (use False connections_None[OF ok k] in auto)
  then show ?thesis using False by (simp add: find_entry_def returns_def)
qed

lemma create_entry_ok:
  assumes ok: "table_ok ht" and k: "connections ht k = None" and l: "l \<noteq> 0xFFFF"
    and j: "j < TABLE_SIZE" "\<not> occupied (ht ! j)"
  shows "\<exists>ht'. create_entry k l ht = Inr ht' \<and> table_ok ht' \<and> connections ht' = (connections ht)(k \<mapsto> l)"
proof -
  let ?h = "hash_func k"
  obtain n where n: "n < TABLE_SIZE" "\<not> occupied (ht ! probe ?h n)" "\<forall>i < n. occupied (ht ! probe ?h i)"
    using first_free[OF j hash_less] by blast
  let ?i = "probe ?h n"
  obtain s d sp dp where kk: "k = (s, d, sp, dp)" by (cases k)
  define e where "e = \<lparr>ce_srcAddr = s, ce_dstAddr = d, ce_srcPort = sp, ce_dstPort = dp, ce_lcid = l\<rparr>"
  have e: "entry_key e = k" "occupied e" "ce_lcid e = l" using l by (simp_all add: e_def entry_key_def kk occupied_def)
  have len: "length ht = TABLE_SIZE" using ok by (simp add: table_ok_def)
  have "free_loop ht (probe ?h 0) = free_loop ht ?i" using n(3) by (intro free_loop_skip) auto
  also have "\<dots> = Some (Inr ?i)" using n(2) by (subst free_loop.simps) (simp add: occupied_def)
  finally have run: "create_entry k l ht = Inr (ht[?i := e])"
    by (simp add: create_entry_def probe_0 returns_def kk e_def)
  have nth: "ht[?i := e] ! x = (if x = ?i then e else ht ! x)" for x using len by (simp add: nth_list_update)
  have o: "occupied (ht[?i := e] ! x)" if "occupied (ht ! x)" for x using that e(2) by (simp add: nth)
  have st: "steps ?h ?i = n"
    using probe_inj[of ?h "steps ?h ?i" n] probe_steps[of ?h ?i] steps_less n(1) by simp
  have ok': "table_ok (ht[?i := e])"
    unfolding table_ok_def
  proof (intro conjI allI impI)
    show "length (ht[?i := e]) = TABLE_SIZE" using len by simp
  next
    fix x m
    assume x: "x < TABLE_SIZE" "occupied (ht[?i := e] ! x)"
      and m: "m < steps (hash_func (entry_key (ht[?i := e] ! x))) x"
    show "occupied (ht[?i := e] ! probe (hash_func (entry_key (ht[?i := e] ! x))) m)"
    proof (cases "x = ?i")
      case True
      then show ?thesis using m n(3) st e(1) by (intro o) (simp add: nth)
    next
      case False
      then show ?thesis using x m ok by (intro o) (simp add: nth table_ok_def)
    qed
  next
    fix x y
    assume "x < TABLE_SIZE" "y < TABLE_SIZE" "occupied (ht[?i := e] ! x)" "occupied (ht[?i := e] ! y)"
      "entry_key (ht[?i := e] ! x) = entry_key (ht[?i := e] ! y)"
    moreover have "entry_key (ht ! z) \<noteq> k" if "z < TABLE_SIZE" "occupied (ht ! z)" for z
      by (rule connections_None[OF ok k that])
    moreover have "z = z'" if "z < TABLE_SIZE" "z' < TABLE_SIZE" "occupied (ht ! z)" "occupied (ht ! z')"
        "entry_key (ht ! z) = entry_key (ht ! z')" for z z'
      using ok that unfolding table_ok_def by blast
    ultimately show "x = y" unfolding nth using e(1) by (cases "x = ?i"; cases "y = ?i") (simp, metis, metis, simp)
  qed
  have "connections (ht[?i := e]) k' = ((connections ht)(k \<mapsto> l)) k'" for k'
  proof -
    have "connections (ht[?i := e]) k' = Some v \<longleftrightarrow> ((connections ht)(k \<mapsto> l)) k' = Some v" for v
    proof -
      have "connections (ht[?i := e]) k' = Some v \<longleftrightarrow>
          (\<exists>x < TABLE_SIZE. occupied (ht[?i := e] ! x) \<and> entry_key (ht[?i := e] ! x) = k' \<and> ce_lcid (ht[?i := e] ! x) = v)"
        by (rule connections_iff[OF ok'])
      also have "\<dots> \<longleftrightarrow> (k' = k \<and> v = l) \<or>
          (\<exists>x < TABLE_SIZE. x \<noteq> ?i \<and> occupied (ht ! x) \<and> entry_key (ht ! x) = k' \<and> ce_lcid (ht ! x) = v)"
        (is "?l \<longleftrightarrow> ?r")
      proof
        assume ?l
        then obtain x where x: "x < TABLE_SIZE" "occupied (ht[?i := e] ! x)" "entry_key (ht[?i := e] ! x) = k'" "ce_lcid (ht[?i := e] ! x) = v"
          by blast
        show ?r
        proof (cases "x = ?i")
          case True
          then have "ht[?i := e] ! x = e" by (simp add: nth)
          then show ?thesis using x(3,4) e(1,3) by simp
        next
          case False
          then have "ht[?i := e] ! x = ht ! x" by (simp add: nth)
          then show ?thesis using x False by auto
        qed
      next
        assume ?r
        then show ?l
        proof (elim disjE exE conjE)
          assume "k' = k" "v = l"
          then show ?l by (intro exI[of _ ?i]) (simp add: nth e)
        next
          fix x assume "x < TABLE_SIZE" "x \<noteq> ?i" "occupied (ht ! x)" "entry_key (ht ! x) = k'" "ce_lcid (ht ! x) = v"
          then show ?l by (intro exI[of _ x]) (simp add: nth)
        qed
      qed
      also have "\<dots> \<longleftrightarrow> (k' = k \<and> v = l) \<or>
          (\<exists>x < TABLE_SIZE. occupied (ht ! x) \<and> entry_key (ht ! x) = k' \<and> ce_lcid (ht ! x) = v)"
        using n(2) by metis
      also have "\<dots> \<longleftrightarrow> (k' = k \<and> v = l) \<or> connections ht k' = Some v" by (simp only: connections_iff[OF ok])
      also have "\<dots> \<longleftrightarrow> ((connections ht)(k \<mapsto> l)) k' = Some v" using k by auto
      finally show ?thesis .
    qed
    then show ?thesis by (rule option_ext)
  qed
  then have "connections (ht[?i := e]) = (connections ht)(k \<mapsto> l)" by (rule ext)
  then show ?thesis using run ok' by blast
qed

text \<open>A free slot is left as long as there are fewer connections than slots.\<close>

lemma connections_dom:
  assumes "table_ok ht"
  shows "finite (dom (connections ht)) \<and> card (dom (connections ht)) \<le> TABLE_SIZE \<and>
    ((\<exists>j < TABLE_SIZE. \<not> occupied (ht ! j)) \<longleftrightarrow> card (dom (connections ht)) < TABLE_SIZE)"
proof -
  let ?I = "{i. i < TABLE_SIZE \<and> occupied (ht ! i)}"
  have d: "dom (connections ht) = (\<lambda>i. entry_key (ht ! i)) ` ?I"
  proof (rule set_eqI)
    fix k
    have "k \<in> dom (connections ht) \<longleftrightarrow> (\<exists>l. connections ht k = Some l)" by (simp add: domIff)
    also have "\<dots> \<longleftrightarrow> (\<exists>i < TABLE_SIZE. occupied (ht ! i) \<and> entry_key (ht ! i) = k)"
      unfolding connections_iff[OF assms] by blast
    also have "\<dots> \<longleftrightarrow> k \<in> (\<lambda>i. entry_key (ht ! i)) ` ?I" by blast
    finally show "k \<in> dom (connections ht) \<longleftrightarrow> k \<in> (\<lambda>i. entry_key (ht ! i)) ` ?I" .
  qed
  have "inj_on (\<lambda>i. entry_key (ht ! i)) ?I" using assms by (auto simp: inj_on_def table_ok_def)
  then have c: "card (dom (connections ht)) = card ?I" unfolding d by (rule card_image)
  have sub: "?I \<subseteq> {..<TABLE_SIZE}" by auto
  have "card ?I \<le> card {..<TABLE_SIZE}" using sub by (rule card_mono[OF finite_lessThan])
  moreover have "card ?I < TABLE_SIZE \<longleftrightarrow> (\<exists>j < TABLE_SIZE. \<not> occupied (ht ! j))"
  proof
    assume "card ?I < TABLE_SIZE"
    then have "?I \<noteq> {..<TABLE_SIZE}" by force
    then show "\<exists>j < TABLE_SIZE. \<not> occupied (ht ! j)" by auto
  next
    assume "\<exists>j < TABLE_SIZE. \<not> occupied (ht ! j)"
    then have "?I \<subset> {..<TABLE_SIZE}" by auto
    from psubset_card_mono[OF finite_lessThan this] show "card ?I < TABLE_SIZE" by simp
  qed
  ultimately show ?thesis using c unfolding d by auto
qed

lemma conn_table_new_ok: "table_ok conn_table_new \<and> connections conn_table_new = Map.empty"
  by (simp add: table_ok_def conn_table_new_def occupied_def free_entry_def connections_def)

end
