(* ===== verification/UmFragbuf.thy ===== *)
theory UmFragbuf
  imports LteTypes
begin

text \<open>
  The packets of the RLC layer and the fragment buffer of its unacknowledged mode
  (\<^verbatim>\<open>simulte/src/stack/rlc/um/buffer/UmFragbuf.cc\<close>), which keeps for each main packet a bitmap of the
  fragments received, their number still missing and their total size.
\<close>

section \<open>Packets of the RLC layer\<close>

text \<open>
  \<open>FlowControlInfo\<close>, with the fields it inherits.  The RLC type is a number, because it comes from a
  parameter of the simulation.
\<close>

datatype application_type = VOIP | VOD | WEB | CBR | FTP | GAMING | FULLBUFFER | UNKNOWN_APP

datatype traffic_class = CONVERSATIONAL | STREAMING | INTERACTIVE | BACKGROUND | UNKNOWN_TRAFFIC_TYPE

definition RLC_TM :: u16 where "RLC_TM = 0"
definition RLC_UM :: u16 where "RLC_UM = 1"
definition RLC_AM :: u16 where "RLC_AM = 2"

record flow_info =
  fi_direction :: direction
  fi_sourceId :: mac_node_id
  fi_destId :: mac_node_id
  fi_lcid :: u16
  fi_sequenceNumber :: u32
  fi_application :: application_type
  fi_traffic :: traffic_class
  fi_rlcType :: u16
  fi_srcAddr :: u32
  fi_dstAddr :: u32
  fi_srcPort :: u16
  fi_dstPort :: u16
  fi_headerSize :: int

text \<open>
  A packet of the layers above, with a number that tells it apart; the PDCP packet that carries it; an
  RLC SDU that carries this; a fragment.
\<close>

record data_pkt =
  dp_id :: int
  dp_name :: string
  dp_bytes :: int

record pdcp_pdu =
  pp_bytes :: int
  pp_pkt :: data_pkt

record rlc_sdu =
  rs_snoMainPacket :: u32
  rs_bytes :: int
  rs_created :: simtime
  rs_pdcp :: pdcp_pdu

record rlc_pdu =
  rd_totalFragments :: u32
  rd_snoFragment :: u32
  rd_snoMainPacket :: u32
  rd_bytes :: int
  rd_created :: simtime
  rd_sdu :: rlc_sdu
  rd_info :: flow_info

text \<open>Conversions of the language: to \<open>int\<close>, and from \<open>unsigned int\<close> to \<open>int\<close>.\<close>

definition to_int32 :: "int \<Rightarrow> int" where
  "to_int32 x = signed_take_bit 31 x"

lemma to_int32_id: "0 \<le> x \<Longrightarrow> x < 2 ^ 31 \<Longrightarrow> to_int32 x = x"
  by (simp add: to_int32_def signed_take_bit_int_eq_self)

lemma to_int32_uint [simp]: "to_int32 (uint (w :: u32)) = sint w"
  by (simp add: to_int32_def sint_uint)

section \<open>The buffer\<close>

text \<open>
  \<open>lteInfo_\<close> is a pointer: \<open>None\<close> when it is null or its object has been deleted.
\<close>

record main_pkt_info =
  mp_bitmap :: "bool list"
  mp_fragsleft :: int
  mp_size :: u32
  mp_lteInfo :: "flow_info option"

record um_fragbuf =
  fr_frags :: "u32 \<Rightarrow> main_pkt_info option"
  fr_debugCounter :: u32

definition fragbuf_new :: um_fragbuf where
  "fragbuf_new = \<lparr>fr_frags = (\<lambda>_. None), fr_debugCounter = 0\<rparr>"

text \<open>\<open>frags_[id]\<close> inserts a zero-initialised entry when there is none.\<close>

definition main_pkt_zero :: main_pkt_info where
  "main_pkt_zero = \<lparr>mp_bitmap = [], mp_fragsleft = 0, mp_size = 0, mp_lteInfo = None\<rparr>"

definition fragbuf_subscript :: "u32 \<Rightarrow> um_fragbuf \<Rightarrow> main_pkt_info \<times> um_fragbuf" where
  "fragbuf_subscript k fb = (case fr_frags fb k of
      Some e \<Rightarrow> (e, fb)
    | None \<Rightarrow> (main_pkt_zero, fb\<lparr>fr_frags := (fr_frags fb)(k := Some main_pkt_zero)\<rparr>))"

definition fragbuf_insert ::
  "u32 \<Rightarrow> u32 \<Rightarrow> u32 \<Rightarrow> u32 \<Rightarrow> flow_info \<Rightarrow> um_fragbuf \<Rightarrow> (bool \<times> um_fragbuf) result" where
  "fragbuf_insert pktId totFrag fragSno fragSize info fb =
     (let fb1 = fb\<lparr>fr_debugCounter := fr_debugCounter fb + 1\<rparr> in
      case fr_frags fb1 pktId of
        None \<Rightarrow>
          bindE (vec_set (replicate (unat totFrag) False) (unat fragSno) True) (\<lambda>bm.
            let pkt = \<lparr>mp_bitmap = bm, mp_fragsleft = sint (totFrag - 1), mp_size = fragSize,
                       mp_lteInfo = Some info\<rparr>
            in Inr (True, fb1\<lparr>fr_frags := (fr_frags fb1)(pktId := Some pkt)\<rparr>))
      | Some e \<Rightarrow>
          bindE (vec_get (mp_bitmap e) (unat fragSno)) (\<lambda>received.
            if \<not> received
            then let e' = e\<lparr>mp_fragsleft := mp_fragsleft e - 1, mp_size := mp_size e + fragSize,
                            mp_bitmap := (mp_bitmap e)[unat fragSno := True]\<rparr>
                 in Inr (False, fb1\<lparr>fr_frags := (fr_frags fb1)(pktId := Some e')\<rparr>)
            else Inl (RuntimeError ''UmFragbuf::insert(): inconsistency detected with packet'')))"

definition fragbuf_check :: "u32 \<Rightarrow> um_fragbuf \<Rightarrow> bool \<times> um_fragbuf" where
  "fragbuf_check pktId fb = (case fragbuf_subscript pktId fb of (e, fb') \<Rightarrow> (mp_fragsleft e = 0, fb'))"

definition fragbuf_remove :: "u32 \<Rightarrow> um_fragbuf \<Rightarrow> int \<times> um_fragbuf" where
  "fragbuf_remove pktId fb = (case fragbuf_subscript pktId fb of (e, fb') \<Rightarrow>
     (sint (mp_size e), fb'\<lparr>fr_frags := (fr_frags fb')(pktId := None)\<rparr>))"

definition fragbuf_getLteInfo :: "u32 \<Rightarrow> um_fragbuf \<Rightarrow> flow_info option result" where
  "fragbuf_getLteInfo pktId fb = (case fr_frags fb pktId of
      Some e \<Rightarrow> Inr (mp_lteInfo e) | None \<Rightarrow> Inl OutOfRange)"

section \<open>What has been received\<close>

text \<open>
  The entry of packet \<open>k\<close> stands for the set \<open>S\<close> of received fragments out of \<open>n\<close>, whose sizes sum
  up to \<open>sz\<close>.
\<close>

definition received_entry :: "nat \<Rightarrow> nat set \<Rightarrow> int \<Rightarrow> main_pkt_info \<Rightarrow> bool" where
  "received_entry n S sz e \<longleftrightarrow> mp_bitmap e = map (\<lambda>i. i \<in> S) [0..<n] \<and>
     mp_fragsleft e = int n - int (card S) \<and> mp_size e = of_int sz"

definition received :: "u32 \<Rightarrow> nat \<Rightarrow> nat set \<Rightarrow> int \<Rightarrow> um_fragbuf \<Rightarrow> bool" where
  "received k n S sz fb \<longleftrightarrow> (if S = {} then fr_frags fb k = None
     else \<exists>e. fr_frags fb k = Some e \<and> received_entry n S sz e)"

lemma sint_of_int_u32: "- (2 ^ 31) \<le> x \<Longrightarrow> x < 2 ^ 31 \<Longrightarrow> sint (of_int x :: u32) = x"
  by (simp only: sint_sbintrunc') (simp add: signed_take_bit_int_eq_self)

lemma sint_pred_of_nat:
  assumes "0 < n" "n \<le> 2 ^ 31"
  shows "sint (of_nat n - 1 :: u32) = int n - 1"
proof -
  have "(of_nat n - 1 :: u32) = of_int (int n - 1)" by simp
  moreover have "sint (of_int (int n - 1) :: u32) = int n - 1"
    using assms by (intro sint_of_int_u32) auto
  ultimately show ?thesis by simp
qed

lemma received_insert:
  assumes "received k n S sz fb" "i < n" "i \<notin> S" "S \<subseteq> {..<n}" "n \<le> 2 ^ 31" "unat sno = i"
  shows "\<exists>fb'. fragbuf_insert k (of_nat n) sno (of_int b) info fb = Inr (S = {}, fb') \<and>
    received k n (insert i S) (sz * (if S = {} then 0 else 1) + b) fb' \<and>
    (\<forall>j. j \<noteq> k \<longrightarrow> fr_frags fb' j = fr_frags fb j)"
proof (cases "S = {}")
  case True
  have "(of_nat n :: u32) = of_nat n \<and> unat (of_nat n :: u32) = n"
    using assms(5) by (simp add: unat_of_nat)
  moreover have "(replicate n False)[i := True] = map (\<lambda>j. j = i) [0..<n]"
    using assms(2) by (intro nth_equalityI) (auto simp: nth_list_update)
  ultimately show ?thesis using True assms
    by (auto simp: fragbuf_insert_def received_def received_entry_def vec_set_def sint_pred_of_nat Let_def)
next
  case False
  then obtain e where e: "fr_frags fb k = Some e" "received_entry n S sz e"
    using assms(1) by (auto simp: received_def)
  have "card (insert i S) = Suc (card S)" using assms(3,4) finite_subset[of S "{..<n}"] by simp
  moreover have "(map (\<lambda>j. j \<in> S) [0..<n])[i := True] = map (\<lambda>j. j = i \<or> j \<in> S) [0..<n]"
    using assms(2) by (intro nth_equalityI) (auto simp: nth_list_update)
  ultimately show ?thesis using False e assms
    by (auto simp: fragbuf_insert_def received_def received_entry_def vec_get_def Let_def)
qed

lemma received_check:
  assumes "received k n S sz fb" "S \<noteq> {}" "S \<subseteq> {..<n}"
  shows "fragbuf_check k fb = (S = {..<n}, fb)"
proof -
  obtain e where e: "fr_frags fb k = Some e" "received_entry n S sz e"
    using assms(1,2) by (auto simp: received_def)
  have "card S = n \<longleftrightarrow> S = {..<n}"
    using assms(3) card_subset_eq[of "{..<n}" S] by auto
  then show ?thesis using e by (auto simp: fragbuf_check_def fragbuf_subscript_def received_entry_def)
qed

lemma received_remove:
  assumes "received k n S sz fb" "S \<noteq> {}" "0 \<le> sz" "sz < 2 ^ 31"
  shows "\<exists>fb'. fragbuf_remove k fb = (sz, fb') \<and> received k n {} 0 fb' \<and>
    (\<forall>j. j \<noteq> k \<longrightarrow> fr_frags fb' j = fr_frags fb j)"
proof -
  obtain e where e: "fr_frags fb k = Some e" "received_entry n S sz e"
    using assms(1,2) by (auto simp: received_def)
  have "sint (of_int sz :: u32) = sz"
    using assms(3,4) by (intro sint_of_int_u32) auto
  then show ?thesis using e
    by (auto simp: fragbuf_remove_def fragbuf_subscript_def received_entry_def received_def)
qed

text \<open>
  \<open>check\<close> on a packet without fragments answers yes, and leaves an entry behind: the subscript
  operator has inserted one with nothing left to receive.
\<close>
lemma fragbuf_check_missing:
  "fr_frags fb k = None \<Longrightarrow> fst (fragbuf_check k fb) \<and> fr_frags (snd (fragbuf_check k fb)) k = Some main_pkt_zero"
  by (simp add: fragbuf_check_def fragbuf_subscript_def main_pkt_zero_def)

end
