(* ===== verification/Binder.thy ===== *)
theory Binder
  imports LteTypes
begin

text \<open>
  The registry of the simulated nodes (\<^verbatim>\<open>simulte/src/corenetwork/binder/LteBinder.cc\<close>): identifiers,
  the master of every node and the node of every IP address.  A \<open>std::map\<close> whose keys are only looked
  up is a partial function; the subscript operator reads an absent key as 0.
\<close>

definition ENB_MIN_ID :: mac_node_id where "ENB_MIN_ID = 1"
definition RELAY_MIN_ID :: mac_node_id where "RELAY_MIN_ID = 257"
definition UE_MIN_ID :: mac_node_id where "UE_MIN_ID = 1025"

record lte_binder =
  bi_nextHop :: "mac_node_id list"
  bi_nodeIds :: "(mac_node_id \<times> int) list"  \<comment> \<open>sorted by the key\<close>
  bi_macNodeIdToIPAddress :: "u32 \<Rightarrow> mac_node_id option"
  bi_macNodeIdCounter :: "mac_node_id \<times> mac_node_id \<times> mac_node_id"
  bi_dMap :: "mac_node_id \<Rightarrow> mac_node_id \<Rightarrow> bool option"

definition binder_new :: lte_binder where
  "binder_new = \<lparr>bi_nextHop = [], bi_nodeIds = [], bi_macNodeIdToIPAddress = (\<lambda>_. None),
     bi_macNodeIdCounter = (ENB_MIN_ID, RELAY_MIN_ID, UE_MIN_ID), bi_dMap = (\<lambda>_ _. None)\<rparr>"

definition registerNextHop :: "mac_node_id \<Rightarrow> mac_node_id \<Rightarrow> lte_binder \<Rightarrow> lte_binder" where
  "registerNextHop masterId slaveId b =
     (let b1 = (if masterId \<noteq> slaveId
                then b\<lparr>bi_dMap := (bi_dMap b)(masterId := (bi_dMap b masterId)(slaveId := Some True))\<rparr> else b);
          hops = (if length (bi_nextHop b1) \<le> unat slaveId
                  then vec_resize (bi_nextHop b1) (unat slaveId + 1) 0 else bi_nextHop b1)
      in b1\<lparr>bi_nextHop := hops[unat slaveId := masterId]\<rparr>)"

definition unregisterNextHop :: "mac_node_id \<Rightarrow> mac_node_id \<Rightarrow> lte_binder \<Rightarrow> lte_binder" where
  "unregisterNextHop masterId slaveId b =
     (let b1 = b\<lparr>bi_dMap := (bi_dMap b)(masterId := (bi_dMap b masterId)(slaveId := Some False))\<rparr>
      in if length (bi_nextHop b1) \<le> unat slaveId then b1
         else b1\<lparr>bi_nextHop := (bi_nextHop b1)[unat slaveId := 0]\<rparr>)"

fun assign_sorted :: "mac_node_id \<Rightarrow> 'v \<Rightarrow> (mac_node_id \<times> 'v) list \<Rightarrow> (mac_node_id \<times> 'v) list" where
  "assign_sorted k v [] = [(k, v)]"
| "assign_sorted k v ((k', v') # xs) =
     (if k < k' then (k, v) # (k', v') # xs
      else if k = k' then (k, v) # xs else (k', v') # assign_sorted k v xs)"

text \<open>A new node takes the next identifier of its type, \<open>-1\<close> when the type has none.\<close>

definition registerNode ::
  "int \<Rightarrow> lte_node_type \<Rightarrow> mac_node_id \<Rightarrow> lte_binder \<Rightarrow> mac_node_id \<times> lte_binder" where
  "registerNode omnetId type masterId b = (case bi_macNodeIdCounter b of (ce, cr, cu) \<Rightarrow>
     let (macNodeId, b1) = (if type = UE then (cu, b\<lparr>bi_macNodeIdCounter := (ce, cr, cu + 1)\<rparr>)
            else if type = RELAY then (cr, b\<lparr>bi_macNodeIdCounter := (ce, cr + 1, cu)\<rparr>)
            else if type = ENODEB then (ce, b\<lparr>bi_macNodeIdCounter := (ce + 1, cr, cu)\<rparr>)
            else (- 1, b));
         b2 = b1\<lparr>bi_nodeIds := assign_sorted macNodeId omnetId (bi_nodeIds b1)\<rparr>;
         b3 = (if type = RELAY \<or> type = UE then registerNextHop masterId macNodeId b2
               else if type = ENODEB then registerNextHop macNodeId macNodeId b2 else b2)
     in (macNodeId, b3))"

definition unregisterNode :: "mac_node_id \<Rightarrow> lte_binder \<Rightarrow> lte_binder" where
  "unregisterNode i b = b\<lparr>bi_nodeIds := filter (\<lambda>(k, _). k \<noteq> i) (bi_nodeIds b),
     bi_macNodeIdToIPAddress := (\<lambda>a. if bi_macNodeIdToIPAddress b a = Some i then None
       else bi_macNodeIdToIPAddress b a)\<rparr>"

definition getOmnetId :: "mac_node_id \<Rightarrow> lte_binder \<Rightarrow> int" where
  "getOmnetId nodeId b = (case map_of (bi_nodeIds b) nodeId of Some i \<Rightarrow> i | None \<Rightarrow> 0)"

definition getMacNodeIdFromOmnetId :: "int \<Rightarrow> lte_binder \<Rightarrow> mac_node_id" where
  "getMacNodeIdFromOmnetId i b = (case find (\<lambda>e. snd e = i) (bi_nodeIds b) of Some (k, _) \<Rightarrow> k | None \<Rightarrow> 0)"

definition getNextHop :: "mac_node_id \<Rightarrow> lte_binder \<Rightarrow> mac_node_id result" where
  "getNextHop slaveId b = (if unat slaveId \<ge> length (bi_nextHop b)
     then Inl (RuntimeError ''LteBinder::getNextHop(): bad slave id'') else Inr (bi_nextHop b ! unat slaveId))"

definition getMacNodeId :: "u32 \<Rightarrow> lte_binder \<Rightarrow> mac_node_id" where
  "getMacNodeId address b = (case bi_macNodeIdToIPAddress b address of Some i \<Rightarrow> i | None \<Rightarrow> 0)"

definition setMacNodeId :: "u32 \<Rightarrow> mac_node_id \<Rightarrow> lte_binder \<Rightarrow> lte_binder" where
  "setMacNodeId address nodeId b =
     b\<lparr>bi_macNodeIdToIPAddress := (bi_macNodeIdToIPAddress b)(address := Some nodeId)\<rparr>"

text \<open>
  The code reads \<open>dMap_[localId]\<close>, which enters an empty map for an unknown master.  Every access to \<open>dMap_\<close>
  is through \<open>operator[]\<close> (\<open>registerNextHop\<close>, \<open>unregisterNextHop\<close> and this function), and none iterates over it,
  so an absent master and one with an empty map answer alike: the outer map is a total function, and
  that entry makes no difference.
\<close>

definition getDeployedUes :: "mac_node_id \<Rightarrow> lte_binder \<Rightarrow> mac_node_id \<Rightarrow> bool option" where
  "getDeployedUes localId b = bi_dMap b localId"

section \<open>What the registry answers\<close>

lemma getNextHop_register:
  "getNextHop i (registerNextHop m s b) = (if i = s then Inr m
     else if length (bi_nextHop b) \<le> unat i \<and> unat i < unat s then Inr 0 else getNextHop i b)"
proof -
  have "unat i = unat s \<longleftrightarrow> i = s" by (simp only: word_unat_eq_iff)
  then show ?thesis
    by (auto simp: getNextHop_def registerNextHop_def Let_def nth_list_update nth_vec_resize)
qed

lemma getMacNodeId_set: "getMacNodeId a (setMacNodeId a' i b) = (if a = a' then i else getMacNodeId a b)"
  by (simp add: getMacNodeId_def setMacNodeId_def)

lemma getMacNodeId_unregister:
  "getMacNodeId a (unregisterNode i b) = (if getMacNodeId a b = i then 0 else getMacNodeId a b)"
  by (auto simp: getMacNodeId_def unregisterNode_def split: option.split)

lemma map_of_assign_sorted: "sorted (map fst xs) \<Longrightarrow> map_of (assign_sorted k v xs) = (map_of xs)(k \<mapsto> v)"
  by (induction k v xs rule: assign_sorted.induct) (auto simp: fun_eq_iff map_of_eq_None_iff)

lemma registerNode_ue:
  assumes "bi_macNodeIdCounter b = (e, r, u)" "sorted (map fst (bi_nodeIds b))"
  shows "fst (registerNode oid UE m b) = u \<and> getNextHop u (snd (registerNode oid UE m b)) = Inr m \<and>
    getOmnetId u (snd (registerNode oid UE m b)) = oid"
proof -
  have "snd (registerNode oid UE m b) = registerNextHop m u (b\<lparr>bi_macNodeIdCounter := (e, r, u + 1),
      bi_nodeIds := assign_sorted u oid (bi_nodeIds b)\<rparr>)"
    using assms(1) by (simp add: registerNode_def Let_def)
  moreover have "bi_nodeIds (registerNextHop m u x) = bi_nodeIds x" for x
    by (simp add: registerNextHop_def Let_def)
  ultimately show ?thesis using assms
    by (simp add: getNextHop_register getOmnetId_def map_of_assign_sorted) (simp add: registerNode_def)
qed

end
