(* ===== verification/Pdcp.thy ===== *)
theory Pdcp
  imports ConnectionsTable UmFragbuf Binder
begin

text \<open>
  The PDCP and RRC layer of a node (\<^verbatim>\<open>simulte/src/stack/pdcp_rrc/layer/LtePdcpRrc.cc\<close>): it compresses
  the headers of a data packet, classifies its traffic by its name, gives its flow a logical
  connection identifier and hands it to the RLC layer; the other way it restores the packet.  The
  parameters of the module are fields of the state; packets sent are results.
\<close>

unbundle bit_operations_syntax

section \<open>The layer\<close>

text \<open>The four modules; the relay's UE side keeps the identifier of its master.\<close>

datatype pdcp_kind = PdcpUe | PdcpEnb | PdcpRelayUe mac_node_id | PdcpRelayEnb

text \<open>\<open>DropInfo\<close>; the probability as the 64 bits of its representation, which is only copied.\<close>

record drop_info =
  di_layer :: u32
  di_drop :: bool
  di_probability :: "64 word"

record pdcp =
  pd_kind :: pdcp_kind
  pd_headerCompressedSize :: int
  pd_lcid :: u16
  pd_ht :: conn_table
  pd_nodeId :: mac_node_id
  pd_conversationalRlc :: int
  pd_interactiveRlc :: int
  pd_streamingRlc :: int
  pd_backgroundRlc :: int
  pd_dropMap :: "u32 \<Rightarrow> drop_info option"

text \<open>A packet of the control plane, and what it encapsulates.\<close>

datatype rrc_pkt = RrcPkt (rp_id: int) (rp_inner: "rrc_pkt option")

text \<open>What a handler sends, and where.\<close>

datatype pdcp_out =
    ToUm pdcp_pdu flow_info
  | ToAm pdcp_pdu flow_info
  | ToTm rrc_pkt flow_info
  | ToData data_pkt "flow_info option"
  | ToRrc rrc_pkt

definition PDCP_HEADER_UM :: int where "PDCP_HEADER_UM = 1"
definition PDCP_HEADER_AM :: int where "PDCP_HEADER_AM = 2"

text \<open>\<open>setByteLength\<close> of the simulation library refuses a negative length.\<close>

definition setByteLength :: "int \<Rightarrow> data_pkt \<Rightarrow> data_pkt result" where
  "setByteLength n pkt = (if n < 0 then Inl (RuntimeError ''cPacket: negative length'')
     else Inr (pkt\<lparr>dp_bytes := n\<rparr>))"

definition headerCompress :: "pdcp \<Rightarrow> data_pkt \<Rightarrow> int \<Rightarrow> data_pkt result" where
  "headerCompress p pkt headerSize = (if pd_headerCompressedSize p \<noteq> - 1
     then setByteLength (dp_bytes pkt - headerSize + pd_headerCompressedSize p) pkt else Inr pkt)"

definition headerDecompress :: "pdcp \<Rightarrow> data_pkt \<Rightarrow> int \<Rightarrow> data_pkt result" where
  "headerDecompress p pkt headerSize = (if pd_headerCompressedSize p \<noteq> - 1
     then setByteLength (dp_bytes pkt + headerSize - pd_headerCompressedSize p) pkt else Inr pkt)"

definition getDirection :: "pdcp \<Rightarrow> direction" where
  "getDirection p = (case pd_kind p of PdcpUe \<Rightarrow> UL | PdcpEnb \<Rightarrow> DL
     | PdcpRelayUe _ \<Rightarrow> UNKNOWN_DIRECTION | PdcpRelayEnb \<Rightarrow> UNKNOWN_DIRECTION)"

definition setTrafficInformation :: "pdcp \<Rightarrow> data_pkt \<Rightarrow> flow_info \<Rightarrow> flow_info" where
  "setTrafficInformation p pkt info =
     (let info1 =
        (if dp_name pkt = ''VoIP''
         then info\<lparr>fi_application := VOIP, fi_traffic := CONVERSATIONAL,
                   fi_rlcType := of_int (pd_conversationalRlc p)\<rparr>
         else if dp_name pkt = ''gaming''
         then info\<lparr>fi_application := GAMING, fi_traffic := INTERACTIVE,
                   fi_rlcType := of_int (pd_interactiveRlc p)\<rparr>
         else if dp_name pkt = ''VoDPacket'' \<or> dp_name pkt = ''VoDFinishPacket''
         then info\<lparr>fi_application := VOD, fi_traffic := STREAMING,
                   fi_rlcType := of_int (pd_streamingRlc p)\<rparr>
         else info\<lparr>fi_application := CBR, fi_traffic := BACKGROUND,
                   fi_rlcType := of_int (pd_backgroundRlc p)\<rparr>)
      in info1\<lparr>fi_direction := getDirection p\<rparr>)"

definition getDestId :: "lte_binder \<Rightarrow> pdcp \<Rightarrow> flow_info \<Rightarrow> mac_node_id result" where
  "getDestId b p info = (case pd_kind p of
      PdcpUe \<Rightarrow> getNextHop (pd_nodeId p) b
    | PdcpEnb \<Rightarrow>
        (let destId = getMacNodeId (fi_dstAddr info) b
         in bindE (getNextHop destId b) (\<lambda>master. Inr (if master \<noteq> pd_nodeId p then master else destId)))
    | PdcpRelayUe destId \<Rightarrow> Inr destId
    | PdcpRelayEnb \<Rightarrow> Inr (getMacNodeId (fi_dstAddr info) b))"

text \<open>The identifier of a flow: the one in the table, or the next one, which is entered.\<close>

definition request_lcid :: "conn_key \<Rightarrow> pdcp \<Rightarrow> (u16 \<times> pdcp) result" where
  "request_lcid k p = bindE (find_entry k (pd_ht p)) (\<lambda>found.
     if found = 0xFFFF
     then bindE (create_entry k (pd_lcid p) (pd_ht p)) (\<lambda>ht.
            Inr (pd_lcid p, p\<lparr>pd_lcid := pd_lcid p + 1, pd_ht := ht\<rparr>))
     else Inr (found, p))"

definition fromDataPort ::
  "lte_binder \<Rightarrow> data_pkt \<Rightarrow> flow_info \<Rightarrow> pdcp \<Rightarrow> (pdcp \<times> pdcp_out) result" where
  "fromDataPort b pkt lteInfo p =
     (let info1 = setTrafficInformation p pkt lteInfo in
      bindE (getDestId b p info1) (\<lambda>destId.
      let info2 = info1\<lparr>fi_destId := destId\<rparr> in
      bindE (headerCompress p pkt (fi_headerSize info2)) (\<lambda>pkt'.
      bindE (request_lcid (ucast (fi_sourceId info2), ucast (fi_destId info2), fi_srcPort info2, fi_dstPort info2) p)
        (\<lambda>(mylcid, p').
      let info3 = info2\<lparr>fi_lcid := mylcid, fi_sourceId := pd_nodeId p'\<rparr>;
          hdr = (if fi_rlcType info3 = RLC_UM then PDCP_HEADER_UM else PDCP_HEADER_AM);
          pdcpPkt = \<lparr>pp_bytes = hdr + dp_bytes pkt', pp_pkt = pkt'\<rparr>
      in Inr (p', if fi_rlcType info3 = RLC_UM then ToUm pdcpPkt info3 else ToAm pdcpPkt info3)))))"

text \<open>The control information of a new object is zero; control traffic has a fixed identifier.\<close>

definition flow_info_zero :: flow_info where
  "flow_info_zero = \<lparr>fi_direction = DL, fi_sourceId = 0, fi_destId = 0, fi_lcid = 0, fi_sequenceNumber = 0,
     fi_application = VOIP, fi_traffic = CONVERSATIONAL, fi_rlcType = 0, fi_srcAddr = 0, fi_dstAddr = 0,
     fi_srcPort = 0, fi_dstPort = 0, fi_headerSize = 0\<rparr>"

definition fromEutranRrcSap :: "rrc_pkt \<Rightarrow> pdcp \<Rightarrow> pdcp_out" where
  "fromEutranRrcSap pkt p =
     ToTm pkt (flow_info_zero\<lparr>fi_sourceId := pd_nodeId p, fi_lcid := 1000, fi_rlcType := RLC_TM\<rparr>)"

text \<open>A relay leaves the control information on the packet, the others delete it.\<close>

definition handleControlInfo :: "pdcp \<Rightarrow> flow_info \<Rightarrow> flow_info option" where
  "handleControlInfo p info = (case pd_kind p of PdcpUe \<Rightarrow> None | PdcpEnb \<Rightarrow> None
     | PdcpRelayUe _ \<Rightarrow> Some info | PdcpRelayEnb \<Rightarrow> Some info)"

definition toDataPort :: "pdcp_pdu \<Rightarrow> flow_info \<Rightarrow> pdcp \<Rightarrow> pdcp_out result" where
  "toDataPort pdcpPkt lteInfo p =
     bindE (headerDecompress p (pp_pkt pdcpPkt) (fi_headerSize lteInfo)) (\<lambda>upPkt.
       Inr (ToData upPkt (handleControlInfo p lteInfo)))"

text \<open>\<open>decapsulate\<close> answers null on a packet that encapsulates nothing; its name is then printed.\<close>

definition toEutranRrcSap :: "rrc_pkt \<Rightarrow> pdcp_out result" where
  "toEutranRrcSap pkt = (case rp_inner pkt of
      None \<Rightarrow> Inl (Undefined ''null pointer'') | Some upPkt \<Rightarrow> Inr (ToRrc upPkt))"

definition setDrop :: "u32 \<Rightarrow> u32 \<Rightarrow> 64 word \<Rightarrow> pdcp \<Rightarrow> pdcp" where
  "setDrop cid layer probability p = p\<lparr>pd_dropMap := (pd_dropMap p)(cid \<mapsto>
     \<lparr>di_layer = layer, di_drop = True, di_probability = probability\<rparr>)\<rparr>"

definition clearDrop :: "u32 \<Rightarrow> pdcp \<Rightarrow> pdcp" where
  "clearDrop cid p = p\<lparr>pd_dropMap := (pd_dropMap p)(cid \<mapsto>
     \<lparr>di_layer = 0, di_drop = False, di_probability = 0\<rparr>)\<rparr>"

section \<open>Streams of packets\<close>

definition from_data_one ::
  "lte_binder \<Rightarrow> data_pkt \<times> flow_info \<Rightarrow> pdcp \<times> pdcp_out list \<Rightarrow> (pdcp \<times> pdcp_out list) result" where
  "from_data_one b a s = (case s of (p, outs) \<Rightarrow>
     bindE (fromDataPort b (fst a) (snd a) p) (\<lambda>(p', out). Inr (p', outs @ [out])))"

definition from_data :: "lte_binder \<Rightarrow> (data_pkt \<times> flow_info) list \<Rightarrow> pdcp \<Rightarrow> (pdcp \<times> pdcp_out list) result" where
  "from_data b ps p = foldE (from_data_one b) ps (p, [])"

text \<open>A layer that has seen no packet; the flow of a packet; a packet that can be sent.\<close>

definition pdcp_fresh :: "pdcp \<Rightarrow> bool" where
  "pdcp_fresh p \<longleftrightarrow> pd_ht p = conn_table_new \<and> pd_lcid p = 1"

definition flow_key :: "lte_binder \<Rightarrow> pdcp \<Rightarrow> data_pkt \<times> flow_info \<Rightarrow> conn_key" where
  "flow_key b p a = (ucast (fi_sourceId (snd a)), ucast (projr (getDestId b p (snd a))), fi_srcPort (snd a), fi_dstPort (snd a))"

definition sendable :: "lte_binder \<Rightarrow> pdcp \<Rightarrow> data_pkt \<times> flow_info \<Rightarrow> bool" where
  "sendable b p a \<longleftrightarrow> is_ok (getDestId b p (snd a)) \<and> is_ok (headerCompress p (fst a) (fi_headerSize (snd a)))"

definition out_lcid :: "pdcp_out \<Rightarrow> u16" where
  "out_lcid out = (case out of ToUm _ i \<Rightarrow> fi_lcid i | ToAm _ i \<Rightarrow> fi_lcid i | ToTm _ i \<Rightarrow> fi_lcid i
     | ToData _ _ \<Rightarrow> 0 | ToRrc _ \<Rightarrow> 0)"

text \<open>The number of a flow in a stream: how many other flows appear before it, and one more.\<close>

definition flow_number :: "conn_key list \<Rightarrow> conn_key \<Rightarrow> nat" where
  "flow_number ks k = Suc (card (set (takeWhile (\<lambda>x. x \<noteq> k) ks)))"

lemma flow_number_code: "flow_number ks k = Suc (length (remdups (takeWhile (\<lambda>x. x \<noteq> k) ks)))"
  by (simp only: flow_number_def length_remdups_card_conv)

lemma flow_number_known: "k \<in> set ks \<Longrightarrow> flow_number (ks @ ys) k = flow_number ks k"
  by (simp add: flow_number_def takeWhile_append1)

lemma flow_number_new: "k \<notin> set ks \<Longrightarrow> flow_number (ks @ k # ys) k = Suc (card (set ks))"
  unfolding flow_number_def by (subst takeWhile_append2) auto

lemma flow_number_le: "k \<in> set ks \<Longrightarrow> flow_number ks k \<le> card (set ks)"
proof -
  assume k: "k \<in> set ks"
  have "set (takeWhile (\<lambda>x. x \<noteq> k) ks) \<subset> set ks" using k set_takeWhileD by fastforce
  from psubset_card_mono[OF _ this] show ?thesis by (simp add: flow_number_def)
qed

text \<open>After the flows \<open>ks\<close>: the table holds the number of each, and the next number is free.\<close>

definition numbered :: "conn_key list \<Rightarrow> pdcp \<Rightarrow> bool" where
  "numbered ks p \<longleftrightarrow> table_ok (pd_ht p) \<and> pd_lcid p = of_nat (Suc (card (set ks))) \<and>
     connections (pd_ht p) = (\<lambda>k. if k \<in> set ks then Some (of_nat (flow_number ks k)) else None)"

lemma numbered_fresh: "pdcp_fresh p \<Longrightarrow> numbered [] p"
  using conn_table_new_ok by (simp add: numbered_def pdcp_fresh_def)

lemma numbered_free:
  assumes "numbered ks p"
  shows "(\<exists>j < TABLE_SIZE. \<not> occupied (pd_ht p ! j)) \<longleftrightarrow> card (set ks) < TABLE_SIZE"
proof -
  have t: "table_ok (pd_ht p)" and c: "connections (pd_ht p) = (\<lambda>k. if k \<in> set ks then Some (of_nat (flow_number ks k)) else None)"
    using assms by (auto simp: numbered_def)
  have "dom (connections (pd_ht p)) = set ks" unfolding c by (auto simp: dom_def)
  then show ?thesis using connections_dom[OF t] by simp
qed

lemma lcid_not_free: "n \<le> TABLE_SIZE \<Longrightarrow> (of_nat n :: u16) \<noteq> 0xFFFF"
proof
  assume n: "n \<le> TABLE_SIZE" and "(of_nat n :: u16) = 0xFFFF"
  then have "unat (of_nat n :: u16) = 65535" by simp
  moreover have "unat (of_nat n :: u16) = n" using n by (simp add: unat_of_nat TABLE_SIZE_def)
  ultimately show False using n by (simp add: TABLE_SIZE_def)
qed

lemma request_lcid_known:
  assumes "numbered ks p" "k \<in> set ks" "card (set ks) \<le> TABLE_SIZE"
  shows "request_lcid k p = Inr (of_nat (flow_number ks k), p)"
proof -
  have "find_entry k (pd_ht p) = Inr (of_nat (flow_number ks k))"
    using assms(1,2) by (intro find_entry_known) (simp_all add: numbered_def)
  then show ?thesis using lcid_not_free[of "flow_number ks k"] flow_number_le[OF assms(2)] assms(3)
    by (simp add: request_lcid_def)
qed

lemma request_lcid_new:
  assumes num: "numbered ks p" and k: "k \<notin> set ks" and c: "card (set ks) < TABLE_SIZE"
  shows "\<exists>ht. request_lcid k p = Inr (pd_lcid p, p\<lparr>pd_lcid := pd_lcid p + 1, pd_ht := ht\<rparr>) \<and>
    numbered (ks @ [k]) (p\<lparr>pd_lcid := pd_lcid p + 1, pd_ht := ht\<rparr>)"
proof -
  have t: "table_ok (pd_ht p)" and l: "pd_lcid p = of_nat (Suc (card (set ks)))"
    and cn: "connections (pd_ht p) = (\<lambda>k. if k \<in> set ks then Some (of_nat (flow_number ks k)) else None)"
    using num by (auto simp: numbered_def)
  have n: "connections (pd_ht p) k = None" using k by (simp add: cn)
  obtain j where j: "j < TABLE_SIZE" "\<not> occupied (pd_ht p ! j)" using numbered_free[OF num] c by blast
  then have f: "find_entry k (pd_ht p) = Inr 0xFFFF" using find_entry_unknown[OF t n] by auto
  have "pd_lcid p \<noteq> 0xFFFF" unfolding l using c by (intro lcid_not_free) simp
  from create_entry_ok[OF t n this j] obtain ht where
    ht: "create_entry k (pd_lcid p) (pd_ht p) = Inr ht" "table_ok ht" "connections ht = (connections (pd_ht p))(k \<mapsto> pd_lcid p)"
    by blast
  have "connections ht = (\<lambda>k'. if k' \<in> set (ks @ [k]) then Some (of_nat (flow_number (ks @ [k]) k')) else None)"
    using flow_number_new[OF k, of "[]"] flow_number_known[of _ ks "[k]"] by (auto simp: ht(3) cn l fun_eq_iff)
  then have "numbered (ks @ [k]) (p\<lparr>pd_lcid := pd_lcid p + 1, pd_ht := ht\<rparr>)"
    using ht(2) k by (simp add: numbered_def l)
  then show ?thesis using f ht(1) by (intro exI[of _ ht]) (simp add: request_lcid_def)
qed

lemma request_lcid_full:
  assumes num: "numbered ks p" and k: "k \<notin> set ks" and c: "card (set ks) = TABLE_SIZE"
  shows "request_lcid k p = Inl NoReturn"
proof -
  have t: "table_ok (pd_ht p)" and n: "connections (pd_ht p) k = None" using num k by (auto simp: numbered_def)
  show ?thesis using find_entry_unknown[OF t n] numbered_free[OF num] c by (simp add: request_lcid_def)
qed

section \<open>What a packet becomes\<close>

lemma setTrafficInformation_keeps [simp]:
  "fi_sourceId (setTrafficInformation p pkt i) = fi_sourceId i"
  "fi_srcAddr (setTrafficInformation p pkt i) = fi_srcAddr i"
  "fi_dstAddr (setTrafficInformation p pkt i) = fi_dstAddr i"
  "fi_srcPort (setTrafficInformation p pkt i) = fi_srcPort i"
  "fi_dstPort (setTrafficInformation p pkt i) = fi_dstPort i"
  "fi_headerSize (setTrafficInformation p pkt i) = fi_headerSize i"
  "fi_sequenceNumber (setTrafficInformation p pkt i) = fi_sequenceNumber i"
  "fi_direction (setTrafficInformation p pkt i) = getDirection p"
  by (simp_all add: setTrafficInformation_def Let_def)

lemma getDestId_cong:
  "fi_dstAddr i = fi_dstAddr j \<Longrightarrow> getDestId b p i = getDestId b p j"
  by (simp add: getDestId_def split: pdcp_kind.split)

lemma fromDataPort_fails:
  assumes "sendable b p (pkt, info)" "request_lcid (flow_key b p (pkt, info)) p = Inl e"
  shows "fromDataPort b pkt info p = Inl e"
proof -
  have d: "getDestId b p (setTrafficInformation p pkt info) = getDestId b p info" by (rule getDestId_cong) simp
  obtain dst where g: "getDestId b p info = Inr dst" using assms(1) by (auto simp: sendable_def is_ok_iff)
  obtain pk where h: "headerCompress p pkt (fi_headerSize info) = Inr pk"
    using assms(1) by (auto simp: sendable_def is_ok_iff)
  show ?thesis using assms(2) by (simp add: fromDataPort_def Let_def d g h flow_key_def)
qed

text \<open>The packet that leaves, with the flow information that travels with it.\<close>

lemma fromDataPort_sends:
  assumes "sendable b p (pkt, info)" "request_lcid (flow_key b p (pkt, info)) p = Inr (l, p')"
  shows "\<exists>pk info'. headerCompress p pkt (fi_headerSize info) = Inr pk \<and>
    fromDataPort b pkt info p = Inr (p',
      if fi_rlcType info' = RLC_UM then ToUm \<lparr>pp_bytes = PDCP_HEADER_UM + dp_bytes pk, pp_pkt = pk\<rparr> info'
      else ToAm \<lparr>pp_bytes = PDCP_HEADER_AM + dp_bytes pk, pp_pkt = pk\<rparr> info') \<and>
    fi_lcid info' = l \<and> fi_headerSize info' = fi_headerSize info \<and> fi_direction info' = getDirection p \<and>
    fi_sequenceNumber info' = fi_sequenceNumber info \<and> fi_sourceId info' = pd_nodeId p' \<and>
    Inr (fi_destId info') = getDestId b p info"
proof -
  have d: "getDestId b p (setTrafficInformation p pkt info) = getDestId b p info" by (rule getDestId_cong) simp
  obtain dst where g: "getDestId b p info = Inr dst" using assms(1) by (auto simp: sendable_def is_ok_iff)
  obtain pk where h: "headerCompress p pkt (fi_headerSize info) = Inr pk"
    using assms(1) by (auto simp: sendable_def is_ok_iff)
  let ?info' = "(setTrafficInformation p pkt info)\<lparr>fi_destId := dst, fi_lcid := l, fi_sourceId := pd_nodeId p'\<rparr>"
  show ?thesis using assms(2)
    by (intro exI[of _ pk] exI[of _ ?info']) (simp add: fromDataPort_def Let_def d g h flow_key_def)
qed

section \<open>Flows are numbered\<close>

text \<open>A packet changes only the table and the counter.\<close>

definition same_node :: "pdcp \<Rightarrow> pdcp \<Rightarrow> bool" where
  "same_node p p' \<longleftrightarrow> pd_kind p' = pd_kind p \<and> pd_nodeId p' = pd_nodeId p \<and>
     pd_headerCompressedSize p' = pd_headerCompressedSize p"

lemma same_node_flow:
  assumes "same_node p p'"
  shows "flow_key b p' a = flow_key b p a" "sendable b p' a = sendable b p a"
proof -
  have g: "getDestId b p' i = getDestId b p i" for i
    using assms by (simp add: getDestId_def same_node_def split: pdcp_kind.split)
  have h: "headerCompress p' pkt n = headerCompress p pkt n" for pkt n
    using assms by (simp add: headerCompress_def same_node_def)
  show "flow_key b p' a = flow_key b p a" "sendable b p' a = sendable b p a"
    by (simp_all add: flow_key_def sendable_def g h)
qed

lemma from_data_step:
  assumes num: "numbered ks p" and s: "sendable b p a" and c: "card (set (ks @ [flow_key b p a])) \<le> TABLE_SIZE"
  shows "\<exists>p' out. from_data_one b a (p, outs) = Inr (p', outs @ [out]) \<and> same_node p p' \<and>
    numbered (ks @ [flow_key b p a]) p' \<and>
    out_lcid out = of_nat (flow_number (ks @ [flow_key b p a]) (flow_key b p a))"
proof -
  let ?k = "flow_key b p a"
  obtain pkt info where a: "a = (pkt, info)" by (cases a)
  have "\<exists>p'. request_lcid ?k p = Inr (of_nat (flow_number (ks @ [?k]) ?k), p') \<and> same_node p p' \<and> numbered (ks @ [?k]) p'"
  proof (cases "?k \<in> set ks")
    case True
    have "numbered (ks @ [?k]) p"
      using num True flow_number_known[of _ ks "[?k]"] by (auto simp: numbered_def insert_absorb fun_eq_iff)
    moreover have "card (set ks) \<le> TABLE_SIZE" using c True by (simp add: insert_absorb)
    ultimately show ?thesis using request_lcid_known[OF num True] flow_number_known[OF True]
      by (auto simp: same_node_def)
  next
    case False
    then have "card (set ks) < TABLE_SIZE" using c by simp
    moreover have "pd_lcid p = of_nat (flow_number (ks @ [?k]) ?k)"
      using flow_number_new[OF False, of "[]"] num by (simp add: numbered_def)
    ultimately show ?thesis using request_lcid_new[OF num False] by (auto simp: same_node_def)
  qed
  then obtain p' where p': "request_lcid ?k p = Inr (of_nat (flow_number (ks @ [?k]) ?k), p')" "same_node p p'"
    "numbered (ks @ [?k]) p'" by blast
  obtain out where "fromDataPort b pkt info p = Inr (p', out)" "out_lcid out = of_nat (flow_number (ks @ [?k]) ?k)"
    using fromDataPort_sends[OF s[unfolded a] p'(1)[unfolded a]] by (auto simp: out_lcid_def a split: if_splits)
  then show ?thesis using p'(2,3) by (auto simp: from_data_one_def a)
qed

lemma from_data_loop:
  assumes "numbered ks p" "list_all (sendable b p) ps"
    and "card (set (ks @ map (flow_key b p) ps)) \<le> TABLE_SIZE"
  shows "\<exists>p' os. foldE (from_data_one b) ps (p, outs) = Inr (p', outs @ os) \<and> same_node p p' \<and>
    numbered (ks @ map (flow_key b p) ps) p' \<and>
    map out_lcid os = map (\<lambda>a. of_nat (flow_number (ks @ map (flow_key b p) ps) (flow_key b p a))) ps"
  using assms
proof (induction ps arbitrary: ks p outs)
  case Nil
  then show ?case by (simp add: same_node_def)
next
  case (Cons a ps)
  let ?k = "flow_key b p a"
  have "set (ks @ [?k]) \<subseteq> set (ks @ map (flow_key b p) (a # ps))" by auto
  then have "card (set (ks @ [?k])) \<le> TABLE_SIZE"
    using card_mono[OF finite_set] Cons.prems(3) le_trans by blast
  then obtain p1 out where s: "from_data_one b a (p, outs) = Inr (p1, outs @ [out])" "same_node p p1"
    "numbered (ks @ [?k]) p1" "out_lcid out = of_nat (flow_number (ks @ [?k]) ?k)"
    using from_data_step[OF Cons.prems(1), of b a outs] Cons.prems(2) by auto
  note f = same_node_flow[OF s(2)]
  have fk: "flow_key b p1 = flow_key b p" by (rule ext) (rule f(1))
  have c: "card (set ((ks @ [?k]) @ map (flow_key b p) ps)) \<le> TABLE_SIZE" using Cons.prems(3) by simp
  have l: "list_all (sendable b p1) ps" using Cons.prems(2) by (simp add: f list_all_iff)
  obtain p' os where r: "foldE (from_data_one b) ps (p1, outs @ [out]) = Inr (p', (outs @ [out]) @ os)" "same_node p1 p'"
    "numbered ((ks @ [?k]) @ map (flow_key b p) ps) p'"
    "map out_lcid os = map (\<lambda>a. of_nat (flow_number ((ks @ [?k]) @ map (flow_key b p) ps) (flow_key b p a))) ps"
    using Cons.IH[OF s(3) l, of "outs @ [out]"] c unfolding fk by blast
  have "flow_number ((ks @ [?k]) @ map (flow_key b p) ps) ?k = flow_number (ks @ [?k]) ?k"
    by (rule flow_number_known) simp
  then show ?case using s r
    by (intro exI[of _ p'] exI[of _ "out # os"]) (simp add: same_node_def)
qed

text \<open>A packet without a destination, or whose length the compression makes negative, ends the stream.\<close>

lemma fromDataPort_sendable: "is_ok (fromDataPort b pkt info p) \<Longrightarrow> sendable b p (pkt, info)"
proof -
  assume ok: "is_ok (fromDataPort b pkt info p)"
  have "getDestId b p (setTrafficInformation p pkt info) = getDestId b p info" by (rule getDestId_cong) simp
  then show ?thesis using ok by (auto simp: sendable_def fromDataPort_def Let_def is_ok_def split: sum.splits)
qed

lemma from_data_unsendable:
  assumes num: "numbered [] p" and c: "card (set (map (flow_key b p) ps)) \<le> TABLE_SIZE" and bad: "\<not> list_all (sendable b p) ps"
  shows "\<not> is_ok (from_data b ps p)"
proof -
  obtain xs a ys where ps: "ps = xs @ a # ys" "\<not> sendable b p a" "list_all (sendable b p) xs"
    using bad split_list_first_prop[of ps "\<lambda>a. \<not> sendable b p a"] by (auto simp: list_all_iff)
  have "card (set (map (flow_key b p) xs)) \<le> card (set (map (flow_key b p) ps))" by (rule card_mono) (auto simp: ps(1))
  then obtain p' os where r: "foldE (from_data_one b) xs (p, []) = Inr (p', os)" "same_node p p'"
    using from_data_loop[OF num ps(3), of "[]"] c by auto
  have "\<not> is_ok (fromDataPort b (fst a) (snd a) p')"
    using fromDataPort_sendable[of b "fst a" "snd a" p'] ps(2) by (auto simp: same_node_flow(2)[OF r(2)])
  then show ?thesis by (auto simp: from_data_def ps(1) foldE_append r(1) from_data_one_def)
qed

text \<open>
  C17: A layer that has seen no packet yet numbers its flows in the order they appear.  Take any
  stream of packets that belongs to at most 2048 flows (4-tuples of source node, destination node
  and ports).  It is processed without an error exactly when every packet of it can be sent, that is
  when the binder knows the next hop its destination is taken from and the header compression leaves it
  a length of 0 or more.  Then every packet leaves, and its logical connection identifier is the number
  of flows that appear in the stream before its own, plus one.  So a flow keeps one identifier for ever
  and two flows never share one.
\<close>
theorem lcid_by_first_appearance:
  assumes "pdcp_fresh p" "card (set (map (flow_key b p) ps)) \<le> TABLE_SIZE"
  shows "if list_all (sendable b p) ps
    then \<exists>p' outs. from_data b ps p = Inr (p', outs) \<and>
      map out_lcid outs = map (\<lambda>a. of_nat (flow_number (map (flow_key b p) ps) (flow_key b p a))) ps
    else \<not> is_ok (from_data b ps p)"
proof (cases "list_all (sendable b p) ps")
  case True
  then show ?thesis using from_data_loop[OF numbered_fresh[OF assms(1)] True, of "[]"] assms(2) by (auto simp: from_data_def)
qed (use from_data_unsendable[OF numbered_fresh[OF assms(1)] assms(2)] in simp)

text \<open>
  C40: The connection table holds 2048 flows and nothing is ever removed from it: after a stream of
  packets of exactly 2048 flows, the next packet of a further flow makes the search for its entry
  run for ever.
\<close>
theorem connection_table_full:
  assumes "pdcp_fresh p" "list_all (sendable b p) (ps @ [a])" "card (set (map (flow_key b p) ps)) = TABLE_SIZE"
    and "flow_key b p a \<notin> set (map (flow_key b p) ps)"
  shows "from_data b (ps @ [a]) p = Inl NoReturn"
proof -
  have "list_all (sendable b p) ps" using assms(2) by simp
  then obtain p' os where r: "foldE (from_data_one b) ps (p, []) = Inr (p', os)" "same_node p p'"
    "numbered (map (flow_key b p) ps) p'"
    using from_data_loop[OF numbered_fresh[OF assms(1)], of b ps "[]"] assms(3) by auto
  note f = same_node_flow[OF r(2)]
  obtain pkt info where a: "a = (pkt, info)" by (cases a)
  have "request_lcid (flow_key b p' a) p' = Inl NoReturn"
    using request_lcid_full[OF r(3)] assms(3,4) by (simp add: f)
  then have "fromDataPort b pkt info p' = Inl NoReturn"
    using assms(2) by (intro fromDataPort_fails) (simp_all add: f a)
  then show ?thesis using r(1) by (simp add: from_data_def foldE_append from_data_one_def a)
qed

section \<open>Instances\<close>

text \<open>A UE whose master is node 1, and a packet of a flow with the given source port.\<close>

definition ex_binder :: lte_binder where
  "ex_binder = registerNextHop 1 1025 binder_new"

definition ex_ue :: pdcp where
  "ex_ue = \<lparr>pd_kind = PdcpUe, pd_headerCompressedSize = 3, pd_lcid = 1, pd_ht = conn_table_new, pd_nodeId = 1025,
     pd_conversationalRlc = 1, pd_interactiveRlc = 1, pd_streamingRlc = 1, pd_backgroundRlc = 1,
     pd_dropMap = (\<lambda>_. None)\<rparr>"

definition ex_packet :: "u16 \<Rightarrow> data_pkt \<times> flow_info" where
  "ex_packet port = (\<lparr>dp_id = 99, dp_name = ''VoIP'', dp_bytes = 60\<rparr>, flow_info_zero
     \<lparr>fi_sourceId := 1025, fi_srcPort := port, fi_dstPort := 80, fi_headerSize := 28, fi_sequenceNumber := 8\<rparr>)"

lemma ex_getDestId: "getDestId ex_binder ex_ue i = Inr 1"
  by (simp add: getDestId_def ex_ue_def ex_binder_def getNextHop_register)

lemma ex_sendable: "sendable ex_binder ex_ue (ex_packet port)"
proof -
  have "is_ok (headerCompress ex_ue (fst (ex_packet port)) (fi_headerSize (snd (ex_packet port))))"
    by (simp add: is_ok_iff ex_packet_def headerCompress_def ex_ue_def setByteLength_def)
  then show ?thesis by (simp add: sendable_def ex_getDestId is_ok_iff)
qed

lemma ex_flow_key: "flow_key ex_binder ex_ue (ex_packet port) = (1025, 1, port, 80)"
  by (simp add: flow_key_def ex_getDestId ex_packet_def)

lemma ex_fresh: "pdcp_fresh ex_ue"
  by (simp add: pdcp_fresh_def ex_ue_def)

theorem lcid_by_first_appearance_witness:
  "\<exists>p' outs. from_data ex_binder (map ex_packet [5000, 5002, 5000, 7]) ex_ue = Inr (p', outs) \<and>
    map out_lcid outs = [1, 2, 1, 3]"
proof -
  let ?ps = "map ex_packet [5000, 5002, 5000, 7]"
  have k: "map (flow_key ex_binder ex_ue) ?ps = map (\<lambda>x. (1025, 1, x, 80)) [5000, 5002, 5000, 7]"
    by (simp add: ex_flow_key)
  have "card (set (map (flow_key ex_binder ex_ue) ?ps)) \<le> TABLE_SIZE" 
    using card_length[of "map (flow_key ex_binder ex_ue) ?ps"] by (simp add: TABLE_SIZE_def)
  moreover have "list_all (sendable ex_binder ex_ue) ?ps" by (simp add: ex_sendable)
  moreover have "map (\<lambda>a. of_nat (flow_number (map (flow_key ex_binder ex_ue) ?ps) (flow_key ex_binder ex_ue a)) :: u16) ?ps
      = [1, 2, 1, 3]" unfolding k by (simp add: ex_flow_key flow_number_code)
  ultimately show ?thesis using lcid_by_first_appearance[OF ex_fresh, of ex_binder ?ps] by simp
qed

theorem connection_table_full_witness:
  "from_data ex_binder (map (\<lambda>i. ex_packet (of_nat i)) [0..<2048] @ [ex_packet 2048]) ex_ue = Inl NoReturn"
proof -
  let ?ps = "map (\<lambda>i. ex_packet (of_nat i)) [0..<2048]"
  have k: "map (flow_key ex_binder ex_ue) ?ps = map (\<lambda>i. (1025, 1, of_nat i, 80)) [0..<2048]"
    by (simp add: ex_flow_key comp_def)
  have inj: "i = j" if "(of_nat i :: u16) = of_nat j" "i \<le> 2048" "j \<le> 2048" for i j
    using arg_cong[OF that(1), of unat] that(2,3) by (simp add: unat_of_nat)
  let ?f = "\<lambda>i. (1025 :: u32, 1 :: u32, of_nat i :: u16, 80 :: u16)"
  have "inj_on ?f {..2048}" by (rule inj_onI) (use inj in simp)
  moreover have "set [0..<2048] \<subseteq> {..2048}" by (simp only: set_upt) auto
  ultimately have "inj_on ?f (set [0..<2048])" by (rule inj_on_subset)
  from card_image[OF this] have c: "card (set (map (flow_key ex_binder ex_ue) ?ps)) = TABLE_SIZE"
    unfolding k set_map by (simp only: set_upt card_atLeastLessThan TABLE_SIZE_def diff_zero)
  have n: "flow_key ex_binder ex_ue (ex_packet 2048) \<notin> set (map (flow_key ex_binder ex_ue) ?ps)"
  proof
    assume "flow_key ex_binder ex_ue (ex_packet 2048) \<in> set (map (flow_key ex_binder ex_ue) ?ps)"
    then obtain i where i: "i < 2048" "?f i = (1025, 1, 2048, 80)"
      unfolding k ex_flow_key set_map set_upt by (elim imageE) simp
    then show False using inj[of i 2048] by simp
  qed
  have s: "list_all (sendable ex_binder ex_ue) (?ps @ [ex_packet 2048])" by (simp add: list_all_iff ex_sendable)
  show ?thesis by (rule connection_table_full[OF ex_fresh s c n])
qed

end
