(* ===== verification/Timers.thy ===== *)
theory Timers
  imports Prelude
begin

text \<open>
  The timers of the LTE stack (\<^verbatim>\<open>simulte/src/common/timer/TTimer.cc\<close>): the one-shot \<open>TTimer\<close> and
  the \<open>TMultiTimer\<close>, which keeps many events and one message in the event queue of the simulation
  kernel, for the earliest of them.  An operation returns the calls it makes to the kernel.  What
  these calls do (\<open>scheduleAt\<close> adds a message, \<open>cancelAndDelete\<close> removes one, a message is delivered
  when its time has come) is stated by \<open>kernel_call\<close> and the step relation, from which it is
  proved that the message in the queue is always that of the earliest event and that no event is
  ever overdue.
\<close>

section \<open>Kernel calls\<close>

text \<open>A timer message: its identity, the number of the timer and the event.\<close>

record timer_msg =
  tm_ref :: nat
  tm_timerId :: u32
  tm_event :: u32

datatype kernel_call = ScheduleAt simtime timer_msg | CancelAndDelete nat

section \<open>The one-shot timer\<close>

record ttimer =
  tt_timerId :: u32
  tt_busy :: bool
  tt_start :: simtime
  tt_expire :: simtime
  tt_intr :: nat
  tt_msgs :: nat

definition tt_new :: ttimer where
  "tt_new = \<lparr>tt_timerId = 0, tt_busy = False, tt_start = 0, tt_expire = 0, tt_intr = 0, tt_msgs = 0\<rparr>"

definition tt_setTimerId :: "u32 \<Rightarrow> ttimer \<Rightarrow> ttimer" where
  "tt_setTimerId i t = t\<lparr>tt_timerId := i\<rparr>"

definition tt_startOp :: "simtime \<Rightarrow> simtime \<Rightarrow> ttimer \<Rightarrow> ttimer \<times> kernel_call list" where
  "tt_startOp now d t =
     (if tt_busy t then (t, [])
      else (t\<lparr>tt_intr := tt_msgs t, tt_msgs := tt_msgs t + 1, tt_busy := True, tt_start := now,
              tt_expire := now + d\<rparr>,
            [ScheduleAt (d + now) \<lparr>tm_ref = tt_msgs t, tm_timerId = tt_timerId t, tm_event = 0\<rparr>]))"

definition tt_stop :: "ttimer \<Rightarrow> ttimer \<times> kernel_call list" where
  "tt_stop t = (t\<lparr>tt_busy := False\<rparr>, if tt_busy t then [CancelAndDelete (tt_intr t)] else [])"

definition tt_handle :: "ttimer \<Rightarrow> ttimer" where
  "tt_handle t = t\<lparr>tt_busy := False\<rparr>"

definition tt_idle :: "ttimer \<Rightarrow> bool" where
  "tt_idle t \<longleftrightarrow> \<not> tt_busy t"

definition tt_elapsed :: "simtime \<Rightarrow> ttimer \<Rightarrow> simtime" where
  "tt_elapsed now t = now - tt_start t"

definition tt_remaining :: "simtime \<Rightarrow> ttimer \<Rightarrow> simtime" where
  "tt_remaining now t = tt_expire t - now"

section \<open>The multi-timer\<close>

text \<open>
  \<open>directList_\<close> is a multimap from the expiry time to the event: a list sorted by time, whose nodes
  have an identity that stands for the iterators kept in \<open>reverseList_\<close>.
\<close>

record timer_node =
  tn_id :: nat
  tn_time :: simtime
  tn_event :: u32

record multi_timer =
  mt_timerId :: u32
  mt_busy :: bool
  mt_direct :: "timer_node list"
  mt_reverse :: "u32 \<Rightarrow> nat option"
  mt_intr :: nat
  mt_nodes :: nat
  mt_msgs :: nat

definition mt_new :: multi_timer where
  "mt_new = \<lparr>mt_timerId = 0, mt_busy = False, mt_direct = [], mt_reverse = (\<lambda>_. None), mt_intr = 0,
     mt_nodes = 0, mt_msgs = 0\<rparr>"

definition mt_setTimerId :: "u32 \<Rightarrow> multi_timer \<Rightarrow> multi_timer" where
  "mt_setTimerId i t = t\<lparr>mt_timerId := i\<rparr>"

text \<open>Insertion into the multimap, with the end as hint: after the elements of equal key.\<close>

fun node_insert :: "timer_node \<Rightarrow> timer_node list \<Rightarrow> timer_node list" where
  "node_insert n [] = [n]"
| "node_insert n (m # ms) = (if tn_time m \<le> tn_time n then m # node_insert n ms else n # m # ms)"

text \<open>Schedule the message of an event at a time, as the new \<open>intr_\<close>.\<close>

definition mt_schedule :: "simtime \<Rightarrow> u32 \<Rightarrow> multi_timer \<Rightarrow> multi_timer \<times> kernel_call" where
  "mt_schedule time ev t = (t\<lparr>mt_intr := mt_msgs t, mt_msgs := mt_msgs t + 1\<rparr>,
     ScheduleAt time \<lparr>tm_ref = mt_msgs t, tm_timerId = mt_timerId t, tm_event = ev\<rparr>)"

definition mt_add ::
  "simtime \<Rightarrow> simtime \<Rightarrow> u32 \<Rightarrow> multi_timer \<Rightarrow> (multi_timer \<times> kernel_call list) result" where
  "mt_add now time ev t =
     bindE (if mt_busy t
            then (case mt_direct t of [] \<Rightarrow> Inl (Undefined ''dereference of end iterator'')
                  | n # _ \<Rightarrow> Inr (tn_time n - now))
            else Inr simtime_s) (\<lambda>remaining.
       let node = \<lparr>tn_id = mt_nodes t, tn_time = now + time, tn_event = ev\<rparr>;
           t1 = t\<lparr>mt_direct := node_insert node (mt_direct t), mt_nodes := mt_nodes t + 1\<rparr>
       in if mt_reverse t ev \<noteq> None
          then Inl (RuntimeError ''TMultiTimer::add(): element already exists'')
          else let t2 = t1\<lparr>mt_reverse := (mt_reverse t1)(ev := Some (tn_id node))\<rparr>
               in if \<not> mt_busy t \<or> time < remaining
                  then (case mt_schedule (time + now) ev t2 of (t3, call) \<Rightarrow>
                          Inr (t3\<lparr>mt_busy := True\<rparr>,
                               (if mt_busy t then [CancelAndDelete (mt_intr t)] else []) @ [call]))
                  else Inr (t2\<lparr>mt_busy := True\<rparr>, []))"

definition mt_busyEvent :: "u32 \<Rightarrow> multi_timer \<Rightarrow> bool" where
  "mt_busyEvent ev t \<longleftrightarrow> mt_reverse t ev \<noteq> None"

text \<open>The common tail of \<open>handle\<close> and \<open>remove\<close>: schedule the earliest event left, if any.\<close>

definition mt_reschedule :: "multi_timer \<Rightarrow> multi_timer \<times> kernel_call list" where
  "mt_reschedule t = (case mt_direct t of
      [] \<Rightarrow> (t\<lparr>mt_busy := False\<rparr>, [])
    | n # _ \<Rightarrow> (case mt_schedule (tn_time n) (tn_event n) t of (t', call) \<Rightarrow> (t', [call])))"

text \<open>\<open>handle\<close> pops the earliest event, whatever its argument says.\<close>

definition mt_handle :: "u32 \<Rightarrow> multi_timer \<Rightarrow> (multi_timer \<times> kernel_call list) result" where
  "mt_handle ev t = (case mt_direct t of
      [] \<Rightarrow> Inl (RuntimeError ''TMultiTimer::handle(): The list is empty'')
    | n # rest \<Rightarrow>
        Inr (mt_reschedule (t\<lparr>mt_reverse := (mt_reverse t)(tn_event n := None), mt_direct := rest\<rparr>)))"

definition mt_remove :: "u32 \<Rightarrow> multi_timer \<Rightarrow> (multi_timer \<times> kernel_call list) result" where
  "mt_remove ev t = (case mt_reverse t ev of
      None \<Rightarrow> Inl (RuntimeError ''TMultiTimer::remove(): element not found'')
    | Some nid \<Rightarrow>
        let direct' = filter (\<lambda>n. tn_id n \<noteq> nid) (mt_direct t);
            (t', calls) =
              (if mt_direct t \<noteq> [] \<and> tn_id (hd (mt_direct t)) = nid
               then (case mt_reschedule (t\<lparr>mt_direct := direct'\<rparr>) of (t1, cs) \<Rightarrow>
                       (t1, CancelAndDelete (mt_intr t) # cs))
               else (t\<lparr>mt_direct := direct'\<rparr>, []))
        in Inr (t'\<lparr>mt_reverse := (mt_reverse t')(ev := None)\<rparr>, calls))"

section \<open>Sound multi-timers\<close>

definition nodes_sorted :: "timer_node list \<Rightarrow> bool" where
  "nodes_sorted ns \<longleftrightarrow> sorted (map tn_time ns)"

definition mt_ok :: "multi_timer \<Rightarrow> bool" where
  "mt_ok t \<longleftrightarrow> nodes_sorted (mt_direct t) \<and> distinct (map tn_id (mt_direct t)) \<and>
     distinct (map tn_event (mt_direct t)) \<and> (\<forall>n \<in> set (mt_direct t). tn_id n < mt_nodes t) \<and>
     (\<forall>ev i. mt_reverse t ev = Some i \<longleftrightarrow> (\<exists>n \<in> set (mt_direct t). tn_event n = ev \<and> tn_id n = i)) \<and>
     mt_busy t = (mt_direct t \<noteq> []) \<and> (mt_busy t \<longrightarrow> mt_intr t < mt_msgs t)"

lemma set_node_insert [simp]: "set (node_insert n ns) = insert n (set ns)"
  by (induction ns) auto

lemma node_insert_sorted: "nodes_sorted ns \<Longrightarrow> nodes_sorted (node_insert n ns)"
  by (induction ns) (auto simp: nodes_sorted_def)

lemma distinct_map_node_insert:
  "distinct (map f (node_insert n ns)) \<longleftrightarrow> f n \<notin> f ` set ns \<and> distinct (map f ns)"
  by (induction ns) auto

lemma node_insert_first:
  "node_insert n ns = (if ns = [] \<or> tn_time n < tn_time (hd ns) then n # ns
                       else hd ns # node_insert n (tl ns))"
  by (cases ns) auto

lemma mt_ok_new: "mt_ok mt_new"
  by (simp add: mt_ok_def mt_new_def nodes_sorted_def)

lemma mt_ok_busyEvent:
  "mt_ok t \<Longrightarrow> mt_busyEvent ev t \<longleftrightarrow> ev \<in> tn_event ` set (mt_direct t)"
  unfolding mt_ok_def mt_busyEvent_def by (metis (no_types, lifting) image_iff not_Some_eq)

text \<open>The expiry time of an event, seen as a map: the abstract state of the timer.\<close>

definition mt_events :: "multi_timer \<Rightarrow> (u32 \<times> simtime) list" where
  "mt_events t = map (\<lambda>n. (tn_event n, tn_time n)) (mt_direct t)"

definition mt_abs :: "multi_timer \<Rightarrow> u32 \<Rightarrow> simtime option" where
  "mt_abs t = map_of (mt_events t)"

lemma mt_schedule_simps [simp]:
  "mt_schedule time ev t = (t', call) \<longleftrightarrow>
     t' = t\<lparr>mt_intr := mt_msgs t, mt_msgs := mt_msgs t + 1\<rparr> \<and>
     call = ScheduleAt time \<lparr>tm_ref = mt_msgs t, tm_timerId = mt_timerId t, tm_event = ev\<rparr>"
  by (auto simp: mt_schedule_def)

lemma mt_abs_iff:
  "mt_ok t \<Longrightarrow> mt_abs t ev = Some \<tau> \<longleftrightarrow> (\<exists>n \<in> set (mt_direct t). tn_event n = ev \<and> tn_time n = \<tau>)"
  unfolding mt_abs_def mt_events_def
  by (subst map_of_eq_Some_iff) (auto simp: mt_ok_def comp_def image_iff)

lemma mt_abs_dom: "mt_ok t \<Longrightarrow> mt_busyEvent ev t \<longleftrightarrow> mt_abs t ev \<noteq> None"
  using mt_ok_busyEvent[of t ev] mt_abs_iff[of t ev] by (auto simp: image_iff)

lemma mt_absI:
  assumes "mt_ok t" "\<And>ev \<tau>. m ev = Some \<tau> \<longleftrightarrow> (\<exists>n \<in> set (mt_direct t). tn_event n = ev \<and> tn_time n = \<tau>)"
  shows "mt_abs t = m"
proof
  fix ev
  have "mt_abs t ev = Some \<tau> \<longleftrightarrow> m ev = Some \<tau>" for \<tau> using assms mt_abs_iff by blast
  then show "mt_abs t ev = m ev" by (metis not_Some_eq)
qed

text \<open>What \<open>add\<close>, \<open>remove\<close> and \<open>handle\<close> leave.\<close>

lemma mt_add_effect:
  fixes now d :: simtime
  assumes "mt_ok t" "\<not> mt_busyEvent ev t"
  defines "n \<equiv> \<lparr>tn_id = mt_nodes t, tn_time = now + d, tn_event = ev\<rparr>"
  shows "\<exists>t' calls. mt_add now d ev t = Inr (t', calls) \<and> mt_ok t' \<and>
    mt_direct t' = node_insert n (mt_direct t) \<and> mt_timerId t' = mt_timerId t \<and>
    (if mt_direct t = [] \<or> now + d < tn_time (hd (mt_direct t))
     then mt_intr t' = mt_msgs t \<and>
       calls = (if mt_direct t = [] then [] else [CancelAndDelete (mt_intr t)])
         @ [ScheduleAt (now + d) \<lparr>tm_ref = mt_msgs t, tm_timerId = mt_timerId t, tm_event = ev\<rparr>]
     else mt_intr t' = mt_intr t \<and> calls = [])"
proof -
  have b: "mt_busy t \<longleftrightarrow> mt_direct t \<noteq> []" using assms(1) by (simp add: mt_ok_def)
  have r: "mt_reverse t ev = None" using assms(2) by (simp add: mt_busyEvent_def)
  let ?first = "mt_direct t = [] \<or> now + d < tn_time (hd (mt_direct t))"
  define t' where "t' = t\<lparr>mt_direct := node_insert n (mt_direct t), mt_nodes := mt_nodes t + 1,
      mt_reverse := (mt_reverse t)(ev := Some (mt_nodes t)), mt_busy := True,
      mt_intr := (if ?first then mt_msgs t else mt_intr t),
      mt_msgs := (if ?first then mt_msgs t + 1 else mt_msgs t)\<rparr>"
  have e: "mt_add now d ev t = Inr (t', if ?first
      then (if mt_direct t = [] then [] else [CancelAndDelete (mt_intr t)])
         @ [ScheduleAt (now + d) \<lparr>tm_ref = mt_msgs t, tm_timerId = mt_timerId t, tm_event = ev\<rparr>]
      else [])"
    using b r by (cases "mt_direct t") (auto simp: mt_add_def t'_def n_def mt_schedule_def Let_def algebra_simps)
  have ne: "ev \<notin> tn_event ` set (mt_direct t)" using mt_ok_busyEvent[OF assms(1)] assms(2) by simp
  have ni: "mt_nodes t \<notin> tn_id ` set (mt_direct t)" using assms(1) by (auto simp: mt_ok_def)
  have "mt_ok t'"
    unfolding mt_ok_def
  proof (intro conjI allI)
    show "nodes_sorted (mt_direct t')" using assms(1) by (simp add: t'_def mt_ok_def node_insert_sorted)
    show "distinct (map tn_id (mt_direct t'))" "distinct (map tn_event (mt_direct t'))"
      using assms(1) ne ni by (simp_all add: t'_def mt_ok_def distinct_map_node_insert n_def)
    show "\<forall>n \<in> set (mt_direct t'). tn_id n < mt_nodes t'"
      using assms(1) by (auto simp: t'_def mt_ok_def n_def)
    show "mt_busy t' = (mt_direct t' \<noteq> [])" by (auto simp: t'_def node_insert_first)
    show "mt_busy t' \<longrightarrow> mt_intr t' < mt_msgs t'" using assms(1) by (auto simp: t'_def mt_ok_def)
    fix e i
    have "mt_reverse t e = Some i \<longleftrightarrow> (\<exists>n \<in> set (mt_direct t). tn_event n = e \<and> tn_id n = i)"
      using assms(1) by (simp add: mt_ok_def)
    then show "mt_reverse t' e = Some i \<longleftrightarrow> (\<exists>n \<in> set (mt_direct t'). tn_event n = e \<and> tn_id n = i)"
      using ne by (auto simp: t'_def n_def)
  qed
  then show ?thesis using e by (intro exI[of _ t']) (auto simp: t'_def)
qed

lemma mt_abs_add:
  assumes "mt_ok t" "mt_ok t'" "\<not> mt_busyEvent ev t"
    and "mt_direct t' = node_insert \<lparr>tn_id = i, tn_time = now + d, tn_event = ev\<rparr> (mt_direct t)"
  shows "mt_abs t' = (mt_abs t)(ev := Some (now + d))"
proof (rule mt_absI[OF assms(2)])
  fix e \<tau>
  show "((mt_abs t)(ev := Some (now + d))) e = Some \<tau> \<longleftrightarrow>
      (\<exists>n \<in> set (mt_direct t'). tn_event n = e \<and> tn_time n = \<tau>)"
    using mt_ok_busyEvent[OF assms(1), of ev] assms(3) mt_abs_iff[OF assms(1), of e \<tau>]
    by (auto simp: assms(4) image_iff)
qed

text \<open>Taking one node out.\<close>

lemma mt_reschedule_eq:
  "mt_reschedule t = (case mt_direct t of
      [] \<Rightarrow> (t\<lparr>mt_busy := False\<rparr>, [])
    | n # _ \<Rightarrow> (t\<lparr>mt_intr := mt_msgs t, mt_msgs := mt_msgs t + 1\<rparr>,
        [ScheduleAt (tn_time n) \<lparr>tm_ref = mt_msgs t, tm_timerId = mt_timerId t, tm_event = tn_event n\<rparr>]))"
  by (simp add: mt_reschedule_def mt_schedule_def split: list.splits)

lemma mt_ok_delete:
  assumes "mt_ok t" "n \<in> set (mt_direct t)"
    and "mt_direct t' = filter (\<lambda>m. tn_id m \<noteq> tn_id n) (mt_direct t)" "mt_nodes t' = mt_nodes t"
    and "mt_reverse t' = (mt_reverse t)(tn_event n := None)"
    and "mt_busy t' = (mt_direct t' \<noteq> [])" "mt_busy t' \<longrightarrow> mt_intr t' < mt_msgs t'"
  shows "mt_ok t' \<and> mt_abs t' = (mt_abs t)(tn_event n := None)"
proof -
  let ?ns = "mt_direct t"
  have i1: "inj_on tn_id (set ?ns)" and i2: "inj_on tn_event (set ?ns)"
    using assms(1) by (auto simp: mt_ok_def distinct_map)
  have s: "m \<in> set (mt_direct t') \<longleftrightarrow> m \<in> set ?ns \<and> tn_event m \<noteq> tn_event n" for m
    unfolding assms(3) using inj_onD[OF i1, of m n] inj_onD[OF i2, of m n] assms(2) by auto
  have ok: "mt_ok t'" unfolding mt_ok_def
  proof (intro conjI allI)
    show "nodes_sorted (mt_direct t')"
      using assms(1) unfolding mt_ok_def nodes_sorted_def assms(3) by (simp add: sorted_map sorted_wrt_filter)
    show "distinct (map tn_id (mt_direct t'))" "distinct (map tn_event (mt_direct t'))"
      using assms(1) unfolding mt_ok_def assms(3) by (simp_all add: distinct_map_filter)
    show "\<forall>m \<in> set (mt_direct t'). tn_id m < mt_nodes t'"
      using assms(1) s unfolding mt_ok_def assms(4) by blast
    show "mt_busy t' = (mt_direct t' \<noteq> [])" "mt_busy t' \<longrightarrow> mt_intr t' < mt_msgs t'" by fact+
    fix e i
    have "mt_reverse t e = Some i \<longleftrightarrow> (\<exists>n \<in> set ?ns. tn_event n = e \<and> tn_id n = i)"
      using assms(1) by (simp add: mt_ok_def)
    then show "mt_reverse t' e = Some i \<longleftrightarrow> (\<exists>n \<in> set (mt_direct t'). tn_event n = e \<and> tn_id n = i)"
      unfolding Bex_def s assms(5) by auto
  qed
  moreover have "mt_abs t' = (mt_abs t)(tn_event n := None)"
  proof (rule mt_absI[OF ok])
    fix e \<tau>
    show "((mt_abs t)(tn_event n := None)) e = Some \<tau> \<longleftrightarrow>
        (\<exists>m \<in> set (mt_direct t'). tn_event m = e \<and> tn_time m = \<tau>)"
      unfolding Bex_def s using mt_abs_iff[OF assms(1), of e \<tau>] by auto
  qed
  ultimately show ?thesis by simp
qed

lemma mt_handle_effect:
  assumes "mt_ok t" "mt_direct t = n # rest"
  shows "\<exists>t'. mt_handle ev t = Inr (t', case rest of [] \<Rightarrow> []
        | m # _ \<Rightarrow> [ScheduleAt (tn_time m) \<lparr>tm_ref = mt_msgs t, tm_timerId = mt_timerId t, tm_event = tn_event m\<rparr>])
    \<and> mt_ok t' \<and> mt_direct t' = rest \<and> mt_abs t' = (mt_abs t)(tn_event n := None)
    \<and> mt_timerId t' = mt_timerId t \<and> (rest \<noteq> [] \<longrightarrow> mt_intr t' = mt_msgs t)"
proof -
  let ?t1 = "t\<lparr>mt_reverse := (mt_reverse t)(tn_event n := None), mt_direct := rest\<rparr>"
  let ?t' = "fst (mt_reschedule ?t1)"
  have "distinct (map tn_id (n # rest))" using assms by (simp add: mt_ok_def)
  then have f: "rest = filter (\<lambda>m. tn_id m \<noteq> tn_id n) (mt_direct t)"
    unfolding assms(2) by (auto simp: filter_id_conv image_iff intro!: sym[OF filter_True])
  have d: "mt_direct ?t' = rest" by (simp add: mt_reschedule_eq split: list.splits)
  have b: "mt_busy t" using assms by (simp add: mt_ok_def)
  have "mt_ok ?t' \<and> mt_abs ?t' = (mt_abs t)(tn_event n := None)"
    by (rule mt_ok_delete[OF assms(1)])
      (use assms(2) b f d in \<open>simp_all add: mt_reschedule_eq split: list.splits\<close>)
  then show ?thesis using d
    by (intro exI[of _ ?t']) (simp add: mt_handle_def assms(2) mt_reschedule_eq split: list.splits)
qed

lemma mt_remove_effect:
  assumes "mt_ok t" "n \<in> set (mt_direct t)"
  shows "\<exists>t' calls. mt_remove (tn_event n) t = Inr (t', calls) \<and> mt_ok t' \<and>
    mt_direct t' = filter (\<lambda>m. tn_id m \<noteq> tn_id n) (mt_direct t) \<and>
    mt_abs t' = (mt_abs t)(tn_event n := None) \<and> mt_timerId t' = mt_timerId t \<and>
    (if tn_id (hd (mt_direct t)) = tn_id n
     then calls = CancelAndDelete (mt_intr t) # (case mt_direct t' of [] \<Rightarrow> []
        | m # _ \<Rightarrow> [ScheduleAt (tn_time m) \<lparr>tm_ref = mt_msgs t, tm_timerId = mt_timerId t, tm_event = tn_event m\<rparr>])
        \<and> (mt_direct t' \<noteq> [] \<longrightarrow> mt_intr t' = mt_msgs t)
     else calls = [] \<and> mt_intr t' = mt_intr t \<and> hd (mt_direct t') = hd (mt_direct t) \<and> mt_direct t' \<noteq> [])"
proof -
  have r: "mt_reverse t (tn_event n) = Some (tn_id n)" using assms by (auto simp: mt_ok_def)
  have b: "mt_busy t" and ne: "mt_direct t \<noteq> []" using assms by (auto simp: mt_ok_def)
  have bi: "mt_intr t < mt_msgs t" using assms(1) b by (simp add: mt_ok_def)
  define ns where "ns = filter (\<lambda>m. tn_id m \<noteq> tn_id n) (mt_direct t)"
  define t1 where "t1 = (if tn_id (hd (mt_direct t)) = tn_id n then fst (mt_reschedule (t\<lparr>mt_direct := ns\<rparr>))
      else t\<lparr>mt_direct := ns\<rparr>)"
  define t' where "t' = t1\<lparr>mt_reverse := (mt_reverse t1)(tn_event n := None)\<rparr>"
  define calls where "calls = (if tn_id (hd (mt_direct t)) = tn_id n
      then CancelAndDelete (mt_intr t) # snd (mt_reschedule (t\<lparr>mt_direct := ns\<rparr>)) else [])"
  have e: "mt_remove (tn_event n) t = Inr (t', calls)"
    using r ne by (simp add: mt_remove_def Let_def t'_def t1_def calls_def ns_def split: prod.splits)
  have hn: "hd (mt_direct t) \<in> set ns" if "tn_id (hd (mt_direct t)) \<noteq> tn_id n"
    using that ne by (simp add: ns_def)
  have d: "mt_direct t' = ns" by (simp add: t'_def t1_def mt_reschedule_eq split: list.splits)
  have bt: "mt_busy t' = (ns \<noteq> [])"
    using b hn by (cases "tn_id (hd (mt_direct t)) = tn_id n")
      (auto simp: t'_def t1_def mt_reschedule_eq split: list.splits)
  have "mt_ok t' \<and> mt_abs t' = (mt_abs t)(tn_event n := None)"
    by (rule mt_ok_delete[OF assms])
      (use d bt bi in \<open>simp_all add: ns_def t'_def t1_def mt_reschedule_eq split: list.splits\<close>)
  moreover have "hd ns = hd (mt_direct t)" if "tn_id (hd (mt_direct t)) \<noteq> tn_id n"
    using that ne unfolding ns_def by (cases "mt_direct t") auto
  ultimately show ?thesis using e d hn
    by (intro exI[of _ t'] exI[of _ calls], cases "tn_id (hd (mt_direct t)) = tn_id n")
      (auto simp: ns_def[symmetric] calls_def t'_def t1_def mt_reschedule_eq split: list.splits)
qed

section \<open>The timer and the kernel\<close>

text \<open>
  The messages of the timer in the event queue, with their times.  Scheduling into the past is an
  error, and so is cancelling a message that is not in the queue: its pointer dangles.
\<close>

type_synonym event_queue = "(simtime \<times> timer_msg) list"

fun kernel_do :: "simtime \<Rightarrow> kernel_call \<Rightarrow> event_queue \<Rightarrow> event_queue result" where
  "kernel_do now (ScheduleAt t m) q =
     (if t < now then Inl (RuntimeError ''cannot schedule into the past'') else Inr (q @ [(t, m)]))"
| "kernel_do now (CancelAndDelete r) q =
     (if list_ex (\<lambda>e. tm_ref (snd e) = r) q then Inr (filter (\<lambda>e. tm_ref (snd e) \<noteq> r) q)
      else Inl (Undefined ''dangling message pointer''))"

definition kernel_run :: "simtime \<Rightarrow> kernel_call list \<Rightarrow> event_queue \<Rightarrow> event_queue result" where
  "kernel_run now calls q = foldE (kernel_do now) calls q"

text \<open>
  A run: events are added with a non-negative delay, removed, and delivered; the clock moves on, but
  not beyond the next message.
\<close>

inductive mt_run :: "simtime \<Rightarrow> multi_timer \<Rightarrow> event_queue \<Rightarrow> bool" where
  mr_start: "mt_run now (mt_setTimerId i mt_new) []"
| mr_clock: "mt_run now t q \<Longrightarrow> now \<le> now' \<Longrightarrow> list_all (\<lambda>e. now' \<le> fst e) q \<Longrightarrow> mt_run now' t q"
| mr_add: "mt_run now t q \<Longrightarrow> 0 \<le> d \<Longrightarrow> mt_add now d ev t = Inr (t', calls) \<Longrightarrow>
    kernel_run now calls q = Inr q' \<Longrightarrow> mt_run now t' q'"
| mr_remove: "mt_run now t q \<Longrightarrow> mt_remove ev t = Inr (t', calls) \<Longrightarrow>
    kernel_run now calls q = Inr q' \<Longrightarrow> mt_run now t' q'"
| mr_deliver: "mt_run now t ((now, m) # q) \<Longrightarrow> mt_handle (tm_event m) t = Inr (t', calls) \<Longrightarrow>
    kernel_run now calls q = Inr q' \<Longrightarrow> mt_run now t' q'"

definition mt_message :: "multi_timer \<Rightarrow> event_queue" where
  "mt_message t = (case mt_direct t of [] \<Rightarrow> []
     | n # _ \<Rightarrow> [(tn_time n, \<lparr>tm_ref = mt_intr t, tm_timerId = mt_timerId t, tm_event = tn_event n\<rparr>)])"

definition mt_sync :: "simtime \<Rightarrow> multi_timer \<Rightarrow> event_queue \<Rightarrow> bool" where
  "mt_sync now t q \<longleftrightarrow> mt_ok t \<and> q = mt_message t \<and> (\<forall>n \<in> set (mt_direct t). now \<le> tn_time n)"

lemma mt_sync_add:
  assumes "mt_sync now t q" "0 \<le> d" "\<not> mt_busyEvent ev t"
  shows "\<exists>t' calls q'. mt_add now d ev t = Inr (t', calls) \<and> kernel_run now calls q = Inr q' \<and>
    mt_sync now t' q' \<and> mt_abs t' = (mt_abs t)(ev := Some (now + d))"
proof -
  have ok: "mt_ok t" using assms(1) by (simp add: mt_sync_def)
  define n where "n = \<lparr>tn_id = mt_nodes t, tn_time = now + d, tn_event = ev\<rparr>"
  obtain t' calls where e: "mt_add now d ev t = Inr (t', calls)" "mt_ok t'"
    "mt_direct t' = node_insert n (mt_direct t)" "mt_timerId t' = mt_timerId t"
    and c: "if mt_direct t = [] \<or> now + d < tn_time (hd (mt_direct t))
     then mt_intr t' = mt_msgs t \<and>
       calls = (if mt_direct t = [] then [] else [CancelAndDelete (mt_intr t)])
         @ [ScheduleAt (now + d) \<lparr>tm_ref = mt_msgs t, tm_timerId = mt_timerId t, tm_event = ev\<rparr>]
     else mt_intr t' = mt_intr t \<and> calls = []"
    using mt_add_effect[OF ok assms(3), of now d] unfolding n_def by blast
  have l: "\<forall>m \<in> set (mt_direct t'). now \<le> tn_time m"
    using assms(1,2) by (auto simp: mt_sync_def e(3) n_def)
  have "kernel_run now calls q = Inr (mt_message t')"
  proof (cases "mt_direct t = [] \<or> now + d < tn_time (hd (mt_direct t))")
    case True
    then show ?thesis using c e(3,4) assms(1,2)
      by (cases "mt_direct t") (auto simp: kernel_run_def mt_sync_def mt_message_def n_def)
  next
    case False
    then show ?thesis using c e(3,4) assms(1)
      by (cases "mt_direct t") (auto simp: kernel_run_def mt_sync_def mt_message_def n_def)
  qed
  moreover have "mt_abs t' = (mt_abs t)(ev := Some (now + d))"
    using mt_abs_add[OF ok e(2) assms(3)] e(3) unfolding n_def by blast
  ultimately show ?thesis using e l by (auto simp: mt_sync_def)
qed

lemma mt_sync_remove:
  assumes "mt_sync now t q" "mt_busyEvent ev t"
  shows "\<exists>t' calls q'. mt_remove ev t = Inr (t', calls) \<and> kernel_run now calls q = Inr q' \<and>
    mt_sync now t' q' \<and> mt_abs t' = (mt_abs t)(ev := None)"
proof -
  have ok: "mt_ok t" using assms(1) by (simp add: mt_sync_def)
  obtain n where n: "n \<in> set (mt_direct t)" "tn_event n = ev"
    using assms(2) mt_ok_busyEvent[OF ok] by auto
  obtain t' calls where e: "mt_remove (tn_event n) t = Inr (t', calls)" "mt_ok t'"
    "mt_direct t' = filter (\<lambda>m. tn_id m \<noteq> tn_id n) (mt_direct t)"
    "mt_abs t' = (mt_abs t)(tn_event n := None)" "mt_timerId t' = mt_timerId t"
    and c: "if tn_id (hd (mt_direct t)) = tn_id n
     then calls = CancelAndDelete (mt_intr t) # (case mt_direct t' of [] \<Rightarrow> []
        | m # _ \<Rightarrow> [ScheduleAt (tn_time m) \<lparr>tm_ref = mt_msgs t, tm_timerId = mt_timerId t, tm_event = tn_event m\<rparr>])
        \<and> (mt_direct t' \<noteq> [] \<longrightarrow> mt_intr t' = mt_msgs t)
     else calls = [] \<and> mt_intr t' = mt_intr t \<and> hd (mt_direct t') = hd (mt_direct t) \<and> mt_direct t' \<noteq> []"
    using mt_remove_effect[OF ok n(1)] by blast
  have l: "\<forall>m \<in> set (mt_direct t'). now \<le> tn_time m"
    using assms(1) by (auto simp: mt_sync_def e(3))
  obtain h hs where h: "mt_direct t = h # hs" using n(1) by (cases "mt_direct t") auto
  have "kernel_run now calls q = Inr (mt_message t')"
    using c e(5) h assms(1) l
    by (cases "mt_direct t'")
      (auto simp: kernel_run_def mt_sync_def mt_message_def split: if_splits)
  then show ?thesis using e l n(2) by (auto simp: mt_sync_def)
qed

lemma mt_sync_deliver:
  assumes "mt_sync now t ((now, m) # q)"
  shows "\<exists>t' calls q'. mt_handle (tm_event m) t = Inr (t', calls) \<and> kernel_run now calls q = Inr q' \<and>
    mt_sync now t' q' \<and> mt_abs t (tm_event m) = Some now \<and> mt_abs t' = (mt_abs t)(tm_event m := None)"
proof -
  have ok: "mt_ok t" using assms by (simp add: mt_sync_def)
  obtain n rest where n: "mt_direct t = n # rest" "now = tn_time n" "tm_event m = tn_event n" "q = []"
    using assms by (auto simp: mt_sync_def mt_message_def split: list.splits)
  obtain t' where e: "mt_handle (tm_event m) t = Inr (t', case rest of [] \<Rightarrow> []
        | k # _ \<Rightarrow> [ScheduleAt (tn_time k) \<lparr>tm_ref = mt_msgs t, tm_timerId = mt_timerId t, tm_event = tn_event k\<rparr>])"
    "mt_ok t'" "mt_direct t' = rest" "mt_abs t' = (mt_abs t)(tn_event n := None)"
    "mt_timerId t' = mt_timerId t" "rest \<noteq> [] \<longrightarrow> mt_intr t' = mt_msgs t"
    using mt_handle_effect[OF ok n(1)] by blast
  have l: "\<forall>k \<in> set rest. now \<le> tn_time k" using assms n(1) by (auto simp: mt_sync_def)
  have a: "mt_abs t (tm_event m) = Some now"
    using mt_abs_iff[OF ok, of "tm_event m" now] n by auto
  have "kernel_run now (case rest of [] \<Rightarrow> []
        | k # _ \<Rightarrow> [ScheduleAt (tn_time k) \<lparr>tm_ref = mt_msgs t, tm_timerId = mt_timerId t, tm_event = tn_event k\<rparr>]) q
      = Inr (mt_message t')"
    using l e(3,5,6) n(4) by (cases rest) (auto simp: kernel_run_def mt_message_def)
  then show ?thesis using e l a n(3) by (auto simp: mt_sync_def)
qed

lemma mt_sync_clock:
  assumes "mt_sync now t q" "now \<le> now'" "list_all (\<lambda>e. now' \<le> fst e) q"
  shows "mt_sync now' t q"
proof (cases "mt_direct t")
  case Nil
  then show ?thesis using assms by (simp add: mt_sync_def)
next
  case (Cons n ns)
  have "now' \<le> tn_time n" using assms(1,3) Cons by (simp add: mt_sync_def mt_message_def)
  moreover have "\<forall>m \<in> set ns. tn_time n \<le> tn_time m"
    using assms(1) Cons by (simp add: mt_sync_def mt_ok_def nodes_sorted_def)
  ultimately show ?thesis using assms(1) Cons by (force simp: mt_sync_def)
qed

lemma mt_add_dup: "mt_busyEvent ev t \<Longrightarrow> mt_add now d ev t \<noteq> Inr r"
  by (auto simp: mt_add_def mt_busyEvent_def Let_def)

lemma mt_remove_missing: "\<not> mt_busyEvent ev t \<Longrightarrow> mt_remove ev t \<noteq> Inr r"
  by (auto simp: mt_remove_def mt_busyEvent_def)

lemma mt_run_sync: "mt_run now t q \<Longrightarrow> mt_sync now t q"
proof (induction rule: mt_run.induct)
  case (mr_start now i)
  then show ?case using mt_ok_new
    by (auto simp: mt_sync_def mt_message_def mt_setTimerId_def mt_new_def mt_ok_def)
next
  case (mr_clock now t q now')
  then show ?case using mt_sync_clock by blast
next
  case (mr_add now t q d ev t' calls q')
  have nb: "\<not> mt_busyEvent ev t" using mt_add_dup mr_add.hyps(3) by blast
  show ?case using mt_sync_add[OF mr_add.IH mr_add.hyps(2) nb] mr_add.hyps(3,4) by auto
next
  case (mr_remove now t q ev t' calls q')
  have b: "mt_busyEvent ev t" using mt_remove_missing mr_remove.hyps(2) by blast
  show ?case using mt_sync_remove[OF mr_remove.IH b] mr_remove.hyps(2,3) by auto
next
  case (mr_deliver now t m q t' calls q')
  show ?case using mt_sync_deliver[OF mr_deliver.IH] mr_deliver.hyps(2,3) by auto
qed

text \<open>
  C20: However events are added, removed and delivered, the event queue of the kernel holds exactly
  one message of the multi-timer while it has events, that of its earliest event, carrying this
  event and its time, and none otherwise; no event of the timer is overdue, and the timer is busy
  exactly while it has events.
\<close>
theorem multi_timer_message:
  assumes "mt_run now t q"
  shows "q = mt_message t \<and> list_all (\<lambda>n. now \<le> tn_time n) (mt_direct t) \<and>
    (\<forall>n ns. mt_direct t = n # ns \<longrightarrow> list_all (\<lambda>m. tn_time n \<le> tn_time m) ns) \<and>
    mt_busy t = (q \<noteq> [])"
  using mt_run_sync[OF assms]
  by (auto simp: mt_sync_def mt_ok_def mt_message_def nodes_sorted_def list_all_iff split: list.splits)

text \<open>
  C21: Seen as a map from the events to their expiry times, the multi-timer behaves as specified:
  \<open>add\<close> of an event that is not scheduled succeeds and enters its expiry time, \<open>add\<close> of a scheduled
  one fails; \<open>remove\<close> of a scheduled event succeeds and deletes it, \<open>remove\<close> of another one fails;
  and the kernel accepts the calls they make, so that no cancelled message is a dangling one.
\<close>
theorem multi_timer_refines_map:
  assumes "mt_run now t q" "0 \<le> d"
  shows "(if mt_abs t ev = None
     then (\<exists>t' calls q'. mt_add now d ev t = Inr (t', calls) \<and> kernel_run now calls q = Inr q' \<and>
             mt_abs t' = (mt_abs t)(ev := Some (now + d))) \<and> \<not> is_ok (mt_remove ev t)
     else (\<exists>t' calls q'. mt_remove ev t = Inr (t', calls) \<and> kernel_run now calls q = Inr q' \<and>
             mt_abs t' = (mt_abs t)(ev := None)) \<and> \<not> is_ok (mt_add now d ev t))"
proof -
  have s: "mt_sync now t q" using mt_run_sync[OF assms(1)] .
  then have b: "mt_busyEvent ev t \<longleftrightarrow> mt_abs t ev \<noteq> None" using mt_abs_dom by (simp add: mt_sync_def)
  show ?thesis
  proof (cases "mt_abs t ev = None")
    case True
    then have nb: "\<not> mt_busyEvent ev t" using b by simp
    show ?thesis using mt_sync_add[OF s assms(2) nb] mt_remove_missing[OF nb] True
      by (auto simp: is_ok_iff)
  next
    case False
    then have bb: "mt_busyEvent ev t" using b by simp
    show ?thesis using mt_sync_remove[OF s bb] mt_add_dup[OF bb, of now d] False
      by (auto simp: is_ok_iff)
  qed
qed

text \<open>
  C29: When a message of the multi-timer is delivered, the event it carries expires at this very
  moment, and \<open>handle\<close> deletes exactly this event (although it does not look at its argument) and
  leaves a queue the kernel accepts.
\<close>
theorem multi_timer_delivers_on_time:
  assumes "mt_run now t ((now, m) # q)"
  shows "\<exists>t' calls q'. mt_handle (tm_event m) t = Inr (t', calls) \<and> kernel_run now calls q = Inr q' \<and>
    mt_abs t (tm_event m) = Some now \<and> mt_abs t' = (mt_abs t)(tm_event m := None)"
  using mt_sync_deliver[OF mt_run_sync[OF assms]] by blast

section \<open>Instances\<close>

text \<open>Event 7 is added for 5, then event 8 for the earlier time 3, whose message replaces the first.\<close>

definition ex_t1 :: "multi_timer \<times> kernel_call list" where
  "ex_t1 = projr (mt_add 0 5 7 (mt_setTimerId 1 mt_new))"

definition ex_t2 :: "multi_timer \<times> kernel_call list" where
  "ex_t2 = projr (mt_add 0 3 8 (fst ex_t1))"

lemma ex_timer_run: "mt_run 0 (fst ex_t2) (mt_message (fst ex_t2))"
proof -
  have a1: "mt_add 0 5 7 (mt_setTimerId 1 mt_new) = Inr (fst ex_t1, snd ex_t1)"
    unfolding ex_t1_def by (simp add: mt_add_def mt_setTimerId_def mt_new_def mt_schedule_def Let_def)
  have k1: "kernel_run 0 (snd ex_t1) [] = Inr (mt_message (fst ex_t1))" by code_simp
  have a2: "mt_add 0 3 8 (fst ex_t1) = Inr (fst ex_t2, snd ex_t2)"
    unfolding ex_t2_def ex_t1_def
    by (simp add: mt_add_def mt_setTimerId_def mt_new_def mt_schedule_def simtime_s_def Let_def)
  have k2: "kernel_run 0 (snd ex_t2) (mt_message (fst ex_t1)) = Inr (mt_message (fst ex_t2))" by code_simp
  show ?thesis
    by (rule mr_add[OF mr_add[OF mr_start _ a1 k1] _ a2 k2]) simp_all
qed

lemma ex_timer_message: "mt_message (fst ex_t2) = [(3, \<lparr>tm_ref = 1, tm_timerId = 1, tm_event = 8\<rparr>)]"
  by code_simp

theorem multi_timer_message_witness: "mt_busy (fst ex_t2) \<and> length (mt_message (fst ex_t2)) = 1"
  using multi_timer_message[OF ex_timer_run] by (simp add: ex_timer_message)

theorem multi_timer_refines_map_witness:
  "\<exists>t' calls. mt_remove 8 (fst ex_t2) = Inr (t', calls) \<and> mt_abs t' = (mt_abs (fst ex_t2))(8 := None)"
proof -
  have "mt_abs (fst ex_t2) 8 \<noteq> None" by code_simp
  then show ?thesis using multi_timer_refines_map[OF ex_timer_run, of 1 8] by auto
qed

theorem multi_timer_delivers_on_time_witness:
  "\<exists>t' calls. mt_handle 8 (fst ex_t2) = Inr (t', calls) \<and> mt_abs (fst ex_t2) 8 = Some 3"
proof -
  have "mt_run 3 (fst ex_t2) ((3, \<lparr>tm_ref = 1, tm_timerId = 1, tm_event = 8\<rparr>) # [])"
    using mr_clock[OF ex_timer_run, of 3] by (simp add: ex_timer_message)
  from multi_timer_delivers_on_time[OF this] show ?thesis by auto
qed

end
