(* ===== verification/UmQueues.thy ===== *)
theory UmQueues
  imports UmFragbuf Timers "HOL-Library.Signed_Division" "HOL-Library.Multiset"
begin

text \<open>
  The transmission and reception queues of the unacknowledged mode of the RLC layer
  (\<^verbatim>\<open>simulte/src/stack/rlc/um/buffer/UmTxQueue.cc\<close> and \<^verbatim>\<open>UmRxQueue.cc\<close>): fragmentation of an SDU,
  reassembly with one timer event per packet, and the timeout handler.

  \<open>decap\<close> stands for \<open>cPacket::decapsulate\<close> of the simulation library on a fragment; \<open>um_env\<close> for
  what the queue learns from the simulation about other nodes.  Fragments handed to
  \<open>sendFragmented\<close>, packets handed to \<open>sendDefragmented\<close>, emitted samples and kernel calls are
  returned lists.
\<close>

section \<open>Fragmentation\<close>

record um_tx_queue =
  uq_fragmentSize :: int

definition um_getFragmentSize :: "um_tx_queue \<Rightarrow> int" where
  "um_getFragmentSize q = uq_fragmentSize q"

definition um_setFragmentSize :: "int \<Rightarrow> um_tx_queue \<Rightarrow> um_tx_queue" where
  "um_setFragmentSize n q = q\<lparr>uq_fragmentSize := n\<rparr>"

definition um_fragment ::
  "simtime \<Rightarrow> rlc_sdu \<Rightarrow> flow_info \<Rightarrow> um_tx_queue \<Rightarrow> rlc_pdu list result" where
  "um_fragment now rlcPkt lteInfo q =
     (let packetSize = to_int32 (rs_bytes rlcPkt); fragmentSize = uq_fragmentSize q
      in if fragmentSize = 0 then Inl (Undefined ''division by zero'')
         else
           let totalFragments = packetSize sdiv fragmentSize
                 + (if packetSize smod fragmentSize \<noteq> 0 then 1 else 0);
               frag = \<lparr>rd_totalFragments = of_int totalFragments, rd_snoFragment = 0,
                 rd_snoMainPacket = rs_snoMainPacket rlcPkt, rd_bytes = fragmentSize, rd_created = now,
                 rd_sdu = rlcPkt, rd_info = lteInfo\<rparr>
           in Inr (map (\<lambda>i. frag\<lparr>rd_snoFragment := of_nat i\<rparr>) [0..<nat (totalFragments - 1)]
                @ [frag\<lparr>rd_snoFragment := of_nat (nat (totalFragments - 1)),
                        rd_bytes := (if packetSize smod fragmentSize \<noteq> 0
                                     then packetSize smod fragmentSize else fragmentSize)\<rparr>]))"

section \<open>Reassembly\<close>

record um_rx_queue =
  uq_fragbuf :: um_fragbuf
  uq_timer :: multi_timer
  uq_timeout :: simtime
  uq_sampleId :: mac_node_id
  uq_sampleCellId :: mac_node_id

definition um_rx_new :: "u32 \<Rightarrow> simtime \<Rightarrow> um_rx_queue" where
  "um_rx_new timerId timeout = \<lparr>uq_fragbuf = fragbuf_new, uq_timer = mt_setTimerId timerId mt_new,
     uq_timeout = timeout, uq_sampleId = 0, uq_sampleCellId = 0\<rparr>"

text \<open>
  Whether the RLC module of a node exists, and the identifier the binder knows for it (0 if none).
\<close>

record um_env =
  ue_rlc :: "mac_node_id \<Rightarrow> bool"
  ue_omnetId :: "mac_node_id \<Rightarrow> int"

datatype um_signal = RlcPduThroughput | RlcPduDelay | RlcPduPacketLoss | RlcCellThroughput
  | RlcThroughput | RlcDelay | RlcPacketLoss | RlcCellPacketLoss

datatype um_side = UeSide | NodeBSide

type_synonym um_sample = "um_side \<times> um_signal \<times> int \<times> mac_node_id"

text \<open>The result of \<open>defragment\<close>: the answer, the packets sent up, the samples, the kernel calls.\<close>

record um_out =
  uo_result :: bool
  uo_sent :: "(pdcp_pdu \<times> flow_info) list"
  uo_samples :: "um_sample list"
  uo_calls :: "kernel_call list"

definition um_quiet :: "bool \<Rightarrow> um_sample list \<Rightarrow> kernel_call list \<Rightarrow> um_out" where
  "um_quiet r ems calls = \<lparr>uo_result = r, uo_sent = [], uo_samples = ems, uo_calls = calls\<rparr>"

definition um_defragment ::
  "(rlc_pdu \<Rightarrow> rlc_sdu result) \<Rightarrow> um_env \<Rightarrow> simtime \<Rightarrow> rlc_pdu \<Rightarrow> um_rx_queue
   \<Rightarrow> (um_rx_queue \<times> um_out) result" where
  "um_defragment decap env now pkt q =
     (let lteInfo = rd_info pkt; dir = fi_direction lteInfo;
          srcId = fi_sourceId lteInfo; dstId = fi_destId lteInfo;
          pktId = rd_snoMainPacket pkt; fragSize = to_int32 (rd_bytes pkt);
          pduDelay = now - rd_created pkt
      in
      bindE (fragbuf_insert pktId (rd_totalFragments pkt) (rd_snoFragment pkt) (of_int fragSize) lteInfo
               (uq_fragbuf q)) (\<lambda>(first, fb1).
      let q1 = q\<lparr>uq_fragbuf := fb1\<rparr>;
          (q2, ue, nodeb) = (case dir of
              DL \<Rightarrow> (q1\<lparr>uq_sampleCellId := srcId, uq_sampleId := dstId\<rparr>, ue_rlc env dstId, ue_rlc env srcId)
            | UL \<Rightarrow> (q1\<lparr>uq_sampleCellId := dstId, uq_sampleId := srcId\<rparr>, ue_rlc env srcId, ue_rlc env dstId)
            | UNKNOWN_DIRECTION \<Rightarrow> (q1, False, False))
      in
      if dir = UL \<and> \<not> ue then Inr (q2, um_quiet False [] [])
      else if \<not> ue then Inl (Undefined ''null pointer'')
      else
        let sid = uq_sampleId q2;
            ems = [(UeSide, RlcPduThroughput, rd_bytes pkt, sid), (UeSide, RlcPduDelay, pduDelay, sid),
                   (UeSide, RlcPduPacketLoss, 0, sid)]
        in
        bindE (if first then mt_add now (uq_timeout q2) pktId (uq_timer q2) else Inr (uq_timer q2, []))
          (\<lambda>(t3, calls3).
        let (complete, fb4) = fragbuf_check pktId (uq_fragbuf q2);
            q4 = q2\<lparr>uq_timer := t3, uq_fragbuf := fb4\<rparr>
        in
        if \<not> complete then Inr (q4, um_quiet False ems calls3)
        else
          bindE (mt_remove pktId (uq_timer q4)) (\<lambda>(t5, calls5).
          let (origPktSize, fb5) = fragbuf_remove pktId (uq_fragbuf q4);
              q5 = q4\<lparr>uq_timer := t5, uq_fragbuf := fb5\<rparr>
          in
          bindE (decap (pkt\<lparr>rd_bytes := origPktSize\<rparr>)) (\<lambda>rlcPkt.
          let size = rs_bytes rlcPkt; delay = now - rs_created rlcPkt; cid = uq_sampleCellId q5
          in
          if \<not> nodeb then Inl (Undefined ''null pointer'')
          else Inr (q5, \<lparr>uo_result = True, uo_sent = [(rs_pdcp rlcPkt, lteInfo)],
                 uo_samples = ems @ [(NodeBSide, RlcCellThroughput, size, cid),
                   (UeSide, RlcThroughput, size, sid), (UeSide, RlcDelay, delay, sid),
                   (UeSide, RlcPacketLoss, 0, sid), (NodeBSide, RlcCellPacketLoss, 0, cid)],
                 uo_calls = calls3 @ calls5\<rparr>))))))"

text \<open>
  The timeout of a packet.  For a node that has left, the control information is deleted and the
  handler returns early: the entry keeps a dangling pointer, and the timer is not told.
\<close>

definition um_drop_info :: "u32 \<Rightarrow> um_rx_queue \<Rightarrow> um_rx_queue" where
  "um_drop_info k q = q\<lparr>uq_fragbuf := (uq_fragbuf q)\<lparr>fr_frags := (fr_frags (uq_fragbuf q))(k :=
     map_option (\<lambda>e. e\<lparr>mp_lteInfo := None\<rparr>) (fr_frags (uq_fragbuf q) k))\<rparr>\<rparr>"

definition um_handleTimer ::
  "um_env \<Rightarrow> timer_msg \<Rightarrow> um_rx_queue \<Rightarrow> (um_rx_queue \<times> um_sample list \<times> kernel_call list) result" where
  "um_handleTimer env tmsg q =
     (let ev = tm_event tmsg in
      bindE (fragbuf_getLteInfo ev (uq_fragbuf q)) (\<lambda>ptr. case ptr of
        None \<Rightarrow> Inl (Undefined ''dangling pointer'')
      | Some lteInfo \<Rightarrow>
        let srcId = fi_sourceId lteInfo; dstId = fi_destId lteInfo; dir = fi_direction lteInfo
        in
        if ue_omnetId env srcId = 0 then Inr (um_drop_info ev q, [], [])
        else if ue_omnetId env dstId = 0 then Inr (um_drop_info ev q, [], [])
        else
          let q1 = (case dir of
                DL \<Rightarrow> q\<lparr>uq_sampleId := dstId, uq_sampleCellId := srcId\<rparr>
              | UL \<Rightarrow> q\<lparr>uq_sampleId := srcId, uq_sampleCellId := dstId\<rparr>
              | UNKNOWN_DIRECTION \<Rightarrow> q);
              ue = ue_rlc env (if dir = DL then dstId else srcId);
              nodeb = ue_rlc env (if dir = DL then srcId else dstId)
          in
          if \<not> ue \<or> \<not> nodeb then Inl (Undefined ''null pointer'')
          else
            let q2 = q1\<lparr>uq_fragbuf := snd (fragbuf_remove ev (uq_fragbuf q1))\<rparr>
            in bindE (mt_handle ev (uq_timer q2)) (\<lambda>(t, calls).
                 Inr (q2\<lparr>uq_timer := t\<rparr>,
                      [(UeSide, RlcPacketLoss, 1, uq_sampleId q2),
                       (NodeBSide, RlcCellPacketLoss, 1, uq_sampleCellId q2)], calls))))"

section \<open>Fragments of one SDU\<close>

text \<open>The number of fragments and the size of each.\<close>

definition frag_count :: "int \<Rightarrow> int \<Rightarrow> nat" where
  "frag_count len fs = nat ((len + fs - 1) div fs)"

definition frag_bytes :: "int \<Rightarrow> int \<Rightarrow> nat \<Rightarrow> int" where
  "frag_bytes len fs i = (if Suc i = frag_count len fs then len - int i * fs else fs)"

definition the_frag :: "simtime \<Rightarrow> rlc_sdu \<Rightarrow> flow_info \<Rightarrow> int \<Rightarrow> nat \<Rightarrow> rlc_pdu" where
  "the_frag now sdu info fs i = \<lparr>rd_totalFragments = of_nat (frag_count (rs_bytes sdu) fs),
     rd_snoFragment = of_nat i, rd_snoMainPacket = rs_snoMainPacket sdu,
     rd_bytes = frag_bytes (rs_bytes sdu) fs i, rd_created = now, rd_sdu = sdu, rd_info = info\<rparr>"

lemma ceil_div: "0 < fs \<Longrightarrow> (len + fs - 1) div fs = len div fs + (if len mod fs \<noteq> 0 then 1 else (0 :: int))"
proof -
  assume fs: "0 < fs"
  let ?q = "len div fs" and ?r = "len mod fs"
  have s: "len = ?q * fs + ?r" by simp
  have r: "0 \<le> ?r" "?r < fs" using fs by simp_all
  show ?thesis
  proof (cases "?r = 0")
    case True
    have "(len + fs - 1) div fs = (?q * fs + (fs - 1)) div fs" using s True by (simp add: algebra_simps)
    also have "\<dots> = ?q" using fs by (simp add: div_pos_pos_trivial)
    finally show ?thesis using True by simp
  next
    case False
    have "(len + fs - 1) div fs = ((?q + 1) * fs + (?r - 1)) div fs"
      by (subst s) (simp add: algebra_simps)
    also have "\<dots> = ?q + 1" using fs r False by (simp add: div_pos_pos_trivial)
    finally show ?thesis using False by simp
  qed
qed

lemma frag_count_pos: "0 < len \<Longrightarrow> 0 < fs \<Longrightarrow> 0 < frag_count len fs"
  by (simp add: frag_count_def pos_imp_zdiv_pos_iff)

lemma frag_count_bounds:
  assumes "0 < len" "0 < fs"
  shows "int (frag_count len fs - 1) * fs < len" "len \<le> int (frag_count len fs) * fs"
    "int (frag_count len fs) \<le> len"
proof -
  let ?q = "(len + fs - 1) div fs"
  have q: "0 < ?q" using assms by (simp add: pos_imp_zdiv_pos_iff)
  have m: "?q * fs + (len + fs - 1) mod fs = len + fs - 1" by simp
  have r: "0 \<le> (len + fs - 1) mod fs" "(len + fs - 1) mod fs < fs" using assms by simp_all
  have c: "int (frag_count len fs) = ?q" "int (frag_count len fs - 1) = ?q - 1"
    using q by (simp_all add: frag_count_def of_nat_diff)
  have "?q * fs \<le> len + fs - 1" "len \<le> ?q * fs" using m r by linarith+
  then show "int (frag_count len fs - 1) * fs < len" "len \<le> int (frag_count len fs) * fs"
    unfolding c by (simp_all add: algebra_simps)
  have "(?q - 1) * 1 \<le> (?q - 1) * fs" using q assms by (intro mult_left_mono) auto
  then show "int (frag_count len fs) \<le> len"
    using \<open>?q * fs \<le> len + fs - 1\<close> unfolding c by (simp add: algebra_simps)
qed

lemma frag_bytes_bounds:
  assumes "0 < len" "0 < fs" "i < frag_count len fs"
  shows "0 < frag_bytes len fs i" "frag_bytes len fs i \<le> len"
proof -
  have "0 < frag_bytes len fs i \<and> frag_bytes len fs i \<le> len"
  proof (cases "Suc i = frag_count len fs")
    case True
    then have "int i * fs < len" using frag_count_bounds(1)[OF assms(1,2)] by (simp flip: True)
    then show ?thesis using True assms(2) by (simp add: frag_bytes_def)
  next
    case False
    then have "1 \<le> frag_count len fs - 1" using assms(3) by simp
    then have "1 * fs \<le> int (frag_count len fs - 1) * fs" using assms(2) by (intro mult_right_mono) auto
    then have "fs \<le> len" using frag_count_bounds(1)[OF assms(1,2)] by linarith
    then show ?thesis using False assms(2) by (simp add: frag_bytes_def)
  qed
  then show "0 < frag_bytes len fs i" "frag_bytes len fs i \<le> len" by auto
qed

lemma frag_bytes_sum:
  assumes "0 < len" "0 < fs"
  shows "(\<Sum>i<frag_count len fs. frag_bytes len fs i) = len"
proof -
  obtain m where m: "frag_count len fs = Suc m" using frag_count_pos[OF assms] by (cases "frag_count len fs") auto
  have "(\<Sum>i<m. frag_bytes len fs i) = (\<Sum>i<m. fs)" by (intro sum.cong) (auto simp: frag_bytes_def m)
  then show ?thesis by (simp add: m frag_bytes_def)
qed

text \<open>What \<open>fragment\<close> sends, in closed form.\<close>

lemma um_fragment_eq:
  assumes "0 < rs_bytes sdu" "rs_bytes sdu < 2 ^ 31" "0 < uq_fragmentSize q"
  shows "um_fragment now sdu info q =
    Inr (map (the_frag now sdu info (uq_fragmentSize q)) [0..<frag_count (rs_bytes sdu) (uq_fragmentSize q)])"
proof -
  let ?fs = "uq_fragmentSize q" and ?len = "rs_bytes sdu"
  let ?n = "frag_count ?len ?fs"
  have d: "?len sdiv ?fs = ?len div ?fs" "?len smod ?fs = ?len mod ?fs"
    using assms(1,3) by (simp_all add: signed_divide_int_def signed_modulo_int_def)
  have t: "?len div ?fs + (if ?len mod ?fs \<noteq> 0 then 1 else 0) = int ?n"
    using ceil_div[OF assms(3), of ?len] frag_count_pos[OF assms(1,3)] by (simp add: frag_count_def)
  obtain m where m: "?n = Suc m" using frag_count_pos[OF assms(1,3)] by (cases ?n) auto
  have lastb: "(if ?len mod ?fs \<noteq> 0 then ?len mod ?fs else ?fs) = frag_bytes ?len ?fs m"
  proof -
    have q: "?len = (?len div ?fs) * ?fs + ?len mod ?fs" by simp
    have mm: "?len div ?fs = int m + (if ?len mod ?fs \<noteq> 0 then 0 else 1)" using t m by auto
    show ?thesis
    proof (cases "?len mod ?fs = 0")
      case True
      then have "?len = (int m + 1) * ?fs" using q unfolding mm by simp
      then have "int m * ?fs = ?len - ?fs" by (simp add: algebra_simps)
      then show ?thesis using True by (simp add: frag_bytes_def m)
    next
      case False
      then have "?len = int m * ?fs + ?len mod ?fs" using q unfolding mm by simp
      then have "int m * ?fs = ?len - ?len mod ?fs" by linarith
      then show ?thesis using False by (simp add: frag_bytes_def m)
    qed
  qed
  have p: "to_int32 ?len = ?len" using assms by (simp add: to_int32_id)
  have n: "nat (int ?n - 1) = m" using m by simp
  have init: "map (the_frag now sdu info ?fs) [0..<m] = map (\<lambda>i. (the_frag now sdu info ?fs m)
      \<lparr>rd_bytes := ?fs, rd_snoFragment := of_nat i\<rparr>) [0..<m]"
    by (intro map_cong) (auto simp: the_frag_def frag_bytes_def m)
  show ?thesis
    unfolding um_fragment_def Let_def p d t lastb n
    using assms(3) init m by (simp add: the_frag_def)
qed

section \<open>The timer contract\<close>

text \<open>
  What the reception queue relies on: an event can be added when it is not running and removed when
  it is, and then exactly the running events change.
\<close>

locale event_timer =
  fixes tok :: "'t \<Rightarrow> bool"
    and tevents :: "'t \<Rightarrow> u32 \<Rightarrow> simtime option"
    and tadd :: "simtime \<Rightarrow> simtime \<Rightarrow> u32 \<Rightarrow> 't \<Rightarrow> ('t \<times> 'c list) result"
    and tremove :: "u32 \<Rightarrow> 't \<Rightarrow> ('t \<times> 'c list) result"
  assumes add_law: "tok t \<Longrightarrow> tevents t ev = None \<Longrightarrow>
      \<exists>t' calls. tadd now d ev t = Inr (t', calls) \<and> tok t' \<and> tevents t' = (tevents t)(ev := Some (now + d))"
    and remove_law: "tok t \<Longrightarrow> tevents t ev \<noteq> None \<Longrightarrow>
      \<exists>t' calls. tremove ev t = Inr (t', calls) \<and> tok t' \<and> tevents t' = (tevents t)(ev := None)"
begin

text \<open>The timer of a packet that is, or is not, being received.\<close>

definition running :: "'t \<Rightarrow> u32 \<Rightarrow> bool \<Rightarrow> 't \<Rightarrow> bool" where
  "running t0 ev b t \<longleftrightarrow> tok t \<and> tevents t0 ev = None \<and>
     (\<forall>e. e \<noteq> ev \<longrightarrow> tevents t e = tevents t0 e) \<and> (tevents t ev \<noteq> None) = b"

lemma running_start: "tok t \<Longrightarrow> tevents t ev = None \<Longrightarrow> running t ev False t"
  by (simp add: running_def)

lemma running_add:
  "running t0 ev False t \<Longrightarrow> \<exists>t' calls. tadd now d ev t = Inr (t', calls) \<and> running t0 ev True t'"
  using add_law[of t ev now d] by (auto simp: running_def)

lemma running_remove:
  "running t0 ev True t \<Longrightarrow> \<exists>t' calls. tremove ev t = Inr (t', calls) \<and> running t0 ev False t'"
  using remove_law[of t ev] by (auto simp: running_def)

lemma running_end: "running t0 ev False t \<Longrightarrow> tevents t = tevents t0"
proof (rule ext)
  fix e assume "running t0 ev False t"
  then show "tevents t e = tevents t0 e" by (cases "e = ev") (auto simp: running_def)
qed

end

interpretation um_timer: event_timer mt_ok mt_abs mt_add mt_remove
proof unfold_locales
  fix t ev and now d :: simtime
  assume t: "mt_ok t" "mt_abs t ev = None"
  then have nb: "\<not> mt_busyEvent ev t" using mt_abs_dom by simp
  show "\<exists>t' calls. mt_add now d ev t = Inr (t', calls) \<and> mt_ok t' \<and> mt_abs t' = (mt_abs t)(ev := Some (now + d))"
    using mt_add_effect[OF t(1) nb, of now d] mt_abs_add[OF t(1) _ nb] by meson
next
  fix t ev
  assume t: "mt_ok t" "mt_abs t ev \<noteq> None"
  then obtain n where "n \<in> set (mt_direct t)" "tn_event n = ev"
    using mt_abs_iff[OF t(1)] by auto
  then show "\<exists>t' calls. mt_remove ev t = Inr (t', calls) \<and> mt_ok t' \<and> mt_abs t' = (mt_abs t)(ev := None)"
    using mt_remove_effect[OF t(1), of n] by blast
qed

end
