(* ===== verification/UmReassembly.thy ===== *)
theory UmReassembly
  imports UmQueues
begin

text \<open>
  Fragmentation and reassembly in the unacknowledged mode: an SDU comes out of the reception queue
  exactly once and unchanged whatever the order its fragments arrive in; and what happens to the
  queue and its timer when a node has left the simulation.
\<close>

section \<open>Receiving the fragments of one SDU\<close>

text \<open>
  What the queue relies on of \<open>decapsulate\<close>: it hands out the encapsulated packet of a fragment that
  is not shorter than it.
\<close>

definition decap_law :: "(rlc_pdu \<Rightarrow> rlc_sdu result) \<Rightarrow> bool" where
  "decap_law decap \<longleftrightarrow> (\<forall>pdu. rs_bytes (rd_sdu pdu) \<le> rd_bytes pdu \<longrightarrow> decap pdu = Inr (rd_sdu pdu))"

text \<open>Both ends of the flow are in the simulation.\<close>

definition env_alive :: "um_env \<Rightarrow> flow_info \<Rightarrow> bool" where
  "env_alive env info \<longleftrightarrow> fi_direction info \<noteq> UNKNOWN_DIRECTION \<and> ue_rlc env (fi_sourceId info) \<and>
     ue_rlc env (fi_destId info)"

definition um_receive_one ::
  "(rlc_pdu \<Rightarrow> rlc_sdu result) \<Rightarrow> um_env \<Rightarrow> simtime \<times> rlc_pdu \<Rightarrow> um_rx_queue \<times> um_out list
   \<Rightarrow> (um_rx_queue \<times> um_out list) result" where
  "um_receive_one decap env a s = (case a of (now, pdu) \<Rightarrow> case s of (q, outs) \<Rightarrow>
     bindE (um_defragment decap env now pdu q) (\<lambda>(q', out). Inr (q', outs @ [out])))"

definition um_receive ::
  "(rlc_pdu \<Rightarrow> rlc_sdu result) \<Rightarrow> um_env \<Rightarrow> (simtime \<times> rlc_pdu) list \<Rightarrow> um_rx_queue
   \<Rightarrow> (um_rx_queue \<times> um_out list) result" where
  "um_receive decap env arr q = foldE (um_receive_one decap env) arr (q, [])"

text \<open>The queue \<open>q\<close> has received the set \<open>S\<close> of fragments of a packet that \<open>q0\<close> knows nothing of.\<close>

definition um_mid :: "um_rx_queue \<Rightarrow> rlc_sdu \<Rightarrow> int \<Rightarrow> nat set \<Rightarrow> um_rx_queue \<Rightarrow> bool" where
  "um_mid q0 sdu fs S q \<longleftrightarrow>
     received (rs_snoMainPacket sdu) (frag_count (rs_bytes sdu) fs) S
       (\<Sum>i\<in>S. frag_bytes (rs_bytes sdu) fs i) (uq_fragbuf q) \<and>
     (\<forall>j. j \<noteq> rs_snoMainPacket sdu \<longrightarrow> fr_frags (uq_fragbuf q) j = fr_frags (uq_fragbuf q0) j) \<and>
     um_timer.running (uq_timer q0) (rs_snoMainPacket sdu) (S \<noteq> {}) (uq_timer q)"

lemma the_frag_simps [simp]:
  "rd_snoMainPacket (the_frag t sdu info fs i) = rs_snoMainPacket sdu"
  "rd_info (the_frag t sdu info fs i) = info"
  "rd_sdu (the_frag t sdu info fs i) = sdu"
  "rd_bytes (the_frag t sdu info fs i) = frag_bytes (rs_bytes sdu) fs i"
  "rd_snoFragment (the_frag t sdu info fs i) = of_nat i"
  "rd_totalFragments (the_frag t sdu info fs i) = of_nat (frag_count (rs_bytes sdu) fs)"
  by (simp_all add: the_frag_def)

lemma um_defragment_step:
  assumes len: "0 < rs_bytes sdu" "rs_bytes sdu < 2 ^ 31" "0 < fs"
    and law: "decap_law decap" and env: "env_alive env info"
    and mid: "um_mid q0 sdu fs S q"
    and i: "i < frag_count (rs_bytes sdu) fs" "i \<notin> S" "S \<subseteq> {..<frag_count (rs_bytes sdu) fs}"
  shows "\<exists>q' out. um_defragment decap env now (the_frag t0 sdu info fs i) q = Inr (q', out) \<and>
    (if insert i S = {..<frag_count (rs_bytes sdu) fs}
     then uo_result out \<and> uo_sent out = [(rs_pdcp sdu, info)] \<and> um_mid q0 sdu fs {} q'
     else \<not> uo_result out \<and> uo_sent out = [] \<and> um_mid q0 sdu fs (insert i S) q')"
proof -
  let ?n = "frag_count (rs_bytes sdu) fs" and ?k = "rs_snoMainPacket sdu"
  let ?b = "frag_bytes (rs_bytes sdu) fs" and ?S' = "insert i S"
  have n: "int ?n < 2 ^ 31" using frag_count_bounds(3)[OF len(1,3)] len(2) by linarith
  have b: "0 < ?b i" "?b i \<le> rs_bytes sdu" using frag_bytes_bounds[OF len(1,3) i(1)] by auto
  have fb32: "to_int32 (?b i) = ?b i" using b len(2) by (intro to_int32_id) auto
  have ui: "unat (of_nat i :: u32) = i" using i(1) n by (simp add: unat_of_nat)
  have fin: "finite S" using i(3) finite_subset by blast
  have rec: "received ?k ?n S (\<Sum>j\<in>S. ?b j) (uq_fragbuf q)" using mid by (simp add: um_mid_def)
  obtain fb1 where fb1: "fragbuf_insert ?k (of_nat ?n) (of_nat i) (of_int (?b i)) info (uq_fragbuf q)
      = Inr (S = {}, fb1)" "received ?k ?n ?S' ((\<Sum>j\<in>S. ?b j) * (if S = {} then 0 else 1) + ?b i) fb1"
    "\<forall>j. j \<noteq> ?k \<longrightarrow> fr_frags fb1 j = fr_frags (uq_fragbuf q) j"
    using received_insert[OF rec i(1,2,3) _ ui, of "?b i" info] n by auto
  have sum: "(\<Sum>j\<in>S. ?b j) * (if S = {} then 0 else 1) + ?b i = (\<Sum>j\<in>?S'. ?b j)" using fin i(2) by auto
  have rec1: "received ?k ?n ?S' (\<Sum>j\<in>?S'. ?b j) fb1" using fb1(2) unfolding sum .
  have sub: "?S' \<subseteq> {..<?n}" using i by auto
  have run: "um_timer.running (uq_timer q0) ?k (S \<noteq> {}) (uq_timer q)" using mid by (simp add: um_mid_def)
  obtain t3 c3 where t3: "(if S = {} then mt_add now (uq_timeout q) ?k (uq_timer q) else Inr (uq_timer q, []))
      = Inr (t3, c3)" "um_timer.running (uq_timer q0) ?k True t3"
    using um_timer.running_add[of "uq_timer q0" ?k "uq_timer q" now "uq_timeout q"] run
    by (cases "S = {}") auto
  have chk: "fragbuf_check ?k fb1 = (?S' = {..<?n}, fb1)" using received_check[OF rec1 _ sub] by simp
  define first where "first = (S = {})"
  have t3f: "(if first then mt_add now (uq_timeout q) ?k (uq_timer q) else Inr (uq_timer q, [])) = Inr (t3, c3)"
    using t3(1) by (simp add: first_def)
  have fb1f: "fragbuf_insert ?k (of_nat ?n) (of_nat i) (of_int (?b i)) info (uq_fragbuf q) = Inr (first, fb1)"
    using fb1(1) by (simp add: first_def)
  have alive: "fi_direction info = DL \<or> fi_direction info = UL" "ue_rlc env (fi_sourceId info)"
    "ue_rlc env (fi_destId info)" using env by (cases "fi_direction info"; simp add: env_alive_def)+
  show ?thesis
  proof (cases "?S' = {..<?n}")
    case False
    have other: "\<forall>j. j \<noteq> ?k \<longrightarrow> fr_frags fb1 j = fr_frags (uq_fragbuf q0) j"
      using fb1(3) mid by (simp add: um_mid_def)
    have cf: "fragbuf_check ?k fb1 = (False, fb1)" using chk False by simp
    have "\<exists>q' out. um_defragment decap env now (the_frag t0 sdu info fs i) q = Inr (q', out) \<and>
        \<not> uo_result out \<and> uo_sent out = [] \<and> uq_fragbuf q' = fb1 \<and> uq_timer q' = t3"
      using alive fb1f t3f cf by (elim disjE; cases first) (auto simp: um_defragment_def fb32 Let_def um_quiet_def)
    then show ?thesis using False rec1 other t3(2) unfolding um_mid_def by auto
  next
    case True
    obtain t5 c5 where t5: "mt_remove ?k t3 = Inr (t5, c5)" "um_timer.running (uq_timer q0) ?k False t5"
      using um_timer.running_remove[OF t3(2)] by blast
    have total: "(\<Sum>j\<in>?S'. ?b j) = rs_bytes sdu" unfolding True using frag_bytes_sum[OF len(1,3)] by simp
    obtain fb5 where fb5: "fragbuf_remove ?k fb1 = (rs_bytes sdu, fb5)" "received ?k ?n {} 0 fb5"
      "\<forall>j. j \<noteq> ?k \<longrightarrow> fr_frags fb5 j = fr_frags fb1 j"
      using received_remove[OF rec1] len total by auto
    have dc: "decap ((the_frag t0 sdu info fs i)\<lparr>rd_bytes := rs_bytes sdu\<rparr>) = Inr sdu"
      using law by (simp add: decap_law_def)
    have other: "\<forall>j. j \<noteq> ?k \<longrightarrow> fr_frags fb5 j = fr_frags (uq_fragbuf q0) j"
      using fb1(3) fb5(3) mid by (simp add: um_mid_def)
    have cf: "fragbuf_check ?k fb1 = (True, fb1)" using chk True by simp
    have "\<exists>q' out. um_defragment decap env now (the_frag t0 sdu info fs i) q = Inr (q', out) \<and>
        uo_result out \<and> uo_sent out = [(rs_pdcp sdu, info)] \<and> uq_fragbuf q' = fb5 \<and> uq_timer q' = t5"
      using alive fb1f t3f cf t5(1) fb5(1) dc
      by (elim disjE; cases first) (auto simp: um_defragment_def fb32 Let_def um_quiet_def)
    then show ?thesis using True fb5(2) other t5(2) unfolding um_mid_def by auto
  qed
qed

lemma um_receive_loop:
  assumes len: "0 < rs_bytes sdu" "rs_bytes sdu < 2 ^ 31" "0 < fs"
    and law: "decap_law decap" and env: "env_alive env info"
    and "um_mid q0 sdu fs S q" "distinct is" "set is \<inter> S = {}"
    and "S \<union> set is = {..<frag_count (rs_bytes sdu) fs}" "is \<noteq> []"
    and "map snd arr = map (the_frag t0 sdu info fs) is"
  shows "\<exists>q' outs. foldE (um_receive_one decap env) arr (q, acc) = Inr (q', acc @ outs) \<and>
    concat (map uo_sent outs) = [(rs_pdcp sdu, info)] \<and>
    map uo_result outs = replicate (length is - 1) False @ [True] \<and> um_mid q0 sdu fs {} q'"
  using assms(6-)
proof (induction "is" arbitrary: S q acc arr)
  case Nil
  then show ?case by simp
next
  case (Cons i js)
  let ?n = "frag_count (rs_bytes sdu) fs"
  obtain now arr' where arr: "arr = (now, the_frag t0 sdu info fs i) # arr'"
    "map snd arr' = map (the_frag t0 sdu info fs) js"
    using Cons.prems(6) by (cases arr) auto
  obtain q1 out where q1: "um_defragment decap env now (the_frag t0 sdu info fs i) q = Inr (q1, out)"
    and c: "if insert i S = {..<?n}
     then uo_result out \<and> uo_sent out = [(rs_pdcp sdu, info)] \<and> um_mid q0 sdu fs {} q1
     else \<not> uo_result out \<and> uo_sent out = [] \<and> um_mid q0 sdu fs (insert i S) q1"
    using um_defragment_step[OF len law env Cons.prems(1), of i now t0] Cons.prems(3,4) by auto
  show ?case
  proof (cases "js = []")
    case True
    then have "insert i S = {..<?n}" using Cons.prems(4) by auto
    then show ?thesis using c q1 arr True by (auto simp: um_receive_one_def)
  next
    case False
    then obtain j where "j \<in> set js" by (cases js) auto
    have "j \<notin> insert i S" using \<open>j \<in> set js\<close> Cons.prems(2,3) by auto
    moreover have "j \<in> {..<?n}" using \<open>j \<in> set js\<close> Cons.prems(4) by (metis UnI2 list.set_intros(2))
    ultimately have "insert i S \<noteq> {..<?n}" by blast
    then have o: "\<not> uo_result out" "uo_sent out = []" and m: "um_mid q0 sdu fs (insert i S) q1"
      using c by auto
    have dj: "distinct js" "set js \<inter> insert i S = {}" "insert i S \<union> set js = {..<?n}"
      using Cons.prems(2-4) by auto
    obtain q' outs where q': "foldE (um_receive_one decap env) arr' (q1, acc @ [out]) = Inr (q', (acc @ [out]) @ outs)"
      "concat (map uo_sent outs) = [(rs_pdcp sdu, info)]"
      "map uo_result outs = replicate (length js - 1) False @ [True]" "um_mid q0 sdu fs {} q'"
      using Cons.IH[OF m dj(1,2,3) False arr(2), of "acc @ [out]"] by blast
    have "replicate (length (i # js) - 1) False = False # replicate (length js - 1) False"
      using False by (cases js) auto
    moreover have "um_receive_one decap env (now, the_frag t0 sdu info fs i) (q, acc) = Inr (q1, acc @ [out])"
      using q1 by (simp add: um_receive_one_def)
    ultimately show ?thesis using q' arr(1) o
      by (intro exI[of _ q'] exI[of _ "out # outs"]) simp
  qed
qed

lemma permuted_frags:
  assumes n: "n < 2 ^ 32" and p: "mset ps = mset (map F [0..<n])"
    and f: "\<And>i. i < n \<Longrightarrow> rd_snoFragment (F i) = of_nat i"
  shows "\<exists>is. ps = map F is \<and> distinct is \<and> set is = {..<n}"
proof -
  let ?g = "\<lambda>p. unat (rd_snoFragment p)"
  have g: "?g (F i) = i" if "i < n" for i using f[OF that] that n by (simp add: unat_of_nat)
  have "set ps = F ` {..<n}" using mset_eq_setD[OF p] by auto
  then have "F (?g x) = x" if "x \<in> set ps" for x using that g by auto
  then have ps: "ps = map F (map ?g ps)" by (simp add: map_idI)
  have "mset (map ?g ps) = image_mset ?g (mset (map F [0..<n]))" using p by simp
  also have "\<dots> = mset (map (?g \<circ> F) [0..<n])" by (simp add: multiset.map_comp)
  also have "map (?g \<circ> F) [0..<n] = [0..<n]" using g by (intro map_idI) auto
  finally have m: "mset (map ?g ps) = mset [0..<n]" .
  then have "distinct (map ?g ps)" by (metis distinct_upt mset_eq_imp_distinct_iff)
  moreover have "set (map ?g ps) = {..<n}" using mset_eq_setD[OF m] by auto
  ultimately show ?thesis using ps by blast
qed

lemma um_mid_end:
  assumes "um_mid q0 sdu fs {} q" "fr_frags (uq_fragbuf q0) (rs_snoMainPacket sdu) = None"
  shows "fr_frags (uq_fragbuf q) = fr_frags (uq_fragbuf q0) \<and> mt_abs (uq_timer q) = mt_abs (uq_timer q0)
    \<and> mt_ok (uq_timer q)"
proof (intro conjI)
  have r: "um_timer.running (uq_timer q0) (rs_snoMainPacket sdu) False (uq_timer q)"
    using assms(1) by (simp add: um_mid_def)
  show "mt_abs (uq_timer q) = mt_abs (uq_timer q0)" by (rule um_timer.running_end[OF r])
  show "mt_ok (uq_timer q)" using r by (simp add: um_timer.running_def)
  show "fr_frags (uq_fragbuf q) = fr_frags (uq_fragbuf q0)"
  proof (rule ext)
    fix j
    show "fr_frags (uq_fragbuf q) j = fr_frags (uq_fragbuf q0) j"
      using assms by (cases "j = rs_snoMainPacket sdu") (auto simp: um_mid_def received_def)
  qed
qed

text \<open>
  An SDU of any length from 1 to \<open>2\<^sup>3\<^sup>1 - 1\<close> bytes survives fragmentation and reassembly: the
  fragments \<open>fragment\<close> creates, received in any order and at any times by a queue that holds nothing
  of this packet, make \<open>defragment\<close> answer no until the last one, at which it answers yes and hands
  the PDCP packet up, exactly once and with its control information; afterwards the fragment buffer
  and the events of the timer are as before.
\<close>
theorem um_fragment_reassemble:
  assumes "0 < rs_bytes sdu" "rs_bytes sdu < 2 ^ 31" "0 < uq_fragmentSize tq"
    and "um_fragment t0 sdu info tq = Inr frs" "mset (map snd arr) = mset frs"
    and "decap_law decap" "env_alive env info"
    and "mt_ok (uq_timer q)" "mt_abs (uq_timer q) (rs_snoMainPacket sdu) = None"
    and "fr_frags (uq_fragbuf q) (rs_snoMainPacket sdu) = None"
  shows "\<exists>q' outs. um_receive decap env arr q = Inr (q', outs) \<and>
    concat (map uo_sent outs) = [(rs_pdcp sdu, info)] \<and>
    map uo_result outs = replicate (length frs - 1) False @ [True] \<and>
    fr_frags (uq_fragbuf q') = fr_frags (uq_fragbuf q) \<and> mt_abs (uq_timer q') = mt_abs (uq_timer q)"
proof -
  let ?fs = "uq_fragmentSize tq"
  let ?n = "frag_count (rs_bytes sdu) ?fs"
  have frs: "frs = map (the_frag t0 sdu info ?fs) [0..<?n]"
    using um_fragment_eq[OF assms(1-3), of t0 info] assms(4) by simp
  have n: "int ?n < 2 ^ 31" using frag_count_bounds(3)[OF assms(1,3)] assms(2) by linarith
  have pos: "0 < ?n" using frag_count_pos[OF assms(1,3)] .
  obtain "is" where is_: "map snd arr = map (the_frag t0 sdu info ?fs) is" "distinct is" "set is = {..<?n}"
    using permuted_frags[OF _ assms(5)[unfolded frs]] n by force
  have m: "um_mid q sdu ?fs {} q"
    using um_timer.running_start[OF assms(8,9)] assms(10) by (simp add: um_mid_def received_def)
  have "card (set is) = ?n" unfolding is_(3) by simp
  then have li: "length is = ?n" using distinct_card[OF is_(2)] by simp
  then have ne: "is \<noteq> []" using pos by (metis less_numeral_extra(3) list.size(3))
  have l: "length is = length frs" using li by (simp add: frs)
  have "set is \<inter> {} = {}" "{} \<union> set is = {..<?n}" using is_(3) by simp_all
  note loop = um_receive_loop[OF assms(1-3,6,7) m is_(2) this ne is_(1), of "[]"]
  obtain q' outs where r: "foldE (um_receive_one decap env) arr (q, []) = Inr (q', [] @ outs)"
    "concat (map uo_sent outs) = [(rs_pdcp sdu, info)]"
    "map uo_result outs = replicate (length is - 1) False @ [True]" "um_mid q sdu ?fs {} q'"
    using loop by blast
  show ?thesis
    using r um_mid_end[OF r(4) assms(10)] l by (auto simp: um_receive_def)
qed

section \<open>Timeouts\<close>

text \<open>
  C31: When the timer message of a packet is delivered while both ends of the flow are in the
  simulation, the handler succeeds: it discards the fragments of exactly this packet, counts one
  lost packet for the user and one for the cell, and leaves the events of all other packets in the
  timer, with the next message scheduled.
\<close>
theorem um_timeout_discards:
  assumes "mt_run now (uq_timer q) ((now, m) # eq)"
    and "fr_frags (uq_fragbuf q) (tm_event m) = Some e" "mp_lteInfo e = Some info"
    and "env_alive env info" "ue_omnetId env (fi_sourceId info) \<noteq> 0" "ue_omnetId env (fi_destId info) \<noteq> 0"
  shows "\<exists>q' samples calls eq'. um_handleTimer env m q = Inr (q', samples, calls) \<and>
    fr_frags (uq_fragbuf q') = (fr_frags (uq_fragbuf q))(tm_event m := None) \<and>
    mt_abs (uq_timer q') = (mt_abs (uq_timer q))(tm_event m := None) \<and>
    map (\<lambda>(side, sig, v, i). (sig, v)) samples = [(RlcPacketLoss, 1), (RlcCellPacketLoss, 1)] \<and>
    kernel_run now calls eq = Inr eq' \<and> eq' = mt_message (uq_timer q')"
proof -
  obtain t' calls eq' where h: "mt_handle (tm_event m) (uq_timer q) = Inr (t', calls)"
    "kernel_run now calls eq = Inr eq'" "mt_sync now t' eq'"
    "mt_abs t' = (mt_abs (uq_timer q))(tm_event m := None)"
    using mt_sync_deliver[OF mt_run_sync[OF assms(1)]] by blast
  have s: "eq' = mt_message t'" using h(3) by (simp add: mt_sync_def)
  have g: "fragbuf_getLteInfo (tm_event m) (uq_fragbuf q) = Inr (Some info)"
    using assms(2,3) by (simp add: fragbuf_getLteInfo_def)
  have "fi_direction info = DL \<or> fi_direction info = UL" "ue_rlc env (fi_sourceId info)"
    "ue_rlc env (fi_destId info)" using assms(4) by (cases "fi_direction info"; simp add: env_alive_def)+
  then show ?thesis
    using g h(1,2,4) s assms(2,5,6)
    by (elim disjE) (auto simp: um_handleTimer_def Let_def fragbuf_remove_def fragbuf_subscript_def)
qed

text \<open>
  When the node of a packet has left, the handler of its timeout returns without telling the
  timer: the fragments stay, the event stays in the timer, and, since its message has been consumed
  and no other is scheduled, no event that is added afterwards will ever get a message: every later
  reassembly runs without a timeout.
\<close>
theorem um_timeout_kills_timer:
  assumes "mt_run now (uq_timer q) ((now, m) # eq)"
    and "fr_frags (uq_fragbuf q) (tm_event m) = Some e" "mp_lteInfo e = Some info"
    and "ue_omnetId env (fi_sourceId info) = 0 \<or> ue_omnetId env (fi_destId info) = 0"
    and "now \<le> now'" "0 \<le> d" "mt_abs (uq_timer q) ev = None"
  shows "eq = [] \<and> (\<exists>q' t'. um_handleTimer env m q = Inr (q', [], []) \<and> uq_timer q' = uq_timer q \<and>
    fr_frags (uq_fragbuf q') (tm_event m) \<noteq> None \<and> mt_busy (uq_timer q') \<and>
    mt_add now' d ev (uq_timer q') = Inr (t', []))"
proof -
  have s: "mt_sync now (uq_timer q) ((now, m) # eq)" using mt_run_sync[OF assms(1)] .
  then have ok: "mt_ok (uq_timer q)" by (simp add: mt_sync_def)
  obtain n ns where n: "mt_direct (uq_timer q) = n # ns" "tn_time n = now" "eq = []"
    using s by (auto simp: mt_sync_def mt_message_def split: list.splits)
  have g: "fragbuf_getLteInfo (tm_event m) (uq_fragbuf q) = Inr (Some info)"
    using assms(2,3) by (simp add: fragbuf_getLteInfo_def)
  have h: "um_handleTimer env m q = Inr (um_drop_info (tm_event m) q, [], [])"
    using g assms(4) by (auto simp: um_handleTimer_def Let_def)
  have nb: "\<not> mt_busyEvent ev (uq_timer q)" using mt_abs_dom[OF ok] assms(7) by simp
  have "\<exists>t'. mt_add now' d ev (uq_timer q) = Inr (t', [])"
    using mt_add_effect[OF ok nb, of now' d] n assms(5,6) by (auto split: if_splits)
  moreover have "mt_busy (uq_timer q)" using ok n by (simp add: mt_ok_def)
  ultimately show ?thesis using h n(3) assms(2) by (auto simp: um_drop_info_def)
qed

text \<open>
  The first fragment of an uplink packet whose UE is not in the simulation is entered in the
  fragment buffer, but its timer is not started: nothing will ever discard it, and when the UE is
  there again and the packet becomes complete, stopping the timer fails.
\<close>
theorem um_absent_ue_leaves_fragment:
  assumes "fi_direction (rd_info pkt) = UL" "\<not> ue_rlc env (fi_sourceId (rd_info pkt))"
    and "fr_frags (uq_fragbuf q) (rd_snoMainPacket pkt) = None"
    and "unat (rd_snoFragment pkt) < unat (rd_totalFragments pkt)"
    and "\<not> mt_busyEvent (rd_snoMainPacket pkt) (uq_timer q)"
  shows "\<exists>q'. um_defragment decap env now pkt q = Inr (q', um_quiet False [] []) \<and>
    fr_frags (uq_fragbuf q') (rd_snoMainPacket pkt) \<noteq> None \<and> uq_timer q' = uq_timer q \<and>
    \<not> is_ok (mt_remove (rd_snoMainPacket pkt) (uq_timer q'))"
  using assms mt_remove_missing[OF assms(5)]
  by (auto simp: um_defragment_def fragbuf_insert_def vec_set_def Let_def is_ok_iff)

section \<open>Instances\<close>

text \<open>An SDU of 25 bytes in fragments of 10, which arrive in the reverse order.\<close>

definition ex_flow :: flow_info where
  "ex_flow = \<lparr>fi_direction = UL, fi_sourceId = 1025, fi_destId = 1, fi_lcid = 3, fi_sequenceNumber = 8,
     fi_application = CBR, fi_traffic = BACKGROUND, fi_rlcType = RLC_UM, fi_srcAddr = 10, fi_dstAddr = 20, fi_srcPort = 5000,
     fi_dstPort = 80, fi_headerSize = 28\<rparr>"

definition ex_pdcp :: pdcp_pdu where
  "ex_pdcp = \<lparr>pp_bytes = 23, pp_pkt = \<lparr>dp_id = 99, dp_name = ''Data'', dp_bytes = 22\<rparr>\<rparr>"

definition ex_sdu :: rlc_sdu where
  "ex_sdu = \<lparr>rs_snoMainPacket = 8, rs_bytes = 25, rs_created = 0, rs_pdcp = ex_pdcp\<rparr>"

definition ex_env :: "bool \<Rightarrow> um_env" where
  "ex_env alive = \<lparr>ue_rlc = (\<lambda>_. alive), ue_omnetId = (\<lambda>_. if alive then 5 else 0)\<rparr>"

definition ex_decap :: "rlc_pdu \<Rightarrow> rlc_sdu result" where
  "ex_decap pdu = (if rs_bytes (rd_sdu pdu) \<le> rd_bytes pdu then Inr (rd_sdu pdu)
     else Inl (RuntimeError ''packet too short''))"

definition ex_frags :: "rlc_pdu list" where
  "ex_frags = projr (um_fragment 0 ex_sdu ex_flow \<lparr>uq_fragmentSize = 10\<rparr>)"

theorem um_fragment_reassemble_witness:
  "\<exists>q' outs. um_receive ex_decap (ex_env True) (map (Pair 7) (rev ex_frags)) (um_rx_new 1 1000) = Inr (q', outs) \<and>
    concat (map uo_sent outs) = [(ex_pdcp, ex_flow)] \<and> map uo_result outs = [False, False, True]"
proof -
  have f: "um_fragment 0 ex_sdu ex_flow \<lparr>uq_fragmentSize = 10\<rparr> = Inr ex_frags" "length ex_frags = 3"
    unfolding ex_frags_def by (simp_all add: um_fragment_eq ex_sdu_def frag_count_def)
  have p: "mset (map snd (map (Pair (7 :: simtime)) (rev ex_frags))) = mset ex_frags" by (simp add: comp_def)
  have d: "decap_law ex_decap" by (simp add: decap_law_def ex_decap_def)
  have e: "env_alive (ex_env True) ex_flow" by (simp add: env_alive_def ex_env_def ex_flow_def)
  have t: "mt_ok (uq_timer (um_rx_new 1 1000))" "mt_abs (uq_timer (um_rx_new 1 1000)) (rs_snoMainPacket ex_sdu) = None"
    "fr_frags (uq_fragbuf (um_rx_new 1 1000)) (rs_snoMainPacket ex_sdu) = None"
    by (simp_all add: um_rx_new_def mt_ok_def mt_setTimerId_def mt_new_def nodes_sorted_def mt_abs_def
        mt_events_def fragbuf_new_def)
  have b: "0 < rs_bytes ex_sdu" "rs_bytes ex_sdu < 2 ^ 31" "0 < uq_fragmentSize \<lparr>uq_fragmentSize = 10\<rparr>"
    by (simp_all add: ex_sdu_def)
  have r: "replicate (length ex_frags - 1) False @ [True] = [False, False, True]"
    by (simp add: f(2) numeral_2_eq_2)
  show ?thesis
    using um_fragment_reassemble[OF b f(1) p d e t] unfolding r by (auto simp: ex_sdu_def)
qed

text \<open>A queue with a fragment of packet 8 in the buffer, whose timeout is due at time 3.\<close>

definition ex_um_queue :: um_rx_queue where
  "ex_um_queue = (um_rx_new 1 3)\<lparr>uq_timer := fst ex_t2,
     uq_fragbuf := snd (projr (fragbuf_insert 8 3 0 10 ex_flow fragbuf_new))\<rparr>"

lemma ex_um_run: "mt_run 3 (uq_timer ex_um_queue) [(3, \<lparr>tm_ref = 1, tm_timerId = 1, tm_event = 8\<rparr>)]"
  using mr_clock[OF ex_timer_run, of 3] by (simp add: ex_timer_message ex_um_queue_def)

lemma ex_um_entry: "fr_frags (uq_fragbuf ex_um_queue) 8 = Some \<lparr>mp_bitmap = [True, False, False],
    mp_fragsleft = 2, mp_size = 10, mp_lteInfo = Some ex_flow\<rparr>"
proof -
  have "replicate 3 False = [False, False, False]" by (simp add: numeral_3_eq_3)
  then show ?thesis by (simp add: ex_um_queue_def fragbuf_insert_def fragbuf_new_def vec_set_def)
qed

theorem um_timeout_discards_witness:
  "\<exists>q' samples calls. um_handleTimer (ex_env True) \<lparr>tm_ref = 1, tm_timerId = 1, tm_event = 8\<rparr> ex_um_queue
      = Inr (q', samples, calls) \<and> fr_frags (uq_fragbuf q') 8 = None"
proof -
  let ?m = "\<lparr>tm_ref = 1, tm_timerId = 1, tm_event = 8\<rparr> :: timer_msg"
  have e: "fr_frags (uq_fragbuf ex_um_queue) (tm_event ?m) = Some \<lparr>mp_bitmap = [True, False, False],
    mp_fragsleft = 2, mp_size = 10, mp_lteInfo = Some ex_flow\<rparr>" using ex_um_entry by simp
  have a: "env_alive (ex_env True) ex_flow" "ue_omnetId (ex_env True) (fi_sourceId ex_flow) \<noteq> 0"
    "ue_omnetId (ex_env True) (fi_destId ex_flow) \<noteq> 0"
    by (simp_all add: env_alive_def ex_env_def ex_flow_def)
  show ?thesis using um_timeout_discards[OF ex_um_run e _ a] by fastforce
qed

theorem um_timeout_kills_timer_witness:
  "\<exists>q' t'. um_handleTimer (ex_env False) \<lparr>tm_ref = 1, tm_timerId = 1, tm_event = 8\<rparr> ex_um_queue = Inr (q', [], []) \<and>
    mt_add 4 1000 9 (uq_timer q') = Inr (t', [])"
proof -
  let ?m = "\<lparr>tm_ref = 1, tm_timerId = 1, tm_event = 8\<rparr> :: timer_msg"
  have e: "fr_frags (uq_fragbuf ex_um_queue) (tm_event ?m) = Some \<lparr>mp_bitmap = [True, False, False],
    mp_fragsleft = 2, mp_size = 10, mp_lteInfo = Some ex_flow\<rparr>" using ex_um_entry by simp
  have o: "ue_omnetId (ex_env False) (fi_sourceId ex_flow) = 0 \<or> ue_omnetId (ex_env False) (fi_destId ex_flow) = 0"
    by (simp add: ex_env_def)
  have n: "mt_abs (uq_timer ex_um_queue) 9 = None" by (simp add: ex_um_queue_def) code_simp
  show ?thesis using um_timeout_kills_timer[OF ex_um_run e _ o _ _ n, of 4 1000] by fastforce
qed

theorem um_absent_ue_leaves_fragment_witness:
  "\<exists>q'. um_defragment ex_decap (ex_env False) 0 (hd ex_frags) (um_rx_new 1 3) = Inr (q', um_quiet False [] []) \<and>
    fr_frags (uq_fragbuf q') 8 \<noteq> None"
proof -
  have h: "hd ex_frags = the_frag 0 ex_sdu ex_flow 10 0"
    unfolding ex_frags_def
    by (simp add: um_fragment_eq ex_sdu_def frag_count_def hd_map upt_rec)
  have d: "fi_direction (rd_info (hd ex_frags)) = UL"
    "\<not> ue_rlc (ex_env False) (fi_sourceId (rd_info (hd ex_frags)))"
    "rd_snoMainPacket (hd ex_frags) = 8"
    by (simp_all add: h ex_flow_def ex_env_def ex_sdu_def)
  have f: "fr_frags (uq_fragbuf (um_rx_new 1 3)) (rd_snoMainPacket (hd ex_frags)) = None"
    "unat (rd_snoFragment (hd ex_frags)) < unat (rd_totalFragments (hd ex_frags))"
    "\<not> mt_busyEvent (rd_snoMainPacket (hd ex_frags)) (uq_timer (um_rx_new 1 3))"
    by (simp_all add: h um_rx_new_def fragbuf_new_def ex_sdu_def frag_count_def mt_busyEvent_def
        mt_setTimerId_def mt_new_def)
  show ?thesis using um_absent_ue_leaves_fragment[OF d(1,2) f, of ex_decap 0]
    unfolding d(3) by blast
qed

end
