(* ===== verification/LteRlc.thy ===== *)
theory LteRlc
  imports Pdcp UmReassembly "HOL-Library.AList"
begin

text \<open>
  The modules of the RLC layer around the queues: the unacknowledged mode
  (\<^verbatim>\<open>simulte/src/stack/rlc/um/LteRlcUm.cc\<close>), which keeps a transmission and a reception queue per
  connection, the transparent mode (\<^verbatim>\<open>tm/LteRlcTm.cc\<close>) and the multiplexer (\<^verbatim>\<open>LteRlcMux.cc\<close>).  At the
  end, a packet on its whole way from the PDCP layer of one node to that of another.
\<close>

unbundle bit_operations_syntax

section \<open>Connection identifiers\<close>

definition idToMacCid :: "mac_node_id \<Rightarrow> u16 \<Rightarrow> u32" where
  "idToMacCid nodeId lcid = push_bit 16 (ucast nodeId) OR ucast lcid"

definition MacCidToNodeId :: "u32 \<Rightarrow> mac_node_id" where
  "MacCidToNodeId cid = ucast (drop_bit 16 cid)"

definition MacCidToLcid :: "u32 \<Rightarrow> u16" where
  "MacCidToLcid cid = ucast cid"

definition ctrlInfoToUeId :: "flow_info \<Rightarrow> mac_node_id result" where
  "ctrlInfoToUeId info = (case fi_direction info of
      DL \<Rightarrow> Inr (fi_destId info)
    | UL \<Rightarrow> Inr (fi_sourceId info)
    | UNKNOWN_DIRECTION \<Rightarrow> Inl (RuntimeError ''ctrlInfoToMacCid - unknown direction''))"

definition ctrlInfoToMacCid :: "flow_info \<Rightarrow> u32 result" where
  "ctrlInfoToMacCid info = bindE (ctrlInfoToUeId info) (\<lambda>ueId. Inr (idToMacCid ueId (fi_lcid info)))"

lemma macCid_parts [simp]: "MacCidToNodeId (idToMacCid n l) = n" "MacCidToLcid (idToMacCid n l) = l"
  by (rule bit_word_eqI; simp add: MacCidToNodeId_def MacCidToLcid_def idToMacCid_def bit_ucast_iff bit_drop_bit_eq
      bit_or_iff bit_push_bit_iff; auto dest: bit_imp_le_length)+

lemma idToMacCid_inj: "idToMacCid n l = idToMacCid n' l' \<longleftrightarrow> n = n' \<and> l = l'"
  using macCid_parts by metis

section \<open>The unacknowledged mode\<close>

text \<open>The queues by connection, and the parameters of the modules it creates for them.\<close>

record um_entity =
  ru_txBuffers :: "(u32 \<times> um_tx_queue) list"
  ru_rxBuffers :: "(u32 \<times> um_rx_queue) list"
  ru_fragmentSize :: int
  ru_timeout :: simtime

definition RLC_HEADER_UM :: int where "RLC_HEADER_UM = 2"

definition um_getTxBuffer :: "mac_node_id \<Rightarrow> u16 \<Rightarrow> um_entity \<Rightarrow> um_tx_queue \<times> um_entity" where
  "um_getTxBuffer nodeId lcid e = (let cid = idToMacCid nodeId lcid in
     case map_of (ru_txBuffers e) cid of
       None \<Rightarrow> (let q = \<lparr>uq_fragmentSize = ru_fragmentSize e\<rparr> in (q, e\<lparr>ru_txBuffers := (cid, q) # ru_txBuffers e\<rparr>))
     | Some q \<Rightarrow> (q, e))"

definition um_getRxBuffer :: "mac_node_id \<Rightarrow> u16 \<Rightarrow> um_entity \<Rightarrow> um_rx_queue \<times> um_entity" where
  "um_getRxBuffer nodeId lcid e = (let cid = idToMacCid nodeId lcid in
     case map_of (ru_rxBuffers e) cid of
       None \<Rightarrow> (let q = um_rx_new 0 (ru_timeout e) in (q, e\<lparr>ru_rxBuffers := (cid, q) # ru_rxBuffers e\<rparr>))
     | Some q \<Rightarrow> (q, e))"

definition um_handleUpperMessage ::
  "simtime \<Rightarrow> pdcp_pdu \<Rightarrow> flow_info \<Rightarrow> um_entity \<Rightarrow> (um_entity \<times> rlc_pdu list) result" where
  "um_handleUpperMessage now pkt lteInfo e = bindE (ctrlInfoToUeId lteInfo) (\<lambda>ueId.
     case um_getTxBuffer ueId (fi_lcid lteInfo) e of (txbuf, e') \<Rightarrow>
       let rlcPkt = \<lparr>rs_snoMainPacket = fi_sequenceNumber lteInfo, rs_bytes = RLC_HEADER_UM + pp_bytes pkt,
                     rs_created = now, rs_pdcp = pkt\<rparr>
       in bindE (um_fragment now rlcPkt lteInfo txbuf) (\<lambda>frags. Inr (e', frags)))"

definition um_handleLowerMessage ::
  "(rlc_pdu \<Rightarrow> rlc_sdu result) \<Rightarrow> um_env \<Rightarrow> simtime \<Rightarrow> rlc_pdu \<Rightarrow> um_entity \<Rightarrow> (um_entity \<times> um_out) result" where
  "um_handleLowerMessage decap env now pkt e = bindE (ctrlInfoToUeId (rd_info pkt)) (\<lambda>ueId.
     case um_getRxBuffer ueId (fi_lcid (rd_info pkt)) e of (rxbuf, e') \<Rightarrow>
       bindE (um_defragment decap env now pkt rxbuf) (\<lambda>(rxbuf', out).
         Inr (e'\<lparr>ru_rxBuffers := AList.update (idToMacCid ueId (fi_lcid (rd_info pkt))) rxbuf' (ru_rxBuffers e')\<rparr>, out)))"

text \<open>Erasing the element an iterator stands on invalidates it, and the loop then advances it.\<close>

definition um_deleteQueues :: "mac_node_id \<Rightarrow> um_entity \<Rightarrow> um_entity result" where
  "um_deleteQueues nodeId e =
     (if list_ex (\<lambda>(cid, _). MacCidToNodeId cid = nodeId) (ru_txBuffers e)
         \<or> list_ex (\<lambda>(cid, _). MacCidToNodeId cid = nodeId) (ru_rxBuffers e)
      then Inl (Undefined ''increment of an invalid iterator'') else Inr e)"

section \<open>The transparent mode and the multiplexer\<close>

datatype tm_sdu = TmSdu rrc_pkt
datatype tm_pdu = TmPdu tm_sdu flow_info

definition tm_handleUpperMessage :: "rrc_pkt \<Rightarrow> flow_info \<Rightarrow> tm_pdu" where
  "tm_handleUpperMessage pkt lteInfo = TmPdu (TmSdu pkt) lteInfo"

fun tm_handleLowerMessage :: "tm_pdu \<Rightarrow> rrc_pkt \<times> flow_info" where
  "tm_handleLowerMessage (TmPdu (TmSdu pkt) lteInfo) = (pkt, lteInfo)"

datatype rlc_sap = TM_Sap | UM_Sap | AM_Sap

definition mac2rlc :: "flow_info \<Rightarrow> rlc_sap result" where
  "mac2rlc lteInfo = (if fi_rlcType lteInfo = RLC_TM then Inr TM_Sap
     else if fi_rlcType lteInfo = RLC_UM then Inr UM_Sap
     else if fi_rlcType lteInfo = RLC_AM then Inr AM_Sap
     else Inl (RuntimeError ''LteRlcMux: wrong traffic type''))"

text \<open>
  A control packet is sent as it is, but the receiver takes it for an envelope: what arrives is the
  content of what was sent, and a packet that encapsulates nothing ends in a null pointer.
\<close>

lemma rrc_content_only:
  "fromEutranRrcSap pkt p = ToTm pk info \<Longrightarrow>
     toEutranRrcSap (fst (tm_handleLowerMessage (tm_handleUpperMessage pk info))) =
       (case rp_inner pkt of None \<Rightarrow> Inl (Undefined ''null pointer'') | Some c \<Rightarrow> Inr (ToRrc c))"
  by (simp add: fromEutranRrcSap_def tm_handleUpperMessage_def toEutranRrcSap_def split: option.split)

section \<open>A connection has its own queues\<close>

lemma um_getTxBuffer_size:
  assumes "0 < ru_fragmentSize e" "\<forall>(c, q) \<in> set (ru_txBuffers e). 0 < uq_fragmentSize q"
  shows "0 < uq_fragmentSize (fst (um_getTxBuffer n l e))"
  using assms by (auto simp: um_getTxBuffer_def Let_def split: option.split dest: map_of_SomeD)

text \<open>The reception queue of a connection, created or not.\<close>

definition rx_queue :: "u32 \<Rightarrow> um_entity \<Rightarrow> um_rx_queue" where
  "rx_queue cid e = (case map_of (ru_rxBuffers e) cid of None \<Rightarrow> um_rx_new 0 (ru_timeout e) | Some q \<Rightarrow> q)"

lemma um_getRxBuffer_queue:
  "um_getRxBuffer n l e = (rx_queue (idToMacCid n l) e, snd (um_getRxBuffer n l e)) \<and>
   rx_queue cid (snd (um_getRxBuffer n l e)) = rx_queue cid e \<and>
   ru_timeout (snd (um_getRxBuffer n l e)) = ru_timeout e"
  by (simp add: um_getRxBuffer_def rx_queue_def Let_def split: option.split)

lemma rx_queue_update:
  "rx_queue c (e\<lparr>ru_rxBuffers := AList.update c' q (ru_rxBuffers e)\<rparr>) = (if c = c' then q else rx_queue c e)"
  by (simp add: rx_queue_def update_conv' split: option.split)

lemma um_handleLowerMessage_queue:
  assumes "ctrlInfoToUeId (rd_info pkt) = Inr ueId"
    and "um_defragment decap env now pkt (rx_queue (idToMacCid ueId (fi_lcid (rd_info pkt))) e) = Inr (q', out)"
  shows "\<exists>e'. um_handleLowerMessage decap env now pkt e = Inr (e', out) \<and>
    (\<forall>c. rx_queue c e' = (if c = idToMacCid ueId (fi_lcid (rd_info pkt)) then q' else rx_queue c e))"
proof -
  let ?l = "fi_lcid (rd_info pkt)"
  obtain e1 where e1: "um_getRxBuffer ueId ?l e = (rx_queue (idToMacCid ueId ?l) e, e1)" "\<forall>c. rx_queue c e1 = rx_queue c e"
    using um_getRxBuffer_queue[of ueId ?l e] by blast
  show ?thesis using assms e1 by (simp add: um_handleLowerMessage_def rx_queue_update)
qed

definition um_lower_one ::
  "(rlc_pdu \<Rightarrow> rlc_sdu result) \<Rightarrow> um_env \<Rightarrow> simtime \<times> rlc_pdu \<Rightarrow> um_entity \<times> um_out list
   \<Rightarrow> (um_entity \<times> um_out list) result" where
  "um_lower_one decap env a s = (case s of (e, outs) \<Rightarrow>
     bindE (um_handleLowerMessage decap env (fst a) (snd a) e) (\<lambda>(e', out). Inr (e', outs @ [out])))"

text \<open>The fragments of one connection go to its queue, one by one.\<close>

lemma um_lower_one_flow:
  assumes "ctrlInfoToUeId info = Inr ueId" "\<forall>a \<in> set arr. rd_info (snd a) = info"
    and "foldE (um_receive_one decap env) arr (rx_queue (idToMacCid ueId (fi_lcid info)) e, acc) = Inr (q', acc')"
  shows "\<exists>e'. foldE (um_lower_one decap env) arr (e, acc) = Inr (e', acc') \<and>
    (\<forall>c. rx_queue c e' = (if c = idToMacCid ueId (fi_lcid info) then q' else rx_queue c e))"
  using assms(2,3)
proof (induction arr arbitrary: e acc)
  case Nil
  then show ?case by auto
next
  case (Cons a arr)
  let ?cid = "idToMacCid ueId (fi_lcid info)"
  obtain now pdu where a: "a = (now, pdu)" by (cases a)
  have two: "um_lower_one decap env (now, pdu) (e, os) = bindE (um_handleLowerMessage decap env now pdu e) (\<lambda>(e', out). Inr (e', os @ [out]))"
    for e os by (simp add: um_lower_one_def)
  have one: "um_receive_one decap env (now, pdu) (q, os) = bindE (um_defragment decap env now pdu q) (\<lambda>(q', out). Inr (q', os @ [out]))"
    for q os by (simp add: um_receive_one_def)
  have i: "rd_info pdu = info" using Cons.prems(1) by (simp add: a)
  obtain q1 out where d: "um_defragment decap env now pdu (rx_queue ?cid e) = Inr (q1, out)"
    using Cons.prems(2) by (cases "um_defragment decap env now pdu (rx_queue ?cid e)") (auto simp: one a)
  then obtain e1 where e1: "um_handleLowerMessage decap env now pdu e = Inr (e1, out)"
    "\<forall>c. rx_queue c e1 = (if c = ?cid then q1 else rx_queue c e)"
    using um_handleLowerMessage_queue[of pdu ueId decap env now e q1 out] assms(1) i by auto
  have "foldE (um_receive_one decap env) arr (rx_queue ?cid e1, acc @ [out]) = Inr (q', acc')"
    using Cons.prems(2) d e1(2) by (simp add: one a)
  from Cons.IH[OF _ this] Cons.prems(1) obtain e' where
    "foldE (um_lower_one decap env) arr (e1, acc @ [out]) = Inr (e', acc')"
    "\<forall>c. rx_queue c e' = (if c = ?cid then q' else rx_queue c e1)" by auto
  then show ?case using e1 by (intro exI[of _ e']) (simp add: two a)
qed

section \<open>From one node to another\<close>

text \<open>A queue that is not receiving the packet with this number, with its timer in order.\<close>

definition rx_idle :: "u32 \<Rightarrow> um_rx_queue \<Rightarrow> bool" where
  "rx_idle sno q \<longleftrightarrow> mt_ok (uq_timer q) \<and> mt_abs (uq_timer q) sno = None \<and> fr_frags (uq_fragbuf q) sno = None"

lemma um_flow_reassembles:
  assumes u: "ctrlInfoToUeId info = Inr ueId"
    and s: "0 < ru_fragmentSize tx" "\<forall>(c, q) \<in> set (ru_txBuffers tx). 0 < uq_fragmentSize q"
    and len: "0 \<le> pp_bytes pdcp" "pp_bytes pdcp + RLC_HEADER_UM < 2 ^ 31"
    and frag: "um_handleUpperMessage now pdcp info tx = Inr (tx', frs)" "mset (map snd arr) = mset frs"
    and env: "decap_law decap" "env_alive env info"
    and idle: "rx_idle (fi_sequenceNumber info) (rx_queue (idToMacCid ueId (fi_lcid info)) rx)"
  shows "\<exists>rx' outs. foldE (um_lower_one decap env) arr (rx, []) = Inr (rx', outs) \<and>
    concat (map uo_sent outs) = [(pdcp, info)] \<and> (\<forall>c. c \<noteq> idToMacCid ueId (fi_lcid info) \<longrightarrow> rx_queue c rx' = rx_queue c rx)"
proof -
  define sdu where "sdu = \<lparr>rs_snoMainPacket = fi_sequenceNumber info, rs_bytes = RLC_HEADER_UM + pp_bytes pdcp,
    rs_created = now, rs_pdcp = pdcp\<rparr>"
  let ?q = "rx_queue (idToMacCid ueId (fi_lcid info)) rx"
  obtain tq tx1 where tq: "um_getTxBuffer ueId (fi_lcid info) tx = (tq, tx1)" by fastforce
  have fs: "0 < uq_fragmentSize tq" using um_getTxBuffer_size[OF s, of ueId "fi_lcid info"] tq by simp
  have b: "0 < rs_bytes sdu" "rs_bytes sdu < 2 ^ 31" using len by (simp_all add: sdu_def RLC_HEADER_UM_def)
  have fr: "um_fragment now sdu info tq = Inr frs"
    using frag(1) by (auto simp: um_handleUpperMessage_def u tq sdu_def Let_def)
  then have "frs = map (the_frag now sdu info (uq_fragmentSize tq)) [0..<frag_count (rs_bytes sdu) (uq_fragmentSize tq)]"
    using um_fragment_eq[OF b fs] by simp
  then have "\<forall>p \<in> set frs. rd_info p = info" by auto
  moreover have "set (map snd arr) = set frs" using frag(2) by (rule mset_eq_setD)
  ultimately have i: "\<forall>a \<in> set arr. rd_info (snd a) = info" by auto
  have sn: "rs_snoMainPacket sdu = fi_sequenceNumber info" "rs_pdcp sdu = pdcp" by (simp_all add: sdu_def)
  obtain q' outs where q': "foldE (um_receive_one decap env) arr (?q, []) = Inr (q', outs)"
    "concat (map uo_sent outs) = [(pdcp, info)]"
    using um_fragment_reassemble[OF b fs fr frag(2) env, of ?q] idle by (auto simp: um_receive_def rx_idle_def sn)
  from um_lower_one_flow[OF u i q'(1)] show ?thesis using q'(2) by auto
qed

text \<open>
  C12: A data packet crosses the PDCP and RLC layers of two nodes unchanged.  Let the sender hand a
  packet of any flow to the unacknowledged mode, with positive fragment sizes and a length (with its
  headers) below \<open>2^31\<close> bytes.  Let its fragments, each once and in any order, be what the receiver's RLC
  layer takes next, before the reassembly timeout of the packet (which throws away what has come, and
  does not fire among these steps) and with both ends of the connection alive, at a queue whose timer is
  in order and that is not already collecting this sequence number; decapsulation gives back what was
  encapsulated.  Then the RLC layer hands up exactly one PDCP packet, the one sent with the information
  it was sent with, without touching the queue of any other connection, and its PDCP layer, with the
  same header compression, restores the packet to its length and content.
\<close>
theorem data_packet_round_trip:
  assumes "fromDataPort b pkt info p = Inr (p', ToUm pdcp info')" "0 \<le> dp_bytes pkt"
    and "0 < ru_fragmentSize tx" "\<forall>(c, q) \<in> set (ru_txBuffers tx). 0 < uq_fragmentSize q"
    and "pp_bytes pdcp + RLC_HEADER_UM < 2 ^ 31"
    and "um_handleUpperMessage now pdcp info' tx = Inr (tx', frs)" "mset (map snd arr) = mset frs"
    and "decap_law decap" "env_alive env info'"
    and "ctrlInfoToMacCid info' = Inr cid" "rx_idle (fi_sequenceNumber info') (rx_queue cid rx)"
    and "pd_headerCompressedSize peer = pd_headerCompressedSize p"
  shows "\<exists>rx' outs. foldE (um_lower_one decap env) arr (rx, []) = Inr (rx', outs) \<and>
    concat (map uo_sent outs) = [(pdcp, info')] \<and> (\<forall>c. c \<noteq> cid \<longrightarrow> rx_queue c rx' = rx_queue c rx) \<and>
    toDataPort pdcp info' peer = Inr (ToData pkt (handleControlInfo peer info'))"
proof -
  have ok: "sendable b p (pkt, info)" using assms(1) by (intro fromDataPort_sendable) simp
  obtain l p1 where r: "request_lcid (flow_key b p (pkt, info)) p = Inr (l, p1)"
    using fromDataPort_fails[OF ok] assms(1) by (cases "request_lcid (flow_key b p (pkt, info)) p") auto
  obtain pk where pk: "headerCompress p pkt (fi_headerSize info) = Inr pk" "pdcp = \<lparr>pp_bytes = PDCP_HEADER_UM + dp_bytes pk, pp_pkt = pk\<rparr>"
    "fi_headerSize info' = fi_headerSize info"
    using fromDataPort_sends[OF ok r] assms(1) by (auto split: if_splits)
  have z: "0 \<le> dp_bytes pk" and restore: "headerDecompress peer pk (fi_headerSize info) = Inr pkt"
    using pk(1) assms(2) unfolding headerCompress_def headerDecompress_def assms(12) setByteLength_def
    by (auto split: if_splits)
  obtain ueId where u: "ctrlInfoToUeId info' = Inr ueId" "cid = idToMacCid ueId (fi_lcid info')"
    using assms(10) by (auto simp: ctrlInfoToMacCid_def)
  have "0 \<le> pp_bytes pdcp" using z by (simp add: pk(2) PDCP_HEADER_UM_def)
  from um_flow_reassembles[OF u(1) assms(3,4) this assms(5-9) assms(11)[unfolded u(2)]]
  obtain rx' outs where "foldE (um_lower_one decap env) arr (rx, []) = Inr (rx', outs)"
    "concat (map uo_sent outs) = [(pdcp, info')]" "\<forall>c. c \<noteq> cid \<longrightarrow> rx_queue c rx' = rx_queue c rx"
    unfolding u(2)[symmetric] by blast
  moreover have "toDataPort pdcp info' peer = Inr (ToData pkt (handleControlInfo peer info'))"
    using restore by (simp add: toDataPort_def pk(2,3))
  ultimately show ?thesis by blast
qed

section \<open>An instance\<close>

text \<open>The VoIP packet of the UE, in fragments of 10 bytes that arrive in reverse, at a peer that knows nothing yet.\<close>

definition ex_um :: um_entity where
  "ex_um = \<lparr>ru_txBuffers = [], ru_rxBuffers = [], ru_fragmentSize = 10, ru_timeout = 1000\<rparr>"

definition ex_sent :: "(pdcp_pdu \<times> flow_info)" where
  "ex_sent = (case from_data ex_binder [ex_packet 5000] ex_ue of Inr (_, [ToUm pdu info]) \<Rightarrow> (pdu, info) | _ \<Rightarrow> (ex_pdcp, ex_flow))"

definition ex_sent_frags :: "rlc_pdu list" where
  "ex_sent_frags = snd (projr (um_handleUpperMessage 0 (fst ex_sent) (snd ex_sent) ex_um))"

lemma ex_sent_facts:
  "\<exists>p'. fromDataPort ex_binder (fst (ex_packet 5000)) (snd (ex_packet 5000)) ex_ue = Inr (p', ToUm (fst ex_sent) (snd ex_sent)) \<and>
     pp_bytes (fst ex_sent) = 36 \<and> fi_direction (snd ex_sent) = UL \<and> fi_sourceId (snd ex_sent) = 1025"
proof -
  have o: "sendable ex_binder ex_ue (fst (ex_packet 5000), snd (ex_packet 5000))" using ex_sendable[of 5000] by simp
  have k: "flow_key ex_binder ex_ue (fst (ex_packet 5000), snd (ex_packet 5000)) = (1025, 1, 5000, 80)"
    using ex_flow_key[of 5000] by simp
  obtain ht where r: "request_lcid (1025, 1, 5000, 80) ex_ue = Inr (pd_lcid ex_ue, ex_ue\<lparr>pd_lcid := pd_lcid ex_ue + 1, pd_ht := ht\<rparr>)"
    using request_lcid_new[OF numbered_fresh[OF ex_fresh], of "(1025, 1, 5000, 80)"] by (auto simp: TABLE_SIZE_def)
  have t: "fi_rlcType (setTrafficInformation ex_ue (fst (ex_packet 5000)) i) = RLC_UM" for i
    by (simp add: setTrafficInformation_def ex_packet_def ex_ue_def RLC_UM_def)
  have h: "headerCompress ex_ue (fst (ex_packet 5000)) (fi_headerSize (snd (ex_packet 5000)))
      = Inr ((fst (ex_packet 5000))\<lparr>dp_bytes := 35\<rparr>)"
    by (simp add: headerCompress_def ex_packet_def ex_ue_def setByteLength_def)
  have src: "fi_sourceId (snd (ex_packet 5000)) = 1025" "fi_srcPort (snd (ex_packet 5000)) = 5000"
    "fi_dstPort (snd (ex_packet 5000)) = 80" by (simp_all add: ex_packet_def)
  have n: "getDirection ex_ue = UL" "pd_nodeId ex_ue = 1025" by (simp_all add: getDirection_def ex_ue_def)
  obtain p' pdu i where s: "fromDataPort ex_binder (fst (ex_packet 5000)) (snd (ex_packet 5000)) ex_ue = Inr (p', ToUm pdu i)"
    "pp_bytes pdu = 36" "fi_direction i = UL" "fi_sourceId i = 1025"
    by (simp add: fromDataPort_def Let_def ex_getDestId h t src r n PDCP_HEADER_UM_def)
  have "ex_sent = (pdu, i)" using s(1) by (simp add: ex_sent_def from_data_def from_data_one_def)
  then have "fst ex_sent = pdu" "snd ex_sent = i" by (metis fst_conv, metis snd_conv)
  then show ?thesis using s by simp
qed

theorem data_packet_round_trip_witness:
  "\<exists>rx' outs. foldE (um_lower_one ex_decap (ex_env True)) (map (Pair 7) (rev ex_sent_frags)) (ex_um, []) = Inr (rx', outs) \<and>
    concat (map uo_sent outs) = [ex_sent] \<and>
    toDataPort (fst ex_sent) (snd ex_sent) (ex_ue\<lparr>pd_kind := PdcpEnb\<rparr>) = Inr (ToData (fst (ex_packet 5000)) None)"
proof -
  obtain p' where s: "fromDataPort ex_binder (fst (ex_packet 5000)) (snd (ex_packet 5000)) ex_ue = Inr (p', ToUm (fst ex_sent) (snd ex_sent))"
    and b: "pp_bytes (fst ex_sent) = 36" and d: "fi_direction (snd ex_sent) = UL" "fi_sourceId (snd ex_sent) = 1025"
    using ex_sent_facts by blast
  have u: "ctrlInfoToUeId (snd ex_sent) = Inr 1025" using d by (simp add: ctrlInfoToUeId_def)
  have up: "um_handleUpperMessage 0 (fst ex_sent) (snd ex_sent) ex_um
      = Inr (snd (um_getTxBuffer 1025 (fi_lcid (snd ex_sent)) ex_um), ex_sent_frags)"
    unfolding ex_sent_frags_def
    by (simp add: um_handleUpperMessage_def u um_getTxBuffer_def ex_um_def Let_def um_fragment_eq b RLC_HEADER_UM_def)
  have len: "0 \<le> dp_bytes (fst (ex_packet 5000))" "pp_bytes (fst ex_sent) + RLC_HEADER_UM < 2 ^ 31"
    by (simp_all add: ex_packet_def b RLC_HEADER_UM_def)
  have tx: "0 < ru_fragmentSize ex_um" "\<forall>(c, q) \<in> set (ru_txBuffers ex_um). 0 < uq_fragmentSize q"
    by (simp_all add: ex_um_def)
  have m: "mset (map snd (map (Pair (7 :: simtime)) (rev ex_sent_frags))) = mset ex_sent_frags" by (simp add: comp_def)
  have e: "decap_law ex_decap" "env_alive (ex_env True) (snd ex_sent)"
    by (simp_all add: decap_law_def ex_decap_def env_alive_def ex_env_def d)
  have c: "ctrlInfoToMacCid (snd ex_sent) = Inr (idToMacCid 1025 (fi_lcid (snd ex_sent)))"
    by (simp add: ctrlInfoToMacCid_def u)
  have i: "rx_idle sno (rx_queue cid ex_um)" for sno cid
    by (simp add: rx_idle_def rx_queue_def ex_um_def um_rx_new_def mt_ok_def mt_setTimerId_def mt_new_def
        nodes_sorted_def mt_abs_def mt_events_def fragbuf_new_def)
  have h: "pd_headerCompressedSize (ex_ue\<lparr>pd_kind := PdcpEnb\<rparr>) = pd_headerCompressedSize ex_ue" by simp
  have k: "handleControlInfo (ex_ue\<lparr>pd_kind := PdcpEnb\<rparr>) (snd ex_sent) = None" by (simp add: handleControlInfo_def)
  show ?thesis
    using data_packet_round_trip[OF s len(1) tx len(2) up m e c i h] unfolding k by auto
qed

end
