(* ===== verification/Allocation.thy ===== *)
theory Allocation
  imports LteTypes
begin

text \<open>
  The resource block allocator of the eNodeB
  (\<^verbatim>\<open>simulte/src/stack/mac/allocator/LteAllocationModule.cc\<close>).  Blocks are counted per OFDMA plane,
  antenna and band.  A \<open>std::map\<close> to a number that the code only reads and writes through the
  subscript operator, which inserts a zero for a missing key, is a total function; the map of the
  users, which is also searched and accessed with \<open>at\<close>, keeps its missing keys.
\<close>

section \<open>Planes and antennas\<close>

datatype plane = MAIN_PLANE | MU_MIMO_PLANE

datatype remote = MACRO | RU1 | RU2 | RU3 | RU4 | RU5 | RU6 | UNKNOWN_RU

type_synonym band = u16

fun plane_idx :: "plane \<Rightarrow> nat" where
  "plane_idx MAIN_PLANE = 0"
| "plane_idx MU_MIMO_PLANE = 1"

fun remote_idx :: "remote \<Rightarrow> nat" where
  "remote_idx MACRO = 0" | "remote_idx RU1 = 1" | "remote_idx RU2 = 2" | "remote_idx RU3 = 3"
| "remote_idx RU4 = 4" | "remote_idx RU5 = 5" | "remote_idx RU6 = 6" | "remote_idx UNKNOWN_RU = 7"

text \<open>The order of the enumeration is the order in which a set of antennas is iterated.\<close>

lemma remote_idx_inj: "remote_idx a = remote_idx b \<longleftrightarrow> a = b"
  by (cases a; cases b) auto

instantiation remote :: linorder
begin

definition less_eq_remote :: "remote \<Rightarrow> remote \<Rightarrow> bool" where
  "less_eq_remote a b \<longleftrightarrow> remote_idx a \<le> remote_idx b"

definition less_remote :: "remote \<Rightarrow> remote \<Rightarrow> bool" where
  "less_remote a b \<longleftrightarrow> remote_idx a < remote_idx b"

instance
  by intro_classes (auto simp: less_eq_remote_def less_remote_def remote_idx_inj)

end

section \<open>State\<close>

record band_info =
  ab_ueRbs :: "mac_node_id \<Rightarrow> u32"
  ab_ueBytes :: "mac_node_id \<Rightarrow> u32"
  ab_allocated :: u32

record ue_info =
  au_allocatedBlocks :: u32
  au_allocatedBytes :: u32
  au_muMimoEnabled :: bool
  au_secondaryUser :: bool
  au_peerId :: mac_node_id
  au_rbs :: "remote \<Rightarrow> band \<Rightarrow> u32"
  au_allocationMap :: "remote \<Rightarrow> band \<Rightarrow> (u32 \<times> u32) list"
  au_antennaRbs :: "remote \<Rightarrow> u32"
  au_antennas :: "remote set"
  au_currentAntenna :: remote

type_synonym per_band = "band \<Rightarrow> band_info"

record alloc_module =
  am_bands :: u32
  am_total :: "u32 list list"
  am_allocated :: "u32 list list"
  am_free :: "u32 list list list"
  am_ue :: "mac_node_id \<Rightarrow> ue_info option"
  am_perBand :: "per_band list list"
  am_prev :: "per_band list list"

definition band_zero :: band_info where
  "band_zero = \<lparr>ab_ueRbs = (\<lambda>_. 0), ab_ueBytes = (\<lambda>_. 0), ab_allocated = 0\<rparr>"

definition ue_zero :: ue_info where
  "ue_zero = \<lparr>au_allocatedBlocks = 0, au_allocatedBytes = 0, au_muMimoEnabled = False,
     au_secondaryUser = False, au_peerId = 0, au_rbs = (\<lambda>_ _. 0), au_allocationMap = (\<lambda>_ _. []),
     au_antennaRbs = (\<lambda>_. 0), au_antennas = {MACRO}, au_currentAntenna = MACRO\<rparr>"

definition alloc_new :: alloc_module where
  "alloc_new = \<lparr>am_bands = 0, am_total = [], am_allocated = [], am_free = [], am_ue = (\<lambda>_. None),
     am_perBand = [], am_prev = []\<rparr>"

section \<open>Access\<close>

text \<open>Unchecked and checked access to a vector of vectors.\<close>

definition mat_get :: "'a list list \<Rightarrow> nat \<Rightarrow> nat \<Rightarrow> 'a result" where
  "mat_get m i j = bindE (vec_get m i) (\<lambda>r. vec_get r j)"

definition mat_at :: "'a list list \<Rightarrow> nat \<Rightarrow> nat \<Rightarrow> 'a result" where
  "mat_at m i j = bindE (vec_at m i) (\<lambda>r. vec_at r j)"

definition mat_set :: "'a list list \<Rightarrow> nat \<Rightarrow> nat \<Rightarrow> 'a \<Rightarrow> 'a list list result" where
  "mat_set m i j x = bindE (vec_get m i) (\<lambda>r. bindE (vec_set r j x) (\<lambda>r'. Inr (m[i := r'])))"

text \<open>\<open>v.at(i).resize(n, d)\<close>.\<close>

definition row_resize :: "'a list list \<Rightarrow> nat \<Rightarrow> nat \<Rightarrow> 'a \<Rightarrow> 'a list list result" where
  "row_resize m i n d = bindE (vec_at m i) (\<lambda>r. Inr (m[i := vec_resize r n d]))"

text \<open>\<open>allocatedRbsUe_[id]\<close>: the entry, default-constructed when missing.\<close>

definition ue_of :: "mac_node_id \<Rightarrow> alloc_module \<Rightarrow> ue_info" where
  "ue_of n s = (case am_ue s n of Some u \<Rightarrow> u | None \<Rightarrow> ue_zero)"

definition ue_touch :: "mac_node_id \<Rightarrow> alloc_module \<Rightarrow> alloc_module" where
  "ue_touch n s = s\<lparr>am_ue := (am_ue s)(n := Some (ue_of n s))\<rparr>"

definition ue_update :: "mac_node_id \<Rightarrow> (ue_info \<Rightarrow> ue_info) \<Rightarrow> alloc_module \<Rightarrow> alloc_module" where
  "ue_update n f s = s\<lparr>am_ue := (am_ue s)(n := Some (f (ue_of n s)))\<rparr>"

definition ue_at :: "mac_node_id \<Rightarrow> alloc_module \<Rightarrow> ue_info result" where
  "ue_at n s = (case am_ue s n of Some u \<Rightarrow> Inr u | None \<Rightarrow> Inl OutOfRange)"

text \<open>The difference of two words converted to \<open>int\<close>, undefined when it does not fit.\<close>

definition sub_int :: "u32 \<Rightarrow> u32 \<Rightarrow> int result" where
  "sub_int x y =
     (let d = sint x - sint y
      in if - (2 ^ 31) \<le> d \<and> d < 2 ^ 31 then Inr d else Inl (Undefined ''signed overflow''))"

section \<open>Configuration\<close>

definition initAndReset :: "u32 \<Rightarrow> u32 \<Rightarrow> alloc_module \<Rightarrow> alloc_module" where
  "initAndReset resourceBlocks bands s = s\<lparr>
     am_total := [[resourceBlocks]], am_bands := bands, am_allocated := [[0]],
     am_prev := am_perBand s, am_perBand := [[\<lambda>_. band_zero]],
     am_free := [[replicate (unat bands) 0]], am_ue := (\<lambda>_. None)\<rparr>"

definition configureOFDMplane :: "plane \<Rightarrow> alloc_module \<Rightarrow> alloc_module result" where
  "configureOFDMplane plane s =
     (let p = plane_idx plane in
      if length (am_total s) < p + 1 then
        bindE (row_resize (vec_resize (am_total s) (p + 1) []) p 1 0) (\<lambda>total.
        bindE (row_resize (vec_resize (am_allocated s) (p + 1) []) p 1 0) (\<lambda>allocated.
        bindE (row_resize (vec_resize (am_perBand s) (p + 1) []) p 1 (\<lambda>_. band_zero)) (\<lambda>perBand.
        bindE (row_resize (vec_resize (am_free s) (p + 1) []) p 1 []) (\<lambda>free.
        bindE (mat_at free p 0) (\<lambda>f.
        bindE (mat_set free p 0 (vec_resize f (unat (am_bands s)) 0)) (\<lambda>free'.
        bindE (mat_get total (plane_idx MAIN_PLANE) (remote_idx MACRO)) (\<lambda>t.
        bindE (mat_set total p (remote_idx MACRO) t) (\<lambda>total'.
          Inr (s\<lparr>am_total := total', am_allocated := allocated, am_perBand := perBand,
                 am_free := free'\<rparr>)))))))))
      else Inr s)"

text \<open>One turn of the loop of \<open>setRemoteAntenna\<close>, which adds the antenna \<open>i\<close>.\<close>

definition add_antenna :: "nat \<Rightarrow> nat \<Rightarrow> alloc_module \<Rightarrow> alloc_module result" where
  "add_antenna p i s =
     bindE (row_resize (am_total s) p (i + 1) 0) (\<lambda>total.
     bindE (row_resize (am_allocated s) p (i + 1) 0) (\<lambda>allocated.
     bindE (row_resize (am_perBand s) p (i + 1) (\<lambda>_. band_zero)) (\<lambda>perBand.
     bindE (row_resize (am_free s) p (i + 1) []) (\<lambda>free.
     bindE (mat_at free p i) (\<lambda>f.
     bindE (mat_set free p i (vec_resize f (unat (am_bands s)) 0)) (\<lambda>free'.
     bindE (mat_get total p (remote_idx MACRO)) (\<lambda>t.
     bindE (mat_set total p i t) (\<lambda>total'.
       Inr (s\<lparr>am_total := total', am_allocated := allocated, am_perBand := perBand,
              am_free := free'\<rparr>)))))))))"

definition setRemoteAntenna :: "plane \<Rightarrow> remote \<Rightarrow> alloc_module \<Rightarrow> alloc_module result" where
  "setRemoteAntenna plane antenna s =
     bindE (vec_at (am_total s) (plane_idx plane)) (\<lambda>row.
       foldE (add_antenna (plane_idx plane)) [length row..<remote_idx antenna + 1] s)"

definition configureMuMimoPeering ::
  "mac_node_id \<Rightarrow> mac_node_id \<Rightarrow> alloc_module \<Rightarrow> (bool \<times> alloc_module) result" where
  "configureMuMimoPeering nodeId peer s =
     (let s1 = ue_touch nodeId s in
      if au_muMimoEnabled (ue_of nodeId s1) then Inr (False, s1)
      else let s2 = ue_touch peer s1 in
      if au_muMimoEnabled (ue_of peer s2) then Inr (False, s2)
      else
        let s3 = ue_update nodeId (\<lambda>u. u\<lparr>au_muMimoEnabled := True\<rparr>) s2;
            s4 = ue_update peer (\<lambda>u. u\<lparr>au_muMimoEnabled := True\<rparr>) s3;
            s5 = ue_update nodeId (\<lambda>u. u\<lparr>au_peerId := peer\<rparr>) s4;
            s6 = ue_update peer (\<lambda>u. u\<lparr>au_peerId := nodeId\<rparr>) s5;
            s7 = ue_update nodeId (\<lambda>u. u\<lparr>au_secondaryUser := False\<rparr>) s6;
            s8 = ue_update peer (\<lambda>u. u\<lparr>au_secondaryUser := True\<rparr>) s7
        in bindE (ue_at nodeId s8) (\<lambda>main.
           let s9 = ue_update peer (\<lambda>u. u\<lparr>au_antennas := au_antennas main\<rparr>) s8
           in bindE (configureOFDMplane MU_MIMO_PLANE s9) (\<lambda>s10.
              bindE (foldE (setRemoteAntenna MU_MIMO_PLANE) (sorted_list_of_set (au_antennas main)) s10)
                (\<lambda>s11. Inr (True, s11)))))"

definition getOFDMPlane :: "mac_node_id \<Rightarrow> alloc_module \<Rightarrow> plane \<times> alloc_module" where
  "getOFDMPlane nodeId s =
     (if au_secondaryUser (ue_of nodeId s) then MU_MIMO_PLANE else MAIN_PLANE, ue_touch nodeId s)"

definition getMuMimoPeer :: "mac_node_id \<Rightarrow> alloc_module \<Rightarrow> mac_node_id" where
  "getMuMimoPeer nodeId s = (case am_ue s nodeId of
      Some u \<Rightarrow> if au_muMimoEnabled u then au_peerId u else nodeId
    | None \<Rightarrow> nodeId)"

section \<open>Allocation\<close>

definition computeTotalRbs :: "alloc_module \<Rightarrow> u32 result" where
  "computeTotalRbs s =
     bindE (foldE (\<lambda>i acc. bindE (vec_at (am_total s) i) (\<lambda>row.
              foldE (\<lambda>j (rb, ab). bindE (mat_at (am_total s) i j) (\<lambda>t.
                  bindE (mat_at (am_allocated s) i j) (\<lambda>a. Inr (rb + t, ab + a))))
                [0..<length row] acc))
            [0..<length (am_total s)] (0, 0)) (\<lambda>(resourceBlocks, allocatedBlocks).
       bindE (sub_int resourceBlocks allocatedBlocks) (\<lambda>availableBlocks.
         if availableBlocks < 0
         then Inl (RuntimeError ''LteAllocator::checkOFDMspace(): Negative OFDM space'')
         else Inr (of_int availableBlocks)))"

definition availableBlocks :: "mac_node_id \<Rightarrow> remote \<Rightarrow> band \<Rightarrow> alloc_module \<Rightarrow> (u32 \<times> alloc_module) result" where
  "availableBlocks nodeId antenna band s =
     (let (plane, s1) = getOFDMPlane nodeId s; p = plane_idx plane; a = remote_idx antenna
      in bindE (mat_get (am_total s1) p a) (\<lambda>total.
         if am_bands s1 = 0 then Inl (Undefined ''division by zero'')
         else bindE (mat_get (am_perBand s1) p a) (\<lambda>pb.
           let blocksPerBand = total div am_bands s1; allocated = ab_allocated (pb band)
           in Inr (if allocated \<le> blocksPerBand then blocksPerBand - allocated else 0, s1))))"

definition getAllocatedBlocks :: "plane \<Rightarrow> remote \<Rightarrow> band \<Rightarrow> alloc_module \<Rightarrow> u32 result" where
  "getAllocatedBlocks plane antenna band s =
     bindE (mat_get (am_perBand s) (plane_idx plane) (remote_idx antenna)) (\<lambda>pb. Inr (ab_allocated (pb band)))"

definition getInterferringBlocks :: "plane \<Rightarrow> remote \<Rightarrow> band \<Rightarrow> alloc_module \<Rightarrow> u32 result" where
  "getInterferringBlocks plane antenna band s =
     (if am_prev s \<noteq> []
      then bindE (mat_get (am_prev s) (plane_idx plane) (remote_idx antenna)) (\<lambda>pb. Inr (ab_allocated (pb band)))
      else Inr 1000)"

text \<open>The overload over all antennas of a user; its argument \<open>plane\<close> is not used.\<close>

definition availableBlocks_all ::
  "mac_node_id \<Rightarrow> plane \<Rightarrow> band \<Rightarrow> alloc_module \<Rightarrow> (u32 \<times> alloc_module) result" where
  "availableBlocks_all nodeId plane band s =
     bindE (ue_at nodeId s) (\<lambda>u.
       foldE (\<lambda>ant (available, s). bindE (availableBlocks nodeId ant band s) (\<lambda>(n, s'). Inr (available + n, s')))
         (sorted_list_of_set (au_antennas u)) (0, s))"

definition addBlocks ::
  "remote \<Rightarrow> band \<Rightarrow> mac_node_id \<Rightarrow> u32 \<Rightarrow> u32 \<Rightarrow> alloc_module \<Rightarrow> (bool \<times> alloc_module) result" where
  "addBlocks antenna band nodeId blocks bytes s =
     (if am_bands s \<le> ucast band then Inl (RuntimeError ''LteAllocator::addBlocks(): Invalid band'')
      else let (plane, s1) = getOFDMPlane nodeId s; p = plane_idx plane; a = remote_idx antenna in
      bindE (availableBlocks nodeId antenna band s1) (\<lambda>(available, s2).
      bindE (sub_int available blocks) (\<lambda>left.
        if left < 0 then Inr (False, s2)
        else if bytes = 0 then Inr (False, s2)
        else
          bindE (mat_get (am_perBand s2) p a) (\<lambda>pb.
          let bi = pb band;
              bi' = bi\<lparr>ab_ueRbs := (ab_ueRbs bi)(nodeId := ab_ueRbs bi nodeId + blocks),
                       ab_ueBytes := (ab_ueBytes bi)(nodeId := ab_ueBytes bi nodeId + bytes),
                       ab_allocated := ab_allocated bi + blocks\<rparr>
          in bindE (mat_set (am_perBand s2) p a (pb(band := bi'))) (\<lambda>perBand.
          let s3 = s2\<lparr>am_perBand := perBand\<rparr>;
              s4 = ue_update nodeId (\<lambda>u. u\<lparr>
                     au_rbs := (au_rbs u)(antenna := (au_rbs u antenna)(band := au_rbs u antenna band + blocks)),
                     au_allocatedBlocks := au_allocatedBlocks u + blocks,
                     au_allocatedBytes := au_allocatedBytes u + bytes,
                     au_antennaRbs := (au_antennaRbs u)(antenna := au_antennaRbs u antenna + blocks),
                     au_allocationMap := (au_allocationMap u)(antenna :=
                       (au_allocationMap u antenna)(band := au_allocationMap u antenna band @ [(blocks, bytes)]))\<rparr>) s3
          in bindE (mat_get (am_allocated s4) p a) (\<lambda>n.
             bindE (mat_set (am_allocated s4) p a (n + blocks)) (\<lambda>allocated.
               Inr (True, s4\<lparr>am_allocated := allocated\<rparr>))))))))"

text \<open>The overload that tries the antennas of the user in order until one accepts.\<close>

fun addBlocks_first ::
  "remote list \<Rightarrow> band \<Rightarrow> mac_node_id \<Rightarrow> u32 \<Rightarrow> u32 \<Rightarrow> alloc_module \<Rightarrow> (bool \<times> alloc_module) result" where
  "addBlocks_first [] band nodeId blocks bytes s = Inr (False, s)"
| "addBlocks_first (ant # ants) band nodeId blocks bytes s =
     bindE (addBlocks ant band nodeId blocks bytes s) (\<lambda>(ret, s').
       if ret then Inr (True, s') else addBlocks_first ants band nodeId blocks bytes s')"

definition addBlocks_any ::
  "band \<Rightarrow> mac_node_id \<Rightarrow> u32 \<Rightarrow> u32 \<Rightarrow> alloc_module \<Rightarrow> (bool \<times> alloc_module) result" where
  "addBlocks_any band nodeId blocks bytes s =
     bindE (ue_at nodeId s) (\<lambda>u.
       addBlocks_first (sorted_list_of_set (au_antennas u)) band nodeId blocks bytes s)"

definition removeBlocks :: "remote \<Rightarrow> band \<Rightarrow> mac_node_id \<Rightarrow> alloc_module \<Rightarrow> (u32 \<times> alloc_module) result" where
  "removeBlocks antenna band nodeId s =
     (if am_bands s \<le> ucast band then Inr (0, s)
      else let (plane, s1) = getOFDMPlane nodeId s; p = plane_idx plane; a = remote_idx antenna in
      bindE (mat_get (am_perBand s1) p a) (\<lambda>pb.
      let bi = pb band; toDrain = ab_ueRbs bi nodeId
      in if toDrain = 0 then Inr (toDrain, s1)
         else
           let bi' = bi\<lparr>ab_allocated := ab_allocated bi - toDrain, ab_ueRbs := (ab_ueRbs bi)(nodeId := 0)\<rparr>
           in bindE (mat_set (am_perBand s1) p a (pb(band := bi'))) (\<lambda>perBand.
           let s2 = ue_update nodeId (\<lambda>u. u\<lparr>
                 au_allocatedBlocks := au_allocatedBlocks u - toDrain,
                 au_rbs := (au_rbs u)(antenna := (au_rbs u antenna)(band := 0)),
                 au_allocatedBytes := 0,
                 au_allocationMap := (au_allocationMap u)(antenna := (au_allocationMap u antenna)(band := []))\<rparr>)
                 (s1\<lparr>am_perBand := perBand\<rparr>)
           in bindE (mat_get (am_allocated s2) p a) (\<lambda>n.
              bindE (mat_set (am_allocated s2) p a (n - toDrain)) (\<lambda>allocated.
                Inr (toDrain, s2\<lparr>am_allocated := allocated\<rparr>))))))"

definition getBlocks :: "remote \<Rightarrow> band \<Rightarrow> mac_node_id \<Rightarrow> alloc_module \<Rightarrow> (u32 \<times> alloc_module) result" where
  "getBlocks antenna band nodeId s =
     (let (plane, s1) = getOFDMPlane nodeId s in
      bindE (mat_get (am_perBand s1) (plane_idx plane) (remote_idx antenna)) (\<lambda>pb.
        Inr (ab_ueRbs (pb band) nodeId, s1)))"

definition getBytes :: "remote \<Rightarrow> band \<Rightarrow> mac_node_id \<Rightarrow> alloc_module \<Rightarrow> (u32 \<times> alloc_module) result" where
  "getBytes antenna band nodeId s =
     (let (plane, s1) = getOFDMPlane nodeId s in
      bindE (mat_get (am_perBand s1) (plane_idx plane) (remote_idx antenna)) (\<lambda>pb.
        Inr (ab_ueBytes (pb band) nodeId, s1)))"

definition getUeBlocks :: "mac_node_id \<Rightarrow> alloc_module \<Rightarrow> u32 \<times> alloc_module" where
  "getUeBlocks nodeId s = (au_allocatedBlocks (ue_of nodeId s), ue_touch nodeId s)"

definition getPlaneBlocks :: "plane \<Rightarrow> remote \<Rightarrow> alloc_module \<Rightarrow> u32 result" where
  "getPlaneBlocks plane antenna s = mat_get (am_allocated s) (plane_idx plane) (remote_idx antenna)"

text \<open>The map of blocks that \<open>rbOccupation\<close> fills; the loop runs over the 16-bit band numbers.\<close>

definition rbOccupation ::
  "mac_node_id \<Rightarrow> (remote \<Rightarrow> band \<Rightarrow> u32) \<Rightarrow> alloc_module
   \<Rightarrow> (u32 \<times> (remote \<Rightarrow> band \<Rightarrow> u32) \<times> alloc_module) result" where
  "rbOccupation nodeId rbMap s =
     bindE (ue_at nodeId s) (\<lambda>u.
       if 2 ^ 16 \<le> unat (am_bands s) then Inl (Undefined ''endless loop'')
       else foldE (\<lambda>ant. foldE (\<lambda>b (blocks, m, s).
              bindE (getBlocks ant (of_nat b) nodeId s) (\<lambda>(n, s').
                Inr (blocks + n, m(ant := (m ant)(of_nat b := n)), s')))
              [0..<unat (am_bands s)])
            (sorted_list_of_set (au_antennas u)) (0, rbMap, s))"

section \<open>The accounting invariant\<close>

text \<open>
  The blocks counted for an antenna are the blocks counted for its bands, those of a band are the
  blocks of its users, and no band exceeds its share.
\<close>

definition cell_ok :: "u32 \<Rightarrow> u32 \<Rightarrow> u32 \<Rightarrow> per_band \<Rightarrow> bool" where
  "cell_ok R B n pb \<longleftrightarrow>
     unat n = (\<Sum>b\<in>UNIV. unat (ab_allocated (pb b))) \<and>
     (\<forall>b. unat (ab_allocated (pb b)) = (\<Sum>k\<in>UNIV. unat (ab_ueRbs (pb b) k))) \<and>
     (\<forall>b. unat (ab_allocated (pb b)) \<le> (if unat b < unat B then unat R div unat B else 0))"

definition row_ok :: "u32 \<Rightarrow> u32 \<Rightarrow> u32 list \<Rightarrow> u32 list \<Rightarrow> u32 list list \<Rightarrow> per_band list \<Rightarrow> bool" where
  "row_ok R B tot alc fre pbs \<longleftrightarrow>
     0 < length tot \<and> length tot \<le> 8 \<and> length alc = length tot \<and> length fre = length tot \<and>
     length pbs = length tot \<and> (\<forall>a < length tot. tot ! a = R \<and> cell_ok R B (alc ! a) (pbs ! a))"

definition ue_plane :: "ue_info \<Rightarrow> nat" where
  "ue_plane u = (if au_secondaryUser u then 1 else 0)"

definition ue_ok :: "u32 list list \<Rightarrow> ue_info \<Rightarrow> bool" where
  "ue_ok tot u \<longleftrightarrow>
     (au_secondaryUser u \<longrightarrow> au_muMimoEnabled u) \<and> ue_plane u < length tot \<and>
     (\<forall>a\<in>au_antennas u. remote_idx a < length (tot ! ue_plane u))"

definition alloc_inv :: "u32 \<Rightarrow> alloc_module \<Rightarrow> bool" where
  "alloc_inv R s \<longleftrightarrow>
     0 < unat (am_bands s) \<and> 0 < length (am_total s) \<and> length (am_total s) \<le> 2 \<and>
     length (am_allocated s) = length (am_total s) \<and> length (am_free s) = length (am_total s) \<and>
     length (am_perBand s) = length (am_total s) \<and>
     (\<forall>p < length (am_total s). row_ok R (am_bands s) (am_total s ! p) (am_allocated s ! p)
        (am_free s ! p) (am_perBand s ! p)) \<and>
     (\<forall>n u. am_ue s n = Some u \<longrightarrow> ue_ok (am_total s) u)"

lemma mat_get_eq_Inr [simp]:
  "mat_get m i j = Inr x \<longleftrightarrow> i < length m \<and> j < length (m ! i) \<and> x = m ! i ! j"
  by (auto simp: mat_get_def)

lemma mat_at_eq_Inr [simp]:
  "mat_at m i j = Inr x \<longleftrightarrow> i < length m \<and> j < length (m ! i) \<and> x = m ! i ! j"
  by (auto simp: mat_at_def)

lemma mat_set_eq_Inr [simp]:
  "mat_set m i j x = Inr m' \<longleftrightarrow> i < length m \<and> j < length (m ! i) \<and> m' = m[i := (m ! i)[j := x]]"
  by (auto simp: mat_set_def)

lemma row_resize_eq_Inr [simp]:
  "row_resize m i n d = Inr m' \<longleftrightarrow> i < length m \<and> m' = m[i := vec_resize (m ! i) n d]"
  by (auto simp: row_resize_def)

lemma mat_ok:
  "i < length m \<Longrightarrow> j < length (m ! i) \<Longrightarrow> mat_get m i j = Inr (m ! i ! j)"
  "i < length m \<Longrightarrow> j < length (m ! i) \<Longrightarrow> mat_at m i j = Inr (m ! i ! j)"
  "i < length m \<Longrightarrow> j < length (m ! i) \<Longrightarrow> mat_set m i j x = Inr (m[i := (m ! i)[j := x]])"
  "i < length m \<Longrightarrow> row_resize m i n d = Inr (m[i := vec_resize (m ! i) n d])"
  by simp_all

lemma cell_ok_zero: "cell_ok R B 0 (\<lambda>_. band_zero)"
  by (simp add: cell_ok_def band_zero_def)

lemma cell_ok_total: "cell_ok R B n pb \<Longrightarrow> 0 < unat B \<Longrightarrow> unat n \<le> unat R"
proof -
  assume c: "cell_ok R B n pb" and B: "0 < unat B"
  let ?A = "{b :: band. unat b < unat B}"
  have "unat n = (\<Sum>b\<in>UNIV. unat (ab_allocated (pb b)))" using c by (simp add: cell_ok_def)
  also have "\<dots> \<le> (\<Sum>b\<in>UNIV. if unat (b :: band) < unat B then unat R div unat B else 0)"
    using c unfolding cell_ok_def by (intro sum_mono) blast
  also have "\<dots> = card ?A * (unat R div unat B)"
    by (simp flip: sum.inter_filter)
  also have "\<dots> \<le> unat B * (unat R div unat B)"
  proof (rule mult_le_mono1)
    have "card (unat ` ?A) \<le> card {..<unat B}" by (rule card_mono) auto
    moreover have "card (unat ` ?A) = card ?A" by (rule card_image) (auto intro!: inj_onI simp: word_unat_eq_iff)
    ultimately show "card ?A \<le> unat B" by simp
  qed
  also have "\<dots> \<le> unat R" by simp
  finally show ?thesis .
qed

lemma cell_okD:
  assumes c: "cell_ok R B n pb"
  shows "unat (ab_allocated (pb b)) = (\<Sum>k\<in>UNIV. unat (ab_ueRbs (pb b) k))"
    and cell_ok_le: "unat (ab_allocated (pb b)) \<le> (if unat b < unat B then unat R div unat B else 0)"
    and "unat b < unat B \<Longrightarrow> unat (ab_allocated (pb b)) \<le> unat R div unat B"
proof -
  show "unat (ab_allocated (pb b)) = (\<Sum>k\<in>UNIV. unat (ab_ueRbs (pb b) k))"
    using c unfolding cell_ok_def by blast
  have le: "unat (ab_allocated (pb b)) \<le> (if unat b < unat B then unat R div unat B else 0)"
    using c unfolding cell_ok_def by blast
  then show "unat (ab_allocated (pb b)) \<le> (if unat b < unat B then unat R div unat B else 0)" .
  show "unat b < unat B \<Longrightarrow> unat (ab_allocated (pb b)) \<le> unat R div unat B"
    using le by (simp only: if_True)
qed

lemma cell_ok_update:
  assumes c: "cell_ok R B n pb" and B: "0 < unat B"
    and al: "unat (ab_allocated bi) = (\<Sum>k\<in>UNIV. unat (ab_ueRbs bi k))"
    and le: "unat (ab_allocated bi) \<le> (if unat b < unat B then unat R div unat B else 0)"
    and n': "unat n' + unat (ab_allocated (pb b)) = unat n + unat (ab_allocated bi)"
  shows "cell_ok R B n' (pb(b := bi))"
proof -
  have "(\<Sum>c\<in>UNIV. unat (ab_allocated ((pb(b := bi)) c))) + unat (ab_allocated (pb b)) =
        (\<Sum>c\<in>UNIV. unat (ab_allocated (pb c))) + unat (ab_allocated bi)"
    by (rule sum_fun_upd[where f = "\<lambda>x. unat (ab_allocated x)"])
  then have "unat n' = (\<Sum>c\<in>UNIV. unat (ab_allocated ((pb(b := bi)) c)))"
    using n' c by (simp add: cell_ok_def)
  moreover have "unat (ab_allocated ((pb(b := bi)) c)) = (\<Sum>k\<in>UNIV. unat (ab_ueRbs ((pb(b := bi)) c) k)) \<and>
      unat (ab_allocated ((pb(b := bi)) c)) \<le> (if unat c < unat B then unat R div unat B else 0)" for c
  proof (cases "c = b")
    case True
    show ?thesis unfolding True fun_upd_same using al le by (rule conjI)
  next
    case False
    then show ?thesis using cell_okD(1,2)[OF c, of c] by (simp only: fun_upd_other simp_thms)
  qed
  ultimately show ?thesis unfolding cell_ok_def by blast
qed

section \<open>Every operation keeps the invariant\<close>

lemma alloc_inv_ue_update:
  "alloc_inv R s \<Longrightarrow> ue_ok (am_total s) (f (ue_of n s)) \<Longrightarrow> alloc_inv R (ue_update n f s)"
  by (simp add: alloc_inv_def ue_update_def)

lemma ue_ok_of: "alloc_inv R s \<Longrightarrow> ue_ok (am_total s) (ue_of n s)"
  by (cases "am_ue s n")
     (auto simp: alloc_inv_def ue_of_def ue_ok_def ue_zero_def ue_plane_def row_ok_def)

lemma ue_touch_update: "ue_touch n s = ue_update n (\<lambda>u. u) s"
  by (simp add: ue_touch_def ue_update_def)

lemma alloc_inv_touch: "alloc_inv R s \<Longrightarrow> alloc_inv R (ue_touch n s)"
  by (simp add: ue_touch_update alloc_inv_ue_update ue_ok_of)

lemma ue_of_touch [simp]: "ue_of m (ue_touch n s) = ue_of m s"
  by (simp add: ue_of_def ue_touch_def split: option.splits)

lemma ue_touch_same [simp]: "ue_touch n (ue_touch n s) = ue_touch n s"
  by (simp add: ue_touch_def ue_of_def)

lemma ue_touch_fields [simp]:
  "am_total (ue_touch n s) = am_total s" "am_bands (ue_touch n s) = am_bands s"
  "am_allocated (ue_touch n s) = am_allocated s" "am_perBand (ue_touch n s) = am_perBand s"
  "am_free (ue_touch n s) = am_free s" "am_prev (ue_touch n s) = am_prev s"
  by (simp_all add: ue_touch_def)

lemma ue_update_fields [simp]:
  "am_total (ue_update n f s) = am_total s" "am_bands (ue_update n f s) = am_bands s"
  "am_allocated (ue_update n f s) = am_allocated s" "am_perBand (ue_update n f s) = am_perBand s"
  "am_free (ue_update n f s) = am_free s" "am_prev (ue_update n f s) = am_prev s"
  by (simp_all add: ue_update_def)

lemma ue_of_update [simp]: "ue_of m (ue_update n f s) = (if m = n then f (ue_of n s) else ue_of m s)"
  by (simp add: ue_of_def ue_update_def)

lemma ue_of_other_fields [simp]:
  "ue_of m (s\<lparr>am_perBand := x\<rparr>) = ue_of m s" "ue_of m (s\<lparr>am_allocated := y\<rparr>) = ue_of m s"
  by (simp_all add: ue_of_def)

lemma getOFDMPlane_eq:
  "getOFDMPlane n s = (if au_secondaryUser (ue_of n s) then MU_MIMO_PLANE else MAIN_PLANE, ue_touch n s)"
  by (simp add: getOFDMPlane_def)

lemma plane_idx_ue: "plane_idx (fst (getOFDMPlane n s)) = ue_plane (ue_of n s)"
  by (simp add: getOFDMPlane_def ue_plane_def)

text \<open>The antenna is configured on the plane of the user.\<close>

definition antenna_of :: "mac_node_id \<Rightarrow> remote \<Rightarrow> alloc_module \<Rightarrow> bool" where
  "antenna_of n a s \<longleftrightarrow> remote_idx a < length (am_total s ! ue_plane (ue_of n s))"

lemma inv_cell:
  assumes "alloc_inv R s" "antenna_of n a s"
  defines "p \<equiv> ue_plane (ue_of n s)"
  shows "p < length (am_total s)" "p < length (am_perBand s)" "p < length (am_allocated s)"
    "remote_idx a < length (am_total s ! p)" "remote_idx a < length (am_perBand s ! p)"
    "remote_idx a < length (am_allocated s ! p)" "am_total s ! p ! remote_idx a = R"
    "cell_ok R (am_bands s) (am_allocated s ! p ! remote_idx a) (am_perBand s ! p ! remote_idx a)"
    "0 < unat (am_bands s)" "am_bands s \<noteq> 0"
proof -
  have p: "p < length (am_total s)" using ue_ok_of[OF assms(1), of n] by (simp add: ue_ok_def p_def)
  have r: "row_ok R (am_bands s) (am_total s ! p) (am_allocated s ! p) (am_free s ! p) (am_perBand s ! p)"
    using assms(1) p by (simp add: alloc_inv_def)
  have a: "remote_idx a < length (am_total s ! p)" using assms(2) by (simp add: antenna_of_def p_def)
  show "p < length (am_total s)" by (rule p)
  show "p < length (am_perBand s)" "p < length (am_allocated s)" "0 < unat (am_bands s)"
    using assms(1) p by (simp_all add: alloc_inv_def)
  then show "am_bands s \<noteq> 0" by auto
  show "remote_idx a < length (am_total s ! p)" by (rule a)
  show "remote_idx a < length (am_perBand s ! p)" "remote_idx a < length (am_allocated s ! p)"
    "am_total s ! p ! remote_idx a = R"
    "cell_ok R (am_bands s) (am_allocated s ! p ! remote_idx a) (am_perBand s ! p ! remote_idx a)"
    using r a by (simp_all add: row_ok_def)
qed

lemma alloc_inv_cell_update:
  assumes i: "alloc_inv R s" and p: "p < length (am_total s)" and a: "a < length (am_total s ! p)"
    and c: "cell_ok R (am_bands s) n pb"
  shows "alloc_inv R (s\<lparr>am_perBand := (am_perBand s)[p := (am_perBand s ! p)[a := pb]],
                       am_allocated := (am_allocated s)[p := (am_allocated s ! p)[a := n]]\<rparr>)"
proof -
  let ?pb = "(am_perBand s)[p := (am_perBand s ! p)[a := pb]]"
  let ?al = "(am_allocated s)[p := (am_allocated s ! p)[a := n]]"
  have len: "p < length (am_perBand s)" "p < length (am_allocated s)"
    using i p by (simp_all add: alloc_inv_def)
  have r: "row_ok R (am_bands s) (am_total s ! q) (?al ! q) (am_free s ! q) (?pb ! q)"
    if q: "q < length (am_total s)" for q
  proof -
    have o: "row_ok R (am_bands s) (am_total s ! q) (am_allocated s ! q) (am_free s ! q) (am_perBand s ! q)"
      using i q by (simp add: alloc_inv_def)
    show ?thesis
    proof (cases "q = p")
      case True
      have "cell_ok R (am_bands s) ((am_allocated s ! p)[a := n] ! k) ((am_perBand s ! p)[a := pb] ! k)"
        if "k < length (am_total s ! p)" for k
        using o c that True by (cases "k = a") (simp_all add: row_ok_def)
      then show ?thesis using o len True by (simp add: row_ok_def)
    next
      case False
      then show ?thesis using o by simp
    qed
  qed
  then show ?thesis using i by (simp add: alloc_inv_def)
qed

text \<open>The share of a band that is still free for a user on an antenna.\<close>

definition band_of :: "mac_node_id \<Rightarrow> remote \<Rightarrow> band \<Rightarrow> alloc_module \<Rightarrow> band_info" where
  "band_of n a b s = (am_perBand s ! ue_plane (ue_of n s) ! remote_idx a) b"

lemma availableBlocks_eq:
  assumes i: "alloc_inv R s" and a: "antenna_of n a s" and b: "ucast b < am_bands s"
  shows "availableBlocks n a b s =
           Inr (R div am_bands s - ab_allocated (band_of n a b s), ue_touch n s)"
    "ab_allocated (band_of n a b s) \<le> R div am_bands s"
proof -
  note c = inv_cell[OF i a]
  have "unat (ab_allocated (band_of n a b s)) \<le> unat R div unat (am_bands s)"
  proof -
    have "unat b < unat (am_bands s)" using b by (simp add: word_less_nat_alt)
    then show ?thesis unfolding band_of_def by (rule cell_okD(3)[OF c(8)])
  qed
  then show le: "ab_allocated (band_of n a b s) \<le> R div am_bands s"
    by (simp add: word_le_nat_alt unat_div)
  have p: "plane_idx (if au_secondaryUser (ue_of n s) then MU_MIMO_PLANE else MAIN_PLANE) = ue_plane (ue_of n s)"
    by (simp add: ue_plane_def)
  show "availableBlocks n a b s =
           Inr (R div am_bands s - ab_allocated (band_of n a b s), ue_touch n s)"
    using c(10) le by (simp add: availableBlocks_def getOFDMPlane_eq p mat_ok c(1-7) band_of_def)
qed

text \<open>The bookkeeping of a granted request, and of a removal.\<close>

definition put_cell :: "nat \<Rightarrow> nat \<Rightarrow> u32 \<Rightarrow> per_band \<Rightarrow> alloc_module \<Rightarrow> alloc_module" where
  "put_cell p a n pb s = s\<lparr>am_perBand := (am_perBand s)[p := (am_perBand s ! p)[a := pb]],
                          am_allocated := (am_allocated s)[p := (am_allocated s ! p)[a := n]]\<rparr>"

definition granted_band :: "mac_node_id \<Rightarrow> u32 \<Rightarrow> u32 \<Rightarrow> band_info \<Rightarrow> band_info" where
  "granted_band n blocks bytes bi =
     bi\<lparr>ab_ueRbs := (ab_ueRbs bi)(n := ab_ueRbs bi n + blocks),
        ab_ueBytes := (ab_ueBytes bi)(n := ab_ueBytes bi n + bytes),
        ab_allocated := ab_allocated bi + blocks\<rparr>"

definition granted_ue :: "remote \<Rightarrow> band \<Rightarrow> u32 \<Rightarrow> u32 \<Rightarrow> ue_info \<Rightarrow> ue_info" where
  "granted_ue a b blocks bytes u = u\<lparr>
     au_rbs := (au_rbs u)(a := (au_rbs u a)(b := au_rbs u a b + blocks)),
     au_allocatedBlocks := au_allocatedBlocks u + blocks,
     au_allocatedBytes := au_allocatedBytes u + bytes,
     au_antennaRbs := (au_antennaRbs u)(a := au_antennaRbs u a + blocks),
     au_allocationMap := (au_allocationMap u)(a :=
       (au_allocationMap u a)(b := au_allocationMap u a b @ [(blocks, bytes)]))\<rparr>"

definition granted :: "remote \<Rightarrow> band \<Rightarrow> mac_node_id \<Rightarrow> u32 \<Rightarrow> u32 \<Rightarrow> alloc_module \<Rightarrow> alloc_module" where
  "granted a b n blocks bytes s =
     (let p = ue_plane (ue_of n s); i = remote_idx a; pb = am_perBand s ! p ! i
      in ue_update n (granted_ue a b blocks bytes)
           (put_cell p i (am_allocated s ! p ! i + blocks) (pb(b := granted_band n blocks bytes (pb b))) s))"

definition drained_band :: "mac_node_id \<Rightarrow> band_info \<Rightarrow> band_info" where
  "drained_band n bi =
     bi\<lparr>ab_allocated := ab_allocated bi - ab_ueRbs bi n, ab_ueRbs := (ab_ueRbs bi)(n := 0)\<rparr>"

definition drained_ue :: "remote \<Rightarrow> band \<Rightarrow> u32 \<Rightarrow> ue_info \<Rightarrow> ue_info" where
  "drained_ue a b blocks u = u\<lparr>
     au_allocatedBlocks := au_allocatedBlocks u - blocks,
     au_rbs := (au_rbs u)(a := (au_rbs u a)(b := 0)),
     au_allocatedBytes := 0,
     au_allocationMap := (au_allocationMap u)(a := (au_allocationMap u a)(b := []))\<rparr>"

definition drained :: "remote \<Rightarrow> band \<Rightarrow> mac_node_id \<Rightarrow> alloc_module \<Rightarrow> alloc_module" where
  "drained a b n s =
     (let p = ue_plane (ue_of n s); i = remote_idx a; pb = am_perBand s ! p ! i; d = ab_ueRbs (pb b) n
      in ue_update n (drained_ue a b d)
           (put_cell p i (am_allocated s ! p ! i - d) (pb(b := drained_band n (pb b))) s))"

lemma put_cell_fields [simp]:
  "am_total (put_cell p a n pb s) = am_total s" "am_bands (put_cell p a n pb s) = am_bands s"
  "am_free (put_cell p a n pb s) = am_free s" "am_prev (put_cell p a n pb s) = am_prev s"
  "am_ue (put_cell p a n pb s) = am_ue s"
  by (simp_all add: put_cell_def)

lemma ue_of_put_cell [simp]: "ue_of m (put_cell p a n pb s) = ue_of m s"
  by (simp add: ue_of_def)

lemma sint_small:
  assumes "unat (x :: u32) < 2 ^ 31"
  shows "sint x = int (unat x)"
proof -
  have "int (unat x) < int (2 ^ 31)" using assms by (simp only: of_nat_less_iff)
  then have "uint x < 2 ^ 31" by simp
  moreover have "- (2 ^ 31) \<le> uint x" by (rule order_trans[OF _ uint_ge_0]) simp
  ultimately have "signed_take_bit 31 (uint x) = uint x" by (rule signed_take_bit_int_eq_self[rotated])
  then show ?thesis by (simp add: sint_uint)
qed

lemma sub_int_small:
  assumes "unat x < 2 ^ 31" "unat y < 2 ^ 31"
  shows "sub_int x y = Inr (int (unat x) - int (unat y))"
proof -
  have "int (unat x) < int (2 ^ 31)" "int (unat y) < int (2 ^ 31)"
    using assms by (simp_all only: of_nat_less_iff)
  then have "int (unat x) < 2 ^ 31" "int (unat y) < 2 ^ 31" by simp_all
  moreover have "0 \<le> int (unat x)" "0 \<le> int (unat y)" by (rule of_nat_0_le_iff)+
  ultimately have "- (2 ^ 31) \<le> int (unat x) - int (unat y)" "int (unat x) - int (unat y) < 2 ^ 31"
    by linarith+
  then show ?thesis unfolding sub_int_def sint_small[OF assms(1)] sint_small[OF assms(2)] Let_def
    by (simp only: simp_thms if_True)
qed

lemma ue_update_touched:
  "(ue_update n f (ue_touch n s\<lparr>am_perBand := x\<rparr>))\<lparr>am_allocated := y\<rparr> =
   ue_update n f (s\<lparr>am_perBand := x, am_allocated := y\<rparr>)"
  by (simp add: ue_update_def ue_touch_def ue_of_def)

lemma addBlocks_eq:
  assumes i: "alloc_inv R s" and a: "antenna_of n a s" and b: "ucast b < am_bands s"
    and R: "unat R < 2 ^ 31" and k: "unat blocks < 2 ^ 31"
  shows "addBlocks a b n blocks bytes s =
           (if R div am_bands s - ab_allocated (band_of n a b s) < blocks \<or> bytes = 0
            then Inr (False, ue_touch n s) else Inr (True, granted a b n blocks bytes s))"
proof -
  let ?av = "R div am_bands s - ab_allocated (band_of n a b s)"
  note c = inv_cell[OF i a] and av = availableBlocks_eq[OF i a b]
  have "?av \<le> R div am_bands s" using av(2) by (rule word_sub_le)
  also have "\<dots> \<le> R" by (simp add: word_le_nat_alt unat_div)
  finally have "unat ?av < 2 ^ 31" using R by (simp add: word_le_nat_alt)
  then have sub: "sub_int ?av blocks = Inr (int (unat ?av) - int (unat blocks))"
    by (rule sub_int_small[OF _ k])
  have lt: "int (unat ?av) - int (unat blocks) < 0 \<longleftrightarrow> ?av < blocks"
    by (simp add: word_less_nat_alt del: of_nat_unat)
  have p: "plane_idx (if au_secondaryUser (ue_of n s) then MU_MIMO_PLANE else MAIN_PLANE) = ue_plane (ue_of n s)"
    by (simp add: ue_plane_def)
  have nb: "\<not> am_bands s \<le> ucast b" using b by simp
  have t: "antenna_of n a (ue_touch n s)" "ucast b < am_bands (ue_touch n s)"
    using a b by (simp_all add: antenna_of_def)
  have avt: "availableBlocks n a b (ue_touch n s) = Inr (?av, ue_touch n s)"
    using availableBlocks_eq(1)[OF alloc_inv_touch[OF i] t] by (simp add: band_of_def)
  have step: "addBlocks a b n blocks bytes s =
      (if ?av < blocks then Inr (False, ue_touch n s)
       else if bytes = 0 then Inr (False, ue_touch n s) else Inr (True, granted a b n blocks bytes s))"
    unfolding addBlocks_def getOFDMPlane_eq if_not_P[OF nb] Let_def prod.case p avt bindE_simps sub lt
    by (simp add: mat_ok c(1-6) granted_def put_cell_def Let_def ue_update_touched
        granted_ue_def[abs_def] granted_band_def)
  then show ?thesis by auto
qed

lemma removeBlocks_eq:
  assumes i: "alloc_inv R s" and a: "antenna_of n a s" and b: "ucast b < am_bands s"
  shows "removeBlocks a b n s =
           (if ab_ueRbs (band_of n a b s) n = 0 then Inr (0, ue_touch n s)
            else Inr (ab_ueRbs (band_of n a b s) n, drained a b n s))"
proof -
  note c = inv_cell[OF i a]
  have p: "plane_idx (if au_secondaryUser (ue_of n s) then MU_MIMO_PLANE else MAIN_PLANE) = ue_plane (ue_of n s)"
    by (simp add: ue_plane_def)
  have nb: "\<not> am_bands s \<le> ucast b" using b by simp
  show ?thesis
    unfolding removeBlocks_def getOFDMPlane_eq if_not_P[OF nb] Let_def prod.case p
    by (simp add: mat_ok c(1-6) drained_def put_cell_def Let_def ue_update_touched band_of_def
        drained_ue_def[abs_def] drained_band_def)
qed

lemma ueRbs_le_allocated:
  assumes i: "alloc_inv R s" and a: "antenna_of n a s"
  shows "unat (ab_ueRbs (band_of n a b s) k) \<le> unat (ab_allocated (band_of n a b s))"
proof -
  have "unat (ab_ueRbs (band_of n a b s) k) \<le> (\<Sum>j\<in>UNIV. unat (ab_ueRbs (band_of n a b s) j))"
    by (rule member_le_sum) auto
  then show ?thesis using cell_okD(1)[OF inv_cell(8)[OF i a], of b] by (simp add: band_of_def)
qed

lemma alloc_inv_put_cell:
  assumes "alloc_inv R s" "antenna_of n a s" "cell_ok R (am_bands s) c pb"
  shows "alloc_inv R (put_cell (ue_plane (ue_of n s)) (remote_idx a) c pb s)"
  unfolding put_cell_def
  by (rule alloc_inv_cell_update[OF assms(1) inv_cell(1,4)[OF assms(1,2)] assms(3)])

lemma unat_add_small: "unat (x :: u32) + unat y < 4294967296 \<Longrightarrow> unat (x + y) = unat x + unat y"
  by (simp add: unat_word_ariths)

lemma unat_sub_small: "unat (y :: u32) \<le> unat x \<Longrightarrow> unat (x - y) = unat x - unat y"
  by (simp add: unat_sub word_le_nat_alt)

lemma ue_ok_cong:
  "ue_ok tot u \<Longrightarrow> au_secondaryUser v = au_secondaryUser u \<Longrightarrow> au_muMimoEnabled v = au_muMimoEnabled u \<Longrightarrow>
   au_antennas v = au_antennas u \<Longrightarrow> ue_ok tot v"
  by (simp add: ue_ok_def ue_plane_def)

lemma band_sum_upd:
  "(\<Sum>k\<in>UNIV. unat ((f(n := v)) k)) + unat (f n) = (\<Sum>k\<in>UNIV. unat (f k)) + unat (v :: u32)"
  for f :: "mac_node_id \<Rightarrow> u32"
  by (rule sum_fun_upd)

lemma alloc_inv_granted:
  assumes i: "alloc_inv R s" and a: "antenna_of n a s" and b: "ucast b < am_bands s"
    and R: "unat R < 2 ^ 31"
    and fits: "blocks \<le> R div am_bands s - ab_allocated (band_of n a b s)"
  shows "alloc_inv R (granted a b n blocks bytes s)"
proof -
  let ?bi = "band_of n a b s"
  note c = inv_cell[OF i a]
  have le: "unat (ab_allocated ?bi) + unat blocks \<le> unat R div unat (am_bands s)"
    using fits availableBlocks_eq(2)[OF i a b] by (simp add: word_le_nat_alt unat_sub unat_div)
  have RB: "unat R div unat (am_bands s) \<le> unat R" "unat R < 2147483648" using R by simp_all
  have s1: "unat (ab_allocated ?bi + blocks) = unat (ab_allocated ?bi) + unat blocks"
    by (rule unat_add_small) (use le RB in linarith)
  have s2: "unat (ab_ueRbs ?bi n + blocks) = unat (ab_ueRbs ?bi n) + unat blocks"
    by (rule unat_add_small) (use le RB ueRbs_le_allocated[OF i a, of b n] in linarith)
  have s3: "unat (am_allocated s ! ue_plane (ue_of n s) ! remote_idx a + blocks) =
      unat (am_allocated s ! ue_plane (ue_of n s) ! remote_idx a) + unat blocks"
    by (rule unat_add_small) (use cell_ok_total[OF c(8,9)] le RB in linarith)
  have al: "unat (ab_allocated (granted_band n blocks bytes ?bi)) =
      (\<Sum>k\<in>UNIV. unat (ab_ueRbs (granted_band n blocks bytes ?bi) k))"
    using band_sum_upd[of "ab_ueRbs ?bi" n "ab_ueRbs ?bi n + blocks"] s1 s2 cell_okD(1)[OF c(8), of b]
    by (simp add: granted_band_def band_of_def)
  have bl: "unat b < unat (am_bands s)" using b by (simp add: word_less_nat_alt)
  have "cell_ok R (am_bands s) (am_allocated s ! ue_plane (ue_of n s) ! remote_idx a + blocks)
     ((am_perBand s ! ue_plane (ue_of n s) ! remote_idx a)(b := granted_band n blocks bytes ?bi))"
  proof (rule cell_ok_update[OF c(8,9) al])
    show "unat (ab_allocated (granted_band n blocks bytes ?bi))
        \<le> (if unat b < unat (am_bands s) then unat R div unat (am_bands s) else 0)"
      using le bl s1 by (simp add: granted_band_def)
    show "unat (am_allocated s ! ue_plane (ue_of n s) ! remote_idx a + blocks) +
        unat (ab_allocated ((am_perBand s ! ue_plane (ue_of n s) ! remote_idx a) b)) =
        unat (am_allocated s ! ue_plane (ue_of n s) ! remote_idx a) +
        unat (ab_allocated (granted_band n blocks bytes ?bi))"
      using s1 s3 by (simp add: granted_band_def band_of_def)
  qed
  from alloc_inv_put_cell[OF i a this] show ?thesis
    unfolding granted_def Let_def band_of_def
    by (rule alloc_inv_ue_update) (simp, rule ue_ok_cong[OF ue_ok_of[OF i, of n]], simp_all add: granted_ue_def)
qed

lemma alloc_inv_drained:
  assumes i: "alloc_inv R s" and a: "antenna_of n a s" and b: "ucast b < am_bands s"
  shows "alloc_inv R (drained a b n s)"
proof -
  let ?bi = "band_of n a b s" and ?p = "ue_plane (ue_of n s)"
  note c = inv_cell[OF i a]
  have bi: "?bi = (am_perBand s ! ?p ! remote_idx a) b" by (simp add: band_of_def)
  have le: "unat (ab_ueRbs ?bi n) \<le> unat (ab_allocated ?bi)" by (rule ueRbs_le_allocated[OF i a])
  have le': "unat (ab_allocated ?bi) \<le> unat (am_allocated s ! ?p ! remote_idx a)"
  proof -
    have "unat (ab_allocated ?bi) \<le> (\<Sum>d\<in>UNIV. unat (ab_allocated ((am_perBand s ! ?p ! remote_idx a) d)))"
      unfolding bi by (rule member_le_sum) auto
    then show ?thesis using c(8) unfolding cell_ok_def by (metis (no_types))
  qed
  have s1: "unat (ab_allocated ?bi - ab_ueRbs ?bi n) = unat (ab_allocated ?bi) - unat (ab_ueRbs ?bi n)"
    by (rule unat_sub_small[OF le])
  have s3: "unat (am_allocated s ! ?p ! remote_idx a - ab_ueRbs ?bi n) =
      unat (am_allocated s ! ?p ! remote_idx a) - unat (ab_ueRbs ?bi n)"
    by (rule unat_sub_small) (use le le' in linarith)
  have al: "unat (ab_allocated (drained_band n ?bi)) = (\<Sum>k\<in>UNIV. unat (ab_ueRbs (drained_band n ?bi) k))"
    using band_sum_upd[of "ab_ueRbs ?bi" n 0] s1 cell_okD(1)[OF c(8), of b]
    by (simp add: drained_band_def band_of_def)
  have "cell_ok R (am_bands s) (am_allocated s ! ?p ! remote_idx a - ab_ueRbs ?bi n)
     ((am_perBand s ! ?p ! remote_idx a)(b := drained_band n ?bi))"
  proof (rule cell_ok_update[OF c(8,9) al])
    have "unat (ab_allocated (drained_band n ?bi)) \<le> unat (ab_allocated ?bi)"
      using s1 by (simp add: drained_band_def)
    then show "unat (ab_allocated (drained_band n ?bi))
        \<le> (if unat b < unat (am_bands s) then unat R div unat (am_bands s) else 0)"
      using cell_ok_le[OF c(8), of b] unfolding bi by (rule order_trans)
    show "unat (am_allocated s ! ?p ! remote_idx a - ab_ueRbs ?bi n) +
        unat (ab_allocated ((am_perBand s ! ?p ! remote_idx a) b)) =
        unat (am_allocated s ! ?p ! remote_idx a) + unat (ab_allocated (drained_band n ?bi))"
      using s1 s3 le le' by (simp add: drained_band_def flip: bi)
  qed
  from alloc_inv_put_cell[OF i a this] show ?thesis
    unfolding drained_def Let_def band_of_def
    by (rule alloc_inv_ue_update) (simp, rule ue_ok_cong[OF ue_ok_of[OF i, of n]], simp_all add: drained_ue_def)
qed

text \<open>A new antenna of a plane has no block allocated and as many blocks as the macro antenna.\<close>

definition push_row :: "nat \<Rightarrow> 'a \<Rightarrow> 'a list list \<Rightarrow> 'a list list" where
  "push_row p x m = m[p := m ! p @ [x]]"

definition antenna_added :: "u32 \<Rightarrow> nat \<Rightarrow> alloc_module \<Rightarrow> alloc_module" where
  "antenna_added R p s = s\<lparr>am_total := push_row p R (am_total s),
     am_allocated := push_row p 0 (am_allocated s),
     am_perBand := push_row p (\<lambda>_. band_zero) (am_perBand s),
     am_free := push_row p (replicate (unat (am_bands s)) 0) (am_free s)\<rparr>"

lemma vec_resize_Suc: "i = length r \<Longrightarrow> vec_resize r (Suc i) d = r @ [d]"
  by (simp add: vec_resize_def)

lemma push_row_simps [simp]:
  "length (push_row p x m) = length m"
  "p < length m \<Longrightarrow> push_row p x m ! q = (if q = p then m ! p @ [x] else m ! q)"
  by (simp_all add: push_row_def nth_list_update)

lemma inv_plane:
  assumes "alloc_inv R s" "p < length (am_total s)"
  shows "p < length (am_allocated s)" "p < length (am_perBand s)" "p < length (am_free s)"
    "row_ok R (am_bands s) (am_total s ! p) (am_allocated s ! p) (am_free s ! p) (am_perBand s ! p)"
  using assms by (simp_all add: alloc_inv_def)

lemma add_antenna_eq:
  assumes i: "alloc_inv R s" and p: "p < length (am_total s)" and k: "k = length (am_total s ! p)"
  shows "add_antenna p k s = Inr (antenna_added R p s)"
proof -
  note c = inv_plane[OF i p]
  have l: "length (am_allocated s ! p) = k" "length (am_free s ! p) = k" "length (am_perBand s ! p) = k"
    "0 < k" "am_total s ! p ! 0 = R"
    using c(4) k by (simp_all add: row_ok_def)
  have t: "(am_total s ! p @ [0]) ! 0 = R" using l(4,5) k by (simp add: nth_append)
  show ?thesis
    by (simp add: add_antenna_def mat_ok p c(1-3) l(1-3) vec_resize_Suc nth_append
        antenna_added_def push_row_def vec_resize_def t list_update_append flip: k)
      (use l k in simp)
qed

lemma row_ok_push:
  assumes "row_ok R B tot alc fre pbs" "length tot < 8"
  shows "row_ok R B (tot @ [R]) (alc @ [0]) (fre @ [x]) (pbs @ [\<lambda>_. band_zero])"
  using assms cell_ok_zero[of R B]
  by (auto simp: row_ok_def nth_append less_Suc_eq)

lemma ue_ok_push: "ue_ok tot u \<Longrightarrow> p < length tot \<Longrightarrow> ue_ok (push_row p R tot) u"
  by (auto simp: ue_ok_def)

lemma alloc_inv_antenna_added:
  assumes i: "alloc_inv R s" and p: "p < length (am_total s)" and l: "length (am_total s ! p) < 8"
  shows "alloc_inv R (antenna_added R p s)"
proof -
  note c = inv_plane[OF i p]
  have "row_ok R (am_bands s) (am_total (antenna_added R p s) ! q) (am_allocated (antenna_added R p s) ! q)
      (am_free (antenna_added R p s) ! q) (am_perBand (antenna_added R p s) ! q)"
    if "q < length (am_total s)" for q
    using inv_plane(4)[OF i that] row_ok_push[OF c(4) l] p c(1-3)
    by (simp add: antenna_added_def)
  moreover have "\<forall>n u. am_ue s n = Some u \<longrightarrow> ue_ok (push_row p R (am_total s)) u"
    using i ue_ok_push[OF _ p] by (auto simp: alloc_inv_def)
  ultimately show ?thesis using i by (simp add: alloc_inv_def antenna_added_def)
qed

lemma remote_idx_less: "remote_idx a < 8"
  by (cases a) simp_all

lemma add_antennas:
  assumes i: "alloc_inv R s" and p: "p < length (am_total s)" and l: "length (am_total s ! p) + k \<le> 8"
  shows "\<exists>s'. foldE (add_antenna p) [length (am_total s ! p)..<length (am_total s ! p) + k] s = Inr s' \<and>
     alloc_inv R s' \<and> length (am_total s' ! p) = length (am_total s ! p) + k \<and>
     length (am_total s') = length (am_total s) \<and> am_bands s' = am_bands s \<and> am_ue s' = am_ue s \<and>
     (\<forall>q. length (am_total s ! q) \<le> length (am_total s' ! q))"
  using l
proof (induction k)
  case 0
  then show ?case using i by simp
next
  case (Suc k)
  then obtain s' where s': "foldE (add_antenna p) [length (am_total s ! p)..<length (am_total s ! p) + k] s = Inr s'"
    "alloc_inv R s'" "length (am_total s' ! p) = length (am_total s ! p) + k"
    "length (am_total s') = length (am_total s)" "am_bands s' = am_bands s" "am_ue s' = am_ue s"
    "\<forall>q. length (am_total s ! q) \<le> length (am_total s' ! q)" by auto
  have p': "p < length (am_total s')" using p s'(4) by simp
  have l': "length (am_total s' ! p) < 8" using Suc.prems s'(3) by simp
  have "foldE (add_antenna p) [length (am_total s ! p)..<length (am_total s ! p) + Suc k] s =
      Inr (antenna_added R p s')"
    using s'(1) add_antenna_eq[OF s'(2) p' s'(3)[symmetric]]
    by (simp add: foldE_append)
  moreover have "alloc_inv R (antenna_added R p s')" by (rule alloc_inv_antenna_added[OF s'(2) p' l'])
  moreover have "length (am_total s ! q) \<le> length (am_total (antenna_added R p s') ! q)" for q
    using s'(7) p' by (auto simp: antenna_added_def intro: le_SucI)
  ultimately show ?case using s'(3-6) p' by (auto simp: antenna_added_def)
qed

lemma setRemoteAntenna_ok:
  assumes i: "alloc_inv R s" and p: "plane_idx pl < length (am_total s)"
  shows "\<exists>s'. setRemoteAntenna pl a s = Inr s' \<and> alloc_inv R s' \<and>
     remote_idx a < length (am_total s' ! plane_idx pl) \<and>
     length (am_total s') = length (am_total s) \<and> am_bands s' = am_bands s \<and> am_ue s' = am_ue s \<and>
     (\<forall>q. length (am_total s ! q) \<le> length (am_total s' ! q))"
proof (cases "remote_idx a < length (am_total s ! plane_idx pl)")
  case True
  then show ?thesis using i p by (simp add: setRemoteAntenna_def vec_at_ok)
next
  case False
  then obtain k where k: "remote_idx a + 1 = length (am_total s ! plane_idx pl) + k"
    by (metis add.commute le_add_diff_inverse less_Suc_eq_le linorder_not_less order_less_imp_le Suc_eq_plus1 le_SucI)
  then have "length (am_total s ! plane_idx pl) + k \<le> 8" using remote_idx_less[of a] by simp
  from add_antennas[OF i p this] k show ?thesis
    using p by (auto simp: setRemoteAntenna_def vec_at_ok)
qed

definition plane_added :: "u32 \<Rightarrow> alloc_module \<Rightarrow> alloc_module" where
  "plane_added R s = s\<lparr>am_total := am_total s @ [[R]], am_allocated := am_allocated s @ [[0]],
     am_perBand := am_perBand s @ [[\<lambda>_. band_zero]],
     am_free := am_free s @ [[replicate (unat (am_bands s)) 0]]\<rparr>"

lemma configureOFDMplane_eq:
  assumes i: "alloc_inv R s"
  shows "configureOFDMplane pl s =
           Inr (if length (am_total s) \<le> plane_idx pl then plane_added R s else s)"
proof (cases "length (am_total s) \<le> plane_idx pl")
  case False
  then show ?thesis by (simp add: configureOFDMplane_def Let_def)
next
  case True
  have l: "0 < length (am_total s)" using i by (simp add: alloc_inv_def)
  have "plane_idx pl \<le> 1" by (cases pl) simp_all
  then have p: "plane_idx pl = 1" and t1: "length (am_total s) = 1" using l True by linarith+
  note c = inv_plane[OF i l]
  have ls: "length (am_allocated s) = 1" "length (am_perBand s) = 1" "length (am_free s) = 1"
    using i t1 by (simp_all add: alloc_inv_def)
  have r: "0 < length (am_total s ! 0)" "am_total s ! 0 ! 0 = R" using c(4) by (simp_all add: row_ok_def)
  obtain t a b f where eqs: "am_total s = [t]" "am_allocated s = [a]" "am_perBand s = [b]" "am_free s = [f]"
    using t1 ls by (auto simp: length_Suc_conv)
  have r': "0 < length t" "t ! 0 = R" using r eqs by simp_all
  show ?thesis using r'
    by (simp add: configureOFDMplane_def Let_def p t1 eqs mat_ok vec_resize_def plane_added_def
        row_resize_def vec_at_def mat_at_def mat_set_def vec_get_def vec_set_def mat_get_def)
qed

lemma alloc_inv_plane_added:
  assumes i: "alloc_inv R s" and l: "length (am_total s) \<le> 1"
  shows "alloc_inv R (plane_added R s)"
proof -
  have l0: "0 < length (am_total s)" using i by (simp add: alloc_inv_def)
  then have l1: "length (am_total s) = 1" using l by linarith
  have ls: "length (am_allocated s) = 1" "length (am_perBand s) = 1" "length (am_free s) = 1"
    using i l1 by (simp_all add: alloc_inv_def)
  have new: "row_ok R (am_bands s) [R] [0] [replicate (unat (am_bands s)) 0] [\<lambda>_. band_zero]"
    using cell_ok_zero by (simp add: row_ok_def)
  have "row_ok R (am_bands s) ((am_total s @ [[R]]) ! q) ((am_allocated s @ [[0]]) ! q)
      ((am_free s @ [[replicate (unat (am_bands s)) 0]]) ! q) ((am_perBand s @ [[\<lambda>_. band_zero]]) ! q)"
    if "q < 2" for q
    using that new inv_plane(4)[OF i l0] l1 ls by (cases "q = 0") (simp_all add: nth_append)
  moreover have "ue_ok (am_total s @ [[R]]) u" if "am_ue s n = Some u" for n u
  proof -
    have "ue_ok (am_total s) u" using i that by (simp add: alloc_inv_def)
    then show ?thesis by (auto simp: ue_ok_def nth_append)
  qed
  ultimately show ?thesis using i l1 ls by (simp add: alloc_inv_def plane_added_def)
qed

lemma configureOFDMplane_ok:
  assumes i: "alloc_inv R s"
  shows "\<exists>s'. configureOFDMplane pl s = Inr s' \<and> alloc_inv R s' \<and> plane_idx pl < length (am_total s') \<and>
     am_bands s' = am_bands s \<and> am_ue s' = am_ue s \<and> length (am_total s) \<le> length (am_total s') \<and>
     (\<forall>q < length (am_total s). length (am_total s ! q) \<le> length (am_total s' ! q))"
proof (cases "length (am_total s) \<le> plane_idx pl")
  case True
  moreover have "length (am_total s) \<le> 1" "plane_idx pl \<le> 1" using True by (cases pl; simp)+
  moreover have "0 < length (am_total s)" using i by (simp add: alloc_inv_def)
  moreover from calculation have "plane_idx pl < Suc (length (am_total s))" by linarith
  ultimately show ?thesis using configureOFDMplane_eq[OF i, of pl] alloc_inv_plane_added[OF i]
    by (auto simp: plane_added_def nth_append)
next
  case False
  then show ?thesis using configureOFDMplane_eq[OF i] i by simp
qed

text \<open>The antennas of the peer are mirrored on the second plane.\<close>

lemma mirror_antennas:
  assumes "alloc_inv R s" "plane_idx pl < length (am_total s)"
  shows "\<exists>s'. foldE (setRemoteAntenna pl) as s = Inr s' \<and> alloc_inv R s' \<and>
     (\<forall>a \<in> set as. remote_idx a < length (am_total s' ! plane_idx pl)) \<and>
     length (am_total s') = length (am_total s) \<and> am_bands s' = am_bands s \<and> am_ue s' = am_ue s \<and>
     (\<forall>q. length (am_total s ! q) \<le> length (am_total s' ! q))"
  using assms
proof (induction as arbitrary: s)
  case Nil
  then show ?case by simp
next
  case (Cons a as)
  from setRemoteAntenna_ok[OF Cons.prems, of a] obtain s1 where s1: "setRemoteAntenna pl a s = Inr s1"
    "alloc_inv R s1" "remote_idx a < length (am_total s1 ! plane_idx pl)"
    "length (am_total s1) = length (am_total s)" "am_bands s1 = am_bands s" "am_ue s1 = am_ue s"
    "\<forall>q. length (am_total s ! q) \<le> length (am_total s1 ! q)" by blast
  have "plane_idx pl < length (am_total s1)" using Cons.prems(2) s1(4) by simp
  from Cons.IH[OF s1(2) this] obtain s2 where s2: "foldE (setRemoteAntenna pl) as s1 = Inr s2"
    "alloc_inv R s2" "\<forall>a \<in> set as. remote_idx a < length (am_total s2 ! plane_idx pl)"
    "length (am_total s2) = length (am_total s1)" "am_bands s2 = am_bands s1" "am_ue s2 = am_ue s1"
    "\<forall>q. length (am_total s1 ! q) \<le> length (am_total s2 ! q)" by blast
  have "remote_idx a < length (am_total s2 ! plane_idx pl)" using s1(3) s2(7) by (meson less_le_trans)
  moreover have "\<forall>q. length (am_total s ! q) \<le> length (am_total s2 ! q)" using s1(7) s2(7) by (meson le_trans)
  ultimately show ?case using s1 s2 by simp
qed

text \<open>The peering as one change of the two users.\<close>

definition peered :: "mac_node_id \<Rightarrow> mac_node_id \<Rightarrow> alloc_module \<Rightarrow> alloc_module" where
  "peered n m s =
     (let u = (ue_of n s)\<lparr>au_muMimoEnabled := True, au_peerId := m, au_secondaryUser := False\<rparr>;
          v = (if m = n then u\<lparr>au_secondaryUser := True\<rparr>
               else (ue_of m s)\<lparr>au_muMimoEnabled := True, au_peerId := n, au_secondaryUser := True,
                      au_antennas := au_antennas u\<rparr>)
      in s\<lparr>am_ue := (am_ue s)(n := Some u, m := Some v)\<rparr>)"

lemma configureMuMimoPeering_eq:
  "configureMuMimoPeering n m s =
     (if au_muMimoEnabled (ue_of n s) then Inr (False, ue_touch n s)
      else if au_muMimoEnabled (ue_of m s) then Inr (False, ue_touch m (ue_touch n s))
      else bindE (configureOFDMplane MU_MIMO_PLANE (peered n m s)) (\<lambda>s1.
           bindE (foldE (setRemoteAntenna MU_MIMO_PLANE) (sorted_list_of_set (au_antennas (ue_of n s))) s1)
             (\<lambda>s2. Inr (True, s2))))"
proof (cases "m = n")
  case True
  then show ?thesis
    by (simp add: configureMuMimoPeering_def Let_def ue_at_def peered_def ue_update_def ue_of_def ue_touch_def
        fun_upd_twist)
next
  case False
  then show ?thesis
    by (simp add: configureMuMimoPeering_def Let_def ue_at_def peered_def ue_update_def ue_of_def ue_touch_def
        fun_upd_twist)
qed

lemma ue_of_peered:
  "ue_of k (peered n m s) =
     (if k = m then (if m = n then (ue_of n s)\<lparr>au_muMimoEnabled := True, au_peerId := m, au_secondaryUser := True\<rparr>
                     else (ue_of m s)\<lparr>au_muMimoEnabled := True, au_peerId := n, au_secondaryUser := True,
                            au_antennas := au_antennas (ue_of n s)\<rparr>)
      else if k = n then (ue_of n s)\<lparr>au_muMimoEnabled := True, au_peerId := m, au_secondaryUser := False\<rparr>
      else ue_of k s)"
  by (simp add: peered_def Let_def ue_of_def)

text \<open>The configuration of planes and antennas does not look at the users.\<close>

abbreviation with_users :: "(mac_node_id \<Rightarrow> ue_info option) \<Rightarrow> alloc_module \<Rightarrow> alloc_module" where
  "with_users X s \<equiv> s\<lparr>am_ue := X\<rparr>"

lemma with_users_matrices:
  "with_users X (s\<lparr>am_total := a, am_allocated := b, am_perBand := c, am_free := d\<rparr>) =
   (with_users X s)\<lparr>am_total := a, am_allocated := b, am_perBand := c, am_free := d\<rparr>"
  by (cases s) simp

lemma add_antenna_users:
  "add_antenna p k (with_users X s) = bindE (add_antenna p k s) (\<lambda>t. Inr (with_users X t))"
  by (simp add: add_antenna_def bindE_assoc with_users_matrices)

lemma setRemoteAntenna_users:
  "setRemoteAntenna pl a (with_users X s) = bindE (setRemoteAntenna pl a s) (\<lambda>t. Inr (with_users X t))"
  by (simp add: setRemoteAntenna_def bindE_assoc foldE_commute[where f = "add_antenna (plane_idx pl)" and g = "with_users X", OF add_antenna_users])

lemma configureOFDMplane_users:
  "configureOFDMplane pl (with_users X s) = bindE (configureOFDMplane pl s) (\<lambda>t. Inr (with_users X t))"
  by (simp add: configureOFDMplane_def Let_def bindE_assoc with_users_matrices)

lemma peering_ok:
  assumes i: "alloc_inv R s"
    and n: "\<not> au_muMimoEnabled (ue_of n s)" and m: "\<not> au_muMimoEnabled (ue_of m s)"
  shows "\<exists>s'. configureMuMimoPeering n m s = Inr (True, s') \<and> alloc_inv R s' \<and>
     am_ue s' = am_ue (peered n m s) \<and> am_bands s' = am_bands s \<and> length (am_total s') = 2 \<and>
     (\<forall>a \<in> au_antennas (ue_of n s). remote_idx a < length (am_total s' ! 1))"
proof -
  let ?as = "sorted_list_of_set (au_antennas (ue_of n s))"
  define X where "X = am_ue (peered n m s)"
  have pe: "peered n m s = with_users X s" by (simp add: X_def peered_def Let_def)
  from configureOFDMplane_ok[OF i, of MU_MIMO_PLANE] obtain s1 where
    s1: "configureOFDMplane MU_MIMO_PLANE s = Inr s1" "alloc_inv R s1"
      "plane_idx MU_MIMO_PLANE < length (am_total s1)" "am_bands s1 = am_bands s" "am_ue s1 = am_ue s" by blast
  from mirror_antennas[OF s1(2,3), of ?as] obtain s2 where
    s2: "foldE (setRemoteAntenna MU_MIMO_PLANE) ?as s1 = Inr s2" "alloc_inv R s2"
      "\<forall>a \<in> set ?as. remote_idx a < length (am_total s2 ! plane_idx MU_MIMO_PLANE)"
      "length (am_total s2) = length (am_total s1)" "am_bands s2 = am_bands s1" "am_ue s2 = am_ue s1" by blast
  have run: "configureMuMimoPeering n m s = Inr (True, with_users X s2)"
    using n m s1(1) s2(1)
    by (simp add: configureMuMimoPeering_eq pe configureOFDMplane_users
        foldE_commute[where f = "setRemoteAntenna MU_MIMO_PLANE" and g = "with_users X", OF setRemoteAntenna_users])
  have len: "length (am_total s2) = 2"
    using s2(2,4) s1(3) by (simp add: alloc_inv_def)
  have fin: "finite (au_antennas (ue_of n s))"
    by (rule finite_subset[OF subset_UNIV]) (rule finite_imageD[of remote_idx], rule finite_subset[of _ "{..<8}"],
        auto simp: remote_idx_less inj_on_def remote_idx_inj)
  have ants: "\<forall>a \<in> au_antennas (ue_of n s). remote_idx a < length (am_total s2 ! 1)"
    using s2(3) fin by simp
  have same: "ue_of k s2 = ue_of k s" for k using s1(5) s2(6) by (simp add: ue_of_def)
  have "ue_ok (am_total s2) u" if "X k = Some u" for k u
  proof -
    have u: "u = ue_of k (peered n m s)" using that by (simp add: ue_of_def X_def)
    have sec: "\<not> au_secondaryUser (ue_of n s)"
      using n ue_ok_of[OF i, of n] by (auto simp: ue_ok_def)
    have on: "ue_ok (am_total s2) (ue_of n s)" using ue_ok_of[OF s2(2), of n] by (simp add: same)
    show ?thesis
    proof (cases "k = m \<or> k = n")
      case True
      then show ?thesis using u sec on len ants by (auto simp: ue_of_peered ue_ok_def ue_plane_def)
    next
      case False
      then have "u = ue_of k s2" using u by (simp add: ue_of_peered same)
      then show ?thesis using ue_ok_of[OF s2(2)] by simp
    qed
  qed
  then have "alloc_inv R (with_users X s2)" using s2(2) by (simp add: alloc_inv_def)
  then show ?thesis using run len ants s1(4) s2(5) unfolding X_def[symmetric]
    by (intro exI[of _ "with_users X s2"]) simp
qed

section \<open>Sequences of calls\<close>

datatype alloc_op =
    AddOp remote band mac_node_id u32 u32
  | AddAnyOp band mac_node_id u32 u32
  | RemoveOp remote band mac_node_id
  | PeerOp mac_node_id mac_node_id
  | PlaneOp plane
  | AntennaOp plane remote

fun alloc_step :: "alloc_op \<Rightarrow> alloc_module \<Rightarrow> alloc_module result" where
  "alloc_step (AddOp a b n blocks bytes) s = bindE (addBlocks a b n blocks bytes s) (\<lambda>(r, s'). Inr s')"
| "alloc_step (AddAnyOp b n blocks bytes) s = bindE (addBlocks_any b n blocks bytes s) (\<lambda>(r, s'). Inr s')"
| "alloc_step (RemoveOp a b n) s = bindE (removeBlocks a b n s) (\<lambda>(r, s'). Inr s')"
| "alloc_step (PeerOp n m) s = bindE (configureMuMimoPeering n m s) (\<lambda>(r, s'). Inr s')"
| "alloc_step (PlaneOp p) s = configureOFDMplane p s"
| "alloc_step (AntennaOp p a) s = setRemoteAntenna p a s"

text \<open>A request of less than \<open>2 ^ 31\<close> blocks, which does not turn negative as an \<open>int\<close>.\<close>

fun op_small :: "alloc_op \<Rightarrow> bool" where
  "op_small (AddOp a b n blocks bytes) = (unat blocks < 2 ^ 31)"
| "op_small (AddAnyOp b n blocks bytes) = (unat blocks < 2 ^ 31)"
| "op_small _ = True"

text \<open>The calls the code can answer: the band exists, the antenna is configured, the user is known.\<close>

fun op_fits :: "alloc_op \<Rightarrow> alloc_module \<Rightarrow> bool" where
  "op_fits (AddOp a b n blocks bytes) s = (ucast b < am_bands s \<and> antenna_of n a s)"
| "op_fits (AddAnyOp b n blocks bytes) s =
     (am_ue s n \<noteq> None \<and> (ucast b < am_bands s \<or> au_antennas (ue_of n s) = {}))"
| "op_fits (RemoveOp a b n) s = (ucast b < am_bands s \<longrightarrow> antenna_of n a s)"
| "op_fits (PeerOp n m) s = True"
| "op_fits (PlaneOp p) s = True"
| "op_fits (AntennaOp p a) s = (plane_idx p < length (am_total s))"

lemma plane_of_exists: "alloc_inv R s \<Longrightarrow> ue_plane (ue_of n s) < length (am_total s)"
  using ue_ok_of[of R s n] by (simp add: ue_ok_def)

lemma antenna_of_touch [simp]: "antenna_of n a (ue_touch m s) = antenna_of n a s"
  by (simp add: antenna_of_def)

lemma availableBlocks_missing:
  assumes "\<not> antenna_of n a s"
  shows "\<not> is_ok (availableBlocks n a b s)"
proof -
  have p: "plane_idx (if au_secondaryUser (ue_of n s) then MU_MIMO_PLANE else MAIN_PLANE) = ue_plane (ue_of n s)"
    by (simp add: ue_plane_def)
  show ?thesis using assms by (simp add: availableBlocks_def getOFDMPlane_eq p antenna_of_def Let_def)
qed

lemma addBlocks_fits:
  assumes i: "alloc_inv R s" and R: "unat R < 2 ^ 31" and k: "unat blocks < 2 ^ 31"
  shows "is_ok (addBlocks a b n blocks bytes s) \<longleftrightarrow> ucast b < am_bands s \<and> antenna_of n a s"
    and "addBlocks a b n blocks bytes s = Inr (r, s') \<Longrightarrow> alloc_inv R s' \<and> (\<not> r \<longrightarrow> s' = ue_touch n s)"
proof -
  have no: "\<not> is_ok (addBlocks a b n blocks bytes s)" if "\<not> (ucast b < am_bands s \<and> antenna_of n a s)"
  proof (cases "ucast b < am_bands s")
    case False
    then have "am_bands s \<le> ucast b" by (simp add: not_less)
    then show ?thesis unfolding addBlocks_def by (simp only: if_True is_ok_simps simp_thms)
  next
    case True
    then have nb: "\<not> am_bands s \<le> ucast b" by simp
    have "\<not> is_ok (availableBlocks n a b (ue_touch n s))"
      by (rule availableBlocks_missing) (use that True in simp)
    then show ?thesis unfolding addBlocks_def if_not_P[OF nb] getOFDMPlane_eq Let_def prod.case
      by (auto simp: is_ok_iff)
  qed
  have yes: "is_ok (addBlocks a b n blocks bytes s)" if "ucast b < am_bands s" "antenna_of n a s"
    using addBlocks_eq[OF i that(2,1) R k, of bytes] by simp
  show "is_ok (addBlocks a b n blocks bytes s) \<longleftrightarrow> ucast b < am_bands s \<and> antenna_of n a s"
    using no yes by blast
  assume r: "addBlocks a b n blocks bytes s = Inr (r, s')"
  then have b: "ucast b < am_bands s" and a: "antenna_of n a s" using no by fastforce+
  show "alloc_inv R s' \<and> (\<not> r \<longrightarrow> s' = ue_touch n s)"
  proof (cases "R div am_bands s - ab_allocated (band_of n a b s) < blocks \<or> bytes = 0")
    case True
    then show ?thesis using r addBlocks_eq[OF i a b R k, of bytes] alloc_inv_touch[OF i, of n] by auto
  next
    case False
    then have "blocks \<le> R div am_bands s - ab_allocated (band_of n a b s)" by (simp only: not_less de_Morgan_disj)
    from alloc_inv_granted[OF i a b R this] show ?thesis
      using r addBlocks_eq[OF i a b R k, of bytes] False by auto
  qed
qed

lemma addBlocks_first_fits:
  assumes "alloc_inv R s" and R: "unat R < 2 ^ 31" and k: "unat blocks < 2 ^ 31"
  shows "addBlocks_first as b n blocks bytes s = Inr (r, s') \<Longrightarrow> alloc_inv R s'"
    and "(\<And>a. a \<in> set as \<Longrightarrow> antenna_of n a s) \<Longrightarrow>
      is_ok (addBlocks_first as b n blocks bytes s) \<longleftrightarrow> ucast b < am_bands s \<or> as = []"
  using assms(1)
proof (induction as arbitrary: s)
  case Nil
  {
    case 1
    then show ?case by simp
  next
    case 2
    then show ?case by simp
  }
next
  case (Cons a as)
  note F = addBlocks_fits[OF _ R k]
  {
    case 1
    then obtain q s1 where q: "addBlocks a b n blocks bytes s = Inr (q, s1)"
      "(if q then Inr (True, s1) else addBlocks_first as b n blocks bytes s1) = Inr (r, s')" by auto
    have "alloc_inv R s1" using F(2)[OF 1(2) q(1)] by blast
    then show ?case using q(2) Cons.IH(1)[of s1] by (cases q) simp_all
  next
    case 2
    have ok: "is_ok (addBlocks a b n blocks bytes s) \<longleftrightarrow> ucast b < am_bands s"
      using F(1)[OF 2(2)] 2(1)[of a] by simp
    show ?case
    proof (cases "addBlocks a b n blocks bytes s")
      case (Inl e)
      then show ?thesis using ok by simp
    next
      case (Inr x)
      then obtain q s1 where q: "addBlocks a b n blocks bytes s = Inr (q, s1)" by (cases x) auto
      then have b: "ucast b < am_bands s" using ok by simp
      show ?thesis
      proof (cases q)
        case True
        then show ?thesis using q b by simp
      next
        case False
        then have s1: "s1 = ue_touch n s" using F(2)[OF 2(2) q] by blast
        have "is_ok (addBlocks_first as b n blocks bytes s1)"
          using Cons.IH(2)[of s1] 2(1) alloc_inv_touch[OF 2(2)] b unfolding s1 by simp
        then show ?thesis using q b False by simp
      qed
    qed
  }
qed

lemma sorted_list_remotes [simp]: "set (sorted_list_of_set (A :: remote set)) = A"
proof -
  have "finite A"
    by (rule finite_subset[OF subset_UNIV]) (rule finite_imageD[of remote_idx], rule finite_subset[of _ "{..<8}"],
        auto simp: remote_idx_less inj_on_def remote_idx_inj)
  then show ?thesis by simp
qed

lemma antennas_of_user:
  "alloc_inv R s \<Longrightarrow> a \<in> au_antennas (ue_of n s) \<Longrightarrow> antenna_of n a s"
  using ue_ok_of[of R s n] by (simp add: ue_ok_def antenna_of_def)

lemma addBlocks_any_fits:
  assumes i: "alloc_inv R s" and R: "unat R < 2 ^ 31" and k: "unat blocks < 2 ^ 31"
  shows "addBlocks_any b n blocks bytes s = Inr (r, s') \<Longrightarrow> alloc_inv R s'"
    and "is_ok (addBlocks_any b n blocks bytes s) \<longleftrightarrow>
      am_ue s n \<noteq> None \<and> (ucast b < am_bands s \<or> au_antennas (ue_of n s) = {})"
proof -
  show "addBlocks_any b n blocks bytes s = Inr (r, s') \<Longrightarrow> alloc_inv R s'"
    using addBlocks_first_fits(1)[OF i R k] by (auto simp: addBlocks_any_def)
  have e: "sorted_list_of_set A = [] \<longleftrightarrow> A = {}" for A :: "remote set"
    by (metis sorted_list_remotes set_empty)
  show "is_ok (addBlocks_any b n blocks bytes s) \<longleftrightarrow>
      am_ue s n \<noteq> None \<and> (ucast b < am_bands s \<or> au_antennas (ue_of n s) = {})"
  proof (cases "am_ue s n")
    case None
    then show ?thesis by (simp add: addBlocks_any_def ue_at_def)
  next
    case (Some u)
    then have u: "ue_of n s = u" by (simp add: ue_of_def)
    have "is_ok (addBlocks_first (sorted_list_of_set (au_antennas u)) b n blocks bytes s) \<longleftrightarrow>
        ucast b < am_bands s \<or> sorted_list_of_set (au_antennas u) = []"
      by (rule addBlocks_first_fits(2)[OF i R k]) (use antennas_of_user[OF i, of _ n] u in simp)
    then show ?thesis by (simp add: addBlocks_any_def ue_at_def Some u e)
  qed
qed

lemma removeBlocks_fits:
  assumes i: "alloc_inv R s"
  shows "is_ok (removeBlocks a b n s) \<longleftrightarrow> (ucast b < am_bands s \<longrightarrow> antenna_of n a s)"
    and "removeBlocks a b n s = Inr (d, s') \<Longrightarrow> alloc_inv R s'"
proof -
  have out: "removeBlocks a b n s = Inr (0, s)" if "\<not> ucast b < am_bands s"
  proof -
    have "am_bands s \<le> ucast b" using that by (simp add: not_less)
    then show ?thesis unfolding removeBlocks_def by (simp only: if_True)
  qed
  have bad: "\<not> is_ok (removeBlocks a b n s)" if b: "ucast b < am_bands s" and na: "\<not> antenna_of n a s"
  proof -
    have p: "plane_idx (if au_secondaryUser (ue_of n s) then MU_MIMO_PLANE else MAIN_PLANE) = ue_plane (ue_of n s)"
      by (simp add: ue_plane_def)
    have "length (am_perBand s ! ue_plane (ue_of n s)) = length (am_total s ! ue_plane (ue_of n s))"
      using inv_plane(4)[OF i plane_of_exists[OF i, of n]] by (simp add: row_ok_def)
    moreover have nb: "\<not> am_bands s \<le> ucast b" using b by simp
    ultimately show ?thesis
      using na unfolding removeBlocks_def if_not_P[OF nb] getOFDMPlane_eq Let_def prod.case p antenna_of_def
      by (auto simp: is_ok_iff)
  qed
  have good: "is_ok (removeBlocks a b n s) \<and> (removeBlocks a b n s = Inr (d, s') \<longrightarrow> alloc_inv R s')"
    if b: "ucast b < am_bands s" and a: "antenna_of n a s"
    using removeBlocks_eq[OF i a b] alloc_inv_touch[OF i, of n] alloc_inv_drained[OF i a b]
    by (cases "ab_ueRbs (band_of n a b s) n = 0") auto
  show "is_ok (removeBlocks a b n s) \<longleftrightarrow> (ucast b < am_bands s \<longrightarrow> antenna_of n a s)"
    using out bad good by fastforce
  assume r: "removeBlocks a b n s = Inr (d, s')"
  show "alloc_inv R s'"
  proof (cases "ucast b < am_bands s")
    case True
    then have "antenna_of n a s" using bad r by fastforce
    then show ?thesis using good True r by blast
  next
    case False
    then show ?thesis using out r i by simp
  qed
qed

lemma alloc_step_fits:
  assumes i: "alloc_inv R s" and R: "unat R < 2 ^ 31" and k: "op_small op"
  shows "is_ok (alloc_step op s) \<longleftrightarrow> op_fits op s"
    and "alloc_step op s = Inr s' \<Longrightarrow> alloc_inv R s'"
proof -
  have is_ok_drop: "is_ok (bindE m (\<lambda>(r, s'). Inr s')) \<longleftrightarrow> is_ok m" for m :: "('a \<times> alloc_module) result"
    by (cases m) auto
  have peer: "\<exists>r t. configureMuMimoPeering n m s = Inr (r, t) \<and> alloc_inv R t" for n m
  proof (cases "au_muMimoEnabled (ue_of n s) \<or> au_muMimoEnabled (ue_of m s)")
    case True
    then show ?thesis using alloc_inv_touch[OF alloc_inv_touch[OF i, of n], of m] alloc_inv_touch[OF i, of n]
      by (auto simp: configureMuMimoPeering_eq)
  next
    case False
    then show ?thesis using peering_ok[OF i, of n m] by blast
  qed
  have setr: "is_ok (setRemoteAntenna p a s) \<longleftrightarrow> plane_idx p < length (am_total s)" for p a
    using setRemoteAntenna_ok[OF i, of p a] by (auto simp: setRemoteAntenna_def vec_at_def)
  show "is_ok (alloc_step op s) \<longleftrightarrow> op_fits op s"
  proof (cases op)
    case (AddOp a b n blocks bytes)
    then show ?thesis using addBlocks_fits(1)[OF i R, of blocks a b n bytes] k by (simp add: is_ok_drop del: is_ok_bindE)
  next
    case (AddAnyOp b n blocks bytes)
    then show ?thesis using addBlocks_any_fits(2)[OF i R, of blocks b n bytes] k by (simp add: is_ok_drop del: is_ok_bindE)
  next
    case (RemoveOp a b n)
    then show ?thesis using removeBlocks_fits(1)[OF i, of a b n] by (simp add: is_ok_drop del: is_ok_bindE)
  next
    case (PeerOp n m)
    then show ?thesis using peer[of n m] by auto
  next
    case (PlaneOp p)
    then show ?thesis using configureOFDMplane_eq[OF i, of p] by simp
  next
    case (AntennaOp p a)
    then show ?thesis using setr by simp
  qed
  assume st: "alloc_step op s = Inr s'"
  show "alloc_inv R s'"
  proof (cases op)
    case (AddOp a b n blocks bytes)
    then obtain r where "addBlocks a b n blocks bytes s = Inr (r, s')" using st by auto
    then show ?thesis using addBlocks_fits(2)[OF i R, of blocks] k AddOp by simp
  next
    case (AddAnyOp b n blocks bytes)
    then obtain r where "addBlocks_any b n blocks bytes s = Inr (r, s')" using st by auto
    then show ?thesis using addBlocks_any_fits(1)[OF i R, of blocks] k AddAnyOp by simp
  next
    case (RemoveOp a b n)
    then obtain d where "removeBlocks a b n s = Inr (d, s')" using st by auto
    then show ?thesis by (rule removeBlocks_fits(2)[OF i])
  next
    case (PeerOp n m)
    then show ?thesis using peer[of n m] st by auto
  next
    case (PlaneOp p)
    then show ?thesis using configureOFDMplane_ok[OF i, of p] st by auto
  next
    case (AntennaOp p a)
    then have "plane_idx p < length (am_total s)" using setr[of p a] st by simp
    from setRemoteAntenna_ok[OF i this, of a] show ?thesis using st AntennaOp by auto
  qed
qed

lemma alloc_inv_init:
  assumes "0 < unat bands"
  shows "alloc_inv R (initAndReset R bands s)"
  using assms cell_ok_zero by (simp add: alloc_inv_def initAndReset_def row_ok_def)

lemma alloc_steps_inv:
  assumes "foldE alloc_step ops s = Inr s'" "alloc_inv R s" "unat R < 2 ^ 31" "list_all op_small ops"
  shows "alloc_inv R s'"
proof (rule foldE_invariant[where P = "alloc_inv R", OF assms(1,2)])
  fix op t t' assume "op \<in> set ops" "alloc_inv R t" "alloc_step op t = Inr t'"
  moreover from this have "op_small op" using assms(4) by (simp add: list_all_iff)
  ultimately show "alloc_inv R t'" using alloc_step_fits(2)[OF _ assms(3)] by blast
qed

end
