(* ===== verification/AllocatorContract.thy ===== *)
theory AllocatorContract
  imports Allocation HarqTxScenario
begin

text \<open>
  What the resource block allocator promises to the schedulers: how its operations act on the
  abstract table that counts, for every plane, antenna and band, the blocks of each user; that no
  band is ever given more than its share; and what the peering of two users changes.
\<close>

section \<open>The abstract table\<close>

type_synonym block_table = "nat \<Rightarrow> nat \<Rightarrow> band \<Rightarrow> mac_node_id \<Rightarrow> nat"

definition table_of :: "alloc_module \<Rightarrow> block_table" where
  "table_of s p a b n = unat (ab_ueRbs ((am_perBand s ! p ! a) b) n)"

definition table_upd :: "nat \<Rightarrow> nat \<Rightarrow> band \<Rightarrow> mac_node_id \<Rightarrow> nat \<Rightarrow> block_table \<Rightarrow> block_table" where
  "table_upd p a b n k t = (\<lambda>p' a' b' n'. if p' = p \<and> a' = a \<and> b' = b \<and> n' = n then k else t p' a' b' n')"

text \<open>The blocks of a band of the table that are taken.\<close>

definition taken :: "block_table \<Rightarrow> nat \<Rightarrow> nat \<Rightarrow> band \<Rightarrow> nat" where
  "taken t p a b = (\<Sum>n\<in>UNIV. t p a b n)"

lemma nth_update2:
  "p < length m \<Longrightarrow> a < length (m ! p) \<Longrightarrow>
   m[p := (m ! p)[a := x]] ! q ! c = (if q = p \<and> c = a then x else m ! q ! c)"
  by (cases "q = p"; cases "c = a") simp_all

lemma table_of_touch [simp]: "table_of (ue_touch n s) = table_of s"
  by (simp add: table_of_def fun_eq_iff)

lemma table_of_ue_update [simp]: "table_of (ue_update n f s) = table_of s"
  by (simp add: table_of_def fun_eq_iff)

lemma table_of_put_cell:
  assumes "p < length (am_perBand s)" "a < length (am_perBand s ! p)"
    and "\<And>b' n'. (b', n') \<noteq> (b, n) \<Longrightarrow> ab_ueRbs (pb b') n' = ab_ueRbs ((am_perBand s ! p ! a) b') n'"
  shows "table_of (put_cell p a c pb s) = table_upd p a b n (unat (ab_ueRbs (pb b) n)) (table_of s)"
proof (intro ext)
  fix q d b' n'
  show "table_of (put_cell p a c pb s) q d b' n' =
      table_upd p a b n (unat (ab_ueRbs (pb b) n)) (table_of s) q d b' n'"
    using assms(3)[of b' n'] nth_update2[OF assms(1,2), of pb q d]
    by (auto simp: table_of_def put_cell_def table_upd_def)
qed

lemma table_of_granted:
  assumes i: "alloc_inv R s" and a: "antenna_of n a s"
  shows "table_of (granted a b n blocks bytes s) =
    table_upd (ue_plane (ue_of n s)) (remote_idx a) b n (unat (ab_ueRbs (band_of n a b s) n + blocks)) (table_of s)"
proof -
  note c = inv_cell[OF i a]
  show ?thesis unfolding granted_def Let_def table_of_ue_update
    by (subst table_of_put_cell[OF c(2,5), where b = b and n = n])
       (auto simp: granted_band_def band_of_def)
qed

lemma table_of_drained:
  assumes i: "alloc_inv R s" and a: "antenna_of n a s"
  shows "table_of (drained a b n s) =
    table_upd (ue_plane (ue_of n s)) (remote_idx a) b n 0 (table_of s)"
proof -
  note c = inv_cell[OF i a]
  show ?thesis unfolding drained_def Let_def table_of_ue_update
    by (subst table_of_put_cell[OF c(2,5), where b = b and n = n])
       (auto simp: drained_band_def band_of_def)
qed

lemma taken_eq:
  assumes i: "alloc_inv R s" and a: "antenna_of n a s"
  shows "taken (table_of s) (ue_plane (ue_of n s)) (remote_idx a) b = unat (ab_allocated (band_of n a b s))"
  using cell_okD(1)[OF inv_cell(8)[OF i a], of b] by (simp add: taken_def table_of_def band_of_def)

section \<open>The total of the free blocks\<close>

definition free_blocks :: "u32 \<Rightarrow> alloc_module \<Rightarrow> nat" where
  "free_blocks R s = (\<Sum>p<length (am_total s). \<Sum>a<length (am_total s ! p). unat R - unat (am_allocated s ! p ! a))"

lemma unat_sum_words:
  fixes f :: "'i \<Rightarrow> u32"
  shows "of_nat (\<Sum>i\<in>A. unat (f i)) = (\<Sum>i\<in>A. f i)"
  by (simp add: of_nat_sum)

lemma computeTotalRbs_sums:
  assumes i: "alloc_inv R s"
  shows "computeTotalRbs s =
    bindE (sub_int (\<Sum>p<length (am_total s). \<Sum>a<length (am_total s ! p). am_total s ! p ! a)
                   (\<Sum>p<length (am_total s). \<Sum>a<length (am_total s ! p). am_allocated s ! p ! a))
      (\<lambda>d. if d < 0 then Inl (RuntimeError ''LteAllocator::checkOFDMspace(): Negative OFDM space'')
           else Inr (of_int d))"
proof -
  let ?G = "\<lambda>i j (rb, ab). bindE (mat_at (am_total s) i j) (\<lambda>t.
      bindE (mat_at (am_allocated s) i j) (\<lambda>a. Inr (rb + t, ab + a)))"
  let ?F = "\<lambda>i acc. bindE (vec_at (am_total s) i) (\<lambda>row. foldE (?G i) [0..<length row] acc)"
  have inner: "foldE (?G i') [0..<length (am_total s ! i')] (x, y) =
      Inr (x + (\<Sum>a<length (am_total s ! i'). am_total s ! i' ! a), y + (\<Sum>a<length (am_total s ! i'). am_allocated s ! i' ! a))"
    if "i' < length (am_total s)" for i' x y
    using inv_plane[OF i that] that by (intro foldE_sums) (simp add: mat_ok row_ok_def)
  have "foldE ?F [0..<length (am_total s)] (0, 0) =
      Inr (0 + (\<Sum>p<length (am_total s). \<Sum>a<length (am_total s ! p). am_total s ! p ! a),
           0 + (\<Sum>p<length (am_total s). \<Sum>a<length (am_total s ! p). am_allocated s ! p ! a))"
    by (rule foldE_sums) (simp add: vec_at_ok inner)
  then show ?thesis by (simp add: computeTotalRbs_def)
qed

lemma unat_of_nat_small: "n < 4294967296 \<Longrightarrow> unat (of_nat n :: u32) = n"
  by (simp add: unat_of_nat)

lemma sum_planes_le:
  assumes i: "alloc_inv R s"
    and f: "\<And>p a. p < length (am_total s) \<Longrightarrow> a < length (am_total s ! p) \<Longrightarrow> f p a \<le> (K::nat)"
  shows "(\<Sum>p<length (am_total s). \<Sum>a<length (am_total s ! p). f p a) \<le> 16 * K"
proof -
  have "(\<Sum>a<length (am_total s ! p). f p a) \<le> 8 * K" if p: "p < length (am_total s)" for p
  proof -
    have "(\<Sum>a<length (am_total s ! p). f p a) \<le> (\<Sum>a<length (am_total s ! p). K)"
      by (rule sum_mono) (use f p in simp)
    also have "\<dots> \<le> 8 * K" using inv_plane(4)[OF i p] by (simp add: row_ok_def)
    finally show ?thesis .
  qed
  then have "(\<Sum>p<length (am_total s). \<Sum>a<length (am_total s ! p). f p a) \<le> (\<Sum>p<length (am_total s). 8 * K)"
    by (intro sum_mono) simp
  also have "\<dots> \<le> 2 * (8 * K)"
    using i unfolding alloc_inv_def by (simp only: sum_constant card_lessThan of_nat_id) (rule mult_le_mono1, blast)
  finally show ?thesis by simp
qed

lemma computeTotalRbs_eq:
  assumes i: "alloc_inv R s" and R: "16 * unat R < 2 ^ 31"
  shows "\<exists>n. computeTotalRbs s = Inr n \<and> unat n = free_blocks R s"
proof -
  let ?T = "\<Sum>p<length (am_total s). \<Sum>a<length (am_total s ! p). unat (am_total s ! p ! a)"
  let ?A = "\<Sum>p<length (am_total s). \<Sum>a<length (am_total s ! p). unat (am_allocated s ! p ! a)"
  let ?wT = "\<Sum>p<length (am_total s). \<Sum>a<length (am_total s ! p). am_total s ! p ! a"
  let ?wA = "\<Sum>p<length (am_total s). \<Sum>a<length (am_total s ! p). am_allocated s ! p ! a"
  have cell: "am_total s ! p ! a = R \<and> unat (am_allocated s ! p ! a) \<le> unat R"
    if "p < length (am_total s)" "a < length (am_total s ! p)" for p a
    using inv_plane(4)[OF i that(1)] that(2) cell_ok_total i by (auto simp: row_ok_def alloc_inv_def)
  have T: "?T \<le> 16 * unat R" by (rule sum_planes_le[OF i]) (simp add: cell)
  have A: "?A \<le> 16 * unat R" by (rule sum_planes_le[OF i]) (simp add: cell)
  have wT: "?wT = of_nat ?T" and wA: "?wA = of_nat ?A" by (simp_all add: of_nat_sum)
  have uT: "unat ?wT = ?T" unfolding wT by (rule unat_of_nat_small) (use T R in simp)
  have uA: "unat ?wA = ?A" unfolding wA by (rule unat_of_nat_small) (use A R in simp)
  have AT: "?A \<le> ?T" by (intro sum_mono) (simp add: cell)
  have free: "free_blocks R s = ?T - ?A"
  proof -
    have "(\<Sum>a<length (am_total s ! p). unat R - unat (am_allocated s ! p ! a)) +
        (\<Sum>a<length (am_total s ! p). unat (am_allocated s ! p ! a)) =
        (\<Sum>a<length (am_total s ! p). unat (am_total s ! p ! a))" if "p < length (am_total s)" for p
      unfolding sum.distrib[symmetric] by (rule sum.cong) (use cell that in auto)
    then have "free_blocks R s + ?A = ?T"
      unfolding free_blocks_def sum.distrib[symmetric] by (rule sum.cong[OF refl]) simp
    then show ?thesis by simp
  qed
  have b: "unat ?wT < 2 ^ 31" "unat ?wA < 2 ^ 31" unfolding uT uA using T A R by linarith+
  have sub: "sub_int ?wT ?wA = Inr (int ?T - int ?A)" using sub_int_small[OF b] unfolding uT uA .
  have nn: "\<not> int ?T - int ?A < 0" using AT by linarith
  have "computeTotalRbs s = Inr (of_int (int ?T - int ?A))"
    unfolding computeTotalRbs_sums[OF i] sub bindE_simps using nn by (simp only: if_False)
  moreover have "int ?T - int ?A = int (?T - ?A)" using AT by linarith
  moreover have "unat (of_int (int (?T - ?A)) :: u32) = ?T - ?A"
    unfolding of_int_of_nat_eq by (rule unat_of_nat_small) (use T R in simp)
  ultimately show ?thesis using free by metis
qed

section \<open>Properties\<close>

lemma band_share:
  assumes i: "alloc_inv R s" and p: "p < length (am_total s)" and a: "a < length (am_total s ! p)"
  shows "taken (table_of s) p a b \<le> unat R div unat (am_bands s)"
    and "unat (am_allocated s ! p ! a) = (\<Sum>b\<in>UNIV. taken (table_of s) p a b)"
proof -
  have c: "cell_ok R (am_bands s) (am_allocated s ! p ! a) (am_perBand s ! p ! a)"
    using inv_plane(4)[OF i p] a by (simp add: row_ok_def)
  have t: "taken (table_of s) p a d = unat (ab_allocated ((am_perBand s ! p ! a) d))" for d
    using cell_okD(1)[OF c, of d] by (simp add: taken_def table_of_def)
  show "taken (table_of s) p a b \<le> unat R div unat (am_bands s)"
    unfolding t using cell_ok_le[OF c, of b] by (rule order_trans) simp
  show "unat (am_allocated s ! p ! a) = (\<Sum>b\<in>UNIV. taken (table_of s) p a b)"
    unfolding t using c unfolding cell_ok_def by blast
qed

text \<open>
  C19: Whatever sequence of allocations, removals, peerings and antenna configurations follows a
  reset, the users of a band of an antenna never hold more than the band's share of the resource
  blocks, the counter of an antenna is the sum of what the users hold in its bands, and
  \<^verbatim>\<open>computeTotalRbs\<close> never throws: it returns the number of blocks that are left.
\<close>

theorem allocation_never_oversubscribed:
  assumes "0 < unat bands" and "16 * unat R < 2 ^ 31" and "list_all op_small ops"
    and "foldE alloc_step ops (initAndReset R bands s0) = Inr s"
  shows "(\<forall>p < length (am_total s). \<forall>a < length (am_total s ! p).
      (\<forall>b. taken (table_of s) p a b \<le> unat R div unat (am_bands s)) \<and>
      unat (am_allocated s ! p ! a) = (\<Sum>b\<in>UNIV. taken (table_of s) p a b) \<and>
      unat (am_allocated s ! p ! a) \<le> unat R) \<and>
    (\<exists>n. computeTotalRbs s = Inr n \<and> unat n = free_blocks R s)"
proof -
  have R: "unat R < 2 ^ 31" using assms(2) by linarith
  have i: "alloc_inv R s" by (rule alloc_steps_inv[OF assms(4) alloc_inv_init[OF assms(1)] R assms(3)])
  have "unat (am_allocated s ! p ! a) \<le> unat R" if "p < length (am_total s)" "a < length (am_total s ! p)" for p a
    using inv_plane(4)[OF i that(1)] that(2) cell_ok_total i by (auto simp: row_ok_def alloc_inv_def)
  then show ?thesis using band_share[OF i] computeTotalRbs_eq[OF i assms(2)] by blast
qed

text \<open>
  C32: In a state whose accounting is exact (every state reached from a reset, which starts with less
  than \<open>2 ^ 31\<close> blocks), an operation of the allocator returns exactly in the following cases, and fails
  (with an exception or an out-of-range access) in all others.  \<^verbatim>\<open>addBlocks\<close> on an antenna, for less
  than \<open>2 ^ 31\<close> blocks: the band exists and the antenna is configured on the user's plane.
  \<^verbatim>\<open>addBlocks\<close> on any antenna: the user is known, and the band exists unless the user has no
  antenna.  \<^verbatim>\<open>removeBlocks\<close>: the antenna is configured on the user's plane, unless the band does not
  exist, when nothing is removed.  \<^verbatim>\<open>setRemoteAntenna\<close>: the plane exists.
  \<^verbatim>\<open>configureMuMimoPeering\<close> and \<^verbatim>\<open>configureOFDMplane\<close>: always.  Whenever it returns, the
  accounting is exact again.
\<close>

theorem allocation_defined_iff:
  assumes "alloc_inv R s" and "unat R < 2 ^ 31" and "op_small op"
  shows "case alloc_step op s of Inl e \<Rightarrow> \<not> op_fits op s | Inr s' \<Rightarrow> op_fits op s \<and> alloc_inv R s'"
  using alloc_step_fits[OF assms] by (cases "alloc_step op s") auto

text \<open>
  C22: \<^verbatim>\<open>addBlocks\<close> grants a request exactly when it has bytes to send and the band has enough free
  blocks for it, in which case it adds the blocks to the user's entry of the table and to nothing
  else; a refused request leaves the table as it is.
\<close>

theorem addBlocks_grants_iff:
  assumes "alloc_inv R s" and "antenna_of n a s" and "ucast b < am_bands s"
    and "unat R < 2 ^ 31" and "unat blocks < 2 ^ 31"
  defines "p \<equiv> ue_plane (ue_of n s)" and "i \<equiv> remote_idx a"
  shows "\<exists>s'. addBlocks a b n blocks bytes s =
      Inr (taken (table_of s) p i b + unat blocks \<le> unat R div unat (am_bands s) \<and> bytes \<noteq> 0, s') \<and>
    table_of s' =
      (if taken (table_of s) p i b + unat blocks \<le> unat R div unat (am_bands s) \<and> bytes \<noteq> 0
       then table_upd p i b n (table_of s p i b n + unat blocks) (table_of s) else table_of s) \<and>
    alloc_inv R s'"
proof -
  let ?av = "R div am_bands s - ab_allocated (band_of n a b s)"
  note eq = addBlocks_eq[OF assms(1-5), of bytes] and c = inv_cell[OF assms(1,2)]
  have av: "unat ?av = unat R div unat (am_bands s) - taken (table_of s) p i b"
    using availableBlocks_eq(2)[OF assms(1-3)] taken_eq[OF assms(1,2), of b]
    by (simp add: p_def i_def unat_sub unat_div)
  have le: "taken (table_of s) p i b \<le> unat R div unat (am_bands s)"
    unfolding p_def i_def by (rule band_share(1)[OF assms(1) c(1,4)])
  have fits: "\<not> ?av < blocks \<longleftrightarrow> taken (table_of s) p i b + unat blocks \<le> unat R div unat (am_bands s)"
    unfolding word_less_nat_alt av using le by linarith
  show ?thesis
  proof (cases "taken (table_of s) p i b + unat blocks \<le> unat R div unat (am_bands s) \<and> bytes \<noteq> 0")
    case True
    then have nf: "\<not> (?av < blocks \<or> bytes = 0)" using fits by blast
    have fit: "blocks \<le> ?av" using nf by (simp only: not_less de_Morgan_disj)
    have "unat (ab_ueRbs (band_of n a b s) n) + unat blocks \<le> unat R div unat (am_bands s)"
      using ueRbs_le_allocated[OF assms(1,2), of b n] True taken_eq[OF assms(1,2), of b]
      unfolding p_def i_def by linarith
    also have "\<dots> \<le> unat R" by simp
    also have "\<dots> < 2147483648" using assms(4) by simp
    finally have "unat (ab_ueRbs (band_of n a b s) n + blocks) = table_of s p i b n + unat blocks"
      by (subst unat_add_small) (simp_all add: table_of_def band_of_def p_def i_def)
    then have "table_of (granted a b n blocks bytes s) = table_upd p i b n (table_of s p i b n + unat blocks) (table_of s)"
      using table_of_granted[OF assms(1,2)] by (simp add: p_def i_def)
    then show ?thesis unfolding eq using True nf alloc_inv_granted[OF assms(1-4) fit, of bytes] by simp
  next
    case False
    then have nf: "?av < blocks \<or> bytes = 0" using fits by blast
    have F: "(taken (table_of s) p i b + unat blocks \<le> unat R div unat (am_bands s) \<and> bytes \<noteq> 0) = False"
      using False by blast
    show ?thesis unfolding eq F if_P[OF nf] if_False
      by (intro exI[of _ "ue_touch n s"] conjI table_of_touch alloc_inv_touch[OF assms(1)] refl)
  qed
qed

text \<open>
  \<^verbatim>\<open>removeBlocks\<close> returns the blocks the user holds in the band, clears the user's entry and nothing
  else; so a granted request that is removed again leaves the blocks of every other user, and the
  user finds its blocks free.
\<close>

theorem removeBlocks_clears:
  assumes "alloc_inv R s" and "antenna_of n a s" and "ucast b < am_bands s"
  defines "p \<equiv> ue_plane (ue_of n s)" and "i \<equiv> remote_idx a"
  shows "\<exists>d s'. removeBlocks a b n s = Inr (d, s') \<and> unat d = table_of s p i b n \<and>
    table_of s' = table_upd p i b n 0 (table_of s) \<and> alloc_inv R s' \<and>
    (\<exists>k s''. availableBlocks n a b s' = Inr (k, s'') \<and>
       unat k + taken (table_of s) p i b = unat R div unat (am_bands s) + table_of s p i b n)"
proof -
  let ?d = "ab_ueRbs (band_of n a b s) n"
  note c = inv_cell[OF assms(1,2)]
  have d: "unat ?d = table_of s p i b n" by (simp add: table_of_def band_of_def p_def i_def)
  obtain s' where s': "removeBlocks a b n s = Inr (?d, s')" "alloc_inv R s'" "am_bands s' = am_bands s"
    "am_total s' = am_total s" "ue_plane (ue_of n s') = p" "table_of s' = table_upd p i b n 0 (table_of s)"
  proof (cases "?d = 0")
    case True
    have "table_of s = table_upd p i b n 0 (table_of s)" using d True by (auto simp: table_upd_def fun_eq_iff)
    then show ?thesis using removeBlocks_eq[OF assms(1-3)] True alloc_inv_touch[OF assms(1), of n]
      by (intro that[of "ue_touch n s"]) (simp_all add: p_def)
  next
    case False
    then show ?thesis using removeBlocks_eq[OF assms(1-3)] alloc_inv_drained[OF assms(1-3)]
        table_of_drained[OF assms(1,2), of b]
      by (intro that[of "drained a b n s"])
         (simp_all add: p_def i_def drained_def Let_def drained_ue_def ue_plane_def)
  qed
  have a': "antenna_of n a s'" "ucast b < am_bands s'"
    using assms(2,3) s'(3,4,5) by (simp_all add: antenna_of_def p_def)
  note av = availableBlocks_eq[OF s'(2) a']
  have t': "taken (table_of s') p i b + table_of s p i b n = taken (table_of s) p i b"
  proof -
    have "taken (table_of s') p i b = (\<Sum>k\<in>UNIV. id (((\<lambda>k. table_of s p i b k)(n := 0)) k))"
      unfolding taken_def s'(6) by (rule sum.cong) (auto simp: table_upd_def)
    then show ?thesis using sum_fun_upd[of id "\<lambda>k. table_of s p i b k" n 0] by (simp add: taken_def)
  qed
  have "unat (R div am_bands s' - ab_allocated (band_of n a b s')) =
      unat R div unat (am_bands s) - taken (table_of s') p i b"
    using av(2) taken_eq[OF s'(2) a'(1), of b] s'(3,5) by (simp add: i_def unat_sub unat_div)
  moreover have "taken (table_of s) p i b \<le> unat R div unat (am_bands s)"
    unfolding p_def i_def by (rule band_share(1)[OF assms(1) c(1,4)])
  ultimately have "unat (R div am_bands s' - ab_allocated (band_of n a b s')) + taken (table_of s) p i b =
      unat R div unat (am_bands s) + table_of s p i b n" using t' by linarith
  then show ?thesis using s'(1,2,6) d av(1) by blast
qed

text \<open>
  Peering succeeds exactly when neither user has a peer yet; then each becomes the peer of the
  other, the second is moved to the MU-MIMO plane with the antennas of the first, that plane has all
  of them, and every other user keeps its configuration.
\<close>

theorem peering_mirrors:
  assumes "alloc_inv R s" and "n \<noteq> m"
  shows "\<exists>r s'. configureMuMimoPeering n m s = Inr (r, s') \<and> alloc_inv R s' \<and>
    r = (\<not> au_muMimoEnabled (ue_of n s) \<and> \<not> au_muMimoEnabled (ue_of m s)) \<and>
    (\<forall>k. k \<noteq> n \<and> k \<noteq> m \<or> \<not> r \<longrightarrow> ue_of k s' = ue_of k s) \<and>
    (r \<longrightarrow> getMuMimoPeer n s' = m \<and> getMuMimoPeer m s' = n \<and>
       fst (getOFDMPlane n s') = MAIN_PLANE \<and> fst (getOFDMPlane m s') = MU_MIMO_PLANE \<and>
       au_antennas (ue_of m s') = au_antennas (ue_of n s) \<and>
       (\<forall>a \<in> au_antennas (ue_of n s). antenna_of m a s'))"
proof (cases "au_muMimoEnabled (ue_of n s) \<or> au_muMimoEnabled (ue_of m s)")
  case True
  then show ?thesis using alloc_inv_touch[OF alloc_inv_touch[OF assms(1), of n], of m] alloc_inv_touch[OF assms(1), of n]
    by (auto simp: configureMuMimoPeering_eq)
next
  case False
  then obtain s' where s': "configureMuMimoPeering n m s = Inr (True, s')" "alloc_inv R s'"
    "am_ue s' = am_ue (peered n m s)" "\<forall>a \<in> au_antennas (ue_of n s). remote_idx a < length (am_total s' ! 1)"
    using peering_ok[OF assms(1), of n m] by blast
  have u: "ue_of k s' = ue_of k (peered n m s)" for k using s'(3) by (simp add: ue_of_def)
  have "getMuMimoPeer n s' = m" "getMuMimoPeer m s' = n"
    unfolding getMuMimoPeer_def s'(3) using assms(2) by (simp_all add: peered_def Let_def)
  moreover have "\<forall>k. k \<noteq> n \<and> k \<noteq> m \<or> \<not> True \<longrightarrow> ue_of k s' = ue_of k s"
    by (simp add: u ue_of_peered)
  moreover have "\<forall>a \<in> au_antennas (ue_of n s). antenna_of m a s'"
    using s'(4) assms(2) by (simp add: antenna_of_def u ue_of_peered ue_plane_def)
  moreover have "fst (getOFDMPlane n s') = MAIN_PLANE" "fst (getOFDMPlane m s') = MU_MIMO_PLANE"
    "au_antennas (ue_of m s') = au_antennas (ue_of n s)"
    using assms(2) by (simp_all add: getOFDMPlane_def u ue_of_peered)
  moreover have "True = (\<not> au_muMimoEnabled (ue_of n s) \<and> \<not> au_muMimoEnabled (ue_of m s))" using False by simp
  ultimately show ?thesis using s'(1,2) by blast
qed

text \<open>
  A removal does not undo the byte accounting of the allocation: it zeroes the byte count of the
  user as a whole, even when the user holds blocks in other bands, and it leaves the bytes recorded
  for the emptied band and the block count of the user's antenna as they were.
\<close>

theorem removeBlocks_keeps_bytes:
  assumes "alloc_inv R s" and "antenna_of n a s" and "ucast b < am_bands s"
    and "table_of s (ue_plane (ue_of n s)) (remote_idx a) b n \<noteq> 0"
  shows "\<exists>d s'. removeBlocks a b n s = Inr (d, s') \<and> d \<noteq> 0 \<and> ab_ueRbs (band_of n a b s') n = 0 \<and>
    ab_ueBytes (band_of n a b s') n = ab_ueBytes (band_of n a b s) n \<and>
    au_allocatedBytes (ue_of n s') = 0 \<and> au_antennaRbs (ue_of n s') a = au_antennaRbs (ue_of n s) a"
proof -
  note c = inv_cell[OF assms(1,2)]
  have d: "ab_ueRbs (band_of n a b s) n \<noteq> 0" using assms(4) by (auto simp: table_of_def band_of_def)
  have u: "ue_of n (drained a b n s) = drained_ue a b (ab_ueRbs (band_of n a b s) n) (ue_of n s)"
    by (simp add: drained_def Let_def band_of_def)
  have p: "ue_plane (ue_of n (drained a b n s)) = ue_plane (ue_of n s)"
    by (simp add: u drained_ue_def ue_plane_def)
  have "band_of n a b (drained a b n s) = drained_band n (band_of n a b s)"
    unfolding band_of_def p using c(2,5) by (simp add: drained_def Let_def put_cell_def)
  then show ?thesis using removeBlocks_eq[OF assms(1-3)] d u
    by (simp add: drained_band_def drained_ue_def)
qed

section \<open>Concrete runs\<close>

text \<open>Fifty resource blocks in ten bands; a first grant, and users 1025 and 1026 become peers.\<close>

definition demo_ops :: "alloc_op list" where
  "demo_ops = [AddOp MACRO 3 1025 2 40, PeerOp 1025 1026]"

definition demo_reset :: alloc_module where
  "demo_reset = initAndReset 50 10 alloc_new"

definition demo_alloc :: alloc_module where
  "demo_alloc = projr (foldE alloc_step demo_ops demo_reset)"

definition demo_granted :: alloc_module where
  "demo_granted = projr (foldE alloc_step [AddOp MACRO 3 1025 2 40] demo_reset)"

lemma demo_alloc_run: "foldE alloc_step demo_ops (initAndReset 50 10 alloc_new) = Inr demo_alloc"
  unfolding demo_alloc_def demo_reset_def demo_ops_def by (rule is_ok_projr) code_simp

lemma demo_granted_run:
  "foldE alloc_step [AddOp MACRO 3 1025 2 40] (initAndReset 50 10 alloc_new) = Inr demo_granted"
  unfolding demo_granted_def demo_reset_def by (rule is_ok_projr) code_simp

lemma demo_reset_inv: "alloc_inv 50 demo_reset"
  unfolding demo_reset_def by (rule alloc_inv_init) simp

lemma demo_granted_inv: "alloc_inv 50 demo_granted"
  by (rule alloc_steps_inv[OF demo_granted_run alloc_inv_init]) simp_all

lemma macro_configured: "alloc_inv R s \<Longrightarrow> antenna_of n MACRO s"
  using inv_plane(4)[OF _ plane_of_exists, of R s R n] by (simp add: antenna_of_def row_ok_def)

lemma demo_granted_facts:
  "am_bands demo_granted = 10" "ue_plane (ue_of 1025 demo_granted) = 0"
  "table_of demo_granted 0 0 3 1025 = 2" "am_bands demo_reset = 10"
  "\<not> au_muMimoEnabled (ue_of 1025 demo_reset)" "\<not> au_muMimoEnabled (ue_of 1026 demo_reset)"
  unfolding demo_granted_def demo_reset_def by code_simp+

lemma allocation_never_oversubscribed_witness:
  "\<exists>n. computeTotalRbs demo_alloc = Inr n \<and> unat n = free_blocks 50 demo_alloc"
proof -
  have "(0::nat) < unat (10 :: u32)" "16 * unat (50 :: u32) < 2 ^ 31" "list_all op_small demo_ops"
    by (simp_all add: demo_ops_def)
  from allocation_never_oversubscribed[OF this demo_alloc_run] show ?thesis by blast
qed

lemma allocation_defined_iff_witness:
  "\<exists>s'. alloc_step (AddOp MACRO 3 1025 2 40) demo_reset = Inr s' \<and> alloc_inv 50 s'"
  using allocation_defined_iff[OF demo_reset_inv, of "AddOp MACRO 3 1025 2 40"]
    macro_configured[OF demo_reset_inv, of 1025]
  by (auto simp: demo_granted_facts simp del: alloc_step.simps split: sum.splits)

lemma addBlocks_grants_iff_witness:
  "\<exists>s'. addBlocks MACRO 3 1025 4 80 demo_granted = Inr (False, s') \<and>
     table_of s' = table_of demo_granted \<and> alloc_inv 50 s'"
proof -
  have t: "taken (table_of demo_granted) 0 0 3 \<ge> 2"
    using member_le_sum[of "1025 :: mac_node_id" UNIV "table_of demo_granted 0 0 3"] demo_granted_facts(3)
    by (simp add: taken_def)
  have "unat (50 :: u32) < 2 ^ 31" "unat (4 :: u32) < 2 ^ 31" "ucast (3 :: band) < am_bands demo_granted"
    by (simp_all add: demo_granted_facts)
  from addBlocks_grants_iff[OF demo_granted_inv macro_configured[OF demo_granted_inv, of 1025] this(3,1,2), of 80]
  show ?thesis using t by (auto simp: demo_granted_facts)
qed

lemma removeBlocks_clears_witness:
  "\<exists>d s'. removeBlocks MACRO 3 1025 demo_granted = Inr (d, s') \<and> unat d = 2 \<and>
     table_of s' = table_upd 0 0 3 1025 0 (table_of demo_granted)"
  using removeBlocks_clears[OF demo_granted_inv macro_configured[OF demo_granted_inv, of 1025], of 3]
  by (auto simp: demo_granted_facts)

lemma peering_mirrors_witness:
  "\<exists>s'. configureMuMimoPeering 1025 1026 demo_reset = Inr (True, s') \<and> getMuMimoPeer 1026 s' = 1025 \<and>
     fst (getOFDMPlane 1026 s') = MU_MIMO_PLANE"
proof -
  have "(1025 :: mac_node_id) \<noteq> 1026" by simp
  from peering_mirrors[OF demo_reset_inv this] show ?thesis by (auto simp: demo_granted_facts)
qed

lemma removeBlocks_keeps_bytes_witness:
  "\<exists>d s'. removeBlocks MACRO 3 1025 demo_granted = Inr (d, s') \<and> d \<noteq> 0 \<and>
     au_allocatedBytes (ue_of 1025 s') = 0"
proof -
  have "ucast (3 :: band) < am_bands demo_granted"
    "table_of demo_granted (ue_plane (ue_of 1025 demo_granted)) (remote_idx MACRO) 3 1025 \<noteq> 0"
    by (simp_all add: demo_granted_facts)
  from removeBlocks_keeps_bytes[OF demo_granted_inv macro_configured[OF demo_granted_inv] this]
  show ?thesis by blast
qed

end
