(* ===== verification/TcpSeq.thy ===== *)
theory TcpSeq
  imports Prelude
begin

text \<open>
  Sequence numbers and segments of the TCP model
  (\<^verbatim>\<open>inet/src/transport/tcp_common/TCPSegment.h\<close> and \<^verbatim>\<open>TCPSegment.cc\<close>): the circular comparisons,
  the SACK block, and the operations of a segment on its payload.  The model is that of a debug
  build: \<open>ASSERT\<close> and the checks under \<open>NDEBUG\<close> throw.
\<close>

type_synonym u64 = "64 word"

definition assertE :: "bool \<Rightarrow> unit result" where
  "assertE b = (if b then Inr () else Inl (RuntimeError ''ASSERT''))"

lemma assertE_eq_Inr [simp]: "assertE b = Inr x \<longleftrightarrow> b"
  by (simp add: assertE_def)

lemma assertE_True [simp]: "assertE True = Inr ()"
  by simp

section \<open>Circular comparison\<close>

definition seqLess :: "u32 \<Rightarrow> u32 \<Rightarrow> bool" where
  "seqLess a b \<longleftrightarrow> a \<noteq> b \<and> unat (b - a) < 2 ^ 31"

definition seqLE :: "u32 \<Rightarrow> u32 \<Rightarrow> bool" where
  "seqLE a b \<longleftrightarrow> unat (b - a) < 2 ^ 31"

definition seqGreater :: "u32 \<Rightarrow> u32 \<Rightarrow> bool" where
  "seqGreater a b \<longleftrightarrow> a \<noteq> b \<and> unat (a - b) < 2 ^ 31"

definition seqGE :: "u32 \<Rightarrow> u32 \<Rightarrow> bool" where
  "seqGE a b \<longleftrightarrow> unat (a - b) < 2 ^ 31"

definition seqMin :: "u32 \<Rightarrow> u32 \<Rightarrow> u32" where
  "seqMin a b = (if unat (b - a) < 2 ^ 31 then a else b)"

definition seqMax :: "u32 \<Rightarrow> u32 \<Rightarrow> u32" where
  "seqMax a b = (if unat (a - b) < 2 ^ 31 then a else b)"

section \<open>Offsets from a base\<close>

text \<open>
  Within half of the number space after a base, the circular comparisons are the comparisons of
  the distances from the base.
\<close>

definition off :: "u32 \<Rightarrow> u32 \<Rightarrow> nat" where
  "off w x = unat (x - w)"

definition near :: "u32 \<Rightarrow> u32 \<Rightarrow> bool" where
  "near w x \<longleftrightarrow> off w x < 2 ^ 31"

lemma off_self [simp]: "off w w = 0"
  by (simp add: off_def)

lemma near_self [simp]: "near w w"
  by (simp add: near_def)

lemma off_inj: "off w a = off w b \<longleftrightarrow> a = b"
  by (simp add: off_def word_unat_eq_iff[symmetric])

lemma off_less: "off w x < 4294967296"
  unfolding off_def using unsigned_less[of "x - w"] by simp

lemma unat_diff_off:
  "unat (b - a) = (if off w a \<le> off w b then off w b - off w a else 4294967296 + off w b - off w a)"
proof -
  have e: "b - a = (b - w) - (a - w)" by simp
  show ?thesis unfolding e off_def unat_sub_if'[of "b - w" "a - w"] by simp arith
qed

lemma seq_near:
  assumes "near w a" "near w b"
  shows "seqLess a b \<longleftrightarrow> off w a < off w b" "seqLE a b \<longleftrightarrow> off w a \<le> off w b"
    "seqGreater a b \<longleftrightarrow> off w b < off w a" "seqGE a b \<longleftrightarrow> off w b \<le> off w a"
    "off w (seqMin a b) = min (off w a) (off w b)" "off w (seqMax a b) = max (off w a) (off w b)"
proof -
  have n: "off w a < 2147483648" "off w b < 2147483648" using assms by (simp_all add: near_def)
  have eq: "a = b \<longleftrightarrow> off w a = off w b" by (simp add: off_inj)
  note defs = seqLess_def seqLE_def seqGreater_def seqGE_def eq unat_diff_off[of b a w] unat_diff_off[of a b w]
  show "seqLess a b \<longleftrightarrow> off w a < off w b" "seqLE a b \<longleftrightarrow> off w a \<le> off w b"
    "seqGreater a b \<longleftrightarrow> off w b < off w a" "seqGE a b \<longleftrightarrow> off w b \<le> off w a"
    using n unfolding defs by (auto)
  have "unat (b - a) < 2 ^ 31 \<longleftrightarrow> off w a \<le> off w b" "unat (a - b) < 2 ^ 31 \<longleftrightarrow> off w b \<le> off w a"
    using n unfolding defs by (auto)
  then show "off w (seqMin a b) = min (off w a) (off w b)" "off w (seqMax a b) = max (off w a) (off w b)"
    by (simp_all only: seqMin_def seqMax_def min_def max_def split: if_split) auto
qed

lemma off_add: "off w x + unat n < 4294967296 \<Longrightarrow> off w (x + n) = off w x + unat n"
proof -
  assume "off w x + unat n < 4294967296"
  moreover have "x + n - w = (x - w) + n" by simp
  ultimately show ?thesis by (simp only: off_def unat_plus_if') simp
qed

lemma unat_diff_near: "off w a \<le> off w b \<Longrightarrow> unat (b - a) = off w b - off w a"
  by (simp add: unat_diff_off[of b a w])

section \<open>SACK blocks\<close>

record sack =
  sk_start :: u32
  sk_end :: u32

definition sack_empty :: "sack \<Rightarrow> bool" where
  "sack_empty s \<longleftrightarrow> sk_start s = 0 \<and> sk_end s = 0"

definition sack_contains :: "sack \<Rightarrow> sack \<Rightarrow> bool" where
  "sack_contains s other \<longleftrightarrow> seqLE (sk_start s) (sk_start other) \<and> seqLE (sk_end other) (sk_end s)"

definition sack_clear :: "sack \<Rightarrow> sack" where
  "sack_clear s = s\<lparr>sk_start := 0, sk_end := 0\<rparr>"

definition sack_setSegment :: "u32 \<Rightarrow> u32 \<Rightarrow> sack \<Rightarrow> sack" where
  "sack_setSegment a b s = s\<lparr>sk_start := a, sk_end := b\<rparr>"

section \<open>Segments\<close>

text \<open>
  A segment carries its payload as the list of the messages that end in it, each with the sequence
  number after its last byte; messages are known by a number.  An option is its kind, the length it claims and
  its values.  The destination port, the flags that the code ignores and segments with a byte array are
  not modelled.
\<close>

record tcp_option =
  to_kind :: u16
  to_length :: u16
  to_values :: "u32 list"

record tcp_segment =
  tg_srcPort :: u16
  tg_seq :: u32
  tg_len :: u64
  tg_fin :: bool
  tg_syn :: bool
  tg_rst :: bool
  tg_ackBit :: bool
  tg_ack :: u32
  tg_window :: u16
  tg_headerLength :: u16
  tg_options :: "tcp_option list"
  tg_payload :: "(u32 \<times> int) list"

definition TCP_HEADER_OCTETS :: nat where
  "TCP_HEADER_OCTETS = 20"

definition TCPOPTION_END_OF_OPTION_LIST :: u16 where "TCPOPTION_END_OF_OPTION_LIST = 0"
definition TCPOPTION_NO_OPERATION :: u16 where "TCPOPTION_NO_OPERATION = 1"
definition TCPOPTION_MAXIMUM_SEGMENT_SIZE :: u16 where "TCPOPTION_MAXIMUM_SEGMENT_SIZE = 2"
definition TCPOPTION_WINDOW_SCALE :: u16 where "TCPOPTION_WINDOW_SCALE = 3"
definition TCPOPTION_SACK_PERMITTED :: u16 where "TCPOPTION_SACK_PERMITTED = 4"
definition TCPOPTION_SACK :: u16 where "TCPOPTION_SACK = 5"
definition TCPOPTION_TIMESTAMP :: u16 where "TCPOPTION_TIMESTAMP = 8"

text \<open>A segment as its constructor makes it.\<close>

definition segment_new :: tcp_segment where
  "segment_new = \<lparr>tg_srcPort = 0, tg_seq = 0, tg_len = 0, tg_fin = False, tg_syn = False, tg_rst = False, tg_ackBit = False,
     tg_ack = 0, tg_window = 0, tg_headerLength = of_nat TCP_HEADER_OCTETS, tg_options = [], tg_payload = []\<rparr>"

definition getSegLen :: "tcp_segment \<Rightarrow> u32" where
  "getSegLen s = ucast (tg_len s + (if tg_fin s then 1 else 0) + (if tg_syn s then 1 else 0))"

text \<open>The sum of the lengths the options claim.\<close>

definition getOptionsArrayLength :: "tcp_segment \<Rightarrow> u16" where
  "getOptionsArrayLength s = fold (\<lambda>opt len. len + to_length opt) (tg_options s) 0"

text \<open>The values of the first timestamp option; the accessor of the option checks the index.\<close>

definition option_value :: "tcp_option \<Rightarrow> nat \<Rightarrow> u32 result" where
  "option_value opt i = (if i < length (to_values opt) then Inr (to_values opt ! i)
     else Inl (RuntimeError ''Array of size indexed by out of range''))"

definition getTSval :: "tcp_segment \<Rightarrow> u32 result" where
  "getTSval s = (case find (\<lambda>opt. to_kind opt = TCPOPTION_TIMESTAMP) (tg_options s) of
     Some opt \<Rightarrow> option_value opt 0 | None \<Rightarrow> Inr 0)"

definition getTSecr :: "tcp_segment \<Rightarrow> u32 result" where
  "getTSecr s = (case find (\<lambda>opt. to_kind opt = TCPOPTION_TIMESTAMP) (tg_options s) of
     Some opt \<Rightarrow> option_value opt 1 | None \<Rightarrow> Inr 0)"

text \<open>The sequence number after the payload, an \<open>unsigned long\<close> sum converted to 32 bits.\<close>

definition tg_end :: "tcp_segment \<Rightarrow> u32" where
  "tg_end s = tg_seq s + ucast (tg_len s)"

definition truncateData :: "u32 \<Rightarrow> u32 \<Rightarrow> tcp_segment \<Rightarrow> tcp_segment result" where
  "truncateData truncleft truncright s =
     bindE (assertE (ucast (truncleft + truncright) \<le> tg_len s)) (\<lambda>_.
       let pl = dropWhile (\<lambda>(e, m). e - tg_seq s \<le> truncleft) (tg_payload s);
           seq = tg_seq s + truncleft;
           len = tg_len s - ucast (truncleft + truncright)
       in Inr (s\<lparr>tg_seq := seq, tg_len := len,
                 tg_payload := rev (dropWhile (\<lambda>(e, m). len < ucast (e - seq)) (rev pl))\<rparr>))"

definition truncateSegment :: "u32 \<Rightarrow> u32 \<Rightarrow> tcp_segment \<Rightarrow> tcp_segment result" where
  "truncateSegment firstSeqNo endSeqNo s =
     bindE (assertE (0 < tg_len s)) (\<lambda>_.
       if \<not> (seqLess (tg_seq s) endSeqNo \<and> seqLess firstSeqNo (tg_end s))
       then Inl (RuntimeError ''truncateSegment called on a segment without common part'')
       else
         let truncleft = (if seqLess (tg_seq s) firstSeqNo then firstSeqNo - tg_seq s else 0);
             truncright = (if seqGreater (tg_end s) endSeqNo then tg_end s - endSeqNo else 0)
         in truncateData truncleft truncright s)"

definition addPayloadMessage :: "int \<Rightarrow> u32 \<Rightarrow> tcp_segment \<Rightarrow> tcp_segment" where
  "addPayloadMessage m e s = s\<lparr>tg_payload := tg_payload s @ [(e, m)]\<rparr>"

definition removeFirstPayloadMessage :: "tcp_segment \<Rightarrow> (u32 \<times> int) option \<times> tcp_segment" where
  "removeFirstPayloadMessage s = (case tg_payload s of
      [] \<Rightarrow> (None, s) | p # ps \<Rightarrow> (Some p, s\<lparr>tg_payload := ps\<rparr>))"

end
