(* ===== verification/TcpSackQueue.thy ===== *)
theory TcpSackQueue
  imports TcpSeq
begin

text \<open>
  The retransmission queue of the TCP sender
  (\<^verbatim>\<open>inet/src/transport/tcp/TCPSACKRexmitQueue.cc\<close>): the sent and unacknowledged sequence numbers,
  cut into contiguous regions that carry a \<open>sacked\<close> and a \<open>rexmitted\<close> bit.  The second half shows
  that the list of regions implements two sets of sequence numbers.
\<close>

section \<open>The queue\<close>

record rx_region =
  rx_begin :: u32
  rx_end :: u32
  rx_sacked :: bool
  rx_rexmitted :: bool

record rexmit_queue =
  xq_regions :: "rx_region list"
  xq_begin :: u32
  xq_end :: u32

definition xq_new :: rexmit_queue where
  "xq_new = \<lparr>xq_regions = [], xq_begin = 0, xq_end = 0\<rparr>"

definition xq_init :: "u32 \<Rightarrow> rexmit_queue \<Rightarrow> rexmit_queue" where
  "xq_init seqNum q = q\<lparr>xq_begin := seqNum, xq_end := seqNum\<rparr>"

definition xq_checkQueue :: "rexmit_queue \<Rightarrow> bool" where
  "xq_checkQueue q =
     (case fold (\<lambda>i (b, f). (rx_end i, f \<and> b = rx_begin i \<and> seqLess (rx_begin i) (rx_end i)))
             (xq_regions q) (xq_begin q, True) of
        (b, f) \<Rightarrow> f \<and> b = xq_end q)"

text \<open>
  The search \<open>while (i != end && seqLE(i->endSeqNum, seq)) i++\<close> leaves the list cut in two; \<open>rx_chunk\<close>
  cuts the region at the iterator when it begins before \<open>seq\<close>.
\<close>

definition rx_seek :: "u32 \<Rightarrow> rx_region list \<Rightarrow> rx_region list \<times> rx_region list" where
  "rx_seek seq rs = (takeWhile (\<lambda>i. seqLE (rx_end i) seq) rs, dropWhile (\<lambda>i. seqLE (rx_end i) seq) rs)"

definition rx_chunk :: "u32 \<Rightarrow> rx_region list \<Rightarrow> rx_region \<Rightarrow> rx_region list \<Rightarrow> rx_region list \<times> rx_region list" where
  "rx_chunk seq before i rest =
     (if rx_begin i \<noteq> seq then (before @ [i\<lparr>rx_end := seq\<rparr>], i\<lparr>rx_begin := seq\<rparr> # rest)
      else (before, i # rest))"

definition xq_discardUpTo :: "u32 \<Rightarrow> rexmit_queue \<Rightarrow> rexmit_queue result" where
  "xq_discardUpTo seqNum q =
     bindE (assertE (seqLE (xq_begin q) seqNum \<and> seqLE seqNum (xq_end q))) (\<lambda>_.
     bindE (case snd (rx_seek seqNum (xq_regions q)) of
              [] \<Rightarrow> Inr []
            | i # rest \<Rightarrow> bindE (assertE (seqLE (rx_begin i) seqNum \<and> seqLess seqNum (rx_end i))) (\<lambda>_.
                Inr (i\<lparr>rx_begin := seqNum\<rparr> # rest))) (\<lambda>rs.
     let q' = q\<lparr>xq_regions := rs, xq_begin := seqNum\<rparr>
     in bindE (assertE (xq_checkQueue q')) (\<lambda>_. Inr q')))"

text \<open>
  The second half of \<open>enqueueSentData\<close>: the whole regions up to \<open>toSeqNum\<close> are marked, the part of
  the next region below \<open>toSeqNum\<close> (or what lies beyond the last region) becomes a region of its
  own.
\<close>

definition rx_enqueue_tail :: "u32 \<Rightarrow> u32 \<Rightarrow> rx_region list \<Rightarrow> rx_region list result" where
  "rx_enqueue_tail fromSeqNum toSeqNum rs =
     (case rx_seek toSeqNum rs of (whole, rest) \<Rightarrow>
        let marked = map (\<lambda>i. i\<lparr>rx_rexmitted := True\<rparr>) whole;
            from1 = (if whole = [] then fromSeqNum else rx_end (last whole))
        in if from1 \<noteq> toSeqNum then
             (case rest of
                [] \<Rightarrow> Inr (marked @ [\<lparr>rx_begin = from1, rx_end = toSeqNum, rx_sacked = False, rx_rexmitted = False\<rparr>])
              | i # rest' \<Rightarrow> bindE (assertE (seqLess (rx_begin i) toSeqNum)) (\<lambda>_.
                  Inr (marked @ \<lparr>rx_begin = from1, rx_end = toSeqNum, rx_sacked = rx_sacked i, rx_rexmitted = True\<rparr>
                              # i\<lparr>rx_begin := toSeqNum\<rparr> # rest')))
           else bindE (assertE (whole \<noteq> [])) (\<lambda>_. Inr (marked @ rest)))"

definition xq_enqueueSentData :: "u32 \<Rightarrow> u32 \<Rightarrow> rexmit_queue \<Rightarrow> rexmit_queue result" where
  "xq_enqueueSentData fromSeqNum toSeqNum q =
     bindE (assertE (seqLE (xq_begin q) fromSeqNum \<and> seqLE fromSeqNum (xq_end q))) (\<lambda>_.
     bindE (assertE (seqLess fromSeqNum toSeqNum)) (\<lambda>_.
     bindE (if xq_regions q = [] \<or> xq_end q = fromSeqNum
            then Inr (xq_regions q @
                   [\<lparr>rx_begin = fromSeqNum, rx_end = toSeqNum, rx_sacked = False, rx_rexmitted = False\<rparr>])
            else (case rx_seek fromSeqNum (xq_regions q) of
                    (before, []) \<Rightarrow> Inl (RuntimeError ''ASSERT'')
                  | (before, i # rest) \<Rightarrow>
                      bindE (assertE (seqLE (rx_begin i) fromSeqNum \<and> seqLess fromSeqNum (rx_end i))) (\<lambda>_.
                      case rx_chunk fromSeqNum before i rest of (before', tail) \<Rightarrow>
                        bindE (rx_enqueue_tail fromSeqNum toSeqNum tail) (\<lambda>tail'. Inr (before' @ tail'))))) (\<lambda>rs.
     let q' = q\<lparr>xq_regions := rs, xq_begin := rx_begin (hd rs), xq_end := rx_end (last rs)\<rparr>
     in bindE (assertE (xq_checkQueue q')) (\<lambda>_. Inr q'))))"

definition rx_sack_tail :: "u32 \<Rightarrow> u32 \<Rightarrow> rx_region list \<Rightarrow> rx_region list" where
  "rx_sack_tail fromSeqNum toSeqNum rs =
     (case rx_seek toSeqNum rs of (whole, rest) \<Rightarrow>
        map (\<lambda>i. if seqGE (rx_begin i) fromSeqNum then i\<lparr>rx_sacked := True\<rparr> else i) whole @
        (case rest of [] \<Rightarrow> []
         | i # rest' \<Rightarrow>
             if seqLess (rx_begin i) toSeqNum \<and> seqLess toSeqNum (rx_end i)
             then i\<lparr>rx_end := toSeqNum, rx_sacked := True\<rparr> # i\<lparr>rx_begin := toSeqNum\<rparr> # rest'
             else i # rest'))"

definition xq_setSackedBit :: "u32 \<Rightarrow> u32 \<Rightarrow> rexmit_queue \<Rightarrow> rexmit_queue result" where
  "xq_setSackedBit fromSeqNum0 toSeqNum q =
     (let fromSeqNum = (if seqLess fromSeqNum0 (xq_begin q) then xq_begin q else fromSeqNum0) in
      bindE (assertE (seqLess fromSeqNum (xq_end q))) (\<lambda>_.
      bindE (assertE (seqLess (xq_begin q) toSeqNum \<and> seqLE toSeqNum (xq_end q))) (\<lambda>_.
      bindE (assertE (seqLess fromSeqNum toSeqNum)) (\<lambda>_.
      bindE (if xq_regions q = [] then Inr []
             else (case rx_seek fromSeqNum (xq_regions q) of
                     (before, []) \<Rightarrow> Inl (RuntimeError ''ASSERT'')
                   | (before, i # rest) \<Rightarrow>
                       bindE (assertE (seqLE (rx_begin i) fromSeqNum \<and> seqLess fromSeqNum (rx_end i))) (\<lambda>_.
                       case rx_chunk fromSeqNum before i rest of (before', tail) \<Rightarrow>
                         Inr (before' @ rx_sack_tail fromSeqNum toSeqNum tail)))) (\<lambda>rs.
      let q' = q\<lparr>xq_regions := rs\<rparr>
      in bindE (assertE (xq_checkQueue q')) (\<lambda>_. Inr q'))))))"

text \<open>The region at a sequence number, as \<open>getSackedBit\<close> and \<open>checkSackBlock\<close> find it.\<close>

definition rx_region_at :: "u32 \<Rightarrow> rexmit_queue \<Rightarrow> rx_region result" where
  "rx_region_at seqNum q =
     (case snd (rx_seek seqNum (xq_regions q)) of
        [] \<Rightarrow> Inl (RuntimeError ''ASSERT'')
      | i # _ \<Rightarrow> bindE (assertE (seqLE (rx_begin i) seqNum \<and> seqLess seqNum (rx_end i))) (\<lambda>_. Inr i))"

definition xq_getSackedBit :: "u32 \<Rightarrow> rexmit_queue \<Rightarrow> bool result" where
  "xq_getSackedBit seqNum q =
     bindE (assertE (seqLE (xq_begin q) seqNum \<and> seqLE seqNum (xq_end q))) (\<lambda>_.
     if xq_end q = seqNum then Inr False
     else bindE (rx_region_at seqNum q) (\<lambda>i. Inr (rx_sacked i)))"

definition xq_getHighestSackedSeqNum :: "rexmit_queue \<Rightarrow> u32" where
  "xq_getHighestSackedSeqNum q =
     (case find rx_sacked (rev (xq_regions q)) of Some i \<Rightarrow> rx_end i | None \<Rightarrow> xq_begin q)"

definition xq_getHighestRexmittedSeqNum :: "rexmit_queue \<Rightarrow> u32" where
  "xq_getHighestRexmittedSeqNum q =
     (case find rx_rexmitted (rev (xq_regions q)) of Some i \<Rightarrow> rx_end i | None \<Rightarrow> xq_begin q)"

fun rx_forward :: "u32 \<Rightarrow> u32 \<Rightarrow> rx_region list \<Rightarrow> u32 result" where
  "rx_forward fromSeqNum bytes [] = Inr bytes"
| "rx_forward fromSeqNum bytes (i # rest) =
     (if rx_sacked i \<or> rx_rexmitted i
      then bindE (assertE (seqLE (rx_begin i) fromSeqNum \<and> seqLess fromSeqNum (rx_end i))) (\<lambda>_.
             rx_forward (rx_end i) (bytes + (rx_end i - fromSeqNum)) rest)
      else Inr bytes)"

definition xq_checkRexmitQueueForSackedOrRexmittedSegments :: "u32 \<Rightarrow> rexmit_queue \<Rightarrow> u32 result" where
  "xq_checkRexmitQueueForSackedOrRexmittedSegments fromSeqNum q =
     bindE (assertE (seqLE (xq_begin q) fromSeqNum \<and> seqLE fromSeqNum (xq_end q))) (\<lambda>_.
     if xq_regions q = [] \<or> xq_end q = fromSeqNum then Inr 0
     else rx_forward fromSeqNum 0 (snd (rx_seek fromSeqNum (xq_regions q))))"

definition xq_resetSackedBit :: "rexmit_queue \<Rightarrow> rexmit_queue" where
  "xq_resetSackedBit q = q\<lparr>xq_regions := map (\<lambda>i. i\<lparr>rx_sacked := False\<rparr>) (xq_regions q)\<rparr>"

definition xq_resetRexmittedBit :: "rexmit_queue \<Rightarrow> rexmit_queue" where
  "xq_resetRexmittedBit q = q\<lparr>xq_regions := map (\<lambda>i. i\<lparr>rx_rexmitted := False\<rparr>) (xq_regions q)\<rparr>"

definition xq_getTotalAmountOfSackedBytes :: "rexmit_queue \<Rightarrow> u32" where
  "xq_getTotalAmountOfSackedBytes q =
     fold (\<lambda>i bytes. if rx_sacked i then bytes + (rx_end i - rx_begin i) else bytes) (xq_regions q) 0"

text \<open>This one walks from the back.\<close>

definition xq_getAmountOfSackedBytes :: "u32 \<Rightarrow> rexmit_queue \<Rightarrow> u32 result" where
  "xq_getAmountOfSackedBytes fromSeqNum q =
     bindE (assertE (seqLE (xq_begin q) fromSeqNum \<and> seqLE fromSeqNum (xq_end q))) (\<lambda>_.
     let bk = rev (xq_regions q); P = (\<lambda>i. seqLE fromSeqNum (rx_begin i));
         bytes = fold (\<lambda>i bytes. if rx_sacked i then bytes + (rx_end i - rx_begin i) else bytes) (takeWhile P bk) 0
     in Inr (case dropWhile P bk of
               [] \<Rightarrow> bytes
             | i # _ \<Rightarrow> if seqLess (rx_begin i) fromSeqNum \<and> seqLess fromSeqNum (rx_end i) \<and> rx_sacked i
                       then bytes + (rx_end i - fromSeqNum) else bytes))"

definition xq_getNumOfDiscontiguousSacks :: "u32 \<Rightarrow> rexmit_queue \<Rightarrow> u32 result" where
  "xq_getNumOfDiscontiguousSacks fromSeqNum q =
     bindE (assertE (seqLE (xq_begin q) fromSeqNum \<and> seqLE fromSeqNum (xq_end q))) (\<lambda>_.
     if xq_regions q = [] \<or> fromSeqNum = xq_end q then Inr 0
     else Inr (fst (fold (\<lambda>i (counter, prevSacked).
                 (if rx_sacked i \<and> \<not> prevSacked then counter + 1 else counter, rx_sacked i))
               (snd (rx_seek fromSeqNum (xq_regions q))) (0, False))))"

definition xq_checkSackBlock :: "u32 \<Rightarrow> rexmit_queue \<Rightarrow> (u32 \<times> bool \<times> bool) result" where
  "xq_checkSackBlock fromSeqNum q =
     bindE (assertE (seqLE (xq_begin q) fromSeqNum \<and> seqLess fromSeqNum (xq_end q))) (\<lambda>_.
     bindE (rx_region_at fromSeqNum q) (\<lambda>i.
       Inr (rx_end i - fromSeqNum, rx_sacked i, rx_rexmitted i)))"

section \<open>Chains of regions\<close>

text \<open>
  A chain runs from one sequence number to another without a gap.  \<open>rx_set\<close> is the set of the
  offsets (from the base \<open>w\<close>) whose region has a property.
\<close>

fun chain :: "u32 \<Rightarrow> u32 \<Rightarrow> rx_region list \<Rightarrow> u32 \<Rightarrow> bool" where
  "chain w b [] e = (b = e)"
| "chain w b (r # rs) e = (rx_begin r = b \<and> near w (rx_end r) \<and> off w b < off w (rx_end r) \<and> chain w (rx_end r) rs e)"

definition rx_span :: "u32 \<Rightarrow> rx_region \<Rightarrow> nat set" where
  "rx_span w r = {off w (rx_begin r)..<off w (rx_end r)}"

definition rx_set :: "u32 \<Rightarrow> (rx_region \<Rightarrow> bool) \<Rightarrow> rx_region list \<Rightarrow> nat set" where
  "rx_set w P rs = (\<Union>r \<in> {r \<in> set rs. P r}. rx_span w r)"

lemma rx_set_simps [simp]:
  "rx_set w P [] = {}"
  "rx_set w P (r # rs) = (if P r then rx_span w r else {}) \<union> rx_set w P rs"
  "rx_set w P (rs @ ss) = rx_set w P rs \<union> rx_set w P ss"
  by (auto simp: rx_set_def)

lemma finite_rx_set [simp]: "finite (rx_set w P rs)"
  by (simp add: rx_set_def rx_span_def)

lemma chain_append: "chain w b (rs @ ss) e \<longleftrightarrow> (\<exists>m. chain w b rs m \<and> chain w m ss e)"
  by (induction rs arbitrary: b) auto

lemma chain_le: "chain w b rs e \<Longrightarrow> off w b \<le> off w e"
  by (induction rs arbitrary: b) force+

lemma chain_less: "chain w b (r # rs) e \<Longrightarrow> off w b < off w e"
  using chain_le[of w "rx_end r" rs e] by simp

lemma chain_near: "chain w b rs e \<Longrightarrow> near w b \<Longrightarrow> near w e"
  by (induction rs arbitrary: b) auto

lemma chain_last: "chain w b rs e \<Longrightarrow> rs \<noteq> [] \<Longrightarrow> rx_end (last rs) = e \<and> rx_begin (hd rs) = b"
  by (induction rs arbitrary: b) (auto split: if_splits)

lemma chain_set: "chain w b rs e \<Longrightarrow> rx_set w P rs \<subseteq> {off w b..<off w e}"
proof (induction rs arbitrary: b)
  case (Cons r rs)
  have t: "chain w (rx_end r) rs e" and r: "rx_begin r = b" "off w b < off w (rx_end r)"
    using Cons.prems by simp_all
  show ?case using Cons.IH[OF t] chain_le[OF t] r by (auto simp: rx_span_def)
qed simp

lemma chain_region:
  "chain w b rs e \<Longrightarrow> near w b \<Longrightarrow> r \<in> set rs \<Longrightarrow>
     near w (rx_begin r) \<and> near w (rx_end r) \<and> off w (rx_begin r) < off w (rx_end r) \<and>
     off w b \<le> off w (rx_begin r) \<and> off w (rx_end r) \<le> off w e"
proof (induction rs arbitrary: b)
  case (Cons s rs)
  have t: "chain w (rx_end s) rs e" "near w (rx_end s)" using Cons.prems by simp_all
  show ?case using Cons.IH[OF t] Cons.prems chain_le[OF t(1)] by (auto simp: near_def)
qed simp

text \<open>All regions of a chain have the property: then the set is the whole interval.\<close>

lemma chain_all: "chain w b rs e \<Longrightarrow> \<forall>r \<in> set rs. P r \<Longrightarrow> rx_set w P rs = {off w b..<off w e}"
proof (induction rs arbitrary: b)
  case (Cons r rs)
  have t: "chain w (rx_end r) rs e" "\<forall>r \<in> set rs. P r" using Cons.prems by simp_all
  show ?case using Cons.IH[OF t] Cons.prems chain_le[OF t(1)] by (auto simp: rx_span_def)
qed simp

lemma rx_set_map:
  "(\<And>i. rx_begin (f i) = rx_begin i) \<Longrightarrow> (\<And>i. rx_end (f i) = rx_end i) \<Longrightarrow>
     rx_set w P (map f rs) = rx_set w (P \<circ> f) rs"
  by (induction rs) (auto simp: rx_span_def)

lemma chain_map:
  "(\<And>i. rx_begin (f i) = rx_begin i) \<Longrightarrow> (\<And>i. rx_end (f i) = rx_end i) \<Longrightarrow>
     chain w b (map f rs) e = chain w b rs e"
  by (induction rs arbitrary: b) auto

lemma check_fold_False: "snd (fold (\<lambda>i (b, f). (rx_end i, f \<and> b = rx_begin i \<and> seqLess (rx_begin i) (rx_end i))) rs (b, False)) = False"
  by (induction rs arbitrary: b) auto

text \<open>The test of the code is exactly that the regions form a chain.\<close>

lemma chain_check:
  assumes "chain w b rs e" "near w b"
  shows "fold (\<lambda>i (b, f). (rx_end i, f \<and> b = rx_begin i \<and> seqLess (rx_begin i) (rx_end i))) rs (b, True) = (e, True)"
  using assms
proof (induction rs arbitrary: b)
  case (Cons r rs)
  have t: "chain w (rx_end r) rs e" "near w (rx_end r)" using Cons.prems by simp_all
  have "seqLess (rx_begin r) (rx_end r)" using Cons.prems seq_near(1)[of w "rx_begin r" "rx_end r"] by simp
  then show ?case using Cons.IH[OF t] Cons.prems by simp
qed simp

text \<open>The search cuts a chain where the sequence number lies.\<close>

lemma rx_seek_chain:
  assumes "chain w b rs e" "near w b" "near w x" "off w b \<le> off w x" "off w x < off w e"
  shows "\<exists>before i rest. rx_seek x rs = (before, i # rest) \<and> rs = before @ i # rest \<and>
    chain w b before (rx_begin i) \<and> chain w (rx_begin i) (i # rest) e \<and> near w (rx_begin i) \<and>
    off w (rx_begin i) \<le> off w x \<and> off w x < off w (rx_end i)"
  using assms
proof (induction rs arbitrary: b)
  case (Cons r rs)
  have t: "chain w (rx_end r) rs e" "near w (rx_end r)" and r: "rx_begin r = b" "off w b < off w (rx_end r)"
    using Cons.prems by simp_all
  have le: "seqLE (rx_end r) x \<longleftrightarrow> off w (rx_end r) \<le> off w x" by (rule seq_near(2)[OF t(2) Cons.prems(3)])
  show ?case
  proof (cases "off w (rx_end r) \<le> off w x")
    case True
    from Cons.IH[OF t Cons.prems(3) True Cons.prems(5)] obtain before i rest where
      ih: "rx_seek x rs = (before, i # rest)" "rs = before @ i # rest" "chain w (rx_end r) before (rx_begin i)"
        "chain w (rx_begin i) (i # rest) e" "near w (rx_begin i)" "off w (rx_begin i) \<le> off w x" "off w x < off w (rx_end i)"
      by blast
    have "rx_seek x (r # rs) = (r # before, i # rest)" using ih(1) True le by (simp add: rx_seek_def)
    moreover have "chain w b (r # before) (rx_begin i)" using ih(3) r t(2) by simp
    ultimately show ?thesis using ih by (intro exI[of _ "r # before"] exI[of _ i] exI[of _ rest]) auto
  next
    case False
    then have "rx_seek x (r # rs) = ([], r # rs)" using le by (simp add: rx_seek_def)
    then show ?thesis using Cons.prems r False by (intro exI[of _ "[]"] exI[of _ r] exI[of _ rs]) auto
  qed
qed simp

lemma rx_seek_all:
  assumes "chain w b rs e" "near w b" "near w x" "off w e \<le> off w x"
  shows "rx_seek x rs = (rs, [])"
proof -
  have "seqLE (rx_end r) x" if "r \<in> set rs" for r
    using chain_region[OF assms(1,2) that] assms(3,4) seq_near(2)[of w "rx_end r" x] by simp
  then show ?thesis by (simp add: rx_seek_def)
qed

section \<open>The queue as two sets\<close>

definition xq_ok :: "u32 \<Rightarrow> rexmit_queue \<Rightarrow> bool" where
  "xq_ok w q \<longleftrightarrow> near w (xq_begin q) \<and> chain w (xq_begin q) (xq_regions q) (xq_end q)"

definition sacked_set :: "u32 \<Rightarrow> rexmit_queue \<Rightarrow> nat set" where
  "sacked_set w q = rx_set w rx_sacked (xq_regions q)"

definition rexmitted_set :: "u32 \<Rightarrow> rexmit_queue \<Rightarrow> nat set" where
  "rexmitted_set w q = rx_set w rx_rexmitted (xq_regions q)"

definition bit_of :: "(rx_region \<Rightarrow> bool) \<Rightarrow> bool" where
  "bit_of P \<longleftrightarrow> P = rx_sacked \<or> P = rx_rexmitted"

lemma xq_ok_check: "xq_ok w q \<Longrightarrow> xq_checkQueue q"
  using chain_check[of w "xq_begin q" "xq_regions q" "xq_end q"] by (simp add: xq_ok_def xq_checkQueue_def)

lemma xq_ok_near: "xq_ok w q \<Longrightarrow> near w (xq_begin q) \<and> near w (xq_end q) \<and> off w (xq_begin q) \<le> off w (xq_end q)"
  using chain_near chain_le by (auto simp: xq_ok_def)

lemma xq_ok_empty: "xq_ok w q \<Longrightarrow> off w (xq_begin q) < off w (xq_end q) \<Longrightarrow> xq_regions q \<noteq> []"
  by (auto simp: xq_ok_def)

lemma rx_chunk_chain:
  assumes "chain w b before (rx_begin i)" "chain w (rx_begin i) (i # rest) e" "near w x"
    and "off w (rx_begin i) \<le> off w x" "off w x < off w (rx_end i)"
  shows "\<exists>before' i'. rx_chunk x before i rest = (before', i' # rest) \<and> chain w b before' x \<and> chain w x (i' # rest) e \<and>
    (\<forall>P. bit_of P \<longrightarrow> rx_set w P before' \<union> rx_set w P (i' # rest) = rx_set w P before \<union> rx_set w P (i # rest))"
proof (cases "rx_begin i = x")
  case True
  then show ?thesis using assms by (intro exI[of _ before] exI[of _ i]) (simp add: rx_chunk_def)
next
  case False
  then have lt: "off w (rx_begin i) < off w x" using assms(4) off_inj[of w "rx_begin i" x] by simp
  let ?a = "i\<lparr>rx_end := x\<rparr>" and ?b = "i\<lparr>rx_begin := x\<rparr>"
  have run: "rx_chunk x before i rest = (before @ [?a], ?b # rest)" using False by (simp add: rx_chunk_def)
  have c1: "chain w b (before @ [?a]) x" using assms(1,3) lt by (auto simp: chain_append)
  have c2: "chain w x (?b # rest) e" using assms(2,5) by simp
  have sets: "rx_set w P (before @ [?a]) \<union> rx_set w P (?b # rest) = rx_set w P before \<union> rx_set w P (i # rest)"
    if P: "bit_of P" for P
  proof -
    have "P ?a = P i" "P ?b = P i" using P by (auto simp: bit_of_def)
    moreover have "rx_span w ?a \<union> rx_span w ?b = rx_span w i" using assms(4,5) by (auto simp: rx_span_def)
    ultimately show ?thesis by auto
  qed
  show ?thesis
    by (rule exI[of _ "before @ [?a]"], rule exI[of _ ?b], intro conjI run c1 c2) (use sets in blast)
qed

lemma rx_sack_tail_ok:
  assumes c: "chain w x rs e" and n: "near w x" "near w y" and xy: "off w x < off w y" "off w y \<le> off w e"
  shows "chain w x (rx_sack_tail x y rs) e \<and>
    rx_set w rx_sacked (rx_sack_tail x y rs) = rx_set w rx_sacked rs \<union> {off w x..<off w y} \<and>
    rx_set w rx_rexmitted (rx_sack_tail x y rs) = rx_set w rx_rexmitted rs"
proof -
  let ?f = "\<lambda>i. if seqGE (rx_begin i) x then i\<lparr>rx_sacked := True\<rparr> else i"
  have f: "rx_begin (?f i) = rx_begin i" "rx_end (?f i) = rx_end i" "rx_rexmitted (?f i) = rx_rexmitted i" for i by simp_all
  have whole: "chain w x (map ?f us) m \<and> rx_set w rx_sacked (map ?f us) = {off w x..<off w m} \<and>
      rx_set w rx_rexmitted (map ?f us) = rx_set w rx_rexmitted us" if us: "chain w x us m" for us m
  proof -
    have cm: "chain w x (map ?f us) m" using us chain_map[of ?f w x us m] f by simp
    have "\<forall>r \<in> set (map ?f us). rx_sacked r"
      using chain_region[OF us n(1)] n(1) by (auto simp: seq_near(4)[where w = w])
    moreover have "rx_set w rx_rexmitted (map ?f us) = rx_set w rx_rexmitted us"
      using rx_set_map[of ?f w rx_rexmitted us] f by (simp add: comp_def)
    ultimately show ?thesis using chain_all[OF cm] cm by blast
  qed
  show ?thesis
  proof (cases "off w y = off w e")
    case True
    have "rx_sack_tail x y rs = map ?f rs" using rx_seek_all[OF c n] True by (simp add: rx_sack_tail_def)
    then show ?thesis using whole[OF c] chain_set[OF c, of rx_sacked] True by auto
  next
    case False
    then have "off w y < off w e" using xy(2) by simp
    from rx_seek_chain[OF c n(1,2) less_imp_le[OF xy(1)] this] obtain before i rest where
      s: "rx_seek y rs = (before, i # rest)" "rs = before @ i # rest" "chain w x before (rx_begin i)"
        "chain w (rx_begin i) (i # rest) e" "near w (rx_begin i)" "off w (rx_begin i) \<le> off w y" "off w y < off w (rx_end i)"
      by blast
    have ne: "near w (rx_end i)" using s(4) by simp
    have sub: "rx_set w rx_sacked before \<subseteq> {off w x..<off w (rx_begin i)}" by (rule chain_set[OF s(3)])
    have xb: "off w x \<le> off w (rx_begin i)" by (rule chain_le[OF s(3)])
    note cmp = seq_near(1)[OF s(5) n(2)] seq_near(1)[OF n(2) ne]
    show ?thesis
    proof (cases "off w (rx_begin i) < off w y")
      case True
      then have run: "rx_sack_tail x y rs = map ?f before @ i\<lparr>rx_end := y, rx_sacked := True\<rparr> # i\<lparr>rx_begin := y\<rparr> # rest"
        using s(1,7) cmp by (simp add: rx_sack_tail_def)
      have "chain w x (rx_sack_tail x y rs) e"
        unfolding run using whole[OF s(3)] s(4,7) n(2) True by (auto simp: chain_append)
      moreover have "rx_set w rx_rexmitted (rx_sack_tail x y rs) = rx_set w rx_rexmitted rs"
        unfolding run using whole[OF s(3)] s(2,6,7) by (auto simp: rx_span_def)
      moreover have "rx_set w rx_sacked (rx_sack_tail x y rs) = rx_set w rx_sacked rs \<union> {off w x..<off w y}"
      proof -
        have "rx_set w rx_sacked (rx_sack_tail x y rs) =
            {off w x..<off w (rx_begin i)} \<union> {off w (rx_begin i)..<off w y} \<union>
            (if rx_sacked i then {off w y..<off w (rx_end i)} else {}) \<union> rx_set w rx_sacked rest"
          unfolding run using whole[OF s(3)] by (auto simp: rx_span_def)
        moreover have "{off w x..<off w (rx_begin i)} \<union> {off w (rx_begin i)..<off w y} = {off w x..<off w y}"
          using xb True by auto
        moreover have "rx_set w rx_sacked rs = rx_set w rx_sacked before \<union>
            (if rx_sacked i then {off w (rx_begin i)..<off w (rx_end i)} else {}) \<union> rx_set w rx_sacked rest"
          unfolding s(2) by (auto simp: rx_span_def)
        ultimately show ?thesis using sub xb True s(7) by (auto split: if_splits)
      qed
      ultimately show ?thesis by blast
    next
      case False
      then have eq: "rx_begin i = y" using s(6) off_inj[of w "rx_begin i" y] by simp
      have run: "rx_sack_tail x y rs = map ?f before @ i # rest"
        using s(1) False cmp by (simp add: rx_sack_tail_def)
      show ?thesis
        unfolding run using whole[OF s(3)] s(2,4) sub eq by (auto simp: chain_append)
    qed
  qed
qed

text \<open>
  Setting the sacked bits: for a range that overlaps the queue, begins anywhere and ends within it,
  no assertion fails, and exactly the given sequence numbers are added.
\<close>

lemma xq_setSackedBit_ok:
  assumes q: "xq_ok w q" and n: "near w x" "near w y"
    and xy: "off w x < off w y" "off w (xq_begin q) < off w y" "off w y \<le> off w (xq_end q)"
  shows "\<exists>q'. xq_setSackedBit x y q = Inr q' \<and> xq_ok w q' \<and> xq_begin q' = xq_begin q \<and> xq_end q' = xq_end q \<and>
    sacked_set w q' = sacked_set w q \<union> {max (off w x) (off w (xq_begin q))..<off w y} \<and>
    rexmitted_set w q' = rexmitted_set w q"
proof -
  let ?b = "xq_begin q" and ?e = "xq_end q"
  have nb: "near w ?b" "near w ?e" and c: "chain w ?b (xq_regions q) ?e"
    using q xq_ok_near by (auto simp: xq_ok_def)
  define f where "f = (if seqLess x ?b then ?b else x)"
  have nf: "near w f" using n nb by (simp add: f_def)
  have offf: "off w f = max (off w x) (off w ?b)" using seq_near(1)[OF n(1) nb(1)] by (auto simp: f_def max_def)
  have bf: "off w ?b \<le> off w f" and fy: "off w f < off w y" and fe: "off w f < off w ?e"
    using offf xy by auto
  have ne: "xq_regions q \<noteq> []" using c xy by auto
  from rx_seek_chain[OF c nb(1) nf bf fe] obtain before i rest where
    s: "rx_seek f (xq_regions q) = (before, i # rest)" "xq_regions q = before @ i # rest"
      "chain w ?b before (rx_begin i)" "chain w (rx_begin i) (i # rest) ?e" "near w (rx_begin i)"
      "off w (rx_begin i) \<le> off w f" "off w f < off w (rx_end i)"
    by blast
  have nei: "near w (rx_end i)" using s(4) by simp
  from rx_chunk_chain[OF s(3,4) nf s(6,7)] obtain before' i' where
    k: "rx_chunk f before i rest = (before', i' # rest)" "chain w ?b before' f" "chain w f (i' # rest) ?e"
      and sets: "\<And>P. bit_of P \<Longrightarrow> rx_set w P before' \<union> rx_set w P (i' # rest) = rx_set w P before \<union> rx_set w P (i # rest)"
    by blast
  note t = rx_sack_tail_ok[OF k(3) nf n(2) fy xy(3)]
  let ?q' = "q\<lparr>xq_regions := before' @ rx_sack_tail f y (i' # rest)\<rparr>"
  have ok: "xq_ok w ?q'" using nb(1) k(2) t by (auto simp: xq_ok_def chain_append)
  have run: "xq_setSackedBit x y q = Inr ?q'"
    using s(1) k(1) ne fe fy xy(2,3) s(6,7) xq_ok_check[OF ok]
    by (simp add: xq_setSackedBit_def f_def[symmetric] Let_def seq_near[OF nf nb(2)] seq_near[OF nb(1) n(2)]
        seq_near[OF n(2) nb(2)] seq_near[OF nf n(2)] seq_near[OF s(5) nf] seq_near[OF nf nei])
  have "sacked_set w ?q' = sacked_set w q \<union> {off w f..<off w y}"
    using t sets[of rx_sacked] s(2) by (simp add: sacked_set_def bit_of_def del: rx_set_simps(2)) blast
  moreover have "rexmitted_set w ?q' = rexmitted_set w q"
    using t sets[of rx_rexmitted] s(2) by (simp add: rexmitted_set_def bit_of_def del: rx_set_simps(2))
  ultimately show ?thesis using run ok offf by simp
qed

lemma xq_discardUpTo_ok:
  assumes q: "xq_ok w q" and n: "near w x" and bx: "off w (xq_begin q) \<le> off w x" "off w x \<le> off w (xq_end q)"
  shows "\<exists>q'. xq_discardUpTo x q = Inr q' \<and> xq_ok w q' \<and> xq_begin q' = x \<and> xq_end q' = xq_end q \<and>
    sacked_set w q' = sacked_set w q - {..<off w x} \<and> rexmitted_set w q' = rexmitted_set w q - {..<off w x}"
proof -
  let ?b = "xq_begin q" and ?e = "xq_end q"
  have nb: "near w ?b" "near w ?e" and c: "chain w ?b (xq_regions q) ?e"
    using q xq_ok_near by (auto simp: xq_ok_def)
  note cmp = seq_near(2)[OF nb(1) n] seq_near(2)[OF n nb(2)]
  show ?thesis
  proof (cases "off w x = off w ?e")
    case True
    let ?q' = "q\<lparr>xq_regions := [], xq_begin := x\<rparr>"
    have sk: "rx_seek x (xq_regions q) = (xq_regions q, [])" using rx_seek_all[OF c nb(1) n] True by simp
    have ok: "xq_ok w ?q'" using n True off_inj[of w x ?e] by (simp add: xq_ok_def)
    have "xq_discardUpTo x q = Inr ?q'"
      using sk cmp bx xq_ok_check[OF ok] by (simp add: xq_discardUpTo_def Let_def)
    then show ?thesis
      using ok chain_set[OF c, of rx_sacked] chain_set[OF c, of rx_rexmitted] True
      by (auto simp: sacked_set_def rexmitted_set_def)
  next
    case False
    then have "off w x < off w ?e" using bx by simp
    from rx_seek_chain[OF c nb(1) n bx(1) this] obtain before i rest where
      s: "rx_seek x (xq_regions q) = (before, i # rest)" "xq_regions q = before @ i # rest"
        "chain w ?b before (rx_begin i)" "chain w (rx_begin i) (i # rest) ?e" "near w (rx_begin i)"
        "off w (rx_begin i) \<le> off w x" "off w x < off w (rx_end i)"
      by blast
    have ne: "near w (rx_end i)" and tl: "chain w (rx_end i) rest ?e" using s(4) by simp_all
    let ?i' = "i\<lparr>rx_begin := x\<rparr>"
    let ?q' = "q\<lparr>xq_regions := ?i' # rest, xq_begin := x\<rparr>"
    have ok: "xq_ok w ?q'" using n s(7) tl ne by (simp add: xq_ok_def)
    have run: "xq_discardUpTo x q = Inr ?q'"
      using s(1,6,7) cmp bx xq_ok_check[OF ok] seq_near(2)[OF s(5) n] seq_near(1)[OF n ne]
      by (simp add: xq_discardUpTo_def Let_def)
    have sets: "rx_set w P (?i' # rest) = rx_set w P (xq_regions q) - {..<off w x}" if P: "bit_of P" for P
    proof -
      have "P ?i' = P i" using P by (auto simp: bit_of_def)
      moreover have "rx_set w P before \<subseteq> {..<off w x}" using chain_set[OF s(3), of P] s(6) by auto
      moreover have "rx_set w P rest \<inter> {..<off w x} = {}" using chain_set[OF tl, of P] s(7) by fastforce
      moreover have "rx_span w ?i' = rx_span w i - {..<off w x}" using s(6) by (auto simp: rx_span_def)
      ultimately show ?thesis unfolding s(2) by auto
    qed
    then show ?thesis using run ok by (simp add: sacked_set_def rexmitted_set_def bit_of_def del: rx_set_simps(2))
  qed
qed

lemma rx_enqueue_tail_ok:
  assumes c: "chain w x rs e" and n: "near w x" "near w y" and xy: "off w x < off w y" "off w x < off w e"
  shows "\<exists>out. rx_enqueue_tail x y rs = Inr out \<and> chain w x out (if off w e < off w y then y else e) \<and>
    rx_set w rx_sacked out = rx_set w rx_sacked rs \<and>
    rx_set w rx_rexmitted out = rx_set w rx_rexmitted rs \<union> {off w x..<min (off w y) (off w e)}"
proof -
  let ?f = "\<lambda>i. i\<lparr>rx_rexmitted := True\<rparr>"
  have whole: "chain w x (map ?f us) m \<and> rx_set w rx_rexmitted (map ?f us) = {off w x..<off w m} \<and>
      rx_set w rx_sacked (map ?f us) = rx_set w rx_sacked us" if us: "chain w x us m" for us m
  proof -
    have cm: "chain w x (map ?f us) m" using us chain_map[of ?f w x us m] by simp
    have "rx_set w rx_sacked (map ?f us) = rx_set w rx_sacked us"
      using rx_set_map[of ?f w rx_sacked us] by (simp add: comp_def)
    then show ?thesis using chain_all[OF cm] cm by simp
  qed
  have ne: "rs \<noteq> []" using c xy by auto
  show ?thesis
  proof (cases "off w e \<le> off w y")
    case True
    have sk: "rx_seek y rs = (rs, [])" by (rule rx_seek_all[OF c n True])
    have lst: "rx_end (last rs) = e" using chain_last[OF c ne] by simp
    have sub: "rx_set w rx_rexmitted rs \<subseteq> {off w x..<off w e}" by (rule chain_set[OF c])
    show ?thesis
    proof (cases "e = y")
      case True
      then have "rx_enqueue_tail x y rs = Inr (map ?f rs)" using sk lst ne by (simp add: rx_enqueue_tail_def Let_def)
      then show ?thesis using whole[OF c] sub True by auto
    next
      case False
      let ?r = "\<lparr>rx_begin = e, rx_end = y, rx_sacked = False, rx_rexmitted = False\<rparr>"
      have lt: "off w e < off w y" using True False off_inj[of w e y] by simp
      have "rx_enqueue_tail x y rs = Inr (map ?f rs @ [?r])"
        using sk lst ne False by (simp add: rx_enqueue_tail_def Let_def)
      moreover have "chain w x (map ?f rs @ [?r]) y" using whole[OF c] lt n(2) by (auto simp: chain_append)
      ultimately show ?thesis using whole[OF c] sub lt by auto
    qed
  next
    case False
    then have "off w y < off w e" by simp
    from rx_seek_chain[OF c n less_imp_le[OF xy(1)] this] obtain before i rest where
      s: "rx_seek y rs = (before, i # rest)" "rs = before @ i # rest" "chain w x before (rx_begin i)"
        "chain w (rx_begin i) (i # rest) e" "near w (rx_begin i)" "off w (rx_begin i) \<le> off w y" "off w y < off w (rx_end i)"
      by blast
    have from1: "(if before = [] then x else rx_end (last before)) = rx_begin i"
      using chain_last[OF s(3)] s(3) by auto
    have sub: "rx_set w rx_rexmitted before \<subseteq> {off w x..<off w (rx_begin i)}" by (rule chain_set[OF s(3)])
    have xb: "off w x \<le> off w (rx_begin i)" by (rule chain_le[OF s(3)])
    show ?thesis
    proof (cases "rx_begin i = y")
      case True
      then have bne: "before \<noteq> []" using s(3) xy(1) by auto
      have "rx_enqueue_tail x y rs = Inr (map ?f before @ i # rest)"
        using s(1) from1 True bne by (simp add: rx_enqueue_tail_def Let_def)
      moreover have "chain w x (map ?f before @ i # rest) e" using whole[OF s(3)] s(4) by (auto simp: chain_append)
      ultimately show ?thesis using whole[OF s(3)] s(2) sub True False by auto
    next
      case bi: False
      then have lt: "off w (rx_begin i) < off w y" using s(6) off_inj[of w "rx_begin i" y] by simp
      let ?r = "\<lparr>rx_begin = rx_begin i, rx_end = y, rx_sacked = rx_sacked i, rx_rexmitted = True\<rparr>"
      have run: "rx_enqueue_tail x y rs = Inr (map ?f before @ ?r # i\<lparr>rx_begin := y\<rparr> # rest)"
        using s(1) from1 bi seq_near(1)[OF s(5) n(2)] lt by (simp add: rx_enqueue_tail_def Let_def)
      have ch: "chain w x (map ?f before @ ?r # i\<lparr>rx_begin := y\<rparr> # rest) e"
        using whole[OF s(3)] s(4,7) lt n(2) by (auto simp: chain_append)
      have sk: "rx_set w rx_sacked (map ?f before @ ?r # i\<lparr>rx_begin := y\<rparr> # rest) = rx_set w rx_sacked rs"
        using whole[OF s(3)] s(2,6,7) by (auto simp: rx_span_def)
      have rx: "rx_set w rx_rexmitted (map ?f before @ ?r # i\<lparr>rx_begin := y\<rparr> # rest) =
          {off w x..<off w (rx_begin i)} \<union> {off w (rx_begin i)..<off w y} \<union>
          (if rx_rexmitted i then {off w y..<off w (rx_end i)} else {}) \<union> rx_set w rx_rexmitted rest"
        using whole[OF s(3)] by (auto simp: rx_span_def)
      have join: "{off w x..<off w (rx_begin i)} \<union> {off w (rx_begin i)..<off w y} = {off w x..<off w y}"
        using xb lt by auto
      have old: "rx_set w rx_rexmitted rs = rx_set w rx_rexmitted before \<union>
          (if rx_rexmitted i then {off w (rx_begin i)..<off w (rx_end i)} else {}) \<union> rx_set w rx_rexmitted rest"
        unfolding s(2) by (auto simp: rx_span_def)
      have "rx_set w rx_rexmitted (map ?f before @ ?r # i\<lparr>rx_begin := y\<rparr> # rest) =
          rx_set w rx_rexmitted rs \<union> {off w x..<off w y}"
        unfolding rx join old using sub xb lt s(7) by (auto split: if_splits)
      then show ?thesis using run ch sk False by (auto simp: min_def)
    qed
  qed
qed

text \<open>
  Recording sent data: the queue grows to the end of the data, what of it was queued before is
  marked as retransmitted, nothing is marked as acknowledged, and no assertion fails.
\<close>

lemma xq_enqueueSentData_ok:
  assumes q: "xq_ok w q" and n: "near w x" "near w y"
    and bx: "off w (xq_begin q) \<le> off w x" "off w x \<le> off w (xq_end q)" and xy: "off w x < off w y"
  shows "\<exists>q'. xq_enqueueSentData x y q = Inr q' \<and> xq_ok w q' \<and> xq_begin q' = xq_begin q \<and>
    off w (xq_end q') = max (off w (xq_end q)) (off w y) \<and> sacked_set w q' = sacked_set w q \<and>
    rexmitted_set w q' = rexmitted_set w q \<union> {off w x..<min (off w y) (off w (xq_end q))}"
proof -
  let ?b = "xq_begin q" and ?e = "xq_end q"
  have nb: "near w ?b" "near w ?e" and c: "chain w ?b (xq_regions q) ?e"
    using q xq_ok_near by (auto simp: xq_ok_def)
  note cmp = seq_near(2)[OF nb(1) n(1)] seq_near(2)[OF n(1) nb(2)] seq_near(1)[OF n]
  have finish: ?thesis
    if pre: "xq_enqueueSentData x y q = (let q' = q\<lparr>xq_regions := rs, xq_begin := rx_begin (hd rs), xq_end := rx_end (last rs)\<rparr>
        in bindE (assertE (xq_checkQueue q')) (\<lambda>_. Inr q'))"
      and ch: "chain w ?b rs e'" and e': "off w e' = max (off w ?e) (off w y)" and ne: "rs \<noteq> []"
      and sk: "rx_set w rx_sacked rs = rx_set w rx_sacked (xq_regions q)"
      and rx: "rx_set w rx_rexmitted rs = rx_set w rx_rexmitted (xq_regions q) \<union> {off w x..<min (off w y) (off w ?e)}"
    for rs e'
  proof -
    let ?q' = "q\<lparr>xq_regions := rs, xq_begin := rx_begin (hd rs), xq_end := rx_end (last rs)\<rparr>"
    have hl: "rx_begin (hd rs) = ?b" "rx_end (last rs) = e'" using chain_last[OF ch ne] by simp_all
    have ok: "xq_ok w ?q'" using nb(1) ch hl by (simp add: xq_ok_def)
    have "xq_enqueueSentData x y q = Inr ?q'" unfolding pre using xq_ok_check[OF ok] by (simp add: Let_def)
    then show ?thesis using ok hl e' sk rx by (simp add: sacked_set_def rexmitted_set_def)
  qed
  show ?thesis
  proof (cases "xq_end q = x")
    case True
    let ?r = "\<lparr>rx_begin = x, rx_end = y, rx_sacked = False, rx_rexmitted = False\<rparr>"
    have "chain w ?b (xq_regions q @ [?r]) y" using c True xy n(2) by (auto simp: chain_append)
    then show ?thesis
      by (rule finish[rotated]) (use True cmp bx xy in \<open>simp_all add: xq_enqueueSentData_def\<close>)
  next
    case False
    then have xe: "off w x < off w ?e" using bx(2) off_inj[of w ?e x] by simp
    have ne: "xq_regions q \<noteq> []" using c bx xe by auto
    from rx_seek_chain[OF c nb(1) n(1) bx(1) xe] obtain before i rest where
      s: "rx_seek x (xq_regions q) = (before, i # rest)" "xq_regions q = before @ i # rest"
        "chain w ?b before (rx_begin i)" "chain w (rx_begin i) (i # rest) ?e" "near w (rx_begin i)"
        "off w (rx_begin i) \<le> off w x" "off w x < off w (rx_end i)"
      by blast
    have nei: "near w (rx_end i)" using s(4) by simp
    from rx_chunk_chain[OF s(3,4) n(1) s(6,7)] obtain before' i' where
      k: "rx_chunk x before i rest = (before', i' # rest)" "chain w ?b before' x" "chain w x (i' # rest) ?e"
        and sets: "\<And>P. bit_of P \<Longrightarrow> rx_set w P before' \<union> rx_set w P (i' # rest) = rx_set w P before \<union> rx_set w P (i # rest)"
      by blast
    from rx_enqueue_tail_ok[OF k(3) n xy xe] obtain out where
      t: "rx_enqueue_tail x y (i' # rest) = Inr out" "chain w x out (if off w ?e < off w y then y else ?e)"
        "rx_set w rx_sacked out = rx_set w rx_sacked (i' # rest)"
        "rx_set w rx_rexmitted out = rx_set w rx_rexmitted (i' # rest) \<union> {off w x..<min (off w y) (off w ?e)}"
      by blast
    have one: "out \<noteq> []" using t(2) xe xy by (auto split: if_splits)
    have run: "xq_enqueueSentData x y q = (let q' = q\<lparr>xq_regions := before' @ out, xq_begin := rx_begin (hd (before' @ out)),
          xq_end := rx_end (last (before' @ out))\<rparr> in bindE (assertE (xq_checkQueue q')) (\<lambda>_. Inr q'))"
      using s(1,6,7) k(1) t(1) cmp bx xy False ne seq_near(2)[OF s(5) n(1)] seq_near(1)[OF n(1) nei]
      by (simp add: xq_enqueueSentData_def)
    show ?thesis
    proof (rule finish[OF run])
      show "chain w ?b (before' @ out) (if off w ?e < off w y then y else ?e)" using k(2) t(2) by (auto simp: chain_append)
      show "off w (if off w ?e < off w y then y else ?e) = max (off w ?e) (off w y)" by simp
      show "before' @ out \<noteq> []" using one by simp
      have P: "bit_of rx_sacked" "bit_of rx_rexmitted" by (simp_all add: bit_of_def)
      show "rx_set w rx_sacked (before' @ out) = rx_set w rx_sacked (xq_regions q)"
        using t(3) sets[OF P(1)] s(2) by (simp del: rx_set_simps(2))
      show "rx_set w rx_rexmitted (before' @ out) = rx_set w rx_rexmitted (xq_regions q) \<union> {off w x..<min (off w y) (off w ?e)}"
        using t(4) sets[OF P(2)] s(2) by (simp del: rx_set_simps(2)) blast
    qed
  qed
qed

section \<open>Queries\<close>

lemma rx_region_at_ok:
  assumes q: "xq_ok w q" and n: "near w x" and bx: "off w (xq_begin q) \<le> off w x" "off w x < off w (xq_end q)"
  shows "\<exists>i. rx_region_at x q = Inr i \<and> i \<in> set (xq_regions q) \<and> off w x \<in> rx_span w i \<and> near w (rx_end i) \<and>
    (\<forall>P. off w x \<in> rx_set w P (xq_regions q) \<longleftrightarrow> P i)"
proof -
  have nb: "near w (xq_begin q)" and c: "chain w (xq_begin q) (xq_regions q) (xq_end q)"
    using q by (auto simp: xq_ok_def)
  from rx_seek_chain[OF c nb n bx] obtain before i rest where
    s: "rx_seek x (xq_regions q) = (before, i # rest)" "xq_regions q = before @ i # rest"
      "chain w (xq_begin q) before (rx_begin i)" "chain w (rx_begin i) (i # rest) (xq_end q)" "near w (rx_begin i)"
      "off w (rx_begin i) \<le> off w x" "off w x < off w (rx_end i)"
    by blast
  have nei: "near w (rx_end i)" and tl: "chain w (rx_end i) rest (xq_end q)" using s(4) by simp_all
  have "rx_region_at x q = Inr i"
    using s(1,6,7) seq_near(2)[OF s(5) n] seq_near(1)[OF n nei] by (simp add: rx_region_at_def)
  moreover have "off w x \<in> rx_set w P (xq_regions q) \<longleftrightarrow> P i" for P
    using chain_set[OF s(3), of P] chain_set[OF tl, of P] s(2,6,7) by (auto simp: rx_span_def)
  ultimately show ?thesis using s(2,6,7) nei by (auto simp: rx_span_def)
qed

lemma xq_getSackedBit_ok:
  assumes q: "xq_ok w q" and n: "near w x" and bx: "off w (xq_begin q) \<le> off w x" "off w x \<le> off w (xq_end q)"
  shows "xq_getSackedBit x q = Inr (off w x \<in> sacked_set w q)"
proof -
  have nb: "near w (xq_begin q)" "near w (xq_end q)" using xq_ok_near[OF q] by simp_all
  have c: "chain w (xq_begin q) (xq_regions q) (xq_end q)" using q by (simp add: xq_ok_def)
  show ?thesis
  proof (cases "xq_end q = x")
    case True
    have "off w x \<notin> sacked_set w q" using chain_set[OF c, of rx_sacked] True by (auto simp: sacked_set_def)
    moreover have "seqLE x x" by (simp add: seqLE_def)
    ultimately show ?thesis using True bx seq_near(2)[OF nb] by (simp add: xq_getSackedBit_def)
  next
    case False
    then have "off w x < off w (xq_end q)" using bx(2) off_inj[of w "xq_end q" x] by simp
    from rx_region_at_ok[OF q n bx(1) this] show ?thesis
      using False bx seq_near(2)[OF nb(1) n] seq_near(2)[OF n nb(2)]
      by (auto simp: xq_getSackedBit_def sacked_set_def)
  qed
qed

lemma chain_find_back:
  assumes "chain w b rs e" "near w b"
  shows "case find P (rev rs) of
      Some i \<Rightarrow> rx_set w P rs \<noteq> {} \<and> off w (rx_end i) = Suc (Max (rx_set w P rs))
    | None \<Rightarrow> rx_set w P rs = {}"
  using assms
proof (induction rs arbitrary: e rule: rev_induct)
  case (snoc r rs)
  have c: "chain w b rs (rx_begin r)" and r: "off w (rx_begin r) < off w (rx_end r)"
    using snoc.prems by (auto simp: chain_append)
  show ?case
  proof (cases "P r")
    case True
    have "Max (rx_set w P rs \<union> rx_span w r) = off w (rx_end r) - 1"
    proof (rule Max_eqI)
      show "y \<le> off w (rx_end r) - 1" if "y \<in> rx_set w P rs \<union> rx_span w r" for y
        using that chain_set[OF c, of P] r by (fastforce simp: rx_span_def)
    qed (use r in \<open>auto simp: rx_span_def\<close>)
    then show ?thesis using True r by (auto simp: rx_span_def)
  next
    case False
    then show ?thesis using snoc.IH[OF c snoc.prems(2)] by (simp split: option.splits)
  qed
qed simp

lemma chain_bytes:
  assumes "chain w b rs e" "near w b"
  shows "fold (\<lambda>i bytes. if rx_sacked i then bytes + (rx_end i - rx_begin i) else bytes) rs (k :: u32) =
    k + of_nat (card (rx_set w rx_sacked rs))"
  using assms
proof (induction rs arbitrary: b k)
  case (Cons r rs)
  have t: "chain w (rx_end r) rs e" "near w (rx_end r)" and r: "off w (rx_begin r) < off w (rx_end r)"
    using Cons.prems by simp_all
  have len: "rx_end r - rx_begin r = of_nat (card (rx_span w r))"
  proof -
    have "unat (rx_end r - rx_begin r) = card (rx_span w r)" using r by (simp add: rx_span_def unat_diff_near[of w])
    moreover have "rx_end r - rx_begin r = of_nat (unat (rx_end r - rx_begin r))" by simp
    ultimately show ?thesis by simp
  qed
  have "rx_span w r \<inter> rx_set w rx_sacked rs = {}" using chain_set[OF t(1), of rx_sacked] by (fastforce simp: rx_span_def)
  then have "card (rx_span w r \<union> rx_set w rx_sacked rs) = card (rx_span w r) + card (rx_set w rx_sacked rs)"
    by (simp add: card_Un_disjoint rx_span_def)
  then show ?case using Cons.IH[OF t] len by simp
qed simp

lemma fold_bytes_rev:
  "fold (\<lambda>i bytes. if rx_sacked i then bytes + (rx_end i - rx_begin i) else bytes) (rev rs) (k :: u32) =
   fold (\<lambda>i bytes. if rx_sacked i then bytes + (rx_end i - rx_begin i) else bytes) rs k"
proof (induction rs arbitrary: k)
  case (Cons r rs)
  have add: "fold (\<lambda>i bytes. if rx_sacked i then bytes + (rx_end i - rx_begin i) else bytes) us (k + c) =
      fold (\<lambda>i bytes. if rx_sacked i then bytes + (rx_end i - rx_begin i) else bytes) us k + (c :: u32)" for us k c
  proof (induction us arbitrary: k)
    case (Cons u us)
    have "k + c + (rx_end u - rx_begin u) = (k + (rx_end u - rx_begin u)) + c" by simp
    then show ?case using Cons.IH by (simp only: fold_Cons_rev comp_def fold_simps split: if_split) auto
  qed simp
  show ?case using Cons.IH by (simp add: add)
qed simp

lemma xq_getTotalAmountOfSackedBytes_ok:
  "xq_ok w q \<Longrightarrow> xq_getTotalAmountOfSackedBytes q = of_nat (card (sacked_set w q))"
  using chain_bytes[of w "xq_begin q" "xq_regions q" "xq_end q" 0]
  by (simp add: xq_getTotalAmountOfSackedBytes_def xq_ok_def sacked_set_def)

lemma takeWhile_split: "\<forall>x \<in> set xs. P x \<Longrightarrow> ys = [] \<or> \<not> P (hd ys) \<Longrightarrow>
   takeWhile P (xs @ ys) = xs \<and> dropWhile P (xs @ ys) = ys"
  by (cases ys) auto

lemma xq_getAmountOfSackedBytes_ok:
  assumes q: "xq_ok w q" and n: "near w x" and bx: "off w (xq_begin q) \<le> off w x" "off w x \<le> off w (xq_end q)"
  shows "xq_getAmountOfSackedBytes x q = Inr (of_nat (card (sacked_set w q \<inter> {off w x..})))"
proof -
  let ?b = "xq_begin q" and ?e = "xq_end q" and ?P = "\<lambda>i. seqLE x (rx_begin i)"
  let ?g = "\<lambda>i bytes. if rx_sacked i then bytes + (rx_end i - rx_begin i) else bytes"
  have nb: "near w ?b" "near w ?e" using xq_ok_near[OF q] by simp_all
  have c: "chain w ?b (xq_regions q) ?e" using q by (simp add: xq_ok_def)
  have pre: "seqLE ?b x \<and> seqLE x ?e" using bx seq_near(2)[OF nb(1) n] seq_near(2)[OF n nb(2)] by simp
  have P: "?P i \<longleftrightarrow> off w x \<le> off w (rx_begin i)" if "near w (rx_begin i)" for i by (rule seq_near(2)[OF n that])
  have run: "xq_getAmountOfSackedBytes x q = Inr (case bk of [] \<Rightarrow> fold ?g front 0
      | i # _ \<Rightarrow> if seqLess (rx_begin i) x \<and> seqLess x (rx_end i) \<and> rx_sacked i
                 then fold ?g front 0 + (rx_end i - x) else fold ?g front 0)"
    if "takeWhile ?P (rev (xq_regions q)) = front \<and> dropWhile ?P (rev (xq_regions q)) = bk" for front bk
    by (simp only: xq_getAmountOfSackedBytes_def Let_def that[THEN conjunct1] that[THEN conjunct2] pre simp_thms
        assertE_True bindE_simps)
  text \<open>A region that ends at or before \<open>x\<close> stops the walk and adds nothing.\<close>
  have stop: "xq_getAmountOfSackedBytes x q = Inr (fold ?g front 0)"
    if r: "rev (xq_regions q) = front @ bk" and f: "\<forall>i \<in> set front. ?P i"
      and bkc: "chain w ?b (rev bk) x" for front bk
  proof -
    have h: "\<not> ?P (hd bk) \<and> \<not> seqLess x (rx_end (hd bk))" if ne: "bk \<noteq> []"
    proof -
      have m: "hd bk \<in> set (rev bk)" using ne by simp
      have "rx_end (hd bk) = x" using chain_last[OF bkc] ne by (simp add: last_rev)
      then show ?thesis using chain_region[OF bkc nb(1) m] P[of "hd bk"] by (auto simp: seqLess_def)
    qed
    have "takeWhile ?P (rev (xq_regions q)) = front \<and> dropWhile ?P (rev (xq_regions q)) = bk"
      unfolding r by (rule takeWhile_split[OF f]) (use h in blast)
    from run[OF this] h show ?thesis by (cases bk) auto
  qed
  show ?thesis
  proof (cases "off w x = off w ?e")
    case True
    then have "x = ?e" using off_inj by blast
    moreover have "sacked_set w q \<inter> {off w x..} = {}"
      using chain_set[OF c, of rx_sacked] True by (fastforce simp: sacked_set_def)
    ultimately show ?thesis using stop[of "[]" "rev (xq_regions q)"] c by simp
  next
    case False
    then have "off w x < off w ?e" using bx(2) by simp
    from rx_seek_chain[OF c nb(1) n bx(1) this] obtain before i rest where
      s: "xq_regions q = before @ i # rest"
        "chain w ?b before (rx_begin i)" "chain w (rx_begin i) (i # rest) ?e" "near w (rx_begin i)"
        "off w (rx_begin i) \<le> off w x" "off w x < off w (rx_end i)"
      by blast
    have nei: "near w (rx_end i)" and tl: "chain w (rx_end i) rest ?e" using s(3) by simp_all
    have front: "\<forall>r \<in> set (rev rest). ?P r" using chain_region[OF tl nei] P s(6) by fastforce
    have sub: "rx_set w rx_sacked before \<subseteq> {off w ?b..<off w (rx_begin i)}"
      "rx_set w rx_sacked rest \<subseteq> {off w (rx_end i)..<off w ?e}"
      using chain_set[OF s(2)] chain_set[OF tl] by blast+
    have rest: "fold ?g (rev rest) 0 = of_nat (card (rx_set w rx_sacked rest))"
      using chain_bytes[OF tl nei, of 0] by (simp add: fold_bytes_rev)
    have pieces: "sacked_set w q \<inter> {off w x..} =
        rx_set w rx_sacked rest \<union> (if rx_sacked i then {off w x..<off w (rx_end i)} else {})"
    proof -
      have "rx_set w rx_sacked before \<inter> {off w x..} = {}" using sub(1) s(5) by fastforce
      moreover have "rx_set w rx_sacked rest \<inter> {off w x..} = rx_set w rx_sacked rest" using sub(2) s(6) by fastforce
      moreover have "rx_span w i \<inter> {off w x..} = {off w x..<off w (rx_end i)}" using s(5) by (auto simp: rx_span_def)
      ultimately show ?thesis unfolding sacked_set_def s(1) rx_set_simps Int_Un_distrib2 by auto
    qed
    show ?thesis
    proof (cases "rx_begin i = x")
      case True
      have "sacked_set w q \<inter> {off w x..} = rx_set w rx_sacked (i # rest)"
        unfolding pieces using True by (simp add: rx_span_def Un_commute)
      moreover have "xq_getAmountOfSackedBytes x q = Inr (fold ?g (rev (i # rest)) 0)"
      proof (rule stop)
        show "rev (xq_regions q) = rev (i # rest) @ rev before" unfolding s(1) by simp
        have "?P i" using P[OF s(4)] s(5) True by (simp add: seqLE_def)
        then show "\<forall>j \<in> set (rev (i # rest)). ?P j" using front by simp
        show "chain w ?b (rev (rev before)) x" using s(2) unfolding True by simp
      qed
      ultimately show ?thesis using chain_bytes[OF s(3) s(4), of 0] by (simp only: fold_bytes_rev) simp
    next
      case False
      then have lt: "off w (rx_begin i) < off w x" using s(5) off_inj[of w "rx_begin i" x] by simp
      have "takeWhile ?P (rev (xq_regions q)) = rev rest \<and> dropWhile ?P (rev (xq_regions q)) = i # rev before"
        using takeWhile_split[OF front, of "i # rev before"] s(1) P[OF s(4)] lt by simp
      note res = run[OF this, unfolded list.case rest]
      have cmp: "seqLess (rx_begin i) x" "seqLess x (rx_end i)"
        using lt s(6) seq_near(1)[OF s(4) n] seq_near(1)[OF n nei] by simp_all
      have dis: "rx_set w rx_sacked rest \<inter> {off w x..<off w (rx_end i)} = {}" using sub(2) by fastforce
      have len: "rx_end i - x = of_nat (off w (rx_end i) - off w x)"
      proof -
        have "unat (rx_end i - x) = off w (rx_end i) - off w x" using s(6) by (simp add: unat_diff_near[of w])
        moreover have "rx_end i - x = of_nat (unat (rx_end i - x))" by simp
        ultimately show ?thesis by simp
      qed
      show ?thesis unfolding res pieces using cmp dis len by (auto simp: card_Un_disjoint)
    qed
  qed
qed

lemma xq_getHighestSackedSeqNum_ok:
  assumes "xq_ok w q"
  shows "off w (xq_getHighestSackedSeqNum q) =
    (if sacked_set w q = {} then off w (xq_begin q) else Suc (Max (sacked_set w q)))"
  using chain_find_back[of w "xq_begin q" "xq_regions q" "xq_end q" rx_sacked] assms
  by (auto simp: xq_getHighestSackedSeqNum_def sacked_set_def xq_ok_def split: option.splits)

lemma xq_getHighestRexmittedSeqNum_ok:
  assumes "xq_ok w q"
  shows "off w (xq_getHighestRexmittedSeqNum q) =
    (if rexmitted_set w q = {} then off w (xq_begin q) else Suc (Max (rexmitted_set w q)))"
  using chain_find_back[of w "xq_begin q" "xq_regions q" "xq_end q" rx_rexmitted] assms
  by (auto simp: xq_getHighestRexmittedSeqNum_def rexmitted_set_def xq_ok_def split: option.splits)

lemma xq_resetSackedBit_ok:
  "xq_ok w q \<Longrightarrow> xq_ok w (xq_resetSackedBit q) \<and> sacked_set w (xq_resetSackedBit q) = {} \<and>
     rexmitted_set w (xq_resetSackedBit q) = rexmitted_set w q"
  by (simp add: xq_ok_def xq_resetSackedBit_def sacked_set_def rexmitted_set_def chain_map rx_set_map comp_def)
     (simp add: rx_set_def)

lemma xq_resetRexmittedBit_ok:
  "xq_ok w q \<Longrightarrow> xq_ok w (xq_resetRexmittedBit q) \<and> rexmitted_set w (xq_resetRexmittedBit q) = {} \<and>
     sacked_set w (xq_resetRexmittedBit q) = sacked_set w q"
  by (simp add: xq_ok_def xq_resetRexmittedBit_def sacked_set_def rexmitted_set_def chain_map rx_set_map comp_def)
     (simp add: rx_set_def)

end
