(* ===== verification/TcpSackSpec.thy ===== *)
theory TcpSackSpec
  imports TcpSackQueue
begin

text \<open>
  The retransmission queue against its specification, a scoreboard of two sets of sequence numbers:
  any run of operations that respects the send window succeeds and computes the scoreboard, and the
  queries answer from it.
\<close>

section \<open>The scoreboard\<close>

text \<open>Sequence numbers are counted from a base, so that the sets are sets of natural numbers.\<close>

record scoreboard =
  sb_una :: nat
  sb_nxt :: nat
  sb_sacked :: "nat set"
  sb_rexmitted :: "nat set"

definition scoreboard_of :: "u32 \<Rightarrow> rexmit_queue \<Rightarrow> scoreboard" where
  "scoreboard_of w q = \<lparr>sb_una = off w (xq_begin q), sb_nxt = off w (xq_end q),
     sb_sacked = sacked_set w q, sb_rexmitted = rexmitted_set w q\<rparr>"

datatype sack_op = EnqueueSent u32 u32 | SetSacked u32 u32 | DiscardUpTo u32 | ResetSacked | ResetRexmitted

fun sack_step :: "sack_op \<Rightarrow> rexmit_queue \<Rightarrow> rexmit_queue result" where
  "sack_step (EnqueueSent x y) q = xq_enqueueSentData x y q"
| "sack_step (SetSacked x y) q = xq_setSackedBit x y q"
| "sack_step (DiscardUpTo x) q = xq_discardUpTo x q"
| "sack_step ResetSacked q = Inr (xq_resetSackedBit q)"
| "sack_step ResetRexmitted q = Inr (xq_resetRexmittedBit q)"

fun sack_run :: "sack_op list \<Rightarrow> rexmit_queue \<Rightarrow> rexmit_queue result" where
  "sack_run [] q = Inr q"
| "sack_run (a # as) q = bindE (sack_step a q) (sack_run as)"

text \<open>What the caller must respect, and what the operations do to the sets.\<close>

fun sb_allowed :: "u32 \<Rightarrow> sack_op \<Rightarrow> scoreboard \<Rightarrow> bool" where
  "sb_allowed w (EnqueueSent x y) b \<longleftrightarrow> near w x \<and> near w y \<and> sb_una b \<le> off w x \<and> off w x \<le> sb_nxt b \<and> off w x < off w y"
| "sb_allowed w (SetSacked x y) b \<longleftrightarrow> near w x \<and> near w y \<and> off w x < off w y \<and> sb_una b < off w y \<and> off w y \<le> sb_nxt b"
| "sb_allowed w (DiscardUpTo x) b \<longleftrightarrow> near w x \<and> sb_una b \<le> off w x \<and> off w x \<le> sb_nxt b"
| "sb_allowed w ResetSacked b \<longleftrightarrow> True"
| "sb_allowed w ResetRexmitted b \<longleftrightarrow> True"

fun sb_step :: "u32 \<Rightarrow> sack_op \<Rightarrow> scoreboard \<Rightarrow> scoreboard" where
  "sb_step w (EnqueueSent x y) b =
     b\<lparr>sb_nxt := max (sb_nxt b) (off w y), sb_rexmitted := sb_rexmitted b \<union> {off w x..<min (off w y) (sb_nxt b)}\<rparr>"
| "sb_step w (SetSacked x y) b = b\<lparr>sb_sacked := sb_sacked b \<union> {max (off w x) (sb_una b)..<off w y}\<rparr>"
| "sb_step w (DiscardUpTo x) b =
     b\<lparr>sb_una := off w x, sb_sacked := sb_sacked b - {..<off w x}, sb_rexmitted := sb_rexmitted b - {..<off w x}\<rparr>"
| "sb_step w ResetSacked b = b\<lparr>sb_sacked := {}\<rparr>"
| "sb_step w ResetRexmitted b = b\<lparr>sb_rexmitted := {}\<rparr>"

fun sb_run_allowed :: "u32 \<Rightarrow> sack_op list \<Rightarrow> scoreboard \<Rightarrow> bool" where
  "sb_run_allowed w [] b = True"
| "sb_run_allowed w (a # as) b \<longleftrightarrow> sb_allowed w a b \<and> sb_run_allowed w as (sb_step w a b)"

definition sb_run :: "u32 \<Rightarrow> sack_op list \<Rightarrow> scoreboard \<Rightarrow> scoreboard" where
  "sb_run w as b = fold (sb_step w) as b"

section \<open>The simulation\<close>

lemma scoreboard_of_simps [simp]:
  "sb_una (scoreboard_of w q) = off w (xq_begin q)" "sb_nxt (scoreboard_of w q) = off w (xq_end q)"
  "sb_sacked (scoreboard_of w q) = sacked_set w q" "sb_rexmitted (scoreboard_of w q) = rexmitted_set w q"
  by (simp_all add: scoreboard_of_def)

lemma scoreboard_ofI:
  "off w (xq_begin q) = sb_una b \<Longrightarrow> off w (xq_end q) = sb_nxt b \<Longrightarrow> sacked_set w q = sb_sacked b \<Longrightarrow>
     rexmitted_set w q = sb_rexmitted b \<Longrightarrow> scoreboard_of w q = b"
  by (simp add: scoreboard_of_def)

lemma sack_step_simulates:
  assumes q: "xq_ok w q" and a: "sb_allowed w a (scoreboard_of w q)"
  shows "\<exists>q'. sack_step a q = Inr q' \<and> xq_ok w q' \<and> scoreboard_of w q' = sb_step w a (scoreboard_of w q)"
proof (cases a)
  case (EnqueueSent x y)
  with a have p: "near w x" "near w y" "off w (xq_begin q) \<le> off w x" "off w x \<le> off w (xq_end q)" "off w x < off w y"
    by simp_all
  from xq_enqueueSentData_ok[OF q p] obtain q' where "xq_enqueueSentData x y q = Inr q'" "xq_ok w q'"
    "xq_begin q' = xq_begin q" "off w (xq_end q') = max (off w (xq_end q)) (off w y)" "sacked_set w q' = sacked_set w q"
    "rexmitted_set w q' = rexmitted_set w q \<union> {off w x..<min (off w y) (off w (xq_end q))}" by blast
  then show ?thesis unfolding EnqueueSent by (intro exI[of _ q'] conjI scoreboard_ofI) simp_all
next
  case (SetSacked x y)
  with a have p: "near w x" "near w y" "off w x < off w y" "off w (xq_begin q) < off w y" "off w y \<le> off w (xq_end q)"
    by simp_all
  from xq_setSackedBit_ok[OF q p] obtain q' where "xq_setSackedBit x y q = Inr q'" "xq_ok w q'"
    "xq_begin q' = xq_begin q" "xq_end q' = xq_end q" "rexmitted_set w q' = rexmitted_set w q"
    "sacked_set w q' = sacked_set w q \<union> {max (off w x) (off w (xq_begin q))..<off w y}" by blast
  then show ?thesis unfolding SetSacked by (intro exI[of _ q'] conjI scoreboard_ofI) simp_all
next
  case (DiscardUpTo x)
  with a have p: "near w x" "off w (xq_begin q) \<le> off w x" "off w x \<le> off w (xq_end q)" by simp_all
  from xq_discardUpTo_ok[OF q p] obtain q' where "xq_discardUpTo x q = Inr q'" "xq_ok w q'"
    "xq_begin q' = x" "xq_end q' = xq_end q" "sacked_set w q' = sacked_set w q - {..<off w x}"
    "rexmitted_set w q' = rexmitted_set w q - {..<off w x}" by blast
  then show ?thesis unfolding DiscardUpTo by (intro exI[of _ q'] conjI scoreboard_ofI) simp_all
next
  case ResetSacked
  have "xq_begin (xq_resetSackedBit q) = xq_begin q" "xq_end (xq_resetSackedBit q) = xq_end q"
    by (simp_all add: xq_resetSackedBit_def)
  with xq_resetSackedBit_ok[OF q] show ?thesis unfolding ResetSacked
    by (intro exI[of _ "xq_resetSackedBit q"] conjI scoreboard_ofI) simp_all
next
  case ResetRexmitted
  have "xq_begin (xq_resetRexmittedBit q) = xq_begin q" "xq_end (xq_resetRexmittedBit q) = xq_end q"
    by (simp_all add: xq_resetRexmittedBit_def)
  with xq_resetRexmittedBit_ok[OF q] show ?thesis unfolding ResetRexmitted
    by (intro exI[of _ "xq_resetRexmittedBit q"] conjI scoreboard_ofI) simp_all
qed

lemma sack_run_simulates:
  "xq_ok w q \<Longrightarrow> sb_run_allowed w as (scoreboard_of w q) \<Longrightarrow>
     \<exists>q'. sack_run as q = Inr q' \<and> xq_ok w q' \<and> scoreboard_of w q' = sb_run w as (scoreboard_of w q)"
proof (induction as arbitrary: q)
  case (Cons a as)
  from Cons.prems(2) have a: "sb_allowed w a (scoreboard_of w q)" and r: "sb_run_allowed w as (sb_step w a (scoreboard_of w q))"
    by simp_all
  from sack_step_simulates[OF Cons.prems(1) a] obtain q' where
    q': "sack_step a q = Inr q'" "xq_ok w q'" "scoreboard_of w q' = sb_step w a (scoreboard_of w q)" by blast
  from Cons.IH[OF q'(2)] r q'(1,3) show ?case by (simp add: sb_run_def)
qed (simp add: sb_run_def)

text \<open>
  C2: The retransmission queue implements a scoreboard of sequence numbers.  Started on a sequence
  number by \<open>init\<close>, every run of \<open>enqueueSentData\<close>, \<open>setSackedBit\<close>, \<open>discardUpTo\<close> and the two resets
  whose arguments stay within the window (retransmissions start inside the sent range, SACK blocks
  end inside it, acknowledgments lie in it) returns without failing an assertion, leaves a list of
  regions that passes \<open>checkQueue\<close>, and computes exactly the effect of the operations on the sets of
  SACKed and of retransmitted numbers: a SACK adds its block above the acknowledged number, sending
  again marks the part already sent, an acknowledgment removes what lies below it.
\<close>

theorem sack_queue_refines_scoreboard:
  assumes "near w s"
    and "sb_run_allowed w as \<lparr>sb_una = off w s, sb_nxt = off w s, sb_sacked = {}, sb_rexmitted = {}\<rparr>"
  shows "\<exists>q. sack_run as (xq_init s xq_new) = Inr q \<and> xq_checkQueue q \<and>
    scoreboard_of w q = sb_run w as \<lparr>sb_una = off w s, sb_nxt = off w s, sb_sacked = {}, sb_rexmitted = {}\<rparr>"
proof -
  let ?q = "xq_init s xq_new"
  have ok: "xq_ok w ?q" using assms(1) by (simp add: xq_ok_def xq_init_def xq_new_def)
  have sb: "scoreboard_of w ?q = \<lparr>sb_una = off w s, sb_nxt = off w s, sb_sacked = {}, sb_rexmitted = {}\<rparr>"
    by (simp add: scoreboard_of_def xq_init_def xq_new_def sacked_set_def rexmitted_set_def)
  from sack_run_simulates[OF ok] assms(2) obtain q where
    "sack_run as ?q = Inr q" "xq_ok w q" "scoreboard_of w q = sb_run w as (scoreboard_of w ?q)" unfolding sb by blast
  then show ?thesis using xq_ok_check unfolding sb by blast
qed

lemma sack_queue_refines_scoreboard_witness:
  "\<exists>q. sack_run [EnqueueSent 100 120, EnqueueSent 120 140, SetSacked 125 135, EnqueueSent 105 130, DiscardUpTo 110] (xq_init 100 xq_new)
       = Inr q \<and> xq_checkQueue q \<and> sb_una (scoreboard_of 100 q) = 10 \<and> sb_nxt (scoreboard_of 100 q) = 40 \<and>
     sb_sacked (scoreboard_of 100 q) = {25..<35} \<and> sb_rexmitted (scoreboard_of 100 q) = {10..<30}"
proof -
  let ?as = "[EnqueueSent 100 120, EnqueueSent 120 140, SetSacked 125 135, EnqueueSent 105 130, DiscardUpTo 110]"
  let ?b = "\<lparr>sb_una = off 100 100, sb_nxt = off 100 100, sb_sacked = {}, sb_rexmitted = {}\<rparr>"
  have o: "off 100 120 = 20" "off 100 140 = 40" "off 100 125 = 25" "off 100 135 = 35" "off 100 105 = 5"
    "off 100 130 = 30" "off 100 110 = 10" by (simp_all add: off_def)
  have n: "near 100 100" by simp
  have al: "sb_run_allowed 100 ?as ?b" by (simp add: o near_def)
  have run: "sb_una (sb_run 100 ?as ?b) = 10" "sb_nxt (sb_run 100 ?as ?b) = 40"
    "sb_sacked (sb_run 100 ?as ?b) = {25..<35}" "sb_rexmitted (sb_run 100 ?as ?b) = {10..<30}"
    by (auto simp: sb_run_def o)
  from sack_queue_refines_scoreboard[OF n al] obtain q where
    q: "sack_run ?as (xq_init 100 xq_new) = Inr q" "xq_checkQueue q" "scoreboard_of 100 q = sb_run 100 ?as ?b" by blast
  show ?thesis by (rule exI[of _ q]) (simp only: q run simp_thms)
qed

section \<open>The queries\<close>

text \<open>The length of the run of SACKed or retransmitted data that starts at a number.\<close>

definition covered :: "u32 \<Rightarrow> rexmit_queue \<Rightarrow> nat set" where
  "covered w q = sacked_set w q \<union> rexmitted_set w q"

lemma rx_forward_ok:
  assumes "chain w (rx_begin i) (i # rest) e" "near w (rx_begin i)" "near w x"
    and "off w (rx_begin i) \<le> off w x" "off w x < off w (rx_end i)"
  shows "\<exists>n. rx_forward x bytes (i # rest) = Inr (bytes + n) \<and>
    (let S = rx_set w (\<lambda>r. rx_sacked r \<or> rx_rexmitted r) (i # rest)
     in {off w x..<off w x + unat n} \<subseteq> S \<and> off w x + unat n \<notin> S)"
  using assms
proof (induction rest arbitrary: i x bytes)
  case (Cons j rest)
  have c: "chain w (rx_end i) (j # rest) e" "near w (rx_end i)" "rx_begin j = rx_end i" "off w (rx_begin j) < off w (rx_end j)"
    and nx: "off w x < 2147483648" "off w (rx_end i) < 2147483648"
    using Cons.prems by (auto simp: near_def)
  show ?case
  proof (cases "rx_sacked i \<or> rx_rexmitted i")
    case True
    let ?d = "rx_end i - x"
    have d: "unat ?d = off w (rx_end i) - off w x" using Cons.prems(5) by (intro unat_diff_near) simp
    have asrt: "seqLE (rx_begin i) x" "seqLess x (rx_end i)"
      using Cons.prems seq_near(2)[of w "rx_begin i" x] seq_near(1)[OF Cons.prems(3) c(2)] by simp_all
    from Cons.IH[of j "rx_end i" "bytes + ?d"] c obtain n where
      n: "rx_forward (rx_end i) (bytes + ?d) (j # rest) = Inr (bytes + ?d + n)"
      "{off w (rx_end i)..<off w (rx_end i) + unat n} \<subseteq> rx_set w (\<lambda>r. rx_sacked r \<or> rx_rexmitted r) (j # rest)"
      "off w (rx_end i) + unat n \<notin> rx_set w (\<lambda>r. rx_sacked r \<or> rx_rexmitted r) (j # rest)"
      by (auto simp: Let_def simp del: rx_forward.simps chain.simps rx_set_simps)
    have bound: "off w (rx_end i) + unat n \<le> off w e"
    proof (rule ccontr)
      assume "\<not> ?thesis"
      then have "off w e \<in> {off w (rx_end i)..<off w (rx_end i) + unat n}" using chain_le[OF c(1)] by simp
      then show False using n(2) chain_set[OF c(1), of "\<lambda>r. rx_sacked r \<or> rx_rexmitted r"] by fastforce
    qed
    have "off w e < 2147483648" using chain_near[OF c(1,2)] by (simp add: near_def)
    then have "off w (rx_end i) - off w x + unat n < 4294967296" using bound by linarith
    then have sum: "unat (?d + n) = off w (rx_end i) - off w x + unat n" using d by (simp add: unat_plus_if')
    have run: "rx_forward x bytes (i # j # rest) = Inr (bytes + (?d + n))"
      using True asrt n(1) by (simp add: add.assoc del: rx_forward.simps(2)[of _ _ j]) 
    have split: "rx_set w (\<lambda>r. rx_sacked r \<or> rx_rexmitted r) (i # j # rest) =
        {off w (rx_begin i)..<off w (rx_end i)} \<union> rx_set w (\<lambda>r. rx_sacked r \<or> rx_rexmitted r) (j # rest)"
      using True by (simp add: rx_span_def)
    have off: "off w x + unat (?d + n) = off w (rx_end i) + unat n" using sum Cons.prems(5) by simp
    have glue: "{b..<a} \<union> T \<supseteq> {x'..<m} \<and> m \<notin> {b..<a} \<union> T"
      if "{a..<m} \<subseteq> T" "m \<notin> T" "b \<le> x'" "a \<le> m" for a b x' m :: nat and T
      using that by (auto simp: subset_iff not_less[symmetric])
    show ?thesis
      by (rule exI[of _ "?d + n"], unfold Let_def split off)
        (use run glue[OF n(2,3) Cons.prems(4) le_add1] in blast)
  next
    case False
    have "off w x \<notin> rx_set w (\<lambda>r. rx_sacked r \<or> rx_rexmitted r) (i # j # rest)"
      using False chain_set[OF c(1), of "\<lambda>r. rx_sacked r \<or> rx_rexmitted r"] Cons.prems(5) by fastforce
    moreover have "rx_forward x bytes (i # j # rest) = Inr (bytes + 0)" using False by simp
    ultimately show ?thesis by (intro exI[of _ 0]) (simp add: Let_def)
  qed
next
  case Nil
  have nx: "near w (rx_end i)" using Nil.prems(1) by auto
  have asrt: "seqLE (rx_begin i) x" "seqLess x (rx_end i)"
    using Nil.prems seq_near(2)[of w "rx_begin i" x] seq_near(1)[OF Nil.prems(3) nx] by simp_all
  have d: "unat (rx_end i - x) = off w (rx_end i) - off w x" using Nil.prems(5) by (intro unat_diff_near) simp
  show ?case
    using Nil.prems(4,5) asrt d
    by (intro exI[of _ "if rx_sacked i \<or> rx_rexmitted i then rx_end i - x else 0"]) (auto simp: rx_span_def Let_def)
qed

lemma xq_checkRexmitQueue_ok:
  assumes q: "xq_ok w q" and n: "near w x" and bx: "off w (xq_begin q) \<le> off w x" "off w x \<le> off w (xq_end q)"
  shows "\<exists>n. xq_checkRexmitQueueForSackedOrRexmittedSegments x q = Inr n \<and>
    {off w x..<off w x + unat n} \<subseteq> covered w q \<and> off w x + unat n \<notin> covered w q"
proof -
  have nb: "near w (xq_begin q)" "near w (xq_end q)" using xq_ok_near[OF q] by simp_all
  have c: "chain w (xq_begin q) (xq_regions q) (xq_end q)" using q by (simp add: xq_ok_def)
  have cov: "covered w q = rx_set w (\<lambda>r. rx_sacked r \<or> rx_rexmitted r) (xq_regions q)"
    by (auto simp: covered_def sacked_set_def rexmitted_set_def rx_set_def)
  have asrt: "seqLE (xq_begin q) x" "seqLE x (xq_end q)" using bx seq_near(2)[OF nb(1) n] seq_near(2)[OF n nb(2)] by simp_all
  show ?thesis
  proof (cases "xq_end q = x")
    case True
    have "off w x \<notin> covered w q" using chain_set[OF c] True unfolding cov by fastforce
    then show ?thesis using True asrt
      by (intro exI[of _ 0]) (simp add: xq_checkRexmitQueueForSackedOrRexmittedSegments_def)
  next
    case False
    then have lt: "off w x < off w (xq_end q)" using bx(2) off_inj[of w "xq_end q" x] by simp
    from rx_seek_chain[OF c nb(1) n bx(1) lt] obtain before i rest where
      s: "rx_seek x (xq_regions q) = (before, i # rest)" "xq_regions q = before @ i # rest"
        "chain w (xq_begin q) before (rx_begin i)" "chain w (rx_begin i) (i # rest) (xq_end q)" "near w (rx_begin i)"
        "off w (rx_begin i) \<le> off w x" "off w x < off w (rx_end i)" by blast
    let ?S = "rx_set w (\<lambda>r. rx_sacked r \<or> rx_rexmitted r)"
    from rx_forward_ok[OF s(4,5) n s(6,7), of 0] obtain m where
      m: "rx_forward x 0 (i # rest) = Inr (0 + m)" "{off w x..<off w x + unat m} \<subseteq> ?S (i # rest)"
        "off w x + unat m \<notin> ?S (i # rest)" unfolding Let_def by blast
    have "xq_checkRexmitQueueForSackedOrRexmittedSegments x q = Inr m"
      using m(1) s(1,2) asrt False by (simp add: xq_checkRexmitQueueForSackedOrRexmittedSegments_def del: rx_forward.simps)
    moreover have "covered w q = ?S before \<union> ?S (i # rest)" unfolding cov s(2) rx_set_simps(3) by simp
    moreover have "off w x + unat m \<notin> ?S before"
      using chain_set[OF s(3), of "\<lambda>r. rx_sacked r \<or> rx_rexmitted r"] s(6) by fastforce
    ultimately show ?thesis using m(2,3) by blast
  qed
qed

text \<open>Counting the SACKed blocks: the numbers that begin a maximal run.\<close>

definition run_starts :: "nat set \<Rightarrow> nat \<Rightarrow> nat set" where
  "run_starts S k = {n \<in> S. k \<le> n \<and> (n = k \<or> n - 1 \<notin> S)}"

lemma discontiguous_fold:
  assumes "chain w b rs e" "near w b"
  shows "fst (fold (\<lambda>i (counter, prevSacked). (if rx_sacked i \<and> \<not> prevSacked then counter + 1 else counter, rx_sacked i)) rs (c, p))
    = c + of_nat (card {n \<in> rx_set w rx_sacked rs. if n = off w b then \<not> p else n - 1 \<notin> rx_set w rx_sacked rs})"
  using assms
proof (induction rs arbitrary: b c p)
  case (Cons i rs)
  let ?R = "rx_set w rx_sacked rs" and ?e = "off w (rx_end i)" and ?b = "off w b"
  let ?A = "{n \<in> ?R. if n = ?e then \<not> rx_sacked i else n - 1 \<notin> ?R}"
  have t: "chain w (rx_end i) rs e" "near w (rx_end i)" and lt: "?b < ?e" and sp: "rx_span w i = {?b..<?e}"
    using Cons.prems by (simp_all add: rx_span_def)
  have R: "?R \<subseteq> {?e..}" using chain_set[OF t(1), of rx_sacked] by auto
  have fin: "finite ?A" by (rule finite_subset[OF _ finite_rx_set[of w rx_sacked rs]]) auto
  have notin: "?b \<notin> ?A" using R lt by auto
  have set: "{n \<in> rx_set w rx_sacked (i # rs). if n = ?b then \<not> p else n - 1 \<notin> rx_set w rx_sacked (i # rs)} =
      (if rx_sacked i \<and> \<not> p then insert ?b ?A else ?A)"
  proof (cases "rx_sacked i")
    case True
    then have U: "rx_set w rx_sacked (i # rs) = {?b..<?e} \<union> ?R" using sp by simp
    have "(n \<in> {?b..<?e} \<union> ?R \<and> (if n = ?b then \<not> p else n - 1 \<notin> {?b..<?e} \<union> ?R)) \<longleftrightarrow>
        (n = ?b \<and> \<not> p) \<or> (n \<in> ?R \<and> n \<noteq> ?e \<and> n - 1 \<notin> ?R)" for n
    proof -
      consider "n \<le> ?b" | "?b < n" "n < ?e" | "n = ?e" | "?e < n" by linarith
      then show ?thesis using R lt by cases auto
    qed
    then have "{n \<in> {?b..<?e} \<union> ?R. if n = ?b then \<not> p else n - 1 \<notin> {?b..<?e} \<union> ?R} =
        {n. (n = ?b \<and> \<not> p) \<or> (n \<in> ?R \<and> n \<noteq> ?e \<and> n - 1 \<notin> ?R)}" by blast
    also have "\<dots> = (if rx_sacked i \<and> \<not> p then insert ?b ?A else ?A)" using True by auto
    finally show ?thesis unfolding U .
  next
    case False
    have "(n \<in> ?R \<and> (if n = ?b then \<not> p else n - 1 \<notin> ?R)) \<longleftrightarrow> (n \<in> ?R \<and> (if n = ?e then True else n - 1 \<notin> ?R))" for n
    proof (cases "n = ?e")
      case True
      then show ?thesis using R lt by auto
    next
      case False
      then show ?thesis using R lt by auto
    qed
    then have "{n \<in> ?R. if n = ?b then \<not> p else n - 1 \<notin> ?R} = {n \<in> ?R. if n = ?e then True else n - 1 \<notin> ?R}"
      by blast
    moreover have "rx_set w rx_sacked (i # rs) = ?R" using False by simp
    ultimately show ?thesis by (simp only: False simp_thms if_False)
  qed
  show ?case using Cons.IH[OF t] notin fin unfolding set by (simp add: algebra_simps)
qed simp

lemma xq_getNumOfDiscontiguousSacks_ok:
  assumes q: "xq_ok w q" and n: "near w x" and bx: "off w (xq_begin q) \<le> off w x" "off w x \<le> off w (xq_end q)"
  shows "xq_getNumOfDiscontiguousSacks x q = Inr (of_nat (card (run_starts (sacked_set w q) (off w x))))"
proof -
  have nb: "near w (xq_begin q)" "near w (xq_end q)" using xq_ok_near[OF q] by simp_all
  have c: "chain w (xq_begin q) (xq_regions q) (xq_end q)" using q by (simp add: xq_ok_def)
  have asrt: "seqLE (xq_begin q) x" "seqLE x (xq_end q)" using bx seq_near(2)[OF nb(1) n] seq_near(2)[OF n nb(2)] by simp_all
  show ?thesis
  proof (cases "xq_end q = x")
    case True
    have "run_starts (sacked_set w q) (off w x) = {}"
      using chain_set[OF c, of rx_sacked] True by (fastforce simp: run_starts_def sacked_set_def)
    then show ?thesis using True asrt by (simp add: xq_getNumOfDiscontiguousSacks_def)
  next
    case False
    then have lt: "off w x < off w (xq_end q)" using bx(2) off_inj[of w "xq_end q" x] by simp
    from rx_seek_chain[OF c nb(1) n bx(1) lt] obtain before i rest where
      s: "rx_seek x (xq_regions q) = (before, i # rest)" "xq_regions q = before @ i # rest"
        "chain w (xq_begin q) before (rx_begin i)" "chain w (rx_begin i) (i # rest) (xq_end q)" "near w (rx_begin i)"
        "off w (rx_begin i) \<le> off w x" "off w x < off w (rx_end i)" by blast
    let ?i = "i\<lparr>rx_begin := x\<rparr>" and ?f = "\<lambda>i (counter, prevSacked). (if rx_sacked i \<and> \<not> prevSacked then counter + 1 else counter, rx_sacked i)"
    let ?T = "rx_set w rx_sacked (?i # rest)" and ?S = "sacked_set w q"
    have ci: "chain w x (?i # rest) (xq_end q)" using s(4,7) by simp
    have b: "\<And>n. n \<in> rx_set w rx_sacked before \<Longrightarrow> n < off w x" using chain_set[OF s(3), of rx_sacked] s(6) by fastforce
    have r: "\<And>n. n \<in> rx_set w rx_sacked rest \<Longrightarrow> off w x < n"
      using chain_set[of w "rx_end i" rest "xq_end q" rx_sacked] s(4,7) by fastforce
    have mem: "n \<in> ?T \<longleftrightarrow> n \<in> ?S \<and> off w x \<le> n" for n
      using b[of n] r[of n] s(6,7) unfolding sacked_set_def s(2) by (auto simp: rx_span_def)
    have "{n \<in> ?T. if n = off w x then \<not> False else n - 1 \<notin> ?T} = run_starts ?S (off w x)"
      unfolding run_starts_def mem by auto
    then have "fst (fold ?f (?i # rest) (0, False)) = of_nat (card (run_starts ?S (off w x)))"
      using discontiguous_fold[OF ci n, of 0 False] by simp
    moreover have "fold ?f (i # rest) (0, False) = fold ?f (?i # rest) (0, False)" by simp
    moreover have "xq_getNumOfDiscontiguousSacks x q = Inr (fst (fold ?f (i # rest) (0, False)))"
      using s(1,2) asrt False by (simp add: xq_getNumOfDiscontiguousSacks_def)
    ultimately show ?thesis by simp
  qed
qed

text \<open>
  C23: The queries of the retransmission queue answer from the scoreboard.  In a well-formed queue and
  for a number of the window, \<open>getSackedBit\<close> says whether it is SACKed, \<open>getAmountOfSackedBytes\<close> and
  \<open>getTotalAmountOfSackedBytes\<close> count the SACKed numbers from it on and all of them,
  \<open>getHighestSackedSeqNum\<close> is one past the greatest SACKed number (the begin of the queue when there
  is none), \<open>getNumOfDiscontiguousSacks\<close> counts the maximal SACKed runs from it on, and
  \<open>checkRexmitQueueForSackedOrRexmittedSegments\<close> is the length of the run of SACKed or
  retransmitted numbers that starts at it.  None of them fails an assertion.
\<close>

theorem sack_queries_answer_scoreboard:
  assumes q: "xq_ok w q" and n: "near w x" and bx: "off w (xq_begin q) \<le> off w x" "off w x \<le> off w (xq_end q)"
  shows "xq_getSackedBit x q = Inr (off w x \<in> sacked_set w q) \<and>
    xq_getAmountOfSackedBytes x q = Inr (of_nat (card (sacked_set w q \<inter> {off w x..}))) \<and>
    xq_getTotalAmountOfSackedBytes q = of_nat (card (sacked_set w q)) \<and>
    off w (xq_getHighestSackedSeqNum q) =
      (if sacked_set w q = {} then off w (xq_begin q) else Suc (Max (sacked_set w q))) \<and>
    xq_getNumOfDiscontiguousSacks x q = Inr (of_nat (card (run_starts (sacked_set w q) (off w x)))) \<and>
    (\<exists>k. xq_checkRexmitQueueForSackedOrRexmittedSegments x q = Inr k \<and>
       {off w x..<off w x + unat k} \<subseteq> covered w q \<and> off w x + unat k \<notin> covered w q)"
  using xq_getSackedBit_ok[OF assms] xq_getAmountOfSackedBytes_ok[OF assms] xq_getTotalAmountOfSackedBytes_ok[OF q]
    xq_getHighestSackedSeqNum_ok[OF q] xq_getNumOfDiscontiguousSacks_ok[OF assms] xq_checkRexmitQueue_ok[OF assms]
  by blast

definition demo_rexmit_queue :: rexmit_queue where
  "demo_rexmit_queue =
     \<lparr>xq_regions = [\<lparr>rx_begin = 100, rx_end = 120, rx_sacked = False, rx_rexmitted = True\<rparr>,
                    \<lparr>rx_begin = 120, rx_end = 130, rx_sacked = True, rx_rexmitted = False\<rparr>,
                    \<lparr>rx_begin = 130, rx_end = 150, rx_sacked = False, rx_rexmitted = False\<rparr>,
                    \<lparr>rx_begin = 150, rx_end = 155, rx_sacked = True, rx_rexmitted = False\<rparr>],
      xq_begin = 100, xq_end = 155\<rparr>"

lemma sack_queries_answer_scoreboard_witness:
  "off 100 (xq_getHighestSackedSeqNum demo_rexmit_queue) = 55 \<and>
   xq_getSackedBit 122 demo_rexmit_queue = Inr True \<and>
   xq_getAmountOfSackedBytes 122 demo_rexmit_queue = Inr 13"
proof -
  have o: "off 100 120 = 20" "off 100 130 = 30" "off 100 150 = 50" "off 100 155 = 55" "off 100 122 = 22"
    by (simp_all add: off_def)
  have ok: "xq_ok 100 demo_rexmit_queue" by (simp add: xq_ok_def demo_rexmit_queue_def o near_def)
  have p: "near 100 122" "off 100 (xq_begin demo_rexmit_queue) \<le> off 100 122" "off 100 122 \<le> off 100 (xq_end demo_rexmit_queue)"
    by (simp_all add: near_def o demo_rexmit_queue_def)
  have S: "sacked_set 100 demo_rexmit_queue = {20..<30} \<union> {50..<55}"
    by (simp add: sacked_set_def demo_rexmit_queue_def rx_span_def o)
  have "Max ({20..<30::nat} \<union> {50..<55}) = 54" by (rule Max_eqI) auto
  moreover have "card (({20..<30::nat} \<union> {50..<55}) \<inter> {22..}) = 13"
  proof -
    have e: "({20..<30::nat} \<union> {50..<55}) \<inter> {22..} = {22..<30} \<union> {50..<55}" by auto
    show ?thesis unfolding e by (subst card_Un_disjoint) auto
  qed
  moreover have "{20..<30::nat} \<union> {50..<55} \<noteq> {}" by simp
  ultimately show ?thesis using sack_queries_answer_scoreboard[OF ok p] unfolding S o by auto
qed

end
