(* ===== verification/TcpRcvQueue.thy ===== *)
theory TcpRcvQueue
  imports TcpSeq
begin

text \<open>
  The receive queue of TCP
  (\<^verbatim>\<open>inet/src/transport/tcp/queues/TCPVirtualDataRcvQueue.cc\<close>) and its message based variant
  (\<^verbatim>\<open>TCPMsgBasedRcvQueue.cc\<close>): a sorted list of disjoint ranges of sequence numbers, into which
  segments are merged in any order and from whose front the contiguous data is extracted.
\<close>

section \<open>Regions\<close>

record region =
  rg_begin :: u32
  rg_end :: u32

datatype compare_status = BEFORE | BEFORE_TOUCH | OVERLAP | AFTER_TOUCH | AFTER

definition region_new :: "u32 \<Rightarrow> u32 \<Rightarrow> region" where
  "region_new b e = \<lparr>rg_begin = b, rg_end = e\<rparr>"

definition region_getLength :: "region \<Rightarrow> nat" where
  "region_getLength r = unat (rg_end r - rg_begin r)"

text \<open>\<open>this->merge(other)\<close>: \<open>None\<close> when the regions do not meet.\<close>

definition region_merge :: "region \<Rightarrow> region \<Rightarrow> region option" where
  "region_merge other r =
     (if seqLess (rg_end r) (rg_begin other) \<or> seqLess (rg_end other) (rg_begin r) then None
      else
        let b = (if seqLess (rg_begin other) (rg_begin r) then rg_begin other else rg_begin r);
            e = (if seqLess (rg_end r) (rg_end other) then rg_end other else rg_end r)
        in Some \<lparr>rg_begin = b, rg_end = e\<rparr>)"

definition region_compare :: "region \<Rightarrow> region \<Rightarrow> compare_status" where
  "region_compare other r =
     (if rg_end r = rg_begin other then BEFORE_TOUCH
      else if rg_begin r = rg_end other then AFTER_TOUCH
      else if seqLess (rg_end r) (rg_begin other) then BEFORE
      else if seqLess (rg_end other) (rg_begin r) then AFTER
      else OVERLAP)"

text \<open>\<open>split\<close> cuts off and returns the part below \<open>seq\<close>; the rest stays.\<close>

definition region_split :: "u32 \<Rightarrow> region \<Rightarrow> (region \<times> region) result" where
  "region_split seq r =
     bindE (assertE (seqGreater seq (rg_begin r) \<and> seqLess seq (rg_end r))) (\<lambda>_.
       Inr (region_new (rg_begin r) seq, r\<lparr>rg_begin := seq\<rparr>))"

definition region_getLengthTo :: "u32 \<Rightarrow> region \<Rightarrow> nat" where
  "region_getLengthTo seq r =
     (if seqLE seq (rg_begin r) then 0
      else if seqLess seq (rg_end r) then unat (seq - rg_begin r)
      else unat (rg_end r - rg_begin r))"

section \<open>The queue\<close>

record rcv_queue =
  rq_rcv_nxt :: u32
  rq_regions :: "region list"

definition rq_init :: "u32 \<Rightarrow> rcv_queue \<Rightarrow> rcv_queue" where
  "rq_init startSeq q = q\<lparr>rq_rcv_nxt := startSeq, rq_regions := []\<rparr>"

definition createRegionFromSegment :: "tcp_segment \<Rightarrow> region" where
  "createRegionFromSegment s = region_new (tg_seq s) (tg_end s)"

text \<open>
  The loop of \<open>merge\<close> runs from the back: \<open>rs\<close> is the rest of the list in reverse, \<open>later\<close> the
  regions already passed, which lie after the segment.
\<close>

fun rq_merge_loop :: "region list \<Rightarrow> region \<Rightarrow> region list \<Rightarrow> region list result" where
  "rq_merge_loop [] seg later = Inr (seg # later)"
| "rq_merge_loop (r # rs) seg later =
     (case region_compare seg r of
        BEFORE \<Rightarrow> Inr (rev (r # rs) @ seg # later)
      | AFTER \<Rightarrow> rq_merge_loop rs seg (r # later)
      | _ \<Rightarrow> (case region_merge r seg of
                Some seg' \<Rightarrow> rq_merge_loop rs seg' later
              | None \<Rightarrow> Inl (RuntimeError ''Model error: merge of region unsuccessful'')))"

definition rq_merge :: "region \<Rightarrow> rcv_queue \<Rightarrow> rcv_queue result" where
  "rq_merge seg q =
     bindE (rq_merge_loop (rev (rq_regions q)) seg []) (\<lambda>rs. Inr (q\<lparr>rq_regions := rs\<rparr>))"

definition rq_acceptable :: "region \<Rightarrow> rcv_queue \<Rightarrow> bool" where
  "rq_acceptable reg q =
     (if rq_regions q \<noteq> []
      then let ob = rg_begin (hd (rq_regions q)); oe = rg_end (last (rq_regions q));
               nb = rg_begin reg; ne = rg_end reg; minb = seqMin ob nb; maxe = seqMax oe ne
           in \<not> (seqGE minb oe \<or> seqGE minb ne \<or> seqGE ob maxe \<or> seqGE nb maxe)
      else True)"

definition rq_insertBytesFromSegment :: "tcp_segment \<Rightarrow> rcv_queue \<Rightarrow> (u32 \<times> rcv_queue) result" where
  "rq_insertBytesFromSegment s q =
     (let reg = createRegionFromSegment s in
      if \<not> rq_acceptable reg q
      then Inl (RuntimeError ''The new segment is out of the acceptable range at the queue'')
      else bindE (rq_merge reg q) (\<lambda>q1. case rq_regions q1 of
             [] \<Rightarrow> Inl (Undefined ''front of an empty list'')
           | r # rs \<Rightarrow>
               let q2 = (if seqGE (rq_rcv_nxt q1) (rg_begin r) then q1\<lparr>rq_rcv_nxt := rg_end r\<rparr> else q1)
               in Inr (rq_rcv_nxt q2, q2)))"

definition rq_extractTo :: "u32 \<Rightarrow> rcv_queue \<Rightarrow> (region option \<times> rcv_queue) result" where
  "rq_extractTo seq q =
     bindE (assertE (seqLE seq (rq_rcv_nxt q))) (\<lambda>_. case rq_regions q of
         [] \<Rightarrow> Inr (None, q)
       | reg # rs \<Rightarrow>
           if seqLE seq (rg_begin reg) then Inr (None, q)
           else if seqGE seq (rg_end reg) then Inr (Some reg, q\<lparr>rq_regions := rs\<rparr>)
           else bindE (region_split seq reg) (\<lambda>(cut, reg').
                  Inr (Some cut, q\<lparr>rq_regions := reg' # rs\<rparr>)))"

text \<open>The length of the extracted message, \<open>None\<close> for a null pointer.\<close>

definition rq_extractBytesUpTo :: "u32 \<Rightarrow> rcv_queue \<Rightarrow> (nat option \<times> rcv_queue) result" where
  "rq_extractBytesUpTo seq q =
     bindE (rq_extractTo seq q) (\<lambda>(reg, q'). Inr (map_option region_getLength reg, q'))"

definition rq_getAmountOfBufferedBytes :: "rcv_queue \<Rightarrow> u32" where
  "rq_getAmountOfBufferedBytes q = fold (\<lambda>r bytes. bytes + of_nat (region_getLength r)) (rq_regions q) 0"

definition rq_getAmountOfFreeBytes :: "u32 \<Rightarrow> rcv_queue \<Rightarrow> u32" where
  "rq_getAmountOfFreeBytes maxRcvBuffer q =
     (let used = rq_getAmountOfBufferedBytes q in if used < maxRcvBuffer then maxRcvBuffer - used else 0)"

definition rq_getQueueLength :: "rcv_queue \<Rightarrow> u32" where
  "rq_getQueueLength q = of_nat (length (rq_regions q))"

definition rq_getLE :: "u32 \<Rightarrow> rcv_queue \<Rightarrow> u32" where
  "rq_getLE fromSeqNum q =
     (case find (\<lambda>r. seqLE (rg_begin r) fromSeqNum \<and> seqLess fromSeqNum (rg_end r)) (rq_regions q) of
        Some r \<Rightarrow> rg_begin r | None \<Rightarrow> fromSeqNum)"

definition rq_getRE :: "u32 \<Rightarrow> rcv_queue \<Rightarrow> u32" where
  "rq_getRE toSeqNum q =
     (case find (\<lambda>r. seqLess (rg_begin r) toSeqNum \<and> seqLE toSeqNum (rg_end r)) (rq_regions q) of
        Some r \<Rightarrow> rg_end r | None \<Rightarrow> toSeqNum)"

definition rq_getFirstSeqNo :: "rcv_queue \<Rightarrow> u32" where
  "rq_getFirstSeqNo q = (case rq_regions q of
      [] \<Rightarrow> rq_rcv_nxt q | r # _ \<Rightarrow> seqMin (rg_begin r) (rq_rcv_nxt q))"

section \<open>The message based queue\<close>

record msg_rcv_queue =
  mq_queue :: rcv_queue
  mq_payload :: "(u32 \<times> int) list"

definition mq_init :: "u32 \<Rightarrow> msg_rcv_queue \<Rightarrow> msg_rcv_queue" where
  "mq_init startSeq q = q\<lparr>mq_queue := rq_init startSeq (mq_queue q)\<rparr>"

text \<open>
  The messages of the segment are entered one after the other, each from where the previous one
  went: \<open>before\<close> (in reverse) are the items the iterator has passed, \<open>rest\<close> those from the
  iterator on.
\<close>

fun mq_skip :: "u32 \<Rightarrow> (u32 \<times> int) list \<Rightarrow> (u32 \<times> int) list \<Rightarrow> (u32 \<times> int) list \<times> (u32 \<times> int) list" where
  "mq_skip e before [] = (before, [])"
| "mq_skip e before (i # rest) = (if seqLess (fst i) e then mq_skip e (i # before) rest else (before, i # rest))"

fun mq_enter :: "(u32 \<times> int) list \<Rightarrow> (u32 \<times> int) list \<Rightarrow> (u32 \<times> int) list \<Rightarrow> (u32 \<times> int) list result" where
  "mq_enter [] before rest = Inr (rev before @ rest)"
| "mq_enter ((e, m) # ms) before rest =
     (case mq_skip e before rest of (before', rest') \<Rightarrow>
        if rest' \<noteq> [] \<and> fst (hd rest') = e then mq_enter ms before' rest'
        else let all = rev before' @ (e, m) # rest' in
             bindE (assertE (seqLE (fst (hd all)) (fst (last all)))) (\<lambda>_. mq_enter ms before' ((e, m) # rest')))"

definition mq_insertBytesFromSegment :: "tcp_segment \<Rightarrow> msg_rcv_queue \<Rightarrow> (u32 \<times> msg_rcv_queue) result" where
  "mq_insertBytesFromSegment s q =
     bindE (rq_insertBytesFromSegment s (mq_queue q)) (\<lambda>(_, rq).
     bindE (mq_enter (tg_payload s) [] (mq_payload q)) (\<lambda>pl.
       Inr (rq_rcv_nxt rq, q\<lparr>mq_queue := rq, mq_payload := pl\<rparr>)))"

definition mq_extractBytesUpTo :: "u32 \<Rightarrow> msg_rcv_queue \<Rightarrow> (int option \<times> msg_rcv_queue) result" where
  "mq_extractBytesUpTo seq q =
     (let seq' = (case mq_payload q of
                    i # _ \<Rightarrow> if seqLess (fst i) seq then fst i else seq | [] \<Rightarrow> seq)
      in bindE (rq_extractTo seq' (mq_queue q)) (\<lambda>(reg, rq).
           let q1 = q\<lparr>mq_queue := rq\<rparr> in
           case (reg, mq_payload q) of
             (Some r, (e, m) # pl) \<Rightarrow>
               if e = rg_end r then Inr (Some m, q1\<lparr>mq_payload := pl\<rparr>) else Inr (None, q1)
           | _ \<Rightarrow> Inr (None, q1)))"

section \<open>Regions as intervals of offsets\<close>

text \<open>
  All regions lie within half of the number space after a base \<open>w\<close>; then the list of regions is a
  list of intervals of offsets.
\<close>

definition span :: "u32 \<Rightarrow> region \<Rightarrow> nat set" where
  "span w r = {off w (rg_begin r)..<off w (rg_end r)}"

definition region_ok :: "u32 \<Rightarrow> region \<Rightarrow> bool" where
  "region_ok w r \<longleftrightarrow> near w (rg_begin r) \<and> near w (rg_end r) \<and> off w (rg_begin r) < off w (rg_end r)"

fun regions_ok :: "u32 \<Rightarrow> region list \<Rightarrow> bool" where
  "regions_ok w [] = True"
| "regions_ok w (r # rs) =
     (region_ok w r \<and> (\<forall>s \<in> set rs. off w (rg_end r) < off w (rg_begin s)) \<and> regions_ok w rs)"

definition spans :: "u32 \<Rightarrow> region list \<Rightarrow> nat set" where
  "spans w rs = (\<Union>r \<in> set rs. span w r)"

lemma spans_simps [simp]:
  "spans w [] = {}" "spans w (r # rs) = span w r \<union> spans w rs" "spans w (rs @ ss) = spans w rs \<union> spans w ss"
  by (auto simp: spans_def)

lemma regions_ok_append:
  "regions_ok w (rs @ ss) \<longleftrightarrow> regions_ok w rs \<and> regions_ok w ss \<and>
     (\<forall>r \<in> set rs. \<forall>s \<in> set ss. off w (rg_end r) < off w (rg_begin s))"
  by (induction rs) auto

lemma region_compare_off:
  assumes "region_ok w r" "region_ok w s"
  shows "region_compare s r =
     (if off w (rg_end r) = off w (rg_begin s) then BEFORE_TOUCH
      else if off w (rg_begin r) = off w (rg_end s) then AFTER_TOUCH
      else if off w (rg_end r) < off w (rg_begin s) then BEFORE
      else if off w (rg_end s) < off w (rg_begin r) then AFTER else OVERLAP)"
  using assms by (simp add: region_compare_def region_ok_def seq_near[where w = w] off_inj)

lemma region_merge_off:
  assumes "region_ok w r" "region_ok w s"
    and "off w (rg_begin s) \<le> off w (rg_end r)" "off w (rg_begin r) \<le> off w (rg_end s)"
  shows "\<exists>m. region_merge r s = Some m \<and> region_ok w m \<and>
     off w (rg_begin m) = min (off w (rg_begin r)) (off w (rg_begin s)) \<and>
     off w (rg_end m) = max (off w (rg_end r)) (off w (rg_end s))"
  using assms by (auto simp: region_merge_def region_ok_def seq_near[where w = w] min_def max_def)

text \<open>
  The loop keeps what it has passed (\<open>later\<close>, beyond the segment) and what is to come (\<open>rs\<close>, in
  reverse), and ends in one sorted list that covers the same offsets.
\<close>

lemma rq_merge_loop_ok:
  assumes "regions_ok w (rev rs @ later)" "region_ok w seg"
    and "\<forall>r \<in> set later. off w (rg_end seg) < off w (rg_begin r)"
  shows "\<exists>out. rq_merge_loop rs seg later = Inr out \<and> regions_ok w out \<and>
    spans w out = spans w (rev rs) \<union> span w seg \<union> spans w later"
  using assms
proof (induction rs arbitrary: seg later)
  case Nil
  then show ?case by (auto simp: Un_commute)
next
  case (Cons r rs)
  have r: "region_ok w r" and rest: "regions_ok w (rev rs)" and later: "regions_ok w later"
    and rl: "\<forall>s \<in> set later. off w (rg_end r) < off w (rg_begin s)"
    and below: "\<forall>s \<in> set rs. off w (rg_end s) < off w (rg_begin r)"
    and rsl: "\<forall>s \<in> set rs. \<forall>t \<in> set later. off w (rg_end s) < off w (rg_begin t)"
    using Cons.prems(1) by (auto simp: regions_ok_append)
  note seg = Cons.prems(2) and sl = Cons.prems(3)
  note cmp = region_compare_off[OF r seg]
  have ok: "off w (rg_begin r) < off w (rg_end r)" "off w (rg_begin seg) < off w (rg_end seg)"
    using r seg by (simp_all add: region_ok_def)
  consider (before) "off w (rg_end r) < off w (rg_begin seg)"
    | (after) "off w (rg_end seg) < off w (rg_begin r)"
    | (meet) "off w (rg_begin seg) \<le> off w (rg_end r)" "off w (rg_begin r) \<le> off w (rg_end seg)"
    by linarith
  then show ?case
  proof cases
    case before
    then have c: "region_compare seg r = BEFORE" using cmp ok by simp
    have "\<forall>s \<in> set rs. off w (rg_end s) < off w (rg_begin seg)" using below before ok(1) by fastforce
    then have "regions_ok w (rev (r # rs) @ seg # later)"
      using r rest later rl rsl seg sl before below by (auto simp: regions_ok_append)
    then show ?thesis using c by (auto simp: Un_ac)
  next
    case after
    then have c: "region_compare seg r = AFTER" using cmp ok by simp
    have "regions_ok w (rev rs @ r # later)" using r rest later rl rsl below by (auto simp: regions_ok_append)
    moreover have "\<forall>s \<in> set (r # later). off w (rg_end seg) < off w (rg_begin s)" using after sl by simp
    ultimately have "\<exists>out. rq_merge_loop rs seg (r # later) = Inr out \<and> regions_ok w out \<and>
        spans w out = spans w (rev rs) \<union> span w seg \<union> spans w (r # later)"
      using Cons.IH[OF _ seg] by blast
    then show ?thesis using c by (auto simp: Un_ac)
  next
    case meet
    obtain m where m: "region_merge r seg = Some m" "region_ok w m"
      "off w (rg_begin m) = min (off w (rg_begin r)) (off w (rg_begin seg))"
      "off w (rg_end m) = max (off w (rg_end r)) (off w (rg_end seg))"
      using region_merge_off[OF r seg meet] by blast
    have span: "span w m = span w r \<union> span w seg"
      using m(3,4) meet ok by (auto simp: span_def)
    have "regions_ok w (rev rs @ later)" using rest later rsl by (auto simp: regions_ok_append)
    moreover have "\<forall>s \<in> set later. off w (rg_end m) < off w (rg_begin s)" using m(4) rl sl by simp
    moreover have c: "region_compare seg r \<noteq> BEFORE" "region_compare seg r \<noteq> AFTER" using cmp meet ok by auto
    ultimately have "\<exists>out. rq_merge_loop rs m later = Inr out \<and> regions_ok w out \<and>
        spans w out = spans w (rev rs) \<union> span w m \<union> spans w later"
      using Cons.IH[OF _ m(2)] by blast
    moreover have "rq_merge_loop (r # rs) seg later = rq_merge_loop rs m later"
      using c m(1) by (cases "region_compare seg r") simp_all
    ultimately show ?thesis using span by (auto simp: Un_ac)
  qed
qed

section \<open>Insertion\<close>

text \<open>
  The invariant of the queue: sorted disjoint regions that do not touch; either the front region
  ends where the next byte is expected, or it lies beyond it.
\<close>

definition rq_ok :: "u32 \<Rightarrow> rcv_queue \<Rightarrow> bool" where
  "rq_ok w q \<longleftrightarrow> near w (rq_rcv_nxt q) \<and> regions_ok w (rq_regions q) \<and>
     (case rq_regions q of [] \<Rightarrow> True
      | r # _ \<Rightarrow> off w (rq_rcv_nxt q) < off w (rg_begin r) \<or> rg_end r = rq_rcv_nxt q)"

definition rq_bytes :: "u32 \<Rightarrow> rcv_queue \<Rightarrow> nat set" where
  "rq_bytes w q = spans w (rq_regions q)"

lemma regions_ok_last:
  "regions_ok w (r # rs) \<Longrightarrow> region_ok w (last (r # rs)) \<and> off w (rg_begin r) < off w (rg_end (last (r # rs))) \<and>
     (\<forall>s \<in> set (r # rs). off w (rg_begin r) \<le> off w (rg_begin s))"
proof (induction rs arbitrary: r)
  case Nil
  then show ?case by (simp add: region_ok_def)
next
  case (Cons s rs)
  have s: "regions_ok w (s # rs)" "region_ok w r" "off w (rg_end r) < off w (rg_begin s)" using Cons.prems by auto
  from Cons.IH[OF s(1)] s(2,3) Cons.prems show ?case by (auto simp: region_ok_def)
qed

lemma rq_acceptable_off:
  assumes "regions_ok w (rq_regions q)" "region_ok w reg"
  shows "rq_acceptable reg q"
proof (cases "rq_regions q")
  case Nil
  then show ?thesis by (simp add: rq_acceptable_def)
next
  case (Cons r rs)
  have l: "region_ok w (last (r # rs))" "off w (rg_begin r) < off w (rg_end (last (r # rs)))"
    using regions_ok_last[of w r rs] assms(1) Cons by auto
  have n: "near w (rg_begin r)" "near w (rg_end (last (r # rs)))" "near w (rg_begin reg)" "near w (rg_end reg)"
    using l(1) assms Cons by (auto simp: region_ok_def)
  have b: "off w (rg_begin reg) < off w (rg_end reg)" using assms(2) by (simp add: region_ok_def)
  have mm: "near w (seqMin (rg_begin r) (rg_begin reg))" "near w (seqMax (rg_end (last (r # rs))) (rg_end reg))"
    using n seq_near(5)[OF n(1,3)] seq_near(6)[OF n(2,4)] by (simp_all add: near_def min_def max_def)
  show ?thesis
    unfolding rq_acceptable_def Cons Let_def list.sel seq_near(4)[OF mm(1) n(2)] seq_near(4)[OF mm(1) n(4)]
      seq_near(4)[OF n(1) mm(2)] seq_near(4)[OF n(3) mm(2)] seq_near(5)[OF n(1,3)] seq_near(6)[OF n(2,4)]
    using l(2) b by auto
qed

text \<open>The first offset from \<open>k\<close> on that is missing.\<close>

definition first_missing :: "nat set \<Rightarrow> nat \<Rightarrow> nat" where
  "first_missing S k = (LEAST n. k \<le> n \<and> n \<notin> S)"

lemma first_missing_eqI: "k \<le> n \<Longrightarrow> n \<notin> S \<Longrightarrow> {k..<n} \<subseteq> S \<Longrightarrow> first_missing S k = n"
  unfolding first_missing_def by (rule Least_equality) (auto, meson atLeastLessThan_iff not_less subsetD)

lemma spans_beyond: "\<forall>s \<in> set rs. n < off w (rg_begin s) \<Longrightarrow> k \<le> n \<Longrightarrow> k \<notin> spans w rs"
  by (fastforce simp: spans_def span_def)

text \<open>
  Inserting a segment that ends at or beyond the next expected byte: the covered offsets are
  united, and the answer is the first byte from the next expected one on that is missing.
\<close>

lemma rq_insert_ok:
  assumes q: "rq_ok w q" and seg: "region_ok w (createRegionFromSegment s)"
    and nxt: "off w (rq_rcv_nxt q) \<le> off w (tg_end s)"
  shows "\<exists>n q'. rq_insertBytesFromSegment s q = Inr (n, q') \<and> rq_ok w q' \<and> rq_rcv_nxt q' = n \<and>
    rq_bytes w q' = rq_bytes w q \<union> span w (createRegionFromSegment s) \<and>
    off w n = first_missing (rq_bytes w q') (off w (rq_rcv_nxt q))"
proof -
  let ?seg = "createRegionFromSegment s" and ?k = "off w (rq_rcv_nxt q)"
  have rq: "regions_ok w (rq_regions q)" using q by (simp add: rq_ok_def)
  have "regions_ok w (rev (rev (rq_regions q)) @ [])" using rq by simp
  then obtain out where out: "rq_merge_loop (rev (rq_regions q)) ?seg [] = Inr out" "regions_ok w out"
    "spans w out = spans w (rq_regions q) \<union> span w ?seg"
    using rq_merge_loop_ok[OF _ seg, of "rev (rq_regions q)" "[]"] by auto
  have acc: "rq_acceptable ?seg q" by (rule rq_acceptable_off[OF rq seg])
  have segb: "rg_begin ?seg = tg_seq s" "rg_end ?seg = tg_end s"
    by (simp_all add: createRegionFromSegment_def region_new_def)
  have "spans w out \<noteq> {}" using out(3) seg by (auto simp: span_def region_ok_def)
  then obtain r rs where rrs: "out = r # rs" by (cases out) auto
  have r: "region_ok w r" "\<forall>t \<in> set rs. off w (rg_end r) < off w (rg_begin t)" using out(2) rrs by auto
  have front: "off w (rg_begin r) \<le> x" if x: "x \<in> spans w out" for x
  proof -
    obtain t where t: "t \<in> set out" "off w (rg_begin t) \<le> x" using x by (auto simp: spans_def span_def)
    have "off w (rg_begin r) \<le> off w (rg_begin t)"
      using regions_ok_last[of w r rs] out(2) rrs t(1) by auto
    then show ?thesis using t(2) by simp
  qed
  have ne: "near w (rq_rcv_nxt q)" "near w (rg_begin r)" "near w (rg_end r)"
    using q r(1) by (simp_all add: rq_ok_def region_ok_def)
  have ge: "seqGE (rq_rcv_nxt q) (rg_begin r) \<longleftrightarrow> off w (rg_begin r) \<le> ?k" by (rule seq_near(4)[OF ne(1,2)])
  let ?q1 = "q\<lparr>rq_regions := out\<rparr>"
  have run: "rq_insertBytesFromSegment s q =
      (let q2 = (if off w (rg_begin r) \<le> ?k then ?q1\<lparr>rq_rcv_nxt := rg_end r\<rparr> else ?q1) in Inr (rq_rcv_nxt q2, q2))"
    using acc out(1) rrs ge by (simp add: rq_insertBytesFromSegment_def rq_merge_def Let_def)
  show ?thesis
  proof (cases "off w (rg_begin r) \<le> ?k")
    case True
    have kr: "?k \<le> off w (rg_end r)"
    proof (rule ccontr)
      assume "\<not> ?k \<le> off w (rg_end r)"
      then have lt: "off w (rg_end r) < ?k" by simp
      have gap: "off w (rg_end r) \<notin> spans w out"
        unfolding rrs spans_simps using spans_beyond[OF r(2), of "off w (rg_end r)"] by (simp add: span_def)
      have "off w (rg_begin r) \<in> spans w out" using r(1) rrs by (simp add: span_def region_ok_def)
      moreover have "{off w (rg_begin r)..<off w (rg_end r)} \<subseteq> spans w out" using rrs by (auto simp: span_def)
      moreover have "?k \<le> off w (tg_end s)" by (rule nxt)
      ultimately have inq: "off w (rg_begin r) \<in> spans w (rq_regions q)"
        using gap lt out(3) r(1) by (auto simp: span_def segb region_ok_def)
      then obtain t ts where t: "rq_regions q = t # ts" by (cases "rq_regions q") auto
      have "\<forall>u \<in> set (t # ts). off w (rg_begin t) \<le> off w (rg_begin u)"
        using regions_ok_last[of w t ts] rq t by auto
      then have "off w (rg_begin t) \<le> off w (rg_begin r)"
        using inq t by (fastforce simp: spans_def span_def)
      then have "rg_end t = rq_rcv_nxt q" using q t True by (auto simp: rq_ok_def)
      then have "off w (rg_end r) \<in> span w t"
        using lt \<open>off w (rg_begin t) \<le> off w (rg_begin r)\<close> r(1) by (auto simp: span_def region_ok_def)
      then show False using gap out(3) t by auto
    qed
    have fm: "first_missing (spans w out) ?k = off w (rg_end r)"
      unfolding rrs spans_simps
      by (rule first_missing_eqI[OF kr])
         (use True spans_beyond[OF r(2), of "off w (rg_end r)"] in \<open>auto simp: span_def\<close>)
    show ?thesis using run True out fm ne r rrs
      by (auto simp: Let_def rq_ok_def rq_bytes_def)
  next
    case False
    have "?k \<notin> spans w out" using front[of ?k] False by auto
    then have "first_missing (spans w out) ?k = ?k" by (intro first_missing_eqI) auto
    then show ?thesis using run False out ne r rrs
      by (auto simp: Let_def rq_ok_def rq_bytes_def)
  qed
qed

section \<open>Extraction\<close>

lemma rq_extract_ok:
  assumes q: "rq_ok w q" and seq: "off w seq \<le> off w (rq_rcv_nxt q)"
  shows "\<exists>res q'. rq_extractBytesUpTo seq q = Inr (res, q') \<and> rq_ok w q' \<and> rq_rcv_nxt q' = rq_rcv_nxt q \<and>
    rq_bytes w q' = rq_bytes w q - {..<off w seq} \<and>
    res = (if rq_bytes w q \<inter> {..<off w seq} = {} then None else Some (card (rq_bytes w q \<inter> {..<off w seq})))"
proof -
  have ns: "near w seq" "near w (rq_rcv_nxt q)" using q seq by (simp_all add: rq_ok_def near_def)
  have le: "seqLE seq (rq_rcv_nxt q)" using seq seq_near(2)[OF ns] by simp
  show ?thesis
  proof (cases "rq_regions q")
    case Nil
    then show ?thesis using q le by (simp add: rq_extractBytesUpTo_def rq_extractTo_def rq_bytes_def)
  next
    case (Cons r rs)
    have r: "region_ok w r" "\<forall>t \<in> set rs. off w (rg_end r) < off w (rg_begin t)" "regions_ok w rs"
      using q Cons by (auto simp: rq_ok_def)
    have nr: "near w (rg_begin r)" "near w (rg_end r)" "off w (rg_begin r) < off w (rg_end r)"
      using r(1) by (simp_all add: region_ok_def)
    have fr: "off w (rq_rcv_nxt q) < off w (rg_begin r) \<or> rg_end r = rq_rcv_nxt q"
      using q Cons by (simp add: rq_ok_def)
    have after: "spans w rs \<inter> {..<off w seq} = {}"
    proof (cases "off w seq \<le> off w (rg_end r)")
      case True
      then show ?thesis using r(2) by (fastforce simp: spans_def span_def)
    next
      case False
      then show ?thesis using fr seq nr(3) by auto
    qed
    have below: "rq_bytes w q \<inter> {..<off w seq} = {off w (rg_begin r)..<min (off w (rg_end r)) (off w seq)}"
      using after Cons by (auto simp: rq_bytes_def span_def)
    have rest: "rq_bytes w q - {..<off w seq} = {max (off w (rg_begin r)) (off w seq)..<off w (rg_end r)} \<union> spans w rs"
      using after Cons by (auto simp: rq_bytes_def span_def)
    note cmp = seq_near(2)[OF ns(1) nr(1)] seq_near(4)[OF ns(1) nr(2)] seq_near(3)[OF ns(1) nr(1)] seq_near(1)[OF ns(1) nr(2)]
    consider (none) "off w seq \<le> off w (rg_begin r)"
      | (whole) "off w (rg_begin r) < off w seq" "off w (rg_end r) \<le> off w seq"
      | (part) "off w (rg_begin r) < off w seq" "off w seq < off w (rg_end r)" by linarith
    then show ?thesis
    proof cases
      case none
      then have "rq_extractBytesUpTo seq q = Inr (None, q)"
        using Cons le cmp by (simp add: rq_extractBytesUpTo_def rq_extractTo_def)
      then show ?thesis using q below rest none Cons by (auto simp: rq_bytes_def span_def)
    next
      case whole
      then have run: "rq_extractBytesUpTo seq q = Inr (Some (region_getLength r), q\<lparr>rq_regions := rs\<rparr>)"
        using Cons le cmp by (simp add: rq_extractBytesUpTo_def rq_extractTo_def)
      have len: "region_getLength r = off w (rg_end r) - off w (rg_begin r)"
        using nr(3) by (simp add: region_getLength_def unat_diff_near[of w])
      have "rq_ok w (q\<lparr>rq_regions := rs\<rparr>)"
        using q r fr seq whole nr(3) by (auto simp: rq_ok_def split: list.splits)
      then show ?thesis using run below rest whole len nr(3) by (auto simp: rq_bytes_def min_def)
    next
      case part
      let ?r' = "r\<lparr>rg_begin := seq\<rparr>"
      have run: "rq_extractBytesUpTo seq q =
          Inr (Some (region_getLength (region_new (rg_begin r) seq)), q\<lparr>rq_regions := ?r' # rs\<rparr>)"
        using Cons le cmp part by (simp add: rq_extractBytesUpTo_def rq_extractTo_def region_split_def)
      have len: "region_getLength (region_new (rg_begin r) seq) = off w seq - off w (rg_begin r)"
        using part by (simp add: region_getLength_def region_new_def unat_diff_near[of w])
      have "rq_ok w (q\<lparr>rq_regions := ?r' # rs\<rparr>)"
        using q r fr seq part ns(1) nr by (auto simp: rq_ok_def region_ok_def)
      then show ?thesis using run below rest part len by (auto simp: rq_bytes_def span_def min_def max_def)
    qed
  qed
qed

lemma rq_getLE_RE:
  assumes q: "rq_ok w q" and x: "near w x" "off w x \<in> rq_bytes w q"
  shows "\<exists>r \<in> set (rq_regions q). off w x \<in> span w r \<and> rq_getLE x q = rg_begin r"
proof -
  have ok: "\<forall>r \<in> set (rq_regions q). region_ok w r"
  proof -
    have "regions_ok w rs \<Longrightarrow> \<forall>r \<in> set rs. region_ok w r" for rs by (induction rs) auto
    moreover have "regions_ok w (rq_regions q)" using q by (simp add: rq_ok_def)
    ultimately show ?thesis by blast
  qed
  have iff: "seqLE (rg_begin r) x \<and> seqLess x (rg_end r) \<longleftrightarrow> off w x \<in> span w r" if "r \<in> set (rq_regions q)" for r
  proof -
    have n: "near w (rg_begin r)" "near w (rg_end r)" using ok that by (simp_all add: region_ok_def)
    show ?thesis using seq_near(2)[OF n(1) x(1)] seq_near(1)[OF x(1) n(2)] by (simp add: span_def)
  qed
  obtain r where "find (\<lambda>r. seqLE (rg_begin r) x \<and> seqLess x (rg_end r)) (rq_regions q) = Some r"
  proof (cases "find (\<lambda>r. seqLE (rg_begin r) x \<and> seqLess x (rg_end r)) (rq_regions q)")
    case None
    then show ?thesis using x(2) iff by (auto simp: find_None_iff rq_bytes_def spans_def)
  next
    case (Some r)
    then show ?thesis by (rule that)
  qed
  moreover from this have "r \<in> set (rq_regions q)" "seqLE (rg_begin r) x \<and> seqLess x (rg_end r)"
    by (auto simp: find_Some_iff)
  ultimately show ?thesis using iff by (auto simp: rq_getLE_def)
qed

lemma finite_spans: "finite (spans w rs)"
  by (simp add: spans_def span_def)

lemma buffered_bytes:
  assumes "regions_ok w rs"
  shows "fold (\<lambda>r bytes. bytes + of_nat (region_getLength r)) rs b = b + (of_nat (card (spans w rs)) :: u32)"
  using assms
proof (induction rs arbitrary: b)
  case Nil
  then show ?case by simp
next
  case (Cons r rs)
  have "span w r \<inter> spans w rs = {}" using Cons.prems by (fastforce simp: spans_def span_def)
  then have "card (spans w (r # rs)) = card (span w r) + card (spans w rs)"
    by (simp add: card_Un_disjoint finite_spans span_def)
  moreover have "card (span w r) = region_getLength r"
    using Cons.prems by (simp add: span_def region_getLength_def region_ok_def unat_diff_near[of w])
  ultimately show ?case using Cons by simp
qed

end
