(* ===== verification/TcpSendQueue.thy ===== *)
theory TcpSendQueue
  imports TcpSeq
begin

text \<open>
  The send queues of TCP
  (\<^verbatim>\<open>inet/src/transport/tcp/queues/TCPVirtualDataSendQueue.cc\<close> and \<^verbatim>\<open>TCPMsgBasedSendQueue.cc\<close>):
  the range of sequence numbers that the application has sent, and for the message based queue the
  messages with the sequence number after their last byte.
\<close>

section \<open>Bytes only\<close>

record send_queue =
  sq_begin :: u32
  sq_end :: u32

definition sq_new :: send_queue where
  "sq_new = \<lparr>sq_begin = 0, sq_end = 0\<rparr>"

definition sq_init :: "u32 \<Rightarrow> send_queue \<Rightarrow> send_queue" where
  "sq_init startSeq q = q\<lparr>sq_begin := startSeq, sq_end := startSeq\<rparr>"

definition sq_enqueueAppData :: "nat \<Rightarrow> send_queue \<Rightarrow> send_queue result" where
  "sq_enqueueAppData bytes q =
     (let q' = q\<lparr>sq_end := sq_end q + of_nat bytes\<rparr>
      in if seqLess (sq_end q') (sq_begin q') then Inl (RuntimeError ''Send queue is full'') else Inr q')"

definition sq_getBufferStartSeq :: "send_queue \<Rightarrow> u32" where
  "sq_getBufferStartSeq q = sq_begin q"

definition sq_getBufferEndSeq :: "send_queue \<Rightarrow> u32" where
  "sq_getBufferEndSeq q = sq_end q"

text \<open>\<open>getBytesAvailable\<close> of the base class \<open>TCPSendQueue\<close>.\<close>

definition sq_getBytesAvailable :: "u32 \<Rightarrow> send_queue \<Rightarrow> u32" where
  "sq_getBytesAvailable fromSeq q = (if seqLess fromSeq (sq_end q) then sq_end q - fromSeq else 0)"

definition sq_createSegmentWithBytes :: "u32 \<Rightarrow> u64 \<Rightarrow> send_queue \<Rightarrow> tcp_segment result" where
  "sq_createSegmentWithBytes fromSeq numBytes q =
     bindE (assertE (seqLE (sq_begin q) fromSeq \<and> seqLE (fromSeq + ucast numBytes) (sq_end q))) (\<lambda>_.
       Inr (segment_new\<lparr>tg_seq := fromSeq, tg_len := numBytes\<rparr>))"

definition sq_discardUpTo :: "u32 \<Rightarrow> send_queue \<Rightarrow> send_queue result" where
  "sq_discardUpTo seqNum q =
     bindE (assertE (seqLE (sq_begin q) seqNum \<and> seqLE seqNum (sq_end q))) (\<lambda>_. Inr (q\<lparr>sq_begin := seqNum\<rparr>))"

section \<open>Messages\<close>

record msg_send_queue =
  ms_begin :: u32
  ms_end :: u32
  ms_payload :: "(u32 \<times> int) list"

definition ms_new :: msg_send_queue where
  "ms_new = \<lparr>ms_begin = 0, ms_end = 0, ms_payload = []\<rparr>"

definition ms_init :: "u32 \<Rightarrow> msg_send_queue \<Rightarrow> msg_send_queue" where
  "ms_init startSeq q = q\<lparr>ms_begin := startSeq, ms_end := startSeq\<rparr>"

definition ms_enqueueAppData :: "int \<Rightarrow> nat \<Rightarrow> msg_send_queue \<Rightarrow> msg_send_queue result" where
  "ms_enqueueAppData msg bytes q =
     (let q' = q\<lparr>ms_end := ms_end q + of_nat bytes\<rparr>
      in if seqLess (ms_end q') (ms_begin q') then Inl (RuntimeError ''Send queue is full'')
         else Inr (q'\<lparr>ms_payload := ms_payload q' @ [(ms_end q', msg)]\<rparr>))"

definition ms_getBufferStartSeq :: "msg_send_queue \<Rightarrow> u32" where
  "ms_getBufferStartSeq q = ms_begin q"

definition ms_getBufferEndSeq :: "msg_send_queue \<Rightarrow> u32" where
  "ms_getBufferEndSeq q = ms_end q"

definition ms_createSegmentWithBytes :: "u32 \<Rightarrow> u64 \<Rightarrow> msg_send_queue \<Rightarrow> tcp_segment result" where
  "ms_createSegmentWithBytes fromSeq numBytes q =
     bindE (assertE (seqLE (ms_begin q) fromSeq \<and> seqLE (fromSeq + ucast numBytes) (ms_end q))) (\<lambda>_.
       let i = dropWhile (\<lambda>(e, m). seqLE e fromSeq) (ms_payload q);
           toSeq = fromSeq + ucast numBytes;
           msgs = takeWhile (\<lambda>(e, m). seqLE e toSeq) i
       in Inr (fold (\<lambda>(e, m). addPayloadMessage m e) msgs (segment_new\<lparr>tg_seq := fromSeq, tg_len := numBytes\<rparr>)))"

definition ms_discardUpTo :: "u32 \<Rightarrow> msg_send_queue \<Rightarrow> msg_send_queue result" where
  "ms_discardUpTo seqNum q =
     bindE (assertE (seqLE (ms_begin q) seqNum \<and> seqLE seqNum (ms_end q))) (\<lambda>_.
       Inr (q\<lparr>ms_begin := seqNum, ms_payload := dropWhile (\<lambda>(e, m). seqLE e seqNum) (ms_payload q)\<rparr>))"

end
