(* ===== verification/TcpConn.thy ===== *)
theory TcpConn
  imports TcpRcvQueue TcpSendQueue TcpSackQueue
begin

text \<open>
  The state of a TCP connection (\<^verbatim>\<open>inet/src/transport/tcp/TCPConnection.h\<close>) and the operations its
  event handlers share (\<^verbatim>\<open>TCPConnectionUtil.cc\<close>): timers, indications to the application, the
  acceptability test, the receive window and the sending of segments without data.  The queues are
  those of the transfer mode \<open>TCP_TRANSFER_BYTECOUNT\<close>.
\<close>

section \<open>State\<close>

datatype tcp_state = TCP_S_INIT | TCP_S_CLOSED | TCP_S_LISTEN | TCP_S_SYN_SENT | TCP_S_SYN_RCVD
  | TCP_S_ESTABLISHED | TCP_S_CLOSE_WAIT | TCP_S_LAST_ACK | TCP_S_FIN_WAIT_1 | TCP_S_FIN_WAIT_2
  | TCP_S_CLOSING | TCP_S_TIME_WAIT

datatype tcp_event = TCP_E_IGNORE | TCP_E_OPEN_ACTIVE | TCP_E_OPEN_PASSIVE | TCP_E_SEND | TCP_E_CLOSE
  | TCP_E_ABORT | TCP_E_STATUS | TCP_E_QUEUE_BYTES_LIMIT | TCP_E_RCV_DATA | TCP_E_RCV_ACK | TCP_E_RCV_SYN
  | TCP_E_RCV_SYN_ACK | TCP_E_RCV_FIN | TCP_E_RCV_FIN_ACK | TCP_E_RCV_RST | TCP_E_RCV_UNEXP_SYN
  | TCP_E_TIMEOUT_2MSL | TCP_E_TIMEOUT_CONN_ESTAB | TCP_E_TIMEOUT_FIN_WAIT_2

datatype tcp_indication = TCP_I_ESTABLISHED | TCP_I_PEER_CLOSED | TCP_I_CLOSED | TCP_I_CONNECTION_REFUSED
  | TCP_I_CONNECTION_RESET | TCP_I_TIMED_OUT | TCP_I_SEND_MSG u32

text \<open>
  \<open>TCPStateVariables\<close>, without the variables that no modelled operation reads or writes.  The variables
  of the option negotiation, of the SACK algorithm and of the congestion control follow in \<open>tcp_alg\<close>.
\<close>

record tcp_vars =
  tv_active :: bool
  tv_fork :: bool
  tv_snd_mss :: u32
  tv_snd_una :: u32
  tv_snd_nxt :: u32
  tv_snd_max :: u32
  tv_snd_wnd :: u32
  tv_snd_wl1 :: u32
  tv_snd_wl2 :: u32
  tv_iss :: u32
  tv_rcv_nxt :: u32
  tv_rcv_wnd :: u32
  tv_irs :: u32
  tv_rcv_adv :: u32
  tv_syn_rexmit_count :: int
  tv_syn_rexmit_timeout :: simtime
  tv_fin_ack_rcvd :: bool
  tv_send_fin :: bool
  tv_snd_fin_seq :: u32
  tv_fin_rcvd :: bool
  tv_rcv_fin_seq :: u32
  tv_sentBytes :: u32
  tv_nagle_enabled :: bool
  tv_delayed_acks_enabled :: bool
  tv_limited_transmit_enabled :: bool
  tv_increased_IW_enabled :: bool
  tv_full_sized_segment_counter :: u32
  tv_ack_now :: bool
  tv_afterRto :: bool
  tv_ws_support :: bool
  tv_ws_enabled :: bool
  tv_rcv_wnd_scale :: u32
  tv_snd_wnd_scale :: u32
  tv_ts_support :: bool
  tv_ts_enabled :: bool
  tv_ts_recent :: u32
  tv_time_last_data_sent :: simtime
  tv_sack_support :: bool
  tv_sack_enabled :: bool
  tv_start_seqno :: u32
  tv_end_seqno :: u32
  tv_snd_sack :: bool
  tv_snd_dsack :: bool
  tv_sendQueueLimit :: u32
  tv_queueUpdate :: bool
  tv_dupacks :: u32
  tv_rcv_oooseg :: u32
  tv_rcv_naseg :: u32
  tv_maxRcvBuffer :: u32
  tv_usedRcvBuffer :: u32
  tv_freeRcvBuffer :: u32
  tv_tcpRcvQueueDrops :: u32

definition tcp_vars_new :: tcp_vars where
  "tcp_vars_new = \<lparr>tv_active = False, tv_fork = False, tv_snd_mss = 0, tv_snd_una = 0, tv_snd_nxt = 0, tv_snd_max = 0,
     tv_snd_wnd = 0, tv_snd_wl1 = 0, tv_snd_wl2 = 0, tv_iss = 0, tv_rcv_nxt = 0, tv_rcv_wnd = 0, tv_irs = 0, tv_rcv_adv = 0,
     tv_syn_rexmit_count = 0, tv_syn_rexmit_timeout = 0, tv_fin_ack_rcvd = False, tv_send_fin = False, tv_snd_fin_seq = 0,
     tv_fin_rcvd = False, tv_rcv_fin_seq = 0, tv_sentBytes = 0, tv_nagle_enabled = False, tv_delayed_acks_enabled = False,
     tv_limited_transmit_enabled = False, tv_increased_IW_enabled = False, tv_full_sized_segment_counter = 0,
     tv_ack_now = False, tv_afterRto = False, tv_ws_support = False, tv_ws_enabled = False, tv_rcv_wnd_scale = 0,
     tv_snd_wnd_scale = 0, tv_ts_support = False, tv_ts_enabled = False, tv_ts_recent = 0, tv_time_last_data_sent = 0,
     tv_sack_support = False, tv_sack_enabled = False, tv_start_seqno = 0, tv_end_seqno = 0, tv_snd_sack = False,
     tv_snd_dsack = False, tv_sendQueueLimit = 0, tv_queueUpdate = True, tv_dupacks = 0, tv_rcv_oooseg = 0, tv_rcv_naseg = 0,
     tv_maxRcvBuffer = 0, tv_usedRcvBuffer = 0, tv_freeRcvBuffer = 0, tv_tcpRcvQueueDrops = 0\<rparr>"

text \<open>
  The other variables of \<open>TCPStateVariables\<close>, then those of \<open>TCPBaseAlgStateVariables\<close> and
  \<open>TCPTahoeRenoFamilyStateVariables\<close>, then the timers of \<open>TCPBaseAlg\<close>: the time they are scheduled for.
\<close>

record tcp_alg =
  ta_last_ack_sent :: u32
  ta_snd_ws :: bool
  ta_rcv_ws :: bool
  ta_snd_initial_ts :: bool
  ta_rcv_initial_ts :: bool
  ta_snd_sack_perm :: bool
  ta_rcv_sack_perm :: bool
  ta_sacks_array :: "sack list"
  ta_highRxt :: u32
  ta_pipe :: u32
  ta_recoveryPoint :: u32
  ta_sackedBytes :: u32
  ta_sackedBytes_old :: u32
  ta_lossRecovery :: bool
  ta_snd_sacks :: u32
  ta_rcv_sacks :: u32
  ta_rexmit_count :: int
  ta_rexmit_timeout :: simtime
  ta_persist_factor :: u32
  ta_persist_timeout :: simtime
  ta_snd_cwnd :: u32
  ta_rtseq :: u32
  ta_rtseq_sendtime :: simtime
  ta_srtt :: simtime
  ta_rttvar :: simtime
  ta_numRtos :: u32
  ta_recover :: u32
  ta_firstPartialACK :: bool
  ta_ssthresh :: u32
  ta_rexmitTimer :: "simtime option"
  ta_persistTimer :: "simtime option"
  ta_delayedAckTimer :: "simtime option"
  ta_keepAliveTimer :: "simtime option"

definition tcp_alg_new :: tcp_alg where
  "tcp_alg_new = \<lparr>ta_last_ack_sent = 0, ta_snd_ws = False, ta_rcv_ws = False, ta_snd_initial_ts = False,
     ta_rcv_initial_ts = False, ta_snd_sack_perm = False, ta_rcv_sack_perm = False, ta_sacks_array = [], ta_highRxt = 0,
     ta_pipe = 0, ta_recoveryPoint = 0, ta_sackedBytes = 0, ta_sackedBytes_old = 0, ta_lossRecovery = False,
     ta_snd_sacks = 0, ta_rcv_sacks = 0, ta_rexmit_count = 0, ta_rexmit_timeout = 3 * simtime_s, ta_persist_factor = 0,
     ta_persist_timeout = 5 * simtime_s, ta_snd_cwnd = 0, ta_rtseq = 0, ta_rtseq_sendtime = 0, ta_srtt = 0,
     ta_rttvar = 750 * simtime_ms, ta_numRtos = 0, ta_recover = 0, ta_firstPartialACK = False, ta_ssthresh = 65535,
     ta_rexmitTimer = None, ta_persistTimer = None, ta_delayedAckTimer = None, ta_keepAliveTimer = None\<rparr>"

text \<open>
  What leaves the connection: segments, indications and data (its length) to the application.  A
  timer of the connection is known by whether it is scheduled; the two timers of the connection setup are deleted in
  \<open>ESTABLISHED\<close>, which is \<open>None\<close>.
\<close>

datatype tcp_out = OutSegment tcp_segment | OutIndication tcp_indication | OutData nat

record tcp_conn =
  tc_state :: tcp_state
  tc_vars :: tcp_vars
  tc_sendQueue :: send_queue
  tc_receiveQueue :: rcv_queue
  tc_rexmitQueue :: rexmit_queue
  tc_remoteKnown :: bool
  tc_localPort :: int
  tc_remotePort :: int
  tc_the2MSLTimer :: bool
  tc_finWait2Timer :: bool
  tc_connEstabTimer :: "bool option"
  tc_synRexmitTimer :: "bool option"
  tc_out :: "tcp_out list"
  tc_alg :: tcp_alg
  tc_now :: simtime

definition setv :: "(tcp_vars \<Rightarrow> tcp_vars) \<Rightarrow> tcp_conn \<Rightarrow> tcp_conn" where
  "setv f c = c\<lparr>tc_vars := f (tc_vars c)\<rparr>"

definition seta :: "(tcp_alg \<Rightarrow> tcp_alg) \<Rightarrow> tcp_conn \<Rightarrow> tcp_conn" where
  "seta f c = c\<lparr>tc_alg := f (tc_alg c)\<rparr>"

text \<open>
  The calls that leave the modelled code: the virtual functions of the congestion control
  algorithm (\<open>TCPAlgorithm\<close>), the reading and writing of the header options, and the connection
  tables of the module \<open>TCP\<close>.  What they do to the connection is a parameter.  \<open>te_iss\<close> is the initial
  sequence number, which \<open>selectInitialSeqNum\<close> computes in floating point from the simulation
  time; \<open>te_toTS\<close>, \<open>te_fromTS\<close> and \<open>te_eighth\<close> are the floating point conversions between a
  time and a timestamp, and the product of the double 0.125 and a time; \<open>te_config\<close> holds the parameters of the module.
\<close>

datatype tcp_call = Initialize | Established bool | ConnectionClosed | AckSent | ReceivedDataAck u32
  | ReceivedDuplicateAck | ReceivedAckForDataNotYetSent u32 | ReceivedOutOfOrderSegment
  | ReceiveSeqChanged | RttMeasurementCompleteUsingTS u32 | RestartRexmitTimer | SendCommandInvoked
  | ReadHeaderOptions tcp_segment | AddSockPair | UpdateSockPair | AddForkedConnection
  | DataSent u32 | SegmentRetransmitted u32 u32

text \<open>The timers of the congestion control algorithm.\<close>

datatype alg_timer = RexmitTimer | PersistTimer | DelayedAckTimer | KeepAliveTimer

record tcp_config =
  cf_advertisedWindow :: int
  cf_windowScalingSupport :: bool
  cf_delayedAcksEnabled :: bool
  cf_nagleEnabled :: bool
  cf_limitedTransmitEnabled :: bool
  cf_increasedIWEnabled :: bool
  cf_mss :: int
  cf_timestampSupport :: bool
  cf_sackSupport :: bool
  cf_tcpAlgorithmClass :: string

record tcp_env =
  te_call :: "tcp_call \<Rightarrow> tcp_conn \<Rightarrow> tcp_conn result"
  te_writeHeaderOptions :: "tcp_segment \<Rightarrow> tcp_conn \<Rightarrow> (tcp_segment \<times> tcp_conn) result"
  te_algorithmTimer :: "alg_timer \<Rightarrow> tcp_conn \<Rightarrow> (tcp_event \<times> tcp_conn) result"
  te_iss :: u32
  te_toTS :: "simtime \<Rightarrow> u32"
  te_fromTS :: "u32 \<Rightarrow> simtime"
  te_eighth :: "simtime \<Rightarrow> simtime"
  te_ephemeralPort :: int
  te_config :: tcp_config

section \<open>Timers and output\<close>

text \<open>\<open>scheduleAt\<close> of the simulation kernel refuses a message that is already scheduled.\<close>

definition already_scheduled :: cpp_error where
  "already_scheduled = RuntimeError ''scheduleAt(): message is already scheduled''"

definition schedule_2MSL :: "tcp_conn \<Rightarrow> tcp_conn result" where
  "schedule_2MSL c = (if tc_the2MSLTimer c then Inl already_scheduled else Inr (c\<lparr>tc_the2MSLTimer := True\<rparr>))"

definition schedule_connEstab :: "tcp_conn \<Rightarrow> tcp_conn result" where
  "schedule_connEstab c = (case tc_connEstabTimer c of
      None \<Rightarrow> Inl (Undefined ''null timer'')
    | Some True \<Rightarrow> Inl already_scheduled
    | Some False \<Rightarrow> Inr (c\<lparr>tc_connEstabTimer := Some True\<rparr>))"

definition schedule_synRexmit :: "tcp_conn \<Rightarrow> tcp_conn result" where
  "schedule_synRexmit c = (case tc_synRexmitTimer c of
      None \<Rightarrow> Inl (Undefined ''null timer'')
    | Some True \<Rightarrow> Inl already_scheduled
    | Some False \<Rightarrow> Inr (c\<lparr>tc_synRexmitTimer := Some True\<rparr>))"

text \<open>\<open>cancelEvent\<close> of a timer that may have been deleted.\<close>

definition cancel_opt :: "bool option \<Rightarrow> bool option" where
  "cancel_opt = map_option (\<lambda>_. False)"

definition emit :: "tcp_out \<Rightarrow> tcp_conn \<Rightarrow> tcp_conn" where
  "emit x c = c\<lparr>tc_out := tc_out c @ [x]\<rparr>"

definition sendIndicationToApp :: "tcp_indication \<Rightarrow> tcp_conn \<Rightarrow> tcp_conn" where
  "sendIndicationToApp i c = emit (OutIndication i) c"

definition TCP_TIMEOUT_SYN_REXMIT :: simtime where
  "TCP_TIMEOUT_SYN_REXMIT = 3 * simtime_s"

definition startSynRexmitTimer :: "tcp_conn \<Rightarrow> tcp_conn result" where
  "startSynRexmitTimer c =
     (let c1 = setv (\<lambda>v. v\<lparr>tv_syn_rexmit_count := 0, tv_syn_rexmit_timeout := TCP_TIMEOUT_SYN_REXMIT\<rparr>) c
      in case tc_synRexmitTimer c1 of
           None \<Rightarrow> Inl (Undefined ''null timer'')
         | Some _ \<Rightarrow> schedule_synRexmit (c1\<lparr>tc_synRexmitTimer := Some False\<rparr>))"

section \<open>Acceptability\<close>

definition PAWS_IDLE_TIME_THRESH :: simtime where
  "PAWS_IDLE_TIME_THRESH = 24 * 24 * 3600 * simtime_s"

definition isSegmentAcceptable :: "tcp_segment \<Rightarrow> tcp_vars \<Rightarrow> bool" where
  "isSegmentAcceptable s v =
     (let len = (ucast (tg_len s) :: u32); seqNo = tg_seq s; ackNo = tg_ack s;
          rcvWndEnd = tv_rcv_nxt v + tv_rcv_wnd v;
          ret = (if len = 0
                 then (if tv_rcv_wnd v = 0 then seqNo = tv_rcv_nxt v
                       else seqLE (tv_rcv_nxt v) seqNo \<and> seqLE seqNo rcvWndEnd)
                 else (if tv_rcv_wnd v = 0 then False
                       else seqLE (tv_rcv_nxt v) seqNo \<and> seqLess seqNo rcvWndEnd \<or>
                            seqLess (tv_rcv_nxt v) (seqNo + len) \<and> seqLE (seqNo + len) rcvWndEnd))
      in if \<not> ret \<and> len = 0
         then (if \<not> tv_afterRto v then seqLess (tv_snd_una v) ackNo \<and> seqLE ackNo (tv_snd_nxt v)
               else seqLess (tv_snd_una v) ackNo \<and> seqLE ackNo (tv_snd_max v))
         else ret)"

section \<open>Windows\<close>

definition updateRcvQueueVars :: "tcp_conn \<Rightarrow> tcp_conn" where
  "updateRcvQueueVars c =
     (let free = rq_getAmountOfFreeBytes (tv_maxRcvBuffer (tc_vars c)) (tc_receiveQueue c)
      in setv (\<lambda>v. v\<lparr>tv_freeRcvBuffer := free, tv_usedRcvBuffer := tv_maxRcvBuffer v - free\<rparr>) c)"

definition TCP_MAX_WIN :: u32 where
  "TCP_MAX_WIN = 65535"

text \<open>The loop that scales the window: at most 14 shifts, \<open>scale\<close> counts them.\<close>

function scale_window :: "u32 \<Rightarrow> u32 \<Rightarrow> u32 \<times> u32" where
  "scale_window win scale =
     (if TCP_MAX_WIN < win \<and> scale < 14 then scale_window (drop_bit 1 win) (scale + 1) else (win, scale))"
  by auto
termination
proof (relation "measure (\<lambda>(win, scale). 14 - unat scale)", goal_cases)
  case (2 win scale)
  then have "unat scale < 14" by (simp add: word_less_nat_alt)
  moreover from this have "unat (scale + 1) = Suc (unat scale)" by (simp add: unat_Suc_word)
  ultimately show ?case by simp
qed simp

declare scale_window.simps [simp del]

definition updateRcvWnd :: "tcp_conn \<Rightarrow> (u16 \<times> tcp_conn) result" where
  "updateRcvWnd c =
     (let c1 = updateRcvQueueVars c; v = tc_vars c1;
          win0 = tv_freeRcvBuffer v;
          win1 = (if win0 < tv_maxRcvBuffer v div 4 \<and> win0 < tv_snd_mss v then 0 else win0);
          win2 = (if win1 < tv_rcv_adv v - tv_rcv_nxt v then tv_rcv_adv v - tv_rcv_nxt v else win1);
          win = (if TCP_MAX_WIN < win2 \<and> \<not> tv_ws_enabled v then TCP_MAX_WIN else win2);
          c2 = (if 0 < win \<and> seqGE (tv_rcv_nxt v + win) (tv_rcv_adv v)
                then setv (\<lambda>v. v\<lparr>tv_rcv_adv := tv_rcv_nxt v + win\<rparr>) c1 else c1);
          (scaled, scale) = (if tv_ws_enabled v then scale_window win 0 else (win, 0));
          c3 = setv (\<lambda>v. v\<lparr>tv_rcv_wnd := win, tv_rcv_wnd_scale := scale\<rparr>) c2
      in bindE (assertE (scaled = ucast (ucast scaled :: u16))) (\<lambda>_. Inr (ucast scaled, c3)))"

definition updateWndInfo :: "tcp_segment \<Rightarrow> bool \<Rightarrow> tcp_conn \<Rightarrow> tcp_conn" where
  "updateWndInfo s doAlways c =
     (let v = tc_vars c;
          true_window = (if tv_ws_enabled v \<and> \<not> tg_syn s
                         then push_bit (unat (tv_snd_wnd_scale v)) (ucast (tg_window s))
                         else (ucast (tg_window s) :: u32))
      in if doAlways \<or> tg_ackBit s \<and>
           (seqLess (tv_snd_wl1 v) (tg_seq s) \<or>
            tv_snd_wl1 v = tg_seq s \<and> seqLE (tv_snd_wl2 v) (tg_ack s) \<or>
            tv_snd_wl2 v = tg_ack s \<and> tv_snd_wnd v < true_window)
         then setv (\<lambda>v. v\<lparr>tv_snd_wnd := true_window, tv_snd_wl1 := tg_seq s, tv_snd_wl2 := tg_ack s\<rparr>) c
         else c)"

section \<open>Segments without data\<close>

definition TCP_MAX_HEADER_OCTETS :: nat where
  "TCP_MAX_HEADER_OCTETS = 60"

definition sendToIP :: "tcp_segment \<Rightarrow> tcp_conn \<Rightarrow> tcp_conn result" where
  "sendToIP s c =
     bindE (assertE (TCP_HEADER_OCTETS \<le> unat (tg_headerLength s))) (\<lambda>_.
     bindE (assertE (unat (tg_headerLength s) \<le> TCP_MAX_HEADER_OCTETS)) (\<lambda>_.
       Inr (emit (OutSegment (s\<lparr>tg_srcPort := of_int (tc_localPort c)\<rparr>)) (setv (\<lambda>v. v\<lparr>tv_sentBytes := ucast (tg_len s)\<rparr>) c))))"

definition sendSyn :: "tcp_env \<Rightarrow> tcp_conn \<Rightarrow> tcp_conn result" where
  "sendSyn env c =
     (if \<not> tc_remoteKnown c \<or> tc_remotePort c = -1
      then Inl (RuntimeError ''Error processing command OPEN_ACTIVE: foreign socket unspecified'')
      else if tc_localPort c = -1
      then Inl (RuntimeError ''Error processing command OPEN_ACTIVE: local port unspecified'')
      else bindE (updateRcvWnd c) (\<lambda>(_, c1).
        let s = segment_new\<lparr>tg_seq := tv_iss (tc_vars c), tg_syn := True, tg_window := ucast (tv_rcv_wnd (tc_vars c1))\<rparr>;
            c2 = setv (\<lambda>v. v\<lparr>tv_snd_nxt := tv_iss v + 1, tv_snd_max := tv_iss v + 1\<rparr>) c1
        in bindE (te_writeHeaderOptions env s c2) (\<lambda>(s', c3). sendToIP s' c3)))"

definition sendSynAck :: "tcp_env \<Rightarrow> tcp_conn \<Rightarrow> tcp_conn result" where
  "sendSynAck env c =
     bindE (updateRcvWnd c) (\<lambda>(_, c1).
       let s = segment_new\<lparr>tg_seq := tv_iss (tc_vars c), tg_ack := tv_rcv_nxt (tc_vars c), tg_syn := True,
                 tg_ackBit := True, tg_window := ucast (tv_rcv_wnd (tc_vars c1))\<rparr>;
           c2 = setv (\<lambda>v. v\<lparr>tv_snd_nxt := tv_iss v + 1, tv_snd_max := tv_iss v + 1\<rparr>) c1
       in bindE (te_writeHeaderOptions env s c2) (\<lambda>(s', c3).
          bindE (sendToIP s' c3) (\<lambda>c4. te_call env AckSent c4)))"

text \<open>\<open>sendRst\<close> sends without the final touches of \<open>sendToIP\<close>.\<close>

definition sendRst :: "u32 \<Rightarrow> tcp_conn \<Rightarrow> tcp_conn" where
  "sendRst seqNo c = emit (OutSegment (segment_new\<lparr>tg_rst := True, tg_seq := seqNo\<rparr>)) c"

definition sendAck :: "tcp_env \<Rightarrow> tcp_conn \<Rightarrow> tcp_conn result" where
  "sendAck env c =
     bindE (updateRcvWnd c) (\<lambda>(win, c1).
       let s = segment_new\<lparr>tg_ackBit := True, tg_seq := tv_snd_nxt (tc_vars c), tg_ack := tv_rcv_nxt (tc_vars c),
                 tg_window := win\<rparr>
       in bindE (te_writeHeaderOptions env s c1) (\<lambda>(s', c2).
          bindE (sendToIP s' c2) (\<lambda>c3. te_call env AckSent c3)))"

definition sendFin :: "tcp_env \<Rightarrow> tcp_conn \<Rightarrow> tcp_conn result" where
  "sendFin env c =
     bindE (updateRcvWnd c) (\<lambda>(win, c1).
       let s = segment_new\<lparr>tg_fin := True, tg_ackBit := True, tg_ack := tv_rcv_nxt (tc_vars c),
                 tg_seq := tv_snd_nxt (tc_vars c), tg_window := win\<rparr>
       in bindE (sendToIP s c1) (\<lambda>c2. te_call env AckSent c2))"

definition selectInitialSeqNum :: "tcp_env \<Rightarrow> tcp_conn \<Rightarrow> tcp_conn" where
  "selectInitialSeqNum env c =
     (let iss = te_iss env;
          c1 = setv (\<lambda>v. v\<lparr>tv_iss := iss, tv_snd_max := iss, tv_snd_nxt := iss, tv_snd_una := iss\<rparr>) c
      in c1\<lparr>tc_sendQueue := sq_init (iss + 1) (tc_sendQueue c1), tc_rexmitQueue := xq_init (iss + 1) (tc_rexmitQueue c1)\<rparr>)"

end
