(* ===== verification/TcpOptions.thy ===== *)
theory TcpOptions
  imports TcpConn
begin

text \<open>
  The header options of TCP: what \<open>readHeaderOptions\<close> takes from them and what \<open>writeHeaderOptions\<close> and
  \<open>addSacks\<close> put into a segment (\<^verbatim>\<open>inet/src/transport/tcp/TCPConnectionUtil.cc\<close> and
  \<^verbatim>\<open>TCPConnectionSackUtil.cc\<close>).
\<close>

section \<open>Reading\<close>

definition TCP_OPTIONS_MAX_SIZE :: nat where
  "TCP_OPTIONS_MAX_SIZE = 40"

definition TCP_OPTION_SACK_MIN_SIZE :: nat where
  "TCP_OPTION_SACK_MIN_SIZE = 10"

definition TCP_OPTION_TS_SIZE :: u32 where
  "TCP_OPTION_TS_SIZE = 12"

text \<open>The states in which a connection takes the options of the setup.\<close>

definition setup_state :: "tcp_state \<Rightarrow> bool" where
  "setup_state st \<longleftrightarrow> st = TCP_S_LISTEN \<or> st = TCP_S_SYN_SENT"

definition data_state :: "tcp_state \<Rightarrow> bool" where
  "data_state st \<longleftrightarrow> st = TCP_S_SYN_RCVD \<or> st = TCP_S_ESTABLISHED \<or> st = TCP_S_FIN_WAIT_1 \<or> st = TCP_S_FIN_WAIT_2"

text \<open>Each of these answers whether the option was taken.\<close>

definition processMSSOption :: "tcp_option \<Rightarrow> tcp_conn \<Rightarrow> (bool \<times> tcp_conn) result" where
  "processMSSOption opt c =
     (if to_length opt \<noteq> 4 then Inr (False, c)
      else if \<not> setup_state (tc_state c) then Inr (False, c)
      else if to_values opt = [] then Inl (RuntimeError ''TCPOption for MSS does not contain the data its getLength() promises'')
      else let mss = min (tv_snd_mss (tc_vars c)) (hd (to_values opt))
           in Inr (True, setv (\<lambda>v. v\<lparr>tv_snd_mss := if mss = 0 then 536 else mss\<rparr>) c))"

definition processWSOption :: "tcp_option \<Rightarrow> tcp_conn \<Rightarrow> (bool \<times> tcp_conn) result" where
  "processWSOption opt c =
     (if to_length opt \<noteq> 3 then Inr (False, c)
      else if \<not> setup_state (tc_state c) then Inr (False, c)
      else if to_values opt = [] then Inl (RuntimeError ''TCPOption for WS does not contain the data its getLength() promises'')
      else let c1 = seta (\<lambda>a. a\<lparr>ta_rcv_ws := True\<rparr>) c; scale = hd (to_values opt)
           in Inr (True, setv (\<lambda>v. v\<lparr>tv_ws_enabled := tv_ws_support v \<and> ta_snd_ws (tc_alg c1) \<and> ta_rcv_ws (tc_alg c1),
                                     tv_snd_wnd_scale := if 14 < scale then 14 else scale\<rparr>) c1))"

definition processTSOption :: "tcp_segment \<Rightarrow> tcp_option \<Rightarrow> tcp_conn \<Rightarrow> (bool \<times> tcp_conn) result" where
  "processTSOption s opt c =
     (let en = tv_ts_enabled (tc_vars c) in
      if to_length opt \<noteq> 10 then Inr (False, c)
      else if \<not> en \<and> \<not> setup_state (tc_state c) \<or> en \<and> \<not> data_state (tc_state c) then Inr (False, c)
      else if length (to_values opt) \<noteq> 2 then Inl (RuntimeError ''TCPOption for TS does not contain the data its getLength() promises'')
      else
        let c1 = (if \<not> en
                  then let c0 = seta (\<lambda>a. a\<lparr>ta_rcv_initial_ts := True\<rparr>) c
                       in setv (\<lambda>v. v\<lparr>tv_ts_enabled := tv_ts_support v \<and> ta_snd_initial_ts (tc_alg c0) \<and> ta_rcv_initial_ts (tc_alg c0)\<rparr>) c0
                  else c);
            v = tc_vars c1; tsval = to_values opt ! 0
        in if tv_ts_enabled v
           then if seqLess tsval (tv_ts_recent v)
                then Inr (\<not> PAWS_IDLE_TIME_THRESH < tc_now c1 - tv_time_last_data_sent v, c1)
                else if seqLE (tg_seq s) (ta_last_ack_sent (tc_alg c1))
                then Inr (True, setv (\<lambda>v. v\<lparr>tv_ts_recent := tsval\<rparr>) c1)
                else Inr (True, c1)
           else Inr (True, c1))"

definition processSACKPermittedOption :: "tcp_option \<Rightarrow> tcp_conn \<Rightarrow> (bool \<times> tcp_conn) result" where
  "processSACKPermittedOption opt c =
     (if to_length opt \<noteq> 2 then Inr (False, c)
      else if \<not> setup_state (tc_state c) then Inr (False, c)
      else let c1 = seta (\<lambda>a. a\<lparr>ta_rcv_sack_perm := True\<rparr>) c
           in Inr (True, setv (\<lambda>v. v\<lparr>tv_sack_enabled :=
                      tv_sack_support v \<and> ta_snd_sack_perm (tc_alg c1) \<and> ta_rcv_sack_perm (tc_alg c1)\<rparr>) c1))"

text \<open>The blocks of a SACK option; an odd value at the end is ignored.\<close>

fun sack_blocks :: "u32 list \<Rightarrow> sack list" where
  "sack_blocks (a # b # vs) = \<lparr>sk_start = a, sk_end = b\<rparr> # sack_blocks vs"
| "sack_blocks _ = []"

text \<open>
  Every block beyond the acknowledgment number and \<open>snd_una\<close> is entered into the retransmission queue;
  what the code finds out about duplicate SACKs it only logs.
\<close>

fun sack_all :: "u32 \<Rightarrow> u32 \<Rightarrow> sack list \<Rightarrow> rexmit_queue \<Rightarrow> rexmit_queue result" where
  "sack_all ackNo una [] q = Inr q"
| "sack_all ackNo una (b # bs) q =
     bindE (if seqGreater (sk_end b) ackNo \<and> seqGreater (sk_end b) una
            then xq_setSackedBit (sk_start b) (sk_end b) q else Inr q) (sack_all ackNo una bs)"

definition processSACKOption :: "tcp_segment \<Rightarrow> tcp_option \<Rightarrow> tcp_conn \<Rightarrow> (bool \<times> tcp_conn) result" where
  "processSACKOption s opt c =
     (if to_length opt mod 8 \<noteq> 2 then Inr (False, c)
      else if \<not> tv_sack_enabled (tc_vars c) then Inr (False, c)
      else if \<not> data_state (tc_state c) then Inr (False, c)
      else
        let blocks = sack_blocks (to_values opt); n = of_nat (length blocks) in
        if blocks = [] then Inr (True, c)
        else bindE (sack_all (tg_ack s) (tv_snd_una (tc_vars c)) blocks (tc_rexmitQueue c)) (\<lambda>xq.
          Inr (True, seta (\<lambda>a. a\<lparr>ta_rcv_sacks := ta_rcv_sacks a + n, ta_sackedBytes_old := ta_sackedBytes a,
                               ta_sackedBytes := xq_getTotalAmountOfSackedBytes xq\<rparr>) (c\<lparr>tc_rexmitQueue := xq\<rparr>))))"

definition process_option :: "tcp_segment \<Rightarrow> tcp_option \<Rightarrow> tcp_conn \<Rightarrow> (bool \<times> tcp_conn) result" where
  "process_option s opt c =
     (let kind = to_kind opt in
      if kind = TCPOPTION_END_OF_OPTION_LIST \<or> kind = TCPOPTION_NO_OPERATION then Inr (to_length opt = 1, c)
      else if kind = TCPOPTION_MAXIMUM_SEGMENT_SIZE then processMSSOption opt c
      else if kind = TCPOPTION_WINDOW_SCALE then processWSOption opt c
      else if kind = TCPOPTION_SACK_PERMITTED then processSACKPermittedOption opt c
      else if kind = TCPOPTION_SACK then processSACKOption s opt c
      else if kind = TCPOPTION_TIMESTAMP then processTSOption s opt c
      else Inr (True, c))"

fun read_options :: "tcp_segment \<Rightarrow> tcp_option list \<Rightarrow> tcp_conn \<Rightarrow> tcp_conn result" where
  "read_options s [] c = Inr c"
| "read_options s (opt # opts) c = bindE (process_option s opt c) (\<lambda>(ok, c1). read_options s opts c1)"

definition readHeaderOptions :: "tcp_segment \<Rightarrow> tcp_conn \<Rightarrow> tcp_conn result" where
  "readHeaderOptions s c = read_options s (tg_options s) c"

section \<open>SACK blocks to send\<close>

text \<open>The blocks that an acknowledgment has overtaken are deleted.\<close>

fun sacks_expire :: "u32 \<Rightarrow> sack list \<Rightarrow> sack list result" where
  "sacks_expire rcv_nxt [] = Inr []"
| "sacks_expire rcv_nxt (b # bs) =
     (if seqLE (sk_end b) rcv_nxt \<or> sack_empty b then sacks_expire rcv_nxt bs
      else bindE (assertE (seqGE (sk_start b) rcv_nxt)) (\<lambda>_. bindE (sacks_expire rcv_nxt bs) (\<lambda>bs'. Inr (b # bs'))))"

text \<open>Every block deletes the later ones it contains.\<close>

function sacks_prune :: "sack list \<Rightarrow> sack list result" where
  "sacks_prune [] = Inr []"
| "sacks_prune (b # bs) =
     bindE (assertE (\<not> sack_empty b)) (\<lambda>_.
     bindE (sacks_prune (filter (\<lambda>x. \<not> sack_contains b x) bs)) (\<lambda>bs'. Inr (b # bs')))"
  by pat_completeness auto
termination
  by (relation "measure length") (auto simp: le_imp_less_Suc)

definition sacks_insert :: "tcp_conn \<Rightarrow> sack list \<Rightarrow> sack list result" where
  "sacks_insert c bs =
     (let v = tc_vars c; start = tv_start_seqno v; end = tv_end_seqno v in
      if start = end then Inr bs
      else if tv_snd_dsack v
      then let end' = (if seqLess start (tv_rcv_nxt v) \<and> seqLess (tv_rcv_nxt v) end then tv_rcv_nxt v else end)
           in bindE (sacks_prune bs) (\<lambda>bs'. Inr (\<lparr>sk_start = start, sk_end = end'\<rparr> # bs'))
      else sacks_prune (\<lparr>sk_start = rq_getLE start (tc_receiveQueue c), sk_end = rq_getRE end (tc_receiveQueue c)\<rparr> # bs))"

definition sacks_done :: "tcp_conn \<Rightarrow> tcp_conn" where
  "sacks_done c = setv (\<lambda>v. v\<lparr>tv_snd_sack := False, tv_snd_dsack := False, tv_start_seqno := 0, tv_end_seqno := 0\<rparr>) c"

definition nop_option :: tcp_option where
  "nop_option = \<lparr>to_kind = TCPOPTION_NO_OPERATION, to_length = 1, to_values = []\<rparr>"

text \<open>The option for a list of blocks; no block may be without a number.\<close>

definition sack_option :: "sack list \<Rightarrow> tcp_option result" where
  "sack_option bs =
     bindE (assertE (\<forall>b \<in> set bs. sk_start b \<noteq> sk_end b)) (\<lambda>_.
       Inr \<lparr>to_kind = TCPOPTION_SACK, to_length = of_nat (8 * length bs + 2),
            to_values = concat (map (\<lambda>b. [sk_start b, sk_end b]) bs)\<rparr>)"

definition addSacks :: "tcp_segment \<Rightarrow> tcp_conn \<Rightarrow> (tcp_segment \<times> tcp_conn) result" where
  "addSacks s c =
     (let used = unat (getOptionsArrayLength s) in
      bindE (sacks_expire (tv_rcv_nxt (tc_vars c)) (ta_sacks_array (tc_alg c))) (\<lambda>bs.
      let c1 = seta (\<lambda>a. a\<lparr>ta_sacks_array := bs\<rparr>) c in
      if TCP_OPTIONS_MAX_SIZE - TCP_OPTION_SACK_MIN_SIZE < used then Inr (s, sacks_done c1)
      else
        let dsack_inserted = (tv_start_seqno (tc_vars c1) \<noteq> tv_end_seqno (tc_vars c1) \<and> tv_snd_dsack (tc_vars c1)) in
        bindE (sacks_insert c1 bs) (\<lambda>bs1.
        let maxnode = (TCP_OPTIONS_MAX_SIZE - used - 2) div 8; n = min (length bs1) maxnode;
            bs2 = (if dsack_inserted then tl bs1 else bs1);
            c2 = seta (\<lambda>a. a\<lparr>ta_sacks_array := bs2\<rparr>) c1
        in if n = 0 then Inr (s, sacks_done c2)
           else
             let pad = (if used mod 4 \<le> 2 then 2 - used mod 4 else 3) in
             bindE (sack_option (take n bs1)) (\<lambda>opt.
             bindE (assertE (used + pad + 8 * n + 2 \<le> TCP_OPTIONS_MAX_SIZE)) (\<lambda>_.
               Inr (s\<lparr>tg_options := tg_options s @ replicate pad nop_option @ [opt]\<rparr>,
                    sacks_done (seta (\<lambda>a. a\<lparr>ta_snd_sacks := ta_snd_sacks a + of_nat n\<rparr>) c2)))))))"

section \<open>Writing\<close>

text \<open>
  The parts of \<open>writeHeaderOptions\<close>, each a list of options and the connection.  The segment comes
  without options: the callers have just created it.
\<close>

definition option_phase :: "tcp_conn \<Rightarrow> bool" where
  "option_phase c \<longleftrightarrow> tc_state c = TCP_S_INIT \<or> tc_state c = TCP_S_SYN_SENT \<and> 0 < tv_syn_rexmit_count (tc_vars c)"

definition write_mss :: "tcp_conn \<Rightarrow> tcp_option list \<times> tcp_conn" where
  "write_mss c =
     (if 0 < tv_snd_mss (tc_vars c)
      then ([\<lparr>to_kind = TCPOPTION_MAXIMUM_SEGMENT_SIZE, to_length = 4, to_values = [tv_snd_mss (tc_vars c)]\<rparr>], c)
      else ([], c))"

definition write_ws :: "tcp_conn \<Rightarrow> tcp_option list \<times> tcp_conn" where
  "write_ws c =
     (let v = tc_vars c in
      if tv_ws_support v \<and> (ta_rcv_ws (tc_alg c) \<or> option_phase c)
      then let scale = snd (scale_window (rq_getFirstSeqNo (tc_receiveQueue c) + tv_maxRcvBuffer v - tv_rcv_nxt v) 0);
               c1 = seta (\<lambda>a. a\<lparr>ta_snd_ws := True\<rparr>) c
           in ([nop_option, \<lparr>to_kind = TCPOPTION_WINDOW_SCALE, to_length = 3, to_values = [scale]\<rparr>],
               setv (\<lambda>v. v\<lparr>tv_rcv_wnd_scale := scale,
                          tv_ws_enabled := tv_ws_support v \<and> ta_snd_ws (tc_alg c1) \<and> ta_rcv_ws (tc_alg c1)\<rparr>) c1)
      else ([], c))"

definition write_sack_permitted :: "tcp_conn \<Rightarrow> tcp_option list \<times> tcp_conn" where
  "write_sack_permitted c =
     (let v = tc_vars c in
      if tv_sack_support v \<and> (ta_rcv_sack_perm (tc_alg c) \<or> option_phase c)
      then let c1 = seta (\<lambda>a. a\<lparr>ta_snd_sack_perm := True\<rparr>) c
           in ((if tv_ts_support v then [] else [nop_option, nop_option]) @
               [\<lparr>to_kind = TCPOPTION_SACK_PERMITTED, to_length = 2, to_values = []\<rparr>],
               setv (\<lambda>v. v\<lparr>tv_sack_enabled := tv_sack_support v \<and> ta_snd_sack_perm (tc_alg c1) \<and> ta_rcv_sack_perm (tc_alg c1)\<rparr>) c1)
      else ([], c))"

definition ts_option :: "tcp_env \<Rightarrow> tcp_segment \<Rightarrow> tcp_conn \<Rightarrow> tcp_option" where
  "ts_option env s c = \<lparr>to_kind = TCPOPTION_TIMESTAMP, to_length = 10,
     to_values = [te_toTS env (tc_now c), if tg_ackBit s then tv_ts_recent (tc_vars c) else 0]\<rparr>"

definition write_initial_ts :: "tcp_env \<Rightarrow> tcp_segment \<Rightarrow> tcp_conn \<Rightarrow> tcp_option list \<times> tcp_conn" where
  "write_initial_ts env s c =
     (let v = tc_vars c in
      if tv_ts_support v \<and> (ta_rcv_initial_ts (tc_alg c) \<or> option_phase c)
      then let c1 = seta (\<lambda>a. a\<lparr>ta_snd_initial_ts := True\<rparr>) c
           in ((if tv_sack_support v then [] else [nop_option, nop_option]) @ [ts_option env s c],
               setv (\<lambda>v. v\<lparr>tv_ts_enabled := tv_ts_support v \<and> ta_snd_initial_ts (tc_alg c1) \<and> ta_rcv_initial_ts (tc_alg c1)\<rparr>) c1)
      else ([], c))"

definition write_syn_options :: "tcp_env \<Rightarrow> tcp_segment \<Rightarrow> tcp_conn \<Rightarrow> tcp_segment \<times> tcp_conn" where
  "write_syn_options env s c =
     (case write_mss c of (o1, c1) \<Rightarrow> case write_ws c1 of (o2, c2) \<Rightarrow> case write_sack_permitted c2 of (o3, c3) \<Rightarrow>
      case write_initial_ts env s c3 of (o4, c4) \<Rightarrow> (s\<lparr>tg_options := o1 @ o2 @ o3 @ o4\<rparr>, c4))"

text \<open>The options of a segment after the setup: the timestamp and the SACK blocks.\<close>

definition sacks_due :: "tcp_vars \<Rightarrow> bool" where
  "sacks_due v \<longleftrightarrow> tv_sack_enabled v \<and> (tv_snd_sack v \<or> tv_snd_dsack v)"

definition write_data_options :: "tcp_env \<Rightarrow> tcp_segment \<Rightarrow> tcp_conn \<Rightarrow> (tcp_segment \<times> tcp_conn) result" where
  "write_data_options env s c =
     (let v = tc_vars c;
          ts = (if tv_ts_enabled v
                then (if sacks_due v then [] else [nop_option, nop_option]) @ [ts_option env s c] else []);
          s1 = s\<lparr>tg_options := ts\<rparr>
      in if sacks_due v then addSacks s1 c else Inr (s1, c))"

text \<open>The length of the header, or all options dropped when they are too long.\<close>

definition set_header_length :: "tcp_segment \<Rightarrow> tcp_segment" where
  "set_header_length s =
     (if tg_options s = [] then s
      else let len = getOptionsArrayLength s
           in if unat len \<le> TCP_OPTIONS_MAX_SIZE then s\<lparr>tg_headerLength := of_nat TCP_HEADER_OCTETS + len\<rparr>
              else s\<lparr>tg_headerLength := of_nat TCP_HEADER_OCTETS, tg_options := []\<rparr>)"

definition writeHeaderOptions :: "tcp_env \<Rightarrow> tcp_segment \<Rightarrow> tcp_conn \<Rightarrow> (tcp_segment \<times> tcp_conn) result" where
  "writeHeaderOptions env s c =
     (let st = tc_state c in
      bindE (if tg_syn s \<and> (st = TCP_S_INIT \<or> st = TCP_S_LISTEN \<or>
                  (st = TCP_S_SYN_SENT \<or> st = TCP_S_SYN_RCVD) \<and> 0 < tv_syn_rexmit_count (tc_vars c))
             then Inr (write_syn_options env s c)
             else if st = TCP_S_SYN_SENT \<or> data_state st then write_data_options env s c
             else Inr (s, c)) (\<lambda>(s1, c1).
        Inr (set_header_length s1, c1)))"

end
