(* ===== verification/TcpSend.thy ===== *)
theory TcpSend
  imports TcpOptions
begin

text \<open>
  The sending of data (\<^verbatim>\<open>inet/src/transport/tcp/TCPConnectionUtil.cc\<close>): one segment, the segments that
  the windows allow, probes and retransmissions.  The calls of the congestion control go through the
  parameter \<open>env\<close>.
\<close>

section \<open>One segment\<close>

text \<open>After a timeout, what the scoreboard marks as SACKed or sent again is skipped.\<close>

definition forward_snd_nxt :: "tcp_conn \<Rightarrow> tcp_conn result" where
  "forward_snd_nxt c =
     (if tv_sack_enabled (tc_vars c) \<and> tv_afterRto (tc_vars c)
      then bindE (xq_checkRexmitQueueForSackedOrRexmittedSegments (tv_snd_nxt (tc_vars c)) (tc_rexmitQueue c)) (\<lambda>forward.
             Inr (if 0 < forward then setv (\<lambda>v. v\<lparr>tv_snd_nxt := tv_snd_nxt v + forward\<rparr>) c else c))
      else Inr c)"

text \<open>The application is told when the queue has room for a segment again.\<close>

definition abate_queue :: "tcp_conn \<Rightarrow> tcp_conn" where
  "abate_queue c =
     (let v = tc_vars c; q = tc_sendQueue c; limit = tv_sendQueueLimit v;
          alreadyQueued = sq_getBytesAvailable (sq_getBufferStartSeq q) q;
          abated = (if alreadyQueued < limit then limit - alreadyQueued else 0)
      in if 0 < limit \<and> \<not> tv_queueUpdate v \<and> tv_snd_mss v \<le> abated
         then setv (\<lambda>v. v\<lparr>tv_queueUpdate := True\<rparr>) (sendIndicationToApp (TCP_I_SEND_MSG abated) c)
         else c)"

text \<open>
  The steps behind the choice of the length: the segment, the retransmission queue, the window and
  the FIN.  \<open>tmp\<close> carries the options.
\<close>

definition send_bytes :: "tcp_segment \<Rightarrow> u32 \<Rightarrow> tcp_conn \<Rightarrow> tcp_conn result" where
  "send_bytes tmp bytes c =
     (let c1 = setv (\<lambda>v. v\<lparr>tv_sentBytes := bytes\<rparr>) c; v = tc_vars c1 in
      bindE (sq_createSegmentWithBytes (tv_snd_nxt v) (ucast bytes) (tc_sendQueue c1)) (\<lambda>s.
      bindE (if tv_sack_enabled v then xq_enqueueSentData (tv_snd_nxt v) (tv_snd_nxt v + bytes) (tc_rexmitQueue c1)
             else Inr (tc_rexmitQueue c1)) (\<lambda>xq.
      bindE (updateRcvWnd (c1\<lparr>tc_rexmitQueue := xq\<rparr>)) (\<lambda>(win, c2).
      bindE (assertE (ucast bytes = tg_len s)) (\<lambda>_.
      let c3 = setv (\<lambda>v. v\<lparr>tv_snd_nxt := tv_snd_nxt v + bytes\<rparr>) c2;
          c4 = (if tv_afterRto (tc_vars c3) \<and> seqGE (tv_snd_nxt (tc_vars c3)) (tv_snd_max (tc_vars c3))
                then setv (\<lambda>v. v\<lparr>tv_afterRto := False\<rparr>) c3 else c3);
          fin = (tv_send_fin (tc_vars c4) \<and> tv_snd_nxt (tc_vars c4) = tv_snd_fin_seq (tc_vars c4));
          c5 = (if fin then setv (\<lambda>v. v\<lparr>tv_snd_nxt := tv_snd_fin_seq v + 1\<rparr>) c4 else c4);
          s' = s\<lparr>tg_ack := tv_rcv_nxt v, tg_ackBit := True, tg_window := win, tg_fin := fin,
                 tg_options := tg_options tmp, tg_headerLength := tg_headerLength tmp\<rparr>
      in bindE (sendToIP s' c5) (\<lambda>c6. Inr (abate_queue c6)))))))"

definition sendSegment :: "tcp_env \<Rightarrow> u32 \<Rightarrow> tcp_conn \<Rightarrow> tcp_conn result" where
  "sendSegment env bytes0 c =
     bindE (forward_snd_nxt c) (\<lambda>c1.
     let buffered = sq_getBytesAvailable (tv_snd_nxt (tc_vars c1)) (tc_sendQueue c1);
         bytes1 = (if buffered < bytes0 then buffered else bytes0)
     in bindE (te_writeHeaderOptions env (segment_new\<lparr>tg_ackBit := True\<rparr>) c1) (\<lambda>(tmp, c2).
        let options_len = ucast (tg_headerLength tmp) - of_nat TCP_HEADER_OCTETS; mss = tv_snd_mss (tc_vars c2)
        in bindE (assertE (options_len < mss)) (\<lambda>_.
           send_bytes tmp (if mss < bytes1 + options_len then mss - options_len else bytes1) c2)))"

section \<open>The segments that the windows allow\<close>

text \<open>
  The loop \<open>while (bytesToSend >= effectiveMaxBytesSend)\<close>; the difference is one of \<open>unsigned long\<close>.
\<close>

partial_function (option) send_loop :: "tcp_env \<Rightarrow> u32 \<Rightarrow> u64 \<Rightarrow> tcp_conn \<Rightarrow> (u64 \<times> tcp_conn) result option" where
  "send_loop env effectiveMaxBytesSend bytesToSend c =
     (if ucast effectiveMaxBytesSend \<le> bytesToSend
      then case sendSegment env (tv_snd_mss (tc_vars c)) c of
             Inl e \<Rightarrow> Some (Inl e)
           | Inr c' \<Rightarrow> send_loop env effectiveMaxBytesSend (bytesToSend - ucast (tv_sentBytes (tc_vars c'))) c'
      else Some (Inr (bytesToSend, c)))"

text \<open>How many bytes may be sent now, \<open>None\<close> when nothing is sent.\<close>

definition effective_max :: "tcp_vars \<Rightarrow> u32" where
  "effective_max v = tv_snd_mss v - (if tv_ts_enabled v then TCP_OPTION_TS_SIZE else 0)"

definition bytes_to_send :: "bool \<Rightarrow> u32 \<Rightarrow> tcp_conn \<Rightarrow> u64 option" where
  "bytes_to_send fullSegmentsOnly congestionWindow c =
     (let v = tc_vars c; buffered = sq_getBytesAvailable (tv_snd_nxt v) (tc_sendQueue c);
          maxWindow = min (tv_snd_wnd v) congestionWindow;
          effectiveWin = uint maxWindow - uint (tv_snd_nxt v - tv_snd_una v);
          bytesToSend = (if uint buffered < effectiveWin then ucast buffered else of_int effectiveWin :: u64)
      in if buffered = 0 \<or> effectiveWin \<le> 0 then None
         else if fullSegmentsOnly \<and> bytesToSend < ucast (effective_max v) then None
         else Some bytesToSend)"

definition raise_snd_max :: "tcp_conn \<Rightarrow> tcp_conn" where
  "raise_snd_max c = setv (\<lambda>v. v\<lparr>tv_snd_max := if seqGreater (tv_snd_nxt v) (tv_snd_max v) then tv_snd_nxt v else tv_snd_max v\<rparr>) c"

definition sendData :: "tcp_env \<Rightarrow> bool \<Rightarrow> u32 \<Rightarrow> tcp_conn \<Rightarrow> (bool \<times> tcp_conn) result" where
  "sendData env fullSegmentsOnly congestionWindow c0 =
     (let c = (if \<not> tv_afterRto (tc_vars c0) then setv (\<lambda>v. v\<lparr>tv_snd_nxt := tv_snd_max v\<rparr>) c0 else c0);
          old_highRxt = (if tv_sack_enabled (tc_vars c) then xq_getHighestRexmittedSeqNum (tc_rexmitQueue c) else 0);
          old_snd_nxt = tv_snd_nxt (tc_vars c)
      in case bytes_to_send fullSegmentsOnly congestionWindow c of
           None \<Rightarrow> Inr (False, c)
         | Some bts \<Rightarrow>
             bindE (if bts \<le> ucast (tv_snd_mss (tc_vars c))
                    then bindE (sendSegment env (ucast bts) c) (\<lambda>c1. Inr (bts - ucast (tv_sentBytes (tc_vars c1)), c1))
                    else returns (send_loop env (effective_max (tc_vars c)) bts c)) (\<lambda>(left, c1).
             let buffered = sq_getBytesAvailable (tv_snd_nxt (tc_vars c1)) (tc_sendQueue c1) in
             bindE (if left = ucast buffered \<and> buffered \<noteq> 0 then sendSegment env (ucast left) c1 else Inr c1) (\<lambda>c2.
             bindE (te_call env AckSent (raise_snd_max c2)) (\<lambda>c3.
             bindE (te_call env (if tv_sack_enabled (tc_vars c3) \<and> ta_lossRecovery (tc_alg c3) \<and>
                                    old_highRxt \<noteq> ta_highRxt (tc_alg c3)
                                 then RestartRexmitTimer else DataSent old_snd_nxt) c3) (\<lambda>c4.
               Inr (True, c4))))))"

definition sendProbe :: "tcp_env \<Rightarrow> tcp_conn \<Rightarrow> (bool \<times> tcp_conn) result" where
  "sendProbe env c0 =
     (let c = setv (\<lambda>v. v\<lparr>tv_snd_nxt := tv_snd_max v\<rparr>) c0; old_snd_nxt = tv_snd_nxt (tc_vars c) in
      if sq_getBytesAvailable (tv_snd_nxt (tc_vars c)) (tc_sendQueue c) = 0 then Inr (False, c)
      else bindE (sendSegment env 1 c) (\<lambda>c1.
           bindE (te_call env AckSent (setv (\<lambda>v. v\<lparr>tv_snd_max := tv_snd_nxt v\<rparr>) c1)) (\<lambda>c2.
           bindE (te_call env (DataSent old_snd_nxt) c2) (\<lambda>c3. Inr (True, c3)))))"

section \<open>Retransmission\<close>

text \<open>A FIN without data that has to be sent again: \<open>snd_nxt\<close> and \<open>snd_max\<close> end behind it.\<close>

definition resend_fin :: "tcp_env \<Rightarrow> bool \<Rightarrow> tcp_conn \<Rightarrow> tcp_conn result" where
  "resend_fin env tell c =
     (let e = sq_getBufferEndSeq (tc_sendQueue c); c1 = setv (\<lambda>v. v\<lparr>tv_snd_max := e, tv_snd_nxt := e\<rparr>) c in
      bindE (sendFin env c1) (\<lambda>c2.
      bindE (if tell then te_call env (SegmentRetransmitted (tv_snd_nxt (tc_vars c2)) (tv_snd_nxt (tc_vars c2) + 1)) c2
             else Inr c2) (\<lambda>c3.
        Inr (setv (\<lambda>v. v\<lparr>tv_snd_nxt := tv_snd_nxt v + 1, tv_snd_max := tv_snd_nxt v + 1\<rparr>) c3))))"

definition retransmitOneSegment :: "tcp_env \<Rightarrow> bool \<Rightarrow> tcp_conn \<Rightarrow> tcp_conn result" where
  "retransmitOneSegment env called_at_rto c0 =
     (let old_snd_nxt = tv_snd_nxt (tc_vars c0);
          c = setv (\<lambda>v. v\<lparr>tv_snd_nxt := tv_snd_una v\<rparr>) c0; v = tc_vars c;
          bytes = min (min (tv_snd_mss v) (tv_snd_max v - tv_snd_nxt v)) (sq_getBytesAvailable (tv_snd_nxt v) (tc_sendQueue c))
      in if bytes = 0 \<and> tv_send_fin v \<and> tv_snd_fin_seq v = sq_getBufferEndSeq (tc_sendQueue c)
         then resend_fin env True c
         else bindE (assertE (bytes \<noteq> 0)) (\<lambda>_.
           bindE (sendSegment env bytes c) (\<lambda>c1.
           bindE (te_call env (SegmentRetransmitted (tv_snd_una (tc_vars c1)) (tv_snd_nxt (tc_vars c1))) c1) (\<lambda>c2.
           let c3 = (if \<not> called_at_rto \<and> seqGreater old_snd_nxt (tv_snd_nxt (tc_vars c2))
                     then setv (\<lambda>v. v\<lparr>tv_snd_nxt := old_snd_nxt\<rparr>) c2 else c2)
           in bindE (te_call env AckSent c3) (\<lambda>c4.
              Inr (if tv_sack_enabled (tc_vars c4)
                   then seta (\<lambda>a. a\<lparr>ta_highRxt := xq_getHighestRexmittedSeqNum (tc_rexmitQueue c4)\<rparr>) c4 else c4))))))"

partial_function (option) retransmit_loop :: "tcp_env \<Rightarrow> u32 \<Rightarrow> tcp_conn \<Rightarrow> tcp_conn result option" where
  "retransmit_loop env bytesToSend c =
     (if 0 < bytesToSend
      then let v = tc_vars c;
               bytes = min (min bytesToSend (tv_snd_mss v)) (sq_getBytesAvailable (tv_snd_nxt v) (tc_sendQueue c))
           in case sendSegment env bytes c of
                Inl e \<Rightarrow> Some (Inl e)
              | Inr c' \<Rightarrow>
                  if tv_send_fin (tc_vars c') \<and> tv_snd_nxt (tc_vars c') = tv_snd_fin_seq (tc_vars c') + 1 then Some (Inr c')
                  else retransmit_loop env (bytesToSend - tv_sentBytes (tc_vars c')) c'
      else Some (Inr c))"

definition retransmitData :: "tcp_env \<Rightarrow> tcp_conn \<Rightarrow> tcp_conn result" where
  "retransmitData env c0 =
     (let c = setv (\<lambda>v. v\<lparr>tv_snd_nxt := tv_snd_una v\<rparr>) c0; v = tc_vars c; bytesToSend = tv_snd_max v - tv_snd_nxt v in
      if bytesToSend = 0 \<and> tv_send_fin v \<and> tv_snd_fin_seq v = sq_getBufferEndSeq (tc_sendQueue c) then resend_fin env False c
      else bindE (assertE (bytesToSend \<noteq> 0)) (\<lambda>_.
           bindE (returns (retransmit_loop env bytesToSend c)) (\<lambda>c1.
             te_call env (SegmentRetransmitted (tv_snd_una (tc_vars c1)) (tv_snd_nxt (tc_vars c1))) c1)))"

section \<open>Limited transmit\<close>

text \<open>How many new bytes RFC 3042 allows on a duplicate acknowledgment, 0 when none.\<close>

definition limited_bytes :: "bool \<Rightarrow> u32 \<Rightarrow> tcp_conn \<Rightarrow> u32" where
  "limited_bytes fullSegmentsOnly congestionWindow c =
     (let v = tc_vars c; mss = tv_snd_mss v;
          buffered = sq_getBytesAvailable (tv_snd_max v) (tc_sendQueue c); outstandingData = tv_snd_max v - tv_snd_una v
      in if (tv_sack_enabled v \<longrightarrow> ta_sackedBytes_old (tc_alg c) \<noteq> ta_sackedBytes (tc_alg c)) \<and>
            (mss \<le> buffered \<or> \<not> fullSegmentsOnly \<and> 0 < buffered) \<and>
            unat outstandingData + unat mss \<le> unat (tv_snd_wnd v) \<and>
            unat outstandingData + unat mss \<le> unat (congestionWindow + 2 * mss)
         then let effectiveWin = min (tv_snd_wnd v) congestionWindow - outstandingData + 2 * mss;
                  bytes = min effectiveWin mss
              in if mss \<le> bytes \<or> \<not> fullSegmentsOnly then bytes else 0
         else 0)"

definition sendOneNewSegment :: "tcp_env \<Rightarrow> bool \<Rightarrow> u32 \<Rightarrow> tcp_conn \<Rightarrow> tcp_conn result" where
  "sendOneNewSegment env fullSegmentsOnly congestionWindow c =
     bindE (assertE (tv_limited_transmit_enabled (tc_vars c))) (\<lambda>_.
     let bytes = limited_bytes fullSegmentsOnly congestionWindow c; old_snd_nxt = tv_snd_nxt (tc_vars c) in
     if bytes = 0 then Inr c
     else bindE (sendSegment env bytes (setv (\<lambda>v. v\<lparr>tv_snd_nxt := tv_snd_max v\<rparr>) c)) (\<lambda>c1.
          let c2 = raise_snd_max c1;
              c3 = (if tv_afterRto (tc_vars c2) then setv (\<lambda>v. v\<lparr>tv_snd_nxt := old_snd_nxt + tv_sentBytes v\<rparr>) c2 else c2)
          in bindE (te_call env AckSent c3) (\<lambda>c4. te_call env (DataSent old_snd_nxt) c4)))"

definition isSendQueueEmpty :: "tcp_conn \<Rightarrow> bool" where
  "isSendQueueEmpty c \<longleftrightarrow> sq_getBytesAvailable (tv_snd_nxt (tc_vars c)) (tc_sendQueue c) = 0"

end
