(* ===== verification/TcpRecovery.thy ===== *)
theory TcpRecovery
  imports TcpSend
begin

text \<open>
  Loss recovery with selective acknowledgments (RFC 3517,
  \<^verbatim>\<open>inet/src/transport/tcp/TCPConnectionSackUtil.cc\<close>): which data counts as lost, how much is in flight,
  what is sent next.
\<close>

section \<open>Lost data and data in flight\<close>

definition DUPTHRESH :: u32 where
  "DUPTHRESH = 3"

definition isLost :: "u32 \<Rightarrow> tcp_conn \<Rightarrow> bool result" where
  "isLost seqNum c =
     bindE (assertE (tv_sack_enabled (tc_vars c))) (\<lambda>_.
     bindE (assertE (seqGE seqNum (tv_snd_una (tc_vars c)))) (\<lambda>_.
     bindE (xq_getNumOfDiscontiguousSacks seqNum (tc_rexmitQueue c)) (\<lambda>n.
     if DUPTHRESH \<le> n then Inr True
     else bindE (xq_getAmountOfSackedBytes seqNum (tc_rexmitQueue c)) (\<lambda>m.
            Inr (DUPTHRESH * tv_snd_mss (tc_vars c) \<le> m)))))"

text \<open>The loop over the blocks from \<open>snd_una\<close> to \<open>snd_max\<close>.\<close>

partial_function (option) pipe_loop :: "tcp_conn \<Rightarrow> u32 \<Rightarrow> u32 \<Rightarrow> u32 result option" where
  "pipe_loop c s1 pipe =
     (if seqLess s1 (tv_snd_max (tc_vars c))
      then case xq_checkSackBlock s1 (tc_rexmitQueue c) of
             Inl e \<Rightarrow> Some (Inl e)
           | Inr (len, sacked, rexmitted) \<Rightarrow>
               if sacked then pipe_loop c (s1 + len) pipe
               else (case isLost s1 c of
                       Inl e \<Rightarrow> Some (Inl e)
                     | Inr lost \<Rightarrow>
                         pipe_loop c (s1 + len)
                           (pipe + (if lost then 0 else len) + (if seqLess s1 (ta_highRxt (tc_alg c)) then len else 0)))
      else Some (Inr pipe))"

definition setPipe :: "tcp_conn \<Rightarrow> tcp_conn result" where
  "setPipe c =
     bindE (assertE (tv_sack_enabled (tc_vars c))) (\<lambda>_.
     let c1 = seta (\<lambda>a. a\<lparr>ta_highRxt := xq_getHighestRexmittedSeqNum (tc_rexmitQueue c), ta_pipe := 0\<rparr>) c in
     bindE (returns (pipe_loop c1 (tv_snd_una (tc_vars c1)) 0)) (\<lambda>pipe. Inr (seta (\<lambda>a. a\<lparr>ta_pipe := pipe\<rparr>) c1)))"

section \<open>What to send next\<close>

text \<open>
  The loops of rules (1) and (3) of RFC 3517: the first block between \<open>highRxt\<close> and the highest SACKed
  number that is not SACKed; rule (1) asks that it is lost and stops at it otherwise.
\<close>

partial_function (option) next_loop :: "bool \<Rightarrow> tcp_conn \<Rightarrow> u32 \<Rightarrow> u32 option result option" where
  "next_loop lostOnly c s2 =
     (if seqLess s2 (tv_snd_max (tc_vars c)) \<and> seqLess s2 (xq_getHighestSackedSeqNum (tc_rexmitQueue c))
      then case xq_checkSackBlock s2 (tc_rexmitQueue c) of
             Inl e \<Rightarrow> Some (Inl e)
           | Inr (len, sacked, rexmitted) \<Rightarrow>
               if sacked then next_loop lostOnly c (s2 + len)
               else Some (if lostOnly then bindE (isLost s2 c) (\<lambda>lost. Inr (if lost then Some s2 else None)) else Inr (Some s2))
      else Some (Inr None))"

text \<open>Rule (2): new data, when the window has room for a segment beyond the pipe.\<close>

definition new_data_allowed :: "tcp_conn \<Rightarrow> bool" where
  "new_data_allowed c \<longleftrightarrow>
     0 < sq_getBytesAvailable (tv_snd_max (tc_vars c)) (tc_sendQueue c) \<and>
     (ucast (tv_snd_mss (tc_vars c)) :: u64) \<le> ucast (tv_snd_wnd (tc_vars c)) - ucast (ta_pipe (tc_alg c))"

definition nextSeg :: "tcp_conn \<Rightarrow> (u32 option \<times> tcp_conn) result" where
  "nextSeg c0 =
     bindE (assertE (tv_sack_enabled (tc_vars c0))) (\<lambda>_.
     let c = seta (\<lambda>a. a\<lparr>ta_highRxt := xq_getHighestRexmittedSeqNum (tc_rexmitQueue c0)\<rparr>) c0; start = ta_highRxt (tc_alg c) in
     bindE (returns (next_loop True c start)) (\<lambda>s2. case s2 of
       Some n \<Rightarrow> Inr (Some n, c)
     | None \<Rightarrow> if new_data_allowed c then Inr (Some (tv_snd_max (tc_vars c)), c)
               else bindE (returns (next_loop False c start)) (\<lambda>s3. Inr (s3, c))))"

section \<open>Sending during recovery\<close>

definition sendSegmentDuringLossRecoveryPhase :: "tcp_env \<Rightarrow> u32 \<Rightarrow> tcp_conn \<Rightarrow> tcp_conn result" where
  "sendSegmentDuringLossRecoveryPhase env seqNum c0 =
     bindE (assertE (tv_sack_enabled (tc_vars c0) \<and> ta_lossRecovery (tc_alg c0))) (\<lambda>_.
     let c = setv (\<lambda>v. v\<lparr>tv_snd_nxt := seqNum\<rparr>) c0; old_highRxt = xq_getHighestRexmittedSeqNum (tc_rexmitQueue c) in
     bindE (sendSegment env (tv_snd_mss (tc_vars c)) c) (\<lambda>c1.
     let sentSeqNum = seqNum + tv_sentBytes (tc_vars c1) in
     bindE (assertE (seqLE (tv_snd_nxt (tc_vars c1)) (sentSeqNum + 1))) (\<lambda>_.
     let c2 = (if seqLess seqNum (tv_snd_max (tc_vars c1))
               then seta (\<lambda>a. a\<lparr>ta_highRxt := xq_getHighestRexmittedSeqNum (tc_rexmitQueue c1)\<rparr>) c1 else c1);
         c3 = (if seqGreater sentSeqNum (tv_snd_max (tc_vars c2)) then setv (\<lambda>v. v\<lparr>tv_snd_max := sentSeqNum\<rparr>) c2 else c2)
     in bindE (te_call env AckSent c3) (\<lambda>c4.
        te_call env (if old_highRxt \<noteq> ta_highRxt (tc_alg c4) then RestartRexmitTimer else DataSent seqNum) c4))))"

text \<open>The conversions to \<open>int\<close> make the difference a signed one.\<close>

definition pipe_has_room :: "u32 \<Rightarrow> tcp_conn \<Rightarrow> bool" where
  "pipe_has_room congestionWindow c \<longleftrightarrow>
     sint (tv_snd_mss (tc_vars c)) \<le> sint congestionWindow - sint (ta_pipe (tc_alg c))"

partial_function (option) recovery_loop :: "tcp_env \<Rightarrow> u32 \<Rightarrow> tcp_conn \<Rightarrow> tcp_conn result option" where
  "recovery_loop env congestionWindow c =
     (if pipe_has_room congestionWindow c
      then case nextSeg c of
             Inl e \<Rightarrow> Some (Inl e)
           | Inr (found, c1) \<Rightarrow> (case found of
               None \<Rightarrow> Some (Inr c1)
             | Some seqNum \<Rightarrow> (case sendSegmentDuringLossRecoveryPhase env seqNum c1 of
                 Inl e \<Rightarrow> Some (Inl e)
               | Inr c2 \<Rightarrow> recovery_loop env congestionWindow
                              (seta (\<lambda>a. a\<lparr>ta_pipe := ta_pipe a + tv_sentBytes (tc_vars c2)\<rparr>) c2)))
      else Some (Inr c))"

definition sendDataDuringLossRecoveryPhase :: "tcp_env \<Rightarrow> u32 \<Rightarrow> tcp_conn \<Rightarrow> tcp_conn result" where
  "sendDataDuringLossRecoveryPhase env congestionWindow c =
     bindE (assertE (tv_sack_enabled (tc_vars c) \<and> ta_lossRecovery (tc_alg c))) (\<lambda>_.
       returns (recovery_loop env congestionWindow c))"

end
