(* ===== verification/TcpBaseAlg.thy ===== *)
theory TcpBaseAlg
  imports TcpRecovery
begin

text \<open>
  The part that the congestion control algorithms share
  (\<^verbatim>\<open>inet/src/transport/tcp/flavours/TCPBaseAlg.cc\<close>): the retransmission, persist and delayed ACK timers,
  the estimation of the round trip time, Nagle's algorithm and the restart after an idle period.  The
  calls that a connection makes while it sends (\<open>ackSent\<close>, \<open>dataSent\<close>, \<open>segmentRetransmitted\<close> and
  \<open>restartRexmitTimer\<close>) touch only variables and timers; \<open>leaf_env\<close> binds them, and the other callbacks
  use the operations of the connection under \<open>leaf_env\<close>.
\<close>

section \<open>Constants and timers\<close>

definition DELAYED_ACK_TIMEOUT :: simtime where "DELAYED_ACK_TIMEOUT = 200 * simtime_ms"
definition MAX_REXMIT_COUNT :: int where "MAX_REXMIT_COUNT = 12"
definition MIN_REXMIT_TIMEOUT :: simtime where "MIN_REXMIT_TIMEOUT = simtime_s"
definition MAX_REXMIT_TIMEOUT :: simtime where "MAX_REXMIT_TIMEOUT = 240 * simtime_s"
definition MIN_PERSIST_TIMEOUT :: simtime where "MIN_PERSIST_TIMEOUT = 5 * simtime_s"
definition MAX_PERSIST_TIMEOUT :: simtime where "MAX_PERSIST_TIMEOUT = 60 * simtime_s"

text \<open>\<open>scheduleTimeout\<close> for each of the timers; the simulation kernel refuses a scheduled message.\<close>

definition schedule_rexmit :: "simtime \<Rightarrow> tcp_conn \<Rightarrow> tcp_conn result" where
  "schedule_rexmit t c = (if ta_rexmitTimer (tc_alg c) \<noteq> None then Inl already_scheduled
     else Inr (seta (\<lambda>a. a\<lparr>ta_rexmitTimer := Some (tc_now c + t)\<rparr>) c))"

definition schedule_persist :: "simtime \<Rightarrow> tcp_conn \<Rightarrow> tcp_conn result" where
  "schedule_persist t c = (if ta_persistTimer (tc_alg c) \<noteq> None then Inl already_scheduled
     else Inr (seta (\<lambda>a. a\<lparr>ta_persistTimer := Some (tc_now c + t)\<rparr>) c))"

definition schedule_delayedAck :: "simtime \<Rightarrow> tcp_conn \<Rightarrow> tcp_conn result" where
  "schedule_delayedAck t c = (if ta_delayedAckTimer (tc_alg c) \<noteq> None then Inl already_scheduled
     else Inr (seta (\<lambda>a. a\<lparr>ta_delayedAckTimer := Some (tc_now c + t)\<rparr>) c))"

definition cancel_rexmit :: "tcp_conn \<Rightarrow> tcp_conn" where
  "cancel_rexmit c = seta (\<lambda>a. a\<lparr>ta_rexmitTimer := None\<rparr>) c"

definition base_connectionClosed :: "tcp_conn \<Rightarrow> tcp_conn" where
  "base_connectionClosed c = seta (\<lambda>a. a\<lparr>ta_rexmitTimer := None, ta_persistTimer := None,
     ta_delayedAckTimer := None, ta_keepAliveTimer := None\<rparr>) c"

definition startRexmitTimer :: "tcp_conn \<Rightarrow> tcp_conn result" where
  "startRexmitTimer c =
     (let c1 = seta (\<lambda>a. a\<lparr>ta_rexmit_count := 0\<rparr>) c in schedule_rexmit (ta_rexmit_timeout (tc_alg c1)) c1)"

definition base_restartRexmitTimer :: "tcp_conn \<Rightarrow> tcp_conn result" where
  "base_restartRexmitTimer c = startRexmitTimer (cancel_rexmit c)"

section \<open>What the connection reports while it sends\<close>

definition base_ackSent :: "tcp_conn \<Rightarrow> tcp_conn" where
  "base_ackSent c =
     (let c1 = setv (\<lambda>v. v\<lparr>tv_full_sized_segment_counter := 0, tv_ack_now := False\<rparr>) c
      in seta (\<lambda>a. a\<lparr>ta_last_ack_sent := tv_rcv_nxt (tc_vars c1), ta_delayedAckTimer := None\<rparr>) c1)"

definition base_dataSent :: "u32 \<Rightarrow> tcp_conn \<Rightarrow> tcp_conn result" where
  "base_dataSent fromseq c =
     bindE (if ta_rexmitTimer (tc_alg c) = None then startRexmitTimer c else Inr c) (\<lambda>c1.
     let c2 = (if \<not> tv_ts_enabled (tc_vars c1) \<and> ta_rtseq_sendtime (tc_alg c1) = 0
               then seta (\<lambda>a. a\<lparr>ta_rtseq := fromseq, ta_rtseq_sendtime := tc_now c1\<rparr>) c1 else c1)
     in Inr (setv (\<lambda>v. v\<lparr>tv_time_last_data_sent := tc_now c2\<rparr>) c2))"

definition base_call :: "tcp_call \<Rightarrow> tcp_conn \<Rightarrow> tcp_conn result" where
  "base_call call c = (case call of
       AckSent \<Rightarrow> Inr (base_ackSent c)
     | DataSent n \<Rightarrow> base_dataSent n c
     | SegmentRetransmitted n m \<Rightarrow> Inr c
     | RestartRexmitTimer \<Rightarrow> base_restartRexmitTimer c
     | _ \<Rightarrow> Inr c)"

text \<open>
  The environment of the operations that the callbacks use: \<open>call\<close> binds the four calls.  None of the
  operations processes a timer.
\<close>

definition leaf_env :: "(tcp_call \<Rightarrow> tcp_conn \<Rightarrow> tcp_conn result) \<Rightarrow> tcp_env \<Rightarrow> tcp_env" where
  "leaf_env call env = env\<lparr>te_call := call, te_writeHeaderOptions := writeHeaderOptions env,
                       te_algorithmTimer := \<lambda>t c. Inl (Undefined ''no timer'')\<rparr>"

section \<open>Retransmission timeout\<close>

text \<open>Answers the event; \<open>TCP_E_ABORT\<close> after too many retransmissions.\<close>

definition base_processRexmitTimer :: "tcp_conn \<Rightarrow> (tcp_event \<times> tcp_conn) result" where
  "base_processRexmitTimer c =
     (let c1 = seta (\<lambda>a. a\<lparr>ta_rexmit_count := ta_rexmit_count a + 1\<rparr>) c in
      if MAX_REXMIT_COUNT < ta_rexmit_count (tc_alg c1) then Inr (TCP_E_ABORT, sendIndicationToApp TCP_I_TIMED_OUT c1)
      else
        let c2 = seta (\<lambda>a. a\<lparr>ta_rexmit_timeout := min MAX_REXMIT_TIMEOUT (ta_rexmit_timeout a + ta_rexmit_timeout a)\<rparr>) c1 in
        bindE (schedule_rexmit (ta_rexmit_timeout (tc_alg c2)) c2) (\<lambda>c3.
        let c4 = seta (\<lambda>a. a\<lparr>ta_rtseq_sendtime := 0, ta_numRtos := ta_numRtos a + 1\<rparr>) c3 in
        let c5 = (if tv_sack_enabled (tc_vars c4)
                  then let d = c4\<lparr>tc_rexmitQueue := xq_resetRexmittedBit (xq_resetSackedBit (tc_rexmitQueue c4))\<rparr>
                       in if ta_lossRecovery (tc_alg d)
                          then seta (\<lambda>a. a\<lparr>ta_recoveryPoint := tv_snd_max (tc_vars d), ta_lossRecovery := False\<rparr>) d else d
                  else c4)
        in Inr (TCP_E_IGNORE, setv (\<lambda>v. v\<lparr>tv_time_last_data_sent := tc_now c5\<rparr>) c5)))"

section \<open>Round trip time\<close>

text \<open>Jacobson's estimator; \<open>te_eighth\<close> is the product with the double 0.125.\<close>

definition clamp_rto :: "simtime \<Rightarrow> simtime" where
  "clamp_rto rto = (if MAX_REXMIT_TIMEOUT < rto then MAX_REXMIT_TIMEOUT
     else if rto < MIN_REXMIT_TIMEOUT then MIN_REXMIT_TIMEOUT else rto)"

definition rttMeasurementComplete :: "tcp_env \<Rightarrow> simtime \<Rightarrow> simtime \<Rightarrow> tcp_conn \<Rightarrow> tcp_conn" where
  "rttMeasurementComplete env tSent tAcked c =
     (let newRTT = tAcked - tSent; err = newRTT - ta_srtt (tc_alg c);
          srtt = ta_srtt (tc_alg c) + te_eighth env err;
          rttvar = ta_rttvar (tc_alg c) + te_eighth env (\<bar>err\<bar> - ta_rttvar (tc_alg c))
      in seta (\<lambda>a. a\<lparr>ta_srtt := srtt, ta_rttvar := rttvar, ta_rexmit_timeout := clamp_rto (srtt + 4 * rttvar)\<rparr>) c)"

definition rttMeasurementCompleteUsingTS :: "tcp_env \<Rightarrow> u32 \<Rightarrow> tcp_conn \<Rightarrow> tcp_conn result" where
  "rttMeasurementCompleteUsingTS env echoedTS c =
     bindE (assertE (tv_ts_enabled (tc_vars c))) (\<lambda>_.
       Inr (rttMeasurementComplete env (te_fromTS env echoedTS) (te_fromTS env (te_toTS env (tc_now c))) c))"

section \<open>Sending\<close>

text \<open>The initial window of RFC 3390.\<close>

definition initial_window :: "tcp_vars \<Rightarrow> u32" where
  "initial_window v = min (4 * tv_snd_mss v) (max (2 * tv_snd_mss v) 4380)"

definition idle_restart :: "tcp_conn \<Rightarrow> tcp_conn" where
  "idle_restart c =
     (if \<not> isSendQueueEmpty c \<and> ta_rexmit_timeout (tc_alg c) < tc_now c - tv_time_last_data_sent (tc_vars c)
      then seta (\<lambda>a. a\<lparr>ta_snd_cwnd := if tv_increased_IW_enabled (tc_vars c) then min (initial_window (tc_vars c)) (ta_snd_cwnd a)
                                       else tv_snd_mss (tc_vars c)\<rparr>) c
      else c)"

definition base_sendData :: "tcp_env \<Rightarrow> bool \<Rightarrow> tcp_conn \<Rightarrow> (bool \<times> tcp_conn) result" where
  "base_sendData env sendCommandInvoked c =
     (let v = tc_vars c; fullSegmentsOnly = (sendCommandInvoked \<and> tv_nagle_enabled v \<and> tv_snd_una v \<noteq> tv_snd_max v);
          c1 = idle_restart c
      in sendData env fullSegmentsOnly (ta_snd_cwnd (tc_alg c1)) c1)"

text \<open>A call for its effect only.\<close>

definition quietly :: "('a \<times> tcp_conn) result \<Rightarrow> tcp_conn result" where
  "quietly m = bindE m (\<lambda>(_, c). Inr c)"

definition base_established :: "tcp_env \<Rightarrow> bool \<Rightarrow> tcp_conn \<Rightarrow> tcp_conn result" where
  "base_established env active c =
     (let v = tc_vars c;
          c1 = seta (\<lambda>a. a\<lparr>ta_snd_cwnd := if tv_increased_IW_enabled v \<and> tv_syn_rexmit_count v = 0 then initial_window v
                                           else tv_snd_mss v\<rparr>) c
      in if active
         then bindE (base_sendData env False c1) (\<lambda>(sent, c2). if sent then Inr c2 else sendAck env c2)
         else Inr c1)"

definition base_processPersistTimer :: "tcp_env \<Rightarrow> tcp_conn \<Rightarrow> tcp_conn result" where
  "base_processPersistTimer env c =
     (let f = ta_persist_factor (tc_alg c);
          factor = (if f = 0 then 1 else if f < 64 then f * 2 else f);
          timeout = uint factor * 3 * simtime_s div 2;
          c1 = seta (\<lambda>a. a\<lparr>ta_persist_factor := factor, ta_persist_timeout := timeout\<rparr>) c;
          c2 = (if timeout < MIN_PERSIST_TIMEOUT then seta (\<lambda>a. a\<lparr>ta_rexmit_timeout := MIN_PERSIST_TIMEOUT\<rparr>) c1 else c1);
          c3 = (if MAX_PERSIST_TIMEOUT < timeout then seta (\<lambda>a. a\<lparr>ta_rexmit_timeout := MAX_PERSIST_TIMEOUT\<rparr>) c2 else c2)
      in bindE (schedule_persist timeout c3) (\<lambda>c4. quietly (sendProbe env c4)))"

definition base_processDelayedAckTimer :: "tcp_env \<Rightarrow> tcp_conn \<Rightarrow> tcp_conn result" where
  "base_processDelayedAckTimer env c = sendAck env (setv (\<lambda>v. v\<lparr>tv_ack_now := True\<rparr>) c)"

section \<open>What the connection reports while it receives\<close>

definition base_receivedOutOfOrderSegment :: "tcp_env \<Rightarrow> tcp_conn \<Rightarrow> tcp_conn result" where
  "base_receivedOutOfOrderSegment env c = sendAck env (setv (\<lambda>v. v\<lparr>tv_ack_now := True\<rparr>) c)"

definition ack_already_sent :: "tcp_conn \<Rightarrow> bool" where
  "ack_already_sent c \<longleftrightarrow> tv_full_sized_segment_counter (tc_vars c) = 0 \<and> \<not> tv_ack_now (tc_vars c) \<and>
     ta_last_ack_sent (tc_alg c) = tv_rcv_nxt (tc_vars c) \<and> ta_delayedAckTimer (tc_alg c) = None"

definition base_receiveSeqChanged :: "tcp_env \<Rightarrow> tcp_conn \<Rightarrow> tcp_conn result" where
  "base_receiveSeqChanged env c =
     (if ack_already_sent c then Inr c
      else
        let c1 = (if ta_lossRecovery (tc_alg c) then setv (\<lambda>v. v\<lparr>tv_ack_now := True\<rparr>) c else c); v = tc_vars c1 in
        if \<not> tv_delayed_acks_enabled v \<or> tv_ack_now v \<or> 2 \<le> tv_full_sized_segment_counter v then sendAck env c1
        else if ta_delayedAckTimer (tc_alg c1) = None then schedule_delayedAck DELAYED_ACK_TIMEOUT c1
        else Inr c1)"

definition rtt_on_ack :: "tcp_env \<Rightarrow> tcp_conn \<Rightarrow> tcp_conn" where
  "rtt_on_ack env c =
     (if \<not> tv_ts_enabled (tc_vars c) \<and> ta_rtseq_sendtime (tc_alg c) \<noteq> 0 \<and>
         seqLess (ta_rtseq (tc_alg c)) (tv_snd_una (tc_vars c))
      then seta (\<lambda>a. a\<lparr>ta_rtseq_sendtime := 0\<rparr>) (rttMeasurementComplete env (ta_rtseq_sendtime (tc_alg c)) (tc_now c) c)
      else c)"

definition rexmit_on_ack :: "tcp_conn \<Rightarrow> tcp_conn result" where
  "rexmit_on_ack c =
     (if tv_snd_una (tc_vars c) = tv_snd_max (tc_vars c) then Inr (cancel_rexmit c)
      else startRexmitTimer (cancel_rexmit c))"

definition cancel_persist :: "tcp_conn \<Rightarrow> tcp_conn" where
  "cancel_persist c =
     (if ta_persistTimer (tc_alg c) \<noteq> None then seta (\<lambda>a. a\<lparr>ta_persistTimer := None, ta_persist_factor := 0\<rparr>) c else c)"

definition persist_on_ack :: "tcp_conn \<Rightarrow> tcp_conn result" where
  "persist_on_ack c =
     (if tv_snd_wnd (tc_vars c) = 0
      then if ta_rexmitTimer (tc_alg c) \<noteq> None then Inr (cancel_persist c)
           else if ta_persistTimer (tc_alg c) = None then schedule_persist (ta_persist_timeout (tc_alg c)) c
           else Inr c
      else Inr (cancel_persist c))"

definition base_receivedDataAck :: "tcp_env \<Rightarrow> tcp_conn \<Rightarrow> tcp_conn result" where
  "base_receivedDataAck env c = bindE (rexmit_on_ack (rtt_on_ack env c)) persist_on_ack"

definition base_receivedDuplicateAck :: "tcp_env \<Rightarrow> tcp_conn \<Rightarrow> tcp_conn result" where
  "base_receivedDuplicateAck env c =
     (let v = tc_vars c; fullSegmentsOnly = (tv_nagle_enabled v \<and> tv_snd_una v \<noteq> tv_snd_max v) in
      if tv_dupacks v < DUPTHRESH \<and> tv_limited_transmit_enabled v
      then sendOneNewSegment env fullSegmentsOnly (ta_snd_cwnd (tc_alg c)) c
      else Inr c)"

end
