(* ===== verification/TcpReceive.thy ===== *)
theory TcpReceive
  imports TcpConn
begin

text \<open>
  The processing of a segment in the synchronized states
  (\<^verbatim>\<open>inet/src/transport/tcp/TCPConnectionRcvSegment.cc\<close>), in the steps of RFC 793 that the code
  follows: sequence number, RST, SYN, ACK, segment text and FIN.
\<close>

section \<open>First: the sequence number\<close>

definition tcp_check_sequence :: "tcp_env \<Rightarrow> tcp_segment \<Rightarrow> tcp_conn \<Rightarrow> (bool \<times> tcp_conn) result" where
  "tcp_check_sequence env s c =
     (if TCP_HEADER_OCTETS < unat (tg_headerLength s)
      then let v = tc_vars c in
           bindE (if tv_ts_enabled v then getTSval s else Inr 0) (\<lambda>tsval.
           let paws = tv_ts_enabled v \<and> tsval \<noteq> 0 \<and> seqLess tsval (tv_ts_recent v) \<and>
                      PAWS_IDLE_TIME_THRESH < tc_now c - tv_time_last_data_sent v
           in bindE (te_call env (ReadHeaderOptions s) c) (\<lambda>c1.
                Inr (\<not> paws \<and> isSegmentAcceptable s (tc_vars c1), c1)))
      else Inr (isSegmentAcceptable s (tc_vars c), c))"

text \<open>An unacceptable segment is answered by an ACK, unless it is a RST.\<close>

definition tcp_not_acceptable :: "tcp_env \<Rightarrow> tcp_segment \<Rightarrow> tcp_conn \<Rightarrow> tcp_conn result" where
  "tcp_not_acceptable env s c =
     (let v = tc_vars c in
      bindE (if tg_rst s then Inr c
             else sendAck env
                    (if \<not> tg_syn s \<and> 0 < tg_len s \<and> tv_sack_enabled v \<and> seqLess (tg_end s) (tv_rcv_nxt v)
                     then setv (\<lambda>v. v\<lparr>tv_start_seqno := tg_seq s, tv_end_seqno := tg_end s, tv_snd_dsack := True\<rparr>) c
                     else c)) (\<lambda>c1.
        Inr (setv (\<lambda>v. v\<lparr>tv_rcv_naseg := tv_rcv_naseg v + 1\<rparr>) c1)))"

section \<open>Second: the RST bit\<close>

definition processRstInSynReceived :: "tcp_conn \<Rightarrow> (tcp_event \<times> tcp_conn) result" where
  "processRstInSynReceived c =
     bindE (sq_discardUpTo (sq_getBufferEndSeq (tc_sendQueue c)) (tc_sendQueue c)) (\<lambda>sq.
     bindE (if tv_sack_enabled (tc_vars c) then xq_discardUpTo (xq_end (tc_rexmitQueue c)) (tc_rexmitQueue c)
            else Inr (tc_rexmitQueue c)) (\<lambda>xq.
       let c1 = c\<lparr>tc_sendQueue := sq, tc_rexmitQueue := xq\<rparr>
       in Inr (TCP_E_RCV_RST,
               if tv_active (tc_vars c1) then sendIndicationToApp TCP_I_CONNECTION_REFUSED c1 else c1)))"

definition tcp_check_rst :: "tcp_conn \<Rightarrow> (tcp_event \<times> tcp_conn) result" where
  "tcp_check_rst c =
     (case tc_state c of
        TCP_S_SYN_RCVD \<Rightarrow> processRstInSynReceived c
      | TCP_S_ESTABLISHED \<Rightarrow> Inr (TCP_E_RCV_RST, sendIndicationToApp TCP_I_CONNECTION_RESET c)
      | TCP_S_FIN_WAIT_1 \<Rightarrow> Inr (TCP_E_RCV_RST, sendIndicationToApp TCP_I_CONNECTION_RESET c)
      | TCP_S_FIN_WAIT_2 \<Rightarrow> Inr (TCP_E_RCV_RST, sendIndicationToApp TCP_I_CONNECTION_RESET c)
      | TCP_S_CLOSE_WAIT \<Rightarrow> Inr (TCP_E_RCV_RST, sendIndicationToApp TCP_I_CONNECTION_RESET c)
      | TCP_S_CLOSING \<Rightarrow> Inr (TCP_E_RCV_RST, c)
      | TCP_S_LAST_ACK \<Rightarrow> Inr (TCP_E_RCV_RST, c)
      | TCP_S_TIME_WAIT \<Rightarrow> Inr (TCP_E_RCV_RST, c)
      | _ \<Rightarrow> Inl (RuntimeError ''ASSERT''))"

section \<open>Fifth: the ACK field\<close>

text \<open>Returns \<open>False\<close> when the segment is to be dropped.\<close>

definition processAckInEstabEtc :: "tcp_env \<Rightarrow> tcp_segment \<Rightarrow> tcp_conn \<Rightarrow> (bool \<times> tcp_conn) result" where
  "processAckInEstabEtc env s c =
     (let v = tc_vars c; ackNo = tg_ack s in
      if seqGE (tv_snd_una v) ackNo then
        (if tv_snd_una v = ackNo \<and> tg_len s = 0 \<and> tv_snd_una v \<noteq> tv_snd_max v
         then bindE (te_call env ReceivedDuplicateAck
                  (updateWndInfo s False (setv (\<lambda>v. v\<lparr>tv_dupacks := tv_dupacks v + 1\<rparr>) c))) (\<lambda>c1. Inr (True, c1))
         else Inr (True, setv (\<lambda>v. v\<lparr>tv_dupacks := 0\<rparr>) c))
      else if seqLE ackNo (tv_snd_max v) then
        let old_snd_una = tv_snd_una v;
            c1 = setv (\<lambda>v. v\<lparr>tv_snd_una := ackNo, tv_snd_nxt := if seqLess (tv_snd_nxt v) ackNo then ackNo else tv_snd_nxt v\<rparr>) c
        in bindE (if tv_ts_enabled (tc_vars c1)
                  then bindE (getTSecr s) (\<lambda>tsecr. te_call env (RttMeasurementCompleteUsingTS tsecr) c1) else Inr c1) (\<lambda>c2.
           let v2 = tc_vars c2; finAcked = tv_send_fin v2 \<and> ackNo = tv_snd_fin_seq v2 + 1;
               discardUpToSeq = (if finAcked then tv_snd_una v2 - 1 else tv_snd_una v2);
               c3 = (if finAcked then setv (\<lambda>v. v\<lparr>tv_fin_ack_rcvd := True\<rparr>) c2 else c2)
           in bindE (sq_discardUpTo discardUpToSeq (tc_sendQueue c3)) (\<lambda>sq.
              bindE (if tv_sack_enabled v2 then xq_discardUpTo discardUpToSeq (tc_rexmitQueue c3)
                     else Inr (tc_rexmitQueue c3)) (\<lambda>xq.
              let c4 = updateWndInfo s False (c3\<lparr>tc_sendQueue := sq, tc_rexmitQueue := xq\<rparr>)
              in if tg_len s = 0 \<and> tc_state c4 \<noteq> TCP_S_SYN_RCVD
                 then bindE (te_call env (ReceivedDataAck old_snd_una) c4) (\<lambda>c5.
                        Inr (True, setv (\<lambda>v. v\<lparr>tv_dupacks := 0\<rparr>) c5))
                 else Inr (True, c4))))
      else bindE (assertE (seqGreater ackNo (tv_snd_max v))) (\<lambda>_.
           bindE (te_call env (ReceivedAckForDataNotYetSent ackNo) c) (\<lambda>c1.
             Inr (False, setv (\<lambda>v. v\<lparr>tv_dupacks := 0\<rparr>) c1))))"

text \<open>The states whose segments go through \<open>processAckInEstabEtc\<close>.\<close>

definition ack_state :: "tcp_state \<Rightarrow> bool" where
  "ack_state st \<longleftrightarrow> st \<in> {TCP_S_SYN_RCVD, TCP_S_ESTABLISHED, TCP_S_FIN_WAIT_1, TCP_S_FIN_WAIT_2,
     TCP_S_CLOSE_WAIT, TCP_S_CLOSING, TCP_S_LAST_ACK}"

text \<open>
  The part of the fifth step before the call: \<open>None\<close> when the segment is dropped here, otherwise
  the event so far.
\<close>

definition tcp_ack_syn_rcvd :: "tcp_env \<Rightarrow> tcp_segment \<Rightarrow> tcp_conn \<Rightarrow> (tcp_event option \<times> tcp_conn) result" where
  "tcp_ack_syn_rcvd env s c =
     (if tc_state c = TCP_S_SYN_RCVD
      then if \<not> seqLE (tv_snd_una (tc_vars c)) (tg_ack s) \<or> \<not> seqLE (tg_ack s) (tv_snd_nxt (tc_vars c))
           then Inr (None, sendRst (tg_ack s) c)
           else bindE (te_call env (Established False) c) (\<lambda>c1.
                  Inr (Some TCP_E_RCV_ACK, sendIndicationToApp TCP_I_ESTABLISHED c1))
      else Inr (Some TCP_E_IGNORE, c))"

text \<open>What follows the call: the result says whether the event is already final.\<close>

definition tcp_ack_states :: "tcp_env \<Rightarrow> tcp_segment \<Rightarrow> tcp_event \<Rightarrow> tcp_conn \<Rightarrow> (bool \<times> tcp_event \<times> tcp_conn) result" where
  "tcp_ack_states env s ev c =
     (let ev1 = (if tc_state c = TCP_S_FIN_WAIT_1 \<and> tv_fin_ack_rcvd (tc_vars c) then TCP_E_RCV_ACK else ev) in
      bindE (if tc_state c = TCP_S_CLOSING \<and> tv_fin_ack_rcvd (tc_vars c)
             then bindE (schedule_2MSL c) (\<lambda>c1. Inr (TCP_E_RCV_ACK, c1)) else Inr (ev1, c)) (\<lambda>(ev2, c2).
      if tc_state c2 = TCP_S_LAST_ACK \<and> tv_send_fin (tc_vars c2) \<and> tg_ack s = tv_snd_fin_seq (tc_vars c2) + 1
      then Inr (True, TCP_E_RCV_ACK, c2)
      else if tc_state c2 = TCP_S_TIME_WAIT
      then bindE (sendAck env c2) (\<lambda>c3.
             bindE (schedule_2MSL (c3\<lparr>tc_the2MSLTimer := False\<rparr>)) (\<lambda>c4. Inr (False, ev2, c4)))
      else Inr (False, ev2, c2)))"

section \<open>Seventh: the segment text\<close>

definition hasEnoughSpaceForSegmentInReceiveQueue :: "tcp_segment \<Rightarrow> tcp_conn \<Rightarrow> bool" where
  "hasEnoughSpaceForSegmentInReceiveQueue s c =
     (let firstSeq = rq_getFirstSeqNo (tc_receiveQueue c)
      in seqLE firstSeq (tg_seq s) \<and> seqLE (tg_end s) (firstSeq + tv_maxRcvBuffer (tc_vars c)))"

text \<open>
  The loop \<open>while ((msg = receiveQueue->extractBytesUpTo(rcv_nxt)) != NULL)\<close>: the lengths of the
  messages, and the queue they leave.
\<close>

lemma rq_extract_shrinks:
  assumes "rq_extractBytesUpTo seq q = Inr (Some n, q')"
  shows "2 * length (rq_regions q') + (case rq_regions q' of [] \<Rightarrow> 0 | r # _ \<Rightarrow> if rg_begin r = seq then 0 else 1)
    < 2 * length (rq_regions q) + (case rq_regions q of [] \<Rightarrow> 0 | r # _ \<Rightarrow> if rg_begin r = seq then 0 else 1)"
proof -
  have self: "seqLE seq seq" by (simp add: seqLE_def)
  show ?thesis
    using assms self
    by (auto simp: rq_extractBytesUpTo_def rq_extractTo_def region_split_def Let_def
        split: list.splits if_splits)
qed

function rq_drain :: "u32 \<Rightarrow> rcv_queue \<Rightarrow> (nat list \<times> rcv_queue) result" where
  "rq_drain seq q =
     (case rq_extractBytesUpTo seq q of
        Inl e \<Rightarrow> Inl e
      | Inr (None, q') \<Rightarrow> Inr ([], q')
      | Inr (Some n, q') \<Rightarrow> bindE (rq_drain seq q') (\<lambda>(ns, q''). Inr (n # ns, q'')))"
  by pat_completeness auto
termination
  by (relation "measure (\<lambda>(seq, q). 2 * length (rq_regions q) +
        (case rq_regions q of [] \<Rightarrow> 0 | r # _ \<Rightarrow> if rg_begin r = seq then 0 else 1))")
    (auto dest: rq_extract_shrinks)

declare rq_drain.simps [simp del]

text \<open>The event that a FIN in sequence causes, with its timers.\<close>

definition tcp_fin_event :: "tcp_conn \<Rightarrow> (tcp_event \<times> tcp_conn) result" where
  "tcp_fin_event c =
     (case tc_state c of
        TCP_S_FIN_WAIT_1 \<Rightarrow>
          (if tv_fin_ack_rcvd (tc_vars c)
           then bindE (schedule_2MSL (c\<lparr>tc_finWait2Timer := False\<rparr>)) (\<lambda>c1. Inr (TCP_E_RCV_FIN_ACK, c1))
           else Inr (TCP_E_RCV_FIN, c))
      | TCP_S_FIN_WAIT_2 \<Rightarrow>
          bindE (schedule_2MSL (c\<lparr>tc_finWait2Timer := False\<rparr>)) (\<lambda>c1. Inr (TCP_E_RCV_FIN, c1))
      | TCP_S_TIME_WAIT \<Rightarrow>
          bindE (schedule_2MSL (c\<lparr>tc_the2MSLTimer := False\<rparr>)) (\<lambda>c1. Inr (TCP_E_RCV_FIN, c1))
      | _ \<Rightarrow> Inr (TCP_E_RCV_FIN, c))"

definition text_state :: "tcp_state \<Rightarrow> bool" where
  "text_state st \<longleftrightarrow> st \<in> {TCP_S_SYN_RCVD, TCP_S_ESTABLISHED, TCP_S_FIN_WAIT_1, TCP_S_FIN_WAIT_2}"

definition tcp_out_of_order :: "tcp_env \<Rightarrow> u32 \<Rightarrow> tcp_segment \<Rightarrow> tcp_conn \<Rightarrow> tcp_conn result" where
  "tcp_out_of_order env old_usedRcvBuffer s c =
     (let c1 = setv (\<lambda>v. v\<lparr>tv_rcv_oooseg := tv_rcv_oooseg v + 1\<rparr>) c;
          c2 = (if tv_sack_enabled (tc_vars c1)
                then let c2 = setv (\<lambda>v. v\<lparr>tv_start_seqno := tg_seq s, tv_end_seqno := tg_end s\<rparr>) c1
                     in if old_usedRcvBuffer = rq_getAmountOfBufferedBytes (tc_receiveQueue c2)
                        then setv (\<lambda>v. v\<lparr>tv_snd_dsack := True\<rparr>) c2
                        else setv (\<lambda>v. v\<lparr>tv_snd_sack := True\<rparr>) c2
                else c1)
      in te_call env ReceivedOutOfOrderSegment c2)"

definition tcp_deliver :: "tcp_event \<Rightarrow> tcp_conn \<Rightarrow> (tcp_event \<times> tcp_conn) result" where
  "tcp_deliver ev c =
     bindE (rq_drain (tv_rcv_nxt (tc_vars c)) (tc_receiveQueue c)) (\<lambda>(ns, rq).
       let c1 = c\<lparr>tc_receiveQueue := rq, tc_out := tc_out c @ map OutData ns\<rparr>; v = tc_vars c1
       in if tv_fin_rcvd v \<and> tv_rcv_nxt v = tv_rcv_fin_seq v
          then tcp_fin_event (setv (\<lambda>v. v\<lparr>tv_ack_now := True, tv_rcv_nxt := tv_rcv_fin_seq v + 1\<rparr>) c1)
          else Inr (ev, c1))"

text \<open>The first component is \<open>True\<close> when the segment is dropped for want of space.\<close>

definition tcp_segment_text ::
  "tcp_env \<Rightarrow> u32 \<Rightarrow> u32 \<Rightarrow> tcp_segment \<Rightarrow> tcp_event \<Rightarrow> tcp_conn \<Rightarrow> (bool \<times> tcp_segment \<times> tcp_event \<times> tcp_conn) result" where
  "tcp_segment_text env old_snd_una old_rcv_nxt s ev c =
     (if \<not> text_state (tc_state c) \<or> tg_len s = 0 then Inr (False, s, ev, c)
      else
        let mss = ucast (tv_snd_mss (tc_vars c)) :: u64;
            full = (tg_len s = mss \<or> tg_len s + ucast (tg_headerLength s) - of_nat TCP_HEADER_OCTETS = mss);
            c1 = (if full then setv (\<lambda>v. v\<lparr>tv_full_sized_segment_counter := tv_full_sized_segment_counter v + 1\<rparr>) c else c);
            c2 = (if tg_len s = 1 then setv (\<lambda>v. v\<lparr>tv_ack_now := True\<rparr>) c1 else c1);
            v = tc_vars c2
        in bindE (truncateSegment (tv_rcv_nxt v) (tv_rcv_nxt v + tv_rcv_wnd v) s) (\<lambda>s'.
           let c3 = updateRcvQueueVars c2 in
           if \<not> hasEnoughSpaceForSegmentInReceiveQueue s' c3
           then Inr (True, s', TCP_E_IGNORE, setv (\<lambda>v. v\<lparr>tv_tcpRcvQueueDrops := tv_tcpRcvQueueDrops v + 1\<rparr>) c3)
           else
             let old_used = tv_usedRcvBuffer (tc_vars c3) in
             bindE (rq_insertBytesFromSegment s' (tc_receiveQueue c3)) (\<lambda>(n, rq).
             let c4 = setv (\<lambda>v. v\<lparr>tv_rcv_nxt := n\<rparr>) (c3\<lparr>tc_receiveQueue := rq\<rparr>) in
             bindE (if seqGreater (tv_snd_una (tc_vars c4)) old_snd_una
                    then bindE (te_call env (ReceivedDataAck old_snd_una) c4) (\<lambda>c5.
                           Inr (setv (\<lambda>v. v\<lparr>tv_dupacks := 0\<rparr>) c5))
                    else Inr c4) (\<lambda>c5.
             if old_rcv_nxt = tv_rcv_nxt (tc_vars c5)
             then bindE (tcp_out_of_order env old_used s' c5) (\<lambda>c6. Inr (False, s', ev, c6))
             else bindE (tcp_deliver ev c5) (\<lambda>(ev', c6). Inr (False, s', ev', c6))))))"

section \<open>Eighth: the FIN bit\<close>

definition tcp_check_fin :: "tcp_segment \<Rightarrow> tcp_event \<Rightarrow> tcp_conn \<Rightarrow> (tcp_event \<times> tcp_conn) result" where
  "tcp_check_fin s ev c =
     (if \<not> tg_fin s then Inr (ev, c)
      else
        let c1 = setv (\<lambda>v. v\<lparr>tv_ack_now := True\<rparr>) c; fin_seq = tg_seq s + ucast (tg_len s) in
        if tv_rcv_nxt (tc_vars c1) = fin_seq
        then tcp_fin_event (setv (\<lambda>v. v\<lparr>tv_rcv_nxt := tv_rcv_nxt v + 1\<rparr>) c1)
        else Inr (ev, setv (\<lambda>v. v\<lparr>tv_fin_rcvd := True, tv_rcv_fin_seq := fin_seq\<rparr>) c1))"

definition tcp_finish :: "tcp_env \<Rightarrow> u32 \<Rightarrow> u32 \<Rightarrow> tcp_segment \<Rightarrow> tcp_event \<Rightarrow> tcp_conn \<Rightarrow> (tcp_event \<times> tcp_conn) result" where
  "tcp_finish env old_rcv_nxt old_snd_nxt s ev c =
     bindE (if old_rcv_nxt \<noteq> tv_rcv_nxt (tc_vars c)
            then te_call env ReceiveSeqChanged
                   (if tv_sack_enabled (tc_vars c) \<and> rq_getQueueLength (tc_receiveQueue c) \<noteq> 0
                    then setv (\<lambda>v. v\<lparr>tv_start_seqno := tg_seq s, tv_end_seqno := tg_end s, tv_snd_sack := True,
                                  tv_ack_now := True\<rparr>) c
                    else c)
            else Inr c) (\<lambda>c1.
       let v = tc_vars c1; finSent = (tv_send_fin v \<and> tv_snd_nxt v = tv_snd_fin_seq v + 1);
           ev1 = (if (tc_state c1 = TCP_S_ESTABLISHED \<or> tc_state c1 = TCP_S_SYN_RCVD) \<and> finSent then TCP_E_CLOSE else ev);
           ev2 = (if tc_state c1 = TCP_S_CLOSE_WAIT \<and> finSent \<and> old_snd_nxt \<noteq> tv_snd_nxt v then TCP_E_CLOSE else ev1)
       in Inr (ev2, c1))"

section \<open>All steps\<close>

definition processSegment1stThru8th ::
  "tcp_env \<Rightarrow> tcp_segment \<Rightarrow> tcp_conn \<Rightarrow> (tcp_event \<times> tcp_conn) result" where
  "processSegment1stThru8th env s c0 =
     bindE (tcp_check_sequence env s c0) (\<lambda>(acceptable, c).
     if \<not> acceptable then bindE (tcp_not_acceptable env s c) (\<lambda>c1. Inr (TCP_E_IGNORE, c1))
     else if tg_rst s then tcp_check_rst c
     else if tg_syn s then bindE (assertE (isSegmentAcceptable s (tc_vars c))) (\<lambda>_.
       Inr (TCP_E_RCV_UNEXP_SYN, sendIndicationToApp TCP_I_CONNECTION_RESET c))
     else if \<not> tg_ackBit s then Inr (TCP_E_IGNORE, c)
     else
       let old_snd_una = tv_snd_una (tc_vars c) in
       bindE (tcp_ack_syn_rcvd env s c) (\<lambda>(ev0, c1).
       case ev0 of None \<Rightarrow> Inr (TCP_E_IGNORE, c1) | Some ev1 \<Rightarrow>
       let old_snd_nxt = tv_snd_nxt (tc_vars c1) in
       bindE (if ack_state (tc_state c1) then processAckInEstabEtc env s c1 else Inr (True, c1)) (\<lambda>(ok, c2).
       if \<not> ok then Inr (TCP_E_IGNORE, c2)
       else bindE (tcp_ack_states env s ev1 c2) (\<lambda>(final, ev2, c3).
       if final then Inr (ev2, c3)
       else
         let old_rcv_nxt = tv_rcv_nxt (tc_vars c3) in
         bindE (tcp_segment_text env old_snd_una old_rcv_nxt s ev2 c3) (\<lambda>(dropped, s', ev3, c4).
         if dropped then Inr (TCP_E_IGNORE, c4)
         else bindE (tcp_check_fin s' ev3 c4) (\<lambda>(ev4, c5).
           tcp_finish env old_rcv_nxt old_snd_nxt s' ev4 c5))))))"

end
