(* ===== verification/TcpFsm.thy ===== *)
theory TcpFsm
  imports TcpReceive
begin

text \<open>
  The state machine of a TCP connection (\<^verbatim>\<open>inet/src/transport/tcp/TCPConnectionBase.cc\<close>), the
  commands of the application (\<^verbatim>\<open>TCPConnectionEventProc.cc\<close>), the segments of the connection setup
  and the timers (\<^verbatim>\<open>TCPConnectionRcvSegment.cc\<close>).
\<close>

section \<open>Transitions\<close>

definition fsm_next :: "bool \<Rightarrow> tcp_state \<Rightarrow> tcp_event \<Rightarrow> tcp_state" where
  "fsm_next active st ev = (case st of
     TCP_S_INIT \<Rightarrow> (case ev of
         TCP_E_OPEN_PASSIVE \<Rightarrow> TCP_S_LISTEN
       | TCP_E_OPEN_ACTIVE \<Rightarrow> TCP_S_SYN_SENT
       | _ \<Rightarrow> st)
   | TCP_S_LISTEN \<Rightarrow> (case ev of
         TCP_E_OPEN_ACTIVE \<Rightarrow> TCP_S_SYN_SENT
       | TCP_E_SEND \<Rightarrow> TCP_S_SYN_SENT
       | TCP_E_CLOSE \<Rightarrow> TCP_S_CLOSED
       | TCP_E_ABORT \<Rightarrow> TCP_S_CLOSED
       | TCP_E_RCV_SYN \<Rightarrow> TCP_S_SYN_RCVD
       | _ \<Rightarrow> st)
   | TCP_S_SYN_RCVD \<Rightarrow> (case ev of
         TCP_E_CLOSE \<Rightarrow> TCP_S_FIN_WAIT_1
       | TCP_E_ABORT \<Rightarrow> TCP_S_CLOSED
       | TCP_E_TIMEOUT_CONN_ESTAB \<Rightarrow> if active then TCP_S_CLOSED else TCP_S_LISTEN
       | TCP_E_RCV_RST \<Rightarrow> if active then TCP_S_CLOSED else TCP_S_LISTEN
       | TCP_E_RCV_ACK \<Rightarrow> TCP_S_ESTABLISHED
       | TCP_E_RCV_FIN \<Rightarrow> TCP_S_CLOSE_WAIT
       | TCP_E_RCV_UNEXP_SYN \<Rightarrow> TCP_S_CLOSED
       | _ \<Rightarrow> st)
   | TCP_S_SYN_SENT \<Rightarrow> (case ev of
         TCP_E_CLOSE \<Rightarrow> TCP_S_CLOSED
       | TCP_E_ABORT \<Rightarrow> TCP_S_CLOSED
       | TCP_E_TIMEOUT_CONN_ESTAB \<Rightarrow> TCP_S_CLOSED
       | TCP_E_RCV_RST \<Rightarrow> TCP_S_CLOSED
       | TCP_E_RCV_SYN_ACK \<Rightarrow> TCP_S_ESTABLISHED
       | TCP_E_RCV_SYN \<Rightarrow> TCP_S_SYN_RCVD
       | _ \<Rightarrow> st)
   | TCP_S_ESTABLISHED \<Rightarrow> (case ev of
         TCP_E_CLOSE \<Rightarrow> TCP_S_FIN_WAIT_1
       | TCP_E_ABORT \<Rightarrow> TCP_S_CLOSED
       | TCP_E_RCV_FIN \<Rightarrow> TCP_S_CLOSE_WAIT
       | TCP_E_RCV_RST \<Rightarrow> TCP_S_CLOSED
       | TCP_E_RCV_UNEXP_SYN \<Rightarrow> TCP_S_CLOSED
       | _ \<Rightarrow> st)
   | TCP_S_CLOSE_WAIT \<Rightarrow> (case ev of
         TCP_E_CLOSE \<Rightarrow> TCP_S_LAST_ACK
       | TCP_E_ABORT \<Rightarrow> TCP_S_CLOSED
       | TCP_E_RCV_RST \<Rightarrow> TCP_S_CLOSED
       | TCP_E_RCV_UNEXP_SYN \<Rightarrow> TCP_S_CLOSED
       | _ \<Rightarrow> st)
   | TCP_S_LAST_ACK \<Rightarrow> (case ev of
         TCP_E_ABORT \<Rightarrow> TCP_S_CLOSED
       | TCP_E_RCV_ACK \<Rightarrow> TCP_S_CLOSED
       | TCP_E_RCV_RST \<Rightarrow> TCP_S_CLOSED
       | TCP_E_RCV_UNEXP_SYN \<Rightarrow> TCP_S_CLOSED
       | _ \<Rightarrow> st)
   | TCP_S_FIN_WAIT_1 \<Rightarrow> (case ev of
         TCP_E_ABORT \<Rightarrow> TCP_S_CLOSED
       | TCP_E_RCV_FIN \<Rightarrow> TCP_S_CLOSING
       | TCP_E_RCV_ACK \<Rightarrow> TCP_S_FIN_WAIT_2
       | TCP_E_RCV_FIN_ACK \<Rightarrow> TCP_S_TIME_WAIT
       | TCP_E_RCV_RST \<Rightarrow> TCP_S_CLOSED
       | TCP_E_RCV_UNEXP_SYN \<Rightarrow> TCP_S_CLOSED
       | _ \<Rightarrow> st)
   | TCP_S_FIN_WAIT_2 \<Rightarrow> (case ev of
         TCP_E_ABORT \<Rightarrow> TCP_S_CLOSED
       | TCP_E_RCV_FIN \<Rightarrow> TCP_S_TIME_WAIT
       | TCP_E_TIMEOUT_FIN_WAIT_2 \<Rightarrow> TCP_S_CLOSED
       | TCP_E_RCV_RST \<Rightarrow> TCP_S_CLOSED
       | TCP_E_RCV_UNEXP_SYN \<Rightarrow> TCP_S_CLOSED
       | _ \<Rightarrow> st)
   | TCP_S_CLOSING \<Rightarrow> (case ev of
         TCP_E_ABORT \<Rightarrow> TCP_S_CLOSED
       | TCP_E_RCV_ACK \<Rightarrow> TCP_S_TIME_WAIT
       | TCP_E_RCV_RST \<Rightarrow> TCP_S_CLOSED
       | TCP_E_RCV_UNEXP_SYN \<Rightarrow> TCP_S_CLOSED
       | _ \<Rightarrow> st)
   | TCP_S_TIME_WAIT \<Rightarrow> (case ev of
         TCP_E_ABORT \<Rightarrow> TCP_S_CLOSED
       | TCP_E_TIMEOUT_2MSL \<Rightarrow> TCP_S_CLOSED
       | TCP_E_RCV_RST \<Rightarrow> TCP_S_CLOSED
       | TCP_E_RCV_UNEXP_SYN \<Rightarrow> TCP_S_CLOSED
       | _ \<Rightarrow> st)
   | TCP_S_CLOSED \<Rightarrow> st)"

definition stateEntered :: "tcp_env \<Rightarrow> tcp_state \<Rightarrow> tcp_state \<Rightarrow> tcp_event \<Rightarrow> tcp_conn \<Rightarrow> tcp_conn result" where
  "stateEntered env st oldState ev c =
     (let cancel_setup = (\<lambda>c. c\<lparr>tc_connEstabTimer := cancel_opt (tc_connEstabTimer c),
                                tc_synRexmitTimer := cancel_opt (tc_synRexmitTimer c)\<rparr>)
      in case st of
           TCP_S_LISTEN \<Rightarrow>
             bindE (assertE (tc_connEstabTimer c \<noteq> None \<and> tc_synRexmitTimer c \<noteq> None)) (\<lambda>_. Inr (cancel_setup c))
         | TCP_S_ESTABLISHED \<Rightarrow>
             (if tc_connEstabTimer c = None \<or> tc_synRexmitTimer c = None
              then Inl (RuntimeError ''cancelEvent(): message pointer is NULL'')
              else Inr (c\<lparr>tc_connEstabTimer := None, tc_synRexmitTimer := None\<rparr>))
         | TCP_S_CLOSE_WAIT \<Rightarrow> Inr (cancel_setup (sendIndicationToApp TCP_I_PEER_CLOSED c))
         | TCP_S_LAST_ACK \<Rightarrow> Inr (cancel_setup c)
         | TCP_S_FIN_WAIT_1 \<Rightarrow> Inr (cancel_setup c)
         | TCP_S_FIN_WAIT_2 \<Rightarrow> Inr (cancel_setup c)
         | TCP_S_CLOSING \<Rightarrow> Inr (cancel_setup c)
         | TCP_S_TIME_WAIT \<Rightarrow> Inr (sendIndicationToApp TCP_I_CLOSED c)
         | TCP_S_CLOSED \<Rightarrow>
             (let c1 = (if oldState \<noteq> TCP_S_TIME_WAIT \<and> ev \<noteq> TCP_E_ABORT then sendIndicationToApp TCP_I_CLOSED c else c)
              in te_call env ConnectionClosed (cancel_setup (c1\<lparr>tc_the2MSLTimer := False, tc_finWait2Timer := False\<rparr>)))
         | _ \<Rightarrow> Inr c)"

definition performStateTransition :: "tcp_env \<Rightarrow> tcp_event \<Rightarrow> tcp_conn \<Rightarrow> (bool \<times> tcp_conn) result" where
  "performStateTransition env ev c =
     bindE (assertE (tc_state c \<noteq> TCP_S_CLOSED)) (\<lambda>_.
     if ev = TCP_E_IGNORE then Inr (True, c)
     else
       let st = fsm_next (tv_active (tc_vars c)) (tc_state c) ev; c1 = c\<lparr>tc_state := st\<rparr>
       in bindE (if st \<noteq> tc_state c then stateEntered env st (tc_state c) ev c1 else Inr c1) (\<lambda>c2.
            Inr (tc_state c2 \<noteq> TCP_S_CLOSED, c2)))"

section \<open>Connection setup\<close>

text \<open>
  \<open>segmentArrivalWhileClosed\<close>: the answer to a segment that belongs to no connection, \<open>None\<close> when
  there is none.
\<close>

definition segmentArrivalWhileClosed :: "tcp_segment \<Rightarrow> tcp_segment option" where
  "segmentArrivalWhileClosed s =
     (if tg_rst s then None
      else if \<not> tg_ackBit s
      then Some (segment_new\<lparr>tg_rst := True, tg_ackBit := True, tg_seq := 0, tg_ack := tg_seq s + getSegLen s\<rparr>)
      else Some (segment_new\<lparr>tg_rst := True, tg_seq := tg_ack s\<rparr>))"

definition configureStateVariables :: "tcp_env \<Rightarrow> tcp_vars \<Rightarrow> tcp_vars result" where
  "configureStateVariables env v =
     (let cf = te_config env; adv = cf_advertisedWindow cf in
      if \<not> cf_windowScalingSupport cf \<and> (uint TCP_MAX_WIN < adv \<or> adv \<le> 0)
      then Inl (RuntimeError ''Invalid advertisedWindow parameter'')
      else
        let big = (cf_windowScalingSupport cf \<and> uint TCP_MAX_WIN < adv);
            v' = v\<lparr>tv_ws_support := cf_windowScalingSupport cf,
                   tv_rcv_wnd := if big then TCP_MAX_WIN else of_int adv,
                   tv_rcv_adv := if big then TCP_MAX_WIN else of_int adv,
                   tv_maxRcvBuffer := of_int adv,
                   tv_delayed_acks_enabled := cf_delayedAcksEnabled cf,
                   tv_nagle_enabled := cf_nagleEnabled cf,
                   tv_limited_transmit_enabled := cf_limitedTransmitEnabled cf,
                   tv_increased_IW_enabled := cf_increasedIWEnabled cf,
                   tv_snd_mss := of_int (cf_mss cf),
                   tv_ts_support := cf_timestampSupport cf,
                   tv_sack_support := cf_sackSupport cf\<rparr>
        in bindE (assertE (\<not> cf_sackSupport cf \<or> cf_tcpAlgorithmClass cf = ''TCPReno'')) (\<lambda>_. Inr v'))"

definition initConnection :: "tcp_env \<Rightarrow> tcp_conn \<Rightarrow> tcp_conn result" where
  "initConnection env c =
     bindE (configureStateVariables env tcp_vars_new) (\<lambda>v.
       te_call env Initialize (c\<lparr>tc_vars := v, tc_sendQueue := sq_new,
         tc_receiveQueue := \<lparr>rq_rcv_nxt = 0, rq_regions = []\<rparr>, tc_rexmitQueue := xq_new\<rparr>))"

text \<open>
  The part of \<open>cloneListeningConnection\<close> that concerns this connection: the code gives it, and not
  the clone, a new retransmission queue, and configures its variables once more.
\<close>

definition forkListening :: "tcp_env \<Rightarrow> tcp_conn \<Rightarrow> tcp_conn result" where
  "forkListening env c =
     bindE (configureStateVariables env (tc_vars c)) (\<lambda>v.
       te_call env AddForkedConnection (c\<lparr>tc_vars := v, tc_rexmitQueue := xq_new\<rparr>))"

text \<open>The data of a segment with the SYN bit, in either state; \<open>None\<close> when it is dropped.\<close>

definition tcp_syn_text :: "tcp_segment \<Rightarrow> tcp_conn \<Rightarrow> (bool \<times> tcp_conn) result" where
  "tcp_syn_text s c =
     (if 0 < tg_len s
      then let c1 = updateRcvQueueVars c in
           if hasEnoughSpaceForSegmentInReceiveQueue s c1
           then bindE (rq_insertBytesFromSegment s (tc_receiveQueue c1)) (\<lambda>(_, rq). Inr (True, c1\<lparr>tc_receiveQueue := rq\<rparr>))
           else Inr (False, setv (\<lambda>v. v\<lparr>tv_tcpRcvQueueDrops := tv_tcpRcvQueueDrops v + 1\<rparr>) c1)
      else Inr (True, c))"

definition tcp_syn_rcv_vars :: "tcp_segment \<Rightarrow> tcp_conn \<Rightarrow> tcp_conn" where
  "tcp_syn_rcv_vars s c =
     (let c1 = setv (\<lambda>v. v\<lparr>tv_rcv_nxt := tg_seq s + 1, tv_rcv_adv := tg_seq s + 1 + tv_rcv_wnd v, tv_irs := tg_seq s\<rparr>) c
      in c1\<lparr>tc_receiveQueue := rq_init (tv_rcv_nxt (tc_vars c1)) (tc_receiveQueue c1)\<rparr>)"

definition options_present :: "tcp_env \<Rightarrow> tcp_segment \<Rightarrow> tcp_conn \<Rightarrow> tcp_conn result" where
  "options_present env s c =
     (if TCP_HEADER_OCTETS < unat (tg_headerLength s) then te_call env (ReadHeaderOptions s) c else Inr c)"

definition processSegmentInListen :: "tcp_env \<Rightarrow> tcp_segment \<Rightarrow> tcp_conn \<Rightarrow> (tcp_event \<times> tcp_conn) result" where
  "processSegmentInListen env s c =
     (if tg_rst s then Inr (TCP_E_IGNORE, c)
      else if tg_ackBit s then Inr (TCP_E_IGNORE, sendRst (tg_ack s) c)
      else if tg_syn s then
        bindE (if tv_fork (tc_vars c) then forkListening env c else te_call env UpdateSockPair c) (\<lambda>c1.
        let c2 = tcp_syn_rcv_vars s (c1\<lparr>tc_remoteKnown := True, tc_remotePort := uint (tg_srcPort s)\<rparr>);
            c3 = updateWndInfo s True (selectInitialSeqNum env c2)
        in bindE (options_present env s c3) (\<lambda>c4.
           bindE (sendSynAck env (setv (\<lambda>v. v\<lparr>tv_ack_now := True\<rparr>) c4)) (\<lambda>c5.
           bindE (startSynRexmitTimer c5) (\<lambda>c6.
           bindE (if tc_connEstabTimer c6 = Some True then Inr c6 else schedule_connEstab c6) (\<lambda>c7.
           bindE (tcp_syn_text s c7) (\<lambda>(ok, c8).
             Inr (if ok then TCP_E_RCV_SYN else TCP_E_IGNORE, c8)))))))
      else Inr (TCP_E_IGNORE, c))"

text \<open>SYN_SENT, with the SYN bit: the case that the segment acknowledges our SYN, and the other.\<close>

definition tcp_syn_sent_established :: "tcp_env \<Rightarrow> tcp_segment \<Rightarrow> tcp_conn \<Rightarrow> (tcp_event \<times> tcp_conn) result" where
  "tcp_syn_sent_established env s c =
     bindE (tcp_syn_text s c) (\<lambda>(ok, c1).
     if \<not> ok then Inr (TCP_E_IGNORE, c1)
     else bindE (options_present env s c1) (\<lambda>c2.
          bindE (te_call env (Established True) (setv (\<lambda>v. v\<lparr>tv_ack_now := True\<rparr>) c2)) (\<lambda>c3.
            Inr (TCP_E_RCV_SYN_ACK, sendIndicationToApp TCP_I_ESTABLISHED c3))))"

definition tcp_syn_sent_simultaneous :: "tcp_env \<Rightarrow> tcp_segment \<Rightarrow> tcp_conn \<Rightarrow> (tcp_event \<times> tcp_conn) result" where
  "tcp_syn_sent_simultaneous env s c =
     bindE (sendSynAck env (setv (\<lambda>v. v\<lparr>tv_snd_nxt := tv_iss v, tv_snd_max := tv_iss v\<rparr>) c)) (\<lambda>c1.
     bindE (startSynRexmitTimer c1) (\<lambda>c2.
     bindE (tcp_syn_text s c2) (\<lambda>(ok, c3).
       Inr (if ok then TCP_E_RCV_SYN else TCP_E_IGNORE, c3))))"

definition processSegmentInSynSent :: "tcp_env \<Rightarrow> tcp_segment \<Rightarrow> tcp_conn \<Rightarrow> (tcp_event \<times> tcp_conn) result" where
  "processSegmentInSynSent env s c =
     (if tg_ackBit s \<and> (seqLE (tg_ack s) (tv_iss (tc_vars c)) \<or> seqGreater (tg_ack s) (tv_snd_nxt (tc_vars c)))
      then Inr (TCP_E_IGNORE, if tg_rst s then c else sendRst (tg_ack s) c)
      else if tg_rst s
      then (if tg_ackBit s then Inr (TCP_E_RCV_RST, sendIndicationToApp TCP_I_CONNECTION_RESET c) else Inr (TCP_E_IGNORE, c))
      else if tg_syn s then
        let c1 = tcp_syn_rcv_vars s c in
        bindE (if tg_ackBit s
               then let c2 = setv (\<lambda>v. v\<lparr>tv_snd_una := tg_ack s\<rparr>) c1 in
                    bindE (sq_discardUpTo (tg_ack s) (tc_sendQueue c2)) (\<lambda>sq.
                    bindE (if tv_sack_enabled (tc_vars c2) then xq_discardUpTo (tg_ack s) (tc_rexmitQueue c2)
                           else Inr (tc_rexmitQueue c2)) (\<lambda>xq.
                      Inr (updateWndInfo s True (c2\<lparr>tc_sendQueue := sq, tc_rexmitQueue := xq\<rparr>))))
               else Inr c1) (\<lambda>c3.
        bindE (te_call env UpdateSockPair c3) (\<lambda>c4.
        let c5 = c4\<lparr>tc_remoteKnown := True, tc_remotePort := uint (tg_srcPort s)\<rparr>
        in if seqGreater (tv_snd_una (tc_vars c5)) (tv_iss (tc_vars c5)) then tcp_syn_sent_established env s c5
           else tcp_syn_sent_simultaneous env s c5))
      else Inr (TCP_E_IGNORE, c))"

definition process_RCV_SEGMENT :: "tcp_env \<Rightarrow> tcp_segment \<Rightarrow> tcp_conn \<Rightarrow> (tcp_event \<times> tcp_conn) result" where
  "process_RCV_SEGMENT env s c =
     (if tc_state c = TCP_S_LISTEN then processSegmentInListen env s c
      else if tc_state c = TCP_S_SYN_SENT then processSegmentInSynSent env s c
      else processSegment1stThru8th env s c)"

text \<open>
  \<open>processTCPSegment\<close>; the addresses and ports, by which the caller has found the connection, are not
  modelled, so the two assertions that they are those of the connection are left out, and the fast route
  is not taken (\<open>tryFastRoute\<close> always answers \<open>False\<close>).
\<close>

definition processTCPSegment :: "tcp_env \<Rightarrow> tcp_segment \<Rightarrow> tcp_conn \<Rightarrow> (bool \<times> tcp_conn) result" where
  "processTCPSegment env s c =
     bindE (process_RCV_SEGMENT env s c) (\<lambda>(ev, c1). performStateTransition env ev c1)"

end
