(* ===== verification/TcpCommands.thy ===== *)
theory TcpCommands
  imports TcpFsm
begin

text \<open>
  The commands of the application (\<^verbatim>\<open>inet/src/transport/tcp/TCPConnectionEventProc.cc\<close>) and the
  timers of a connection (\<^verbatim>\<open>TCPConnectionRcvSegment.cc\<close>, \<^verbatim>\<open>TCPConnectionBase.cc\<close>).
\<close>

section \<open>Commands\<close>

text \<open>
  \<open>OpenActive\<close> and \<open>OpenPassive\<close> carry whether a remote address is given, the ports and whether to
  fork; \<open>Send\<close> carries the length of the packet.
\<close>

datatype app_command = OpenActive bool int int | OpenPassive bool int | Send nat | Close | Abort | Status
  | QueueBytesLimit int

fun preanalyseAppCommandEvent :: "app_command \<Rightarrow> tcp_event" where
  "preanalyseAppCommandEvent (OpenActive _ _ _) = TCP_E_OPEN_ACTIVE"
| "preanalyseAppCommandEvent (OpenPassive _ _) = TCP_E_OPEN_PASSIVE"
| "preanalyseAppCommandEvent (Send _) = TCP_E_SEND"
| "preanalyseAppCommandEvent Close = TCP_E_CLOSE"
| "preanalyseAppCommandEvent Abort = TCP_E_ABORT"
| "preanalyseAppCommandEvent Status = TCP_E_STATUS"
| "preanalyseAppCommandEvent (QueueBytesLimit _) = TCP_E_QUEUE_BYTES_LIMIT"

definition process_OPEN_ACTIVE :: "tcp_env \<Rightarrow> bool \<Rightarrow> int \<Rightarrow> int \<Rightarrow> tcp_conn \<Rightarrow> tcp_conn result" where
  "process_OPEN_ACTIVE env remoteKnown localPort remotePort c =
     (if tc_state c \<noteq> TCP_S_INIT
      then Inl (RuntimeError ''Error processing command OPEN_ACTIVE: connection already exists'')
      else bindE (initConnection env c) (\<lambda>c1.
        let c2 = setv (\<lambda>v. v\<lparr>tv_active := True\<rparr>) c1 in
        if \<not> remoteKnown \<or> remotePort = -1
        then Inl (RuntimeError ''Error processing command OPEN_ACTIVE: remote address and port must be specified'')
        else
          let c3 = c2\<lparr>tc_remoteKnown := remoteKnown, tc_remotePort := remotePort,
                     tc_localPort := if localPort = -1 then te_ephemeralPort env else localPort\<rparr>
          in bindE (te_call env AddSockPair c3) (\<lambda>c4.
             bindE (sendSyn env (selectInitialSeqNum env c4)) (\<lambda>c5.
             bindE (startSynRexmitTimer c5) schedule_connEstab))))"

definition process_OPEN_PASSIVE :: "tcp_env \<Rightarrow> bool \<Rightarrow> int \<Rightarrow> tcp_conn \<Rightarrow> tcp_conn result" where
  "process_OPEN_PASSIVE env forking localPort c =
     (if tc_state c \<noteq> TCP_S_INIT
      then Inl (RuntimeError ''Error processing command OPEN_PASSIVE: connection already exists'')
      else bindE (initConnection env c) (\<lambda>c1.
        let c2 = setv (\<lambda>v. v\<lparr>tv_active := False, tv_fork := forking\<rparr>) c1 in
        if localPort = -1
        then Inl (RuntimeError ''Error processing command OPEN_PASSIVE: local port must be specified'')
        else te_call env AddSockPair (c2\<lparr>tc_localPort := localPort, tc_remoteKnown := False, tc_remotePort := -1\<rparr>)))"

definition enqueue_command :: "nat \<Rightarrow> tcp_conn \<Rightarrow> tcp_conn result" where
  "enqueue_command bytes c =
     bindE (sq_enqueueAppData bytes (tc_sendQueue c)) (\<lambda>sq. Inr (c\<lparr>tc_sendQueue := sq\<rparr>))"

definition process_SEND :: "tcp_env \<Rightarrow> nat \<Rightarrow> tcp_conn \<Rightarrow> tcp_conn result" where
  "process_SEND env bytes c =
     bindE (case tc_state c of
         TCP_S_INIT \<Rightarrow> Inl (RuntimeError ''Error processing command SEND: connection not open'')
       | TCP_S_LISTEN \<Rightarrow>
           bindE (sendSyn env (selectInitialSeqNum env (setv (\<lambda>v. v\<lparr>tv_active := True\<rparr>) c))) (\<lambda>c1.
           bindE (startSynRexmitTimer c1) (\<lambda>c2.
           bindE (schedule_connEstab c2) (enqueue_command bytes)))
       | TCP_S_SYN_RCVD \<Rightarrow> enqueue_command bytes c
       | TCP_S_SYN_SENT \<Rightarrow> enqueue_command bytes c
       | TCP_S_ESTABLISHED \<Rightarrow> bindE (enqueue_command bytes c) (te_call env SendCommandInvoked)
       | TCP_S_CLOSE_WAIT \<Rightarrow> bindE (enqueue_command bytes c) (te_call env SendCommandInvoked)
       | TCP_S_CLOSED \<Rightarrow> Inr c
       | _ \<Rightarrow> Inl (RuntimeError ''Error processing command SEND: connection closing'')) (\<lambda>c1.
     let v = tc_vars c1 in
     Inr (if 0 < tv_sendQueueLimit v \<and> tv_sendQueueLimit v < sq_getBytesAvailable (tv_snd_una v) (tc_sendQueue c1)
          then setv (\<lambda>v. v\<lparr>tv_queueUpdate := False\<rparr>) c1 else c1))"

text \<open>The event is \<open>TCP_E_IGNORE\<close> when the FIN has to wait for the data before it.\<close>

definition process_CLOSE :: "tcp_env \<Rightarrow> tcp_conn \<Rightarrow> (tcp_event \<times> tcp_conn) result" where
  "process_CLOSE env c =
     (let st = tc_state c in
      if st = TCP_S_INIT then Inl (RuntimeError ''Error processing command CLOSE: connection not open'')
      else if st = TCP_S_SYN_RCVD \<or> st = TCP_S_ESTABLISHED \<or> st = TCP_S_CLOSE_WAIT then
        bindE (if tv_snd_max (tc_vars c) = sq_getBufferEndSeq (tc_sendQueue c)
               then bindE (sendFin env (setv (\<lambda>v. v\<lparr>tv_snd_nxt := tv_snd_max v\<rparr>) c)) (\<lambda>c1.
                    bindE (te_call env RestartRexmitTimer c1) (\<lambda>c2.
                      Inr (TCP_E_CLOSE, setv (\<lambda>v. v\<lparr>tv_snd_nxt := tv_snd_nxt v + 1, tv_snd_max := tv_snd_nxt v + 1\<rparr>) c2)))
               else Inr (TCP_E_IGNORE, c)) (\<lambda>(ev, c3).
          Inr (ev, setv (\<lambda>v. v\<lparr>tv_send_fin := True, tv_snd_fin_seq := sq_getBufferEndSeq (tc_sendQueue c3)\<rparr>) c3))
      else if st = TCP_S_FIN_WAIT_1 \<or> st = TCP_S_FIN_WAIT_2 \<or> st = TCP_S_CLOSING \<or> st = TCP_S_LAST_ACK \<or> st = TCP_S_TIME_WAIT
      then Inl (RuntimeError ''Duplicate CLOSE command: connection already closing'')
      else Inr (TCP_E_CLOSE, c))"

definition process_ABORT :: "tcp_conn \<Rightarrow> tcp_conn result" where
  "process_ABORT c =
     (case tc_state c of
        TCP_S_INIT \<Rightarrow> Inl (RuntimeError ''Error processing command ABORT: connection not open'')
      | TCP_S_SYN_RCVD \<Rightarrow> Inr (sendRst (tv_snd_nxt (tc_vars c)) c)
      | TCP_S_ESTABLISHED \<Rightarrow> Inr (sendRst (tv_snd_nxt (tc_vars c)) c)
      | TCP_S_FIN_WAIT_1 \<Rightarrow> Inr (sendRst (tv_snd_nxt (tc_vars c)) c)
      | TCP_S_FIN_WAIT_2 \<Rightarrow> Inr (sendRst (tv_snd_nxt (tc_vars c)) c)
      | TCP_S_CLOSE_WAIT \<Rightarrow> Inr (sendRst (tv_snd_nxt (tc_vars c)) c)
      | _ \<Rightarrow> Inr c)"

text \<open>The variables exist from the first open on, which is when the state \<open>INIT\<close> is left.\<close>

definition process_QUEUE_BYTES_LIMIT :: "int \<Rightarrow> tcp_conn \<Rightarrow> tcp_conn result" where
  "process_QUEUE_BYTES_LIMIT limit c =
     (if tc_state c = TCP_S_INIT
      then Inl (RuntimeError ''Called process_QUEUE_BYTES_LIMIT on uninitialized TCPConnection!'')
      else Inr (setv (\<lambda>v. v\<lparr>tv_sendQueueLimit := of_int limit\<rparr>) c))"

text \<open>The answer to \<open>STATUS\<close>, a copy of the variables, is not modelled, only its error.\<close>

definition process_STATUS :: "tcp_conn \<Rightarrow> tcp_conn result" where
  "process_STATUS c =
     (if tc_state c = TCP_S_INIT then Inl (RuntimeError ''Error processing command STATUS: connection not open'')
      else Inr c)"

definition processAppCommand :: "tcp_env \<Rightarrow> app_command \<Rightarrow> tcp_conn \<Rightarrow> (bool \<times> tcp_conn) result" where
  "processAppCommand env cmd c =
     (let ev = preanalyseAppCommandEvent cmd; same = (\<lambda>m. bindE m (\<lambda>c. Inr (ev, c))) in
      bindE (case cmd of
          OpenActive remoteKnown localPort remotePort \<Rightarrow> same (process_OPEN_ACTIVE env remoteKnown localPort remotePort c)
        | OpenPassive forking localPort \<Rightarrow> same (process_OPEN_PASSIVE env forking localPort c)
        | Send bytes \<Rightarrow> same (process_SEND env bytes c)
        | Close \<Rightarrow> process_CLOSE env c
        | Abort \<Rightarrow> same (process_ABORT c)
        | Status \<Rightarrow> same (process_STATUS c)
        | QueueBytesLimit limit \<Rightarrow> same (process_QUEUE_BYTES_LIMIT limit c)) (\<lambda>(ev', c1).
      performStateTransition env ev' c1))"

section \<open>Timers\<close>

datatype tcp_timer = The2MSL | ConnEstab | FinWait2 | SynRexmit | AlgorithmTimer alg_timer

definition MAX_SYN_REXMIT_COUNT :: int where
  "MAX_SYN_REXMIT_COUNT = 12"

definition TCP_TIMEOUT_SYN_REXMIT_MAX :: simtime where
  "TCP_TIMEOUT_SYN_REXMIT_MAX = 240 * simtime_s"

definition process_TIMEOUT_CONN_ESTAB :: "tcp_conn \<Rightarrow> tcp_conn result" where
  "process_TIMEOUT_CONN_ESTAB c =
     (if tc_state c = TCP_S_SYN_RCVD \<or> tc_state c = TCP_S_SYN_SENT
      then Inr (if tv_active (tc_vars c) then sendIndicationToApp TCP_I_TIMED_OUT c else c)
      else Inl (RuntimeError ''Internal error: received CONN_ESTAB timeout''))"

definition process_TIMEOUT_2MSL :: "tcp_conn \<Rightarrow> tcp_conn result" where
  "process_TIMEOUT_2MSL c =
     (if tc_state c = TCP_S_TIME_WAIT then Inr c
      else Inl (RuntimeError ''Internal error: received time-wait (2MSL) timeout''))"

definition process_TIMEOUT_FIN_WAIT_2 :: "tcp_conn \<Rightarrow> tcp_conn result" where
  "process_TIMEOUT_FIN_WAIT_2 c =
     (if tc_state c = TCP_S_FIN_WAIT_2 then Inr c
      else Inl (RuntimeError ''Internal error: received FIN_WAIT_2 timeout''))"

definition process_TIMEOUT_SYN_REXMIT :: "tcp_env \<Rightarrow> tcp_event \<Rightarrow> tcp_conn \<Rightarrow> (tcp_event \<times> tcp_conn) result" where
  "process_TIMEOUT_SYN_REXMIT env ev c =
     (let c1 = setv (\<lambda>v. v\<lparr>tv_syn_rexmit_count := tv_syn_rexmit_count v + 1\<rparr>) c in
      if MAX_SYN_REXMIT_COUNT < tv_syn_rexmit_count (tc_vars c1) then Inr (TCP_E_ABORT, c1)
      else bindE (case tc_state c1 of
                    TCP_S_SYN_SENT \<Rightarrow> sendSyn env c1
                  | TCP_S_SYN_RCVD \<Rightarrow> sendSynAck env c1
                  | _ \<Rightarrow> Inl (RuntimeError ''Internal error: SYN-REXMIT timer expired'')) (\<lambda>c2.
           let c3 = setv (\<lambda>v. v\<lparr>tv_syn_rexmit_timeout :=
                      (let t = 2 * tv_syn_rexmit_timeout v
                       in if TCP_TIMEOUT_SYN_REXMIT_MAX < t then TCP_TIMEOUT_SYN_REXMIT_MAX else t)\<rparr>) c2
           in bindE (schedule_synRexmit c3) (\<lambda>c4. Inr (ev, c4))))"

text \<open>A timer that has expired is no longer scheduled when it is processed.\<close>

definition processTimer :: "tcp_env \<Rightarrow> tcp_timer \<Rightarrow> tcp_conn \<Rightarrow> (bool \<times> tcp_conn) result" where
  "processTimer env t c =
     bindE (case t of
         The2MSL \<Rightarrow> bindE (process_TIMEOUT_2MSL (c\<lparr>tc_the2MSLTimer := False\<rparr>)) (\<lambda>c1. Inr (TCP_E_TIMEOUT_2MSL, c1))
       | ConnEstab \<Rightarrow> bindE (process_TIMEOUT_CONN_ESTAB (c\<lparr>tc_connEstabTimer := cancel_opt (tc_connEstabTimer c)\<rparr>))
           (\<lambda>c1. Inr (TCP_E_TIMEOUT_CONN_ESTAB, c1))
       | FinWait2 \<Rightarrow> bindE (process_TIMEOUT_FIN_WAIT_2 (c\<lparr>tc_finWait2Timer := False\<rparr>))
           (\<lambda>c1. Inr (TCP_E_TIMEOUT_FIN_WAIT_2, c1))
       | SynRexmit \<Rightarrow> process_TIMEOUT_SYN_REXMIT env TCP_E_IGNORE (c\<lparr>tc_synRexmitTimer := cancel_opt (tc_synRexmitTimer c)\<rparr>)
       | AlgorithmTimer at \<Rightarrow> te_algorithmTimer env at c) (\<lambda>(ev, c1).
     performStateTransition env ev c1)"

end
