(* ===== verification/TcpFlavours.thy ===== *)
theory TcpFlavours
  imports TcpBaseAlg TcpCommands
begin

text \<open>
  The congestion control algorithms (\<^verbatim>\<open>inet/src/transport/tcp/flavours\<close>): no congestion control, Tahoe,
  Reno with SACK, NewReno and \<open>DumbTCP\<close>.  \<open>alg_env\<close> binds the callbacks of a flavour, and the reading
  and writing of the header options, to a connection.
\<close>

section \<open>Congestion windows\<close>

text \<open>\<open>recalculateSlowStartThreshold\<close>, the same in Tahoe, Reno and NewReno.\<close>

definition recalculateSlowStartThreshold :: "tcp_conn \<Rightarrow> tcp_conn" where
  "recalculateSlowStartThreshold c =
     (let flight_size = min (ta_snd_cwnd (tc_alg c)) (tv_snd_wnd (tc_vars c))
      in seta (\<lambda>a. a\<lparr>ta_ssthresh := max (flight_size div 2) (2 * tv_snd_mss (tc_vars c))\<rparr>) c)"

definition set_cwnd :: "u32 \<Rightarrow> tcp_conn \<Rightarrow> tcp_conn" where
  "set_cwnd w c = seta (\<lambda>a. a\<lparr>ta_snd_cwnd := w\<rparr>) c"

text \<open>Slow start below the threshold, congestion avoidance from there on.\<close>

definition grow_cwnd :: "tcp_conn \<Rightarrow> tcp_conn result" where
  "grow_cwnd c =
     (let cwnd = ta_snd_cwnd (tc_alg c); mss = tv_snd_mss (tc_vars c) in
      if cwnd < ta_ssthresh (tc_alg c) then Inr (set_cwnd (cwnd + mss) c)
      else if cwnd = 0 then Inl (Undefined ''division by zero'')
      else let incr = mss * mss div cwnd in Inr (set_cwnd (cwnd + (if incr = 0 then 1 else incr)) c))"

text \<open>The start of slow start after a timeout: the front of the queue is sent again.\<close>

definition slow_start :: "tcp_env \<Rightarrow> tcp_conn \<Rightarrow> tcp_conn result" where
  "slow_start env c =
     (let c1 = recalculateSlowStartThreshold c; c2 = set_cwnd (tv_snd_mss (tc_vars c1)) c1
      in retransmitOneSegment env True (setv (\<lambda>v. v\<lparr>tv_afterRto := True\<rparr>) c2))"

section \<open>No congestion control\<close>

definition nocc_initialize :: "tcp_conn \<Rightarrow> tcp_conn" where
  "nocc_initialize c = set_cwnd 0x7fffffff c"

definition after_rexmit :: "(tcp_conn \<Rightarrow> tcp_conn result) \<Rightarrow> tcp_conn \<Rightarrow> (tcp_event \<times> tcp_conn) result" where
  "after_rexmit f c =
     bindE (base_processRexmitTimer c) (\<lambda>(ev, c1).
     if ev = TCP_E_ABORT then Inr (ev, c1) else bindE (f c1) (\<lambda>c2. Inr (ev, c2)))"

definition nocc_processRexmitTimer :: "tcp_env \<Rightarrow> tcp_conn \<Rightarrow> (tcp_event \<times> tcp_conn) result" where
  "nocc_processRexmitTimer env = after_rexmit (retransmitOneSegment env True)"

definition nocc_receivedDataAck :: "tcp_env \<Rightarrow> tcp_conn \<Rightarrow> tcp_conn result" where
  "nocc_receivedDataAck env c = bindE (base_receivedDataAck env c) (\<lambda>c1. quietly (base_sendData env False c1))"

section \<open>Tahoe\<close>

definition tahoe_processRexmitTimer :: "tcp_env \<Rightarrow> tcp_conn \<Rightarrow> (tcp_event \<times> tcp_conn) result" where
  "tahoe_processRexmitTimer env = after_rexmit (slow_start env)"

definition tahoe_receivedDataAck :: "tcp_env \<Rightarrow> tcp_conn \<Rightarrow> tcp_conn result" where
  "tahoe_receivedDataAck env c =
     bindE (base_receivedDataAck env c) (\<lambda>c1. bindE (grow_cwnd c1) (\<lambda>c2. quietly (base_sendData env False c2)))"

definition tahoe_receivedDuplicateAck :: "tcp_env \<Rightarrow> tcp_conn \<Rightarrow> tcp_conn result" where
  "tahoe_receivedDuplicateAck env c =
     bindE (base_receivedDuplicateAck env c) (\<lambda>c1.
     if tv_dupacks (tc_vars c1) = DUPTHRESH
     then let c2 = recalculateSlowStartThreshold c1
          in retransmitOneSegment env False (set_cwnd (tv_snd_mss (tc_vars c2)) c2)
     else Inr c1)"

section \<open>Reno\<close>

definition reno_processRexmitTimer :: "tcp_env \<Rightarrow> tcp_conn \<Rightarrow> (tcp_event \<times> tcp_conn) result" where
  "reno_processRexmitTimer env = after_rexmit (slow_start env)"

text \<open>Steps (A) to (C) of RFC 3517 on an acknowledgment of new data.\<close>

definition recovery_room :: "tcp_env \<Rightarrow> tcp_conn \<Rightarrow> tcp_conn result" where
  "recovery_room env c =
     (if pipe_has_room (ta_snd_cwnd (tc_alg c)) c then sendDataDuringLossRecoveryPhase env (ta_snd_cwnd (tc_alg c)) c else Inr c)"

definition reno_recovery_on_ack :: "tcp_env \<Rightarrow> tcp_conn \<Rightarrow> tcp_conn result" where
  "reno_recovery_on_ack env c =
     (if tv_sack_enabled (tc_vars c) \<and> ta_lossRecovery (tc_alg c)
      then if seqGE (tv_snd_una (tc_vars c)) (ta_recoveryPoint (tc_alg c))
           then Inr (seta (\<lambda>a. a\<lparr>ta_lossRecovery := False\<rparr>) c)
           else bindE (setPipe c) (recovery_room env)
      else Inr c)"

definition reno_receivedDataAck :: "tcp_env \<Rightarrow> tcp_conn \<Rightarrow> tcp_conn result" where
  "reno_receivedDataAck env c =
     bindE (base_receivedDataAck env c) (\<lambda>c1.
     bindE (if DUPTHRESH \<le> tv_dupacks (tc_vars c1) then Inr (set_cwnd (ta_ssthresh (tc_alg c1)) c1) else grow_cwnd c1) (\<lambda>c2.
     bindE (reno_recovery_on_ack env c2) (\<lambda>c3. quietly (base_sendData env False c3))))"

definition reno_enter_recovery :: "tcp_conn \<Rightarrow> tcp_conn" where
  "reno_enter_recovery c =
     (if tv_sack_enabled (tc_vars c) \<and>
         (ta_recoveryPoint (tc_alg c) = 0 \<or> seqGE (tv_snd_una (tc_vars c)) (ta_recoveryPoint (tc_alg c)))
      then seta (\<lambda>a. a\<lparr>ta_recoveryPoint := tv_snd_max (tc_vars c), ta_lossRecovery := True\<rparr>) c else c)"

text \<open>\<open>restartRexmitTimer\<close> is a virtual function of the algorithm.\<close>

definition reno_fast_retransmit :: "tcp_env \<Rightarrow> tcp_conn \<Rightarrow> tcp_conn result" where
  "reno_fast_retransmit env c =
     (let c1 = recalculateSlowStartThreshold (reno_enter_recovery c);
          c2 = set_cwnd (ta_ssthresh (tc_alg c1) + 3 * tv_snd_mss (tc_vars c1)) c1
      in bindE (retransmitOneSegment env False c2) (\<lambda>c3.
         bindE (if tv_sack_enabled (tc_vars c3)
                then bindE (setPipe c3) (\<lambda>c4.
                     if ta_lossRecovery (tc_alg c4)
                     then bindE (te_call env RestartRexmitTimer c4) (recovery_room env) else Inr c4)
                else Inr c3) (\<lambda>c5. quietly (base_sendData env False c5))))"

definition reno_receivedDuplicateAck :: "tcp_env \<Rightarrow> tcp_conn \<Rightarrow> tcp_conn result" where
  "reno_receivedDuplicateAck env c =
     bindE (base_receivedDuplicateAck env c) (\<lambda>c1.
     let d = tv_dupacks (tc_vars c1) in
     if d = DUPTHRESH then reno_fast_retransmit env c1
     else if DUPTHRESH < d
     then quietly (base_sendData env False (set_cwnd (ta_snd_cwnd (tc_alg c1) + tv_snd_mss (tc_vars c1)) c1))
     else Inr c1)"

section \<open>NewReno\<close>

definition newreno_processRexmitTimer :: "tcp_env \<Rightarrow> tcp_conn \<Rightarrow> (tcp_event \<times> tcp_conn) result" where
  "newreno_processRexmitTimer env = after_rexmit (\<lambda>c.
     slow_start env (seta (\<lambda>a. a\<lparr>ta_recover := tv_snd_max (tc_vars c) - 1, ta_lossRecovery := False, ta_firstPartialACK := False\<rparr>) c))"

text \<open>The end of fast recovery, and an acknowledgment of a part of the data during it.\<close>

definition newreno_full_ack :: "tcp_conn \<Rightarrow> tcp_conn" where
  "newreno_full_ack c =
     (let v = tc_vars c; flight_size = tv_snd_max v - tv_snd_una v
      in seta (\<lambda>a. a\<lparr>ta_snd_cwnd := min (ta_ssthresh a) (flight_size + tv_snd_mss v), ta_lossRecovery := False,
                    ta_firstPartialACK := False\<rparr>) c)"

definition newreno_partial_ack :: "tcp_env \<Rightarrow> u32 \<Rightarrow> tcp_conn \<Rightarrow> tcp_conn result" where
  "newreno_partial_ack env firstSeqAcked c =
     bindE (retransmitOneSegment env False c) (\<lambda>c1.
     let v = tc_vars c1; acked = tv_snd_una v - firstSeqAcked; cwnd = ta_snd_cwnd (tc_alg c1) - acked;
         c2 = set_cwnd (if tv_snd_mss v \<le> acked then cwnd + tv_snd_mss v else cwnd) c1
     in bindE (quietly (base_sendData env False c2)) (\<lambda>c3.
        if ta_lossRecovery (tc_alg c3) \<and> \<not> ta_firstPartialACK (tc_alg c3)
        then te_call env RestartRexmitTimer (seta (\<lambda>a. a\<lparr>ta_firstPartialACK := True\<rparr>) c3) else Inr c3))"

definition newreno_receivedDataAck :: "tcp_env \<Rightarrow> u32 \<Rightarrow> tcp_conn \<Rightarrow> tcp_conn result" where
  "newreno_receivedDataAck env firstSeqAcked c =
     bindE (base_receivedDataAck env c) (\<lambda>c1.
     bindE (if ta_lossRecovery (tc_alg c1)
            then if seqGE (tv_snd_una (tc_vars c1) - 1) (ta_recover (tc_alg c1)) then Inr (newreno_full_ack c1)
                 else newreno_partial_ack env firstSeqAcked c1
            else bindE (grow_cwnd c1) (\<lambda>c2. Inr (seta (\<lambda>a. a\<lparr>ta_recover := tv_snd_una (tc_vars c2) - 2\<rparr>) c2))) (\<lambda>c3.
       quietly (base_sendData env False c3)))"

definition newreno_receivedDuplicateAck :: "tcp_env \<Rightarrow> tcp_conn \<Rightarrow> tcp_conn result" where
  "newreno_receivedDuplicateAck env c =
     bindE (base_receivedDuplicateAck env c) (\<lambda>c1.
     let d = tv_dupacks (tc_vars c1) in
     if d = DUPTHRESH
     then if \<not> ta_lossRecovery (tc_alg c1) \<and> ta_recover (tc_alg c1) < tv_snd_una (tc_vars c1) - 1
          then let c2 = recalculateSlowStartThreshold c1;
                   c3 = seta (\<lambda>a. a\<lparr>ta_recover := tv_snd_max (tc_vars c2) - 1, ta_firstPartialACK := False, ta_lossRecovery := True\<rparr>) c2;
                   c4 = set_cwnd (ta_ssthresh (tc_alg c3) + 3 * tv_snd_mss (tc_vars c3)) c3
               in bindE (retransmitOneSegment env False c4) (\<lambda>c5. quietly (base_sendData env False c5))
          else Inr c1
     else if DUPTHRESH < d \<and> ta_lossRecovery (tc_alg c1)
     then quietly (base_sendData env False (set_cwnd (ta_snd_cwnd (tc_alg c1) + tv_snd_mss (tc_vars c1)) c1))
     else Inr c1)"

section \<open>DumbTCP\<close>

definition DUMB_REXMIT_TIMEOUT :: simtime where
  "DUMB_REXMIT_TIMEOUT = 2 * simtime_s"

definition dumb_call :: "tcp_call \<Rightarrow> tcp_conn \<Rightarrow> tcp_conn result" where
  "dumb_call call c = (case call of DataSent n \<Rightarrow> schedule_rexmit DUMB_REXMIT_TIMEOUT (cancel_rexmit c) | _ \<Rightarrow> Inr c)"

definition dumb_established :: "tcp_env \<Rightarrow> bool \<Rightarrow> tcp_conn \<Rightarrow> tcp_conn result" where
  "dumb_established env active c =
     (if active then bindE (sendData env False 65535 c) (\<lambda>(sent, c1). if sent then Inr c1 else sendAck env c1) else Inr c)"

definition dumb_processTimer :: "tcp_env \<Rightarrow> alg_timer \<Rightarrow> tcp_conn \<Rightarrow> (tcp_event \<times> tcp_conn) result" where
  "dumb_processTimer env t c =
     (if t \<noteq> RexmitTimer then Inl (RuntimeError ''unrecognized timer'')
      else bindE (retransmitData env c) (\<lambda>c1. bindE (schedule_rexmit DUMB_REXMIT_TIMEOUT c1) (\<lambda>c2. Inr (TCP_E_IGNORE, c2))))"

section \<open>The callbacks of a flavour\<close>

datatype tcp_flavour = NoCongestionControl | Tahoe | Reno | NewReno | Dumb

definition flavour_leaf :: "tcp_flavour \<Rightarrow> tcp_env \<Rightarrow> tcp_env" where
  "flavour_leaf fl env = leaf_env (if fl = Dumb then dumb_call else base_call) env"

definition flavour_initialize :: "tcp_flavour \<Rightarrow> tcp_conn \<Rightarrow> tcp_conn" where
  "flavour_initialize fl c =
     (let c1 = c\<lparr>tc_alg := tcp_alg_new\<rparr> in if fl = NoCongestionControl then nocc_initialize c1 else c1)"

definition flavour_receivedDataAck :: "tcp_flavour \<Rightarrow> tcp_env \<Rightarrow> u32 \<Rightarrow> tcp_conn \<Rightarrow> tcp_conn result" where
  "flavour_receivedDataAck fl env firstSeqAcked c = (case fl of
       NoCongestionControl \<Rightarrow> nocc_receivedDataAck env c
     | Tahoe \<Rightarrow> tahoe_receivedDataAck env c
     | Reno \<Rightarrow> reno_receivedDataAck env c
     | NewReno \<Rightarrow> newreno_receivedDataAck env firstSeqAcked c
     | Dumb \<Rightarrow> quietly (sendData env False 65535 c))"

definition flavour_receivedDuplicateAck :: "tcp_flavour \<Rightarrow> tcp_env \<Rightarrow> tcp_conn \<Rightarrow> tcp_conn result" where
  "flavour_receivedDuplicateAck fl env c = (case fl of
       NoCongestionControl \<Rightarrow> base_receivedDuplicateAck env c
     | Tahoe \<Rightarrow> tahoe_receivedDuplicateAck env c
     | Reno \<Rightarrow> reno_receivedDuplicateAck env c
     | NewReno \<Rightarrow> newreno_receivedDuplicateAck env c
     | Dumb \<Rightarrow> Inr c)"

text \<open>
  \<open>AddSockPair\<close>, \<open>UpdateSockPair\<close> and \<open>AddForkedConnection\<close> change the tables of the module \<open>TCP\<close> and
  not the connection.
\<close>

definition flavour_call :: "tcp_flavour \<Rightarrow> tcp_env \<Rightarrow> tcp_call \<Rightarrow> tcp_conn \<Rightarrow> tcp_conn result" where
  "flavour_call fl env0 call c =
     (let env = flavour_leaf fl env0; dumb = (fl = Dumb) in
      case call of
        Initialize \<Rightarrow> Inr (flavour_initialize fl c)
      | Established active \<Rightarrow> (if dumb then dumb_established env active c else base_established env active c)
      | ConnectionClosed \<Rightarrow> Inr (if dumb then cancel_rexmit c else base_connectionClosed c)
      | ReceivedDataAck n \<Rightarrow> flavour_receivedDataAck fl env n c
      | ReceivedDuplicateAck \<Rightarrow> flavour_receivedDuplicateAck fl env c
      | ReceivedAckForDataNotYetSent n \<Rightarrow> sendAck env c
      | ReceivedOutOfOrderSegment \<Rightarrow> (if dumb then sendAck env c else base_receivedOutOfOrderSegment env c)
      | ReceiveSeqChanged \<Rightarrow> (if dumb then sendAck env c else base_receiveSeqChanged env c)
      | RttMeasurementCompleteUsingTS n \<Rightarrow> (if dumb then Inr c else rttMeasurementCompleteUsingTS env n c)
      | SendCommandInvoked \<Rightarrow> quietly (if dumb then sendData env False 65535 c else base_sendData env True c)
      | ReadHeaderOptions s \<Rightarrow> readHeaderOptions s c
      | AddSockPair \<Rightarrow> Inr c
      | UpdateSockPair \<Rightarrow> Inr c
      | AddForkedConnection \<Rightarrow> Inr c
      | AckSent \<Rightarrow> te_call env AckSent c
      | DataSent n \<Rightarrow> te_call env (DataSent n) c
      | SegmentRetransmitted n m \<Rightarrow> te_call env (SegmentRetransmitted n m) c
      | RestartRexmitTimer \<Rightarrow> te_call env RestartRexmitTimer c)"

text \<open>\<open>processTimer\<close>; the timer that has expired is no longer scheduled.\<close>

definition clear_timer :: "alg_timer \<Rightarrow> tcp_conn \<Rightarrow> tcp_conn" where
  "clear_timer t c = (case t of
       RexmitTimer \<Rightarrow> seta (\<lambda>a. a\<lparr>ta_rexmitTimer := None\<rparr>) c
     | PersistTimer \<Rightarrow> seta (\<lambda>a. a\<lparr>ta_persistTimer := None\<rparr>) c
     | DelayedAckTimer \<Rightarrow> seta (\<lambda>a. a\<lparr>ta_delayedAckTimer := None\<rparr>) c
     | KeepAliveTimer \<Rightarrow> seta (\<lambda>a. a\<lparr>ta_keepAliveTimer := None\<rparr>) c)"

definition flavour_processRexmitTimer :: "tcp_flavour \<Rightarrow> tcp_env \<Rightarrow> tcp_conn \<Rightarrow> (tcp_event \<times> tcp_conn) result" where
  "flavour_processRexmitTimer fl env = (case fl of
       NoCongestionControl \<Rightarrow> nocc_processRexmitTimer env
     | Tahoe \<Rightarrow> tahoe_processRexmitTimer env
     | Reno \<Rightarrow> reno_processRexmitTimer env
     | NewReno \<Rightarrow> newreno_processRexmitTimer env
     | Dumb \<Rightarrow> dumb_processTimer env RexmitTimer)"

definition flavour_processTimer :: "tcp_flavour \<Rightarrow> tcp_env \<Rightarrow> alg_timer \<Rightarrow> tcp_conn \<Rightarrow> (tcp_event \<times> tcp_conn) result" where
  "flavour_processTimer fl env0 t c0 =
     (let env = flavour_leaf fl env0; c = clear_timer t c0; ignoring = (\<lambda>m. bindE m (\<lambda>c1. Inr (TCP_E_IGNORE, c1))) in
      if fl = Dumb then dumb_processTimer env t c
      else case t of
             RexmitTimer \<Rightarrow> flavour_processRexmitTimer fl env c
           | PersistTimer \<Rightarrow> ignoring (base_processPersistTimer env c)
           | DelayedAckTimer \<Rightarrow> ignoring (base_processDelayedAckTimer env c)
           | KeepAliveTimer \<Rightarrow> Inr (TCP_E_IGNORE, c))"

text \<open>The environment of a connection with a flavour; the other parameters come from \<open>env\<close>.\<close>

definition alg_env :: "tcp_flavour \<Rightarrow> tcp_env \<Rightarrow> tcp_env" where
  "alg_env fl env = env\<lparr>te_call := flavour_call fl env, te_writeHeaderOptions := writeHeaderOptions env,
                        te_algorithmTimer := flavour_processTimer fl env\<rparr>"

end
