(* ===== verification/TcpReassembly.thy ===== *)
theory TcpReassembly
  imports TcpReceive
begin

text \<open>
  The reassembly of the byte stream: truncation to the window, insertion and delivery, for
  segments that arrive in any order, more than once and with overlaps.
\<close>

section \<open>Truncation\<close>

lemma unat_ucast_u64_u32: "unat (x :: u64) < 4294967296 \<Longrightarrow> unat (ucast x :: u32) = unat x"
  by (simp add: unsigned_ucast_eq take_bit_nat_eq_self)

lemma unat_ucast_u32_u64 [simp]: "unat (ucast (x :: u32) :: u64) = unat x"
proof -
  have "unat x < 2 ^ 64" using unsigned_less[of x, where ?'a = nat] by simp
  then show ?thesis by (simp add: unsigned_ucast_eq take_bit_nat_eq_self)
qed

text \<open>A segment with data, all of it within half of the number space after \<open>w\<close>.\<close>

definition segment_ok :: "u32 \<Rightarrow> tcp_segment \<Rightarrow> bool" where
  "segment_ok w s \<longleftrightarrow> 0 < unat (tg_len s) \<and> off w (tg_seq s) + unat (tg_len s) < 2147483648"

definition segment_span :: "u32 \<Rightarrow> tcp_segment \<Rightarrow> nat set" where
  "segment_span w s = {off w (tg_seq s)..<off w (tg_seq s) + unat (tg_len s)}"

lemma segment_end: "segment_ok w s \<Longrightarrow> off w (tg_end s) = off w (tg_seq s) + unat (tg_len s)"
  using off_add[of w "tg_seq s" "ucast (tg_len s)"]
  by (simp add: segment_ok_def tg_end_def unat_ucast_u64_u32)

lemma segment_near: "segment_ok w s \<Longrightarrow> near w (tg_seq s) \<and> near w (tg_end s)"
  using segment_end[of w s] by (simp add: near_def segment_ok_def)

lemma segment_region:
  assumes "segment_ok w s"
  shows "region_ok w (createRegionFromSegment s)" "span w (createRegionFromSegment s) = segment_span w s"
  using segment_end[OF assms] segment_near[OF assms] assms
  by (simp_all add: region_ok_def span_def segment_span_def createRegionFromSegment_def region_new_def segment_ok_def)

lemma truncateData_ok:
  assumes s: "segment_ok w s" and le: "unat dl + unat dr < unat (tg_len s)"
  shows "\<exists>s'. truncateData dl dr s = Inr s' \<and> segment_ok w s' \<and> off w (tg_seq s') = off w (tg_seq s) + unat dl \<and>
    unat (tg_len s') = unat (tg_len s) - (unat dl + unat dr) \<and> tg_fin s' = tg_fin s"
proof -
  have lt: "unat dl + unat dr < 4294967296" and len: "unat (tg_len s) < 2147483648"
    using le s by (simp_all add: segment_ok_def)
  have sum: "unat (dl + dr) = unat dl + unat dr" using lt by (simp add: unat_plus_if')
  have ule: "ucast (dl + dr) \<le> tg_len s" using le sum by (simp add: word_le_nat_alt)
  have len': "unat (tg_len s - ucast (dl + dr)) = unat (tg_len s) - (unat dl + unat dr)"
    using ule sum by (simp add: unat_sub word_le_nat_alt)
  have seq: "off w (tg_seq s + dl) = off w (tg_seq s) + unat dl"
    using s le by (intro off_add) (simp add: segment_ok_def)
  obtain pl where run: "truncateData dl dr s = Inr (s\<lparr>tg_seq := tg_seq s + dl, tg_len := tg_len s - ucast (dl + dr), tg_payload := pl\<rparr>)"
    using ule by (simp add: truncateData_def Let_def)
  show ?thesis unfolding run using seq len' le s by (simp add: segment_ok_def)
qed

text \<open>
  A segment that reaches into the window is cut to its intersection with the window, and keeps
  its FIN bit.
\<close>

lemma truncateSegment_ok:
  assumes s: "segment_ok w s" and n: "near w a" "near w e"
    and ov: "off w (tg_seq s) < off w e" "off w a < off w (tg_end s)" and ae: "off w a < off w e"
  shows "\<exists>s'. truncateSegment a e s = Inr s' \<and> segment_ok w s' \<and> off w (tg_seq s') = max (off w (tg_seq s)) (off w a) \<and>
    off w (tg_end s') = min (off w (tg_end s)) (off w e) \<and> segment_span w s' = segment_span w s \<inter> {off w a..<off w e} \<and>
    tg_fin s' = tg_fin s"
proof -
  note ns = segment_near[OF s] and en = segment_end[OF s]
  define l where "l = (if seqLess (tg_seq s) a then a - tg_seq s else 0)"
  define r where "r = (if seqGreater (tg_end s) e then tg_end s - e else 0)"
  have l: "unat l = off w a - off w (tg_seq s)"
    using seq_near(1)[of w "tg_seq s" a] ns n by (auto simp: l_def unat_diff_near[of w])
  have r: "unat r = off w (tg_end s) - off w e"
    using seq_near(3)[of w "tg_end s" e] ns n by (auto simp: r_def unat_diff_near[of w])
  have "0 < unat (tg_len s)" using s by (simp add: segment_ok_def)
  then have "unat l + unat r < unat (tg_len s)" using ov ae unfolding l r en by arith
  from truncateData_ok[OF s this] obtain s' where
    t: "truncateData l r s = Inr s'" "segment_ok w s'" "off w (tg_seq s') = off w (tg_seq s) + unat l"
      "unat (tg_len s') = unat (tg_len s) - (unat l + unat r)" "tg_fin s' = tg_fin s"
    by blast
  have pos: "0 < tg_len s" using s by (simp add: segment_ok_def word_less_nat_alt)
  have cmp: "seqLess (tg_seq s) e" "seqLess a (tg_end s)"
    using seq_near(1)[of w "tg_seq s" e] seq_near(1)[of w a "tg_end s"] ns n ov by simp_all
  have run: "truncateSegment a e s = Inr s'"
    using pos cmp t(1) by (simp add: truncateSegment_def l_def r_def Let_def)
  have seq: "off w (tg_seq s') = max (off w (tg_seq s)) (off w a)" using t(3) l by simp
  have e': "off w (tg_end s') = min (off w (tg_end s)) (off w e)"
    using segment_end[OF t(2)] seq t(4) l r en ov ae by (simp add: max_def min_def)
  have "segment_span w s' = segment_span w s \<inter> {off w a..<off w e}"
    using segment_end[OF t(2)] seq e' en unfolding segment_span_def by (auto simp: max_def min_def split: if_splits)
  then show ?thesis using run t(2,5) seq e' by blast
qed

section \<open>Delivery\<close>

text \<open>
  The loop that hands the data to the application takes everything below the next expected byte
  and nothing else.
\<close>

lemma rq_drain_ok:
  assumes "rq_ok w q" "off w seq \<le> off w (rq_rcv_nxt q)"
  shows "\<exists>ns q'. rq_drain seq q = Inr (ns, q') \<and> rq_ok w q' \<and> rq_rcv_nxt q' = rq_rcv_nxt q \<and>
    rq_bytes w q' = rq_bytes w q - {..<off w seq} \<and> sum_list ns = card (rq_bytes w q \<inter> {..<off w seq})"
  using assms
proof (induction seq q rule: rq_drain.induct)
  case (1 seq q)
  from rq_extract_ok[OF 1(2,3)] obtain res q' where
    x: "rq_extractBytesUpTo seq q = Inr (res, q')" "rq_ok w q'" "rq_rcv_nxt q' = rq_rcv_nxt q"
      "rq_bytes w q' = rq_bytes w q - {..<off w seq}"
      "res = (if rq_bytes w q \<inter> {..<off w seq} = {} then None else Some (card (rq_bytes w q \<inter> {..<off w seq})))"
    by blast
  show ?case
  proof (cases res)
    case None
    then have "rq_drain seq q = Inr ([], q')" using x(1) by (simp add: rq_drain.simps[of seq q])
    then show ?thesis using x None by (auto split: if_splits)
  next
    case (Some n)
    have "off w seq \<le> off w (rq_rcv_nxt q')" using x(3) 1(3) by simp
    from 1(1)[OF x(1)[unfolded Some] refl refl x(2) this] obtain ns q'' where
      y: "rq_drain seq q' = Inr (ns, q'')" "rq_ok w q''" "rq_rcv_nxt q'' = rq_rcv_nxt q'"
        "rq_bytes w q'' = rq_bytes w q' - {..<off w seq}" "sum_list ns = card (rq_bytes w q' \<inter> {..<off w seq})"
      by blast
    have "rq_drain seq q = Inr (n # ns, q'')" using x(1) Some y(1) by (simp add: rq_drain.simps[of seq q])
    moreover have "rq_bytes w q' \<inter> {..<off w seq} = {}" using x(4) by auto
    ultimately show ?thesis using x y Some by (auto split: if_splits)
  qed
qed

section \<open>The first missing byte\<close>

lemma first_missing_props:
  assumes "finite S"
  shows "k \<le> first_missing S k \<and> first_missing S k \<notin> S \<and> {k..<first_missing S k} \<subseteq> S"
proof -
  obtain m where m: "\<forall>x \<in> S. x < m" using finite_nat_set_iff_bounded assms by blast
  then have ex: "k \<le> k + m \<and> k + m \<notin> S" by auto
  have "k \<le> first_missing S k \<and> first_missing S k \<notin> S" unfolding first_missing_def
    by (rule LeastI[of "\<lambda>n. k \<le> n \<and> n \<notin> S", OF ex])
  moreover have "{k..<first_missing S k} \<subseteq> S" unfolding first_missing_def using not_less_Least by fastforce
  ultimately show ?thesis by blast
qed

lemma first_missing_cong: "(\<And>x. k \<le> x \<Longrightarrow> x \<in> S \<longleftrightarrow> x \<in> T) \<Longrightarrow> first_missing S k = first_missing T k"
  unfolding first_missing_def by (rule arg_cong[where f = Least]) auto

lemma first_missing_step:
  assumes "finite A" "finite B"
  shows "first_missing (A - {..<first_missing A k} \<union> B) (first_missing A k) = first_missing (A \<union> B) k"
proof -
  let ?k = "first_missing A k" and ?A = "A - {..<first_missing A k}"
  note a = first_missing_props[OF assms(1), of k]
  have "finite (?A \<union> B)" using assms by simp
  note b = first_missing_props[OF this, of ?k]
  let ?m = "first_missing (?A \<union> B) ?k"
  have "first_missing (A \<union> B) k = ?m"
  proof (rule first_missing_eqI)
    show "k \<le> ?m" using a b by simp
    show "?m \<notin> A \<union> B" using a b by auto
    show "{k..<?m} \<subseteq> A \<union> B"
    proof
      fix x
      assume x: "x \<in> {k..<?m}"
      show "x \<in> A \<union> B"
      proof (cases "x < ?k")
        case True
        then have "x \<in> {k..<?k}" using x by simp
        then show ?thesis using a by blast
      next
        case False
        then have "x \<in> {?k..<?m}" using x by simp
        then show ?thesis using b by blast
      qed
    qed
  qed
  then show ?thesis by simp
qed

section \<open>Receivers of a byte stream\<close>

text \<open>
  A step takes one segment and answers how many bytes it delivers; the bytes that are held back
  lie beyond the next expected one.
\<close>

locale stream_receiver =
  fixes step :: "'s \<Rightarrow> 'q \<Rightarrow> (nat \<times> 'q) result" and inv :: "'q \<Rightarrow> bool" and held :: "'q \<Rightarrow> nat set"
    and expected :: "'q \<Rightarrow> nat" and spanof :: "'s \<Rightarrow> nat set" and fits :: "'s \<Rightarrow> bool"
  assumes step_law: "inv q \<Longrightarrow> fits s \<Longrightarrow> \<exists>d q'. step s q = Inr (d, q') \<and> inv q' \<and>
      expected q' = first_missing (held q \<union> spanof s) (expected q) \<and>
      held q' = held q \<union> spanof s - {..<expected q'} \<and> expected q' = expected q + d"
    and finite_held: "inv q \<Longrightarrow> finite (held q)"
    and finite_span: "finite (spanof s)"

definition receive_all :: "('s \<Rightarrow> 'q \<Rightarrow> (nat \<times> 'q) result) \<Rightarrow> 's list \<Rightarrow> nat \<times> 'q \<Rightarrow> (nat \<times> 'q) result" where
  "receive_all step ss dq = foldE (\<lambda>s (d, q). bindE (step s q) (\<lambda>(d', q'). Inr (d + d', q'))) ss dq"

context stream_receiver begin

lemma stream:
  assumes "inv q" "\<forall>s \<in> set ss. fits s"
  shows "\<exists>d q'. receive_all step ss (d0, q) = Inr (d, q') \<and> inv q' \<and>
    expected q' = (if ss = [] then expected q else first_missing (held q \<union> (\<Union>s \<in> set ss. spanof s)) (expected q)) \<and>
    d + expected q = d0 + expected q'"
  using assms
proof (induction ss arbitrary: q d0)
  case Nil
  then show ?case by (simp add: receive_all_def)
next
  case (Cons s ss)
  have fs: "fits s" and fss: "\<forall>s \<in> set ss. fits s" using Cons.prems(2) by simp_all
  from step_law[OF Cons.prems(1) fs] obtain d q' where
    s: "step s q = Inr (d, q')" "inv q'" "expected q' = first_missing (held q \<union> spanof s) (expected q)"
      "held q' = held q \<union> spanof s - {..<expected q'}" "expected q' = expected q + d"
    by blast
  from Cons.IH[OF s(2) fss, of "d0 + d"] obtain e q'' where
    ih: "receive_all step ss (d0 + d, q') = Inr (e, q'')" "inv q''"
      "expected q'' = (if ss = [] then expected q' else first_missing (held q' \<union> (\<Union>s \<in> set ss. spanof s)) (expected q'))"
      "e + expected q' = d0 + d + expected q''"
    by blast
  have run: "receive_all step (s # ss) (d0, q) = Inr (e, q'')"
    using s(1) ih(1) by (simp add: receive_all_def)
  have fin: "finite (held q \<union> spanof s)" "finite (\<Union>s \<in> set ss. spanof s)"
    using finite_held[OF Cons.prems(1)] finite_span by simp_all
  have "expected q'' = first_missing (held q \<union> (\<Union>s \<in> set (s # ss). spanof s)) (expected q)"
  proof (cases "ss = []")
    case True
    then show ?thesis using ih(3) s(3) by simp
  next
    case False
    then have "expected q'' = first_missing (held q \<union> spanof s - {..<expected q'} \<union> (\<Union>s \<in> set ss. spanof s)) (expected q')"
      using ih(3) s(4) by simp
    also have "\<dots> = first_missing (held q \<union> spanof s \<union> (\<Union>s \<in> set ss. spanof s)) (expected q)"
      unfolding s(3) by (rule first_missing_step[OF fin])
    finally show ?thesis by (simp add: Un_assoc)
  qed
  then show ?case using run ih(2,4) s(5) by auto
qed

text \<open>Segments that cover all bytes up to some number are delivered up to that number, in whatever order.\<close>

lemma complete_stream:
  assumes "inv q" "\<forall>s \<in> set ss. fits s" "held q = {}" "ss \<noteq> []"
    and cover: "(\<Union>s \<in> set ss. spanof s) \<inter> {expected q..} = {expected q..<n}" "expected q \<le> n"
  shows "\<exists>q'. receive_all step ss (0, q) = Inr (n - expected q, q') \<and> inv q' \<and> expected q' = n"
proof -
  have "first_missing (\<Union>s \<in> set ss. spanof s) (expected q) = n"
    by (rule first_missing_eqI) (use cover in auto)
  with stream[OF assms(1,2), of 0] assms(3,4) cover(2) show ?thesis by auto
qed

end

section \<open>The receive queue\<close>

text \<open>
  What a connection does with the data of a segment whose end is not beyond the window: an old
  segment is not acceptable, otherwise it is truncated, inserted and delivered.
\<close>

definition rcv_step :: "u32 \<Rightarrow> tcp_segment \<Rightarrow> rcv_queue \<Rightarrow> (nat \<times> rcv_queue) result" where
  "rcv_step wndEnd s q =
     (if seqLess (rq_rcv_nxt q) (tg_end s)
      then bindE (truncateSegment (rq_rcv_nxt q) wndEnd s) (\<lambda>s'.
           bindE (rq_insertBytesFromSegment s' q) (\<lambda>(n, q').
           bindE (rq_drain n q') (\<lambda>(ns, q''). Inr (sum_list ns, q''))))
      else Inr (0, q))"

definition rcv_inv :: "u32 \<Rightarrow> rcv_queue \<Rightarrow> bool" where
  "rcv_inv w q \<longleftrightarrow> rq_ok w q \<and> rq_bytes w q \<subseteq> {off w (rq_rcv_nxt q)..}"

lemma rcv_inv_expected: "rcv_inv w q \<Longrightarrow> off w (rq_rcv_nxt q) \<notin> rq_bytes w q"
proof (cases "rq_regions q")
  case (Cons r rs)
  assume inv: "rcv_inv w q"
  then have r: "regions_ok w (r # rs)" "off w (rq_rcv_nxt q) < off w (rg_begin r) \<or> rg_end r = rq_rcv_nxt q"
    using Cons by (auto simp: rcv_inv_def rq_ok_def)
  have "off w (rq_rcv_nxt q) \<notin> span w t" if t: "t \<in> set (r # rs)" for t
    using r t by (auto simp: span_def region_ok_def)
  then show ?thesis using Cons by (auto simp: rq_bytes_def spans_def)
qed (simp add: rq_bytes_def)

lemma insert_drain:
  assumes inv: "rcv_inv w q" and s: "segment_ok w s" and win: "off w (rq_rcv_nxt q) \<le> off w (tg_seq s)"
  shows "\<exists>n q' ns q''. rq_insertBytesFromSegment s q = Inr (n, q') \<and> rq_drain n q' = Inr (ns, q'') \<and> rcv_inv w q'' \<and>
    rq_rcv_nxt q' = n \<and> rq_rcv_nxt q'' = n \<and> off w n = first_missing (rq_bytes w q \<union> segment_span w s) (off w (rq_rcv_nxt q)) \<and>
    rq_bytes w q' = rq_bytes w q \<union> segment_span w s \<and> rq_ok w q' \<and>
    rq_bytes w q'' = rq_bytes w q \<union> segment_span w s - {..<off w n} \<and> sum_list ns + off w (rq_rcv_nxt q) = off w n"
proof -
  let ?k = "off w (rq_rcv_nxt q)"
  have q: "rq_ok w q" "rq_bytes w q \<subseteq> {?k..}" using inv by (simp_all add: rcv_inv_def)
  have ke: "?k \<le> off w (tg_end s)" using segment_end[OF s] win by simp
  from rq_insert_ok[OF q(1) segment_region(1)[OF s] ke] obtain n q' where
    i: "rq_insertBytesFromSegment s q = Inr (n, q')" "rq_ok w q'" "rq_rcv_nxt q' = n"
      "rq_bytes w q' = rq_bytes w q \<union> segment_span w s" "off w n = first_missing (rq_bytes w q') ?k"
    unfolding segment_region(2)[OF s] by blast
  from rq_drain_ok[OF i(2), of n] i(3) obtain ns q'' where
    d: "rq_drain n q' = Inr (ns, q'')" "rq_ok w q''" "rq_rcv_nxt q'' = n"
      "rq_bytes w q'' = rq_bytes w q' - {..<off w n}" "sum_list ns = card (rq_bytes w q' \<inter> {..<off w n})"
    by auto
  have fin: "finite (rq_bytes w q')" by (simp add: rq_bytes_def finite_spans)
  note fm = first_missing_props[OF fin, of ?k, folded i(5)]
  have low: "rq_bytes w q' \<subseteq> {?k..}" using i(4) q(2) win by (auto simp: segment_span_def)
  then have "rq_bytes w q' \<inter> {..<off w n} = {?k..<off w n}" using fm by auto
  then have "sum_list ns + ?k = off w n" using d(5) fm by simp
  moreover have "rcv_inv w q''" using d(2-4) by (auto simp: rcv_inv_def)
  ultimately show ?thesis using i d by auto
qed

interpretation rq: stream_receiver "rcv_step wndEnd" "rcv_inv w" "rq_bytes w" "\<lambda>q. off w (rq_rcv_nxt q)" "segment_span w"
  "\<lambda>s. segment_ok w s \<and> near w wndEnd \<and> off w (tg_end s) \<le> off w wndEnd" for w wndEnd
proof
  fix q s
  assume inv: "rcv_inv w q" and fits: "segment_ok w s \<and> near w wndEnd \<and> off w (tg_end s) \<le> off w wndEnd"
  let ?k = "off w (rq_rcv_nxt q)"
  have s: "segment_ok w s" and nk: "near w (rq_rcv_nxt q)" and low: "rq_bytes w q \<subseteq> {?k..}"
    using inv fits by (simp_all add: rcv_inv_def rq_ok_def)
  have ns: "near w (tg_seq s)" "near w (tg_end s)" using segment_near[OF s] by simp_all
  have sp: "segment_span w s = {off w (tg_seq s)..<off w (tg_end s)}" using segment_end[OF s] by (simp add: segment_span_def)
  show "\<exists>d q'. rcv_step wndEnd s q = Inr (d, q') \<and> rcv_inv w q' \<and>
      off w (rq_rcv_nxt q') = first_missing (rq_bytes w q \<union> segment_span w s) ?k \<and>
      rq_bytes w q' = rq_bytes w q \<union> segment_span w s - {..<off w (rq_rcv_nxt q')} \<and> off w (rq_rcv_nxt q') = ?k + d"
  proof (cases "off w (tg_end s) \<le> ?k")
    case True
    have "rcv_step wndEnd s q = Inr (0, q)" using True seq_near(1)[OF nk ns(2)] by (simp add: rcv_step_def)
    moreover have "first_missing (rq_bytes w q \<union> segment_span w s) ?k = ?k"
      by (rule first_missing_eqI) (use rcv_inv_expected[OF inv] True sp in auto)
    moreover have "rq_bytes w q \<union> segment_span w s - {..<?k} = rq_bytes w q" using low sp True by auto
    ultimately show ?thesis using inv by simp
  next
    case False
    have seq: "off w (tg_seq s) < off w (tg_end s)" using segment_end[OF s] s by (simp add: segment_ok_def)
    have pre: "near w wndEnd" "off w (tg_seq s) < off w wndEnd" "?k < off w (tg_end s)" "?k < off w wndEnd"
      using fits seq False by auto
    from truncateSegment_ok[OF s nk pre] obtain s' where
      t: "truncateSegment (rq_rcv_nxt q) wndEnd s = Inr s'" "segment_ok w s'" "off w (tg_seq s') = max (off w (tg_seq s)) ?k"
        "segment_span w s' = segment_span w s \<inter> {?k..<off w wndEnd}"
      by blast
    have win: "?k \<le> off w (tg_seq s')" using t(3) by simp
    from insert_drain[OF inv t(2) win] obtain n q' ns' q'' where
      i: "rq_insertBytesFromSegment s' q = Inr (n, q')" "rq_drain n q' = Inr (ns', q'')" "rcv_inv w q''"
        "rq_rcv_nxt q'' = n" "off w n = first_missing (rq_bytes w q \<union> segment_span w s') ?k"
        "rq_bytes w q'' = rq_bytes w q \<union> segment_span w s' - {..<off w n}" "sum_list ns' + ?k = off w n"
      by blast
    have agree: "x \<in> rq_bytes w q \<union> segment_span w s' \<longleftrightarrow> x \<in> rq_bytes w q \<union> segment_span w s" if "?k \<le> x" for x
      using t(4) sp fits that by auto
    have fm: "off w n = first_missing (rq_bytes w q \<union> segment_span w s) ?k"
      unfolding i(5) by (rule first_missing_cong[OF agree])
    have kn: "?k \<le> off w n" using i(7) by simp
    have "rq_bytes w q'' = rq_bytes w q \<union> segment_span w s - {..<off w n}"
    proof -
      have "x \<in> rq_bytes w q \<union> segment_span w s' \<longleftrightarrow> x \<in> rq_bytes w q \<union> segment_span w s" if "x \<notin> {..<off w n}" for x
        by (rule agree) (use that kn in simp)
      then show ?thesis unfolding i(6) by blast
    qed
    moreover have "rcv_step wndEnd s q = Inr (sum_list ns', q'')"
      using t(1) i(1,2) False seq_near(1)[OF nk ns(2)] by (simp add: rcv_step_def)
    ultimately show ?thesis using i(3,4,7) fm by auto
  qed
next
  show "rcv_inv w q \<Longrightarrow> finite (rq_bytes w q)" for q by (simp add: rq_bytes_def finite_spans)
  show "finite (segment_span w s)" for s by (simp add: segment_span_def)
qed

text \<open>
  C1: The byte stream is reassembled.  From a receive queue that holds nothing back, take any
  non-empty list of segments with data, in any order, with repetitions and overlaps, none of which
  reaches beyond the end of the window, and whose data together covers exactly the bytes from the
  next expected one up to some byte \<open>n\<close> (and possibly old bytes).  Then truncating, inserting and
  extracting them one after the other raises no error, the next expected byte becomes \<open>n\<close>, and the
  lengths of the delivered messages add up to the distance it has moved.  All numbers are
  distances from a base \<open>w\<close>, below half of the number space.
\<close>

theorem tcp_stream_reassembly:
  assumes "rcv_inv w q" "rq_bytes w q = {}" "near w wndEnd" "segs \<noteq> []"
    and "\<forall>s \<in> set segs. segment_ok w s \<and> off w (tg_end s) \<le> off w wndEnd"
    and "(\<Union>s \<in> set segs. segment_span w s) \<inter> {off w (rq_rcv_nxt q)..} = {off w (rq_rcv_nxt q)..<n}"
    and "off w (rq_rcv_nxt q) \<le> n"
  shows "\<exists>q'. receive_all (rcv_step wndEnd) segs (0, q) = Inr (n - off w (rq_rcv_nxt q), q') \<and> rcv_inv w q' \<and>
    off w (rq_rcv_nxt q') = n"
  using rq.complete_stream[of w q segs wndEnd n] assms by blast

text \<open>Three segments in reverse order, two of which overlap.\<close>

definition demo_segment :: "u32 \<Rightarrow> u64 \<Rightarrow> tcp_segment" where
  "demo_segment seq len = segment_new\<lparr>tg_seq := seq, tg_len := len, tg_ackBit := True\<rparr>"

lemma tcp_stream_reassembly_witness:
  "\<exists>q'. receive_all (rcv_step 4000)
     [demo_segment 1250 100, demo_segment 1100 200, demo_segment 1000 100] (0, \<lparr>rq_rcv_nxt = 1000, rq_regions = []\<rparr>) =
     Inr (350, q') \<and> rcv_inv 1000 q' \<and> off 1000 (rq_rcv_nxt q') = 350"
proof -
  have "{250..<350::nat} \<union> ({100..<300} \<union> {0..<100}) = {0..<350}" by auto
  then show ?thesis
    using tcp_stream_reassembly[of 1000 "\<lparr>rq_rcv_nxt = 1000, rq_regions = []\<rparr>" 4000
        "[demo_segment 1250 100, demo_segment 1100 200, demo_segment 1000 100]" 350]
    by (simp add: rcv_inv_def rq_ok_def rq_bytes_def near_def off_def segment_ok_def segment_span_def tg_end_def
        demo_segment_def segment_new_def)
qed

end
