(* ===== verification/TcpText.thy ===== *)
theory TcpText
  imports TcpReassembly
begin

text \<open>
  The segment text and the FIN bit at the level of the connection: what one segment adds to the
  stream that the application receives, and where the code loses data or an event.
\<close>

section \<open>The receiving half of a connection\<close>

definition delivered :: "tcp_conn \<Rightarrow> nat" where
  "delivered c = sum_list (map (\<lambda>x. case x of OutData n \<Rightarrow> n | _ \<Rightarrow> 0) (tc_out c))"

text \<open>What the calls out of the modelled code leave alone.\<close>

definition rcv_view :: "tcp_conn \<Rightarrow> tcp_state \<times> rcv_queue \<times> u32 \<times> u32 \<times> u32 \<times> bool \<times> u32 \<times> nat" where
  "rcv_view c = (tc_state c, tc_receiveQueue c, tv_rcv_nxt (tc_vars c), tv_rcv_wnd (tc_vars c),
     tv_maxRcvBuffer (tc_vars c), tv_fin_rcvd (tc_vars c), tv_rcv_fin_seq (tc_vars c), delivered c)"

text \<open>The same without the window, which an acknowledgment that is sent may move.\<close>

definition rcv_kept :: "tcp_conn \<Rightarrow> tcp_state \<times> rcv_queue \<times> u32 \<times> u32 \<times> bool \<times> u32 \<times> nat" where
  "rcv_kept c = (tc_state c, tc_receiveQueue c, tv_rcv_nxt (tc_vars c), tv_maxRcvBuffer (tc_vars c),
     tv_fin_rcvd (tc_vars c), tv_rcv_fin_seq (tc_vars c), delivered c)"

lemma rcv_keptD:
  assumes "rcv_kept c' = rcv_kept c"
  shows "tc_state c' = tc_state c" "tc_receiveQueue c' = tc_receiveQueue c" "tv_rcv_nxt (tc_vars c') = tv_rcv_nxt (tc_vars c)"
    "tv_maxRcvBuffer (tc_vars c') = tv_maxRcvBuffer (tc_vars c)" "tv_fin_rcvd (tc_vars c') = tv_fin_rcvd (tc_vars c)"
    "tv_rcv_fin_seq (tc_vars c') = tv_rcv_fin_seq (tc_vars c)" "delivered c' = delivered c"
  using assms by (simp_all add: rcv_kept_def)

text \<open>The sending half, which the receipt of text does not touch.\<close>

definition snd_half :: "tcp_conn \<Rightarrow> send_queue \<times> rexmit_queue \<times> tcp_alg \<times> tcp_vars" where
  "snd_half c = (tc_sendQueue c, tc_rexmitQueue c, tc_alg c,
     tcp_vars_new\<lparr>tv_snd_una := tv_snd_una (tc_vars c), tv_snd_nxt := tv_snd_nxt (tc_vars c), tv_snd_max := tv_snd_max (tc_vars c),
       tv_snd_wnd := tv_snd_wnd (tc_vars c), tv_snd_mss := tv_snd_mss (tc_vars c), tv_send_fin := tv_send_fin (tc_vars c),
       tv_snd_fin_seq := tv_snd_fin_seq (tc_vars c), tv_ts_enabled := tv_ts_enabled (tc_vars c),
       tv_sack_enabled := tv_sack_enabled (tc_vars c), tv_ws_enabled := tv_ws_enabled (tc_vars c)\<rparr>)"

lemma setv_simps [simp]:
  "tc_vars (setv f c) = f (tc_vars c)" "tc_state (setv f c) = tc_state c" "tc_out (setv f c) = tc_out c"
  "tc_receiveQueue (setv f c) = tc_receiveQueue c" "tc_sendQueue (setv f c) = tc_sendQueue c"
  "tc_rexmitQueue (setv f c) = tc_rexmitQueue c" "tc_the2MSLTimer (setv f c) = tc_the2MSLTimer c"
  "tc_connEstabTimer (setv f c) = tc_connEstabTimer c" "tc_synRexmitTimer (setv f c) = tc_synRexmitTimer c"
  "delivered (setv f c) = delivered c" "tc_alg (setv f c) = tc_alg c" "tc_now (setv f c) = tc_now c"
  by (simp_all add: setv_def delivered_def)

lemma delivered_simps [simp]:
  "delivered (c\<lparr>tc_receiveQueue := q\<rparr>) = delivered c"
  "delivered (c\<lparr>tc_receiveQueue := q, tc_out := tc_out c @ map OutData ns\<rparr>) = delivered c + sum_list ns"
  "delivered (c\<lparr>tc_finWait2Timer := b\<rparr>) = delivered c" "delivered (c\<lparr>tc_the2MSLTimer := b\<rparr>) = delivered c"
  by (simp_all add: delivered_def comp_def)

text \<open>
  Between two segments the receive queue is in agreement with \<open>rcv_nxt\<close>, everything in order has
  been delivered, and the window does not exceed the buffer.
\<close>

definition conn_rcv_ok :: "u32 \<Rightarrow> tcp_conn \<Rightarrow> bool" where
  "conn_rcv_ok w c \<longleftrightarrow> rcv_inv w (tc_receiveQueue c) \<and> rq_rcv_nxt (tc_receiveQueue c) = tv_rcv_nxt (tc_vars c) \<and>
     tv_rcv_wnd (tc_vars c) \<le> tv_maxRcvBuffer (tc_vars c) \<and>
     off w (tv_rcv_nxt (tc_vars c)) + unat (tv_maxRcvBuffer (tc_vars c)) < 2147483648"

abbreviation wnd_end :: "tcp_conn \<Rightarrow> u32" where
  "wnd_end c \<equiv> tv_rcv_nxt (tc_vars c) + tv_rcv_wnd (tc_vars c)"

lemma rcv_inv_first:
  assumes "rcv_inv w q"
  shows "rq_getFirstSeqNo q = rq_rcv_nxt q"
proof (cases "rq_regions q")
  case (Cons r rs)
  have ok: "regions_ok w (r # rs)" "off w (rq_rcv_nxt q) < off w (rg_begin r) \<or> rg_end r = rq_rcv_nxt q" "near w (rq_rcv_nxt q)"
    using assms Cons by (auto simp: rcv_inv_def rq_ok_def)
  have n: "near w (rg_begin r)" "off w (rg_begin r) < off w (rg_end r)" using ok(1) by (simp_all add: region_ok_def)
  have "off w (rg_begin r) \<in> rq_bytes w q" using n Cons by (simp add: rq_bytes_def span_def)
  then have le: "off w (rq_rcv_nxt q) \<le> off w (rg_begin r)" using assms by (auto simp: rcv_inv_def)
  have "off w (seqMin (rg_begin r) (rq_rcv_nxt q)) = off w (rq_rcv_nxt q)"
    using seq_near(5)[OF n(1) ok(3)] le by simp
  then show ?thesis using Cons off_inj by (simp add: rq_getFirstSeqNo_def)
qed (simp add: rq_getFirstSeqNo_def)

lemma wnd_end_off:
  assumes "conn_rcv_ok w c"
  shows "off w (wnd_end c) = off w (tv_rcv_nxt (tc_vars c)) + unat (tv_rcv_wnd (tc_vars c))" "near w (wnd_end c)"
    "off w (tv_rcv_nxt (tc_vars c) + tv_maxRcvBuffer (tc_vars c)) =
       off w (tv_rcv_nxt (tc_vars c)) + unat (tv_maxRcvBuffer (tc_vars c))"
proof -
  have le: "unat (tv_rcv_wnd (tc_vars c)) \<le> unat (tv_maxRcvBuffer (tc_vars c))"
    using assms by (simp add: conn_rcv_ok_def word_le_nat_alt)
  have lt: "off w (tv_rcv_nxt (tc_vars c)) + unat (tv_maxRcvBuffer (tc_vars c)) < 2147483648"
    using assms by (simp add: conn_rcv_ok_def)
  show a: "off w (wnd_end c) = off w (tv_rcv_nxt (tc_vars c)) + unat (tv_rcv_wnd (tc_vars c))"
    using le lt by (intro off_add) simp
  show "near w (wnd_end c)" using a le lt by (simp add: near_def)
  show "off w (tv_rcv_nxt (tc_vars c) + tv_maxRcvBuffer (tc_vars c)) =
      off w (tv_rcv_nxt (tc_vars c)) + unat (tv_maxRcvBuffer (tc_vars c))"
    using lt by (intro off_add) simp
qed

text \<open>A segment that reaches into the window always finds room.\<close>

lemma window_has_space:
  assumes c: "conn_rcv_ok w c" and s: "segment_ok w s'" "off w (tv_rcv_nxt (tc_vars c)) \<le> off w (tg_seq s')"
    "off w (tg_end s') \<le> off w (wnd_end c)"
  shows "hasEnoughSpaceForSegmentInReceiveQueue s' c"
proof -
  have inv: "rcv_inv w (tc_receiveQueue c)" and nxt: "rq_rcv_nxt (tc_receiveQueue c) = tv_rcv_nxt (tc_vars c)"
    and wm: "unat (tv_rcv_wnd (tc_vars c)) \<le> unat (tv_maxRcvBuffer (tc_vars c))"
    and lt: "off w (tv_rcv_nxt (tc_vars c)) + unat (tv_maxRcvBuffer (tc_vars c)) < 2147483648"
    using c by (simp_all add: conn_rcv_ok_def word_le_nat_alt)
  have first: "rq_getFirstSeqNo (tc_receiveQueue c) = tv_rcv_nxt (tc_vars c)" using rcv_inv_first[OF inv] nxt by simp
  note ns = segment_near[OF s(1)] and we = wnd_end_off[OF c]
  have n: "near w (tv_rcv_nxt (tc_vars c))" "near w (tv_rcv_nxt (tc_vars c) + tv_maxRcvBuffer (tc_vars c))"
    using we(3) lt by (simp_all add: near_def)
  have "off w (tg_end s') \<le> off w (tv_rcv_nxt (tc_vars c) + tv_maxRcvBuffer (tc_vars c))" using s(3) we wm by simp
  then show ?thesis
    using first s(2) seq_near(2)[OF n(1) conjunct1[OF ns]] seq_near(2)[OF conjunct2[OF ns] n(2)]
    by (simp add: hasEnoughSpaceForSegmentInReceiveQueue_def Let_def)
qed

section \<open>One segment with text\<close>

lemma conn_rcv_ok_view: "rcv_view c' = rcv_view c \<Longrightarrow> conn_rcv_ok w c' = conn_rcv_ok w c"
  by (simp add: rcv_view_def conn_rcv_ok_def)

lemma rcv_view_updateRcvQueueVars [simp]: "rcv_view (updateRcvQueueVars c) = rcv_view c"
  by (simp add: updateRcvQueueVars_def rcv_view_def Let_def)

text \<open>The steps before the insertion change counters only.\<close>

definition text_prepared :: "tcp_segment \<Rightarrow> tcp_conn \<Rightarrow> tcp_conn" where
  "text_prepared s c =
     (let mss = ucast (tv_snd_mss (tc_vars c)) :: u64;
          full = (tg_len s = mss \<or> tg_len s + ucast (tg_headerLength s) - of_nat TCP_HEADER_OCTETS = mss);
          c1 = (if full then setv (\<lambda>v. v\<lparr>tv_full_sized_segment_counter := tv_full_sized_segment_counter v + 1\<rparr>) c else c);
          c2 = (if tg_len s = 1 then setv (\<lambda>v. v\<lparr>tv_ack_now := True\<rparr>) c1 else c1)
      in updateRcvQueueVars c2)"

lemma rcv_view_text_prepared [simp]: "rcv_view (text_prepared s c) = rcv_view c"
  by (simp add: text_prepared_def Let_def rcv_view_def updateRcvQueueVars_def)

lemma tcp_segment_text_run:
  assumes "text_state (tc_state c)" "tg_len s \<noteq> 0" "truncateSegment (tv_rcv_nxt (tc_vars c)) (wnd_end c) s = Inr s'"
    and "hasEnoughSpaceForSegmentInReceiveQueue s' (text_prepared s c)"
    and "rq_insertBytesFromSegment s' (tc_receiveQueue c) = Inr (n, rq)"
  shows "tcp_segment_text env old_snd_una old_rcv_nxt s ev c =
    (let c4 = setv (\<lambda>v. v\<lparr>tv_rcv_nxt := n\<rparr>) ((text_prepared s c)\<lparr>tc_receiveQueue := rq\<rparr>) in
     bindE (if seqGreater (tv_snd_una (tc_vars c4)) old_snd_una
            then bindE (te_call env (ReceivedDataAck old_snd_una) c4) (\<lambda>c5. Inr (setv (\<lambda>v. v\<lparr>tv_dupacks := 0\<rparr>) c5))
            else Inr c4) (\<lambda>c5.
     if old_rcv_nxt = tv_rcv_nxt (tc_vars c5)
     then bindE (tcp_out_of_order env (tv_usedRcvBuffer (tc_vars (text_prepared s c))) s' c5) (\<lambda>c6. Inr (False, s', ev, c6))
     else bindE (tcp_deliver ev c5) (\<lambda>(ev', c6). Inr (False, s', ev', c6))))"
proof -
  have q: "tc_receiveQueue (updateRcvQueueVars c') = tc_receiveQueue c'" for c'
    by (simp add: updateRcvQueueVars_def Let_def)
  show ?thesis
    using assms unfolding tcp_segment_text_def text_prepared_def Let_def
    by (cases "tg_len s = 1"; cases "tg_len s = ucast (tv_snd_mss (tc_vars c)) \<or>
          tg_len s + ucast (tg_headerLength s) - of_nat TCP_HEADER_OCTETS = ucast (tv_snd_mss (tc_vars c))")
      (simp_all add: q)
qed

text \<open>
  What is asked of the congestion control while text is processed: from \<open>K\<close>, where the processing of
  the acknowledgment leaves the connection, its two callbacks end without an error, leave the receiving
  half alone and keep \<open>L\<close>; both are predicates of the sending half.
\<close>

locale text_calls =
  fixes env :: tcp_env and K L :: "tcp_conn \<Rightarrow> bool"
  assumes data_ack: "K c \<Longrightarrow> \<exists>c'. te_call env (ReceivedDataAck n) c = Inr c' \<and> rcv_kept c' = rcv_kept c \<and> L c'"
    and out_of_order: "L c \<Longrightarrow> \<exists>c'. te_call env ReceivedOutOfOrderSegment c = Inr c' \<and> rcv_kept c' = rcv_kept c \<and> L c'"
    and weaker: "K c \<Longrightarrow> L c"
    and frame_K: "snd_half c' = snd_half c \<Longrightarrow> K c' = K c"
    and frame_L: "snd_half c' = snd_half c \<Longrightarrow> L c' = L c"
begin

lemma tcp_out_of_order_ok:
  assumes "L c"
  shows "\<exists>c'. tcp_out_of_order env used s c = Inr c' \<and> rcv_kept c' = rcv_kept c \<and> L c'"
proof -
  obtain c1 where c1: "tcp_out_of_order env used s c = te_call env ReceivedOutOfOrderSegment c1" "rcv_kept c1 = rcv_kept c"
      "snd_half c1 = snd_half c"
    by (simp add: tcp_out_of_order_def Let_def rcv_kept_def snd_half_def)
  from out_of_order[of c1] frame_L[OF c1(3)] assms c1 show ?thesis by auto
qed

text \<open>
  A segment that reaches into the window: it is not dropped; the next expected byte becomes the
  first one missing; the application gets exactly the bytes up to there; the queue keeps the rest.
\<close>

lemma tcp_segment_text_ok:
  assumes env: "K c" and c: "conn_rcv_ok w c" and st: "text_state (tc_state c)"
    and nofin: "\<not> tv_fin_rcvd (tc_vars c)" and s: "segment_ok w s"
    and ov: "off w (tg_seq s) < off w (wnd_end c)" "off w (tv_rcv_nxt (tc_vars c)) < off w (tg_end s)"
    and wnd: "tv_rcv_wnd (tc_vars c) \<noteq> 0"
  shows "\<exists>s' c'. tcp_segment_text env old_snd_una (tv_rcv_nxt (tc_vars c)) s ev c = Inr (False, s', ev, c') \<and>
    truncateSegment (tv_rcv_nxt (tc_vars c)) (wnd_end c) s = Inr s' \<and> tc_state c' = tc_state c \<and>
    rcv_inv w (tc_receiveQueue c') \<and> rq_rcv_nxt (tc_receiveQueue c') = tv_rcv_nxt (tc_vars c') \<and>
    off w (tv_rcv_nxt (tc_vars c')) = first_missing (rq_bytes w (tc_receiveQueue c) \<union>
      (segment_span w s \<inter> {..<off w (wnd_end c)})) (off w (tv_rcv_nxt (tc_vars c))) \<and>
    rq_bytes w (tc_receiveQueue c') = rq_bytes w (tc_receiveQueue c) \<union>
      (segment_span w s \<inter> {..<off w (wnd_end c)}) - {..<off w (tv_rcv_nxt (tc_vars c'))} \<and>
    delivered c' + off w (tv_rcv_nxt (tc_vars c)) = delivered c + off w (tv_rcv_nxt (tc_vars c')) \<and>
    \<not> tv_fin_rcvd (tc_vars c') \<and> tv_maxRcvBuffer (tc_vars c') = tv_maxRcvBuffer (tc_vars c) \<and> L c'"
proof -
  let ?n = "tv_rcv_nxt (tc_vars c)" and ?q = "tc_receiveQueue c"
  let ?k = "off w ?n" and ?e = "off w (wnd_end c)"
  have inv: "rcv_inv w ?q" and nxt: "rq_rcv_nxt ?q = ?n" using c by (simp_all add: conn_rcv_ok_def)
  have nn: "near w ?n" using inv nxt by (simp add: rcv_inv_def rq_ok_def)
  have low: "rq_bytes w ?q \<subseteq> {?k..}" using inv nxt by (simp add: rcv_inv_def)
  note we = wnd_end_off[OF c]
  have ke: "?k < ?e" using we(1) wnd by (simp add: unat_gt_0)
  from truncateSegment_ok[OF s nn we(2) ov ke] obtain s' where
    t: "truncateSegment ?n (wnd_end c) s = Inr s'" "segment_ok w s'" "off w (tg_seq s') = max (off w (tg_seq s)) ?k"
      "off w (tg_end s') = min (off w (tg_end s)) ?e" "segment_span w s' = segment_span w s \<inter> {?k..<?e}"
    by blast
  let ?p = "text_prepared s c"
  have pok: "conn_rcv_ok w ?p" and pv: "tc_receiveQueue ?p = ?q" "tv_rcv_nxt (tc_vars ?p) = ?n" "wnd_end ?p = wnd_end c"
      "tc_state ?p = tc_state c" "tv_fin_rcvd (tc_vars ?p) = tv_fin_rcvd (tc_vars c)" "delivered ?p = delivered c"
    using conn_rcv_ok_view[of ?p c w] c rcv_view_text_prepared[of s c] by (simp_all add: rcv_view_def)
  have space: "hasEnoughSpaceForSegmentInReceiveQueue s' ?p"
    by (rule window_has_space[OF pok t(2)]) (use t(3,4) pv in simp_all)
  have win: "off w (rq_rcv_nxt ?q) \<le> off w (tg_seq s')" using t(3) nxt by simp
  from insert_drain[OF inv t(2) win] obtain n q' ns q'' where
    i: "rq_insertBytesFromSegment s' ?q = Inr (n, q')" "rq_drain n q' = Inr (ns, q'')" "rcv_inv w q''" "rq_rcv_nxt q' = n"
      "rq_rcv_nxt q'' = n" "off w n = first_missing (rq_bytes w ?q \<union> segment_span w s') ?k"
      "rq_bytes w q' = rq_bytes w ?q \<union> segment_span w s'" "rq_ok w q'"
      "rq_bytes w q'' = rq_bytes w ?q \<union> segment_span w s' - {..<off w n}" "sum_list ns + ?k = off w n"
    unfolding nxt by blast
  have agree: "x \<in> rq_bytes w ?q \<union> segment_span w s' \<longleftrightarrow> x \<in> rq_bytes w ?q \<union> (segment_span w s \<inter> {..<?e})" if "?k \<le> x" for x
    using t(5) that by auto
  have fm: "off w n = first_missing (rq_bytes w ?q \<union> (segment_span w s \<inter> {..<?e})) ?k"
    unfolding i(6) by (rule first_missing_cong[OF agree])
  have kn: "?k \<le> off w n" using i(10) by simp
  have beyond: "rq_bytes w ?q \<union> segment_span w s' - {..<off w n} = rq_bytes w ?q \<union> (segment_span w s \<inter> {..<?e}) - {..<off w n}"
  proof -
    have "x \<in> rq_bytes w ?q \<union> segment_span w s' \<longleftrightarrow> x \<in> rq_bytes w ?q \<union> (segment_span w s \<inter> {..<?e})" if "x \<notin> {..<off w n}" for x
      by (rule agree) (use that kn in simp)
    then show ?thesis by blast
  qed
  define c4 where "c4 = setv (\<lambda>v. v\<lparr>tv_rcv_nxt := n\<rparr>) (?p\<lparr>tc_receiveQueue := q'\<rparr>)"
  have len: "tg_len s \<noteq> 0" using s by (auto simp: segment_ok_def)
  note run = tcp_segment_text_run[OF st len t(1) space i(1), of env old_snd_una ?n ev, folded c4_def, unfolded Let_def]
  have c4: "tc_receiveQueue c4 = q'" "tv_rcv_nxt (tc_vars c4) = n" "tc_state c4 = tc_state c" "\<not> tv_fin_rcvd (tc_vars c4)"
      "delivered c4 = delivered c"
    using pv nofin by (simp_all add: c4_def)
  have K4: "K c4"
    using frame_K[of c4 c] env by (simp add: c4_def snd_half_def text_prepared_def updateRcvQueueVars_def Let_def)
  have m4: "tv_maxRcvBuffer (tc_vars c4) = tv_maxRcvBuffer (tc_vars c)"
    by (simp add: c4_def text_prepared_def updateRcvQueueVars_def Let_def)
  obtain c5 where c5: "(if seqGreater (tv_snd_una (tc_vars c4)) old_snd_una
        then bindE (te_call env (ReceivedDataAck old_snd_una) c4) (\<lambda>c5. Inr (setv (\<lambda>v. v\<lparr>tv_dupacks := 0\<rparr>) c5))
        else Inr c4) = Inr c5" and v5: "rcv_kept c5 = rcv_kept c4" and L5: "L c5"
  proof (cases "seqGreater (tv_snd_una (tc_vars c4)) old_snd_una")
    case True
    from data_ack[OF K4, of old_snd_una] obtain d where
      d: "te_call env (ReceivedDataAck old_snd_una) c4 = Inr d" "rcv_kept d = rcv_kept c4" "L d" by blast
    have "L (setv (\<lambda>v. v\<lparr>tv_dupacks := 0\<rparr>) d)" using frame_L[of "setv (\<lambda>v. v\<lparr>tv_dupacks := 0\<rparr>) d" d] d(3) by (simp add: snd_half_def)
    then show ?thesis by (intro that[of "setv (\<lambda>v. v\<lparr>tv_dupacks := 0\<rparr>) d"]) (use True d in \<open>simp_all add: rcv_kept_def\<close>)
  next
    case False
    then show ?thesis using weaker[OF K4] by (intro that[of c4]) simp_all
  qed
  have f5: "tc_receiveQueue c5 = q'" "tv_rcv_nxt (tc_vars c5) = n" "tc_state c5 = tc_state c" "\<not> tv_fin_rcvd (tc_vars c5)"
      "delivered c5 = delivered c" "tv_maxRcvBuffer (tc_vars c5) = tv_maxRcvBuffer (tc_vars c)"
    using rcv_keptD[OF v5] c4 m4 by simp_all
  show ?thesis
  proof (cases "n = ?n")
    case True
    from tcp_out_of_order_ok[OF L5, of "tv_usedRcvBuffer (tc_vars ?p)" s'] obtain c6 where
      c6: "tcp_out_of_order env (tv_usedRcvBuffer (tc_vars ?p)) s' c5 = Inr c6" "rcv_kept c6 = rcv_kept c5" "L c6" by blast
    have res: "tcp_segment_text env old_snd_una ?n s ev c = Inr (False, s', ev, c6)"
      unfolding run c5 using f5(2) True c6(1) by simp
    have f6: "tc_receiveQueue c6 = q'" "tv_rcv_nxt (tc_vars c6) = n" "tc_state c6 = tc_state c" "delivered c6 = delivered c"
      "\<not> tv_fin_rcvd (tc_vars c6)" "tv_maxRcvBuffer (tc_vars c6) = tv_maxRcvBuffer (tc_vars c)"
      using rcv_keptD[OF c6(2)] f5 by simp_all
    have up: "rq_bytes w q' \<subseteq> {off w n..}" unfolding i(7) using t(5) low True by auto
    then have nin: "rq_bytes w q' = rq_bytes w q' - {..<off w n}" by auto
    have "rcv_inv w q'" using i(8) up i(4) by (simp add: rcv_inv_def)
    then show ?thesis using res t(1) f6 i(4) fm beyond nin i(7) True c6(3)
      by (intro exI[of _ s'] exI[of _ c6]) (simp only: simp_thms i(7) f6)
  next
    case False
    let ?c6 = "c5\<lparr>tc_receiveQueue := q'', tc_out := tc_out c5 @ map OutData ns\<rparr>"
    have del: "tcp_deliver ev c5 = Inr (ev, ?c6)" using f5 i(2) by (simp add: tcp_deliver_def Let_def)
    have "tcp_segment_text env old_snd_una ?n s ev c = Inr (False, s', ev, ?c6)"
      unfolding run c5 using f5(2) False del by simp
    moreover have "delivered ?c6 + ?k = delivered c + off w n" using f5(5) i(10) by simp
    moreover have "L ?c6" using frame_L[of ?c6 c5] L5 by (simp add: snd_half_def)
    ultimately show ?thesis using t(1) f5(2-4,6) i(3,5,9) fm beyond
      by (intro exI[of _ s'] exI[of _ ?c6]) simp
  qed
qed

end

section \<open>Acceptable segments\<close>

lemma acceptable_overlaps:
  assumes c: "conn_rcv_ok w c" and s: "segment_ok w s" and a: "isSegmentAcceptable s (tc_vars c)"
  shows "tv_rcv_wnd (tc_vars c) \<noteq> 0" "off w (tg_seq s) < off w (wnd_end c)"
    "off w (tv_rcv_nxt (tc_vars c)) < off w (tg_end s)"
proof -
  note ns = segment_near[OF s] and en = segment_end[OF s] and we = wnd_end_off[OF c]
  have pos: "0 < unat (tg_len s)" "unat (tg_len s) < 2147483648" using s by (simp_all add: segment_ok_def)
  have "unat (ucast (tg_len s) :: u32) = unat (tg_len s)" by (rule unat_ucast_u64_u32) (use pos in simp)
  then have len: "(ucast (tg_len s) :: u32) \<noteq> 0" using pos(1) by auto
  have "near w (rq_rcv_nxt (tc_receiveQueue c))" "rq_rcv_nxt (tc_receiveQueue c) = tv_rcv_nxt (tc_vars c)"
    using c unfolding conn_rcv_ok_def rcv_inv_def rq_ok_def by blast+
  then have nn: "near w (tv_rcv_nxt (tc_vars c))" by simp
  have w: "tv_rcv_wnd (tc_vars c) \<noteq> 0 \<and>
      (seqLE (tv_rcv_nxt (tc_vars c)) (tg_seq s) \<and> seqLess (tg_seq s) (wnd_end c) \<or>
       seqLess (tv_rcv_nxt (tc_vars c)) (tg_end s) \<and> seqLE (tg_end s) (wnd_end c))"
    using a len unfolding isSegmentAcceptable_def Let_def tg_end_def by (auto split: if_splits)
  note cmp = seq_near(2)[OF nn conjunct1[OF ns]] seq_near(1)[OF conjunct1[OF ns] we(2)]
    seq_near(1)[OF nn conjunct2[OF ns]] seq_near(2)[OF conjunct2[OF ns] we(2)]
  show "tv_rcv_wnd (tc_vars c) \<noteq> 0" using w by simp
  show "off w (tg_seq s) < off w (wnd_end c)" "off w (tv_rcv_nxt (tc_vars c)) < off w (tg_end s)"
    using w unfolding cmp using en pos(1) by linarith+
qed

text \<open>The calls out of the model leave the connection as it is.\<close>

definition quiet_env :: tcp_env where
  "quiet_env = \<lparr>te_call = (\<lambda>call c. Inr c), te_writeHeaderOptions = (\<lambda>s c. Inr (s, c)),
     te_algorithmTimer = (\<lambda>t c. Inr (TCP_E_IGNORE, c)), te_iss = 1000, te_toTS = (\<lambda>t. 0), te_fromTS = (\<lambda>n. 0), te_eighth = (\<lambda>t. t div 8), te_ephemeralPort = 1024,
     te_config = \<lparr>cf_advertisedWindow = 7504, cf_windowScalingSupport = False, cf_delayedAcksEnabled = False,
       cf_nagleEnabled = True, cf_limitedTransmitEnabled = False, cf_increasedIWEnabled = False, cf_mss = 536,
       cf_timestampSupport = False, cf_sackSupport = False, cf_tcpAlgorithmClass = ''TCPReno''\<rparr>\<rparr>"

text \<open>An established connection that expects byte 5000, with a window of 200 bytes.\<close>

definition demo_conn :: tcp_conn where
  "demo_conn = \<lparr>tc_state = TCP_S_ESTABLISHED,
     tc_vars = tcp_vars_new\<lparr>tv_rcv_nxt := 5000, tv_rcv_wnd := 200, tv_rcv_adv := 5200, tv_maxRcvBuffer := 7504,
       tv_snd_mss := 536, tv_snd_una := 1001, tv_snd_nxt := 1101, tv_snd_max := 1101, tv_iss := 1000\<rparr>,
     tc_sendQueue = \<lparr>sq_begin = 1001, sq_end = 1101\<rparr>, tc_receiveQueue = \<lparr>rq_rcv_nxt = 5000, rq_regions = []\<rparr>,
     tc_rexmitQueue = \<lparr>xq_regions = [], xq_begin = 1001, xq_end = 1001\<rparr>, tc_remoteKnown = True, tc_localPort = 80,
     tc_remotePort = 1024, tc_the2MSLTimer = False, tc_finWait2Timer = False, tc_connEstabTimer = None,
     tc_synRexmitTimer = None, tc_out = [], tc_alg = tcp_alg_new, tc_now = 0\<rparr>"

lemma demo_conn_rcv_ok: "conn_rcv_ok 5000 demo_conn"
  by (simp add: conn_rcv_ok_def demo_conn_def rcv_inv_def rq_ok_def rq_bytes_def tcp_vars_new_def)

context text_calls
begin

lemma acceptable_text:
  assumes "K c" "conn_rcv_ok w c" "text_state (tc_state c)" "\<not> tv_fin_rcvd (tc_vars c)"
    and "segment_ok w s" "isSegmentAcceptable s (tc_vars c)"
  shows "\<exists>s' c'. tcp_segment_text env old_snd_una (tv_rcv_nxt (tc_vars c)) s ev c = Inr (False, s', ev, c') \<and>
    truncateSegment (tv_rcv_nxt (tc_vars c)) (wnd_end c) s = Inr s' \<and> tc_state c' = tc_state c \<and>
    rcv_inv w (tc_receiveQueue c') \<and> rq_rcv_nxt (tc_receiveQueue c') = tv_rcv_nxt (tc_vars c') \<and>
    off w (tv_rcv_nxt (tc_vars c')) = first_missing (rq_bytes w (tc_receiveQueue c) \<union>
      (segment_span w s \<inter> {..<off w (wnd_end c)})) (off w (tv_rcv_nxt (tc_vars c))) \<and>
    rq_bytes w (tc_receiveQueue c') = rq_bytes w (tc_receiveQueue c) \<union>
      (segment_span w s \<inter> {..<off w (wnd_end c)}) - {..<off w (tv_rcv_nxt (tc_vars c'))} \<and>
    delivered c' + off w (tv_rcv_nxt (tc_vars c)) = delivered c + off w (tv_rcv_nxt (tc_vars c')) \<and>
    \<not> tv_fin_rcvd (tc_vars c') \<and> tv_maxRcvBuffer (tc_vars c') = tv_maxRcvBuffer (tc_vars c) \<and> L c'"
  by (rule tcp_segment_text_ok[OF assms(1-5) acceptable_overlaps(2,3,1)[OF assms(2,5,6)]])

end

section \<open>The FIN bit\<close>

lemma tcp_fin_event_established:
  "tc_state c = TCP_S_ESTABLISHED \<Longrightarrow> tcp_fin_event c = Inr (TCP_E_RCV_FIN, c)"
  by (simp add: tcp_fin_event_def)

context text_calls
begin

text \<open>A FIN beyond the window.\<close>

lemma fin_beyond_window:
  assumes "K c" "conn_rcv_ok w c" "tc_state c = TCP_S_ESTABLISHED" "\<not> tv_fin_rcvd (tc_vars c)"
    and "rq_bytes w (tc_receiveQueue c) = {}" "segment_ok w s" "tg_fin s" "tg_seq s = tv_rcv_nxt (tc_vars c)"
    and "tv_rcv_wnd (tc_vars c) \<noteq> 0" "unat (tv_rcv_wnd (tc_vars c)) < unat (tg_len s)"
  shows "\<exists>s' c1 c2. tcp_segment_text env old_snd_una (tv_rcv_nxt (tc_vars c)) s ev c = Inr (False, s', ev, c1) \<and>
    tcp_check_fin s' ev c1 = Inr (TCP_E_RCV_FIN, c2) \<and> tv_rcv_nxt (tc_vars c2) = wnd_end c + 1 \<and>
    delivered c2 = delivered c + unat (tv_rcv_wnd (tc_vars c))"
proof -
  let ?k = "off w (tv_rcv_nxt (tc_vars c))" and ?e = "off w (wnd_end c)"
  have st: "text_state (tc_state c)" using assms(3) by (simp add: text_state_def)
  note we = wnd_end_off[OF assms(2)] and en = segment_end[OF assms(6)]
  have ov: "off w (tg_seq s) < ?e" "?k < off w (tg_end s)" "?e \<le> off w (tg_end s)"
    using we(1) en assms(8-10) by (auto simp: unat_gt_0)
  from tcp_segment_text_ok[OF assms(1,2) st assms(4,6) ov(1,2) assms(9), of old_snd_una ev] obtain s' c1 where
    r: "tcp_segment_text env old_snd_una (tv_rcv_nxt (tc_vars c)) s ev c = Inr (False, s', ev, c1)"
      "truncateSegment (tv_rcv_nxt (tc_vars c)) (wnd_end c) s = Inr s'" "tc_state c1 = tc_state c"
      "off w (tv_rcv_nxt (tc_vars c1)) = first_missing (rq_bytes w (tc_receiveQueue c) \<union> (segment_span w s \<inter> {..<?e})) ?k"
      "delivered c1 + ?k = delivered c + off w (tv_rcv_nxt (tc_vars c1))"
    by blast
  have span: "segment_span w s = {?k..<off w (tg_end s)}" using en assms(8) by (simp add: segment_span_def)
  have "first_missing (rq_bytes w (tc_receiveQueue c) \<union> (segment_span w s \<inter> {..<?e})) ?k = ?e"
    unfolding assms(5) span by (rule first_missing_eqI) (use ov assms(8) in auto)
  then have n1: "tv_rcv_nxt (tc_vars c1) = wnd_end c" using r(4) off_inj by simp
  have "rq_rcv_nxt (tc_receiveQueue c) = tv_rcv_nxt (tc_vars c)" "near w (rq_rcv_nxt (tc_receiveQueue c))"
    using assms(2) unfolding conn_rcv_ok_def rcv_inv_def rq_ok_def by blast+
  then have nn: "near w (tv_rcv_nxt (tc_vars c))" by simp
  have ke: "?k < ?e" using ov(1) assms(8) by simp
  have fin': "tg_fin s'" "off w (tg_end s') = ?e"
    using truncateSegment_ok[OF assms(6) nn we(2) ov(1,2) ke] r(2) ov(3) assms(7) by auto
  then have e': "tg_seq s' + ucast (tg_len s') = wnd_end c" using off_inj by (simp add: tg_end_def)
  let ?c2 = "setv (\<lambda>v. v\<lparr>tv_rcv_nxt := tv_rcv_nxt v + 1\<rparr>) (setv (\<lambda>v. v\<lparr>tv_ack_now := True\<rparr>) c1)"
  have "tcp_check_fin s' ev c1 = Inr (TCP_E_RCV_FIN, ?c2)"
    using fin'(1) e' n1 r(3) assms(3) tcp_fin_event_established[of ?c2] by (simp add: tcp_check_fin_def Let_def)
  moreover have "delivered c1 = delivered c + unat (tv_rcv_wnd (tc_vars c))" using r(5) n1 we(1) by simp
  ultimately show ?thesis using r(1) n1 by (intro exI[of _ s'] exI[of _ c1] exI[of _ ?c2]) simp
qed

end

end
