(* ===== verification/TcpFrame.thy ===== *)
theory TcpFrame
  imports TcpCommands TcpText
begin

text \<open>
  Predicates that every handler of a connection keeps.  The handlers change the state of the state
  machine and the variables of the congestion control only through \<open>performStateTransition\<close> and the calls
  of the environment, so a predicate on these two is kept by all of them when the environment keeps
  it: the locale \<open>conn_property\<close> proves this once.
\<close>

section \<open>Results that satisfy a predicate\<close>

definition ensures :: "'a result \<Rightarrow> ('a \<Rightarrow> bool) \<Rightarrow> bool" where
  "ensures m P \<longleftrightarrow> (\<forall>x. m = Inr x \<longrightarrow> P x)"

lemma ensures_simps [simp]:
  "ensures (Inl e) P" "ensures (Inr x) P = P x"
  "ensures (if b then m else n) P \<longleftrightarrow> (b \<longrightarrow> ensures m P) \<and> (\<not> b \<longrightarrow> ensures n P)"
  by (auto simp: ensures_def)

lemma ensures_bind: "ensures m Q \<Longrightarrow> (\<And>x. Q x \<Longrightarrow> ensures (f x) P) \<Longrightarrow> ensures (bindE m f) P"
  by (cases m) (auto simp: ensures_def)

lemma ensuresD: "ensures m P \<Longrightarrow> m = Inr x \<Longrightarrow> P x"
  by (simp add: ensures_def)

lemma ensures_mono: "ensures m P \<Longrightarrow> (\<And>x. P x \<Longrightarrow> Q x) \<Longrightarrow> ensures m Q"
  by (simp add: ensures_def)

lemma ensures_Let: "(\<And>x. x = t \<Longrightarrow> ensures (f x) P) \<Longrightarrow> ensures (Let t f) P"
  by simp

section \<open>The handlers keep a predicate\<close>

definition env_keeps :: "(tcp_conn \<Rightarrow> bool) \<Rightarrow> tcp_env \<Rightarrow> bool" where
  "env_keeps P env \<longleftrightarrow>
     (\<forall>call c. P c \<longrightarrow> ensures (te_call env call c) P) \<and>
     (\<forall>s c. P c \<longrightarrow> ensures (te_writeHeaderOptions env s c) (\<lambda>(s', c'). P c')) \<and>
     (\<forall>t c. P c \<longrightarrow> ensures (te_algorithmTimer env t c) (\<lambda>(ev, c'). P c'))"

text \<open>A step that does not give a connection is passed over.\<close>

lemma skip_bind: "(\<And>x. ensures (f x) P) \<Longrightarrow> ensures (bindE m f) P"
  by (rule ensures_bind[where Q = "\<lambda>_. True"]) (auto simp: ensures_def)

lemmas skip_unit = skip_bind[where ?'a = unit]
  and skip_sq = skip_bind[where ?'a = send_queue]
  and skip_xq = skip_bind[where ?'a = rexmit_queue]
  and skip_rq = skip_bind[where ?'a = "'x \<times> rcv_queue" for x]
  and skip_seg = skip_bind[where ?'a = tcp_segment]
  and skip_vars = skip_bind[where ?'a = tcp_vars]
  and skip_u32 = skip_bind[where ?'a = u32]


locale conn_property =
  fixes P :: "tcp_conn \<Rightarrow> bool"
  assumes frame: "tc_state c' = tc_state c \<Longrightarrow> tc_alg c' = tc_alg c \<Longrightarrow> P c' = P c"
begin

lemma frame_simps [simp]:
  "P (setv f c) = P c" "P (c\<lparr>tc_vars := v\<rparr>) = P c" "P (c\<lparr>tc_sendQueue := sq\<rparr>) = P c" "P (c\<lparr>tc_receiveQueue := rq\<rparr>) = P c"
  "P (c\<lparr>tc_rexmitQueue := xq\<rparr>) = P c" "P (c\<lparr>tc_remoteKnown := k\<rparr>) = P c" "P (c\<lparr>tc_localPort := p\<rparr>) = P c"
  "P (c\<lparr>tc_remotePort := p\<rparr>) = P c" "P (c\<lparr>tc_the2MSLTimer := b\<rparr>) = P c" "P (c\<lparr>tc_finWait2Timer := b\<rparr>) = P c"
  "P (c\<lparr>tc_connEstabTimer := t\<rparr>) = P c" "P (c\<lparr>tc_synRexmitTimer := t\<rparr>) = P c" "P (c\<lparr>tc_out := os\<rparr>) = P c"
  "P (c\<lparr>tc_now := n\<rparr>) = P c"
  by (auto intro!: frame simp: setv_def)

text \<open>
  How a step in a sequence of calls is passed: one that gives a connection, and ones that give a
  connection with results.
\<close>

lemma keep_bind:
  fixes m :: "tcp_conn result"
  shows "ensures m P \<Longrightarrow> (\<And>c. P c \<Longrightarrow> ensures (f c) Q) \<Longrightarrow> ensures (bindE m f) Q"
  by (rule ensures_bind)

lemma keep_bind2:
  fixes m :: "('x \<times> tcp_conn) result"
  shows "ensures m (\<lambda>(x, c). P c) \<Longrightarrow> (\<And>x c. P c \<Longrightarrow> ensures (f (x, c)) Q) \<Longrightarrow> ensures (bindE m f) Q"
  by (cases m) auto

lemma keep_bind3:
  fixes m :: "('x \<times> 'y \<times> tcp_conn) result"
  shows "ensures m (\<lambda>(x, y, c). P c) \<Longrightarrow>
    (\<And>x y c. P c \<Longrightarrow> ensures (f (x, y, c)) Q) \<Longrightarrow> ensures (bindE m f) Q"
  by (cases m) auto

lemma keep_bind4:
  fixes m :: "('x \<times> 'y \<times> 'z \<times> tcp_conn) result"
  shows "ensures m (\<lambda>(x, y, z, c). P c) \<Longrightarrow>
    (\<And>x y z c. P c \<Longrightarrow> ensures (f (x, y, z, c)) Q) \<Longrightarrow> ensures (bindE m f) Q"
  by (cases m) auto

lemma keeps_env:
  assumes "env_keeps P env" "P c"
  shows "ensures (te_call env call c) P"
    "ensures (te_writeHeaderOptions env s c) (\<lambda>(s', c). P c)"
    "ensures (te_algorithmTimer env t c) (\<lambda>(ev, c). P c)"
  using assms unfolding env_keeps_def by blast+

lemma keeps_small [simp]:
  "P (emit x c) = P c" "P (sendIndicationToApp i c) = P c"
  "P (sendRst n c) = P c" "P (updateRcvQueueVars c) = P c"
  "P (updateWndInfo s a c) = P c" "P (selectInitialSeqNum env c) = P c"
  "P (tcp_syn_rcv_vars s c) = P c"
  by (simp_all add: emit_def sendIndicationToApp_def sendRst_def updateRcvQueueVars_def updateWndInfo_def
      selectInitialSeqNum_def tcp_syn_rcv_vars_def Let_def)

lemma keeps_timers:
  assumes "P c"
  shows "ensures (schedule_2MSL c) P" "ensures (schedule_connEstab c) P"
    "ensures (schedule_synRexmit c) P"
  using assms by (auto simp: schedule_2MSL_def schedule_connEstab_def schedule_synRexmit_def split: option.splits bool.splits)

lemma keeps_startSynRexmitTimer: "P c \<Longrightarrow> ensures (startSynRexmitTimer c) P"
  by (auto simp: startSynRexmitTimer_def Let_def intro!: keeps_timers split: option.splits)

lemma keeps_updateRcvWnd:
  assumes "P c"
  shows "ensures (updateRcvWnd c) (\<lambda>(win, c). P c)"
proof -
  have tail: "P d \<Longrightarrow> ensures (case ss of (scaled, scale) \<Rightarrow>
      let d' = setv (\<lambda>v. v\<lparr>tv_rcv_wnd := win, tv_rcv_wnd_scale := scale\<rparr>) d
      in bindE (assertE (scaled = ucast (ucast scaled :: u16))) (\<lambda>_. Inr (ucast scaled, d'))) (\<lambda>(win :: u16, c). P c)"
    for ss :: "u32 \<times> u32" and win d
    by (cases ss) (auto simp: Let_def intro!: skip_unit)
  show ?thesis unfolding updateRcvWnd_def by (intro ensures_Let tail) (use assms in simp)
qed

lemma keeps_sendToIP: "P c \<Longrightarrow> ensures (sendToIP s c) P"
  by (auto simp: sendToIP_def intro!: skip_unit)

lemma keeps_send:
  assumes env: "env_keeps P env" and c: "P c"
  shows "ensures (sendSyn env c) P" "ensures (sendSynAck env c) P"
    "ensures (sendAck env c) P" "ensures (sendFin env c) P"
  using c by (auto simp: sendSyn_def sendSynAck_def sendAck_def sendFin_def Let_def
      intro!: keep_bind keep_bind2 keeps_updateRcvWnd keeps_sendToIP keeps_env[OF env])

section \<open>Segments\<close>

lemma keeps_check_sequence:
  assumes "env_keeps P env" "P c"
  shows "ensures (tcp_check_sequence env s c) (\<lambda>(a, c). P c)"
  using assms(2) by (auto simp: tcp_check_sequence_def Let_def intro!: skip_u32 keep_bind keeps_env[OF assms(1)])

lemma keeps_not_acceptable:
  assumes "env_keeps P env" "P c"
  shows "ensures (tcp_not_acceptable env s c) P"
  using assms(2) by (auto simp: tcp_not_acceptable_def Let_def intro!: keep_bind keeps_send(3)[OF assms(1)])

lemma keeps_check_rst: "P c \<Longrightarrow> ensures (tcp_check_rst c) (\<lambda>(ev, c). P c)"
  by (auto simp: tcp_check_rst_def processRstInSynReceived_def Let_def intro!: skip_sq skip_xq split: tcp_state.splits)

lemma keeps_ack:
  assumes "env_keeps P env" "P c"
  shows "ensures (processAckInEstabEtc env s c) (\<lambda>(ok, c). P c)"
  using assms(2) unfolding processAckInEstabEtc_def Let_def
  by (auto intro!: keep_bind skip_sq skip_xq skip_unit skip_u32 keeps_env(1)[OF assms(1)])

lemma keeps_ack_syn_rcvd:
  assumes "env_keeps P env" "P c"
  shows "ensures (tcp_ack_syn_rcvd env s c) (\<lambda>(ev, c). P c)"
  using assms(2) by (auto simp: tcp_ack_syn_rcvd_def intro!: keep_bind keeps_env(1)[OF assms(1)])

lemma keeps_ack_states:
  assumes "env_keeps P env" "P c"
  shows "ensures (tcp_ack_states env s ev c) (\<lambda>(f, ev, c). P c)"
  using assms(2) by (auto simp: tcp_ack_states_def Let_def intro!: keep_bind2 keep_bind keeps_timers(1) keeps_send(3)[OF assms(1)])

lemma keeps_fin_event: "P c \<Longrightarrow> ensures (tcp_fin_event c) (\<lambda>(ev, c). P c)"
  by (auto simp: tcp_fin_event_def intro!: keep_bind keeps_timers(1) split: tcp_state.splits)

lemma keeps_out_of_order:
  assumes "env_keeps P env" "P c"
  shows "ensures (tcp_out_of_order env used s c) P"
  using assms(2) by (auto simp: tcp_out_of_order_def Let_def intro!: keeps_env(1)[OF assms(1)])

lemma keeps_deliver: "P c \<Longrightarrow> ensures (tcp_deliver ev c) (\<lambda>(ev, c). P c)"
  by (auto simp: tcp_deliver_def Let_def intro!: skip_rq keeps_fin_event)

lemma keeps_segment_text:
  assumes "env_keeps P env" "P c"
  shows "ensures (tcp_segment_text env u n s ev c) (\<lambda>(d, s, ev, c). P c)"
  using assms(2) unfolding tcp_segment_text_def Let_def
  by (auto intro!: skip_seg skip_rq keep_bind keep_bind2 keeps_env(1)[OF assms(1)]
      keeps_out_of_order[OF assms(1)] keeps_deliver)

lemma keeps_check_fin: "P c \<Longrightarrow> ensures (tcp_check_fin s ev c) (\<lambda>(ev, c). P c)"
  by (auto simp: tcp_check_fin_def Let_def intro!: keeps_fin_event)

lemma keeps_finish:
  assumes "env_keeps P env" "P c"
  shows "ensures (tcp_finish env n m s ev c) (\<lambda>(ev, c). P c)"
  using assms(2) unfolding tcp_finish_def Let_def
  by (auto intro!: keep_bind keeps_env(1)[OF assms(1)])

lemma keeps_process:
  assumes env: "env_keeps P env" and c: "P c"
  shows "ensures (processSegment1stThru8th env s c) (\<lambda>(ev, c). P c)"
  using c unfolding processSegment1stThru8th_def
  by (auto intro!: ensures_Let keep_bind keep_bind2 keep_bind3 keep_bind4
      skip_unit keeps_check_sequence[OF env] keeps_not_acceptable[OF env] keeps_check_rst keeps_ack_syn_rcvd[OF env]
      keeps_ack[OF env] keeps_ack_states[OF env] keeps_segment_text[OF env] keeps_check_fin keeps_finish[OF env]
      split: option.split)

section \<open>Setup, commands and timers\<close>

lemma keeps_init:
  assumes "env_keeps P env" "P c"
  shows "ensures (initConnection env c) P" "ensures (forkListening env c) P"
    "ensures (options_present env s c) P"
  using assms(2) by (auto simp: initConnection_def forkListening_def options_present_def intro!: skip_vars keeps_env(1)[OF assms(1)])

lemma keeps_syn_text: "P c \<Longrightarrow> ensures (tcp_syn_text s c) (\<lambda>(ok, c). P c)"
  by (auto simp: tcp_syn_text_def Let_def intro!: skip_rq)

lemma keeps_listen:
  assumes env: "env_keeps P env" and c: "P c"
  shows "ensures (processSegmentInListen env s c) (\<lambda>(ev, c). P c)"
  using c unfolding processSegmentInListen_def
  by (auto intro!: ensures_Let keep_bind keep_bind2 keeps_init[OF env] keeps_env(1)[OF env]
      keeps_send(2)[OF env] keeps_startSynRexmitTimer keeps_timers(2) keeps_syn_text)

lemma keeps_syn_sent:
  assumes env: "env_keeps P env" and c: "P c"
  shows "ensures (processSegmentInSynSent env s c) (\<lambda>(ev, c). P c)"
  using c unfolding processSegmentInSynSent_def tcp_syn_sent_established_def tcp_syn_sent_simultaneous_def
  by (auto intro!: ensures_Let keep_bind keep_bind2 keeps_init(3)[OF env] keeps_env(1)[OF env]
      skip_sq skip_xq keeps_send(2)[OF env] keeps_startSynRexmitTimer keeps_syn_text)

lemma keeps_rcv_segment:
  assumes env: "env_keeps P env" and c: "P c"
  shows "ensures (process_RCV_SEGMENT env s c) (\<lambda>(ev, c). P c)"
  using keeps_listen[OF env c] keeps_syn_sent[OF env c] keeps_process[OF env c] by (simp add: process_RCV_SEGMENT_def)

lemma keeps_enqueue: "P c \<Longrightarrow> ensures (enqueue_command n c) P"
  by (auto simp: enqueue_command_def intro!: skip_sq)

lemma keeps_commands:
  assumes env: "env_keeps P env" and c: "P c"
  shows "ensures (process_OPEN_ACTIVE env rk lp rp c) P"
    "ensures (process_OPEN_PASSIVE env f lp c) P"
    "ensures (process_SEND env n c) P"
    "ensures (process_CLOSE env c) (\<lambda>(ev, c). P c)"
    "ensures (process_ABORT c) P"
    "ensures (process_STATUS c) P"
    "ensures (process_QUEUE_BYTES_LIMIT l c) P"
  using c
  by (auto simp: process_OPEN_ACTIVE_def process_OPEN_PASSIVE_def process_SEND_def process_CLOSE_def process_ABORT_def
      process_STATUS_def process_QUEUE_BYTES_LIMIT_def intro!: ensures_Let keep_bind keep_bind2
      keeps_init[OF env] keeps_env(1)[OF env] keeps_send[OF env] keeps_startSynRexmitTimer keeps_timers(2) keeps_enqueue
      split: tcp_state.split)

lemma keeps_timeouts:
  assumes env: "env_keeps P env" and c: "P c"
  shows "ensures (process_TIMEOUT_CONN_ESTAB c) P"
    "ensures (process_TIMEOUT_2MSL c) P"
    "ensures (process_TIMEOUT_FIN_WAIT_2 c) P"
    "ensures (process_TIMEOUT_SYN_REXMIT env ev c) (\<lambda>(ev, c). P c)"
  using c by (auto simp: process_TIMEOUT_CONN_ESTAB_def process_TIMEOUT_2MSL_def process_TIMEOUT_FIN_WAIT_2_def
      process_TIMEOUT_SYN_REXMIT_def intro!: ensures_Let keep_bind keeps_send[OF env] keeps_timers(3)
      split: tcp_state.split)

lemma keeps_state_entered:
  assumes env: "env_keeps P env" and c: "P c"
  shows "ensures (stateEntered env st old ev c) P"
  using c by (auto simp: stateEntered_def Let_def intro!: skip_unit keeps_env(1)[OF env] split: tcp_state.split)

end

end
