(* ===== verification/TcpSafety.thy ===== *)
theory TcpSafety
  imports TcpFrame
begin

text \<open>
  The order of the states of a connection.  No handler changes the state by itself: it changes only
  in \<open>performStateTransition\<close>, which moves on along the diagram of RFC 793.
\<close>

section \<open>Handlers keep the state\<close>

text \<open>The calls out of the model do not change the state of the connection.\<close>

definition keeps_state :: "tcp_env \<Rightarrow> bool" where
  "keeps_state env \<longleftrightarrow> (\<forall>S. env_keeps (\<lambda>c. tc_state c = S) env)"

lemma keeps_stateD: "keeps_state env \<Longrightarrow> env_keeps (\<lambda>c. tc_state c = S) env"
  by (simp add: keeps_state_def)

interpretation st: conn_property "\<lambda>c. tc_state c = S" for S
  by unfold_locales simp

section \<open>The order of the states\<close>

lemma fsm_next_ignore: "fsm_next a st TCP_E_IGNORE = st"
  by (cases st; simp add: fsm_next_def)

text \<open>
  A transition: the flag says whether the connection lives on, and the new state is the one of the
  table.
\<close>

lemma transition_state:
  assumes env: "keeps_state env"
  shows "ensures (performStateTransition env ev c) (\<lambda>(alive, c').
    tc_state c \<noteq> TCP_S_CLOSED \<and> (alive \<longleftrightarrow> tc_state c' \<noteq> TCP_S_CLOSED) \<and>
    (\<exists>a. tc_state c' = fsm_next a (tc_state c) ev))"
proof (cases "ev = TCP_E_IGNORE \<or> tc_state c = TCP_S_CLOSED")
  case True
  then show ?thesis
    by (auto simp: performStateTransition_def ensures_def fsm_next_ignore)
next
  case False
  define st where "st = fsm_next (tv_active (tc_vars c)) (tc_state c) ev"
  have entered: "ensures (if st \<noteq> tc_state c then stateEntered env st (tc_state c) ev (c\<lparr>tc_state := st\<rparr>) else Inr (c\<lparr>tc_state := st\<rparr>))
      (\<lambda>c'. tc_state c' = st)"
    using st.keeps_state_entered[OF keeps_stateD[OF env, of st], of "c\<lparr>tc_state := st\<rparr>" st] by simp
  have "ensures (bindE (if st \<noteq> tc_state c then stateEntered env st (tc_state c) ev (c\<lparr>tc_state := st\<rparr>) else Inr (c\<lparr>tc_state := st\<rparr>))
      (\<lambda>c2. Inr (tc_state c2 \<noteq> TCP_S_CLOSED, c2))) (\<lambda>(alive, c'). (alive \<longleftrightarrow> tc_state c' \<noteq> TCP_S_CLOSED) \<and> tc_state c' = st)"
    by (rule st.keep_bind[OF entered]) simp
  moreover have "performStateTransition env ev c =
      bindE (if st \<noteq> tc_state c then stateEntered env st (tc_state c) ev (c\<lparr>tc_state := st\<rparr>) else Inr (c\<lparr>tc_state := st\<rparr>))
        (\<lambda>c2. Inr (tc_state c2 \<noteq> TCP_S_CLOSED, c2))"
    using False by (simp add: performStateTransition_def st_def Let_def)
  ultimately show ?thesis
    by (elim ssubst) (rule ensures_mono, assumption, use False st_def in blast)
qed

fun fsm_rank :: "tcp_state \<Rightarrow> nat" where
  "fsm_rank TCP_S_INIT = 0"
| "fsm_rank TCP_S_LISTEN = 1"
| "fsm_rank TCP_S_SYN_SENT = 2"
| "fsm_rank TCP_S_SYN_RCVD = 3"
| "fsm_rank TCP_S_ESTABLISHED = 4"
| "fsm_rank TCP_S_CLOSE_WAIT = 5"
| "fsm_rank TCP_S_FIN_WAIT_1 = 5"
| "fsm_rank TCP_S_LAST_ACK = 6"
| "fsm_rank TCP_S_FIN_WAIT_2 = 6"
| "fsm_rank TCP_S_CLOSING = 6"
| "fsm_rank TCP_S_TIME_WAIT = 7"
| "fsm_rank TCP_S_CLOSED = 8"

lemma fsm_next_rank:
  "fsm_next a st ev = st \<or> fsm_rank st < fsm_rank (fsm_next a st ev) \<or>
   st = TCP_S_SYN_RCVD \<and> fsm_next a st ev = TCP_S_LISTEN \<and> \<not> a \<and> ev \<in> {TCP_E_TIMEOUT_CONN_ESTAB, TCP_E_RCV_RST}"
  by (cases st; cases ev; simp add: fsm_next_def)

text \<open>
  One event of a connection at some time: a segment, a command or a timer, handled without an error.
\<close>

inductive conn_step :: "tcp_env \<Rightarrow> tcp_conn \<Rightarrow> tcp_conn \<Rightarrow> bool" for env where
  segment: "processTCPSegment env s (c\<lparr>tc_now := now\<rparr>) = Inr (alive, c') \<Longrightarrow> conn_step env c c'"
| command: "processAppCommand env cmd (c\<lparr>tc_now := now\<rparr>) = Inr (alive, c') \<Longrightarrow> conn_step env c c'"
| timer: "processTimer env t (c\<lparr>tc_now := now\<rparr>) = Inr (alive, c') \<Longrightarrow> conn_step env c c'"

inductive conn_run :: "tcp_env \<Rightarrow> tcp_conn \<Rightarrow> nat \<Rightarrow> tcp_conn \<Rightarrow> bool" for env where
  start: "conn_run env c 0 c"
| same: "conn_run env c n c' \<Longrightarrow> conn_step env c' c'' \<Longrightarrow> tc_state c'' = tc_state c' \<Longrightarrow> conn_run env c n c''"
| change: "conn_run env c n c' \<Longrightarrow> conn_step env c' c'' \<Longrightarrow> tc_state c'' \<noteq> tc_state c' \<Longrightarrow> conn_run env c (Suc n) c''"

inductive_cases conn_stepE: "conn_step env c c'"

lemma entry_points:
  assumes env: "keeps_state env"
  shows "ensures (processTCPSegment env s c) (\<lambda>(alive, c'). \<exists>a ev. tc_state c \<noteq> TCP_S_CLOSED \<and> tc_state c' = fsm_next a (tc_state c) ev)"
    "ensures (processAppCommand env cmd c) (\<lambda>(alive, c'). \<exists>a ev. tc_state c \<noteq> TCP_S_CLOSED \<and> tc_state c' = fsm_next a (tc_state c) ev)"
    "ensures (processTimer env t c) (\<lambda>(alive, c'). \<exists>a ev. tc_state c \<noteq> TCP_S_CLOSED \<and> tc_state c' = fsm_next a (tc_state c) ev)"
proof -
  have tr: "ensures (performStateTransition env ev d)
      (\<lambda>(alive, c'). \<exists>a ev. tc_state c \<noteq> TCP_S_CLOSED \<and> tc_state c' = fsm_next a (tc_state c) ev)"
    if "tc_state d = tc_state c" for ev d
    by (rule ensures_mono[OF transition_state[OF env]]) (use that in auto)
  show "ensures (processTCPSegment env s c) (\<lambda>(alive, c'). \<exists>a ev. tc_state c \<noteq> TCP_S_CLOSED \<and> tc_state c' = fsm_next a (tc_state c) ev)"
    unfolding processTCPSegment_def by (rule st.keep_bind2[OF st.keeps_rcv_segment[OF keeps_stateD[OF env] refl]]) (unfold prod.case, rule tr)
  have cmd: "ensures (case cmd of
        OpenActive remoteKnown localPort remotePort \<Rightarrow> bindE (process_OPEN_ACTIVE env remoteKnown localPort remotePort c) (\<lambda>c. Inr (e, c))
      | OpenPassive forking localPort \<Rightarrow> bindE (process_OPEN_PASSIVE env forking localPort c) (\<lambda>c. Inr (e, c))
      | Send bytes \<Rightarrow> bindE (process_SEND env bytes c) (\<lambda>c. Inr (e, c))
      | Close \<Rightarrow> process_CLOSE env c
      | Abort \<Rightarrow> bindE (process_ABORT c) (\<lambda>c. Inr (e, c))
      | Status \<Rightarrow> bindE (process_STATUS c) (\<lambda>c. Inr (e, c))
      | QueueBytesLimit limit \<Rightarrow> bindE (process_QUEUE_BYTES_LIMIT limit c) (\<lambda>c. Inr (e, c)))
      (\<lambda>(ev, c'). tc_state c' = tc_state c)" for e
    by (cases cmd) (auto intro!: st.keep_bind[where S = "tc_state c"] st.keeps_commands[OF keeps_stateD[OF env]])
  show "ensures (processAppCommand env cmd c) (\<lambda>(alive, c'). \<exists>a ev. tc_state c \<noteq> TCP_S_CLOSED \<and> tc_state c' = fsm_next a (tc_state c) ev)"
    unfolding processAppCommand_def Let_def by (rule st.keep_bind2[OF cmd]) (unfold prod.case, rule tr)
  show "ensures (processTimer env t c) (\<lambda>(alive, c'). \<exists>a ev. tc_state c \<noteq> TCP_S_CLOSED \<and> tc_state c' = fsm_next a (tc_state c) ev)"
    unfolding processTimer_def
  proof (rule st.keep_bind2[where S = "tc_state c"], goal_cases)
    case 1
    show ?case
      by (auto intro!: st.keep_bind[where S = "tc_state c"] st.keeps_timeouts[OF keeps_stateD[OF env]] st.keeps_env(3)[OF keeps_stateD[OF env]] split: tcp_timer.split)
  qed (unfold prod.case, rule tr)
qed

lemma conn_step_next:
  assumes "keeps_state env" "conn_step env c c'"
  shows "\<exists>a ev. tc_state c \<noteq> TCP_S_CLOSED \<and> tc_state c' = fsm_next a (tc_state c) ev"
  using assms(2)
proof cases
  case (segment s now alive)
  then show ?thesis using ensuresD[OF entry_points(1)[OF assms(1)] segment] by simp
next
  case (command cmd now alive)
  then show ?thesis using ensuresD[OF entry_points(2)[OF assms(1)] command] by simp
next
  case (timer t now alive)
  then show ?thesis using ensuresD[OF entry_points(3)[OF assms(1)] timer] by simp
qed

lemma rank_synchronized: "4 \<le> fsm_rank st \<longleftrightarrow> st \<notin> {TCP_S_INIT, TCP_S_LISTEN, TCP_S_SYN_SENT, TCP_S_SYN_RCVD}"
  by (cases st) simp_all

lemma rank_le: "fsm_rank st \<le> 8"
  by (cases st) simp_all

text \<open>The order of the states, for an environment whose calls do not change the state.\<close>

lemma state_order:
  assumes "keeps_state env" "conn_run env c n c'"
    and "tc_state c \<notin> {TCP_S_INIT, TCP_S_LISTEN, TCP_S_SYN_SENT, TCP_S_SYN_RCVD}"
  shows "tc_state c' \<notin> {TCP_S_INIT, TCP_S_LISTEN, TCP_S_SYN_SENT, TCP_S_SYN_RCVD} \<and>
    fsm_rank (tc_state c) + n \<le> fsm_rank (tc_state c') \<and> n \<le> 4 \<and>
    (tc_state c' = TCP_S_CLOSED \<longrightarrow> (\<nexists>c''. conn_step env c' c''))"
proof -
  have rank: "fsm_rank (tc_state c) + n \<le> fsm_rank (tc_state c') \<and> 4 \<le> fsm_rank (tc_state c')"
    using assms(2) assms(3)
  proof (induction rule: conn_run.induct)
    case (start c)
    then show ?case using rank_synchronized[of "tc_state c"] by simp
  next
    case (same c n c' c'')
    then show ?case by simp
  next
    case (change c n c' c'')
    from conn_step_next[OF assms(1) change.hyps(2)] obtain a ev where "tc_state c'' = fsm_next a (tc_state c') ev" by blast
    with fsm_next_rank[of a "tc_state c'" ev] change show ?case by auto
  qed
  have "4 \<le> fsm_rank (tc_state c)" using assms(3) rank_synchronized by blast
  then have "n \<le> 4" using rank rank_le[of "tc_state c'"] by linarith
  moreover have "\<not> conn_step env c' c''" if "tc_state c' = TCP_S_CLOSED" for c''
    using conn_step_next[OF assms(1), of c' c''] that by blast
  ultimately show ?thesis using rank rank_synchronized by blast
qed

end
