(* ===== verification/TcpFlavourSafety.thy ===== *)
theory TcpFlavourSafety
  imports TcpFlavours TcpSafety
begin

text \<open>
  What holds of every flavour of the congestion control: it does not change the state of the
  connection, and the retransmission and persist timeouts stay in their bounds.  Both follow from the
  locale \<open>alg_property\<close>, which passes a predicate through all operations of the sender.
\<close>

section \<open>The timer variables\<close>

definition persist_factors :: "u32 set" where
  "persist_factors = {1, 2, 4, 8, 16, 32, 64}"

definition timers_ok :: "tcp_alg \<Rightarrow> bool" where
  "timers_ok a \<longleftrightarrow> MIN_REXMIT_TIMEOUT \<le> ta_rexmit_timeout a \<and> ta_rexmit_timeout a \<le> MAX_REXMIT_TIMEOUT \<and>
     0 \<le> ta_rexmit_count a \<and>
     (ta_persist_factor a = 0 \<or> ta_persist_factor a \<in> persist_factors) \<and>
     (ta_persist_timeout a = 5 * simtime_s \<or> (\<exists>f \<in> persist_factors. ta_persist_timeout a = uint f * 3 * simtime_s div 2))"

lemma timers_ok_rto: "timers_ok a \<Longrightarrow> MIN_REXMIT_TIMEOUT \<le> t \<Longrightarrow> t \<le> MAX_REXMIT_TIMEOUT \<Longrightarrow> timers_ok (a\<lparr>ta_rexmit_timeout := t\<rparr>)"
  by (simp add: timers_ok_def)

lemma timers_ok_persist:
  assumes "timers_ok a" "g \<in> persist_factors"
  shows "timers_ok (a\<lparr>ta_persist_factor := g, ta_persist_timeout := uint g * 3 * simtime_s div 2\<rparr>)"
proof -
  have "\<exists>f \<in> persist_factors. uint g * 3 * simtime_s div 2 = uint f * 3 * simtime_s div 2" using assms(2) by (rule bexI[rotated]) (rule refl)
  with assms show ?thesis by (simp add: timers_ok_def)
qed

locale alg_property = conn_property +
  assumes alg: "P c \<Longrightarrow> (timers_ok (tc_alg c) \<Longrightarrow> timers_ok (f (tc_alg c))) \<Longrightarrow> P (seta f c)"
begin

text \<open>Updates of the variables that \<open>timers_ok\<close> does not look at.\<close>

lemma alg_frame [intro]:
  "P c \<Longrightarrow> P (seta (\<lambda>a. a\<lparr>ta_rcv_ws := b1\<rparr>) c)" "P c \<Longrightarrow> P (seta (\<lambda>a. a\<lparr>ta_snd_ws := b1\<rparr>) c)"
  "P c \<Longrightarrow> P (seta (\<lambda>a. a\<lparr>ta_rcv_initial_ts := b1\<rparr>) c)" "P c \<Longrightarrow> P (seta (\<lambda>a. a\<lparr>ta_snd_initial_ts := b1\<rparr>) c)"
  "P c \<Longrightarrow> P (seta (\<lambda>a. a\<lparr>ta_rcv_sack_perm := b1\<rparr>) c)" "P c \<Longrightarrow> P (seta (\<lambda>a. a\<lparr>ta_snd_sack_perm := b1\<rparr>) c)"
  "P c \<Longrightarrow> P (seta (\<lambda>a. a\<lparr>ta_rcv_sacks := n1 a, ta_sackedBytes_old := n2 a, ta_sackedBytes := n3\<rparr>) c)"
  "P c \<Longrightarrow> P (seta (\<lambda>a. a\<lparr>ta_sacks_array := bs\<rparr>) c)" "P c \<Longrightarrow> P (seta (\<lambda>a. a\<lparr>ta_snd_sacks := n1 a\<rparr>) c)"
  "P c \<Longrightarrow> P (seta (\<lambda>a. a\<lparr>ta_highRxt := n3\<rparr>) c)" "P c \<Longrightarrow> P (seta (\<lambda>a. a\<lparr>ta_pipe := n1 a\<rparr>) c)"
  "P c \<Longrightarrow> P (seta (\<lambda>a. a\<lparr>ta_highRxt := n3, ta_pipe := n2 a\<rparr>) c)"
  by (erule alg, simp add: timers_ok_def)+

lemma alg_pipe: "P c \<Longrightarrow> P (seta (\<lambda>a. a\<lparr>ta_pipe := n3\<rparr>) c)"
  by (erule alg, simp add: timers_ok_def)

section \<open>Options\<close>

lemma keeps_process_option: "P c \<Longrightarrow> ensures (process_option s opt c) (\<lambda>(ok, c). P c)"
  by (auto simp: process_option_def processMSSOption_def processWSOption_def processTSOption_def
      processSACKPermittedOption_def processSACKOption_def Let_def intro!: skip_xq alg_frame)

lemma keeps_read_options: "P c \<Longrightarrow> ensures (read_options s opts c) P"
  by (induction opts arbitrary: c) (auto intro!: keep_bind2 keeps_process_option)

lemma keeps_readHeaderOptions: "P c \<Longrightarrow> ensures (readHeaderOptions s c) P"
  by (simp add: readHeaderOptions_def keeps_read_options)

lemma keeps_sacks_done [simp]: "P (sacks_done c) = P c"
  by (simp add: sacks_done_def)

lemma keeps_addSacks: "P c \<Longrightarrow> ensures (addSacks s c) (\<lambda>(s, c). P c)"
  unfolding addSacks_def
  by (auto intro!: ensures_Let skip_bind[where ?'a = "sack list"] skip_bind[where ?'a = tcp_option] skip_unit alg_frame)

lemma keeps_write_parts:
  assumes "P c"
  shows "P (snd (write_mss c))" "P (snd (write_ws c))" "P (snd (write_sack_permitted c))" "P (snd (write_initial_ts env s c))"
  using assms
  by (auto simp: write_mss_def write_ws_def write_sack_permitted_def write_initial_ts_def Let_def intro!: alg_frame)

lemma keeps_write_syn_options:
  assumes "P c"
  shows "P (snd (write_syn_options env s c))"
proof -
  obtain o1 c1 where 1: "write_mss c = (o1, c1)" by fastforce
  obtain o2 c2 where 2: "write_ws c1 = (o2, c2)" by fastforce
  obtain o3 c3 where 3: "write_sack_permitted c2 = (o3, c3)" by fastforce
  obtain o4 c4 where 4: "write_initial_ts env s c3 = (o4, c4)" by fastforce
  have "P c4"
    using keeps_write_parts(1)[OF assms] keeps_write_parts(2)[of c1] keeps_write_parts(3)[of c2] keeps_write_parts(4)[of c3 env s]
    by (simp add: 1 2 3 4)
  then show ?thesis by (simp add: write_syn_options_def 1 2 3 4)
qed

lemma keeps_writeHeaderOptions:
  assumes "P c"
  shows "ensures (writeHeaderOptions env s c) (\<lambda>(s, c). P c)"
proof -
  obtain s1 c1 where w: "write_syn_options env s c = (s1, c1)" by (cases "write_syn_options env s c")
  then have "P c1" using keeps_write_syn_options[OF assms, of env s] by simp
  then show ?thesis
    using assms by (auto simp: writeHeaderOptions_def write_data_options_def w Let_def intro!: keep_bind2 keeps_addSacks)
qed

section \<open>Sending\<close>

lemma keeps_forward: "P c \<Longrightarrow> ensures (forward_snd_nxt c) P"
  by (auto simp: forward_snd_nxt_def intro!: skip_u32)

lemma keeps_raise [simp]: "P (raise_snd_max c) = P c" "P (abate_queue c) = P c"
  by (simp_all add: raise_snd_max_def abate_queue_def Let_def)

lemma keeps_send_bytes: "P c \<Longrightarrow> ensures (send_bytes tmp n c) P"
  unfolding send_bytes_def
  by (auto intro!: ensures_Let skip_seg skip_xq skip_unit keep_bind keep_bind2 keeps_updateRcvWnd keeps_sendToIP)

lemma keeps_sendSegment:
  assumes "env_keeps P env" "P c"
  shows "ensures (sendSegment env n c) P"
  using assms(2) unfolding sendSegment_def
  by (auto intro!: ensures_Let skip_unit keep_bind keep_bind2 keeps_forward keeps_env(2)[OF assms(1)] keeps_send_bytes)

lemma keeps_returns: "(\<And>m. r = Some m \<Longrightarrow> ensures m Q) \<Longrightarrow> ensures (returns r) Q"
  by (cases r) (auto simp: returns_def)

lemma keeps_send_loop:
  assumes env: "env_keeps P env" and "send_loop env eff n c = Some m" "P c"
  shows "ensures m (\<lambda>(n, c). P c)"
proof -
  have "env_keeps P env \<longrightarrow> P c \<longrightarrow> ensures m (\<lambda>(n, c). P c)"
  proof (rule send_loop.raw_induct[where P = "\<lambda>env eff n c m. env_keeps P env \<longrightarrow> P c \<longrightarrow> ensures m (\<lambda>(n, c). P c)",
        OF _ assms(2)], goal_cases)
    case (1 loop env eff n c m)
    show ?case
    proof (intro impI)
      assume e: "env_keeps P env" and c: "P c"
      from keeps_sendSegment[OF e c] have ens: "ensures (sendSegment env (tv_snd_mss (tc_vars c)) c) P" .
      show "ensures m (\<lambda>(n, c). P c)"
        using 1 e c ensuresD[OF ens] by (auto split: if_splits sum.splits)
    qed
  qed
  with assms show ?thesis by blast
qed

lemma keeps_retransmit_loop:
  assumes env: "env_keeps P env" and "retransmit_loop env n c = Some m" "P c"
  shows "ensures m P"
proof -
  have "env_keeps P env \<longrightarrow> P c \<longrightarrow> ensures m P"
  proof (rule retransmit_loop.raw_induct[where P = "\<lambda>env n c m. env_keeps P env \<longrightarrow> P c \<longrightarrow> ensures m P",
        OF _ assms(2)], goal_cases)
    case (1 loop env n c m)
    show ?case
    proof (intro impI)
      assume e: "env_keeps P env" and c: "P c"
      from keeps_sendSegment[OF e c] have "sendSegment env k c = Inr c' \<Longrightarrow> P c'" for k c'
        by (rule ensuresD)
      then show "ensures m P"
        using 1 e c keeps_sendSegment[OF e c] by (auto simp: Let_def split: if_splits sum.splits)
    qed
  qed
  with assms show ?thesis by blast
qed

lemma keeps_sendData:
  assumes env: "env_keeps P env" and c: "P c"
  shows "ensures (sendData env full w c) (\<lambda>(b, c). P c)"
proof -
  have loop: "ensures (returns (send_loop env eff n d)) (\<lambda>(n, c). P c)" if "P d" for eff n d
    by (rule keeps_returns) (rule keeps_send_loop[OF env _ that])
  have start: "P (if b then setv f c else c)" for b f using c by simp
  show ?thesis
    unfolding sendData_def
  proof (intro ensures_Let, goal_cases)
    case (1 d hr n)
    then have d: "P d" using start by simp
    show ?case
      using d by (auto intro!: keep_bind keep_bind2 keeps_sendSegment[OF env] keeps_env(1)[OF env] loop simp: Let_def
          split: option.split)
  qed
qed

lemma keeps_sendProbe:
  assumes env: "env_keeps P env" and c: "P c"
  shows "ensures (sendProbe env c) (\<lambda>(b, c). P c)"
  using c unfolding sendProbe_def
  by (auto intro!: ensures_Let keep_bind keep_bind2 keeps_sendSegment[OF env] keeps_env(1)[OF env])

lemma keeps_resend_fin:
  assumes env: "env_keeps P env" and c: "P c"
  shows "ensures (resend_fin env tell c) P"
  using c unfolding resend_fin_def
  by (auto intro!: ensures_Let keep_bind keeps_send(4)[OF env] keeps_env(1)[OF env])

lemma keeps_retransmitOneSegment:
  assumes env: "env_keeps P env" and c: "P c"
  shows "ensures (retransmitOneSegment env rto c) P"
  using c unfolding retransmitOneSegment_def
  by (auto intro!: ensures_Let skip_unit keep_bind keeps_resend_fin[OF env] keeps_sendSegment[OF env] keeps_env(1)[OF env] alg_frame)

lemma keeps_retransmitData:
  assumes env: "env_keeps P env" and c: "P c"
  shows "ensures (retransmitData env c) P"
proof -
  have loop: "ensures (returns (retransmit_loop env n d)) P" if "P d" for n d
    by (rule keeps_returns) (rule keeps_retransmit_loop[OF env _ that])
  show ?thesis using c unfolding retransmitData_def
    by (auto intro!: ensures_Let skip_unit keep_bind keeps_resend_fin[OF env] loop keeps_env(1)[OF env])
qed

lemma keeps_sendOneNewSegment:
  assumes env: "env_keeps P env" and c: "P c"
  shows "ensures (sendOneNewSegment env full w c) P"
  using c unfolding sendOneNewSegment_def
  by (auto intro!: ensures_Let skip_unit keep_bind keeps_sendSegment[OF env] keeps_env(1)[OF env])

section \<open>Loss recovery\<close>

lemma keeps_setPipe: "P c \<Longrightarrow> ensures (setPipe c) P"
  unfolding setPipe_def by (auto intro!: ensures_Let skip_unit skip_u32 alg_frame alg_pipe)

lemma keeps_nextSeg: "P c \<Longrightarrow> ensures (nextSeg c) (\<lambda>(s, c). P c)"
  unfolding nextSeg_def
  by (auto intro!: ensures_Let skip_unit skip_bind[where ?'a = "u32 option"] alg_frame split: option.split)

lemma keeps_sendRecoverySegment:
  assumes env: "env_keeps P env" and c: "P c"
  shows "ensures (sendSegmentDuringLossRecoveryPhase env n c) P"
  using c unfolding sendSegmentDuringLossRecoveryPhase_def
  by (auto intro!: ensures_Let skip_unit keep_bind keeps_sendSegment[OF env] keeps_env(1)[OF env] alg_frame)

lemma keeps_recovery_loop:
  assumes env: "env_keeps P env" and "recovery_loop env w c = Some m" "P c"
  shows "ensures m P"
proof -
  have "env_keeps P env \<longrightarrow> P c \<longrightarrow> ensures m P"
  proof (rule recovery_loop.raw_induct[where P = "\<lambda>env w c m. env_keeps P env \<longrightarrow> P c \<longrightarrow> ensures m P",
        OF _ assms(2)], goal_cases)
    case (1 loop env w c m)
    show ?case
    proof (intro impI)
      assume e: "env_keeps P env" and c: "P c"
      note body = 1(2) and ih = 1(1)[rule_format, OF _ e]
      show "ensures m P"
      proof (cases "pipe_has_room w c")
        case False
        then show ?thesis using body c by auto
      next
        case room: True
        show ?thesis
        proof (cases "nextSeg c")
          case (Inl x)
          then show ?thesis using body room by auto
        next
          case (Inr x)
          obtain f c1 where f: "nextSeg c = Inr (f, c1)" using Inr by (cases x) simp
          have c1: "P c1" using ensuresD[OF keeps_nextSeg[OF c] f] by simp
          show ?thesis
          proof (cases f)
            case None
            then show ?thesis using body room f c1 by auto
          next
            case (Some k)
            note step = keeps_sendRecoverySegment[OF e c1, of k]
            show ?thesis
            proof (cases "sendSegmentDuringLossRecoveryPhase env k c1")
              case (Inl x)
              then show ?thesis using body room f Some by (auto simp: ensures_def)
            next
              case (Inr c2)
              let ?d = "seta (\<lambda>a. a\<lparr>ta_pipe := ta_pipe a + tv_sentBytes (tc_vars c2)\<rparr>) c2"
              have d: "P ?d" by (rule alg_frame(11)) (rule ensuresD[OF step Inr])
              have "loop env w ?d = Some m" using body room f Some Inr by simp
              from ih[OF this d] show ?thesis .
            qed
          qed
        qed
      qed
    qed
  qed
  with assms show ?thesis by blast
qed

lemma keeps_recovery:
  assumes env: "env_keeps P env" and c: "P c"
  shows "ensures (sendDataDuringLossRecoveryPhase env w c) P"
  using c unfolding sendDataDuringLossRecoveryPhase_def
  by (auto intro!: skip_unit keeps_returns keeps_recovery_loop[OF env])

section \<open>The base algorithm\<close>

lemma keeps_alg_timers:
  assumes "P c"
  shows "ensures (schedule_rexmit t c) P" "ensures (schedule_persist t c) P" "ensures (schedule_delayedAck t c) P"
    "P (cancel_rexmit c)" "P (base_connectionClosed c)" "P (cancel_persist c)" "P (base_ackSent c)" "P (clear_timer at c)"
  using assms
  by (auto simp: schedule_rexmit_def schedule_persist_def schedule_delayedAck_def cancel_rexmit_def base_connectionClosed_def
      cancel_persist_def base_ackSent_def clear_timer_def timers_ok_def Let_def intro!: alg split: alg_timer.split)

lemma keeps_startRexmitTimer: "P c \<Longrightarrow> ensures (startRexmitTimer c) P"
  unfolding startRexmitTimer_def Let_def by (rule keeps_alg_timers(1)) (erule alg, simp add: timers_ok_def)

lemma keeps_dataSent: "P c \<Longrightarrow> ensures (base_dataSent n c) P"
  unfolding base_dataSent_def
  by (rule keep_bind) (auto simp: timers_ok_def Let_def intro!: keeps_startRexmitTimer alg)

lemma keeps_base_call: "P c \<Longrightarrow> ensures (base_call call c) P"
  by (auto simp: base_call_def base_restartRexmitTimer_def intro!: keeps_dataSent keeps_startRexmitTimer keeps_alg_timers
      split: tcp_call.split)

lemma keeps_dumb_call: "P c \<Longrightarrow> ensures (dumb_call call c) P"
  by (auto simp: dumb_call_def intro!: keeps_alg_timers split: tcp_call.split)

lemma keeps_leaf: "env_keeps P (flavour_leaf fl env)"
  by (auto simp: env_keeps_def flavour_leaf_def leaf_env_def keeps_base_call keeps_dumb_call keeps_writeHeaderOptions)

lemma keeps_rexmit_timer:
  assumes "P c"
  shows "ensures (base_processRexmitTimer c) (\<lambda>(ev, c). P c)"
proof -
  have "P (seta (\<lambda>a. a\<lparr>ta_rexmit_count := ta_rexmit_count a + 1\<rparr>) c)"
    by (rule alg[OF assms]) (simp add: timers_ok_def)
  moreover have "P (seta (\<lambda>a. a\<lparr>ta_rexmit_timeout := min MAX_REXMIT_TIMEOUT (ta_rexmit_timeout a + ta_rexmit_timeout a)\<rparr>) d)"
    if "P d" for d
    by (rule alg[OF that]) (auto simp: timers_ok_def MAX_REXMIT_TIMEOUT_def MIN_REXMIT_TIMEOUT_def simtime_s_def)
  moreover have "P (seta (\<lambda>a. a\<lparr>ta_rtseq_sendtime := 0, ta_numRtos := ta_numRtos a + 1\<rparr>) d)" if "P d" for d
    by (rule alg[OF that]) (simp add: timers_ok_def)
  moreover have "P (seta (\<lambda>a. a\<lparr>ta_recoveryPoint := n, ta_lossRecovery := False\<rparr>) d)" if "P d" for d n
    by (rule alg[OF that]) (simp add: timers_ok_def)
  ultimately show ?thesis
    unfolding base_processRexmitTimer_def by (auto simp: Let_def intro!: keep_bind keeps_alg_timers(1))
qed

lemma keeps_rtt: "P c \<Longrightarrow> P (rttMeasurementComplete env t1 t2 c)"
  unfolding rttMeasurementComplete_def Let_def
  by (erule alg) (auto simp: timers_ok_def clamp_rto_def MAX_REXMIT_TIMEOUT_def MIN_REXMIT_TIMEOUT_def simtime_s_def)

lemma keeps_cwnd [simp]: "P c \<Longrightarrow> P (set_cwnd w c)" "P c \<Longrightarrow> P (idle_restart c)" "P c \<Longrightarrow> P (recalculateSlowStartThreshold c)"
  by (auto simp: set_cwnd_def idle_restart_def recalculateSlowStartThreshold_def timers_ok_def Let_def intro!: alg)

lemma keeps_quietly: "ensures m (\<lambda>(x, c). P c) \<Longrightarrow> ensures (quietly m) P"
  unfolding quietly_def by (erule keep_bind2) simp

lemma keeps_base_sendData:
  assumes env: "env_keeps P env" and c: "P c"
  shows "ensures (base_sendData env b c) (\<lambda>(b, c). P c)"
  using c unfolding base_sendData_def by (auto simp: Let_def intro!: keeps_sendData[OF env])

lemma keeps_base_established:
  assumes env: "env_keeps P env" and c: "P c"
  shows "ensures (base_established env b c) P"
proof -
  have "P (seta (\<lambda>a. a\<lparr>ta_snd_cwnd := n\<rparr>) c)" for n by (rule alg[OF c]) (simp add: timers_ok_def)
  then show ?thesis
    unfolding base_established_def by (auto simp: Let_def intro!: keep_bind2 keeps_base_sendData[OF env] keeps_send(3)[OF env])
qed

text \<open>The persist factor is doubled until it is 64.\<close>

lemma persist_factor_next:
  assumes "f = 0 \<or> f \<in> persist_factors"
  shows "(if f = 0 then 1 else if f < 64 then f * 2 else f) \<in> persist_factors"
  using assms by (auto simp: persist_factors_def)

lemma keeps_persist_timer:
  assumes env: "env_keeps P env" and c: "P c"
  shows "ensures (base_processPersistTimer env c) P"
proof -
  let ?f = "ta_persist_factor (tc_alg c)"
  let ?g = "if ?f = 0 then 1 else if ?f < 64 then ?f * 2 else ?f"
  have 1: "P (seta (\<lambda>a. a\<lparr>ta_persist_factor := ?g, ta_persist_timeout := uint ?g * 3 * simtime_s div 2\<rparr>) c)"
  proof (rule alg[OF c])
    assume a: "timers_ok (tc_alg c)"
    then have "?f = 0 \<or> ?f \<in> persist_factors" by (simp add: timers_ok_def)
    from timers_ok_persist[OF a persist_factor_next[OF this]]
    show "timers_ok ((tc_alg c)\<lparr>ta_persist_factor := ?g, ta_persist_timeout := uint ?g * 3 * simtime_s div 2\<rparr>)" .
  qed
  have 2: "P (seta (\<lambda>a. a\<lparr>ta_rexmit_timeout := MIN_PERSIST_TIMEOUT\<rparr>) d)"
    "P (seta (\<lambda>a. a\<lparr>ta_rexmit_timeout := MAX_PERSIST_TIMEOUT\<rparr>) d)" if "P d" for d
    by (rule alg[OF that],
        simp add: timers_ok_def MIN_PERSIST_TIMEOUT_def MAX_PERSIST_TIMEOUT_def MIN_REXMIT_TIMEOUT_def MAX_REXMIT_TIMEOUT_def simtime_s_def)+
  show ?thesis
    unfolding base_processPersistTimer_def
  proof (intro ensures_Let keep_bind keeps_quietly keeps_sendProbe[OF env], goal_cases)
    case (1 f g t c1 c2 c3)
    have "P c1" unfolding 1 using \<open>P (seta (\<lambda>a. a\<lparr>ta_persist_factor := ?g, ta_persist_timeout := uint ?g * 3 * simtime_s div 2\<rparr>) c)\<close> .
    then have "P c2" unfolding \<open>c2 = _\<close> using 2(1)[of c1] by (simp only: split: if_split) blast
    then have "P c3" unfolding \<open>c3 = _\<close> using 2(2)[of c2] by (simp only: split: if_split) blast
    then show ?case by (rule keeps_alg_timers(2))
  qed assumption
qed

lemma keeps_receiving:
  assumes env: "env_keeps P env" and c: "P c"
  shows "ensures (base_receivedOutOfOrderSegment env c) P" "ensures (base_processDelayedAckTimer env c) P"
    "ensures (base_receiveSeqChanged env c) P" "ensures (base_receivedDuplicateAck env c) P"
  using c
  by (auto simp: base_receivedOutOfOrderSegment_def base_processDelayedAckTimer_def base_receiveSeqChanged_def
      base_receivedDuplicateAck_def Let_def intro!: keeps_send(3)[OF env] keeps_alg_timers(3) keeps_sendOneNewSegment[OF env])

lemma keeps_base_receivedDataAck:
  assumes "P c"
  shows "ensures (base_receivedDataAck env c) P"
proof -
  have "P (rtt_on_ack env c)"
    using assms by (auto simp: rtt_on_ack_def timers_ok_def intro!: alg keeps_rtt)
  then show ?thesis
    unfolding base_receivedDataAck_def rexmit_on_ack_def persist_on_ack_def
    by (auto intro!: keep_bind keeps_startRexmitTimer keeps_alg_timers)
qed

section \<open>The flavours\<close>

lemma keeps_grow_cwnd: "P c \<Longrightarrow> ensures (grow_cwnd c) P"
  by (simp add: grow_cwnd_def Let_def)

lemma keeps_slow_start:
  assumes env: "env_keeps P env" and c: "P c"
  shows "ensures (slow_start env c) P"
  using c by (auto simp: slow_start_def Let_def intro!: keeps_retransmitOneSegment[OF env])

lemma keeps_after_rexmit:
  assumes "P c" "\<And>c. P c \<Longrightarrow> ensures (f c) P"
  shows "ensures (after_rexmit f c) (\<lambda>(ev, c). P c)"
  unfolding after_rexmit_def
  by (rule keep_bind2[OF keeps_rexmit_timer[OF assms(1)]]) (auto intro!: keep_bind assms(2))

lemma keeps_processRexmitTimer:
  assumes env: "env_keeps P env" and c: "P c" and "fl \<noteq> Dumb"
  shows "ensures (flavour_processRexmitTimer fl env c) (\<lambda>(ev, c). P c)"
proof -
  have "P (seta (\<lambda>a. a\<lparr>ta_recover := n, ta_lossRecovery := False, ta_firstPartialACK := False\<rparr>) d)" if "P d" for d n
    by (rule alg[OF that]) (simp add: timers_ok_def)
  then show ?thesis
    using assms(3) unfolding flavour_processRexmitTimer_def nocc_processRexmitTimer_def tahoe_processRexmitTimer_def
      reno_processRexmitTimer_def newreno_processRexmitTimer_def
    by (cases fl) (auto intro!: keeps_after_rexmit c keeps_slow_start[OF env] keeps_retransmitOneSegment[OF env])
qed

lemma keeps_recovery_room:
  assumes env: "env_keeps P env" and c: "P c"
  shows "ensures (recovery_room env c) P"
  using c by (auto simp: recovery_room_def intro!: keeps_recovery[OF env])

lemma keeps_reno_parts:
  assumes env: "env_keeps P env" and c: "P c"
  shows "ensures (reno_recovery_on_ack env c) P" "P (reno_enter_recovery c)" "ensures (reno_fast_retransmit env c) P"
proof -
  have e: "P (reno_enter_recovery d)" if "P d" for d
    using that by (auto simp: reno_enter_recovery_def timers_ok_def intro!: alg)
  show "P (reno_enter_recovery c)" by (rule e[OF c])
  show "ensures (reno_recovery_on_ack env c) P"
    using c unfolding reno_recovery_on_ack_def
    by (auto simp: timers_ok_def intro!: alg keep_bind keeps_setPipe keeps_recovery_room[OF env])
  show "ensures (reno_fast_retransmit env c) P"
    using e[OF c] unfolding reno_fast_retransmit_def
    by (auto intro!: ensures_Let keep_bind keeps_retransmitOneSegment[OF env] keeps_setPipe keeps_env(1)[OF env]
        keeps_recovery_room[OF env] keeps_quietly keeps_base_sendData[OF env])
qed

lemma keeps_newreno_parts:
  assumes env: "env_keeps P env" and c: "P c"
  shows "P (newreno_full_ack c)" "ensures (newreno_partial_ack env n c) P"
proof -
  show "P (newreno_full_ack c)" using c by (auto simp: newreno_full_ack_def timers_ok_def Let_def intro!: alg)
  have f: "P (seta (\<lambda>a. a\<lparr>ta_firstPartialACK := True\<rparr>) d)" if "P d" for d
    by (rule alg[OF that]) (simp add: timers_ok_def)
  show "ensures (newreno_partial_ack env n c) P"
    using c unfolding newreno_partial_ack_def
    by (auto intro!: ensures_Let keep_bind keeps_retransmitOneSegment[OF env] keeps_quietly keeps_base_sendData[OF env]
        keeps_env(1)[OF env] f)
qed

lemma keeps_receivedDataAck:
  assumes env: "env_keeps P env" and c: "P c"
  shows "ensures (flavour_receivedDataAck fl env n c) P"
proof -
  have r: "P (seta (\<lambda>a. a\<lparr>ta_recover := m\<rparr>) d)" if "P d" for d m
    by (rule alg[OF that]) (simp add: timers_ok_def)
  show ?thesis
    using c unfolding flavour_receivedDataAck_def nocc_receivedDataAck_def tahoe_receivedDataAck_def reno_receivedDataAck_def
      newreno_receivedDataAck_def
    by (cases fl) (auto intro!: keep_bind keeps_base_receivedDataAck keeps_quietly keeps_base_sendData[OF env] keeps_sendData[OF env]
        keeps_grow_cwnd keeps_reno_parts[OF env] keeps_newreno_parts[OF env] r)
qed

lemma keeps_receivedDuplicateAck:
  assumes env: "env_keeps P env" and c: "P c"
  shows "ensures (flavour_receivedDuplicateAck fl env c) P"
proof -
  have r: "P (seta (\<lambda>a. a\<lparr>ta_recover := m, ta_firstPartialACK := False, ta_lossRecovery := True\<rparr>) d)" if "P d" for d m
    by (rule alg[OF that]) (simp add: timers_ok_def)
  show ?thesis
    using c unfolding flavour_receivedDuplicateAck_def tahoe_receivedDuplicateAck_def reno_receivedDuplicateAck_def
      newreno_receivedDuplicateAck_def Let_def
    by (cases fl) (auto intro!: keep_bind keeps_receiving(4)[OF env] keeps_quietly keeps_base_sendData[OF env]
        keeps_retransmitOneSegment[OF env] keeps_reno_parts[OF env] keeps_cwnd(1,3) r)
qed

lemma keeps_dumb:
  assumes env: "env_keeps P env" and c: "P c"
  shows "ensures (dumb_established env b c) P" "ensures (dumb_processTimer env t c) (\<lambda>(ev, c). P c)"
  using c by (auto simp: dumb_established_def dumb_processTimer_def intro!: keep_bind keep_bind2 keeps_sendData[OF env]
      keeps_send(3)[OF env] keeps_retransmitData[OF env] keeps_alg_timers(1))

lemma keeps_initialize: "P c \<Longrightarrow> P (flavour_initialize fl c)"
proof -
  assume c: "P c"
  have "P (seta (\<lambda>_. tcp_alg_new) c)"
    by (rule alg[OF c]) (simp add: timers_ok_def tcp_alg_new_def MIN_REXMIT_TIMEOUT_def MAX_REXMIT_TIMEOUT_def simtime_s_def)
  moreover have "c\<lparr>tc_alg := tcp_alg_new\<rparr> = seta (\<lambda>_. tcp_alg_new) c" by (simp add: seta_def)
  ultimately show ?thesis by (simp add: flavour_initialize_def nocc_initialize_def Let_def)
qed

lemma keeps_rttTS: "P c \<Longrightarrow> ensures (rttMeasurementCompleteUsingTS env n c) P"
  by (auto simp: rttMeasurementCompleteUsingTS_def intro!: skip_unit keeps_rtt)

lemma keeps_flavour_call:
  assumes c: "P c"
  shows "ensures (flavour_call fl env call c) P"
  unfolding flavour_call_def Let_def
  by (cases call) (simp_all add: c keeps_initialize keeps_dumb[OF keeps_leaf] keeps_base_established[OF keeps_leaf]
      keeps_alg_timers keeps_receivedDataAck[OF keeps_leaf] keeps_receivedDuplicateAck[OF keeps_leaf] keeps_send(3)[OF keeps_leaf]
      keeps_receiving[OF keeps_leaf] keeps_rttTS keeps_quietly keeps_sendData[OF keeps_leaf] keeps_base_sendData[OF keeps_leaf]
      keeps_readHeaderOptions keeps_env(1)[OF keeps_leaf])

lemma keeps_flavour_timer:
  assumes "P c"
  shows "ensures (flavour_processTimer fl env t c) (\<lambda>(ev, c). P c)"
proof -
  have c: "P (clear_timer t c)" for t by (rule keeps_alg_timers(8)[OF assms])
  show ?thesis
    unfolding flavour_processTimer_def Let_def
    using keeps_dumb(2)[OF keeps_leaf c] keeps_processRexmitTimer[OF keeps_leaf c]
    by (auto intro!: keep_bind keeps_persist_timer[OF keeps_leaf c] keeps_receiving(2)[OF keeps_leaf c] c split: alg_timer.split)
qed

lemma alg_env_keeps: "env_keeps P (alg_env fl env)"
  by (auto simp: env_keeps_def alg_env_def keeps_flavour_call keeps_flavour_timer keeps_writeHeaderOptions)

end

text \<open>A predicate that does not depend on the state of the connection is kept by all events.\<close>

locale event_property = alg_property +
  assumes stateless: "P (c\<lparr>tc_state := st\<rparr>) = P c"
begin

lemma keeps_transition:
  assumes env: "env_keeps P env" and c: "P c"
  shows "ensures (performStateTransition env ev c) (\<lambda>(alive, c). P c)"
  using c unfolding performStateTransition_def
  by (auto simp: stateless intro!: skip_unit ensures_Let keep_bind keeps_state_entered[OF env])

lemma keeps_step:
  assumes env: "env_keeps P env" and step: "conn_step env c c'" and c: "P c"
  shows "P c'"
proof -
  have now: "P (c\<lparr>tc_now := n\<rparr>)" for n using c by simp
  have seg: "ensures (processTCPSegment env s d) (\<lambda>(alive, c). P c)" if "P d" for s d
    unfolding processTCPSegment_def by (rule keep_bind2[OF keeps_rcv_segment[OF env that]]) (simp add: keeps_transition[OF env])
  have cmd: "ensures (processAppCommand env cmd d) (\<lambda>(alive, c). P c)" if "P d" for cmd d
    unfolding processAppCommand_def Let_def
    by (rule keep_bind2, cases cmd) (auto intro!: keep_bind keeps_commands[OF env] keeps_transition[OF env] that)
  have tim: "ensures (processTimer env t d) (\<lambda>(alive, c). P c)" if "P d" for t d
    unfolding processTimer_def
    by (rule keep_bind2, cases t) (auto intro!: keep_bind keeps_timeouts[OF env] keeps_env(3)[OF env] keeps_transition[OF env] that)
  show ?thesis
    using step
  proof cases
    case (segment s n alive)
    then show ?thesis using ensuresD[OF seg[OF now] segment] by simp
  next
    case (command cmd n alive)
    then show ?thesis using ensuresD[OF cmd[OF now] command] by simp
  next
    case (timer t n alive)
    then show ?thesis using ensuresD[OF tim[OF now] timer] by simp
  qed
qed

lemma keeps_run:
  assumes "conn_run (alg_env fl env) c n c'" "P c"
  shows "P c'"
  using assms by (induction rule: conn_run.induct) (auto intro: keeps_step[OF alg_env_keeps])

end

section \<open>The state and the timeouts\<close>

interpretation al: alg_property "\<lambda>c. tc_state c = S" for S
  by unfold_locales (simp_all add: seta_def)

interpretation tm: event_property "\<lambda>c. timers_ok (tc_alg c)"
  by unfold_locales (simp_all add: seta_def)

lemma alg_env_keeps_state: "keeps_state (alg_env fl env)"
  by (simp add: keeps_state_def al.alg_env_keeps)

text \<open>
  C3: A connection that has been established never goes back to its setup, and changes its state at
  most four more times, with every flavour of the congestion control.  For every run of segments,
  application commands and timers, handled without an error from a state other than \<open>INIT\<close>, \<open>LISTEN\<close>,
  \<open>SYN_SENT\<close> and \<open>SYN_RCVD\<close>: the state at the end is again none of these, its place in the order
  \<open>ESTABLISHED\<close>, \<open>CLOSE_WAIT\<close> and \<open>FIN_WAIT_1\<close>, \<open>LAST_ACK\<close>, \<open>FIN_WAIT_2\<close> and \<open>CLOSING\<close>, \<open>TIME_WAIT\<close>, \<open>CLOSED\<close> has
  grown by at least the number of state changes, and a closed connection handles no event at all.
\<close>

theorem connection_never_reopens:
  assumes "conn_run (alg_env fl env) c n c'"
    and "tc_state c \<notin> {TCP_S_INIT, TCP_S_LISTEN, TCP_S_SYN_SENT, TCP_S_SYN_RCVD}"
  shows "tc_state c' \<notin> {TCP_S_INIT, TCP_S_LISTEN, TCP_S_SYN_SENT, TCP_S_SYN_RCVD} \<and>
    fsm_rank (tc_state c) + n \<le> fsm_rank (tc_state c') \<and> n \<le> 4 \<and>
    (tc_state c' = TCP_S_CLOSED \<longrightarrow> (\<nexists>c''. conn_step (alg_env fl env) c' c''))"
  by (rule state_order[OF alg_env_keeps_state assms])

text \<open>A demo run: the connection is aborted.\<close>

lemmas abort_defs = processAppCommand_def process_ABORT_def demo_conn_def sendRst_def emit_def performStateTransition_def
  fsm_next_def stateEntered_def quiet_env_def cancel_opt_def alg_env_def flavour_call_def Let_def base_connectionClosed_def seta_def

definition demo_aborted :: tcp_conn where
  "demo_aborted = projr (bindE (processAppCommand (alg_env Reno quiet_env) Abort demo_conn) (\<lambda>(alive, c). Inr c))"

lemma demo_abort: "conn_step (alg_env Reno quiet_env) demo_conn demo_aborted"
  by (rule conn_step.command[where cmd = Abort and alive = False and now = 0]) (simp add: demo_aborted_def abort_defs)

lemma demo_abort_state: "tc_state demo_aborted = TCP_S_CLOSED" "tc_state demo_conn = TCP_S_ESTABLISHED"
  by (simp_all add: demo_aborted_def abort_defs)

lemma demo_abort_run: "conn_run (alg_env Reno quiet_env) demo_conn (Suc 0) demo_aborted"
  by (rule conn_run.change[OF conn_run.start demo_abort]) (simp add: demo_abort_state)

lemma connection_never_reopens_witness:
  "conn_run (alg_env Reno quiet_env) demo_conn 1 demo_aborted \<and> fsm_rank (tc_state demo_conn) + 1 \<le> fsm_rank (tc_state demo_aborted) \<and>
     (\<nexists>c''. conn_step (alg_env Reno quiet_env) demo_aborted c'')"
proof -
  have "tc_state demo_conn \<notin> {TCP_S_INIT, TCP_S_LISTEN, TCP_S_SYN_SENT, TCP_S_SYN_RCVD}" by (simp add: demo_abort_state)
  from connection_never_reopens[OF demo_abort_run this] demo_abort_state(1) demo_abort_run show ?thesis by simp
qed

text \<open>
  C4: The timeouts of a connection stay bounded in every run from a new connection, with every
  flavour: the retransmission timeout lies between one second and 240 seconds, whatever round trip
  times are measured and however often it is doubled, and the persist timeout, which the code means
  to bound to 5 to 60 seconds, lies between 1.5 and 96 seconds.
\<close>

theorem timeouts_stay_bounded:
  assumes "conn_run (alg_env fl env) c n c'" and "tc_alg c = tcp_alg_new"
  shows "MIN_REXMIT_TIMEOUT \<le> ta_rexmit_timeout (tc_alg c') \<and> ta_rexmit_timeout (tc_alg c') \<le> MAX_REXMIT_TIMEOUT \<and>
    0 \<le> ta_rexmit_count (tc_alg c') \<and>
    3 * simtime_s \<le> 2 * ta_persist_timeout (tc_alg c') \<and> ta_persist_timeout (tc_alg c') \<le> 96 * simtime_s"
proof -
  have "timers_ok (tc_alg c)"
    by (simp add: assms(2) timers_ok_def tcp_alg_new_def MIN_REXMIT_TIMEOUT_def MAX_REXMIT_TIMEOUT_def simtime_s_def)
  from tm.keeps_run[OF assms(1) this] show ?thesis
    by (auto simp: timers_ok_def persist_factors_def simtime_s_def)
qed

lemma timeouts_stay_bounded_witness:
  "conn_run (alg_env Reno quiet_env) demo_conn 1 demo_aborted \<and> ta_rexmit_timeout (tc_alg demo_aborted) \<le> 240 * simtime_s \<and>
     ta_persist_timeout (tc_alg demo_aborted) \<le> 96 * simtime_s"
proof -
  have "tc_alg demo_conn = tcp_alg_new" by (simp add: demo_conn_def)
  from timeouts_stay_bounded[OF demo_abort_run this] demo_abort_run show ?thesis by (simp add: MAX_REXMIT_TIMEOUT_def)
qed

end
