(* ===== verification/TcpPipe.thy ===== *)
theory TcpPipe
  imports TcpSackSpec TcpRecovery TcpText
begin

text \<open>
  The data in flight during loss recovery: \<open>setPipe\<close>, which walks the blocks of the retransmission queue,
  against the rule of RFC 3517, which counts octet by octet.
\<close>

section \<open>The rule of RFC 3517\<close>

text \<open>
  \<open>IsLost\<close>: above the octet, \<open>DUPTHRESH\<close> separate runs have been SACKed or \<open>DUPTHRESH\<close> full segments.
\<close>

definition rfc_lost :: "u32 \<Rightarrow> tcp_conn \<Rightarrow> nat \<Rightarrow> bool" where
  "rfc_lost w c x \<longleftrightarrow> (let S = sacked_set w (tc_rexmitQueue c) in
     3 \<le> card (run_starts S x) \<or> 3 * unat (tv_snd_mss (tc_vars c)) \<le> card (S \<inter> {x..}))"

text \<open>
  What an octet adds to the pipe: nothing when it is SACKed; else one when it is not lost, and one more
  when it was sent again, that is, lies below \<open>HighRxt\<close>.
\<close>

definition octet_in_flight :: "u32 \<Rightarrow> tcp_conn \<Rightarrow> nat \<Rightarrow> nat" where
  "octet_in_flight w c x =
     (if x \<in> sacked_set w (tc_rexmitQueue c) then 0
      else (if rfc_lost w c x then 0 else 1) +
           (if x < off w (xq_getHighestRexmittedSeqNum (tc_rexmitQueue c)) then 1 else 0))"

definition rfc_pipe :: "u32 \<Rightarrow> tcp_conn \<Rightarrow> nat" where
  "rfc_pipe w c = (\<Sum>x \<in> {off w (tv_snd_una (tc_vars c))..<off w (tv_snd_max (tc_vars c))}. octet_in_flight w c x)"

section \<open>Blocks\<close>

lemma chain_span_bit:
  assumes "chain w b rs e" "i \<in> set rs" "y \<in> rx_span w i"
  shows "y \<in> rx_set w P rs \<longleftrightarrow> P i"
proof -
  from split_list[OF assms(2)] obtain before rest where s: "rs = before @ i # rest" by blast
  with assms(1) have c: "chain w b before (rx_begin i)" "chain w (rx_end i) rest e" by (auto simp: chain_append)
  show ?thesis
    using chain_set[OF c(1), of P] chain_set[OF c(2), of P] assms(3) by (auto simp: s rx_span_def)
qed

text \<open>\<open>HighRxt\<close> does not lie inside of a region.\<close>

lemma high_rxt_boundary:
  assumes q: "xq_ok w q" and i: "i \<in> set (xq_regions q)" and y: "y \<in> rx_span w i"
  shows "y < off w (xq_getHighestRexmittedSeqNum q) \<longleftrightarrow> off w (rx_begin i) < off w (xq_getHighestRexmittedSeqNum q)"
proof -
  have c: "chain w (xq_begin q) (xq_regions q) (xq_end q)" and nb: "near w (xq_begin q)" using q by (auto simp: xq_ok_def)
  note h = xq_getHighestRexmittedSeqNum_ok[OF q]
  note reg = chain_region[OF c nb i]
  let ?R = "rexmitted_set w q"
  show ?thesis
  proof (cases "?R = {}")
    case True
    then show ?thesis using h y reg by (auto simp: rx_span_def)
  next
    case False
    have fin: "finite ?R" by (simp add: rexmitted_set_def)
    have m: "Max ?R \<in> ?R" using Max_in[OF fin False] .
    have "off w (rx_end i) \<le> Suc (Max ?R)" if "off w (rx_begin i) \<le> Max ?R"
    proof (rule ccontr)
      assume "\<not> ?thesis"
      then have "Max ?R \<in> rx_span w i" using that by (simp add: rx_span_def)
      from chain_span_bit[OF c i this, of rx_rexmitted] m have r: "rx_rexmitted i" by (simp add: rexmitted_set_def)
      have "off w (rx_end i) - 1 \<in> rx_span w i" using reg by (auto simp: rx_span_def)
      from chain_span_bit[OF c i this, of rx_rexmitted] r have "off w (rx_end i) - 1 \<in> ?R" by (simp add: rexmitted_set_def)
      from Max_ge[OF fin this] \<open>\<not> ?thesis\<close> show False by linarith
    qed
    then show ?thesis using h False y by (auto simp: rx_span_def)
  qed
qed

text \<open>Inside of a block that is not SACKed nothing above changes.\<close>

lemma lost_in_block:
  assumes "\<forall>y \<in> {x..z}. y \<notin> sacked_set w (tc_rexmitQueue c)" "x \<le> z"
  shows "rfc_lost w c z = rfc_lost w c x"
proof -
  let ?S = "sacked_set w (tc_rexmitQueue c)"
  have a: "?S \<inter> {z..} = ?S \<inter> {x..}" using assms by (auto simp: not_le[symmetric])
  have ge: "z \<le> n" if "n \<in> ?S" "x \<le> n" for n using assms(1) that by (meson atLeastAtMost_iff nat_le_linear)
  have zS: "z \<notin> ?S" "x \<notin> ?S" using assms by auto
  have b: "run_starts ?S z = run_starts ?S x"
    unfolding run_starts_def using ge zS assms(2) by (auto simp: le_less_trans dest: order.trans)
  show ?thesis unfolding rfc_lost_def Let_def a b by (rule refl)
qed

lemma isLost_ok:
  assumes q: "xq_ok w (tc_rexmitQueue c)" and sack: "tv_sack_enabled (tc_vars c)" and n: "near w x" "near w (tv_snd_una (tc_vars c))"
    and x: "off w (xq_begin (tc_rexmitQueue c)) \<le> off w x" "off w x \<le> off w (xq_end (tc_rexmitQueue c))"
      "off w (tv_snd_una (tc_vars c)) \<le> off w x"
    and mss: "3 * unat (tv_snd_mss (tc_vars c)) < 4294967296"
  shows "isLost x c = Inr (rfc_lost w c (off w x))"
proof -
  let ?q = "tc_rexmitQueue c" and ?S = "sacked_set w (tc_rexmitQueue c)" and ?mss = "tv_snd_mss (tc_vars c)"
  have c: "chain w (xq_begin ?q) (xq_regions ?q) (xq_end ?q)" using q by (simp add: xq_ok_def)
  have sub: "?S \<subseteq> {off w (xq_begin ?q)..<off w (xq_end ?q)}" using chain_set[OF c] by (simp add: sacked_set_def)
  have "card T < 4294967296" if "T \<subseteq> ?S" for T
  proof -
    have "T \<subseteq> {..<off w (xq_end ?q)}" using that sub by auto
    from card_mono[OF _ this] have "card T \<le> off w (xq_end ?q)" by simp
    then show ?thesis using off_less[of w "xq_end ?q"] by linarith
  qed
  then have k: "card (run_starts ?S (off w x)) < 4294967296" "card (?S \<inter> {off w x..}) < 4294967296"
    by (auto simp: run_starts_def)
  have u: "unat (of_nat (card (run_starts ?S (off w x))) :: u32) = card (run_starts ?S (off w x))"
    "unat (of_nat (card (?S \<inter> {off w x..})) :: u32) = card (?S \<inter> {off w x..})"
    using k by (simp_all add: unsigned_of_nat take_bit_nat_eq_self)
  have "unat (DUPTHRESH * ?mss) = 3 * unat ?mss"
    using mss by (simp add: DUPTHRESH_def unat_word_ariths(2))
  then have d: "DUPTHRESH \<le> of_nat (card (run_starts ?S (off w x))) \<longleftrightarrow> 3 \<le> card (run_starts ?S (off w x))"
    "DUPTHRESH * ?mss \<le> of_nat (card (?S \<inter> {off w x..})) \<longleftrightarrow> 3 * unat ?mss \<le> card (?S \<inter> {off w x..})"
    using u by (simp_all add: word_le_nat_alt DUPTHRESH_def)
  have "seqGE x (tv_snd_una (tc_vars c))" using seq_near(4)[OF n] x(3) by simp
  then show ?thesis
    using sack xq_getNumOfDiscontiguousSacks_ok[OF q n(1) x(1,2)] xq_getAmountOfSackedBytes_ok[OF q n(1) x(1,2)] d
    by (simp add: isLost_def rfc_lost_def Let_def)
qed

section \<open>The loop\<close>

lemma pipe_loop_run:
  assumes q: "xq_ok w (tc_rexmitQueue c)" and sack: "tv_sack_enabled (tc_vars c)" and mss: "3 * unat (tv_snd_mss (tc_vars c)) < 4294967296"
    and hi: "ta_highRxt (tc_alg c) = xq_getHighestRexmittedSeqNum (tc_rexmitQueue c)"
    and mx: "near w (tv_snd_max (tc_vars c))" "off w (xq_end (tc_rexmitQueue c)) \<le> off w (tv_snd_max (tc_vars c))"
    and s1: "near w s1" "off w (xq_begin (tc_rexmitQueue c)) \<le> off w s1" "off w s1 \<le> off w (xq_end (tc_rexmitQueue c))"
      "off w (tv_snd_una (tc_vars c)) \<le> off w s1"
  shows "pipe_loop c s1 p = pipe_loop c (xq_end (tc_rexmitQueue c))
    (p + of_nat (\<Sum>x \<in> {off w s1..<off w (xq_end (tc_rexmitQueue c))}. octet_in_flight w c x))"
  using s1
proof (induction "off w (xq_end (tc_rexmitQueue c)) - off w s1" arbitrary: s1 p rule: less_induct)
  case less
  let ?q = "tc_rexmitQueue c" and ?S = "sacked_set w (tc_rexmitQueue c)"
  let ?e = "xq_end ?q"
  have chn: "chain w (xq_begin ?q) (xq_regions ?q) ?e" and nb: "near w (xq_begin ?q)" using q by (auto simp: xq_ok_def)
  have ne: "near w ?e" using xq_ok_near[OF q] by simp
  have nu: "near w (tv_snd_una (tc_vars c))" using less.prems(1,4) by (simp add: near_def)
  show ?case
  proof (cases "off w s1 < off w ?e")
    case False
    then have "s1 = ?e" using less.prems(3) off_inj[of w s1 ?e] by simp
    then show ?thesis by simp
  next
    case True
    from rx_region_at_ok[OF q less.prems(1,2) True] obtain i where
      i: "rx_region_at s1 ?q = Inr i" "i \<in> set (xq_regions ?q)" "off w s1 \<in> rx_span w i" "near w (rx_end i)" by blast
    have ie: "off w (rx_begin i) \<le> off w s1" "off w s1 < off w (rx_end i)" using i(3) by (simp_all add: rx_span_def)
    have ele: "off w (rx_end i) \<le> off w ?e" using chain_region[OF chn nb i(2)] by simp
    let ?len = "rx_end i - s1"
    have len: "unat ?len = off w (rx_end i) - off w s1" by (rule unat_diff_near) (use ie in simp)
    have next1: "s1 + ?len = rx_end i" by simp
    have blk: "xq_checkSackBlock s1 ?q = Inr (?len, rx_sacked i, rx_rexmitted i)"
      using i(1) less.prems(2) True seq_near(2)[OF nb less.prems(1)] seq_near(1)[OF less.prems(1) ne]
      by (simp add: xq_checkSackBlock_def)
    have lt: "seqLess s1 (tv_snd_max (tc_vars c))" using seq_near(1)[OF less.prems(1) mx(1)] True mx(2) by simp
    have inS: "y \<in> ?S \<longleftrightarrow> rx_sacked i" if "y \<in> {off w s1..<off w (rx_end i)}" for y
      using chain_span_bit[OF chn i(2), of y rx_sacked] that ie(1) by (simp add: sacked_set_def rx_span_def)
    have hiy: "y < off w (ta_highRxt (tc_alg c)) \<longleftrightarrow> off w (rx_begin i) < off w (ta_highRxt (tc_alg c))"
      if "y \<in> {off w s1..<off w (rx_end i)}" for y
      unfolding hi by (rule high_rxt_boundary[OF q i(2)]) (use that ie(1) in \<open>simp add: rx_span_def\<close>)
    have sum: "(\<Sum>x \<in> {off w s1..<off w ?e}. octet_in_flight w c x) =
        (\<Sum>x \<in> {off w s1..<off w (rx_end i)}. octet_in_flight w c x) + (\<Sum>x \<in> {off w (rx_end i)..<off w ?e}. octet_in_flight w c x)"
      using sum.atLeastLessThan_concat[of "off w s1" "off w (rx_end i)" "off w ?e" "octet_in_flight w c"] ie(2) ele by simp
    have p: "near w (rx_end i)" "off w (xq_begin ?q) \<le> off w (rx_end i)" "off w (rx_end i) \<le> off w ?e"
      "off w (tv_snd_una (tc_vars c)) \<le> off w (rx_end i)"
      using i(4) less.prems(2,4) ie(2) ele by simp_all
    have sm: "off w ?e - off w (rx_end i) < off w ?e - off w s1" using ie(2) ele by linarith
    note IH = less.hyps[OF sm p]
    show ?thesis
    proof (cases "rx_sacked i")
      case True
      have "(\<Sum>x \<in> {off w s1..<off w (rx_end i)}. octet_in_flight w c x) = 0"
        using inS True by (intro sum.neutral) (simp add: octet_in_flight_def)
      then show ?thesis using True lt blk IH sum by (subst pipe_loop.simps) simp
    next
      case False
      have los: "isLost s1 c = Inr (rfc_lost w c (off w s1))"
        by (rule isLost_ok[OF q sack less.prems(1) nu less.prems(2,3,4) mss])
      let ?k = "(if rfc_lost w c (off w s1) then 0 else 1) + (if off w s1 < off w (ta_highRxt (tc_alg c)) then 1 else 0 :: nat)"
      have one: "octet_in_flight w c y = ?k" if "y \<in> {off w s1..<off w (rx_end i)}" for y
      proof -
        have "\<forall>z \<in> {off w s1..y}. z \<notin> ?S" using inS False that by auto
        then have "rfc_lost w c y = rfc_lost w c (off w s1)" by (rule lost_in_block) (use that in simp)
        moreover have "off w s1 \<in> {off w s1..<off w (rx_end i)}" using ie(2) by simp
        ultimately show ?thesis using hiy[OF that] hiy[of "off w s1"] inS[OF that] False
          unfolding octet_in_flight_def hi[symmetric] by simp
      qed
      have "(\<Sum>x \<in> {off w s1..<off w (rx_end i)}. octet_in_flight w c x) = unat ?len * ?k"
        using one by (simp add: len)
      then have s2: "of_nat (\<Sum>x \<in> {off w s1..<off w (rx_end i)}. octet_in_flight w c x) = ?len * of_nat ?k"
        by simp
      have nh: "near w (ta_highRxt (tc_alg c))" unfolding hi
      proof -
        have "off w (xq_getHighestRexmittedSeqNum ?q) \<le> off w ?e"
        proof (cases "rexmitted_set w ?q = {}")
          case True
          then show ?thesis using xq_getHighestRexmittedSeqNum_ok[OF q] xq_ok_near[OF q] by simp
        next
          case False
          have "Max (rexmitted_set w ?q) \<in> rexmitted_set w ?q" by (rule Max_in[OF _ False]) (simp add: rexmitted_set_def)
          then have "Max (rexmitted_set w ?q) < off w ?e" using chain_set[OF chn, of rx_rexmitted] by (auto simp: rexmitted_set_def)
          then show ?thesis using xq_getHighestRexmittedSeqNum_ok[OF q] False by simp
        qed
        then show "near w (xq_getHighestRexmittedSeqNum ?q)" using ne by (simp add: near_def)
      qed
      have hl: "seqLess s1 (ta_highRxt (tc_alg c)) \<longleftrightarrow> off w s1 < off w (ta_highRxt (tc_alg c))" by (rule seq_near(1)[OF less.prems(1) nh])
      have step: "pipe_loop c s1 p = pipe_loop c (rx_end i) (p + (if rfc_lost w c (off w s1) then 0 else ?len) + (if seqLess s1 (ta_highRxt (tc_alg c)) then ?len else 0))"
        using False lt blk los by (subst pipe_loop.simps) simp
      have "p + (if rfc_lost w c (off w s1) then 0 else ?len) + (if seqLess s1 (ta_highRxt (tc_alg c)) then ?len else 0) = p + ?len * of_nat ?k"
        using hl by (simp add: algebra_simps)
      then show ?thesis unfolding step using IH s2 sum by (simp add: add.assoc)
    qed
  qed
qed

section \<open>What setPipe computes\<close>

definition pipe_start :: "tcp_conn \<Rightarrow> tcp_conn" where
  "pipe_start c = seta (\<lambda>a. a\<lparr>ta_highRxt := xq_getHighestRexmittedSeqNum (tc_rexmitQueue c), ta_pipe := 0\<rparr>) c"

lemma pipe_start_simps [simp]:
  "tc_vars (pipe_start c) = tc_vars c" "tc_rexmitQueue (pipe_start c) = tc_rexmitQueue c"
  "ta_highRxt (tc_alg (pipe_start c)) = xq_getHighestRexmittedSeqNum (tc_rexmitQueue c)"
  "octet_in_flight w (pipe_start c) = octet_in_flight w c"
  by (simp_all add: pipe_start_def octet_in_flight_def rfc_lost_def seta_def fun_eq_iff)

lemma setPipe_start:
  "tv_sack_enabled (tc_vars c) \<Longrightarrow>
     setPipe c = bindE (returns (pipe_loop (pipe_start c) (tv_snd_una (tc_vars c)) 0)) (\<lambda>pipe. Inr (seta (\<lambda>a. a\<lparr>ta_pipe := pipe\<rparr>) (pipe_start c)))"
  by (simp add: setPipe_def pipe_start_def Let_def seta_def)

text \<open>The walk up to the end of the retransmission queue.\<close>

lemma setPipe_walk:
  assumes q: "xq_ok w (tc_rexmitQueue c)" and sack: "tv_sack_enabled (tc_vars c)"
    and mss: "3 * unat (tv_snd_mss (tc_vars c)) < 4294967296"
    and mx: "near w (tv_snd_max (tc_vars c))" "off w (xq_end (tc_rexmitQueue c)) \<le> off w (tv_snd_max (tc_vars c))"
    and una: "off w (xq_begin (tc_rexmitQueue c)) \<le> off w (tv_snd_una (tc_vars c))"
      "off w (tv_snd_una (tc_vars c)) \<le> off w (xq_end (tc_rexmitQueue c))"
  shows "pipe_loop (pipe_start c) (tv_snd_una (tc_vars c)) 0 = pipe_loop (pipe_start c) (xq_end (tc_rexmitQueue c))
    (of_nat (\<Sum>x \<in> {off w (tv_snd_una (tc_vars c))..<off w (xq_end (tc_rexmitQueue c))}. octet_in_flight w c x))"
proof -
  have "near w (tv_snd_una (tc_vars c))" using xq_ok_near[OF q] una(2) by (auto simp: near_def)
  then show ?thesis
    using pipe_loop_run[of w "pipe_start c" "tv_snd_una (tc_vars c)" 0] q sack mss mx una by simp
qed

text \<open>
  C8: The data in flight.  When the retransmission queue holds the data up to \<open>snd_max\<close>, \<open>setPipe\<close>
  sets \<open>pipe\<close> to the count of RFC 3517, octet by octet: one for every octet that is not SACKed and
  not lost, and one for every octet that is not SACKed and lies below \<open>HighRxt\<close>, the mark up to which
  the data was sent again.  The walk over the blocks
  returns, and no assertion of the queue fails on the way.
\<close>

theorem setPipe_is_rfc3517:
  assumes "xq_ok w (tc_rexmitQueue c)" "tv_sack_enabled (tc_vars c)" "3 * unat (tv_snd_mss (tc_vars c)) < 4294967296"
    and "tv_snd_max (tc_vars c) = xq_end (tc_rexmitQueue c)"
    and "off w (xq_begin (tc_rexmitQueue c)) \<le> off w (tv_snd_una (tc_vars c))"
      "off w (tv_snd_una (tc_vars c)) \<le> off w (tv_snd_max (tc_vars c))"
  shows "setPipe c = Inr (seta (\<lambda>a. a\<lparr>ta_highRxt := xq_getHighestRexmittedSeqNum (tc_rexmitQueue c),
    ta_pipe := of_nat (rfc_pipe w c)\<rparr>) c)"
proof -
  have n: "near w (tv_snd_max (tc_vars c))" using xq_ok_near[OF assms(1)] assms(4) by simp
  have "pipe_loop (pipe_start c) (tv_snd_una (tc_vars c)) 0 = pipe_loop (pipe_start c) (xq_end (tc_rexmitQueue c)) (of_nat (rfc_pipe w c))"
    unfolding rfc_pipe_def assms(4)
    by (rule setPipe_walk) (use assms n in simp_all)
  also have "\<dots> = Some (Inr (of_nat (rfc_pipe w c)))"
    using seq_near(1)[OF n n] assms(4) by (subst pipe_loop.simps) simp
  finally show ?thesis using assms(2) by (simp add: setPipe_start returns_def) (simp add: pipe_start_def seta_def)
qed

definition demo_recovery :: tcp_conn where
  "demo_recovery = setv (\<lambda>v. v\<lparr>tv_sack_enabled := True, tv_snd_una := 100, tv_snd_nxt := 155, tv_snd_max := 155, tv_snd_mss := 4\<rparr>)
     (demo_conn\<lparr>tc_rexmitQueue := demo_rexmit_queue\<rparr>)"

lemma demo_recovery_offs: "off 100 100 = 0" "off 100 120 = 20" "off 100 130 = 30" "off 100 150 = 50" "off 100 155 = 55"
  "off 100 156 = 56"
  by (simp_all add: off_def)

lemma demo_recovery_fields:
  "tc_rexmitQueue demo_recovery = demo_rexmit_queue" "tv_sack_enabled (tc_vars demo_recovery)" "tv_snd_mss (tc_vars demo_recovery) = 4"
  "tv_snd_max (tc_vars demo_recovery) = 155" "tv_snd_una (tc_vars demo_recovery) = 100"
  "xq_ok 100 demo_rexmit_queue" "xq_end demo_rexmit_queue = 155" "xq_begin demo_rexmit_queue = 100"
  by (simp_all add: demo_recovery_def demo_conn_def xq_ok_def demo_rexmit_queue_def demo_recovery_offs near_def)

lemma setPipe_is_rfc3517_witness:
  "\<exists>c'. setPipe demo_recovery = Inr c' \<and> ta_pipe (tc_alg c') = of_nat (rfc_pipe 100 demo_recovery)"
  using setPipe_is_rfc3517[of 100 demo_recovery] by (simp add: demo_recovery_fields demo_recovery_offs seta_def)

text \<open>
  Beyond the end of the queue the walk goes on while \<open>snd_max\<close> is not reached, and \<open>checkSackBlock\<close> fails
  its assertion.
\<close>

lemma setPipe_beyond_queue:
  assumes "xq_ok w (tc_rexmitQueue c)" "tv_sack_enabled (tc_vars c)" "3 * unat (tv_snd_mss (tc_vars c)) < 4294967296"
    and "near w (tv_snd_max (tc_vars c))" "off w (xq_end (tc_rexmitQueue c)) < off w (tv_snd_max (tc_vars c))"
    and "off w (xq_begin (tc_rexmitQueue c)) \<le> off w (tv_snd_una (tc_vars c))"
      "off w (tv_snd_una (tc_vars c)) \<le> off w (xq_end (tc_rexmitQueue c))"
  shows "setPipe c = Inl (RuntimeError ''ASSERT'')"
proof -
  have n: "near w (xq_end (tc_rexmitQueue c))" using xq_ok_near[OF assms(1)] by simp
  have walk: "pipe_loop (pipe_start c) (tv_snd_una (tc_vars c)) 0 = pipe_loop (pipe_start c) (xq_end (tc_rexmitQueue c))
    (of_nat (\<Sum>x \<in> {off w (tv_snd_una (tc_vars c))..<off w (xq_end (tc_rexmitQueue c))}. octet_in_flight w c x))"
    by (rule setPipe_walk) (use assms in simp_all)
  have "pipe_loop (pipe_start c) (xq_end (tc_rexmitQueue c)) p = Some (Inl (RuntimeError ''ASSERT''))" for p
    using seq_near(1)[OF n assms(4)] assms(5) seq_near(1)[OF n n]
    by (subst pipe_loop.simps) (simp add: xq_checkSackBlock_def assertE_def)
  then show ?thesis using assms(2) walk by (simp add: setPipe_start returns_def)
qed

end
