(* ===== verification/TcpAck.thy ===== *)
theory TcpAck
  imports TcpText
begin

text \<open>
  The acknowledgment field: the invariant of the sending half of a connection, under which the
  assertions of the send queue and of the retransmission queue cannot fail.
\<close>

text \<open>The FIN has been sent: the highest sequence number sent is the one after it.\<close>

definition fin_sent :: "tcp_vars \<Rightarrow> bool" where
  "fin_sent v \<longleftrightarrow> tv_send_fin v \<and> tv_snd_max v = tv_snd_fin_seq v + 1"

text \<open>
  \<open>snd_una \<le> snd_nxt \<le> snd_max\<close>; the send queue begins at \<open>snd_una\<close>, or one later while the SYN is not
  acknowledged, or one earlier when the FIN is; what has been sent is in the queue, except the FIN;
  with SACK the retransmission queue covers what has been sent.
\<close>

definition snd_ok :: "u32 \<Rightarrow> tcp_conn \<Rightarrow> bool" where
  "snd_ok w c \<longleftrightarrow> (let v = tc_vars c; sq = tc_sendQueue c; xq = tc_rexmitQueue c in
     near w (tv_snd_max v) \<and> near w (sq_end sq) \<and> Suc (off w (tv_snd_max v)) < 2147483648 \<and>
     off w (tv_snd_una v) \<le> off w (tv_snd_nxt v) \<and> off w (tv_snd_nxt v) \<le> off w (tv_snd_max v) \<and>
     off w (sq_begin sq) \<le> Suc (off w (tv_snd_una v)) \<and> off w (sq_begin sq) \<le> off w (sq_end sq) \<and>
     (\<not> tv_send_fin v \<longrightarrow> off w (tv_snd_max v) \<le> off w (sq_end sq)) \<and>
     (tv_send_fin v \<longrightarrow> off w (sq_begin sq) \<le> off w (tv_snd_fin_seq v) \<and> off w (tv_snd_fin_seq v) \<le> off w (sq_end sq) \<and>
        off w (tv_snd_max v) \<le> Suc (off w (tv_snd_fin_seq v))) \<and>
     (tv_sack_enabled v \<longrightarrow> xq_ok w xq \<and> xq_begin xq = sq_begin sq \<and>
        off w (tv_snd_max v) \<le> off w (xq_end xq) + (if fin_sent v then 1 else 0)))"

definition snd_view :: "tcp_conn \<Rightarrow> send_queue \<times> rexmit_queue \<times> u32 \<times> u32 \<times> u32 \<times> bool \<times> u32 \<times> bool" where
  "snd_view c = (tc_sendQueue c, tc_rexmitQueue c, tv_snd_una (tc_vars c), tv_snd_nxt (tc_vars c), tv_snd_max (tc_vars c),
     tv_send_fin (tc_vars c), tv_snd_fin_seq (tc_vars c), tv_sack_enabled (tc_vars c))"

lemma snd_ok_view: "snd_view c' = snd_view c \<Longrightarrow> snd_ok w c' = snd_ok w c"
  by (simp add: snd_view_def snd_ok_def fin_sent_def Let_def)

lemma snd_view_updateWndInfo [simp]: "snd_view (updateWndInfo s a c) = snd_view c"
  by (simp add: updateWndInfo_def snd_view_def Let_def)

lemma snd_view_dupacks [simp]: "snd_view (setv (\<lambda>v. v\<lparr>tv_dupacks := n v\<rparr>) c) = snd_view c"
  by (simp add: snd_view_def)

lemma sq_discardUpTo_ok:
  assumes "near w (sq_end q)" "off w (sq_begin q) \<le> off w x" "off w x \<le> off w (sq_end q)"
  shows "sq_discardUpTo x q = Inr (q\<lparr>sq_begin := x\<rparr>)"
proof -
  have n: "near w (sq_begin q)" "near w x" using assms by (simp_all add: near_def)
  show ?thesis using seq_near(2)[OF n] seq_near(2)[OF n(2) assms(1)] assms(2,3) by (simp add: sq_discardUpTo_def)
qed

lemma off_suc: "Suc (off w x) < 4294967296 \<Longrightarrow> off w (x + 1) = Suc (off w x)"
  using off_add[of w x 1] by simp

text \<open>An acknowledgment of new data: both queues are cut, and the invariant holds again.\<close>

lemma ack_advance:
  assumes ok: "snd_ok w c" and ack: "off w (tv_snd_una (tc_vars c)) < off w ack" "off w ack \<le> off w (tv_snd_max (tc_vars c))"
    and fa: "finAcked \<longleftrightarrow> tv_send_fin (tc_vars c) \<and> ack = tv_snd_fin_seq (tc_vars c) + 1"
    and d: "d = (if finAcked then ack - 1 else ack)"
  shows "\<exists>sq xq. sq_discardUpTo d (tc_sendQueue c) = Inr sq \<and> sq_begin sq = d \<and>
    (if tv_sack_enabled (tc_vars c) then xq_discardUpTo d (tc_rexmitQueue c) else Inr (tc_rexmitQueue c)) = Inr xq \<and>
    (\<forall>c'. snd_view c' = (sq, xq, ack, if seqLess (tv_snd_nxt (tc_vars c)) ack then ack else tv_snd_nxt (tc_vars c),
        tv_snd_max (tc_vars c), tv_send_fin (tc_vars c), tv_snd_fin_seq (tc_vars c), tv_sack_enabled (tc_vars c)) \<longrightarrow> snd_ok w c')"
proof -
  let ?v = "tc_vars c" and ?sq = "tc_sendQueue c" and ?xq = "tc_rexmitQueue c"
  have n: "near w (tv_snd_max ?v)" "near w (sq_end ?sq)" and lim: "Suc (off w (tv_snd_max ?v)) < 2147483648"
    and ord: "off w (tv_snd_una ?v) \<le> off w (tv_snd_nxt ?v)" "off w (tv_snd_nxt ?v) \<le> off w (tv_snd_max ?v)"
    and beg: "off w (sq_begin ?sq) \<le> Suc (off w (tv_snd_una ?v))" "off w (sq_begin ?sq) \<le> off w (sq_end ?sq)"
    and nofin: "\<not> tv_send_fin ?v \<longrightarrow> off w (tv_snd_max ?v) \<le> off w (sq_end ?sq)"
    and fin: "tv_send_fin ?v \<longrightarrow> off w (sq_begin ?sq) \<le> off w (tv_snd_fin_seq ?v) \<and>
        off w (tv_snd_fin_seq ?v) \<le> off w (sq_end ?sq) \<and> off w (tv_snd_max ?v) \<le> Suc (off w (tv_snd_fin_seq ?v))"
    and xq: "tv_sack_enabled ?v \<longrightarrow> xq_ok w ?xq \<and> xq_begin ?xq = sq_begin ?sq \<and>
        off w (tv_snd_max ?v) \<le> off w (xq_end ?xq) + (if fin_sent ?v then 1 else 0)"
    using ok unfolding snd_ok_def Let_def by blast+
  have fs: "tv_send_fin ?v \<Longrightarrow> off w (tv_snd_fin_seq ?v + 1) = Suc (off w (tv_snd_fin_seq ?v))"
    using fin n(2) by (intro off_suc) (simp add: near_def)
  text \<open>\<open>d\<close> is the sequence number after the acknowledged data, without the FIN.\<close>
  have dd: "off w d = (if finAcked then off w (tv_snd_fin_seq ?v) else off w ack)" using fa d by auto
  have noack: "tv_send_fin ?v \<Longrightarrow> \<not> finAcked \<Longrightarrow> off w ack \<le> off w (tv_snd_fin_seq ?v)"
  proof -
    assume a: "tv_send_fin ?v" "\<not> finAcked"
    then have "off w ack \<noteq> Suc (off w (tv_snd_fin_seq ?v))" using fa fs off_inj[of w ack "tv_snd_fin_seq ?v + 1"] by auto
    then show ?thesis using ack(2) fin a(1) by linarith
  qed
  have d1: "off w (sq_begin ?sq) \<le> off w d" using dd fin fa beg(1) ack(1) by (cases finAcked) auto
  have d2: "off w d \<le> off w (sq_end ?sq)"
  proof (cases finAcked)
    case True
    then show ?thesis using dd fin fa by simp
  next
    case False
    then show ?thesis using dd fin nofin noack ack(2) by (cases "tv_send_fin ?v") auto
  qed
  have nd: "near w d" using d2 n(2) by (simp add: near_def)
  have ackd: "off w ack \<le> Suc (off w d)" "off w d \<le> off w ack" using dd fs fa by (cases finAcked; auto)+
  have sq: "sq_discardUpTo d ?sq = Inr (?sq\<lparr>sq_begin := d\<rparr>)" by (rule sq_discardUpTo_ok[OF n(2) d1 d2])
  obtain xq' where xq': "(if tv_sack_enabled ?v then xq_discardUpTo d ?xq else Inr ?xq) = Inr xq'"
    and xok: "tv_sack_enabled ?v \<longrightarrow> xq_ok w xq' \<and> xq_begin xq' = d \<and> xq_end xq' = xq_end ?xq"
  proof (cases "tv_sack_enabled ?v")
    case True
    then have x: "xq_ok w ?xq" "xq_begin ?xq = sq_begin ?sq" "off w (tv_snd_max ?v) \<le> off w (xq_end ?xq) + (if fin_sent ?v then 1 else 0)"
      using xq by simp_all
    have "off w d \<le> off w (xq_end ?xq)"
    proof (cases "fin_sent ?v")
      case True
      then have sf: "tv_send_fin ?v" "off w (tv_snd_max ?v) = Suc (off w (tv_snd_fin_seq ?v))"
        using fs by (auto simp: fin_sent_def)
      then have "off w (tv_snd_fin_seq ?v) \<le> off w (xq_end ?xq)" using x(3) True by simp
      moreover have "off w d \<le> off w (tv_snd_fin_seq ?v)" using dd noack[OF sf(1)] by (cases finAcked) auto
      ultimately show ?thesis by linarith
    next
      case False
      then show ?thesis using x(3) ackd(2) ack(2) by simp
    qed
    from xq_discardUpTo_ok[OF x(1) nd _ this] d1 x(2) obtain y where
      "xq_discardUpTo d ?xq = Inr y" "xq_ok w y" "xq_begin y = d" "xq_end y = xq_end ?xq" by auto
    then show ?thesis using True by (intro that[of y]) simp_all
  qed (use that in simp)
  have na: "near w ack" using ack(2) n(1) by (simp add: near_def)
  have nn: "near w (tv_snd_nxt ?v)" using ord(2) n(1) by (simp add: near_def)
  have nxt: "off w ack \<le> off w (if seqLess (tv_snd_nxt ?v) ack then ack else tv_snd_nxt ?v) \<and>
      off w (if seqLess (tv_snd_nxt ?v) ack then ack else tv_snd_nxt ?v) \<le> off w (tv_snd_max ?v)"
    using seq_near(1)[OF nn na] ack(2) ord(2) by auto
  have inv: "snd_ok w c'" if view: "snd_view c' = (?sq\<lparr>sq_begin := d\<rparr>, xq', ack,
      if seqLess (tv_snd_nxt ?v) ack then ack else tv_snd_nxt ?v,
      tv_snd_max ?v, tv_send_fin ?v, tv_snd_fin_seq ?v, tv_sack_enabled ?v)" for c'
  proof -
    have e: "tc_sendQueue c' = ?sq\<lparr>sq_begin := d\<rparr>" "tc_rexmitQueue c' = xq'" "tv_snd_una (tc_vars c') = ack"
      "tv_snd_nxt (tc_vars c') = (if seqLess (tv_snd_nxt ?v) ack then ack else tv_snd_nxt ?v)"
      "tv_snd_max (tc_vars c') = tv_snd_max ?v" "tv_send_fin (tc_vars c') = tv_send_fin ?v"
      "tv_snd_fin_seq (tc_vars c') = tv_snd_fin_seq ?v" "tv_sack_enabled (tc_vars c') = tv_sack_enabled ?v"
      using view unfolding snd_view_def by blast+
    have fsent: "fin_sent (tc_vars c') = fin_sent ?v" by (simp add: fin_sent_def e)
    have dfin: "tv_send_fin ?v \<longrightarrow> off w d \<le> off w (tv_snd_fin_seq ?v)" using dd noack by (cases finAcked) auto
    show ?thesis
      unfolding snd_ok_def Let_def e fsent
      using n lim nxt ackd d2 nofin fin dfin xok xq by simp
  qed
  show ?thesis
    by (rule exI[of _ "?sq\<lparr>sq_begin := d\<rparr>"], rule exI[of _ xq'], intro conjI sq xq')
       (simp, use inv in blast)
qed

text \<open>The branch of \<open>processAckInEstabEtc\<close> for an acknowledgment of new data, in one formula.\<close>

lemma ack_in_window_run:
  assumes "\<not> seqGE (tv_snd_una (tc_vars c)) (tg_ack s)" "seqLE (tg_ack s) (tv_snd_max (tc_vars c))"
    and c1: "c1 = setv (\<lambda>v. v\<lparr>tv_snd_una := tg_ack s,
          tv_snd_nxt := if seqLess (tv_snd_nxt v) (tg_ack s) then tg_ack s else tv_snd_nxt v\<rparr>) c"
    and c2: "(if tv_ts_enabled (tc_vars c1)
          then bindE (getTSecr s) (\<lambda>tsecr. te_call env (RttMeasurementCompleteUsingTS tsecr) c1) else Inr c1) = Inr c2"
    and fa: "fa \<longleftrightarrow> tv_send_fin (tc_vars c2) \<and> tg_ack s = tv_snd_fin_seq (tc_vars c2) + 1"
    and una: "tv_snd_una (tc_vars c2) = tg_ack s"
    and c3: "c3 = (if fa then setv (\<lambda>v. v\<lparr>tv_fin_ack_rcvd := True\<rparr>) c2 else c2)"
    and sq: "sq_discardUpTo (if fa then tg_ack s - 1 else tg_ack s) (tc_sendQueue c3) = Inr sq"
    and xq: "(if tv_sack_enabled (tc_vars c2) then xq_discardUpTo (if fa then tg_ack s - 1 else tg_ack s) (tc_rexmitQueue c3)
        else Inr (tc_rexmitQueue c3)) = Inr xq"
    and c4: "c4 = updateWndInfo s False (c3\<lparr>tc_sendQueue := sq, tc_rexmitQueue := xq\<rparr>)"
  shows "processAckInEstabEtc env s c =
    (if tg_len s = 0 \<and> tc_state c4 \<noteq> TCP_S_SYN_RCVD
     then bindE (te_call env (ReceivedDataAck (tv_snd_una (tc_vars c))) c4) (\<lambda>c5. Inr (True, setv (\<lambda>v. v\<lparr>tv_dupacks := 0\<rparr>) c5))
     else Inr (True, c4))"
proof -
  have "processAckInEstabEtc env s c =
      (let old_snd_una = tv_snd_una (tc_vars c);
           c1 = setv (\<lambda>v. v\<lparr>tv_snd_una := tg_ack s, tv_snd_nxt := if seqLess (tv_snd_nxt v) (tg_ack s) then tg_ack s else tv_snd_nxt v\<rparr>) c
        in bindE (if tv_ts_enabled (tc_vars c1)
          then bindE (getTSecr s) (\<lambda>tsecr. te_call env (RttMeasurementCompleteUsingTS tsecr) c1) else Inr c1) (\<lambda>c2.
           let v2 = tc_vars c2; finAcked = tv_send_fin v2 \<and> tg_ack s = tv_snd_fin_seq v2 + 1;
               discardUpToSeq = (if finAcked then tv_snd_una v2 - 1 else tv_snd_una v2);
               c3 = (if finAcked then setv (\<lambda>v. v\<lparr>tv_fin_ack_rcvd := True\<rparr>) c2 else c2)
           in bindE (sq_discardUpTo discardUpToSeq (tc_sendQueue c3)) (\<lambda>sq.
              bindE (if tv_sack_enabled v2 then xq_discardUpTo discardUpToSeq (tc_rexmitQueue c3)
                     else Inr (tc_rexmitQueue c3)) (\<lambda>xq.
              let c4 = updateWndInfo s False (c3\<lparr>tc_sendQueue := sq, tc_rexmitQueue := xq\<rparr>)
              in if tg_len s = 0 \<and> tc_state c4 \<noteq> TCP_S_SYN_RCVD
                 then bindE (te_call env (ReceivedDataAck old_snd_una) c4) (\<lambda>c5.
                        Inr (True, setv (\<lambda>v. v\<lparr>tv_dupacks := 0\<rparr>) c5))
                 else Inr (True, c4)))))"
    using assms(1,2) by (simp only: processAckInEstabEtc_def Let_def if_False if_True)
  then show ?thesis
    unfolding Let_def c1[symmetric] c2 bindE_simps fa[symmetric] una c3[symmetric] sq xq c4[symmetric] by simp
qed

end
