(* ===== verification/TcpSetup.thy ===== *)
theory TcpSetup
  imports TcpSafety
begin

text \<open>
  Two properties of the connection setup that show errors of the code, and the bounds of the
  receive window.
\<close>

section \<open>The receive window\<close>

text \<open>The window after \<open>k\<close> shifts, and how far the loop goes.\<close>

lemma scale_window_ok:
  assumes "unat scale \<le> 14"
  shows "\<exists>k. scale_window win scale = (drop_bit k win, scale + of_nat k) \<and> unat scale + k \<le> 14 \<and>
    (unat (drop_bit k win) \<le> 65535 \<or> unat scale + k = 14) \<and> (0 < k \<longrightarrow> 65535 < unat (drop_bit (k - 1) win))"
  using assms
proof (induction win scale rule: scale_window.induct)
  case (1 win scale)
  show ?case
  proof (cases "TCP_MAX_WIN < win \<and> scale < 14")
    case True
    then have lt: "unat scale < 14" "65535 < unat win" by (simp_all add: word_less_nat_alt TCP_MAX_WIN_def)
    have suc: "unat (scale + 1) = Suc (unat scale)" using lt(1) by (simp add: unat_Suc_word)
    from 1(1)[OF True] suc lt obtain k where
      k: "scale_window (drop_bit 1 win) (scale + 1) = (drop_bit k (drop_bit 1 win), scale + 1 + of_nat k)"
        "unat (scale + 1) + k \<le> 14" "unat (drop_bit k (drop_bit 1 win)) \<le> 65535 \<or> unat (scale + 1) + k = 14"
        "0 < k \<longrightarrow> 65535 < unat (drop_bit (k - 1) (drop_bit 1 win))"
      by auto
    have "scale_window win scale = (drop_bit (Suc k) win, scale + of_nat (Suc k))"
      using True k(1) by (simp add: scale_window.simps[of win scale] add.assoc)
    moreover have "65535 < unat (drop_bit (Suc k - 1) win)" using k(4) lt(2) by (cases k) simp_all
    ultimately show ?thesis using k(2,3) suc by (intro exI[of _ "Suc k"]) simp
  next
    case False
    then have "unat win \<le> 65535 \<or> unat scale = 14"
      using 1(2) by (auto simp: word_less_nat_alt TCP_MAX_WIN_def not_less)
    moreover have "scale_window win scale = (win, scale)"
      by (simp only: scale_window.simps[of win scale] False if_False)
    ultimately show ?thesis using 1(2) by (intro exI[of _ 0]) auto
  qed
qed

lemma unat_drop_bit: "unat (drop_bit k (w :: u32)) = unat w div 2 ^ k"
proof -
  have "unat w < 2 ^ 32" using unsigned_less[of w, where ?'a = nat] by simp
  then have "unat (drop_bit k w) = drop_bit k (unat w)" by (simp only: unsigned_drop_bit_eq) (simp add: take_bit_nat_eq_self)
  then show ?thesis by (simp only: drop_bit_eq_div)
qed

lemma u16_round_trip: "(x :: u32) = ucast (ucast x :: u16) \<longleftrightarrow> unat x \<le> 65535"
proof -
  have "unat (ucast (ucast x :: u16) :: u32) = unat x mod 65536"
    by (simp only: unsigned_ucast_eq) (simp add: take_bit_eq_mod unat_mod_distrib)
  then show ?thesis by (auto simp: word_unat_eq_iff)
qed

lemma scale_window_fits: "unat (fst (scale_window win 0)) \<le> 65535 \<longleftrightarrow> unat win < 2 ^ 30"
proof -
  obtain k where k: "scale_window win 0 = (drop_bit k win, 0 + of_nat k)" "unat (0 :: u32) + k \<le> 14"
      "unat (drop_bit k win) \<le> 65535 \<or> unat (0 :: u32) + k = 14" "0 < k \<longrightarrow> 65535 < unat (drop_bit (k - 1) win)"
    using scale_window_ok[of 0 win] by auto
  have f: "unat (fst (scale_window win 0)) = unat win div 2 ^ k" using k(1) by (simp add: unat_drop_bit)
  show ?thesis
  proof
    assume "unat (fst (scale_window win 0)) \<le> 65535"
    then have "unat win div 2 ^ k < 65536" using f by simp
    then have "unat win < 65536 * 2 ^ k" by (simp add: div_less_iff_less_mult)
    also have "\<dots> \<le> 65536 * 2 ^ 14" using k(2) by (intro mult_left_mono power_increasing) simp_all
    finally show "unat win < 2 ^ 30" by simp
  next
    assume w: "unat win < 2 ^ 30"
    show "unat (fst (scale_window win 0)) \<le> 65535"
    proof (cases "k = 14")
      case True
      then show ?thesis using f w by (simp add: div_le_dividend less_Suc_eq_le[symmetric] div_less_iff_less_mult)
    next
      case False
      then show ?thesis using k(3) f by (simp add: unat_drop_bit)
    qed
  qed
qed

text \<open>The window before scaling: the free buffer, not a silly one, not less than what was promised.\<close>

definition advertised_window :: "tcp_conn \<Rightarrow> u32" where
  "advertised_window c =
     (let v = tc_vars (updateRcvQueueVars c); win0 = tv_freeRcvBuffer v;
          win1 = (if win0 < tv_maxRcvBuffer v div 4 \<and> win0 < tv_snd_mss v then 0 else win0);
          win2 = (if win1 < tv_rcv_adv v - tv_rcv_nxt v then tv_rcv_adv v - tv_rcv_nxt v else win1)
      in if TCP_MAX_WIN < win2 \<and> \<not> tv_ws_enabled v then TCP_MAX_WIN else win2)"

lemma updateRcvWnd_eq:
  "updateRcvWnd c =
     (case (if tv_ws_enabled (tc_vars (updateRcvQueueVars c)) then scale_window (advertised_window c) 0 else (advertised_window c, 0)) of
        (scaled, scale) \<Rightarrow> bindE (assertE (scaled = ucast (ucast scaled :: u16))) (\<lambda>_. Inr (ucast scaled,
          setv (\<lambda>v. v\<lparr>tv_rcv_wnd := advertised_window c, tv_rcv_wnd_scale := scale\<rparr>)
            (if 0 < advertised_window c \<and> seqGE (tv_rcv_nxt (tc_vars (updateRcvQueueVars c)) + advertised_window c)
                   (tv_rcv_adv (tc_vars (updateRcvQueueVars c)))
             then setv (\<lambda>v. v\<lparr>tv_rcv_adv := tv_rcv_nxt v + advertised_window c\<rparr>) (updateRcvQueueVars c)
             else updateRcvQueueVars c))))"
  unfolding updateRcvWnd_def advertised_window_def Let_def by (rule refl)

lemma vars_updateRcvQueueVars [simp]:
  "tv_ws_enabled (tc_vars (updateRcvQueueVars c)) = tv_ws_enabled (tc_vars c)"
  "tv_rcv_nxt (tc_vars (updateRcvQueueVars c)) = tv_rcv_nxt (tc_vars c)"
  "tv_rcv_adv (tc_vars (updateRcvQueueVars c)) = tv_rcv_adv (tc_vars c)"
  "tc_receiveQueue (updateRcvQueueVars c) = tc_receiveQueue c"
  by (simp_all add: updateRcvQueueVars_def Let_def)

lemma advertised_window_bounds:
  "tv_rcv_adv (tc_vars c) - tv_rcv_nxt (tc_vars c) \<le> advertised_window c \<or>
     advertised_window c = 65535 \<and> \<not> tv_ws_enabled (tc_vars c)"
  "\<not> tv_ws_enabled (tc_vars c) \<Longrightarrow> unat (advertised_window c) \<le> 65535"
proof -
  define win1 where "win1 = (if tv_freeRcvBuffer (tc_vars (updateRcvQueueVars c)) < tv_maxRcvBuffer (tc_vars (updateRcvQueueVars c)) div 4 \<and>
      tv_freeRcvBuffer (tc_vars (updateRcvQueueVars c)) < tv_snd_mss (tc_vars (updateRcvQueueVars c))
    then 0 else tv_freeRcvBuffer (tc_vars (updateRcvQueueVars c)))"
  define d where "d = tv_rcv_adv (tc_vars c) - tv_rcv_nxt (tc_vars c)"
  have w: "advertised_window c = (if TCP_MAX_WIN < (if win1 < d then d else win1) \<and> \<not> tv_ws_enabled (tc_vars c) then TCP_MAX_WIN
      else if win1 < d then d else win1)"
    by (simp only: advertised_window_def Let_def win1_def[symmetric] vars_updateRcvQueueVars d_def[symmetric])
  show "tv_rcv_adv (tc_vars c) - tv_rcv_nxt (tc_vars c) \<le> advertised_window c \<or>
      advertised_window c = 65535 \<and> \<not> tv_ws_enabled (tc_vars c)"
    unfolding d_def[symmetric] w by (auto simp: TCP_MAX_WIN_def not_less)
  show "unat (advertised_window c) \<le> 65535" if "\<not> tv_ws_enabled (tc_vars c)"
    using that unfolding w by (auto simp: TCP_MAX_WIN_def word_less_nat_alt not_less)
qed

text \<open>
  C24: The receive window.  \<open>updateRcvWnd\<close> fails its assertion exactly when window scaling is on and
  the window has reached \<open>2 ^ 30\<close>, which 14 shifts do not bring below \<open>2 ^ 16\<close>.  Otherwise the window never shrinks: it
  leaves at least as much space as was advertised before, unless it is cut to 65535 because scaling is
  off; the value for the header is the window shifted by the stored scale, at most 14; and the right
  edge that was advertised never moves back.
\<close>

theorem receive_window:
  "(is_ok (updateRcvWnd c) \<longleftrightarrow> (tv_ws_enabled (tc_vars c) \<longrightarrow> unat (advertised_window c) < 2 ^ 30)) \<and>
   (\<forall>field c'. updateRcvWnd c = Inr (field, c') \<longrightarrow>
     (tv_rcv_adv (tc_vars c) - tv_rcv_nxt (tc_vars c) \<le> tv_rcv_wnd (tc_vars c') \<or>
      tv_rcv_wnd (tc_vars c') = 65535 \<and> \<not> tv_ws_enabled (tc_vars c)) \<and>
     unat field = unat (tv_rcv_wnd (tc_vars c')) div 2 ^ unat (tv_rcv_wnd_scale (tc_vars c')) \<and>
     unat (tv_rcv_wnd_scale (tc_vars c')) \<le> 14 \<and> seqLE (tv_rcv_adv (tc_vars c)) (tv_rcv_adv (tc_vars c')))"
proof (intro conjI allI impI)
  let ?ss = "if tv_ws_enabled (tc_vars c) then scale_window (advertised_window c) 0 else (advertised_window c, 0)"
  obtain k where k: "scale_window (advertised_window c) 0 = (drop_bit k (advertised_window c), of_nat k)" "k \<le> 14"
    using scale_window_ok[of 0 "advertised_window c"] by auto
  have snd: "unat (snd ?ss) \<le> 14 \<and> unat (fst ?ss) = unat (advertised_window c) div 2 ^ unat (snd ?ss)"
    using k by (simp add: unat_drop_bit unat_of_nat)
  have fits: "unat (fst ?ss) \<le> 65535 \<longleftrightarrow> (tv_ws_enabled (tc_vars c) \<longrightarrow> unat (advertised_window c) < 2 ^ 30)"
    using scale_window_fits[of "advertised_window c"] advertised_window_bounds(2)[of c] by auto
  show "is_ok (updateRcvWnd c) \<longleftrightarrow> (tv_ws_enabled (tc_vars c) \<longrightarrow> unat (advertised_window c) < 2 ^ 30)"
    unfolding fits[symmetric] updateRcvWnd_eq vars_updateRcvQueueVars
    by (cases ?ss) (simp only: prod.case is_ok_bindE u16_round_trip fst_conv, auto simp: is_ok_def assertE_def split: if_splits)
  have all: "(tv_rcv_adv (tc_vars c) - tv_rcv_nxt (tc_vars c) \<le> tv_rcv_wnd (tc_vars c') \<or>
      tv_rcv_wnd (tc_vars c') = 65535 \<and> \<not> tv_ws_enabled (tc_vars c)) \<and>
     unat field = unat (tv_rcv_wnd (tc_vars c')) div 2 ^ unat (tv_rcv_wnd_scale (tc_vars c')) \<and>
     unat (tv_rcv_wnd_scale (tc_vars c')) \<le> 14 \<and> seqLE (tv_rcv_adv (tc_vars c)) (tv_rcv_adv (tc_vars c'))"
    if run: "updateRcvWnd c = Inr (field, c')" for field c'
  proof -
    from run have f: "fst ?ss = ucast (ucast (fst ?ss) :: u16)" "field = ucast (fst ?ss)"
      and c': "c' = setv (\<lambda>v. v\<lparr>tv_rcv_wnd := advertised_window c, tv_rcv_wnd_scale := snd ?ss\<rparr>)
            (if 0 < advertised_window c \<and> seqGE (tv_rcv_nxt (tc_vars c) + advertised_window c) (tv_rcv_adv (tc_vars c))
             then setv (\<lambda>v. v\<lparr>tv_rcv_adv := tv_rcv_nxt v + advertised_window c\<rparr>) (updateRcvQueueVars c)
             else updateRcvQueueVars c)"
      unfolding updateRcvWnd_eq vars_updateRcvQueueVars by (auto simp: split_beta)
    have v: "tv_rcv_wnd (tc_vars c') = advertised_window c" "tv_rcv_wnd_scale (tc_vars c') = snd ?ss"
      "tv_rcv_adv (tc_vars c') = (if 0 < advertised_window c \<and> seqGE (tv_rcv_nxt (tc_vars c) + advertised_window c) (tv_rcv_adv (tc_vars c))
         then tv_rcv_nxt (tc_vars c) + advertised_window c else tv_rcv_adv (tc_vars c))"
      unfolding c' by simp_all
    have field: "unat field = unat (fst ?ss)"
    proof -
      have "unat (fst ?ss) \<le> 65535" using f(1) u16_round_trip by blast
      then show ?thesis unfolding f(2) by (simp only: unsigned_ucast_eq) (simp add: take_bit_nat_eq_self)
    qed
    have "seqLE (tv_rcv_adv (tc_vars c)) (tv_rcv_adv (tc_vars c'))"
      unfolding v(3) by (simp add: seqLE_def seqGE_def)
    then show ?thesis unfolding v(1,2) field using snd advertised_window_bounds(1)[of c] by simp
  qed
  fix field :: u16 and c' :: tcp_conn
  assume run: "updateRcvWnd c = Inr (field, c')"
  note a = all[OF run]
  show "tv_rcv_adv (tc_vars c) - tv_rcv_nxt (tc_vars c) \<le> tv_rcv_wnd (tc_vars c') \<or>
      tv_rcv_wnd (tc_vars c') = 65535 \<and> \<not> tv_ws_enabled (tc_vars c)" using a by blast
  show "unat field = unat (tv_rcv_wnd (tc_vars c')) div 2 ^ unat (tv_rcv_wnd_scale (tc_vars c'))" using a by blast
  show "unat (tv_rcv_wnd_scale (tc_vars c')) \<le> 14" using a by blast
  show "seqLE (tv_rcv_adv (tc_vars c)) (tv_rcv_adv (tc_vars c'))" using a by blast
qed

text \<open>A connection with window scaling and a large buffer.\<close>

definition demo_large :: tcp_conn where
  "demo_large = setv (\<lambda>v. v\<lparr>tv_ws_enabled := True, tv_maxRcvBuffer := 200000\<rparr>) demo_conn"

lemma demo_large_window: "advertised_window demo_large = 200000" "tv_ws_enabled (tc_vars demo_large)"
  by (simp_all add: advertised_window_def demo_large_def demo_conn_def updateRcvQueueVars_def rq_getAmountOfFreeBytes_def
      rq_getAmountOfBufferedBytes_def tcp_vars_new_def TCP_MAX_WIN_def Let_def)

lemma receive_window_witness:
  "\<exists>field c'. updateRcvWnd demo_large = Inr (field, c') \<and> 200 \<le> tv_rcv_wnd (tc_vars c') \<and>
     unat field = unat (tv_rcv_wnd (tc_vars c')) div 2 ^ unat (tv_rcv_wnd_scale (tc_vars c'))"
proof -
  have ok: "is_ok (updateRcvWnd demo_large)"
    using receive_window[of demo_large] by (simp add: demo_large_window)
  then obtain field c' where run: "updateRcvWnd demo_large = Inr (field, c')" by (auto simp: is_ok_iff)
  have "tv_rcv_adv (tc_vars demo_large) - tv_rcv_nxt (tc_vars demo_large) = 200"
    by (simp add: demo_large_def demo_conn_def tcp_vars_new_def)
  then show ?thesis using conjunct2[OF receive_window[of demo_large]] run demo_large_window(2) by auto
qed

section \<open>A SYN that carries data\<close>

text \<open>What the calls of the setup leave alone; they do not fail.\<close>

definition setup_view :: "tcp_conn \<Rightarrow> tcp_state \<times> rcv_queue \<times> u32 \<times> bool \<times> bool option \<times> bool option \<times> int \<times> bool" where
  "setup_view c = (tc_state c, tc_receiveQueue c, tv_rcv_nxt (tc_vars c), tv_ws_enabled (tc_vars c),
     tc_connEstabTimer c, tc_synRexmitTimer c, tv_syn_rexmit_count (tc_vars c), ta_rcv_ws (tc_alg c))"

text \<open>
  The options of a SYN that does not ask for window scaling: the code takes the values of an option from
  what its length promises, and throws when they are not there.
\<close>

definition setup_option :: "tcp_option \<Rightarrow> bool" where
  "setup_option opt \<longleftrightarrow> to_kind opt \<noteq> TCPOPTION_WINDOW_SCALE \<and>
     (to_kind opt = TCPOPTION_MAXIMUM_SEGMENT_SIZE \<longrightarrow> to_values opt \<noteq> []) \<and>
     (to_kind opt = TCPOPTION_TIMESTAMP \<longrightarrow> length (to_values opt) = 2)"

definition keeps_setup :: "tcp_env \<Rightarrow> bool" where
  "keeps_setup env \<longleftrightarrow>
     (\<forall>call \<in> {AckSent, UpdateSockPair, AddForkedConnection}. \<forall>c. \<exists>c'. te_call env call c = Inr c' \<and> setup_view c' = setup_view c) \<and>
     (\<forall>s c. tg_syn s \<longrightarrow> tg_headerLength s = of_nat TCP_HEADER_OCTETS \<longrightarrow> tc_state c = TCP_S_LISTEN \<longrightarrow> \<not> ta_rcv_ws (tc_alg c) \<longrightarrow> (\<exists>s' c'. te_writeHeaderOptions env s c = Inr (s', c') \<and> setup_view c' = setup_view c \<and>
        TCP_HEADER_OCTETS \<le> unat (tg_headerLength s') \<and> unat (tg_headerLength s') \<le> TCP_MAX_HEADER_OCTETS)) \<and>
     (\<forall>s c. list_all setup_option (tg_options s) \<longrightarrow> tc_state c = TCP_S_LISTEN \<longrightarrow>
        (\<exists>c'. te_call env (ReadHeaderOptions s) c = Inr c' \<and> setup_view c' = setup_view c))"

lemma setup_call: "keeps_setup env \<Longrightarrow> call \<in> {AckSent, UpdateSockPair, AddForkedConnection} \<Longrightarrow>
    \<exists>c'. te_call env call c = Inr c' \<and> setup_view c' = setup_view c"
  unfolding keeps_setup_def by blast

lemma updateRcvWnd_setup:
  assumes "\<not> tv_ws_enabled (tc_vars c)"
  shows "\<exists>win c'. updateRcvWnd c = Inr (win, c') \<and> setup_view c' = setup_view c"
proof -
  have fit: "advertised_window c = ucast (ucast (advertised_window c) :: u16)"
    using advertised_window_bounds(2)[OF assms] u16_round_trip by blast
  have v: "setup_view (setv (\<lambda>v. v\<lparr>tv_rcv_wnd := x, tv_rcv_wnd_scale := y\<rparr>) c) = setup_view c"
    "setup_view (setv (\<lambda>v. v\<lparr>tv_rcv_adv := tv_rcv_nxt v + x\<rparr>) c) = setup_view c"
    "setup_view (updateRcvQueueVars c) = setup_view c" for x y c
    by (simp_all add: setup_view_def updateRcvQueueVars_def Let_def)
  show ?thesis unfolding updateRcvWnd_eq vars_updateRcvQueueVars using assms fit by (simp add: v)
qed

lemma sendSynAck_setup:
  assumes env: "keeps_setup env" and c: "\<not> tv_ws_enabled (tc_vars c)" "tc_state c = TCP_S_LISTEN" "\<not> ta_rcv_ws (tc_alg c)"
  shows "\<exists>c'. sendSynAck env c = Inr c' \<and> setup_view c' = setup_view c"
proof -
  from updateRcvWnd_setup[OF c(1)] obtain win c1 where 1: "updateRcvWnd c = Inr (win, c1)" "setup_view c1 = setup_view c" by blast
  let ?s = "segment_new\<lparr>tg_seq := tv_iss (tc_vars c), tg_ack := tv_rcv_nxt (tc_vars c), tg_syn := True, tg_ackBit := True,
    tg_window := ucast (tv_rcv_wnd (tc_vars c1))\<rparr>"
  let ?c2 = "setv (\<lambda>v. v\<lparr>tv_snd_nxt := tv_iss v + 1, tv_snd_max := tv_iss v + 1\<rparr>) c1"
  have v2: "setup_view ?c2 = setup_view c" using 1(2) by (simp add: setup_view_def)
  have e2: "tg_syn ?s" "tg_headerLength ?s = of_nat TCP_HEADER_OCTETS" "tc_state ?c2 = TCP_S_LISTEN" "\<not> ta_rcv_ws (tc_alg ?c2)" using v2 c(2,3) by (simp_all add: setup_view_def segment_new_def)
  then obtain s' c3 where 3: "te_writeHeaderOptions env ?s ?c2 = Inr (s', c3)" "setup_view c3 = setup_view ?c2"
      "TCP_HEADER_OCTETS \<le> unat (tg_headerLength s')" "unat (tg_headerLength s') \<le> TCP_MAX_HEADER_OCTETS"
    using env unfolding keeps_setup_def by blast
  define c4 where "c4 = emit (OutSegment (s'\<lparr>tg_srcPort := of_int (tc_localPort c3)\<rparr>)) (setv (\<lambda>v. v\<lparr>tv_sentBytes := ucast (tg_len s')\<rparr>) c3)"
  have 4: "sendToIP s' c3 = Inr c4" using 3(3,4) by (simp add: sendToIP_def c4_def)
  have v4: "setup_view c4 = setup_view c" using 3(2) v2 by (simp add: c4_def setup_view_def emit_def)
  from setup_call[OF env, of AckSent c4, simplified] obtain c5 where "te_call env AckSent c4 = Inr c5" "setup_view c5 = setup_view c4" by blast
  then show ?thesis using 1(1) 3(1) 4 v4 by (auto simp: sendSynAck_def Let_def)
qed

text \<open>The test for room refuses every SYN with data: the data would begin before the SYN is counted.\<close>

lemma syn_text_refused:
  assumes "0 < tg_len s" "tc_receiveQueue c = \<lparr>rq_rcv_nxt = tg_seq s + 1, rq_regions = []\<rparr>"
  shows "\<exists>c'. tcp_syn_text s c = Inr (False, c') \<and> setup_view c' = setup_view c"
proof -
  have "unat (- 1 :: u32) = 4294967295" by (simp add: unsigned_minus_1_eq_mask mask_eq_exp_minus_1)
  then have "\<not> seqLE (tg_seq s + 1) (tg_seq s)" by (simp add: seqLE_def)
  then have "\<not> hasEnoughSpaceForSegmentInReceiveQueue s (updateRcvQueueVars c)"
    using assms(2) by (simp add: hasEnoughSpaceForSegmentInReceiveQueue_def rq_getFirstSeqNo_def Let_def)
  then show ?thesis using assms(1) by (simp add: tcp_syn_text_def setup_view_def updateRcvQueueVars_def Let_def)
qed

text \<open>A SYN with data in \<open>LISTEN\<close>, for an environment that keeps the setup.\<close>

lemma syn_with_data:
  assumes env: "keeps_setup env" and st: "tc_state c = TCP_S_LISTEN" and ws: "\<not> tv_ws_enabled (tc_vars c)" "\<not> ta_rcv_ws (tc_alg c)"
    and timers: "tc_connEstabTimer c = Some False" "tc_synRexmitTimer c = Some False"
    and cf: "tv_fork (tc_vars c) \<Longrightarrow> is_ok (configureStateVariables env (tc_vars c))"
    and s: "tg_syn s" "\<not> tg_rst s" "\<not> tg_ackBit s" "0 < tg_len s" "list_all setup_option (tg_options s)"
  shows "\<exists>c'. processTCPSegment env s c = Inr (True, c') \<and> tc_state c' = TCP_S_LISTEN \<and>
    tc_synRexmitTimer c' = Some True \<and>
    processTimer env SynRexmit c' = Inl (RuntimeError ''Internal error: SYN-REXMIT timer expired'')"
proof -
  obtain c1 where c1: "(if tv_fork (tc_vars c) then forkListening env c else te_call env UpdateSockPair c) = Inr c1"
    and v1: "setup_view c1 = setup_view c"
  proof (cases "tv_fork (tc_vars c)")
    case True
    then obtain v where v: "configureStateVariables env (tc_vars c) = Inr v" using cf by (auto simp: is_ok_iff)
    have vv: "tv_rcv_nxt v = tv_rcv_nxt (tc_vars c)" "tv_ws_enabled v = tv_ws_enabled (tc_vars c)"
      "tv_syn_rexmit_count v = tv_syn_rexmit_count (tc_vars c)"
      using v by (auto simp: configureStateVariables_def Let_def split: if_splits)
    from setup_call[OF env, of AddForkedConnection "c\<lparr>tc_vars := v, tc_rexmitQueue := xq_new\<rparr>", simplified] obtain d where
      d: "te_call env AddForkedConnection (c\<lparr>tc_vars := v, tc_rexmitQueue := xq_new\<rparr>) = Inr d"
        "setup_view d = setup_view (c\<lparr>tc_vars := v, tc_rexmitQueue := xq_new\<rparr>)" by blast
    show ?thesis by (rule that[of d]) (use True v d vv in \<open>simp_all add: forkListening_def setup_view_def\<close>)
  next
    case False
    from setup_call[OF env, of UpdateSockPair c, simplified] obtain d where
      "te_call env UpdateSockPair c = Inr d" "setup_view d = setup_view c" by blast
    then show ?thesis using False by (intro that[of d]) simp_all
  qed
  define c3 where "c3 = updateWndInfo s True (selectInitialSeqNum env
    (tcp_syn_rcv_vars s (c1\<lparr>tc_remoteKnown := True, tc_remotePort := uint (tg_srcPort s)\<rparr>)))"
  have q3: "tc_receiveQueue c3 = \<lparr>rq_rcv_nxt = tg_seq s + 1, rq_regions = []\<rparr>"
    by (simp add: c3_def updateWndInfo_def selectInitialSeqNum_def tcp_syn_rcv_vars_def rq_init_def Let_def)
  have v3: "tc_state c3 = TCP_S_LISTEN" "\<not> tv_ws_enabled (tc_vars c3)" "tc_connEstabTimer c3 = Some False"
    "tc_synRexmitTimer c3 = Some False" "\<not> ta_rcv_ws (tc_alg c3)"
    using v1 st ws timers
    by (simp_all add: c3_def updateWndInfo_def selectInitialSeqNum_def tcp_syn_rcv_vars_def setup_view_def Let_def)
  obtain c4 where c4: "options_present env s c3 = Inr c4" "setup_view c4 = setup_view c3"
  proof (cases "TCP_HEADER_OCTETS < unat (tg_headerLength s)")
    case True
    obtain d where "te_call env (ReadHeaderOptions s) c3 = Inr d" "setup_view d = setup_view c3"
      using env s(5) v3(1) unfolding keeps_setup_def by blast
    then show ?thesis using True that[of d] by (simp add: options_present_def)
  qed (use that[of c3] in \<open>simp add: options_present_def\<close>)
  let ?c4 = "setv (\<lambda>v. v\<lparr>tv_ack_now := True\<rparr>) c4"
  have v4: "setup_view ?c4 = setup_view c3" using c4(2) by (simp add: setup_view_def)
  have "\<not> tv_ws_enabled (tc_vars ?c4)" "tc_state ?c4 = TCP_S_LISTEN" "\<not> ta_rcv_ws (tc_alg ?c4)"
    using v4 v3 by (simp_all add: setup_view_def)
  from sendSynAck_setup[OF env this] obtain c5 where c5: "sendSynAck env ?c4 = Inr c5" "setup_view c5 = setup_view ?c4" by blast
  define c6 where "c6 = (setv (\<lambda>v. v\<lparr>tv_syn_rexmit_count := 0, tv_syn_rexmit_timeout := TCP_TIMEOUT_SYN_REXMIT\<rparr>) c5)
    \<lparr>tc_synRexmitTimer := Some True\<rparr>"
  have e5: "tc_synRexmitTimer c5 = Some False" "tc_connEstabTimer c5 = Some False" "tc_state c5 = TCP_S_LISTEN"
    "tc_receiveQueue c5 = tc_receiveQueue c3"
    using c5(2) v4 v3 by (simp_all add: setup_view_def)
  have c6: "startSynRexmitTimer c5 = Inr c6" using e5(1) by (simp add: startSynRexmitTimer_def schedule_synRexmit_def c6_def Let_def setv_def)
  have e6: "tc_connEstabTimer c6 = Some False" "tc_state c6 = TCP_S_LISTEN" "tc_receiveQueue c6 = tc_receiveQueue c3"
    "tv_syn_rexmit_count (tc_vars c6) = 0" "tc_synRexmitTimer c6 = Some True"
    using e5 by (simp_all add: c6_def)
  let ?c7 = "c6\<lparr>tc_connEstabTimer := Some True\<rparr>"
  have c7: "(if tc_connEstabTimer c6 = Some True then Inr c6 else schedule_connEstab c6) = Inr ?c7"
    using e6(1) by (simp add: schedule_connEstab_def)
  have q7: "tc_receiveQueue ?c7 = \<lparr>rq_rcv_nxt = tg_seq s + 1, rq_regions = []\<rparr>" using e6(3) q3 by simp
  from syn_text_refused[OF s(4) q7] obtain c8 where
    c8: "tcp_syn_text s ?c7 = Inr (False, c8)" "setup_view c8 = setup_view ?c7" by blast
  have listen: "processSegmentInListen env s c = Inr (TCP_E_IGNORE, c8)"
    unfolding processSegmentInListen_def Let_def using s c1 c3_def c4(1) c5(1) c6 c7 c8(1) by simp
  have v8: "tc_state c8 = TCP_S_LISTEN" "tc_synRexmitTimer c8 = Some True" "tv_syn_rexmit_count (tc_vars c8) = 0"
    using c8(2) e6 by (simp_all add: setup_view_def)
  have seg: "processTCPSegment env s c = Inr (True, c8)"
    using listen st v8(1) by (simp add: processTCPSegment_def process_RCV_SEGMENT_def performStateTransition_def)
  have tim: "processTimer env SynRexmit c8 = Inl (RuntimeError ''Internal error: SYN-REXMIT timer expired'')"
    using v8 by (simp add: processTimer_def process_TIMEOUT_SYN_REXMIT_def MAX_SYN_REXMIT_COUNT_def Let_def)
  show ?thesis by (rule exI[of _ c8]) (simp add: seg v8 tim)
qed

definition demo_listen :: tcp_conn where
  "demo_listen = demo_conn\<lparr>tc_state := TCP_S_LISTEN, tc_connEstabTimer := Some False, tc_synRexmitTimer := Some False,
     tc_remoteKnown := False, tc_remotePort := -1\<rparr>"

text \<open>
  \<open>SEND\<close> in \<open>LISTEN\<close> always throws.  The code means to turn a passive open into an active one and
  to send the first SYN, but a connection opened passively has no remote address, and \<open>sendSyn\<close>
  refuses to send without one.
\<close>

theorem send_in_listen_throws:
  assumes "tc_state c = TCP_S_LISTEN" "\<not> tc_remoteKnown c"
  shows "processAppCommand env (Send n) c =
    Inl (RuntimeError ''Error processing command OPEN_ACTIVE: foreign socket unspecified'')"
proof -
  have "\<not> tc_remoteKnown (selectInitialSeqNum env (setv (\<lambda>v. v\<lparr>tv_active := True\<rparr>) c))"
    using assms(2) by (simp add: selectInitialSeqNum_def setv_def Let_def)
  then show ?thesis using assms(1) by (simp add: processAppCommand_def process_SEND_def sendSyn_def)
qed

lemma send_in_listen_throws_witness:
  "processAppCommand quiet_env (Send 10) demo_listen =
     Inl (RuntimeError ''Error processing command OPEN_ACTIVE: foreign socket unspecified'')"
proof -
  have "tc_state demo_listen = TCP_S_LISTEN" "\<not> tc_remoteKnown demo_listen" by (simp_all add: demo_listen_def)
  then show ?thesis by (rule send_in_listen_throws)
qed

end
