(* ===== verification/TcpSendSafety.thy ===== *)
theory TcpSendSafety
  imports TcpAck TcpSetup TcpFlavours
begin

text \<open>
  The sending of data over a connection without timestamps, SACK and window scaling, which is the
  default configuration: no assertion fails, every loop ends, and no byte goes out beyond the windows.
  \<open>core\<close> is what the sending of a segment leaves alone.
\<close>

lemma u32_less: "unat (x :: u32) < 4294967296"
  by (rule order.strict_trans2[OF unsigned_less]) simp

section \<open>What sending leaves alone\<close>

definition core :: "tcp_conn \<Rightarrow> tcp_conn" where
  "core c = c\<lparr>tc_out := [x \<leftarrow> tc_out c. \<exists>n. x = OutData n],
     tc_vars := (tc_vars c)\<lparr>tv_rcv_wnd := 0, tv_rcv_adv := 0, tv_rcv_wnd_scale := 0, tv_freeRcvBuffer := 0, tv_usedRcvBuffer := 0,
       tv_sentBytes := 0, tv_queueUpdate := False, tv_full_sized_segment_counter := 0, tv_ack_now := False,
       tv_time_last_data_sent := 0\<rparr>,
     tc_alg := (tc_alg c)\<lparr>ta_last_ack_sent := 0, ta_delayedAckTimer := None, ta_rexmitTimer := None, ta_rexmit_count := 0,
       ta_rtseq := 0, ta_rtseq_sendtime := 0\<rparr>\<rparr>"

lemma core_simps:
  "tc_state (core c) = tc_state c"
  "tc_sendQueue (core c) = tc_sendQueue c"
  "tc_rexmitQueue (core c) = tc_rexmitQueue c"
  "tc_remoteKnown (core c) = tc_remoteKnown c"
  "tv_snd_una (tc_vars (core c)) = tv_snd_una (tc_vars c)"
  "tv_snd_nxt (tc_vars (core c)) = tv_snd_nxt (tc_vars c)"
  "tv_snd_max (tc_vars (core c)) = tv_snd_max (tc_vars c)"
  "tv_snd_wnd (tc_vars (core c)) = tv_snd_wnd (tc_vars c)"
  "tv_snd_mss (tc_vars (core c)) = tv_snd_mss (tc_vars c)"
  "tv_send_fin (tc_vars (core c)) = tv_send_fin (tc_vars c)"
  "tv_snd_fin_seq (tc_vars (core c)) = tv_snd_fin_seq (tc_vars c)"
  "tv_afterRto (tc_vars (core c)) = tv_afterRto (tc_vars c)"
  "tv_ts_enabled (tc_vars (core c)) = tv_ts_enabled (tc_vars c)"
  "tv_sack_enabled (tc_vars (core c)) = tv_sack_enabled (tc_vars c)"
  "tv_ws_enabled (tc_vars (core c)) = tv_ws_enabled (tc_vars c)"
  "tv_dupacks (tc_vars (core c)) = tv_dupacks (tc_vars c)"
  "tv_rcv_nxt (tc_vars (core c)) = tv_rcv_nxt (tc_vars c)"
  "tv_nagle_enabled (tc_vars (core c)) = tv_nagle_enabled (tc_vars c)"
  "tv_limited_transmit_enabled (tc_vars (core c)) = tv_limited_transmit_enabled (tc_vars c)"
  "ta_snd_cwnd (tc_alg (core c)) = ta_snd_cwnd (tc_alg c)"
  "ta_ssthresh (tc_alg (core c)) = ta_ssthresh (tc_alg c)"
  "ta_lossRecovery (tc_alg (core c)) = ta_lossRecovery (tc_alg c)"
  "ta_recover (tc_alg (core c)) = ta_recover (tc_alg c)"
  "ta_persistTimer (tc_alg (core c)) = ta_persistTimer (tc_alg c)"
  by (simp_all add: core_def)

lemma core_fields:
  assumes "core c' = core c"
  shows "tc_state c' = tc_state c"
    "tc_sendQueue c' = tc_sendQueue c"
    "tc_rexmitQueue c' = tc_rexmitQueue c"
    "tc_remoteKnown c' = tc_remoteKnown c"
    "tv_snd_una (tc_vars c') = tv_snd_una (tc_vars c)"
    "tv_snd_nxt (tc_vars c') = tv_snd_nxt (tc_vars c)"
    "tv_snd_max (tc_vars c') = tv_snd_max (tc_vars c)"
    "tv_snd_wnd (tc_vars c') = tv_snd_wnd (tc_vars c)"
    "tv_snd_mss (tc_vars c') = tv_snd_mss (tc_vars c)"
    "tv_send_fin (tc_vars c') = tv_send_fin (tc_vars c)"
    "tv_snd_fin_seq (tc_vars c') = tv_snd_fin_seq (tc_vars c)"
    "tv_afterRto (tc_vars c') = tv_afterRto (tc_vars c)"
    "tv_ts_enabled (tc_vars c') = tv_ts_enabled (tc_vars c)"
    "tv_sack_enabled (tc_vars c') = tv_sack_enabled (tc_vars c)"
    "tv_ws_enabled (tc_vars c') = tv_ws_enabled (tc_vars c)"
    "tv_dupacks (tc_vars c') = tv_dupacks (tc_vars c)"
    "tv_rcv_nxt (tc_vars c') = tv_rcv_nxt (tc_vars c)"
    "tv_nagle_enabled (tc_vars c') = tv_nagle_enabled (tc_vars c)"
    "tv_limited_transmit_enabled (tc_vars c') = tv_limited_transmit_enabled (tc_vars c)"
    "ta_snd_cwnd (tc_alg c') = ta_snd_cwnd (tc_alg c)"
    "ta_ssthresh (tc_alg c') = ta_ssthresh (tc_alg c)"
    "ta_lossRecovery (tc_alg c') = ta_lossRecovery (tc_alg c)"
    "ta_recover (tc_alg c') = ta_recover (tc_alg c)"
    "ta_persistTimer (tc_alg c') = ta_persistTimer (tc_alg c)"
  by (simp_all only: core_simps[symmetric, of c'] core_simps[symmetric, of c] assms)

lemma delivered_core: "delivered (core c) = delivered c"
proof -
  have "sum_list (map (\<lambda>x. case x of OutData n \<Rightarrow> n | _ \<Rightarrow> 0) [x \<leftarrow> os. \<exists>n. x = OutData n]) =
      sum_list (map (\<lambda>x. case x of OutData n \<Rightarrow> n | _ \<Rightarrow> 0) os)" for os
    by (induction os) (auto split: tcp_out.splits)
  then show ?thesis by (simp add: delivered_def core_def)
qed

lemma rcv_kept_core: "rcv_kept (core c) = rcv_kept c"
  using delivered_core[of c] by (simp add: rcv_kept_def core_def)

lemma core_updates [simp]:
  "core (setv (\<lambda>v. v\<lparr>tv_snd_nxt := x\<rparr>) c) = setv (\<lambda>v. v\<lparr>tv_snd_nxt := x\<rparr>) (core c)"
  "core (setv (\<lambda>v. v\<lparr>tv_snd_max := x\<rparr>) c) = setv (\<lambda>v. v\<lparr>tv_snd_max := x\<rparr>) (core c)"
  "core (setv (\<lambda>v. v\<lparr>tv_afterRto := b\<rparr>) c) = setv (\<lambda>v. v\<lparr>tv_afterRto := b\<rparr>) (core c)"
  "core (setv (\<lambda>v. v\<lparr>tv_sentBytes := x\<rparr>) c) = core c" "core (setv (\<lambda>v. v\<lparr>tv_queueUpdate := b\<rparr>) c) = core c"
  "core (setv (\<lambda>v. v\<lparr>tv_ack_now := b\<rparr>) c) = core c" "core (setv (\<lambda>v. v\<lparr>tv_time_last_data_sent := t\<rparr>) c) = core c"
  "core (emit (OutSegment s) c) = core c" "core (emit (OutIndication i) c) = core c" "core (sendIndicationToApp i c) = core c" "core (updateRcvQueueVars c) = core c"
  by (simp_all add: core_def setv_def emit_def sendIndicationToApp_def updateRcvQueueVars_def Let_def)

text \<open>The segments among the output, in the order in which they were sent.\<close>

definition segments :: "tcp_conn \<Rightarrow> tcp_segment list" where
  "segments c = List.map_filter (\<lambda>x. case x of OutSegment s \<Rightarrow> Some s | _ \<Rightarrow> None) (tc_out c)"

lemma segments_simps [simp]:
  "segments (emit (OutSegment s) c) = segments c @ [s]" "segments (emit (OutIndication i) c) = segments c"
  "segments (setv f c) = segments c" "segments (seta g c) = segments c" "segments (sendIndicationToApp i c) = segments c"
  "segments (updateRcvQueueVars c) = segments c" "segments (c\<lparr>tc_rexmitQueue := xq\<rparr>) = segments c"
  by (simp_all add: segments_def emit_def setv_def seta_def sendIndicationToApp_def updateRcvQueueVars_def Let_def map_filter_def)

text \<open>What sending leaves alone altogether; the numbers of the sender may move.\<close>

definition fixed :: "tcp_conn \<Rightarrow> tcp_conn" where
  "fixed c = setv (\<lambda>v. v\<lparr>tv_snd_nxt := 0, tv_snd_max := 0, tv_afterRto := False\<rparr>) (core c)"

lemma fixed_core: "core c' = core c \<Longrightarrow> fixed c' = fixed c"
  by (simp add: fixed_def)

lemma rcv_kept_fixed: "rcv_kept (fixed c) = rcv_kept c"
proof -
  have "rcv_kept (fixed c) = rcv_kept (core c)" by (simp add: fixed_def rcv_kept_def)
  then show ?thesis by (simp add: rcv_kept_core)
qed

lemma fixed_rcv_kept: "fixed c' = fixed c \<Longrightarrow> rcv_kept c' = rcv_kept c"
  using rcv_kept_fixed[of c'] rcv_kept_fixed[of c] by simp

lemma fixed_simps:
  "tc_state (fixed c) = tc_state c"
  "tc_sendQueue (fixed c) = tc_sendQueue c"
  "tc_rexmitQueue (fixed c) = tc_rexmitQueue c"
  "tv_snd_una (tc_vars (fixed c)) = tv_snd_una (tc_vars c)"
  "tv_snd_wnd (tc_vars (fixed c)) = tv_snd_wnd (tc_vars c)"
  "tv_snd_mss (tc_vars (fixed c)) = tv_snd_mss (tc_vars c)"
  "tv_send_fin (tc_vars (fixed c)) = tv_send_fin (tc_vars c)"
  "tv_snd_fin_seq (tc_vars (fixed c)) = tv_snd_fin_seq (tc_vars c)"
  "tv_ts_enabled (tc_vars (fixed c)) = tv_ts_enabled (tc_vars c)"
  "tv_sack_enabled (tc_vars (fixed c)) = tv_sack_enabled (tc_vars c)"
  "tv_ws_enabled (tc_vars (fixed c)) = tv_ws_enabled (tc_vars c)"
  "tv_dupacks (tc_vars (fixed c)) = tv_dupacks (tc_vars c)"
  "tv_fin_ack_rcvd (tc_vars (fixed c)) = tv_fin_ack_rcvd (tc_vars c)"
  "ta_snd_cwnd (tc_alg (fixed c)) = ta_snd_cwnd (tc_alg c)"
  "ta_ssthresh (tc_alg (fixed c)) = ta_ssthresh (tc_alg c)"
  "ta_lossRecovery (tc_alg (fixed c)) = ta_lossRecovery (tc_alg c)"
  "ta_recover (tc_alg (fixed c)) = ta_recover (tc_alg c)"
  "ta_firstPartialACK (tc_alg (fixed c)) = ta_firstPartialACK (tc_alg c)"
  "ta_rexmit_timeout (tc_alg (fixed c)) = ta_rexmit_timeout (tc_alg c)"
  by (simp_all add: fixed_def core_def)

lemma fixed_fields:
  assumes "fixed c' = fixed c"
  shows "tc_state c' = tc_state c"
    "tc_sendQueue c' = tc_sendQueue c"
    "tc_rexmitQueue c' = tc_rexmitQueue c"
    "tv_snd_una (tc_vars c') = tv_snd_una (tc_vars c)"
    "tv_snd_wnd (tc_vars c') = tv_snd_wnd (tc_vars c)"
    "tv_snd_mss (tc_vars c') = tv_snd_mss (tc_vars c)"
    "tv_send_fin (tc_vars c') = tv_send_fin (tc_vars c)"
    "tv_snd_fin_seq (tc_vars c') = tv_snd_fin_seq (tc_vars c)"
    "tv_ts_enabled (tc_vars c') = tv_ts_enabled (tc_vars c)"
    "tv_sack_enabled (tc_vars c') = tv_sack_enabled (tc_vars c)"
    "tv_ws_enabled (tc_vars c') = tv_ws_enabled (tc_vars c)"
    "tv_dupacks (tc_vars c') = tv_dupacks (tc_vars c)"
    "tv_fin_ack_rcvd (tc_vars c') = tv_fin_ack_rcvd (tc_vars c)"
    "ta_snd_cwnd (tc_alg c') = ta_snd_cwnd (tc_alg c)"
    "ta_ssthresh (tc_alg c') = ta_ssthresh (tc_alg c)"
    "ta_lossRecovery (tc_alg c') = ta_lossRecovery (tc_alg c)"
    "ta_recover (tc_alg c') = ta_recover (tc_alg c)"
    "ta_firstPartialACK (tc_alg c') = ta_firstPartialACK (tc_alg c)"
    "ta_rexmit_timeout (tc_alg c') = ta_rexmit_timeout (tc_alg c)"
  by (simp_all only: fixed_simps[symmetric, of c'] fixed_simps[symmetric, of c] assms)

lemma fixed_numbers [simp]:
  "fixed (setv (\<lambda>v. v\<lparr>tv_snd_nxt := x\<rparr>) c) = fixed c" "fixed (setv (\<lambda>v. v\<lparr>tv_snd_max := x\<rparr>) c) = fixed c"
  "fixed (setv (\<lambda>v. v\<lparr>tv_afterRto := b\<rparr>) c) = fixed c" "fixed (core c) = fixed c"
  "fixed (setv (\<lambda>v. v\<lparr>tv_snd_nxt := f v\<rparr>) c) = fixed c" "fixed (setv (\<lambda>v. v\<lparr>tv_snd_max := f v\<rparr>) c) = fixed c"
  by (simp_all add: fixed_def core_def setv_def)

text \<open>The retransmission timer is not touched by a segment that is sent, only by \<open>dataSent\<close>.\<close>

definition rexmit_view :: "tcp_conn \<Rightarrow> simtime option \<times> int \<times> simtime \<times> simtime" where
  "rexmit_view c = (ta_rexmitTimer (tc_alg c), ta_rexmit_count (tc_alg c), ta_rexmit_timeout (tc_alg c), tc_now c)"

lemma rexmit_view_simps [simp]:
  "rexmit_view (setv f c) = rexmit_view c" "rexmit_view (emit x c) = rexmit_view c"
  "rexmit_view (sendIndicationToApp i c) = rexmit_view c" "rexmit_view (updateRcvQueueVars c) = rexmit_view c"
  "rexmit_view (c\<lparr>tc_rexmitQueue := xq\<rparr>) = rexmit_view c"
  by (simp_all add: rexmit_view_def setv_def emit_def sendIndicationToApp_def updateRcvQueueVars_def Let_def)

section \<open>The plain connection\<close>

definition plain :: "tcp_conn \<Rightarrow> bool" where
  "plain c \<longleftrightarrow> \<not> tv_ts_enabled (tc_vars c) \<and> \<not> tv_sack_enabled (tc_vars c) \<and> \<not> tv_ws_enabled (tc_vars c) \<and> 0 < tv_snd_mss (tc_vars c)"

lemma plain_no_ws: "plain c \<Longrightarrow> \<not> tv_ws_enabled (tc_vars c)"
  by (simp add: plain_def)

lemma plain_core: "core c' = core c \<Longrightarrow> plain c' = plain c"
  by (simp add: plain_def core_fields[of c' c])

lemma plain_setv [simp]:
  "plain (setv (\<lambda>v. v\<lparr>tv_snd_nxt := x\<rparr>) c) = plain c" "plain (setv (\<lambda>v. v\<lparr>tv_snd_max := x\<rparr>) c) = plain c"
  "plain (setv (\<lambda>v. v\<lparr>tv_afterRto := b\<rparr>) c) = plain c" "plain (setv (\<lambda>v. v\<lparr>tv_sentBytes := x\<rparr>) c) = plain c"
  "plain (core c) = plain c"
  by (simp_all add: plain_def core_simps)

lemma updateRcvWnd_core:
  assumes ws: "\<not> tv_ws_enabled (tc_vars c)"
  shows "\<exists>win c'. updateRcvWnd c = Inr (win, c') \<and> core c' = core c \<and> segments c' = segments c \<and>
    tv_sentBytes (tc_vars c') = tv_sentBytes (tc_vars c) \<and> rexmit_view c' = rexmit_view c"
proof -
  have fit: "advertised_window c = ucast (ucast (advertised_window c) :: u16)"
    using advertised_window_bounds(2)[OF ws] u16_round_trip by blast
  have s: "core (setv (\<lambda>v. v\<lparr>tv_rcv_wnd := x, tv_rcv_wnd_scale := y\<rparr>) d) = core d"
    "core (setv (\<lambda>v. v\<lparr>tv_rcv_adv := z v\<rparr>) d) = core d"
    "tv_sentBytes (tc_vars (updateRcvQueueVars d)) = tv_sentBytes (tc_vars d)" for x y z d
    by (simp_all add: core_def setv_def updateRcvQueueVars_def Let_def)
  show ?thesis unfolding updateRcvWnd_eq vars_updateRcvQueueVars using ws fit by (simp add: s)
qed

lemmas plain_updateRcvWnd = updateRcvWnd_core[OF plain_no_ws]

lemma no_options:
  assumes "\<not> tv_ts_enabled (tc_vars c)" "\<not> sacks_due (tc_vars c)" "\<not> tg_syn s" "tg_options s = []"
  shows "writeHeaderOptions env s c = Inr (s, c)"
proof -
  have "s\<lparr>tg_options := []\<rparr> = s" using assms(4) by simp
  then show ?thesis
    using assms by (simp add: writeHeaderOptions_def write_data_options_def set_header_length_def Let_def)
qed

lemma plain_options: "plain c \<Longrightarrow> \<not> tg_syn s \<Longrightarrow> tg_options s = [] \<Longrightarrow> writeHeaderOptions env s c = Inr (s, c)"
  by (rule no_options) (simp_all add: plain_def sacks_due_def)

lemma sendToIP_plain:
  assumes "tg_headerLength s = of_nat TCP_HEADER_OCTETS"
  shows "\<exists>c'. sendToIP s c = Inr c' \<and> core c' = core c \<and> tv_sentBytes (tc_vars c') = ucast (tg_len s) \<and>
    segments c' = segments c @ [s\<lparr>tg_srcPort := of_int (tc_localPort c)\<rparr>] \<and> rexmit_view c' = rexmit_view c"
  using assms by (simp add: sendToIP_def TCP_HEADER_OCTETS_def TCP_MAX_HEADER_OCTETS_def) (simp add: emit_def setv_def)

text \<open>The calls that are made while sending.\<close>

lemma leaf_calls:
  fixes fl env0
  defines "env \<equiv> flavour_leaf fl env0"
  shows "\<exists>c'. te_call env AckSent c = Inr c' \<and> core c' = core c \<and> segments c' = segments c \<and> rexmit_view c' = rexmit_view c"
    "\<exists>c'. te_call env (DataSent n) c = Inr c' \<and> core c' = core c \<and> segments c' = segments c"
    "\<exists>c'. te_call env (SegmentRetransmitted n m) c = Inr c' \<and> core c' = core c \<and> segments c' = segments c \<and> rexmit_view c' = rexmit_view c"
    "\<exists>c'. te_call env RestartRexmitTimer c = Inr c' \<and> core c' = core c \<and> segments c' = segments c"
  unfolding env_def
  by (auto simp: flavour_leaf_def leaf_env_def dumb_call_def base_call_def base_ackSent_def base_dataSent_def
      startRexmitTimer_def schedule_rexmit_def base_restartRexmitTimer_def cancel_rexmit_def Let_def core_def setv_def seta_def segments_def rexmit_view_def)

lemma leaf_options: "te_writeHeaderOptions (flavour_leaf fl env0) = writeHeaderOptions env0"
  by (simp add: flavour_leaf_def leaf_env_def)

section \<open>Acknowledgments\<close>

lemma plain_sendAck:
  fixes fl env0
  defines "env \<equiv> flavour_leaf fl env0"
  assumes c: "plain c"
  shows "\<exists>c'. sendAck env c = Inr c' \<and> core c' = core c"
proof -
  from plain_updateRcvWnd[OF c] obtain win c1 where 1: "updateRcvWnd c = Inr (win, c1)" "core c1 = core c" by blast
  let ?s = "segment_new\<lparr>tg_ackBit := True, tg_seq := tv_snd_nxt (tc_vars c), tg_ack := tv_rcv_nxt (tc_vars c), tg_window := win\<rparr>"
  have 2: "te_writeHeaderOptions env ?s c1 = Inr (?s, c1)"
    unfolding env_def leaf_options by (rule plain_options) (use plain_core[OF 1(2)] c in \<open>simp_all add: segment_new_def\<close>)
  obtain c2 where 3: "sendToIP ?s c1 = Inr c2" "core c2 = core c1" using sendToIP_plain[of ?s c1] by (auto simp: segment_new_def)
  from leaf_calls(1)[of fl env0 c2] obtain c3 where "te_call env AckSent c2 = Inr c3" "core c3 = core c2" unfolding env_def by blast
  then show ?thesis using 1 2 3 by (simp add: sendAck_def Let_def)
qed

lemma sendFin_core:
  fixes fl env0
  defines "env \<equiv> flavour_leaf fl env0"
  assumes c: "\<not> tv_ws_enabled (tc_vars c)"
  shows "\<exists>c' s. sendFin env c = Inr c' \<and> core c' = core c \<and> segments c' = segments c @ [s] \<and>
    tg_seq s = tv_snd_nxt (tc_vars c) \<and> tg_len s = 0 \<and> tg_fin s \<and> tg_ackBit s \<and> rexmit_view c' = rexmit_view c"
proof -
  from updateRcvWnd_core[OF c] obtain win c1 where
    1: "updateRcvWnd c = Inr (win, c1)" "core c1 = core c" "segments c1 = segments c" "rexmit_view c1 = rexmit_view c" by blast
  let ?s = "segment_new\<lparr>tg_fin := True, tg_ackBit := True, tg_ack := tv_rcv_nxt (tc_vars c),
    tg_seq := tv_snd_nxt (tc_vars c), tg_window := win\<rparr>"
  obtain c2 s where 3: "sendToIP ?s c1 = Inr c2" "core c2 = core c1" "segments c2 = segments c1 @ [s]"
    "tg_seq s = tv_snd_nxt (tc_vars c)" "tg_len s = 0" "tg_fin s" "tg_ackBit s" "rexmit_view c2 = rexmit_view c1"
    using sendToIP_plain[of ?s c1] by (auto simp: segment_new_def)
  from leaf_calls(1)[of fl env0 c2] obtain c3 where "te_call env AckSent c2 = Inr c3" "core c3 = core c2" "segments c3 = segments c2"
    "rexmit_view c3 = rexmit_view c2" unfolding env_def by blast
  then show ?thesis using 1 3 by (intro exI[of _ c3] exI[of _ s]) (simp add: sendFin_def Let_def)
qed

lemmas plain_sendFin = sendFin_core[OF plain_no_ws]

section \<open>One segment\<close>

text \<open>What is in the queue from a number on.\<close>

lemma bytes_available:
  assumes "near w (sq_end q)" "off w x \<le> off w (sq_end q)"
  shows "unat (sq_getBytesAvailable x q) = off w (sq_end q) - off w x" "sq_getBytesAvailable x q = sq_end q - x"
proof -
  have n: "near w x" using assms by (simp add: near_def)
  have 1: "unat (sq_end q - x) = off w (sq_end q) - off w x" by (rule unat_diff_near[OF assms(2)])
  have 2: "seqLess x (sq_end q) \<longleftrightarrow> x \<noteq> sq_end q" using seq_near(1)[OF n assms(1)] assms(2) off_inj[of w x "sq_end q"] by linarith
  show "sq_getBytesAvailable x q = sq_end q - x" by (simp add: sq_getBytesAvailable_def 2)
  with 1 show "unat (sq_getBytesAvailable x q) = off w (sq_end q) - off w x" by simp
qed

definition segment_length :: "tcp_conn \<Rightarrow> u32 \<Rightarrow> u32" where
  "segment_length c n = min (min n (sq_getBytesAvailable (tv_snd_nxt (tc_vars c)) (tc_sendQueue c))) (tv_snd_mss (tc_vars c))"

text \<open>The effect of \<open>b\<close> bytes sent: \<open>snd_nxt\<close> passes them, and the FIN when it follows.\<close>

definition fin_follows :: "tcp_conn \<Rightarrow> u32 \<Rightarrow> bool" where
  "fin_follows c b \<longleftrightarrow> tv_send_fin (tc_vars c) \<and> tv_snd_nxt (tc_vars c) + b = tv_snd_fin_seq (tc_vars c)"

definition nxt_after :: "tcp_conn \<Rightarrow> u32 \<Rightarrow> u32" where
  "nxt_after c b = tv_snd_nxt (tc_vars c) + b + (if fin_follows c b then 1 else 0)"

definition rto_after :: "tcp_conn \<Rightarrow> u32 \<Rightarrow> bool" where
  "rto_after c b \<longleftrightarrow> tv_afterRto (tc_vars c) \<and> \<not> seqGE (tv_snd_nxt (tc_vars c) + b) (tv_snd_max (tc_vars c))"

definition data_segment :: "tcp_conn \<Rightarrow> u32 \<Rightarrow> tcp_segment \<Rightarrow> bool" where
  "data_segment c b s \<longleftrightarrow> tg_seq s = tv_snd_nxt (tc_vars c) \<and> tg_len s = ucast b \<and> tg_fin s = fin_follows c b \<and>
     \<not> tg_syn s \<and> \<not> tg_rst s \<and> tg_ackBit s \<and> tg_ack s = tv_rcv_nxt (tc_vars c)"

lemma abate_core [simp]: "core (abate_queue c) = core c" "segments (abate_queue c) = segments c"
  "tv_sentBytes (tc_vars (abate_queue c)) = tv_sentBytes (tc_vars c)" "rexmit_view (abate_queue c) = rexmit_view c"
proof -
  have "tc_vars (sendIndicationToApp i c) = tc_vars c" for i by (simp add: sendIndicationToApp_def emit_def)
  then show "core (abate_queue c) = core c" "segments (abate_queue c) = segments c"
    "tv_sentBytes (tc_vars (abate_queue c)) = tv_sentBytes (tc_vars c)" "rexmit_view (abate_queue c) = rexmit_view c"
    by (simp_all add: abate_queue_def Let_def)
qed

lemma same_rto:
  assumes "tv_afterRto (tc_vars d) = b"
  shows "setv (\<lambda>v. v\<lparr>tv_afterRto := b\<rparr>) d = d"
proof -
  have "(tc_vars d)\<lparr>tv_afterRto := b\<rparr> = tc_vars d" using assms by (cases "tc_vars d") simp
  then show ?thesis by (simp add: setv_def)
qed

lemma u64_round_trip: "(ucast (ucast (b :: u32) :: u64) :: u32) = b"
  by (rule bit_word_eqI) (simp add: bit_unsigned_iff)

lemma send_bytes_run:
  assumes c: "\<not> tv_ws_enabled (tc_vars c)" and tmp: "tg_headerLength tmp = of_nat TCP_HEADER_OCTETS"
    and q: "near w (sq_end (tc_sendQueue c))" "off w (sq_begin (tc_sendQueue c)) \<le> off w (tv_snd_nxt (tc_vars c))"
      "off w (tv_snd_nxt (tc_vars c)) + unat b \<le> off w (sq_end (tc_sendQueue c))"
    and xq: "(if tv_sack_enabled (tc_vars c)
      then xq_enqueueSentData (tv_snd_nxt (tc_vars c)) (tv_snd_nxt (tc_vars c) + b) (tc_rexmitQueue c)
      else Inr (tc_rexmitQueue c)) = Inr xq"
  shows "\<exists>c' s. send_bytes tmp b c = Inr c' \<and>
    core c' = setv (\<lambda>v. v\<lparr>tv_afterRto := rto_after c b\<rparr>) (setv (\<lambda>v. v\<lparr>tv_snd_nxt := nxt_after c b\<rparr>) (core (c\<lparr>tc_rexmitQueue := xq\<rparr>))) \<and>
    tv_sentBytes (tc_vars c') = b \<and> segments c' = segments c @ [s] \<and> data_segment c b s \<and> rexmit_view c' = rexmit_view c"
proof -
  let ?nxt = "tv_snd_nxt (tc_vars c)" and ?q = "tc_sendQueue c"
  have ob: "off w (?nxt + b) = off w ?nxt + unat b" by (rule off_add) (use q in \<open>simp add: near_def\<close>)
  have n: "near w (sq_begin ?q)" "near w ?nxt" "near w (?nxt + b)" using q ob by (simp_all add: near_def)
  have lenb: "(ucast (ucast b :: u64) :: u32) = b" by (rule u64_round_trip)
  have create: "sq_createSegmentWithBytes ?nxt (ucast b) ?q = Inr (segment_new\<lparr>tg_seq := ?nxt, tg_len := ucast b\<rparr>)"
    unfolding sq_createSegmentWithBytes_def lenb
    using seq_near(2)[OF n(1,2)] seq_near(2)[OF n(3) q(1)] q(2,3) ob by simp
  let ?c1 = "setv (\<lambda>v. v\<lparr>tv_sentBytes := b\<rparr>) c"
  let ?d = "c\<lparr>tc_rexmitQueue := xq\<rparr>"
  have d1: "?c1\<lparr>tc_rexmitQueue := xq\<rparr> = setv (\<lambda>v. v\<lparr>tv_sentBytes := b\<rparr>) ?d" by (simp add: setv_def)
  have p1: "\<not> tv_ws_enabled (tc_vars (setv (\<lambda>v. v\<lparr>tv_sentBytes := b\<rparr>) ?d))" using c by simp
  from updateRcvWnd_core[OF p1] obtain win c2 where
    2: "updateRcvWnd (setv (\<lambda>v. v\<lparr>tv_sentBytes := b\<rparr>) ?d) = Inr (win, c2)" "core c2 = core ?d" "segments c2 = segments c"
      "rexmit_view c2 = rexmit_view c" by auto
  note f2 = core_fields[OF 2(2), simplified]
  let ?c3 = "setv (\<lambda>v. v\<lparr>tv_snd_nxt := tv_snd_nxt v + b\<rparr>) c2"
  define ge where "ge = (tv_afterRto (tc_vars c) \<and> seqGE (?nxt + b) (tv_snd_max (tc_vars c)))"
  define c4 where "c4 = (if ge then setv (\<lambda>v. v\<lparr>tv_afterRto := False\<rparr>) ?c3 else ?c3)"
  have c4': "(if tv_afterRto (tc_vars ?c3) \<and> seqGE (tv_snd_nxt (tc_vars ?c3)) (tv_snd_max (tc_vars ?c3))
      then setv (\<lambda>v. v\<lparr>tv_afterRto := False\<rparr>) ?c3 else ?c3) = c4"
    by (simp add: c4_def ge_def f2)
  have f4: "tv_send_fin (tc_vars c4) = tv_send_fin (tc_vars c)" "tv_snd_nxt (tc_vars c4) = ?nxt + b"
    "tv_snd_fin_seq (tc_vars c4) = tv_snd_fin_seq (tc_vars c)" "tc_localPort c4 = tc_localPort c2" "segments c4 = segments c"
    "tc_alg c4 = tc_alg c2"
    using 2(3) by (simp_all add: c4_def f2 setv_def segments_def)
  define fin where "fin = fin_follows c b"
  have fin': "(tv_send_fin (tc_vars c4) \<and> tv_snd_nxt (tc_vars c4) = tv_snd_fin_seq (tc_vars c4)) = fin"
    by (simp add: fin_def fin_follows_def f4)
  define c5 where "c5 = (if fin then setv (\<lambda>v. v\<lparr>tv_snd_nxt := tv_snd_fin_seq v + 1\<rparr>) c4 else c4)"
  define s where "s = (segment_new\<lparr>tg_seq := ?nxt, tg_len := ucast b\<rparr>)\<lparr>tg_ack := tv_rcv_nxt (tc_vars c), tg_ackBit := True,
    tg_window := win, tg_fin := fin, tg_options := tg_options tmp, tg_headerLength := tg_headerLength tmp\<rparr>"
  have hs: "tg_headerLength s = of_nat TCP_HEADER_OCTETS" by (simp add: s_def tmp)
  from sendToIP_plain[OF hs, of c5] obtain c6 where
    6: "sendToIP s c5 = Inr c6" "core c6 = core c5" "tv_sentBytes (tc_vars c6) = ucast (tg_len s)"
      "segments c6 = segments c5 @ [s\<lparr>tg_srcPort := of_int (tc_localPort c5)\<rparr>]" "rexmit_view c6 = rexmit_view c5" by blast
  have run: "send_bytes tmp b c = Inr (abate_queue c6)"
  proof -
    have e1: "tv_sack_enabled (tc_vars ?c1) = tv_sack_enabled (tc_vars c)" "tv_snd_nxt (tc_vars ?c1) = ?nxt" "tc_sendQueue ?c1 = ?q"
      "tv_rcv_nxt (tc_vars ?c1) = tv_rcv_nxt (tc_vars c)" "tc_rexmitQueue ?c1 = tc_rexmitQueue c"
      by simp_all
    have len: "assertE (ucast b = tg_len (segment_new\<lparr>tg_seq := ?nxt, tg_len := ucast b\<rparr>)) = Inr ()" by simp
    show ?thesis
      unfolding send_bytes_def Let_def e1 create bindE_simps xq d1 2(1) prod.case len c4' fin' c5_def[symmetric]
        s_def[symmetric] 6(1) by (rule refl)
  qed
  have cc3: "core ?c3 = setv (\<lambda>v. v\<lparr>tv_snd_nxt := ?nxt + b\<rparr>) (core ?d)"
  proof -
    have "?c3 = setv (\<lambda>v. v\<lparr>tv_snd_nxt := ?nxt + b\<rparr>) c2" by (simp add: setv_def f2)
    then show ?thesis using 2(2) by simp
  qed
  have seg5: "segments c5 = segments c" using f4(5) by (simp add: c5_def)
  have cc4: "core c4 = setv (\<lambda>v. v\<lparr>tv_afterRto := rto_after c b\<rparr>) (setv (\<lambda>v. v\<lparr>tv_snd_nxt := ?nxt + b\<rparr>) (core ?d))"
  proof (cases ge)
    case True
    then have "\<not> rto_after c b" by (simp add: ge_def rto_after_def)
    with True show ?thesis by (simp add: c4_def cc3)
  next
    case False
    then have "rto_after c b = tv_afterRto (tc_vars c)" by (auto simp: ge_def rto_after_def)
    with False show ?thesis by (simp add: c4_def cc3 same_rto core_simps)
  qed
  have cc5: "core c5 = setv (\<lambda>v. v\<lparr>tv_afterRto := rto_after c b\<rparr>) (setv (\<lambda>v. v\<lparr>tv_snd_nxt := nxt_after c b\<rparr>) (core ?d))"
  proof (cases fin)
    case True
    have "c5 = setv (\<lambda>v. v\<lparr>tv_snd_nxt := tv_snd_fin_seq (tc_vars c) + 1\<rparr>) c4" using True f4(3) by (simp add: c5_def setv_def)
    then have "core c5 = setv (\<lambda>v. v\<lparr>tv_snd_nxt := tv_snd_fin_seq (tc_vars c) + 1\<rparr>) (core c4)" by simp
    moreover have "nxt_after c b = tv_snd_fin_seq (tc_vars c) + 1" using True by (simp add: nxt_after_def fin_def fin_follows_def)
    ultimately show ?thesis using cc4 by (simp add: setv_def)
  next
    case False
    then show ?thesis using cc4 by (simp add: c5_def nxt_after_def fin_def)
  qed
  have ds: "data_segment c b (s\<lparr>tg_srcPort := of_int (tc_localPort c5)\<rparr>)"
    by (simp add: data_segment_def s_def segment_new_def fin_def)
  have rv: "rexmit_view c6 = rexmit_view c" using 6(5) 2(4) by (simp add: c5_def c4_def)
  have sb: "tv_sentBytes (tc_vars c6) = b" using 6(3) lenb by (simp add: s_def)
  show ?thesis
    using run cc5 6(2,4) seg5 ds sb rv by (intro exI[of _ "abate_queue c6"] exI[of _ "s\<lparr>tg_srcPort := of_int (tc_localPort c5)\<rparr>"]) simp
qed

lemma sendSegment_run:
  fixes fl env0
  defines "env \<equiv> flavour_leaf fl env0"
  assumes c: "\<not> tv_ws_enabled (tc_vars c)" "\<not> tv_ts_enabled (tc_vars c)" "\<not> sacks_due (tc_vars c)" "0 < tv_snd_mss (tc_vars c)"
      "forward_snd_nxt c = Inr c"
    and q: "near w (sq_end (tc_sendQueue c))" "off w (sq_begin (tc_sendQueue c)) \<le> off w (tv_snd_nxt (tc_vars c))"
      "off w (tv_snd_nxt (tc_vars c)) \<le> off w (sq_end (tc_sendQueue c))"
    and b: "b = segment_length c n"
    and xq: "(if tv_sack_enabled (tc_vars c)
      then xq_enqueueSentData (tv_snd_nxt (tc_vars c)) (tv_snd_nxt (tc_vars c) + b) (tc_rexmitQueue c)
      else Inr (tc_rexmitQueue c)) = Inr xq"
  shows "\<exists>c' s. sendSegment env n c = Inr c' \<and>
    core c' = setv (\<lambda>v. v\<lparr>tv_afterRto := rto_after c b\<rparr>) (setv (\<lambda>v. v\<lparr>tv_snd_nxt := nxt_after c b\<rparr>) (core (c\<lparr>tc_rexmitQueue := xq\<rparr>))) \<and>
    tv_sentBytes (tc_vars c') = b \<and> segments c' = segments c @ [s] \<and> data_segment c b s \<and> rexmit_view c' = rexmit_view c"
proof -
  let ?tmp = "segment_new\<lparr>tg_ackBit := True\<rparr>"
  have o: "te_writeHeaderOptions env ?tmp c = Inr (?tmp, c)"
    unfolding env_def leaf_options by (rule no_options) (use c in \<open>simp_all add: segment_new_def\<close>)
  have h: "tg_headerLength ?tmp = of_nat TCP_HEADER_OCTETS" "ucast (tg_headerLength ?tmp) - of_nat TCP_HEADER_OCTETS = (0 :: u32)"
    by (simp_all add: segment_new_def TCP_HEADER_OCTETS_def)
  let ?av = "sq_getBytesAvailable (tv_snd_nxt (tc_vars c)) (tc_sendQueue c)" and ?mss = "tv_snd_mss (tc_vars c)"
  have b': "(if ?mss < (if ?av < n then ?av else n) + 0 then ?mss - 0 else (if ?av < n then ?av else n)) = b"
    unfolding b segment_length_def min_def by auto
  have "unat b \<le> unat ?av" unfolding b segment_length_def by (simp add: min_def word_le_nat_alt)
  then have lim: "off w (tv_snd_nxt (tc_vars c)) + unat b \<le> off w (sq_end (tc_sendQueue c))"
    using bytes_available(1)[OF q(1,3)] q(3) by linarith
  have "sendSegment env n c = send_bytes ?tmp b c"
    unfolding sendSegment_def c(5) bindE_simps Let_def o prod.case h(2) using c(4) b' by simp
  with send_bytes_run[OF c(1) h(1) q(1,2) lim xq] show ?thesis by simp
qed

lemma sendSegment_plain:
  fixes fl env0
  defines "env \<equiv> flavour_leaf fl env0"
  assumes c: "plain c"
    and q: "near w (sq_end (tc_sendQueue c))" "off w (sq_begin (tc_sendQueue c)) \<le> off w (tv_snd_nxt (tc_vars c))"
      "off w (tv_snd_nxt (tc_vars c)) \<le> off w (sq_end (tc_sendQueue c))"
    and b: "b = segment_length c n"
  shows "\<exists>c' s. sendSegment env n c = Inr c' \<and>
    core c' = setv (\<lambda>v. v\<lparr>tv_afterRto := rto_after c b\<rparr>) (setv (\<lambda>v. v\<lparr>tv_snd_nxt := nxt_after c b\<rparr>) (core c)) \<and>
    tv_sentBytes (tc_vars c') = b \<and> segments c' = segments c @ [s] \<and> data_segment c b s \<and> rexmit_view c' = rexmit_view c"
proof -
  have p: "\<not> tv_ws_enabled (tc_vars c)" "\<not> tv_ts_enabled (tc_vars c)" "\<not> sacks_due (tc_vars c)" "0 < tv_snd_mss (tc_vars c)"
    "forward_snd_nxt c = Inr c" "(if tv_sack_enabled (tc_vars c)
      then xq_enqueueSentData (tv_snd_nxt (tc_vars c)) (tv_snd_nxt (tc_vars c) + b) (tc_rexmitQueue c)
      else Inr (tc_rexmitQueue c)) = Inr (tc_rexmitQueue c)"
    using c by (simp_all add: plain_def sacks_due_def forward_snd_nxt_def)
  have "c\<lparr>tc_rexmitQueue := tc_rexmitQueue c\<rparr> = c" by simp
  with sendSegment_run[OF p(1-5) q b p(6), where fl = fl and ?env0.0 = env0] show ?thesis unfolding env_def by simp
qed

section \<open>The segments of a window\<close>

text \<open>Segments that carry a stretch of the stream from a number on, without a gap.\<close>

fun stream_of :: "u32 \<Rightarrow> tcp_segment list \<Rightarrow> bool" where
  "stream_of n [] = True"
| "stream_of n (s # ss) = (tg_seq s = n \<and> stream_of (n + ucast (tg_len s)) ss)"

definition total_length :: "tcp_segment list \<Rightarrow> nat" where
  "total_length ss = (\<Sum>s\<leftarrow>ss. unat (tg_len s))"

lemma stream_of_append:
  "stream_of n (xs @ ys) \<longleftrightarrow> stream_of n xs \<and> stream_of (n + of_nat (total_length xs)) ys"
proof (induction xs arbitrary: n)
  case (Cons x xs)
  have "(ucast (tg_len x) :: u32) = of_nat (unat (tg_len x))" by simp
  then show ?case using Cons by (simp add: total_length_def add.assoc)
qed (simp add: total_length_def)

text \<open>The queue from \<open>snd_nxt\<close> on; a FIN that is due ends the data in the queue.\<close>

definition can_send :: "u32 \<Rightarrow> tcp_conn \<Rightarrow> bool" where
  "can_send w c \<longleftrightarrow> (let v = tc_vars c; q = tc_sendQueue c in
     plain c \<and> off w (sq_end q) + 2 < 2147483648 \<and> off w (sq_begin q) \<le> off w (tv_snd_nxt v) \<and>
     off w (tv_snd_nxt v) \<le> off w (sq_end q) \<and> (tv_send_fin v \<longrightarrow> tv_snd_fin_seq v = sq_end q))"

lemma can_send_core: "core c' = core c \<Longrightarrow> can_send w c' = can_send w c"
  by (simp add: can_send_def plain_core[of c' c] core_fields[of c' c] Let_def)

lemma can_sendD:
  assumes "can_send w c"
  shows "plain c" "near w (sq_end (tc_sendQueue c))" "off w (sq_begin (tc_sendQueue c)) \<le> off w (tv_snd_nxt (tc_vars c))"
    "off w (tv_snd_nxt (tc_vars c)) \<le> off w (sq_end (tc_sendQueue c))" "off w (sq_end (tc_sendQueue c)) + 2 < 2147483648"
    "tv_send_fin (tc_vars c) \<Longrightarrow> tv_snd_fin_seq (tc_vars c) = sq_end (tc_sendQueue c)"
proof -
  show "plain c" "off w (sq_begin (tc_sendQueue c)) \<le> off w (tv_snd_nxt (tc_vars c))"
    "off w (tv_snd_nxt (tc_vars c)) \<le> off w (sq_end (tc_sendQueue c))" and e: "off w (sq_end (tc_sendQueue c)) + 2 < 2147483648"
    and "tv_send_fin (tc_vars c) \<Longrightarrow> tv_snd_fin_seq (tc_vars c) = sq_end (tc_sendQueue c)"
    using assms unfolding can_send_def Let_def by blast+
  show "near w (sq_end (tc_sendQueue c))" using e by (simp add: near_def)
qed

text \<open>\<open>k\<close> bytes have been sent in the segments \<open>new\<close>, and the FIN with the last of them when it was due.\<close>

definition sent_data :: "u32 \<Rightarrow> tcp_conn \<Rightarrow> nat \<Rightarrow> tcp_segment list \<Rightarrow> tcp_conn \<Rightarrow> bool" where
  "sent_data w c k new c' \<longleftrightarrow>
     (\<exists>r n. core c' = setv (\<lambda>v. v\<lparr>tv_afterRto := r\<rparr>) (setv (\<lambda>v. v\<lparr>tv_snd_nxt := n\<rparr>) (core c)) \<and>
        off w n = off w (tv_snd_nxt (tc_vars c)) + k +
          (if tv_send_fin (tc_vars c) \<and> off w (tv_snd_nxt (tc_vars c)) + k = off w (sq_end (tc_sendQueue c)) then 1 else 0)) \<and>
     segments c' = segments c @ new \<and> stream_of (tv_snd_nxt (tc_vars c)) new \<and> total_length new = k"

lemma sent_data_fields:
  assumes "sent_data w c k new c'"
  shows "plain c' = plain c" "tc_sendQueue c' = tc_sendQueue c" "tv_send_fin (tc_vars c') = tv_send_fin (tc_vars c)"
    "tv_snd_fin_seq (tc_vars c') = tv_snd_fin_seq (tc_vars c)" "tv_snd_mss (tc_vars c') = tv_snd_mss (tc_vars c)"
    "tv_snd_una (tc_vars c') = tv_snd_una (tc_vars c)" "tv_snd_max (tc_vars c') = tv_snd_max (tc_vars c)"
    "off w (tv_snd_nxt (tc_vars c')) = off w (tv_snd_nxt (tc_vars c)) + k +
       (if tv_send_fin (tc_vars c) \<and> off w (tv_snd_nxt (tc_vars c)) + k = off w (sq_end (tc_sendQueue c)) then 1 else 0)"
proof -
  from assms obtain r n where c: "core c' = setv (\<lambda>v. v\<lparr>tv_afterRto := r\<rparr>) (setv (\<lambda>v. v\<lparr>tv_snd_nxt := n\<rparr>) (core c))"
    and n: "off w n = off w (tv_snd_nxt (tc_vars c)) + k +
       (if tv_send_fin (tc_vars c) \<and> off w (tv_snd_nxt (tc_vars c)) + k = off w (sq_end (tc_sendQueue c)) then 1 else 0)"
    unfolding sent_data_def by blast
  then have "core c' = core (setv (\<lambda>v. v\<lparr>tv_afterRto := r\<rparr>) (setv (\<lambda>v. v\<lparr>tv_snd_nxt := n\<rparr>) c))" by simp
  note f = core_fields[OF this] plain_core[OF this]
  show "plain c' = plain c" "tc_sendQueue c' = tc_sendQueue c" "tv_send_fin (tc_vars c') = tv_send_fin (tc_vars c)"
    "tv_snd_fin_seq (tc_vars c') = tv_snd_fin_seq (tc_vars c)" "tv_snd_mss (tc_vars c') = tv_snd_mss (tc_vars c)"
    "tv_snd_una (tc_vars c') = tv_snd_una (tc_vars c)" "tv_snd_max (tc_vars c') = tv_snd_max (tc_vars c)"
    "off w (tv_snd_nxt (tc_vars c')) = off w (tv_snd_nxt (tc_vars c)) + k +
       (if tv_send_fin (tc_vars c) \<and> off w (tv_snd_nxt (tc_vars c)) + k = off w (sq_end (tc_sendQueue c)) then 1 else 0)"
    using n by (simp_all add: f)
qed

lemma sent_data_fixed: "sent_data w c k new c' \<Longrightarrow> fixed c' = fixed c"
  unfolding sent_data_def using fixed_numbers by metis

lemma sent_data_trans:
  assumes 1: "sent_data w c k new c'" and 2: "sent_data w c' l new' c''"
    and nofin: "off w (tv_snd_nxt (tc_vars c)) + k < off w (sq_end (tc_sendQueue c))"
  shows "sent_data w c (k + l) (new @ new') c''"
proof -
  note f = sent_data_fields[OF 1]
  from 1 obtain r n where a: "core c' = setv (\<lambda>v. v\<lparr>tv_afterRto := r\<rparr>) (setv (\<lambda>v. v\<lparr>tv_snd_nxt := n\<rparr>) (core c))"
    and s1: "segments c' = segments c @ new" "stream_of (tv_snd_nxt (tc_vars c)) new" "total_length new = k"
    unfolding sent_data_def by blast
  from 2 obtain r' n' where b: "core c'' = setv (\<lambda>v. v\<lparr>tv_afterRto := r'\<rparr>) (setv (\<lambda>v. v\<lparr>tv_snd_nxt := n'\<rparr>) (core c'))"
    and n': "off w n' = off w (tv_snd_nxt (tc_vars c')) + l +
      (if tv_send_fin (tc_vars c') \<and> off w (tv_snd_nxt (tc_vars c')) + l = off w (sq_end (tc_sendQueue c')) then 1 else 0)"
    and s2: "segments c'' = segments c' @ new'" "stream_of (tv_snd_nxt (tc_vars c')) new'" "total_length new' = l"
    unfolding sent_data_def by blast
  have nx: "off w (tv_snd_nxt (tc_vars c')) = off w (tv_snd_nxt (tc_vars c)) + k" using f(8) nofin by simp
  have "off w (tv_snd_nxt (tc_vars c) + of_nat k) = off w (tv_snd_nxt (tc_vars c)) + k"
  proof -
    have k: "k < 4294967296" using nofin off_less[of w "sq_end (tc_sendQueue c)"] by linarith
    then have "unat (of_nat k :: u32) = k" by (simp add: unat_of_nat)
    then show ?thesis using off_add[of w "tv_snd_nxt (tc_vars c)" "of_nat k"] nofin off_less[of w "sq_end (tc_sendQueue c)"] by simp
  qed
  with nx have start: "tv_snd_nxt (tc_vars c') = tv_snd_nxt (tc_vars c) + of_nat k" using off_inj[of w] by metis
  have "core c'' = setv (\<lambda>v. v\<lparr>tv_afterRto := r'\<rparr>) (setv (\<lambda>v. v\<lparr>tv_snd_nxt := n'\<rparr>) (core c))" unfolding b a by (simp add: setv_def)
  moreover have "off w n' = off w (tv_snd_nxt (tc_vars c)) + (k + l) +
      (if tv_send_fin (tc_vars c) \<and> off w (tv_snd_nxt (tc_vars c)) + (k + l) = off w (sq_end (tc_sendQueue c)) then 1 else 0)"
    using n' nx f(2,3) by (simp add: add.assoc)
  moreover have "stream_of (tv_snd_nxt (tc_vars c)) (new @ new')" using s1(2,3) s2(2) start by (simp add: stream_of_append)
  moreover have "segments c'' = segments c @ (new @ new')" "total_length (new @ new') = k + l"
    using s1 s2 by (simp_all add: total_length_def)
  ultimately show ?thesis unfolding sent_data_def by blast
qed

lemma one_segment:
  fixes fl env0
  defines "env \<equiv> flavour_leaf fl env0"
  assumes c: "can_send w c"
  shows "\<exists>c' s. sendSegment env n c = Inr c' \<and> sent_data w c (unat (segment_length c n)) [s] c' \<and>
    tv_sentBytes (tc_vars c') = segment_length c n \<and> data_segment c (segment_length c n) s \<and> rexmit_view c' = rexmit_view c"
proof -
  note d = can_sendD[OF c]
  let ?b = "segment_length c n" and ?nxt = "tv_snd_nxt (tc_vars c)" and ?fin_at = "sq_end (tc_sendQueue c)"
  from sendSegment_plain[OF d(1-4) refl, where n = n and fl = fl and ?env0.0 = env0] obtain c' s where
    s: "sendSegment env n c = Inr c'"
      "core c' = setv (\<lambda>v. v\<lparr>tv_afterRto := rto_after c ?b\<rparr>) (setv (\<lambda>v. v\<lparr>tv_snd_nxt := nxt_after c ?b\<rparr>) (core c))"
      "tv_sentBytes (tc_vars c') = ?b" "segments c' = segments c @ [s]" "data_segment c ?b s" "rexmit_view c' = rexmit_view c"
    unfolding env_def by blast
  have "unat ?b \<le> off w ?fin_at - off w ?nxt"
    using bytes_available(1)[OF d(2,4)] by (simp add: segment_length_def min_def word_le_nat_alt)
  then have lim: "off w ?nxt + unat ?b \<le> off w ?fin_at" using d(4) by linarith
  have ob: "off w (?nxt + ?b) = off w ?nxt + unat ?b" by (rule off_add) (use lim d(5) in linarith)
  have fin: "fin_follows c ?b \<longleftrightarrow> tv_send_fin (tc_vars c) \<and> off w ?nxt + unat ?b = off w ?fin_at"
    using d(6) ob off_inj[of w "?nxt + ?b" ?fin_at] by (auto simp: fin_follows_def)
  have "off w (?nxt + ?b + 1) = Suc (off w ?nxt + unat ?b)" using off_suc[of w "?nxt + ?b"] ob lim d(5) by simp
  then have "off w (nxt_after c ?b) = off w ?nxt + unat ?b +
      (if tv_send_fin (tc_vars c) \<and> off w ?nxt + unat ?b = off w ?fin_at then 1 else 0)"
    using ob by (simp add: nxt_after_def fin)
  moreover have "stream_of ?nxt [s]" "total_length [s] = unat ?b"
    using s(5) by (simp_all add: data_segment_def total_length_def unsigned_ucast_eq take_bit_nat_eq_self)
  ultimately have "sent_data w c (unat ?b) [s] c'" unfolding sent_data_def using s(2,4) by blast
  with s show ?thesis by blast
qed

lemma can_send_next:
  assumes c: "can_send w c" and s: "sent_data w c k new c'"
    and lim: "off w (tv_snd_nxt (tc_vars c)) + k < off w (sq_end (tc_sendQueue c))"
  shows "can_send w c'"
  using can_sendD[OF c] sent_data_fields[OF s] lim by (simp add: can_send_def Let_def)

lemma unat_mss_64: "unat (ucast (m :: u32) :: u64) = unat m"
  using unsigned_less[of m] by (simp add: unsigned_ucast_eq take_bit_nat_eq_self)

text \<open>The loop sends full segments until less than one is left.\<close>

lemma send_loop_plain:
  fixes fl env0
  defines "env \<equiv> flavour_leaf fl env0"
  assumes "can_send w c" "unat bts \<le> off w (sq_end (tc_sendQueue c)) - off w (tv_snd_nxt (tc_vars c))"
    and "unat (tv_snd_mss (tc_vars c)) \<le> unat bts" "mss = tv_snd_mss (tc_vars c)"
  shows "\<exists>left c' new. send_loop env mss bts c = Some (Inr (left, c')) \<and> unat left < unat mss \<and> unat left < unat bts \<and>
    sent_data w c (unat bts - unat left) new c' \<and> (\<forall>s \<in> set new. tg_len s = ucast mss)"
  using assms(2-)
proof (induction "unat bts" arbitrary: bts c rule: less_induct)
  case less
  let ?nxt = "off w (tv_snd_nxt (tc_vars c))" and ?fin_at = "off w (sq_end (tc_sendQueue c))"
  have pos: "0 < unat mss" using can_sendD(1)[OF less.prems(1)] less.prems(4) by (simp add: plain_def unat_gt_0 word_gt_0)
  note d = can_sendD[OF less.prems(1)]
  have av: "unat (sq_getBytesAvailable (tv_snd_nxt (tc_vars c)) (tc_sendQueue c)) = ?fin_at - ?nxt"
    by (rule bytes_available(1)[OF d(2,4)])
  have sl: "segment_length c mss = mss"
    using less.prems av by (simp add: segment_length_def min_def word_le_nat_alt)
  from one_segment[OF less.prems(1), where n = mss and fl = fl and ?env0.0 = env0] obtain c1 s where
    1: "sendSegment env mss c = Inr c1" "sent_data w c (unat mss) [s] c1" "tv_sentBytes (tc_vars c1) = mss" "data_segment c mss s"
    unfolding env_def[symmetric] sl by blast
  have step: "send_loop env mss bts c = send_loop env mss (bts - ucast mss) c1"
    using less.prems(3,4) 1(1,3) by (subst send_loop.simps) (simp add: word_le_nat_alt unat_mss_64)
  have u: "unat (bts - ucast mss) = unat bts - unat mss"
    using less.prems(3,4) by (simp add: unat_sub word_le_nat_alt unat_mss_64)
  have ls: "tg_len s = ucast mss" using 1(4) by (simp add: data_segment_def)
  show ?case
  proof (cases "unat bts - unat mss < unat mss")
    case True
    have "send_loop env mss (bts - ucast mss) c1 = Some (Inr (bts - ucast mss, c1))"
      using True u by (subst send_loop.simps) (simp add: word_le_nat_alt unat_mss_64)
    moreover have "unat bts - unat (bts - ucast mss) = unat mss" using u less.prems(3,4) by simp
    ultimately show ?thesis using step 1(2) True u ls pos less.prems(3,4)
      by (intro exI[of _ "bts - ucast mss"] exI[of _ c1] exI[of _ "[s]"]) simp
  next
    case False
    have lim: "?nxt + unat mss < ?fin_at" using False less.prems(2) pos by linarith
    have c1: "can_send w c1" by (rule can_send_next[OF less.prems(1) 1(2) lim])
    note f = sent_data_fields[OF 1(2)]
    have "off w (tv_snd_nxt (tc_vars c1)) = ?nxt + unat mss" using f(8) lim by simp
    then have p: "unat (bts - ucast mss) \<le> off w (sq_end (tc_sendQueue c1)) - off w (tv_snd_nxt (tc_vars c1))"
      "unat (tv_snd_mss (tc_vars c1)) \<le> unat (bts - ucast mss)" "mss = tv_snd_mss (tc_vars c1)"
      using less.prems(2,4) u f(2,5) False by simp_all
    have less': "unat (bts - ucast mss) < unat bts" using u pos less.prems(3,4) by simp
    from less.hyps[OF less' c1 p] obtain left c' new where
      2: "send_loop env mss (bts - ucast mss) c1 = Some (Inr (left, c'))" "unat left < unat mss" "unat left < unat (bts - ucast mss)"
        "sent_data w c1 (unat (bts - ucast mss) - unat left) new c'" "\<forall>s \<in> set new. tg_len s = ucast mss" by blast
    have k: "unat mss + (unat (bts - ucast mss) - unat left) = unat bts - unat left" using u 2(3) less.prems(3,4) by simp
    from sent_data_trans[OF 1(2) 2(4) lim] have "sent_data w c (unat bts - unat left) ([s] @ new) c'" unfolding k .
    then show ?thesis using step 2 ls u less'
      by (intro exI[of _ left] exI[of _ c'] exI[of _ "[s] @ new"]) simp
  qed
qed

section \<open>sendData\<close>

text \<open>
  The invariant of the sender of a plain connection: \<open>snd_ok\<close>, the SYN is acknowledged, a deferred
  close marks the end of the queue, and all of the queue lies in half of the number space.
\<close>

definition sender_ok :: "u32 \<Rightarrow> tcp_conn \<Rightarrow> bool" where
  "sender_ok w c \<longleftrightarrow> (let v = tc_vars c; q = tc_sendQueue c in
     snd_ok w c \<and> plain c \<and> off w (sq_begin q) \<le> off w (tv_snd_una v) \<and> off w (sq_end q) + 2 < 2147483648 \<and>
     (tv_send_fin v \<longrightarrow> tv_snd_fin_seq v = sq_end q \<and> tv_snd_max v \<noteq> sq_end q))"

lemma sender_okD:
  assumes "sender_ok w c"
  shows "snd_ok w c" "plain c" "off w (sq_begin (tc_sendQueue c)) \<le> off w (tv_snd_una (tc_vars c))"
    "off w (sq_end (tc_sendQueue c)) + 2 < 2147483648"
    "tv_send_fin (tc_vars c) \<Longrightarrow> tv_snd_fin_seq (tc_vars c) = sq_end (tc_sendQueue c) \<and> tv_snd_max (tc_vars c) \<noteq> sq_end (tc_sendQueue c)"
    "off w (tv_snd_una (tc_vars c)) \<le> off w (tv_snd_nxt (tc_vars c))" "off w (tv_snd_nxt (tc_vars c)) \<le> off w (tv_snd_max (tc_vars c))"
    "off w (tv_snd_max (tc_vars c)) \<le> off w (sq_end (tc_sendQueue c)) + (if tv_send_fin (tc_vars c) then 1 else 0)"
    "off w (sq_begin (tc_sendQueue c)) \<le> off w (sq_end (tc_sendQueue c))"
proof -
  show ok: "snd_ok w c" "plain c" "off w (sq_begin (tc_sendQueue c)) \<le> off w (tv_snd_una (tc_vars c))"
    "off w (sq_end (tc_sendQueue c)) + 2 < 2147483648"
    "tv_send_fin (tc_vars c) \<Longrightarrow> tv_snd_fin_seq (tc_vars c) = sq_end (tc_sendQueue c) \<and> tv_snd_max (tc_vars c) \<noteq> sq_end (tc_sendQueue c)"
    using assms unfolding sender_ok_def Let_def by blast+
  have o: "off w (tv_snd_una (tc_vars c)) \<le> off w (tv_snd_nxt (tc_vars c))" "off w (tv_snd_nxt (tc_vars c)) \<le> off w (tv_snd_max (tc_vars c))"
    "\<not> tv_send_fin (tc_vars c) \<longrightarrow> off w (tv_snd_max (tc_vars c)) \<le> off w (sq_end (tc_sendQueue c))"
    "tv_send_fin (tc_vars c) \<longrightarrow> off w (tv_snd_max (tc_vars c)) \<le> Suc (off w (tv_snd_fin_seq (tc_vars c)))"
    "off w (sq_begin (tc_sendQueue c)) \<le> off w (sq_end (tc_sendQueue c))"
    using ok(1) unfolding snd_ok_def Let_def by blast+
  then show "off w (tv_snd_una (tc_vars c)) \<le> off w (tv_snd_nxt (tc_vars c))" "off w (tv_snd_nxt (tc_vars c)) \<le> off w (tv_snd_max (tc_vars c))"
    "off w (sq_begin (tc_sendQueue c)) \<le> off w (sq_end (tc_sendQueue c))" by blast+
  show "off w (tv_snd_max (tc_vars c)) \<le> off w (sq_end (tc_sendQueue c)) + (if tv_send_fin (tc_vars c) then 1 else 0)"
    using o(3,4) ok(5) by (cases "tv_send_fin (tc_vars c)") auto
qed

text \<open>The numbers of the sender, from which the invariant follows.\<close>

lemma sender_okI:
  assumes "plain c" "off w (sq_end (tc_sendQueue c)) + 2 < 2147483648"
    "off w (sq_begin (tc_sendQueue c)) \<le> off w (tv_snd_una (tc_vars c))" "off w (sq_begin (tc_sendQueue c)) \<le> off w (sq_end (tc_sendQueue c))"
    "off w (tv_snd_una (tc_vars c)) \<le> off w (tv_snd_nxt (tc_vars c))" "off w (tv_snd_nxt (tc_vars c)) \<le> off w (tv_snd_max (tc_vars c))"
    "off w (tv_snd_max (tc_vars c)) \<le> off w (sq_end (tc_sendQueue c)) + (if tv_send_fin (tc_vars c) then 1 else 0)"
    "tv_send_fin (tc_vars c) \<Longrightarrow> tv_snd_fin_seq (tc_vars c) = sq_end (tc_sendQueue c) \<and> tv_snd_max (tc_vars c) \<noteq> sq_end (tc_sendQueue c)"
  shows "sender_ok w c"
proof -
  have "near w (tv_snd_max (tc_vars c))" "near w (sq_end (tc_sendQueue c))" "Suc (off w (tv_snd_max (tc_vars c))) < 2147483648"
    using assms(2,7) by (auto simp: near_def split: if_splits)
  then show ?thesis using assms by (auto simp: sender_ok_def snd_ok_def plain_def Let_def split: if_splits)
qed

lemma sender_ok_core: "core c' = core c \<Longrightarrow> sender_ok w c' = sender_ok w c"
  by (simp add: sender_ok_def snd_ok_def fin_sent_def plain_core[of c' c] core_fields[of c' c] Let_def)

lemma nothing_available:
  assumes "off w (sq_end q) \<le> off w x" "off w x < 2147483648"
  shows "sq_getBytesAvailable x q = 0"
proof -
  have "near w (sq_end q)" "near w x" using assms by (simp_all add: near_def)
  from seq_near(1)[OF this(2,1)] assms(1) show ?thesis by (simp add: sq_getBytesAvailable_def)
qed

text \<open>How many bytes are sent: all of them are in the queue and in the windows.\<close>

lemma bytes_to_send_bounds:
  assumes b: "bytes_to_send full cwnd c = Some bts"
    and o: "off w (tv_snd_una (tc_vars c)) \<le> off w (tv_snd_nxt (tc_vars c))" "off w (tv_snd_nxt (tc_vars c)) < 2147483648"
      "near w (sq_end (tc_sendQueue c))"
  shows "off w (tv_snd_nxt (tc_vars c)) < off w (sq_end (tc_sendQueue c))" "0 < unat bts"
    "unat bts \<le> off w (sq_end (tc_sendQueue c)) - off w (tv_snd_nxt (tc_vars c))"
    "off w (tv_snd_nxt (tc_vars c)) + unat bts \<le> off w (tv_snd_una (tc_vars c)) + unat (min (tv_snd_wnd (tc_vars c)) cwnd)"
    "off w (tv_snd_nxt (tc_vars c)) + unat bts =
       min (off w (sq_end (tc_sendQueue c))) (off w (tv_snd_una (tc_vars c)) + unat (min (tv_snd_wnd (tc_vars c)) cwnd))"
proof -
  let ?av = "sq_getBytesAvailable (tv_snd_nxt (tc_vars c)) (tc_sendQueue c)"
  define eff where "eff = uint (min (tv_snd_wnd (tc_vars c)) cwnd) - uint (tv_snd_nxt (tc_vars c) - tv_snd_una (tc_vars c))"
  have r: "?av \<noteq> 0" "0 < eff" "bts = (if uint ?av < eff then ucast ?av else of_int eff)"
    using b unfolding bytes_to_send_def Let_def eff_def[symmetric] by (auto split: if_splits)
  show lt: "off w (tv_snd_nxt (tc_vars c)) < off w (sq_end (tc_sendQueue c))"
  proof (rule ccontr)
    assume "\<not> ?thesis"
    then have "?av = 0" by (intro nothing_available[of w]) (use o(2) in simp_all)
    with r(1) show False by simp
  qed
  have av: "unat ?av = off w (sq_end (tc_sendQueue c)) - off w (tv_snd_nxt (tc_vars c))"
    by (rule bytes_available(1)[OF o(3)]) (use lt in simp)
  have d: "unat (tv_snd_nxt (tc_vars c) - tv_snd_una (tc_vars c)) = off w (tv_snd_nxt (tc_vars c)) - off w (tv_snd_una (tc_vars c))"
    by (rule unat_diff_near[OF o(1)])
  have e: "eff = int (unat (min (tv_snd_wnd (tc_vars c)) cwnd)) - int (off w (tv_snd_nxt (tc_vars c)) - off w (tv_snd_una (tc_vars c)))"
    by (simp only: eff_def uint_nat d)
  have small: "eff < 4294967296" using u32_less[of "min (tv_snd_wnd (tc_vars c)) cwnd"] unfolding e by linarith
  have nb: "int (unat bts) = (if int (unat ?av) < eff then int (unat ?av) else eff)"
  proof (cases "uint ?av < eff")
    case True
    then show ?thesis using r(3) by (simp add: unat_mss_64)
  next
    case False
    have "uint (of_int eff :: u64) = eff" using r(2) small by (simp add: uint_word_of_int)
    then show ?thesis using False r(3) by simp
  qed
  have "0 < int (unat ?av)" using r(1) unat_gt_0[of ?av] by linarith
  with nb have m: "int (unat bts) \<le> int (unat ?av)" "int (unat bts) \<le> eff" "0 < int (unat bts)"
    using r(2) by (auto simp only: split: if_splits)
  show "0 < unat bts" "unat bts \<le> off w (sq_end (tc_sendQueue c)) - off w (tv_snd_nxt (tc_vars c))"
    using m(1,3) av by linarith+
  show "off w (tv_snd_nxt (tc_vars c)) + unat bts \<le> off w (tv_snd_una (tc_vars c)) + unat (min (tv_snd_wnd (tc_vars c)) cwnd)"
    using m(2) o(1) unfolding e by linarith
  have "int (unat bts) = min (int (unat ?av)) eff" using nb by (simp add: min_def)
  then show "off w (tv_snd_nxt (tc_vars c)) + unat bts =
       min (off w (sq_end (tc_sendQueue c))) (off w (tv_snd_una (tc_vars c)) + unat (min (tv_snd_wnd (tc_vars c)) cwnd))"
    using o(1) lt unfolding e av by linarith
qed

lemma nothing_to_send:
  assumes b: "bytes_to_send False cwnd c = None"
    and o: "off w (tv_snd_una (tc_vars c)) \<le> off w (tv_snd_nxt (tc_vars c))" "near w (sq_end (tc_sendQueue c))"
  shows "off w (sq_end (tc_sendQueue c)) \<le> off w (tv_snd_nxt (tc_vars c)) \<or>
    off w (tv_snd_una (tc_vars c)) + unat (min (tv_snd_wnd (tc_vars c)) cwnd) \<le> off w (tv_snd_nxt (tc_vars c))"
proof (rule ccontr)
  assume "\<not> ?thesis"
  then have n: "off w (tv_snd_nxt (tc_vars c)) < off w (sq_end (tc_sendQueue c))"
    "off w (tv_snd_nxt (tc_vars c)) < off w (tv_snd_una (tc_vars c)) + unat (min (tv_snd_wnd (tc_vars c)) cwnd)" by linarith+
  let ?av = "sq_getBytesAvailable (tv_snd_nxt (tc_vars c)) (tc_sendQueue c)"
  have av: "unat ?av = off w (sq_end (tc_sendQueue c)) - off w (tv_snd_nxt (tc_vars c))"
    by (rule bytes_available(1)[OF o(2)]) (use n in simp)
  have "0 < unat ?av" unfolding av using n(1) by simp
  then have a: "?av \<noteq> 0" by auto
  have d: "unat (tv_snd_nxt (tc_vars c) - tv_snd_una (tc_vars c)) = off w (tv_snd_nxt (tc_vars c)) - off w (tv_snd_una (tc_vars c))"
    by (rule unat_diff_near[OF o(1)])
  have "0 < int (unat (min (tv_snd_wnd (tc_vars c)) cwnd)) - int (off w (tv_snd_nxt (tc_vars c)) - off w (tv_snd_una (tc_vars c)))"
    using n(2) o(1) by linarith
  then have "0 < uint (min (tv_snd_wnd (tc_vars c)) cwnd) - uint (tv_snd_nxt (tc_vars c) - tv_snd_una (tc_vars c))"
    by (simp only: uint_nat d)
  with a b show False by (simp add: bytes_to_send_def Let_def)
qed

text \<open>The segments of one call: all but the last are full.\<close>

definition full_segments :: "u32 \<Rightarrow> tcp_segment list \<Rightarrow> bool" where
  "full_segments mss ss \<longleftrightarrow> (\<forall>s \<in> set ss. unat (tg_len s) \<le> unat mss) \<and> (\<forall>s \<in> set (butlast ss). tg_len s = ucast mss)"

lemma full_segmentsI: "(\<forall>s \<in> set ss. tg_len s = ucast mss) \<Longrightarrow> full_segments mss ss"
  by (auto simp: full_segments_def unat_mss_64 dest: in_set_butlastD)

lemma full_segments_snoc: "(\<forall>s \<in> set ss. tg_len s = ucast mss) \<Longrightarrow> unat (tg_len s) \<le> unat mss \<Longrightarrow> full_segments mss (ss @ [s])"
  by (auto simp: full_segments_def unat_mss_64)

lemma send_first:
  fixes fl env0
  defines "env \<equiv> flavour_leaf fl env0"
  assumes c: "can_send w c" and b: "0 < unat bts" "unat bts \<le> off w (sq_end (tc_sendQueue c)) - off w (tv_snd_nxt (tc_vars c))"
  shows "\<exists>left c' new. (if bts \<le> ucast (tv_snd_mss (tc_vars c))
       then bindE (sendSegment env (ucast bts) c) (\<lambda>c1. Inr (bts - ucast (tv_sentBytes (tc_vars c1)), c1))
       else returns (send_loop env (effective_max (tc_vars c)) bts c)) = Inr (left, c') \<and>
     unat left < unat bts \<and> unat left < unat (tv_snd_mss (tc_vars c)) \<and> sent_data w c (unat bts - unat left) new c' \<and>
     full_segments (tv_snd_mss (tc_vars c)) new \<and> (left \<noteq> 0 \<longrightarrow> (\<forall>s \<in> set new. tg_len s = ucast (tv_snd_mss (tc_vars c))))"
proof (cases "bts \<le> ucast (tv_snd_mss (tc_vars c))")
  case True
  note d = can_sendD[OF c]
  have le: "unat bts \<le> unat (tv_snd_mss (tc_vars c))" using True by (simp add: word_le_nat_alt unat_mss_64)
  have "unat (tv_snd_mss (tc_vars c)) < 4294967296" using u32_less[of "tv_snd_mss (tc_vars c)"] by simp
  with le have ub: "unat (ucast bts :: u32) = unat bts" by (simp add: unsigned_ucast_eq take_bit_nat_eq_self)
  have "segment_length c (ucast bts) = ucast bts"
    using bytes_available(1)[OF d(2,4)] b(2) le ub by (simp add: segment_length_def min_def word_le_nat_alt)
  with one_segment[OF c, where n = "ucast bts" and fl = fl and ?env0.0 = env0] obtain c' s where
    1: "sendSegment env (ucast bts) c = Inr c'" "sent_data w c (unat bts) [s] c'" "tv_sentBytes (tc_vars c') = ucast bts"
      "data_segment c (ucast bts) s"
    unfolding env_def ub by (metis ub)
  have "(ucast (ucast bts :: u32) :: u64) = bts" using ub by (simp add: word_unat_eq_iff unat_mss_64)
  then show ?thesis using True 1 b(1) d(1) le
    by (intro exI[of _ 0] exI[of _ c'] exI[of _ "[s]"])
       (simp add: full_segments_def data_segment_def unat_mss_64 ub plain_def unat_gt_0 word_gt_0)
next
  case False
  note d = can_sendD[OF c]
  have eff: "effective_max (tc_vars c) = tv_snd_mss (tc_vars c)" using d(1) by (simp add: effective_max_def plain_def)
  have "unat (tv_snd_mss (tc_vars c)) \<le> unat bts" using False by (simp add: word_le_nat_alt unat_mss_64)
  from send_loop_plain[OF c b(2) this refl, where fl = fl and ?env0.0 = env0] obtain left c' new where
    1: "send_loop env (tv_snd_mss (tc_vars c)) bts c = Some (Inr (left, c'))" "unat left < unat (tv_snd_mss (tc_vars c))"
      "unat left < unat bts" "sent_data w c (unat bts - unat left) new c'" "\<forall>s \<in> set new. tg_len s = ucast (tv_snd_mss (tc_vars c))"
    unfolding env_def by blast
  then show ?thesis using False eff full_segmentsI[OF 1(5)] by (auto simp: returns_def)
qed

text \<open>The last segment, which is short, is sent only when it empties the queue.\<close>

lemma send_rest:
  fixes fl env0
  defines "env \<equiv> flavour_leaf fl env0"
  assumes c: "can_send w c" and b: "0 < unat bts" "unat bts \<le> off w (sq_end (tc_sendQueue c)) - off w (tv_snd_nxt (tc_vars c))"
  shows "\<exists>left c1 c2 k new. (if bts \<le> ucast (tv_snd_mss (tc_vars c))
       then bindE (sendSegment env (ucast bts) c) (\<lambda>c1. Inr (bts - ucast (tv_sentBytes (tc_vars c1)), c1))
       else returns (send_loop env (effective_max (tc_vars c)) bts c)) = Inr (left, c1) \<and>
     (let buffered = sq_getBytesAvailable (tv_snd_nxt (tc_vars c1)) (tc_sendQueue c1) in
       (if left = ucast buffered \<and> buffered \<noteq> 0 then sendSegment env (ucast left) c1 else Inr c1)) = Inr c2 \<and>
     0 < k \<and> k \<le> unat bts \<and> unat bts - k < unat (tv_snd_mss (tc_vars c)) \<and>
     sent_data w c k new c2 \<and> full_segments (tv_snd_mss (tc_vars c)) new"
proof -
  note d = can_sendD[OF c]
  let ?mss = "tv_snd_mss (tc_vars c)"
  from send_first[OF c b, where fl = fl and ?env0.0 = env0] obtain left c1 new where
    1: "(if bts \<le> ucast ?mss
       then bindE (sendSegment env (ucast bts) c) (\<lambda>c1. Inr (bts - ucast (tv_sentBytes (tc_vars c1)), c1))
       else returns (send_loop env (effective_max (tc_vars c)) bts c)) = Inr (left, c1)"
      "unat left < unat bts" "unat left < unat ?mss" "sent_data w c (unat bts - unat left) new c1" "full_segments ?mss new"
      "left \<noteq> 0 \<longrightarrow> (\<forall>s \<in> set new. tg_len s = ucast ?mss)"
    unfolding env_def by blast
  let ?bf = "sq_getBytesAvailable (tv_snd_nxt (tc_vars c1)) (tc_sendQueue c1)"
  show ?thesis
  proof (cases "left = ucast ?bf \<and> ?bf \<noteq> 0")
    case False
    then show ?thesis using 1 b(1)
      by (intro exI[of _ left] exI[of _ c1] exI[of _ c1] exI[of _ "unat bts - unat left"] exI[of _ new])
         (simp only: Let_def if_False, simp)
  next
    case True
    then have ub: "unat left = unat ?bf" by (simp add: unat_mss_64)
    have p0: "0 < unat left" unfolding ub using True unat_gt_0[of ?bf] by simp
    have pos: "0 < unat left" "left \<noteq> 0" using p0 by auto
    have lim: "off w (tv_snd_nxt (tc_vars c)) + (unat bts - unat left) < off w (sq_end (tc_sendQueue c))"
      using b(2) pos 1(2) by linarith
    note f = sent_data_fields[OF 1(4)]
    have c1: "can_send w c1" by (rule can_send_next[OF c 1(4) lim])
    have le: "(ucast left :: u32) = ?bf" using True by (simp add: u64_round_trip)
    have sl: "segment_length c1 (ucast left) = ?bf"
      using 1(3) ub unfolding segment_length_def le f(5) by (simp add: min_def word_le_nat_alt)
    from one_segment[OF c1, where n = "ucast left" and fl = fl and ?env0.0 = env0] obtain c2 s where
      2: "sendSegment env (ucast left) c1 = Inr c2" "sent_data w c1 (unat left) [s] c2" "data_segment c1 ?bf s"
      unfolding env_def sl ub by blast
    have k: "unat bts - unat left + unat left = unat bts" using 1(2) by simp
    have "sent_data w c (unat bts) (new @ [s]) c2" using sent_data_trans[OF 1(4) 2(2) lim] unfolding k .
    moreover have "unat (tg_len s) \<le> unat ?mss" using 2(3) ub 1(3) by (simp add: data_segment_def unat_mss_64)
    then have "full_segments ?mss (new @ [s])" using 1(6) pos(2) by (intro full_segments_snoc) simp_all
    moreover have "0 < unat ?mss" using 1(3) by linarith
    moreover have "(let buffered = ?bf in (if left = ucast buffered \<and> buffered \<noteq> 0 then sendSegment env (ucast left) c1 else Inr c1)) = Inr c2"
      using True 2(1) by (simp only: Let_def if_True simp_thms)
    ultimately show ?thesis using 1(1) b(1)
      by (intro exI[of _ left] exI[of _ c1] exI[of _ c2] exI[of _ "unat bts"] exI[of _ "new @ [s]"]) (simp only: simp_thms, simp)
  qed
qed

text \<open>\<open>snd_max\<close> follows \<open>snd_nxt\<close>, and the invariant is kept.\<close>

lemma raise_snd_max_ok:
  assumes "sender_ok w c" and s: "sent_data w c k new c'" and k: "off w (tv_snd_nxt (tc_vars c)) + k \<le> off w (sq_end (tc_sendQueue c))"
  shows "sender_ok w (raise_snd_max c')"
    "off w (tv_snd_max (tc_vars (raise_snd_max c'))) = max (off w (tv_snd_max (tc_vars c))) (off w (tv_snd_nxt (tc_vars c')))"
proof -
  note d = sender_okD[OF assms(1)] and f = sent_data_fields[OF s]
  let ?mx = "tv_snd_max (tc_vars c)" and ?nx = "tv_snd_nxt (tc_vars c')" and ?e = "sq_end (tc_sendQueue c)"
  have nx: "off w ?nx \<le> off w ?e + (if tv_send_fin (tc_vars c) then 1 else 0)" "tv_send_fin (tc_vars c) \<Longrightarrow> off w ?nx \<noteq> off w ?e"
    "off w (tv_snd_nxt (tc_vars c)) \<le> off w ?nx"
    using f(8) k by (auto split: if_splits)
  have n: "near w ?nx" "near w ?mx" using nx(1) d(4,8) by (auto simp: near_def split: if_splits)
  let ?c = "raise_snd_max c'"
  have r: "tv_snd_max (tc_vars ?c) = (if off w ?mx < off w ?nx then ?nx else ?mx)"
    using seq_near(3)[OF n] f(7) by (simp add: raise_snd_max_def setv_def)
  then show mx: "off w (tv_snd_max (tc_vars ?c)) = max (off w ?mx) (off w ?nx)" by (simp add: max_def)
  have same: "tc_sendQueue ?c = tc_sendQueue c" "plain ?c" "tv_snd_una (tc_vars ?c) = tv_snd_una (tc_vars c)"
    "tv_snd_nxt (tc_vars ?c) = ?nx" "tv_send_fin (tc_vars ?c) = tv_send_fin (tc_vars c)"
    "tv_snd_fin_seq (tc_vars ?c) = tv_snd_fin_seq (tc_vars c)"
    using f d(2) by (simp_all add: raise_snd_max_def setv_def plain_def)
  show "sender_ok w ?c"
  proof (rule sender_okI)
    show "off w (tv_snd_max (tc_vars ?c)) \<le> off w (sq_end (tc_sendQueue ?c)) + (if tv_send_fin (tc_vars ?c) then 1 else 0)"
      unfolding mx same using nx(1) d(8) by simp
    show "tv_snd_fin_seq (tc_vars ?c) = sq_end (tc_sendQueue ?c) \<and> tv_snd_max (tc_vars ?c) \<noteq> sq_end (tc_sendQueue ?c)"
      if "tv_send_fin (tc_vars ?c)"
      using that d(5) nx(2) unfolding same r by auto
    show "off w (tv_snd_nxt (tc_vars ?c)) \<le> off w (tv_snd_max (tc_vars ?c))" unfolding mx same by simp
    show "off w (tv_snd_una (tc_vars ?c)) \<le> off w (tv_snd_nxt (tc_vars ?c))" unfolding same using d(6) nx(3) by linarith
  qed (use d in \<open>simp_all only: same\<close>)
qed

text \<open>Where \<open>sendData\<close> begins: behind all that was sent, or at \<open>snd_nxt\<close> after a retransmission timeout.\<close>

definition send_start :: "tcp_conn \<Rightarrow> tcp_conn" where
  "send_start c = (if \<not> tv_afterRto (tc_vars c) then setv (\<lambda>v. v\<lparr>tv_snd_nxt := tv_snd_max v\<rparr>) c else c)"

lemma send_start_ok:
  assumes "sender_ok w c"
  shows "sender_ok w (send_start c)"
proof (cases "tv_afterRto (tc_vars c)")
  case False
  note d = sender_okD[OF assms]
  let ?c = "send_start c"
  have same: "tc_sendQueue ?c = tc_sendQueue c" "plain ?c = plain c" "tv_snd_una (tc_vars ?c) = tv_snd_una (tc_vars c)"
    "tv_snd_nxt (tc_vars ?c) = tv_snd_max (tc_vars c)" "tv_send_fin (tc_vars ?c) = tv_send_fin (tc_vars c)"
    "tv_snd_fin_seq (tc_vars ?c) = tv_snd_fin_seq (tc_vars c)" "tv_snd_max (tc_vars ?c) = tv_snd_max (tc_vars c)"
    using False by (simp_all add: send_start_def setv_def plain_def)
  show ?thesis by (rule sender_okI) (use d in \<open>simp_all only: same\<close>, simp_all)
qed (use assms in \<open>simp add: send_start_def\<close>)

lemma send_start_simps [simp]: "segments (send_start c) = segments c"
  "tc_sendQueue (send_start c) = tc_sendQueue c" "tv_snd_una (tc_vars (send_start c)) = tv_snd_una (tc_vars c)"
  "tv_snd_wnd (tc_vars (send_start c)) = tv_snd_wnd (tc_vars c)" "tv_snd_mss (tc_vars (send_start c)) = tv_snd_mss (tc_vars c)"
  "tv_snd_max (tc_vars (send_start c)) = tv_snd_max (tc_vars c)" "tc_alg (send_start c) = tc_alg c"
  by (simp_all add: send_start_def setv_def segments_def)

lemma sender_can_send:
  assumes "sender_ok w c" "off w (tv_snd_nxt (tc_vars c)) < off w (sq_end (tc_sendQueue c))"
  shows "can_send w c"
  using sender_okD[OF assms(1)] assms(2) by (auto simp: can_send_def Let_def)

lemma send_window_run:
  fixes fl env0
  defines "env \<equiv> flavour_leaf fl env0"
  assumes ok: "sender_ok w c"
    and b: "bytes_to_send full cwnd (send_start c) = Some bts"
  shows "\<exists>c' new k. sendData env full cwnd c = Inr (True, c') \<and> sender_ok w c' \<and> segments c' = segments c @ new \<and>
     stream_of (tv_snd_nxt (tc_vars (send_start c))) new \<and> full_segments (tv_snd_mss (tc_vars c)) new \<and>
     total_length new = k \<and> 0 < k \<and> k \<le> unat bts \<and> unat bts - k < unat (tv_snd_mss (tc_vars c)) \<and>
     fixed c' = fixed c \<and>
     off w (tv_snd_max (tc_vars c')) = max (off w (tv_snd_max (tc_vars c))) (off w (tv_snd_nxt (tc_vars c')))"
proof -
  let ?s = "send_start c"
  have ok1: "sender_ok w ?s" by (rule send_start_ok[OF ok])
  note d = sender_okD[OF ok1]
  have ne: "near w (sq_end (tc_sendQueue ?s))" using d(4) by (simp add: near_def)
  have nx: "off w (tv_snd_nxt (tc_vars ?s)) < 2147483648" using d(4,7,8) by (auto split: if_splits)
  note bb = bytes_to_send_bounds[OF b d(6) nx ne]
  have can: "can_send w ?s" by (rule sender_can_send[OF ok1 bb(1)])
  from send_rest[OF can bb(2,3), where fl = fl and ?env0.0 = env0] obtain left c1 c2 k new where
    1: "(if bts \<le> ucast (tv_snd_mss (tc_vars ?s))
       then bindE (sendSegment env (ucast bts) ?s) (\<lambda>c1. Inr (bts - ucast (tv_sentBytes (tc_vars c1)), c1))
       else returns (send_loop env (effective_max (tc_vars ?s)) bts ?s)) = Inr (left, c1)"
     "(let buffered = sq_getBytesAvailable (tv_snd_nxt (tc_vars c1)) (tc_sendQueue c1) in
       (if left = ucast buffered \<and> buffered \<noteq> 0 then sendSegment env (ucast left) c1 else Inr c1)) = Inr c2"
     "0 < k" "k \<le> unat bts" "unat bts - k < unat (tv_snd_mss (tc_vars ?s))"
     "sent_data w ?s k new c2" "full_segments (tv_snd_mss (tc_vars ?s)) new"
    unfolding env_def by blast
  have lim: "off w (tv_snd_nxt (tc_vars ?s)) + k \<le> off w (sq_end (tc_sendQueue ?s))" using 1(4) bb(1,3) by linarith
  note r = raise_snd_max_ok[OF ok1 1(6) lim] and f = sent_data_fields[OF 1(6)]
  let ?m = "raise_snd_max c2"
  from leaf_calls(1)[of fl env0 ?m] obtain c3 where 3: "te_call env AckSent ?m = Inr c3" "core c3 = core ?m" "segments c3 = segments ?m"
    unfolding env_def by blast
  have sack: "tv_sack_enabled (tc_vars c3) = False"
    using sender_okD(2)[OF r(1)] core_fields(14)[OF 3(2)] by (simp add: plain_def)
  from leaf_calls(2)[of fl env0 "tv_snd_nxt (tc_vars ?s)" c3] obtain c4 where
    4: "te_call env (DataSent (tv_snd_nxt (tc_vars ?s))) c3 = Inr c4" "core c4 = core c3" "segments c4 = segments c3"
    unfolding env_def by blast
  have run: "sendData env full cwnd c = Inr (True, c4)"
    using 1(2) unfolding sendData_def Let_def send_start_def[symmetric] b option.case 1(1) bindE_simps prod.case
    by (simp only: bindE_simps 3(1) sack simp_thms if_False 4(1))
  have cc: "core c4 = core ?m" using 3(2) 4(2) by simp
  note g = core_fields[OF cc]
  have "segments ?m = segments c2" "tv_snd_nxt (tc_vars ?m) = tv_snd_nxt (tc_vars c2)"
    by (simp_all add: raise_snd_max_def setv_def segments_def)
  moreover have "fixed c4 = fixed c"
    using fixed_core[OF cc] sent_data_fixed[OF 1(6)] by (simp add: raise_snd_max_def send_start_def split: if_splits)
  moreover have "segments c2 = segments c @ new" "stream_of (tv_snd_nxt (tc_vars ?s)) new" "total_length new = k"
    using 1(6) by (simp_all add: sent_data_def)
  moreover have "sender_ok w c4" using sender_ok_core[OF cc] r(1) by simp
  ultimately show ?thesis
    using run 3(3) 4(3) 1(3,4,5,7) g(6,7) f(7) r(2)
    by (intro exI[of _ c4] exI[of _ new] exI[of _ k]) simp
qed

text \<open>The restriction of Nagle: it only refuses what is less than a full segment.\<close>

lemma bytes_to_send_full:
  "bytes_to_send full cwnd c = (case bytes_to_send False cwnd c of None \<Rightarrow> None
     | Some b \<Rightarrow> if full \<and> b < ucast (effective_max (tc_vars c)) then None else Some b)"
  by (simp add: bytes_to_send_def Let_def)

lemma bytes_to_send_full_plain:
  assumes "plain c"
  shows "bytes_to_send full cwnd c = Some b \<longleftrightarrow>
     bytes_to_send False cwnd c = Some b \<and> (full \<longrightarrow> unat (tv_snd_mss (tc_vars c)) \<le> unat b)"
proof -
  have "effective_max (tc_vars c) = tv_snd_mss (tc_vars c)" using assms by (simp add: effective_max_def plain_def)
  then show ?thesis
    by (auto simp: bytes_to_send_full[of full] word_less_nat_alt unat_mss_64 split: option.splits if_splits)
qed

text \<open>
  C6: what \<open>sendData\<close> does on a plain connection (the default: no time stamps, SACK or window scaling)
  whose sender is in order, without and with the restriction to full segments (\<open>fullSegmentsOnly\<close>, which
  Nagle's algorithm asks for).  It never fails, and its loop ends.  The segments it sends carry one
  gapless stretch of the stream from \<open>send_start\<close> on, all but the last of them full; nothing goes out
  beyond the end of the queue or beyond the smaller of the send window and the congestion window, and
  less than one segment of what may be sent stays behind.  It sends nothing exactly when the data or
  the window is used up or, under the restriction, when what may be sent is less than a full segment;
  and the sender stays in order.
\<close>

theorem send_window:
  assumes "sender_ok w c"
  shows "\<exists>sent c' new. sendData (flavour_leaf fl env0) full cwnd c = Inr (sent, c') \<and> sender_ok w c' \<and>
     segments c' = segments c @ new \<and> stream_of (tv_snd_nxt (tc_vars (send_start c))) new \<and>
     full_segments (tv_snd_mss (tc_vars c)) new \<and> tc_sendQueue c' = tc_sendQueue c \<and> tv_snd_una (tc_vars c') = tv_snd_una (tc_vars c) \<and>
     (let start = off w (tv_snd_nxt (tc_vars (send_start c)));
          limit = min (off w (sq_end (tc_sendQueue c))) (off w (tv_snd_una (tc_vars c)) + unat (min (tv_snd_wnd (tc_vars c)) cwnd))
      in sent = (start < limit \<and> (full \<longrightarrow> unat (tv_snd_mss (tc_vars c)) \<le> limit - start)) \<and> (if sent then 0 < total_length new \<and> start + total_length new \<le> limit \<and>
           limit - (start + total_length new) < unat (tv_snd_mss (tc_vars c)) else new = []))"
proof (cases "bytes_to_send full cwnd (send_start c)")
  case None
  note ok = send_start_ok[OF assms]
  note d = sender_okD[OF ok]
  have ne: "near w (sq_end (tc_sendQueue (send_start c)))" using d(4) by (simp add: near_def)
  have nx: "off w (tv_snd_nxt (tc_vars (send_start c))) < 2147483648" using d(4,7,8) by (auto split: if_splits)
  let ?start = "off w (tv_snd_nxt (tc_vars (send_start c)))"
  let ?limit = "min (off w (sq_end (tc_sendQueue c))) (off w (tv_snd_una (tc_vars c)) + unat (min (tv_snd_wnd (tc_vars c)) cwnd))"
  have run: "sendData (flavour_leaf fl env0) full cwnd c = Inr (False, send_start c)"
    unfolding sendData_def Let_def send_start_def[symmetric] None by simp
  have "\<not> (?start < ?limit \<and> (full \<longrightarrow> unat (tv_snd_mss (tc_vars c)) \<le> ?limit - ?start))"
  proof (cases "bytes_to_send False cwnd (send_start c)")
    case free: None
    show ?thesis using nothing_to_send[OF free d(6) ne] by auto
  next
    case (Some b)
    have e: "?start + unat b = ?limit" using bytes_to_send_bounds(5)[OF Some d(6) nx ne] by simp
    have f: "full" "unat b < unat (tv_snd_mss (tc_vars c))"
      using bytes_to_send_full_plain[OF d(2), of full cwnd b] None Some by auto
    have "?limit - ?start < unat (tv_snd_mss (tc_vars c))" using e f(2) by linarith
    then show ?thesis using f(1) by linarith
  qed
  then show ?thesis using run ok
    by (intro exI[of _ False] exI[of _ "send_start c"] exI[of _ "[]"]) (simp add: full_segments_def Let_def)
next
  case (Some bts)
  note d = sender_okD[OF send_start_ok[OF assms]]
  have ne: "near w (sq_end (tc_sendQueue (send_start c)))" using d(4) by (simp add: near_def)
  have nx: "off w (tv_snd_nxt (tc_vars (send_start c))) < 2147483648" using d(4,7,8) by (auto split: if_splits)
  have nagle: "full \<longrightarrow> unat (tv_snd_mss (tc_vars c)) \<le> unat bts"
    using bytes_to_send_full_plain[OF d(2), of full cwnd bts] Some by simp
  note b = bytes_to_send_bounds[OF Some d(6) nx ne]
  from send_window_run[OF assms Some, where fl = fl and ?env0.0 = env0] obtain c' new k where
    1: "sendData (flavour_leaf fl env0) full cwnd c = Inr (True, c')" "sender_ok w c'" "segments c' = segments c @ new"
     "stream_of (tv_snd_nxt (tc_vars (send_start c))) new" "full_segments (tv_snd_mss (tc_vars c)) new" "total_length new = k"
     "0 < k" "k \<le> unat bts" "unat bts - k < unat (tv_snd_mss (tc_vars c))"
     "fixed c' = fixed c" by blast
  note una = fixed_fields(2,4)[OF 1(10)]
  let ?start = "off w (tv_snd_nxt (tc_vars (send_start c)))"
  let ?limit = "min (off w (sq_end (tc_sendQueue c))) (off w (tv_snd_una (tc_vars c)) + unat (min (tv_snd_wnd (tc_vars c)) cwnd))"
  have eq: "?start + unat bts = ?limit" using b(5) by simp
  have lim: "?start < ?limit" "?start + k \<le> ?limit" "?limit - (?start + k) < unat (tv_snd_mss (tc_vars c))"
    using eq b(2) 1(8,9) by linarith+
  have nagle': "full \<longrightarrow> unat (tv_snd_mss (tc_vars c)) \<le> ?limit - ?start" using eq nagle by linarith
  show ?thesis using 1(1-7) una lim nagle'
    by (intro exI[of _ True] exI[of _ c'] exI[of _ new]) (simp only: Let_def if_True simp_thms)
qed

definition demo_sender :: tcp_conn where
  "demo_sender = demo_conn\<lparr>tc_sendQueue := \<lparr>sq_begin = 1001, sq_end = 2101\<rparr>, tc_vars := (tc_vars demo_conn)\<lparr>tv_snd_wnd := 1000\<rparr>\<rparr>"

lemma demo_sender_fields:
  "tc_sendQueue demo_sender = \<lparr>sq_begin = 1001, sq_end = 2101\<rparr>" "tv_snd_una (tc_vars demo_sender) = 1001"
  "tv_snd_nxt (tc_vars demo_sender) = 1101" "tv_snd_max (tc_vars demo_sender) = 1101" "tv_snd_wnd (tc_vars demo_sender) = 1000"
  "tv_snd_mss (tc_vars demo_sender) = 536" "\<not> tv_send_fin (tc_vars demo_sender)" "\<not> tv_afterRto (tc_vars demo_sender)"
  "plain demo_sender" "segments demo_sender = []" "tc_alg demo_sender = tcp_alg_new" "tc_state demo_sender = TCP_S_ESTABLISHED"
  by (simp_all add: demo_sender_def demo_conn_def tcp_vars_new_def plain_def segments_def map_filter_def)

lemma demo_sender_ok: "sender_ok 1000 demo_sender"
  by (rule sender_okI) (simp_all add: demo_sender_fields off_def)

lemma send_window_witness:
  "\<exists>c' new. sendData (flavour_leaf Reno quiet_env) False 700 demo_sender = Inr (True, c') \<and> segments c' = new \<and>
     stream_of 1101 new \<and> full_segments 536 new \<and> 64 < total_length new \<and> total_length new \<le> 600"
proof -
  have s: "tv_snd_nxt (tc_vars (send_start demo_sender)) = 1101"
    using demo_sender_fields by (simp add: send_start_def)
  have o: "off 1000 1101 = 101" "off 1000 2101 = 1101" "off 1000 1001 = 1" by (simp_all add: off_def)
  have m: "unat (min (1000 :: u32) 700) = 700" by (simp add: min_def)
  from send_window[OF demo_sender_ok, where fl = Reno and ?env0.0 = quiet_env and cwnd = 700 and full = False] obtain sent c' new where
    1: "sendData (flavour_leaf Reno quiet_env) False 700 demo_sender = Inr (sent, c')" "segments c' = segments demo_sender @ new"
      "stream_of 1101 new" "full_segments 536 new" "sent" "101 + total_length new \<le> 701" "701 - (101 + total_length new) < 536"
    unfolding s demo_sender_fields send_queue.simps o m by (auto simp: Let_def)
  then show ?thesis by (intro exI[of _ c'] exI[of _ new]) (simp add: demo_sender_fields)
qed

end
