(* ===== verification/TcpSenderOps.thy ===== *)
theory TcpSenderOps
  imports TcpSendSafety
begin

text \<open>
  The operations by which a flavour of TCP sends on a plain connection: the retransmission of a
  segment, the segment that limited transmit allows, the probe of a closed window and the
  acknowledgment.  Each returns and leaves the sender in order; \<open>fixed\<close> is what none of them touches.
\<close>

section \<open>The order of the sender\<close>

lemma sender_ok_seta [simp]: "sender_ok w (seta g c) = sender_ok w c"
  by (simp add: sender_ok_def snd_ok_def fin_sent_def plain_def seta_def)

lemma sender_ok_view:
  assumes "tc_sendQueue c' = tc_sendQueue c" "plain c' = plain c" "tv_snd_una (tc_vars c') = tv_snd_una (tc_vars c)"
    "tv_snd_nxt (tc_vars c') = tv_snd_nxt (tc_vars c)" "tv_snd_max (tc_vars c') = tv_snd_max (tc_vars c)"
    "tv_send_fin (tc_vars c') = tv_send_fin (tc_vars c)" "tv_snd_fin_seq (tc_vars c') = tv_snd_fin_seq (tc_vars c)" "sender_ok w c"
  shows "sender_ok w c'"
  using sender_okD[OF assms(8)] by (intro sender_okI) (simp_all add: assms(1-7))

lemma sender_ok_afterRto [simp]: "sender_ok w (setv (\<lambda>v. v\<lparr>tv_afterRto := b\<rparr>) c) = sender_ok w c"
proof -
  have "sender_ok w c'" if "sender_ok w c''" "c' = setv (\<lambda>v. v\<lparr>tv_afterRto := b'\<rparr>) c''" for c' c'' b'
    using that by (intro sender_ok_view[of c' c'']) simp_all
  from this[of c _ b] this[of "setv (\<lambda>v. v\<lparr>tv_afterRto := b\<rparr>) c" c "tv_afterRto (tc_vars c)"] show ?thesis
    using same_rto[of c "tv_afterRto (tc_vars c)"] by (auto simp: setv_def)
qed

text \<open>\<open>snd_nxt\<close> may be put anywhere between what is acknowledged and what was sent.\<close>

lemma sender_ok_nxt:
  assumes "sender_ok w c" "off w (tv_snd_una (tc_vars c)) \<le> off w x" "off w x \<le> off w (tv_snd_max (tc_vars c))"
  shows "sender_ok w (setv (\<lambda>v. v\<lparr>tv_snd_nxt := x\<rparr>) c)"
  using sender_okD[OF assms(1)] assms(2,3) by (intro sender_okI) simp_all

lemma sender_near:
  assumes "sender_ok w c"
  shows "near w (tv_snd_una (tc_vars c))" "near w (tv_snd_nxt (tc_vars c))" "near w (tv_snd_max (tc_vars c))"
    "near w (sq_end (tc_sendQueue c))" "off w (tv_snd_max (tc_vars c)) < 2147483648"
  using sender_okD(4,6,7,8)[OF assms] by (auto simp: near_def split: if_splits)

text \<open>The bytes of a segment that is sent again were sent before.\<close>

lemma resent_ok:
  assumes ok: "sender_ok w c" and s: "sent_data w c k new c'" and k: "off w (tv_snd_nxt (tc_vars c)) + k \<le> off w (sq_end (tc_sendQueue c))"
    "off w (tv_snd_nxt (tc_vars c)) + k \<le> off w (tv_snd_max (tc_vars c))"
  shows "sender_ok w c'"
proof -
  note d = sender_okD[OF ok] and f = sent_data_fields[OF s]
  have n: "off w (tv_snd_nxt (tc_vars c)) + k \<le> off w (tv_snd_nxt (tc_vars c'))" using f(8) by simp
  have "off w (tv_snd_nxt (tc_vars c')) \<le> off w (tv_snd_max (tc_vars c))"
  proof (cases "tv_send_fin (tc_vars c) \<and> off w (tv_snd_nxt (tc_vars c)) + k = off w (sq_end (tc_sendQueue c))")
    case True
    then have "off w (tv_snd_max (tc_vars c)) \<noteq> off w (sq_end (tc_sendQueue c))" using d(5) by (simp add: off_inj)
    then show ?thesis using True k(2) f(8) by simp
  next
    case False
    show ?thesis using k(2) f(8) unfolding if_not_P[OF False] by simp
  qed
  then show ?thesis using d f(1-7) n by (intro sender_okI) simp_all
qed

lemma u32_min: "unat (min (a :: u32) b) = min (unat a) (unat b)"
  by (simp add: min_def word_le_nat_alt)

section \<open>Retransmission\<close>

text \<open>The first segment that is not acknowledged, as \<open>retransmitOneSegment\<close> sends it again.\<close>

definition first_unacked :: "u32 \<Rightarrow> tcp_conn \<Rightarrow> tcp_segment \<Rightarrow> bool" where
  "first_unacked w c s \<longleftrightarrow> (let v = tc_vars c; una = off w (tv_snd_una v); e = off w (sq_end (tc_sendQueue c)) in
     tg_seq s = tv_snd_una v \<and> unat (tg_len s) = min (unat (tv_snd_mss v)) (min e (off w (tv_snd_max v)) - una) \<and>
     (tg_fin s \<longleftrightarrow> tv_send_fin v \<and> una + unat (tg_len s) = e))"

lemma resend_fin_ok:
  fixes fl env0
  defines "env \<equiv> flavour_leaf fl env0"
  assumes ok: "sender_ok w c" and n: "tv_snd_nxt (tc_vars c) = tv_snd_una (tc_vars c)"
    and e: "tv_snd_una (tc_vars c) = sq_end (tc_sendQueue c)" "tv_snd_una (tc_vars c) \<noteq> tv_snd_max (tc_vars c)"
  shows "\<exists>c' s. resend_fin env True c = Inr c' \<and> sender_ok w c' \<and> fixed c' = fixed c \<and>
    tv_snd_max (tc_vars c') = tv_snd_max (tc_vars c) \<and> segments c' = segments c @ [s] \<and> first_unacked w c s \<and> rexmit_view c' = rexmit_view c"
proof -
  note d = sender_okD[OF ok]
  let ?e = "sq_end (tc_sendQueue c)"
  have lt: "off w ?e < off w (tv_snd_max (tc_vars c))"
    using d(6,7) e off_inj[of w "tv_snd_una (tc_vars c)" "tv_snd_max (tc_vars c)"] by (auto simp: n)
  have fin: "tv_send_fin (tc_vars c)" and mx: "off w (tv_snd_max (tc_vars c)) = Suc (off w ?e)"
    using d(8) lt by (auto split: if_splits)
  have "off w (?e + 1) = Suc (off w ?e)" using d(4) by (intro off_suc) simp
  then have m: "tv_snd_max (tc_vars c) = ?e + 1" using mx off_inj[of w] by metis
  let ?c1 = "setv (\<lambda>v. v\<lparr>tv_snd_max := ?e, tv_snd_nxt := ?e\<rparr>) c"
  have p: "plain ?c1" using d(2) by (simp add: plain_def)
  from plain_sendFin[OF p, where fl = fl and ?env0.0 = env0] obtain c2 s where
    2: "sendFin env ?c1 = Inr c2" "core c2 = core ?c1" "segments c2 = segments ?c1 @ [s]" "tg_seq s = ?e" "tg_len s = 0" "tg_fin s"
      "rexmit_view c2 = rexmit_view ?c1"
    unfolding env_def by auto
  from leaf_calls(3)[of fl env0 "tv_snd_nxt (tc_vars c2)" "tv_snd_nxt (tc_vars c2) + 1" c2] obtain c3 where
    3: "te_call env (SegmentRetransmitted (tv_snd_nxt (tc_vars c2)) (tv_snd_nxt (tc_vars c2) + 1)) c2 = Inr c3"
      "core c3 = core c2" "segments c3 = segments c2" "rexmit_view c3 = rexmit_view c2" unfolding env_def by blast
  let ?c' = "setv (\<lambda>v. v\<lparr>tv_snd_nxt := tv_snd_nxt v + 1, tv_snd_max := tv_snd_nxt v + 1\<rparr>) c3"
  have "core c3 = core ?c1" using 2(2) 3(2) by simp
  note f = core_fields[OF this] plain_core[OF this] fixed_core[OF this]
  have run: "resend_fin env True c = Inr ?c'"
    unfolding resend_fin_def Let_def sq_getBufferEndSeq_def using 2(1) 3(1) by simp
  have fx: "fixed ?c1 = fixed c" by (simp add: fixed_def core_def setv_def)
  have fx': "fixed ?c' = fixed c3" by (simp add: fixed_def core_def setv_def)
  have "plain ?c'" using f(25) d(2) by (simp add: plain_def)
  then have "sender_ok w ?c'"
    using d fin m mx e lt by (intro sender_okI) (simp_all add: f)
  moreover have "first_unacked w c s" using 2(4-6) e(1) fin lt by (simp add: first_unacked_def Let_def)
  ultimately show ?thesis
    using run f(26) fx fx' m 2(3,7) 3(3,4) by (intro exI[of _ ?c'] exI[of _ s]) (simp add: f)
qed

lemma retransmit_ok:
  fixes fl env0
  defines "env \<equiv> flavour_leaf fl env0"
  assumes ok: "sender_ok w c" and ne: "tv_snd_una (tc_vars c) \<noteq> tv_snd_max (tc_vars c)"
  shows "\<exists>c' s. retransmitOneSegment env rto c = Inr c' \<and> sender_ok w c' \<and> fixed c' = fixed c \<and>
    tv_snd_max (tc_vars c') = tv_snd_max (tc_vars c) \<and> segments c' = segments c @ [s] \<and> first_unacked w c s \<and> rexmit_view c' = rexmit_view c"
proof -
  note d = sender_okD[OF ok] and near = sender_near[OF ok]
  let ?una = "tv_snd_una (tc_vars c)" and ?mx = "tv_snd_max (tc_vars c)" and ?e = "sq_end (tc_sendQueue c)" and ?mss = "tv_snd_mss (tc_vars c)"
  let ?c = "setv (\<lambda>v. v\<lparr>tv_snd_nxt := tv_snd_una v\<rparr>) c"
  define bytes where "bytes = min (min ?mss (?mx - ?una)) (sq_getBytesAvailable ?una (tc_sendQueue c))"
  have um: "off w ?una < off w ?mx" using d(6,7) ne off_inj[of w ?una ?mx] by linarith
  have dm: "unat (?mx - ?una) = off w ?mx - off w ?una" by (rule unat_diff_near) (use um in simp)
  have ceq: "?c = setv (\<lambda>v. v\<lparr>tv_snd_nxt := ?una\<rparr>) c" by (simp add: setv_def)
  have okc: "sender_ok w ?c" unfolding ceq by (rule sender_ok_nxt[OF ok]) (use um in simp_all)
  have fc: "fixed ?c = fixed c" "segments ?c = segments c" "tv_snd_max (tc_vars ?c) = ?mx" "rexmit_view ?c = rexmit_view c" by simp_all
  have fu: "first_unacked w ?c = first_unacked w c" by (rule ext) (simp add: first_unacked_def Let_def)
  have mss: "0 < unat ?mss" using d(2) by (simp add: plain_def unat_gt_0 word_gt_0)
  have eq: "retransmitOneSegment env rto c =
      (if bytes = 0 \<and> tv_send_fin (tc_vars c) \<and> tv_snd_fin_seq (tc_vars c) = ?e then resend_fin env True ?c
       else bindE (assertE (bytes \<noteq> 0)) (\<lambda>_.
           bindE (sendSegment env bytes ?c) (\<lambda>c1.
           bindE (te_call env (SegmentRetransmitted (tv_snd_una (tc_vars c1)) (tv_snd_nxt (tc_vars c1))) c1) (\<lambda>c2.
           let c3 = (if \<not> rto \<and> seqGreater (tv_snd_nxt (tc_vars c)) (tv_snd_nxt (tc_vars c2))
                     then setv (\<lambda>v. v\<lparr>tv_snd_nxt := tv_snd_nxt (tc_vars c)\<rparr>) c2 else c2)
           in bindE (te_call env AckSent c3) (\<lambda>c4.
              Inr (if tv_sack_enabled (tc_vars c4)
                   then seta (\<lambda>a. a\<lparr>ta_highRxt := xq_getHighestRexmittedSeqNum (tc_rexmitQueue c4)\<rparr>) c4 else c4))))))"
    by (simp add: retransmitOneSegment_def Let_def bytes_def sq_getBufferEndSeq_def)
  show ?thesis
  proof (cases "off w ?una < off w ?e")
    case False
    then have fin: "tv_send_fin (tc_vars c)" "off w ?una = off w ?e"
      using um d(8) by (auto split: if_splits)
    then have une: "?una = ?e" using off_inj[of w] by blast
    have b0: "bytes = 0" using nothing_available[of w "tc_sendQueue c" ?una] fin(2) near(1)
      by (simp add: bytes_def near_def)
    have "tv_snd_fin_seq (tc_vars c) = ?e" using d(5) fin(1) by blast
    then have r: "retransmitOneSegment env rto c = resend_fin env True ?c" using b0 fin(1) unfolding eq by simp
    have e': "tv_snd_una (tc_vars ?c) = sq_end (tc_sendQueue ?c)" using une by simp
    have n': "tv_snd_nxt (tc_vars ?c) = tv_snd_una (tc_vars ?c)" "tv_snd_una (tc_vars ?c) \<noteq> tv_snd_max (tc_vars ?c)" using ne by simp_all
    from resend_fin_ok[OF okc n'(1) e' n'(2), where fl = fl and ?env0.0 = env0] show ?thesis
      unfolding env_def r[unfolded env_def] fc fu .
  next
    case True
    have av: "unat (sq_getBytesAvailable ?una (tc_sendQueue c)) = off w ?e - off w ?una"
      by (rule bytes_available(1)[OF near(4)]) (use True in simp)
    have ub: "unat bytes = min (unat ?mss) (min (off w ?e) (off w ?mx) - off w ?una)"
      unfolding bytes_def u32_min dm av by linarith
    have pos: "0 < unat bytes" unfolding ub using mss True um by simp
    have b0: "bytes \<noteq> 0" using pos by auto
    have can: "can_send w ?c" using okc True by (intro sender_can_send) simp_all
    have sl: "segment_length ?c bytes = bytes"
      unfolding segment_length_def bytes_def by (simp add: min.assoc min.commute min.left_commute)
    from one_segment[OF can, where n = bytes and fl = fl and ?env0.0 = env0] obtain c1 s where
      1: "sendSegment env bytes ?c = Inr c1" "sent_data w ?c (unat bytes) [s] c1" "data_segment ?c bytes s"
        "rexmit_view c1 = rexmit_view ?c"
      unfolding env_def sl by blast
    have k: "off w (tv_snd_nxt (tc_vars ?c)) + unat bytes \<le> off w (sq_end (tc_sendQueue ?c))"
      "off w (tv_snd_nxt (tc_vars ?c)) + unat bytes \<le> off w (tv_snd_max (tc_vars ?c))"
      using ub True um by simp_all
    have ok1: "sender_ok w c1" by (rule resent_ok[OF okc 1(2) k])
    note f1 = sent_data_fields[OF 1(2)]
    from leaf_calls(3)[of fl env0 "tv_snd_una (tc_vars c1)" "tv_snd_nxt (tc_vars c1)" c1] obtain c2 where
      2: "te_call env (SegmentRetransmitted (tv_snd_una (tc_vars c1)) (tv_snd_nxt (tc_vars c1))) c1 = Inr c2"
        "core c2 = core c1" "segments c2 = segments c1" "rexmit_view c2 = rexmit_view c1" unfolding env_def by blast
    have ok2: "sender_ok w c2" using sender_ok_core[OF 2(2)] ok1 by simp
    note f2 = core_fields[OF 2(2)]
    define c3 where "c3 = (if \<not> rto \<and> seqGreater (tv_snd_nxt (tc_vars c)) (tv_snd_nxt (tc_vars c2))
                     then setv (\<lambda>v. v\<lparr>tv_snd_nxt := tv_snd_nxt (tc_vars c)\<rparr>) c2 else c2)"
    have m2: "tv_snd_max (tc_vars c2) = ?mx" "tv_snd_una (tc_vars c2) = ?una" using f1(6,7) f2 by simp_all
    have ok3: "sender_ok w c3"
      using ok2 sender_ok_nxt[OF ok2, of "tv_snd_nxt (tc_vars c)"] d(6,7) m2 by (simp add: c3_def)
    have r3: "fixed c3 = fixed c" "tv_snd_max (tc_vars c3) = ?mx" "segments c3 = segments c1" "rexmit_view c3 = rexmit_view c"
      using fixed_core[OF 2(2)] sent_data_fixed[OF 1(2)] m2 2(3,4) 1(4) by (simp_all add: c3_def)
    from leaf_calls(1)[of fl env0 c3] obtain c4 where
      4: "te_call env AckSent c3 = Inr c4" "core c4 = core c3" "segments c4 = segments c3"
      "rexmit_view c4 = rexmit_view c3" unfolding env_def by blast
    have ok4: "sender_ok w c4" using sender_ok_core[OF 4(2)] ok3 by simp
    have sack: "\<not> tv_sack_enabled (tc_vars c4)" using sender_okD(2)[OF ok4] by (simp add: plain_def)
    have "retransmitOneSegment env rto c = Inr c4"
      using b0 1(1) 2(1) 4(1) sack unfolding eq by (simp add: c3_def[symmetric])
    moreover have "segments c1 = segments c @ [s]" using 1(2) by (simp add: sent_data_def)
    moreover have "first_unacked w c s"
    proof -
      have ls: "unat (tg_len s) = unat bytes" using 1(3) by (simp add: data_segment_def unat_mss_64)
      have "off w (?una + bytes) = off w ?una + unat bytes" using k(1) off_less[of w ?e] by (intro off_add) simp
      then have "?una + bytes = ?e \<longleftrightarrow> off w ?una + unat bytes = off w ?e" using off_inj[of w "?una + bytes" ?e] by simp
      then show ?thesis using 1(3) d(5) ls ub by (auto simp: data_segment_def first_unacked_def Let_def fin_follows_def)
    qed
    ultimately show ?thesis
      using ok4 fixed_core[OF 4(2)] r3 4(3,4) core_fields(7)[OF 4(2)] by (intro exI[of _ c4] exI[of _ s]) simp
  qed
qed

lemma plain_mss: "plain c \<Longrightarrow> tv_snd_mss (tc_vars c) \<noteq> 0"
  by (auto simp: plain_def)

section \<open>New data beyond \<open>snd_max\<close>\<close>

text \<open>A segment of at most \<open>n\<close> bytes behind all that was sent; \<open>snd_max\<close> follows it.\<close>

lemma new_segment_ok:
  fixes fl env0
  defines "env \<equiv> flavour_leaf fl env0"
  assumes ok: "sender_ok w c" and av: "sq_getBytesAvailable (tv_snd_max (tc_vars c)) (tc_sendQueue c) \<noteq> 0" and n: "n \<noteq> 0"
  shows "\<exists>c1 s. sendSegment env n (setv (\<lambda>v. v\<lparr>tv_snd_nxt := tv_snd_max v\<rparr>) c) = Inr c1 \<and> sender_ok w (raise_snd_max c1) \<and>
    fixed c1 = fixed c \<and> segments c1 = segments c @ [s] \<and> tg_seq s = tv_snd_max (tc_vars c) \<and> 0 < unat (tg_len s) \<and>
    unat (tg_len s) \<le> unat n \<and> \<not> tv_afterRto (tc_vars c1) \<and> off w (tv_snd_max (tc_vars c)) < off w (tv_snd_nxt (tc_vars c1)) \<and>
    tv_snd_max (tc_vars (raise_snd_max c1)) = tv_snd_nxt (tc_vars c1)"
proof -
  note d = sender_okD[OF ok] and near = sender_near[OF ok]
  let ?mx = "tv_snd_max (tc_vars c)" and ?e = "sq_end (tc_sendQueue c)"
  let ?c = "setv (\<lambda>v. v\<lparr>tv_snd_nxt := tv_snd_max v\<rparr>) c"
  have ceq: "?c = setv (\<lambda>v. v\<lparr>tv_snd_nxt := ?mx\<rparr>) c" by (simp add: setv_def)
  have okc: "sender_ok w ?c" unfolding ceq by (rule sender_ok_nxt[OF ok]) (use d in simp_all)
  have lt: "off w ?mx < off w ?e"
    using nothing_available[of w "tc_sendQueue c" ?mx] av near(5) by linarith
  have can: "can_send w ?c" using okc lt by (intro sender_can_send) simp_all
  have avl: "unat (sq_getBytesAvailable ?mx (tc_sendQueue c)) = off w ?e - off w ?mx"
    by (rule bytes_available(1)[OF near(4)]) (use lt in simp)
  have mss: "tv_snd_mss (tc_vars c) \<noteq> 0" by (rule plain_mss[OF d(2)])
  let ?b = "segment_length ?c n"
  have nz: "?b \<noteq> 0" using av n mss by (simp add: segment_length_def min_def)
  have le: "unat ?b \<le> unat n" "unat ?b \<le> off w ?e - off w ?mx"
    using avl by (simp_all add: segment_length_def min_def word_le_nat_alt)
  from one_segment[OF can, where n = n and fl = fl and ?env0.0 = env0] obtain c1 s where
    1: "sendSegment env n ?c = Inr c1" "sent_data w ?c (unat ?b) [s] c1" "data_segment ?c ?b s"
    unfolding env_def by blast
  have k: "off w (tv_snd_nxt (tc_vars ?c)) + unat ?b \<le> off w (sq_end (tc_sendQueue ?c))" using le(2) lt by simp
  note r = raise_snd_max_ok[OF okc 1(2) k] and f = sent_data_fields[OF 1(2)]
  have pos: "0 < unat ?b" using nz unat_gt_0[of ?b] by simp
  have up: "off w ?mx < off w (tv_snd_nxt (tc_vars c1))" using f(8) pos by simp
  have "off w (tv_snd_max (tc_vars (raise_snd_max c1))) = off w (tv_snd_nxt (tc_vars c1))" using r(2) up by simp
  then have mx: "tv_snd_max (tc_vars (raise_snd_max c1)) = tv_snd_nxt (tc_vars c1)" by (simp add: off_inj)
  have rto: "\<not> tv_afterRto (tc_vars c1)"
  proof -
    from sendSegment_plain[OF can_sendD(1-4)[OF can] refl, where n = n and fl = fl and ?env0.0 = env0]
    have "core c1 = setv (\<lambda>v. v\<lparr>tv_afterRto := rto_after ?c ?b\<rparr>) (setv (\<lambda>v. v\<lparr>tv_snd_nxt := nxt_after ?c ?b\<rparr>) (core ?c))"
      using 1(1) unfolding env_def by auto
    then have "core c1 = core (setv (\<lambda>v. v\<lparr>tv_afterRto := rto_after ?c ?b\<rparr>) (setv (\<lambda>v. v\<lparr>tv_snd_nxt := nxt_after ?c ?b\<rparr>) ?c))" by simp
    note core_fields(12)[OF this]
    moreover have "off w (?mx + ?b) = off w ?mx + unat ?b" using k off_less[of w ?e] by (intro off_add) simp
    then have "seqGE (?mx + ?b) ?mx" using seq_near(4)[of w "?mx + ?b" ?mx] near(3,4) k by (simp add: near_def)
    ultimately show ?thesis by (simp add: rto_after_def)
  qed
  show ?thesis
    using 1 r(1) sent_data_fixed[OF 1(2)] mx up rto pos le(1)
    by (intro exI[of _ c1] exI[of _ s]) (simp add: sent_data_def data_segment_def unat_mss_64)
qed

lemma limited_available: "limited_bytes full cwnd c \<noteq> 0 \<Longrightarrow> tv_snd_mss (tc_vars c) \<noteq> 0 \<Longrightarrow>
   sq_getBytesAvailable (tv_snd_max (tc_vars c)) (tc_sendQueue c) \<noteq> 0"
  by (auto simp: limited_bytes_def Let_def split: if_splits)

lemma sendOneNewSegment_ok:
  fixes fl env0
  defines "env \<equiv> flavour_leaf fl env0"
  assumes ok: "sender_ok w c" and lt: "tv_limited_transmit_enabled (tc_vars c)"
  shows "\<exists>c'. sendOneNewSegment env full cwnd c = Inr c' \<and> sender_ok w c' \<and> fixed c' = fixed c \<and>
    off w (tv_snd_max (tc_vars c)) \<le> off w (tv_snd_max (tc_vars c'))"
proof (cases "limited_bytes full cwnd c = 0")
  case True
  then show ?thesis using ok lt by (simp add: sendOneNewSegment_def Let_def)
next
  case False
  have "tv_snd_mss (tc_vars c) \<noteq> 0" by (rule plain_mss[OF sender_okD(2)[OF ok]])
  from new_segment_ok[OF ok limited_available[OF False this] False, where fl = fl and ?env0.0 = env0] obtain c1 where
    1: "sendSegment env (limited_bytes full cwnd c) (setv (\<lambda>v. v\<lparr>tv_snd_nxt := tv_snd_max v\<rparr>) c) = Inr c1"
      "sender_ok w (raise_snd_max c1)" "fixed c1 = fixed c" "\<not> tv_afterRto (tc_vars c1)"
      "off w (tv_snd_max (tc_vars c)) < off w (tv_snd_nxt (tc_vars c1))"
      "tv_snd_max (tc_vars (raise_snd_max c1)) = tv_snd_nxt (tc_vars c1)"
    unfolding env_def by blast
  have rto: "tv_afterRto (tc_vars (raise_snd_max c1)) = False" using 1(4) by (simp add: raise_snd_max_def)
  from leaf_calls(1)[of fl env0 "raise_snd_max c1"] obtain c4 where 4: "te_call env AckSent (raise_snd_max c1) = Inr c4" "core c4 = core (raise_snd_max c1)"
    unfolding env_def by blast
  from leaf_calls(2)[of fl env0 "tv_snd_nxt (tc_vars c)" c4] obtain c5 where 5: "te_call env (DataSent (tv_snd_nxt (tc_vars c))) c4 = Inr c5" "core c5 = core c4"
    unfolding env_def by blast
  have run: "sendOneNewSegment env full cwnd c = Inr c5"
    unfolding sendOneNewSegment_def Let_def if_not_P[OF False] 1(1) bindE_simps rto if_False 4(1) 5(1) using lt by simp
  have cc: "core c5 = core (raise_snd_max c1)" using 4(2) 5(2) by simp
  have "fixed c5 = fixed c" using fixed_core[OF cc] 1(3) by (simp add: raise_snd_max_def)
  then show ?thesis using run sender_ok_core[OF cc] 1(2,5,6) core_fields(7)[OF cc] by (intro exI[of _ c5]) simp
qed

lemma sendProbe_ok:
  fixes fl env0
  defines "env \<equiv> flavour_leaf fl env0"
  assumes ok: "sender_ok w c"
  shows "\<exists>sent c'. sendProbe env c = Inr (sent, c') \<and> sender_ok w c' \<and> fixed c' = fixed c \<and>
    (sent \<longleftrightarrow> off w (tv_snd_max (tc_vars c)) < off w (sq_end (tc_sendQueue c))) \<and>
    (if sent then \<exists>s. segments c' = segments c @ [s] \<and> tg_seq s = tv_snd_max (tc_vars c) \<and> tg_len s = 1 else segments c' = segments c)"
proof (cases "sq_getBytesAvailable (tv_snd_max (tc_vars c)) (tc_sendQueue c) = 0")
  case True
  have ok1: "sender_ok w (setv (\<lambda>v. v\<lparr>tv_snd_nxt := tv_snd_max (tc_vars c)\<rparr>) c)"
    by (rule sender_ok_nxt[OF ok]) (use sender_okD(6,7)[OF ok] in simp_all)
  have eq: "setv (\<lambda>v. v\<lparr>tv_snd_nxt := tv_snd_max v\<rparr>) c = setv (\<lambda>v. v\<lparr>tv_snd_nxt := tv_snd_max (tc_vars c)\<rparr>) c" by (simp add: setv_def)
  have "\<not> off w (tv_snd_max (tc_vars c)) < off w (sq_end (tc_sendQueue c))"
    using bytes_available(1)[OF sender_near(4)[OF ok], of "tv_snd_max (tc_vars c)"] True by auto
  then show ?thesis using True ok1 unfolding sendProbe_def Let_def eq by (intro exI[of _ False]) simp
next
  case False
  from new_segment_ok[OF ok False, where n = 1 and fl = fl and ?env0.0 = env0] obtain c1 s where
    1: "sendSegment env 1 (setv (\<lambda>v. v\<lparr>tv_snd_nxt := tv_snd_max v\<rparr>) c) = Inr c1"
      "sender_ok w (raise_snd_max c1)" "fixed c1 = fixed c" "segments c1 = segments c @ [s]" "tg_seq s = tv_snd_max (tc_vars c)"
      "0 < unat (tg_len s)" "unat (tg_len s) \<le> unat (1 :: u32)"
      "tv_snd_max (tc_vars (raise_snd_max c1)) = tv_snd_nxt (tc_vars c1)"
    unfolding env_def using one_neq_zero by blast
  have r: "setv (\<lambda>v. v\<lparr>tv_snd_max := tv_snd_nxt v\<rparr>) c1 = raise_snd_max c1"
    using 1(8) by (simp add: raise_snd_max_def setv_def)
  from leaf_calls(1)[of fl env0 "raise_snd_max c1"] obtain c4 where
    4: "te_call env AckSent (raise_snd_max c1) = Inr c4" "core c4 = core (raise_snd_max c1)" "segments c4 = segments (raise_snd_max c1)"
    unfolding env_def by blast
  from leaf_calls(2)[of fl env0 "tv_snd_max (tc_vars c)" c4] obtain c5 where
    5: "te_call env (DataSent (tv_snd_max (tc_vars c))) c4 = Inr c5" "core c5 = core c4" "segments c5 = segments c4"
    unfolding env_def by blast
  have run: "sendProbe env c = Inr (True, c5)"
    unfolding sendProbe_def Let_def using False 1(1) 4(1) 5(1) r by simp
  have cc: "core c5 = core (raise_snd_max c1)" using 4(2) 5(2) by simp
  have "fixed c5 = fixed c" using fixed_core[OF cc] 1(3) by (simp add: raise_snd_max_def)
  moreover have "tg_len s = 1" using 1(6,7) by (simp add: word_unat_eq_iff)
  moreover have "off w (tv_snd_max (tc_vars c)) < off w (sq_end (tc_sendQueue c))"
    using nothing_available[of w "tc_sendQueue c" "tv_snd_max (tc_vars c)"] False sender_near(5)[OF ok] by linarith
  moreover have "segments c5 = segments c @ [s]" using 1(4) 4(3) 5(3) by (simp add: raise_snd_max_def)
  ultimately show ?thesis using run sender_ok_core[OF cc] 1(2,5) by (intro exI[of _ True] exI[of _ c5]) simp
qed

end
