(* ===== verification/TcpFlavourAck.thy ===== *)
theory TcpFlavourAck
  imports TcpSenderOps
begin

text \<open>
  The flavours of TCP on a plain connection: what they do on acknowledgments and on the timeouts never
  fails, and keeps the sender in order.  The environment is the real one, \<open>alg_env\<close>.
\<close>

section \<open>Operations that go well\<close>

lemma seta_simps [simp]:
  "tc_alg (seta g c) = g (tc_alg c)" "tc_vars (seta g c) = tc_vars c" "tc_sendQueue (seta g c) = tc_sendQueue c"
  "tc_state (seta g c) = tc_state c" "rcv_kept (seta g c) = rcv_kept c" "tc_now (seta g c) = tc_now c" "tc_out (seta g c) = tc_out c"
  by (simp_all add: seta_def rcv_kept_def delivered_def)

text \<open>
  During fast recovery, \<open>recover\<close> is the last number that was sent when it began.
\<close>

definition recovery_ok :: "u32 \<Rightarrow> tcp_conn \<Rightarrow> bool" where
  "recovery_ok w c \<longleftrightarrow> (ta_lossRecovery (tc_alg c) \<longrightarrow> off w (ta_recover (tc_alg c) + 1) \<le> off w (tv_snd_max (tc_vars c)))"

text \<open>
  The congestion avoidance of Tahoe, Reno and NewReno divides by the congestion window, when that has
  reached the threshold.  A threshold above 0 rules out a division by zero; it starts at 65535 and stays
  above 0 while twice the segment size does not wrap to 0.
\<close>

definition threshold_ok :: "tcp_conn \<Rightarrow> bool" where
  "threshold_ok c \<longleftrightarrow> ta_ssthresh (tc_alg c) \<noteq> 0 \<and> 2 * tv_snd_mss (tc_vars c) \<noteq> 0"

definition divides_safely :: "tcp_flavour \<Rightarrow> tcp_conn \<Rightarrow> bool" where
  "divides_safely fl c \<longleftrightarrow> fl = NoCongestionControl \<or> fl = Dumb \<or> ta_snd_cwnd (tc_alg c) \<noteq> 0 \<or> ta_ssthresh (tc_alg c) \<noteq> 0"

lemma threshold_divides: "threshold_ok c \<Longrightarrow> divides_safely fl c"
  by (simp add: threshold_ok_def divides_safely_def)

text \<open>The part of a connection that every reaction to an acknowledgment or a timeout leaves alone.\<close>

definition moves :: "u32 \<Rightarrow> tcp_conn \<Rightarrow> tcp_conn \<Rightarrow> bool" where
  "moves w c c' \<longleftrightarrow> sender_ok w c' \<and> tc_sendQueue c' = tc_sendQueue c \<and> tv_snd_una (tc_vars c') = tv_snd_una (tc_vars c) \<and>
     tv_snd_mss (tc_vars c') = tv_snd_mss (tc_vars c) \<and> tv_snd_wnd (tc_vars c') = tv_snd_wnd (tc_vars c) \<and>
     tv_dupacks (tc_vars c') = tv_dupacks (tc_vars c) \<and> tv_fin_ack_rcvd (tc_vars c') = tv_fin_ack_rcvd (tc_vars c) \<and>
     tc_state c' = tc_state c \<and> off w (tv_snd_max (tc_vars c)) \<le> off w (tv_snd_max (tc_vars c')) \<and>
     (recovery_ok w c \<longrightarrow> recovery_ok w c') \<and> rcv_kept c' = rcv_kept c \<and>
     tv_send_fin (tc_vars c') = tv_send_fin (tc_vars c) \<and> (threshold_ok c \<longrightarrow> threshold_ok c')"

lemma movesD:
  assumes "moves w c c'"
  shows "sender_ok w c'" "tc_sendQueue c' = tc_sendQueue c" "tv_snd_una (tc_vars c') = tv_snd_una (tc_vars c)"
    "tv_snd_mss (tc_vars c') = tv_snd_mss (tc_vars c)" "tv_snd_wnd (tc_vars c') = tv_snd_wnd (tc_vars c)"
    "tv_dupacks (tc_vars c') = tv_dupacks (tc_vars c)" "tv_fin_ack_rcvd (tc_vars c') = tv_fin_ack_rcvd (tc_vars c)"
    "tc_state c' = tc_state c" "off w (tv_snd_max (tc_vars c)) \<le> off w (tv_snd_max (tc_vars c'))"
    "recovery_ok w c \<Longrightarrow> recovery_ok w c'" "rcv_kept c' = rcv_kept c"
    "tv_send_fin (tc_vars c') = tv_send_fin (tc_vars c)" "threshold_ok c \<Longrightarrow> threshold_ok c'"
  using assms unfolding moves_def by blast+

lemma moves_refl: "sender_ok w c \<Longrightarrow> moves w c c"
  by (simp add: moves_def)

lemma moves_trans: "moves w c c' \<Longrightarrow> moves w c' c'' \<Longrightarrow> moves w c c''"
  unfolding moves_def by (elim conjE, intro conjI) (auto intro: order.trans)

lemma moves_fixed:
  "sender_ok w c' \<Longrightarrow> fixed c' = fixed c \<Longrightarrow> off w (tv_snd_max (tc_vars c)) \<le> off w (tv_snd_max (tc_vars c')) \<Longrightarrow> moves w c c'"
  by (simp add: moves_def fixed_fields[of c' c] fixed_rcv_kept[of c' c]) (auto simp: recovery_ok_def threshold_ok_def fixed_fields[of c' c] intro: order.trans)

lemma moves_core: "sender_ok w c \<Longrightarrow> core c' = core c \<Longrightarrow> moves w c c'"
  using moves_fixed[of w c' c] sender_ok_core[of c' c w] fixed_core[of c' c] core_fields(7)[of c' c] by simp

lemma moves_seta_kept [simp]:
  "sender_ok w c \<Longrightarrow> ta_lossRecovery (g (tc_alg c)) = ta_lossRecovery (tc_alg c) \<Longrightarrow>
   ta_recover (g (tc_alg c)) = ta_recover (tc_alg c) \<Longrightarrow>
   ta_ssthresh (g (tc_alg c)) = ta_ssthresh (tc_alg c) \<Longrightarrow> moves w c (seta g c)"
  by (simp add: moves_def recovery_ok_def threshold_ok_def)

lemma moves_seta: "sender_ok w c \<Longrightarrow> (recovery_ok w c \<Longrightarrow> recovery_ok w (seta g c)) \<Longrightarrow>
   (threshold_ok c \<Longrightarrow> threshold_ok (seta g c)) \<Longrightarrow> moves w c (seta g c)"
  by (simp add: moves_def)

text \<open>A computation that ends without an error, with such a move.\<close>

definition good :: "u32 \<Rightarrow> tcp_conn \<Rightarrow> tcp_conn result \<Rightarrow> (tcp_conn \<Rightarrow> bool) \<Rightarrow> bool" where
  "good w c m Q \<longleftrightarrow> (\<exists>c'. m = Inr c' \<and> moves w c c' \<and> Q c')"

abbreviation fine :: "u32 \<Rightarrow> tcp_conn \<Rightarrow> tcp_conn result \<Rightarrow> bool" where
  "fine w c m \<equiv> good w c m (\<lambda>_. True)"

lemma good_pure: "moves w c c' \<Longrightarrow> Q c' \<Longrightarrow> good w c (Inr c') Q"
  by (simp add: good_def)

lemma good_bind:
  assumes "good w c m Q" "\<And>c'. moves w c c' \<Longrightarrow> Q c' \<Longrightarrow> good w c' (f c') R"
  shows "good w c (bindE m f) R"
proof -
  from assms(1) obtain c' where 1: "m = Inr c'" "moves w c c'" "Q c'" unfolding good_def by blast
  from assms(2)[OF this(2,3)] obtain c'' where "f c' = Inr c''" "moves w c' c''" "R c''" unfolding good_def by blast
  with 1 show ?thesis using moves_trans[of w c c' c''] by (simp add: good_def)
qed

lemma good_step: "moves w c d \<Longrightarrow> good w d m Q \<Longrightarrow> good w c m Q"
  unfolding good_def using moves_trans by blast

lemma good_weaken: "good w c m Q \<Longrightarrow> (\<And>c'. moves w c c' \<Longrightarrow> Q c' \<Longrightarrow> R c') \<Longrightarrow> good w c m R"
  unfolding good_def by blast

section \<open>The shared algorithm\<close>

lemma sendData_fine:
  fixes fl env0
  defines "env \<equiv> flavour_leaf fl env0"
  assumes ok: "sender_ok w c"
  shows "\<exists>sent c'. sendData env full cwnd c = Inr (sent, c') \<and> moves w c c' \<and> fixed c' = fixed c"
proof (cases "bytes_to_send full cwnd (send_start c)")
  case None
  have "sendData env full cwnd c = Inr (False, send_start c)"
    unfolding sendData_def Let_def send_start_def[symmetric] None by simp
  moreover have fx: "fixed (send_start c) = fixed c" by (simp add: send_start_def)
  moreover have "moves w c (send_start c)" by (rule moves_fixed[OF send_start_ok[OF ok] fx]) simp
  ultimately show ?thesis by blast
next
  case (Some bts)
  from send_window_run[OF ok Some, where fl = fl and ?env0.0 = env0] obtain c' where
    "sendData env full cwnd c = Inr (True, c')" "sender_ok w c'" "fixed c' = fixed c"
    "off w (tv_snd_max (tc_vars c')) = max (off w (tv_snd_max (tc_vars c))) (off w (tv_snd_nxt (tc_vars c')))"
    unfolding env_def by blast
  then show ?thesis using moves_fixed[of w c' c] by auto
qed

lemma idle_restart_moves: "sender_ok w c \<Longrightarrow> moves w c (idle_restart c)"
  by (simp add: idle_restart_def moves_refl recovery_ok_def)

lemma quiet_send:
  assumes "sender_ok w c"
  shows "fine w c (quietly (base_sendData (flavour_leaf fl env0) sc c))"
proof -
  have "sender_ok w (idle_restart c)" using idle_restart_moves[OF assms] by (rule movesD)
  from sendData_fine[OF this, where fl = fl and ?env0.0 = env0] obtain sent c' where
    "base_sendData (flavour_leaf fl env0) sc c = Inr (sent, c')" "moves w (idle_restart c) c'"
    unfolding base_sendData_def Let_def by blast
  then show ?thesis using moves_trans[OF idle_restart_moves[OF assms]] by (simp add: good_def quietly_def)
qed

lemma quiet_sendData: "sender_ok w c \<Longrightarrow> fine w c (quietly (sendData (flavour_leaf fl env0) full cwnd c))"
  using sendData_fine[where fl = fl and ?env0.0 = env0] by (fastforce simp: good_def quietly_def)

lemma sendAck_fine: "sender_ok w c \<Longrightarrow> good w c (sendAck (flavour_leaf fl env0) c) (\<lambda>c'. core c' = core c)"
  using plain_sendAck[OF sender_okD(2), where fl = fl and ?env0.0 = env0] by (fastforce simp: good_def intro: moves_core)

lemma retransmit_fine:
  assumes "sender_ok w c" "tv_snd_una (tc_vars c) \<noteq> tv_snd_max (tc_vars c)"
  shows "good w c (retransmitOneSegment (flavour_leaf fl env0) rto c) (\<lambda>c'. fixed c' = fixed c)"
  using retransmit_ok[OF assms, where fl = fl and ?env0.0 = env0 and rto = rto] moves_fixed[of w _ c] by (fastforce simp: good_def)

lemma restart_fine: "sender_ok w c \<Longrightarrow> fine w c (te_call (flavour_leaf fl env0) RestartRexmitTimer c)"
  using leaf_calls(4)[of fl env0 c] by (fastforce simp: good_def intro: moves_core)

text \<open>
  A change of the variables of the algorithm that leaves alone what governs the congestion window:
  the timers and the estimator make only such changes.
\<close>

definition tunes :: "tcp_conn \<Rightarrow> tcp_conn \<Rightarrow> bool" where
  "tunes c c' \<longleftrightarrow> c' = c\<lparr>tc_alg := tc_alg c'\<rparr> \<and> ta_snd_cwnd (tc_alg c') = ta_snd_cwnd (tc_alg c) \<and>
     ta_ssthresh (tc_alg c') = ta_ssthresh (tc_alg c) \<and> ta_lossRecovery (tc_alg c') = ta_lossRecovery (tc_alg c) \<and>
     ta_recover (tc_alg c') = ta_recover (tc_alg c)"

lemma tunes_refl [simp]: "tunes c c"
  by (simp add: tunes_def)

lemma tunes_trans:
  assumes "tunes c c'" "tunes c' c''"
  shows "tunes c c''"
proof -
  have "c'' = (c\<lparr>tc_alg := tc_alg c'\<rparr>)\<lparr>tc_alg := tc_alg c''\<rparr>" using assms unfolding tunes_def by metis
  then have "c'' = c\<lparr>tc_alg := tc_alg c''\<rparr>" by simp
  then show ?thesis using assms by (simp add: tunes_def)
qed

lemma tunes_seta:
  assumes "ta_snd_cwnd (g (tc_alg c)) = ta_snd_cwnd (tc_alg c)" "ta_ssthresh (g (tc_alg c)) = ta_ssthresh (tc_alg c)"
    "ta_lossRecovery (g (tc_alg c)) = ta_lossRecovery (tc_alg c)" "ta_recover (g (tc_alg c)) = ta_recover (tc_alg c)"
  shows "tunes c (seta g c)"
  using assms by (simp add: tunes_def seta_def)

lemma tunes_moves:
  assumes "sender_ok w c" "tunes c c'"
  shows "moves w c c'"
proof -
  have "c' = seta (\<lambda>_. tc_alg c') c" using assms(2) by (simp add: tunes_def seta_def)
  moreover have "recovery_ok w (seta (\<lambda>_. tc_alg c') c) = recovery_ok w c"
    using assms(2) by (auto simp: recovery_ok_def tunes_def)
  moreover have "threshold_ok (seta (\<lambda>_. tc_alg c') c) = threshold_ok c" using assms(2) by (simp add: threshold_ok_def tunes_def)
  ultimately show ?thesis using moves_seta[OF assms(1), of "\<lambda>_. tc_alg c'"] by metis
qed

lemma rtt_on_ack_tunes: "tunes c (rtt_on_ack env c)"
  by (simp add: rtt_on_ack_def rttMeasurementComplete_def Let_def tunes_def seta_def)

lemma rexmit_on_ack_tunes: "\<exists>c'. rexmit_on_ack c = Inr c' \<and> tunes c c'"
proof -
  have "\<exists>c'. startRexmitTimer (cancel_rexmit c) = Inr c' \<and> tunes c c'"
    by (simp add: startRexmitTimer_def cancel_rexmit_def schedule_rexmit_def Let_def tunes_def seta_def)
  then show ?thesis by (simp add: rexmit_on_ack_def cancel_rexmit_def tunes_seta)
qed

lemma persist_on_ack_tunes: "\<exists>c'. persist_on_ack c = Inr c' \<and> tunes c c'"
  by (simp add: persist_on_ack_def cancel_persist_def schedule_persist_def tunes_seta)

lemma base_receivedDataAck_tunes: "\<exists>c'. base_receivedDataAck env c = Inr c' \<and> tunes c c'"
proof -
  obtain c1 where 1: "rexmit_on_ack (rtt_on_ack env c) = Inr c1" "tunes (rtt_on_ack env c) c1" using rexmit_on_ack_tunes by blast
  obtain c2 where 2: "persist_on_ack c1 = Inr c2" "tunes c1 c2" using persist_on_ack_tunes by blast
  have "tunes c c2" by (rule tunes_trans[OF tunes_trans[OF rtt_on_ack_tunes 1(2)] 2(2)])
  with 1(1) 2(1) show ?thesis by (simp add: base_receivedDataAck_def)
qed

lemma base_receivedDataAck_good:
  assumes "sender_ok w c"
  shows "good w c (base_receivedDataAck env c) (\<lambda>c'. tunes c c')"
proof -
  from base_receivedDataAck_tunes obtain c' where "base_receivedDataAck env c = Inr c'" "tunes c c'" by blast
  then show ?thesis using tunes_moves[OF assms] by (simp add: good_def)
qed

lemma base_receivedDuplicateAck_fine:
  assumes "sender_ok w c"
  shows "good w c (base_receivedDuplicateAck (flavour_leaf fl env0) c) (\<lambda>c'. fixed c' = fixed c)"
proof (cases "tv_dupacks (tc_vars c) < DUPTHRESH \<and> tv_limited_transmit_enabled (tc_vars c)")
  case True
  from sendOneNewSegment_ok[OF assms conjunct2[OF True], where fl = fl and ?env0.0 = env0] True show ?thesis
    unfolding base_receivedDuplicateAck_def Let_def good_def if_P[OF True] using moves_fixed by blast
next
  case False
  show ?thesis unfolding base_receivedDuplicateAck_def Let_def if_not_P[OF False]
    by (rule good_pure[OF moves_refl[OF assms]]) simp
qed

section \<open>The flavours\<close>

lemma set_cwnd_moves [simp]: "sender_ok w c \<Longrightarrow> moves w c (set_cwnd n c)"
  by (simp add: set_cwnd_def recovery_ok_def)

lemma threshold_moves [simp]: "sender_ok w c \<Longrightarrow> moves w c (recalculateSlowStartThreshold c)"
  unfolding recalculateSlowStartThreshold_def Let_def
  by (rule moves_seta) (auto simp: recovery_ok_def threshold_ok_def max_def)

lemma grow_cwnd_fine:
  assumes "sender_ok w c" "ta_snd_cwnd (tc_alg c) \<noteq> 0 \<or> ta_ssthresh (tc_alg c) \<noteq> 0"
  shows "good w c (grow_cwnd c) (\<lambda>c'. ta_lossRecovery (tc_alg c') = ta_lossRecovery (tc_alg c))"
  using assms by (auto simp: grow_cwnd_def Let_def set_cwnd_def word_gt_0 intro!: good_pure)

lemma tunes_cwnd: "tunes c c' \<Longrightarrow> ta_snd_cwnd (tc_alg c') = ta_snd_cwnd (tc_alg c) \<and> ta_ssthresh (tc_alg c') = ta_ssthresh (tc_alg c)"
  "tunes c c' \<Longrightarrow> ta_lossRecovery (tc_alg c') = ta_lossRecovery (tc_alg c)"
  by (simp_all add: tunes_def)

lemma nocc_receivedDataAck_fine:
  assumes "sender_ok w c"
  shows "fine w c (nocc_receivedDataAck (flavour_leaf fl env0) c)"
  unfolding nocc_receivedDataAck_def
  by (rule good_bind[OF base_receivedDataAck_good[OF assms]]) (rule quiet_send[OF movesD(1)])

lemma tahoe_receivedDataAck_fine:
  assumes "sender_ok w c" "ta_snd_cwnd (tc_alg c) \<noteq> 0 \<or> ta_ssthresh (tc_alg c) \<noteq> 0"
  shows "fine w c (tahoe_receivedDataAck (flavour_leaf fl env0) c)"
  unfolding tahoe_receivedDataAck_def
proof (rule good_bind[OF base_receivedDataAck_good[OF assms(1)]])
  fix c1 assume 1: "moves w c c1" "tunes c c1"
  show "fine w c1 (bindE (grow_cwnd c1) (\<lambda>c2. quietly (base_sendData (flavour_leaf fl env0) False c2)))"
    by (rule good_bind[OF grow_cwnd_fine[OF movesD(1)[OF 1(1)]]]) (use 1 assms(2) tunes_cwnd in \<open>auto intro: quiet_send movesD(1)\<close>)
qed

lemma reno_receivedDataAck_fine:
  assumes "sender_ok w c" "ta_snd_cwnd (tc_alg c) \<noteq> 0 \<or> ta_ssthresh (tc_alg c) \<noteq> 0"
  shows "fine w c (reno_receivedDataAck (flavour_leaf fl env0) c)"
  unfolding reno_receivedDataAck_def
proof (rule good_bind[OF base_receivedDataAck_good[OF assms(1)]])
  fix c1 assume 1: "moves w c c1" "tunes c c1"
  have g: "fine w c1 (if DUPTHRESH \<le> tv_dupacks (tc_vars c1) then Inr (set_cwnd (ta_ssthresh (tc_alg c1)) c1) else grow_cwnd c1)"
    using grow_cwnd_fine[OF movesD(1)[OF 1(1)]] assms(2) tunes_cwnd[OF 1(2)] movesD(1)[OF 1(1)]
    by (auto intro: good_weaken good_pure)
  show "fine w c1 (bindE (if DUPTHRESH \<le> tv_dupacks (tc_vars c1) then Inr (set_cwnd (ta_ssthresh (tc_alg c1)) c1) else grow_cwnd c1)
      (\<lambda>c2. bindE (reno_recovery_on_ack (flavour_leaf fl env0) c2) (\<lambda>c3. quietly (base_sendData (flavour_leaf fl env0) False c3))))"
  proof (rule good_bind[OF g])
    fix c2 assume 2: "moves w c1 c2"
    have "\<not> tv_sack_enabled (tc_vars c2)" using sender_okD(2)[OF movesD(1)[OF 2]] by (simp add: plain_def)
    then have "reno_recovery_on_ack (flavour_leaf fl env0) c2 = Inr c2" by (simp add: reno_recovery_on_ack_def)
    then show "fine w c2 (bindE (reno_recovery_on_ack (flavour_leaf fl env0) c2) (\<lambda>c3. quietly (base_sendData (flavour_leaf fl env0) False c3)))"
      using quiet_send[OF movesD(1)[OF 2]] by simp
  qed
qed

text \<open>An acknowledgment of a part of the data leaves something to retransmit.\<close>

lemma partial_ack_left:
  assumes "sender_ok w c" "recovery_ok w c" "ta_lossRecovery (tc_alg c)"
    "\<not> seqGE (tv_snd_una (tc_vars c) - 1) (ta_recover (tc_alg c))"
  shows "tv_snd_una (tc_vars c) \<noteq> tv_snd_max (tc_vars c)"
proof -
  let ?una = "tv_snd_una (tc_vars c)" and ?r = "ta_recover (tc_alg c) + 1"
  have r: "off w ?r \<le> off w (tv_snd_max (tc_vars c))" using assms(2,3) by (simp add: recovery_ok_def)
  have n: "near w ?r" "near w ?una" using r sender_near(1,3)[OF assms(1)] by (simp_all add: near_def)
  have "\<not> seqGE ?una ?r" using assms(4) by (simp add: seqGE_def algebra_simps)
  then show ?thesis using seq_near(4)[OF n(2,1)] r by auto
qed

lemma full_ack_moves: "sender_ok w c \<Longrightarrow> moves w c (newreno_full_ack c)"
  unfolding newreno_full_ack_def Let_def by (erule moves_seta) (simp_all add: recovery_ok_def threshold_ok_def)

lemma newreno_partial_ack_fine:
  assumes ok: "sender_ok w c" and ne: "tv_snd_una (tc_vars c) \<noteq> tv_snd_max (tc_vars c)"
  shows "fine w c (newreno_partial_ack (flavour_leaf fl env0) n c)"
  unfolding newreno_partial_ack_def Let_def
proof (rule good_bind[OF retransmit_fine[OF ok ne]])
  fix c1 :: tcp_conn and x assume 1: "moves w c c1"
  let ?k = "\<lambda>c3. if ta_lossRecovery (tc_alg c3) \<and> \<not> ta_firstPartialACK (tc_alg c3)
      then te_call (flavour_leaf fl env0) RestartRexmitTimer (seta (\<lambda>a. a\<lparr>ta_firstPartialACK := True\<rparr>) c3) else Inr c3"
  have k: "fine w c3 (?k c3)" if ok3: "sender_ok w c3" for c3
  proof -
    have m: "moves w c3 (seta (\<lambda>a. a\<lparr>ta_firstPartialACK := True\<rparr>) c3)" by (rule moves_seta[OF ok3]) (simp_all add: recovery_ok_def threshold_ok_def)
    have "fine w c3 (te_call (flavour_leaf fl env0) RestartRexmitTimer (seta (\<lambda>a. a\<lparr>ta_firstPartialACK := True\<rparr>) c3))"
      by (rule good_step[OF m restart_fine[OF movesD(1)[OF m]]])
    then show ?thesis using good_pure[OF moves_refl[OF ok3]] by simp
  qed
  have m: "moves w c1 (set_cwnd y c1)" for y by (rule set_cwnd_moves[OF movesD(1)[OF 1]])
  show "fine w c1 (bindE (quietly (base_sendData (flavour_leaf fl env0) False (set_cwnd y c1))) ?k)" for y
    by (rule good_step[OF m], rule good_bind[OF quiet_send[OF movesD(1)[OF m]]], rule k, erule movesD(1))
qed

lemma newreno_receivedDataAck_fine:
  assumes ok: "sender_ok w c" "ta_snd_cwnd (tc_alg c) \<noteq> 0 \<or> ta_ssthresh (tc_alg c) \<noteq> 0" "recovery_ok w c"
  shows "fine w c (newreno_receivedDataAck (flavour_leaf fl env0) n c)"
  unfolding newreno_receivedDataAck_def
proof (rule good_bind[OF base_receivedDataAck_good[OF ok(1)]])
  fix c1 assume 1: "moves w c c1" "tunes c c1"
  note ok1 = movesD(1)[OF 1(1)] and rec1 = movesD(10)[OF 1(1) ok(3)]
  let ?env = "flavour_leaf fl env0"
  let ?m = "if ta_lossRecovery (tc_alg c1)
            then if seqGE (tv_snd_una (tc_vars c1) - 1) (ta_recover (tc_alg c1)) then Inr (newreno_full_ack c1)
                 else newreno_partial_ack ?env n c1
            else bindE (grow_cwnd c1) (\<lambda>c2. Inr (seta (\<lambda>a. a\<lparr>ta_recover := tv_snd_una (tc_vars c2) - 2\<rparr>) c2))"
  have "fine w c1 ?m"
  proof (cases "ta_lossRecovery (tc_alg c1)")
    case True
    note left = partial_ack_left[OF ok1 rec1 True]
    show ?thesis
    proof (cases "seqGE (tv_snd_una (tc_vars c1) - 1) (ta_recover (tc_alg c1))")
      case False
      from newreno_partial_ack_fine[OF ok1 left[OF False]] show ?thesis using True False by simp
    qed (use True good_pure[OF full_ack_moves[OF ok1]] in simp)
  next
    case False
    have "ta_snd_cwnd (tc_alg c1) \<noteq> 0 \<or> ta_ssthresh (tc_alg c1) \<noteq> 0" using ok(2) tunes_cwnd(1)[OF 1(2)] by simp
    from grow_cwnd_fine[OF ok1 this] have g: "good w c1 (grow_cwnd c1) (\<lambda>c'. \<not> ta_lossRecovery (tc_alg c'))"
      by (rule good_weaken) (use False in simp)
    have "fine w c1 (bindE (grow_cwnd c1) (\<lambda>c2. Inr (seta (\<lambda>a. a\<lparr>ta_recover := tv_snd_una (tc_vars c2) - 2\<rparr>) c2)))"
      by (rule good_bind[OF g], rule good_pure, rule moves_seta, erule movesD(1)) (simp_all add: recovery_ok_def threshold_ok_def)
    then show ?thesis using False by simp
  qed
  then show "fine w c1 (bindE ?m (\<lambda>c3. quietly (base_sendData ?env False c3)))"
    by (rule good_bind) (rule quiet_send[OF movesD(1)])
qed

text \<open>Duplicate acknowledgments: there is something to retransmit.\<close>

lemma moves_unacked:
  assumes "moves w c c'" "sender_ok w c" "tv_snd_una (tc_vars c) \<noteq> tv_snd_max (tc_vars c)"
  shows "tv_snd_una (tc_vars c') \<noteq> tv_snd_max (tc_vars c')"
proof -
  have "off w (tv_snd_una (tc_vars c)) < off w (tv_snd_max (tc_vars c))"
    using sender_okD(6,7)[OF assms(2)] assms(3) off_inj[of w "tv_snd_una (tc_vars c)" "tv_snd_max (tc_vars c)"] by linarith
  then show ?thesis using movesD(3,9)[OF assms(1)] by auto
qed

lemma retransmit_after:
  assumes "moves w c d" "sender_ok w c" "tv_snd_una (tc_vars c) \<noteq> tv_snd_max (tc_vars c)"
  shows "fine w c (retransmitOneSegment (flavour_leaf fl env0) rto d)"
  by (rule good_step[OF assms(1)], rule good_weaken[OF retransmit_fine[OF movesD(1)[OF assms(1)] moves_unacked[OF assms]]]) simp

lemma tahoe_receivedDuplicateAck_fine:
  assumes "sender_ok w c" "tv_snd_una (tc_vars c) \<noteq> tv_snd_max (tc_vars c)"
  shows "fine w c (tahoe_receivedDuplicateAck (flavour_leaf fl env0) c)"
  unfolding tahoe_receivedDuplicateAck_def
proof (rule good_bind[OF base_receivedDuplicateAck_fine[OF assms(1)]])
  fix c1 assume 1: "moves w c c1"
  note ok1 = movesD(1)[OF 1]
  let ?d = "recalculateSlowStartThreshold c1"
  have m: "moves w c1 (set_cwnd (tv_snd_mss (tc_vars ?d)) ?d)"
    by (rule moves_trans[OF threshold_moves[OF ok1] set_cwnd_moves[OF movesD(1)[OF threshold_moves[OF ok1]]]])
  from retransmit_after[OF m ok1 moves_unacked[OF 1 assms]] good_pure[OF moves_refl[OF ok1]]
  show "fine w c1 (if tv_dupacks (tc_vars c1) = DUPTHRESH
     then let c2 = recalculateSlowStartThreshold c1
          in retransmitOneSegment (flavour_leaf fl env0) False (set_cwnd (tv_snd_mss (tc_vars c2)) c2)
     else Inr c1)" by (simp add: Let_def)
qed

lemma reno_receivedDuplicateAck_fine:
  assumes "sender_ok w c" "tv_snd_una (tc_vars c) \<noteq> tv_snd_max (tc_vars c)"
  shows "fine w c (reno_receivedDuplicateAck (flavour_leaf fl env0) c)"
  unfolding reno_receivedDuplicateAck_def
proof (rule good_bind[OF base_receivedDuplicateAck_fine[OF assms(1)]])
  fix c1 assume 1: "moves w c c1"
  note ok1 = movesD(1)[OF 1]
  have fast: "fine w c1 (reno_fast_retransmit (flavour_leaf fl env0) c1)"
  proof -
    have "\<not> tv_sack_enabled (tc_vars c1)" using sender_okD(2)[OF ok1] by (simp add: plain_def)
    then have e: "reno_enter_recovery c1 = c1" by (simp add: reno_enter_recovery_def)
    let ?d = "recalculateSlowStartThreshold c1"
    have m: "moves w c1 (set_cwnd x ?d)" for x
      by (rule moves_trans[OF threshold_moves[OF ok1] set_cwnd_moves[OF movesD(1)[OF threshold_moves[OF ok1]]]])
    show ?thesis unfolding reno_fast_retransmit_def Let_def e
    proof (rule good_bind[OF retransmit_after[OF m ok1 moves_unacked[OF 1 assms]]])
      fix c3 assume 3: "moves w c1 c3"
      have ns: "\<not> tv_sack_enabled (tc_vars c3)" using sender_okD(2)[OF movesD(1)[OF 3]] by (simp add: plain_def)
      show "fine w c3 (bindE (if tv_sack_enabled (tc_vars c3)
                then bindE (setPipe c3) (\<lambda>c4.
                     if ta_lossRecovery (tc_alg c4)
                     then bindE (te_call (flavour_leaf fl env0) RestartRexmitTimer c4) (recovery_room (flavour_leaf fl env0)) else Inr c4)
                else Inr c3) (\<lambda>c5. quietly (base_sendData (flavour_leaf fl env0) False c5)))"
        unfolding if_not_P[OF ns] bindE_simps by (rule quiet_send[OF movesD(1)[OF 3]])
    qed
  qed
  have m: "moves w c1 (set_cwnd x c1)" for x by (rule set_cwnd_moves[OF ok1])
  have more: "fine w c1 (quietly (base_sendData (flavour_leaf fl env0) False (set_cwnd x c1)))" for x
    by (rule good_step[OF m quiet_send[OF movesD(1)[OF m]]])
  show "fine w c1 (let d = tv_dupacks (tc_vars c1) in
     if d = DUPTHRESH then reno_fast_retransmit (flavour_leaf fl env0) c1
     else if DUPTHRESH < d
     then quietly (base_sendData (flavour_leaf fl env0) False (set_cwnd (ta_snd_cwnd (tc_alg c1) + tv_snd_mss (tc_vars c1)) c1))
     else Inr c1)"
    using fast more good_pure[OF moves_refl[OF ok1]] by (simp add: Let_def)
qed

lemma newreno_receivedDuplicateAck_fine:
  assumes "sender_ok w c" "tv_snd_una (tc_vars c) \<noteq> tv_snd_max (tc_vars c)"
  shows "fine w c (newreno_receivedDuplicateAck (flavour_leaf fl env0) c)"
  unfolding newreno_receivedDuplicateAck_def
proof (rule good_bind[OF base_receivedDuplicateAck_fine[OF assms(1)]])
  fix c1 assume 1: "moves w c c1"
  note ok1 = movesD(1)[OF 1]
  let ?env = "flavour_leaf fl env0" and ?c2 = "recalculateSlowStartThreshold c1"
  let ?c3 = "seta (\<lambda>a. a\<lparr>ta_recover := tv_snd_max (tc_vars ?c2) - 1, ta_firstPartialACK := False, ta_lossRecovery := True\<rparr>) ?c2"
  let ?c4 = "set_cwnd (ta_ssthresh (tc_alg ?c3) + 3 * tv_snd_mss (tc_vars ?c3)) ?c3"
  have m2: "moves w c1 ?c2" by (rule threshold_moves[OF ok1])
  have m3: "moves w ?c2 ?c3" by (rule moves_seta[OF movesD(1)[OF m2]]) (simp_all add: recovery_ok_def threshold_ok_def)
  have m4: "moves w c1 ?c4" by (rule moves_trans[OF m2 moves_trans[OF m3 set_cwnd_moves[OF movesD(1)[OF m3]]]])
  have fast: "fine w c1 (bindE (retransmitOneSegment ?env False ?c4) (\<lambda>c5. quietly (base_sendData ?env False c5)))"
    by (rule good_bind[OF retransmit_after[OF m4 ok1 moves_unacked[OF 1 assms]]]) (rule quiet_send[OF movesD(1)])
  have m: "moves w c1 (set_cwnd x c1)" for x by (rule set_cwnd_moves[OF ok1])
  have more: "fine w c1 (quietly (base_sendData ?env False (set_cwnd x c1)))" for x
    by (rule good_step[OF m quiet_send[OF movesD(1)[OF m]]])
  show "fine w c1 (let d = tv_dupacks (tc_vars c1) in
     if d = DUPTHRESH
     then if \<not> ta_lossRecovery (tc_alg c1) \<and> ta_recover (tc_alg c1) < tv_snd_una (tc_vars c1) - 1
          then let c2 = recalculateSlowStartThreshold c1;
                   c3 = seta (\<lambda>a. a\<lparr>ta_recover := tv_snd_max (tc_vars c2) - 1, ta_firstPartialACK := False, ta_lossRecovery := True\<rparr>) c2;
                   c4 = set_cwnd (ta_ssthresh (tc_alg c3) + 3 * tv_snd_mss (tc_vars c3)) c3
               in bindE (retransmitOneSegment ?env False c4) (\<lambda>c5. quietly (base_sendData ?env False c5))
          else Inr c1
     else if DUPTHRESH < d \<and> ta_lossRecovery (tc_alg c1)
     then quietly (base_sendData ?env False (set_cwnd (ta_snd_cwnd (tc_alg c1) + tv_snd_mss (tc_vars c1)) c1))
     else Inr c1)"
    unfolding Let_def using fast more[of "ta_snd_cwnd (tc_alg c1) + tv_snd_mss (tc_vars c1)"] good_pure[OF moves_refl[OF ok1]] by (auto simp only: split: if_splits)
qed

section \<open>The callbacks on acknowledgments\<close>

lemma flavour_receivedDataAck_fine:
  assumes "sender_ok w c" "recovery_ok w c" "divides_safely fl c"
  shows "fine w c (te_call (alg_env fl env0) (ReceivedDataAck n) c)"
proof (cases fl)
  case Dumb
  then show ?thesis using quiet_sendData[OF assms(1), where fl = Dumb]
    by (simp add: alg_env_def flavour_call_def Let_def flavour_receivedDataAck_def)
qed (use assms(3) nocc_receivedDataAck_fine[OF assms(1)] tahoe_receivedDataAck_fine[OF assms(1)] reno_receivedDataAck_fine[OF assms(1)]
    newreno_receivedDataAck_fine[OF assms(1) _ assms(2)] in
    \<open>simp_all add: divides_safely_def alg_env_def flavour_call_def Let_def flavour_receivedDataAck_def\<close>)

lemma flavour_receivedDuplicateAck_fine:
  assumes "sender_ok w c" "tv_snd_una (tc_vars c) \<noteq> tv_snd_max (tc_vars c)"
  shows "fine w c (te_call (alg_env fl env0) ReceivedDuplicateAck c)"
proof (cases fl)
  case NoCongestionControl
  show ?thesis using good_weaken[OF base_receivedDuplicateAck_fine[OF assms(1)]] NoCongestionControl
    by (simp add: alg_env_def flavour_call_def Let_def flavour_receivedDuplicateAck_def)
qed (use tahoe_receivedDuplicateAck_fine[OF assms] reno_receivedDuplicateAck_fine[OF assms] newreno_receivedDuplicateAck_fine[OF assms]
    good_pure[OF moves_refl[OF assms(1)]] in
    \<open>simp_all add: alg_env_def flavour_call_def Let_def flavour_receivedDuplicateAck_def\<close>)

lemma flavour_receivedAckForDataNotYetSent_fine:
  assumes "sender_ok w c"
  shows "good w c (te_call (alg_env fl env0) (ReceivedAckForDataNotYetSent n) c) (\<lambda>c'. core c' = core c)"
  using sendAck_fine[OF assms, where fl = fl and ?env0.0 = env0] by (simp add: alg_env_def flavour_call_def Let_def)

section \<open>The acknowledgment field\<close>

lemma moves_dupacks: "sender_ok w c \<Longrightarrow> sender_ok w (setv (\<lambda>v. v\<lparr>tv_dupacks := n v\<rparr>) c) \<and> recovery_ok w (setv (\<lambda>v. v\<lparr>tv_dupacks := n v\<rparr>) c) = recovery_ok w c"
  using sender_ok_view[of "setv (\<lambda>v. v\<lparr>tv_dupacks := n v\<rparr>) c" c w] by (simp add: plain_def recovery_ok_def)

lemma window_update_fields [simp]:
  "tc_alg (updateWndInfo s a c) = tc_alg c" "tc_state (updateWndInfo s a c) = tc_state c"
  "tc_sendQueue (updateWndInfo s a c) = tc_sendQueue c" "rcv_view (updateWndInfo s a c) = rcv_view c"
  "tv_snd_una (tc_vars (updateWndInfo s a c)) = tv_snd_una (tc_vars c)"
  "tv_snd_nxt (tc_vars (updateWndInfo s a c)) = tv_snd_nxt (tc_vars c)"
  "tv_snd_max (tc_vars (updateWndInfo s a c)) = tv_snd_max (tc_vars c)"
  "tv_send_fin (tc_vars (updateWndInfo s a c)) = tv_send_fin (tc_vars c)"
  "tv_snd_fin_seq (tc_vars (updateWndInfo s a c)) = tv_snd_fin_seq (tc_vars c)"
  "tv_fin_ack_rcvd (tc_vars (updateWndInfo s a c)) = tv_fin_ack_rcvd (tc_vars c)"
  "plain (updateWndInfo s a c) = plain c" "tv_dupacks (tc_vars (updateWndInfo s a c)) = tv_dupacks (tc_vars c)"
  by (simp_all add: updateWndInfo_def Let_def plain_def rcv_view_def)

lemma rcv_kept_view: "rcv_view c' = rcv_view c \<Longrightarrow> rcv_kept c' = rcv_kept c"
  by (simp add: rcv_view_def rcv_kept_def)

lemma window_update_ok: "sender_ok w c \<Longrightarrow> sender_ok w (updateWndInfo s a c) \<and> recovery_ok w (updateWndInfo s a c) = recovery_ok w c"
  using sender_ok_view[of "updateWndInfo s a c" c w] by (simp add: recovery_ok_def)

lemma threshold_ok_view: "tc_alg c' = tc_alg c \<Longrightarrow> tv_snd_mss (tc_vars c') = tv_snd_mss (tc_vars c) \<Longrightarrow> threshold_ok c' = threshold_ok c"
  by (simp add: threshold_ok_def)

lemma updateWndInfo_mss [simp]: "tv_snd_mss (tc_vars (updateWndInfo s a c)) = tv_snd_mss (tc_vars c)"
  by (simp add: updateWndInfo_def Let_def)

text \<open>An acknowledgment of new data, up to the call of the algorithm.\<close>

lemma ack_new_data:
  assumes ok: "sender_ok w c" "recovery_ok w c"
    and new: "off w (tv_snd_una (tc_vars c)) < off w (tg_ack s)" "off w (tg_ack s) \<le> off w (tv_snd_max (tc_vars c))"
    and fa: "fa \<longleftrightarrow> tv_send_fin (tc_vars c) \<and> tg_ack s = tv_snd_fin_seq (tc_vars c) + 1"
  shows "\<exists>c4. processAckInEstabEtc env s c =
    (if tg_len s = 0 \<and> tc_state c \<noteq> TCP_S_SYN_RCVD
     then bindE (te_call env (ReceivedDataAck (tv_snd_una (tc_vars c))) c4) (\<lambda>c5. Inr (True, setv (\<lambda>v. v\<lparr>tv_dupacks := 0\<rparr>) c5))
     else Inr (True, c4)) \<and>
    sender_ok w c4 \<and> recovery_ok w c4 \<and> tc_alg c4 = tc_alg c \<and> tc_state c4 = tc_state c \<and> tv_snd_una (tc_vars c4) = tg_ack s \<and>
    tv_snd_max (tc_vars c4) = tv_snd_max (tc_vars c) \<and> tv_snd_mss (tc_vars c4) = tv_snd_mss (tc_vars c) \<and>
    tc_sendQueue c4 = (tc_sendQueue c)\<lparr>sq_begin := if fa then tg_ack s - 1 else tg_ack s\<rparr> \<and>
    rcv_view c4 = rcv_view c \<and> tv_send_fin (tc_vars c4) = tv_send_fin (tc_vars c) \<and>
    (fa \<longrightarrow> tv_fin_ack_rcvd (tc_vars c4)) \<and> (\<not> fa \<longrightarrow> tv_fin_ack_rcvd (tc_vars c4) = tv_fin_ack_rcvd (tc_vars c))"
proof -
  let ?ack = "tg_ack s" and ?v = "tc_vars c"
  note d = sender_okD[OF ok(1)]
  have near: "near w ?ack" using new(2) sender_near(3)[OF ok(1)] by (simp add: near_def)
  note n = sender_near[OF ok(1)]
  note cmp = seq_near(4)[OF n(1) near] seq_near(2)[OF near n(3)]
  define d where "d = (if fa then ?ack - 1 else ?ack)"
  define nxt where "nxt = (if seqLess (tv_snd_nxt ?v) ?ack then ?ack else tv_snd_nxt ?v)"
  define c1 where "c1 = setv (\<lambda>v. v\<lparr>tv_snd_una := ?ack, tv_snd_nxt := if seqLess (tv_snd_nxt v) ?ack then ?ack else tv_snd_nxt v\<rparr>) c"
  define c3 where "c3 = (if fa then setv (\<lambda>v. v\<lparr>tv_fin_ack_rcvd := True\<rparr>) c1 else c1)"
  have sack: "tv_sack_enabled ?v = False" "tv_ts_enabled ?v = False" using d(2) by (simp_all add: plain_def)
  from ack_advance[OF d(1) new fa d_def] obtain sq where
    a: "sq_discardUpTo d (tc_sendQueue c) = Inr sq"
    and inv: "\<And>c'. snd_view c' = (sq, tc_rexmitQueue c, ?ack, nxt, tv_snd_max ?v, tv_send_fin ?v, tv_snd_fin_seq ?v, False) \<Longrightarrow> snd_ok w c'"
    unfolding sack if_False nxt_def[symmetric] by auto
  have sq: "sq = (tc_sendQueue c)\<lparr>sq_begin := d\<rparr>" using a by (auto simp: sq_discardUpTo_def bindE_def split: sum.splits if_splits)
  define c4 where "c4 = updateWndInfo s False (c3\<lparr>tc_sendQueue := sq, tc_rexmitQueue := tc_rexmitQueue c3\<rparr>)"
  have e1: "tv_ts_enabled (tc_vars c1) = False" "tv_sack_enabled (tc_vars c1) = False" "tc_sendQueue c1 = tc_sendQueue c"
    "tv_send_fin (tc_vars c1) = tv_send_fin ?v" "tv_snd_fin_seq (tc_vars c1) = tv_snd_fin_seq ?v" "tv_snd_una (tc_vars c1) = ?ack"
    using sack by (simp_all add: c1_def)
  have fa1: "fa \<longleftrightarrow> tv_send_fin (tc_vars c1) \<and> ?ack = tv_snd_fin_seq (tc_vars c1) + 1" by (simp add: fa e1)
  have sqd: "sq_discardUpTo (if fa then ?ack - 1 else ?ack) (tc_sendQueue c3) = Inr sq"
    using a unfolding d_def[symmetric] by (simp add: c3_def e1)
  have x: "(if tv_sack_enabled (tc_vars c1) then xq_discardUpTo (if fa then ?ack - 1 else ?ack) (tc_rexmitQueue c3)
        else Inr (tc_rexmitQueue c3)) = Inr (tc_rexmitQueue c3)" by (simp add: e1)
  have c2: "(if tv_ts_enabled (tc_vars c1) then bindE (getTSecr s) (\<lambda>tsecr. te_call env (RttMeasurementCompleteUsingTS tsecr) c1) else Inr c1) = Inr c1"
    by (simp add: e1)
  have run: "processAckInEstabEtc env s c =
    (if tg_len s = 0 \<and> tc_state c4 \<noteq> TCP_S_SYN_RCVD
     then bindE (te_call env (ReceivedDataAck (tv_snd_una ?v)) c4) (\<lambda>c5. Inr (True, setv (\<lambda>v. v\<lparr>tv_dupacks := 0\<rparr>) c5))
     else Inr (True, c4))"
    by (rule ack_in_window_run[OF _ _ c1_def c2 fa1 e1(6) c3_def sqd x c4_def]) (use cmp new in simp_all)
  have f: "tc_alg c4 = tc_alg c" "tc_state c4 = tc_state c" "tv_snd_una (tc_vars c4) = ?ack" "tv_snd_nxt (tc_vars c4) = nxt"
    "tv_snd_max (tc_vars c4) = tv_snd_max ?v" "tc_sendQueue c4 = sq" "tv_send_fin (tc_vars c4) = tv_send_fin ?v"
    "tv_snd_fin_seq (tc_vars c4) = tv_snd_fin_seq ?v"
    "tv_fin_ack_rcvd (tc_vars c4) = (fa \<or> tv_fin_ack_rcvd ?v)" "tv_dupacks (tc_vars c4) = tv_dupacks ?v"
    "rcv_view c4 = rcv_view c" "tv_snd_mss (tc_vars c4) = tv_snd_mss ?v"
    by (simp_all add: c4_def c3_def c1_def nxt_def) (simp add: rcv_view_def delivered_def setv_def)
  have p4: "plain c4" using d(2) unfolding c4_def window_update_fields(11) by (simp add: c3_def c1_def plain_def)
  have sv: "snd_view c4 = (sq, tc_rexmitQueue c, ?ack, nxt, tv_snd_max ?v, tv_send_fin ?v, tv_snd_fin_seq ?v, False)"
    unfolding c4_def snd_view_updateWndInfo by (simp add: snd_view_def c3_def c1_def nxt_def sack)
  have s4: "snd_ok w c4" by (rule inv[OF sv])
  have "off w d \<le> off w ?ack"
  proof (cases fa)
    case True
    have "off w (tv_snd_fin_seq ?v + 1) = Suc (off w (tv_snd_fin_seq ?v))" using True fa d(4,5) by (intro off_suc) simp
    then show ?thesis using True fa by (simp add: d_def)
  qed (simp add: d_def)
  then have "sender_ok w c4"
    using s4 p4 d(4,5) f by (simp add: sender_ok_def sq)
  moreover have "recovery_ok w c4" using ok(2) by (simp add: recovery_ok_def f)
  ultimately show ?thesis using run f by (intro exI[of _ c4]) (simp add: sq d_def)
qed

lemma ack_step:
  assumes ok: "sender_ok w c" "recovery_ok w c" and cwnd: "divides_safely fl c" and na: "near w (tg_ack s)"
  shows "\<exists>b c'. processAckInEstabEtc (alg_env fl env0) s c = Inr (b, c') \<and> sender_ok w c' \<and> recovery_ok w c' \<and>
    (threshold_ok c \<longrightarrow> threshold_ok c') \<and>
    (b \<longleftrightarrow> off w (tg_ack s) \<le> off w (tv_snd_max (tc_vars c))) \<and>
    (let fa = (tv_send_fin (tc_vars c) \<and> tg_ack s = tv_snd_fin_seq (tc_vars c) + 1) in
     if off w (tv_snd_una (tc_vars c)) < off w (tg_ack s) \<and> b
     then tv_snd_una (tc_vars c') = tg_ack s \<and> tc_sendQueue c' = (tc_sendQueue c)\<lparr>sq_begin := if fa then tg_ack s - 1 else tg_ack s\<rparr> \<and>
       tv_fin_ack_rcvd (tc_vars c') = (fa \<or> tv_fin_ack_rcvd (tc_vars c))
     else tv_snd_una (tc_vars c') = tv_snd_una (tc_vars c) \<and> tc_sendQueue c' = tc_sendQueue c \<and>
       tv_fin_ack_rcvd (tc_vars c') = tv_fin_ack_rcvd (tc_vars c)) \<and> rcv_kept c' = rcv_kept c \<and> tv_send_fin (tc_vars c') = tv_send_fin (tc_vars c) \<and>
    (b \<and> tg_len s \<noteq> 0 \<longrightarrow> tc_alg c' = tc_alg c \<and> rcv_view c' = rcv_view c)"
proof -
  let ?ack = "tg_ack s" and ?v = "tc_vars c" and ?env = "alg_env fl env0"
  note n = sender_near[OF ok(1)] and d = sender_okD[OF ok(1)]
  have um: "off w (tv_snd_una ?v) \<le> off w (tv_snd_max ?v)" using d(6,7) by linarith
  note cmp = seq_near(4)[OF n(1) na] seq_near(2)[OF na n(3)] seq_near(3)[OF na n(3)]
  consider (old) "off w ?ack \<le> off w (tv_snd_una ?v)"
    | (new) "off w (tv_snd_una ?v) < off w ?ack" "off w ?ack \<le> off w (tv_snd_max ?v)"
    | (beyond) "off w (tv_snd_max ?v) < off w ?ack" by linarith
  then show ?thesis
  proof cases
    case old
    show ?thesis
    proof (cases "tv_snd_una ?v = ?ack \<and> tg_len s = 0 \<and> tv_snd_una ?v \<noteq> tv_snd_max ?v")
      case True
      let ?d = "updateWndInfo s False (setv (\<lambda>v. v\<lparr>tv_dupacks := tv_dupacks v + 1\<rparr>) c)"
      note m = moves_dupacks[OF ok(1), of "\<lambda>v. tv_dupacks v + 1"]
      have th: "threshold_ok ?d = threshold_ok c" by (rule threshold_ok_view) simp_all
      have okd: "sender_ok w ?d" "recovery_ok w ?d" using window_update_ok[OF conjunct1[OF m], of s False] m ok(2) by blast+
      have "tv_snd_una ?v \<noteq> tv_snd_max ?v" using True by blast
      then have "tv_snd_una (tc_vars ?d) \<noteq> tv_snd_max (tc_vars ?d)" by simp
      from flavour_receivedDuplicateAck_fine[OF okd(1) this, where fl = fl and ?env0.0 = env0] obtain c' where
        c': "te_call ?env ReceivedDuplicateAck ?d = Inr c'" "moves w ?d c'" unfolding good_def by blast
      have ge: "seqGE (tv_snd_una ?v) ?ack" using cmp(1) old by simp
      have "processAckInEstabEtc ?env s c = Inr (True, c')"
        unfolding processAckInEstabEtc_def Let_def if_P[OF ge] if_P[OF True] c'(1) by simp
      moreover have "rcv_kept ?d = rcv_kept c" by (rule rcv_kept_view) (simp add: rcv_view_def[of "setv f c" for f] rcv_view_def[of c])
      ultimately show ?thesis using True old um movesD[OF c'(2)] okd(2) th
        by (intro exI[of _ True] exI[of _ c']) (simp add: Let_def)
    next
      case False
      let ?d = "setv (\<lambda>v. v\<lparr>tv_dupacks := 0\<rparr>) c"
      have "processAckInEstabEtc ?env s c = Inr (True, ?d)"
        using False cmp(1) old by (auto simp: processAckInEstabEtc_def Let_def)
      moreover have "threshold_ok ?d = threshold_ok c" by (rule threshold_ok_view) simp_all
      moreover have "rcv_view ?d = rcv_view c" by (simp add: rcv_view_def)
      ultimately show ?thesis using old um moves_dupacks[OF ok(1), of "\<lambda>_. 0"] ok(2) rcv_kept_view[of ?d c]
        by (intro exI[of _ True] exI[of _ ?d]) (simp add: Let_def)
    qed
  next
    case new
    define fa where "fa = (tv_send_fin ?v \<and> ?ack = tv_snd_fin_seq ?v + 1)"
    from ack_new_data[OF ok new fa_def, of ?env] obtain c4 where
      run: "processAckInEstabEtc ?env s c = (if tg_len s = 0 \<and> tc_state c \<noteq> TCP_S_SYN_RCVD
        then bindE (te_call ?env (ReceivedDataAck (tv_snd_una ?v)) c4) (\<lambda>c5. Inr (True, setv (\<lambda>v. v\<lparr>tv_dupacks := 0\<rparr>) c5))
        else Inr (True, c4))"
      and c4: "sender_ok w c4" "recovery_ok w c4" "tc_alg c4 = tc_alg c" "tv_snd_una (tc_vars c4) = ?ack"
        "tc_sendQueue c4 = (tc_sendQueue c)\<lparr>sq_begin := if fa then ?ack - 1 else ?ack\<rparr>"
        "tv_fin_ack_rcvd (tc_vars c4) = (fa \<or> tv_fin_ack_rcvd ?v)" "rcv_view c4 = rcv_view c" "tv_send_fin (tc_vars c4) = tv_send_fin ?v"
        "tv_snd_mss (tc_vars c4) = tv_snd_mss ?v" by auto
    have th4: "threshold_ok c4 = threshold_ok c" by (rule threshold_ok_view[OF c4(3,9)])
    show ?thesis
    proof (cases "tg_len s = 0 \<and> tc_state c \<noteq> TCP_S_SYN_RCVD")
      case True
      have "divides_safely fl c4" using cwnd c4(3) by (simp add: divides_safely_def)
      from flavour_receivedDataAck_fine[OF c4(1,2) this, where ?env0.0 = env0 and n = "tv_snd_una ?v"] obtain c5 where
        5: "te_call ?env (ReceivedDataAck (tv_snd_una ?v)) c4 = Inr c5" "moves w c4 c5" unfolding good_def by blast
      let ?d = "setv (\<lambda>v. v\<lparr>tv_dupacks := 0\<rparr>) c5"
      have "processAckInEstabEtc ?env s c = Inr (True, ?d)" unfolding run if_P[OF True] 5(1) by simp
      moreover have "sender_ok w ?d" "recovery_ok w ?d"
        using moves_dupacks[OF movesD(1)[OF 5(2)], of "\<lambda>_. 0"] movesD(10)[OF 5(2) c4(2)] by simp_all
      moreover have "threshold_ok ?d = threshold_ok c5" by (rule threshold_ok_view) simp_all
      then have "threshold_ok c \<Longrightarrow> threshold_ok ?d" using movesD(13)[OF 5(2)] th4 by simp
      moreover have "rcv_kept ?d = rcv_kept c" using movesD(11)[OF 5(2)] rcv_kept_view[OF c4(7)] by (simp add: rcv_kept_def)
      ultimately show ?thesis using new(2) movesD(2,3,7,12)[OF 5(2)] c4(4-6,8) True
        by (intro exI[of _ True] exI[of _ ?d]) (simp add: Let_def fa_def new)
    next
      case False
      have "processAckInEstabEtc ?env s c = Inr (True, c4)" unfolding run by (rule if_not_P[OF False])
      then show ?thesis using new c4 th4 rcv_kept_view[OF c4(7)] by (intro exI[of _ True] exI[of _ c4]) (simp add: Let_def fa_def)
    qed
  next
    case beyond
    from flavour_receivedAckForDataNotYetSent_fine[OF ok(1), where fl = fl and ?env0.0 = env0 and n = ?ack] obtain c1 where
      1: "te_call ?env (ReceivedAckForDataNotYetSent ?ack) c = Inr c1" "moves w c c1" unfolding good_def by blast
    let ?d = "setv (\<lambda>v. v\<lparr>tv_dupacks := 0\<rparr>) c1"
    have "processAckInEstabEtc ?env s c = Inr (False, ?d)"
      using beyond um cmp 1(1) by (simp add: processAckInEstabEtc_def Let_def)
    moreover have "sender_ok w ?d" "recovery_ok w ?d"
      using moves_dupacks[OF movesD(1)[OF 1(2)], of "\<lambda>_. 0"] movesD(10)[OF 1(2) ok(2)] by simp_all
    moreover have "threshold_ok ?d = threshold_ok c1" by (rule threshold_ok_view) simp_all
    then have "threshold_ok c \<Longrightarrow> threshold_ok ?d" using movesD(13)[OF 1(2)] by simp
    moreover have "rcv_kept ?d = rcv_kept c" using movesD(11)[OF 1(2)] by (simp add: rcv_kept_def)
    ultimately show ?thesis using beyond movesD(2,3,7,12)[OF 1(2)]
      by (intro exI[of _ False] exI[of _ ?d]) (simp add: Let_def)
  qed
qed

text \<open>
  C10: the acknowledgment field on a plain connection, for every flavour and with the real callbacks.
  While the sender is in order and the congestion control cannot divide by 0 (\<open>snd_cwnd\<close> or \<open>ssthresh\<close> is
  not 0, which Tahoe, Reno and NewReno need and the other flavours do not), any acknowledgment number in half of the number space is processed
  without an error, and the sender is in order again (during fast recovery, \<open>recover\<close> stays a number
  that was sent), and \<open>ssthresh\<close> stays above 0 if it was, unless twice the segment size wraps to 0.  The segment is dropped exactly when it acknowledges what was not sent.  New data
  that is acknowledged leaves the send queue, all but our FIN, which is noted; any other segment
  leaves \<open>snd_una\<close>, the queue and that note alone.
\<close>

theorem ack_processing_safe:
  assumes ok: "sender_ok w c" "recovery_ok w c" and cwnd: "divides_safely fl c" and na: "near w (tg_ack s)"
  shows "\<exists>b c'. processAckInEstabEtc (alg_env fl env0) s c = Inr (b, c') \<and> sender_ok w c' \<and> recovery_ok w c' \<and>
    (threshold_ok c \<longrightarrow> threshold_ok c') \<and>
    (b \<longleftrightarrow> off w (tg_ack s) \<le> off w (tv_snd_max (tc_vars c))) \<and>
    (let fa = (tv_send_fin (tc_vars c) \<and> tg_ack s = tv_snd_fin_seq (tc_vars c) + 1) in
     if off w (tv_snd_una (tc_vars c)) < off w (tg_ack s) \<and> b
     then tv_snd_una (tc_vars c') = tg_ack s \<and> tc_sendQueue c' = (tc_sendQueue c)\<lparr>sq_begin := if fa then tg_ack s - 1 else tg_ack s\<rparr> \<and>
       tv_fin_ack_rcvd (tc_vars c') = (fa \<or> tv_fin_ack_rcvd (tc_vars c))
     else tv_snd_una (tc_vars c') = tv_snd_una (tc_vars c) \<and> tc_sendQueue c' = tc_sendQueue c \<and>
       tv_fin_ack_rcvd (tc_vars c') = tv_fin_ack_rcvd (tc_vars c))"
  using ack_step[OF assms, where ?env0.0 = env0] unfolding Let_def by blast

lemma ack_processing_safe_witness:
  "\<exists>c'. processAckInEstabEtc (alg_env NewReno quiet_env) ((demo_segment 5000 0)\<lparr>tg_ack := 1051\<rparr>)
      (set_cwnd 1072 demo_sender) = Inr (True, c') \<and> tv_snd_una (tc_vars c') = 1051 \<and> sq_begin (tc_sendQueue c') = 1051"
proof -
  let ?c = "set_cwnd 1072 demo_sender" and ?s = "(demo_segment 5000 0)\<lparr>tg_ack := 1051\<rparr>"
  have ok: "sender_ok 1000 ?c" "recovery_ok 1000 ?c" "divides_safely NewReno ?c" "near 1000 (tg_ack ?s)"
    using demo_sender_ok by (simp_all add: set_cwnd_def divides_safely_def recovery_ok_def demo_sender_fields tcp_alg_new_def near_def off_def)
  have v: "tv_snd_una (tc_vars ?c) = 1001" "tv_snd_max (tc_vars ?c) = 1101" "\<not> tv_send_fin (tc_vars ?c)" "tg_ack ?s = 1051"
    using demo_sender_fields by (simp_all add: set_cwnd_def)
  have o: "off 1000 1051 = 51" "off 1000 1001 = 1" "off 1000 1101 = 101" by (simp_all add: off_def)
  from ack_processing_safe[OF ok, where ?env0.0 = quiet_env] v o show ?thesis by (auto simp: Let_def)
qed

section \<open>The retransmission timeout\<close>

definition backed_off :: "tcp_conn \<Rightarrow> simtime" where
  "backed_off c = min MAX_REXMIT_TIMEOUT (2 * ta_rexmit_timeout (tc_alg c))"

definition after_timeout :: "tcp_conn \<Rightarrow> tcp_conn" where
  "after_timeout c = setv (\<lambda>v. v\<lparr>tv_time_last_data_sent := tc_now c\<rparr>)
     (seta (\<lambda>a. a\<lparr>ta_rexmit_count := ta_rexmit_count a + 1, ta_rexmit_timeout := backed_off c,
        ta_rexmitTimer := Some (tc_now c + backed_off c), ta_rtseq_sendtime := 0, ta_numRtos := ta_numRtos a + 1\<rparr>) c)"

lemma base_rexmit_timer:
  assumes "plain c" "ta_rexmitTimer (tc_alg c) = None"
  shows "base_processRexmitTimer c =
    (if ta_rexmit_count (tc_alg c) < MAX_REXMIT_COUNT then Inr (TCP_E_IGNORE, after_timeout c)
     else Inr (TCP_E_ABORT, sendIndicationToApp TCP_I_TIMED_OUT (seta (\<lambda>a. a\<lparr>ta_rexmit_count := ta_rexmit_count a + 1\<rparr>) c)))"
proof -
  have "\<not> tv_sack_enabled (tc_vars c)" using assms(1) by (simp add: plain_def)
  then show ?thesis using assms(2)
    by (simp add: base_processRexmitTimer_def Let_def schedule_rexmit_def after_timeout_def backed_off_def) (simp add: seta_def)
qed

lemma after_timeout_ok:
  assumes "sender_ok w c"
  shows "sender_ok w (after_timeout c)" "segments (after_timeout c) = segments c" "first_unacked w (after_timeout c) = first_unacked w c"
    "rexmit_view (after_timeout c) = (Some (tc_now c + backed_off c), ta_rexmit_count (tc_alg c) + 1, backed_off c, tc_now c)"
    "tv_snd_una (tc_vars (after_timeout c)) = tv_snd_una (tc_vars c)" "tv_snd_max (tc_vars (after_timeout c)) = tv_snd_max (tc_vars c)"
    "tv_snd_wnd (tc_vars (after_timeout c)) = tv_snd_wnd (tc_vars c)" "tv_snd_mss (tc_vars (after_timeout c)) = tv_snd_mss (tc_vars c)"
    "ta_snd_cwnd (tc_alg (after_timeout c)) = ta_snd_cwnd (tc_alg c)"
proof -
  have "sender_ok w (setv (\<lambda>v. v\<lparr>tv_time_last_data_sent := t\<rparr>) d)" if "sender_ok w d" for t d
    by (rule sender_ok_view[OF _ _ _ _ _ _ _ that]) (simp_all add: plain_def)
  then show "sender_ok w (after_timeout c)" using assms by (simp add: after_timeout_def)
  show "segments (after_timeout c) = segments c" "first_unacked w (after_timeout c) = first_unacked w c"
    by (simp_all add: after_timeout_def first_unacked_def Let_def fun_eq_iff)
  show "rexmit_view (after_timeout c) = (Some (tc_now c + backed_off c), ta_rexmit_count (tc_alg c) + 1, backed_off c, tc_now c)"
    "tv_snd_una (tc_vars (after_timeout c)) = tv_snd_una (tc_vars c)" "tv_snd_max (tc_vars (after_timeout c)) = tv_snd_max (tc_vars c)"
    "tv_snd_wnd (tc_vars (after_timeout c)) = tv_snd_wnd (tc_vars c)" "tv_snd_mss (tc_vars (after_timeout c)) = tv_snd_mss (tc_vars c)"
    "ta_snd_cwnd (tc_alg (after_timeout c)) = ta_snd_cwnd (tc_alg c)"
    by (simp_all add: after_timeout_def rexmit_view_def)
qed

text \<open>Retransmission from a connection that agrees with \<open>c\<close> on the numbers of the sender.\<close>

lemma slow_start_ok:
  assumes ok: "sender_ok w c" and ne: "tv_snd_una (tc_vars c) \<noteq> tv_snd_max (tc_vars c)"
  shows "\<exists>c' s. slow_start (flavour_leaf fl env0) c = Inr c' \<and> sender_ok w c' \<and> tv_snd_una (tc_vars c') = tv_snd_una (tc_vars c) \<and>
    segments c' = segments c @ [s] \<and> first_unacked w c s \<and> rexmit_view c' = rexmit_view c \<and>
    ta_snd_cwnd (tc_alg c') = tv_snd_mss (tc_vars c) \<and>
    ta_ssthresh (tc_alg c') = max (min (ta_snd_cwnd (tc_alg c)) (tv_snd_wnd (tc_vars c)) div 2) (2 * tv_snd_mss (tc_vars c)) \<and>
    ta_lossRecovery (tc_alg c') = ta_lossRecovery (tc_alg c)"
proof -
  let ?d = "setv (\<lambda>v. v\<lparr>tv_afterRto := True\<rparr>)
    (set_cwnd (tv_snd_mss (tc_vars (recalculateSlowStartThreshold c))) (recalculateSlowStartThreshold c))"
  have d: "sender_ok w ?d" "tv_snd_una (tc_vars ?d) \<noteq> tv_snd_max (tc_vars ?d)"
    using ok ne by (simp_all add: set_cwnd_def recalculateSlowStartThreshold_def Let_def)
  from retransmit_ok[OF d, where fl = fl and ?env0.0 = env0 and rto = True] obtain c' s where
    1: "retransmitOneSegment (flavour_leaf fl env0) True ?d = Inr c'" "sender_ok w c'" "fixed c' = fixed ?d"
      "segments c' = segments ?d @ [s]" "first_unacked w ?d s" "rexmit_view c' = rexmit_view ?d" by blast
  have "segments ?d = segments c" "first_unacked w ?d = first_unacked w c" "rexmit_view ?d = rexmit_view c"
    by (simp_all add: set_cwnd_def recalculateSlowStartThreshold_def Let_def first_unacked_def fun_eq_iff rexmit_view_def)
  then show ?thesis
    using 1 fixed_fields(4,14,15,16)[OF 1(3)]
    by (intro exI[of _ c'] exI[of _ s])
       (simp add: slow_start_def Let_def set_cwnd_def recalculateSlowStartThreshold_def)
qed

lemma first_unacked_seta: "first_unacked w (seta g c) = first_unacked w c"
  by (simp add: first_unacked_def fun_eq_iff)

lemma timeout_fields:
  fixes c :: tcp_conn and r :: u32
  defines "d \<equiv> after_timeout (clear_timer RexmitTimer c)"
  defines "e \<equiv> seta (\<lambda>a. a\<lparr>ta_recover := r, ta_lossRecovery := False, ta_firstPartialACK := False\<rparr>) d"
  assumes ok: "sender_ok w c"
  shows "sender_ok w d" "sender_ok w e" "segments d = segments c" "segments e = segments c"
    "first_unacked w d = first_unacked w c" "first_unacked w e = first_unacked w c"
    "rexmit_view d = (Some (tc_now c + backed_off c), ta_rexmit_count (tc_alg c) + 1, backed_off c, tc_now c)"
    "rexmit_view e = (Some (tc_now c + backed_off c), ta_rexmit_count (tc_alg c) + 1, backed_off c, tc_now c)"
    "tc_vars e = tc_vars d" "tv_snd_una (tc_vars d) = tv_snd_una (tc_vars c)" "tv_snd_max (tc_vars d) = tv_snd_max (tc_vars c)"
    "tv_snd_wnd (tc_vars d) = tv_snd_wnd (tc_vars c)" "tv_snd_mss (tc_vars d) = tv_snd_mss (tc_vars c)"
    "ta_snd_cwnd (tc_alg d) = ta_snd_cwnd (tc_alg c)" "ta_snd_cwnd (tc_alg e) = ta_snd_cwnd (tc_alg c)"
proof -
  let ?b = "clear_timer RexmitTimer c"
  have b: "sender_ok w ?b" "segments ?b = segments c" "first_unacked w ?b = first_unacked w c" "backed_off ?b = backed_off c"
    "tc_now ?b = tc_now c" "ta_rexmit_count (tc_alg ?b) = ta_rexmit_count (tc_alg c)" "tc_vars ?b = tc_vars c"
    "ta_snd_cwnd (tc_alg ?b) = ta_snd_cwnd (tc_alg c)"
    using ok by (simp_all add: clear_timer_def first_unacked_def fun_eq_iff backed_off_def)
  note d = after_timeout_ok[OF b(1), unfolded b(2-)]
  show "sender_ok w d" "segments d = segments c" "first_unacked w d = first_unacked w c"
    "rexmit_view d = (Some (tc_now c + backed_off c), ta_rexmit_count (tc_alg c) + 1, backed_off c, tc_now c)"
    "tv_snd_una (tc_vars d) = tv_snd_una (tc_vars c)" "tv_snd_max (tc_vars d) = tv_snd_max (tc_vars c)"
    "tv_snd_wnd (tc_vars d) = tv_snd_wnd (tc_vars c)" "tv_snd_mss (tc_vars d) = tv_snd_mss (tc_vars c)"
    "ta_snd_cwnd (tc_alg d) = ta_snd_cwnd (tc_alg c)"
    using d unfolding d_def by simp_all
  then show "sender_ok w e" "segments e = segments c" "first_unacked w e = first_unacked w c"
    "rexmit_view e = (Some (tc_now c + backed_off c), ta_rexmit_count (tc_alg c) + 1, backed_off c, tc_now c)"
    "tc_vars e = tc_vars d" "ta_snd_cwnd (tc_alg e) = ta_snd_cwnd (tc_alg c)"
    by (simp_all add: e_def first_unacked_seta rexmit_view_def)
qed

text \<open>
  C7: the retransmission timeout of a plain connection with data (or a FIN) in flight, for every
  flavour but \<open>DumbTCP\<close>.  It never fails.  Below the limit of retries it sends exactly one segment, the
  first one that is not acknowledged, as long as the segment size and what was sent allow; the timeout
  is doubled up to the limit and the timer armed again; Tahoe, Reno and NewReno go to slow start: the
  congestion window is one segment and the threshold half of what may have been in flight, at least
  two segments.  At the limit the application is told and the connection is to be aborted.
\<close>

theorem rexmit_timeout_resends:
  assumes ok: "sender_ok w c" and ne: "tv_snd_una (tc_vars c) \<noteq> tv_snd_max (tc_vars c)" and fl: "fl \<noteq> Dumb"
  shows "\<exists>ev c' new. te_algorithmTimer (alg_env fl env0) RexmitTimer c = Inr (ev, c') \<and> segments c' = segments c @ new \<and>
    (if ta_rexmit_count (tc_alg c) < MAX_REXMIT_COUNT
     then ev = TCP_E_IGNORE \<and> (\<exists>s. new = [s] \<and> first_unacked w c s) \<and> sender_ok w c' \<and>
       tv_snd_una (tc_vars c') = tv_snd_una (tc_vars c) \<and>
       ta_rexmit_count (tc_alg c') = ta_rexmit_count (tc_alg c) + 1 \<and>
       ta_rexmit_timeout (tc_alg c') = min MAX_REXMIT_TIMEOUT (2 * ta_rexmit_timeout (tc_alg c)) \<and>
       ta_rexmitTimer (tc_alg c') = Some (tc_now c + ta_rexmit_timeout (tc_alg c')) \<and>
       (if fl = NoCongestionControl then ta_snd_cwnd (tc_alg c') = ta_snd_cwnd (tc_alg c)
        else ta_snd_cwnd (tc_alg c') = tv_snd_mss (tc_vars c) \<and>
          ta_ssthresh (tc_alg c') = max (min (ta_snd_cwnd (tc_alg c)) (tv_snd_wnd (tc_vars c)) div 2) (2 * tv_snd_mss (tc_vars c)))
     else ev = TCP_E_ABORT \<and> new = [] \<and> OutIndication TCP_I_TIMED_OUT \<in> set (tc_out c'))"
proof -
  let ?b = "clear_timer RexmitTimer c" and ?leaf = "flavour_leaf fl env0"
  have b: "plain ?b" "ta_rexmitTimer (tc_alg ?b) = None" "ta_rexmit_count (tc_alg ?b) = ta_rexmit_count (tc_alg c)"
    using sender_okD(2)[OF ok] by (simp_all add: clear_timer_def plain_def)
  note base = base_rexmit_timer[OF b(1,2), unfolded b(3)]
  have timer: "te_algorithmTimer (alg_env fl env0) RexmitTimer c = flavour_processRexmitTimer fl ?leaf ?b"
    using fl by (simp add: alg_env_def flavour_processTimer_def Let_def)
  define f where "f = (case fl of NoCongestionControl \<Rightarrow> retransmitOneSegment ?leaf True
     | NewReno \<Rightarrow> (\<lambda>c. slow_start ?leaf (seta (\<lambda>a. a\<lparr>ta_recover := tv_snd_max (tc_vars c) - 1, ta_lossRecovery := False, ta_firstPartialACK := False\<rparr>) c))
     | _ \<Rightarrow> slow_start ?leaf)"
  have run: "flavour_processRexmitTimer fl ?leaf ?b = after_rexmit f ?b"
    using fl by (cases fl) (simp_all add: flavour_processRexmitTimer_def f_def nocc_processRexmitTimer_def tahoe_processRexmitTimer_def
        reno_processRexmitTimer_def newreno_processRexmitTimer_def)
  show ?thesis
  proof (cases "ta_rexmit_count (tc_alg c) < MAX_REXMIT_COUNT")
    case False
    let ?c' = "sendIndicationToApp TCP_I_TIMED_OUT (seta (\<lambda>a. a\<lparr>ta_rexmit_count := ta_rexmit_count a + 1\<rparr>) ?b)"
    have "after_rexmit f ?b = Inr (TCP_E_ABORT, ?c')" using False base by (simp add: after_rexmit_def)
    moreover have "OutIndication TCP_I_TIMED_OUT \<in> set (tc_out ?c')" by (simp add: sendIndicationToApp_def emit_def)
    moreover have "segments ?c' = segments c" by (simp add: clear_timer_def)
    ultimately show ?thesis using False unfolding timer run
      by (intro exI[of _ TCP_E_ABORT] exI[of _ ?c'] exI[of _ "[]"]) simp
  next
    case True
    let ?d = "after_timeout ?b"
    note t = timeout_fields[OF ok]
    have fr: "\<exists>c' s. f ?d = Inr c' \<and> sender_ok w c' \<and> tv_snd_una (tc_vars c') = tv_snd_una (tc_vars c) \<and>
        segments c' = segments c @ [s] \<and> first_unacked w c s \<and>
        rexmit_view c' = (Some (tc_now c + backed_off c), ta_rexmit_count (tc_alg c) + 1, backed_off c, tc_now c) \<and>
        (if fl = NoCongestionControl then ta_snd_cwnd (tc_alg c') = ta_snd_cwnd (tc_alg c)
         else ta_snd_cwnd (tc_alg c') = tv_snd_mss (tc_vars c) \<and>
          ta_ssthresh (tc_alg c') = max (min (ta_snd_cwnd (tc_alg c)) (tv_snd_wnd (tc_vars c)) div 2) (2 * tv_snd_mss (tc_vars c)))"
    proof -
      have "tv_snd_una (tc_vars ?d) \<noteq> tv_snd_max (tc_vars ?d)" using ne t(10,11) by simp
      from slow_start_ok[OF t(1) this, where fl = fl and ?env0.0 = env0] have ss: ?thesis if "f = slow_start ?leaf" "fl \<noteq> NoCongestionControl"
        unfolding t that(1) if_not_P[OF that(2)] by blast
      show ?thesis
      proof (cases fl)
      case NoCongestionControl
      have "tv_snd_una (tc_vars ?d) \<noteq> tv_snd_max (tc_vars ?d)" using ne t(10,11) by simp
      from retransmit_ok[OF t(1) this, where fl = fl and ?env0.0 = env0 and rto = True] obtain c' s where
        1: "retransmitOneSegment ?leaf True ?d = Inr c'" "sender_ok w c'" "fixed c' = fixed ?d" "segments c' = segments ?d @ [s]"
          "first_unacked w ?d s" "rexmit_view c' = rexmit_view ?d" by blast
      then show ?thesis using NoCongestionControl fixed_fields(4,14)[OF 1(3)] t by (intro exI[of _ c'] exI[of _ s]) (simp add: f_def)
    next
      case NewReno
      let ?e = "seta (\<lambda>a. a\<lparr>ta_recover := tv_snd_max (tc_vars ?d) - 1, ta_lossRecovery := False, ta_firstPartialACK := False\<rparr>) ?d"
      note te = timeout_fields(2,4,6,8,9,15)[OF ok, of "tv_snd_max (tc_vars ?d) - 1"]
      have "tv_snd_una (tc_vars ?e) \<noteq> tv_snd_max (tc_vars ?e)" using ne te(5) t(10,11) by simp
      from slow_start_ok[OF te(1) this, where fl = fl and ?env0.0 = env0] obtain c' s where
        1: "slow_start ?leaf ?e = Inr c'" "sender_ok w c'" "tv_snd_una (tc_vars c') = tv_snd_una (tc_vars ?e)"
          "segments c' = segments ?e @ [s]" "first_unacked w ?e s" "rexmit_view c' = rexmit_view ?e"
          "ta_snd_cwnd (tc_alg c') = tv_snd_mss (tc_vars ?e)"
          "ta_ssthresh (tc_alg c') = max (min (ta_snd_cwnd (tc_alg ?e)) (tv_snd_wnd (tc_vars ?e)) div 2) (2 * tv_snd_mss (tc_vars ?e))"
        by blast
      have "f ?d = Inr c'" using 1(1) NewReno by (simp add: f_def)
      with 1(2-) show ?thesis unfolding te(2-6) unfolding t(10-14) using NewReno by (intro exI[of _ c'] exI[of _ s]) simp
    next
      case Dumb
      with fl show ?thesis by simp
      next
        case Tahoe
        show ?thesis by (rule ss) (simp_all add: f_def Tahoe)
      next
        case Reno
        show ?thesis by (rule ss) (simp_all add: f_def Reno)
      qed
    qed
    then obtain c' s where c': "f ?d = Inr c'" and r: "sender_ok w c'" "tv_snd_una (tc_vars c') = tv_snd_una (tc_vars c)"
      "segments c' = segments c @ [s]" "first_unacked w c s"
      "rexmit_view c' = (Some (tc_now c + backed_off c), ta_rexmit_count (tc_alg c) + 1, backed_off c, tc_now c)"
      "if fl = NoCongestionControl then ta_snd_cwnd (tc_alg c') = ta_snd_cwnd (tc_alg c)
         else ta_snd_cwnd (tc_alg c') = tv_snd_mss (tc_vars c) \<and>
          ta_ssthresh (tc_alg c') = max (min (ta_snd_cwnd (tc_alg c)) (tv_snd_wnd (tc_vars c)) div 2) (2 * tv_snd_mss (tc_vars c))"
      by blast
    have "after_rexmit f ?b = Inr (TCP_E_IGNORE, c')" using True base c' by (simp add: after_rexmit_def)
    moreover have "ta_rexmit_count (tc_alg c') = ta_rexmit_count (tc_alg c) + 1"
       "ta_rexmit_timeout (tc_alg c') = min MAX_REXMIT_TIMEOUT (2 * ta_rexmit_timeout (tc_alg c))"
       "ta_rexmitTimer (tc_alg c') = Some (tc_now c + ta_rexmit_timeout (tc_alg c'))"
      using r(5) by (auto simp: rexmit_view_def backed_off_def)
    ultimately show ?thesis unfolding timer run if_P[OF True] using r
      by (intro exI[of _ TCP_E_IGNORE] exI[of _ c'] exI[of _ "[s]"]) simp
  qed
qed

lemma rexmit_timeout_resends_witness:
  "\<exists>c' s. te_algorithmTimer (alg_env Tahoe quiet_env) RexmitTimer demo_sender = Inr (TCP_E_IGNORE, c') \<and> segments c' = [s] \<and>
     tg_seq s = 1001 \<and> unat (tg_len s) = 100 \<and> ta_snd_cwnd (tc_alg c') = 536 \<and> ta_ssthresh (tc_alg c') = 1072 \<and>
     ta_rexmitTimer (tc_alg c') = Some (6 * simtime_s)"
proof -
  have ne: "tv_snd_una (tc_vars demo_sender) \<noteq> tv_snd_max (tc_vars demo_sender)" by (simp add: demo_sender_fields)
  have o: "off 1000 2101 = 1101" "off 1000 1001 = 1" "off 1000 1101 = 101" by (simp_all add: off_def)
  have a: "ta_rexmit_count tcp_alg_new < MAX_REXMIT_COUNT" "min MAX_REXMIT_TIMEOUT (2 * ta_rexmit_timeout tcp_alg_new) = 6 * simtime_s"
    "tc_now demo_sender = 0" "ta_snd_cwnd tcp_alg_new = 0"
    by (simp_all add: demo_sender_fields tcp_alg_new_def MAX_REXMIT_COUNT_def MAX_REXMIT_TIMEOUT_def simtime_s_def)
       (simp_all add: demo_sender_def demo_conn_def)
  from rexmit_timeout_resends[OF demo_sender_ok ne, where fl = Tahoe and ?env0.0 = quiet_env] obtain c' s where
    1: "te_algorithmTimer (alg_env Tahoe quiet_env) RexmitTimer demo_sender = Inr (TCP_E_IGNORE, c')" "segments c' = [s]" "first_unacked 1000 demo_sender s"
      "ta_rexmitTimer (tc_alg c') = Some (0 + 6 * simtime_s)" "ta_snd_cwnd (tc_alg c') = 536"
      "ta_ssthresh (tc_alg c') = max (min 0 1000 div 2) (2 * 536)"
    unfolding demo_sender_fields unfolding if_P[OF a(1)] a(2-) by auto
  then show ?thesis by (intro exI[of _ c'] exI[of _ s]) (simp add: first_unacked_def Let_def demo_sender_fields o)
qed

end
