(* ===== verification/TcpEstablished.thy ===== *)
theory TcpEstablished
  imports TcpFlavourAck
begin

text \<open>
  A whole segment in \<open>ESTABLISHED\<close>, on a plain connection and with the real callbacks of a flavour: the
  two halves of the connection together.
\<close>

section \<open>The callbacks while text is received\<close>

lemma sender_ok_half:
  assumes "snd_half c' = snd_half c"
  shows "sender_ok w c' = sender_ok w c" "recovery_ok w c' = recovery_ok w c" "tc_alg c' = tc_alg c" "threshold_ok c' = threshold_ok c"
proof -
  have v: "tv_snd_una (tc_vars c') = tv_snd_una (tc_vars c)" "tv_snd_nxt (tc_vars c') = tv_snd_nxt (tc_vars c)"
    "tv_snd_max (tc_vars c') = tv_snd_max (tc_vars c)" "tv_send_fin (tc_vars c') = tv_send_fin (tc_vars c)"
    "tv_snd_fin_seq (tc_vars c') = tv_snd_fin_seq (tc_vars c)" "plain c' = plain c" "tc_sendQueue c' = tc_sendQueue c"
    using assms by (simp_all add: snd_half_def plain_def tcp_vars_new_def)
  show a: "tc_alg c' = tc_alg c" using assms by (simp add: snd_half_def)
  show "sender_ok w c' = sender_ok w c"
  proof
    show "sender_ok w c" if "sender_ok w c'" by (rule sender_ok_view[OF _ _ _ _ _ _ _ that]) (simp_all only: v)
    show "sender_ok w c'" if "sender_ok w c" by (rule sender_ok_view[OF _ _ _ _ _ _ _ that]) (simp_all only: v)
  qed
  show "recovery_ok w c' = recovery_ok w c" using v(3) a by (simp add: recovery_ok_def)
  have "tv_snd_mss (tc_vars c') = tv_snd_mss (tc_vars c)" using assms by (simp add: snd_half_def tcp_vars_new_def)
  then show "threshold_ok c' = threshold_ok c" by (rule threshold_ok_view[OF a])
qed

lemma ack_now_moves: "sender_ok w c \<Longrightarrow> moves w c (setv (\<lambda>v. v\<lparr>tv_ack_now := b\<rparr>) c)"
  by (rule moves_core) simp_all

lemma received_out_of_order_fine:
  assumes "sender_ok w c"
  shows "fine w c (te_call (alg_env fl env0) ReceivedOutOfOrderSegment c)"
proof -
  note m = ack_now_moves[OF assms, of True]
  have "fine w c (base_receivedOutOfOrderSegment (flavour_leaf fl env0) c)" unfolding base_receivedOutOfOrderSegment_def
    by (rule good_step[OF m], rule good_weaken[OF sendAck_fine[OF movesD(1)[OF m]]]) simp
  moreover have "fine w c (sendAck (flavour_leaf fl env0) c)" by (rule good_weaken[OF sendAck_fine[OF assms]]) simp
  ultimately show ?thesis by (cases "fl = Dumb") (simp_all add: alg_env_def flavour_call_def Let_def)
qed

lemma receive_seq_changed_core:
  assumes "plain c"
  shows "\<exists>c'. te_call (alg_env fl env0) ReceiveSeqChanged c = Inr c' \<and> core c' = core c"
proof -
  have ack: "\<exists>c'. sendAck (flavour_leaf fl env0) d = Inr c' \<and> core c' = core c" if "core d = core c" for d
    using plain_sendAck[of d, where fl = fl and ?env0.0 = env0] plain_core[OF that] assms that by auto
  define d where "d = (if ta_lossRecovery (tc_alg c) then setv (\<lambda>v. v\<lparr>tv_ack_now := True\<rparr>) c else c)"
  have d: "core d = core c" by (simp add: d_def)
  have "\<exists>c'. base_receiveSeqChanged (flavour_leaf fl env0) c = Inr c' \<and> core c' = core c"
  proof (cases "ack_already_sent c")
    case False
    have delay: "\<exists>c'. schedule_delayedAck t d = Inr c' \<and> core c' = core c" if "ta_delayedAckTimer (tc_alg d) = None" for t
    proof -
      have "core (seta (\<lambda>a. a\<lparr>ta_delayedAckTimer := x\<rparr>) d) = core d" for x by (simp add: core_def seta_def)
      with that d show ?thesis by (simp add: schedule_delayedAck_def)
    qed
    show ?thesis unfolding base_receiveSeqChanged_def Let_def if_not_P[OF False] d_def[symmetric]
      using delay ack[OF d] d by (simp split: if_split)
  qed (simp add: base_receiveSeqChanged_def)
  then show ?thesis using ack[of c] by (cases "fl = Dumb") (simp_all add: alg_env_def flavour_call_def Let_def)
qed

lemma receive_seq_changed_fine: "sender_ok w c \<Longrightarrow> fine w c (te_call (alg_env fl env0) ReceiveSeqChanged c)"
  using receive_seq_changed_core[OF sender_okD(2)] moves_core by (fastforce simp: good_def)

definition in_order :: "u32 \<Rightarrow> tcp_conn \<Rightarrow> bool" where
  "in_order w c \<longleftrightarrow> sender_ok w c \<and> recovery_ok w c"

definition in_order_open :: "tcp_flavour \<Rightarrow> u32 \<Rightarrow> tcp_conn \<Rightarrow> bool" where
  "in_order_open fl w c \<longleftrightarrow> in_order w c \<and> divides_safely fl c"

text \<open>In order, with the data and the acknowledgments of \<open>d\<close>.\<close>

definition sends_as :: "u32 \<Rightarrow> tcp_conn \<Rightarrow> tcp_conn \<Rightarrow> bool" where
  "sends_as w d c \<longleftrightarrow> in_order w c \<and> tc_sendQueue c = tc_sendQueue d \<and> tv_snd_una (tc_vars c) = tv_snd_una (tc_vars d) \<and>
     tv_send_fin (tc_vars c) = tv_send_fin (tc_vars d) \<and> (threshold_ok d \<longrightarrow> threshold_ok c)"

lemma sends_as_moves: "sends_as w d c \<Longrightarrow> moves w c c' \<Longrightarrow> sends_as w d c'"
  using movesD[of w c c'] by (simp add: sends_as_def in_order_def)

lemma sends_as_half: "snd_half c' = snd_half c \<Longrightarrow> sends_as w d c' = sends_as w d c"
proof -
  assume h: "snd_half c' = snd_half c"
  then have "tc_sendQueue c' = tc_sendQueue c" "tv_snd_una (tc_vars c') = tv_snd_una (tc_vars c)"
    "tv_send_fin (tc_vars c') = tv_send_fin (tc_vars c)" by (simp_all add: snd_half_def tcp_vars_new_def)
  then show ?thesis using sender_ok_half(1,2,4)[OF h] by (simp add: sends_as_def in_order_def)
qed

interpretation tx: text_calls "alg_env fl env0" "\<lambda>c. sends_as w d c \<and> divides_safely fl c" "sends_as w d" for fl env0 w d
proof
  fix c c' n
  assume k: "sends_as w d c \<and> divides_safely fl c"
  then have "sender_ok w c" "recovery_ok w c" "divides_safely fl c" by (simp_all add: sends_as_def in_order_def)
  from flavour_receivedDataAck_fine[OF this, where ?env0.0 = env0 and n = n] obtain c' where
    "te_call (alg_env fl env0) (ReceivedDataAck n) c = Inr c'" "moves w c c'" unfolding good_def by blast
  then show "\<exists>c'. te_call (alg_env fl env0) (ReceivedDataAck n) c = Inr c' \<and> rcv_kept c' = rcv_kept c \<and> sends_as w d c'"
    using movesD(11)[of w c c'] sends_as_moves[OF conjunct1[OF k]] by blast
next
  fix c
  assume k: "sends_as w d c"
  then have "sender_ok w c" by (simp add: sends_as_def in_order_def)
  from received_out_of_order_fine[OF this, where fl = fl and ?env0.0 = env0] obtain c' where
    "te_call (alg_env fl env0) ReceivedOutOfOrderSegment c = Inr c'" "moves w c c'" unfolding good_def by blast
  then show "\<exists>c'. te_call (alg_env fl env0) ReceivedOutOfOrderSegment c = Inr c' \<and> rcv_kept c' = rcv_kept c \<and> sends_as w d c'"
    using movesD(11)[of w c c'] sends_as_moves[OF k] by blast
next
  fix c c'
  show "sends_as w d c \<and> divides_safely fl c \<Longrightarrow> sends_as w d c" by simp
  assume h: "snd_half c' = snd_half c"
  show "(sends_as w d c' \<and> divides_safely fl c') = (sends_as w d c \<and> divides_safely fl c)" "sends_as w d c' = sends_as w d c"
    using sends_as_half[OF h] sender_ok_half(3)[OF h] by (simp_all add: divides_safely_def)
qed

lemma sends_as_self: "in_order_open fl w c \<Longrightarrow> sends_as w c c \<and> divides_safely fl c"
  by (simp add: sends_as_def in_order_open_def)

section \<open>The segment text\<close>

text \<open>
  C9: an acceptable segment with text is never dropped and never makes the code throw, for every
  flavour with its real callbacks.  On a plain connection (the default: no time stamps, SACK or window
  scaling) whose sender is in order and whose congestion control cannot divide by 0 (\<open>snd_cwnd\<close> or
  \<open>ssthresh\<close> is not 0, which only Tahoe, Reno and NewReno need), when the state variables and the receive queue agree, everything in order has been delivered and the
  window fits the buffer, then for every segment with data that passes \<open>isSegmentAcceptable\<close> in a
  state that takes text (and no FIN waits): the truncation to the window succeeds, there is room in
  the buffer, the next expected byte becomes the first one missing from what was held back and the
  part of the segment below the end of the window, the application gets as many bytes as the
  expected byte moves, the queue keeps the rest, and both halves of the connection agree again; a
  threshold above 0 stays above 0.
\<close>

theorem text_of_acceptable_segment:
  assumes "in_order_open fl v c" "conn_rcv_ok w c" "text_state (tc_state c)" "\<not> tv_fin_rcvd (tc_vars c)"
    and "segment_ok w s" "isSegmentAcceptable s (tc_vars c)"
  shows "\<exists>s' c'. tcp_segment_text (alg_env fl env0) old_snd_una (tv_rcv_nxt (tc_vars c)) s ev c = Inr (False, s', ev, c') \<and>
    rcv_inv w (tc_receiveQueue c') \<and> rq_rcv_nxt (tc_receiveQueue c') = tv_rcv_nxt (tc_vars c') \<and>
    off w (tv_rcv_nxt (tc_vars c')) = first_missing (rq_bytes w (tc_receiveQueue c) \<union>
      (segment_span w s \<inter> {..<off w (wnd_end c)})) (off w (tv_rcv_nxt (tc_vars c))) \<and>
    rq_bytes w (tc_receiveQueue c') = rq_bytes w (tc_receiveQueue c) \<union>
      (segment_span w s \<inter> {..<off w (wnd_end c)}) - {..<off w (tv_rcv_nxt (tc_vars c'))} \<and>
    delivered c' + off w (tv_rcv_nxt (tc_vars c)) = delivered c + off w (tv_rcv_nxt (tc_vars c')) \<and> in_order v c' \<and> (threshold_ok c \<longrightarrow> threshold_ok c')"
  using tx.acceptable_text[OF sends_as_self[OF assms(1)] assms(2-6), of env0 old_snd_una ev] unfolding sends_as_def by blast

lemma demo_sender_open: "in_order_open fl 1000 (set_cwnd 1072 demo_sender)"
  using demo_sender_ok by (simp add: in_order_open_def in_order_def divides_safely_def recovery_ok_def set_cwnd_def demo_sender_fields tcp_alg_new_def)

lemma demo_sender_receiver:
  "tv_rcv_nxt (tc_vars (set_cwnd n demo_sender)) = 5000" "tv_rcv_wnd (tc_vars (set_cwnd n demo_sender)) = 200"
  "rq_bytes w (tc_receiveQueue (set_cwnd n demo_sender)) = {}" "delivered (set_cwnd n demo_sender) = 0"
  "tc_state (set_cwnd n demo_sender) = TCP_S_ESTABLISHED" "\<not> tv_fin_rcvd (tc_vars (set_cwnd n demo_sender))"
  "tv_maxRcvBuffer (tc_vars (set_cwnd n demo_sender)) = 7504"
  by (simp_all add: demo_sender_def demo_conn_def set_cwnd_def seta_def rq_bytes_def delivered_def tcp_vars_new_def)

lemma demo_sender_rcv_ok: "conn_rcv_ok 4000 (set_cwnd n demo_sender)" "conn_rcv_ok 5000 (set_cwnd n demo_sender)"
  by (simp_all add: conn_rcv_ok_def demo_sender_def demo_conn_def set_cwnd_def seta_def rcv_inv_def rq_ok_def rq_bytes_def tcp_vars_new_def near_def off_def)

lemma text_of_acceptable_segment_witness:
  "\<exists>s' c'. tcp_segment_text (alg_env Reno quiet_env) 1001 5000 (demo_segment 4900 150) TCP_E_IGNORE (set_cwnd 1072 demo_sender) =
     Inr (False, s', TCP_E_IGNORE, c') \<and> off 4000 (tv_rcv_nxt (tc_vars c')) = 1050 \<and> delivered c' = 50"
proof -
  let ?c = "set_cwnd 1072 demo_sender"
  note v = demo_sender_receiver[where n = 1072]
  have seg: "segment_ok 4000 (demo_segment 4900 150)" "segment_span 4000 (demo_segment 4900 150) = {900..<1050}"
    by (simp_all add: segment_ok_def segment_span_def demo_segment_def segment_new_def off_def)
  have acc: "isSegmentAcceptable (demo_segment 4900 150) (tc_vars ?c)"
    by (simp add: isSegmentAcceptable_def demo_sender_receiver demo_segment_def segment_new_def seqLess_def seqLE_def)
  have fm: "first_missing ({} \<union> ({900..<1050} \<inter> {..<off 4000 (5000 + 200)})) (off 4000 5000) = 1050"
    by (rule first_missing_eqI) (auto simp: off_def)
  have "text_state (tc_state ?c)" by (simp add: v text_state_def)
  from text_of_acceptable_segment[OF demo_sender_open demo_sender_rcv_ok(1) this v(6) seg(1) acc,
      where fl = Reno and ?env0.0 = quiet_env and old_snd_una = 1001 and ev = TCP_E_IGNORE]
  show ?thesis unfolding v(1-4) seg(2) fm by (auto simp: off_def)
qed

section \<open>The FIN bit\<close>

text \<open>
  C34: A FIN on a segment that is cut at the end of the window is taken for the end of the stream.
  On a plain connection (the default: no time stamps, SACK or window scaling) whose two halves are in
  order and whose congestion control cannot divide by 0, for every flavour with its real callbacks, in
  \<open>ESTABLISHED\<close> with nothing held back and no FIN received, let a segment with the FIN bit start at the next expected
  byte and be longer than the window.  The text step truncates the segment to the window but leaves
  the FIN bit, so the FIN step then finds the FIN in sequence: the event is \<open>TCP_E_RCV_FIN\<close>, the next
  expected byte lies after a FIN at the end of the window, and the application has received as many
  bytes as the window was wide; the rest of the data can no longer be received.
\<close>

theorem fin_beyond_window_loses_data:
  assumes "in_order_open fl v c" "conn_rcv_ok w c" "tc_state c = TCP_S_ESTABLISHED" "\<not> tv_fin_rcvd (tc_vars c)"
    and "rq_bytes w (tc_receiveQueue c) = {}" "segment_ok w s" "tg_fin s" "tg_seq s = tv_rcv_nxt (tc_vars c)"
    and "tv_rcv_wnd (tc_vars c) \<noteq> 0" "unat (tv_rcv_wnd (tc_vars c)) < unat (tg_len s)"
  shows "\<exists>s' c1 c2. tcp_segment_text (alg_env fl env0) old_snd_una (tv_rcv_nxt (tc_vars c)) s ev c = Inr (False, s', ev, c1) \<and>
    tcp_check_fin s' ev c1 = Inr (TCP_E_RCV_FIN, c2) \<and> tv_rcv_nxt (tc_vars c2) = wnd_end c + 1 \<and>
    delivered c2 = delivered c + unat (tv_rcv_wnd (tc_vars c))"
  by (rule tx.fin_beyond_window[OF sends_as_self[OF assms(1)] assms(2-10)])

lemma fin_beyond_window_loses_data_witness:
  "\<exists>s' c1 c2. tcp_segment_text (alg_env Reno quiet_env) 1001 5000 ((demo_segment 5000 300)\<lparr>tg_fin := True\<rparr>) TCP_E_IGNORE
       (set_cwnd 1072 demo_sender) = Inr (False, s', TCP_E_IGNORE, c1) \<and>
     tcp_check_fin s' TCP_E_IGNORE c1 = Inr (TCP_E_RCV_FIN, c2) \<and> tv_rcv_nxt (tc_vars c2) = 5201 \<and> delivered c2 = 200"
proof -
  note v = demo_sender_receiver[where n = 1072]
  let ?s = "(demo_segment 5000 300)\<lparr>tg_fin := True\<rparr>"
  have s: "segment_ok 5000 ?s" "tg_fin ?s" "tg_seq ?s = tv_rcv_nxt (tc_vars (set_cwnd 1072 demo_sender))"
    "tv_rcv_wnd (tc_vars (set_cwnd 1072 demo_sender)) \<noteq> 0"
    "unat (tv_rcv_wnd (tc_vars (set_cwnd 1072 demo_sender))) < unat (tg_len ?s)"
    unfolding v by (simp_all add: segment_ok_def demo_segment_def segment_new_def)
  from fin_beyond_window_loses_data[OF demo_sender_open demo_sender_rcv_ok(2) v(5,6,3) s,
      where fl = Reno and ?env0.0 = quiet_env and old_snd_una = 1001 and ev = TCP_E_IGNORE]
  show ?thesis unfolding v(1,2,4) by simp
qed




section \<open>A whole segment\<close>

text \<open>A segment of the data transfer: no SYN, RST or FIN, no options; its text and number lie in half of the number space.\<close>

definition transfer_segment :: "u32 \<Rightarrow> u32 \<Rightarrow> tcp_segment \<Rightarrow> bool" where
  "transfer_segment v w s \<longleftrightarrow> unat (tg_headerLength s) \<le> TCP_HEADER_OCTETS \<and> tg_ackBit s \<and> \<not> tg_syn s \<and> \<not> tg_rst s \<and> \<not> tg_fin s \<and>
     near v (tg_ack s) \<and> (tg_len s = 0 \<or> segment_ok w s)"

text \<open>The receiving half between two segments.\<close>

definition receiver_open :: "u32 \<Rightarrow> tcp_conn \<Rightarrow> bool" where
  "receiver_open w c \<longleftrightarrow> conn_rcv_ok w c \<and> \<not> tv_fin_rcvd (tc_vars c)"

text \<open>What follows the text: an acknowledgment, at once or later.\<close>

lemma finish_fine:
  assumes "in_order v c" "tc_state c = TCP_S_ESTABLISHED" "\<not> tv_send_fin (tc_vars c)"
  shows "\<exists>c'. tcp_finish (alg_env fl env0) old_rcv_nxt old_snd_nxt s TCP_E_IGNORE c = Inr (TCP_E_IGNORE, c') \<and> moves v c c'"
proof -
  have ok: "sender_ok v c" using assms(1) by (simp add: in_order_def)
  then have ns: "\<not> tv_sack_enabled (tc_vars c)" using sender_okD(2) by (auto simp: plain_def)
  have "fine v c (if old_rcv_nxt \<noteq> tv_rcv_nxt (tc_vars c) then te_call (alg_env fl env0) ReceiveSeqChanged c else Inr c)"
    using receive_seq_changed_fine[OF ok] good_pure[OF moves_refl[OF ok]] by simp
  then obtain c' where c': "(if old_rcv_nxt \<noteq> tv_rcv_nxt (tc_vars c) then te_call (alg_env fl env0) ReceiveSeqChanged c else Inr c) = Inr c'"
    "moves v c c'" unfolding good_def by blast
  have e: "tcp_finish (alg_env fl env0) old_rcv_nxt old_snd_nxt s TCP_E_IGNORE c =
      bindE (if old_rcv_nxt \<noteq> tv_rcv_nxt (tc_vars c) then te_call (alg_env fl env0) ReceiveSeqChanged c else Inr c) (\<lambda>c1.
       let v = tc_vars c1; finSent = (tv_send_fin v \<and> tv_snd_nxt v = tv_snd_fin_seq v + 1);
           ev1 = (if (tc_state c1 = TCP_S_ESTABLISHED \<or> tc_state c1 = TCP_S_SYN_RCVD) \<and> finSent then TCP_E_CLOSE else TCP_E_IGNORE);
           ev2 = (if tc_state c1 = TCP_S_CLOSE_WAIT \<and> finSent \<and> old_snd_nxt \<noteq> tv_snd_nxt v then TCP_E_CLOSE else ev1)
       in Inr (ev2, c1))"
    using ns unfolding tcp_finish_def by simp
  have "tcp_finish (alg_env fl env0) old_rcv_nxt old_snd_nxt s TCP_E_IGNORE c = Inr (TCP_E_IGNORE, c')"
    unfolding e c'(1) using movesD(8,12)[OF c'(2)] assms(2,3) by (simp add: Let_def)
  with c'(2) show ?thesis by blast
qed

text \<open>The text step, for a segment with or without text, and what follows.\<close>

lemma text_and_finish:
  assumes snd: "in_order v c" "tg_len s \<noteq> 0 \<Longrightarrow> in_order_open fl v c"
    and rcv: "tg_len s \<noteq> 0 \<Longrightarrow> conn_rcv_ok w c \<and> isSegmentAcceptable s (tc_vars c)" "tg_len s = 0 \<or> segment_ok w s"
    and st: "tc_state c = TCP_S_ESTABLISHED" "\<not> tv_send_fin (tc_vars c)" "\<not> tv_fin_rcvd (tc_vars c)" "\<not> tg_fin s"
  shows "\<exists>c'. bindE (tcp_segment_text (alg_env fl env0) old_snd_una (tv_rcv_nxt (tc_vars c)) s TCP_E_IGNORE c) (\<lambda>(dropped, s', ev3, c4).
         if dropped then Inr (TCP_E_IGNORE, c4)
         else bindE (tcp_check_fin s' ev3 c4) (\<lambda>(ev4, c5).
           tcp_finish (alg_env fl env0) (tv_rcv_nxt (tc_vars c)) old_snd_nxt s' ev4 c5)) = Inr (TCP_E_IGNORE, c') \<and>
    in_order v c' \<and> (threshold_ok c \<longrightarrow> threshold_ok c') \<and> tc_state c' = TCP_S_ESTABLISHED \<and>
    tv_send_fin (tc_vars c') = tv_send_fin (tc_vars c) \<and>
    tv_fin_rcvd (tc_vars c') = tv_fin_rcvd (tc_vars c) \<and>
    tv_snd_una (tc_vars c') = tv_snd_una (tc_vars c) \<and> tc_sendQueue c' = tc_sendQueue c \<and>
    (if tg_len s = 0 then rcv_kept c' = rcv_kept c
     else rcv_inv w (tc_receiveQueue c') \<and> rq_rcv_nxt (tc_receiveQueue c') = tv_rcv_nxt (tc_vars c') \<and>
       off w (tv_rcv_nxt (tc_vars c')) = first_missing (rq_bytes w (tc_receiveQueue c) \<union>
         (segment_span w s \<inter> {..<off w (wnd_end c)})) (off w (tv_rcv_nxt (tc_vars c))) \<and>
       rq_bytes w (tc_receiveQueue c') = rq_bytes w (tc_receiveQueue c) \<union>
         (segment_span w s \<inter> {..<off w (wnd_end c)}) - {..<off w (tv_rcv_nxt (tc_vars c'))} \<and>
       delivered c' + off w (tv_rcv_nxt (tc_vars c)) = delivered c + off w (tv_rcv_nxt (tc_vars c')))"
proof -
  let ?env = "alg_env fl env0" and ?n = "tv_rcv_nxt (tc_vars c)"
  have sc: "sends_as v c c" using snd(1) by (simp add: sends_as_def)
  show ?thesis
  proof (cases "tg_len s = 0")
    case True
    from finish_fine[OF snd(1) st(1,2), where fl = fl and ?env0.0 = env0 and s = s and old_rcv_nxt = ?n and old_snd_nxt = old_snd_nxt] obtain c' where
      1: "tcp_finish ?env ?n old_snd_nxt s TCP_E_IGNORE c = Inr (TCP_E_IGNORE, c')" "moves v c c'" by blast
    have "tcp_segment_text ?env old_snd_una ?n s TCP_E_IGNORE c = Inr (False, s, TCP_E_IGNORE, c)"
      using True by (simp add: tcp_segment_text_def)
    then show ?thesis using True 1 st sends_as_moves[OF sc 1(2)] movesD(8,11)[OF 1(2)] rcv_keptD(5)[OF movesD(11)[OF 1(2)]]
      by (intro exI[of _ c']) (simp add: tcp_check_fin_def sends_as_def)
  next
    case False
    have ts: "text_state (tc_state c)" using st(1) by (simp add: text_state_def)
    have so: "segment_ok w s" using rcv(2) False by blast
    from rcv(1)[OF False] have r: "conn_rcv_ok w c" "isSegmentAcceptable s (tc_vars c)" by blast+
    from tx.acceptable_text[OF sends_as_self[OF snd(2)[OF False]] r(1) ts st(3) so r(2), of env0 old_snd_una TCP_E_IGNORE]
    obtain s' c1 where
      1: "tcp_segment_text ?env old_snd_una ?n s TCP_E_IGNORE c = Inr (False, s', TCP_E_IGNORE, c1)"
        "truncateSegment ?n (wnd_end c) s = Inr s'" "tc_state c1 = tc_state c"
        "rcv_inv w (tc_receiveQueue c1)" "rq_rcv_nxt (tc_receiveQueue c1) = tv_rcv_nxt (tc_vars c1)"
        "off w (tv_rcv_nxt (tc_vars c1)) = first_missing (rq_bytes w (tc_receiveQueue c) \<union>
           (segment_span w s \<inter> {..<off w (wnd_end c)})) (off w ?n)"
        "rq_bytes w (tc_receiveQueue c1) = rq_bytes w (tc_receiveQueue c) \<union>
           (segment_span w s \<inter> {..<off w (wnd_end c)}) - {..<off w (tv_rcv_nxt (tc_vars c1))}"
        "delivered c1 + off w ?n = delivered c + off w (tv_rcv_nxt (tc_vars c1))" "\<not> tv_fin_rcvd (tc_vars c1)" "sends_as v c c1"
      by blast
    have "rq_rcv_nxt (tc_receiveQueue c) = ?n" "near w (rq_rcv_nxt (tc_receiveQueue c))"
      using r(1) unfolding conn_rcv_ok_def rcv_inv_def rq_ok_def by blast+
    then have nn: "near w ?n" by simp
    note ov = acceptable_overlaps[OF r(1) so r(2)]
    have ke: "off w ?n < off w (wnd_end c)" using wnd_end_off(1)[OF r(1)] ov(1) by (simp add: unat_gt_0)
    have nf: "\<not> tg_fin s'"
      using truncateSegment_ok[OF so nn wnd_end_off(2)[OF r(1)] ov(2,3) ke] 1(2) st(4) by auto
    have f1: "in_order v c1" "tc_state c1 = TCP_S_ESTABLISHED" "\<not> tv_send_fin (tc_vars c1)"
      using 1(3,10) st(1,2) by (simp_all add: sends_as_def)
    from finish_fine[OF f1, where fl = fl and ?env0.0 = env0 and s = s' and old_rcv_nxt = ?n and old_snd_nxt = old_snd_nxt] obtain c' where
      2: "tcp_finish ?env ?n old_snd_nxt s' TCP_E_IGNORE c1 = Inr (TCP_E_IGNORE, c')" "moves v c1 c'" by blast
    note k = rcv_keptD[OF movesD(11)[OF 2(2)]] and sc' = sends_as_moves[OF 1(10) 2(2)]
    show ?thesis
      using False 1(1,4-9) 2(1) nf k sc' f1(2) st(3)
      by (intro exI[of _ c']) (simp add: tcp_check_fin_def sends_as_def)
  qed
qed

lemma sendAck_alg: "sendAck (alg_env fl env0) c = sendAck (flavour_leaf fl env0) c"
  by (simp add: sendAck_def alg_env_def flavour_call_def leaf_options Let_def)

lemma acceptable_view:
  assumes "rcv_view c' = rcv_view c" "segment_ok w s"
  shows "isSegmentAcceptable s (tc_vars c') = isSegmentAcceptable s (tc_vars c)"
proof -
  have pos: "0 < unat (tg_len s)" "unat (tg_len s) < 2147483648" using assms(2) by (simp_all add: segment_ok_def)
  have "unat (ucast (tg_len s) :: u32) = unat (tg_len s)" by (rule unat_ucast_u64_u32) (use pos in simp)
  then have "(ucast (tg_len s) :: u32) \<noteq> 0" using pos(1) by auto
  then show ?thesis using assms(1) by (simp add: isSegmentAcceptable_def Let_def rcv_view_def)
qed

text \<open>The steps of a segment of the data transfer, up to the text.\<close>

lemma transfer_run:
  assumes st: "tc_state c = TCP_S_ESTABLISHED" and s: "transfer_segment v w s" and acc: "isSegmentAcceptable s (tc_vars c)"
    and ack: "processAckInEstabEtc env s c = Inr (b, c2)" and st2: "tc_state c2 = TCP_S_ESTABLISHED"
  shows "processTCPSegment env s c = bindE (if \<not> b then Inr (TCP_E_IGNORE, c2)
     else bindE (tcp_segment_text env (tv_snd_una (tc_vars c)) (tv_rcv_nxt (tc_vars c2)) s TCP_E_IGNORE c2) (\<lambda>(dropped, s', ev3, c4).
         if dropped then Inr (TCP_E_IGNORE, c4)
         else bindE (tcp_check_fin s' ev3 c4) (\<lambda>(ev4, c5).
           tcp_finish env (tv_rcv_nxt (tc_vars c2)) (tv_snd_nxt (tc_vars c)) s' ev4 c5))) (\<lambda>(ev, c1). performStateTransition env ev c1)"
proof -
  have h: "\<not> TCP_HEADER_OCTETS < unat (tg_headerLength s)" "\<not> tg_rst s" "\<not> tg_syn s" "tg_ackBit s"
    using s by (simp_all add: transfer_segment_def)
  have seq: "tcp_check_sequence env s c = Inr (True, c)" using h(1) acc by (simp add: tcp_check_sequence_def)
  have sr: "tcp_ack_syn_rcvd env s c = Inr (Some TCP_E_IGNORE, c)" using st by (simp add: tcp_ack_syn_rcvd_def)
  have as: "tcp_ack_states env s TCP_E_IGNORE c2 = Inr (False, TCP_E_IGNORE, c2)" using st2 by (simp add: tcp_ack_states_def Let_def)
  have "ack_state (tc_state c)" using st by (simp add: ack_state_def)
  then show ?thesis
    unfolding processTCPSegment_def process_RCV_SEGMENT_def processSegment1stThru8th_def seq bindE_simps prod.case sr option.case Let_def
    using st h ack as by simp
qed

text \<open>
  C5: one segment of the data transfer, from its arrival to the acknowledgment that answers it.  In
  \<open>ESTABLISHED\<close>, on a plain connection (the default: no time stamps, SACK or window scaling) whose two
  halves are in order and that is not being closed from either side, let the congestion control be
  unable to divide by 0: \<open>snd_cwnd\<close> or \<open>ssthresh\<close> is not 0, which Tahoe, Reno and NewReno need and the
  other flavours do not.  Then \<open>processTCPSegment\<close> with the real callbacks of any flavour takes any
  segment with the ACK bit and without SYN, RST, FIN and options, whose acknowledgment number and text
  lie within half of the number space: it does not fail, the connection stays \<open>ESTABLISHED\<close> and its
  sender in order, and \<open>ssthresh\<close> stays above 0 if it was (unless twice the segment size wraps to 0), so
  that the next segment finds the premise on the division again.  The segment
  counts when its sequence number is acceptable and it does not acknowledge what was not sent.  Then
  the data it acknowledges leaves the send queue, and of its text the part inside the window is
  delivered to the application or held back, exactly up to the first missing byte.  Otherwise
  neither queue changes.
\<close>

theorem established_segment:
  assumes st: "tc_state c = TCP_S_ESTABLISHED" "\<not> tv_send_fin (tc_vars c)" and snd: "in_order_open fl v c"
    and rcv: "conn_rcv_ok w c" "\<not> tv_fin_rcvd (tc_vars c)" and s: "transfer_segment v w s"
  shows "\<exists>c'. processTCPSegment (alg_env fl env0) s c = Inr (True, c') \<and> tc_state c' = TCP_S_ESTABLISHED \<and> in_order v c' \<and>
    (threshold_ok c \<longrightarrow> threshold_ok c') \<and>
    (let taken = (isSegmentAcceptable s (tc_vars c) \<and> off v (tg_ack s) \<le> off v (tv_snd_max (tc_vars c))) in
     (if taken \<and> off v (tv_snd_una (tc_vars c)) < off v (tg_ack s)
      then tv_snd_una (tc_vars c') = tg_ack s \<and> tc_sendQueue c' = (tc_sendQueue c)\<lparr>sq_begin := tg_ack s\<rparr>
      else tv_snd_una (tc_vars c') = tv_snd_una (tc_vars c) \<and> tc_sendQueue c' = tc_sendQueue c) \<and>
     (if taken \<and> tg_len s \<noteq> 0
      then rcv_inv w (tc_receiveQueue c') \<and> rq_rcv_nxt (tc_receiveQueue c') = tv_rcv_nxt (tc_vars c') \<and>
        off w (tv_rcv_nxt (tc_vars c')) = first_missing (rq_bytes w (tc_receiveQueue c) \<union>
          (segment_span w s \<inter> {..<off w (wnd_end c)})) (off w (tv_rcv_nxt (tc_vars c))) \<and>
        rq_bytes w (tc_receiveQueue c') = rq_bytes w (tc_receiveQueue c) \<union>
          (segment_span w s \<inter> {..<off w (wnd_end c)}) - {..<off w (tv_rcv_nxt (tc_vars c'))} \<and>
        delivered c' + off w (tv_rcv_nxt (tc_vars c)) = delivered c + off w (tv_rcv_nxt (tc_vars c'))
      else tc_receiveQueue c' = tc_receiveQueue c \<and> tv_rcv_nxt (tc_vars c') = tv_rcv_nxt (tc_vars c) \<and> delivered c' = delivered c))"
proof -
  let ?env = "alg_env fl env0" and ?v = "tc_vars c"
  have ok: "sender_ok v c" "recovery_ok v c" "divides_safely fl c" using snd by (simp_all add: in_order_open_def in_order_def)
  have seg: "near v (tg_ack s)" "tg_len s = 0 \<or> segment_ok w s" "\<not> tg_fin s" "\<not> tg_rst s" using s by (simp_all add: transfer_segment_def)
  have tr: "performStateTransition ?env TCP_E_IGNORE d = Inr (True, d)" if "tc_state d = TCP_S_ESTABLISHED" for d
    using that by (simp add: performStateTransition_def)
  show ?thesis
  proof (cases "isSegmentAcceptable s ?v")
    case False
    from sendAck_fine[OF ok(1), where fl = fl and ?env0.0 = env0] obtain d where
      d: "sendAck ?env c = Inr d" "moves v c d" unfolding sendAck_alg good_def by blast
    let ?d = "setv (\<lambda>v. v\<lparr>tv_rcv_naseg := tv_rcv_naseg v + 1\<rparr>) d"
    have nr: "tcp_check_sequence ?env s c = Inr (False, c)"
      using False s by (simp add: tcp_check_sequence_def transfer_segment_def)
    have "\<not> tv_sack_enabled ?v" using sender_okD(2)[OF ok(1)] by (simp add: plain_def)
    then have "tcp_not_acceptable ?env s c = Inr ?d" using seg(4) d(1) by (simp add: tcp_not_acceptable_def Let_def)
    then have run: "processTCPSegment ?env s c = Inr (True, ?d)"
      using st(1) movesD(8)[OF d(2)] tr[of ?d]
      by (simp add: processTCPSegment_def process_RCV_SEGMENT_def processSegment1stThru8th_def nr)
    have half: "snd_half ?d = snd_half d" by (simp add: snd_half_def)
    have "in_order v ?d"
      using sender_ok_half(1,2)[OF half] movesD(1)[OF d(2)] movesD(10)[OF d(2) ok(2)] by (simp add: in_order_def)
    moreover have "threshold_ok ?d = threshold_ok d" by (rule threshold_ok_view) simp_all
    then have "threshold_ok c \<longrightarrow> threshold_ok ?d" using movesD(13)[OF d(2)] by simp
    moreover have "rcv_kept ?d = rcv_kept c" using movesD(11)[OF d(2)] by (simp add: rcv_kept_def)
    note rcv_keptD(2,3,7)[OF this]
    ultimately show ?thesis using run False movesD(2,3,8)[OF d(2)] st(1)
      by (intro exI[of _ ?d]) (simp add: Let_def)
  next
    case True
    from ack_step[OF ok seg(1), where ?env0.0 = env0] obtain b c2 where
      a: "processAckInEstabEtc ?env s c = Inr (b, c2)" "sender_ok v c2" "recovery_ok v c2"
        "b \<longleftrightarrow> off v (tg_ack s) \<le> off v (tv_snd_max ?v)" "rcv_kept c2 = rcv_kept c" "tv_send_fin (tc_vars c2) = tv_send_fin ?v"
        "b \<and> tg_len s \<noteq> 0 \<longrightarrow> tc_alg c2 = tc_alg c \<and> rcv_view c2 = rcv_view c"
        "if off v (tv_snd_una ?v) < off v (tg_ack s) \<and> b
         then tv_snd_una (tc_vars c2) = tg_ack s \<and> tc_sendQueue c2 = (tc_sendQueue c)\<lparr>sq_begin := tg_ack s\<rparr>
         else tv_snd_una (tc_vars c2) = tv_snd_una ?v \<and> tc_sendQueue c2 = tc_sendQueue c"
        "threshold_ok c \<longrightarrow> threshold_ok c2"
      using st(2) by (auto simp: Let_def split: if_splits)
    note k2 = rcv_keptD[OF a(5)]
    have st2: "tc_state c2 = TCP_S_ESTABLISHED" using k2(1) st(1) by simp
    note run = transfer_run[OF st(1) s True a(1) st2]
    have io: "in_order v c2" using a(2,3) by (simp add: in_order_def)
    show ?thesis
    proof (cases b)
      case False
      then show ?thesis using run tr[OF st2] st2 io a(4,8,9) k2 by (intro exI[of _ c2]) (simp add: Let_def)
    next
      case b: True
      have view: "rcv_view c2 = rcv_view c" "tc_alg c2 = tc_alg c" "segment_ok w s" if "tg_len s \<noteq> 0"
        using a(7) b seg(2) that by blast+
      have open2: "in_order_open fl v c2" if "tg_len s \<noteq> 0" using view(2)[OF that] io ok(3) by (simp add: in_order_open_def divides_safely_def)
      have rc: "conn_rcv_ok w c2 \<and> isSegmentAcceptable s (tc_vars c2)" if "tg_len s \<noteq> 0"
        using conn_rcv_ok_view[OF view(1)[OF that]] rcv(1) acceptable_view[OF view(1)[OF that] view(3)[OF that]] True by simp
      have nf: "\<not> tv_send_fin (tc_vars c2)" "\<not> tv_fin_rcvd (tc_vars c2)" using a(6) st(2) k2(5) rcv(2) by simp_all
      from text_and_finish[OF io open2 rc seg(2) st2 nf seg(3), where ?env0.0 = env0 and
          old_snd_una = "tv_snd_una ?v" and old_snd_nxt = "tv_snd_nxt ?v"] obtain c' where
        t: "bindE (tcp_segment_text ?env (tv_snd_una ?v) (tv_rcv_nxt (tc_vars c2)) s TCP_E_IGNORE c2) (\<lambda>(dropped, s', ev3, c4).
           if dropped then Inr (TCP_E_IGNORE, c4)
           else bindE (tcp_check_fin s' ev3 c4) (\<lambda>(ev4, c5).
             tcp_finish ?env (tv_rcv_nxt (tc_vars c2)) (tv_snd_nxt ?v) s' ev4 c5)) = Inr (TCP_E_IGNORE, c')"
        "in_order v c' \<and> (threshold_ok c2 \<longrightarrow> threshold_ok c')" "tc_state c' = TCP_S_ESTABLISHED" "tv_snd_una (tc_vars c') = tv_snd_una (tc_vars c2)"
        "tc_sendQueue c' = tc_sendQueue c2"
        and rt: "if tg_len s = 0 then rcv_kept c' = rcv_kept c2
         else rcv_inv w (tc_receiveQueue c') \<and> rq_rcv_nxt (tc_receiveQueue c') = tv_rcv_nxt (tc_vars c') \<and>
           off w (tv_rcv_nxt (tc_vars c')) = first_missing (rq_bytes w (tc_receiveQueue c2) \<union>
             (segment_span w s \<inter> {..<off w (wnd_end c2)})) (off w (tv_rcv_nxt (tc_vars c2))) \<and>
           rq_bytes w (tc_receiveQueue c') = rq_bytes w (tc_receiveQueue c2) \<union>
             (segment_span w s \<inter> {..<off w (wnd_end c2)}) - {..<off w (tv_rcv_nxt (tc_vars c'))} \<and>
           delivered c' + off w (tv_rcv_nxt (tc_vars c2)) = delivered c2 + off w (tv_rcv_nxt (tc_vars c'))"
        by blast
      have nb: "\<not> \<not> b" using b by simp
      have res: "processTCPSegment ?env s c = Inr (True, c')" unfolding run if_not_P[OF nb] t(1) using tr[OF t(3)] by simp
      have una: "if off v (tv_snd_una ?v) < off v (tg_ack s)
         then tv_snd_una (tc_vars c') = tg_ack s \<and> tc_sendQueue c' = (tc_sendQueue c)\<lparr>sq_begin := tg_ack s\<rparr>
         else tv_snd_una (tc_vars c') = tv_snd_una ?v \<and> tc_sendQueue c' = tc_sendQueue c"
        using a(8) b unfolding t(4,5) by simp
      have taken: "isSegmentAcceptable s ?v \<and> off v (tg_ack s) \<le> off v (tv_snd_max ?v)" using True b a(4) by blast
      have tk: "(isSegmentAcceptable s ?v \<and> off v (tg_ack s) \<le> off v (tv_snd_max ?v)) = True" using taken by blast
      show ?thesis
      proof (cases "tg_len s = 0")
        case len: True
        then have "rcv_kept c' = rcv_kept c" using rt a(5) by simp
        then show ?thesis using res t(2,3) a(9) una len rcv_keptD(2,3,7)[of c' c] unfolding Let_def tk by (intro exI[of _ c']) simp
      next
        case len: False
        have we: "tv_rcv_wnd (tc_vars c2) = tv_rcv_wnd (tc_vars c)" using view(1)[OF len] by (simp add: rcv_view_def)
        show ?thesis using res t(2,3) a(9) una rt len unfolding Let_def tk we k2(2,3,7) by (intro exI[of _ c']) simp
      qed
    qed
  qed
qed

lemma established_segment_witness:
  "\<exists>c'. processTCPSegment (alg_env NewReno quiet_env) ((demo_segment 4900 150)\<lparr>tg_ack := 1051\<rparr>) (set_cwnd 1072 demo_sender) =
       Inr (True, c') \<and> tv_snd_una (tc_vars c') = 1051 \<and> off 4000 (tv_rcv_nxt (tc_vars c')) = 1050 \<and> delivered c' = 50"
proof -
  let ?c = "set_cwnd 1072 demo_sender" and ?s = "(demo_segment 4900 150)\<lparr>tg_ack := 1051\<rparr>"
  note v = demo_sender_receiver[where n = 1072]
  have u: "tv_snd_una (tc_vars ?c) = 1001" "tv_snd_max (tc_vars ?c) = 1101" "\<not> tv_send_fin (tc_vars ?c)"
    using demo_sender_fields by (simp_all add: set_cwnd_def)
  have seg: "transfer_segment 1000 4000 ?s" "segment_span 4000 ?s = {900..<1050}" "tg_len ?s \<noteq> 0" "tg_ack ?s = 1051"
    by (simp_all add: transfer_segment_def segment_ok_def segment_span_def demo_segment_def segment_new_def off_def near_def TCP_HEADER_OCTETS_def)
  have acc: "isSegmentAcceptable ?s (tc_vars ?c)"
    by (simp add: isSegmentAcceptable_def demo_sender_receiver demo_segment_def segment_new_def seqLess_def seqLE_def)
  have fm: "first_missing ({} \<union> ({900..<1050} \<inter> {..<off 4000 (5000 + 200)})) (off 4000 5000) = 1050"
    by (rule first_missing_eqI) (auto simp: off_def)
  have o: "off 1000 1051 = 51" "off 1000 1001 = 1" "off 1000 1101 = 101" "off 4000 5000 = 1000" by (simp_all add: off_def)
  have tk: "(isSegmentAcceptable ?s (tc_vars ?c) \<and> off 1000 1051 \<le> off 1000 1101) = True" using acc o by simp
  from established_segment[OF v(5) u(3) demo_sender_open demo_sender_rcv_ok(1) v(6) seg(1), where fl = NewReno and ?env0.0 = quiet_env]
  show ?thesis unfolding Let_def u(1,2) seg(2,4) tk v(1-4) fm using seg(3) by (auto simp: o)
qed

end
