(* ===== verification/TcpFinRecovery.thy ===== *)
theory TcpFinRecovery
  imports TcpPipe TcpEstablished
begin

text \<open>
  Fast retransmit with SACK after the connection was closed: the FIN takes a number that the retransmission
  queue does not hold.
\<close>

section \<open>Retransmission with SACK\<close>

text \<open>
  A sender that uses SACK, has no SACK to report and is not in slow start after a timeout; its queue and
  its scoreboard agree, \<open>snd_una\<close> lies inside and \<open>snd_max\<close> not before their end.
\<close>

definition sack_sender :: "u32 \<Rightarrow> tcp_conn \<Rightarrow> bool" where
  "sack_sender w c \<longleftrightarrow> (let v = tc_vars c; q = tc_sendQueue c; x = tc_rexmitQueue c in
     tv_sack_enabled v \<and> \<not> tv_ts_enabled v \<and> \<not> tv_ws_enabled v \<and> \<not> tv_snd_sack v \<and> \<not> tv_snd_dsack v \<and> \<not> tv_afterRto v \<and>
     0 < tv_snd_mss v \<and> 3 * unat (tv_snd_mss v) < 4294967296 \<and> xq_ok w x \<and> xq_end x = sq_end q \<and> near w (tv_snd_max v) \<and>
     off w (sq_begin q) \<le> off w (tv_snd_una v) \<and> off w (xq_begin x) \<le> off w (tv_snd_una v) \<and>
     off w (tv_snd_una v) < off w (sq_end q) \<and> off w (sq_end q) \<le> off w (tv_snd_max v))"

lemma sack_senderD:
  assumes "sack_sender w c"
  shows "tv_sack_enabled (tc_vars c)" "\<not> tv_ts_enabled (tc_vars c)" "\<not> tv_ws_enabled (tc_vars c)" "\<not> sacks_due (tc_vars c)"
    "\<not> tv_afterRto (tc_vars c)" "0 < tv_snd_mss (tc_vars c)" "3 * unat (tv_snd_mss (tc_vars c)) < 4294967296"
    "xq_ok w (tc_rexmitQueue c)" "xq_end (tc_rexmitQueue c) = sq_end (tc_sendQueue c)" "near w (tv_snd_max (tc_vars c))"
    "off w (sq_begin (tc_sendQueue c)) \<le> off w (tv_snd_una (tc_vars c))"
    "off w (xq_begin (tc_rexmitQueue c)) \<le> off w (tv_snd_una (tc_vars c))"
    "off w (tv_snd_una (tc_vars c)) < off w (sq_end (tc_sendQueue c))"
    "off w (sq_end (tc_sendQueue c)) \<le> off w (tv_snd_max (tc_vars c))"
  using assms unfolding sack_sender_def Let_def sacks_due_def by blast+

text \<open>What \<open>setPipe\<close> looks at.\<close>

definition pipe_view :: "tcp_conn \<Rightarrow> bool \<times> u32 \<times> u32 \<times> u32" where
  "pipe_view c = (tv_sack_enabled (tc_vars c), tv_snd_mss (tc_vars c), tv_snd_una (tc_vars c), tv_snd_max (tc_vars c))"

lemma pipe_view_core: "core c' = core c \<Longrightarrow> pipe_view c' = pipe_view c"
  by (simp add: pipe_view_def core_fields[of c' c])

lemma pipe_view_simps [simp]:
  "pipe_view (setv (\<lambda>v. v\<lparr>tv_snd_nxt := x\<rparr>) c) = pipe_view c" "pipe_view (setv (\<lambda>v. v\<lparr>tv_afterRto := b\<rparr>) c) = pipe_view c"
  "pipe_view (seta g c) = pipe_view c" "pipe_view (core c) = pipe_view c" "pipe_view (c\<lparr>tc_rexmitQueue := xq\<rparr>) = pipe_view c"
  by (simp_all add: pipe_view_def seta_def core_simps)

lemma rexmitQueue_seta [simp]: "tc_rexmitQueue (seta g c) = tc_rexmitQueue c"
  by (simp add: seta_def)

lemma retransmit_sack:
  fixes fl env0
  defines "env \<equiv> flavour_leaf fl env0"
  assumes ok: "sack_sender w c"
  shows "\<exists>c'. retransmitOneSegment env rto c = Inr c' \<and> pipe_view c' = pipe_view c \<and> xq_ok w (tc_rexmitQueue c') \<and>
    xq_begin (tc_rexmitQueue c') = xq_begin (tc_rexmitQueue c) \<and> off w (xq_end (tc_rexmitQueue c')) = off w (xq_end (tc_rexmitQueue c))"
proof -
  note d = sack_senderD[OF ok]
  let ?una = "tv_snd_una (tc_vars c)" and ?mx = "tv_snd_max (tc_vars c)" and ?e = "sq_end (tc_sendQueue c)" and ?mss = "tv_snd_mss (tc_vars c)"
  let ?c = "setv (\<lambda>v. v\<lparr>tv_snd_nxt := tv_snd_una v\<rparr>) c"
  define bytes where "bytes = min (min ?mss (?mx - ?una)) (sq_getBytesAvailable ?una (tc_sendQueue c))"
  have ne: "near w ?e" using d(10,14) by (simp add: near_def)
  have dm: "unat (?mx - ?una) = off w ?mx - off w ?una" by (rule unat_diff_near) (use d(13,14) in simp)
  have av: "unat (sq_getBytesAvailable ?una (tc_sendQueue c)) = off w ?e - off w ?una"
    by (rule bytes_available(1)[OF ne]) (use d(13) in simp)
  have ub: "unat bytes = min (unat ?mss) (min (off w ?e) (off w ?mx) - off w ?una)"
    unfolding bytes_def u32_min dm av by linarith
  have pos: "0 < unat bytes" unfolding ub using d(6,13,14) by (simp add: unat_gt_0 word_gt_0)
  have b0: "bytes \<noteq> 0" using pos by auto
  have lim: "off w ?una + unat bytes \<le> off w ?e" using ub d(13) by linarith
  have ob: "off w (?una + bytes) = off w ?una + unat bytes" using lim off_less[of w ?e] by (intro off_add) simp
  have sl: "bytes = segment_length ?c bytes"
    unfolding segment_length_def bytes_def by (simp add: min.assoc min.commute min.left_commute)
  have nx: "near w ?una" "near w (?una + bytes)" using ne lim ob d(13) by (simp_all add: near_def)
  obtain xq where xq: "xq_enqueueSentData ?una (?una + bytes) (tc_rexmitQueue c) = Inr xq" "xq_ok w xq"
    "xq_begin xq = xq_begin (tc_rexmitQueue c)" "off w (xq_end xq) = max (off w (xq_end (tc_rexmitQueue c))) (off w (?una + bytes))"
    using xq_enqueueSentData_ok[OF d(8) nx d(12)] d(9,13) ob pos by auto
  have xe: "off w (xq_end xq) = off w (xq_end (tc_rexmitQueue c))" using xq(4) ob lim d(9) by simp
  have s0: "tv_sack_enabled (tc_vars ?c)" "\<not> tv_ws_enabled (tc_vars ?c)" "\<not> tv_ts_enabled (tc_vars ?c)" "\<not> sacks_due (tc_vars ?c)"
    "0 < tv_snd_mss (tc_vars ?c)" "forward_snd_nxt ?c = Inr ?c" "near w (sq_end (tc_sendQueue ?c))"
    "off w (sq_begin (tc_sendQueue ?c)) \<le> off w (tv_snd_nxt (tc_vars ?c))" "off w (tv_snd_nxt (tc_vars ?c)) \<le> off w (sq_end (tc_sendQueue ?c))"
    using d ne by (simp_all add: forward_snd_nxt_def sacks_due_def)
  have x0: "(if tv_sack_enabled (tc_vars ?c)
      then xq_enqueueSentData (tv_snd_nxt (tc_vars ?c)) (tv_snd_nxt (tc_vars ?c) + bytes) (tc_rexmitQueue ?c)
      else Inr (tc_rexmitQueue ?c)) = Inr xq" using s0(1) xq(1) by simp
  from sendSegment_run[OF s0(2-9) sl x0, where fl = fl and ?env0.0 = env0] obtain c1 where
    1: "sendSegment env bytes ?c = Inr c1"
      "core c1 = setv (\<lambda>v. v\<lparr>tv_afterRto := rto_after ?c bytes\<rparr>) (setv (\<lambda>v. v\<lparr>tv_snd_nxt := nxt_after ?c bytes\<rparr>) (core (?c\<lparr>tc_rexmitQueue := xq\<rparr>)))"
    unfolding env_def by blast
  have v1: "pipe_view c1 = pipe_view c" "tc_rexmitQueue c1 = xq"
  proof -
    have "pipe_view c1 = pipe_view (core c1)" by simp
    also have "\<dots> = pipe_view ?c" unfolding 1(2) by simp
    finally show "pipe_view c1 = pipe_view c" by (simp add: pipe_view_def)
    have "tc_rexmitQueue c1 = tc_rexmitQueue (core c1)" by (simp add: core_simps)
    then show "tc_rexmitQueue c1 = xq" unfolding 1(2) by (simp add: core_simps)
  qed
  from leaf_calls(3)[of fl env0 "tv_snd_una (tc_vars c1)" "tv_snd_nxt (tc_vars c1)" c1] obtain c2 where
    2: "te_call env (SegmentRetransmitted (tv_snd_una (tc_vars c1)) (tv_snd_nxt (tc_vars c1))) c1 = Inr c2" "core c2 = core c1"
    unfolding env_def by blast
  define c3 where "c3 = (if \<not> rto \<and> seqGreater (tv_snd_nxt (tc_vars c)) (tv_snd_nxt (tc_vars c2))
     then setv (\<lambda>v. v\<lparr>tv_snd_nxt := tv_snd_nxt (tc_vars c)\<rparr>) c2 else c2)"
  have v3: "pipe_view c3 = pipe_view c" "tc_rexmitQueue c3 = xq"
    using pipe_view_core[OF 2(2)] core_fields(3)[OF 2(2)] v1 by (simp_all add: c3_def)
  from leaf_calls(1)[of fl env0 c3] obtain c4 where 4: "te_call env AckSent c3 = Inr c4" "core c4 = core c3" unfolding env_def by blast
  have v4: "pipe_view c4 = pipe_view c" "tc_rexmitQueue c4 = xq"
    using pipe_view_core[OF 4(2)] core_fields(3)[OF 4(2)] v3 by simp_all
  have k4: "tv_sack_enabled (tc_vars c4)" using v4(1) d(1) by (simp add: pipe_view_def)
  have "retransmitOneSegment env rto c = Inr (seta (\<lambda>a. a\<lparr>ta_highRxt := xq_getHighestRexmittedSeqNum (tc_rexmitQueue c4)\<rparr>) c4)"
    using b0 1(1) 2(1) 4(1) k4 by (simp add: retransmitOneSegment_def Let_def bytes_def[symmetric] sq_getBufferEndSeq_def c3_def[symmetric])
  then show ?thesis using v4 xq(2,3) xe by (intro exI conjI) (assumption, simp_all)
qed

section \<open>The FIN\<close>

text \<open>The steps between \<open>close\<close> and the third duplicate acknowledgment keep the sender as it is.\<close>

lemma sack_sender_core: "core c' = core c \<Longrightarrow> sack_sender w c' = sack_sender w c"
proof -
  have "sack_sender w (core d) = sack_sender w d" for d by (simp add: sack_sender_def core_def Let_def)
  from this[of c'] this[of c] show "core c' = core c \<Longrightarrow> ?thesis" by simp
qed

lemma sack_sender_simps [simp]:
  "sack_sender w (setv (\<lambda>v. v\<lparr>tv_dupacks := n v\<rparr>) c) = sack_sender w c" "sack_sender w (seta g c) = sack_sender w c"
  "sack_sender w (updateWndInfo s a c) = sack_sender w c" "sack_sender w (setv (\<lambda>v. v\<lparr>tv_snd_nxt := f v\<rparr>) c) = sack_sender w c"
  "sack_sender w (c\<lparr>tc_state := st, tc_connEstabTimer := t1, tc_synRexmitTimer := t2\<rparr>) = sack_sender w c"
  by (simp_all add: sack_sender_def seta_def updateWndInfo_def Let_def)

lemma sendFin_alg: "sendFin (alg_env fl env0) c = sendFin (flavour_leaf fl env0) c"
  by (simp add: sendFin_def alg_env_def flavour_call_def Let_def)

lemma close_sends_fin:
  assumes ok: "sack_sender w c" and st: "tc_state c = TCP_S_ESTABLISHED"
    and mx: "tv_snd_max (tc_vars c) = sq_end (tc_sendQueue c)" "near w (tv_snd_max (tc_vars c) + 1)"
  shows "\<exists>c'. process_CLOSE (alg_env fl env0) c = Inr (TCP_E_CLOSE, c') \<and> sack_sender w c' \<and> tc_state c' = TCP_S_ESTABLISHED \<and>
    tv_snd_una (tc_vars c') = tv_snd_una (tc_vars c) \<and> tv_snd_max (tc_vars c') = sq_end (tc_sendQueue c') + 1 \<and>
    tv_dupacks (tc_vars c') = tv_dupacks (tc_vars c) \<and> tv_limited_transmit_enabled (tc_vars c') = tv_limited_transmit_enabled (tc_vars c)"
proof -
  note d = sack_senderD[OF ok]
  let ?d = "setv (\<lambda>v. v\<lparr>tv_snd_nxt := tv_snd_max v\<rparr>) c"
  have "\<not> tv_ws_enabled (tc_vars ?d)" using d(3) by simp
  from sendFin_core[OF this, where fl = fl and ?env0.0 = env0] obtain c1 where
    1: "sendFin (flavour_leaf fl env0) ?d = Inr c1" "core c1 = core ?d" by blast
  from leaf_calls(4)[of fl env0 c1] obtain c2 where
    2: "te_call (flavour_leaf fl env0) RestartRexmitTimer c1 = Inr c2" "core c2 = core c1" by blast
  have c2: "core c2 = core ?d" using 1(2) 2(2) by simp
  note f = core_fields[OF c2]
  let ?r = "setv (\<lambda>v. v\<lparr>tv_send_fin := True, tv_snd_fin_seq := sq_end (tc_sendQueue c2)\<rparr>)
    (setv (\<lambda>v. v\<lparr>tv_snd_nxt := tv_snd_nxt v + 1, tv_snd_max := tv_snd_nxt v + 1\<rparr>) c2)"
  have run: "process_CLOSE (alg_env fl env0) c = Inr (TCP_E_CLOSE, ?r)"
    using st mx(1) 1(1) 2(1) unfolding process_CLOSE_def Let_def sq_getBufferEndSeq_def sendFin_alg
    by (simp add: alg_env_def flavour_call_def Let_def)
  have s2: "sack_sender w c2" using sack_sender_core[OF c2] ok by simp
  have n: "tv_snd_nxt (tc_vars c2) = sq_end (tc_sendQueue c)" "tc_sendQueue c2 = tc_sendQueue c" using f mx(1) by simp_all
  have "off w (sq_end (tc_sendQueue c) + 1) = Suc (off w (sq_end (tc_sendQueue c)))"
    using d(10) mx(1) by (intro off_suc) (simp add: near_def)
  then have "sack_sender w ?r" using s2 mx by (simp add: sack_sender_def Let_def n)
  then show ?thesis using run f n st by (intro exI[of _ ?r]) simp
qed

lemma enter_fin_wait:
  assumes "sack_sender w c" "tc_state c = TCP_S_ESTABLISHED"
  shows "\<exists>c'. performStateTransition env TCP_E_CLOSE c = Inr (True, c') \<and> sack_sender w c' \<and> tc_state c' = TCP_S_FIN_WAIT_1 \<and>
    tc_vars c' = tc_vars c \<and> tc_sendQueue c' = tc_sendQueue c"
  using assms by (simp add: performStateTransition_def stateEntered_def fsm_next_def Let_def)

section \<open>Duplicate acknowledgments\<close>

lemma reno_fast_retransmit_asserts:
  assumes ok: "sack_sender w c" and beyond: "off w (sq_end (tc_sendQueue c)) < off w (tv_snd_max (tc_vars c))"
  shows "reno_fast_retransmit (flavour_leaf fl env0) c = Inl (RuntimeError ''ASSERT'')"
proof -
  define d1 where "d1 = recalculateSlowStartThreshold (reno_enter_recovery c)"
  define d2 where "d2 = set_cwnd (ta_ssthresh (tc_alg d1) + 3 * tv_snd_mss (tc_vars d1)) d1"
  have k: "sack_sender w d2 = sack_sender w c" "pipe_view d2 = pipe_view c" "tc_rexmitQueue d2 = tc_rexmitQueue c"
    by (simp_all add: d2_def d1_def set_cwnd_def recalculateSlowStartThreshold_def reno_enter_recovery_def Let_def)
  have okd: "sack_sender w d2" using ok k(1) by simp
  from retransmit_sack[OF okd, where fl = fl and ?env0.0 = env0 and rto = False] obtain c3 where
    3: "retransmitOneSegment (flavour_leaf fl env0) False d2 = Inr c3" "pipe_view c3 = pipe_view c"
      "xq_ok w (tc_rexmitQueue c3)" "xq_begin (tc_rexmitQueue c3) = xq_begin (tc_rexmitQueue c)"
      "off w (xq_end (tc_rexmitQueue c3)) = off w (xq_end (tc_rexmitQueue c))" unfolding k(2,3) by blast
  note d = sack_senderD[OF ok]
  have v: "tv_sack_enabled (tc_vars c3)" "tv_snd_mss (tc_vars c3) = tv_snd_mss (tc_vars c)"
    "tv_snd_una (tc_vars c3) = tv_snd_una (tc_vars c)" "tv_snd_max (tc_vars c3) = tv_snd_max (tc_vars c)"
    using 3(2) d(1) by (simp_all add: pipe_view_def)
  have "setPipe c3 = Inl (RuntimeError ''ASSERT'')"
    by (rule setPipe_beyond_queue[of w]) (use d beyond 3(3-5) v in simp_all)
  then show ?thesis using 3(1) v(1)
    unfolding reno_fast_retransmit_def Let_def d1_def[symmetric] d2_def[symmetric] by simp
qed

text \<open>One duplicate acknowledgment: it is counted, and nothing else happens before the third.\<close>

lemma duplicate_ack:
  assumes ok: "sack_sender w c" "\<not> tv_limited_transmit_enabled (tc_vars c)" and s: "tg_ack s = tv_snd_una (tc_vars c)" "tg_len s = 0"
  shows "processAckInEstabEtc (alg_env Reno env0) s c = bindE
    (let d = updateWndInfo s False (setv (\<lambda>v. v\<lparr>tv_dupacks := tv_dupacks v + 1\<rparr>) c) in
     if tv_dupacks (tc_vars d) = DUPTHRESH then reno_fast_retransmit (flavour_leaf Reno env0) d
     else if DUPTHRESH < tv_dupacks (tc_vars d)
     then quietly (base_sendData (flavour_leaf Reno env0) False (set_cwnd (ta_snd_cwnd (tc_alg d) + tv_snd_mss (tc_vars d)) d))
     else Inr d) (\<lambda>c1. Inr (True, c1))"
proof -
  let ?una = "tv_snd_una (tc_vars c)"
  have "?una \<noteq> tv_snd_max (tc_vars c)" using sack_senderD(13,14)[OF ok(1)] by auto
  moreover have "seqGE ?una ?una" by (simp add: seqGE_def)
  moreover have "tv_limited_transmit_enabled (tc_vars (updateWndInfo s a (setv (\<lambda>v. v\<lparr>tv_dupacks := n v\<rparr>) c))) = False" for a n
    using ok(2) by (simp add: updateWndInfo_def Let_def)
  ultimately show ?thesis using s
    by (simp add: processAckInEstabEtc_def alg_env_def flavour_call_def flavour_receivedDuplicateAck_def reno_receivedDuplicateAck_def
        base_receivedDuplicateAck_def Let_def)
qed

definition counted :: "tcp_segment \<Rightarrow> tcp_conn \<Rightarrow> tcp_conn" where
  "counted s c = updateWndInfo s False (setv (\<lambda>v. v\<lparr>tv_dupacks := tv_dupacks v + 1\<rparr>) c)"

lemma counted_fields [simp]:
  "sack_sender w (counted s c) = sack_sender w c" "tv_snd_una (tc_vars (counted s c)) = tv_snd_una (tc_vars c)"
  "tv_snd_max (tc_vars (counted s c)) = tv_snd_max (tc_vars c)" "tc_sendQueue (counted s c) = tc_sendQueue c"
  "tv_dupacks (tc_vars (counted s c)) = tv_dupacks (tc_vars c) + 1"
  "tv_limited_transmit_enabled (tc_vars (counted s c)) = tv_limited_transmit_enabled (tc_vars c)"
  by (simp_all add: counted_def) (simp_all add: updateWndInfo_def Let_def)

text \<open>
  C36: Loss recovery after \<open>close\<close>, for Reno with its real callbacks.  An established connection that uses
  SACK (without time stamps, window scaling and limited transmit, with no SACK to report, not in slow
  start after a timeout, whose queue and scoreboard agree and end at the same number, whose numbers lie within half
  their range, and whose segment size is positive and three times it below 2^32) has sent all its data, not all of it is
  acknowledged, and no duplicate acknowledgment was counted yet.  The application closes it: the code sends the FIN at once, which takes a number, and
  does not enter it into the retransmission queue, so that \<open>snd_max\<close> lies one beyond the end of the
  queue.  The first two duplicate acknowledgments (without data) only get counted; the third starts fast retransmit,
  which sends the first segment again and then calls \<open>setPipe\<close>, whose walk passes the end of the queue
  and fails the assertion of \<open>checkSackBlock\<close>: the simulation stops.
\<close>

theorem fast_retransmit_after_fin:
  assumes ok: "sack_sender w c" and st: "tc_state c = TCP_S_ESTABLISHED"
    and mx: "tv_snd_max (tc_vars c) = sq_end (tc_sendQueue c)" "near w (tv_snd_max (tc_vars c) + 1)"
    and dup: "tv_dupacks (tc_vars c) = 0" "\<not> tv_limited_transmit_enabled (tc_vars c)"
    and s: "tg_ack s1 = tv_snd_una (tc_vars c)" "tg_len s1 = 0" "tg_ack s2 = tv_snd_una (tc_vars c)" "tg_len s2 = 0"
      "tg_ack s3 = tv_snd_una (tc_vars c)" "tg_len s3 = 0"
  shows "\<exists>c1 c2 c3 c4. process_CLOSE (alg_env Reno env0) c = Inr (TCP_E_CLOSE, c1) \<and>
    performStateTransition (alg_env Reno env0) TCP_E_CLOSE c1 = Inr (True, c2) \<and> tc_state c2 = TCP_S_FIN_WAIT_1 \<and>
    tv_snd_max (tc_vars c2) = xq_end (tc_rexmitQueue c2) + 1 \<and>
    processAckInEstabEtc (alg_env Reno env0) s1 c2 = Inr (True, c3) \<and>
    processAckInEstabEtc (alg_env Reno env0) s2 c3 = Inr (True, c4) \<and>
    processAckInEstabEtc (alg_env Reno env0) s3 c4 = Inl (RuntimeError ''ASSERT'')"
proof -
  from close_sends_fin[OF ok st mx, where fl = Reno and ?env0.0 = env0] obtain c1 where
    1: "process_CLOSE (alg_env Reno env0) c = Inr (TCP_E_CLOSE, c1)" "sack_sender w c1" "tc_state c1 = TCP_S_ESTABLISHED"
      "tv_snd_una (tc_vars c1) = tv_snd_una (tc_vars c)" "tv_snd_max (tc_vars c1) = sq_end (tc_sendQueue c1) + 1"
      "tv_dupacks (tc_vars c1) = 0" "\<not> tv_limited_transmit_enabled (tc_vars c1)" using dup by auto
  from enter_fin_wait[OF 1(2,3), where env = "alg_env Reno env0"] obtain c2 where
    2: "performStateTransition (alg_env Reno env0) TCP_E_CLOSE c1 = Inr (True, c2)" "sack_sender w c2"
      "tc_state c2 = TCP_S_FIN_WAIT_1" "tc_vars c2 = tc_vars c1" "tc_sendQueue c2 = tc_sendQueue c1" by blast
  have lt: "\<not> tv_limited_transmit_enabled (tc_vars c2)" "tv_dupacks (tc_vars c2) = 0" using 1(6,7) 2(4) by simp_all
  have una: "tv_snd_una (tc_vars c2) = tv_snd_una (tc_vars c)" using 1(4) 2(4) by simp
  let ?c3 = "counted s1 c2" let ?c4 = "counted s2 ?c3" let ?c5 = "counted s3 ?c4"
  note k = sack_senderD[OF 2(2)]
  have beyond: "off w (sq_end (tc_sendQueue ?c5)) < off w (tv_snd_max (tc_vars ?c5))"
  proof -
    have "tv_snd_max (tc_vars c2) = sq_end (tc_sendQueue c2) + 1" using 1(5) 2(4,5) by simp
    moreover have "off w (sq_end (tc_sendQueue c2)) < 2147483648" using k(10,14) by (simp add: near_def)
    ultimately show ?thesis using off_suc[of w "sq_end (tc_sendQueue c2)"] by simp
  qed
  have ok5: "sack_sender w ?c5" using 2(2) by simp
  have a1: "processAckInEstabEtc (alg_env Reno env0) s1 c2 = Inr (True, ?c3)"
    using duplicate_ack[OF 2(2) lt(1), of s1 env0] s(1,2) una lt(2) counted_fields(5)[of s1 c2]
    by (simp add: counted_def[symmetric] Let_def DUPTHRESH_def)
  have a2: "processAckInEstabEtc (alg_env Reno env0) s2 ?c3 = Inr (True, ?c4)"
    using duplicate_ack[of w ?c3 s2 env0] 2(2) lt s(3,4) una
    by (simp add: counted_def[of s2, symmetric] Let_def DUPTHRESH_def)
  have a3: "processAckInEstabEtc (alg_env Reno env0) s3 ?c4 = Inl (RuntimeError ''ASSERT'')"
    using duplicate_ack[of w ?c4 s3 env0] 2(2) lt s(5,6) una reno_fast_retransmit_asserts[OF ok5 beyond, of Reno env0]
    by (simp add: counted_def[of s3, symmetric] Let_def DUPTHRESH_def)
  have "tv_snd_max (tc_vars c2) = xq_end (tc_rexmitQueue c2) + 1" using 1(5) 2(4,5) k(9) by simp
  then show ?thesis using 1(1) 2(1,3) a1 a2 a3 by blast
qed

text \<open>The connection of \<open>demo_recovery\<close> with the data in its queue, and a duplicate acknowledgment.\<close>

definition demo_all_sent :: tcp_conn where
  "demo_all_sent = demo_recovery\<lparr>tc_sendQueue := \<lparr>sq_begin = 100, sq_end = 155\<rparr>\<rparr>"

definition demo_dup :: tcp_segment where
  "demo_dup = (demo_segment 5000 0)\<lparr>tg_ack := 100\<rparr>"

lemma fast_retransmit_after_fin_witness:
  "\<exists>c1 c2 c3 c4. process_CLOSE (alg_env Reno quiet_env) demo_all_sent = Inr (TCP_E_CLOSE, c1) \<and>
    performStateTransition (alg_env Reno quiet_env) TCP_E_CLOSE c1 = Inr (True, c2) \<and>
    processAckInEstabEtc (alg_env Reno quiet_env) demo_dup c2 = Inr (True, c3) \<and>
    processAckInEstabEtc (alg_env Reno quiet_env) demo_dup c3 = Inr (True, c4) \<and>
    processAckInEstabEtc (alg_env Reno quiet_env) demo_dup c4 = Inl (RuntimeError ''ASSERT'')"
proof -
  have v: "tc_vars demo_all_sent = tc_vars demo_recovery" "tc_rexmitQueue demo_all_sent = demo_rexmit_queue"
    "tc_sendQueue demo_all_sent = \<lparr>sq_begin = 100, sq_end = 155\<rparr>"
    by (simp_all add: demo_all_sent_def demo_recovery_fields)
  have b: "\<not> tv_ts_enabled (tc_vars demo_recovery)" "\<not> tv_ws_enabled (tc_vars demo_recovery)" "\<not> tv_snd_sack (tc_vars demo_recovery)"
    "\<not> tv_snd_dsack (tc_vars demo_recovery)" "\<not> tv_afterRto (tc_vars demo_recovery)" "tv_dupacks (tc_vars demo_recovery) = 0"
    "\<not> tv_limited_transmit_enabled (tc_vars demo_recovery)"
    by (simp_all add: demo_recovery_def demo_conn_def tcp_vars_new_def)
  have ok: "sack_sender 100 demo_all_sent" "tc_state demo_all_sent = TCP_S_ESTABLISHED"
    by (simp add: sack_sender_def v b demo_recovery_fields demo_recovery_offs near_def)
      (simp add: demo_all_sent_def demo_recovery_def demo_conn_def)
  have mx: "tv_snd_max (tc_vars demo_all_sent) = sq_end (tc_sendQueue demo_all_sent)" "near 100 (tv_snd_max (tc_vars demo_all_sent) + 1)"
    "tv_dupacks (tc_vars demo_all_sent) = 0" "\<not> tv_limited_transmit_enabled (tc_vars demo_all_sent)"
    by (simp_all add: v b demo_recovery_fields demo_recovery_offs near_def)
  have s: "tg_ack demo_dup = tv_snd_una (tc_vars demo_all_sent)" "tg_len demo_dup = 0"
    by (simp_all add: v demo_recovery_fields demo_dup_def demo_segment_def segment_new_def)
  from fast_retransmit_after_fin[OF ok mx s s s, where ?env0.0 = quiet_env] show ?thesis by blast
qed

end
