(* ===== verification/TcpDefects.thy ===== *)
theory TcpDefects
  imports TcpEstablished
begin

text \<open>
  Runs of the model, with the real callbacks and options, in which the code stops the simulation or does
  not do what its comments say: a SYN that carries data, and the persist timer.
\<close>

section \<open>A SYN that carries data\<close>

lemma header_length_bounds:
  assumes "tg_headerLength s = of_nat TCP_HEADER_OCTETS"
  shows "TCP_HEADER_OCTETS \<le> unat (tg_headerLength (set_header_length s)) \<and>
    unat (tg_headerLength (set_header_length s)) \<le> TCP_MAX_HEADER_OCTETS"
proof -
  have "unat (20 + len) = 20 + unat len" if "unat len \<le> 40" for len :: u16
    using that by (simp add: unat_word_ariths(1))
  then show ?thesis
    using assms by (simp add: set_header_length_def Let_def TCP_HEADER_OCTETS_def TCP_MAX_HEADER_OCTETS_def TCP_OPTIONS_MAX_SIZE_def)
qed

lemma option_phase_seta [simp]: "option_phase (seta f c) = option_phase c" "option_phase (setv (\<lambda>v. v\<lparr>tv_sack_enabled := b\<rparr>) c) = option_phase c"
  by (simp_all add: option_phase_def seta_def setv_def)

lemma write_syn_options_setup:
  assumes "tc_state c = TCP_S_LISTEN" "\<not> ta_rcv_ws (tc_alg c)"
  shows "setup_view (snd (write_syn_options env s c)) = setup_view c"
    "tg_headerLength (fst (write_syn_options env s c)) = tg_headerLength s"
proof -
  have ph: "\<not> option_phase c" using assms(1) by (simp add: option_phase_def)
  have ws: "write_ws c = ([], c)" using assms(2) ph by (simp add: write_ws_def Let_def)
  have m: "snd (write_mss c) = c" by (simp add: write_mss_def)
  have sp: "setup_view (snd (write_sack_permitted d)) = setup_view d" for d
    by (simp add: write_sack_permitted_def Let_def setup_view_def setv_def seta_def)
  have ts: "setup_view (snd (write_initial_ts env s d)) = setup_view d" for d
    by (simp add: write_initial_ts_def Let_def setup_view_def setv_def seta_def)
  have run: "write_syn_options env s c =
      (s\<lparr>tg_options := fst (write_mss c) @ [] @ fst (write_sack_permitted c) @ fst (write_initial_ts env s (snd (write_sack_permitted c)))\<rparr>,
       snd (write_initial_ts env s (snd (write_sack_permitted c))))"
    by (simp add: write_syn_options_def split_beta m ws)
  show "setup_view (snd (write_syn_options env s c)) = setup_view c" unfolding run by (simp add: sp ts)
  show "tg_headerLength (fst (write_syn_options env s c)) = tg_headerLength s" unfolding run by simp
qed

text \<open>The options of a SYN are read without an error in \<open>LISTEN\<close>, and the setup does not depend on them.\<close>

lemma process_option_setup:
  assumes "setup_option opt" "tc_state c = TCP_S_LISTEN"
  shows "\<exists>ok c'. process_option s opt c = Inr (ok, c') \<and> setup_view c' = setup_view c"
proof -
  note k = TCPOPTION_END_OF_OPTION_LIST_def TCPOPTION_NO_OPERATION_def TCPOPTION_MAXIMUM_SEGMENT_SIZE_def
    TCPOPTION_WINDOW_SCALE_def TCPOPTION_SACK_PERMITTED_def TCPOPTION_SACK_def TCPOPTION_TIMESTAMP_def
  have mss: "\<exists>ok c'. processMSSOption opt c = Inr (ok, c') \<and> setup_view c' = setup_view c" if "to_values opt \<noteq> []"
    using that by (auto simp: processMSSOption_def Let_def setup_view_def setv_def)
  have ts: "\<exists>ok c'. processTSOption s opt c = Inr (ok, c') \<and> setup_view c' = setup_view c" if "length (to_values opt) = 2"
    using that by (auto simp: processTSOption_def Let_def setup_view_def setv_def seta_def)
  have sp: "\<exists>ok c'. processSACKPermittedOption opt c = Inr (ok, c') \<and> setup_view c' = setup_view c"
    by (auto simp: processSACKPermittedOption_def Let_def setup_view_def setv_def seta_def)
  have sk: "\<exists>ok c'. processSACKOption s opt c = Inr (ok, c') \<and> setup_view c' = setup_view c"
    using assms(2) by (auto simp: processSACKOption_def data_state_def)
  show ?thesis using assms(1) mss ts sp sk unfolding process_option_def setup_option_def Let_def by auto
qed

lemma read_options_setup:
  "list_all setup_option opts \<Longrightarrow> tc_state c = TCP_S_LISTEN \<Longrightarrow>
     \<exists>c'. read_options s opts c = Inr c' \<and> setup_view c' = setup_view c"
proof (induction opts arbitrary: c)
  case (Cons opt opts)
  from process_option_setup[of opt c s] Cons.prems obtain ok c1 where
    1: "process_option s opt c = Inr (ok, c1)" "setup_view c1 = setup_view c" by auto
  then have "tc_state c1 = TCP_S_LISTEN" using Cons.prems(2) by (simp add: setup_view_def)
  with Cons 1 show ?case by fastforce
qed simp

text \<open>The callbacks and the options of every flavour keep what the setup rests on.\<close>

lemma alg_env_keeps_setup: "keeps_setup (alg_env fl env0)"
  unfolding keeps_setup_def
proof (intro conjI ballI allI impI)
  fix call and c :: tcp_conn
  assume "call \<in> {AckSent, UpdateSockPair, AddForkedConnection}"
  then show "\<exists>c'. te_call (alg_env fl env0) call c = Inr c' \<and> setup_view c' = setup_view c"
    by (auto simp: alg_env_def flavour_call_def flavour_leaf_def leaf_env_def dumb_call_def base_call_def base_ackSent_def
        setup_view_def setv_def seta_def Let_def)
next
  fix s :: tcp_segment and c :: tcp_conn
  assume "list_all setup_option (tg_options s)" "tc_state c = TCP_S_LISTEN"
  then show "\<exists>c'. te_call (alg_env fl env0) (ReadHeaderOptions s) c = Inr c' \<and> setup_view c' = setup_view c"
    using read_options_setup[of "tg_options s" c s]
    by (simp add: alg_env_def flavour_call_def flavour_leaf_def leaf_env_def readHeaderOptions_def Let_def)
next
  fix s :: tcp_segment and c :: tcp_conn
  assume s: "tg_syn s" "tg_headerLength s = of_nat TCP_HEADER_OCTETS" and c: "tc_state c = TCP_S_LISTEN" "\<not> ta_rcv_ws (tc_alg c)"
  let ?w = "write_syn_options env0 s c"
  have "te_writeHeaderOptions (alg_env fl env0) s c = Inr (set_header_length (fst ?w), snd ?w)"
    using s(1) c(1) by (simp add: alg_env_def writeHeaderOptions_def split_beta)
  then show "\<exists>s' c'. te_writeHeaderOptions (alg_env fl env0) s c = Inr (s', c') \<and> setup_view c' = setup_view c \<and>
      TCP_HEADER_OCTETS \<le> unat (tg_headerLength s') \<and> unat (tg_headerLength s') \<le> TCP_MAX_HEADER_OCTETS"
    using header_length_bounds[of "fst ?w"] write_syn_options_setup[OF c, of env0 s] s(2) by auto
qed

text \<open>
  C35: A SYN that carries data stops the simulation.  A connection in \<open>LISTEN\<close> whose setup timers
  are idle and whose state variables can be configured when it forks receives a SYN with data (and
  without RST and ACK) that carries any options (the segment size, SACK permitted, time stamps, ...)
  with the values they promise, but does not ask for window scaling, which is not in use either.  The
  code takes the options, sends the SYN+ACK and
  starts the timers of the setup, and then always finds no room for the data, because it compares
  the number of the SYN itself with the first number after it.  It ignores the event, so that the
  connection stays in \<open>LISTEN\<close> with the retransmission timer running; when that timer expires, its
  handler throws, because it knows only \<open>SYN_SENT\<close> and \<open>SYN_RCVD\<close>.
\<close>

theorem syn_with_data_throws_later:
  assumes "tc_state c = TCP_S_LISTEN" "\<not> tv_ws_enabled (tc_vars c)" "\<not> ta_rcv_ws (tc_alg c)"
    and "tc_connEstabTimer c = Some False" "tc_synRexmitTimer c = Some False"
    and "tv_fork (tc_vars c) \<Longrightarrow> is_ok (configureStateVariables (alg_env fl env0) (tc_vars c))"
    and "tg_syn s" "\<not> tg_rst s" "\<not> tg_ackBit s" "0 < tg_len s" "list_all setup_option (tg_options s)"
  shows "\<exists>c'. processTCPSegment (alg_env fl env0) s c = Inr (True, c') \<and> tc_state c' = TCP_S_LISTEN \<and>
    tc_synRexmitTimer c' = Some True \<and>
    processTimer (alg_env fl env0) SynRexmit c' = Inl (RuntimeError ''Internal error: SYN-REXMIT timer expired'')"
  by (rule syn_with_data[OF alg_env_keeps_setup]) (use assms in simp_all)

text \<open>A SYN with the option every SYN of the code carries, and data.\<close>

definition demo_syn :: "u64 \<Rightarrow> tcp_segment" where
  "demo_syn n = (demo_segment 7000 n)\<lparr>tg_syn := True, tg_ackBit := False, tg_headerLength := 24,
     tg_options := [\<lparr>to_kind = TCPOPTION_MAXIMUM_SEGMENT_SIZE, to_length = 4, to_values = [536]\<rparr>]\<rparr>"

lemma syn_with_data_throws_later_witness:
  "\<exists>c'. processTCPSegment (alg_env NewReno quiet_env) (demo_syn 100) demo_listen = Inr (True, c') \<and>
     processTimer (alg_env NewReno quiet_env) SynRexmit c' = Inl (RuntimeError ''Internal error: SYN-REXMIT timer expired'')"
proof -
  have c: "tc_state demo_listen = TCP_S_LISTEN" "\<not> tv_ws_enabled (tc_vars demo_listen)" "\<not> ta_rcv_ws (tc_alg demo_listen)"
    "tc_connEstabTimer demo_listen = Some False" "tc_synRexmitTimer demo_listen = Some False" "\<not> tv_fork (tc_vars demo_listen)"
    by (simp_all add: demo_listen_def demo_conn_def tcp_vars_new_def tcp_alg_new_def)
  let ?s = "demo_syn 100"
  have s: "tg_syn ?s" "\<not> tg_rst ?s" "\<not> tg_ackBit ?s" "0 < tg_len ?s" "list_all setup_option (tg_options ?s)"
    by (simp_all add: demo_syn_def demo_segment_def segment_new_def setup_option_def TCPOPTION_MAXIMUM_SEGMENT_SIZE_def
        TCPOPTION_WINDOW_SCALE_def TCPOPTION_TIMESTAMP_def)
  have "is_ok (configureStateVariables (alg_env NewReno quiet_env) (tc_vars demo_listen))" if "tv_fork (tc_vars demo_listen)"
    using that c(6) by simp
  from syn_with_data_throws_later[OF c(1-5) this s] show ?thesis by blast
qed

section \<open>The persist timer\<close>

definition next_persist_factor :: "u32 \<Rightarrow> u32" where
  "next_persist_factor f = (if f = 0 then 1 else if f < 64 then f * 2 else f)"

text \<open>The fields of the congestion control that sending leaves alone.\<close>

lemma fixed_persist:
  assumes "fixed c' = fixed c"
  shows "ta_persistTimer (tc_alg c') = ta_persistTimer (tc_alg c)" "ta_persist_factor (tc_alg c') = ta_persist_factor (tc_alg c)"
    "ta_persist_timeout (tc_alg c') = ta_persist_timeout (tc_alg c)" "ta_rexmit_timeout (tc_alg c') = ta_rexmit_timeout (tc_alg c)"
proof -
  have "tc_alg (fixed c') = tc_alg (fixed c)" using assms by simp
  then have a: "tc_alg (core c') = tc_alg (core c)" by (simp add: fixed_def setv_def)
  show "ta_persistTimer (tc_alg c') = ta_persistTimer (tc_alg c)"
    using arg_cong[OF a, of ta_persistTimer] by (simp add: core_def)
  show "ta_persist_factor (tc_alg c') = ta_persist_factor (tc_alg c)"
    using arg_cong[OF a, of ta_persist_factor] by (simp add: core_def)
  show "ta_persist_timeout (tc_alg c') = ta_persist_timeout (tc_alg c)"
    using arg_cong[OF a, of ta_persist_timeout] by (simp add: core_def)
  show "ta_rexmit_timeout (tc_alg c') = ta_rexmit_timeout (tc_alg c)"
    using arg_cong[OF a, of ta_rexmit_timeout] by (simp add: core_def)
qed

text \<open>
  C37: The persist timer of a plain connection, for every flavour but \<open>DumbTCP\<close>.  When it expires, one
  octet that was never sent goes out, if there is one, and the timer is armed again.  The code means
  to keep the interval between 5 and 60 seconds, but it sets \<open>rexmit_timeout\<close> instead of
  \<open>persist_timeout\<close>: the timer is armed with the factor times 1.5 seconds whatever the bounds say, and
  the retransmission timeout, whatever was measured, becomes 5 seconds for the first factors and 60 seconds for
  the last one.
\<close>

theorem persist_timer_probes:
  assumes ok: "sender_ok w c" and fl: "fl \<noteq> Dumb"
  shows "\<exists>c' new. te_algorithmTimer (alg_env fl env0) PersistTimer c = Inr (TCP_E_IGNORE, c') \<and> sender_ok w c' \<and>
    segments c' = segments c @ new \<and>
    (if off w (tv_snd_max (tc_vars c)) < off w (sq_end (tc_sendQueue c))
     then \<exists>s. new = [s] \<and> tg_seq s = tv_snd_max (tc_vars c) \<and> tg_len s = 1 else new = []) \<and>
    (let f = next_persist_factor (ta_persist_factor (tc_alg c)); t = uint f * 3 * simtime_s div 2 in
     ta_persist_factor (tc_alg c') = f \<and> ta_persistTimer (tc_alg c') = Some (tc_now c + t) \<and>
     ta_rexmit_timeout (tc_alg c') =
       (if 60 * simtime_s < t then 60 * simtime_s else if t < 5 * simtime_s then 5 * simtime_s else ta_rexmit_timeout (tc_alg c)))"
proof -
  let ?f = "next_persist_factor (ta_persist_factor (tc_alg c))"
  let ?t = "uint ?f * 3 * simtime_s div 2"
  let ?rto = "if 60 * simtime_s < ?t then 60 * simtime_s else if ?t < 5 * simtime_s then 5 * simtime_s else ta_rexmit_timeout (tc_alg c)"
  let ?leaf = "flavour_leaf fl env0" and ?b = "clear_timer PersistTimer c"
  define d where "d = seta (\<lambda>a. a\<lparr>ta_persist_factor := ?f, ta_persist_timeout := ?t, ta_rexmit_timeout := ?rto,
    ta_persistTimer := Some (tc_now c + ?t)\<rparr>) c"
  have timer: "te_algorithmTimer (alg_env fl env0) PersistTimer c = bindE (base_processPersistTimer ?leaf ?b) (\<lambda>c1. Inr (TCP_E_IGNORE, c1))"
    using fl by (simp add: alg_env_def flavour_processTimer_def Let_def)
  have base: "base_processPersistTimer ?leaf ?b = quietly (sendProbe ?leaf d)"
    unfolding base_processPersistTimer_def Let_def d_def next_persist_factor_def[symmetric]
    by (simp add: schedule_persist_def clear_timer_def seta_def MIN_PERSIST_TIMEOUT_def MAX_PERSIST_TIMEOUT_def next_persist_factor_def simtime_s_def)
  have okd: "sender_ok w d" unfolding d_def using ok by simp
  have dc: "tc_vars d = tc_vars c" "tc_sendQueue d = tc_sendQueue c" "segments d = segments c"
    by (simp_all add: d_def seta_def segments_def)
  from sendProbe_ok[OF okd, where fl = fl and ?env0.0 = env0] obtain sent c' where
    1: "sendProbe ?leaf d = Inr (sent, c')" "sender_ok w c'" "fixed c' = fixed d"
      "sent \<longleftrightarrow> off w (tv_snd_max (tc_vars c)) < off w (sq_end (tc_sendQueue c))"
      "if sent then \<exists>s. segments c' = segments c @ [s] \<and> tg_seq s = tv_snd_max (tc_vars c) \<and> tg_len s = 1 else segments c' = segments c"
    unfolding dc by blast
  have a: "ta_persist_factor (tc_alg c') = ?f" "ta_persistTimer (tc_alg c') = Some (tc_now c + ?t)" "ta_rexmit_timeout (tc_alg c') = ?rto"
    using fixed_persist[OF 1(3)] by (simp_all add: d_def seta_def)
  have run: "te_algorithmTimer (alg_env fl env0) PersistTimer c = Inr (TCP_E_IGNORE, c')"
    unfolding timer base 1(1) by (simp add: quietly_def)
  obtain new where new: "segments c' = segments c @ new"
    "if off w (tv_snd_max (tc_vars c)) < off w (sq_end (tc_sendQueue c))
     then \<exists>s. new = [s] \<and> tg_seq s = tv_snd_max (tc_vars c) \<and> tg_len s = 1 else new = []"
    using 1(4,5) by (cases sent) auto
  show ?thesis
    unfolding Let_def by (rule exI[of _ c'], rule exI[of _ new], intro conjI run 1(2) new a)
qed

text \<open>A connection with data that it may not send: the first interval is 1.5 seconds.\<close>

lemma persist_timer_probes_witness:
  "\<exists>c' s. te_algorithmTimer (alg_env Reno quiet_env) PersistTimer demo_sender = Inr (TCP_E_IGNORE, c') \<and> segments c' = [s] \<and>
     tg_seq s = 1101 \<and> tg_len s = 1 \<and> ta_persistTimer (tc_alg c') = Some (3 * simtime_s div 2) \<and> ta_rexmit_timeout (tc_alg c') = 5 * simtime_s"
proof -
  have o: "off 1000 1101 < off 1000 2101" by (simp add: off_def)
  have f: "next_persist_factor (ta_persist_factor tcp_alg_new) = 1" "tc_now demo_sender = 0"
    by (simp_all add: next_persist_factor_def tcp_alg_new_def) (simp add: demo_sender_def demo_conn_def)
  let ?g = "next_persist_factor (ta_persist_factor (tc_alg demo_sender))"
  have g: "?g = 1" using f demo_sender_fields by simp
  have t: "uint ?g * 3 * simtime_s div 2 = 3 * simtime_s div 2" unfolding g by simp
  from persist_timer_probes[OF demo_sender_ok, where fl = Reno and ?env0.0 = quiet_env, unfolded Let_def t] obtain c' new where
    1: "te_algorithmTimer (alg_env Reno quiet_env) PersistTimer demo_sender = Inr (TCP_E_IGNORE, c')" "segments c' = new"
      "\<exists>s. new = [s] \<and> tg_seq s = 1101 \<and> tg_len s = 1" "ta_persistTimer (tc_alg c') = Some (tc_now demo_sender + 3 * simtime_s div 2)"
      "ta_rexmit_timeout (tc_alg c') = 5 * simtime_s"
    using o by (auto simp: demo_sender_fields simtime_s_def)
  then obtain s where "new = [s]" "tg_seq s = 1101" "tg_len s = 1" by blast
  with 1 f show ?thesis by (intro exI[of _ c'] exI[of _ s]) simp
qed

end
