(* ===== verification/AmTxQueue.thy ===== *)
theory AmTxQueue
  imports UmFragbuf Timers
begin

text \<open>
  The transmission queue of the acknowledged mode of the RLC layer
  (\<^verbatim>\<open>simulte/src/stack/rlc/am/buffer/AmTxQueue.cc\<close>): it cuts SDUs into PDUs that it sends within a
  window, sends a PDU again when its timer expires, gives up an SDU after a number of
  transmissions, and moves the window of both ends with numbered commands.

  Every operation appends what it sends, and its calls to the simulation kernel, to the outputs of
  the state.  The arrays of the simulation library are lists of optional elements that grow on
  demand; \<open>slot\<close> stands for the position at which \<open>cArray::add\<close> puts an element.
\<close>

section \<open>Packets and descriptors\<close>

datatype am_type = AM_DATA | AM_ACK | AM_MRW | AM_MRW_ACK

record am_pdu =
  ap_amType :: am_type
  ap_txNumber :: u16
  ap_firstSn :: int
  ap_lastSn :: int
  ap_bitmap :: "bool list"
  ap_totalFragments :: u32
  ap_snoFragment :: u32
  ap_snoMainPacket :: u32
  ap_bytes :: int
  ap_sdu :: "rlc_sdu option"
  ap_info :: flow_info

definition isWhole :: "am_pdu \<Rightarrow> bool" where
  "isWhole p \<longleftrightarrow> ap_firstSn p = ap_lastSn p"

text \<open>The first and last number are signed, the number of the fragment is not.\<close>

definition isFirst :: "am_pdu \<Rightarrow> bool" where
  "isFirst p \<longleftrightarrow> (of_int (ap_firstSn p) :: u32) = ap_snoFragment p"

definition isLast :: "am_pdu \<Rightarrow> bool" where
  "isLast p \<longleftrightarrow> (of_int (ap_lastSn p) :: u32) = ap_snoFragment p"

definition isMiddle :: "am_pdu \<Rightarrow> bool" where
  "isMiddle p \<longleftrightarrow> \<not> isFirst p \<and> \<not> isLast p"

text \<open>\<open>RlcFragDesc\<close>; \<open>sduSize_\<close> is never set.\<close>

record frag_desc =
  fd_fragUnit :: int
  fd_totalFragments :: int
  fd_fragCounter :: int
  fd_firstSn :: int

definition resetFragmentation :: "frag_desc \<Rightarrow> frag_desc" where
  "resetFragmentation d = d\<lparr>fd_totalFragments := 0, fd_fragCounter := 0, fd_firstSn := 0\<rparr>"

text \<open>The quotient of two integers below \<open>2\<^sup>3\<^sup>2\<close>, rounded up, is computed exactly in a \<open>double\<close>.\<close>

definition startFragmentation :: "u32 \<Rightarrow> u32 \<Rightarrow> frag_desc \<Rightarrow> frag_desc result" where
  "startFragmentation sduSize firstFragment d =
     (if fd_fragUnit d = 0 then Inl (Undefined ''conversion of infinity'')
      else Inr (d\<lparr>fd_totalFragments := - ((- uint sduSize) div fd_fragUnit d), fd_fragCounter := 0,
                  fd_firstSn := sint firstFragment\<rparr>))"

definition addFragment :: "frag_desc \<Rightarrow> bool \<times> frag_desc" where
  "addFragment d = (let d' = d\<lparr>fd_fragCounter := fd_fragCounter d + 1\<rparr>
     in (fd_totalFragments d' \<le> fd_fragCounter d', d'))"

section \<open>Arrays of the simulation library\<close>

definition carr_get :: "'a option list \<Rightarrow> nat \<Rightarrow> 'a option" where
  "carr_get a i = (if i < length a then a ! i else None)"

definition carr_set :: "'a option list \<Rightarrow> nat \<Rightarrow> 'a option \<Rightarrow> 'a option list" where
  "carr_set a i x = (a @ replicate (Suc i - length a) None)[i := x]"

definition carr_addAt :: "nat \<Rightarrow> 'a \<Rightarrow> 'a option list \<Rightarrow> 'a option list result" where
  "carr_addAt i x a = (if carr_get a i \<noteq> None then Inl (RuntimeError ''addAt: position already used'')
     else Inr (carr_set a i (Some x)))"

definition carr_remove :: "nat \<Rightarrow> 'a option list \<Rightarrow> 'a option list" where
  "carr_remove i a = carr_set a i None"

lemma carr_get_set [simp]: "carr_get (carr_set a i x) j = (if i = j then x else carr_get a j)"
  by (auto simp: carr_get_def carr_set_def nth_list_update nth_append)

text \<open>What is relied on of \<open>add\<close>: it takes the first free position.\<close>

definition slot_law :: "(am_pdu option list \<Rightarrow> nat) \<Rightarrow> bool" where
  "slot_law slot \<longleftrightarrow> (\<forall>a i. carr_get a i = None \<longrightarrow> (\<forall>j < i. carr_get a j \<noteq> None) \<longrightarrow> slot a = i)"

section \<open>The queue\<close>

text \<open>The sequence number of the timers of the three kinds tells their calls apart.\<close>

datatype am_out =
    SendDown am_pdu
  | PduTimerCall kernel_call
  | MrwTimerCall kernel_call
  | StatusTimerCall kernel_call

record am_tx =
  at_currentSdu :: "(rlc_sdu \<times> flow_info) option"
  at_fragDesc :: frag_desc
  at_lteInfo :: "flow_info option"
  at_sduQueue :: "(rlc_sdu \<times> flow_info) list"
  at_pduRtxQueue :: "am_pdu option list"
  at_mrwRtxQueue :: "am_pdu option list"
  at_received :: "bool list"
  at_discarded :: "bool list"
  at_firstSeqNum :: u32
  at_seqNum :: u32
  at_windowSize :: u32
  at_mrwSeqNum :: u32
  at_lastMrw :: u32
  at_pduTimer :: multi_timer
  at_mrwTimer :: multi_timer
  at_bufferStatusTimer :: ttimer
  at_maxRtx :: int
  at_pduRtxTimeout :: int
  at_ctrlPduRtxTimeout :: int
  at_bufferStatusTimeout :: int
  at_out :: "am_out list"

definition PDU_T :: u32 where "PDU_T = 0"
definition MRW_T :: u32 where "MRW_T = 1"
definition BUFFER_T :: u32 where "BUFFER_T = 2"
definition BUFFERSTATUS_T :: u32 where "BUFFERSTATUS_T = 3"

text \<open>The constructor and \<open>initialize\<close>, with the parameters of the module.\<close>

definition am_tx_new :: "int \<Rightarrow> int \<Rightarrow> int \<Rightarrow> int \<Rightarrow> int \<Rightarrow> u32 \<Rightarrow> am_tx" where
  "am_tx_new maxRtx fragmentSize pduRtxTimeout ctrlPduRtxTimeout bufferStatusTimeout txWindowSize =
     \<lparr>at_currentSdu = None,
      at_fragDesc = \<lparr>fd_fragUnit = fragmentSize, fd_totalFragments = 0, fd_fragCounter = 0, fd_firstSn = 0\<rparr>,
      at_lteInfo = None, at_sduQueue = [], at_pduRtxQueue = [], at_mrwRtxQueue = [],
      at_received = replicate (unat txWindowSize) False, at_discarded = replicate (unat txWindowSize) False,
      at_firstSeqNum = 0, at_seqNum = 0, at_windowSize = txWindowSize, at_mrwSeqNum = 0, at_lastMrw = 0,
      at_pduTimer = mt_setTimerId PDU_T mt_new, at_mrwTimer = mt_setTimerId MRW_T mt_new,
      at_bufferStatusTimer = tt_setTimerId BUFFER_T tt_new, at_maxRtx = maxRtx,
      at_pduRtxTimeout = pduRtxTimeout, at_ctrlPduRtxTimeout = ctrlPduRtxTimeout,
      at_bufferStatusTimeout = bufferStatusTimeout, at_out = []\<rparr>"

definition am_emit :: "am_out list \<Rightarrow> am_tx \<Rightarrow> am_tx" where
  "am_emit os q = q\<lparr>at_out := at_out q @ os\<rparr>"

definition sendPdu :: "am_pdu \<Rightarrow> am_tx \<Rightarrow> am_tx" where
  "sendPdu pdu q = am_emit [SendDown pdu] q"

text \<open>The timers, with their calls among the outputs.\<close>

definition pdu_timer_add :: "simtime \<Rightarrow> u32 \<Rightarrow> am_tx \<Rightarrow> am_tx result" where
  "pdu_timer_add now ev q = bindE (mt_add now (at_pduRtxTimeout q * simtime_s) ev (at_pduTimer q)) (\<lambda>(t, calls).
     Inr (am_emit (map PduTimerCall calls) (q\<lparr>at_pduTimer := t\<rparr>)))"

text \<open>\<open>if (busy(ev)) remove(ev)\<close>\<close>

definition pdu_timer_cancel :: "u32 \<Rightarrow> am_tx \<Rightarrow> am_tx result" where
  "pdu_timer_cancel ev q = (if mt_busyEvent ev (at_pduTimer q)
     then bindE (mt_remove ev (at_pduTimer q)) (\<lambda>(t, calls).
            Inr (am_emit (map PduTimerCall calls) (q\<lparr>at_pduTimer := t\<rparr>)))
     else Inr q)"

definition mrw_timer_add :: "simtime \<Rightarrow> u32 \<Rightarrow> am_tx \<Rightarrow> am_tx result" where
  "mrw_timer_add now ev q = bindE (mt_add now (at_ctrlPduRtxTimeout q * simtime_s) ev (at_mrwTimer q)) (\<lambda>(t, calls).
     Inr (am_emit (map MrwTimerCall calls) (q\<lparr>at_mrwTimer := t\<rparr>)))"

definition mrw_timer_cancel :: "u32 \<Rightarrow> am_tx \<Rightarrow> am_tx result" where
  "mrw_timer_cancel ev q = (if mt_busyEvent ev (at_mrwTimer q)
     then bindE (mt_remove ev (at_mrwTimer q)) (\<lambda>(t, calls).
            Inr (am_emit (map MrwTimerCall calls) (q\<lparr>at_mrwTimer := t\<rparr>)))
     else Inr q)"

definition status_timer_start :: "simtime \<Rightarrow> am_tx \<Rightarrow> am_tx" where
  "status_timer_start now q = (if tt_busy (at_bufferStatusTimer q) then q
     else case tt_startOp now (at_bufferStatusTimeout q * simtime_s) (at_bufferStatusTimer q) of (t, calls) \<Rightarrow>
       am_emit (map StatusTimerCall calls) (q\<lparr>at_bufferStatusTimer := t\<rparr>))"

section \<open>Adding PDUs\<close>

text \<open>The next SDU, if none is being fragmented.\<close>

definition next_sdu :: "am_tx \<Rightarrow> am_tx result" where
  "next_sdu q = (case at_currentSdu q of
      Some _ \<Rightarrow> Inr q
    | None \<Rightarrow> (case at_sduQueue q of
        [] \<Rightarrow> Inl (RuntimeError ''cPacketQueue: pop from an empty queue'')
      | (sdu, info) # rest \<Rightarrow>
          bindE (startFragmentation (of_int (rs_bytes sdu)) (at_seqNum q) (at_fragDesc q)) (\<lambda>d.
            Inr (q\<lparr>at_currentSdu := Some (sdu, info), at_sduQueue := rest, at_fragDesc := d,
                   at_lteInfo := Some info\<rparr>))))"

definition data_pdu :: "rlc_sdu \<Rightarrow> flow_info \<Rightarrow> am_tx \<Rightarrow> am_pdu" where
  "data_pdu sdu lteInfo q = (let d = at_fragDesc q in
     \<lparr>ap_amType = AM_DATA, ap_txNumber = 0, ap_firstSn = fd_firstSn d,
      ap_lastSn = to_int32 (fd_firstSn d + fd_totalFragments d - 1), ap_bitmap = [],
      ap_totalFragments = of_int (fd_totalFragments d), ap_snoFragment = at_seqNum q,
      ap_snoMainPacket = rs_snoMainPacket sdu, ap_bytes = fd_fragUnit d, ap_sdu = Some sdu,
      ap_info = lteInfo\<rparr>)"

definition store_pdu :: "am_pdu \<Rightarrow> am_tx \<Rightarrow> am_tx result" where
  "store_pdu pdu q = (let i = unat (at_seqNum q - at_firstSeqNum q) in
     if carr_get (at_pduRtxQueue q) i \<noteq> None
     then Inl (RuntimeError ''AmTxQueue::addPdus(): trying to add a PDU to a busy position'')
     else bindE (carr_addAt i pdu (at_pduRtxQueue q)) (\<lambda>a.
          bindE (vec_at (at_received q) i) (\<lambda>r.
          bindE (if r then Inr True else vec_at (at_discarded q) i) (\<lambda>marked.
          if marked then Inl (RuntimeError ''AmTxQueue::addPdus(): trying to add a PDU to a marked position'')
          else Inr (q\<lparr>at_pduRtxQueue := a\<rparr>)))))"

definition add_one_pdu :: "simtime \<Rightarrow> am_tx \<Rightarrow> am_tx result" where
  "add_one_pdu now q0 = bindE (next_sdu q0) (\<lambda>q.
     case (at_currentSdu q, at_lteInfo q) of
       (Some (sdu, _), Some lteInfo) \<Rightarrow>
         (let pdu = data_pdu sdu lteInfo q in
          bindE (store_pdu pdu q) (\<lambda>q1.
          bindE (pdu_timer_add now (at_seqNum q1) q1) (\<lambda>q2.
          let (complete, d) = addFragment (at_fragDesc q2);
              q3 = (if complete then q2\<lparr>at_fragDesc := resetFragmentation d, at_currentSdu := None\<rparr>
                    else q2\<lparr>at_fragDesc := d\<rparr>);
              q4 = q3\<lparr>at_seqNum := at_seqNum q3 + 1\<rparr>
          in Inr (sendPdu pdu (status_timer_start now q4)))))
     | _ \<Rightarrow> Inl (Undefined ''null pointer''))"

text \<open>
  The loop, with a bound on its rounds: each adds a PDU to the window, so it ends after at most
  \<open>windowSize_\<close> of them.
\<close>

fun add_pdus_loop :: "nat \<Rightarrow> simtime \<Rightarrow> am_tx \<Rightarrow> am_tx result" where
  "add_pdus_loop 0 now q = Inr q"
| "add_pdus_loop (Suc n) now q =
     (if at_seqNum q - at_firstSeqNum q < at_windowSize q \<and> \<not> (at_currentSdu q = None \<and> at_sduQueue q = [])
      then bindE (add_one_pdu now q) (add_pdus_loop n now) else Inr q)"

definition addPdus :: "simtime \<Rightarrow> am_tx \<Rightarrow> am_tx result" where
  "addPdus now q = add_pdus_loop (unat (at_windowSize q)) now q"

definition am_enque :: "simtime \<Rightarrow> rlc_sdu \<times> flow_info \<Rightarrow> am_tx \<Rightarrow> am_tx result" where
  "am_enque now sdu q = (let q1 = q\<lparr>at_sduQueue := at_sduQueue q @ [sdu]\<rparr> in
     if at_currentSdu q1 = None \<and> at_seqNum q1 - at_firstSeqNum q1 < at_windowSize q1
     then addPdus now q1 else Inr q1)"

section \<open>Window commands\<close>

text \<open>\<open>seqNum - firstSeqNum_\<close>, stored into an \<open>int\<close>.\<close>

definition tx_index :: "int \<Rightarrow> am_tx \<Rightarrow> int" where
  "tx_index seqNum q = sint (of_int seqNum - at_firstSeqNum q)"

definition tx_count :: "am_tx \<Rightarrow> nat" where
  "tx_count q = unat (at_seqNum q - at_firstSeqNum q)"

definition sendMrw :: "simtime \<Rightarrow> int \<Rightarrow> am_tx \<Rightarrow> am_tx result" where
  "sendMrw now seqNum q = (case at_lteInfo q of
      None \<Rightarrow> Inl (Undefined ''null pointer'')
    | Some lteInfo \<Rightarrow>
        let n = at_mrwSeqNum q;
            pdu = \<lparr>ap_amType = AM_MRW, ap_txNumber = 0, ap_firstSn = 0, ap_lastSn = seqNum, ap_bitmap = [],
              ap_totalFragments = 1, ap_snoFragment = n, ap_snoMainPacket = n,
              ap_bytes = fd_fragUnit (at_fragDesc q), ap_sdu = None, ap_info = lteInfo\<rparr>
        in if sint n < 0 then Inl (RuntimeError ''addAt: negative position'')
           else bindE (carr_addAt (unat n) pdu (at_mrwRtxQueue q)) (\<lambda>a.
                bindE (mrw_timer_add now n (q\<lparr>at_mrwRtxQueue := a, at_lastMrw := n\<rparr>)) (\<lambda>q1.
                Inr (sendPdu pdu (q1\<lparr>at_mrwSeqNum := n + 1\<rparr>)))))"

text \<open>How many PDUs at the start of the window are discarded or received.\<close>

fun mrw_prefix :: "nat list \<Rightarrow> am_tx \<Rightarrow> nat result" where
  "mrw_prefix [] q = Inr 0"
| "mrw_prefix (i # is) q = bindE (vec_at (at_discarded q) i) (\<lambda>d.
     bindE (if d then Inr True else vec_at (at_received q) i) (\<lambda>m.
     if m then bindE (mrw_prefix is q) (\<lambda>n. Inr (Suc n)) else Inr 0))"

definition checkForMrw :: "simtime \<Rightarrow> am_tx \<Rightarrow> am_tx result" where
  "checkForMrw now q = bindE (mrw_prefix [0..<tx_count q] q) (\<lambda>n.
     if n = 0 then Inr q
     else sendMrw now (sint (at_firstSeqNum q + of_nat (n - 1)) + 1) q)"

section \<open>Giving up an SDU\<close>

text \<open>Forward and backward from a position, while the PDUs are of the same SDU.\<close>

fun discard_forward :: "u32 \<Rightarrow> nat list \<Rightarrow> am_tx \<Rightarrow> am_tx result" where
  "discard_forward sno [] q = Inr q"
| "discard_forward sno (i # is) q = (case carr_get (at_pduRtxQueue q) i of
      None \<Rightarrow> Inr q
    | Some nextPdu \<Rightarrow>
        if sno \<noteq> ap_snoMainPacket nextPdu then Inr q
        else bindE (vec_at (at_discarded q) i) (\<lambda>d.
             bindE (if d then Inr q
                    else pdu_timer_cancel (of_nat i + at_firstSeqNum q)
                           (q\<lparr>at_discarded := (at_discarded q)[i := True]\<rparr>))
               (discard_forward sno is)))"

fun discard_backward :: "u32 \<Rightarrow> nat list \<Rightarrow> am_tx \<Rightarrow> am_tx result" where
  "discard_backward sno [] q = Inr q"
| "discard_backward sno (i # is) q = (case carr_get (at_pduRtxQueue q) i of
      None \<Rightarrow> Inl (RuntimeError ''AmTxBuffer::discard(): trying to get access to missing PDU'')
    | Some nextPdu \<Rightarrow>
        if sno \<noteq> ap_snoMainPacket nextPdu then Inr q
        else bindE (vec_at (at_discarded q) i) (\<lambda>d.
             bindE (pdu_timer_cancel (of_nat i + at_firstSeqNum q)
                      (if d then q else q\<lparr>at_discarded := (at_discarded q)[i := True]\<rparr>))
               (discard_backward sno is)))"

definition am_discard :: "simtime \<Rightarrow> int \<Rightarrow> am_tx \<Rightarrow> am_tx result" where
  "am_discard now seqNum q = (let txWindowIndex = tx_index seqNum q in
     if txWindowIndex < 0 \<or> at_windowSize q \<le> of_int txWindowIndex
     then Inl (RuntimeError ''AmTxQueue::discard(): requested to discard an out of window PDU'')
     else let i = nat txWindowIndex in
       bindE (vec_at (at_discarded q) i) (\<lambda>d.
       let q1 = (if d then q else q\<lparr>at_discarded := (at_discarded q)[i := True]\<rparr>) in
       case carr_get (at_pduRtxQueue q1) i of
         None \<Rightarrow> Inl (RuntimeError ''check_and_cast: null pointer'')
       | Some pdu \<Rightarrow>
           bindE (pdu_timer_cancel (of_int seqNum) q1) (\<lambda>q2.
           bindE (discard_forward (ap_snoMainPacket pdu) [Suc i..<tx_count q2] q2) (\<lambda>q3.
           bindE (discard_backward (ap_snoMainPacket pdu) (rev [0..<i]) q3) (checkForMrw now)))))"

section \<open>Moving the window\<close>

definition drop_pdu :: "nat \<Rightarrow> am_tx \<Rightarrow> am_tx result" where
  "drop_pdu i q = (if carr_get (at_pduRtxQueue q) i = None
     then Inl (RuntimeError ''AmTxQueue::moveTxWindow(): encountered empty PDU'')
     else bindE (pdu_timer_cancel (of_nat i + at_firstSeqNum q)
                   (q\<lparr>at_pduRtxQueue := carr_remove i (at_pduRtxQueue q)\<rparr>)) (\<lambda>q1.
          bindE (vec_put (at_received q1) i False) (\<lambda>r.
          bindE (vec_put (at_discarded q1) i False) (\<lambda>d.
          Inr (q1\<lparr>at_received := r, at_discarded := d\<rparr>)))))"

definition shift_pdu :: "nat \<Rightarrow> nat \<Rightarrow> am_tx \<Rightarrow> am_tx result" where
  "shift_pdu pos i q = (case carr_get (at_pduRtxQueue q) i of
      None \<Rightarrow> Inl (RuntimeError ''AmTxQueue::moveTxWindow(): encountered empty PDU'')
    | Some pdu \<Rightarrow>
        bindE (carr_addAt (i - pos) pdu (carr_remove i (at_pduRtxQueue q))) (\<lambda>a.
        bindE (vec_at (at_received q) i) (\<lambda>ri.
        bindE (vec_put (at_received q) (i - pos) ri) (\<lambda>r1.
        bindE (vec_at (at_discarded q) i) (\<lambda>di.
        bindE (vec_put (at_discarded q) (i - pos) di) (\<lambda>d1.
        bindE (vec_put r1 i False) (\<lambda>r2.
        bindE (vec_put d1 i False) (\<lambda>d2.
        Inr (q\<lparr>at_pduRtxQueue := a, at_received := r2, at_discarded := d2\<rparr>)))))))))"

definition clean_position :: "nat \<Rightarrow> am_tx \<Rightarrow> am_tx result" where
  "clean_position i q = (if carr_get (at_pduRtxQueue q) i \<noteq> None
     then Inl (RuntimeError ''AmTxQueue::moveTxWindow(): encountered busy PDU'')
     else bindE (vec_put (at_received q) i False) (\<lambda>r.
          bindE (vec_put (at_discarded q) i False) (\<lambda>d.
          Inr (q\<lparr>at_received := r, at_discarded := d\<rparr>))))"

definition moveTxWindow :: "simtime \<Rightarrow> int \<Rightarrow> am_tx \<Rightarrow> am_tx result" where
  "moveTxWindow now seqNum q = (let pos = tx_index seqNum q in
     if pos \<le> 0 then Inr q
     else bindE (foldE drop_pdu [0..<nat pos] q) (\<lambda>q1.
          bindE (foldE (shift_pdu (nat pos)) [nat pos..<tx_count q1] q1) (\<lambda>q2.
          bindE (foldE clean_position [tx_count q2..<unat (at_windowSize q2)] q2) (\<lambda>q3.
          addPdus now (q3\<lparr>at_firstSeqNum := at_firstSeqNum q3 + of_int pos\<rparr>)))))"

section \<open>Reports of the receiver\<close>

text \<open>Mark a position received and stop its timer, unless it is marked.\<close>

definition ack_position :: "nat \<Rightarrow> am_tx \<Rightarrow> am_tx result" where
  "ack_position i q = bindE (vec_at (at_received q) i) (\<lambda>r.
     if r then Inr q
     else bindE (pdu_timer_cancel (of_nat i + at_firstSeqNum q) q) (\<lambda>q1.
          Inr (q1\<lparr>at_received := (at_received q1)[i := True]\<rparr>)))"

definition recvAck :: "int \<Rightarrow> am_tx \<Rightarrow> am_tx result" where
  "recvAck seqNum q = (let index = tx_index seqNum q in
     if index < 0 then Inr q
     else if at_windowSize q \<le> of_int index
     then Inl (RuntimeError ''AmTxBuffer::recvAck(): ACK greater than window size'')
     else ack_position (nat index) q)"

text \<open>The bound of the loop is unsigned.\<close>

definition recvCumulativeAck :: "simtime \<Rightarrow> int \<Rightarrow> am_tx \<Rightarrow> am_tx result" where
  "recvCumulativeAck now seqNum q =
     (if (of_int seqNum :: u32) < at_firstSeqNum q \<or> seqNum < 0 then Inr q
      else if at_firstSeqNum q + at_windowSize q < of_int seqNum
      then Inl (RuntimeError ''AmTxQueue::recvCumulativeAck(): SN exceeds window size'')
      else bindE (foldE ack_position [0..<Suc (unat (of_int seqNum - at_firstSeqNum q))] q) (checkForMrw now))"

definition recvMrwAck :: "int \<Rightarrow> am_tx \<Rightarrow> am_tx result" where
  "recvMrwAck seqNum q = (if seqNum < 0 \<or> carr_get (at_mrwRtxQueue q) (nat seqNum) = None then Inr q
     else mrw_timer_cancel (of_int seqNum) (q\<lparr>at_mrwRtxQueue := carr_remove (nat seqNum) (at_mrwRtxQueue q)\<rparr>))"

definition handleControlPacket :: "simtime \<Rightarrow> am_pdu \<Rightarrow> am_tx \<Rightarrow> am_tx result" where
  "handleControlPacket now pdu q = (case ap_amType pdu of
      AM_MRW_ACK \<Rightarrow> bindE (moveTxWindow now (sint (ap_snoFragment pdu)) q) (recvMrwAck (sint (ap_snoMainPacket pdu)))
    | AM_ACK \<Rightarrow> bindE (recvCumulativeAck now (ap_lastSn pdu) q)
        (foldE (\<lambda>i q. if ap_bitmap pdu ! i then recvAck (ap_firstSn pdu + int i) q else Inr q)
           [0..<length (ap_bitmap pdu)])
    | AM_DATA \<Rightarrow> Inr q
    | AM_MRW \<Rightarrow> Inr q)"

section \<open>Timers\<close>

definition pduTimerHandle :: "(am_pdu option list \<Rightarrow> nat) \<Rightarrow> simtime \<Rightarrow> int \<Rightarrow> am_tx \<Rightarrow> am_tx result" where
  "pduTimerHandle slot now sn q0 = (let index = tx_index sn q0 in
     bindE (mt_handle (of_int sn) (at_pduTimer q0)) (\<lambda>(t, calls).
     let q = am_emit (map PduTimerCall calls) (q0\<lparr>at_pduTimer := t\<rparr>) in
     if index < 0 \<or> at_windowSize q \<le> of_int index
     then Inl (RuntimeError ''AmTxQueue::pduTimerHandle(): out of the window'')
     else case carr_get (at_pduRtxQueue q) (nat index) of
       None \<Rightarrow> Inl (RuntimeError ''AmTxQueue::pduTimerHandle(): PDU not found'')
     | Some pdu \<Rightarrow>
         bindE (vec_at (at_received q) (nat index)) (\<lambda>r.
         if r then Inl (RuntimeError ''AmTxQueue::pduTimerHandle(): already received'')
         else let nextTxNumber = uint (ap_txNumber pdu) + 1 in
           if at_maxRtx q < nextTxNumber then am_discard now sn q
           else let a = carr_remove (nat index) (at_pduRtxQueue q);
                    pdu' = pdu\<lparr>ap_txNumber := of_int nextTxNumber\<rparr>
                in bindE (pdu_timer_add now (of_int sn) (q\<lparr>at_pduRtxQueue := carr_set a (slot a) (Some pdu')\<rparr>))
                     (\<lambda>q1. Inr (sendPdu pdu' q1)))))"

definition mrwTimerHandle :: "simtime \<Rightarrow> int \<Rightarrow> am_tx \<Rightarrow> am_tx result" where
  "mrwTimerHandle now sn q0 = bindE (mt_handle (of_int sn) (at_mrwTimer q0)) (\<lambda>(t, calls).
     let q = am_emit (map MrwTimerCall calls) (q0\<lparr>at_mrwTimer := t\<rparr>) in
     case (if sn < 0 then None else carr_get (at_mrwRtxQueue q) (nat sn)) of
       None \<Rightarrow> Inl (RuntimeError ''MRW handler: MRW not found in MRW message queue'')
     | Some pdu \<Rightarrow>
         let a = carr_remove (nat sn) (at_mrwRtxQueue q) in
         if of_int sn < at_lastMrw q then Inr (q\<lparr>at_mrwRtxQueue := a\<rparr>)
         else bindE (carr_addAt (nat sn) pdu a) (\<lambda>a'.
              bindE (mrw_timer_add now (of_int sn) (q\<lparr>at_mrwRtxQueue := a'\<rparr>)) (\<lambda>q1.
              Inr (sendPdu pdu q1))))"

definition statusTimerHandle :: "simtime \<Rightarrow> am_tx \<Rightarrow> am_tx result" where
  "statusTimerHandle now q = bindE (checkForMrw now q) (\<lambda>q1.
     Inr (q1\<lparr>at_bufferStatusTimer := tt_handle (at_bufferStatusTimer q1)\<rparr>))"

text \<open>The message of a timer: one of the simple timer, or of the multi-timer with this number.\<close>

datatype timer_kind = TTSIMPLE | TTMULTI

definition am_handleMessage :: "(am_pdu option list \<Rightarrow> nat) \<Rightarrow> simtime \<Rightarrow> timer_kind \<Rightarrow> timer_msg \<Rightarrow> am_tx \<Rightarrow> am_tx result" where
  "am_handleMessage slot now type tmsg q = (case type of
      TTSIMPLE \<Rightarrow> statusTimerHandle now q
    | TTMULTI \<Rightarrow>
        if tm_timerId tmsg = PDU_T then pduTimerHandle slot now (sint (tm_event tmsg)) q
        else if tm_timerId tmsg = MRW_T then mrwTimerHandle now (sint (tm_event tmsg)) q
        else Inl (RuntimeError ''AmTxQueue::handleMessage(): unexpected timer event received''))"

end
