(* ===== verification/AmRxQueue.thy ===== *)
theory AmRxQueue
  imports AmTxQueue UmQueues
begin

text \<open>
  The reception queue of the acknowledged mode of the RLC layer
  (\<^verbatim>\<open>simulte/src/stack/rlc/am/buffer/AmRxQueue.cc\<close>): it buffers the PDUs of its window, looks for
  complete SDUs, reports what it has received and moves its window on command.

  The time between two reports is compared in floating point: \<open>soon now last interval\<close> stands for
  \<open>NOW.dbl() - lastSentAck_.dbl() < ackReportInterval_.dbl()\<close>.  \<open>um_env\<close> tells which nodes have an
  RLC module; the statistics themselves are left out.
\<close>

definition RLC_HEADER_AM :: int where "RLC_HEADER_AM = 2"

section \<open>The queue\<close>

datatype am_rx_out =
    RxSendDown am_pdu
  | RxSendUp pdcp_pdu flow_info
  | RxRoute am_pdu
  | RxTimerCall kernel_call

record am_rx =
  ar_firstSeqNum :: u32
  ar_seqNum :: u32
  ar_windowSize :: u32
  ar_ackReportInterval :: simtime
  ar_lastSentAck :: simtime
  ar_statusReportInterval :: simtime
  ar_firstSdu :: int
  ar_timer :: ttimer
  ar_pduBuffer :: "am_pdu option list"
  ar_received :: "bool list"
  ar_discarded :: "bool list"
  ar_flowControlInfo :: "flow_info option"
  ar_out :: "am_rx_out list"

record am_rx_env =
  ae_soon :: "simtime \<Rightarrow> simtime \<Rightarrow> simtime \<Rightarrow> bool"
  ae_nodes :: um_env

definition am_rx_new :: "u32 \<Rightarrow> simtime \<Rightarrow> simtime \<Rightarrow> am_rx" where
  "am_rx_new rxWindowSize ackReportInterval statusReportInterval =
     \<lparr>ar_firstSeqNum = 0, ar_seqNum = 0, ar_windowSize = rxWindowSize, ar_ackReportInterval = ackReportInterval,
      ar_lastSentAck = 0, ar_statusReportInterval = statusReportInterval, ar_firstSdu = 0,
      ar_timer = tt_setTimerId BUFFERSTATUS_T tt_new, ar_pduBuffer = [],
      ar_received = replicate (unat rxWindowSize) False, ar_discarded = replicate (unat rxWindowSize) False,
      ar_flowControlInfo = None, ar_out = []\<rparr>"

definition rx_emit :: "am_rx_out list \<Rightarrow> am_rx \<Rightarrow> am_rx" where
  "rx_emit os r = r\<lparr>ar_out := ar_out r @ os\<rparr>"

definition rx_timer_start :: "simtime \<Rightarrow> am_rx \<Rightarrow> am_rx" where
  "rx_timer_start now r = (case tt_startOp now (ar_statusReportInterval r) (ar_timer r) of (t, calls) \<Rightarrow>
     rx_emit (map RxTimerCall calls) (r\<lparr>ar_timer := t\<rparr>))"

text \<open>\<open>check_and_cast\<close> of the element at a position throws when there is none.\<close>

definition rx_pdu :: "int \<Rightarrow> am_rx \<Rightarrow> am_pdu result" where
  "rx_pdu i r = (case (if i < 0 then None else carr_get (ar_pduBuffer r) (nat i)) of
      None \<Rightarrow> Inl (RuntimeError ''check_and_cast: null pointer'') | Some p \<Rightarrow> Inr p)"

section \<open>Reports\<close>

text \<open>The loop over the window: the cumulative count, whether a hole was seen, and the bitmap.\<close>

fun report_loop :: "nat list \<Rightarrow> bool list \<Rightarrow> nat \<times> bool \<times> bool list \<Rightarrow> (nat \<times> bool \<times> bool list) result" where
  "report_loop [] rs acc = Inr acc"
| "report_loop (i # is) rs (cumulative, hole, bitmap) = bindE (vec_at rs i) (\<lambda>x.
     if x \<and> \<not> hole then report_loop is rs (cumulative + 1, hole, bitmap)
     else if 0 < cumulative \<or> hole then report_loop is rs (cumulative, True, bitmap @ [x])
     else report_loop is rs (cumulative, hole, bitmap))"

definition am_ctrl_pdu :: "am_type \<Rightarrow> flow_info \<Rightarrow> am_pdu" where
  "am_ctrl_pdu type info = \<lparr>ap_amType = type, ap_txNumber = 0, ap_firstSn = 0, ap_lastSn = 0, ap_bitmap = [],
     ap_totalFragments = 0, ap_snoFragment = 0, ap_snoMainPacket = 0, ap_bytes = RLC_HEADER_AM, ap_sdu = None,
     ap_info = info\<rparr>"

definition sendStatusReport :: "am_rx_env \<Rightarrow> simtime \<Rightarrow> am_rx \<Rightarrow> am_rx result" where
  "sendStatusReport env now r =
     (if ae_soon env now (ar_lastSentAck r) (ar_ackReportInterval r) then Inr r
      else bindE (vec_at (ar_received r) 0) (\<lambda>x0.
           bindE (report_loop [0..<unat (ar_windowSize r)] (ar_received r) (0, \<not> x0, [])) (\<lambda>(cumulative, hole, bitmap).
           if 0 < cumulative \<or> bitmap \<noteq> []
           then (case ar_flowControlInfo r of
                   None \<Rightarrow> Inl (Undefined ''null pointer'')
                 | Some info \<Rightarrow>
                     let lastSn = sint (ar_firstSeqNum r + of_nat cumulative - 1);
                         pdu0 = (am_ctrl_pdu AM_ACK info)\<lparr>ap_lastSn := lastSn\<rparr>;
                         pdu = (if cumulative < unat (ar_windowSize r)
                                then pdu0\<lparr>ap_bitmap := bitmap, ap_firstSn := sint (ar_firstSeqNum r + of_nat cumulative)\<rparr>
                                else pdu0)
                     in Inr (rx_emit [RxSendDown pdu] (r\<lparr>ar_lastSentAck := now\<rparr>)))
           else Inr r)))"

text \<open>The message of the timer.\<close>

definition rx_handleMessage :: "am_rx_env \<Rightarrow> simtime \<Rightarrow> am_rx \<Rightarrow> am_rx result" where
  "rx_handleMessage env now r = bindE (sendStatusReport env now (r\<lparr>ar_timer := tt_handle (ar_timer r)\<rparr>)) (\<lambda>r1.
     Inr (if list_ex (\<lambda>i. carr_get (ar_pduBuffer r1) i \<noteq> None) [0..<unat (ar_windowSize r1)]
          then rx_timer_start now r1 else r1))"

section \<open>Complete SDUs\<close>

definition passUp :: "am_rx_env \<Rightarrow> simtime \<Rightarrow> int \<Rightarrow> am_rx \<Rightarrow> am_rx result" where
  "passUp env now index r = bindE (rx_pdu index r) (\<lambda>pdu.
     case ap_sdu pdu of
       None \<Rightarrow> Inl (Undefined ''null pointer'')
     | Some sdu \<Rightarrow>
         let ci = ap_info pdu; dir = fi_direction ci
         in if dir = UNKNOWN_DIRECTION \<or> \<not> ue_rlc (ae_nodes env) (fi_sourceId ci) \<or> \<not> ue_rlc (ae_nodes env) (fi_destId ci)
            then Inl (Undefined ''null pointer'')
            else sendStatusReport env now (rx_emit [RxSendUp (rs_pdcp sdu) ci] r))"

datatype search = Missing | Found

text \<open>Backward, to the first PDU of the SDU.\<close>

fun backward_search :: "int \<Rightarrow> nat list \<Rightarrow> am_rx \<Rightarrow> search result" where
  "backward_search incomingSdu [] r = Inr Found"
| "backward_search incomingSdu (i # is) r = bindE (vec_at (ar_received r) i) (\<lambda>x.
     if \<not> x then Inr Missing
     else bindE (rx_pdu (int i) r) (\<lambda>tempPdu.
       if sint (ap_snoMainPacket tempPdu) \<noteq> incomingSdu
       then Inl (RuntimeError ''AmRxQueue::checkCompleteSdu(): backward search: fragmentation error'')
       else if isFirst tempPdu then Inr Found
       else if isLast tempPdu \<or> isWhole tempPdu
       then Inl (RuntimeError ''AmRxQueue::checkCompleteSdu(): backward search: sequence error'')
       else backward_search incomingSdu is r))"

text \<open>Forward, to its last; the end of the window counts as found.\<close>

fun forward_search :: "int \<Rightarrow> nat list \<Rightarrow> am_rx \<Rightarrow> search result" where
  "forward_search incomingSdu [] r = Inr Found"
| "forward_search incomingSdu (i # is) r = bindE (vec_at (ar_received r) i) (\<lambda>x.
     if \<not> x then Inr Missing
     else bindE (rx_pdu (int i) r) (\<lambda>tempPdu.
       if sint (ap_snoMainPacket tempPdu) \<noteq> incomingSdu
       then Inl (RuntimeError ''AmRxQueue::checkCompleteSdu(): SDU numbers differ'')
       else if isLast tempPdu then Inr Found
       else if isFirst tempPdu \<or> isWhole tempPdu
       then Inl (RuntimeError ''AmRxQueue::checkCompleteSdu(): forward search: PDU sequencer error'')
       else forward_search incomingSdu is r))"

text \<open>
  After a backward search over the positions before the PDU, \<open>firstIndex\<close> is 0 wherever the search
  stopped; it stays \<open>-1\<close> when the PDU is the first of its SDU.
\<close>

definition checkCompleteSdu :: "am_rx_env \<Rightarrow> simtime \<Rightarrow> nat \<Rightarrow> am_rx \<Rightarrow> am_rx result" where
  "checkCompleteSdu env now index r0 = bindE (rx_pdu (int index) r0) (\<lambda>pdu.
     let incomingSdu = sint (ap_snoMainPacket pdu);
         r = (if ar_firstSdu r0 = - 1 then r0\<lparr>ar_firstSdu := incomingSdu\<rparr> else r0)
     in if isWhole pdu then passUp env now (int index) r
        else bindE (if isFirst pdu then Inr (Found, - 1)
                    else if index = 0
                    then (if ar_firstSdu r = incomingSdu then Inr (Found, 0)
                          else Inl (RuntimeError ''AmRxQueue::checkCompleteSdu(): first SDU error''))
                    else bindE (backward_search incomingSdu (rev [0..<index]) r) (\<lambda>s. Inr (s, 0)))
          (\<lambda>(backward, firstIndex).
          if backward = Missing then Inr r
          else if isLast pdu then passUp env now firstIndex r
          else bindE (forward_search incomingSdu [Suc index..<unat (ar_windowSize r)] r) (\<lambda>s.
               if s = Missing then Inr r else passUp env now firstIndex r)))"

section \<open>The window\<close>

fun rx_drop_loop :: "nat list \<Rightarrow> int \<times> am_pdu option list \<Rightarrow> int \<times> am_pdu option list" where
  "rx_drop_loop [] acc = acc"
| "rx_drop_loop (i # is) (currentSdu, a) = (case carr_get a i of
      None \<Rightarrow> rx_drop_loop is (- 1, a)
    | Some pdu \<Rightarrow> rx_drop_loop is
        (if isLast pdu \<or> isWhole pdu then - 1 else sint (ap_snoMainPacket pdu), carr_remove i a))"

definition rx_shift :: "nat \<Rightarrow> nat \<Rightarrow> am_rx \<Rightarrow> am_rx result" where
  "rx_shift pos i r =
     bindE (case carr_get (ar_pduBuffer r) i of
              None \<Rightarrow> Inr (ar_pduBuffer r)
            | Some pdu \<Rightarrow> carr_addAt (i - pos) pdu (carr_remove i (ar_pduBuffer r))) (\<lambda>a.
     bindE (vec_at (ar_received r) i) (\<lambda>ri.
     bindE (vec_put (ar_received r) (i - pos) ri) (\<lambda>r1.
     bindE (vec_at (ar_discarded r) i) (\<lambda>di.
     bindE (vec_put (ar_discarded r) (i - pos) di) (\<lambda>d1.
     bindE (vec_put r1 i False) (\<lambda>r2.
     bindE (vec_put d1 i False) (\<lambda>d2.
     Inr (r\<lparr>ar_pduBuffer := a, ar_received := r2, ar_discarded := d2\<rparr>))))))))"

definition moveRxWindow :: "int \<Rightarrow> am_rx \<Rightarrow> am_rx result" where
  "moveRxWindow seqNum r = (let pos = sint (of_int seqNum - ar_firstSeqNum r) in
     if pos \<le> 0 then Inr r
     else if ar_windowSize r < of_int pos
     then Inl (RuntimeError ''AmRxQueue::moveRxWindow()'')
     else case rx_drop_loop [0..<nat pos] (ar_firstSdu r, ar_pduBuffer r) of (currentSdu, a) \<Rightarrow>
       bindE (foldE (rx_shift (nat pos)) [nat pos..<unat (ar_windowSize r)] (r\<lparr>ar_pduBuffer := a\<rparr>)) (\<lambda>r1.
       Inr (r1\<lparr>ar_firstSeqNum := ar_firstSeqNum r1 + of_int pos, ar_firstSdu := currentSdu\<rparr>)))"

fun shift_count :: "nat list \<Rightarrow> am_rx \<Rightarrow> nat result" where
  "shift_count [] r = Inr 0"
| "shift_count (i # is) r = bindE (vec_at (ar_received r) i) (\<lambda>x.
     bindE (if x then Inr True else vec_at (ar_discarded r) i) (\<lambda>m.
     if m then bindE (shift_count is r) (\<lambda>n. Inr (Suc n)) else Inr 0))"

definition computeWindowShift :: "am_rx \<Rightarrow> nat result" where
  "computeWindowShift r = shift_count [0..<unat (ar_windowSize r)] r"

definition rx_discard_one :: "nat \<Rightarrow> am_rx \<Rightarrow> am_rx result" where
  "rx_discard_one i r = bindE (vec_put (ar_discarded r) i True) (\<lambda>d.
     if carr_get (ar_pduBuffer r) i = None then Inl (RuntimeError ''AmRxQueue::discard PDU already discarded'')
     else Inr (r\<lparr>ar_discarded := d, ar_pduBuffer := carr_remove i (ar_pduBuffer r)\<rparr>))"

text \<open>The flow of the last PDU discarded tells whose loss is counted.\<close>

definition rx_discard :: "am_rx_env \<Rightarrow> int \<Rightarrow> am_rx \<Rightarrow> am_rx result" where
  "rx_discard env sn r = (let index = sint (of_int sn - ar_firstSeqNum r) in
     if index < 0 \<or> ar_windowSize r \<le> of_int index
     then Inl (RuntimeError ''AmRxQueue::discard PDU out of rx window'')
     else bindE (foldE rx_discard_one [0..<Suc (nat index)] r) (\<lambda>r'.
          bindE (rx_pdu index r) (\<lambda>pdu.
          if fi_direction (ap_info pdu) \<noteq> UNKNOWN_DIRECTION \<and>
             (\<not> ue_rlc (ae_nodes env) (fi_sourceId (ap_info pdu)) \<or> \<not> ue_rlc (ae_nodes env) (fi_destId (ap_info pdu)))
          then Inl (Undefined ''null pointer'') else Inr r')))"

section \<open>Arrival\<close>

text \<open>The control information of the reverse direction; the address of the destination is kept.\<close>

definition reverse_info :: "flow_info \<Rightarrow> flow_info" where
  "reverse_info orig = orig\<lparr>fi_sourceId := fi_destId orig, fi_srcPort := fi_dstPort orig, fi_srcAddr := fi_dstAddr orig,
     fi_destId := fi_sourceId orig, fi_dstPort := fi_srcPort orig, fi_dstAddr := fi_dstAddr orig,
     fi_direction := (if fi_direction orig = DL then UL else DL)\<rparr>"

definition rx_control :: "am_pdu \<Rightarrow> am_rx \<Rightarrow> am_rx result" where
  "rx_control pdu r = (case ap_amType pdu of
      AM_ACK \<Rightarrow> Inr (rx_emit [RxRoute pdu] r)
    | AM_MRW_ACK \<Rightarrow> Inr (rx_emit [RxRoute pdu] r)
    | AM_MRW \<Rightarrow> bindE (moveRxWindow (ap_lastSn pdu) r) (\<lambda>r1.
        case ar_flowControlInfo r1 of
          None \<Rightarrow> Inl (Undefined ''null pointer'')
        | Some info \<Rightarrow> Inr (rx_emit [RxSendDown ((am_ctrl_pdu AM_MRW_ACK info)
            \<lparr>ap_snoMainPacket := ap_snoMainPacket pdu, ap_snoFragment := ar_firstSeqNum r1\<rparr>)] r1))
    | AM_DATA \<Rightarrow> Inl (RuntimeError ''RLC AM - Unknown status PDU''))"

definition rx_data :: "am_rx_env \<Rightarrow> simtime \<Rightarrow> am_pdu \<Rightarrow> am_rx \<Rightarrow> am_rx result" where
  "rx_data env now pdu r0 =
     (let r1 = (if tt_idle (ar_timer r0) then rx_timer_start now r0 else r0);
          r2 = (if ar_flowControlInfo r1 = None then r1\<lparr>ar_flowControlInfo := Some (reverse_info (ap_info pdu))\<rparr> else r1);
          index = sint (ap_snoFragment pdu - ar_firstSeqNum r2)
      in if index < 0 then Inr r2
         else if ar_windowSize r2 \<le> of_int index
         then Inl (RuntimeError ''AmRxQueue::enque(): received PDU out of the window'')
         else bindE (if ap_snoFragment pdu = ar_seqNum r2 then Inr (r2\<lparr>ar_seqNum := ar_seqNum r2 + 1\<rparr>)
                     else sendStatusReport env now (r2\<lparr>ar_seqNum := ap_snoFragment pdu + 1\<rparr>)) (\<lambda>r3.
              bindE (vec_at (ar_received r3) (nat index)) (\<lambda>busy.
              if busy
              then bindE (rx_pdu index r3) (\<lambda>bufferedpdu.
                     if ap_snoMainPacket bufferedpdu = ap_snoMainPacket pdu then Inr r3
                     else Inl (RuntimeError ''AmRxQueue::enque(): the received PDU overlaps with an old one''))
              else bindE (carr_addAt (nat index) pdu (ar_pduBuffer r3)) (\<lambda>a.
                   checkCompleteSdu env now (nat index)
                     (r3\<lparr>ar_pduBuffer := a, ar_received := (ar_received r3)[nat index := True]\<rparr>)))))"

definition rx_enque :: "am_rx_env \<Rightarrow> simtime \<Rightarrow> am_pdu \<Rightarrow> am_rx \<Rightarrow> am_rx result" where
  "rx_enque env now pdu r = (if ap_amType pdu \<noteq> AM_DATA then rx_control pdu r else rx_data env now pdu r)"

end
