(* ===== verification/AmTxWindow.thy ===== *)
theory AmTxWindow
  imports AmTxQueue
begin

text \<open>
  The window of the transmission queue of the acknowledged mode: the invariant that ties the stored
  PDUs, the marks and the timers to the sequence numbers, and what each loop over the window does.
\<close>

lemma nth_list_update_split:
  "xs[i := x] ! j = (if i = j \<and> j < length xs then x else xs ! j)"
  by (cases "i = j"; cases "i < length xs") (simp_all add: list_update_beyond)

section \<open>Outputs\<close>

text \<open>The PDUs among the outputs.\<close>

fun sends :: "am_out list \<Rightarrow> am_pdu list" where
  "sends [] = []"
| "sends (SendDown p # os) = p # sends os"
| "sends (_ # os) = sends os"

lemma sends_append [simp]: "sends (xs @ ys) = sends xs @ sends ys"
  by (induction xs rule: sends.induct) simp_all

lemma sends_none: "(\<forall>p. SendDown p \<notin> set os) \<Longrightarrow> sends os = []"
  by (induction os rule: sends.induct) auto

lemma sends_calls [simp]: "sends (map PduTimerCall cs) = []" "sends (map MrwTimerCall cs) = []" "sends (map StatusTimerCall cs) = []"
  by (rule sends_none, auto)+

section \<open>Timers\<close>

lemma pdu_timer_cancel_ok:
  assumes "mt_ok (at_pduTimer q)"
  shows "\<exists>t os. pdu_timer_cancel ev q = Inr (q\<lparr>at_pduTimer := t, at_out := at_out q @ os\<rparr>) \<and> sends os = [] \<and> mt_ok t \<and>
    mt_abs t = (mt_abs (at_pduTimer q))(ev := None)"
proof (cases "mt_busyEvent ev (at_pduTimer q)")
  case True
  then obtain n where n: "n \<in> set (mt_direct (at_pduTimer q))" "tn_event n = ev"
    using mt_ok_busyEvent[OF assms] by auto
  obtain t calls where "mt_remove ev (at_pduTimer q) = Inr (t, calls)" "mt_ok t"
    "mt_abs t = (mt_abs (at_pduTimer q))(ev := None)"
    using mt_remove_effect[OF assms n(1)] n(2) by auto
  then show ?thesis using True
    by (intro exI[of _ t] exI[of _ "map PduTimerCall calls"]) (simp add: pdu_timer_cancel_def am_emit_def)
next
  case False
  then have "mt_abs (at_pduTimer q) ev = None" using mt_abs_dom[OF assms] by simp
  then have "mt_abs (at_pduTimer q) = (mt_abs (at_pduTimer q))(ev := None)" by (simp add: fun_upd_idem)
  then show ?thesis using False assms
    by (intro exI[of _ "at_pduTimer q"] exI[of _ "[]"]) (simp add: pdu_timer_cancel_def)
qed

lemma mrw_timer_cancel_ok:
  assumes "mt_ok (at_mrwTimer q)"
  shows "\<exists>t os. mrw_timer_cancel ev q = Inr (q\<lparr>at_mrwTimer := t, at_out := at_out q @ os\<rparr>) \<and> sends os = [] \<and> mt_ok t \<and>
    mt_abs t = (mt_abs (at_mrwTimer q))(ev := None)"
proof (cases "mt_busyEvent ev (at_mrwTimer q)")
  case True
  then obtain n where n: "n \<in> set (mt_direct (at_mrwTimer q))" "tn_event n = ev"
    using mt_ok_busyEvent[OF assms] by auto
  obtain t calls where "mt_remove ev (at_mrwTimer q) = Inr (t, calls)" "mt_ok t"
    "mt_abs t = (mt_abs (at_mrwTimer q))(ev := None)"
    using mt_remove_effect[OF assms n(1)] n(2) by auto
  then show ?thesis using True
    by (intro exI[of _ t] exI[of _ "map MrwTimerCall calls"]) (simp add: mrw_timer_cancel_def am_emit_def)
next
  case False
  then have "mt_abs (at_mrwTimer q) ev = None" using mt_abs_dom[OF assms] by simp
  then have "mt_abs (at_mrwTimer q) = (mt_abs (at_mrwTimer q))(ev := None)" by (simp add: fun_upd_idem)
  then show ?thesis using False assms
    by (intro exI[of _ "at_mrwTimer q"] exI[of _ "[]"]) (simp add: mrw_timer_cancel_def)
qed

lemma mt_add_fresh:
  assumes "mt_ok t" "mt_abs t ev = None"
  shows "\<exists>t' calls. mt_add now d ev t = Inr (t', calls) \<and> mt_ok t' \<and> mt_abs t' = (mt_abs t)(ev := Some (now + d))"
proof -
  have b: "\<not> mt_busyEvent ev t" using mt_abs_dom[OF assms(1)] assms(2) by simp
  from mt_add_effect[OF assms(1) b, of now d] obtain t' calls where
    "mt_add now d ev t = Inr (t', calls)" "mt_ok t'"
    "mt_direct t' = node_insert \<lparr>tn_id = mt_nodes t, tn_time = now + d, tn_event = ev\<rparr> (mt_direct t)" by blast
  then show ?thesis using mt_abs_add[OF assms(1) _ b] by blast
qed

lemma pdu_timer_add_ok:
  assumes "mt_ok (at_pduTimer q)" "mt_abs (at_pduTimer q) ev = None"
  shows "\<exists>t os. pdu_timer_add now ev q = Inr (q\<lparr>at_pduTimer := t, at_out := at_out q @ os\<rparr>) \<and> sends os = [] \<and> mt_ok t \<and>
    mt_abs t = (mt_abs (at_pduTimer q))(ev := Some (now + at_pduRtxTimeout q * simtime_s))"
proof -
  obtain t calls where "mt_add now (at_pduRtxTimeout q * simtime_s) ev (at_pduTimer q) = Inr (t, calls)" "mt_ok t"
    "mt_abs t = (mt_abs (at_pduTimer q))(ev := Some (now + at_pduRtxTimeout q * simtime_s))"
    using mt_add_fresh[OF assms] by blast
  then show ?thesis
    by (intro exI[of _ t] exI[of _ "map PduTimerCall calls"]) (simp add: pdu_timer_add_def am_emit_def)
qed

lemma mrw_timer_add_ok:
  assumes "mt_ok (at_mrwTimer q)" "mt_abs (at_mrwTimer q) ev = None"
  shows "\<exists>t os. mrw_timer_add now ev q = Inr (q\<lparr>at_mrwTimer := t, at_out := at_out q @ os\<rparr>) \<and> sends os = [] \<and> mt_ok t \<and>
    mt_abs t = (mt_abs (at_mrwTimer q))(ev := Some (now + at_ctrlPduRtxTimeout q * simtime_s))"
proof -
  obtain t calls where "mt_add now (at_ctrlPduRtxTimeout q * simtime_s) ev (at_mrwTimer q) = Inr (t, calls)" "mt_ok t"
    "mt_abs t = (mt_abs (at_mrwTimer q))(ev := Some (now + at_ctrlPduRtxTimeout q * simtime_s))"
    using mt_add_fresh[OF assms] by blast
  then show ?thesis
    by (intro exI[of _ t] exI[of _ "map MrwTimerCall calls"]) (simp add: mrw_timer_add_def am_emit_def)
qed

section \<open>Sequence numbers\<close>

text \<open>The bounds of the window as numbers, and the sequence number of a position.\<close>

definition tx_first :: "am_tx \<Rightarrow> nat" where
  "tx_first q = unat (at_firstSeqNum q)"

definition tx_size :: "am_tx \<Rightarrow> nat" where
  "tx_size q = unat (at_windowSize q)"

definition tx_sn :: "am_tx \<Rightarrow> nat \<Rightarrow> u32" where
  "tx_sn q i = of_nat i + at_firstSeqNum q"

lemma unat_tx_sn:
  assumes "tx_first q + i < 2 ^ 32" shows "unat (tx_sn q i) = tx_first q + i"
proof -
  have "i < 2 ^ 32" using assms by simp
  then show ?thesis using assms
    unfolding tx_sn_def tx_first_def by (simp add: unat_word_ariths(1) unat_of_nat)
qed

lemma tx_sn_inj:
  "tx_first q + i < 2 ^ 32 \<Longrightarrow> tx_first q + j < 2 ^ 32 \<Longrightarrow> tx_sn q i = tx_sn q j \<longleftrightarrow> i = j"
proof
  assume a: "tx_first q + i < 2 ^ 32" and b: "tx_first q + j < 2 ^ 32" and e: "tx_sn q i = tx_sn q j"
  have "tx_first q + i = tx_first q + j" using arg_cong[OF e, of unat] unfolding unat_tx_sn[OF a] unat_tx_sn[OF b] .
  then show "i = j" by simp
qed simp

lemma uint_first: "uint (at_firstSeqNum q) = int (tx_first q)"
  by (simp add: tx_first_def)

lemma tx_index_eq:
  assumes "0 \<le> sn" "sn < 2 ^ 31" "tx_first q < 2 ^ 31"
  shows "tx_index sn q = sn - int (tx_first q)"
proof -
  have "of_int sn - at_firstSeqNum q = of_int (sn - int (tx_first q))"
    by (simp add: tx_first_def)
  then show ?thesis unfolding tx_index_def using assms by (simp only:) (rule sint_of_int_u32; simp)
qed

lemma sint_u32_small: "unat (w :: u32) < 2 ^ 31 \<Longrightarrow> sint w = int (unat w)"
proof -
  assume "unat w < 2 ^ 31"
  then have "int (unat w) < 2 ^ 31" by (metis of_nat_less_iff of_nat_numeral of_nat_power)
  then have "- (2 ^ 31) \<le> uint w" "uint w < 2 ^ 31" unfolding uint_nat[of w] by linarith+
  from sint_of_int_u32[OF this] show ?thesis by simp
qed

lemma of_int_pos_u32: "0 \<le> x \<Longrightarrow> x < 2 ^ 32 \<Longrightarrow> unat (of_int x :: u32) = nat x"
  by (simp add: unat_eq_nat_uint uint_word_of_int)

lemma tx_in_window:
  assumes "0 \<le> i" "i < 2 ^ 31"
  shows "at_windowSize q \<le> of_int i \<longleftrightarrow> tx_size q \<le> nat i"
  using of_int_pos_u32[of i] assms by (simp add: word_le_nat_alt tx_size_def)

section \<open>The invariant\<close>

text \<open>
  The window holds exactly the PDUs from the first to the next sequence number; a PDU has a running
  timer exactly when it is neither received nor discarded.
\<close>

definition win_ok :: "am_tx \<Rightarrow> bool" where
  "win_ok q \<longleftrightarrow> length (at_received q) = tx_size q \<and> length (at_discarded q) = tx_size q \<and>
     tx_first q + tx_size q < 2 ^ 31 \<and> tx_count q \<le> tx_size q \<and>
     (\<forall>i. carr_get (at_pduRtxQueue q) i \<noteq> None \<longleftrightarrow> i < tx_count q) \<and>
     (\<forall>i < tx_size q. tx_count q \<le> i \<longrightarrow> \<not> at_received q ! i \<and> \<not> at_discarded q ! i)"

definition pending :: "am_tx \<Rightarrow> nat \<Rightarrow> bool" where
  "pending q i \<longleftrightarrow> i < tx_count q \<and> \<not> at_received q ! i \<and> \<not> at_discarded q ! i"

definition pdu_timers_ok :: "am_tx \<Rightarrow> bool" where
  "pdu_timers_ok q \<longleftrightarrow> mt_ok (at_pduTimer q) \<and>
     (\<forall>ev. mt_abs (at_pduTimer q) ev \<noteq> None \<longleftrightarrow> (\<exists>i. pending q i \<and> ev = tx_sn q i))"

text \<open>Every window command that is not answered has a running timer.\<close>

definition mrw_ok :: "am_tx \<Rightarrow> bool" where
  "mrw_ok q \<longleftrightarrow> mt_ok (at_mrwTimer q) \<and>
     (\<forall>ev. mt_abs (at_mrwTimer q) ev \<noteq> None \<longleftrightarrow> carr_get (at_mrwRtxQueue q) (unat ev) \<noteq> None) \<and>
     (\<forall>i. carr_get (at_mrwRtxQueue q) i \<noteq> None \<longrightarrow> i < unat (at_mrwSeqNum q)) \<and> unat (at_mrwSeqNum q) < 2 ^ 31"

definition info_ok :: "am_tx \<Rightarrow> bool" where
  "info_ok q \<longleftrightarrow> fd_fragUnit (at_fragDesc q) \<noteq> 0 \<and>
     (0 < tx_count q \<or> at_currentSdu q \<noteq> None \<longrightarrow> at_lteInfo q \<noteq> None)"

definition am_ok :: "am_tx \<Rightarrow> bool" where
  "am_ok q \<longleftrightarrow> win_ok q \<and> pdu_timers_ok q \<and> mrw_ok q \<and> info_ok q"

lemma am_tx_new_ok:
  assumes "fu \<noteq> 0" "unat w < 2 ^ 31" shows "am_ok (am_tx_new mr fu t1 t2 t3 w)"
  using assms mt_ok_new
  by (simp add: am_ok_def win_ok_def pdu_timers_ok_def mrw_ok_def info_ok_def am_tx_new_def tx_size_def tx_first_def
      tx_count_def pending_def carr_get_def mt_setTimerId_def mt_ok_def mt_new_def nodes_sorted_def mt_abs_def mt_events_def)

lemma seqNum_eq: "at_seqNum q = tx_sn q (tx_count q)"
  by (simp add: tx_sn_def tx_count_def)

lemma pending_less: "win_ok q \<Longrightarrow> pending q i \<Longrightarrow> tx_first q + i < 2 ^ 32"
  by (auto simp: win_ok_def pending_def)

section \<open>Marking one position\<close>

text \<open>
  A position is marked received or discarded and its timer cancelled: the invariant holds again,
  and only this position, the timer and the outputs have changed.
\<close>

definition same_window :: "am_tx \<Rightarrow> am_tx \<Rightarrow> bool" where
  "same_window q q' \<longleftrightarrow> (\<exists>r d t os. q' = q\<lparr>at_received := r, at_discarded := d, at_pduTimer := t, at_out := at_out q @ os\<rparr> \<and> sends os = [])"

lemma same_window_refl: "same_window q q"
  unfolding same_window_def
  by (intro exI[of _ "at_received q"] exI[of _ "at_discarded q"] exI[of _ "at_pduTimer q"] exI[of _ "[]"]) simp

lemma same_window_trans: "same_window q1 q2 \<Longrightarrow> same_window q2 q3 \<Longrightarrow> same_window q1 q3"
  unfolding same_window_def
proof (elim exE conjE)
  fix r d t os r' d' t' os'
  assume "q2 = q1\<lparr>at_received := r, at_discarded := d, at_pduTimer := t, at_out := at_out q1 @ os\<rparr>" "sends os = []"
    "q3 = q2\<lparr>at_received := r', at_discarded := d', at_pduTimer := t', at_out := at_out q2 @ os'\<rparr>" "sends os' = []"
  then show "\<exists>r d t os. q3 = q1\<lparr>at_received := r, at_discarded := d, at_pduTimer := t, at_out := at_out q1 @ os\<rparr> \<and> sends os = []"
    by (intro exI[of _ r'] exI[of _ d'] exI[of _ t'] exI[of _ "os @ os'"]) simp
qed

lemma same_window_simps:
  assumes "same_window q q'"
  shows "at_pduRtxQueue q' = at_pduRtxQueue q" "at_firstSeqNum q' = at_firstSeqNum q" "at_seqNum q' = at_seqNum q"
    "at_windowSize q' = at_windowSize q" "tx_count q' = tx_count q" "tx_size q' = tx_size q" "tx_first q' = tx_first q"
    "tx_sn q' = tx_sn q" "mrw_ok q' = mrw_ok q" "info_ok q' = info_ok q" "at_mrwSeqNum q' = at_mrwSeqNum q"
    "at_lteInfo q' = at_lteInfo q" "sends (at_out q') = sends (at_out q)"
  using assms unfolding same_window_def
  by (elim exE conjE, simp add: tx_count_def tx_size_def tx_first_def tx_sn_def[abs_def] mrw_ok_def info_ok_def)+

text \<open>The timer of position \<open>i\<close> itself may or may not run.\<close>

definition timers_but :: "nat \<Rightarrow> am_tx \<Rightarrow> bool" where
  "timers_but i q \<longleftrightarrow> mt_ok (at_pduTimer q) \<and>
     (\<forall>ev. ev \<noteq> tx_sn q i \<longrightarrow> (mt_abs (at_pduTimer q) ev \<noteq> None \<longleftrightarrow> (\<exists>i. pending q i \<and> ev = tx_sn q i)))"

lemma pdu_timers_ok_but: "pdu_timers_ok q \<Longrightarrow> timers_but i q"
  by (simp add: pdu_timers_ok_def timers_but_def)

lemma mark_position_but:
  assumes ok: "win_ok q" "timers_but i q" and i: "i < tx_count q"
    and q1: "q1 = q\<lparr>at_received := (if b then (at_received q)[i := True] else at_received q),
                   at_discarded := (if b then at_discarded q else (at_discarded q)[i := True])\<rparr>"
  shows "\<exists>q'. pdu_timer_cancel (tx_sn q i) q1 = Inr q' \<and> win_ok q' \<and> pdu_timers_ok q' \<and> same_window q q' \<and>
    at_received q' = at_received q1 \<and> at_discarded q' = at_discarded q1"
proof -
  have m: "mt_ok (at_pduTimer q1)" using ok(2) by (simp add: timers_but_def q1)
  from pdu_timer_cancel_ok[OF m, of "tx_sn q i"] obtain t os where
    t: "pdu_timer_cancel (tx_sn q i) q1 = Inr (q1\<lparr>at_pduTimer := t, at_out := at_out q1 @ os\<rparr>)" "mt_ok t" "sends os = []"
      "mt_abs t = (mt_abs (at_pduTimer q))(tx_sn q i := None)" by (auto simp: q1)
  define q' where "q' = q1\<lparr>at_pduTimer := t, at_out := at_out q1 @ os\<rparr>"
  have sw: "same_window q q'" unfolding same_window_def q'_def q1
    by (intro exI[of _ "if b then (at_received q)[i := True] else at_received q"]
        exI[of _ "if b then at_discarded q else (at_discarded q)[i := True]"] exI[of _ t] exI[of _ os]) (simp add: t(3))
  note sws = same_window_simps[OF sw]
  have rd: "at_received q' = at_received q1" "at_discarded q' = at_discarded q1" by (simp_all add: q'_def)
  have il: "i < tx_size q" using ok(1) i by (simp add: win_ok_def)
  have len: "i < length (at_received q)" "i < length (at_discarded q)" using il ok(1) by (simp_all add: win_ok_def)
  have p: "pending q' j \<longleftrightarrow> pending q j \<and> j \<noteq> i" for j
    unfolding pending_def sws rd q1 using len by (cases "j = i"; cases b) simp_all
  have "length (at_received q1) = length (at_received q)" "length (at_discarded q1) = length (at_discarded q)"
    "\<forall>j. j \<noteq> i \<longrightarrow> at_received q1 ! j = at_received q ! j \<and> at_discarded q1 ! j = at_discarded q ! j"
    by (simp_all add: q1)
  then have "win_ok q'"
    using ok(1) i unfolding win_ok_def sws rd by (metis leD)
  moreover have "pdu_timers_ok q'"
    unfolding pdu_timers_ok_def sws
  proof (intro conjI allI)
    show "mt_ok (at_pduTimer q')" using t(2) by (simp add: q'_def)
    fix ev
    have "mt_abs (at_pduTimer q') ev \<noteq> None \<longleftrightarrow> mt_abs (at_pduTimer q) ev \<noteq> None \<and> ev \<noteq> tx_sn q i"
      by (simp add: q'_def t(4))
    also have "\<dots> \<longleftrightarrow> (\<exists>j. pending q j \<and> ev = tx_sn q j) \<and> ev \<noteq> tx_sn q i"
      using ok(2) unfolding timers_but_def by blast
    also have "\<dots> \<longleftrightarrow> (\<exists>j. pending q' j \<and> ev = tx_sn q j)"
    proof -
      have key: "tx_sn q j = tx_sn q i \<longleftrightarrow> j = i" if "pending q j" for j
        using tx_sn_inj[of q j i] pending_less[OF ok(1) that] il ok(1) by (simp add: win_ok_def)
      show ?thesis unfolding p using key by (intro iffI; elim exE conjE) (simp, metis)+
    qed
    finally show "(mt_abs (at_pduTimer q') ev \<noteq> None) = (\<exists>j. pending q' j \<and> ev = tx_sn q j)" .
  qed
  ultimately show ?thesis using t(1) sw rd unfolding q'_def[symmetric] by blast
qed

lemma mark_position:
  assumes "win_ok q" "pdu_timers_ok q" "i < tx_count q"
    and "q1 = q\<lparr>at_received := (if b then (at_received q)[i := True] else at_received q),
                   at_discarded := (if b then at_discarded q else (at_discarded q)[i := True])\<rparr>"
  shows "\<exists>q'. pdu_timer_cancel (tx_sn q i) q1 = Inr q' \<and> win_ok q' \<and> pdu_timers_ok q' \<and> same_window q q' \<and>
    at_received q' = at_received q1 \<and> at_discarded q' = at_discarded q1"
  by (rule mark_position_but[OF assms(1) pdu_timers_ok_but[OF assms(2)] assms(3,4)])

section \<open>Acknowledgments\<close>

lemma ack_position_ok:
  assumes ok: "win_ok q" "pdu_timers_ok q" and i: "i < tx_count q"
  shows "\<exists>q'. ack_position i q = Inr q' \<and> win_ok q' \<and> pdu_timers_ok q' \<and> same_window q q' \<and>
    at_received q' = (at_received q)[i := True] \<and> at_discarded q' = at_discarded q"
proof -
  have il: "i < length (at_received q)" using ok(1) i by (simp add: win_ok_def)
  show ?thesis
  proof (cases "at_received q ! i")
    case True
    then have "(at_received q)[i := True] = at_received q" by (metis list_update_id)
    then show ?thesis using True ok il same_window_refl[of q] by (intro exI[of _ q]) (simp add: ack_position_def vec_at_ok)
  next
    case False
    from mark_position[OF ok i, where b = True, OF refl]
    obtain q1 where q1: "pdu_timer_cancel (tx_sn q i) (q\<lparr>at_received := (at_received q)[i := True]\<rparr>) = Inr q1"
      "win_ok q1" "pdu_timers_ok q1" "same_window q q1" "at_received q1 = (at_received q)[i := True]" "at_discarded q1 = at_discarded q"
      by auto
    have m: "mt_ok (at_pduTimer q)" using ok(2) by (simp add: pdu_timers_ok_def)
    from pdu_timer_cancel_ok[OF m, of "tx_sn q i"] obtain t os where
      t: "pdu_timer_cancel (tx_sn q i) q = Inr (q\<lparr>at_pduTimer := t, at_out := at_out q @ os\<rparr>)" by blast
    have "pdu_timer_cancel (tx_sn q i) (q\<lparr>at_received := (at_received q)[i := True]\<rparr>)
        = bindE (pdu_timer_cancel (tx_sn q i) q) (\<lambda>q. Inr (q\<lparr>at_received := (at_received q)[i := True]\<rparr>))"
      by (simp add: pdu_timer_cancel_def am_emit_def split: sum.splits prod.splits) (simp add: bindE_def split: sum.splits prod.splits)
    then have "ack_position i q = Inr q1"
      using q1(1) False il t by (simp add: ack_position_def vec_at_ok tx_sn_def)
    then show ?thesis using q1 by blast
  qed
qed

text \<open>The first positions are acknowledged.\<close>

lemma ack_positions_ok:
  assumes "win_ok q" "pdu_timers_ok q" "m \<le> tx_count q"
  shows "\<exists>q'. foldE ack_position [0..<m] q = Inr q' \<and> win_ok q' \<and> pdu_timers_ok q' \<and> same_window q q' \<and>
    (\<forall>j < tx_size q. at_received q' ! j \<longleftrightarrow> at_received q ! j \<or> j < m) \<and> at_discarded q' = at_discarded q"
  using assms(3)
proof (induction m)
  case 0
  then show ?case using assms(1,2) same_window_refl by (intro exI[of _ q]) simp
next
  case (Suc m)
  then obtain q1 where q1: "foldE ack_position [0..<m] q = Inr q1" "win_ok q1" "pdu_timers_ok q1" "same_window q q1"
    "\<forall>j < tx_size q. at_received q1 ! j \<longleftrightarrow> at_received q ! j \<or> j < m" "at_discarded q1 = at_discarded q"
    by auto
  note sws = same_window_simps[OF q1(4)]
  have "m < tx_count q1" using Suc.prems sws by simp
  from ack_position_ok[OF q1(2,3) this] obtain q2 where q2: "ack_position m q1 = Inr q2" "win_ok q2" "pdu_timers_ok q2"
    "same_window q1 q2" "at_received q2 = (at_received q1)[m := True]" "at_discarded q2 = at_discarded q1" by blast
  have "length (at_received q1) = tx_size q" using q1(2) sws by (simp add: win_ok_def)
  then have "\<forall>j < tx_size q. at_received q2 ! j \<longleftrightarrow> at_received q ! j \<or> j < Suc m"
    using q1(5) unfolding q2(5) nth_list_update_split less_Suc_eq by auto
  then show ?case using q1(1) q2 same_window_trans[OF q1(4) q2(4)] q1(6)
    by (intro exI[of _ q2]) (simp add: foldE_append)
qed

section \<open>Commands to the receiver\<close>

text \<open>How many positions at the start are settled: received or discarded.\<close>

definition settled :: "am_tx \<Rightarrow> nat" where
  "settled q = length (takeWhile (\<lambda>i. at_discarded q ! i \<or> at_received q ! i) [0..<tx_count q])"

lemma mrw_prefix_eq:
  assumes "\<forall>i \<in> set is. i < length (at_received q) \<and> i < length (at_discarded q)"
  shows "mrw_prefix is q = Inr (length (takeWhile (\<lambda>i. at_discarded q ! i \<or> at_received q ! i) is))"
  using assms by (induction "is" q rule: mrw_prefix.induct) (auto simp: vec_at_ok)

lemma settled_le: "settled q \<le> tx_count q"
  using length_takeWhile_le[of "\<lambda>i. at_discarded q ! i \<or> at_received q ! i" "[0..<tx_count q]"] by (simp add: settled_def)

text \<open>The command to move up to a sequence number, as \<open>sendMrw\<close> builds it.\<close>

definition mrw_pdu :: "int \<Rightarrow> am_tx \<Rightarrow> am_pdu" where
  "mrw_pdu sn q = \<lparr>ap_amType = AM_MRW, ap_txNumber = 0, ap_firstSn = 0, ap_lastSn = sn, ap_bitmap = [],
     ap_totalFragments = 1, ap_snoFragment = at_mrwSeqNum q, ap_snoMainPacket = at_mrwSeqNum q,
     ap_bytes = fd_fragUnit (at_fragDesc q), ap_sdu = None, ap_info = the (at_lteInfo q)\<rparr>"

lemma sendMrw_ok:
  assumes "mrw_ok q" "at_lteInfo q \<noteq> None" "unat (at_mrwSeqNum q) + 1 < 2 ^ 31"
  shows "\<exists>a t os. sendMrw now sn q = Inr (q\<lparr>at_mrwRtxQueue := a, at_lastMrw := at_mrwSeqNum q, at_mrwTimer := t,
      at_out := at_out q @ os @ [SendDown (mrw_pdu sn q)], at_mrwSeqNum := at_mrwSeqNum q + 1\<rparr>) \<and>
    (\<forall>p. SendDown p \<notin> set os) \<and>
    mrw_ok (q\<lparr>at_mrwRtxQueue := a, at_mrwTimer := t, at_mrwSeqNum := at_mrwSeqNum q + 1\<rparr>)"
proof -
  let ?n = "at_mrwSeqNum q"
  obtain info where info: "at_lteInfo q = Some info" using assms(2) by auto
  have m: "mt_ok (at_mrwTimer q)" and ev: "\<And>ev. mt_abs (at_mrwTimer q) ev \<noteq> None \<longleftrightarrow> carr_get (at_mrwRtxQueue q) (unat ev) \<noteq> None"
    and lim: "\<And>i. carr_get (at_mrwRtxQueue q) i \<noteq> None \<Longrightarrow> i < unat ?n"
    using assms(1) by (auto simp: mrw_ok_def)
  have free: "carr_get (at_mrwRtxQueue q) (unat ?n) = None" using lim by blast
  then have tf: "mt_abs (at_mrwTimer q) ?n = None" using ev by blast
  have pos: "\<not> sint ?n < 0" using assms(3) by (subst sint_u32_small) simp_all
  let ?a = "carr_set (at_mrwRtxQueue q) (unat ?n) (Some (mrw_pdu sn q))"
  have mm: "mt_ok (at_mrwTimer (q\<lparr>at_mrwRtxQueue := ?a, at_lastMrw := ?n\<rparr>))"
    "mt_abs (at_mrwTimer (q\<lparr>at_mrwRtxQueue := ?a, at_lastMrw := ?n\<rparr>)) ?n = None" using m tf by simp_all
  obtain t calls where t: "mt_add now (at_ctrlPduRtxTimeout q * simtime_s) ?n (at_mrwTimer q) = Inr (t, calls)" "mt_ok t"
    "mt_abs t = (mt_abs (at_mrwTimer q))(?n := Some (now + at_ctrlPduRtxTimeout q * simtime_s))"
    using mt_add_fresh[OF m tf] by blast
  have run: "sendMrw now sn q = Inr (q\<lparr>at_mrwRtxQueue := ?a, at_lastMrw := ?n, at_mrwTimer := t,
      at_out := at_out q @ map MrwTimerCall calls @ [SendDown (mrw_pdu sn q)], at_mrwSeqNum := ?n + 1\<rparr>)"
    using pos free t(1) unfolding sendMrw_def info
    by (simp add: Let_def carr_addAt_def mrw_timer_add_def am_emit_def sendPdu_def mrw_pdu_def info)
  have n1: "unat (?n + 1) = unat ?n + 1" using assms(3) by (simp add: unat_word_ariths(1))
  have "mrw_ok (q\<lparr>at_mrwRtxQueue := ?a, at_mrwTimer := t, at_mrwSeqNum := ?n + 1\<rparr>)"
    unfolding mrw_ok_def
  proof (intro conjI allI impI)
    show "mt_ok (at_mrwTimer (q\<lparr>at_mrwRtxQueue := ?a, at_mrwTimer := t, at_mrwSeqNum := ?n + 1\<rparr>))" using t(2) by simp
    show "unat (at_mrwSeqNum (q\<lparr>at_mrwRtxQueue := ?a, at_mrwTimer := t, at_mrwSeqNum := ?n + 1\<rparr>)) < 2 ^ 31"
      using assms(3) n1 by simp
  next
    fix e
    have "unat ?n = unat e \<longleftrightarrow> e = ?n" by (metis word_unat_eq_iff)
    then show "(mt_abs (at_mrwTimer (q\<lparr>at_mrwRtxQueue := ?a, at_mrwTimer := t, at_mrwSeqNum := ?n + 1\<rparr>)) e \<noteq> None) =
        (carr_get (at_mrwRtxQueue (q\<lparr>at_mrwRtxQueue := ?a, at_mrwTimer := t, at_mrwSeqNum := ?n + 1\<rparr>)) (unat e) \<noteq> None)"
      using ev[of e] by (simp add: t(3))
  next
    fix i assume "carr_get (at_mrwRtxQueue (q\<lparr>at_mrwRtxQueue := ?a, at_mrwTimer := t, at_mrwSeqNum := ?n + 1\<rparr>)) i \<noteq> None"
    then have "i = unat ?n \<or> i < unat ?n" using lim[of i] by (simp split: if_splits)
    then show "i < unat (at_mrwSeqNum (q\<lparr>at_mrwRtxQueue := ?a, at_mrwTimer := t, at_mrwSeqNum := ?n + 1\<rparr>))"
      using n1 by auto
  qed
  moreover have "\<forall>p. SendDown p \<notin> set (map MrwTimerCall calls)" by auto
  ultimately show ?thesis using run by blast
qed

lemma am_ok_mrw:
  assumes "am_ok q" "mrw_ok (q\<lparr>at_mrwRtxQueue := a, at_mrwTimer := t, at_mrwSeqNum := m\<rparr>)"
  shows "am_ok (q\<lparr>at_mrwRtxQueue := a, at_lastMrw := l, at_mrwTimer := t, at_out := os, at_mrwSeqNum := m\<rparr>)"
  using assms
  by (simp add: am_ok_def win_ok_def pdu_timers_ok_def mrw_ok_def info_ok_def tx_size_def tx_first_def tx_count_def
      pending_def tx_sn_def)

text \<open>Only the commands, their timer and the outputs change.\<close>

definition same_but_mrw :: "am_tx \<Rightarrow> am_tx \<Rightarrow> am_out list \<Rightarrow> bool" where
  "same_but_mrw q q' os \<longleftrightarrow> (\<exists>a l t m. q' = q\<lparr>at_mrwRtxQueue := a, at_lastMrw := l, at_mrwTimer := t,
     at_out := at_out q @ os, at_mrwSeqNum := m\<rparr>)"

text \<open>When something is settled, one command is sent, to move past it; the window does not change.\<close>

lemma checkForMrw_ok:
  assumes ok: "am_ok q" and room: "unat (at_mrwSeqNum q) + 1 < 2 ^ 31"
  shows "\<exists>q'. checkForMrw now q = Inr q' \<and> am_ok q' \<and> unat (at_mrwSeqNum q') \<le> unat (at_mrwSeqNum q) + 1 \<and>
    (\<exists>os. same_but_mrw q q' os \<and> sends os = (if settled q = 0 then [] else [mrw_pdu (int (tx_first q + settled q)) q]))"
proof -
  have w: "win_ok q" using ok by (simp add: am_ok_def)
  have "mrw_prefix [0..<tx_count q] q = Inr (settled q)"
    unfolding settled_def using w by (intro mrw_prefix_eq) (auto simp: win_ok_def)
  then have c: "checkForMrw now q = (if settled q = 0 then Inr q
      else sendMrw now (sint (at_firstSeqNum q + of_nat (settled q - 1)) + 1) q)"
    by (simp add: checkForMrw_def)
  show ?thesis
  proof (cases "settled q = 0")
    case True
    then have "checkForMrw now q = Inr q" by (simp add: c)
    moreover have "same_but_mrw q q []" unfolding same_but_mrw_def
      by (intro exI[of _ "at_mrwRtxQueue q"] exI[of _ "at_lastMrw q"] exI[of _ "at_mrwTimer q"] exI[of _ "at_mrwSeqNum q"]) simp
    ultimately show ?thesis using True ok by (intro exI[of _ q] conjI exI[of _ "[]"]) simp_all
  next
    case False
    have n: "settled q \<le> tx_size q" using settled_le[of q] w by (simp add: win_ok_def)
    have fl: "tx_first q + tx_size q < 2 ^ 31" using w by (simp add: win_ok_def)
    have u: "unat (tx_sn q (settled q - 1)) = tx_first q + (settled q - 1)" using n fl by (intro unat_tx_sn) simp
    then have "sint (tx_sn q (settled q - 1)) = int (tx_first q + (settled q - 1))"
      using n fl by (subst sint_u32_small) simp_all
    then have sn: "sint (at_firstSeqNum q + of_nat (settled q - 1)) + 1 = int (tx_first q + settled q)"
      using False by (simp add: tx_sn_def add.commute)
    have i: "at_lteInfo q \<noteq> None" using ok False settled_le[of q] by (auto simp: am_ok_def info_ok_def)
    have m: "mrw_ok q" using ok by (simp add: am_ok_def)
    from sendMrw_ok[OF m i room, of now "int (tx_first q + settled q)"] obtain a t os where
      s: "sendMrw now (int (tx_first q + settled q)) q = Inr (q\<lparr>at_mrwRtxQueue := a, at_lastMrw := at_mrwSeqNum q, at_mrwTimer := t,
          at_out := at_out q @ os @ [SendDown (mrw_pdu (int (tx_first q + settled q)) q)], at_mrwSeqNum := at_mrwSeqNum q + 1\<rparr>)"
        "\<forall>p. SendDown p \<notin> set os" "mrw_ok (q\<lparr>at_mrwRtxQueue := a, at_mrwTimer := t, at_mrwSeqNum := at_mrwSeqNum q + 1\<rparr>)"
      by blast
    have n1: "unat (at_mrwSeqNum q + 1) = unat (at_mrwSeqNum q) + 1" using room by (simp add: unat_word_ariths(1))
    define os' where "os' = os @ [SendDown (mrw_pdu (int (tx_first q + settled q)) q)]"
    define q' where "q' = q\<lparr>at_mrwRtxQueue := a, at_lastMrw := at_mrwSeqNum q, at_mrwTimer := t,
        at_out := at_out q @ os', at_mrwSeqNum := at_mrwSeqNum q + 1\<rparr>"
    have so: "sends os' = (if settled q = 0 then [] else [mrw_pdu (int (tx_first q + settled q)) q])"
      using sends_none[OF s(2)] False by (simp add: os'_def)
    have c': "checkForMrw now q = Inr q'"
      unfolding c sn using False s(1) by (simp add: q'_def os'_def)
    have ok': "am_ok q'" unfolding q'_def by (rule am_ok_mrw[OF ok s(3)])
    have fr: "same_but_mrw q q' os'" unfolding same_but_mrw_def q'_def by blast
    have "unat (at_mrwSeqNum q') \<le> unat (at_mrwSeqNum q) + 1" by (simp add: q'_def n1)
    then show ?thesis using c' ok' fr so by blast
  qed
qed

section \<open>Giving up an SDU\<close>

text \<open>The SDU of a position.\<close>

definition sdu_at :: "am_tx \<Rightarrow> nat \<Rightarrow> u32" where
  "sdu_at q i = ap_snoMainPacket (the (carr_get (at_pduRtxQueue q) i))"

lemma sdu_at_same: "same_window q q' \<Longrightarrow> sdu_at q' = sdu_at q"
  by (rule ext) (simp add: sdu_at_def same_window_simps)

lemma discard_forward_ok:
  assumes "win_ok q" "pdu_timers_ok q" "\<forall>i \<in> set is. i < tx_count q"
  shows "\<exists>q'. discard_forward sno is q = Inr q' \<and> win_ok q' \<and> pdu_timers_ok q' \<and> same_window q q' \<and>
    at_received q' = at_received q \<and>
    (\<forall>j < tx_size q. at_discarded q' ! j \<longleftrightarrow> at_discarded q ! j \<or> j \<in> set (takeWhile (\<lambda>i. sdu_at q i = sno) is))"
  using assms
proof (induction "is" arbitrary: q)
  case Nil
  then show ?case using same_window_refl by (intro exI[of _ q]) simp
next
  case (Cons i js)
  have i: "i < tx_count q" using Cons.prems(3) by simp
  obtain pdu where p: "carr_get (at_pduRtxQueue q) i = Some pdu" using Cons.prems(1) i by (auto simp: win_ok_def)
  have sd: "sdu_at q i = ap_snoMainPacket pdu" by (simp add: sdu_at_def p)
  have il: "i < length (at_discarded q)" "length (at_discarded q) = tx_size q" using Cons.prems(1) i by (simp_all add: win_ok_def)
  show ?case
  proof (cases "sdu_at q i = sno")
    case False
    then show ?thesis using Cons.prems p sd same_window_refl by (intro exI[of _ q]) auto
  next
    case True
    have "\<exists>q1. discard_forward sno (i # js) q = discard_forward sno js q1 \<and> win_ok q1 \<and> pdu_timers_ok q1 \<and>
        same_window q q1 \<and> at_received q1 = at_received q \<and> at_discarded q1 = (at_discarded q)[i := True]"
    proof (cases "at_discarded q ! i")
      case d: True
      then have "(at_discarded q)[i := True] = at_discarded q" by (metis list_update_id)
      then show ?thesis using d Cons.prems p sd True il same_window_refl by (intro exI[of _ q]) (simp add: vec_at_ok)
    next
      case d: False
      from mark_position[OF Cons.prems(1,2) i, where b = False, OF refl]
      obtain q1 where "pdu_timer_cancel (tx_sn q i) (q\<lparr>at_discarded := (at_discarded q)[i := True]\<rparr>) = Inr q1"
        "win_ok q1" "pdu_timers_ok q1" "same_window q q1" "at_received q1 = at_received q"
        "at_discarded q1 = (at_discarded q)[i := True]" by auto
      then show ?thesis using d p sd True il by (intro exI[of _ q1]) (simp add: vec_at_ok tx_sn_def)
    qed
    then obtain q1 where q1: "discard_forward sno (i # js) q = discard_forward sno js q1" "win_ok q1" "pdu_timers_ok q1"
      "same_window q q1" "at_received q1 = at_received q" "at_discarded q1 = (at_discarded q)[i := True]" by blast
    note sws = same_window_simps[OF q1(4)]
    have "\<forall>j \<in> set js. j < tx_count q1" using Cons.prems(3) by (simp add: sws)
    from Cons.IH[OF q1(2,3) this] obtain q' where q': "discard_forward sno js q1 = Inr q'" "win_ok q'" "pdu_timers_ok q'"
      "same_window q1 q'" "at_received q' = at_received q1"
      "\<forall>j < tx_size q. at_discarded q' ! j \<longleftrightarrow> at_discarded q1 ! j \<or> j \<in> set (takeWhile (\<lambda>i. sdu_at q i = sno) js)"
      unfolding sws sdu_at_same[OF q1(4)] by blast
    have "\<forall>j < tx_size q. at_discarded q' ! j \<longleftrightarrow> at_discarded q ! j \<or> j \<in> set (takeWhile (\<lambda>i. sdu_at q i = sno) (i # js))"
      using q'(6) il True unfolding q1(6) nth_list_update_split by auto
    then show ?thesis using q' q1(1,5) same_window_trans[OF q1(4) q'(4)] by (intro exI[of _ q']) simp
  qed
qed

lemma discard_backward_ok:
  assumes "win_ok q" "pdu_timers_ok q" "\<forall>i \<in> set is. i < tx_count q"
  shows "\<exists>q'. discard_backward sno is q = Inr q' \<and> win_ok q' \<and> pdu_timers_ok q' \<and> same_window q q' \<and>
    at_received q' = at_received q \<and>
    (\<forall>j < tx_size q. at_discarded q' ! j \<longleftrightarrow> at_discarded q ! j \<or> j \<in> set (takeWhile (\<lambda>i. sdu_at q i = sno) is))"
  using assms
proof (induction "is" arbitrary: q)
  case Nil
  then show ?case using same_window_refl by (intro exI[of _ q]) simp
next
  case (Cons i js)
  have i: "i < tx_count q" using Cons.prems(3) by simp
  obtain pdu where p: "carr_get (at_pduRtxQueue q) i = Some pdu" using Cons.prems(1) i by (auto simp: win_ok_def)
  have sd: "sdu_at q i = ap_snoMainPacket pdu" by (simp add: sdu_at_def p)
  have il: "i < length (at_discarded q)" "length (at_discarded q) = tx_size q" using Cons.prems(1) i by (simp_all add: win_ok_def)
  show ?case
  proof (cases "sdu_at q i = sno")
    case False
    then show ?thesis using Cons.prems p sd same_window_refl by (intro exI[of _ q]) auto
  next
    case True
    from mark_position[OF Cons.prems(1,2) i, where b = False, OF refl]
    obtain q1 where q1: "pdu_timer_cancel (tx_sn q i) (q\<lparr>at_discarded := (at_discarded q)[i := True]\<rparr>) = Inr q1"
      "win_ok q1" "pdu_timers_ok q1" "same_window q q1" "at_received q1 = at_received q"
      "at_discarded q1 = (at_discarded q)[i := True]" by auto
    have "(if at_discarded q ! i then q else q\<lparr>at_discarded := (at_discarded q)[i := True]\<rparr>)
        = q\<lparr>at_discarded := (at_discarded q)[i := True]\<rparr>"
      by (cases "at_discarded q ! i") (simp_all add: list_update_same_conv[THEN iffD2] il(1))
    then have st: "discard_backward sno (i # js) q = discard_backward sno js q1"
      using q1(1) p sd True il by (simp add: vec_at_ok tx_sn_def)
    note sws = same_window_simps[OF q1(4)]
    have "\<forall>j \<in> set js. j < tx_count q1" using Cons.prems(3) by (simp add: sws)
    from Cons.IH[OF q1(2,3) this] obtain q' where q': "discard_backward sno js q1 = Inr q'" "win_ok q'" "pdu_timers_ok q'"
      "same_window q1 q'" "at_received q' = at_received q1"
      "\<forall>j < tx_size q. at_discarded q' ! j \<longleftrightarrow> at_discarded q1 ! j \<or> j \<in> set (takeWhile (\<lambda>i. sdu_at q i = sno) js)"
      unfolding sws sdu_at_same[OF q1(4)] by blast
    have "\<forall>j < tx_size q. at_discarded q' ! j \<longleftrightarrow> at_discarded q ! j \<or> j \<in> set (takeWhile (\<lambda>i. sdu_at q i = sno) (i # js))"
      using q'(6) il True unfolding q1(6) nth_list_update_split by auto
    then show ?thesis using q' st q1(5) same_window_trans[OF q1(4) q'(4)] by (intro exI[of _ q']) simp
  qed
qed

end
