(* ===== verification/AmTxOps.thy ===== *)
theory AmTxOps
  imports AmTxWindow
begin

text \<open>
  The operations of the transmission queue of the acknowledged mode keep its invariant, as long as
  the receiver acknowledges only what has been sent and the sequence numbers stay below \<open>2\<^sup>3\<^sup>1\<close>.
\<close>

section \<open>Room for numbers\<close>

definition am_room :: "am_tx \<Rightarrow> bool" where
  "am_room q \<longleftrightarrow> tx_first q + 2 * tx_size q < 2 ^ 31 \<and> unat (at_mrwSeqNum q) + 1 < 2 ^ 31"

lemma am_ok_window:
  assumes "am_ok q" "same_window q q'" "win_ok q'" "pdu_timers_ok q'" shows "am_ok q'"
  using assms same_window_simps[OF assms(2)] by (simp add: am_ok_def)

lemma am_room_window: "same_window q q' \<Longrightarrow> am_room q' = am_room q"
  using same_window_simps[of q q'] by (simp add: am_room_def)

lemma same_but_mrw_simps:
  assumes "same_but_mrw q q' os"
  shows "at_pduRtxQueue q' = at_pduRtxQueue q" "at_received q' = at_received q" "at_discarded q' = at_discarded q"
    "at_firstSeqNum q' = at_firstSeqNum q" "at_seqNum q' = at_seqNum q" "at_windowSize q' = at_windowSize q"
    "at_pduTimer q' = at_pduTimer q" "at_out q' = at_out q @ os" "tx_count q' = tx_count q" "tx_first q' = tx_first q"
    "tx_size q' = tx_size q" "tx_sn q' = tx_sn q"
  using assms unfolding same_but_mrw_def
  by (elim exE, simp add: tx_count_def tx_size_def tx_first_def tx_sn_def[abs_def])+

lemma tx_index_pos:
  assumes "win_ok q" "i \<le> tx_size q" shows "tx_index (int (tx_first q + i)) q = int i"
proof -
  have "tx_first q + tx_size q < 2 ^ 31" using assms(1) by (simp add: win_ok_def)
  then have "int (tx_first q + i) < 2 ^ 31" "tx_first q < 2 ^ 31" using assms(2) by simp_all
  from tx_index_eq[OF _ this] show ?thesis by simp
qed

lemma of_int_sn: "of_int (int (tx_first q + i)) = tx_sn q i"
  by (simp add: tx_sn_def tx_first_def add.commute)

lemma in_window_pos:
  assumes "win_ok q" "i \<le> tx_size q" shows "at_windowSize q \<le> of_int (int i) \<longleftrightarrow> tx_size q \<le> i"
proof -
  have "tx_first q + tx_size q < 2 ^ 31" using assms(1) by (simp add: win_ok_def)
  then have "int i < 2 ^ 31" using assms(2) by simp
  from tx_in_window[OF _ this, of q] show ?thesis by simp
qed

section \<open>Discarding\<close>

text \<open>The PDUs around a position that are of the same SDU.\<close>

definition sdu_run :: "am_tx \<Rightarrow> nat \<Rightarrow> nat set" where
  "sdu_run q i = insert i (set (takeWhile (\<lambda>j. sdu_at q j = sdu_at q i) [Suc i..<tx_count q]) \<union>
     set (takeWhile (\<lambda>j. sdu_at q j = sdu_at q i) (rev [0..<i])))"

lemma am_discard_ok:
  assumes w: "win_ok q" "timers_but i q" and ok: "mrw_ok q" "info_ok q" and i: "i < tx_count q"
  shows "\<exists>q1. am_discard now (int (tx_first q + i)) q = checkForMrw now q1 \<and> am_ok q1 \<and> same_window q q1 \<and>
    at_received q1 = at_received q \<and>
    (\<forall>j < tx_size q. at_discarded q1 ! j \<longleftrightarrow> at_discarded q ! j \<or> j \<in> sdu_run q i)"
proof -
  have il: "i < tx_size q" "length (at_discarded q) = tx_size q" using w(1) i by (simp_all add: win_ok_def)
  have ix: "tx_index (int (tx_first q + i)) q = int i" using w(1) il(1) by (intro tx_index_pos) simp_all
  have nw: "\<not> at_windowSize q \<le> of_int (int i)" using in_window_pos[OF w(1), of i] il(1) by simp
  obtain pdu where p: "carr_get (at_pduRtxQueue q) i = Some pdu" using w(1) i by (auto simp: win_ok_def)
  have sd: "ap_snoMainPacket pdu = sdu_at q i" by (simp add: sdu_at_def p)
  from mark_position_but[OF w i, where b = False, OF refl] obtain q1 where
    q1: "pdu_timer_cancel (tx_sn q i) (q\<lparr>at_discarded := (at_discarded q)[i := True]\<rparr>) = Inr q1" "win_ok q1" "pdu_timers_ok q1"
      "same_window q q1" "at_received q1 = at_received q" "at_discarded q1 = (at_discarded q)[i := True]" by auto
  note s1 = same_window_simps[OF q1(4)]
  have b: "(if at_discarded q ! i then q else q\<lparr>at_discarded := (at_discarded q)[i := True]\<rparr>)
      = q\<lparr>at_discarded := (at_discarded q)[i := True]\<rparr>"
    by (cases "at_discarded q ! i") (simp_all add: list_update_same_conv[THEN iffD2] il)
  have a1: "\<forall>j \<in> set [Suc i..<tx_count q1]. j < tx_count q1" by simp
  from discard_forward_ok[OF q1(2,3) a1, of "sdu_at q i"] obtain q2 where
    q2: "discard_forward (sdu_at q i) [Suc i..<tx_count q1] q1 = Inr q2" "win_ok q2" "pdu_timers_ok q2" "same_window q1 q2"
      "at_received q2 = at_received q1"
      "\<forall>j < tx_size q1. at_discarded q2 ! j \<longleftrightarrow> at_discarded q1 ! j \<or>
         j \<in> set (takeWhile (\<lambda>j. sdu_at q1 j = sdu_at q i) [Suc i..<tx_count q1])" by blast
  note s2 = same_window_simps[OF q2(4)]
  have a2: "\<forall>j \<in> set (rev [0..<i]). j < tx_count q2" using i by (simp add: s1 s2)
  from discard_backward_ok[OF q2(2,3) a2, of "sdu_at q i"] obtain q3 where
    q3: "discard_backward (sdu_at q i) (rev [0..<i]) q2 = Inr q3" "win_ok q3" "pdu_timers_ok q3" "same_window q2 q3"
      "at_received q3 = at_received q2"
      "\<forall>j < tx_size q2. at_discarded q3 ! j \<longleftrightarrow> at_discarded q2 ! j \<or>
         j \<in> set (takeWhile (\<lambda>j. sdu_at q2 j = sdu_at q i) (rev [0..<i]))" by blast
  define sn where "sn = int (tx_first q + i)"
  have ix': "tx_index sn q = int i" "(of_int sn :: u32) = tx_sn q i" using ix of_int_sn by (simp_all only: sn_def)
  have "am_discard now sn q = checkForMrw now q3"
    using il q1(1) q2(1) q3(1) p nw by (simp add: am_discard_def Let_def ix' b vec_at_ok sd)
  then have run: "am_discard now (int (tx_first q + i)) q = checkForMrw now q3" by (simp only: sn_def)
  have sw: "same_window q q3" using q1(4) q2(4) q3(4) same_window_trans by blast
  have okq: "am_ok q3" using q3(2,3) ok same_window_simps[OF sw] by (simp add: am_ok_def)
  have "\<forall>j < tx_size q. at_discarded q3 ! j \<longleftrightarrow> at_discarded q ! j \<or> j \<in> sdu_run q i"
    using q2(6) q3(6) il unfolding s2 s1 sdu_at_same[OF q1(4)] sdu_at_same[OF q2(4)] q1(6) nth_list_update_split
      sdu_run_def by auto
  then show ?thesis using run okq sw q1(5) q2(5) q3(5) by auto
qed

section \<open>Acknowledgments\<close>

text \<open>The window is the same, and just the PDUs with the numbers of a set are newly marked received.\<close>

definition acked :: "int set \<Rightarrow> am_tx \<Rightarrow> am_tx \<Rightarrow> bool" where
  "acked S q q' \<longleftrightarrow> tx_first q' = tx_first q \<and> tx_count q' = tx_count q \<and> tx_size q' = tx_size q \<and>
     at_discarded q' = at_discarded q \<and>
     (\<forall>j < tx_size q. at_received q' ! j \<longleftrightarrow> at_received q ! j \<or> int (tx_first q + j) \<in> S)"

lemma acked_none: "(\<And>j. int (tx_first q + j) \<notin> S) \<Longrightarrow> acked S q q"
  by (simp add: acked_def)

lemma acked_trans: "acked S q q1 \<Longrightarrow> acked T q1 q2 \<Longrightarrow> S \<union> T = U \<Longrightarrow> acked U q q2"
  by (auto simp: acked_def)

lemma acked_simps:
  assumes "acked S q q'" shows "tx_first q' = tx_first q" "tx_count q' = tx_count q" "tx_size q' = tx_size q"
  using assms by (auto simp: acked_def)

lemma recvAck_ok:
  assumes ok: "am_ok q" and sn: "0 \<le> sn" "sn < int (tx_first q + tx_count q)"
  shows "\<exists>q'. recvAck sn q = Inr q' \<and> am_ok q' \<and> same_window q q' \<and> acked {sn} q q'"
proof -
  have w: "win_ok q" "pdu_timers_ok q" using ok by (auto simp: am_ok_def)
  have b: "tx_first q + tx_size q < 2 ^ 31" "tx_count q \<le> tx_size q" using w(1) by (auto simp: win_ok_def)
  have ix: "tx_index sn q = sn - int (tx_first q)" using sn b by (intro tx_index_eq) auto
  show ?thesis
  proof (cases "sn < int (tx_first q)")
    case True
    then have "acked {sn} q q" by (intro acked_none) auto
    then show ?thesis using ok same_window_refl True by (intro exI[of _ q]) (simp add: recvAck_def ix)
  next
    case False
    define i where "i = nat (sn - int (tx_first q))"
    have i: "sn - int (tx_first q) = int i" "i < tx_count q" using False sn by (auto simp: i_def)
    have "\<not> at_windowSize q \<le> of_int (int i)" using in_window_pos[OF w(1), of i] i(2) b(2) by simp
    then have r: "recvAck sn q = ack_position i q" by (simp add: recvAck_def ix i(1))
    from ack_position_ok[OF w i(2)] obtain q' where q': "ack_position i q = Inr q'" "win_ok q'" "pdu_timers_ok q'"
      "same_window q q'" "at_received q' = (at_received q)[i := True]" "at_discarded q' = at_discarded q" by blast
    have l: "length (at_received q) = tx_size q" using w(1) by (simp add: win_ok_def)
    have e: "int (tx_first q + j) \<in> {sn} \<longleftrightarrow> i = j" for j using i(1) by auto
    have "acked {sn} q q'"
      unfolding acked_def e using q'(5,6) same_window_simps[OF q'(4)] i(2) b(2) l by (auto simp: nth_list_update)
    then show ?thesis using q' r am_ok_window[OF ok q'(4,2,3)] by auto
  qed
qed

lemma recvCumulativeAck_ok:
  assumes ok: "am_ok q" and room: "am_room q" and sn: "sn < int (tx_first q + tx_count q)" "- 1 \<le> sn"
  shows "\<exists>q'. recvCumulativeAck now sn q = Inr q' \<and> am_ok q' \<and> acked {..sn} q q'"
proof -
  have w: "win_ok q" "pdu_timers_ok q" using ok by (auto simp: am_ok_def)
  have b: "tx_first q + tx_size q < 2 ^ 31" "tx_count q \<le> tx_size q" using w(1) by (auto simp: win_ok_def)
  show ?thesis
  proof (cases "(of_int sn :: u32) < at_firstSeqNum q \<or> sn < 0")
    case True
    have "sn < int (tx_first q)"
    proof (cases "sn < 0")
      case nonneg: False
      then have "unat (of_int sn :: u32) = nat sn" using sn b by (intro of_int_pos_u32) auto
      then have "nat sn < tx_first q" using True nonneg by (simp add: word_less_nat_alt tx_first_def)
      then show ?thesis by linarith
    qed linarith
    then have "acked {..sn} q q" by (intro acked_none) auto
    then show ?thesis using ok True by (intro exI[of _ q]) (simp add: recvCumulativeAck_def)
  next
    case False
    have "unat (of_int sn :: u32) = nat sn" using False sn b by (intro of_int_pos_u32) auto
    then have ge: "tx_first q \<le> nat sn" using False by (simp add: word_less_nat_alt tx_first_def)
    define m where "m = nat sn - tx_first q"
    have m: "sn = int (tx_first q + m)" "m < tx_count q" using ge False sn by (auto simp: m_def)
    have u: "unat (of_int sn :: u32) = tx_first q + m" unfolding m(1) of_int_sn
      using b m(2) by (intro unat_tx_sn) simp
    have fw: "unat (at_firstSeqNum q + at_windowSize q) = tx_first q + tx_size q"
      using b by (simp add: unat_word_ariths(1) tx_first_def tx_size_def)
    have nb: "\<not> at_firstSeqNum q + at_windowSize q < of_int sn"
      using b m(2) by (simp add: word_less_nat_alt u fw)
    have d: "unat (of_int sn - at_firstSeqNum q) = m"
    proof -
      have "of_int sn - at_firstSeqNum q = (of_nat m :: u32)" unfolding m(1) by (simp add: tx_first_def)
      then show ?thesis using b m(2) by (simp add: unat_of_nat)
    qed
    have le: "Suc m \<le> tx_count q" using m(2) by simp
    from ack_positions_ok[OF w le] obtain q1 where q1: "foldE ack_position [0..<Suc m] q = Inr q1" "win_ok q1" "pdu_timers_ok q1"
      "same_window q q1" "\<forall>j < tx_size q. at_received q1 ! j \<longleftrightarrow> at_received q ! j \<or> j < Suc m"
      "at_discarded q1 = at_discarded q" by blast
    have ok1: "am_ok q1" by (rule am_ok_window[OF ok q1(4,2,3)])
    have e: "int (tx_first q + j) \<in> {..sn} \<longleftrightarrow> j < Suc m" for j using m(1) by auto
    have "unat (at_mrwSeqNum q1) + 1 < 2 ^ 31" using room same_window_simps[OF q1(4)] by (simp add: am_room_def)
    from checkForMrw_ok[OF ok1 this, of now] obtain q' os where
      q': "checkForMrw now q1 = Inr q'" "am_ok q'" "same_but_mrw q1 q' os" by blast
    have "recvCumulativeAck now sn q = Inr q'"
      using False nb q1(1) q'(1) unfolding recvCumulativeAck_def d by (simp del: upt_Suc)
    moreover have "acked {..sn} q q'"
      unfolding acked_def e using q1(5,6) same_window_simps[OF q1(4)] same_but_mrw_simps[OF q'(3)] by simp
    ultimately show ?thesis using q'(2) by blast
  qed
qed

section \<open>Adding PDUs\<close>

text \<open>A state in which only the two PDU queues, the current SDU, the timers and the outputs changed.\<close>

lemma next_sdu_ok:
  assumes ok: "am_ok q" and ne: "\<not> (at_currentSdu q = None \<and> at_sduQueue q = [])"
  shows "\<exists>cur qs d info. next_sdu q = Inr (q\<lparr>at_currentSdu := Some cur, at_sduQueue := qs, at_fragDesc := d, at_lteInfo := Some info\<rparr>) \<and>
    fd_fragUnit d = fd_fragUnit (at_fragDesc q)"
proof (cases "at_currentSdu q")
  case (Some cur)
  then obtain info where "at_lteInfo q = Some info" using ok by (auto simp: am_ok_def info_ok_def)
  then have "next_sdu q = Inr (q\<lparr>at_currentSdu := Some cur, at_sduQueue := at_sduQueue q, at_fragDesc := at_fragDesc q, at_lteInfo := Some info\<rparr>)"
    using Some by (simp add: next_sdu_def)
  then show ?thesis by blast
next
  case None
  then obtain sdu info rest where r: "at_sduQueue q = (sdu, info) # rest" using ne by (cases "at_sduQueue q") auto
  have "fd_fragUnit (at_fragDesc q) \<noteq> 0" using ok by (simp add: am_ok_def info_ok_def)
  then obtain d where d: "startFragmentation (of_int (rs_bytes sdu)) (at_seqNum q) (at_fragDesc q) = Inr d"
    "fd_fragUnit d = fd_fragUnit (at_fragDesc q)" by (simp add: startFragmentation_def)
  then have "next_sdu q = Inr (q\<lparr>at_currentSdu := Some (sdu, info), at_sduQueue := rest, at_fragDesc := d, at_lteInfo := Some info\<rparr>)"
    using None r by (simp add: next_sdu_def)
  then show ?thesis using d(2) by blast
qed

lemma store_pdu_ok:
  assumes w: "win_ok q" and free: "tx_count q < tx_size q"
  shows "store_pdu pdu q = Inr (q\<lparr>at_pduRtxQueue := carr_set (at_pduRtxQueue q) (tx_count q) (Some pdu)\<rparr>)"
proof -
  have g: "carr_get (at_pduRtxQueue q) (tx_count q) = None" using w by (auto simp: win_ok_def)
  have l: "tx_count q < length (at_received q)" "tx_count q < length (at_discarded q)"
    "\<not> at_received q ! tx_count q" "\<not> at_discarded q ! tx_count q" using w free by (auto simp: win_ok_def)
  show ?thesis using g l by (simp add: store_pdu_def carr_addAt_def vec_at_ok flip: tx_count_def)
qed

lemma status_timer_start_frame:
  "\<exists>t os. status_timer_start now q = q\<lparr>at_bufferStatusTimer := t, at_out := at_out q @ os\<rparr> \<and> sends os = []"
proof (cases "tt_busy (at_bufferStatusTimer q)")
  case True
  then show ?thesis
    by (intro exI[of _ "at_bufferStatusTimer q"] exI[of _ "[]"]) (simp add: status_timer_start_def)
next
  case False
  obtain t calls where "tt_startOp now (at_bufferStatusTimeout q * simtime_s) (at_bufferStatusTimer q) = (t, calls)" by fastforce
  then show ?thesis using False
    by (intro exI[of _ t] exI[of _ "map StatusTimerCall calls"]) (simp add: status_timer_start_def am_emit_def)
qed

lemma tx_sn_Suc: "tx_sn q i + 1 = tx_sn q (Suc i)"
  by (simp add: tx_sn_def add.commute add.left_commute)

lemma count_of_seq:
  assumes "at_seqNum q' = tx_sn q i" "at_firstSeqNum q' = at_firstSeqNum q" "i < 2 ^ 32" shows "tx_count q' = i"
  using assms by (simp add: tx_count_def tx_sn_def unat_of_nat)

text \<open>The PDU that is sent, and where the fragmentation stands afterwards.\<close>

definition added_pdu :: "am_tx \<Rightarrow> am_tx \<Rightarrow> bool" where
  "added_pdu q q' \<longleftrightarrow> (\<exists>q0 sdu ci info. next_sdu q = Inr q0 \<and> at_currentSdu q0 = Some (sdu, ci) \<and> at_lteInfo q0 = Some info \<and>
     sends (at_out q') = sends (at_out q) @ [data_pdu sdu info q0] \<and> at_lteInfo q' = Some info \<and>
     at_sduQueue q' = at_sduQueue q0 \<and>
     (case addFragment (at_fragDesc q0) of (complete, d) \<Rightarrow>
        at_currentSdu q' = (if complete then None else Some (sdu, ci)) \<and>
        at_fragDesc q' = (if complete then resetFragmentation d else d)))"

lemma add_one_pdu_ok:
  assumes ok: "am_ok q" and ne: "\<not> (at_currentSdu q = None \<and> at_sduQueue q = [])" and free: "tx_count q < tx_size q"
  shows "\<exists>q'. add_one_pdu now q = Inr q' \<and> am_ok q' \<and> tx_count q' = Suc (tx_count q) \<and> tx_first q' = tx_first q \<and>
    tx_size q' = tx_size q \<and> at_mrwSeqNum q' = at_mrwSeqNum q \<and> added_pdu q q'"
proof -
  obtain cur qs d0 info where n: "next_sdu q = Inr (q\<lparr>at_currentSdu := Some cur, at_sduQueue := qs, at_fragDesc := d0, at_lteInfo := Some info\<rparr>)"
    "fd_fragUnit d0 = fd_fragUnit (at_fragDesc q)" using next_sdu_ok[OF ok ne] by blast
  obtain sdu ci where cur: "cur = (sdu, ci)" by (cases cur)
  define q0 where "q0 = q\<lparr>at_currentSdu := Some cur, at_sduQueue := qs, at_fragDesc := d0, at_lteInfo := Some info\<rparr>"
  define pdu where "pdu = data_pdu sdu info q0"
  let ?n = "tx_count q"
  have w: "win_ok q" and tm: "mt_ok (at_pduTimer q)"
    and pend: "\<And>ev. mt_abs (at_pduTimer q) ev \<noteq> None \<longleftrightarrow> (\<exists>i. pending q i \<and> ev = tx_sn q i)"
    using ok by (auto simp: am_ok_def pdu_timers_ok_def)
  have b: "tx_first q + tx_size q < 2 ^ 31" using w by (simp add: win_ok_def)
  have c0: "tx_count q0 = ?n" "tx_size q0 = tx_size q" by (simp_all add: q0_def tx_count_def tx_size_def)
  have w0: "win_ok q0" using w by (simp add: win_ok_def q0_def tx_size_def tx_first_def tx_count_def)
  define q1 where "q1 = q0\<lparr>at_pduRtxQueue := carr_set (at_pduRtxQueue q0) ?n (Some pdu)\<rparr>"
  have st: "store_pdu pdu q0 = Inr q1" using store_pdu_ok[OF w0, of pdu] free by (simp add: c0 q1_def)
  have "at_seqNum q1 = at_seqNum q" by (simp add: q1_def q0_def)
  then have sq: "at_seqNum q1 = tx_sn q ?n" using seqNum_eq[of q] by simp
  have fresh: "mt_abs (at_pduTimer q) (tx_sn q ?n) = None"
  proof (rule ccontr)
    assume "mt_abs (at_pduTimer q) (tx_sn q ?n) \<noteq> None"
    then obtain i where i: "pending q i" "tx_sn q ?n = tx_sn q i" using pend by blast
    then have "?n = i" using tx_sn_inj[of q ?n i] pending_less[OF w i(1)] free b by simp
    then show False using i(1) by (simp add: pending_def)
  qed
  have t1: "mt_ok (at_pduTimer q1)" "mt_abs (at_pduTimer q1) (tx_sn q ?n) = None" "at_pduTimer q1 = at_pduTimer q"
    using tm fresh by (simp_all add: q1_def q0_def)
  obtain t os where t: "pdu_timer_add now (tx_sn q ?n) q1 = Inr (q1\<lparr>at_pduTimer := t, at_out := at_out q1 @ os\<rparr>)" "mt_ok t" "sends os = []"
    "mt_abs t = (mt_abs (at_pduTimer q))(tx_sn q ?n := Some (now + at_pduRtxTimeout q1 * simtime_s))"
    using pdu_timer_add_ok[OF t1(1,2), of now] t1(3) by auto
  note t3 = t(4)
  define q2 where "q2 = q1\<lparr>at_pduTimer := t, at_out := at_out q1 @ os\<rparr>"
  obtain complete d where d: "addFragment (at_fragDesc q2) = (complete, d)" by (cases "addFragment (at_fragDesc q2)")
  have du: "fd_fragUnit d = fd_fragUnit (at_fragDesc q)" using d n(2)
    by (auto simp: addFragment_def Let_def q2_def q1_def q0_def)
  define q3 where "q3 = (if complete then q2\<lparr>at_fragDesc := resetFragmentation d, at_currentSdu := None\<rparr> else q2\<lparr>at_fragDesc := d\<rparr>)"
  define q4 where "q4 = q3\<lparr>at_seqNum := at_seqNum q3 + 1\<rparr>"
  obtain bt os' where bs: "status_timer_start now q4 = q4\<lparr>at_bufferStatusTimer := bt, at_out := at_out q4 @ os'\<rparr>"
    "sends os' = []" using status_timer_start_frame[of now q4] by blast
  define q' where "q' = sendPdu pdu (status_timer_start now q4)"
  have ex: "at_currentSdu q0 = Some (sdu, ci)" "at_lteInfo q0 = Some info" by (simp_all add: q0_def cur)
  have run: "add_one_pdu now q = Inr q'"
    using t(1) d by (simp add: add_one_pdu_def n(1) ex st sq Let_def q'_def q4_def q3_def q2_def
        pdu_def[symmetric] q0_def[symmetric])
  have f: "at_received q' = at_received q" "at_discarded q' = at_discarded q" "at_firstSeqNum q' = at_firstSeqNum q"
    "at_windowSize q' = at_windowSize q" "at_mrwRtxQueue q' = at_mrwRtxQueue q" "at_mrwTimer q' = at_mrwTimer q"
    "at_mrwSeqNum q' = at_mrwSeqNum q" "at_seqNum q' = tx_sn q ?n + 1" "at_pduTimer q' = t"
    "at_pduRtxQueue q' = carr_set (at_pduRtxQueue q) ?n (Some pdu)" "at_lteInfo q' = Some info"
    "fd_fragUnit (at_fragDesc q') = fd_fragUnit (at_fragDesc q)"
    using sq unfolding q'_def sendPdu_def am_emit_def bs(1)
    by (simp_all add: q4_def q3_def q2_def q1_def q0_def resetFragmentation_def du)
  have c': "tx_count q' = Suc ?n"
    using f(3,8) free b by (intro count_of_seq[of q' q]) (simp_all add: tx_sn_Suc)
  have z: "tx_first q' = tx_first q" "tx_size q' = tx_size q" "tx_sn q' = tx_sn q"
    using f(3,4) by (simp_all add: tx_first_def tx_size_def tx_sn_def[abs_def])
  have nl: "?n < length (at_received q)" "\<not> at_received q ! ?n" "\<not> at_discarded q ! ?n" using w free by (auto simp: win_ok_def)
  have "win_ok q'" using w free unfolding win_ok_def c' z f carr_get_set by auto
  moreover have "pdu_timers_ok q'"
    unfolding pdu_timers_ok_def f z
  proof (intro conjI allI)
    show "mt_ok t" by fact
    fix ev
    have p: "pending q' i \<longleftrightarrow> pending q i \<or> i = ?n" for i
      unfolding pending_def c' f using nl by (auto simp: less_Suc_eq)
    show "(mt_abs t ev \<noteq> None) = (\<exists>i. pending q' i \<and> ev = tx_sn q i)"
      unfolding p t3 using pend[of ev] by auto
  qed
  moreover have "mrw_ok q'" using ok by (simp add: am_ok_def mrw_ok_def f)
  moreover have "info_ok q'" using ok by (simp add: am_ok_def info_ok_def f)
  moreover have "added_pdu q q'"
    unfolding added_pdu_def
  proof (rule exI[of _ q0], rule exI[of _ sdu], rule exI[of _ ci], rule exI[of _ info], intro conjI)
    show "next_sdu q = Inr q0" using n(1) by (simp add: q0_def)
    show "at_currentSdu q0 = Some (sdu, ci)" by (fact ex(1))
    show "at_lteInfo q0 = Some info" by (fact ex(2))
    show "at_lteInfo q' = Some info" by (fact f(11))
    show "sends (at_out q') = sends (at_out q) @ [data_pdu sdu info q0]"
      unfolding q'_def sendPdu_def am_emit_def bs(1) using t(3) bs(2)
      by (simp add: q4_def q3_def q2_def q1_def q0_def pdu_def)
    show "at_sduQueue q' = at_sduQueue q0"
      unfolding q'_def sendPdu_def am_emit_def bs(1) by (simp add: q4_def q3_def q2_def q1_def)
    have "at_fragDesc q2 = at_fragDesc q0" by (simp add: q2_def q1_def)
    then show "case addFragment (at_fragDesc q0) of (complete, d) \<Rightarrow>
        at_currentSdu q' = (if complete then None else Some (sdu, ci)) \<and>
        at_fragDesc q' = (if complete then resetFragmentation d else d)"
      using d unfolding q'_def sendPdu_def am_emit_def bs(1) by (simp add: q4_def q3_def q2_def q1_def ex)
  qed
  ultimately show ?thesis using run c' z f(7) by (intro exI[of _ q']) (simp add: am_ok_def)
qed

text \<open>Nothing more can be sent: the window is full or no data is left.\<close>

definition am_sated :: "am_tx \<Rightarrow> bool" where
  "am_sated q \<longleftrightarrow> tx_count q = tx_size q \<or> (at_currentSdu q = None \<and> at_sduQueue q = [])"

lemma window_open: "at_seqNum q - at_firstSeqNum q < at_windowSize q \<longleftrightarrow> tx_count q < tx_size q"
  by (simp add: word_less_nat_alt tx_count_def tx_size_def)

lemma add_pdus_loop_ok:
  assumes "am_ok q" "tx_size q - tx_count q \<le> n"
  shows "\<exists>q'. add_pdus_loop n now q = Inr q' \<and> am_ok q' \<and> tx_first q' = tx_first q \<and> tx_size q' = tx_size q \<and>
    at_mrwSeqNum q' = at_mrwSeqNum q \<and> tx_count q \<le> tx_count q' \<and> am_sated q'"
  using assms
proof (induction n arbitrary: q)
  case 0
  then have "tx_count q = tx_size q" by (simp add: am_ok_def win_ok_def)
  then show ?case using 0 by (simp add: am_sated_def)
next
  case (Suc n)
  show ?case
  proof (cases "tx_count q < tx_size q \<and> \<not> (at_currentSdu q = None \<and> at_sduQueue q = [])")
    case True
    then obtain q1 where q1: "add_one_pdu now q = Inr q1" "am_ok q1" "tx_count q1 = Suc (tx_count q)"
      "tx_first q1 = tx_first q" "tx_size q1 = tx_size q" "at_mrwSeqNum q1 = at_mrwSeqNum q"
      using add_one_pdu_ok[OF Suc.prems(1)] by blast
    have "tx_size q1 - tx_count q1 \<le> n" using Suc.prems(2) q1 by simp
    from Suc.IH[OF q1(2) this] obtain q' where "add_pdus_loop n now q1 = Inr q'" "am_ok q'" "tx_first q' = tx_first q1"
      "tx_size q' = tx_size q1" "at_mrwSeqNum q' = at_mrwSeqNum q1" "tx_count q1 \<le> tx_count q'" "am_sated q'" by blast
    then show ?thesis using q1 True by (intro exI[of _ q']) (simp add: window_open)
  next
    case False
    have "tx_count q \<le> tx_size q" using Suc.prems(1) by (simp add: am_ok_def win_ok_def)
    then have "am_sated q" using False unfolding am_sated_def by (metis le_neq_implies_less)
    moreover have "add_pdus_loop (Suc n) now q = Inr q"
      using False by (simp only: add_pdus_loop.simps window_open if_False)
    ultimately show ?thesis using Suc.prems(1) by blast
  qed
qed

lemma addPdus_ok:
  assumes "am_ok q"
  shows "\<exists>q'. addPdus now q = Inr q' \<and> am_ok q' \<and> tx_first q' = tx_first q \<and> tx_size q' = tx_size q \<and>
    at_mrwSeqNum q' = at_mrwSeqNum q \<and> tx_count q \<le> tx_count q' \<and> am_sated q'"
  unfolding addPdus_def by (rule add_pdus_loop_ok[OF assms]) (simp add: tx_size_def)

lemma am_enque_ok:
  assumes "am_ok q"
  shows "\<exists>q'. am_enque now sdu q = Inr q' \<and> am_ok q' \<and> tx_first q' = tx_first q \<and> tx_size q' = tx_size q \<and>
    at_mrwSeqNum q' = at_mrwSeqNum q"
proof -
  let ?q1 = "q\<lparr>at_sduQueue := at_sduQueue q @ [sdu]\<rparr>"
  have ok: "am_ok ?q1" using assms
    by (simp add: am_ok_def win_ok_def pdu_timers_ok_def mrw_ok_def info_ok_def tx_size_def tx_first_def tx_count_def
        pending_def tx_sn_def)
  have z: "tx_first ?q1 = tx_first q" "tx_size ?q1 = tx_size q" by (simp_all add: tx_first_def tx_size_def)
  from addPdus_ok[OF ok, of now] z ok show ?thesis by (auto simp: am_enque_def Let_def)
qed

section \<open>Moving the window\<close>

text \<open>Dropping the first positions.\<close>

lemma drop_pdus_ok:
  assumes w: "win_ok q" "mt_ok (at_pduTimer q)" and m: "m \<le> tx_count q"
  shows "\<exists>a r d t os. foldE drop_pdu [0..<m] q = Inr (q\<lparr>at_pduRtxQueue := a, at_received := r, at_discarded := d,
      at_pduTimer := t, at_out := at_out q @ os\<rparr>) \<and> sends os = [] \<and>
    (\<forall>i. carr_get a i = (if i < m then None else carr_get (at_pduRtxQueue q) i)) \<and>
    length r = tx_size q \<and> length d = tx_size q \<and>
    (\<forall>i < tx_size q. r ! i = (if i < m then False else at_received q ! i) \<and>
       d ! i = (if i < m then False else at_discarded q ! i)) \<and>
    mt_ok t \<and> (\<forall>ev. mt_abs t ev = (if \<exists>i < m. ev = tx_sn q i then None else mt_abs (at_pduTimer q) ev))"
  using m
proof (induction m)
  case 0
  show ?case
    by (rule exI[of _ "at_pduRtxQueue q"], rule exI[of _ "at_received q"], rule exI[of _ "at_discarded q"],
        rule exI[of _ "at_pduTimer q"], rule exI[of _ "[]"]) (use w in \<open>simp add: win_ok_def\<close>)
next
  case (Suc m)
  then obtain a r d t os where IH: "foldE drop_pdu [0..<m] q = Inr (q\<lparr>at_pduRtxQueue := a, at_received := r, at_discarded := d,
      at_pduTimer := t, at_out := at_out q @ os\<rparr>)" "sends os = []"
    and a: "\<forall>i. carr_get a i = (if i < m then None else carr_get (at_pduRtxQueue q) i)"
    and l: "length r = tx_size q" "length d = tx_size q"
    and rd: "\<forall>i < tx_size q. r ! i = (if i < m then False else at_received q ! i) \<and>
       d ! i = (if i < m then False else at_discarded q ! i)"
    and t: "mt_ok t" "\<forall>ev. mt_abs t ev = (if \<exists>i < m. ev = tx_sn q i then None else mt_abs (at_pduTimer q) ev)"
    by auto
  define q1 where "q1 = q\<lparr>at_pduRtxQueue := a, at_received := r, at_discarded := d, at_pduTimer := t, at_out := at_out q @ os\<rparr>"
  have ml: "m < tx_count q" "m < tx_size q" using Suc.prems w(1) by (auto simp: win_ok_def)
  have g: "carr_get a m \<noteq> None" using a ml(1) w(1) by (simp add: win_ok_def)
  let ?q2 = "q1\<lparr>at_pduRtxQueue := carr_remove m a\<rparr>"
  have mt: "mt_ok (at_pduTimer ?q2)" using t(1) by (simp add: q1_def)
  from pdu_timer_cancel_ok[OF mt, of "tx_sn q m"] obtain t' os' where
    t': "pdu_timer_cancel (tx_sn q m) ?q2 = Inr (?q2\<lparr>at_pduTimer := t', at_out := at_out ?q2 @ os'\<rparr>)" "mt_ok t'" "sends os' = []"
      "mt_abs t' = (mt_abs t)(tx_sn q m := None)" by (auto simp: q1_def)
  have step: "drop_pdu m q1 = Inr (q\<lparr>at_pduRtxQueue := carr_remove m a, at_received := r[m := False],
      at_discarded := d[m := False], at_pduTimer := t', at_out := at_out q @ (os @ os')\<rparr>)"
    using g t'(1) ml(2) l by (simp add: drop_pdu_def q1_def tx_sn_def vec_put_def)
  have so: "sends (os @ os') = []" using IH(2) t'(3) by simp
  have run: "foldE drop_pdu [0..<Suc m] q = Inr (q\<lparr>at_pduRtxQueue := carr_remove m a, at_received := r[m := False],
      at_discarded := d[m := False], at_pduTimer := t', at_out := at_out q @ (os @ os')\<rparr>)"
    using IH(1) step by (simp add: foldE_append q1_def)
  have "\<forall>i. carr_get (carr_remove m a) i = (if i < Suc m then None else carr_get (at_pduRtxQueue q) i)"
    using a by (auto simp: carr_remove_def less_Suc_eq)
  moreover have "\<forall>i < tx_size q. r[m := False] ! i = (if i < Suc m then False else at_received q ! i) \<and>
       d[m := False] ! i = (if i < Suc m then False else at_discarded q ! i)"
    using rd l unfolding nth_list_update_split less_Suc_eq by auto
  moreover have "\<forall>ev. mt_abs t' ev = (if \<exists>i < Suc m. ev = tx_sn q i then None else mt_abs (at_pduTimer q) ev)"
    using t(2) unfolding t'(4) less_Suc_eq by auto
  moreover have "length (r[m := False]) = tx_size q" "length (d[m := False]) = tx_size q" using l by simp_all
  ultimately show ?case using run so t'(2) by blast
qed

text \<open>Shifting the others to the front.\<close>

lemma shift_pdus_ok:
  assumes l: "length (at_received q) = tx_size q" "length (at_discarded q) = tx_size q"
    and g: "\<forall>i. carr_get (at_pduRtxQueue q) i \<noteq> None \<longleftrightarrow> p \<le> i \<and> i < n" and n: "n \<le> tx_size q" "0 < p"
    and z: "\<forall>i < p. i < tx_size q \<longrightarrow> \<not> at_received q ! i \<and> \<not> at_discarded q ! i"
    and m: "p \<le> m" "m \<le> n"
  shows "\<exists>a r d. foldE (shift_pdu p) [p..<m] q = Inr (q\<lparr>at_pduRtxQueue := a, at_received := r, at_discarded := d\<rparr>) \<and>
    (\<forall>i. carr_get a i = (if i < m - p then carr_get (at_pduRtxQueue q) (i + p) else if i < m then None
                         else carr_get (at_pduRtxQueue q) i)) \<and>
    length r = tx_size q \<and> length d = tx_size q \<and>
    (\<forall>i < tx_size q. r ! i = (if i < m - p then at_received q ! (i + p) else if i < m then False else at_received q ! i) \<and>
       d ! i = (if i < m - p then at_discarded q ! (i + p) else if i < m then False else at_discarded q ! i))"
  using m
proof (induction m rule: dec_induct)
  case base
  have "\<forall>i < p. carr_get (at_pduRtxQueue q) i = None" using g by (metis leD)
  then show ?case
    by (intro exI[of _ "at_pduRtxQueue q"] exI[of _ "at_received q"] exI[of _ "at_discarded q"]) (use l z in auto)
next
  case (step m)
  then obtain a r d where IH: "foldE (shift_pdu p) [p..<m] q = Inr (q\<lparr>at_pduRtxQueue := a, at_received := r, at_discarded := d\<rparr>)"
    and a: "\<forall>i. carr_get a i = (if i < m - p then carr_get (at_pduRtxQueue q) (i + p) else if i < m then None
                         else carr_get (at_pduRtxQueue q) i)"
    and lr: "length r = tx_size q" "length d = tx_size q"
    and rd: "\<forall>i < tx_size q. r ! i = (if i < m - p then at_received q ! (i + p) else if i < m then False else at_received q ! i) \<and>
       d ! i = (if i < m - p then at_discarded q ! (i + p) else if i < m then False else at_discarded q ! i)"
    by auto
  define q1 where "q1 = q\<lparr>at_pduRtxQueue := a, at_received := r, at_discarded := d\<rparr>"
  have ml: "m < n" "m < tx_size q" using step.prems step.hyps n(1) by auto
  have "carr_get (at_pduRtxQueue q) m \<noteq> None" using g ml(1) step.hyps(1) by blast
  then obtain x where x: "carr_get (at_pduRtxQueue q) m = Some x" by auto
  have "\<not> m < m - p" by simp
  then have ax: "carr_get a m = Some x" using a x by simp
  have af: "carr_get (carr_remove m a) (m - p) = None" using a n(2) step.hyps(1) by (simp add: carr_remove_def)
  have mp: "m - p < tx_size q" "m - p \<noteq> m" using ml(2) n(2) step.hyps(1) by auto
  let ?a = "carr_set (carr_remove m a) (m - p) (Some x)"
  let ?r = "(r[m - p := r ! m])[m := False]" and ?d = "(d[m - p := d ! m])[m := False]"
  have st: "shift_pdu p m q1 = Inr (q\<lparr>at_pduRtxQueue := ?a, at_received := ?r, at_discarded := ?d\<rparr>)"
    using ax af ml(2) mp(1) lr by (simp add: shift_pdu_def q1_def carr_addAt_def vec_at_ok vec_put_def)
  have "[p..<Suc m] = [p..<m] @ [m]" using step.hyps(1) by simp
  then have run: "foldE (shift_pdu p) [p..<Suc m] q = Inr (q\<lparr>at_pduRtxQueue := ?a, at_received := ?r, at_discarded := ?d\<rparr>)"
    using IH st by (simp add: foldE_append q1_def)
  have ca: "\<forall>i. carr_get ?a i = (if i < Suc m - p then carr_get (at_pduRtxQueue q) (i + p) else if i < Suc m then None
                         else carr_get (at_pduRtxQueue q) i)"
  proof
    fix i
    have "Suc m - p = Suc (m - p)" "m - p + p = m" using step.hyps(1) by simp_all
    then show "carr_get ?a i = (if i < Suc m - p then carr_get (at_pduRtxQueue q) (i + p) else if i < Suc m then None
                         else carr_get (at_pduRtxQueue q) i)"
      using a x mp(2) by (auto simp: carr_remove_def less_Suc_eq)
  qed
  have crd: "\<forall>i < tx_size q. ?r ! i = (if i < Suc m - p then at_received q ! (i + p) else if i < Suc m then False else at_received q ! i) \<and>
       ?d ! i = (if i < Suc m - p then at_discarded q ! (i + p) else if i < Suc m then False else at_discarded q ! i)"
  proof (intro allI impI)
    fix i assume i: "i < tx_size q"
    have e: "Suc m - p = Suc (m - p)" "m - p + p = m" using step.hyps(1) by simp_all
    have rm: "r ! m = at_received q ! m" "d ! m = at_discarded q ! m" using rd ml(2) n(2) step.hyps(1) by auto
    consider "i = m" | "i = m - p" | "i \<noteq> m" "i \<noteq> m - p" by blast
    then show "?r ! i = (if i < Suc m - p then at_received q ! (i + p) else if i < Suc m then False else at_received q ! i) \<and>
       ?d ! i = (if i < Suc m - p then at_discarded q ! (i + p) else if i < Suc m then False else at_discarded q ! i)"
    proof cases
      case 1
      have "\<not> m < Suc m - p" using n(2) step.hyps(1) by simp
      then show ?thesis using 1 ml(2) lr mp by simp
    next
      case 2
      then show ?thesis using mp lr rm e by simp
    next
      case 3
      then show ?thesis using rd[rule_format, OF i] e(1) by (auto simp: less_Suc_eq)
    qed
  qed
  have "length ?r = tx_size q" "length ?d = tx_size q" using lr by simp_all
  then show ?case using run ca crd by blast
qed

text \<open>The positions behind are clean already.\<close>

lemma clean_positions_ok:
  assumes "\<forall>i \<in> set is. carr_get (at_pduRtxQueue q) i = None \<and> i < length (at_received q) \<and> \<not> at_received q ! i \<and>
    i < length (at_discarded q) \<and> \<not> at_discarded q ! i"
  shows "foldE clean_position is q = Inr q"
  using assms
proof (induction "is")
  case (Cons i js)
  have "(at_received q)[i := False] = at_received q" "(at_discarded q)[i := False] = at_discarded q"
    using Cons.prems by (simp_all add: list_update_same_conv)
  then have "clean_position i q = Inr q" using Cons.prems by (simp add: clean_position_def vec_put_def)
  then show ?case using Cons by simp
qed simp

text \<open>The whole shift: what was at a position is \<open>p\<close> positions further to the front.\<close>

definition shifted :: "nat \<Rightarrow> am_tx \<Rightarrow> am_tx \<Rightarrow> bool" where
  "shifted p q q' \<longleftrightarrow> at_firstSeqNum q' = at_firstSeqNum q + of_nat p \<and> at_seqNum q' = at_seqNum q \<and>
     at_windowSize q' = at_windowSize q \<and> length (at_received q') = tx_size q \<and> length (at_discarded q') = tx_size q \<and>
     (\<forall>i. carr_get (at_pduRtxQueue q') i = (if i < tx_count q - p then carr_get (at_pduRtxQueue q) (i + p) else None)) \<and>
     (\<forall>i < tx_size q. at_received q' ! i = (i < tx_count q - p \<and> at_received q ! (i + p)) \<and>
        at_discarded q' ! i = (i < tx_count q - p \<and> at_discarded q ! (i + p))) \<and>
     mt_ok (at_pduTimer q') \<and>
     (\<forall>ev. mt_abs (at_pduTimer q') ev = (if \<exists>i < p. ev = tx_sn q i then None else mt_abs (at_pduTimer q) ev)) \<and>
     at_mrwRtxQueue q' = at_mrwRtxQueue q \<and> at_mrwTimer q' = at_mrwTimer q \<and> at_mrwSeqNum q' = at_mrwSeqNum q \<and>
     at_lteInfo q' = at_lteInfo q \<and> at_fragDesc q' = at_fragDesc q \<and> at_currentSdu q' = at_currentSdu q \<and>
     at_sduQueue q' = at_sduQueue q \<and> sends (at_out q') = sends (at_out q)"

lemma shifted_ok:
  assumes ok: "am_ok q" and room: "am_room q" and p: "p \<le> tx_count q" and s: "shifted p q q'"
  shows "am_ok q' \<and> tx_first q' = tx_first q + p \<and> tx_count q' = tx_count q - p \<and> tx_size q' = tx_size q"
proof -
  let ?n = "tx_count q"
  have w: "win_ok q" and t: "\<And>ev. mt_abs (at_pduTimer q) ev \<noteq> None \<longleftrightarrow> (\<exists>i. pending q i \<and> ev = tx_sn q i)"
    using ok by (auto simp: am_ok_def pdu_timers_ok_def)
  have b: "tx_first q + tx_size q < 2 ^ 31" "?n \<le> tx_size q" using w by (auto simp: win_ok_def)
  have bb: "tx_first q + 2 * tx_size q < 2 ^ 31" using room by (simp add: am_room_def)
  have z: "tx_size q' = tx_size q" using s by (simp add: shifted_def tx_size_def)
  have f: "at_firstSeqNum q' = tx_sn q p" using s by (simp add: shifted_def tx_sn_def add.commute)
  have fi: "tx_first q' = tx_first q + p" unfolding tx_first_def f
    using unat_tx_sn[of q p] p b by (simp add: tx_first_def)
  have sn: "tx_sn q' i = tx_sn q (i + p)" for i unfolding tx_sn_def f by (simp add: add.assoc)
  have "at_seqNum q' = at_seqNum q" using s by (simp add: shifted_def)
  also have "\<dots> = tx_sn q' (?n - p)" using p by (simp add: sn seqNum_eq)
  finally have c: "tx_count q' = ?n - p" using b by (intro count_of_seq[of q' q', OF _ refl]) simp_all
  have g: "carr_get (at_pduRtxQueue q') i \<noteq> None \<longleftrightarrow> i < ?n - p" for i
    using s w p by (auto simp: shifted_def win_ok_def)
  have rd: "at_received q' ! i = (i < ?n - p \<and> at_received q ! (i + p))" "at_discarded q' ! i = (i < ?n - p \<and> at_discarded q ! (i + p))"
    if "i < tx_size q" for i using s that by (auto simp: shifted_def)
  have "win_ok q'"
    unfolding win_ok_def z c fi using s b(2) bb p g rd by (auto simp: shifted_def)
  moreover have pe: "pending q' i \<longleftrightarrow> pending q (i + p)" for i
  proof (cases "i < tx_count q - p")
    case True
    then have "i < tx_size q" "i + p < tx_count q" using b(2) by simp_all
    then show ?thesis using rd[of i] True by (simp add: pending_def c)
  next
    case False
    then have "\<not> i + p < tx_count q" by simp
    then show ?thesis using False by (simp add: pending_def c)
  qed
  have "pdu_timers_ok q'"
    unfolding pdu_timers_ok_def
  proof (intro conjI allI)
    show "mt_ok (at_pduTimer q')" using s by (simp add: shifted_def)
    fix ev
    have "mt_abs (at_pduTimer q') ev \<noteq> None \<longleftrightarrow> \<not> (\<exists>i < p. ev = tx_sn q i) \<and> mt_abs (at_pduTimer q) ev \<noteq> None"
      using s by (simp add: shifted_def)
    also have "\<dots> \<longleftrightarrow> \<not> (\<exists>i < p. ev = tx_sn q i) \<and> (\<exists>j. pending q j \<and> ev = tx_sn q j)" unfolding t ..
    also have "\<dots> \<longleftrightarrow> (\<exists>i. pending q' i \<and> ev = tx_sn q' i)"
    proof
      assume a: "\<not> (\<exists>i < p. ev = tx_sn q i) \<and> (\<exists>j. pending q j \<and> ev = tx_sn q j)"
      then obtain j where j: "pending q j" "ev = tx_sn q j" by blast
      then have "\<not> j < p" using a by blast
      then have "j = (j - p) + p" by simp
      then show "\<exists>i. pending q' i \<and> ev = tx_sn q' i" using j unfolding pe sn by metis
    next
      assume "\<exists>i. pending q' i \<and> ev = tx_sn q' i"
      then obtain i where i: "pending q (i + p)" "ev = tx_sn q (i + p)" unfolding pe sn by blast
      have "ev \<noteq> tx_sn q j" if "j < p" for j
        using tx_sn_inj[of q "i + p" j] pending_less[OF w i(1)] that i(2) by simp
      then show "\<not> (\<exists>i < p. ev = tx_sn q i) \<and> (\<exists>j. pending q j \<and> ev = tx_sn q j)" using i by blast
    qed
    finally show "(mt_abs (at_pduTimer q') ev \<noteq> None) = (\<exists>i. pending q' i \<and> ev = tx_sn q' i)" .
  qed
  moreover have "mrw_ok q'" using ok s by (simp add: am_ok_def mrw_ok_def shifted_def)
  moreover have "info_ok q'" using ok s c by (auto simp: am_ok_def info_ok_def shifted_def)
  ultimately show ?thesis using c fi z by (simp add: am_ok_def)
qed

lemma moveTxWindow_eq:
  assumes ok: "am_ok q" and sn: "sn = int (tx_first q + p)" "0 < p" "p \<le> tx_count q"
  shows "\<exists>q'. moveTxWindow now sn q = addPdus now q' \<and> shifted p q q'"
proof -
  let ?n = "tx_count q"
  have w: "win_ok q" and tm: "mt_ok (at_pduTimer q)" using ok by (auto simp: am_ok_def pdu_timers_ok_def)
  have b: "?n \<le> tx_size q" "length (at_received q) = tx_size q" using w by (auto simp: win_ok_def)
  have ix: "tx_index sn q = int p" unfolding sn(1) using sn(3) b by (intro tx_index_pos[OF w]) simp
  from drop_pdus_ok[OF w tm sn(3)] obtain a r d t os where
    q1: "foldE drop_pdu [0..<p] q = Inr (q\<lparr>at_pduRtxQueue := a, at_received := r, at_discarded := d,
      at_pduTimer := t, at_out := at_out q @ os\<rparr>)" and so: "sends os = []"
    and a: "\<forall>i. carr_get a i = (if i < p then None else carr_get (at_pduRtxQueue q) i)"
    and l: "length r = tx_size q" "length d = tx_size q"
    and rd: "\<forall>i < tx_size q. r ! i = (if i < p then False else at_received q ! i) \<and>
       d ! i = (if i < p then False else at_discarded q ! i)"
    and t: "mt_ok t" "\<forall>ev. mt_abs t ev = (if \<exists>i < p. ev = tx_sn q i then None else mt_abs (at_pduTimer q) ev)"
    by blast
  define q1 where "q1 = q\<lparr>at_pduRtxQueue := a, at_received := r, at_discarded := d, at_pduTimer := t, at_out := at_out q @ os\<rparr>"
  have z1: "tx_size q1 = tx_size q" "tx_count q1 = ?n" by (simp_all add: q1_def tx_size_def tx_count_def)
  have q1f: "at_received q1 = r" "at_discarded q1 = d" by (simp_all add: q1_def)
  have g1: "\<forall>i. carr_get (at_pduRtxQueue q1) i \<noteq> None \<longleftrightarrow> p \<le> i \<and> i < ?n"
    using a w by (auto simp: q1_def win_ok_def)
  have c1: "\<forall>i < p. i < tx_size q1 \<longrightarrow> \<not> at_received q1 ! i \<and> \<not> at_discarded q1 ! i" using rd by (simp add: q1_def z1(1)[unfolded q1_def])
  have l1: "length (at_received q1) = tx_size q1" "length (at_discarded q1) = tx_size q1" using l unfolding z1 by (simp_all add: q1_def)
  have n1: "?n \<le> tx_size q1" using b by (simp add: z1)
  from shift_pdus_ok[OF l1 g1 n1 sn(2) c1 sn(3) le_refl] obtain a2 r2 d2 where
    q2: "foldE (shift_pdu p) [p..<?n] q1 = Inr (q1\<lparr>at_pduRtxQueue := a2, at_received := r2, at_discarded := d2\<rparr>)"
    and a2: "\<forall>i. carr_get a2 i = (if i < ?n - p then carr_get (at_pduRtxQueue q1) (i + p) else if i < ?n then None
                         else carr_get (at_pduRtxQueue q1) i)"
    and l2: "length r2 = tx_size q1" "length d2 = tx_size q1"
    and rd2: "\<forall>i < tx_size q1. r2 ! i = (if i < ?n - p then at_received q1 ! (i + p) else if i < ?n then False else at_received q1 ! i) \<and>
       d2 ! i = (if i < ?n - p then at_discarded q1 ! (i + p) else if i < ?n then False else at_discarded q1 ! i)"
    by blast
  define q2 where "q2 = q1\<lparr>at_pduRtxQueue := a2, at_received := r2, at_discarded := d2\<rparr>"
  have z2: "tx_count q2 = ?n" "unat (at_windowSize q2) = tx_size q"
    by (simp_all add: q2_def q1_def tx_count_def tx_size_def)
  have A2: "carr_get a2 i = (if i < ?n - p then carr_get (at_pduRtxQueue q) (i + p) else None)" for i
    using a2 a w by (auto simp: q1_def win_ok_def) 
  have R2: "r2 ! i = (i < ?n - p \<and> at_received q ! (i + p)) \<and> d2 ! i = (i < ?n - p \<and> at_discarded q ! (i + p))" if i: "i < tx_size q" for i
  proof -
    have *: "r ! j = (if j < p then False else at_received q ! j) \<and> d ! j = (if j < p then False else at_discarded q ! j)"
      if "j < tx_size q" for j using rd that by blast
    have "\<not> r ! i \<and> \<not> d ! i" if "?n \<le> i" using *[OF i] w i that by (auto simp: win_ok_def)
    moreover have "r2 ! i = (if i < ?n - p then r ! (i + p) else if i < ?n then False else r ! i) \<and>
       d2 ! i = (if i < ?n - p then d ! (i + p) else if i < ?n then False else d ! i)"
      using rd2 i by (simp add: z1 q1f)
    moreover have "i < ?n - p \<Longrightarrow> i + p < tx_size q" using b(1) by simp
    ultimately show ?thesis using *[of "i + p"] by (cases "i < ?n - p"; cases "i < ?n") simp_all
  qed
  have "foldE clean_position [?n..<tx_size q] q2 = Inr q2"
    by (rule clean_positions_ok) (use A2 R2 l2 in \<open>auto simp: q2_def z1\<close>)
  then have "moveTxWindow now sn q = addPdus now (q2\<lparr>at_firstSeqNum := at_firstSeqNum q2 + of_nat p\<rparr>)"
    using q1 q2 sn(2) unfolding moveTxWindow_def
    by (simp add: Let_def ix z1 z2 flip: q1_def q2_def)
  moreover have "shifted p q (q2\<lparr>at_firstSeqNum := at_firstSeqNum q2 + of_nat p\<rparr>)"
    using A2 R2 l2 t so by (simp add: shifted_def q2_def q1_def tx_size_def)
  ultimately show ?thesis by blast
qed

lemma moveTxWindow_ok:
  assumes ok: "am_ok q" and room: "am_room q" and sn: "0 \<le> sn" "sn \<le> int (tx_first q + tx_count q)"
  shows "\<exists>q'. moveTxWindow now sn q = Inr q' \<and> am_ok q' \<and> tx_first q' = max (tx_first q) (nat sn) \<and>
    tx_size q' = tx_size q \<and> at_mrwSeqNum q' = at_mrwSeqNum q"
proof (cases "sn \<le> int (tx_first q)")
  case True
  have b: "tx_first q + tx_size q < 2 ^ 31" "tx_count q \<le> tx_size q" using ok by (auto simp: am_ok_def win_ok_def)
  have "tx_index sn q = sn - int (tx_first q)" using sn b by (intro tx_index_eq) auto
  then have "moveTxWindow now sn q = Inr q" using True by (simp add: moveTxWindow_def)
  then show ?thesis using ok True by auto
next
  case False
  define p where "p = nat sn - tx_first q"
  have p: "sn = int (tx_first q + p)" "0 < p" "p \<le> tx_count q" using False sn by (auto simp: p_def)
  obtain q1 where q1: "moveTxWindow now sn q = addPdus now q1" "shifted p q q1" using moveTxWindow_eq[OF ok p] by blast
  note s = shifted_ok[OF ok room p(3) q1(2)]
  have "at_mrwSeqNum q1 = at_mrwSeqNum q" using q1(2) by (simp add: shifted_def)
  then show ?thesis using addPdus_ok[of q1 now] s q1(1) p by auto
qed

end
