(* ===== verification/AmTxSafety.thy ===== *)
theory AmTxSafety
  imports AmTxOps UmReassembly
begin

text \<open>
  The transmission queue of the acknowledged mode in operation: with a receiver that reports only
  what has been sent, no event makes it throw, and a PDU has a running timer exactly while it is
  neither acknowledged nor given up; what the expiry of this timer does.
\<close>

section \<open>Control packets\<close>

lemma recvMrwAck_ok:
  assumes "am_ok q"
  shows "\<exists>q'. recvMrwAck sn q = Inr q' \<and> am_ok q'"
proof (cases "sn < 0 \<or> carr_get (at_mrwRtxQueue q) (nat sn) = None")
  case True
  then show ?thesis using assms by (intro exI[of _ q]) (simp add: recvMrwAck_def)
next
  case False
  let ?a = "carr_remove (nat sn) (at_mrwRtxQueue q)"
  have m: "mt_ok (at_mrwTimer q)" "\<And>ev. mt_abs (at_mrwTimer q) ev \<noteq> None \<longleftrightarrow> carr_get (at_mrwRtxQueue q) (unat ev) \<noteq> None"
    "\<And>i. carr_get (at_mrwRtxQueue q) i \<noteq> None \<Longrightarrow> i < unat (at_mrwSeqNum q)" "unat (at_mrwSeqNum q) < 2 ^ 31"
    using assms by (auto simp: am_ok_def mrw_ok_def)
  have "nat sn < unat (at_mrwSeqNum q)" using m(3) False by simp
  then have u: "unat (of_int sn :: u32) = nat sn" using False m(4) by (intro of_int_pos_u32) auto
  have "mt_ok (at_mrwTimer (q\<lparr>at_mrwRtxQueue := ?a\<rparr>))" using m(1) by simp
  from mrw_timer_cancel_ok[OF this, of "of_int sn"] obtain t os where
    t: "mrw_timer_cancel (of_int sn) (q\<lparr>at_mrwRtxQueue := ?a\<rparr>) = Inr (q\<lparr>at_mrwRtxQueue := ?a, at_mrwTimer := t, at_out := at_out q @ os\<rparr>)"
      "mt_ok t" "mt_abs t = (mt_abs (at_mrwTimer q))(of_int sn := None)" by auto
  have "mrw_ok (q\<lparr>at_mrwRtxQueue := ?a, at_mrwTimer := t, at_mrwSeqNum := at_mrwSeqNum q\<rparr>)"
    unfolding mrw_ok_def
  proof (intro conjI allI impI)
    show "mt_ok (at_mrwTimer (q\<lparr>at_mrwRtxQueue := ?a, at_mrwTimer := t, at_mrwSeqNum := at_mrwSeqNum q\<rparr>))" using t(2) by simp
    show "unat (at_mrwSeqNum (q\<lparr>at_mrwRtxQueue := ?a, at_mrwTimer := t, at_mrwSeqNum := at_mrwSeqNum q\<rparr>)) < 2 ^ 31"
      using m(4) by simp
  next
    fix e :: u32
    have "e = of_int sn \<longleftrightarrow> unat e = unat (of_int sn :: u32)" by (rule word_unat_eq_iff)
    then have "nat sn = unat e \<longleftrightarrow> e = of_int sn" using u by presburger
    then show "(mt_abs (at_mrwTimer (q\<lparr>at_mrwRtxQueue := ?a, at_mrwTimer := t, at_mrwSeqNum := at_mrwSeqNum q\<rparr>)) e \<noteq> None) =
        (carr_get (at_mrwRtxQueue (q\<lparr>at_mrwRtxQueue := ?a, at_mrwTimer := t, at_mrwSeqNum := at_mrwSeqNum q\<rparr>)) (unat e) \<noteq> None)"
      using m(2)[of e] by (simp add: t(3) carr_remove_def)
  next
    fix i assume "carr_get (at_mrwRtxQueue (q\<lparr>at_mrwRtxQueue := ?a, at_mrwTimer := t, at_mrwSeqNum := at_mrwSeqNum q\<rparr>)) i \<noteq> None"
    then show "i < unat (at_mrwSeqNum (q\<lparr>at_mrwRtxQueue := ?a, at_mrwTimer := t, at_mrwSeqNum := at_mrwSeqNum q\<rparr>))"
      using m(3)[of i] by (simp add: carr_remove_def split: if_splits)
  qed
  from am_ok_mrw[OF assms this, where l = "at_lastMrw q" and os = "at_out q @ os"]
  have "am_ok (q\<lparr>at_mrwRtxQueue := ?a, at_mrwTimer := t, at_out := at_out q @ os\<rparr>)" by simp
  then show ?thesis using t(1) False by (auto simp: recvMrwAck_def)
qed

text \<open>What an honest receiver says: only numbers of PDUs that have been sent.\<close>

definition honest :: "am_tx \<Rightarrow> am_pdu \<Rightarrow> bool" where
  "honest q p \<longleftrightarrow> (case ap_amType p of
      AM_MRW_ACK \<Rightarrow> unat (ap_snoFragment p) \<le> tx_first q + tx_count q
    | AM_ACK \<Rightarrow> - 1 \<le> ap_lastSn p \<and> ap_lastSn p < int (tx_first q + tx_count q) \<and>
        (\<forall>i < length (ap_bitmap p). ap_bitmap p ! i \<longrightarrow>
           0 \<le> ap_firstSn p + int i \<and> ap_firstSn p + int i < int (tx_first q + tx_count q))
    | AM_DATA \<Rightarrow> True | AM_MRW \<Rightarrow> True)"

text \<open>An acknowledgment marks what it says and nothing else.\<close>

definition ack_numbers :: "am_pdu \<Rightarrow> int set" where
  "ack_numbers p = {..ap_lastSn p} \<union> {ap_firstSn p + int i |i. i < length (ap_bitmap p) \<and> ap_bitmap p ! i}"

lemma ack_bitmap_ok:
  assumes ok: "am_ok q" and b: "\<forall>i < n. b ! i \<longrightarrow> 0 \<le> sn + int i \<and> sn + int i < int (tx_first q + tx_count q)"
  shows "\<exists>q'. foldE (\<lambda>i q. if b ! i then recvAck (sn + int i) q else Inr q) [0..<n] q = Inr q' \<and>
    am_ok q' \<and> acked {sn + int i |i. i < n \<and> b ! i} q q'"
  using b
proof (induction n)
  case 0
  then show ?case using ok acked_none[of q "{}"] by simp
next
  case (Suc n)
  then obtain q1 where q1: "foldE (\<lambda>i q. if b ! i then recvAck (sn + int i) q else Inr q) [0..<n] q = Inr q1" "am_ok q1"
    "acked {sn + int i |i. i < n \<and> b ! i} q q1" by auto
  show ?case
  proof (cases "b ! n")
    case True
    then have "0 \<le> sn + int n" "sn + int n < int (tx_first q1 + tx_count q1)"
      using Suc.prems acked_simps[OF q1(3)] by auto
    from recvAck_ok[OF q1(2) this] obtain q2 where q2: "recvAck (sn + int n) q1 = Inr q2" "am_ok q2" "acked {sn + int n} q1 q2"
      by blast
    have "acked {sn + int i |i. i < Suc n \<and> b ! i} q q2"
      by (rule acked_trans[OF q1(3) q2(3)]) (use True in \<open>auto simp: less_Suc_eq\<close>)
    then show ?thesis using q1(1) q2(1,2) True by (simp add: foldE_append)
  next
    case False
    then have "{sn + int i |i. i < Suc n \<and> b ! i} = {sn + int i |i. i < n \<and> b ! i}" by (auto simp: less_Suc_eq)
    then show ?thesis using q1 False by (simp add: foldE_append)
  qed
qed

lemma handle_ack_ok:
  assumes ok: "am_ok q" and room: "am_room q" and h: "honest q p" and t: "ap_amType p = AM_ACK"
  shows "\<exists>q'. handleControlPacket now p q = Inr q' \<and> am_ok q' \<and> acked (ack_numbers p) q q'"
proof -
  from recvCumulativeAck_ok[OF ok room, of "ap_lastSn p" now] h t obtain q1 where
    q1: "recvCumulativeAck now (ap_lastSn p) q = Inr q1" "am_ok q1" "acked {..ap_lastSn p} q q1"
    by (auto simp: honest_def)
  have "\<forall>i < length (ap_bitmap p). ap_bitmap p ! i \<longrightarrow>
      0 \<le> ap_firstSn p + int i \<and> ap_firstSn p + int i < int (tx_first q1 + tx_count q1)"
    using h t acked_simps[OF q1(3)] by (simp add: honest_def)
  from ack_bitmap_ok[OF q1(2) this] obtain q' where
    q': "foldE (\<lambda>i q. if ap_bitmap p ! i then recvAck (ap_firstSn p + int i) q else Inr q) [0..<length (ap_bitmap p)] q1 = Inr q'"
      "am_ok q'" "acked {ap_firstSn p + int i |i. i < length (ap_bitmap p) \<and> ap_bitmap p ! i} q1 q'" by blast
  have "acked (ack_numbers p) q q'" by (rule acked_trans[OF q1(3) q'(3)]) (simp add: ack_numbers_def)
  then show ?thesis using q1(1) q'(1,2) t by (auto simp: handleControlPacket_def)
qed

lemma handleControlPacket_ok:
  assumes ok: "am_ok q" and room: "am_room q" and h: "honest q p"
  shows "\<exists>q'. handleControlPacket now p q = Inr q' \<and> am_ok q'"
proof (cases "ap_amType p")
  case AM_MRW_ACK
  have b: "tx_first q + tx_count q < 2 ^ 31" using ok by (auto simp: am_ok_def win_ok_def)
  have u: "unat (ap_snoFragment p) \<le> tx_first q + tx_count q" using h AM_MRW_ACK by (simp add: honest_def)
  have "sint (ap_snoFragment p) = int (unat (ap_snoFragment p))" using b u by (intro sint_u32_small) simp
  moreover have "int (unat (ap_snoFragment p)) \<le> int (tx_first q + tx_count q)" using u by (simp only: of_nat_le_iff)
  ultimately have "0 \<le> sint (ap_snoFragment p)" "sint (ap_snoFragment p) \<le> int (tx_first q + tx_count q)" by simp_all
  from moveTxWindow_ok[OF ok room this, of now] obtain q1 where
    "moveTxWindow now (sint (ap_snoFragment p)) q = Inr q1" "am_ok q1" by blast
  then show ?thesis using recvMrwAck_ok[of q1 "sint (ap_snoMainPacket p)"] AM_MRW_ACK
    by (auto simp: handleControlPacket_def)
next
  case AM_ACK
  then show ?thesis using handle_ack_ok[OF ok room h] by blast
qed (use ok in \<open>auto simp: handleControlPacket_def\<close>)

section \<open>Timers\<close>

text \<open>The earliest event of the timer is that of a pending PDU; taking it out leaves the others.\<close>

lemma pdu_timer_head:
  assumes ok: "am_ok q" and n: "mt_direct (at_pduTimer q) = n # ns"
  shows "\<exists>i t calls. pending q i \<and> tn_event n = tx_sn q i \<and> sint (tn_event n) = int (tx_first q + i) \<and>
    mt_handle (of_int (sint (tn_event n))) (at_pduTimer q) = Inr (t, calls) \<and> mt_ok t \<and>
    mt_abs t = (mt_abs (at_pduTimer q))(tx_sn q i := None)"
proof -
  have w: "win_ok q" and m: "mt_ok (at_pduTimer q)"
    and pe: "\<And>ev. mt_abs (at_pduTimer q) ev \<noteq> None \<longleftrightarrow> (\<exists>i. pending q i \<and> ev = tx_sn q i)"
    using ok by (auto simp: am_ok_def pdu_timers_ok_def)
  have "mt_abs (at_pduTimer q) (tn_event n) \<noteq> None"
    using mt_abs_iff[OF m, of "tn_event n" "tn_time n"] n by auto
  then obtain i where i: "pending q i" "tn_event n = tx_sn q i" using pe by blast
  have b: "tx_first q + i < 2 ^ 31" using w i(1) by (auto simp: win_ok_def pending_def)
  have "unat (tx_sn q i) = tx_first q + i" using b by (intro unat_tx_sn) simp
  then have "sint (tn_event n) = int (tx_first q + i)" unfolding i(2) using b by (subst sint_u32_small) simp_all
  moreover from mt_handle_effect[OF m n] obtain t calls where "mt_handle (of_int (sint (tn_event n))) (at_pduTimer q) = Inr (t, calls)"
    "mt_ok t" "mt_abs t = (mt_abs (at_pduTimer q))(tn_event n := None)" by blast
  ultimately show ?thesis using i by metis
qed

text \<open>A PDU whose timer expires is sent again, or its SDU is given up.\<close>

lemma pduTimerHandle_ok:
  assumes ok: "am_ok q" and room: "am_room q" and slot: "slot_law slot"
    and n: "mt_direct (at_pduTimer q) = n # ns"
  shows "\<exists>i p q'. pending q i \<and> tn_event n = tx_sn q i \<and> carr_get (at_pduRtxQueue q) i = Some p \<and>
    pduTimerHandle slot now (sint (tn_event n)) q = Inr q' \<and> am_ok q' \<and> at_received q' = at_received q \<and>
    tx_first q' = tx_first q \<and> tx_count q' = tx_count q \<and>
    (if uint (ap_txNumber p) + 1 \<le> at_maxRtx q
     then (let p' = p\<lparr>ap_txNumber := ap_txNumber p + 1\<rparr> in
       sends (at_out q') = sends (at_out q) @ [p'] \<and> at_discarded q' = at_discarded q \<and>
       (\<forall>j. carr_get (at_pduRtxQueue q') j = (if j = i then Some p' else carr_get (at_pduRtxQueue q) j)) \<and>
       mt_abs (at_pduTimer q') = (mt_abs (at_pduTimer q))(tn_event n \<mapsto> now + at_pduRtxTimeout q * simtime_s))
     else (\<forall>j < tx_size q. at_discarded q' ! j \<longleftrightarrow> at_discarded q ! j \<or> j \<in> sdu_run q i) \<and>
       map ap_lastSn (drop (length (sends (at_out q))) (sends (at_out q'))) =
         (if settled q' = 0 then [] else [int (tx_first q + settled q')]) \<and>
       take (length (sends (at_out q))) (sends (at_out q')) = sends (at_out q))"
proof -
  obtain i t calls where i: "pending q i" "tn_event n = tx_sn q i" "sint (tn_event n) = int (tx_first q + i)"
    and t: "mt_handle (of_int (sint (tn_event n))) (at_pduTimer q) = Inr (t, calls)" "mt_ok t"
      "mt_abs t = (mt_abs (at_pduTimer q))(tx_sn q i := None)"
    using pdu_timer_head[OF ok n] by blast
  define q0 where "q0 = q\<lparr>at_pduTimer := t, at_out := at_out q @ map PduTimerCall calls\<rparr>"
  have w: "win_ok q" using ok by (simp add: am_ok_def)
  have ic: "i < tx_count q" "i < tx_size q" using i(1) w by (auto simp: pending_def win_ok_def)
  obtain p where p: "carr_get (at_pduRtxQueue q) i = Some p" using w ic(1) by (auto simp: win_ok_def)
  have sw0: "same_window q q0" unfolding same_window_def q0_def
    by (intro exI[of _ "at_received q"] exI[of _ "at_discarded q"] exI[of _ t] exI[of _ "map PduTimerCall calls"]) simp
  note z0 = same_window_simps[OF sw0]
  have r0: "at_received q0 = at_received q" "at_discarded q0 = at_discarded q" "at_maxRtx q0 = at_maxRtx q"
    "at_pduRtxTimeout q0 = at_pduRtxTimeout q" "at_pduTimer q0 = t" by (simp_all add: q0_def)
  have w0: "win_ok q0" using w unfolding win_ok_def z0 r0 .
  have p0: "pending q0 = pending q" by (rule ext) (simp add: pending_def z0 r0)
  have tb: "timers_but i q0" using ok t unfolding timers_but_def z0 p0 am_ok_def pdu_timers_ok_def by (simp add: q0_def)
  have ix: "tx_index (sint (tn_event n)) q = int i" unfolding i(3) using ic(2) by (intro tx_index_pos[OF w]) simp
  have nw: "\<not> at_windowSize q0 \<le> of_int (int i)" using in_window_pos[OF w0, of i] ic(2) by (simp add: z0)
  have nr: "i < length (at_received q)" "\<not> at_received q ! i" using i(1) w ic by (auto simp: pending_def win_ok_def)
  define sn where "sn = sint (tn_event n)"
  have sn: "tx_index sn q = int i" "(of_int sn :: u32) = tx_sn q i" "sn = int (tx_first q + i)"
    using ix unfolding sn_def i(3) of_int_sn by (simp_all only:)
  have step: "pduTimerHandle slot now sn q =
      (if at_maxRtx q < uint (ap_txNumber p) + 1 then am_discard now sn q0
       else let a = carr_remove i (at_pduRtxQueue q0); p' = p\<lparr>ap_txNumber := of_int (uint (ap_txNumber p) + 1)\<rparr>
            in bindE (pdu_timer_add now (tx_sn q i) (q0\<lparr>at_pduRtxQueue := carr_set a (slot a) (Some p')\<rparr>))
                 (\<lambda>q1. Inr (sendPdu p' q1)))"
  proof -
    have e: "am_emit (map PduTimerCall calls) (q\<lparr>at_pduTimer := t\<rparr>) = q0" by (simp add: am_emit_def q0_def)
    have h: "mt_handle (tx_sn q i) (at_pduTimer q) = Inr (t, calls)" using t(1) by (simp only: sn_def[symmetric] sn(2))
    have g: "carr_get (at_pduRtxQueue q0) i = Some p" using p by (simp add: z0)
    show ?thesis using nw nr unfolding pduTimerHandle_def sn(1,2) h
      by (simp add: Let_def e g r0 vec_at_ok)
  qed
  show ?thesis
  proof (cases "uint (ap_txNumber p) + 1 \<le> at_maxRtx q")
    case True
    define p' where "p' = p\<lparr>ap_txNumber := ap_txNumber p + 1\<rparr>"
    define a where "a = carr_remove i (at_pduRtxQueue q0)"
    have "carr_get a i = None" "\<forall>j < i. carr_get a j \<noteq> None" using w ic(1) by (auto simp: a_def carr_remove_def z0 win_ok_def)
    then have sl: "slot a = i" using slot by (simp add: slot_law_def)
    have tf: "mt_ok (at_pduTimer (q0\<lparr>at_pduRtxQueue := carr_set a i (Some p')\<rparr>))"
      "mt_abs (at_pduTimer (q0\<lparr>at_pduRtxQueue := carr_set a i (Some p')\<rparr>)) (tx_sn q i) = None"
      using t(2,3) by (simp_all add: r0)
    from pdu_timer_add_ok[OF tf, of now] obtain t' os where
      t': "pdu_timer_add now (tx_sn q i) (q0\<lparr>at_pduRtxQueue := carr_set a i (Some p')\<rparr>)
          = Inr (q0\<lparr>at_pduRtxQueue := carr_set a i (Some p'), at_pduTimer := t', at_out := at_out q0 @ os\<rparr>)" "sends os = []" "mt_ok t'"
        "mt_abs t' = (mt_abs (at_pduTimer q))(tx_sn q i \<mapsto> now + at_pduRtxTimeout q * simtime_s)"
      by (auto simp: r0 t(3))
    define q' where "q' = sendPdu p' (q0\<lparr>at_pduRtxQueue := carr_set a i (Some p'), at_pduTimer := t', at_out := at_out q0 @ os\<rparr>)"
    have run: "pduTimerHandle slot now sn q = Inr q'"
      unfolding step using True t'(1) by (simp add: Let_def q'_def sl flip: a_def p'_def) 
    have z: "tx_size q' = tx_size q" "tx_count q' = tx_count q" "tx_first q' = tx_first q" "tx_sn q' = tx_sn q"
      "at_received q' = at_received q" "at_discarded q' = at_discarded q" "at_pduTimer q' = t'"
      by (simp_all add: q'_def sendPdu_def am_emit_def q0_def tx_size_def tx_count_def tx_first_def tx_sn_def[abs_def])
    have g: "carr_get (at_pduRtxQueue q') j = (if j = i then Some p' else carr_get (at_pduRtxQueue q) j)" for j
      by (simp add: q'_def sendPdu_def am_emit_def a_def carr_remove_def z0)
    have "win_ok q'" using w ic unfolding win_ok_def z g by auto
    moreover have pq: "pending q' = pending q" by (rule ext) (simp add: pending_def z)
    have "pdu_timers_ok q'" unfolding pdu_timers_ok_def z pq
    proof (intro conjI allI)
      show "mt_ok t'" by fact
      fix ev show "(mt_abs t' ev \<noteq> None) = (\<exists>i. pending q i \<and> ev = tx_sn q i)"
        using ok i(1) unfolding t'(4) am_ok_def pdu_timers_ok_def by auto
    qed
    moreover have "mrw_ok q'" "info_ok q'" using ok z(2)
      by (simp_all add: am_ok_def mrw_ok_def info_ok_def q'_def sendPdu_def am_emit_def q0_def)
    ultimately have "am_ok q'" by (simp add: am_ok_def)
    moreover have "sends (at_out q') = sends (at_out q) @ [p']"
      using t'(2) by (simp add: q'_def sendPdu_def am_emit_def q0_def)
    ultimately show ?thesis using i(1,2) p run[unfolded sn_def i(2)] z g t'(4) True
      by (intro exI[of _ i] exI[of _ p] exI[of _ q']) (simp add: p'_def Let_def)
  next
    case False
    from am_discard_ok[OF w0 tb, of now] ok ic obtain q1 where
      q1: "am_discard now (int (tx_first q + i)) q0 = checkForMrw now q1" "am_ok q1" "same_window q0 q1"
        "at_received q1 = at_received q" "\<forall>j < tx_size q. at_discarded q1 ! j \<longleftrightarrow> at_discarded q ! j \<or> j \<in> sdu_run q0 i"
      by (auto simp: am_ok_def z0 r0)
    note z1 = same_window_simps[OF q1(3)]
    have sr: "sdu_run q0 i = sdu_run q i" by (simp add: sdu_run_def sdu_at_same[OF sw0] z0)
    have "unat (at_mrwSeqNum q1) + 1 < 2 ^ 31" using room by (simp add: am_room_def z1 z0)
    from checkForMrw_ok[OF q1(2) this, of now] obtain q' os where
      q': "checkForMrw now q1 = Inr q'" "am_ok q'" "same_but_mrw q1 q' os"
        "sends os = (if settled q1 = 0 then [] else [mrw_pdu (int (tx_first q1 + settled q1)) q1])" by blast
    note z' = same_but_mrw_simps[OF q'(3)]
    have st: "settled q' = settled q1" by (simp add: settled_def z')
    have so: "sends (at_out q') = sends (at_out q) @ sends os" by (simp add: z' z1 z0)
    have run: "pduTimerHandle slot now sn q = Inr q'"
      unfolding step using False q1(1) q'(1) by (simp add: sn(3))
    have "map ap_lastSn (sends os) = (if settled q' = 0 then [] else [int (tx_first q + settled q')])"
      unfolding q'(4) st by (simp add: mrw_pdu_def z1 z0)
    then show ?thesis using i(1,2) p run[unfolded sn_def i(2)] q'(2) q1(4,5) False
      by (intro exI[of _ i] exI[of _ p] exI[of _ q']) (simp add: z' z1 z0 sr so)
  qed
qed

text \<open>The earliest command is sent again, or forgotten when a later one has been sent.\<close>

lemma mrwTimerHandle_ok:
  assumes ok: "am_ok q" and n: "mt_direct (at_mrwTimer q) = n # ns"
  shows "\<exists>q'. mrwTimerHandle now (sint (tn_event n)) q = Inr q' \<and> am_ok q'"
proof -
  have m: "mt_ok (at_mrwTimer q)" "\<And>ev. mt_abs (at_mrwTimer q) ev \<noteq> None \<longleftrightarrow> carr_get (at_mrwRtxQueue q) (unat ev) \<noteq> None"
    "\<And>i. carr_get (at_mrwRtxQueue q) i \<noteq> None \<Longrightarrow> i < unat (at_mrwSeqNum q)" "unat (at_mrwSeqNum q) < 2 ^ 31"
    using ok by (auto simp: am_ok_def mrw_ok_def)
  let ?e = "tn_event n"
  have "mt_abs (at_mrwTimer q) ?e \<noteq> None" using mt_abs_iff[OF m(1), of ?e "tn_time n"] n by auto
  then obtain p where p: "carr_get (at_mrwRtxQueue q) (unat ?e) = Some p" using m(2) by auto
  then have "unat ?e < 2 ^ 31" using m(3)[of "unat ?e"] m(4) by auto
  then have sn: "sint ?e = int (unat ?e)" by (rule sint_u32_small)
  from mt_handle_effect[OF m(1) n] obtain t calls where t: "mt_handle ?e (at_mrwTimer q) = Inr (t, calls)" "mt_ok t"
    "mt_abs t = (mt_abs (at_mrwTimer q))(?e := None)" by blast
  define sn where "sn = sint ?e"
  have s: "(of_int sn :: u32) = ?e" "nat sn = unat ?e" "\<not> sn < 0" using sn by (simp_all add: sn_def)
  define a where "a = carr_remove (unat ?e) (at_mrwRtxQueue q)"
  let ?q0 = "q\<lparr>at_mrwTimer := t, at_out := at_out q @ map MrwTimerCall calls\<rparr>"
  have un: "unat x = unat y \<longleftrightarrow> x = y" for x y :: u32 by (simp only: word_unat_eq_iff)
  have step: "mrwTimerHandle now sn q = (if ?e < at_lastMrw q then Inr (?q0\<lparr>at_mrwRtxQueue := a\<rparr>)
      else bindE (mrw_timer_add now ?e (?q0\<lparr>at_mrwRtxQueue := carr_set a (unat ?e) (Some p)\<rparr>)) (\<lambda>q1. Inr (sendPdu p q1)))"
    using t(1) p by (simp add: mrwTimerHandle_def s am_emit_def carr_addAt_def carr_remove_def Let_def a_def)
  show ?thesis
  proof (cases "?e < at_lastMrw q")
    case True
    have "mrw_ok (q\<lparr>at_mrwRtxQueue := a, at_mrwTimer := t, at_mrwSeqNum := at_mrwSeqNum q\<rparr>)"
      using m t by (auto simp: mrw_ok_def a_def carr_remove_def un)
    note k = am_ok_mrw[OF ok this, where l = "at_lastMrw q" and os = "at_out q @ map MrwTimerCall calls"]
    have e: "q\<lparr>at_mrwRtxQueue := a, at_lastMrw := at_lastMrw q, at_mrwTimer := t,
        at_out := at_out q @ map MrwTimerCall calls, at_mrwSeqNum := at_mrwSeqNum q\<rparr> = ?q0\<lparr>at_mrwRtxQueue := a\<rparr>"
      by (rule am_tx.equality) simp_all
    have "am_ok (?q0\<lparr>at_mrwRtxQueue := a\<rparr>)" using k unfolding e .
    then show ?thesis using True step by (simp flip: sn_def)
  next
    case False
    let ?q1 = "?q0\<lparr>at_mrwRtxQueue := carr_set a (unat ?e) (Some p)\<rparr>"
    have f: "mt_ok (at_mrwTimer ?q1)" "mt_abs (at_mrwTimer ?q1) ?e = None" using t by simp_all
    from mrw_timer_add_ok[OF f, of now] obtain t' os where
      t': "mrw_timer_add now ?e ?q1 = Inr (?q1\<lparr>at_mrwTimer := t', at_out := at_out ?q1 @ os\<rparr>)" "mt_ok t'"
        "mt_abs t' = (mt_abs t)(?e := Some (now + at_ctrlPduRtxTimeout q * simtime_s))" by auto
    have "mrw_ok (q\<lparr>at_mrwRtxQueue := carr_set a (unat ?e) (Some p), at_mrwTimer := t', at_mrwSeqNum := at_mrwSeqNum q\<rparr>)"
      using m t(3) t'(2,3) p by (auto simp: mrw_ok_def a_def carr_remove_def un)
    note k = am_ok_mrw[OF ok this, where l = "at_lastMrw q" and os = "at_out ?q1 @ os @ [SendDown p]"]
    have e: "q\<lparr>at_mrwRtxQueue := carr_set a (unat ?e) (Some p), at_lastMrw := at_lastMrw q, at_mrwTimer := t',
        at_out := at_out ?q1 @ os @ [SendDown p], at_mrwSeqNum := at_mrwSeqNum q\<rparr>
        = sendPdu p (?q1\<lparr>at_mrwTimer := t', at_out := at_out ?q1 @ os\<rparr>)"
      by (rule am_tx.equality) (simp_all add: sendPdu_def am_emit_def)
    have "am_ok (sendPdu p (?q1\<lparr>at_mrwTimer := t', at_out := at_out ?q1 @ os\<rparr>))" using k unfolding e .
    then show ?thesis using False step t'(1) by (simp flip: sn_def)
  qed
qed

lemma statusTimerHandle_ok:
  assumes "am_ok q" "am_room q"
  shows "\<exists>q'. statusTimerHandle now q = Inr q' \<and> am_ok q'"
proof -
  have "unat (at_mrwSeqNum q) + 1 < 2 ^ 31" using assms(2) by (simp add: am_room_def)
  from checkForMrw_ok[OF assms(1) this, of now] obtain q1 where q1: "checkForMrw now q = Inr q1" "am_ok q1" by blast
  have "am_ok (q1\<lparr>at_bufferStatusTimer := t\<rparr>)" for t
    using q1(2) by (simp add: am_ok_def win_ok_def pdu_timers_ok_def mrw_ok_def info_ok_def tx_size_def tx_first_def tx_count_def
        pending_def tx_sn_def)
  then show ?thesis using q1(1) by (simp add: statusTimerHandle_def)
qed

section \<open>The queue in operation\<close>

text \<open>
  What can happen to the queue.  The message of a multi-timer is that of its earliest event; when no
  event is left there is none.
\<close>

datatype am_event = AmEnque "rlc_sdu \<times> flow_info" | AmControl am_pdu | AmPduTimer | AmMrwTimer | AmStatusTimer

definition am_step :: "(am_pdu option list \<Rightarrow> nat) \<Rightarrow> simtime \<Rightarrow> am_event \<Rightarrow> am_tx \<Rightarrow> am_tx result" where
  "am_step slot now ev q = (case ev of
      AmEnque sdu \<Rightarrow> am_enque now sdu q
    | AmControl p \<Rightarrow> handleControlPacket now p q
    | AmPduTimer \<Rightarrow> (case mt_direct (at_pduTimer q) of [] \<Rightarrow> Inr q | n # _ \<Rightarrow> pduTimerHandle slot now (sint (tn_event n)) q)
    | AmMrwTimer \<Rightarrow> (case mt_direct (at_mrwTimer q) of [] \<Rightarrow> Inr q | n # _ \<Rightarrow> mrwTimerHandle now (sint (tn_event n)) q)
    | AmStatusTimer \<Rightarrow> statusTimerHandle now q)"

definition am_allowed :: "am_tx \<Rightarrow> am_event \<Rightarrow> bool" where
  "am_allowed q ev \<longleftrightarrow> am_room q \<and> (case ev of AmControl p \<Rightarrow> honest q p | _ \<Rightarrow> True)"

inductive am_reach :: "(am_pdu option list \<Rightarrow> nat) \<Rightarrow> am_tx \<Rightarrow> bool" for slot where
  am_start: "fu \<noteq> 0 \<Longrightarrow> unat w < 2 ^ 31 \<Longrightarrow> am_reach slot (am_tx_new mr fu t1 t2 t3 w)"
| am_next: "am_reach slot q \<Longrightarrow> am_allowed q ev \<Longrightarrow> am_step slot now ev q = Inr q' \<Longrightarrow> am_reach slot q'"

lemma am_step_ok:
  assumes "am_ok q" "am_allowed q ev" "slot_law slot"
  shows "\<exists>q'. am_step slot now ev q = Inr q' \<and> am_ok q'"
proof (cases ev)
  case (AmEnque sdu)
  then show ?thesis using am_enque_ok[OF assms(1), of now sdu] by (auto simp: am_step_def)
next
  case (AmControl p)
  then show ?thesis using handleControlPacket_ok[OF assms(1), of p now] assms(2) by (auto simp: am_step_def am_allowed_def)
next
  case AmPduTimer
  show ?thesis
  proof (cases "mt_direct (at_pduTimer q)")
    case (Cons n ns)
    then show ?thesis using pduTimerHandle_ok[OF assms(1) _ assms(3) Cons, of now] assms(2) AmPduTimer
      by (auto simp: am_step_def am_allowed_def)
  qed (use assms(1) AmPduTimer in \<open>simp add: am_step_def\<close>)
next
  case AmMrwTimer
  show ?thesis
  proof (cases "mt_direct (at_mrwTimer q)")
    case (Cons n ns)
    then show ?thesis using mrwTimerHandle_ok[OF assms(1) Cons, of now] AmMrwTimer by (auto simp: am_step_def)
  qed (use assms(1) AmMrwTimer in \<open>simp add: am_step_def\<close>)
next
  case AmStatusTimer
  then show ?thesis using statusTimerHandle_ok[OF assms(1), of now] assms(2) by (auto simp: am_step_def am_allowed_def)
qed

lemma am_reach_ok: "am_reach slot q \<Longrightarrow> slot_law slot \<Longrightarrow> am_ok q"
proof (induction rule: am_reach.induct)
  case (am_start fu w mr t1 t2 t3)
  then show ?case using am_tx_new_ok by blast
next
  case (am_next q ev now q')
  then show ?case using am_step_ok[of q ev slot now] by auto
qed

lemma busy_pending:
  assumes "am_ok q" "i < tx_count q"
  shows "mt_busyEvent (tx_sn q i) (at_pduTimer q) \<longleftrightarrow> \<not> at_received q ! i \<and> \<not> at_discarded q ! i"
proof -
  have w: "win_ok q" and m: "mt_ok (at_pduTimer q)"
    and pe: "\<And>ev. mt_abs (at_pduTimer q) ev \<noteq> None \<longleftrightarrow> (\<exists>i. pending q i \<and> ev = tx_sn q i)"
    using assms(1) by (auto simp: am_ok_def pdu_timers_ok_def)
  have b: "tx_first q + i < 2 ^ 32" using w assms(2) by (simp add: win_ok_def)
  have "mt_busyEvent (tx_sn q i) (at_pduTimer q) \<longleftrightarrow> (\<exists>j. pending q j \<and> tx_sn q i = tx_sn q j)"
    using mt_abs_dom[OF m] pe by blast
  also have "\<dots> \<longleftrightarrow> pending q i" using tx_sn_inj[OF b] pending_less[OF w] by blast
  finally show ?thesis using assms(2) by (simp add: pending_def)
qed

text \<open>
  C14: Whatever SDUs the upper layer hands to a transmission queue of the acknowledged mode and
  whatever its receiver reports about PDUs that have been sent, in any order with the expiries of
  its timers, the queue never throws (none of its out-of-window, busy-position, missing-PDU or
  timer errors can occur) while its sequence numbers stay below \<open>2\<^sup>3\<^sup>1\<close>.  The window never exceeds
  its size and holds exactly the PDUs from the first to the next sequence number, and a PDU has a
  running timer exactly while it is neither acknowledged nor given up.
\<close>
theorem am_tx_never_throws:
  assumes "am_reach slot q" "slot_law slot" "am_allowed q ev"
  shows "is_ok (am_step slot now ev q) \<and> tx_count q \<le> tx_size q \<and>
    (\<forall>i. carr_get (at_pduRtxQueue q) i \<noteq> None \<longleftrightarrow> i < tx_count q) \<and>
    (\<forall>i < tx_count q. mt_busyEvent (tx_sn q i) (at_pduTimer q) \<longleftrightarrow> \<not> at_received q ! i \<and> \<not> at_discarded q ! i)"
proof -
  have ok: "am_ok q" by (rule am_reach_ok[OF assms(1,2)])
  then have "win_ok q" by (simp add: am_ok_def)
  moreover have "is_ok (am_step slot now ev q)" using am_step_ok[OF ok assms(3,2), of now] by (auto simp: is_ok_iff)
  ultimately show ?thesis using busy_pending[OF ok] by (simp add: win_ok_def)
qed

text \<open>
  C16: When the timer of a PDU expires, the PDU is one that is neither acknowledged nor given up.  If
  its transmissions are not used up it is sent again, unchanged but for its count, and its timer
  runs again for the configured time, while nothing else in the window changes.  Otherwise the PDUs
  of its SDU, those around it with the same number, and only those, are given up, and if the
  beginning of the window is settled by now the receiver is told to move behind it.
\<close>
theorem am_pdu_timeout:
  assumes "am_reach slot q" "slot_law slot" "am_room q" "mt_direct (at_pduTimer q) = n # ns"
  shows "\<exists>i p q'. pending q i \<and> tn_event n = tx_sn q i \<and> carr_get (at_pduRtxQueue q) i = Some p \<and>
    pduTimerHandle slot now (sint (tn_event n)) q = Inr q' \<and> at_received q' = at_received q \<and>
    tx_first q' = tx_first q \<and> tx_count q' = tx_count q \<and>
    (if uint (ap_txNumber p) + 1 \<le> at_maxRtx q
     then (let p' = p\<lparr>ap_txNumber := ap_txNumber p + 1\<rparr> in
       sends (at_out q') = sends (at_out q) @ [p'] \<and> at_discarded q' = at_discarded q \<and>
       (\<forall>j. carr_get (at_pduRtxQueue q') j = (if j = i then Some p' else carr_get (at_pduRtxQueue q) j)) \<and>
       mt_abs (at_pduTimer q') = (mt_abs (at_pduTimer q))(tn_event n \<mapsto> now + at_pduRtxTimeout q * simtime_s))
     else (\<forall>j < tx_size q. at_discarded q' ! j \<longleftrightarrow> at_discarded q ! j \<or> j \<in> sdu_run q i) \<and>
       map ap_lastSn (drop (length (sends (at_out q))) (sends (at_out q'))) =
         (if settled q' = 0 then [] else [int (tx_first q + settled q')]) \<and>
       take (length (sends (at_out q))) (sends (at_out q')) = sends (at_out q))"
  using pduTimerHandle_ok[OF am_reach_ok[OF assms(1,2)] assms(3,2,4), of now] by blast

section \<open>Instances\<close>

text \<open>The first free position; an SDU of 25 bytes in PDUs of 10, of which each may be sent twice.\<close>

definition ex_slot :: "am_pdu option list \<Rightarrow> nat" where
  "ex_slot a = length (takeWhile (\<lambda>x. x \<noteq> None) a)"

lemma ex_slot_law: "slot_law ex_slot"
  unfolding slot_law_def
proof (intro allI impI)
  fix a :: "am_pdu option list" and i
  assume "carr_get a i = None" "\<forall>j < i. carr_get a j \<noteq> None"
  then show "ex_slot a = i"
  proof (induction a arbitrary: i)
    case Nil
    then show ?case by (cases i) (auto simp: ex_slot_def carr_get_def)
  next
    case (Cons x xs)
    show ?case
    proof (cases i)
      case 0
      then show ?thesis using Cons.prems(1) by (simp add: ex_slot_def carr_get_def)
    next
      case (Suc k)
      then have "carr_get (x # xs) 0 \<noteq> None" using Cons.prems(2) by blast
      then have "x \<noteq> None" by (simp add: carr_get_def)
      moreover have "carr_get xs k = None" using Cons.prems(1) Suc by (simp add: carr_get_def split: if_splits)
      moreover have "\<forall>j < k. carr_get xs j \<noteq> None"
      proof (intro allI impI)
        fix j assume "j < k"
        then have "carr_get (x # xs) (Suc j) \<noteq> None" using Cons.prems(2) Suc by blast
        then show "carr_get xs j \<noteq> None" by (simp add: carr_get_def split: if_splits)
      qed
      ultimately show ?thesis using Cons.IH[of k] Suc by (simp add: ex_slot_def)
    qed
  qed
qed

definition ex_am_new :: am_tx where
  "ex_am_new = am_tx_new 1 10 2 2 2 5"

definition ex_am_tx :: am_tx where
  "ex_am_tx = projr (am_step ex_slot 0 (AmEnque (ex_sdu, ex_flow)) ex_am_new)"

lemma ex_am_run: "am_step ex_slot 0 (AmEnque (ex_sdu, ex_flow)) ex_am_new = Inr ex_am_tx \<and> am_ok ex_am_tx \<and>
    am_reach ex_slot ex_am_tx"
proof -
  have ok: "am_ok ex_am_new" unfolding ex_am_new_def by (rule am_tx_new_ok) simp_all
  have al: "am_allowed ex_am_new (AmEnque (ex_sdu, ex_flow))"
    by (simp add: am_allowed_def am_room_def ex_am_new_def am_tx_new_def tx_first_def tx_size_def)
  obtain q' where q': "am_step ex_slot 0 (AmEnque (ex_sdu, ex_flow)) ex_am_new = Inr q'" "am_ok q'"
    using am_step_ok[OF ok al ex_slot_law] by blast
  have "am_reach ex_slot ex_am_new" unfolding ex_am_new_def by (rule am_start) simp_all
  from am_next[OF this al q'(1)] show ?thesis using q' by (simp add: ex_am_tx_def)
qed

lemma ex_am_values: "map tn_event (mt_direct (at_pduTimer ex_am_tx)) = [0, 1, 2] \<and> at_firstSeqNum ex_am_tx = 0 \<and>
    at_windowSize ex_am_tx = 5 \<and> at_mrwSeqNum ex_am_tx = 0 \<and> at_seqNum ex_am_tx = 3"
  by code_simp

definition ex_ack :: am_pdu where
  "ex_ack = \<lparr>ap_amType = AM_ACK, ap_txNumber = 0, ap_firstSn = 1, ap_lastSn = 0, ap_bitmap = [False, True],
     ap_totalFragments = 0, ap_snoFragment = 0, ap_snoMainPacket = 0, ap_bytes = 2, ap_sdu = None, ap_info = ex_flow\<rparr>"

lemma ex_am_bounds: "tx_first ex_am_tx = 0" "tx_size ex_am_tx = 5" "tx_count ex_am_tx = 3" "am_room ex_am_tx"
  using ex_am_values by (simp_all add: tx_first_def tx_size_def tx_count_def am_room_def)

theorem am_tx_never_throws_witness:
  "is_ok (am_step ex_slot 1 (AmControl ex_ack) ex_am_tx) \<and> mt_busyEvent (tx_sn ex_am_tx 2) (at_pduTimer ex_am_tx)
     = (\<not> at_received ex_am_tx ! 2 \<and> \<not> at_discarded ex_am_tx ! 2)"
proof -
  have h: "honest ex_am_tx ex_ack" by (auto simp: honest_def ex_ack_def ex_am_bounds less_Suc_eq numeral_2_eq_2)
  have a: "am_allowed ex_am_tx (AmControl ex_ack)" by (simp add: am_allowed_def ex_am_bounds h)
  have r: "am_reach ex_slot ex_am_tx" using ex_am_run by blast
  show ?thesis using am_tx_never_throws[OF r ex_slot_law a, of 1] ex_am_bounds(3) by auto
qed

theorem am_pdu_timeout_witness:
  "\<exists>i p q'. pending ex_am_tx i \<and> carr_get (at_pduRtxQueue ex_am_tx) i = Some p \<and>
     pduTimerHandle ex_slot (2 * simtime_s) 0 ex_am_tx = Inr q' \<and> tx_count q' = 3"
proof -
  obtain n ns where n: "mt_direct (at_pduTimer ex_am_tx) = n # ns" "tn_event n = 0"
    using ex_am_values by (cases "mt_direct (at_pduTimer ex_am_tx)") auto
  have r: "am_reach ex_slot ex_am_tx" using ex_am_run by blast
  show ?thesis using am_pdu_timeout[OF r ex_slot_law ex_am_bounds(4) n(1), of "2 * simtime_s"] n(2) ex_am_bounds(3) by auto
qed

end
