(* ===== verification/AmRxReport.thy ===== *)
theory AmRxReport
  imports AmRxQueue AmTxSafety
begin

text \<open>
  What a report of the acknowledged mode says, and what it does to the sender: the two ends agree on
  which PDUs have been received.
\<close>

section \<open>The report\<close>

lemma report_loop_hole:
  "\<forall>i \<in> set is. i < length rs \<Longrightarrow> report_loop is rs (c, True, bm) = Inr (c, True, bm @ map ((!) rs) is)"
  by (induction "is" arbitrary: bm) (auto simp: vec_at_ok)

lemma report_loop_prefix:
  "\<forall>i \<in> set is. i < length rs \<Longrightarrow> is = [] \<or> 0 < c \<or> rs ! hd is \<Longrightarrow>
   (let k = length (takeWhile ((!) rs) is) in
     report_loop is rs (c, False, []) = Inr (c + k, k < length is, map ((!) rs) (drop k is)))"
proof (induction "is" arbitrary: c)
  case (Cons i "is")
  show ?case
  proof (cases "rs ! i")
    case True
    then show ?thesis using Cons.IH[of "Suc c"] Cons.prems by (simp add: vec_at_ok Let_def)
  next
    case False
    then have "0 < c" using Cons.prems(2) by simp
    then show ?thesis using False Cons.prems(1) report_loop_hole[of "is" rs c "[False]"] by (simp add: vec_at_ok Let_def)
  qed
qed simp

text \<open>The number of PDUs received in sequence at the start of the window.\<close>

definition cumulative :: "am_rx \<Rightarrow> nat" where
  "cumulative r = length (takeWhile id (ar_received r))"

definition am_report :: "am_rx \<Rightarrow> flow_info \<Rightarrow> am_pdu" where
  "am_report r info = (am_ctrl_pdu AM_ACK info)
     \<lparr>ap_lastSn := sint (ar_firstSeqNum r + of_nat (cumulative r) - 1),
      ap_bitmap := drop (cumulative r) (ar_received r),
      ap_firstSn := (if cumulative r < length (ar_received r) then sint (ar_firstSeqNum r + of_nat (cumulative r)) else 0)\<rparr>"

lemma cumulative_le: "cumulative r \<le> length (ar_received r)"
  unfolding cumulative_def by (rule length_takeWhile_le)

lemma cumulative_received: "i < cumulative r \<Longrightarrow> ar_received r ! i"
  unfolding cumulative_def using nth_mem[of i "takeWhile id (ar_received r)"] takeWhile_nth[of i id "ar_received r"]
  by (auto dest: set_takeWhileD)

lemma report_loop_received:
  assumes "xs \<noteq> []"
  shows "\<exists>h. report_loop [0..<length xs] xs (0, \<not> xs ! 0, []) = Inr (length (takeWhile id xs), h, drop (length (takeWhile id xs)) xs)"
proof -
  have m: "map ((!) xs) [0..<length xs] = xs" by (rule map_nth)
  have tw: "length (takeWhile ((!) xs) [0..<length xs]) = length (takeWhile id xs)"
    using takeWhile_map[of id "(!) xs" "[0..<length xs]"] unfolding m by (simp add: comp_def)
  have ne: "0 < length xs" using assms by simp
  show ?thesis
  proof (cases "xs ! 0")
    case True
    have h: "hd [0..<length xs] = 0" using ne by simp
    have "map ((!) xs) (drop (length (takeWhile id xs)) [0..<length xs]) = drop (length (takeWhile id xs)) xs"
      unfolding drop_map[symmetric] m ..
    then show ?thesis using report_loop_prefix[of "[0..<length xs]" xs 0] True unfolding tw Let_def h by simp
  next
    case False
    then have "takeWhile id xs = []" using ne by (cases xs) auto
    then show ?thesis using report_loop_hole[of "[0..<length xs]" xs 0 "[]"] False
      by (intro exI[of _ True]) (simp add: m)
  qed
qed

lemma sendStatusReport_eq:
  assumes "length (ar_received r) = unat (ar_windowSize r)" "ar_received r \<noteq> []" "ar_flowControlInfo r = Some info"
    and "\<not> ae_soon env now (ar_lastSentAck r) (ar_ackReportInterval r)"
  shows "sendStatusReport env now r = Inr (r\<lparr>ar_lastSentAck := now, ar_out := ar_out r @ [RxSendDown (am_report r info)]\<rparr>)"
proof -
  obtain h where h: "report_loop [0..<unat (ar_windowSize r)] (ar_received r) (0, \<not> ar_received r ! 0, [])
      = Inr (cumulative r, h, drop (cumulative r) (ar_received r))"
    using report_loop_received[OF assms(2)] unfolding assms(1) cumulative_def by blast
  have x: "vec_at (ar_received r) 0 = Inr (ar_received r ! 0)" using assms(2) by (simp add: vec_at_ok)
  have ne: "0 < cumulative r \<or> drop (cumulative r) (ar_received r) \<noteq> []" using assms(2) by auto
  have full: "\<not> cumulative r < unat (ar_windowSize r) \<Longrightarrow> drop (cumulative r) (ar_received r) = []"
    using assms(1) by simp
  show ?thesis
  proof (cases "cumulative r < unat (ar_windowSize r)")
    case True
    then show ?thesis using assms(3,4) ne assms(1)
      by (simp add: sendStatusReport_def x h rx_emit_def am_report_def am_ctrl_pdu_def Let_def)
  next
    case False
    then show ?thesis using assms(3,4) ne full assms(1)
      by (simp add: sendStatusReport_def x h rx_emit_def am_report_def am_ctrl_pdu_def Let_def)
  qed
qed

section \<open>The two ends\<close>

text \<open>
  The sender and the receiver have the same first number, and the receiver has only what was sent.
\<close>

definition same_start :: "am_tx \<Rightarrow> am_rx \<Rightarrow> bool" where
  "same_start q r \<longleftrightarrow> ar_firstSeqNum r = at_firstSeqNum q \<and>
     (\<forall>j < length (ar_received r). ar_received r ! j \<longrightarrow> j < tx_count q)"

lemma report_numbers:
  assumes ok: "win_ok q" and s: "same_start q r"
  shows "ap_lastSn (am_report r info) = int (tx_first q + cumulative r) - 1"
    and "cumulative r < length (ar_received r) \<Longrightarrow> cumulative r \<le> tx_count q \<Longrightarrow>
      ap_firstSn (am_report r info) = int (tx_first q + cumulative r)"
    and "cumulative r \<le> tx_count q"
proof -
  have b: "tx_first q + tx_size q < 2 ^ 31" "tx_count q \<le> tx_size q" using ok by (auto simp: win_ok_def)
  show c: "cumulative r \<le> tx_count q"
  proof (cases "cumulative r")
    case (Suc k)
    then have "ar_received r ! k" "k < length (ar_received r)" using cumulative_received[of k r] cumulative_le[of r] by auto
    then show ?thesis using s Suc by (auto simp: same_start_def)
  qed simp
  have "tx_first q + cumulative r < 2 ^ 31" using b c by linarith
  then have bi: "int (tx_first q + cumulative r) < 2 ^ 31" by (metis of_nat_less_iff of_nat_numeral of_nat_power)
  have f: "ar_firstSeqNum r = of_int (int (tx_first q))" using s by (simp add: same_start_def tx_first_def)
  have "ar_firstSeqNum r + of_nat (cumulative r) - 1 = of_int (int (tx_first q + cumulative r) - 1)" by (simp add: f)
  moreover have "sint (of_int (int (tx_first q + cumulative r) - 1) :: u32) = int (tx_first q + cumulative r) - 1"
    using bi by (intro sint_of_int_u32) linarith+
  ultimately show "ap_lastSn (am_report r info) = int (tx_first q + cumulative r) - 1" by (simp add: am_report_def)
  assume "cumulative r < length (ar_received r)"
  moreover have "ar_firstSeqNum r + of_nat (cumulative r) = of_int (int (tx_first q + cumulative r))" by (simp add: f)
  moreover have "sint (of_int (int (tx_first q + cumulative r)) :: u32) = int (tx_first q + cumulative r)"
    using bi by (intro sint_of_int_u32) linarith+
  ultimately show "ap_firstSn (am_report r info) = int (tx_first q + cumulative r)" by (simp add: am_report_def)
qed

lemma report_bitmap:
  "ap_bitmap (am_report r info) = drop (cumulative r) (ar_received r)" "ap_amType (am_report r info) = AM_ACK"
  by (simp_all add: am_report_def am_ctrl_pdu_def)

lemma report_honest:
  assumes "win_ok q" "same_start q r" shows "honest q (am_report r info)"
proof -
  note n = report_numbers(1)[OF assms, of info] report_numbers(2)[OF assms, where info = info] report_numbers(3)[OF assms]
  have "0 \<le> ap_firstSn (am_report r info) + int i \<and> ap_firstSn (am_report r info) + int i < int (tx_first q + tx_count q)"
    if "i < length (ar_received r) - cumulative r" "ar_received r ! (cumulative r + i)" for i
  proof -
    have "cumulative r < length (ar_received r)" "cumulative r + i < length (ar_received r)" using that(1) by auto
    then show ?thesis using n(2)[OF _ n(3)] that(2) assms(2) by (auto simp: same_start_def)
  qed
  then show ?thesis using n(1,3) by (simp add: honest_def report_bitmap add.commute)
qed

lemma report_acked:
  assumes "win_ok q" "same_start q r"
  shows "int (tx_first q + j) \<in> ack_numbers (am_report r info) \<longleftrightarrow> j < length (ar_received r) \<and> ar_received r ! j"
proof -
  let ?c = "cumulative r"
  note n = report_numbers(1)[OF assms, of info] report_numbers(2)[OF assms, where info = info] report_numbers(3)[OF assms]
  have e: "(\<exists>i. int (tx_first q + j) = ap_firstSn (am_report r info) + int i \<and> i < length (ar_received r) - ?c \<and>
      ar_received r ! (?c + i)) \<longleftrightarrow> ?c \<le> j \<and> j < length (ar_received r) \<and> ar_received r ! j" (is "?l \<longleftrightarrow> ?r")
  proof
    assume ?l
    then obtain i where i: "int (tx_first q + j) = ap_firstSn (am_report r info) + int i" "i < length (ar_received r) - ?c"
      "ar_received r ! (?c + i)" by blast
    then have "j = ?c + i" using n(2)[OF _ n(3)] by simp
    then show ?r using i by simp
  next
    assume ?r
    then show ?l using n(2)[OF _ n(3)] by (intro exI[of _ "j - ?c"]) auto
  qed
  have c: "int (tx_first q + j) \<le> ap_lastSn (am_report r info) \<longleftrightarrow> j < ?c" unfolding n(1) by linarith
  have "int (tx_first q + j) \<in> ack_numbers (am_report r info) \<longleftrightarrow>
      j < ?c \<or> (?c \<le> j \<and> j < length (ar_received r) \<and> ar_received r ! j)"
    unfolding ack_numbers_def report_bitmap using c e by (auto simp: add.commute)
  also have "\<dots> \<longleftrightarrow> j < length (ar_received r) \<and> ar_received r ! j"
    using cumulative_received[of j r] cumulative_le[of r] by auto
  finally show ?thesis .
qed

text \<open>
  C15: The report of a receiver tells its sender exactly what was received.  When the receiver may
  report, it sends one acknowledgment, and a sender with the same start of window takes it without
  an error, with this effect: a PDU is marked received exactly if it was before or the receiver has
  it, whether the cumulative number or the bitmap says so; nothing is given up or forgotten; and the
  timers still running are exactly those of the PDUs that are neither marked nor given up.
\<close>
theorem am_report_synchronizes:
  assumes "am_reach slot q" "slot_law slot" "am_room q" "same_start q r"
    and "length (ar_received r) = unat (ar_windowSize r)" "ar_received r \<noteq> []" "ar_flowControlInfo r = Some info"
    and "\<not> ae_soon env now (ar_lastSentAck r) (ar_ackReportInterval r)"
  shows "\<exists>pdu q'. sendStatusReport env now r = Inr (r\<lparr>ar_lastSentAck := now, ar_out := ar_out r @ [RxSendDown pdu]\<rparr>) \<and>
    handleControlPacket later pdu q = Inr q' \<and> tx_first q' = tx_first q \<and> tx_count q' = tx_count q \<and>
    at_discarded q' = at_discarded q \<and>
    (\<forall>j < tx_count q. (at_received q' ! j \<longleftrightarrow> at_received q ! j \<or> j < length (ar_received r) \<and> ar_received r ! j) \<and>
       (mt_busyEvent (tx_sn q' j) (at_pduTimer q') \<longleftrightarrow> \<not> at_received q' ! j \<and> \<not> at_discarded q' ! j))"
proof -
  have ok: "am_ok q" by (rule am_reach_ok[OF assms(1,2)])
  then have w: "win_ok q" by (simp add: am_ok_def)
  from handle_ack_ok[OF ok assms(3) report_honest[OF w assms(4)] report_bitmap(2), of later info] obtain q' where
    q': "handleControlPacket later (am_report r info) q = Inr q'" "am_ok q'" "acked (ack_numbers (am_report r info)) q q'" by blast
  have le: "tx_count q \<le> tx_size q" using w by (simp add: win_ok_def)
  have "\<forall>j < tx_count q. at_received q' ! j \<longleftrightarrow> at_received q ! j \<or> j < length (ar_received r) \<and> ar_received r ! j"
    using q'(3) le unfolding acked_def report_acked[OF w assms(4)] by auto
  moreover have "\<forall>j < tx_count q. mt_busyEvent (tx_sn q' j) (at_pduTimer q') \<longleftrightarrow> \<not> at_received q' ! j \<and> \<not> at_discarded q' ! j"
    using busy_pending[OF q'(2)] acked_simps(2)[OF q'(3)] by simp
  ultimately show ?thesis using q'(1,3) sendStatusReport_eq[OF assms(5-8)]
    by (intro exI[of _ "am_report r info"] exI[of _ q']) (simp add: acked_def)
qed

section \<open>Instances\<close>

text \<open>A receiver with a window of five that has the first and the third PDU of the sender's SDU.\<close>

definition ex_rx_env :: am_rx_env where
  "ex_rx_env = \<lparr>ae_soon = (\<lambda>now last interval. now - last < interval),
     ae_nodes = ex_env True\<rparr>"

definition ex_am_rx :: am_rx where
  "ex_am_rx = projr (foldE (rx_enque ex_rx_env 0) [sends (at_out ex_am_tx) ! 0, sends (at_out ex_am_tx) ! 2] (am_rx_new 5 1 10))"

lemma ex_am_rx_values: "ar_firstSeqNum ex_am_rx = 0 \<and> ar_received ex_am_rx = [True, False, True, False, False] \<and>
    ar_windowSize ex_am_rx = 5 \<and> ar_flowControlInfo ex_am_rx \<noteq> None \<and> ar_lastSentAck ex_am_rx = 0 \<and>
    ar_ackReportInterval ex_am_rx = 1"
  by code_simp

theorem am_report_synchronizes_witness:
  "\<exists>pdu q' r'. sendStatusReport ex_rx_env 1 ex_am_rx = Inr r' \<and> handleControlPacket 2 pdu ex_am_tx = Inr q' \<and>
     (at_received q' ! 1 \<longleftrightarrow> at_received ex_am_tx ! 1) \<and> at_received q' ! 2"
proof -
  note v = ex_am_rx_values
  have s: "same_start ex_am_tx ex_am_rx"
    using v ex_am_values ex_am_bounds(3) by (auto simp: same_start_def less_Suc_eq numeral_2_eq_2 numeral_eq_Suc)
  obtain info where i: "ar_flowControlInfo ex_am_rx = Some info" using v by auto
  have r: "am_reach ex_slot ex_am_tx" using ex_am_run by blast
  have w: "length (ar_received ex_am_rx) = unat (ar_windowSize ex_am_rx)" "ar_received ex_am_rx \<noteq> []" using v by simp_all
  have n: "\<not> ae_soon ex_rx_env 1 (ar_lastSentAck ex_am_rx) (ar_ackReportInterval ex_am_rx)"
    using v by (simp add: ex_rx_env_def)
  from am_report_synchronizes[OF r ex_slot_law ex_am_bounds(4) s w i n, of 2] obtain pdu q' where
    "sendStatusReport ex_rx_env 1 ex_am_rx = Inr (ex_am_rx\<lparr>ar_lastSentAck := 1, ar_out := ar_out ex_am_rx @ [RxSendDown pdu]\<rparr>)"
    "handleControlPacket 2 pdu ex_am_tx = Inr q'"
    "\<forall>j < 3. at_received q' ! j \<longleftrightarrow> at_received ex_am_tx ! j \<or> j < length (ar_received ex_am_rx) \<and> ar_received ex_am_rx ! j"
    unfolding ex_am_bounds(3) by blast
  then show ?thesis using v by (intro exI[of _ pdu] exI[of _ q']) simp
qed

end
