(* ===== verification/AmRxWindow.thy ===== *)
theory AmRxWindow
  imports AmRxReport
begin

text \<open>
  What the reception queue of the acknowledged mode does with a command to move its window, and
  which SDU it hands up when it finds one complete.
\<close>

section \<open>Moving the window\<close>

lemma rx_drop_loop_get:
  "carr_get (snd (rx_drop_loop is (c, a))) j = (if j \<in> set is then None else carr_get a j)"
  by (induction "is" arbitrary: c a) (auto simp: carr_remove_def split: option.splits)

definition rx_len :: "am_rx \<Rightarrow> bool" where
  "rx_len r \<longleftrightarrow> length (ar_received r) = unat (ar_windowSize r) \<and> length (ar_discarded r) = unat (ar_windowSize r)"

text \<open>A vector after the shift of the positions below \<open>m\<close> by \<open>p\<close>.\<close>

definition shift_flag :: "nat \<Rightarrow> nat \<Rightarrow> (nat \<Rightarrow> bool) \<Rightarrow> nat \<Rightarrow> bool" where
  "shift_flag p m f j = (if j + p < m then f (j + p) else if p \<le> j \<and> j < m then False else f j)"

lemma shift_flag_step:
  assumes "0 < p" "p \<le> m" "m < length xs" "\<And>j. j < length xs \<Longrightarrow> ys ! j = shift_flag p m ((!) xs) j" "length ys = length xs"
    and j: "j < length xs"
  shows "ys[m - p := ys ! m, m := False] ! j = shift_flag p (Suc m) ((!) xs) j"
proof -
  have ym: "ys ! m = xs ! m" using assms(1,3,4) by (simp add: shift_flag_def)
  consider "j = m" | "j = m - p" "j \<noteq> m" | "j \<noteq> m" "j \<noteq> m - p" by blast
  then show ?thesis
  proof cases
    case 1
    then show ?thesis using assms(1-3,5) by (simp add: shift_flag_def)
  next
    case 2
    then have "j + p = m" using assms(2) by simp
    then show ?thesis using 2 assms(3,5) ym j by (simp add: shift_flag_def nth_list_update)
  next
    case 3
    then have "j + p \<noteq> m" using assms(2) by auto
    then show ?thesis using 3 assms(4,5) j by (auto simp: shift_flag_def less_Suc_eq)
  qed
qed

lemma rx_shifts:
  assumes "rx_len r" "0 < p" "\<forall>j < p. carr_get (ar_pduBuffer r) j = None" "p \<le> m" "m \<le> unat (ar_windowSize r)"
  shows "\<exists>b v d. foldE (rx_shift p) [p..<m] r = Inr (r\<lparr>ar_pduBuffer := b, ar_received := v, ar_discarded := d\<rparr>) \<and>
    length v = length (ar_received r) \<and> length d = length (ar_discarded r) \<and>
    (\<forall>j. carr_get b j = (if j + p < m then carr_get (ar_pduBuffer r) (j + p) else if j < m then None
       else carr_get (ar_pduBuffer r) j)) \<and>
    (\<forall>j < unat (ar_windowSize r). v ! j = shift_flag p m ((!) (ar_received r)) j) \<and>
    (\<forall>j < unat (ar_windowSize r). d ! j = shift_flag p m ((!) (ar_discarded r)) j)"
  using assms(4,5)
proof (induction m rule: dec_induct)
  case base
  show ?case using assms(2,3)
    by (intro exI[of _ "ar_pduBuffer r"] exI[of _ "ar_received r"] exI[of _ "ar_discarded r"]) (auto simp: shift_flag_def)
next
  case (step m)
  let ?W = "unat (ar_windowSize r)"
  have lr: "length (ar_received r) = ?W" and ld: "length (ar_discarded r) = ?W" using assms(1) by (simp_all add: rx_len_def)
  from step obtain b v d where i: "foldE (rx_shift p) [p..<m] r = Inr (r\<lparr>ar_pduBuffer := b, ar_received := v, ar_discarded := d\<rparr>)"
    "length v = ?W" "length d = ?W"
    "\<forall>j. carr_get b j = (if j + p < m then carr_get (ar_pduBuffer r) (j + p) else if j < m then None
       else carr_get (ar_pduBuffer r) j)"
    "\<forall>j < ?W. v ! j = shift_flag p m ((!) (ar_received r)) j"
    "\<forall>j < ?W. d ! j = shift_flag p m ((!) (ar_discarded r)) j" using lr ld by auto
  have m: "m < ?W" "p \<le> m" using step by simp_all
  define b' where "b' = (case carr_get b m of None \<Rightarrow> b | Some x \<Rightarrow> carr_set (carr_remove m b) (m - p) (Some x))"
  have bm: "carr_get b m = carr_get (ar_pduBuffer r) m" using i(4) assms(2) by simp
  have free: "carr_get (carr_remove m b) (m - p) = None" using i(4) m(2) assms(2) by (simp add: carr_remove_def)
  have bs: "(case carr_get b m of None \<Rightarrow> Inr b | Some pdu \<Rightarrow> carr_addAt (m - p) pdu (carr_remove m b)) = Inr b'"
    using free by (simp add: b'_def carr_addAt_def split: option.split)
  have b': "carr_get b' j = (if j + p < Suc m then carr_get (ar_pduBuffer r) (j + p) else if j < Suc m then None
      else carr_get (ar_pduBuffer r) j)" for j
  proof (cases "j = m - p")
    case True
    then show ?thesis using i(4) m(2) assms(2) bm by (auto simp: b'_def carr_remove_def split: option.split)
  next
    case False
    then have "j + p \<noteq> m" using m(2) by auto
    then show ?thesis using i(4) m(2) assms(2) bm False by (auto simp: b'_def carr_remove_def less_Suc_eq split: option.split)
  qed
  define v' where "v' = v[m - p := v ! m, m := False]"
  define d' where "d' = d[m - p := d ! m, m := False]"
  have s: "rx_shift p m (r\<lparr>ar_pduBuffer := b, ar_received := v, ar_discarded := d\<rparr>)
      = Inr (r\<lparr>ar_pduBuffer := b', ar_received := v', ar_discarded := d'\<rparr>)"
  proof -
    have l: "m - p < ?W" using m by simp
    show ?thesis
      by (cases "carr_get b m") (use bs m l i(2,3) in \<open>simp_all add: rx_shift_def vec_at_ok vec_put_def v'_def d'_def\<close>)
  qed
  have v': "\<forall>j < ?W. v' ! j = shift_flag p (Suc m) ((!) (ar_received r)) j"
    unfolding v'_def using shift_flag_step[OF assms(2) m(2), of "ar_received r" v] i(2,5) m(1) lr by simp
  have d': "\<forall>j < ?W. d' ! j = shift_flag p (Suc m) ((!) (ar_discarded r)) j"
    unfolding d'_def using shift_flag_step[OF assms(2) m(2), of "ar_discarded r" d] i(3,6) m(1) ld by simp
  have "foldE (rx_shift p) [p..<Suc m] r = Inr (r\<lparr>ar_pduBuffer := b', ar_received := v', ar_discarded := d'\<rparr>)"
    using i(1) s m(2) by (simp add: foldE_append)
  then show ?case using b' v' d' i(2,3) lr ld
    by (intro exI[of _ b'] exI[of _ v'] exI[of _ d']) (simp add: v'_def d'_def)
qed

text \<open>The position of a number, and the guard of the window.\<close>

lemma rx_index:
  assumes "unat (ar_firstSeqNum r) + k < 2 ^ 31"
  shows "sint (of_int (int (unat (ar_firstSeqNum r) + k)) - ar_firstSeqNum r) = int k"
proof -
  have "of_int (int (unat (ar_firstSeqNum r) + k)) - ar_firstSeqNum r = of_int (int k)" by simp
  moreover have "sint (of_int (int k) :: u32) = int k" using assms by (intro sint_of_int_u32) simp_all
  ultimately show ?thesis by simp
qed

text \<open>
  A command to move the window by \<open>p\<close> positions, at most its size, never fails.  The PDUs before
  the new start are dropped and each of the others moves down by \<open>p\<close>, none twice and none lost.  The
  marks of receipt move with them, but a position that the shift neither fills nor empties, one
  below \<open>p\<close> within the last \<open>p\<close>, keeps the mark of the PDU that was dropped from it: after a move by
  more than half the window some empty positions count as received.
\<close>
lemma am_rx_window_move:
  assumes "rx_len r" "unat (ar_firstSeqNum r) + unat (ar_windowSize r) < 2 ^ 31" "0 < p" "p \<le> unat (ar_windowSize r)"
  shows "\<exists>r'. moveRxWindow (int (unat (ar_firstSeqNum r) + p)) r = Inr r' \<and> rx_len r' \<and>
    ar_windowSize r' = ar_windowSize r \<and> ar_out r' = ar_out r \<and> unat (ar_firstSeqNum r') = unat (ar_firstSeqNum r) + p \<and>
    (\<forall>j < unat (ar_windowSize r).
       carr_get (ar_pduBuffer r') j = (if j + p < unat (ar_windowSize r) then carr_get (ar_pduBuffer r) (j + p) else None) \<and>
       ar_received r' ! j = (if j + p < unat (ar_windowSize r) then ar_received r ! (j + p) else j < p \<and> ar_received r ! j))"
proof -
  let ?W = "unat (ar_windowSize r)"
  have ix: "sint (of_int (int (unat (ar_firstSeqNum r) + p)) - ar_firstSeqNum r) = int p"
    using assms(2,4) by (intro rx_index) simp
  have u: "unat (of_int (int p) :: u32) = p" using assms(2,4) by (subst of_int_pos_u32) simp_all
  have g: "\<not> ar_windowSize r < of_int (int p)" unfolding word_less_nat_alt u using assms(4) by simp
  obtain c a where dl: "rx_drop_loop [0..<p] (ar_firstSdu r, ar_pduBuffer r) = (c, a)" by fastforce
  have a: "carr_get a j = (if j < p then None else carr_get (ar_pduBuffer r) j)" for j
    using rx_drop_loop_get[of "[0..<p]" "ar_firstSdu r" "ar_pduBuffer r" j] dl by simp
  define r0 where "r0 = r\<lparr>ar_pduBuffer := a\<rparr>"
  have r0: "rx_len r0" "\<forall>j < p. carr_get (ar_pduBuffer r0) j = None" "?W \<le> unat (ar_windowSize r0)" "ar_windowSize r0 = ar_windowSize r"
    using assms(1) a by (simp_all add: r0_def rx_len_def)
  from rx_shifts[OF r0(1) assms(3) r0(2) assms(4) r0(3)] obtain b v d where
    f: "foldE (rx_shift p) [p..<?W] r0 = Inr (r0\<lparr>ar_pduBuffer := b, ar_received := v, ar_discarded := d\<rparr>)"
      "length v = ?W" "length d = ?W"
      "\<forall>j. carr_get b j = (if j + p < ?W then carr_get a (j + p) else if j < ?W then None else carr_get a j)"
      "\<forall>j < ?W. v ! j = shift_flag p ?W ((!) (ar_received r)) j"
    using assms(1) by (auto simp: r0_def rx_len_def)
  define r' where "r' = r\<lparr>ar_pduBuffer := b, ar_received := v, ar_discarded := d,
      ar_firstSeqNum := ar_firstSeqNum r + of_int (int p), ar_firstSdu := c\<rparr>"
  have "moveRxWindow (int (unat (ar_firstSeqNum r) + p)) r = Inr r'"
    unfolding moveRxWindow_def ix Let_def using assms(3) g dl f(1) by (simp add: r0_def r'_def del: of_int_of_nat_eq)
  moreover have "unat (ar_firstSeqNum r') = unat (ar_firstSeqNum r) + p"
    unfolding r'_def using assms(2,4) u by (simp add: unat_word_ariths(1))
  ultimately show ?thesis using f(2-5) a
    by (intro exI[of _ r']) (auto simp: r'_def rx_len_def shift_flag_def)
qed

section \<open>Arrival of data\<close>

text \<open>A report changes only the time of the last one and the outputs; it fails only without a flow.\<close>

lemma sendStatusReport_frame:
  assumes "sendStatusReport env now r = Inr r'"
  shows "\<exists>t os. r' = r\<lparr>ar_lastSentAck := t, ar_out := ar_out r @ os\<rparr> \<and> (\<forall>x i. RxSendUp x i \<notin> set os)"
proof (cases "r' = r")
  case True
  then show ?thesis by (intro exI[of _ "ar_lastSentAck r"] exI[of _ "[]"]) simp
next
  case False
  then obtain pdu where "r' = rx_emit [RxSendDown pdu] (r\<lparr>ar_lastSentAck := now\<rparr>)"
    using assms unfolding sendStatusReport_def
    by (auto split: if_splits prod.splits option.splits simp: Let_def)
  then show ?thesis by (intro exI[of _ now] exI[of _ "[RxSendDown pdu]"]) (simp add: rx_emit_def)
qed

lemma sendStatusReport_total:
  assumes "rx_len r" "ar_windowSize r \<noteq> 0" "ar_flowControlInfo r \<noteq> None"
  shows "\<exists>r'. sendStatusReport env now r = Inr r'"
proof (cases "ae_soon env now (ar_lastSentAck r) (ar_ackReportInterval r)")
  case False
  have "unat (ar_windowSize r) \<noteq> 0" using assms(2) by (simp add: unat_eq_0)
  then have "ar_received r \<noteq> []" using assms(1) by (auto simp: rx_len_def)
  moreover obtain info where "ar_flowControlInfo r = Some info" using assms(3) by blast
  ultimately show ?thesis using sendStatusReport_eq[of r info env now] False assms(1) by (simp add: rx_len_def)
qed (simp add: sendStatusReport_def)

text \<open>The data handed up.\<close>

fun handed :: "am_rx_out list \<Rightarrow> (pdcp_pdu \<times> flow_info) list" where
  "handed [] = []"
| "handed (RxSendUp x i # os) = (x, i) # handed os"
| "handed (_ # os) = handed os"

lemma handed_append [simp]: "handed (xs @ ys) = handed xs @ handed ys"
  by (induction xs rule: handed.induct) simp_all

lemma handed_none: "(\<forall>x i. RxSendUp x i \<notin> set os) \<Longrightarrow> handed os = []"
  by (induction os rule: handed.induct) auto

lemma handed_calls [simp]: "handed (map RxTimerCall cs) = []"
  by (induction cs) simp_all

text \<open>
  What comes before the PDU is placed: the timer, the flow and perhaps a report.  The window and what
  was handed up are as they were.
\<close>

definition same_rx :: "am_rx \<Rightarrow> am_rx \<Rightarrow> bool" where
  "same_rx r r' \<longleftrightarrow> ar_pduBuffer r' = ar_pduBuffer r \<and> ar_received r' = ar_received r \<and> ar_discarded r' = ar_discarded r \<and>
     ar_windowSize r' = ar_windowSize r \<and> ar_firstSeqNum r' = ar_firstSeqNum r \<and> ar_firstSdu r' = ar_firstSdu r \<and>
     handed (ar_out r') = handed (ar_out r)"

lemma rx_timer_start_same: "same_rx r (rx_timer_start now r) \<and> ar_flowControlInfo (rx_timer_start now r) = ar_flowControlInfo r"
  by (simp add: rx_timer_start_def rx_emit_def same_rx_def split: prod.split)

lemma same_rx_trans: "same_rx r1 r2 \<Longrightarrow> same_rx r2 r3 \<Longrightarrow> same_rx r1 r3"
  by (simp add: same_rx_def)

lemma sendStatusReport_same: "sendStatusReport env now r = Inr r' \<Longrightarrow>
    same_rx r r' \<and> ar_flowControlInfo r' = ar_flowControlInfo r"
  using sendStatusReport_frame[of env now r r'] handed_none by (auto simp: same_rx_def)

definition place_pdu :: "am_rx_env \<Rightarrow> simtime \<Rightarrow> nat \<Rightarrow> am_pdu \<Rightarrow> am_rx \<Rightarrow> am_rx result" where
  "place_pdu env now i pdu r = bindE (vec_at (ar_received r) i) (\<lambda>busy.
     if busy
     then bindE (rx_pdu (int i) r) (\<lambda>bufferedpdu.
            if ap_snoMainPacket bufferedpdu = ap_snoMainPacket pdu then Inr r
            else Inl (RuntimeError ''AmRxQueue::enque(): the received PDU overlaps with an old one''))
     else bindE (carr_addAt i pdu (ar_pduBuffer r)) (\<lambda>a.
          checkCompleteSdu env now i (r\<lparr>ar_pduBuffer := a, ar_received := (ar_received r)[i := True]\<rparr>)))"

lemma rx_enque_place:
  assumes "ap_amType pdu = AM_DATA" "rx_len r" "ar_windowSize r \<noteq> 0"
    and "unat (ap_snoFragment pdu) = unat (ar_firstSeqNum r) + i" "i < unat (ar_windowSize r)" "unat (ap_snoFragment pdu) < 2 ^ 31"
  shows "\<exists>r'. rx_enque env now pdu r = place_pdu env now i pdu r' \<and> same_rx r r' \<and> ar_flowControlInfo r' \<noteq> None"
proof -
  define r1 where "r1 = (if tt_idle (ar_timer r) then rx_timer_start now r else r)"
  define r2 where "r2 = (if ar_flowControlInfo r1 = None then r1\<lparr>ar_flowControlInfo := Some (reverse_info (ap_info pdu))\<rparr> else r1)"
  have "same_rx r r1" using rx_timer_start_same[of r now] by (simp add: r1_def same_rx_def)
  then have s2: "same_rx r r2" "ar_flowControlInfo r2 \<noteq> None" by (auto simp: r2_def same_rx_def)
  have eqs: "ar_firstSeqNum r2 = ar_firstSeqNum r" "ar_windowSize r2 = ar_windowSize r" using s2(1) by (simp_all add: same_rx_def)
  have "ap_snoFragment pdu = of_int (int (unat (ar_firstSeqNum r) + i))" unfolding assms(4)[symmetric] by simp
  then have ix: "sint (ap_snoFragment pdu - ar_firstSeqNum r2) = int i"
    unfolding eqs using assms(4,6) by (simp only:) (rule rx_index, simp)
  have w: "\<not> ar_windowSize r2 \<le> of_int (int i)"
    unfolding eqs word_le_nat_alt using assms(4,5,6) of_int_pos_u32[of "int i"] by simp
  have len: "rx_len (r2\<lparr>ar_seqNum := x\<rparr>)" for x using assms(2) s2(1) by (simp add: rx_len_def same_rx_def)
  obtain r' where st: "(if ap_snoFragment pdu = ar_seqNum r2 then Inr (r2\<lparr>ar_seqNum := ar_seqNum r2 + 1\<rparr>)
      else sendStatusReport env now (r2\<lparr>ar_seqNum := ap_snoFragment pdu + 1\<rparr>)) = Inr r'"
    "same_rx r r'" "ar_flowControlInfo r' \<noteq> None"
  proof (cases "ap_snoFragment pdu = ar_seqNum r2")
    case True
    then show ?thesis using s2 that[of "r2\<lparr>ar_seqNum := ar_seqNum r2 + 1\<rparr>"] by (simp add: same_rx_def)
  next
    case False
    obtain r' where r': "sendStatusReport env now (r2\<lparr>ar_seqNum := ap_snoFragment pdu + 1\<rparr>) = Inr r'"
      using sendStatusReport_total[OF len, of "ap_snoFragment pdu + 1"] s2(2) assms(3) eqs(2) by fastforce
    moreover have "same_rx r r'" using sendStatusReport_same[OF r'] s2(1) by (simp add: same_rx_def)
    ultimately show ?thesis using False s2(2) sendStatusReport_same[OF r'] that[of r'] by simp
  qed
  have "rx_enque env now pdu r = place_pdu env now i pdu r'"
    unfolding rx_enque_def rx_data_def Let_def r1_def[symmetric] r2_def[symmetric] ix st(1) nat_int
    using assms(1) w by (simp add: place_pdu_def)
  then show ?thesis using st(2,3) by blast
qed

section \<open>Completion of an SDU\<close>

text \<open>
  A position holds its part of the SDU that lies at the positions \<open>k\<close> to \<open>m\<close>; all of them do.
\<close>

definition frag_at :: "am_pdu option list \<Rightarrow> bool list \<Rightarrow> u32 \<Rightarrow> nat \<Rightarrow> nat \<Rightarrow> nat \<Rightarrow> bool" where
  "frag_at b v sno k m j \<longleftrightarrow> j < length v \<and> v ! j \<and> (case carr_get b j of None \<Rightarrow> False
     | Some p \<Rightarrow> ap_snoMainPacket p = sno \<and> \<not> isWhole p \<and> (isFirst p \<longleftrightarrow> j = k) \<and> (isLast p \<longleftrightarrow> j = m))"

definition holds_sdu :: "am_pdu option list \<Rightarrow> bool list \<Rightarrow> u32 \<Rightarrow> nat \<Rightarrow> nat \<Rightarrow> bool" where
  "holds_sdu b v sno k m \<longleftrightarrow> k < m \<and> (\<forall>j. k \<le> j \<and> j \<le> m \<longrightarrow> frag_at b v sno k m j)"

lemma frag_atE:
  assumes "frag_at (ar_pduBuffer r) (ar_received r) sno k m j"
  obtains p where "rx_pdu (int j) r = Inr p" "j < length (ar_received r) \<and> ar_received r ! j" "ap_snoMainPacket p = sno" "\<not> isWhole p"
    "isFirst p \<longleftrightarrow> j = k" "isLast p \<longleftrightarrow> j = m"
  using assms by (auto simp: frag_at_def rx_pdu_def split: option.splits)

lemma holds_sduE:
  assumes "holds_sdu (ar_pduBuffer r) (ar_received r) sno k m" "k \<le> j" "j \<le> m"
  obtains p where "rx_pdu (int j) r = Inr p" "j < length (ar_received r) \<and> ar_received r ! j" "ap_snoMainPacket p = sno" "\<not> isWhole p"
    "isFirst p \<longleftrightarrow> j = k" "isLast p \<longleftrightarrow> j = m"
  using assms frag_atE[of r sno k m j] by (auto simp: holds_sdu_def)

lemma backward_search_found:
  assumes h: "\<forall>j. k \<le> j \<and> j < i \<longrightarrow> frag_at (ar_pduBuffer r) (ar_received r) sno k m j" and "k < i" "i \<le> m"
  shows "backward_search (sint sno) (rev [0..<i]) r = Inr Found"
  using assms
proof (induction i)
  case (Suc i)
  obtain p where p: "rx_pdu (int i) r = Inr p" "i < length (ar_received r) \<and> ar_received r ! i" "ap_snoMainPacket p = sno" "\<not> isWhole p"
    "isFirst p \<longleftrightarrow> i = k" "isLast p \<longleftrightarrow> i = m" using Suc.prems frag_atE[of r sno k m i] by auto
  show ?case using p Suc by (cases "i = k") (simp_all add: vec_at_def del: bindE_eq_Inr)
qed simp

lemma forward_search_found:
  assumes h: "holds_sdu (ar_pduBuffer r) (ar_received r) sno k m" and "k \<le> i" "i < m" "m < n"
  shows "forward_search (sint sno) [Suc i..<n] r = Inr Found"
  using assms(2,3)
proof (induction "m - i" arbitrary: i)
  case (Suc x)
  obtain p where p: "rx_pdu (int (Suc i)) r = Inr p" "Suc i < length (ar_received r) \<and> ar_received r ! Suc i" "ap_snoMainPacket p = sno"
    "\<not> isWhole p" "isFirst p \<longleftrightarrow> Suc i = k" "isLast p \<longleftrightarrow> Suc i = m"
    using h Suc.prems by (elim holds_sduE[where j = "Suc i"]) auto
  have u: "[Suc i..<n] = Suc i # [Suc (Suc i)..<n]" using Suc.prems assms(4) by (simp add: upt_conv_Cons)
  show ?case
  proof (cases "Suc i = m")
    case True
    then show ?thesis unfolding u using p by (simp add: vec_at_def del: bindE_eq_Inr)
  next
    case False
    then have "forward_search (sint sno) [Suc (Suc i)..<n] r = Inr Found" using Suc.hyps Suc.prems by simp
    then show ?thesis unfolding u using p False Suc.prems by (simp add: vec_at_def del: bindE_eq_Inr)
  qed
qed simp

text \<open>Where the search ends: with position 0, or with none for the first fragment.\<close>

lemma checkCompleteSdu_found:
  assumes h: "holds_sdu (ar_pduBuffer r) (ar_received r) sno k m" and i: "k \<le> i" "i \<le> m" "m < unat (ar_windowSize r)"
  shows "\<exists>s. checkCompleteSdu env now i r = passUp env now (if i = k then - 1 else 0) (r\<lparr>ar_firstSdu := s\<rparr>)"
proof -
  obtain p where p: "rx_pdu (int i) r = Inr p" "ap_snoMainPacket p = sno" "\<not> isWhole p"
    "isFirst p \<longleftrightarrow> i = k" "isLast p \<longleftrightarrow> i = m" using h i by (elim holds_sduE[where j = i]) auto
  define s where "s = (if ar_firstSdu r = - 1 then sint sno else ar_firstSdu r)"
  have rs: "(if ar_firstSdu r = - 1 then r\<lparr>ar_firstSdu := sint sno\<rparr> else r) = r\<lparr>ar_firstSdu := s\<rparr>"
    by (simp add: s_def)
  have hs: "holds_sdu (ar_pduBuffer (r\<lparr>ar_firstSdu := s\<rparr>)) (ar_received (r\<lparr>ar_firstSdu := s\<rparr>)) sno k m" using h by simp
  have fw: "i < m \<Longrightarrow> forward_search (sint sno) [Suc i..<unat (ar_windowSize (r\<lparr>ar_firstSdu := s\<rparr>))] (r\<lparr>ar_firstSdu := s\<rparr>) = Inr Found"
    using i by (intro forward_search_found[OF hs]) simp_all
  have eq: "checkCompleteSdu env now i r = bindE (if isFirst p then Inr (Found, - 1)
      else if i = 0 then (if s = sint sno then Inr (Found, 0)
                          else Inl (RuntimeError ''AmRxQueue::checkCompleteSdu(): first SDU error''))
      else bindE (backward_search (sint sno) (rev [0..<i]) (r\<lparr>ar_firstSdu := s\<rparr>)) (\<lambda>s. Inr (s, 0)))
    (\<lambda>(backward, firstIndex). if backward = Missing then Inr (r\<lparr>ar_firstSdu := s\<rparr>)
       else if isLast p then passUp env now firstIndex (r\<lparr>ar_firstSdu := s\<rparr>)
       else bindE (forward_search (sint sno) [Suc i..<unat (ar_windowSize (r\<lparr>ar_firstSdu := s\<rparr>))] (r\<lparr>ar_firstSdu := s\<rparr>))
         (\<lambda>f. if f = Missing then Inr (r\<lparr>ar_firstSdu := s\<rparr>) else passUp env now firstIndex (r\<lparr>ar_firstSdu := s\<rparr>)))"
    unfolding checkCompleteSdu_def p(1) bindE_simps Let_def p(2) rs using p(3) by simp
  show ?thesis
  proof (cases "i = k")
    case True
    then have "i < m" using h by (simp add: holds_sdu_def)
    then have "checkCompleteSdu env now i r = passUp env now (- 1) (r\<lparr>ar_firstSdu := s\<rparr>)"
      unfolding eq using True p(4,5) fw by simp
    then show ?thesis using True by auto
  next
    case False
    then have "k < i" using i by simp
    have bw: "backward_search (sint sno) (rev [0..<i]) (r\<lparr>ar_firstSdu := s\<rparr>) = Inr Found"
      using hs i by (intro backward_search_found[OF _ \<open>k < i\<close> i(2)]) (simp add: holds_sdu_def)
    have "checkCompleteSdu env now i r = passUp env now 0 (r\<lparr>ar_firstSdu := s\<rparr>)"
      unfolding eq using False p(4,5) \<open>k < i\<close> i fw bw by (cases "i = m") simp_all
    then show ?thesis using False by auto
  qed
qed

text \<open>Handing up the packet of the PDU at the start of the window.\<close>

lemma passUp_start:
  assumes "rx_len r" "ar_windowSize r \<noteq> 0" "ar_flowControlInfo r \<noteq> None"
    and "carr_get (ar_pduBuffer r) 0 = Some p0" "ap_sdu p0 = Some sdu0" "fi_direction (ap_info p0) \<noteq> UNKNOWN_DIRECTION"
    and "ue_rlc (ae_nodes env) (fi_sourceId (ap_info p0))" "ue_rlc (ae_nodes env) (fi_destId (ap_info p0))"
  shows "\<exists>r'. passUp env now 0 r = Inr r' \<and> handed (ar_out r') = handed (ar_out r) @ [(rs_pdcp sdu0, ap_info p0)]"
proof -
  define r0 where "r0 = rx_emit [RxSendUp (rs_pdcp sdu0) (ap_info p0)] r"
  have e: "passUp env now 0 r = sendStatusReport env now r0"
    using assms(4-8) by (simp add: passUp_def rx_pdu_def Let_def r0_def)
  have t: "rx_len r0" "ar_windowSize r0 \<noteq> 0" "ar_flowControlInfo r0 \<noteq> None"
    using assms(1-3) by (simp_all add: r0_def rx_emit_def rx_len_def)
  obtain r' where r': "sendStatusReport env now r0 = Inr r'" using sendStatusReport_total[OF t] by blast
  then have "handed (ar_out r') = handed (ar_out r) @ [(rs_pdcp sdu0, ap_info p0)]"
    using sendStatusReport_same[OF r'] by (simp add: same_rx_def r0_def rx_emit_def)
  then show ?thesis using e r' by simp
qed

text \<open>What \<open>passUp\<close> asks of a PDU: its SDU is there, and so are both ends of its flow.\<close>

definition passes_up :: "am_rx_env \<Rightarrow> am_pdu \<Rightarrow> bool" where
  "passes_up env p \<longleftrightarrow> ap_sdu p \<noteq> None \<and> fi_direction (ap_info p) \<noteq> UNKNOWN_DIRECTION \<and>
     ue_rlc (ae_nodes env) (fi_sourceId (ap_info p)) \<and> ue_rlc (ae_nodes env) (fi_destId (ap_info p))"

text \<open>
  C38: A data PDU arrives at a free position of the window (with a number below \<open>2 ^ 31\<close>) and is the last one
  missing of an SDU of several fragments, wherever the SDU lies in the window and whichever fragment
  the PDU is.  The queue then finds the SDU complete, and what it does depends on the PDU at the start
  of the window, not on the SDU.  If the PDU that arrived is not the first fragment of the SDU, and a
  PDU lies at the start of the window (its SDU there and both ends of its flow alive), exactly one
  packet is handed up: that of the PDU at the start, which is the right one only for the SDU that
  starts there.  If the start is empty, the queue throws; and if the PDU that arrived is the first
  fragment, the queue throws in any case, since the position it looks at is \<open>-1\<close>.
\<close>
theorem am_rx_completes_sdu:
  assumes "ap_amType pdu = AM_DATA" "rx_len r" "ar_windowSize r \<noteq> 0"
    and "unat (ap_snoFragment pdu) = unat (ar_firstSeqNum r) + i" "i < unat (ar_windowSize r)" "unat (ap_snoFragment pdu) < 2 ^ 31"
    and "\<not> ar_received r ! i" "carr_get (ar_pduBuffer r) i = None"
    and "holds_sdu (carr_set (ar_pduBuffer r) i (Some pdu)) ((ar_received r)[i := True]) sno k m" "k \<le> i" "i \<le> m"
  shows "case carr_get (ar_pduBuffer r) 0 of None \<Rightarrow> \<not> is_ok (rx_enque env now pdu r)
     | Some p0 \<Rightarrow> if i = k \<or> \<not> passes_up env p0 then \<not> is_ok (rx_enque env now pdu r)
         else \<exists>r'. rx_enque env now pdu r = Inr r' \<and>
           handed (ar_out r') = handed (ar_out r) @ [(rs_pdcp (the (ap_sdu p0)), ap_info p0)]"
proof -
  obtain r1 where r1: "rx_enque env now pdu r = place_pdu env now i pdu r1" "same_rx r r1" "ar_flowControlInfo r1 \<noteq> None"
    using rx_enque_place[OF assms(1-6)] by blast
  define r2 where "r2 = r1\<lparr>ar_pduBuffer := carr_set (ar_pduBuffer r1) i (Some pdu), ar_received := (ar_received r1)[i := True]\<rparr>"
  have l: "i < length (ar_received r1)" using assms(2,5) r1(2) by (simp add: rx_len_def same_rx_def)
  have "place_pdu env now i pdu r1 = checkCompleteSdu env now i r2"
    using l assms(7,8) r1(2) by (simp add: place_pdu_def vec_at_def carr_addAt_def r2_def same_rx_def)
  moreover have "holds_sdu (ar_pduBuffer r2) (ar_received r2) sno k m" using assms(9) r1(2) by (simp add: r2_def same_rx_def)
  moreover have "m < unat (ar_windowSize r2)" using assms(2,9) r1(2)
    by (simp add: holds_sdu_def frag_at_def rx_len_def r2_def same_rx_def)
  ultimately obtain s where eq: "rx_enque env now pdu r = passUp env now (if i = k then - 1 else 0) (r2\<lparr>ar_firstSdu := s\<rparr>)"
    using checkCompleteSdu_found[of r2 sno k m i env now] assms(10,11) r1(1) by auto
  show ?thesis
  proof (cases "i = k")
    case True
    then have "\<not> is_ok (rx_enque env now pdu r)" unfolding eq by (simp add: passUp_def rx_pdu_def)
    then show ?thesis using True by (simp split: option.split)
  next
    case False
    then have "i \<noteq> 0" using assms(10) by simp
    then have g0: "carr_get (ar_pduBuffer (r2\<lparr>ar_firstSdu := s\<rparr>)) 0 = carr_get (ar_pduBuffer r) 0"
      using r1(2) by (simp add: r2_def same_rx_def)
    have run: "rx_enque env now pdu r = passUp env now 0 (r2\<lparr>ar_firstSdu := s\<rparr>)" unfolding eq using False by simp
    show ?thesis
    proof (cases "\<exists>p0. carr_get (ar_pduBuffer r) 0 = Some p0 \<and> passes_up env p0")
      case bad: False
      then have "\<not> is_ok (passUp env now 0 (r2\<lparr>ar_firstSdu := s\<rparr>))"
        using g0 by (auto simp: passUp_def rx_pdu_def passes_up_def Let_def split: option.splits)
      then show ?thesis using bad run by (auto split: option.split)
    next
      case True
      then obtain p0 sdu0 where p0: "carr_get (ar_pduBuffer r) 0 = Some p0" "passes_up env p0" "ap_sdu p0 = Some sdu0"
        by (auto simp: passes_up_def)
      have "\<exists>r'. passUp env now 0 (r2\<lparr>ar_firstSdu := s\<rparr>) = Inr r' \<and>
          handed (ar_out r') = handed (ar_out (r2\<lparr>ar_firstSdu := s\<rparr>)) @ [(rs_pdcp sdu0, ap_info p0)]"
        using assms(2,3) p0 \<open>i \<noteq> 0\<close> r1(2,3) by (intro passUp_start) (simp_all add: passes_up_def rx_len_def r2_def same_rx_def)
      then show ?thesis using run False p0 r1(2) by (auto simp: same_rx_def r2_def)
    qed
  qed
qed

text \<open>
  C39: After the window has moved by more than half its size, a PDU for one of the positions whose
  mark of receipt was left behind is not accepted: its arrival throws.  In particular, when the
  receiver has a whole window and is told to move past it, none of the PDUs of the next window can
  be received.
\<close>
theorem am_rx_stale_position_throws:
  assumes "rx_len r" "unat (ar_firstSeqNum r) + 2 * unat (ar_windowSize r) < 2 ^ 31" "0 < p" "p \<le> unat (ar_windowSize r)"
    and "ar_received r ! j" "unat (ar_windowSize r) - p \<le> j" "j < p"
    and "ap_amType pdu = AM_DATA" "unat (ap_snoFragment pdu) = unat (ar_firstSeqNum r) + p + j"
  shows "\<exists>r'. moveRxWindow (int (unat (ar_firstSeqNum r) + p)) r = Inr r' \<and> carr_get (ar_pduBuffer r') j = None \<and>
    \<not> is_ok (rx_enque env now pdu r')"
proof -
  have jW: "j < unat (ar_windowSize r)" "\<not> j + p < unat (ar_windowSize r)" using assms(4,6,7) by auto
  have "unat (ar_firstSeqNum r) + unat (ar_windowSize r) < 2 ^ 31" using assms(2) by simp
  from am_rx_window_move[OF assms(1) this assms(3,4)] jW assms(5,7) obtain r' where
    r': "moveRxWindow (int (unat (ar_firstSeqNum r) + p)) r = Inr r'" "rx_len r'" "ar_windowSize r' = ar_windowSize r"
      "unat (ar_firstSeqNum r') = unat (ar_firstSeqNum r) + p" "carr_get (ar_pduBuffer r') j = None" "ar_received r' ! j"
    by auto
  have w: "ar_windowSize r' \<noteq> 0" using jW(1) r'(3) by auto
  have n: "unat (ap_snoFragment pdu) = unat (ar_firstSeqNum r') + j" "j < unat (ar_windowSize r')" "unat (ap_snoFragment pdu) < 2 ^ 31"
    using assms(2,4,9) r'(3,4) jW(1) by simp_all
  obtain r1 where r1: "rx_enque env now pdu r' = place_pdu env now j pdu r1" "same_rx r' r1"
    using rx_enque_place[OF assms(8) r'(2) w n] by blast
  have "vec_at (ar_received r1) j = Inr True" using r1(2) r'(2,6) n(2) by (simp add: same_rx_def rx_len_def)
  moreover have "\<exists>e. rx_pdu (int j) r1 = Inl e" using r1(2) r'(5) by (simp add: same_rx_def rx_pdu_def)
  ultimately have "\<not> is_ok (rx_enque env now pdu r')" unfolding r1(1) by (auto simp: place_pdu_def)
  then show ?thesis using r' by blast
qed

end
