(* ===== verification/AmTransfer.thy ===== *)
theory AmTransfer
  imports AmRxWindow
begin

text \<open>
  The two queues of the acknowledged mode together: an SDU put into the transmission queue, cut into
  PDUs and received in order comes out of the reception queue once.
\<close>

section \<open>What the sender sends\<close>

definition am_frag :: "int \<Rightarrow> nat \<Rightarrow> u32 \<Rightarrow> rlc_sdu \<Rightarrow> flow_info \<Rightarrow> nat \<Rightarrow> am_pdu" where
  "am_frag unit n first sdu info c =
     \<lparr>ap_amType = AM_DATA, ap_txNumber = 0, ap_firstSn = sint first, ap_lastSn = to_int32 (sint first + int n - 1),
      ap_bitmap = [], ap_totalFragments = of_int (int n), ap_snoFragment = first + of_nat c,
      ap_snoMainPacket = rs_snoMainPacket sdu, ap_bytes = unit, ap_sdu = Some sdu, ap_info = info\<rparr>"

text \<open>The SDU is being cut and \<open>c\<close> of its \<open>n\<close> PDUs have been sent; nothing else waits.\<close>

definition cutting :: "int \<Rightarrow> nat \<Rightarrow> u32 \<Rightarrow> rlc_sdu \<Rightarrow> flow_info \<Rightarrow> nat \<Rightarrow> am_tx \<Rightarrow> bool" where
  "cutting unit n first sdu info c q \<longleftrightarrow> at_currentSdu q = Some (sdu, info) \<and> at_lteInfo q = Some info \<and> at_sduQueue q = [] \<and>
     at_fragDesc q = \<lparr>fd_fragUnit = unit, fd_totalFragments = int n, fd_fragCounter = int c, fd_firstSn = sint first\<rparr> \<and>
     at_seqNum q = first + of_nat c"

lemma cutting_pdu: "cutting unit n first sdu info c q \<Longrightarrow> data_pdu sdu info q = am_frag unit n first sdu info c"
  by (simp add: cutting_def data_pdu_def am_frag_def Let_def)

lemma add_pdus_cut:
  assumes "am_ok q" "next_sdu q = Inr q0" "\<not> (at_currentSdu q = None \<and> at_sduQueue q = [])" "cutting unit n first sdu info c q0"
    and "at_seqNum q0 = at_seqNum q" "c < n" "tx_count q + (n - c) \<le> tx_size q" "n - c \<le> k"
  shows "\<exists>q'. add_pdus_loop k now q = Inr q' \<and> am_ok q' \<and> at_currentSdu q' = None \<and> at_sduQueue q' = [] \<and>
    sends (at_out q') = sends (at_out q) @ map (am_frag unit n first sdu info) [c..<n]"
  using assms
proof (induction k arbitrary: q q0 c)
  case 0
  then show ?case by simp
next
  case (Suc k)
  have free: "tx_count q < tx_size q" using Suc.prems(6,7) by linarith
  from add_one_pdu_ok[OF Suc.prems(1,3) free, of now] obtain q1 where
    q1: "add_one_pdu now q = Inr q1" "am_ok q1" "tx_count q1 = Suc (tx_count q)" "tx_first q1 = tx_first q"
      "tx_size q1 = tx_size q" "added_pdu q q1" by blast
  have fs: "at_firstSeqNum q1 = at_firstSeqNum q" using q1(4) by (simp add: tx_first_def word_unat_eq_iff)
  have sq: "at_seqNum q1 = first + of_nat (Suc c)"
    using seqNum_eq[of q1] seqNum_eq[of q] Suc.prems(4,5) fs unfolding cutting_def q1(3) tx_sn_def by (simp add: algebra_simps)
  have loop: "add_pdus_loop (Suc k) now q = add_pdus_loop k now q1"
    using q1(1) free Suc.prems(3) by (simp add: window_open)
  from q1(6) Suc.prems(2,4) have e: "at_lteInfo q1 = Some info" "at_sduQueue q1 = []"
    "sends (at_out q1) = sends (at_out q) @ [am_frag unit n first sdu info c]"
    "at_currentSdu q1 = (if n \<le> Suc c then None else Some (sdu, info))"
    "\<not> n \<le> Suc c \<Longrightarrow> at_fragDesc q1 = \<lparr>fd_fragUnit = unit, fd_totalFragments = int n, fd_fragCounter = int (Suc c), fd_firstSn = sint first\<rparr>"
    using cutting_pdu[OF Suc.prems(4)] unfolding added_pdu_def cutting_def by (auto simp: addFragment_def Let_def)
  show ?case
  proof (cases "n \<le> Suc c")
    case True
    then have "n = Suc c" using Suc.prems(6) by simp
    moreover have "add_pdus_loop k now q1 = Inr q1" using e(2,4) True by (cases k) simp_all
    ultimately show ?thesis unfolding loop using e q1(2) by simp
  next
    case False
    have cut: "cutting unit n first sdu info (Suc c) q1"
      unfolding cutting_def using e(1,2) e(4,5) sq False by simp
    have nx: "next_sdu q1 = Inr q1" using cut by (simp add: cutting_def next_sdu_def)
    have ne: "\<not> (at_currentSdu q1 = None \<and> at_sduQueue q1 = [])" using cut by (simp add: cutting_def)
    have l: "Suc c < n" "tx_count q1 + (n - Suc c) \<le> tx_size q1" "n - Suc c \<le> k" using False Suc.prems(7,8) q1(3,5) by linarith+
    have u: "[c..<n] = c # [Suc c..<n]" using Suc.prems(6) by (simp add: upt_conv_Cons)
    from Suc.IH[OF q1(2) nx ne cut refl l] show ?thesis unfolding loop u by (auto simp: e(3))
  qed
qed

definition am_frag_count :: "int \<Rightarrow> rlc_sdu \<Rightarrow> nat" where
  "am_frag_count unit sdu = nat (- ((- rs_bytes sdu) div unit))"

lemma am_enque_cut:
  assumes "am_ok q" "at_currentSdu q = None" "at_sduQueue q = []" "0 < fd_fragUnit (at_fragDesc q)"
    and "0 < rs_bytes sdu" "rs_bytes sdu < 2 ^ 32"
    and n: "n = am_frag_count (fd_fragUnit (at_fragDesc q)) sdu" "tx_count q + n \<le> tx_size q"
  shows "0 < n" "\<exists>q'. am_enque now (sdu, info) q = Inr q' \<and> am_ok q' \<and>
    sends (at_out q') = sends (at_out q) @ map (am_frag (fd_fragUnit (at_fragDesc q)) n (at_seqNum q) sdu info) [0..<n]"
proof -
  define u where "u = fd_fragUnit (at_fragDesc q)"
  have "(- rs_bytes sdu) div u < 0" using assms(4,5) by (simp add: u_def pos_imp_zdiv_neg_iff)
  then have nn: "int n = - ((- rs_bytes sdu) div u)" and n0: "0 < n" by (simp_all add: n(1) am_frag_count_def u_def)
  show "0 < n" by (fact n0)
  define q1 where "q1 = q\<lparr>at_sduQueue := [(sdu, info)]\<rparr>"
  have ok: "am_ok q1" using assms(1)
    by (simp add: q1_def am_ok_def win_ok_def pdu_timers_ok_def mrw_ok_def info_ok_def tx_size_def tx_first_def tx_count_def
        pending_def tx_sn_def)
  have c: "tx_count q1 = tx_count q" "tx_size q1 = tx_size q" by (simp_all add: q1_def tx_count_def tx_size_def)
  have b: "uint (of_int (rs_bytes sdu) :: u32) = rs_bytes sdu" using assms(5,6) by (simp add: uint_word_of_int)
  define q0 where "q0 = q1\<lparr>at_currentSdu := Some (sdu, info), at_sduQueue := [],
     at_fragDesc := \<lparr>fd_fragUnit = u, fd_totalFragments = int n, fd_fragCounter = 0, fd_firstSn = sint (at_seqNum q)\<rparr>,
     at_lteInfo := Some info\<rparr>"
  have sf: "startFragmentation (of_int (rs_bytes sdu)) (at_seqNum q) (at_fragDesc q) =
      Inr \<lparr>fd_fragUnit = u, fd_totalFragments = int n, fd_fragCounter = 0, fd_firstSn = sint (at_seqNum q)\<rparr>"
    using assms(4) b nn by (cases "at_fragDesc q") (simp add: startFragmentation_def u_def)
  have nx: "next_sdu q1 = Inr q0" using assms(2) sf by (simp add: next_sdu_def q1_def q0_def)
  have cut: "cutting u n (at_seqNum q) sdu info 0 q0" by (simp add: cutting_def q0_def q1_def)
  have e: "am_enque now (sdu, info) q = addPdus now q1"
    using assms(2,3) n(2) n0 c window_open[of q] by (simp add: am_enque_def q1_def Let_def)
  have ne: "\<not> (at_currentSdu q1 = None \<and> at_sduQueue q1 = [])" by (simp add: q1_def)
  have sq: "at_seqNum q0 = at_seqNum q1" "sends (at_out q1) = sends (at_out q)" by (simp_all add: q0_def q1_def)
  have l: "tx_count q1 + (n - 0) \<le> tx_size q1" "n - 0 \<le> unat (at_windowSize q1)" using n(2) c by (simp_all add: q1_def tx_size_def)
  from add_pdus_cut[OF ok nx ne cut sq(1) n0 l, of now] show "\<exists>q'. am_enque now (sdu, info) q = Inr q' \<and> am_ok q' \<and>
    sends (at_out q') = sends (at_out q) @ map (am_frag (fd_fragUnit (at_fragDesc q)) n (at_seqNum q) sdu info) [0..<n]"
    unfolding e addPdus_def sq(2) u_def by blast
qed

section \<open>What the receiver makes of it\<close>

lemma am_frag_place:
  assumes "unat first + n < 2 ^ 31" "c < n"
  shows "isFirst (am_frag unit n first sdu info c) \<longleftrightarrow> c = 0" "isLast (am_frag unit n first sdu info c) \<longleftrightarrow> c = n - 1"
    "isWhole (am_frag unit n first sdu info c) \<longleftrightarrow> n = 1" "unat (ap_snoFragment (am_frag unit n first sdu info c)) = unat first + c"
proof -
  let ?f = "am_frag unit n first sdu info c"
  have f: "sint first = int (unat first)" using assms by (intro sint_u32_small) simp
  have "unat first + (n - 1) < 2 ^ 31" using assms by linarith
  then have "int (unat first + (n - 1)) < 2 ^ 31" by (metis of_nat_less_iff of_nat_numeral of_nat_power)
  then have t: "to_int32 (int (unat first + (n - 1))) = int (unat first + (n - 1))" by (intro to_int32_id) simp_all
  have e: "int (unat first) + int n - 1 = int (unat first + (n - 1))" using assms(2) by (simp add: of_nat_diff)
  have l: "ap_lastSn ?f = int (unat first + (n - 1))" unfolding am_frag_def f e t by simp
  have w: "unat (first + of_nat x) = unat first + x" if "x < n" for x
    using that assms(1) by (simp add: unat_word_ariths(1) unat_of_nat)
  have inj: "first + of_nat x = first + of_nat c \<longleftrightarrow> x = c" if "x < n" for x
    using w[OF that] w[OF assms(2)] word_unat_eq_iff[of "first + of_nat x" "first + of_nat c"] by simp
  show "unat (ap_snoFragment ?f) = unat first + c" using w[OF assms(2)] by (simp add: am_frag_def)
  show "isFirst ?f \<longleftrightarrow> c = 0" using inj[of 0] assms(2) by (auto simp: isFirst_def am_frag_def)
  have "(of_int (ap_lastSn ?f) :: u32) = first + of_nat (n - 1)" unfolding l by simp
  then show "isLast ?f \<longleftrightarrow> c = n - 1" using inj[of "n - 1"] assms(2) unfolding isLast_def by (auto simp: am_frag_def)
  have "ap_firstSn ?f = int (unat first)" by (simp add: am_frag_def f)
  then show "isWhole ?f \<longleftrightarrow> n = 1" unfolding isWhole_def l using assms(2) by auto
qed

text \<open>The first \<open>c\<close> PDUs are at the start of the window and nothing else has been received.\<close>

definition filled :: "int \<Rightarrow> nat \<Rightarrow> u32 \<Rightarrow> rlc_sdu \<Rightarrow> flow_info \<Rightarrow> nat \<Rightarrow> am_rx \<Rightarrow> bool" where
  "filled unit n first sdu info c r \<longleftrightarrow> rx_len r \<and> ar_firstSeqNum r = first \<and> n \<le> unat (ar_windowSize r) \<and>
     (\<forall>j. carr_get (ar_pduBuffer r) j = (if j < c then Some (am_frag unit n first sdu info j) else None)) \<and>
     (\<forall>j < unat (ar_windowSize r). ar_received r ! j \<longleftrightarrow> j < c)"

definition flow_known :: "am_rx_env \<Rightarrow> flow_info \<Rightarrow> bool" where
  "flow_known env info \<longleftrightarrow> fi_direction info \<noteq> UNKNOWN_DIRECTION \<and> ue_rlc (ae_nodes env) (fi_sourceId info) \<and>
     ue_rlc (ae_nodes env) (fi_destId info)"

lemma filled_same: "filled unit n first sdu info c r \<Longrightarrow> same_rx r r' \<Longrightarrow> filled unit n first sdu info c r'"
  by (simp add: filled_def same_rx_def rx_len_def)

lemma filled_next:
  assumes "filled unit n first sdu info c r" "c < n"
  shows "filled unit n first sdu info (Suc c)
    (r\<lparr>ar_pduBuffer := carr_set (ar_pduBuffer r) c (Some (am_frag unit n first sdu info c)), ar_received := (ar_received r)[c := True]\<rparr>)"
  using assms by (auto simp: filled_def rx_len_def less_Suc_eq nth_list_update)

lemma filled_frag_at:
  assumes "filled unit n first sdu info c r" "unat first + n < 2 ^ 31" "1 < n" "c \<le> n" "j < c"
  shows "frag_at (ar_pduBuffer r) (ar_received r) (rs_snoMainPacket sdu) 0 (n - 1) j"
  using assms am_frag_place[OF assms(2), of j unit sdu info]
  by (auto simp: frag_at_def filled_def rx_len_def am_frag_def[of unit n first sdu info j, THEN arg_cong[of _ _ ap_snoMainPacket]])

text \<open>Before the last PDU, nothing is handed up.\<close>

lemma checkCompleteSdu_waits:
  assumes fl: "filled unit n first sdu info (Suc c) r" and b: "unat first + n < 2 ^ 31" and c: "Suc c < n"
  shows "\<exists>s. checkCompleteSdu env now c r = Inr (r\<lparr>ar_firstSdu := s\<rparr>)"
proof -
  let ?p = "am_frag unit n first sdu info c"
  have cn: "c < n" using c by simp
  note pl = am_frag_place[OF b cn, of unit sdu info]
  have p: "rx_pdu (int c) r = Inr ?p" using fl by (simp add: rx_pdu_def filled_def)
  have sno: "ap_snoMainPacket ?p = rs_snoMainPacket sdu" by (simp add: am_frag_def)
  define s where "s = (if ar_firstSdu r = - 1 then sint (rs_snoMainPacket sdu) else ar_firstSdu r)"
  have rs: "(if ar_firstSdu r = - 1 then r\<lparr>ar_firstSdu := sint (rs_snoMainPacket sdu)\<rparr> else r) = r\<lparr>ar_firstSdu := s\<rparr>"
    by (simp add: s_def)
  have W: "Suc c < unat (ar_windowSize r)" "length (ar_received r) = unat (ar_windowSize r)" "\<not> ar_received r ! Suc c"
    using fl c by (auto simp: filled_def rx_len_def)
  have u: "[Suc c..<unat (ar_windowSize r)] = Suc c # [Suc (Suc c)..<unat (ar_windowSize r)]" using W(1) by (simp add: upt_conv_Cons)
  have fw: "forward_search x [Suc c..<unat (ar_windowSize r)] (r\<lparr>ar_firstSdu := s\<rparr>) = Inr Missing" for x
    unfolding u using W by (simp add: vec_at_def del: bindE_eq_Inr)
  have bw: "backward_search (sint (rs_snoMainPacket sdu)) (rev [0..<c]) (r\<lparr>ar_firstSdu := s\<rparr>) = Inr Found" if "0 < c"
    using filled_frag_at[OF fl b] c that by (intro backward_search_found[where k = 0 and m = "n - 1"]) auto
  have nw: "\<not> isWhole ?p" "\<not> isLast ?p" using pl(2,3) c by auto
  show ?thesis
  proof (cases "c = 0")
    case True
    then show ?thesis unfolding checkCompleteSdu_def p bindE_simps Let_def sno rs using nw pl(1) fw by auto
  next
    case False
    then show ?thesis unfolding checkCompleteSdu_def p bindE_simps Let_def sno rs using nw pl(1) fw bw by auto
  qed
qed

text \<open>The arrival of the next PDU comes down to the search for the SDU.\<close>

lemma rx_enque_next:
  assumes fl: "filled unit n first sdu info c r" and b: "unat first + n < 2 ^ 31" and c: "c < n"
  shows "\<exists>r2. rx_enque env now (am_frag unit n first sdu info c) r = checkCompleteSdu env now c r2 \<and>
    filled unit n first sdu info (Suc c) r2 \<and> handed (ar_out r2) = handed (ar_out r) \<and> ar_flowControlInfo r2 \<noteq> None"
proof -
  let ?p = "am_frag unit n first sdu info c"
  have W: "c < unat (ar_windowSize r)" "ar_windowSize r \<noteq> 0" using fl c by (auto simp: filled_def)
  have d: "ap_amType ?p = AM_DATA" by (simp add: am_frag_def)
  have s: "unat (ap_snoFragment ?p) = unat (ar_firstSeqNum r) + c" "unat (ap_snoFragment ?p) < 2 ^ 31"
    using am_frag_place(4)[OF b c, of unit sdu info] fl b c by (simp_all add: filled_def)
  have len: "rx_len r" using fl by (simp add: filled_def)
  from rx_enque_place[OF d len W(2) s(1) W(1) s(2), of env now] obtain r1 where
    r1: "rx_enque env now ?p r = place_pdu env now c ?p r1" "same_rx r r1" "ar_flowControlInfo r1 \<noteq> None" by blast
  have f1: "filled unit n first sdu info c r1" by (rule filled_same[OF fl r1(2)])
  have "c < length (ar_received r1)" "\<not> ar_received r1 ! c" "carr_get (ar_pduBuffer r1) c = None"
    using f1 c by (auto simp: filled_def rx_len_def)
  then have "place_pdu env now c ?p r1 = checkCompleteSdu env now c
      (r1\<lparr>ar_pduBuffer := carr_set (ar_pduBuffer r1) c (Some ?p), ar_received := (ar_received r1)[c := True]\<rparr>)"
    by (simp add: place_pdu_def vec_at_def carr_addAt_def)
  then show ?thesis using filled_next[OF f1 c] r1 by (intro exI) (auto simp: same_rx_def)
qed

lemma rx_enque_waits:
  assumes fl: "filled unit n first sdu info c r" and b: "unat first + n < 2 ^ 31" and c: "Suc c < n"
  shows "\<exists>r'. rx_enque env now (am_frag unit n first sdu info c) r = Inr r' \<and>
    filled unit n first sdu info (Suc c) r' \<and> handed (ar_out r') = handed (ar_out r)"
proof -
  obtain r2 where r2: "rx_enque env now (am_frag unit n first sdu info c) r = checkCompleteSdu env now c r2"
    "filled unit n first sdu info (Suc c) r2" "handed (ar_out r2) = handed (ar_out r)"
    using rx_enque_next[OF fl b, of env now] c by auto
  obtain s where "checkCompleteSdu env now c r2 = Inr (r2\<lparr>ar_firstSdu := s\<rparr>)" using checkCompleteSdu_waits[OF r2(2) b c] by blast
  then show ?thesis using r2 by (intro exI[of _ "r2\<lparr>ar_firstSdu := s\<rparr>"]) (simp add: filled_def rx_len_def)
qed

lemma rx_enque_last:
  assumes fl: "filled unit n first sdu info c r" and b: "unat first + n < 2 ^ 31" and c: "n = Suc c"
    and known: "flow_known env info"
  shows "\<exists>r'. rx_enque env now (am_frag unit n first sdu info c) r = Inr r' \<and>
    handed (ar_out r') = handed (ar_out r) @ [(rs_pdcp sdu, info)]"
proof -
  let ?p = "am_frag unit n first sdu info c"
  obtain r2 where r2: "rx_enque env now ?p r = checkCompleteSdu env now c r2"
    "filled unit n first sdu info (Suc c) r2" "handed (ar_out r2) = handed (ar_out r)" "ar_flowControlInfo r2 \<noteq> None"
    using rx_enque_next[OF fl b, of env now] c by auto
  have W: "c < unat (ar_windowSize r2)" using r2(2) c by (simp add: filled_def)
  have "\<exists>s. checkCompleteSdu env now c r2 = passUp env now 0 (r2\<lparr>ar_firstSdu := s\<rparr>)"
  proof (cases "c = 0")
    case True
    have "rx_pdu (int c) r2 = Inr ?p" using r2(2) by (simp add: rx_pdu_def filled_def)
    moreover have "isWhole ?p" using am_frag_place(3)[OF b] c True by auto
    ultimately have "checkCompleteSdu env now c r2 = passUp env now 0
        (if ar_firstSdu r2 = - 1 then r2\<lparr>ar_firstSdu := sint (ap_snoMainPacket ?p)\<rparr> else r2)"
      using True by (simp add: checkCompleteSdu_def Let_def)
    then show ?thesis by (cases "ar_firstSdu r2 = - 1") (auto intro: exI[of _ "ar_firstSdu r2"])
  next
    case False
    have "holds_sdu (ar_pduBuffer r2) (ar_received r2) (rs_snoMainPacket sdu) 0 c"
      using filled_frag_at[OF r2(2) b] c False by (auto simp: holds_sdu_def)
    from checkCompleteSdu_found[OF this _ _ W, of c env now] False show ?thesis by simp
  qed
  then obtain s where s: "checkCompleteSdu env now c r2 = passUp env now 0 (r2\<lparr>ar_firstSdu := s\<rparr>)" by blast
  have "\<exists>r'. passUp env now 0 (r2\<lparr>ar_firstSdu := s\<rparr>) = Inr r' \<and>
      handed (ar_out r') = handed (ar_out (r2\<lparr>ar_firstSdu := s\<rparr>)) @ [(rs_pdcp sdu, ap_info (am_frag unit n first sdu info 0))]"
    using r2(2,4) W known by (intro passUp_start) (auto simp: filled_def rx_len_def flow_known_def am_frag_def)
  then show ?thesis using r2(1,3) s by (simp add: am_frag_def)
qed

lemma rx_all:
  assumes "filled unit n first sdu info c r" "unat first + n < 2 ^ 31" "c < n" "flow_known env info" "length ts = n - c"
  shows "\<exists>r'. foldE (\<lambda>(t, p). rx_enque env t p) (zip ts (map (am_frag unit n first sdu info) [c..<n])) r = Inr r' \<and>
    handed (ar_out r') = handed (ar_out r) @ [(rs_pdcp sdu, info)]"
  using assms(1,3,5)
proof (induction "n - c" arbitrary: c r ts)
  case (Suc x)
  obtain t ts' where ts: "ts = t # ts'" "length ts' = n - Suc c" using Suc.prems(2,3) by (cases ts) auto
  have u: "[c..<n] = c # [Suc c..<n]" using Suc.prems(2) by (simp add: upt_conv_Cons)
  show ?case
  proof (cases "n = Suc c")
    case True
    then show ?thesis using rx_enque_last[OF Suc.prems(1) assms(2) True assms(4), of t] ts u by auto
  next
    case False
    then have l: "Suc c < n" using Suc.prems(2) by simp
    obtain r1 where r1: "rx_enque env t (am_frag unit n first sdu info c) r = Inr r1"
      "filled unit n first sdu info (Suc c) r1" "handed (ar_out r1) = handed (ar_out r)"
      using rx_enque_waits[OF Suc.prems(1) assms(2) l, of env t] by blast
    have "x = n - Suc c" using Suc.hyps(2) by simp
    from Suc.hyps(1)[OF this r1(2) l ts(2)] show ?thesis using r1(1,3) unfolding ts u by simp
  qed
qed simp

text \<open>From queue to queue.\<close>

lemma am_transfer_in_order:
  assumes "am_reach slot q" "slot_law slot" "at_currentSdu q = None" "at_sduQueue q = []" "tx_count q = 0"
    and "0 < fd_fragUnit (at_fragDesc q)" "0 < rs_bytes sdu" "rs_bytes sdu < 2 ^ 32"
    and "am_frag_count (fd_fragUnit (at_fragDesc q)) sdu \<le> tx_size q"
    and "rx_len r" "ar_firstSeqNum r = at_firstSeqNum q" "am_frag_count (fd_fragUnit (at_fragDesc q)) sdu \<le> unat (ar_windowSize r)"
    and "\<forall>j. carr_get (ar_pduBuffer r) j = None" "\<forall>j < unat (ar_windowSize r). \<not> ar_received r ! j" "flow_known env info"
  shows "\<exists>q' pdus. am_enque now (sdu, info) q = Inr q' \<and> sends (at_out q') = sends (at_out q) @ pdus \<and>
    length pdus = am_frag_count (fd_fragUnit (at_fragDesc q)) sdu \<and>
    (\<forall>p \<in> set pdus. ap_amType p = AM_DATA \<and> ap_info p = info) \<and>
    (\<forall>ts. length ts = length pdus \<longrightarrow> (\<exists>r'. foldE (\<lambda>(t, p). rx_enque env t p) (zip ts pdus) r = Inr r' \<and>
       handed (ar_out r') = handed (ar_out r) @ [(rs_pdcp sdu, info)]))"
proof -
  let ?n = "am_frag_count (fd_fragUnit (at_fragDesc q)) sdu" and ?u = "fd_fragUnit (at_fragDesc q)"
  have ok: "am_ok q" by (rule am_reach_ok[OF assms(1,2)])
  then have w: "tx_first q + tx_size q < 2 ^ 31" by (simp add: am_ok_def win_ok_def)
  have sq: "at_seqNum q = at_firstSeqNum q" using seqNum_eq[of q] assms(5) by (simp add: tx_sn_def)
  have n: "tx_count q + ?n \<le> tx_size q" using assms(5,9) by simp
  have n0: "0 < ?n" by (rule am_enque_cut(1)[OF ok assms(3,4,6,7,8) refl n])
  from am_enque_cut(2)[OF ok assms(3,4,6,7,8) refl n, of now info] obtain q' where
    q': "am_enque now (sdu, info) q = Inr q'"
      "sends (at_out q') = sends (at_out q) @ map (am_frag ?u ?n (at_seqNum q) sdu info) [0..<?n]" by blast
  have b: "unat (at_seqNum q) + ?n < 2 ^ 31" using w assms(9) by (simp add: sq tx_first_def)
  have f: "filled ?u ?n (at_seqNum q) sdu info 0 r" using assms(10-14) by (simp add: filled_def sq)
  have "\<exists>r'. foldE (\<lambda>(t, p). rx_enque env t p) (zip ts (map (am_frag ?u ?n (at_seqNum q) sdu info) [0..<?n])) r = Inr r' \<and>
      handed (ar_out r') = handed (ar_out r) @ [(rs_pdcp sdu, info)]" if "length ts = ?n" for ts
    using rx_all[OF f b n0 assms(15)] that by simp
  then show ?thesis using q'
    by (intro exI[of _ q'] exI[of _ "map (am_frag ?u ?n (at_seqNum q) sdu info) [0..<?n]"]) (simp add: am_frag_def)
qed

section \<open>Instances\<close>

text \<open>The first two PDUs of the SDU in a window of three, and all three of them.\<close>

definition ex_pdus :: "am_pdu list" where
  "ex_pdus = sends (at_out ex_am_tx)"

definition ex_rx_two :: am_rx where
  "ex_rx_two = projr (foldE (rx_enque ex_rx_env 0) (take 2 ex_pdus) (am_rx_new 3 1 10))"

definition ex_rx_full :: am_rx where
  "ex_rx_full = projr (rx_enque ex_rx_env 0 (ex_pdus ! 2) ex_rx_two)"

lemma ex_rx_two_values:
  "ar_received ex_rx_two = [True, True, False] \<and> length (ar_discarded ex_rx_two) = 3 \<and> ar_windowSize ex_rx_two = 3 \<and>
   ar_firstSeqNum ex_rx_two = 0 \<and> carr_get (ar_pduBuffer ex_rx_two) 2 = None \<and>
   carr_get (ar_pduBuffer ex_rx_two) 0 = Some (ex_pdus ! 0)"
  by code_simp

lemma ex_pdus_values:
  "ap_amType (ex_pdus ! 2) = AM_DATA \<and> ap_snoFragment (ex_pdus ! 2) = 2 \<and> ap_sdu (ex_pdus ! 0) = Some ex_sdu \<and>
   ap_info (ex_pdus ! 0) = ex_flow \<and> ap_amType (ex_pdus ! 0) = AM_DATA"
  by code_simp

lemma ex_rx_two_holds:
  "list_all (frag_at (carr_set (ar_pduBuffer ex_rx_two) 2 (Some (ex_pdus ! 2))) ((ar_received ex_rx_two)[2 := True]) 8 0 2) [0, 1, 2]"
  by code_simp

lemma ex_rx_full_values:
  "ar_received ex_rx_full = [True, True, True] \<and> length (ar_discarded ex_rx_full) = 3 \<and> ar_windowSize ex_rx_full = 3 \<and>
   ar_firstSeqNum ex_rx_full = 0"
  by code_simp

lemma ex_flow_known: "flow_known ex_rx_env ex_flow"
  by (simp add: flow_known_def ex_rx_env_def ex_env_def ex_flow_def)

lemma am_rx_window_move_instance:
  "\<exists>r'. moveRxWindow 2 ex_rx_full = Inr r' \<and> ar_received r' = [True, True, False] \<and> unat (ar_firstSeqNum r') = 2"
proof -
  note v = ex_rx_full_values
  have "rx_len ex_rx_full" using v by (simp add: rx_len_def)
  from am_rx_window_move[OF this, of 2] v obtain r' where
    r': "moveRxWindow 2 ex_rx_full = Inr r'" "rx_len r'" "unat (ar_firstSeqNum r') = 2" "ar_windowSize r' = 3"
      "\<forall>j < 3. ar_received r' ! j = (if j + 2 < 3 then ar_received ex_rx_full ! (j + 2) else j < 2 \<and> ar_received ex_rx_full ! j)"
    by auto
  have "length (ar_received r') = 3" using r'(2,4) by (simp add: rx_len_def)
  then have "ar_received r' = [True, True, False]"
    using r'(5) v by (intro nth_equalityI) (auto simp: less_Suc_eq numeral_3_eq_3)
  then show ?thesis using r' by blast
qed

text \<open>The last two of them, which leave the start of the window empty.\<close>

definition ex_rx_rest :: am_rx where
  "ex_rx_rest = projr (foldE (rx_enque ex_rx_env 0) (drop 1 ex_pdus) (am_rx_new 3 1 10))"

lemma ex_rx_rest_values:
  "ar_received ex_rx_rest = [False, True, True] \<and> length (ar_discarded ex_rx_rest) = 3 \<and> ar_windowSize ex_rx_rest = 3 \<and>
   ar_firstSeqNum ex_rx_rest = 0 \<and> carr_get (ar_pduBuffer ex_rx_rest) 0 = None \<and> ap_snoFragment (ex_pdus ! 0) = 0"
  by code_simp

lemma ex_rx_rest_holds:
  "list_all (frag_at (carr_set (ar_pduBuffer ex_rx_rest) 0 (Some (ex_pdus ! 0))) ((ar_received ex_rx_rest)[0 := True]) 8 0 2) [0, 1, 2]"
  by code_simp

theorem am_rx_completes_sdu_witness:
  "(\<exists>r'. rx_enque ex_rx_env 0 (ex_pdus ! 2) ex_rx_two = Inr r' \<and>
     handed (ar_out r') = handed (ar_out ex_rx_two) @ [(ex_pdcp, ex_flow)]) \<and>
   \<not> is_ok (rx_enque ex_rx_env 0 (ex_pdus ! 0) ex_rx_rest)"
proof
  note v = ex_rx_two_values ex_pdus_values ex_flow_known
  have len: "rx_len ex_rx_two" "ar_windowSize ex_rx_two \<noteq> 0" using v by (simp_all add: rx_len_def)
  have w: "unat (ap_snoFragment (ex_pdus ! 2)) = unat (ar_firstSeqNum ex_rx_two) + 2" "2 < unat (ar_windowSize ex_rx_two)"
    "unat (ap_snoFragment (ex_pdus ! 2)) < 2 ^ 31" "\<not> ar_received ex_rx_two ! 2" "carr_get (ar_pduBuffer ex_rx_two) 2 = None"
    using v by simp_all
  have h: "holds_sdu (carr_set (ar_pduBuffer ex_rx_two) 2 (Some (ex_pdus ! 2))) ((ar_received ex_rx_two)[2 := True]) 8 0 2"
    unfolding holds_sdu_def using ex_rx_two_holds by (auto simp: le_Suc_eq numeral_2_eq_2)
  have t: "ap_amType (ex_pdus ! 2) = AM_DATA" "carr_get (ar_pduBuffer ex_rx_two) 0 = Some (ex_pdus ! 0)"
    "passes_up ex_rx_env (ex_pdus ! 0)" "the (ap_sdu (ex_pdus ! 0)) = ex_sdu" "rs_pdcp ex_sdu = ex_pdcp"
    using v by (simp_all add: flow_known_def passes_up_def ex_sdu_def)
  from am_rx_completes_sdu[OF t(1) len w h, of ex_rx_env 0]
  show "\<exists>r'. rx_enque ex_rx_env 0 (ex_pdus ! 2) ex_rx_two = Inr r' \<and>
     handed (ar_out r') = handed (ar_out ex_rx_two) @ [(ex_pdcp, ex_flow)]" using t v by simp
next
  note v = ex_rx_rest_values ex_pdus_values
  have len: "rx_len ex_rx_rest" "ar_windowSize ex_rx_rest \<noteq> 0" using v by (simp_all add: rx_len_def)
  have w: "unat (ap_snoFragment (ex_pdus ! 0)) = unat (ar_firstSeqNum ex_rx_rest) + 0" "0 < unat (ar_windowSize ex_rx_rest)"
    "unat (ap_snoFragment (ex_pdus ! 0)) < 2 ^ 31" "\<not> ar_received ex_rx_rest ! 0" "carr_get (ar_pduBuffer ex_rx_rest) 0 = None"
    using v by simp_all
  have h: "holds_sdu (carr_set (ar_pduBuffer ex_rx_rest) 0 (Some (ex_pdus ! 0))) ((ar_received ex_rx_rest)[0 := True]) 8 0 2"
    unfolding holds_sdu_def using ex_rx_rest_holds by (auto simp: le_Suc_eq numeral_2_eq_2)
  have t: "ap_amType (ex_pdus ! 0) = AM_DATA" using v by simp
  from am_rx_completes_sdu[OF t len w h, of ex_rx_env 0]
  show "\<not> is_ok (rx_enque ex_rx_env 0 (ex_pdus ! 0) ex_rx_rest)" using w(5) by simp
qed

theorem am_rx_stale_position_throws_witness:
  "\<exists>r'. moveRxWindow 3 ex_rx_full = Inr r' \<and> \<not> is_ok (rx_enque ex_rx_env 1 ((ex_pdus ! 0)\<lparr>ap_snoFragment := 3\<rparr>) r')"
proof -
  note v = ex_rx_full_values ex_pdus_values
  have "rx_len ex_rx_full" using v by (simp add: rx_len_def)
  from am_rx_stale_position_throws[OF this, of 3 0 "(ex_pdus ! 0)\<lparr>ap_snoFragment := 3\<rparr>" ex_rx_env 1] v
  show ?thesis by auto
qed

end
