(* ===== verification/LteRlcAm.thy ===== *)
theory LteRlcAm
  imports LteRlc AmTransfer
begin

text \<open>
  The module of the acknowledged mode (\<^verbatim>\<open>simulte/src/stack/rlc/am/LteRlcAm.cc\<close>): it keeps a
  transmission and a reception queue per connection and creates them at the first packet.  What a
  queue sends through the module stays among the outputs of the queue.
\<close>

section \<open>The module\<close>

text \<open>\<open>ra_newTx\<close> and \<open>ra_newRx\<close> are the queues as \<open>createScheduleInit\<close> makes them from the parameters.\<close>

record am_entity =
  ra_txBuffers :: "(u32 \<times> am_tx) list"
  ra_rxBuffers :: "(u32 \<times> am_rx) list"
  ra_newTx :: am_tx
  ra_newRx :: am_rx






definition am_deleteQueues :: "mac_node_id \<Rightarrow> am_entity \<Rightarrow> am_entity result" where
  "am_deleteQueues nodeId e =
     (if list_ex (\<lambda>(cid, _). MacCidToNodeId cid = nodeId) (ra_txBuffers e)
         \<or> list_ex (\<lambda>(cid, _). MacCidToNodeId cid = nodeId) (ra_rxBuffers e)
      then Inl (Undefined ''increment of an invalid iterator'') else Inr e)"

section \<open>The queues of a connection\<close>












section \<open>Instances\<close>



end
