(* ===== verification/Spec2Isabelle.thy ===== *)
theory Spec2Isabelle
  imports HarqRxScenario LteRlc AllocatorContract TcpSackSpec TcpFlavourSafety TcpFinRecovery TcpDefects LteRlcAm
begin

text \<open>
  Verification of protocol code of a simulator of LTE vehicular networks.

  \<^bold>\<open>The program.\<close>  The repository joins three discrete event simulators: SimuLTE
  (\<^verbatim>\<open>src/simulte\<close>, the LTE user plane), INET (\<^verbatim>\<open>src/inet\<close>, the Internet protocols) and Veins
  (\<^verbatim>\<open>src/veins\<close>, vehicles).  A packet of an application goes through TCP, is numbered and its
  header compressed by PDCP, is cut into PDUs by RLC, and is sent by the MAC layer in blocks that
  the allocator books and that H-ARQ repeats until they are decoded; the layers of the receiving
  node undo this.  What is modelled is the logic of these layers that decides by itself: the queues,
  windows, timers and state machines, with their arithmetic at its width and their errors.

  \<^bold>\<open>How the code is rendered.\<close>  (\<open>Prelude\<close>)  A class is a record, a method a function from the
  state to its result; what it sends, and its calls to the simulation kernel, are returned as a list
  or appended to an output field.  An \<open>unsigned int\<close> is a 32 bit word and wraps; an \<open>int\<close> is an
  integer, brought back into its range where the code relies on that.  \<open>'a result\<close> is an error or a
  value: a thrown exception, an access of \<open>at\<close> out of range, behaviour that the language leaves
  undefined, or \<open>NoReturn\<close>.  Assertions count as thrown, as in a debug build.  A loop that the code
  does not bound is a \<open>partial_function (option)\<close>; the properties prove that it returns, or that it
  does not.  \<open>add_pdus_loop\<close> has a bound instead: each round fills a place of the window, so the size
  of the window is enough (lemma \<open>add_pdus_loop_ok\<close>: it ends because nothing more can be sent).

  \<^bold>\<open>Parts, from below.\<close>

  \<^item> Time (\<open>Timers\<close>; \<^verbatim>\<open>common/timer/TTimer.cc\<close>): the one-shot timer and the multi-timer, a queue of events
    of which only the earliest has a message in the kernel.  The multi-timer refines a finite map
    (\<open>mt_abs\<close>), its message is always that of its earliest event, and a run against a model of the
    kernel delivers each event when it is due.
  \<^item> H-ARQ (\<open>LteTypes\<close>, \<open>HarqUnitTx\<close>, \<open>HarqProcessTx\<close>, \<open>HarqBufferTx\<close>, \<open>HarqTxScenario\<close>, \<open>HarqProcessRx\<close>, \<open>HarqBufferRx\<close>,
    \<open>HarqRxScenario\<close>; \<^verbatim>\<open>stack/mac/buffer/harq\<close>): units of one codeword, processes of several units, buffers of
    eight processes, on both sides, with step relations and their invariants.  The locale \<open>harq_unit\<close> is what a
    process asks of a unit, \<open>rx_unit_loop\<close> what the three loops of the receiving buffer share.  A PDU is given
    up after its allowed transmissions, feedback is sent once per evaluated PDU, exactly the correct PDUs are
    delivered, and a PDU sent, received and answered frees its unit.
  \<^item> The allocator (\<open>Allocation\<close>, \<open>AllocatorContract\<close>; \<^verbatim>\<open>stack/mac/allocator/LteAllocationModule.cc\<close>): blocks per
    plane, antenna, band and user.  Its state refines a table of blocks; no band is given more than its share,
    whatever the order of requests, removals, peerings and reconfigurations.
  \<^item> RLC, unacknowledged (\<open>UmFragbuf\<close>, \<open>UmQueues\<close>, \<open>UmReassembly\<close>; \<^verbatim>\<open>stack/rlc/um/buffer\<close>): fragmentation, reassembly by
    bitmap and size, and the reassembly timeout.  The locale \<open>event_timer\<close> is what the queue asks of its timer.
  \<^item> RLC, acknowledged (\<open>AmTxQueue\<close>, \<open>AmTxWindow\<close>, \<open>AmTxOps\<close>, \<open>AmTxSafety\<close>, \<open>AmRxQueue\<close>, \<open>AmRxReport\<close>, \<open>AmRxWindow\<close>, \<open>AmTransfer\<close>,
    \<open>LteRlcAm\<close>; \<^verbatim>\<open>stack/rlc/am\<close>): the sending window with its retransmission timers and window commands, the
    receiving window with its reports.  The invariant \<open>am_ok\<close> ties PDUs, marks and timers to the sequence
    numbers; with a receiver that reports only what was sent (\<open>honest\<close>), the sender never throws.  A report
    brings the marks of the sender to those of the receiver.  A packet sent in order arrives once; when the SDU does
    not lie at the start of the window, or its first fragment comes last, or the window moves far, it does not.
  \<^item> The modules of PDCP and RLC (\<open>Binder\<close>, \<open>ConnectionsTable\<close>, \<open>Pdcp\<close>, \<open>LteRlc\<close>; \<^verbatim>\<open>stack/pdcp_rrc\<close>, \<^verbatim>\<open>stack/rlc\<close>,
    \<^verbatim>\<open>corenetwork/binder\<close>): flows numbered by a hash table without a bound on its probes, header compression, and
    the queues per connection.  A data packet goes from the PDCP layer of one node to that of another unchanged.
  \<^item> TCP data (\<open>TcpSeq\<close>, \<open>TcpRcvQueue\<close>, \<open>TcpSendQueue\<close>, \<open>TcpSackQueue\<close>, \<open>TcpSackSpec\<close>; \<^verbatim>\<open>inet/src/transport/tcp/queues\<close>,
    \<^verbatim>\<open>TCPSACKRexmitQueue.cc\<close>): circular numbers, regions received, bytes to send, and the retransmission queue, which
    refines a scoreboard of two sets of numbers.  Numbers are compared within half of their range
    (\<open>near\<close>), as the code's comparison requires.
  \<^item> TCP connection (\<open>TcpConn\<close>, \<open>TcpOptions\<close>, \<open>TcpReceive\<close>, \<open>TcpFsm\<close>, \<open>TcpCommands\<close>, \<open>TcpReassembly\<close>, \<open>TcpText\<close>, \<open>TcpAck\<close>, \<open>TcpSetup\<close>,
    \<open>TcpFrame\<close>, \<open>TcpSafety\<close>; \<^verbatim>\<open>TCPConnection*.cc\<close>): segment arrival in all states, application commands, timers.
    The locale \<open>conn_property\<close> passes a predicate through every handler; the states only move on along the diagram of
    RFC 793.  \<open>stream_receiver\<close> gives the delivery of the byte stream, once and in order, for segments that come in
    any order, repeated and overlapping.
  \<^item> TCP sending (\<open>TcpSend\<close>, \<open>TcpRecovery\<close>, \<open>TcpPipe\<close>, \<open>TcpBaseAlg\<close>, \<open>TcpFlavours\<close>, \<open>TcpFlavourSafety\<close>, \<open>TcpSendSafety\<close>,
    \<open>TcpSenderOps\<close>, \<open>TcpFlavourAck\<close>, \<open>TcpEstablished\<close>, \<open>TcpFinRecovery\<close>, \<open>TcpDefects\<close>; \<^verbatim>\<open>flavours/\<close>, \<^verbatim>\<open>TCPConnectionSackUtil.cc\<close>): sending within the
    windows, with and without the Nagle algorithm, loss recovery, and no congestion control, Tahoe, Reno, NewReno and the dumb flavour.  \<open>setPipe\<close>
    computes the pipe of RFC 3517, timeouts stay bounded in every flavour, and a whole segment in \<open>ESTABLISHED\<close> is
    processed without a failure and with its effect.

  \<^bold>\<open>Assumptions.\<close>  They are hypotheses of the properties, each with an instance that satisfies them.  TCP: the
  arithmetic that goes through \<open>double\<close> (\<open>te_eighth\<close>, the conversions of time stamps) and the choice of the initial
  number are parameters of the environment; the properties of a whole segment are about the default
  connection, without timestamps, SACK and window scaling (\<open>plain\<close>), whose congestion windows do not make the growth
  of the window divide by zero (\<open>divides_safely\<close>; \<open>threshold_ok\<close> gives it and is kept by every acknowledgment).  The properties on the errors of
  SACK and of options have premises of their own (\<open>sack_sender\<close>, \<open>setup_option\<close>).  RLC: \<open>decap_law\<close> says that decapsulating
  a fragment gives what it was made of, \<open>slot_law\<close> that \<open>cArray::add\<close> takes the first free place, \<open>ae_soon\<close> is the
  comparison of times in \<open>double\<close>, \<open>um_env\<close> and \<open>am_rx_env\<close> tell which nodes exist.  The numbers of the acknowledged mode
  stay below 2 to the 31 (the code indexes with \<open>int\<close>).  The allocator's totals are below 2 to the 31.

  \<^bold>\<open>Errors found.\<close>  Several properties state what the code does where it does not do what it means to: data lost
  beside a FIN, an event overwritten, a table that makes a lookup run for ever, an assertion that a closed connection
  violates during recovery, timeouts assigned to the wrong variable, a wrong packet handed up in acknowledged mode.

  \<^bold>\<open>Not modelled.\<close>  The MAC main loops and schedulers, adaptive modulation and the physical layer, which decide by
  floating point channel models; module set-up, statistics, printing and the simulation kernel; the
  GTP tunnels, applications and mobility; in INET everything but TCP and in TCP the flavours Vegas and Westwood
  (windows in floating point), the module's tables and the external stacks; Veins.  Copying and ownership of packets has
  no counterpart: a packet is a value.
\<close>

end
